(* ===== verification/Prelude.thy ===== *)
theory Prelude
  imports Main "HOL-Library.Word" "HOL-Library.Multiset" "HOL-Library.AList"
begin

text \<open>
  What every component of the model shares: the machine integers of the C++ code, its failures as
  values, loops over containers, and the library's \<open>std::unordered_map\<close> as an association list.

  \<^item> A \<open>uint8_t\<close>, \<open>uint16_t\<close>, \<open>uint32_t\<close>, \<open>uint64_t\<close> is a word of that width. C++ promotes a
    \<open>uint8_t\<close> or \<open>uint16_t\<close> operand to \<open>int\<close>, so the definitions state at which width each operation
    is done.
  \<^item> A failure is a value of \<^theory_text>\<open>error\<close>. \<open>NS_ASSERT\<close> stops the program in the build profile the
    repository is configured with (\<open>BUILD_PROFILE = 'default'\<close>, assertions on), \<open>NS_ABORT_IF\<close> and
    \<open>NS_FATAL_ERROR\<close> in every profile; \<open>at()\<close> out of range throws \<open>std::out_of_range\<close>; what the C++
    standard leaves undefined (an integer division by zero, a dereferenced \<open>end()\<close>, a read of an
    empty container's last element) is \<^theory_text>\<open>Undefined\<close>.
  \<^item> An \<open>unordered_map\<close> is the list of its entries in iteration order. The order is not specified by
    C++, and no theorem fixes it.
\<close>

unbundle bit_operations_syntax

type_synonym u8 = "8 word"
type_synonym u16 = "16 word"
type_synonym u32 = "32 word"
type_synonym u64 = "64 word"

datatype error =
    AssertFailed
  | Aborted
  | FatalError
  | OutOfRange
  | Undefined

type_synonym 'a res = "error + 'a"

named_theorems res_simps "unfolding of the error-passing combinators"

lemma ucast_u8_u32_u8 [simp]: "ucast (ucast (k :: u8) :: u32) = k"
  by (rule bit_word_eqI) (auto simp: bit_simps)

text \<open>Numbers read off machine words.\<close>

lemma u_lt: "unat (k :: 'a::len word) < 2 ^ LENGTH('a)"
  by (rule unsigned_less)

lemma unat_ucast_u8_u32 [simp]: "unat (ucast (k :: u8) :: u32) = unat k"
  using u_lt[of k] by (simp add: unsigned_ucast_eq take_bit_nat_eq_self_iff)

lemma unat_ucast_u16_u32 [simp]: "unat (ucast (k :: u16) :: u32) = unat k"
  using u_lt[of k] by (simp add: unsigned_ucast_eq take_bit_nat_eq_self_iff)

lemma unat_ucast_u8_u64 [simp]: "unat (ucast (k :: u8) :: u64) = unat k"
  using u_lt[of k] by (simp add: unsigned_ucast_eq take_bit_nat_eq_self_iff)

lemma unat_plus1:
  assumes "k < (m :: 'a::len word)"
  shows "unat (k + 1) = Suc (unat k)"
proof -
  have "unat k + 1 < 2 ^ LENGTH('a)" using assms u_lt[of m] unfolding word_less_nat_alt by linarith
  then show ?thesis by (simp add: unat_word_ariths)
qed

subsection \<open>Error passing\<close>

definition bindE :: "'a res \<Rightarrow> ('a \<Rightarrow> 'b res) \<Rightarrow> 'b res" where
  "bindE r f = (case r of Inl e \<Rightarrow> Inl e | Inr x \<Rightarrow> f x)"

definition ns_assert :: "bool \<Rightarrow> 'a res \<Rightarrow> 'a res" where
  "ns_assert b k = (if b then k else Inl AssertFailed)"

definition ns_abort_if :: "bool \<Rightarrow> 'a res \<Rightarrow> 'a res" where
  "ns_abort_if b k = (if b then Inl Aborted else k)"

definition defined_if :: "bool \<Rightarrow> 'a res \<Rightarrow> 'a res" where
  "defined_if b k = (if b then k else Inl Undefined)"

lemma bindE_simps [simp]:
  "bindE (Inl e) f = Inl e"
  "bindE (Inr x) f = f x"
  by (simp_all add: bindE_def)

lemma bindE_Inr_iff [res_simps]: "bindE r f = Inr y \<longleftrightarrow> (\<exists>x. r = Inr x \<and> f x = Inr y)"
  by (cases r) auto

lemma bindE_assoc: "bindE (bindE r f) g = bindE r (\<lambda>x. bindE (f x) g)"
  by (cases r) auto

lemma bindE_cong [fundef_cong]:
  "r = r' \<Longrightarrow> (\<And>x. r' = Inr x \<Longrightarrow> f x = g x) \<Longrightarrow> bindE r f = bindE r' g"
  by (cases r') auto

lemma ns_assert_simps [simp]: "ns_assert True k = k" "ns_assert False k = Inl AssertFailed"
  by (simp_all add: ns_assert_def)

lemma ns_assert_Inr_iff [res_simps]: "ns_assert b k = Inr y \<longleftrightarrow> b \<and> k = Inr y"
  by (simp add: ns_assert_def)

lemma ns_abort_if_simps [simp]: "ns_abort_if True k = Inl Aborted" "ns_abort_if False k = k"
  by (simp_all add: ns_abort_if_def)

lemma ns_abort_if_Inr_iff [res_simps]: "ns_abort_if b k = Inr y \<longleftrightarrow> \<not> b \<and> k = Inr y"
  by (simp add: ns_abort_if_def)

lemma defined_if_simps [simp]: "defined_if True k = k" "defined_if False k = Inl Undefined"
  by (simp_all add: defined_if_def)

lemma defined_if_Inr_iff [res_simps]: "defined_if b k = Inr y \<longleftrightarrow> b \<and> k = Inr y"
  by (simp add: defined_if_def)

subsection \<open>Loops over a container\<close>

text \<open>A range \<open>for\<close> whose body updates a state and may fail.\<close>

fun foldE :: "('s \<Rightarrow> 'a \<Rightarrow> 's res) \<Rightarrow> 's \<Rightarrow> 'a list \<Rightarrow> 's res" where
  "foldE f s [] = Inr s"
| "foldE f s (x # xs) = bindE (f s x) (\<lambda>s'. foldE f s' xs)"

lemma foldE_cong [fundef_cong]:
  "s = t \<Longrightarrow> xs = ys \<Longrightarrow> (\<And>s x. x \<in> set ys \<Longrightarrow> f s x = g s x) \<Longrightarrow> foldE f s xs = foldE g t ys"
  by (induction ys arbitrary: s t xs) (auto intro!: bindE_cong)

lemma foldE_append: "foldE f s (xs @ ys) = bindE (foldE f s xs) (\<lambda>s'. foldE f s' ys)"
  by (induction xs arbitrary: s) (auto simp: bindE_assoc)

lemma foldE_invariant:
  assumes "foldE f s xs = Inr s'" and "P s"
    and "\<And>s x s'. x \<in> set xs \<Longrightarrow> P s \<Longrightarrow> f s x = Inr s' \<Longrightarrow> P s'"
  shows "P s'"
  using assms
proof (induction xs arbitrary: s)
  case Nil
  then show ?case by simp
next
  case (Cons x xs)
  from Cons.prems(1) obtain t where t: "f s x = Inr t" "foldE f t xs = Inr s'"
    by (auto simp: res_simps)
  have "P t" using Cons.prems(2,3) t(1) by (meson list.set_intros(1))
  with t(2) show ?case using Cons.IH Cons.prems(3) by (meson list.set_intros(2))
qed

lemma foldE_total:
  assumes "P s" and "\<And>s x. x \<in> set xs \<Longrightarrow> P s \<Longrightarrow> \<exists>s'. f s x = Inr s' \<and> P s'"
  shows "\<exists>s'. foldE f s xs = Inr s' \<and> P s'"
  using assms
proof (induction xs arbitrary: s)
  case Nil
  then show ?case by simp
next
  case (Cons x xs)
  obtain t where t: "f s x = Inr t" "P t"
    using Cons.prems by (meson list.set_intros(1))
  with Cons.IH[of t] Cons.prems(2) show ?case by auto
qed

lemma foldE_pure: "foldE (\<lambda>s x. Inr (g s x)) s xs = Inr (foldl g s xs)"
  by (induction xs arbitrary: s) auto

subsection \<open>Containers\<close>

text \<open>\<open>std::unordered_map::at\<close>, \<open>operator[]\<close> on an existing key, \<open>emplace\<close> and \<open>erase\<close>.\<close>

definition map_at :: "'k \<Rightarrow> ('k \<times> 'v) list \<Rightarrow> 'v res" where
  "map_at k m = (case map_of m k of None \<Rightarrow> Inl OutOfRange | Some v \<Rightarrow> Inr v)"

definition map_deref :: "'k \<Rightarrow> ('k \<times> 'v) list \<Rightarrow> 'v res" where
  \<comment> \<open>\<open>m.find(k)->second\<close>: a dereferenced \<open>end()\<close> is undefined\<close>
  "map_deref k m = (case map_of m k of None \<Rightarrow> Inl Undefined | Some v \<Rightarrow> Inr v)"

definition map_emplace :: "'k \<Rightarrow> 'v \<Rightarrow> ('k \<times> 'v) list \<Rightarrow> ('k \<times> 'v) list" where
  "map_emplace k v m = (if map_of m k = None then m @ [(k, v)] else m)"

lemma map_at_Inr_iff [res_simps]: "map_at k m = Inr v \<longleftrightarrow> map_of m k = Some v"
  by (simp add: map_at_def split: option.splits)

lemma map_deref_Inr_iff [res_simps]: "map_deref k m = Inr v \<longleftrightarrow> map_of m k = Some v"
  by (simp add: map_deref_def split: option.splits)

lemma map_at_SomeI [simp]: "map_of m k = Some v \<Longrightarrow> map_at k m = Inr v"
  by (simp add: map_at_def)

lemma map_deref_SomeI [simp]: "map_of m k = Some v \<Longrightarrow> map_deref k m = Inr v"
  by (simp add: map_deref_def)

lemma map_of_emplace:
  "map_of (map_emplace k v m) = (if map_of m k = None then (map_of m)(k \<mapsto> v) else map_of m)"
  by (auto simp: map_emplace_def map_add_def fun_eq_iff split: option.splits)

lemma fst_map_emplace:
  "map fst (map_emplace k v m) = (if k \<in> fst ` set m then map fst m else map fst m @ [k])"
  by (auto simp: map_emplace_def map_of_eq_None_iff)

lemma distinct_map_emplace:
  "distinct (map fst m) \<Longrightarrow> distinct (map fst (map_emplace k v m))"
  by (auto simp: fst_map_emplace)

lemma set_AList_update: "set (AList.update k v m) \<subseteq> insert (k, v) (set m)"
  by (induction m) auto

lemma Ball_AList_update:
  "(\<And>x. x \<in> set m \<Longrightarrow> P x) \<Longrightarrow> P (k, v) \<Longrightarrow> x \<in> set (AList.update k v m) \<Longrightarrow> P x"
  using set_AList_update[of k v m] by blast

lemma length_AList_update: "map_of m k = Some c \<Longrightarrow> length (AList.update k v m) = length m"
  by (induction m) (auto split: if_splits)

lemma keys_AList_update:
  "map_of m k = Some c \<Longrightarrow> map fst (AList.update k v m) = map fst m"
  by (induction m) (auto split: if_splits)

lemmas map_of_update = AList.update_conv'

text \<open>\<open>std::vector::at\<close>.\<close>

definition vec_at :: "'a list \<Rightarrow> nat \<Rightarrow> 'a res" where
  "vec_at xs i = (if i < length xs then Inr (xs ! i) else Inl OutOfRange)"

lemma vec_at_Inr_iff [res_simps]: "vec_at xs i = Inr v \<longleftrightarrow> i < length xs \<and> xs ! i = v"
  by (simp add: vec_at_def)

lemma vec_at_simps [simp]: "i < length xs \<Longrightarrow> vec_at xs i = Inr (xs ! i)"
  by (simp add: vec_at_def)

subsection \<open>Periods\<close>

text \<open>A counter meets every residue exactly once in a period.\<close>

lemma residue_inj:
  fixes P c i j :: nat
  assumes "(c + i) mod P = (c + j) mod P" and "i \<le> j" and "j < P"
  shows "i = j"
proof -
  have "P dvd c + j - (c + i)" using assms(1,2) by (intro iffD1[OF mod_eq_dvd_iff_nat]) simp_all
  then show ?thesis using assms(2,3) by (auto dest: dvd_imp_le)
qed

lemma unique_residue:
  fixes P r c :: nat
  assumes "r < P"
  shows "\<exists>!i. i < P \<and> (c + i) mod P = r"
proof (rule ex_ex1I)
  have "(c + (r + P - c mod P) mod P) mod P = (c mod P + (r + P - c mod P)) mod P" by (simp add: mod_simps)
  also have "c mod P + (r + P - c mod P) = r + P"
    using mod_less_divisor[of P c] assms by linarith
  finally show "\<exists>i. i < P \<and> (c + i) mod P = r" using assms by (intro exI[of _ "(r + P - c mod P) mod P"]) simp
next
  fix i j assume "i < P \<and> (c + i) mod P = r" and "j < P \<and> (c + j) mod P = r"
  then show "i = j" using residue_inj[of c i P j] residue_inj[of c j P i] by (cases "i \<le> j") auto
qed

end
