(* ===== verification/SfnSf.thy ===== *)
theory SfnSf
  imports Prelude
begin

text \<open>
  The frame, subframe and slot number of the NR time grid: class \<open>SfnSf\<close> of
  \<open>contrib/nr/model/sfnsf.cc\<close> and \<open>sfnsf.h\<close>. The fields keep their C++ widths, the arithmetic its
  promotions: \<open>uint8_t + uint32_t\<close> is done at 32 bits, and assigning the result to a
  \<open>uint8_t\<close> truncates it.

  The abstract view is \<^theory_text>\<open>abs_slot\<close>, the number of slots since frame 0 as a natural number, and
  \<^theory_text>\<open>valid_sfn\<close>, what the counters of a slot of the grid satisfy.
\<close>

record sfnsf =
  frameNum :: u32
  subframeNum :: u8
  slotNum :: u8
  numerology :: u8

definition SfnSf_default :: sfnsf where
  "SfnSf_default = \<lparr>frameNum = 0, subframeNum = 0, slotNum = 0, numerology = 255\<rparr>"

definition SfnSf :: "u32 \<Rightarrow> u8 \<Rightarrow> u8 \<Rightarrow> u8 \<Rightarrow> sfnsf res" where
  "SfnSf fn sf sl num =
     ns_abort_if (num > 5)
       (Inr \<lparr>frameNum = fn, subframeNum = sf, slotNum = sl, numerology = num\<rparr>)"

definition GetEncoding :: "sfnsf \<Rightarrow> u64 res" where
  "GetEncoding p =
     ns_assert (numerology p \<le> 5)
       (Inr (push_bit 32 (ucast (frameNum p)) OR push_bit 24 (ucast (subframeNum p)) OR
             push_bit 16 (ucast (slotNum p)) OR push_bit 8 (ucast (numerology p))))"

definition GetEncodingWithSymStart :: "sfnsf \<Rightarrow> u8 \<Rightarrow> u64 res" where
  "GetEncodingWithSymStart p symStart =
     ns_assert (numerology p \<le> 5)
       (Inr (push_bit 32 (ucast (frameNum p)) OR push_bit 24 (ucast (subframeNum p)) OR
             push_bit 16 (ucast (slotNum p)) OR push_bit 8 (ucast (numerology p)) OR
             ucast symStart))"

definition GetEncForStreamWithSymStart :: "sfnsf \<Rightarrow> u8 \<Rightarrow> u8 \<Rightarrow> u64 res" where
  "GetEncForStreamWithSymStart p streamId symStart =
     ns_assert (numerology p \<ge> 0)
       (Inr (push_bit 56 (ucast (numerology p)) OR push_bit 40 (ucast (frameNum p)) OR
             push_bit 32 (ucast (subframeNum p)) OR push_bit 16 (ucast (slotNum p)) OR
             push_bit 8 (ucast symStart) OR ucast streamId))"

definition FromEncoding :: "u64 \<Rightarrow> sfnsf" where
  "FromEncoding sfn =
     \<lparr>frameNum = ucast (drop_bit 32 (sfn AND 0xFFFFFFFF00000000)),
      subframeNum = ucast (drop_bit 24 (sfn AND 0x00000000FF000000)),
      slotNum = ucast (drop_bit 16 (sfn AND 0x0000000000FF0000)),
      numerology = ucast (drop_bit 8 (sfn AND 0x000000000000FF00))\<rparr>"

definition GetSubframesPerFrame :: u32 where
  "GetSubframesPerFrame = 10"

definition GetSlotPerSubframe :: "sfnsf \<Rightarrow> u32" where
  \<comment> \<open>\<open>1 << m_numerology\<close> on an \<open>int\<close>; every caller has a numerology of at most 5\<close>
  "GetSlotPerSubframe p = push_bit (unat (numerology p)) 1"

definition Encode :: "sfnsf \<Rightarrow> u64 res" where
  "Encode p = GetEncoding p"

definition Decode :: "u64 \<Rightarrow> sfnsf" where
  "Decode sfn = FromEncoding sfn"

definition Normalize :: "sfnsf \<Rightarrow> u64" where
  "Normalize p =
     (let ret = 0 + ucast (slotNum p) :: u64;
          ret = ret + ucast (ucast (subframeNum p) * GetSlotPerSubframe p :: u32)
      in ret + ucast (frameNum p * GetSubframesPerFrame * GetSlotPerSubframe p :: u32))"

definition Add :: "sfnsf \<Rightarrow> u32 \<Rightarrow> sfnsf res" where
  "Add p slotN =
     ns_assert (numerology p \<le> 5)
       (let fr = frameNum p +
              (ucast (subframeNum p) + (ucast (slotNum p) + slotN) div GetSlotPerSubframe p)
                div GetSubframesPerFrame;
            p = p\<lparr>frameNum := fr\<rparr>;
            sf = (ucast (subframeNum p) + (ucast (slotNum p) + slotN) div GetSlotPerSubframe p)
                   mod GetSubframesPerFrame;
            p = p\<lparr>subframeNum := ucast sf\<rparr>;
            sl = (ucast (slotNum p) + slotN) mod GetSlotPerSubframe p
        in Inr (p\<lparr>slotNum := ucast sl\<rparr>))"

definition GetFutureSfnSf :: "sfnsf \<Rightarrow> u32 \<Rightarrow> sfnsf res" where
  "GetFutureSfnSf p slotN = Add p slotN"

definition sfn_less :: "sfnsf \<Rightarrow> sfnsf \<Rightarrow> bool res" where
  "sfn_less p rhs =
     ns_assert (numerology rhs = numerology p)
       (if frameNum p < frameNum rhs then Inr True
        else if frameNum p = frameNum rhs \<and> subframeNum p < subframeNum rhs then Inr True
        else if (frameNum p = frameNum rhs \<and> subframeNum p = subframeNum rhs) \<and>
                slotNum p < slotNum rhs then Inr True
        else Inr False)"

definition sfn_eq :: "sfnsf \<Rightarrow> sfnsf \<Rightarrow> bool res" where
  "sfn_eq p o2 =
     ns_assert (numerology o2 = numerology p)
       (Inr (frameNum p = frameNum o2 \<and> subframeNum p = subframeNum o2 \<and>
             slotNum p = slotNum o2))"

definition GetNumerology :: "sfnsf \<Rightarrow> u8 res" where
  "GetNumerology p = ns_assert (numerology p \<le> 5) (Inr (numerology p))"

subsection \<open>The abstract slot counter\<close>

definition slots_per_sf :: "sfnsf \<Rightarrow> nat" where
  "slots_per_sf p = 2 ^ unat (numerology p)"

definition abs_slot :: "sfnsf \<Rightarrow> nat" where
  "abs_slot p =
     (unat (frameNum p) * 10 + unat (subframeNum p)) * slots_per_sf p + unat (slotNum p)"

definition valid_sfn :: "sfnsf \<Rightarrow> bool" where
  "valid_sfn p \<longleftrightarrow>
     numerology p \<le> 5 \<and> unat (subframeNum p) < 10 \<and> unat (slotNum p) < slots_per_sf p"

lemma numerology_cases:
  assumes "n \<le> (5 :: u8)"
  shows "n = 0 \<or> n = 1 \<or> n = 2 \<or> n = 3 \<or> n = 4 \<or> n = 5"
proof -
  have "unat n \<le> 5" using assms by (simp add: word_le_nat_alt)
  then have "unat n = 0 \<or> unat n = 1 \<or> unat n = 2 \<or> unat n = 3 \<or> unat n = 4 \<or> unat n = 5"
    by arith
  then have "n = of_nat 0 \<or> n = of_nat 1 \<or> n = of_nat 2 \<or> n = of_nat 3 \<or> n = of_nat 4 \<or>
      n = of_nat 5"
    by (metis of_nat_unat ucast_id)
  then show ?thesis by simp
qed

lemma unat_GetSlotPerSubframe:
  assumes "numerology p \<le> 5"
  shows "unat (GetSlotPerSubframe p) = slots_per_sf p"
  using numerology_cases[OF assms]
  by (elim disjE) (simp_all add: GetSlotPerSubframe_def slots_per_sf_def)

lemma slots_per_sf_bounds:
  assumes "numerology p \<le> 5"
  shows "0 < slots_per_sf p \<and> slots_per_sf p \<le> 32"
  using numerology_cases[OF assms]
  by (elim disjE) (simp_all add: slots_per_sf_def)

lemmas sfn_unat = unat_GetSlotPerSubframe unsigned_ucast_eq unat_word_ariths unat_div unat_mod

subsection \<open>Encodings\<close>

lemma bit_GetEncoding:
  fixes n :: nat
  shows "bit (push_bit 32 (ucast (f :: u32) :: u64) OR push_bit 24 (ucast (s :: u8)) OR
      push_bit 16 (ucast (l :: u8)) OR push_bit 8 (ucast (m :: u8))) n \<longleftrightarrow>
    n < 64 \<and> (if n < 8 then False else if n < 16 then bit m (n - 8)
      else if n < 24 then bit l (n - 16) else if n < 32 then bit s (n - 24) else bit f (n - 32))"
  by (auto simp: bit_simps dest: bit_imp_le_length)

lemma mask_words:
  "(0xFFFFFFFF00000000 :: u64) = push_bit 32 (mask 32)"
  "(0xFF000000 :: u64) = push_bit 24 (mask 8)"
  "(0xFF0000 :: u64) = push_bit 16 (mask 8)"
  "(0xFF00 :: u64) = push_bit 8 (mask 8)"
  by (simp_all add: mask_eq_exp_minus_1)

lemma mask_bits:
  "bit (0xFFFFFFFF00000000 :: u64) n \<longleftrightarrow> 32 \<le> n \<and> n < 64"
  "bit (0xFF000000 :: u64) n \<longleftrightarrow> 24 \<le> n \<and> n < 32"
  "bit (0xFF0000 :: u64) n \<longleftrightarrow> 16 \<le> n \<and> n < 24"
  "bit (0xFF00 :: u64) n \<longleftrightarrow> 8 \<le> n \<and> n < 16"
  unfolding mask_words bit_push_bit_iff bit_mask_iff possible_bit_word by auto

lemma FromEncoding_encoded:
  "FromEncoding (push_bit 32 (ucast f) OR push_bit 24 (ucast s) OR push_bit 16 (ucast l) OR
     push_bit 8 (ucast m)) =
   \<lparr>frameNum = f, subframeNum = s, slotNum = l, numerology = m\<rparr>" (is "FromEncoding ?e = _")
proof -
  have b: "bit ?e n \<longleftrightarrow> n < 64 \<and> (if n < 8 then False else if n < 16 then bit m (n - 8)
      else if n < 24 then bit l (n - 16) else if n < 32 then bit s (n - 24) else bit f (n - 32))"
    for n by (rule bit_GetEncoding)
  have "ucast (drop_bit 32 (?e AND 0xFFFFFFFF00000000)) = f"
    by (rule bit_word_eqI)
      (simp only: bit_ucast_iff bit_drop_bit_eq bit_and_iff b mask_bits comp_def, simp)
  moreover have "ucast (drop_bit 24 (?e AND 0x00000000FF000000)) = s"
    by (rule bit_word_eqI)
      (simp only: bit_ucast_iff bit_drop_bit_eq bit_and_iff b mask_bits comp_def, simp)
  moreover have "ucast (drop_bit 16 (?e AND 0x0000000000FF0000)) = l"
    by (rule bit_word_eqI)
      (simp only: bit_ucast_iff bit_drop_bit_eq bit_and_iff b mask_bits comp_def, simp)
  moreover have "ucast (drop_bit 8 (?e AND 0x000000000000FF00)) = m"
    by (rule bit_word_eqI)
      (simp only: bit_ucast_iff bit_drop_bit_eq bit_and_iff b mask_bits comp_def, simp)
  ultimately show ?thesis by (simp only: FromEncoding_def)
qed

subsection \<open>Slot arithmetic\<close>

lemma mod_radix:
  fixes x c m n :: nat
  assumes "c < m"
  shows "(x * m + c) mod (n * m) = (x mod n) * m + c"
proof -
  have "(x * m + c) div m = x" "(x * m + c) mod m = c" using assms by auto
  moreover have "(x * m + c) mod (m * n) = m * ((x * m + c) div m mod n) + (x * m + c) mod m"
    by (rule mod_mult2_eq)
  ultimately show ?thesis by (metis mult.commute)
qed

lemma slot_carry:
  fixes fr sf sl n S :: nat
  assumes "0 < S"
  defines "a \<equiv> sl + n"
  defines "b \<equiv> sf + a div S"
  shows "(fr * 10 + sf) * S + sl + n = (fr + b div 10) * (10 * S) + ((b mod 10) * S + a mod S)"
proof -
  have "a div S * S + a mod S = a" by simp
  then have "(fr * 10 + sf) * S + sl + n = (fr * 10 + b) * S + a mod S"
    by (simp add: a_def b_def distrib_right)
  also have "\<dots> = (fr * 10 + (b div 10 * 10 + b mod 10)) * S + a mod S" by simp
  also have "\<dots> = (fr + b div 10) * (10 * S) + ((b mod 10) * S + a mod S)"
    by (simp only: distrib_right mult.assoc add.assoc)
  finally show ?thesis .
qed

lemma unat_ucast_small: "unat w < 2 ^ LENGTH('b) \<Longrightarrow> unat (ucast (w :: 'a::len word) :: 'b::len word) = unat w"
  by (simp add: unsigned_ucast_eq take_bit_nat_eq_self)

lemma u8_bound: "unat (w :: u8) < 256"
  using unsigned_less[of w] by simp

lemma Add_fields:
  assumes num: "numerology p \<le> 5" and sf: "unat (subframeNum p) < 10" and n: "unat n < 2 ^ 31"
  defines "S \<equiv> slots_per_sf p"
  defines "a \<equiv> unat (slotNum p) + unat n"
  defines "b \<equiv> unat (subframeNum p) + a div S"
  shows "\<exists>q. Add p n = Inr q \<and> numerology q = numerology p \<and>
    unat (frameNum q) = (unat (frameNum p) + b div 10) mod 2 ^ 32 \<and>
    unat (subframeNum q) = b mod 10 \<and> unat (slotNum q) = a mod S"
proof -
  have S: "0 < S" "S \<le> 32" using slots_per_sf_bounds[OF num] by (simp_all add: S_def)
  have uS: "unat ((2 :: u32) ^ unat (numerology p)) = S"
    using unat_GetSlotPerSubframe[OF num] by (simp add: S_def GetSlotPerSubframe_def)
  have ua: "unat (ucast (slotNum p) + n :: u32) = a"
    using n u8_bound[of "slotNum p"]
    by (simp add: a_def unat_word_ariths unat_ucast_small)
  have "a div S \<le> a" by simp
  moreover have "a < 2147483904" using n u8_bound[of "slotNum p"] by (simp add: a_def)
  ultimately have b: "b < 4294967295" using sf unfolding b_def by linarith
  let ?b = "ucast (subframeNum p) + (ucast (slotNum p) + n) div 2 ^ unat (numerology p) :: u32"
  have ub: "unat ?b = b"
    using b u8_bound[of "subframeNum p"]
    by (subst unat_word_ariths(1)) (simp only: unat_div uS ua, simp add: unat_ucast_small b_def)
  have m: "a mod S < 256" "b mod 10 < 256"
    using S mod_less_divisor[of S a] mod_less_divisor[of 10 b] by linarith+
  have "unat (frameNum p + ?b div 10) = (unat (frameNum p) + b div 10) mod 2 ^ 32"
    by (subst unat_word_ariths(1)) (simp only: unat_div ub, simp)
  moreover have "unat (ucast (?b mod 10) :: u8) = b mod 10"
    using m by (subst unat_ucast_small) (simp_all only: unat_mod ub, simp_all)
  moreover have "unat (ucast ((ucast (slotNum p) + n) mod 2 ^ unat (numerology p) :: u32) :: u8)
      = a mod S"
    using m by (subst unat_ucast_small) (simp_all only: unat_mod ua uS, simp_all)
  ultimately show ?thesis
    using num
    by (simp add: Add_def GetSlotPerSubframe_def GetSubframesPerFrame_def Let_def)
qed

subsection \<open>Properties\<close>

text \<open>
  C35. \<open>SfnSf::Decode\<close> inverts \<open>SfnSf::Encode\<close>: whatever the counters are, encoding either stops at
  the assertion on the numerology or gives a 64-bit value that decodes to the same four fields.
\<close>
theorem Encode_Decode_roundtrip:
  "bindE (Encode p) (\<lambda>e. Inr (Decode e)) = ns_assert (numerology p \<le> 5) (Inr p)"
  by (cases "numerology p \<le> 5") (simp_all add: Encode_def Decode_def GetEncoding_def FromEncoding_encoded)

lemma abs_slot_add:
  fixes p :: sfnsf and n :: nat
  defines "S \<equiv> slots_per_sf p"
  defines "a \<equiv> unat (slotNum p) + n"
  defines "b \<equiv> unat (subframeNum p) + a div S"
  assumes "0 < S"
  shows "(abs_slot p + n) mod (2 ^ 32 * (10 * S)) =
    ((unat (frameNum p) + b div 10) mod 2 ^ 32 * 10 + b mod 10) * S + a mod S"
proof -
  have "b mod 10 \<le> 9" using mod_less_divisor[of 10 b] by linarith
  then have "b mod 10 * S \<le> 9 * S" by (rule mult_right_mono) simp
  moreover have "a mod S < S" using \<open>0 < S\<close> by simp
  ultimately have less: "b mod 10 * S + a mod S < 10 * S" by linarith
  have "abs_slot p + n = (unat (frameNum p) + b div 10) * (10 * S) + (b mod 10 * S + a mod S)"
    using slot_carry[OF \<open>0 < S\<close>, of "unat (frameNum p)" "unat (subframeNum p)" "unat (slotNum p)" n]
    by (simp only: abs_slot_def a_def b_def S_def)
  then have "(abs_slot p + n) mod (2 ^ 32 * (10 * S)) =
      (unat (frameNum p) + b div 10) mod 2 ^ 32 * (10 * S) + (b mod 10 * S + a mod S)"
    by (simp only: mod_radix[OF less])
  then show ?thesis by (simp only: distrib_right mult.assoc add.assoc)
qed

lemma Add_valid:
  assumes "valid_sfn p" and "unat n < 2 ^ 31"
  shows "\<exists>q. Add p n = Inr q \<and> valid_sfn q \<and> numerology q = numerology p \<and>
    abs_slot q = (abs_slot p + unat n) mod (2 ^ 32 * (10 * slots_per_sf p))"
proof -
  let ?S = "slots_per_sf p"
  let ?a = "unat (slotNum p) + unat n"
  let ?b = "unat (subframeNum p) + ?a div ?S"
  have num: "numerology p \<le> 5" and sf: "unat (subframeNum p) < 10"
    using assms(1) by (simp_all add: valid_sfn_def)
  have S: "0 < ?S" using slots_per_sf_bounds[OF num] by simp
  obtain q where q: "Add p n = Inr q" "numerology q = numerology p"
    "unat (frameNum q) = (unat (frameNum p) + ?b div 10) mod 2 ^ 32"
    "unat (subframeNum q) = ?b mod 10" "unat (slotNum q) = ?a mod ?S"
    using Add_fields[OF num sf assms(2)] by blast
  have "slots_per_sf q = ?S" using q(2) by (simp add: slots_per_sf_def)
  then have "abs_slot q = (abs_slot p + unat n) mod (2 ^ 32 * (10 * ?S))" and "valid_sfn q"
    using abs_slot_add[OF S, of "unat n"] num S q
    by (simp_all only: abs_slot_def valid_sfn_def mod_less_divisor zero_less_numeral)
  with q show ?thesis by blast
qed

text \<open>
  C36. \<open>SfnSf::Add\<close> implements addition on the absolute slot count: from a valid slot it never
  fails, gives a valid slot of the same numerology, and the slot count it denotes is the old one
  plus \<open>slotN\<close>, modulo the $2^{32}$ frames the counter holds.
\<close>
theorem Add_refines_plus:
  assumes "valid_sfn p" and "unat n < 2 ^ 31"
  shows "\<exists>q. Add p n = Inr q \<and> valid_sfn q \<and> numerology q = numerology p \<and>
    abs_slot q = (abs_slot p + unat n) mod (2 ^ 32 * (10 * slots_per_sf p))"
  using assms by (rule Add_valid)

theorem Add_refines_plus_witness:
  "\<exists>q. Add \<lparr>frameNum = 7, subframeNum = 9, slotNum = 1, numerology = 1\<rparr> 5 = Inr q \<and>
     abs_slot q = (abs_slot \<lparr>frameNum = 7, subframeNum = 9, slotNum = 1, numerology = 1\<rparr> + 5)
       mod (2 ^ 32 * (10 * 2))"
  using Add_refines_plus[of "\<lparr>frameNum = 7, subframeNum = 9, slotNum = 1, numerology = 1\<rparr>" 5]
  by (auto simp: valid_sfn_def slots_per_sf_def)

lemma lex_count:
  fixes f s l f' s' l' S :: nat
  assumes "s < 10" "s' < 10" "l < S" "l' < S"
  shows "(f * 10 + s) * S + l < (f' * 10 + s') * S + l' \<longleftrightarrow>
    f < f' \<or> f = f' \<and> s < s' \<or> f = f' \<and> s = s' \<and> l < l'"
proof -
  have step: "x * S + l < y * S + l' \<longleftrightarrow> x < y \<or> x = y \<and> l < l'"
    if "l < S" "l' < S" for x y l l' :: nat
  proof (cases x y rule: linorder_cases)
    case less
    then have "Suc x * S \<le> y * S" by (intro mult_right_mono) auto
    with that less show ?thesis by simp
  next
    case greater
    then have "Suc y * S \<le> x * S" by (intro mult_right_mono) auto
    with that greater show ?thesis by simp
  qed simp
  have "f * 10 + s < f' * 10 + s' \<longleftrightarrow> f < f' \<or> f = f' \<and> s < s'"
    using assms(1,2) by linarith
  moreover have "f * 10 + s = f' * 10 + s' \<longleftrightarrow> f = f' \<and> s = s'"
    using assms(1,2) by (cases f f' rule: linorder_cases) linarith+
  ultimately show ?thesis by (simp add: step[OF assms(3,4)])
qed

text \<open>
  \<open>SfnSf::operator<\<close> is the order of the absolute slot counts of two valid slots of one
  numerology, so it is a strict total order on them.
\<close>
text \<open>A valid slot is determined by its count and its numerology.\<close>

lemma abs_slot_inj:
  assumes "valid_sfn p" and "valid_sfn q" and "numerology q = numerology p" and "abs_slot q = abs_slot p"
  shows "q = p"
proof -
  let ?S = "slots_per_sf p"
  have S: "slots_per_sf q = ?S" using assms(3) by (simp add: slots_per_sf_def)
  have sl: "unat (slotNum r) = abs_slot r mod ?S" "unat (frameNum r) * 10 + unat (subframeNum r) = abs_slot r div ?S"
    if "valid_sfn r" "slots_per_sf r = ?S" for r
    using that by (simp_all add: valid_sfn_def abs_slot_def)
  have "(unat (frameNum r) * 10 + unat (subframeNum r)) mod 10 = unat (subframeNum r)" if "valid_sfn r" for r
    using that by (simp add: valid_sfn_def)
  then have "unat (subframeNum q) = unat (subframeNum p)" "unat (frameNum q) * 10 + unat (subframeNum q) = unat (frameNum p) * 10 + unat (subframeNum p)"
    "unat (slotNum q) = unat (slotNum p)"
    using sl[OF assms(1) refl] sl[OF assms(2) S] assms(1,2,4) by metis+
  then show ?thesis using assms(3) by (simp add: word_unat_eq_iff)
qed

lemma sfn_less_iff_abs_slot:
  assumes "valid_sfn p" and "valid_sfn q" and "numerology q = numerology p"
  shows "sfn_less p q = Inr (abs_slot p < abs_slot q)"
proof -
  have "slots_per_sf q = slots_per_sf p" using assms(3) by (simp add: slots_per_sf_def)
  then have "abs_slot p < abs_slot q \<longleftrightarrow>
      unat (frameNum p) < unat (frameNum q) \<or>
      unat (frameNum p) = unat (frameNum q) \<and> unat (subframeNum p) < unat (subframeNum q) \<or>
      unat (frameNum p) = unat (frameNum q) \<and> unat (subframeNum p) = unat (subframeNum q) \<and>
        unat (slotNum p) < unat (slotNum q)"
    using assms lex_count by (simp add: abs_slot_def valid_sfn_def)
  then show ?thesis
    using assms(3) by (simp add: sfn_less_def word_less_nat_alt word_unat_eq_iff)
qed

lemma sfn_less_iff_abs_slot_witness:
  "sfn_less \<lparr>frameNum = 3, subframeNum = 9, slotNum = 1, numerology = 1\<rparr>
      \<lparr>frameNum = 4, subframeNum = 0, slotNum = 0, numerology = 1\<rparr> = Inr True"
  using sfn_less_iff_abs_slot[of "\<lparr>frameNum = 3, subframeNum = 9, slotNum = 1, numerology = 1\<rparr>"
      "\<lparr>frameNum = 4, subframeNum = 0, slotNum = 0, numerology = 1\<rparr>"]
  by (simp add: valid_sfn_def slots_per_sf_def abs_slot_def)

lemma unat_mult_small:
  "unat x * unat y < 2 ^ LENGTH('a) \<Longrightarrow> unat (x * y :: 'a::len word) = unat x * unat y"
  by (simp add: unat_word_ariths)

lemma Normalize_exact:
  assumes "valid_sfn p" and "unat (frameNum p) * 10 * slots_per_sf p < 2 ^ 32"
  shows "unat (Normalize p) = abs_slot p"
proof -
  let ?S = "slots_per_sf p"
  have num: "numerology p \<le> 5" and sf: "unat (subframeNum p) < 10" and sl: "unat (slotNum p) < ?S"
    using assms(1) by (simp_all add: valid_sfn_def)
  have uS: "unat (GetSlotPerSubframe p) = ?S" and S: "0 < ?S" "?S \<le> 32"
    using num slots_per_sf_bounds[OF num] by (simp_all add: unat_GetSlotPerSubframe)
  have "unat (subframeNum p) * ?S \<le> 9 * 32" using sf S by (intro mult_mono) auto
  then have m: "unat (ucast (ucast (subframeNum p) * GetSlotPerSubframe p :: u32) :: u64)
      = unat (subframeNum p) * ?S" "unat (subframeNum p) * ?S \<le> 288"
    using u8_bound[of "subframeNum p"]
    by (simp_all add: unat_ucast_small unat_mult_small uS)
  have "unat (frameNum p) * 10 \<le> unat (frameNum p) * 10 * ?S" using S by simp
  also note assms(2)
  finally have "unat (frameNum p * GetSubframesPerFrame) = unat (frameNum p) * 10"
    by (subst unat_mult_small) (simp_all add: GetSubframesPerFrame_def)
  then have "unat (frameNum p * GetSubframesPerFrame * GetSlotPerSubframe p)
      = unat (frameNum p) * 10 * ?S"
    using assms(2) by (subst unat_mult_small) (simp_all add: uS)
  then have "unat (ucast (frameNum p * GetSubframesPerFrame * GetSlotPerSubframe p :: u32) :: u64)
      = unat (frameNum p) * 10 * ?S"
    using assms(2) by (subst unat_ucast_small) simp_all
  moreover have "unat (ucast (slotNum p) :: u64) = unat (slotNum p)"
    using u8_bound[of "slotNum p"] by (simp add: unat_ucast_small)
  ultimately have "unat (Normalize p) = ((unat (slotNum p) + unat (subframeNum p) * ?S) mod 2 ^ 64 +
      unat (frameNum p) * 10 * ?S) mod 2 ^ 64"
    using m(1) by (simp only: Normalize_def Let_def unat_word_ariths(1) word_size add_0_left) simp
  moreover have "unat (slotNum p) + unat (subframeNum p) * ?S + unat (frameNum p) * 10 * ?S
      < 18446744073709551616"
  proof -
    have "(2 :: nat) ^ 32 = 4294967296" by simp
    from assms(2)[unfolded this] show ?thesis using m(2) u8_bound[of "slotNum p"] by linarith
  qed
  ultimately have "unat (Normalize p) =
      unat (slotNum p) + unat (subframeNum p) * ?S + unat (frameNum p) * 10 * ?S"
    by simp
  also have "\<dots> = abs_slot p"
    by (simp add: abs_slot_def distrib_right)
  finally show ?thesis .
qed

text \<open>
  \<open>SfnSf::Normalize\<close> multiplies the frame number at 32 bits: two slots $2^{31}$ frames apart
  normalize to the same number, although neither frame counter has wrapped.
\<close>
lemma Normalize_wraps_early:
  "Normalize (p\<lparr>frameNum := frameNum p + 0x80000000\<rparr>) = Normalize p"
proof -
  have "(0x80000000 :: u32) * GetSubframesPerFrame = 0" by (simp add: GetSubframesPerFrame_def)
  then show ?thesis by (simp add: Normalize_def Let_def GetSlotPerSubframe_def distrib_right)
qed

text \<open>
  \<open>SfnSf::GetEncForStreamWithSymStart\<close> is not injective: it shifts the 32-bit frame number by
  40 bits, so 24 bits of it remain and the upper ones of these overlap the numerology.
\<close>
lemma stream_encoding_collides:
  "GetEncForStreamWithSymStart \<lparr>frameNum = 0, subframeNum = sf, slotNum = sl, numerology = 1\<rparr> st sy =
   GetEncForStreamWithSymStart \<lparr>frameNum = 65536, subframeNum = sf, slotNum = sl, numerology = 1\<rparr> st sy"
  by (simp add: GetEncForStreamWithSymStart_def)

end
