(* ===== verification/EpsBearer.thy ===== *)
theory EpsBearer
  imports Prelude
begin

text \<open>
  The QoS table a logical channel is created from: class \<open>EpsBearer\<close> of
  \<open>src/lte/model/eps-bearer.cc\<close>. A QCI is its \<open>uint8_t\<close> value, as the caller casts an arbitrary
  byte to the enum. The packet error loss rate is one of the literals \<open>1.0e-k\<close>; the model keeps
  the exponent \<open>k\<close>.
\<close>

record bearer_req =
  req_gbr :: bool
  req_priority :: u8
  req_delay_budget :: u16
  req_per_exp :: nat
  req_max_burst :: u32
  req_avg_window :: u32

definition req :: "bool \<Rightarrow> u8 \<Rightarrow> u16 \<Rightarrow> nat \<Rightarrow> u32 \<Rightarrow> u32 \<Rightarrow> bearer_req" where
  "req g p d e b w = \<lparr>req_gbr = g, req_priority = p, req_delay_budget = d, req_per_exp = e,
     req_max_burst = b, req_avg_window = w\<rparr>"

definition GetRequirementsRel11 :: "(u8 \<times> bearer_req) list" where
  "GetRequirementsRel11 =
    [(1, req True 2 100 2 0 0),
     (2, req True 4 150 3 0 0),
     (3, req True 3 50 3 0 0),
     (4, req True 5 300 6 0 0),
     (5, req False 1 100 6 0 0),
     (6, req False 6 300 6 0 0),
     (7, req False 7 100 3 0 0),
     (8, req False 8 300 6 0 0),
     (9, req False 9 300 6 0 0)]"

definition GetRequirementsRel15 :: "(u8 \<times> bearer_req) list" where
  "GetRequirementsRel15 =
    [(1, req True 20 100 2 0 2000),
     (2, req True 40 150 3 0 2000),
     (3, req True 30 50 3 0 2000),
     (4, req True 50 300 6 0 2000),
     (65, req True 7 75 2 0 2000),
     (66, req True 20 100 2 0 2000),
     (67, req True 15 100 3 0 2000),
     (75, req True 25 50 2 0 2000),
     (5, req False 10 100 6 0 0),
     (6, req False 60 300 6 0 0),
     (7, req False 70 100 3 0 0),
     (8, req False 80 300 6 0 0),
     (9, req False 90 300 6 0 0),
     (69, req False 5 60 6 0 0),
     (70, req False 55 200 6 0 0),
     (79, req False 65 5 2 0 0),
     (80, req False 68 10 6 0 0),
     (82, req False 19 10 4 255 2000),
     (83, req False 22 10 4 1358 2000),
     (84, req False 24 30 5 1354 2000),
     (85, req False 21 5 5 255 2000)]"

definition SetRelease :: "u8 \<Rightarrow> (u8 \<times> bearer_req) list res" where
  "SetRelease release =
     (if release \<in> {8, 9, 10, 11} then Inr GetRequirementsRel11
      else if release = 15 then Inr GetRequirementsRel15
      else Inl FatalError)"

definition IsGbr :: "(u8 \<times> bearer_req) list \<Rightarrow> u8 \<Rightarrow> bool res" where
  "IsGbr m qci = bindE (map_at qci m) (\<lambda>r. Inr (req_gbr r))"

definition GetPriority :: "(u8 \<times> bearer_req) list \<Rightarrow> u8 \<Rightarrow> u8 res" where
  "GetPriority m qci = bindE (map_at qci m) (\<lambda>r. Inr (req_priority r))"

definition GetPacketDelayBudgetMs :: "(u8 \<times> bearer_req) list \<Rightarrow> u8 \<Rightarrow> u16 res" where
  "GetPacketDelayBudgetMs m qci = bindE (map_at qci m) (\<lambda>r. Inr (req_delay_budget r))"

definition GetPacketErrorLossRate :: "(u8 \<times> bearer_req) list \<Rightarrow> u8 \<Rightarrow> nat res" where
  "GetPacketErrorLossRate m qci = bindE (map_at qci m) (\<lambda>r. Inr (req_per_exp r))"

lemma Rel11_in_Rel15:
  "list_all (\<lambda>(q, r).
     (case map_of GetRequirementsRel15 q of None \<Rightarrow> False
      | Some r' \<Rightarrow> req_gbr r' = req_gbr r \<and> req_delay_budget r' = req_delay_budget r \<and>
          req_per_exp r' = req_per_exp r \<and> req_priority r' = 10 * req_priority r))
     GetRequirementsRel11"
  by code_simp

text \<open>
  C37. Changing the bearer release from 11 to 15 keeps the requirements of every QCI that Release 11
  defines: the same delay budget, loss rate and GBR flag, and the priorities scaled by ten, so in
  the same order.
\<close>
theorem Rel15_extends_Rel11:
  assumes "GetPriority GetRequirementsRel11 q = Inr p"
  shows "GetPriority GetRequirementsRel15 q = Inr (10 * p) \<and>
    GetPacketDelayBudgetMs GetRequirementsRel15 q = GetPacketDelayBudgetMs GetRequirementsRel11 q \<and>
    GetPacketErrorLossRate GetRequirementsRel15 q = GetPacketErrorLossRate GetRequirementsRel11 q \<and>
    IsGbr GetRequirementsRel15 q = IsGbr GetRequirementsRel11 q"
proof -
  obtain r where r: "map_of GetRequirementsRel11 q = Some r" "p = req_priority r"
    using assms by (auto simp: GetPriority_def res_simps)
  with Rel11_in_Rel15 have "case map_of GetRequirementsRel15 q of None \<Rightarrow> False
      | Some r' \<Rightarrow> req_gbr r' = req_gbr r \<and> req_delay_budget r' = req_delay_budget r \<and>
          req_per_exp r' = req_per_exp r \<and> req_priority r' = 10 * req_priority r"
    by (auto simp: list_all_iff dest!: map_of_SomeD)
  with r show ?thesis
    by (simp add: GetPriority_def GetPacketDelayBudgetMs_def GetPacketErrorLossRate_def IsGbr_def
        split: option.splits)
qed

theorem Rel15_extends_Rel11_witness:
  "GetPriority GetRequirementsRel15 7 = Inr 70 \<and> GetPriority GetRequirementsRel11 7 = Inr 7"
proof -
  have h: "GetPriority GetRequirementsRel11 7 = Inr 7"
    by (simp add: GetPriority_def GetRequirementsRel11_def req_def map_at_def)
  from Rel15_extends_Rel11[OF h] h show ?thesis by simp
qed

end
