(* ===== verification/Lcg.thy ===== *)
theory Lcg
  imports EpsBearer
begin

text \<open>
  Logical channels and logical channel groups as the scheduler keeps them:
  \<open>NrMacSchedulerLC\<close> and \<open>NrMacSchedulerLCG\<close> of \<open>contrib/nr/model/nr-mac-scheduler-lcg.cc\<close>, with the
  proactive queue that BULLET adds. A group's map from LC id to LC is an association list in
  iteration order.
\<close>

datatype lc_direction = DIR_UL | DIR_DL | DIR_BOTH | NotValid

datatype qos_bearer_type = QBT_NON_GBR | QBT_GBR | NotValid_QosBearerType

record lc_config =
  conf_lcId :: u8
  conf_lcGroup :: u8
  conf_direction :: lc_direction
  conf_qosBearerType :: qos_bearer_type
  conf_qci :: u8
  conf_maximulBitrateUl :: u64
  conf_maximulBitrateDl :: u64
  conf_guaranteedBitrateUl :: u64
  conf_guaranteedBitrateDl :: u64

record rlc_buffer_req =
  rbr_rnti :: u16
  rbr_lcId :: u8
  rbr_txQueue :: u32
  rbr_txHolDelay :: u16
  rbr_retxQueue :: u32
  rbr_retxHolDelay :: u16
  rbr_statusPdu :: u16

record lc =
  lc_id :: u32
  lc_txQueue :: u32
  lc_txHolDelay :: u16
  lc_retxHolDelay :: u16
  lc_retxQueue :: u32
  lc_statusPdu :: u16
  lc_delayBudget :: u16
  lc_per_exp :: nat
  lc_isGbr :: bool
  lc_proactiveQueue :: u32

record lcg =
  lcg_id :: u8
  lcg_lcMap :: "(u8 \<times> lc) list"

subsection \<open>NrMacSchedulerLC\<close>

text \<open>The bearer a channel is created from is an \<open>EpsBearer\<close> of the default Release 11.\<close>

definition NrMacSchedulerLC :: "lc_config \<Rightarrow> lc res" where
  "NrMacSchedulerLC conf =
     bindE (GetPacketDelayBudgetMs GetRequirementsRel11 (conf_qci conf)) (\<lambda>budget.
     bindE (IsGbr GetRequirementsRel11 (conf_qci conf)) (\<lambda>gbr.
     bindE (GetPacketErrorLossRate GetRequirementsRel11 (conf_qci conf)) (\<lambda>per.
       Inr \<lparr>lc_id = ucast (conf_lcId conf), lc_txQueue = 0, lc_txHolDelay = 0,
            lc_retxHolDelay = 0, lc_retxQueue = 0, lc_statusPdu = 0, lc_delayBudget = budget,
            lc_per_exp = per, lc_isGbr = gbr, lc_proactiveQueue = 0\<rparr>)))"

definition lc_Update :: "lc \<Rightarrow> rlc_buffer_req \<Rightarrow> lc res" where
  "lc_Update c params =
     ns_assert (ucast (rbr_lcId params) = lc_id c)
       (Inr (c\<lparr>lc_txQueue := rbr_txQueue params, lc_retxQueue := rbr_retxQueue params,
               lc_statusPdu := rbr_statusPdu params,
               lc_retxHolDelay := rbr_retxHolDelay params,
               lc_txHolDelay := rbr_txHolDelay params\<rparr>))"

definition lc_GetTotalSize :: "lc \<Rightarrow> u32" where
  "lc_GetTotalSize c =
     lc_txQueue c + lc_retxQueue c + ucast (lc_statusPdu c) + lc_proactiveQueue c"

definition lc_GetReactiveTotalSize :: "lc \<Rightarrow> u32" where
  "lc_GetReactiveTotalSize c = lc_txQueue c + lc_retxQueue c + ucast (lc_statusPdu c)"

subsection \<open>NrMacSchedulerLCG\<close>

definition NrMacSchedulerLCG :: "u8 \<Rightarrow> lcg" where
  "NrMacSchedulerLCG i = \<lparr>lcg_id = i, lcg_lcMap = []\<rparr>"

definition Contains :: "lcg \<Rightarrow> u8 \<Rightarrow> bool" where
  "Contains g lcId \<longleftrightarrow> map_of (lcg_lcMap g) lcId \<noteq> None"

definition NumOfLC :: "lcg \<Rightarrow> u32" where
  "NumOfLC g = of_nat (length (lcg_lcMap g))"

definition Insert :: "lcg \<Rightarrow> lc \<Rightarrow> (lcg \<times> bool) res" where
  "Insert g c =
     (let k = ucast (lc_id c) in
      ns_assert (\<not> Contains g k)
        (Inr (g\<lparr>lcg_lcMap := map_emplace k c (lcg_lcMap g)\<rparr>, \<not> Contains g k)))"

definition UpdateInfo_rlc :: "lcg \<Rightarrow> rlc_buffer_req \<Rightarrow> lcg res" where
  "UpdateInfo_rlc g params =
     ns_assert (Contains g (rbr_lcId params))
       (bindE (map_at (rbr_lcId params) (lcg_lcMap g)) (\<lambda>c.
        bindE (lc_Update c params) (\<lambda>c'.
          Inr (g\<lparr>lcg_lcMap := AList.update (rbr_lcId params) c' (lcg_lcMap g)\<rparr>))))"

definition UpdateInfo :: "lcg \<Rightarrow> u32 \<Rightarrow> lcg res" where
  "UpdateInfo g lcgQueueSize =
     ns_abort_if (length (lcg_lcMap g) > 1)
       (defined_if (length (lcg_lcMap g) \<noteq> 0)
         (let lcIdPart = lcgQueueSize div of_nat (length (lcg_lcMap g))
          in Inr (g\<lparr>lcg_lcMap := map (\<lambda>(k, c). (k, c\<lparr>lc_txQueue := lcIdPart\<rparr>)) (lcg_lcMap g)\<rparr>)))"

definition UpdateProactiveBSR :: "lcg \<Rightarrow> u32 \<Rightarrow> lcg res" where
  "UpdateProactiveBSR g proactiveBSR =
     ns_abort_if (length (lcg_lcMap g) > 1)
       (defined_if (length (lcg_lcMap g) \<noteq> 0)
         (let lcIdPart = proactiveBSR div of_nat (length (lcg_lcMap g))
          in Inr (g\<lparr>lcg_lcMap :=
               map (\<lambda>(k, c). (k, c\<lparr>lc_proactiveQueue := lcIdPart\<rparr>)) (lcg_lcMap g)\<rparr>)))"

definition GetTotalSize :: "lcg \<Rightarrow> u32" where
  "GetTotalSize g = foldl (\<lambda>totalSize (k, c). totalSize + lc_GetTotalSize c) 0 (lcg_lcMap g)"

definition GetReactiveTotalSize :: "lcg \<Rightarrow> u32" where
  "GetReactiveTotalSize g =
     foldl (\<lambda>totalSize (k, c). totalSize + lc_GetReactiveTotalSize c) 0 (lcg_lcMap g)"

definition GetTotalSizeOfLC :: "lcg \<Rightarrow> u8 \<Rightarrow> u32 res" where
  "GetTotalSizeOfLC g lcId =
     ns_abort_if (length (lcg_lcMap g) = 0)
       (bindE (map_at lcId (lcg_lcMap g)) (\<lambda>c. Inr (lc_GetTotalSize c)))"

definition GetLCId :: "lcg \<Rightarrow> u8 list" where
  "GetLCId g = map fst (lcg_lcMap g)"

text \<open>The effect of \<open>AssignedData\<close> on the one channel it is called for.\<close>

definition lc_AssignedData :: "lc \<Rightarrow> u8 \<Rightarrow> u32 \<Rightarrow> string \<Rightarrow> lc" where
  "lc_AssignedData c lcId sz dir =
     (if lc_statusPdu c > 0 \<and> sz \<ge> ucast (lc_statusPdu c) then c\<lparr>lc_statusPdu := 0\<rparr>
      else if lc_retxQueue c > 0 \<and> sz \<ge> lc_retxQueue c then c\<lparr>lc_retxQueue := 0\<rparr>
      else if lc_txQueue c > 0 then
        (let rlcOverhead = (if lcId = 1 \<and> dir = ''DL'' then 4 else 2);
             c = (if sz - rlcOverhead \<ge> lc_txQueue c then c\<lparr>lc_txQueue := 50\<rparr>
                  else c\<lparr>lc_txQueue := lc_txQueue c - (sz - rlcOverhead)\<rparr>);
             c = (if dir = ''UL'' \<and> lc_txQueue c > 0 \<and> lc_txQueue c < 12
                  then c\<lparr>lc_txQueue := 12\<rparr> else c)
         in if dir = ''DL'' \<and> lc_txQueue c > 0 \<and> lc_txQueue c < 10
            then c\<lparr>lc_txQueue := 10\<rparr> else c)
      else c)"

definition AssignedData :: "lcg \<Rightarrow> u8 \<Rightarrow> u32 \<Rightarrow> string \<Rightarrow> lcg res" where
  "AssignedData g lcId sz dir =
     ns_assert (length (lcg_lcMap g) > 0)
       (bindE (map_at lcId (lcg_lcMap g)) (\<lambda>c.
          Inr (g\<lparr>lcg_lcMap := AList.update lcId (lc_AssignedData c lcId sz dir) (lcg_lcMap g)\<rparr>)))"

subsection \<open>Well-formed groups\<close>

text \<open>Every channel sits under its own id, once; the operations keep this.\<close>

definition lcg_wf :: "lcg \<Rightarrow> bool" where
  "lcg_wf g \<longleftrightarrow> distinct (map fst (lcg_lcMap g)) \<and>
     (\<forall>(k, c) \<in> set (lcg_lcMap g). lc_id c = ucast k)"

named_theorems lcg_wf_intros "preservation of the group invariant"

lemma lcg_wf_empty [lcg_wf_intros]: "lcg_wf (NrMacSchedulerLCG i)"
  by (simp add: lcg_wf_def NrMacSchedulerLCG_def)

lemma NrMacSchedulerLC_id: "NrMacSchedulerLC conf = Inr c \<Longrightarrow> lc_id c = ucast (conf_lcId conf)"
  by (auto simp: NrMacSchedulerLC_def res_simps)

lemma lcg_wf_Insert [lcg_wf_intros]:
  "lcg_wf g \<Longrightarrow> lc_id c = ucast (k :: u8) \<Longrightarrow> Insert g c = Inr (g', b) \<Longrightarrow> lcg_wf g'"
  by (auto simp: lcg_wf_def Insert_def Let_def res_simps distinct_map_emplace)
    (auto simp: map_emplace_def split: if_splits)

lemma lcg_wf_update_lc:
  "lcg_wf g \<Longrightarrow> map_of (lcg_lcMap g) k = Some c \<Longrightarrow> lc_id c' = lc_id c \<Longrightarrow>
     lcg_wf (g\<lparr>lcg_lcMap := AList.update k c' (lcg_lcMap g)\<rparr>)"
  using set_AList_update[of k c' "lcg_lcMap g"]
  by (fastforce simp: lcg_wf_def distinct_update dest!: map_of_SomeD)

lemma lcg_wf_map_lc:
  "lcg_wf g \<Longrightarrow> (\<And>c. lc_id (f c) = lc_id c) \<Longrightarrow>
     lcg_wf (g\<lparr>lcg_lcMap := map (\<lambda>(k, c). (k, f c)) (lcg_lcMap g)\<rparr>)"
  by (auto simp: lcg_wf_def comp_def case_prod_beta)

lemma lc_AssignedData_id [simp]: "lc_id (lc_AssignedData c k sz dir) = lc_id c"
  by (simp add: lc_AssignedData_def Let_def)

lemma lcg_wf_UpdateInfo_rlc [lcg_wf_intros]:
  "lcg_wf g \<Longrightarrow> UpdateInfo_rlc g params = Inr g' \<Longrightarrow> lcg_wf g'"
  by (auto simp: UpdateInfo_rlc_def lc_Update_def res_simps intro!: lcg_wf_update_lc)

lemma lcg_wf_UpdateInfo [lcg_wf_intros]: "lcg_wf g \<Longrightarrow> UpdateInfo g q = Inr g' \<Longrightarrow> lcg_wf g'"
  by (auto simp: UpdateInfo_def Let_def res_simps intro!: lcg_wf_map_lc)

lemma lcg_wf_UpdateProactiveBSR [lcg_wf_intros]:
  "lcg_wf g \<Longrightarrow> UpdateProactiveBSR g q = Inr g' \<Longrightarrow> lcg_wf g'"
  by (auto simp: UpdateProactiveBSR_def Let_def res_simps intro!: lcg_wf_map_lc)

lemma lcg_wf_AssignedData [lcg_wf_intros]:
  "lcg_wf g \<Longrightarrow> AssignedData g k sz dir = Inr g' \<Longrightarrow> lcg_wf g'"
  by (auto simp: AssignedData_def res_simps intro!: lcg_wf_update_lc)

text \<open>In a well-formed group the assertion inside \<open>NrMacSchedulerLC::Update\<close> cannot fire.\<close>

lemma UpdateInfo_rlc_total:
  assumes "lcg_wf g" and "Contains g (rbr_lcId params)"
  shows "\<exists>g'. UpdateInfo_rlc g params = Inr g'"
proof -
  obtain c where c: "map_of (lcg_lcMap g) (rbr_lcId params) = Some c"
    using assms(2) by (auto simp: Contains_def)
  then have "lc_id c = ucast (rbr_lcId params)"
    using assms(1) by (auto simp: lcg_wf_def dest!: map_of_SomeD)
  with c assms(2) show ?thesis by (simp add: UpdateInfo_rlc_def lc_Update_def)
qed

subsection \<open>The report interface the scheduler uses\<close>

text \<open>
  In the uplink a group has one channel. What the scheduler relies on there: a buffer status report
  replaces the reactive part, a proactive estimate the proactive part, and the size the scheduler
  plans with is the sum of the two.
\<close>

locale report_queue =
  fixes report :: "'g \<Rightarrow> u32 \<Rightarrow> 'g res"
    and proactive :: "'g \<Rightarrow> u32 \<Rightarrow> 'g res"
    and total :: "'g \<Rightarrow> u32"
    and reactive :: "'g \<Rightarrow> u32"
    and pending :: "'g \<Rightarrow> u32"
    and inv :: "'g \<Rightarrow> bool"
  assumes report_ok: "inv g \<Longrightarrow> \<exists>g'. report g q = Inr g' \<and> inv g' \<and> reactive g' = q + pending g \<and>
      pending g' = pending g \<and> total g' - reactive g' = total g - reactive g"
    and proactive_ok: "inv g \<Longrightarrow> \<exists>g'. proactive g q = Inr g' \<and> inv g' \<and>
      reactive g' = reactive g \<and> pending g' = pending g \<and> total g' - reactive g' = q"
begin

lemma report_total:
  assumes "inv g"
  obtains g' where "report g q = Inr g'" "inv g'"
    "total g' = q + pending g + (total g - reactive g)" "reactive g' = q + pending g"
    "pending g' = pending g"
proof -
  obtain g' where g': "report g q = Inr g'" "inv g'" "reactive g' = q + pending g"
      "pending g' = pending g" "total g' - reactive g' = total g - reactive g"
    using report_ok[OF assms] by blast
  have "total g' = reactive g' + (total g' - reactive g')" by simp
  also have "\<dots> = q + pending g + (total g - reactive g)" by (subst g'(5), subst g'(3), rule refl)
  finally show thesis using g' that by blast
qed

lemma proactive_total:
  assumes "inv g"
  obtains g' where "proactive g q = Inr g'" "inv g'" "total g' = reactive g + q"
    "reactive g' = reactive g" "pending g' = pending g"
proof -
  obtain g' where g': "proactive g q = Inr g'" "inv g'" "reactive g' = reactive g"
      "pending g' = pending g" "total g' - reactive g' = q"
    using proactive_ok[OF assms] by blast
  have "total g' = reactive g' + (total g' - reactive g')" by simp
  also have "\<dots> = reactive g + q" by (subst g'(5), subst g'(3), rule refl)
  finally show thesis using g' that by blast
qed

text \<open>A report and then an estimate: the planned size is their sum and what is pending.\<close>

lemma report_then_proactive:
  assumes "inv g"
  shows "\<exists>g' g''. report g q = Inr g' \<and> proactive g' p = Inr g'' \<and> inv g'' \<and>
    total g'' = q + pending g + p \<and> reactive g'' = q + pending g"
proof -
  obtain g' where g': "report g q = Inr g'" "inv g'" "reactive g' = q + pending g"
    using report_total[OF assms] by blast
  obtain g'' where g'': "proactive g' p = Inr g''" "inv g''" "total g'' = reactive g' + p"
      "reactive g'' = reactive g'"
    using proactive_total[OF g'(2)] by blast
  show ?thesis using g' g'' by auto
qed

text \<open>
  What a scheduling request does: it reports 12 bytes on top of the estimate, so the estimate is
  then counted in both parts.
\<close>

lemma scheduling_request:
  assumes "inv g"
  shows "\<exists>g'. report g (12 + total g - reactive g) = Inr g' \<and> inv g' \<and>
    total g' = 12 + pending g + 2 * (total g - reactive g)"
proof -
  obtain g' where "report g (12 + total g - reactive g) = Inr g'" "inv g'"
    "total g' = 12 + total g - reactive g + pending g + (total g - reactive g)"
    using report_total[OF assms] by blast
  then show ?thesis by (auto simp: algebra_simps)
qed

end

definition lcg_pending :: "lcg \<Rightarrow> u32" where
  "lcg_pending g = foldl (\<lambda>t (k, c). t + (lc_retxQueue c + ucast (lc_statusPdu c))) 0 (lcg_lcMap g)"

definition single_lc :: "lcg \<Rightarrow> bool" where
  "single_lc g \<longleftrightarrow> length (lcg_lcMap g) = 1"

lemma single_lcE:
  assumes "single_lc g"
  obtains k c where "lcg_lcMap g = [(k, c)]"
  using assms by (cases "lcg_lcMap g") (auto simp: single_lc_def)

interpretation ul_group: report_queue UpdateInfo UpdateProactiveBSR GetTotalSize
  GetReactiveTotalSize lcg_pending single_lc
proof (unfold_locales, goal_cases)
  case (1 g q)
  then show ?case
    by (elim single_lcE)
      (simp add: UpdateInfo_def GetTotalSize_def GetReactiveTotalSize_def lcg_pending_def
        single_lc_def lc_GetTotalSize_def lc_GetReactiveTotalSize_def)
next
  case (2 g q)
  then show ?case
    by (elim single_lcE)
      (simp add: UpdateProactiveBSR_def GetTotalSize_def GetReactiveTotalSize_def lcg_pending_def
        single_lc_def lc_GetTotalSize_def lc_GetReactiveTotalSize_def)
qed

subsection \<open>What a grant does to a queue\<close>

lemma lc_AssignedData_tx_pos:
  "lc_txQueue c > 0 \<Longrightarrow> lc_txQueue (lc_AssignedData c k sz dir) > 0"
  by (auto simp: lc_AssignedData_def Let_def word_gt_0)

text \<open>
  A grant never empties a transmission queue in the scheduler's view: from a queue that is not
  empty, no sequence of grants of any sizes reaches an empty one. Only a buffer report does.
\<close>
lemma AssignedData_keeps_queue:
  assumes "lc_txQueue c > 0"
  shows "lc_txQueue (foldl (\<lambda>c sz. lc_AssignedData c k sz dir) c grants) > 0"
  using assms by (induction grants arbitrary: c) (simp_all add: lc_AssignedData_tx_pos)

lemma AssignedData_keeps_queue_witness:
  "lc_txQueue (foldl (\<lambda>c sz. lc_AssignedData c 4 sz ''UL'')
     \<lparr>lc_id = 4, lc_txQueue = 40, lc_txHolDelay = 0, lc_retxHolDelay = 0, lc_retxQueue = 0,
      lc_statusPdu = 0, lc_delayBudget = 300, lc_per_exp = 6, lc_isGbr = False,
      lc_proactiveQueue = 0\<rparr> [20, 5000]) > 0"
  by (rule AssignedData_keeps_queue) simp

text \<open>
  C38. The uplink grant of a channel with neither a status PDU nor retransmissions, exactly: with two
  bytes of RLC overhead, a grant that covers the queue leaves 50 bytes in it, and a smaller one leaves
  the rest, but at least 12 bytes.
\<close>
theorem AssignedData_UL_grant:
  assumes "lc_statusPdu c = 0" and "lc_retxQueue c = 0" and "lc_txQueue c > 0" and "unat sz \<ge> 2"
  shows "unat (lc_txQueue (lc_AssignedData c k sz ''UL'')) =
    (if unat (lc_txQueue c) + 2 \<le> unat sz then 50
     else max 12 (unat (lc_txQueue c) - (unat sz - 2)))"
proof -
  have s: "unat (sz - 2) = unat sz - 2" using assms(4) by (simp add: unat_sub word_le_nat_alt)
  have q: "\<not> lc_txQueue c \<le> sz - 2 \<Longrightarrow>
      unat (lc_txQueue c - (sz - 2)) = unat (lc_txQueue c) - (unat sz - 2)"
    by (simp add: unat_sub s)
  have "lc_txQueue c \<le> sz - 2 \<longleftrightarrow> unat (lc_txQueue c) + 2 \<le> unat sz"
    using assms(4) by (auto simp: word_le_nat_alt s)
  then show ?thesis
    using assms q by (auto simp: lc_AssignedData_def Let_def word_less_nat_alt max_def)
qed

theorem AssignedData_UL_grant_witness:
  "unat (lc_txQueue (lc_AssignedData
     \<lparr>lc_id = 4, lc_txQueue = 1000, lc_txHolDelay = 0, lc_retxHolDelay = 0, lc_retxQueue = 0,
      lc_statusPdu = 0, lc_delayBudget = 300, lc_per_exp = 6, lc_isGbr = False,
      lc_proactiveQueue = 0\<rparr> 4 402 ''UL'')) = 600"
  by (subst AssignedData_UL_grant) simp_all

text \<open>
  The subtraction of the RLC overhead wraps at 32 bits: a grant of fewer bytes than the overhead
  is taken to cover a queue of any size up to 4294967292 bytes.
\<close>
lemma AssignedData_overhead_underflow:
  assumes "lc_statusPdu c = 0" and "lc_retxQueue c = 0"
    and "lc_txQueue c > 0" and "lc_txQueue c \<le> 4294967292" and "unat sz < 2"
  shows "lc_txQueue (lc_AssignedData c k sz dir) = 50"
proof -
  have "sz = 0 \<or> sz = 1"
    using assms(5) by (auto simp: word_unat_eq_iff)
  then have "lc_txQueue c \<le> sz - 2" "lc_txQueue c \<le> sz - 4"
    using assms(4) by (auto elim: order_trans)
  then show ?thesis using assms(1-3) by (auto simp: lc_AssignedData_def Let_def)
qed

lemma AssignedData_overhead_underflow_witness:
  "lc_txQueue (lc_AssignedData
     \<lparr>lc_id = 4, lc_txQueue = 1000000, lc_txHolDelay = 0, lc_retxHolDelay = 0, lc_retxQueue = 0,
      lc_statusPdu = 0, lc_delayBudget = 300, lc_per_exp = 6, lc_isGbr = False,
      lc_proactiveQueue = 0\<rparr> 4 0 ''DL'') = 50"
  by (rule AssignedData_overhead_underflow) simp_all

text \<open>
  In the uplink (one channel per group) a buffer report followed by a proactive estimate never
  fails and makes the planned size exactly the reported bytes, the estimate, and what is pending in
  the retransmission and status queues.
\<close>
lemma UL_report_then_estimate:
  assumes "single_lc g"
  shows "\<exists>g' g''. UpdateInfo g q = Inr g' \<and> UpdateProactiveBSR g' p = Inr g'' \<and> single_lc g'' \<and>
    GetTotalSize g'' = q + lcg_pending g + p \<and> GetReactiveTotalSize g'' = q + lcg_pending g"
  using assms by (rule ul_group.report_then_proactive)

lemma UL_report_then_estimate_witness:
  "\<exists>g' g''. UpdateInfo \<lparr>lcg_id = 2, lcg_lcMap = [(4, \<lparr>lc_id = 4, lc_txQueue = 7, lc_txHolDelay = 0,
      lc_retxHolDelay = 0, lc_retxQueue = 30, lc_statusPdu = 0, lc_delayBudget = 300,
      lc_per_exp = 6, lc_isGbr = False, lc_proactiveQueue = 9\<rparr>)]\<rparr> 500 = Inr g' \<and>
    UpdateProactiveBSR g' 200 = Inr g'' \<and> GetTotalSize g'' = 730"
  using UL_report_then_estimate[of "\<lparr>lcg_id = 2, lcg_lcMap = [(4, \<lparr>lc_id = 4, lc_txQueue = 7,
      lc_txHolDelay = 0, lc_retxHolDelay = 0, lc_retxQueue = 30, lc_statusPdu = 0,
      lc_delayBudget = 300, lc_per_exp = 6, lc_isGbr = False, lc_proactiveQueue = 9\<rparr>)]\<rparr>" 500 200]
  by (auto simp: single_lc_def lcg_pending_def)

end
