(* ===== verification/MacHeaders.thy ===== *)
theory MacHeaders
  imports Prelude
begin

text \<open>
  The MAC subheaders and the Short BSR control element: \<open>contrib/nr/model/nr-mac-header-fs.cc\<close>,
  \<open>-fs-ul.cc\<close>, \<open>-fs-dl.cc\<close>, \<open>-vs.cc\<close>, \<open>-vs-ul.cc\<close>, \<open>-vs-dl.cc\<close> and \<open>nr-mac-short-bsr-ce.cc\<close>.
  A buffer iterator is the list of the bytes from it to the end of the buffer: writing gives the
  bytes written, reading consumes from the front and stops at the assertion of
  \<open>Buffer::Iterator\<close> when there is none left.

  The interface \<open>ns3_header\<close> is the contract of \<open>ns3::Header\<close> that the callers rely on; the three
  kinds of header are shown to satisfy it.
\<close>

type_synonym bytes = "u8 list"

subsection \<open>Buffer::Iterator\<close>

definition ReadU8 :: "bytes \<Rightarrow> (u8 \<times> bytes) res" where
  "ReadU8 bs = (case bs of [] \<Rightarrow> Inl AssertFailed | b # r \<Rightarrow> Inr (b, r))"

definition ReadNtohU16 :: "bytes \<Rightarrow> (u16 \<times> bytes) res" where
  "ReadNtohU16 bs =
     bindE (ReadU8 bs) (\<lambda>(hi, bs).
     bindE (ReadU8 bs) (\<lambda>(lo, bs).
       let retval = 0 OR ucast hi; retval = push_bit 8 retval
       in Inr (retval OR ucast lo, bs)))"

definition WriteHtonU16 :: "u16 \<Rightarrow> bytes" where
  "WriteHtonU16 d = [ucast (drop_bit 8 d AND 0xff), ucast (drop_bit 0 d AND 0xff)]"

definition Next :: "bytes \<Rightarrow> u32 \<Rightarrow> bytes res" where
  "Next bs n = ns_assert (unat n \<le> length bs) (Inr (drop (unat n) bs))"

subsection \<open>Fixed-size subheader\<close>

definition PADDING :: u8 where "PADDING = 63"

definition fs_Serialize :: "u8 \<Rightarrow> bytes" where
  "fs_Serialize lcid = [lcid AND 0x3F]"

definition fs_Deserialize :: "bytes \<Rightarrow> (u8 \<times> u32) res" where
  "fs_Deserialize bs = bindE (ReadU8 bs) (\<lambda>(b, _). Inr (b, 1))"

definition fs_GetSerializedSize :: "u8 \<Rightarrow> u32" where
  "fs_GetSerializedSize lcid = 1"

definition fs_SetLcId :: "u8 \<Rightarrow> u8 res" where
  "fs_SetLcId lcId = ns_assert (lcId = PADDING) (Inr PADDING)"

text \<open>Uplink: the codepoints of TS 38.321 table 6.2.1-2 that have a fixed size.\<close>

definition SHORT_BSR :: u8 where "SHORT_BSR = 61"

definition ul_IsFixedSizeHeader :: "u8 \<Rightarrow> bool" where
  "ul_IsFixedSizeHeader lcid \<longleftrightarrow>
     (if lcid = 53 then True else if lcid = 55 then True else if lcid = 57 then True
      else if lcid = 58 then True else if lcid = 59 then True else if lcid = SHORT_BSR then True
      else if lcid = PADDING then True else False)"

definition fs_ul_SetLcId :: "u8 \<Rightarrow> u8 res" where
  "fs_ul_SetLcId lcId = ns_assert (ul_IsFixedSizeHeader lcId) (Inr lcId)"

definition dl_IsFixedSizeHeader :: "u8 \<Rightarrow> bool" where
  "dl_IsFixedSizeHeader lcid \<longleftrightarrow>
     (if lcid = 47 then True else if lcid = 48 then True else if lcid = 49 then True
      else if lcid = 51 then True else if lcid = 52 then True else if lcid = 56 then True
      else if lcid = 57 then True else if lcid = 58 then True else if lcid = 59 then True
      else if lcid = 60 then True else if lcid = 61 then True else if lcid = 62 then True
      else if lcid = PADDING then True else False)"

definition fs_dl_SetLcId :: "u8 \<Rightarrow> u8 res" where
  "fs_dl_SetLcId v = ns_assert (dl_IsFixedSizeHeader v) (Inr v)"

subsection \<open>Variable-size subheader\<close>

record vs_header =
  vs_lcid :: u8
  vs_size :: u16

definition allowedLcId :: "u8 list" where
  "allowedLcId = map of_nat [1..<33]"

definition vs_Serialize :: "vs_header \<Rightarrow> bytes" where
  "vs_Serialize h =
     (let firstByte = vs_lcid h AND 0x3F;
          firstByte = (if vs_size h > 127 then firstByte OR 0x40 else firstByte)
      in [firstByte] @ (if vs_size h > 127 then WriteHtonU16 (vs_size h) else [ucast (vs_size h)]))"

definition vs_Deserialize :: "bytes \<Rightarrow> (vs_header \<times> u32) res" where
  "vs_Deserialize bs =
     bindE (ReadU8 bs) (\<lambda>(firstByte, bs).
     let lcid = firstByte AND 0x3F; lFieldSize = firstByte AND 0xC0 in
     bindE (if lFieldSize = 0x40 then bindE (ReadNtohU16 bs) (\<lambda>(s, _). Inr (s, 1 + 2))
            else if lFieldSize = 0 then bindE (ReadU8 bs) (\<lambda>(s, _). Inr (ucast s, 1 + 1))
            else Inl FatalError) (\<lambda>(sz :: u16, readBytes :: u32).
       if sz > 127
       then ns_assert (readBytes = 3) (Inr (\<lparr>vs_lcid = lcid, vs_size = sz\<rparr>, readBytes))
       else ns_assert (readBytes = 2) (Inr (\<lparr>vs_lcid = lcid, vs_size = sz\<rparr>, readBytes))))"

definition vs_GetSerializedSize :: "vs_header \<Rightarrow> u32" where
  "vs_GetSerializedSize h = (if vs_size h > 127 then 3 else 2)"

definition vs_SetLcId :: "vs_header \<Rightarrow> u8 \<Rightarrow> vs_header res" where
  "vs_SetLcId h lcId = ns_assert (lcId \<in> set allowedLcId) (Inr (h\<lparr>vs_lcid := lcId\<rparr>))"

definition ul_IsVariableSizeHeader :: "u8 \<Rightarrow> bool" where
  "ul_IsVariableSizeHeader lcid \<longleftrightarrow>
     (if lcid \<le> 32 then True else if lcid = 54 then True else if lcid = 56 then True
      else if lcid = 60 then True else if lcid = 62 then True else False)"

definition vs_ul_SetLcId :: "vs_header \<Rightarrow> u8 \<Rightarrow> vs_header res" where
  "vs_ul_SetLcId h lcId =
     (if lcId \<le> 32 then vs_SetLcId h lcId
      else ns_assert (ul_IsVariableSizeHeader lcId) (Inr (h\<lparr>vs_lcid := lcId\<rparr>)))"

definition dl_IsVariableSizeHeader :: "u8 \<Rightarrow> bool" where
  "dl_IsVariableSizeHeader lcid \<longleftrightarrow>
     (if lcid \<le> 32 then True else if lcid = 50 then True else if lcid = 53 then True
      else if lcid = 54 then True else if lcid = 55 then True else False)"

definition vs_dl_SetLcId :: "vs_header \<Rightarrow> u8 \<Rightarrow> vs_header res" where
  "vs_dl_SetLcId h lcId =
     (if lcId \<le> 32 then vs_SetLcId h lcId
      else ns_assert (dl_IsVariableSizeHeader lcId) (Inr (h\<lparr>vs_lcid := lcId\<rparr>)))"

subsection \<open>Short BSR control element\<close>

record short_bsr =
  bsr_header :: u8
  bufferSizeLevel_0 :: u8
  bufferSizeLevel_1 :: u8
  bufferSizeLevel_2 :: u8
  bufferSizeLevel_3 :: u8

definition NrMacShortBsrCe :: "short_bsr res" where
  "NrMacShortBsrCe = bindE (fs_ul_SetLcId SHORT_BSR) (\<lambda>h.
     Inr \<lparr>bsr_header = h, bufferSizeLevel_0 = 0, bufferSizeLevel_1 = 0,
          bufferSizeLevel_2 = 0, bufferSizeLevel_3 = 0\<rparr>)"

definition bsr_Serialize :: "short_bsr \<Rightarrow> bytes res" where
  "bsr_Serialize b =
     ns_assert (bufferSizeLevel_0 b \<le> 31)
     (ns_assert (bufferSizeLevel_1 b \<le> 31)
     (ns_assert (bufferSizeLevel_2 b \<le> 31)
     (ns_assert (bufferSizeLevel_3 b \<le> 31)
       (Inr (fs_Serialize (bsr_header b) @
             [bufferSizeLevel_0 b, bufferSizeLevel_1 b, bufferSizeLevel_2 b, bufferSizeLevel_3 b])))))"

definition bsr_GetSerializedSize :: "short_bsr \<Rightarrow> u32" where
  "bsr_GetSerializedSize b = fs_GetSerializedSize (bsr_header b) + 4"

definition bsr_Deserialize :: "bytes \<Rightarrow> (short_bsr \<times> u32) res" where
  "bsr_Deserialize start =
     bindE (fs_Deserialize start) (\<lambda>(h, readBytes).
     bindE (Next start readBytes) (\<lambda>bs.
     ns_assert (h = SHORT_BSR)
     (bindE (ReadU8 bs) (\<lambda>(l0, bs).
      bindE (ReadU8 bs) (\<lambda>(l1, bs).
      bindE (ReadU8 bs) (\<lambda>(l2, bs).
      bindE (ReadU8 bs) (\<lambda>(l3, _).
        let b = \<lparr>bsr_header = h, bufferSizeLevel_0 = l0, bufferSizeLevel_1 = l1,
                 bufferSizeLevel_2 = l2, bufferSizeLevel_3 = l3\<rparr>
        in Inr (b, bsr_GetSerializedSize b))))))))"

definition lookupVector :: "u64 list" where
  "lookupVector =
    [0, 10, 14, 20, 28, 38, 53, 74, 102, 142, 198,
     276, 384, 535, 745, 1038, 1446, 2014, 2806, 3909, 5446, 7587,
     10570, 14726, 20516, 28581, 39818, 55474, 77284, 107669, 150000]"

text \<open>The \<open>while\<close> over the table; past its end the C++ reads out of bounds.\<close>

fun level_scan :: "u64 list \<Rightarrow> u64 \<Rightarrow> u8 \<Rightarrow> u8 res" where
  "level_scan [] bufferSize index = Inl Undefined"
| "level_scan (t # ts) bufferSize index =
     (if t < bufferSize then level_scan ts bufferSize (index + 1) else Inr index)"

definition FromBytesToLevel :: "u64 \<Rightarrow> u8 res" where
  "FromBytesToLevel bufferSize =
     ns_assert (last lookupVector = 150000)
     (bindE (if bufferSize > last lookupVector then Inr 31
             else if bufferSize = 0 then Inr 0
             else level_scan lookupVector bufferSize 0) (\<lambda>index.
        ns_assert (index \<le> 31) (Inr index)))"

definition FromLevelToBytes :: "u8 \<Rightarrow> u64" where
  "FromLevelToBytes bufferLevel =
     (if unat bufferLevel > length lookupVector - 1 then 150000
      else lookupVector ! unat bufferLevel)"

subsection \<open>The header interface\<close>

text \<open>
  The contract of \<open>ns3::Header\<close>: \<open>Serialize\<close> writes exactly \<open>GetSerializedSize\<close> bytes, and
  \<open>Deserialize\<close>, called on a buffer that begins with them, gives the header back and the number of
  bytes it has used, whatever follows. The callers take headers off a buffer one after the other
  with it.
\<close>

definition take_header :: "(bytes \<Rightarrow> ('h \<times> u32) res) \<Rightarrow> bytes \<Rightarrow> ('h \<times> bytes) res" where
  "take_header deser bs = bindE (deser bs) (\<lambda>(h, n). bindE (Next bs n) (\<lambda>rest. Inr (h, rest)))"

fun add_headers :: "('h \<Rightarrow> bytes res) \<Rightarrow> 'h list \<Rightarrow> bytes \<Rightarrow> bytes res" where
  "add_headers ser [] payload = Inr payload"
| "add_headers ser (h # hs) payload =
     bindE (ser h) (\<lambda>b. bindE (add_headers ser hs payload) (\<lambda>r. Inr (b @ r)))"

fun take_headers :: "(bytes \<Rightarrow> ('h \<times> u32) res) \<Rightarrow> nat \<Rightarrow> bytes \<Rightarrow> ('h list \<times> bytes) res" where
  "take_headers deser 0 bs = Inr ([], bs)"
| "take_headers deser (Suc n) bs =
     bindE (take_header deser bs)
       (\<lambda>(h, r). bindE (take_headers deser n r) (\<lambda>(hs, p). Inr (h # hs, p)))"

locale ns3_header =
  fixes ser :: "'h \<Rightarrow> bytes res"
    and deser :: "bytes \<Rightarrow> ('h \<times> u32) res"
    and size :: "'h \<Rightarrow> u32"
    and ok :: "'h \<Rightarrow> bool"
  assumes ser_total: "ok h \<Longrightarrow> \<exists>bs. ser h = Inr bs"
    and ser_size: "ok h \<Longrightarrow> ser h = Inr bs \<Longrightarrow> length bs = unat (size h)"
    and deser_ser: "ok h \<Longrightarrow> ser h = Inr bs \<Longrightarrow> deser (bs @ rest) = Inr (h, size h)"
begin

lemma take_header_ser:
  "ok h \<Longrightarrow> ser h = Inr bs \<Longrightarrow> take_header deser (bs @ rest) = Inr (h, rest)"
  by (simp add: take_header_def deser_ser Next_def ser_size[symmetric])

lemma take_add_headers:
  assumes "\<forall>h \<in> set hs. ok h"
  shows "\<exists>bs. add_headers ser hs payload = Inr bs \<and>
    take_headers deser (length hs) bs = Inr (hs, payload)"
  using assms
proof (induction hs)
  case Nil
  then show ?case by simp
next
  case (Cons h hs)
  obtain b where b: "ser h = Inr b" using Cons.prems ser_total by auto
  with Cons show ?case by (auto simp: take_header_ser)
qed

lemma ser_inj: "ok h \<Longrightarrow> ok h' \<Longrightarrow> ser h = Inr bs \<Longrightarrow> ser h' = Inr bs \<Longrightarrow> h = h'"
  using deser_ser[of h bs "[]"] deser_ser[of h' bs "[]"] by simp

lemma ser_prefix_free:
  assumes "ok h" and "ok h'" and "ser h = Inr bs" and "ser h' = Inr bs'" and "bs' = bs @ r"
  shows "h' = h \<and> r = []"
proof -
  have "deser (bs' @ []) = Inr (h', size h')" using assms by (metis deser_ser)
  moreover have "deser (bs @ r) = Inr (h, size h)" using assms by (metis deser_ser)
  ultimately have "h' = h" using assms(5) by simp
  then show ?thesis using assms by simp
qed

end

lemma ReadU8_Cons [simp]: "ReadU8 (b # bs) = Inr (b, bs)"
  by (simp add: ReadU8_def)

lemma ntoh_hton [simp]: "ReadNtohU16 (WriteHtonU16 d @ bs) = Inr (d, bs)"
proof -
  have ff: "(0xff :: u16) = mask 8" by (simp add: mask_eq_exp_minus_1)
  have "push_bit 8 (0 OR ucast (ucast (drop_bit 8 d AND mask 8) :: u8) :: u16)
      OR ucast (ucast (drop_bit 0 d AND mask 8) :: u8) = d"
    by (rule bit_word_eqI) (auto simp: bit_simps bit_mask_iff)
  then show ?thesis by (simp add: ReadNtohU16_def WriteHtonU16_def ff)
qed

lemma length_hton [simp]: "length (WriteHtonU16 d) = 2"
  by (simp add: WriteHtonU16_def)

text \<open>The first byte of a subheader: the LCID in the low six bits, the F bit above them.\<close>

lemma lcid_bits:
  assumes "(lcid :: u8) < 64"
  shows "lcid AND 0x3F = lcid" "lcid AND 0xC0 = 0"
    "(lcid OR 0x40) AND 0x3F = lcid" "(lcid OR 0x40) AND 0xC0 = 0x40"
proof -
  have m: "(0x3F :: u8) = mask 6" by (simp add: mask_eq_exp_minus_1)
  show *: "lcid AND 0x3F = lcid"
    using assms unfolding m
    by (simp add: take_bit_eq_mask[symmetric] word_unat_eq_iff unsigned_take_bit_eq take_bit_eq_mod word_less_nat_alt unat_mod_distrib)
  have "(0x3F :: u8) AND 0xC0 = 0" "(0x40 :: u8) AND 0x3F = 0" "(0x40 :: u8) AND 0xC0 = 0x40"
    by simp_all
  then show c: "lcid AND 0xC0 = 0" using * by (metis and.assoc and_zero_eq)
  show "(lcid OR 0x40) AND 0x3F = lcid"
    using * by (simp add: bit.conj_disj_distrib2)
  show "(lcid OR 0x40) AND 0xC0 = 0x40"
    using c by (simp add: bit.conj_disj_distrib2)
qed

lemma ucast_u8_u16: "(s :: u16) \<le> 127 \<Longrightarrow> ucast (ucast s :: u8) = s"
  by (rule word_unat_eq_iff[THEN iffD2]) (simp add: unsigned_ucast_eq word_le_nat_alt take_bit_eq_mod unat_mod_distrib)



subsection \<open>The three headers keep the contract\<close>

lemma fs_round: "fs_Deserialize (fs_Serialize lcid @ rest) = Inr (lcid AND 0x3F, 1)"
  by (simp add: fs_Serialize_def fs_Deserialize_def)

lemma ul_fixed_lt: "ul_IsFixedSizeHeader lcid \<Longrightarrow> lcid < 64"
  by (auto simp: ul_IsFixedSizeHeader_def SHORT_BSR_def PADDING_def split: if_splits)

lemma dl_fixed_lt: "dl_IsFixedSizeHeader lcid \<Longrightarrow> lcid < 64"
  by (auto simp: dl_IsFixedSizeHeader_def PADDING_def split: if_splits)

interpretation fs_ul: ns3_header "\<lambda>h. Inr (fs_Serialize h)" fs_Deserialize fs_GetSerializedSize
  ul_IsFixedSizeHeader
  by unfold_locales
    (auto simp: fs_round fs_GetSerializedSize_def lcid_bits(1) dest!: ul_fixed_lt,
     simp add: fs_Serialize_def)

interpretation fs_dl: ns3_header "\<lambda>h. Inr (fs_Serialize h)" fs_Deserialize fs_GetSerializedSize
  dl_IsFixedSizeHeader
  by unfold_locales
    (auto simp: fs_round fs_GetSerializedSize_def lcid_bits(1) dest!: dl_fixed_lt,
     simp add: fs_Serialize_def)

lemma vs_round:
  assumes "vs_lcid h < 64"
  shows "vs_Deserialize (vs_Serialize h @ rest) = Inr (h, vs_GetSerializedSize h)"
  using lcid_bits[OF assms]
  by (auto simp: vs_Serialize_def vs_Deserialize_def vs_GetSerializedSize_def Let_def ucast_u8_u16
      not_less)

lemma length_vs: "length (vs_Serialize h) = unat (vs_GetSerializedSize h)"
  by (simp add: vs_Serialize_def vs_GetSerializedSize_def Let_def)

interpretation vs: ns3_header "\<lambda>h. Inr (vs_Serialize h)" vs_Deserialize vs_GetSerializedSize
  "\<lambda>h. vs_lcid h < 64"
  by unfold_locales (auto simp: vs_round length_vs)

text \<open>A Short BSR that its own constructor and setters can build, with levels of the table.\<close>

definition bsr_ok :: "short_bsr \<Rightarrow> bool" where
  "bsr_ok b \<longleftrightarrow> bsr_header b = SHORT_BSR \<and> bufferSizeLevel_0 b \<le> 31 \<and> bufferSizeLevel_1 b \<le> 31 \<and>
     bufferSizeLevel_2 b \<le> 31 \<and> bufferSizeLevel_3 b \<le> 31"

interpretation short_bsr: ns3_header bsr_Serialize bsr_Deserialize bsr_GetSerializedSize bsr_ok
proof (unfold_locales, goal_cases)
  case (1 h)
  then show ?case by (simp add: bsr_ok_def bsr_Serialize_def)
next
  case (2 h bs)
  then show ?case
    by (auto simp: bsr_ok_def bsr_Serialize_def bsr_GetSerializedSize_def fs_GetSerializedSize_def
        fs_Serialize_def)
next
  case (3 h bs rest)
  then show ?case
    by (cases h) (auto simp: bsr_ok_def bsr_Serialize_def bsr_Deserialize_def fs_round
        fs_Serialize_def fs_Deserialize_def Next_def SHORT_BSR_def Let_def)
qed


subsection \<open>What the peer reads\<close>

text \<open>
  C39. A variable-size subheader is read back from any buffer that begins with its bytes: the same
  LCID and the same 16-bit length, whether the length field took one byte or two, and
  \<open>Deserialize\<close> consumes exactly the bytes that \<open>Serialize\<close> wrote.
\<close>
theorem vs_header_roundtrip:
  assumes "vs_dl_SetLcId h lcId = Inr h' \<or> vs_ul_SetLcId h lcId = Inr h'"
  shows "vs_Deserialize (vs_Serialize h' @ rest) = Inr (h', vs_GetSerializedSize h') \<and>
    vs_lcid h' = lcId \<and> length (vs_Serialize h') = unat (vs_GetSerializedSize h')"
proof -
  have "vs_lcid h' = lcId \<and> lcId < 64"
    using assms by (auto simp: vs_dl_SetLcId_def vs_ul_SetLcId_def vs_SetLcId_def res_simps
        dl_IsVariableSizeHeader_def ul_IsVariableSizeHeader_def word_le_nat_alt word_less_nat_alt
        split: if_splits)
  then show ?thesis by (simp add: vs_round length_vs)
qed

theorem vs_header_roundtrip_witness:
  "vs_Deserialize (vs_Serialize \<lparr>vs_lcid = 4, vs_size = 1400\<rparr> @ [1, 2]) =
     Inr (\<lparr>vs_lcid = 4, vs_size = 1400\<rparr>, 3)"
  using vs_header_roundtrip[of "\<lparr>vs_lcid = 0, vs_size = 1400\<rparr>" 4 "\<lparr>vs_lcid = 4, vs_size = 1400\<rparr>" "[1, 2]"]
  by (simp add: vs_dl_SetLcId_def vs_SetLcId_def allowedLcId_def upt_rec vs_GetSerializedSize_def)

text \<open>
  The Short BSR that the UE sends is the one the gNB reads: \<open>Serialize\<close> does not fail for
  levels of the table, and \<open>Deserialize\<close> gives back all four levels and uses five bytes.
\<close>
lemma short_bsr_roundtrip:
  assumes "NrMacShortBsrCe = Inr b" and "la \<le> 31" and "lb \<le> 31" and "lc \<le> 31" and "ld \<le> 31"
    and "b' = b\<lparr>bufferSizeLevel_0 := la, bufferSizeLevel_1 := lb, bufferSizeLevel_2 := lc,
      bufferSizeLevel_3 := ld\<rparr>"
  shows "\<exists>bs. bsr_Serialize b' = Inr bs \<and> bsr_Deserialize (bs @ rest) = Inr (b', 5)"
proof -
  have ok: "bsr_ok b'" using assms
    by (auto simp: bsr_ok_def NrMacShortBsrCe_def fs_ul_SetLcId_def res_simps)
  then obtain bs where "bsr_Serialize b' = Inr bs" using short_bsr.ser_total by blast
  with ok show ?thesis
    using short_bsr.deser_ser[of b' bs rest]
    by (simp add: bsr_GetSerializedSize_def fs_GetSerializedSize_def)
qed

lemma short_bsr_roundtrip_witness:
  "\<exists>bs. bsr_Serialize \<lparr>bsr_header = 61, bufferSizeLevel_0 = 0, bufferSizeLevel_1 = 31,
      bufferSizeLevel_2 = 7, bufferSizeLevel_3 = 0\<rparr> = Inr bs \<and>
    bsr_Deserialize (bs @ [9]) = Inr (\<lparr>bsr_header = 61, bufferSizeLevel_0 = 0,
      bufferSizeLevel_1 = 31, bufferSizeLevel_2 = 7, bufferSizeLevel_3 = 0\<rparr>, 5)"
  by (rule short_bsr_roundtrip[where la = 0 and lb = 31 and lc = 7 and ld = 0
        and b = "\<lparr>bsr_header = 61, bufferSizeLevel_0 = 0, bufferSizeLevel_1 = 0,
          bufferSizeLevel_2 = 0, bufferSizeLevel_3 = 0\<rparr>"])
    (simp_all add: NrMacShortBsrCe_def fs_ul_SetLcId_def ul_IsFixedSizeHeader_def SHORT_BSR_def)

text \<open>
  The subheaders of a transport block do not run into each other: a sequence of variable-size
  subheaders written one after the other in front of a payload is taken off again one by one, and
  leaves the payload.
\<close>
lemma vs_headers_take_off:
  assumes "\<forall>h \<in> set hs. vs_lcid h < 64"
  shows "\<exists>bs. add_headers (\<lambda>h. Inr (vs_Serialize h)) hs payload = Inr bs \<and>
    take_headers vs_Deserialize (length hs) bs = Inr (hs, payload)"
  using assms by (rule vs.take_add_headers)

lemma vs_headers_take_off_witness:
  "\<exists>bs. add_headers (\<lambda>h. Inr (vs_Serialize h))
      [\<lparr>vs_lcid = 4, vs_size = 300\<rparr>, \<lparr>vs_lcid = 1, vs_size = 20\<rparr>] [7, 7] = Inr bs \<and>
    take_headers vs_Deserialize (Suc (Suc 0)) bs = Inr ([\<lparr>vs_lcid = 4, vs_size = 300\<rparr>, \<lparr>vs_lcid = 1, vs_size = 20\<rparr>], [7, 7])"
  using vs_headers_take_off[of "[\<lparr>vs_lcid = 4, vs_size = 300\<rparr>, \<lparr>vs_lcid = 1, vs_size = 20\<rparr>]" "[7, 7]"]
  by simp

subsection \<open>Quantisation of the buffer size\<close>

lemma lookup_sorted: "sorted_wrt (<) lookupVector"
  by (simp add: lookupVector_def)

lemma level_scan_spec:
  assumes "\<exists>t \<in> set ts. bufferSize \<le> t" and "unat k + length ts < 256"
  shows "\<exists>i < length ts. level_scan ts bufferSize k = Inr (k + of_nat i) \<and> bufferSize \<le> ts ! i \<and>
    (\<forall>j < i. ts ! j < bufferSize)"
  using assms
proof (induction ts arbitrary: k)
  case Nil
  then show ?case by simp
next
  case (Cons t ts)
  show ?case
  proof (cases "t < bufferSize")
    case True
    have k1: "unat (k + 1) = unat k + 1"
      using Cons.prems(2) by (simp add: unat_word_ariths)
    obtain i where i: "i < length ts" "level_scan ts bufferSize (k + 1) = Inr (k + 1 + of_nat i)"
      "bufferSize \<le> ts ! i" "\<forall>j < i. ts ! j < bufferSize"
      using Cons.IH[of "k + 1"] Cons.prems True k1 by auto
    then have "\<forall>j < Suc i. (t # ts) ! j < bufferSize"
      using True by (auto simp: less_Suc_eq_0_disj)
    with i True show ?thesis by (intro exI[of _ "Suc i"]) (auto simp: algebra_simps)
  next
    case False
    then show ?thesis by (intro exI[of _ 0]) auto
  qed
qed

lemma bytes_to_level:
  assumes "n \<le> 150000" and "n \<noteq> 0"
  shows "\<exists>i < 31. FromBytesToLevel n = Inr (of_nat i) \<and> n \<le> lookupVector ! i \<and> (\<forall>j < i. lookupVector ! j < n)"
proof -
  have len: "length lookupVector = 31" and last: "last lookupVector = 150000"
    by (simp_all add: lookupVector_def)
  have "150000 \<in> set lookupVector" by (simp add: lookupVector_def)
  then obtain i where i: "i < 31" "level_scan lookupVector n 0 = Inr (of_nat i)"
    "n \<le> lookupVector ! i" "\<forall>j < i. lookupVector ! j < n"
    using level_scan_spec[of lookupVector n 0] assms(1) len by auto
  have "unat (of_nat i :: u8) = i" using i(1) by (simp add: unat_of_nat)
  then have "(of_nat i :: u8) \<le> 31" using i(1) by (simp add: word_le_nat_alt)
  then have "FromBytesToLevel n = Inr (of_nat i)"
    using assms i(2) by (simp add: FromBytesToLevel_def last leD)
  then show ?thesis using i by blast
qed

lemma FromBytesToLevel_total: "\<exists>l. FromBytesToLevel n = Inr l \<and> l \<le> 31"
proof (cases "n \<le> 150000 \<and> n \<noteq> 0")
  case True
  then obtain i where i: "i < 31" "FromBytesToLevel n = Inr (of_nat i)" using bytes_to_level by blast
  then show ?thesis by (simp add: word_le_nat_alt unat_of_nat)
next
  case False
  then show ?thesis by (auto simp: FromBytesToLevel_def lookupVector_def)
qed

text \<open>
  The level that a UE reports is the smallest one that covers its buffer: for every buffer of
  up to 150000 bytes \<open>FromBytesToLevel\<close> returns a level, \<open>FromLevelToBytes\<close> of it is at least the
  buffer, and every lower level stands for less than the buffer.
\<close>
lemma bsr_level_covers:
  assumes "n \<le> 150000"
  shows "\<exists>l. FromBytesToLevel n = Inr l \<and> l \<le> 30 \<and> n \<le> FromLevelToBytes l \<and>
    (\<forall>m < l. FromLevelToBytes m < n)"
proof (cases "n = 0")
  case True
  then show ?thesis by (auto simp: FromBytesToLevel_def lookupVector_def FromLevelToBytes_def)
next
  case False
  have len: "length lookupVector = 31" by (simp add: lookupVector_def)
  obtain i where i: "i < 31" "FromBytesToLevel n = Inr (of_nat i)" "n \<le> lookupVector ! i" "\<forall>j < i. lookupVector ! j < n"
    using bytes_to_level[OF assms False] by blast
  have u: "unat (of_nat i :: u8) = i" using i(1) by (simp add: unat_of_nat)
  have le: "(of_nat i :: u8) \<le> 30" using i(1) by (simp add: word_le_nat_alt u)
  have "n \<le> FromLevelToBytes (of_nat i)"
    using i(1,3) u by (simp add: FromLevelToBytes_def len)
  moreover have "FromLevelToBytes m < n" if "m < of_nat i" for m
  proof -
    have "unat m < i" using that by (simp add: word_less_nat_alt u)
    then show ?thesis using i(1,4) by (simp add: FromLevelToBytes_def len)
  qed
  ultimately show ?thesis using le i(2) by blast
qed

lemma bsr_level_covers_witness:
  "\<exists>l. FromBytesToLevel 1500 = Inr l \<and> l \<le> 30 \<and> 1500 \<le> FromLevelToBytes l \<and>
    (\<forall>m < l. FromLevelToBytes m < 1500)"
  by (rule bsr_level_covers) simp

text \<open>
  Above 150000 bytes the report saturates: every such buffer is level 31, which the gNB reads as
  150000 bytes, less than what the UE holds.
\<close>
lemma bsr_level_saturates:
  assumes "150000 < n"
  shows "FromBytesToLevel n = Inr 31 \<and> FromLevelToBytes 31 = 150000"
  using assms by (simp add: FromBytesToLevel_def FromLevelToBytes_def lookupVector_def)

lemma bsr_level_saturates_witness:
  "FromBytesToLevel 4000000 = Inr 31 \<and> FromLevelToBytes 31 = 150000"
  by (rule bsr_level_saturates) simp

end
