(* ===== verification/PhyMacCommon.thy ===== *)
theory PhyMacCommon
  imports SfnSf
begin

text \<open>
  The structures the MAC, the scheduler and the PHY exchange: \<open>contrib/nr/model/nr-phy-mac-common.h\<close>
  and \<open>nr-phy-mac-common.cc\<close>. A DCI is a value here; the C++ shares it by \<open>shared_ptr\<close> between a
  slot allocation and a HARQ process, and the only field written after construction and sharing is
  the HARQ process id, which the model writes in both places. \<open>std::sort\<close> may order equivalent
  elements in any way, so it is a parameter that satisfies \<open>std_sort\<close>.
\<close>

subsection \<open>DCI\<close>

datatype DciFormat = DL_DCI | UL_DCI

datatype VarTtiType = SRS | DATA | CTRL

record dci =
  dci_rnti :: u16
  dci_format :: DciFormat
  dci_symStart :: u8
  dci_numSym :: u8
  dci_mcs :: "u8 list"
  dci_tbSize :: "u32 list"
  dci_ndi :: "u8 list"
  dci_rv :: "u8 list"
  dci_type :: VarTtiType
  dci_bwpIndex :: u8
  dci_harqProcess :: u8
  dci_rbgBitmask :: "u8 list"
  dci_tpc :: u8

definition Dci_ctrl :: "u8 \<Rightarrow> u8 \<Rightarrow> DciFormat \<Rightarrow> VarTtiType \<Rightarrow> u8 list \<Rightarrow> dci" where
  "Dci_ctrl symStart numSym format ty rbgBitmask =
     \<lparr>dci_rnti = 0, dci_format = format, dci_symStart = symStart, dci_numSym = numSym,
      dci_mcs = [], dci_tbSize = [], dci_ndi = [], dci_rv = [], dci_type = ty, dci_bwpIndex = 0,
      dci_harqProcess = 0, dci_rbgBitmask = rbgBitmask, dci_tpc = 0\<rparr>"

definition Dci_data :: "u16 \<Rightarrow> DciFormat \<Rightarrow> u8 \<Rightarrow> u8 \<Rightarrow> u8 list \<Rightarrow> u32 list \<Rightarrow> u8 list \<Rightarrow> u8 list \<Rightarrow>
    VarTtiType \<Rightarrow> u8 \<Rightarrow> u8 \<Rightarrow> dci" where
  "Dci_data rnti format symStart numSym mcs tbs ndi rv ty bwpIndex tpc =
     \<lparr>dci_rnti = rnti, dci_format = format, dci_symStart = symStart, dci_numSym = numSym,
      dci_mcs = mcs, dci_tbSize = tbs, dci_ndi = ndi, dci_rv = rv, dci_type = ty,
      dci_bwpIndex = bwpIndex, dci_harqProcess = 0, dci_rbgBitmask = [], dci_tpc = tpc\<rparr>"

definition Dci_retx :: "u8 \<Rightarrow> u8 \<Rightarrow> u8 list \<Rightarrow> u8 list \<Rightarrow> dci \<Rightarrow> dci" where
  "Dci_retx symStart numSym ndi rv o1 =
     \<lparr>dci_rnti = dci_rnti o1, dci_format = dci_format o1, dci_symStart = symStart,
      dci_numSym = numSym, dci_mcs = dci_mcs o1, dci_tbSize = dci_tbSize o1, dci_ndi = ndi,
      dci_rv = rv, dci_type = dci_type o1, dci_bwpIndex = dci_bwpIndex o1,
      dci_harqProcess = dci_harqProcess o1, dci_rbgBitmask = dci_rbgBitmask o1,
      dci_tpc = dci_tpc o1\<rparr>"

record RlcPduInfo =
  pdu_lcid :: u8
  pdu_size :: u32

subsection \<open>Allocations of a slot\<close>

record VarTtiAllocInfo =
  tti_isOmni :: bool
  tti_dci :: dci
  tti_rlcPduInfo :: "RlcPduInfo list list"

definition VarTtiAllocInfo :: "dci \<Rightarrow> VarTtiAllocInfo" where
  "VarTtiAllocInfo d = \<lparr>tti_isOmni = False, tti_dci = d, tti_rlcPduInfo = []\<rparr>"

definition tti_less :: "VarTtiAllocInfo \<Rightarrow> VarTtiAllocInfo \<Rightarrow> bool" where
  "tti_less a o1 \<longleftrightarrow> dci_symStart (tti_dci a) < dci_symStart (tti_dci o1)"

datatype AllocationType = NONE | DL | UL | BOTH

text \<open>The integer a C++ enumerator stands for.\<close>

fun alloc_val :: "AllocationType \<Rightarrow> int" where
  "alloc_val NONE = 0"
| "alloc_val DL = 1"
| "alloc_val UL = 2"
| "alloc_val BOTH = 3"

record SlotAllocInfo =
  slot_sfnSf :: sfnsf
  slot_numSymAlloc :: u32
  slot_varTtiAllocInfo :: "VarTtiAllocInfo list"
  slot_type :: AllocationType

definition SlotAllocInfo :: "sfnsf \<Rightarrow> SlotAllocInfo" where
  "SlotAllocInfo sfn =
     \<lparr>slot_sfnSf = sfn, slot_numSymAlloc = 0, slot_varTtiAllocInfo = [], slot_type = NONE\<rparr>"

definition Merge :: "(VarTtiAllocInfo list \<Rightarrow> VarTtiAllocInfo list) \<Rightarrow> SlotAllocInfo \<Rightarrow> SlotAllocInfo \<Rightarrow>
    SlotAllocInfo res" where
  "Merge sort_deque this other =
     ns_assert (slot_type other \<noteq> NONE \<and> slot_type this \<noteq> NONE)
     (bindE (sfn_eq (slot_sfnSf other) (slot_sfnSf this)) (\<lambda>eq.
      ns_assert eq
      (let this = (if alloc_val (slot_type other) * alloc_val (slot_type this) = 6
                   then this\<lparr>slot_type := BOTH\<rparr> else this);
           this = this\<lparr>slot_numSymAlloc := slot_numSymAlloc this + slot_numSymAlloc other\<rparr>;
           deque = foldl (\<lambda>q extAlloc. extAlloc # q) (slot_varTtiAllocInfo this)
                     (slot_varTtiAllocInfo other)
       in Inr (this\<lparr>slot_varTtiAllocInfo := sort_deque deque\<rparr>))))"

fun ContainsDataAllocation_in :: "VarTtiAllocInfo list \<Rightarrow> bool" where
  "ContainsDataAllocation_in [] = False"
| "ContainsDataAllocation_in (allocation # r) =
     (if dci_type (tti_dci allocation) = DATA then True else ContainsDataAllocation_in r)"

definition ContainsDataAllocation :: "SlotAllocInfo \<Rightarrow> bool" where
  "ContainsDataAllocation s = ContainsDataAllocation_in (slot_varTtiAllocInfo s)"

fun ContainsDlCtrlAllocation_in :: "VarTtiAllocInfo list \<Rightarrow> bool" where
  "ContainsDlCtrlAllocation_in [] = False"
| "ContainsDlCtrlAllocation_in (allocation # r) =
     (if dci_type (tti_dci allocation) = CTRL \<and> dci_format (tti_dci allocation) = DL_DCI then True
      else ContainsDlCtrlAllocation_in r)"

definition ContainsDlCtrlAllocation :: "SlotAllocInfo \<Rightarrow> bool" where
  "ContainsDlCtrlAllocation s = ContainsDlCtrlAllocation_in (slot_varTtiAllocInfo s)"

fun ContainsUlCtrlAllocation_in :: "VarTtiAllocInfo list \<Rightarrow> bool" where
  "ContainsUlCtrlAllocation_in [] = False"
| "ContainsUlCtrlAllocation_in (allocation # r) =
     (if dci_type (tti_dci allocation) = SRS then True else ContainsUlCtrlAllocation_in r)"

definition ContainsUlCtrlAllocation :: "SlotAllocInfo \<Rightarrow> bool" where
  "ContainsUlCtrlAllocation s = ContainsUlCtrlAllocation_in (slot_varTtiAllocInfo s)"

definition slot_less :: "SlotAllocInfo \<Rightarrow> SlotAllocInfo \<Rightarrow> bool res" where
  "slot_less a b = sfn_less (slot_sfnSf a) (slot_sfnSf b)"

subsection \<open>HARQ feedback\<close>

datatype HarqStatus = ACK | NACK | HNONE

record DlHarqInfo =
  dlh_rnti :: u16
  dlh_harqProcessId :: u8
  dlh_bwpIndex :: u8
  dlh_harqStatus :: "HarqStatus list"
  dlh_numRetx :: "u8 list"

text \<open>The loop of \<open>IsReceivedOk\<close>, which a NACK leaves: \<open>ok\<close> and \<open>allStatus\<close> at its end.\<close>

fun received_scan :: "bool \<Rightarrow> HarqStatus \<Rightarrow> HarqStatus list \<Rightarrow> bool \<times> HarqStatus" where
  "received_scan ok allStatus [] = (ok, allStatus)"
| "received_scan ok allStatus (it # r) =
     (if it = ACK \<or> it = HNONE
      then received_scan True (if it \<noteq> HNONE then it else allStatus) r
      else (False, it))"

definition dl_IsReceivedOk :: "DlHarqInfo \<Rightarrow> bool res" where
  "dl_IsReceivedOk h =
     (let (ok, allStatus) = received_scan False HNONE (dlh_harqStatus h)
      in ns_assert (allStatus \<noteq> HNONE) (Inr ok))"

definition dl_IsReceivedOk_stream :: "DlHarqInfo \<Rightarrow> u8 \<Rightarrow> bool res" where
  "dl_IsReceivedOk_stream h stream =
     bindE (vec_at (dlh_harqStatus h) (unat stream)) (\<lambda>s. Inr (s = ACK))"

fun nack_indexes :: "nat \<Rightarrow> HarqStatus list \<Rightarrow> u8 list" where
  "nack_indexes i [] = []"
| "nack_indexes i (s # r) = (if s = NACK then of_nat i # nack_indexes (Suc i) r
                             else nack_indexes (Suc i) r)"

definition dl_GetNackStreamIndexes :: "DlHarqInfo \<Rightarrow> u8 list" where
  "dl_GetNackStreamIndexes h = nack_indexes 0 (dlh_harqStatus h)"

datatype ReceptionStatus = Ok | NotOk | NotValidRx

record UlHarqInfo =
  ulh_rnti :: u16
  ulh_harqProcessId :: u8
  ulh_bwpIndex :: u8
  ulh_ulReception :: "u16 list"
  ulh_receptionStatus :: ReceptionStatus
  ulh_tpc :: u8
  ulh_numRetx :: u8

definition ul_IsReceivedOk :: "UlHarqInfo \<Rightarrow> bool" where
  "ul_IsReceivedOk h \<longleftrightarrow> ulh_receptionStatus h = Ok"

definition ul_GetNackStreamIndexes :: "UlHarqInfo \<Rightarrow> u8 list" where
  "ul_GetNackStreamIndexes h = (if ulh_receptionStatus h = NotOk then [0] else [])"

subsection \<open>std::sort\<close>

definition std_sort :: "('a \<Rightarrow> 'a \<Rightarrow> bool) \<Rightarrow> ('a list \<Rightarrow> 'a list) \<Rightarrow> bool" where
  "std_sort lt f \<longleftrightarrow> (\<forall>xs. mset (f xs) = mset xs \<and> sorted_wrt (\<lambda>x y. \<not> lt y x) (f xs))"

lemma std_sort_mset [simp]: "std_sort lt f \<Longrightarrow> mset (f xs) = mset xs"
  by (simp add: std_sort_def)

lemma std_sort_sorted: "std_sort lt f \<Longrightarrow> sorted_wrt (\<lambda>x y. \<not> lt y x) (f xs)"
  by (simp add: std_sort_def)

lemma std_sort_set [simp]: "std_sort lt f \<Longrightarrow> set (f xs) = set xs"
  by (metis set_mset_mset std_sort_mset)

lemma std_sort_length [simp]: "std_sort lt f \<Longrightarrow> length (f xs) = length xs"
  by (metis size_mset std_sort_mset)

lemma std_sort_distinct [simp]: "std_sort lt f \<Longrightarrow> distinct (f xs) = distinct xs"
  by (rule mset_eq_imp_distinct_iff) simp

lemma std_sort_key:
  fixes k :: "'a \<Rightarrow> 'b::linorder"
  shows "std_sort (\<lambda>x y. k x < k y) (sort_key k)"
proof -
  have "sorted_wrt (\<lambda>x y. \<not> k y < k x) (sort_key k xs)" for xs
    using sorted_sort_key[of k xs] by (simp add: sorted_wrt_map not_less sorted_map)
  then show ?thesis by (simp add: std_sort_def)
qed


subsection \<open>What the structures promise\<close>

lemma foldl_push_front: "foldl (\<lambda>q a. a # q) xs ys = rev ys @ xs"
  by (induction ys arbitrary: xs) auto

lemma ContainsDataAllocation_iff:
  "ContainsDataAllocation s \<longleftrightarrow> (\<exists>a \<in> set (slot_varTtiAllocInfo s). dci_type (tti_dci a) = DATA)"
proof -
  have "ContainsDataAllocation_in xs \<longleftrightarrow> (\<exists>a \<in> set xs. dci_type (tti_dci a) = DATA)" for xs
    by (induction xs) auto
  then show ?thesis by (simp add: ContainsDataAllocation_def)
qed

lemma ContainsDlCtrlAllocation_iff:
  "ContainsDlCtrlAllocation s \<longleftrightarrow> (\<exists>a \<in> set (slot_varTtiAllocInfo s).
     dci_type (tti_dci a) = CTRL \<and> dci_format (tti_dci a) = DL_DCI)"
proof -
  have "ContainsDlCtrlAllocation_in xs \<longleftrightarrow>
      (\<exists>a \<in> set xs. dci_type (tti_dci a) = CTRL \<and> dci_format (tti_dci a) = DL_DCI)" for xs
    by (induction xs) auto
  then show ?thesis by (simp add: ContainsDlCtrlAllocation_def)
qed

lemma ContainsUlCtrlAllocation_iff:
  "ContainsUlCtrlAllocation s \<longleftrightarrow> (\<exists>a \<in> set (slot_varTtiAllocInfo s). dci_type (tti_dci a) = SRS)"
proof -
  have "ContainsUlCtrlAllocation_in xs \<longleftrightarrow> (\<exists>a \<in> set xs. dci_type (tti_dci a) = SRS)" for xs
    by (induction xs) auto
  then show ?thesis by (simp add: ContainsUlCtrlAllocation_def)
qed

lemmas contains_iff =
  ContainsDataAllocation_iff ContainsDlCtrlAllocation_iff ContainsUlCtrlAllocation_iff

lemma alloc_product_6:
  "alloc_val a * alloc_val b = 6 \<longleftrightarrow> (a = UL \<and> b = BOTH \<or> a = BOTH \<and> b = UL)"
  by (cases a; cases b) auto

text \<open>
  C34. Merging two allocations of one slot never fails and loses nothing: the result holds exactly
  the allocations of both, ordered by their first symbol, its symbol count is the sum, and it has
  data, DL control or UL control when one of the two has.
\<close>
theorem Merge_keeps_allocations:
  assumes "std_sort tti_less f" and "slot_type s \<noteq> NONE" and "slot_type t \<noteq> NONE"
    and "slot_sfnSf t = slot_sfnSf s"
  shows "\<exists>r. Merge f s t = Inr r \<and>
    mset (slot_varTtiAllocInfo r) = mset (slot_varTtiAllocInfo s) + mset (slot_varTtiAllocInfo t) \<and>
    sorted (map (\<lambda>a. dci_symStart (tti_dci a)) (slot_varTtiAllocInfo r)) \<and>
    slot_numSymAlloc r = slot_numSymAlloc s + slot_numSymAlloc t \<and>
    (ContainsDataAllocation r \<longleftrightarrow> ContainsDataAllocation s \<or> ContainsDataAllocation t) \<and>
    (ContainsDlCtrlAllocation r \<longleftrightarrow> ContainsDlCtrlAllocation s \<or> ContainsDlCtrlAllocation t) \<and>
    (ContainsUlCtrlAllocation r \<longleftrightarrow> ContainsUlCtrlAllocation s \<or> ContainsUlCtrlAllocation t)"
proof -
  have sorted: "sorted (map (\<lambda>a. dci_symStart (tti_dci a)) (f xs))" for xs
    using std_sort_sorted[OF assms(1), of xs] by (simp add: sorted_wrt_map tti_less_def not_less)
  obtain r where r: "Merge f s t = Inr r"
      "slot_varTtiAllocInfo r = f (rev (slot_varTtiAllocInfo t) @ slot_varTtiAllocInfo s)"
      "slot_numSymAlloc r = slot_numSymAlloc s + slot_numSymAlloc t"
    using assms(2-4) by (auto simp: Merge_def sfn_eq_def foldl_push_front Let_def)
  then have "set (slot_varTtiAllocInfo r) = set (slot_varTtiAllocInfo t) \<union> set (slot_varTtiAllocInfo s)"
    using assms(1) by simp
  then show ?thesis using r sorted assms(1) by (auto simp: contains_iff)
qed

definition demo_tti :: "u8 \<Rightarrow> VarTtiType \<Rightarrow> VarTtiAllocInfo" where
  "demo_tti start ty = VarTtiAllocInfo (Dci_ctrl start 1 DL_DCI ty [])"

definition demo_slot :: "AllocationType \<Rightarrow> VarTtiAllocInfo list \<Rightarrow> SlotAllocInfo" where
  "demo_slot ty l = (SlotAllocInfo SfnSf_default)\<lparr>slot_type := ty, slot_varTtiAllocInfo := l\<rparr>"

theorem Merge_keeps_allocations_witness:
  "\<exists>r. Merge (sort_key (\<lambda>a. dci_symStart (tti_dci a))) (demo_slot DL [demo_tti 0 CTRL])
      (demo_slot UL [demo_tti 9 DATA]) = Inr r \<and> ContainsDataAllocation r"
proof -
  have "std_sort tti_less (sort_key (\<lambda>a. dci_symStart (tti_dci a)))"
    using std_sort_key[of "\<lambda>a. dci_symStart (tti_dci a)"]
    by (simp add: std_sort_def tti_less_def)
  from Merge_keeps_allocations[OF this, of "demo_slot DL [demo_tti 0 CTRL]" "demo_slot UL [demo_tti 9 DATA]"]
  show ?thesis
    by (auto simp: demo_slot_def demo_tti_def SlotAllocInfo_def VarTtiAllocInfo_def Dci_ctrl_def
        ContainsDataAllocation_def)
qed

text \<open>
  Merging a downlink and an uplink allocation does not make the type \<open>BOTH\<close>: the code tests
  the product of the two enumerators against 6, which is \<open>UL * BOTH\<close>, not \<open>DL * UL\<close>. As long as
  neither side is \<open>BOTH\<close>, the type is the one it was.
\<close>
lemma Merge_DL_UL_not_BOTH:
  assumes "Merge f s t = Inr r" and "slot_type s \<noteq> BOTH" and "slot_type t \<noteq> BOTH"
  shows "slot_type r = slot_type s"
  using assms by (auto simp: Merge_def res_simps Let_def alloc_product_6 split: if_splits)

lemma Merge_DL_UL_not_BOTH_witness:
  "\<exists>r. Merge id (demo_slot DL [demo_tti 0 CTRL]) (demo_slot UL [demo_tti 9 DATA]) = Inr r \<and>
     slot_type r = DL"
proof -
  obtain r where r: "Merge id (demo_slot DL [demo_tti 0 CTRL]) (demo_slot UL [demo_tti 9 DATA]) = Inr r"
    by (auto simp: Merge_def sfn_eq_def demo_slot_def SlotAllocInfo_def)
  from Merge_DL_UL_not_BOTH[OF this] show ?thesis
    using r by (simp add: demo_slot_def)
qed

lemma received_scan_spec:
  "received_scan ok al xs =
     (if NACK \<in> set xs then (False, NACK)
      else if xs = [] then (ok, al) else (True, if ACK \<in> set xs then ACK else al))"
  by (induction xs arbitrary: ok al) (auto intro: HarqStatus.exhaust)

lemma nack_indexes_spec:
  "nack_indexes k xs = map (\<lambda>i. of_nat (i + k)) (filter (\<lambda>i. xs ! i = NACK) [0..<length xs])"
proof (induction xs arbitrary: k)
  case Nil
  then show ?case by simp
next
  case (Cons x xs)
  have "[0..<length (x # xs)] = 0 # map Suc [0..<length xs]"
    by (simp add: upt_conv_Cons map_Suc_upt del: upt_Suc)
  then show ?case using Cons by (simp add: filter_map comp_def del: upt_Suc)
qed

text \<open>
  A downlink HARQ feedback over several streams: one NACK makes the process not received, only
  ACKs (and streams without feedback) make it received, feedback on no stream stops at the
  assertion; and the streams to retransmit are exactly those with a NACK.
\<close>
lemma dl_feedback_spec:
  "dl_IsReceivedOk h =
     (if NACK \<in> set (dlh_harqStatus h) then Inr False
      else if ACK \<in> set (dlh_harqStatus h) then Inr True else Inl AssertFailed) \<and>
   dl_GetNackStreamIndexes h =
     map of_nat (filter (\<lambda>i. dlh_harqStatus h ! i = NACK) [0..<length (dlh_harqStatus h)])"
  by (auto simp: dl_IsReceivedOk_def received_scan_spec dl_GetNackStreamIndexes_def
      nack_indexes_spec)

end
