(* ===== verification/Harq.thy ===== *)
theory Harq
  imports PhyMacCommon
begin

text \<open>
  A HARQ process and the fixed set of processes of a UE: \<open>HarqProcess\<close> of
  \<open>contrib/nr/model/nr-mac-harq-process.h\<close> and \<open>NrMacHarqVector\<close> of \<open>nr-mac-harq-vector.h\<close> and
  \<open>nr-mac-harq-vector.cc\<close>. The vector is an \<open>unordered_map\<close> from process id to process that always
  holds every process; a slot is free when its process is not active. The interface \<open>process_store\<close>
  is what the scheduler relies on.
\<close>

subsection \<open>HarqProcess\<close>

datatype Status = INACTIVE | WAITING_FEEDBACK | RECEIVED_FEEDBACK

record HarqProcess =
  m_active :: bool
  m_status :: Status
  m_timer :: u8
  m_dciElement :: "dci option"
  m_rlcPduInfo :: "RlcPduInfo list list"
  nackStreamIndexes :: "u8 list"

definition HarqProcess_default :: HarqProcess where
  "HarqProcess_default = \<lparr>m_active = False, m_status = INACTIVE, m_timer = 0, m_dciElement = None,
     m_rlcPduInfo = [], nackStreamIndexes = []\<rparr>"

text \<open>The copy constructor, which the C++ writes out without the last member.\<close>

definition HarqProcess_copy :: "HarqProcess \<Rightarrow> HarqProcess" where
  "HarqProcess_copy other = \<lparr>m_active = m_active other, m_status = m_status other,
     m_timer = m_timer other, m_dciElement = m_dciElement other,
     m_rlcPduInfo = m_rlcPduInfo other, nackStreamIndexes = []\<rparr>"

definition HarqProcess :: "bool \<Rightarrow> Status \<Rightarrow> u8 \<Rightarrow> dci \<Rightarrow> HarqProcess" where
  "HarqProcess active status timer d = \<lparr>m_active = active, m_status = status, m_timer = timer,
     m_dciElement = Some d, m_rlcPduInfo = [], nackStreamIndexes = []\<rparr>"

definition process_Erase :: "HarqProcess \<Rightarrow> HarqProcess" where
  "process_Erase p = p\<lparr>m_active := False, m_status := INACTIVE, m_timer := 0,
     m_dciElement := None, m_rlcPduInfo := []\<rparr>"

subsection \<open>NrMacHarqVector\<close>

record NrMacHarqVector =
  hv_map :: "(u8 \<times> HarqProcess) list"
  m_maxSize :: u8
  m_usedSize :: u8

definition NrMacHarqVector_default :: NrMacHarqVector where
  "NrMacHarqVector_default = \<lparr>hv_map = [], m_maxSize = 0, m_usedSize = 0\<rparr>"

definition hv_SetMaxSize :: "NrMacHarqVector \<Rightarrow> u8 \<Rightarrow> NrMacHarqVector" where
  "hv_SetMaxSize v sz =
     v\<lparr>m_maxSize := sz,
       hv_map := foldl (\<lambda>m i. map_emplace (of_nat i) (HarqProcess_copy HarqProcess_default) m)
                   (hv_map v) [0..<unat sz]\<rparr>"

definition hv_Exist :: "NrMacHarqVector \<Rightarrow> u8 \<Rightarrow> bool" where
  "hv_Exist v i \<longleftrightarrow> map_of (hv_map v) i \<noteq> None"

definition hv_Get :: "NrMacHarqVector \<Rightarrow> u8 \<Rightarrow> HarqProcess res" where
  "hv_Get v i = ns_assert (hv_Exist v i) (map_deref i (hv_map v))"

text \<open>Writing through the reference that \<open>Get\<close> returns.\<close>

definition hv_Set :: "NrMacHarqVector \<Rightarrow> u8 \<Rightarrow> HarqProcess \<Rightarrow> NrMacHarqVector" where
  "hv_Set v i p = v\<lparr>hv_map := AList.update i p (hv_map v)\<rparr>"

fun first_inactive :: "(u8 \<times> HarqProcess) list \<Rightarrow> u8" where
  "first_inactive [] = 255"
| "first_inactive ((i, p) # r) = (if \<not> m_active p then i else first_inactive r)"

definition FirstAvailableId :: "NrMacHarqVector \<Rightarrow> u8" where
  "FirstAvailableId v = first_inactive (hv_map v)"

definition hv_Size :: "NrMacHarqVector \<Rightarrow> u32" where
  "hv_Size v = ucast (m_usedSize v)"

definition CanInsert :: "NrMacHarqVector \<Rightarrow> bool" where
  "CanInsert v \<longleftrightarrow> hv_Size v < ucast (m_maxSize v)"

fun count_active :: "u32 \<Rightarrow> (u8 \<times> HarqProcess) list \<Rightarrow> u32" where
  "count_active n [] = n"
| "count_active n ((i, p) # r) = count_active (if m_active p then n + 1 else n) r"

definition hv_Erase :: "NrMacHarqVector \<Rightarrow> u8 \<Rightarrow> (NrMacHarqVector \<times> bool) res" where
  "hv_Erase v i =
     bindE (map_at i (hv_map v)) (\<lambda>p.
       let v = v\<lparr>hv_map := AList.update i (process_Erase p) (hv_map v)\<rparr>;
           v = v\<lparr>m_usedSize := m_usedSize v - 1\<rparr>;
           n = count_active 0 (hv_map v)
       in ns_assert (n = ucast (m_usedSize v)) (Inr (v, True)))"

text \<open>The result carries \<open>*id\<close>, which the caller passes in and the code may overwrite.\<close>

definition hv_Insert :: "NrMacHarqVector \<Rightarrow> u8 \<Rightarrow> HarqProcess \<Rightarrow> (NrMacHarqVector \<times> u8 \<times> bool) res" where
  "hv_Insert v i element =
     (if m_usedSize v \<ge> m_maxSize v then Inr (v, i, False)
      else ns_abort_if (\<not> m_active element)
        (let i = FirstAvailableId v in
         if i = 255 then Inr (v, i, False)
         else bindE (map_at i (hv_map v)) (\<lambda>old.
           ns_abort_if (m_active old)
             (let v = hv_Set v i element in
              bindE (map_at i (hv_map v)) (\<lambda>new.
                ns_abort_if (\<not> m_active new)
                (ns_abort_if (FirstAvailableId v = i)
                  (Inr (v\<lparr>m_usedSize := m_usedSize v + 1\<rparr>, i, True))))))))"

subsection \<open>Well-formed vectors\<close>

definition active_part :: "(u8 \<times> HarqProcess) list \<Rightarrow> (u8 \<times> HarqProcess) list" where
  "active_part m = filter (\<lambda>(i, p). m_active p) m"

definition hv_wf :: "NrMacHarqVector \<Rightarrow> bool" where
  "hv_wf v \<longleftrightarrow> distinct (map fst (hv_map v)) \<and> 255 \<notin> set (map fst (hv_map v)) \<and>
     length (hv_map v) = unat (m_maxSize v) \<and>
     length (active_part (hv_map v)) = unat (m_usedSize v)"

text \<open>The processes in use, as a map.\<close>

definition content :: "NrMacHarqVector \<Rightarrow> u8 \<Rightarrow> HarqProcess option" where
  "content v i = (case map_of (hv_map v) i of
     Some p \<Rightarrow> if m_active p then Some p else None | None \<Rightarrow> None)"

lemma count_active_eq: "count_active c m = c + of_nat (length (active_part m))"
  by (induction c m rule: count_active.induct) (auto simp: active_part_def)

lemma active_update:
  assumes "distinct (map fst m)" and "map_of m i = Some p"
  shows "length (active_part (AList.update i q m)) + (if m_active p then 1 else 0) =
    length (active_part m) + (if m_active q then 1 else 0)"
  using assms
proof (induction m)
  case Nil
  then show ?case by simp
next
  case (Cons x m)
  obtain k r where x: "x = (k, r)" by fastforce
  show ?case
  proof (cases "k = i")
    case True
    then show ?thesis using Cons x by (auto simp: active_part_def)
  next
    case False
    then show ?thesis using Cons x by (auto simp: active_part_def)
  qed
qed

lemma active_le: "length (active_part m) \<le> length m"
  by (simp add: active_part_def)

lemma first_inactive_spec:
  assumes "255 \<notin> fst ` set m"
  shows "(if \<exists>(k, p) \<in> set m. \<not> m_active p
    then first_inactive m \<noteq> 255 \<and> (\<exists>p. (first_inactive m, p) \<in> set m \<and> \<not> m_active p)
    else first_inactive m = 255)"
  using assms by (induction m rule: first_inactive.induct) (auto split: if_splits)

lemma first_inactive_free:
  "first_inactive m \<noteq> 255 \<Longrightarrow> \<exists>p. (first_inactive m, p) \<in> set m \<and> \<not> m_active p"
  by (induction m rule: first_inactive.induct) (auto split: if_splits)

lemma some_inactive:
  "length (active_part m) < length m \<Longrightarrow> \<exists>(k, p) \<in> set m. \<not> m_active p"
  by (induction m) (auto simp: active_part_def split: if_splits)

lemma hv_wf_update:
  assumes "hv_wf v" and "map_of (hv_map v) i = Some p" and "m_active q = m_active p"
  shows "hv_wf (hv_Set v i q)"
  using assms active_update[of "hv_map v" i p q]
  by (auto simp add: hv_wf_def hv_Set_def keys_AList_update length_AList_update simp del: set_map)

lemma hv_Get_Some: "map_of (hv_map v) i = Some p \<Longrightarrow> hv_Get v i = Inr p"
  by (simp add: hv_Get_def hv_Exist_def)

lemma content_Some: "content v i = Some p \<longleftrightarrow> map_of (hv_map v) i = Some p \<and> m_active p"
  by (auto simp: content_def split: option.splits if_splits)

lemma content_Get: "content v i = Some p \<Longrightarrow> hv_Get v i = Inr p"
  by (simp add: content_Some hv_Get_Some)


lemma hv_fst_in: "map_of m i = Some p \<Longrightarrow> i \<in> set (map fst m)"
  by (force dest: map_of_SomeD)

subsection \<open>The interface: a bounded store of processes\<close>

text \<open>
  The contract the scheduler relies on: as long as fewer processes than the capacity are in use, an
  insertion succeeds, picks an id that was free and changes nothing else; a full store refuses it and
  stays as it is; erasing a process in use frees exactly its id.
\<close>

locale process_store =
  fixes insert_p :: "'s \<Rightarrow> u8 \<Rightarrow> 'p \<Rightarrow> ('s \<times> u8 \<times> bool) res"
    and erase_p :: "'s \<Rightarrow> u8 \<Rightarrow> ('s \<times> bool) res"
    and cont :: "'s \<Rightarrow> u8 \<Rightarrow> 'p option"
    and cap :: "'s \<Rightarrow> nat"
    and inv :: "'s \<Rightarrow> bool"
    and live :: "'p \<Rightarrow> bool"
  assumes fin: "finite (dom (cont s))"
    and insert_room: "inv s \<Longrightarrow> live p \<Longrightarrow> card (dom (cont s)) < cap s \<Longrightarrow>
      \<exists>s' i. insert_p s j p = Inr (s', i, True) \<and> inv s' \<and> cap s' = cap s \<and> cont s i = None \<and>
        cont s' = (cont s)(i \<mapsto> p)"
    and insert_full: "inv s \<Longrightarrow> cap s \<le> card (dom (cont s)) \<Longrightarrow> insert_p s j p = Inr (s, j, False)"
    and erase_used: "inv s \<Longrightarrow> cont s i = Some p \<Longrightarrow>
      \<exists>s'. erase_p s i = Inr (s', True) \<and> inv s' \<and> cap s' = cap s \<and> cont s' = (cont s)(i := None)"
begin

lemma insert_erase:
  assumes "inv s" and "live p" and "card (dom (cont s)) < cap s"
  shows "\<exists>s1 i s2. insert_p s j p = Inr (s1, i, True) \<and> cont s1 i = Some p \<and>
    erase_p s1 i = Inr (s2, True) \<and> inv s2 \<and> cont s2 = cont s"
proof -
  obtain s1 i where s1: "insert_p s j p = Inr (s1, i, True)" "inv s1" "cont s i = None"
      "cont s1 = (cont s)(i \<mapsto> p)"
    using insert_room[OF assms] by blast
  moreover obtain s2 where "erase_p s1 i = Inr (s2, True)" "inv s2" "cont s2 = (cont s1)(i := None)"
    using erase_used[OF s1(2), of i p] s1(4) by auto
  moreover have "((cont s)(i \<mapsto> p))(i := None) = cont s"
    using s1(3) by (auto simp: fun_eq_iff)
  ultimately show ?thesis by auto
qed

text \<open>As many insertions as there are free slots all succeed, under ids of their own.\<close>

lemma insert_many:
  assumes "inv s" and "\<forall>p \<in> set ps. live p" and "card (dom (cont s)) + length ps \<le> cap s"
  shows "\<exists>s' is. foldE (\<lambda>(s, is) p. bindE (insert_p s 0 p) (\<lambda>(s, i, ok).
      ns_abort_if (\<not> ok) (Inr (s, is @ [i])))) (s, is0) ps = Inr (s', is0 @ is) \<and>
    inv s' \<and> cap s' = cap s \<and> distinct is \<and> set is \<inter> dom (cont s) = {} \<and>
    map (cont s') is = map Some ps \<and> (\<forall>i. i \<notin> set is \<longrightarrow> cont s' i = cont s i)"
  using assms
proof (induction ps arbitrary: s is0)
  case Nil
  then show ?case by auto
next
  case (Cons p ps)
  obtain s1 i where s1: "insert_p s 0 p = Inr (s1, i, True)" "inv s1" "cap s1 = cap s"
      "cont s i = None" "cont s1 = (cont s)(i \<mapsto> p)"
    using insert_room[of s p 0] Cons.prems by auto
  have "card (dom (cont s1)) = Suc (card (dom (cont s)))"
    using s1(4,5) fin[of s] by (simp add: card_insert_if domIff)
  then obtain s' "is" where i: "foldE (\<lambda>(s, is) p. bindE (insert_p s 0 p) (\<lambda>(s, i, ok).
      ns_abort_if (\<not> ok) (Inr (s, is @ [i])))) (s1, is0 @ [i]) ps = Inr (s', (is0 @ [i]) @ is)"
      "inv s'" "cap s' = cap s1" "distinct is" "set is \<inter> dom (cont s1) = {}"
      "map (cont s') is = map Some ps" "\<forall>k. k \<notin> set is \<longrightarrow> cont s' k = cont s1 k"
    using Cons.IH[of s1 "is0 @ [i]"] Cons.prems s1(2,3) by auto
  have "i \<notin> set is" using i(5) s1(5) by auto
  then have "distinct (i # is)" "set (i # is) \<inter> dom (cont s) = {}"
      "map (cont s') (i # is) = map Some (p # ps)"
      "\<forall>k. k \<notin> set (i # is) \<longrightarrow> cont s' k = cont s k"
    using i s1(4,5) by auto
  with i(1-3) s1(1,3) show ?case by (intro exI[of _ s'] exI[of _ "i # is"]) auto
qed

end

subsection \<open>The vector provides it\<close>

lemma dom_content: "dom (content v) \<subseteq> set (map fst (hv_map v))"
  by (auto simp: content_Some dest: hv_fst_in simp del: set_map)

lemma finite_content: "finite (dom (content v))"
  by (rule finite_subset[OF dom_content]) simp

lemma dom_content_active:
  assumes "distinct (map fst (hv_map v))"
  shows "dom (content v) = fst ` set (active_part (hv_map v))"
  using assms by (force simp: content_Some active_part_def image_iff dest: map_of_SomeD)

lemma card_content:
  assumes "hv_wf v"
  shows "card (dom (content v)) = unat (m_usedSize v)"
proof -
  have d: "distinct (map fst (hv_map v))" using assms by (simp add: hv_wf_def)
  then have "distinct (map fst (active_part (hv_map v)))"
    by (simp add: active_part_def distinct_map_filter)
  then have "card (fst ` set (active_part (hv_map v))) = length (active_part (hv_map v))"
    by (metis distinct_card length_map list.set_map)
  then show ?thesis using assms dom_content_active[OF d] by (simp add: hv_wf_def)
qed

lemma CanInsert_iff: "CanInsert v \<longleftrightarrow> m_usedSize v < m_maxSize v"
  by (simp add: CanInsert_def hv_Size_def word_less_nat_alt)

lemma hv_Insert_room:
  assumes wf: "hv_wf v" and "m_active p" and "m_usedSize v < m_maxSize v"
  shows "\<exists>v' i. hv_Insert v j p = Inr (v', i, True) \<and> hv_wf v' \<and> m_maxSize v' = m_maxSize v \<and>
    content v i = None \<and> content v' = (content v)(i \<mapsto> p)"
proof -
  let ?m = "hv_map v" and ?i = "FirstAvailableId v"
  have "length (active_part ?m) < length ?m"
    using assms by (simp add: hv_wf_def word_less_nat_alt)
  then obtain q where q: "(?i, q) \<in> set ?m" "\<not> m_active q" "?i \<noteq> 255"
    using some_inactive[of ?m] first_inactive_spec[of ?m] wf
    by (auto simp: FirstAvailableId_def hv_wf_def)
  then have m: "map_of ?m ?i = Some q" using wf by (simp add: hv_wf_def)
  let ?v = "hv_Set v ?i p"
  have new: "map_of (hv_map ?v) = (map_of ?m)(?i \<mapsto> p)"
    by (simp add: hv_Set_def map_of_update)
  have act: "length (active_part (hv_map ?v)) = Suc (length (active_part ?m))"
    using active_update[OF _ m, of p] wf q(2) assms(2) by (simp add: hv_Set_def hv_wf_def)
  have keys: "map fst (hv_map ?v) = map fst ?m" using m by (simp add: hv_Set_def keys_AList_update)
  have "FirstAvailableId ?v \<noteq> ?i"
  proof
    assume e: "FirstAvailableId ?v = ?i"
    then obtain r where r: "(?i, r) \<in> set (hv_map ?v)" "\<not> m_active r"
      using first_inactive_free[of "hv_map ?v"] q(3) unfolding FirstAvailableId_def by auto
    have "distinct (map fst (hv_map ?v))" using keys wf by (simp add: hv_wf_def)
    with r have "map_of (hv_map ?v) ?i = Some r" by simp
    with r(2) assms(2) new show False by simp
  qed
  then have "hv_Insert v j p = Inr (?v\<lparr>m_usedSize := m_usedSize v + 1\<rparr>, ?i, True)"
    using assms(2,3) m q(2,3) new by (simp add: hv_Insert_def hv_Set_def Let_def not_le)
  moreover have "unat (m_usedSize v + 1) = Suc (unat (m_usedSize v))"
    using assms(3) by (rule unat_plus1)
  moreover have "length (hv_map ?v) = length ?m" using keys by (metis length_map)
  ultimately show ?thesis
    using wf act keys m q(2) new assms(2)
    by (intro exI[of _ "?v\<lparr>m_usedSize := m_usedSize v + 1\<rparr>"] exI[of _ ?i])
      (auto simp: hv_wf_def hv_Set_def content_def fun_eq_iff simp del: set_map)
qed

lemma hv_Insert_full:
  "\<not> m_usedSize v < m_maxSize v \<Longrightarrow> hv_Insert v j p = Inr (v, j, False)"
  by (simp add: hv_Insert_def not_less)

lemma hv_Erase_used:
  assumes wf: "hv_wf v" and c: "content v i = Some p"
  shows "\<exists>v'. hv_Erase v i = Inr (v', True) \<and> hv_wf v' \<and> m_maxSize v' = m_maxSize v \<and>
    content v' = (content v)(i := None)"
proof -
  let ?m = "hv_map v" and ?v = "hv_Set v i (process_Erase p)"
  have m: "map_of ?m i = Some p" and act: "m_active p" using c by (auto simp: content_Some)
  have new: "map_of (hv_map ?v) = (map_of ?m)(i \<mapsto> process_Erase p)"
    by (simp add: hv_Set_def map_of_update)
  have n: "Suc (length (active_part (hv_map ?v))) = length (active_part ?m)"
    using active_update[OF _ m, of "process_Erase p"] wf act
    by (simp add: hv_Set_def hv_wf_def process_Erase_def)
  have keys: "map fst (hv_map ?v) = map fst ?m" using m by (simp add: hv_Set_def keys_AList_update)
  have "unat (m_usedSize v) = Suc (length (active_part (hv_map ?v)))" using n wf by (simp add: hv_wf_def)
  then have used: "unat (m_usedSize v - 1) = length (active_part (hv_map ?v))"
    by (subst unat_sub) (simp_all add: word_le_nat_alt)
  have "count_active 0 (hv_map ?v) = ucast (m_usedSize v - 1)"
    unfolding count_active_eq used[symmetric] by (simp add: unsigned_ucast_eq of_nat_unat)
  then have "hv_Erase v i = Inr (?v\<lparr>m_usedSize := m_usedSize v - 1\<rparr>, True)"
    using m by (simp add: hv_Erase_def hv_Set_def Let_def)
  moreover have "length (hv_map ?v) = length ?m" using keys by (metis length_map)
  ultimately show ?thesis
    using wf used keys new
    by (intro exI[of _ "?v\<lparr>m_usedSize := m_usedSize v - 1\<rparr>"])
      (auto simp: hv_wf_def hv_Set_def content_def process_Erase_def fun_eq_iff simp del: set_map)
qed

interpretation harq: process_store hv_Insert hv_Erase content "\<lambda>v. unat (m_maxSize v)" hv_wf m_active
proof (unfold_locales, goal_cases)
  case (1 s)
  show ?case by (rule finite_content)
next
  case (2 s p j)
  then show ?case
    using hv_Insert_room[of s p j] by (fastforce simp: card_content word_less_nat_alt)
next
  case (3 s j p)
  then show ?case by (simp add: card_content hv_Insert_full word_less_nat_alt)
next
  case (4 s i p)
  then show ?case using hv_Erase_used[of s i p] by fastforce
qed

text \<open>Setting the size of an empty vector creates that many free processes.\<close>

lemma emplace_fresh:
  "n \<le> 255 \<Longrightarrow>
    foldl (\<lambda>m i. map_emplace (of_nat i :: u8) p m) [] [0..<n] = map (\<lambda>i. (of_nat i, p)) [0..<n]"
proof (induction n)
  case 0
  then show ?case by simp
next
  case (Suc n)
  have "of_nat n \<notin> (of_nat :: nat \<Rightarrow> u8) ` {0..<n}"
  proof
    assume "of_nat n \<in> (of_nat :: nat \<Rightarrow> u8) ` {0..<n}"
    then obtain k where "k < n" "(of_nat n :: u8) = of_nat k" by auto
    then show False using Suc.prems by (simp add: unsigned_of_nat word_unat_eq_iff take_bit_eq_mod)
  qed
  then have "map_of (map (\<lambda>i. (of_nat i :: u8, p)) [0..<n]) (of_nat n) = None"
    by (simp add: map_of_eq_None_iff image_image)
  then show ?case using Suc by (simp add: map_emplace_def)
qed

lemma hv_wf_SetMaxSize: "hv_wf (hv_SetMaxSize NrMacHarqVector_default sz)"
proof -
  let ?n = "unat sz"
  have n: "?n \<le> 255" using u_lt[of sz] by simp
  have m: "hv_map (hv_SetMaxSize NrMacHarqVector_default sz) =
      map (\<lambda>i. (of_nat i, HarqProcess_copy HarqProcess_default)) [0..<?n]"
    using emplace_fresh[OF n] by (simp add: hv_SetMaxSize_def NrMacHarqVector_default_def)
  have "inj_on (of_nat :: nat \<Rightarrow> u8) {0..<?n}"
    using n by (auto intro!: inj_onI simp: word_unat_eq_iff unsigned_of_nat take_bit_eq_mod)
  moreover have "(255 :: u8) \<noteq> of_nat k" if "k < ?n" for k
    using that n by (auto simp: word_unat_eq_iff unsigned_of_nat take_bit_eq_mod)
  ultimately show ?thesis
    unfolding hv_wf_def m
    by (auto simp: distinct_map comp_def active_part_def filter_map HarqProcess_copy_def
        HarqProcess_default_def hv_SetMaxSize_def NrMacHarqVector_default_def)
qed

lemma content_SetMaxSize: "content (hv_SetMaxSize NrMacHarqVector_default sz) = (\<lambda>_. None)"
proof -
  have "unat (m_usedSize (hv_SetMaxSize NrMacHarqVector_default sz)) = 0"
    by (simp add: hv_SetMaxSize_def NrMacHarqVector_default_def)
  then have "card (dom (content (hv_SetMaxSize NrMacHarqVector_default sz))) = 0"
    using card_content[OF hv_wf_SetMaxSize] by simp
  then show ?thesis using finite_content by (simp add: card_eq_0_iff)
qed

subsection \<open>What the vector guarantees\<close>

definition hv_Insert_all :: "NrMacHarqVector \<Rightarrow> HarqProcess list \<Rightarrow> (NrMacHarqVector \<times> u8 list) res" where
  "hv_Insert_all v ps = foldE (\<lambda>(v, is) p. bindE (hv_Insert v 0 p) (\<lambda>(v, i, ok).
      ns_abort_if (\<not> ok) (Inr (v, is @ [i])))) (v, []) ps"

text \<open>
  A fresh vector of \<open>n\<close> processes takes any \<open>n\<close> active processes one after the other: no
  insertion is refused, none of the \<open>NS_ABORT_IF\<close> checks of \<open>Insert\<close> fires, every process gets an id
  of its own, and is found under it.
\<close>
lemma fresh_vector_takes_capacity:
  assumes "\<forall>p \<in> set ps. m_active p" and "length ps \<le> unat sz"
  shows "\<exists>v ids. hv_Insert_all (hv_SetMaxSize NrMacHarqVector_default sz) ps = Inr (v, ids) \<and>
    hv_wf v \<and> distinct ids \<and> map (hv_Get v) ids = map Inr ps"
proof -
  let ?v0 = "hv_SetMaxSize NrMacHarqVector_default sz"
  have cap: "unat (m_maxSize ?v0) = unat sz" by (simp add: hv_SetMaxSize_def)
  then obtain v ids where v: "hv_Insert_all ?v0 ps = Inr (v, ids)"
      "hv_wf v" "distinct ids" "map (content v) ids = map Some ps"
    using harq.insert_many[OF hv_wf_SetMaxSize assms(1), of sz "[]"] assms(2)
    unfolding hv_Insert_all_def content_SetMaxSize by auto
  moreover have "map (hv_Get v) ids = map Inr ps"
  proof (rule nth_equalityI)
    show "length (map (hv_Get v) ids) = length (map Inr ps)" using v(4) by (metis length_map)
    fix k assume "k < length (map (hv_Get v) ids)"
    then show "map (hv_Get v) ids ! k = map Inr ps ! k"
      using v(4) by (metis content_Get length_map nth_map)
  qed
  ultimately show ?thesis by blast
qed

definition demo_process :: HarqProcess where
  "demo_process = HarqProcess True WAITING_FEEDBACK 0 (Dci_ctrl 0 1 DL_DCI DATA [])"

lemma fresh_vector_takes_capacity_witness:
  "\<exists>v ids. hv_Insert_all (hv_SetMaxSize NrMacHarqVector_default 20) (replicate 20 demo_process) =
     Inr (v, ids) \<and> distinct ids"
  using fresh_vector_takes_capacity[of "replicate 20 demo_process" 20]
  by (auto simp: demo_process_def HarqProcess_def)

text \<open>
  C31. \<open>Insert\<close> refines adding to a bounded store: on a well-formed vector with room it succeeds with
  an id that was not in use, leaves every other process alone and keeps the vector well formed;
  \<open>CanInsert\<close> says exactly when there is room, and without it \<open>Insert\<close> returns false and changes
  nothing.
\<close>
theorem Insert_refines_store:
  assumes "hv_wf v" and "m_active p"
  shows "(if CanInsert v
    then \<exists>v' i. hv_Insert v j p = Inr (v', i, True) \<and> hv_wf v' \<and> content v i = None \<and>
      content v' = (content v)(i \<mapsto> p)
    else hv_Insert v j p = Inr (v, j, False))"
  using hv_Insert_room[OF assms, of j] hv_Insert_full[of v j p] unfolding CanInsert_iff by fastforce

theorem Insert_refines_store_witness:
  "\<exists>v' i. hv_Insert (hv_SetMaxSize NrMacHarqVector_default 2) 7 demo_process = Inr (v', i, True) \<and>
     hv_wf v'"
  using Insert_refines_store[OF hv_wf_SetMaxSize, of demo_process 2 7]
  by (auto simp: demo_process_def HarqProcess_def CanInsert_iff hv_SetMaxSize_def
      NrMacHarqVector_default_def)

text \<open>
  Erasing a process in use frees exactly its id and never fails the count check; erasing a
  process that is not in use always fails it.
\<close>
lemma Erase_frees_id:
  assumes "hv_wf v" and "hv_Exist v i"
  shows "(case content v i of
      Some p \<Rightarrow> \<exists>v'. hv_Erase v i = Inr (v', True) \<and> hv_wf v' \<and> content v' = (content v)(i := None)
    | None \<Rightarrow> hv_Erase v i = Inl AssertFailed)"
proof (cases "content v i")
  case (Some p)
  then show ?thesis using hv_Erase_used[OF assms(1)] by auto
next
  case None
  then obtain p where p: "map_of (hv_map v) i = Some p" "\<not> m_active p"
    using assms(2) by (auto simp: hv_Exist_def content_def split: if_splits)
  let ?a = "length (active_part (hv_map v))"
  have "length (active_part (AList.update i (process_Erase p) (hv_map v))) = ?a"
    using active_update[OF _ p(1), of "process_Erase p"] assms(1) p(2)
    by (simp add: hv_wf_def process_Erase_def)
  then have cnt: "count_active 0 (AList.update i (process_Erase p) (hv_map v)) = ucast (m_usedSize v)"
    using assms(1) by (simp add: count_active_eq hv_wf_def of_nat_unat)
  have "m_usedSize v \<noteq> m_usedSize v - 1" by simp
  then have "(ucast (m_usedSize v) :: u32) \<noteq> ucast (m_usedSize v - 1)"
    by (metis ucast_u8_u32_u8)
  then show ?thesis using None p(1) cnt by (simp add: hv_Erase_def Let_def)
qed

lemma Erase_frees_id_witness:
  "hv_Erase (hv_SetMaxSize NrMacHarqVector_default 3) 1 = Inl AssertFailed"
proof -
  have "hv_Exist (hv_SetMaxSize NrMacHarqVector_default 3) 1"
    by (simp add: hv_Exist_def hv_SetMaxSize_def NrMacHarqVector_default_def upt_rec
        map_emplace_def)
  from Erase_frees_id[OF hv_wf_SetMaxSize this] show ?thesis
    by (simp only: content_SetMaxSize option.case)
qed

end
