(* ===== verification/UeInfo.thy ===== *)
theory UeInfo
  imports Lcg Harq Complex_Main
begin

text \<open>
  What the scheduler keeps of a UE: \<open>NrMacSchedulerUeInfo\<close> of
  \<open>contrib/nr/model/nr-mac-scheduler-ue-info.h\<close> and \<open>.cc\<close>, and the orders of the round-robin and
  maximum-rate schedulers (\<open>nr-mac-scheduler-ue-info-rr.h\<close>, \<open>-mr.h\<close>). The size of a transport block,
  \<open>NrAmc::CalculateTbSize\<close>, is a parameter: it comes from the error model and its tables. A \<open>double\<close>
  that is only stored and compared is read as the rational it stands for.
\<close>

record BeamId =
  bid_sector :: u16
  bid_elevation :: rat

type_synonym BeamConfId = "BeamId \<times> BeamId"

datatype CqiType = WB | SB

record CqiInfo =
  cqi_type :: CqiType
  cqi_sinr :: "rat list"
  cqi_rbCqi :: "16 word list"
  cqi_cqi :: u8
  cqi_timer :: u32

record DlCqi =
  dlcqi_type :: CqiType
  dlcqi_ri :: u8
  dlcqi_sinr :: "rat list"
  dlcqi_wbCqi :: "u8 list"
  dlcqi_timer :: u32

record UeInfo =
  ue_rnti :: u16
  ue_beamConfId :: BeamConfId
  ue_dlLCG :: "(u8 \<times> lcg) list"
  ue_ulLCG :: "(u8 \<times> lcg) list"
  ue_dlMRBRetx :: u32
  ue_ulMRBRetx :: u32
  ue_dlRBG :: u32
  ue_ulRBG :: u32
  ue_ulRBGPro :: u32
  ue_dlSym :: u8
  ue_ulSym :: u8
  ue_dlMcs :: "u8 list"
  ue_ulMcs :: u8
  ue_ulMcsPro :: u8
  ue_dlTbSize :: "u32 list"
  ue_ulTbSize :: u32
  ue_ulTbSizePro :: u32
  ue_dlCqi :: DlCqi
  ue_ulCqi :: CqiInfo
  ue_dlHarq :: NrMacHarqVector
  ue_ulHarq :: NrMacHarqVector
  ue_srsPeriodicity :: u32
  ue_srsOffset :: u32
  ue_startMcsDlUe :: u8
  ue_numRbPerRbg :: u32

definition NrMacSchedulerUeInfo :: "u16 \<Rightarrow> BeamConfId \<Rightarrow> u32 \<Rightarrow> UeInfo" where
  "NrMacSchedulerUeInfo rnti beamConfId numRbPerRbg =
     \<lparr>ue_rnti = rnti, ue_beamConfId = beamConfId, ue_dlLCG = [], ue_ulLCG = [], ue_dlMRBRetx = 0,
      ue_ulMRBRetx = 0, ue_dlRBG = 0, ue_ulRBG = 0, ue_ulRBGPro = 0, ue_dlSym = 0, ue_ulSym = 0,
      ue_dlMcs = [], ue_ulMcs = 0, ue_ulMcsPro = 0, ue_dlTbSize = [0], ue_ulTbSize = 0,
      ue_ulTbSizePro = 0,
      ue_dlCqi = \<lparr>dlcqi_type = WB, dlcqi_ri = 0, dlcqi_sinr = [], dlcqi_wbCqi = [], dlcqi_timer = 0\<rparr>,
      ue_ulCqi = \<lparr>cqi_type = WB, cqi_sinr = [], cqi_rbCqi = [], cqi_cqi = 0, cqi_timer = 0\<rparr>,
      ue_dlHarq = NrMacHarqVector_default, ue_ulHarq = NrMacHarqVector_default,
      ue_srsPeriodicity = 0, ue_srsOffset = 0, ue_startMcsDlUe = 0,
      ue_numRbPerRbg = numRbPerRbg\<rparr>"

definition GetDlTBS :: "UeInfo \<Rightarrow> u32" where
  "GetDlTBS ue = foldl (\<lambda>tbSize it. tbSize + it) 0 (ue_dlTbSize ue)"

definition GetUlTBS :: "UeInfo \<Rightarrow> u32" where
  "GetUlTBS ue = ue_ulTbSize ue"

definition GetDlMcs :: "UeInfo \<Rightarrow> u8 \<Rightarrow> u8 res" where
  "GetDlMcs ue stream = vec_at (ue_dlMcs ue) (unat stream)"

definition GetDlTBSPerStream :: "UeInfo \<Rightarrow> u8 \<Rightarrow> u32 res" where
  "GetDlTBSPerStream ue stream = vec_at (ue_dlTbSize ue) (unat stream)"

definition ResetDlSchedInfo :: "UeInfo \<Rightarrow> UeInfo" where
  "ResetDlSchedInfo ue = ue\<lparr>ue_dlMRBRetx := 0, ue_dlRBG := 0, ue_dlSym := 0,
     ue_dlTbSize := map (\<lambda>_. 0) (ue_dlTbSize ue)\<rparr>"

definition ResetUlSchedInfo :: "UeInfo \<Rightarrow> UeInfo" where
  "ResetUlSchedInfo ue = ue\<lparr>ue_ulMRBRetx := 0, ue_ulRBG := 0, ue_ulSym := 0, ue_ulTbSize := 0\<rparr>"

definition ResetDlMetric :: "UeInfo \<Rightarrow> UeInfo" where
  "ResetDlMetric ue = ue\<lparr>ue_dlTbSize := map (\<lambda>_. 0) (ue_dlTbSize ue)\<rparr>"

definition ResetUlMetric :: "UeInfo \<Rightarrow> UeInfo" where
  "ResetUlMetric ue = ue\<lparr>ue_ulTbSize := 0\<rparr>"

text \<open>\<open>v.at(i) = x\<close>.\<close>

definition vec_set :: "'a list \<Rightarrow> nat \<Rightarrow> 'a \<Rightarrow> 'a list res" where
  "vec_set xs i x = (if i < length xs then Inr (xs[i := x]) else Inl OutOfRange)"

lemma vec_set_Inr_iff [res_simps]: "vec_set xs i x = Inr ys \<longleftrightarrow> i < length xs \<and> ys = xs[i := x]"
  by (auto simp: vec_set_def)

text \<open>\<open>std::max_element\<close>: the index of the first largest element, and the end of an empty range.\<close>

fun max_element_from :: "nat \<Rightarrow> u8 \<Rightarrow> nat \<Rightarrow> u8 list \<Rightarrow> nat" where
  "max_element_from best v k [] = best"
| "max_element_from best v k (x # r) =
     (if v < x then max_element_from k x (Suc k) r else max_element_from best v (Suc k) r)"

definition max_element :: "u8 list \<Rightarrow> nat" where
  "max_element xs = (case xs of [] \<Rightarrow> 0 | x # r \<Rightarrow> max_element_from 0 x 1 r)"

definition UpdateDlMetric :: "(u8 \<Rightarrow> u32 \<Rightarrow> u32) \<Rightarrow> UeInfo \<Rightarrow> UeInfo res" where
  "UpdateDlMetric CalculateTbSize ue =
     (if ue_dlRBG ue = 0 then Inr (ue\<lparr>ue_dlTbSize := map (\<lambda>_. 0) (ue_dlTbSize ue)\<rparr>)
      else
        let rbs = ue_dlRBG ue * ue_numRbPerRbg ue; mcs = ue_dlMcs ue;
            wbCqi = dlcqi_wbCqi (ue_dlCqi ue) in
        if dlcqi_ri (ue_dlCqi ue) = 1 then
          if length mcs = 1 then
            bindE (vec_at mcs 0) (\<lambda>m0.
            ns_abort_if (m0 = 255)
            (bindE (vec_set (ue_dlTbSize ue) 0 (CalculateTbSize m0 rbs)) (\<lambda>tbs.
               Inr (ue\<lparr>ue_dlTbSize := tbs\<rparr>))))
          else
            let maxCqiIndex = of_nat (max_element wbCqi) :: u8 in
            bindE (foldE (\<lambda>tbs stream.
                     if stream = unat maxCqiIndex
                     then bindE (vec_at mcs stream) (\<lambda>m.
                          ns_assert (m \<noteq> 255) (vec_set tbs stream (CalculateTbSize m rbs)))
                     else vec_set tbs stream 0)
                   (ue_dlTbSize ue) [0..<length wbCqi]) (\<lambda>tbs.
              Inr (ue\<lparr>ue_dlTbSize := tbs\<rparr>))
        else if dlcqi_ri (ue_dlCqi ue) = 2 then
          bindE (vec_at mcs 0) (\<lambda>m0.
          ns_assert (m0 \<noteq> 255)
          (bindE (vec_at mcs 1) (\<lambda>m1.
           ns_assert (m1 \<noteq> 255)
           (ns_abort_if (length mcs < 2)
             (bindE (vec_set (ue_dlTbSize ue) 0 (CalculateTbSize m0 rbs)) (\<lambda>tbs.
              bindE (vec_set tbs 1 (CalculateTbSize m1 rbs)) (\<lambda>tbs.
                Inr (ue\<lparr>ue_dlTbSize := tbs\<rparr>))))))))
        else Inl FatalError)"

definition UpdateUlMetric :: "(u8 \<Rightarrow> u32 \<Rightarrow> u32) \<Rightarrow> UeInfo \<Rightarrow> UeInfo" where
  "UpdateUlMetric CalculateTbSize ue =
     (if ue_ulRBG ue = 0 then ue\<lparr>ue_ulTbSize := 0\<rparr>
      else ue\<lparr>ue_ulTbSize := CalculateTbSize (ue_ulMcs ue) (ue_ulRBG ue * ue_numRbPerRbg ue)\<rparr>)"

definition UpdateUlMetricPro :: "(u8 \<Rightarrow> u32 \<Rightarrow> u32) \<Rightarrow> UeInfo \<Rightarrow> UeInfo" where
  "UpdateUlMetricPro CalculateTbSize ue =
     (if ue_ulRBGPro ue = 0 then ue\<lparr>ue_ulTbSizePro := 0\<rparr>
      else ue\<lparr>ue_ulTbSizePro :=
        CalculateTbSize (ue_ulMcs ue) (ue_ulRBGPro ue * ue_numRbPerRbg ue)\<rparr>)"

subsection \<open>Orders of the schedulers\<close>

definition rr_CompareUeWeightsDl :: "UeInfo \<Rightarrow> UeInfo \<Rightarrow> bool" where
  "rr_CompareUeWeightsDl lue rue \<longleftrightarrow> ue_dlRBG lue < ue_dlRBG rue"

definition rr_CompareUeWeightsUl :: "UeInfo \<Rightarrow> UeInfo \<Rightarrow> bool" where
  "rr_CompareUeWeightsUl lue rue \<longleftrightarrow> ue_ulRBG lue < ue_ulRBG rue"

text \<open>\<open>operator<\<close> of \<open>std::vector\<close>: the lexicographic order.\<close>

fun vector_less :: "u8 list \<Rightarrow> u8 list \<Rightarrow> bool" where
  "vector_less xs [] = False"
| "vector_less [] (y # ys) = True"
| "vector_less (x # xs) (y # ys) = (if x < y then True else if y < x then False else vector_less xs ys)"

definition mr_CompareUeWeightsDl :: "UeInfo \<Rightarrow> UeInfo \<Rightarrow> bool" where
  "mr_CompareUeWeightsDl lue rue \<longleftrightarrow>
     (if ue_dlMcs lue = ue_dlMcs rue then rr_CompareUeWeightsDl lue rue
      else vector_less (ue_dlMcs rue) (ue_dlMcs lue))"

definition mr_CompareUeWeightsUl :: "UeInfo \<Rightarrow> UeInfo \<Rightarrow> bool" where
  "mr_CompareUeWeightsUl lue rue \<longleftrightarrow>
     (if ue_ulMcs lue = ue_ulMcs rue then rr_CompareUeWeightsUl lue rue
      else ue_ulMcs lue > ue_ulMcs rue)"


subsection \<open>The order interface of the schedulers\<close>

text \<open>
  \<open>std::sort\<close> asks of a comparison that it is a strict weak order. What the allocation loops then
  rely on: no UE of the vector comes before the one in front.
\<close>

locale weak_order =
  fixes lt :: "'a \<Rightarrow> 'a \<Rightarrow> bool"
  assumes irrefl: "\<not> lt x x"
    and trans: "lt x y \<Longrightarrow> lt y z \<Longrightarrow> lt x z"
    and neg_trans: "\<not> lt x y \<Longrightarrow> \<not> lt y z \<Longrightarrow> \<not> lt x z"
begin

lemma asym: "lt x y \<Longrightarrow> \<not> lt y x"
  using irrefl trans by blast

lemma sort_front:
  assumes "std_sort lt f" and "f xs = x # ys"
  shows "x \<in> set xs \<and> (\<forall>y \<in> set xs. \<not> lt y x)"
proof -
  have "set xs = insert x (set ys)" using assms by (metis list.simps(15) std_sort_set)
  moreover have "\<forall>y \<in> set ys. \<not> lt y x" using std_sort_sorted[OF assms(1), of xs] assms(2) by simp
  ultimately show ?thesis using irrefl by auto
qed

text \<open>The sort is determined up to equivalent elements.\<close>

lemma sorted_front_equiv:
  assumes "std_sort lt f" and "std_sort lt g" and "f xs = x # ys" and "g xs = x' # ys'"
  shows "\<not> lt x x' \<and> \<not> lt x' x"
  using sort_front[OF assms(1,3)] sort_front[OF assms(2,4)] by auto

end

lemma vector_less_irrefl: "\<not> vector_less xs xs"
  by (induction xs) auto

lemma vector_less_total: "xs = ys \<or> vector_less xs ys \<or> vector_less ys xs"
  by (induction xs ys rule: vector_less.induct) (auto, (case_tac xs; auto)+)

lemma vector_less_trans: "vector_less xs ys \<Longrightarrow> vector_less ys zs \<Longrightarrow> vector_less xs zs"
proof (induction xs arbitrary: ys zs)
  case Nil
  then show ?case by (cases ys; cases zs) auto
next
  case (Cons x xs)
  then show ?case by (cases ys; cases zs) (auto split: if_splits)
qed

interpretation rr_dl: weak_order rr_CompareUeWeightsDl
  by unfold_locales (auto simp: rr_CompareUeWeightsDl_def)

interpretation rr_ul: weak_order rr_CompareUeWeightsUl
  by unfold_locales (auto simp: rr_CompareUeWeightsUl_def)

interpretation mr_dl: weak_order mr_CompareUeWeightsDl
proof (unfold_locales, goal_cases)
  case (1 x)
  then show ?case by (simp add: mr_CompareUeWeightsDl_def rr_CompareUeWeightsDl_def)
next
  case (2 x y z)
  then show ?case
    using vector_less_trans[of "ue_dlMcs z" "ue_dlMcs y" "ue_dlMcs x"] vector_less_irrefl
    by (auto simp: mr_CompareUeWeightsDl_def rr_CompareUeWeightsDl_def split: if_splits
        dest: vector_less_trans)
next
  case (3 x y z)
  then show ?case
    using vector_less_total[of "ue_dlMcs x" "ue_dlMcs y"] vector_less_total[of "ue_dlMcs y" "ue_dlMcs z"]
      vector_less_irrefl
    by (auto simp: mr_CompareUeWeightsDl_def rr_CompareUeWeightsDl_def split: if_splits
        dest: vector_less_trans)
qed

interpretation mr_ul: weak_order mr_CompareUeWeightsUl
  by unfold_locales (auto simp: mr_CompareUeWeightsUl_def rr_CompareUeWeightsUl_def split: if_splits)

text \<open>
  The maximum-rate order puts a UE in front that no other UE of the vector beats: its uplink MCS
  is the largest, and among the UEs with that MCS it has the fewest resource block groups, whatever
  order \<open>std::sort\<close> gives equivalent UEs.
\<close>
lemma mr_sort_front:
  assumes "std_sort mr_CompareUeWeightsUl f" and "f ues = ue # rest"
  shows "ue \<in> set ues \<and> (\<forall>u \<in> set ues. ue_ulMcs u \<le> ue_ulMcs ue \<and>
    (ue_ulMcs u = ue_ulMcs ue \<longrightarrow> ue_ulRBG ue \<le> ue_ulRBG u))"
proof -
  have *: "ue \<in> set ues" "\<forall>u \<in> set ues. \<not> mr_CompareUeWeightsUl u ue"
    using mr_ul.sort_front[OF assms] by blast+
  have "\<not> mr_CompareUeWeightsUl u ue \<Longrightarrow> ue_ulMcs u \<le> ue_ulMcs ue \<and>
      (ue_ulMcs u = ue_ulMcs ue \<longrightarrow> ue_ulRBG ue \<le> ue_ulRBG u)" for u :: UeInfo
    by (auto simp: mr_CompareUeWeightsUl_def rr_CompareUeWeightsUl_def not_less split: if_splits)
  with * show ?thesis by blast
qed

definition demo_ue :: "u16 \<Rightarrow> u8 \<Rightarrow> u32 \<Rightarrow> UeInfo" where
  "demo_ue rnti mcs rbg = (NrMacSchedulerUeInfo rnti (\<lparr>bid_sector = 1, bid_elevation = 90\<rparr>,
     \<lparr>bid_sector = 0, bid_elevation = 0\<rparr>) 4)\<lparr>ue_ulMcs := mcs, ue_ulRBG := rbg\<rparr>"

definition mr_key :: "UeInfo \<Rightarrow> nat" where
  "mr_key u = (256 - unat (ue_ulMcs u)) * 2 ^ 32 + unat (ue_ulRBG u)"

lemma mr_key_less: "mr_CompareUeWeightsUl = (\<lambda>x y. mr_key x < mr_key y)"
proof (intro ext)
  fix x y :: UeInfo
  have b: "unat (ue_ulMcs x) < 256" "unat (ue_ulMcs y) < 256" "unat (ue_ulRBG x) < 2 ^ 32"
    "unat (ue_ulRBG y) < 2 ^ 32"
    using u_lt[of "ue_ulMcs x"] u_lt[of "ue_ulMcs y"] u_lt[of "ue_ulRBG x"] u_lt[of "ue_ulRBG y"]
    by simp_all
  show "mr_CompareUeWeightsUl x y = (mr_key x < mr_key y)"
    using b by (simp add: mr_CompareUeWeightsUl_def rr_CompareUeWeightsUl_def mr_key_def
        word_less_nat_alt word_unat_eq_iff) linarith
qed

lemma mr_sort_front_witness:
  "hd (sort_key mr_key [demo_ue 1 9 0, demo_ue 2 27 3, demo_ue 3 27 1]) \<in>
     {demo_ue 1 9 0, demo_ue 2 27 3, demo_ue 3 27 1}"
proof -
  let ?l = "[demo_ue 1 9 0, demo_ue 2 27 3, demo_ue 3 27 1]"
  have "std_sort mr_CompareUeWeightsUl (sort_key mr_key)"
    unfolding mr_key_less by (rule std_sort_key)
  moreover obtain ue rest where "sort_key mr_key ?l = ue # rest"
    by (cases "sort_key mr_key ?l") (auto dest: arg_cong[where f = length])
  ultimately show ?thesis using mr_sort_front[of "sort_key mr_key" ?l ue rest] by simp
qed

subsection \<open>The rank-1 transport block\<close>

lemma foldE_vec_set:
  assumes "k \<le> length tbs" and "\<forall>i \<in> {j..<k}. \<exists>x. g i = Inr x"
  shows "\<exists>tbs'. foldE (\<lambda>tbs i. bindE (g i) (vec_set tbs i)) tbs [j..<k] = Inr tbs' \<and>
    length tbs' = length tbs \<and>
    (\<forall>i < length tbs. Inr (tbs' ! i) = (if j \<le> i \<and> i < k then g i else Inr (tbs ! i)))"
  using assms
proof (induction "k - j" arbitrary: j tbs)
  case 0
  then show ?case by auto
next
  case (Suc n)
  then have j: "j < k" by simp
  obtain x where x: "g j = Inr x" using Suc.prems(2) j by (meson atLeastLessThan_iff order_refl)
  let ?t = "tbs[j := x]"
  have "n = k - Suc j" using Suc.hyps(2) by simp
  from Suc.hyps(1)[OF this, of ?t] obtain t' where t':
    "foldE (\<lambda>tbs i. bindE (g i) (vec_set tbs i)) ?t [Suc j..<k] = Inr t'"
    "length t' = length tbs"
    "\<forall>i < length tbs. Inr (t' ! i) = (if Suc j \<le> i \<and> i < k then g i else Inr (?t ! i))"
    using Suc.prems by auto
  have "foldE (\<lambda>tbs i. bindE (g i) (vec_set tbs i)) tbs [j..<k] = Inr t'"
    using j x t'(1) Suc.prems(1) by (simp add: upt_conv_Cons vec_set_def)
  moreover have "Inr (t' ! i) = (if j \<le> i \<and> i < k then g i else Inr (tbs ! i))"
    if "i < length tbs" for i
    using t'(3) that x j by (cases "i = j") auto
  ultimately show ?case using t'(2) by blast
qed

lemma max_element_from_bound:
  "best < k \<Longrightarrow> max_element_from best v k xs < k + length xs"
proof (induction xs arbitrary: best v k)
  case Nil
  then show ?case by simp
next
  case (Cons x xs)
  then show ?case by (simp add: less_SucI)
      (metis Suc_lessI add_Suc add_Suc_right less_Suc_eq)
qed

lemma max_element_bound: "xs \<noteq> [] \<Longrightarrow> max_element xs < length xs"
  using max_element_from_bound[of 0 1] by (cases xs) (auto simp: max_element_def)

lemma max_element_from_max:
  assumes "best < k" and "\<forall>i < k. ys ! i \<le> v" and "ys ! best = v" and "drop k ys = xs" and "k \<le> length ys"
  shows "\<forall>i < length ys. ys ! i \<le> ys ! max_element_from best v k xs"
  using assms
proof (induction xs arbitrary: best v k)
  case Nil
  then show ?case by auto
next
  case (Cons x xs)
  have k: "k < length ys" "ys ! k = x" "drop (Suc k) ys = xs"
    using Cons.prems(4) by (metis drop_all list.distinct(1) not_le)
      (metis Cons.prems(4) hd_drop_conv_nth list.sel(1) drop_all list.distinct(1) not_le,
       metis Cons.prems(4) drop_Suc list.sel(3) tl_drop)
  show ?case
  proof (cases "v < x")
    case True
    have "\<forall>i < Suc k. ys ! i \<le> x"
      using Cons.prems(2) True k(2) by (metis less_SucE order.strict_implies_order order.trans order_refl)
    then show ?thesis using Cons.IH[of k "Suc k" x] True k by simp
  next
    case False
    have "\<forall>i < Suc k. ys ! i \<le> v"
      using Cons.prems(2) False k(2) by (metis less_SucE not_less)
    then show ?thesis using Cons.IH[of best "Suc k" v] Cons.prems(1,3) False k by simp
  qed
qed

lemma max_element_max:
  "i < length xs \<Longrightarrow> xs ! i \<le> xs ! max_element xs"
proof (cases xs)
  case (Cons a l)
  assume "i < length xs"
  then show ?thesis
    using max_element_from_max[of 0 1 xs a l] Cons by (simp add: max_element_def)
qed simp

lemma foldl_plus_single:
  fixes a :: u32
  assumes "k < length xs" and "\<forall>i < length xs. i \<noteq> k \<longrightarrow> xs ! i = 0"
  shows "foldl (+) a xs = a + xs ! k"
  using assms
proof (induction xs arbitrary: a k)
  case Nil
  then show ?case by simp
next
  case (Cons x xs)
  show ?case
  proof (cases k)
    case 0
    have "xs ! i = 0" if "i < length xs" for i using Cons.prems(2)[rule_format, of "Suc i"] 0 that by simp
    then have "\<forall>y \<in> set xs. y = 0" by (auto simp: in_set_conv_nth)
    then have "foldl (+) b xs = b" for b :: u32 by (induction xs arbitrary: b) auto
    then show ?thesis using 0 by simp
  next
    case (Suc j)
    then have "x = 0" using Cons.prems(2) by force
    moreover have "\<forall>i < length xs. i \<noteq> j \<longrightarrow> xs ! i = 0" using Cons.prems(2) Suc by auto
    ultimately show ?thesis using Cons.IH[of j a] Cons.prems(1) Suc by simp
  qed
qed

text \<open>
  A UE that has fallen back from several streams to one sends its whole transport block on the
  stream with the highest CQI: \<open>UpdateDlMetric\<close> does not fail, gives that stream the block its MCS
  and resources allow, every other stream nothing, and the block size the allocation loop sees is
  that one.
\<close>
lemma rank_fallback_single_stream:
  assumes "ue_dlRBG ue \<noteq> 0" and "dlcqi_ri (ue_dlCqi ue) = 1" and "length (ue_dlMcs ue) \<noteq> 1"
    and "dlcqi_wbCqi (ue_dlCqi ue) = cqi" and "cqi \<noteq> []" and "length cqi \<le> 255"
    and "length (ue_dlMcs ue) = length cqi" and "length (ue_dlTbSize ue) = length cqi"
    and "255 \<notin> set (ue_dlMcs ue)"
  shows "\<exists>ue' s. UpdateDlMetric tbsize ue = Inr ue' \<and> s < length cqi \<and>
    (\<forall>i < length cqi. cqi ! i \<le> cqi ! s) \<and>
    GetDlTBS ue' = tbsize (ue_dlMcs ue ! s) (ue_dlRBG ue * ue_numRbPerRbg ue) \<and>
    (\<forall>i < length cqi. i \<noteq> s \<longrightarrow> ue_dlTbSize ue' ! i = 0)"
proof -
  let ?s = "max_element cqi" and ?r = "ue_dlRBG ue * ue_numRbPerRbg ue"
  have s: "?s < length cqi" using assms(5) by (rule max_element_bound)
  have u: "unat (of_nat ?s :: u8) = ?s"
    using s assms(6) by (simp add: unsigned_of_nat take_bit_eq_mod)
  let ?g = "\<lambda>i. if i = ?s then bindE (vec_at (ue_dlMcs ue) i)
      (\<lambda>m. ns_assert (m \<noteq> 255) (Inr (tbsize m ?r))) else Inr 0"
  have body: "(\<lambda>tbs stream. if stream = unat (of_nat ?s :: u8)
       then bindE (vec_at (ue_dlMcs ue) stream)
              (\<lambda>m. ns_assert (m \<noteq> 255) (vec_set tbs stream (tbsize m ?r)))
       else vec_set tbs stream 0) = (\<lambda>tbs i. bindE (?g i) (vec_set tbs i))"
    unfolding u by (intro ext) (simp add: vec_at_def ns_assert_def)
  have g: "?g i = Inr (if i = ?s then tbsize (ue_dlMcs ue ! ?s) ?r else 0)" for i
    using s assms(7,9) by (auto simp: in_set_conv_nth)
  obtain t where t: "foldE (\<lambda>tbs i. bindE (?g i) (vec_set tbs i)) (ue_dlTbSize ue) [0..<length cqi] =
      Inr t" "length t = length cqi"
      "\<forall>i < length cqi. Inr (t ! i) = ?g i"
    using foldE_vec_set[of "length cqi" "ue_dlTbSize ue" 0 ?g] g assms(8) by auto
  have upd: "UpdateDlMetric tbsize ue = Inr (ue\<lparr>ue_dlTbSize := t\<rparr>)"
    using assms(1-4) body t(1) by (simp add: UpdateDlMetric_def Let_def)
  have ti: "\<forall>i < length cqi. t ! i = (if i = ?s then tbsize (ue_dlMcs ue ! ?s) ?r else 0)"
    using t(3) unfolding g by simp
  have "foldl (+) 0 t = t ! ?s"
    using foldl_plus_single[of ?s t 0] ti t(2) s by simp
  then show ?thesis
    using upd s ti max_element_max[of _ cqi] by (auto simp: GetDlTBS_def)
qed

lemma rank_fallback_single_stream_witness:
  "\<exists>ue' s. UpdateDlMetric (\<lambda>m r. ucast m * r)
      ((demo_ue 1 9 0)\<lparr>ue_dlRBG := 5, ue_dlMcs := [4, 11], ue_dlTbSize := [0, 0],
        ue_dlCqi := \<lparr>dlcqi_type = WB, dlcqi_ri = 1, dlcqi_sinr = [], dlcqi_wbCqi = [3, 7],
          dlcqi_timer = 0\<rparr>\<rparr>) = Inr ue' \<and> s < Suc (Suc 0) \<and>
    (\<forall>i < Suc (Suc 0). i \<noteq> s \<longrightarrow> ue_dlTbSize ue' ! i = 0)"
proof -
  let ?u = "(demo_ue 1 9 0)\<lparr>ue_dlRBG := 5, ue_dlMcs := [4, 11], ue_dlTbSize := [0, 0],
        ue_dlCqi := \<lparr>dlcqi_type = WB, dlcqi_ri = 1, dlcqi_sinr = [], dlcqi_wbCqi = [3, 7],
          dlcqi_timer = 0\<rparr>\<rparr>"
  from rank_fallback_single_stream[of ?u "[3, 7]" "\<lambda>m r. ucast m * r"]
  show ?thesis by auto
qed

end
