(* ===== verification/Srs.thy ===== *)
theory Srs
  imports UeInfo
begin

text \<open>
  The periodicity and offset of the sounding reference signal of each UE:
  \<open>NrMacSchedulerSrsDefault\<close> of \<open>contrib/nr/model/nr-mac-scheduler-srs-default.cc\<close>. The uniform random
  variable is a parameter: \<open>GetInteger\<close> takes the state of the generator and the two bounds, and
  gives the number drawn and the next state. \<open>uniform\<close> states what is documented of it, that the
  number lies between the bounds.
\<close>

type_synonym 'r get_integer = "'r \<Rightarrow> u32 \<Rightarrow> u32 \<Rightarrow> u32 \<times> 'r"

definition uniform :: "'r get_integer \<Rightarrow> bool" where
  "uniform gi \<longleftrightarrow> (\<forall>r lo hi. lo \<le> hi \<longrightarrow> lo \<le> fst (gi r lo hi) \<and> fst (gi r lo hi) \<le> hi)"

definition StandardPeriodicity :: "u32 list" where
  "StandardPeriodicity = [2, 4, 5, 8, 10, 16, 20, 32, 40, 64, 80, 160, 320, 640, 1280, 2560]"

record 'r srs =
  srs_periodicity :: u32
  srs_available :: "u32 list"
  srs_random :: 'r

record SrsPeriodicityAndOffset =
  po_isValid :: bool
  po_periodicity :: u32
  po_offset :: u32

definition AddUe :: "'r srs \<Rightarrow> SrsPeriodicityAndOffset \<times> 'r srs" where
  "AddUe s =
     (let ret = \<lparr>po_isValid = False, po_periodicity = 0, po_offset = 0\<rparr> in
      if length (srs_available s) = 0 then (ret, s)
      else (ret\<lparr>po_offset := last (srs_available s), po_periodicity := srs_periodicity s,
                po_isValid := True\<rparr>,
            s\<lparr>srs_available := butlast (srs_available s)\<rparr>))"

definition RemoveUe :: "'r srs \<Rightarrow> u32 \<Rightarrow> 'r srs" where
  "RemoveUe s offset = s\<lparr>srs_available := srs_available s @ [offset]\<rparr>"

text \<open>The loop of \<open>SetStartingPeriodicity\<close> that shuffles, from index \<open>i\<close> down to 1.\<close>

fun srs_shuffle :: "'r get_integer \<Rightarrow> 'r \<Rightarrow> u32 list \<Rightarrow> nat \<Rightarrow> (u32 list \<times> 'r) res" where
  "srs_shuffle gi r v 0 = Inr (v, r)"
| "srs_shuffle gi r v (Suc i) =
     (let (j, r) = gi r 0 (of_nat (Suc i)) in
      defined_if (Suc i < length v \<and> unat j < length v)
        (srs_shuffle gi r (v[unat j := v ! Suc i, Suc i := v ! unat j]) i))"

definition SetStartingPeriodicity :: "'r get_integer \<Rightarrow> 'r srs \<Rightarrow> u32 \<Rightarrow> 'r srs res" where
  "SetStartingPeriodicity gi s start =
     ns_abort_if (length (srs_available s) \<noteq> 0)
       (if start \<notin> set StandardPeriodicity then Inl FatalError
        else
          let v = map of_nat [0..<unat start] in
          bindE (srs_shuffle gi (srs_random s) v (length v - 1)) (\<lambda>(v, r).
            Inr (s\<lparr>srs_periodicity := start, srs_available := v, srs_random := r\<rparr>)))"

fun ReassignSrsValue :: "'r srs \<Rightarrow> (u16 \<times> UeInfo) list \<Rightarrow> ('r srs \<times> (u16 \<times> UeInfo) list) res" where
  "ReassignSrsValue s [] = Inr (s, [])"
| "ReassignSrsValue s ((k, ue) # r) =
     (let (srs, s) = AddUe s in
      ns_assert (po_isValid srs)
        (bindE (ReassignSrsValue s r) (\<lambda>(s, r).
           Inr (s, (k, ue\<lparr>ue_srsPeriodicity := po_periodicity srs,
                          ue_srsOffset := po_offset srs\<rparr>) # r))))"

text \<open>\<open>std::upper_bound\<close> and \<open>std::lower_bound\<close> on a sorted vector: what is left of it from there.\<close>

definition upper_bound :: "u32 list \<Rightarrow> u32 \<Rightarrow> u32 list" where
  "upper_bound xs v = dropWhile (\<lambda>x. \<not> v < x) xs"

definition lower_bound :: "u32 list \<Rightarrow> u32 \<Rightarrow> u32 list" where
  "lower_bound xs v = dropWhile (\<lambda>x. x < v) xs"

definition IncreasePeriodicity :: "'r get_integer \<Rightarrow> 'r srs \<Rightarrow> (u16 \<times> UeInfo) list \<Rightarrow>
    ('r srs \<times> (u16 \<times> UeInfo) list \<times> bool) res" where
  "IncreasePeriodicity gi s ueMap =
     (let s = s\<lparr>srs_available := []\<rparr> in
      case upper_bound StandardPeriodicity (srs_periodicity s) of
        [] \<Rightarrow> Inr (s, ueMap, False)
      | p # _ \<Rightarrow> bindE (SetStartingPeriodicity gi s p) (\<lambda>s.
                 bindE (ReassignSrsValue s ueMap) (\<lambda>(s, ueMap). Inr (s, ueMap, True))))"

definition DecreasePeriodicity :: "'r get_integer \<Rightarrow> 'r srs \<Rightarrow> (u16 \<times> UeInfo) list \<Rightarrow>
    ('r srs \<times> (u16 \<times> UeInfo) list \<times> bool) res" where
  "DecreasePeriodicity gi s ueMap =
     (let s = s\<lparr>srs_available := []\<rparr> in
      case lower_bound StandardPeriodicity (srs_periodicity s) of
        [] \<Rightarrow> Inr (s, ueMap, False)
      | p # _ \<Rightarrow> bindE (SetStartingPeriodicity gi s p) (\<lambda>s.
                 bindE (ReassignSrsValue s ueMap) (\<lambda>(s, ueMap). Inr (s, ueMap, True))))"

subsection \<open>Every offset exactly once\<close>

definition all_offsets :: "u32 \<Rightarrow> u32 multiset" where
  "all_offsets p = mset (map of_nat [0..<unat p])"

text \<open>
  The free offsets and those of the UEs together are the numbers below the periodicity, each once.
\<close>

definition srs_ok :: "'r srs \<Rightarrow> (u16 \<times> UeInfo) list \<Rightarrow> bool" where
  "srs_ok s m \<longleftrightarrow> srs_periodicity s \<in> set StandardPeriodicity \<and>
     mset (srs_available s) + mset (map (\<lambda>(k, ue). ue_srsOffset ue) m) = all_offsets (srs_periodicity s) \<and>
     (\<forall>(k, ue) \<in> set m. ue_srsPeriodicity ue = srs_periodicity s)"

lemma size_all_offsets [simp]: "size (all_offsets p) = unat p"
  by (simp add: all_offsets_def)

lemma distinct_offsets: "distinct (map (of_nat :: nat \<Rightarrow> u32) [0..<unat (p :: u32)])"
  using u_lt[of p]
  by (auto simp: distinct_map word_unat_eq_iff unsigned_of_nat take_bit_eq_mod intro!: inj_onI)

lemma in_all_offsets: "x \<in># all_offsets p \<Longrightarrow> x < p"
  by (auto simp: all_offsets_def word_less_nat_alt unsigned_of_nat take_bit_eq_mod
      intro: le_less_trans[OF mod_less_eq_dividend])

lemma mset_offsets_distinct:
  "mset xs + mset ys = all_offsets p \<Longrightarrow> distinct (xs @ ys)"
  unfolding all_offsets_def mset_append[symmetric]
  using distinct_offsets[of p] mset_eq_imp_distinct_iff by blast

lemma srs_ok_distinct:
  assumes "srs_ok s m"
  shows "distinct (map (\<lambda>(k, ue). ue_srsOffset ue) m)"
  using assms mset_offsets_distinct unfolding srs_ok_def distinct_append by blast

lemma srs_ok_bound:
  assumes "srs_ok s m" and "(k, ue) \<in> set m"
  shows "ue_srsOffset ue < ue_srsPeriodicity ue"
proof -
  have "ue_srsOffset ue \<in># mset (map (\<lambda>(k, ue). ue_srsOffset ue) m)"
    using assms(2) by force
  then have "ue_srsOffset ue \<in># all_offsets (srs_periodicity s)"
    using assms(1) unfolding srs_ok_def by (metis union_iff)
  then show ?thesis using assms in_all_offsets unfolding srs_ok_def by force
qed

lemma srs_shuffle_perm:
  assumes "uniform gi" and "i < length v" and "length v \<le> 2560"
  shows "\<exists>v' r'. srs_shuffle gi r v i = Inr (v', r') \<and> mset v' = mset v"
  using assms(2,3)
proof (induction i arbitrary: r v)
  case 0
  then show ?case by simp
next
  case (Suc i)
  obtain j r1 where j: "gi r 0 (of_nat (Suc i)) = (j, r1)" by fastforce
  have "j \<le> of_nat (Suc i)" using assms(1) j unfolding uniform_def by (metis fst_conv word_zero_le)
  then have jl: "unat j < length v"
    using Suc.prems by (simp add: word_le_nat_alt unsigned_of_nat take_bit_eq_mod del: of_nat_Suc)
  let ?v = "v[unat j := v ! Suc i, Suc i := v ! unat j]"
  have "mset ?v = mset v" using Suc.prems(1) jl by (simp add: mset_swap)
  with Suc.IH[of ?v r1] Suc.prems jl j show ?case by (simp del: of_nat_Suc)
qed

lemma standard_bounds: "p \<in> set StandardPeriodicity \<Longrightarrow> 2 \<le> p \<and> p \<le> 2560"
  by (auto simp: StandardPeriodicity_def)

lemma SetStartingPeriodicity_ok:
  assumes "uniform gi" and "srs_available s = []" and "p \<in> set StandardPeriodicity"
  shows "\<exists>s'. SetStartingPeriodicity gi s p = Inr s' \<and> srs_periodicity s' = p \<and>
    mset (srs_available s') = all_offsets p"
proof -
  let ?v = "map (of_nat :: nat \<Rightarrow> u32) [0..<unat p]"
  have "unat p \<le> 2560" "0 < unat p"
    using standard_bounds[OF assms(3)] by (auto simp: word_le_nat_alt)
  then obtain v r where "srs_shuffle gi (srs_random s) ?v (length ?v - 1) = Inr (v, r)" "mset v = mset ?v"
    using srs_shuffle_perm[OF assms(1), of "length ?v - 1" ?v "srs_random s"] by auto
  then show ?thesis using assms(2,3) by (simp add: SetStartingPeriodicity_def all_offsets_def Let_def)
qed

lemma AddUe_Some:
  "srs_available s \<noteq> [] \<Longrightarrow> AddUe s = (\<lparr>po_isValid = True, po_periodicity = srs_periodicity s,
     po_offset = last (srs_available s)\<rparr>, s\<lparr>srs_available := butlast (srs_available s)\<rparr>)"
  by (simp add: AddUe_def Let_def)

lemma mset_butlast_last: "xs \<noteq> [] \<Longrightarrow> mset xs = add_mset (last xs) (mset (butlast xs))"
  by (induction xs rule: rev_induct) auto

lemma ReassignSrsValue_ok:
  assumes "length m \<le> length (srs_available s)"
  shows "\<exists>s' m'. ReassignSrsValue s m = Inr (s', m') \<and> map fst m' = map fst m \<and>
    srs_periodicity s' = srs_periodicity s \<and>
    mset (srs_available s') + mset (map (\<lambda>(k, ue). ue_srsOffset ue) m') = mset (srs_available s) \<and>
    (\<forall>(k, ue) \<in> set m'. ue_srsPeriodicity ue = srs_periodicity s)"
  using assms
proof (induction m arbitrary: s)
  case Nil
  then show ?case by simp
next
  case (Cons x m)
  obtain k ue where x: "x = (k, ue)" by fastforce
  have ne: "srs_available s \<noteq> []" using Cons.prems by auto
  let ?s = "s\<lparr>srs_available := butlast (srs_available s)\<rparr>"
  have len: "length m \<le> length (srs_available ?s)" using Cons.prems by simp
  obtain s' m' where m': "ReassignSrsValue ?s m = Inr (s', m')" "map fst m' = map fst m"
      "srs_periodicity s' = srs_periodicity s"
      "mset (srs_available s') + mset (map (\<lambda>(k, ue). ue_srsOffset ue) m') =
         mset (butlast (srs_available s))"
      "\<forall>(k, ue) \<in> set m'. ue_srsPeriodicity ue = srs_periodicity s"
    using Cons.IH[OF len] by auto
  then show ?case
    using AddUe_Some[OF ne] mset_butlast_last[OF ne] by (auto simp: x)
qed


lemma srs_ok_length: "srs_ok s m \<Longrightarrow> length (srs_available s) + length m = unat (srs_periodicity s)"
  unfolding srs_ok_def by (metis length_map size_all_offsets size_mset size_union)

lemma reassign_all:
  assumes gi: "uniform gi" and "p \<in> set StandardPeriodicity" and "length m \<le> unat p"
  shows "\<exists>s0 s' m'. SetStartingPeriodicity gi (s\<lparr>srs_available := []\<rparr>) p = Inr s0 \<and>
    ReassignSrsValue s0 m = Inr (s', m') \<and> srs_ok s' m' \<and> srs_periodicity s' = p \<and>
    map fst m' = map fst m"
proof -
  obtain s0 where s0: "SetStartingPeriodicity gi (s\<lparr>srs_available := []\<rparr>) p = Inr s0"
      "srs_periodicity s0 = p" "mset (srs_available s0) = all_offsets p"
    using SetStartingPeriodicity_ok[OF gi _ assms(2), of "s\<lparr>srs_available := []\<rparr>"] by auto
  have "length m \<le> length (srs_available s0)"
    using assms(3) s0(3) by (metis size_all_offsets size_mset)
  from ReassignSrsValue_ok[OF this] s0 assms(2) show ?thesis
    unfolding srs_ok_def by auto
qed

subsection \<open>Changing the periodicity\<close>

definition next_periodicity :: "u32 \<Rightarrow> u32" where
  "next_periodicity p = (case upper_bound StandardPeriodicity p of [] \<Rightarrow> p | q # _ \<Rightarrow> q)"

lemma upper_bound_standard:
  assumes "p \<in> set StandardPeriodicity" and "p \<noteq> 2560"
  shows "\<exists>r. upper_bound StandardPeriodicity p = next_periodicity p # r \<and>
    next_periodicity p \<in> set StandardPeriodicity \<and> p < next_periodicity p"
  using assms by (auto simp: StandardPeriodicity_def upper_bound_def next_periodicity_def)

lemma lower_bound_standard:
  assumes "p \<in> set StandardPeriodicity"
  shows "\<exists>r. lower_bound StandardPeriodicity p = p # r"
proof -
  have "\<forall>q \<in> set StandardPeriodicity.
      lower_bound StandardPeriodicity q = q # tl (lower_bound StandardPeriodicity q)"
    by (simp add: StandardPeriodicity_def lower_bound_def)
  with assms show ?thesis by blast
qed

lemma Increase_ok:
  assumes "uniform gi" and "srs_ok s m" and "srs_periodicity s \<noteq> 2560"
  shows "\<exists>s' m'. IncreasePeriodicity gi s m = Inr (s', m', True) \<and> srs_ok s' m' \<and>
    srs_periodicity s' = next_periodicity (srs_periodicity s) \<and> map fst m' = map fst m"
proof -
  have p: "srs_periodicity s \<in> set StandardPeriodicity" using assms(2) by (simp add: srs_ok_def)
  obtain r where r: "upper_bound StandardPeriodicity (srs_periodicity s) =
        next_periodicity (srs_periodicity s) # r"
      "next_periodicity (srs_periodicity s) \<in> set StandardPeriodicity"
      "srs_periodicity s < next_periodicity (srs_periodicity s)"
    using upper_bound_standard[OF p assms(3)] by auto
  have "length m \<le> unat (next_periodicity (srs_periodicity s))"
    using srs_ok_length[OF assms(2)] r(3) by (simp add: word_less_nat_alt)
  then obtain s0 s' m' where
      "SetStartingPeriodicity gi (s\<lparr>srs_available := []\<rparr>) (next_periodicity (srs_periodicity s)) = Inr s0"
      "ReassignSrsValue s0 m = Inr (s', m')"
      "srs_ok s' m'" "srs_periodicity s' = next_periodicity (srs_periodicity s)" "map fst m' = map fst m"
    using reassign_all[OF assms(1) r(2), of m s] by blast
  then show ?thesis by (intro exI[of _ s'] exI[of _ m']) (simp add: IncreasePeriodicity_def r(1))
qed

lemma Decrease_ok:
  assumes "uniform gi" and "srs_ok s m"
  shows "\<exists>s' m'. DecreasePeriodicity gi s m = Inr (s', m', True) \<and> srs_ok s' m' \<and>
    srs_periodicity s' = srs_periodicity s \<and> map fst m' = map fst m"
proof -
  have p: "srs_periodicity s \<in> set StandardPeriodicity" using assms(2) by (simp add: srs_ok_def)
  obtain r where r: "lower_bound StandardPeriodicity (srs_periodicity s) = srs_periodicity s # r"
    using lower_bound_standard[OF p] by auto
  have "length m \<le> unat (srs_periodicity s)" using srs_ok_length[OF assms(2)] by simp
  then obtain s0 s' m' where
      "SetStartingPeriodicity gi (s\<lparr>srs_available := []\<rparr>) (srs_periodicity s) = Inr s0"
      "ReassignSrsValue s0 m = Inr (s', m')"
      "srs_ok s' m'" "srs_periodicity s' = srs_periodicity s" "map fst m' = map fst m"
    using reassign_all[OF assms(1) p, of m s] by blast
  then show ?thesis by (intro exI[of _ s'] exI[of _ m']) (simp add: DecreasePeriodicity_def r)
qed

subsection \<open>Every sequence of operations\<close>

text \<open>
  The states the scheduler can drive this object through: a UE comes and takes the offset \<open>AddUe\<close>
  returns, a UE goes and its offset is given back, the periodicity is changed for all.
\<close>

inductive srs_step :: "'r get_integer \<Rightarrow> 'r srs \<times> (u16 \<times> UeInfo) list \<Rightarrow>
    'r srs \<times> (u16 \<times> UeInfo) list \<Rightarrow> bool" for gi where
  step_add: "AddUe s = (srs, s') \<Longrightarrow> po_isValid srs \<Longrightarrow> k \<notin> fst ` set m \<Longrightarrow>
    srs_step gi (s, m) (s', m @ [(k, ue\<lparr>ue_srsPeriodicity := po_periodicity srs,
      ue_srsOffset := po_offset srs\<rparr>)])"
| step_remove: "m = m1 @ (k, ue) # m2 \<Longrightarrow>
    srs_step gi (s, m) (RemoveUe s (ue_srsOffset ue), m1 @ m2)"
| step_increase: "IncreasePeriodicity gi s m = Inr (s', m', True) \<Longrightarrow> srs_step gi (s, m) (s', m')"
| step_decrease: "DecreasePeriodicity gi s m = Inr (s', m', True) \<Longrightarrow> srs_step gi (s, m) (s', m')"

inductive_cases srs_stepE: "srs_step gi (s, m) t"

lemma AddUe_ok:
  assumes "srs_ok s m" and "AddUe s = (srs, s')" and "po_isValid srs"
  shows "srs_ok s' (m @ [(k, ue\<lparr>ue_srsPeriodicity := po_periodicity srs,
    ue_srsOffset := po_offset srs\<rparr>)])"
proof -
  have ne: "srs_available s \<noteq> []" using assms(2,3) by (auto simp: AddUe_def Let_def)
  have "add_mset (last (srs_available s)) (mset (butlast (srs_available s)) + M) =
      mset (srs_available s) + M" for M
    using mset_butlast_last[OF ne] by simp
  note sum = this[of "mset (map (\<lambda>(k, ue). ue_srsOffset ue) m)"]
  have "srs = \<lparr>po_isValid = True, po_periodicity = srs_periodicity s, po_offset = last (srs_available s)\<rparr>"
      "s' = s\<lparr>srs_available := butlast (srs_available s)\<rparr>"
    using assms(2) AddUe_Some[OF ne] by simp_all
  then show ?thesis using assms(1) sum unfolding srs_ok_def by (simp del: mset_map)
qed

lemma RemoveUe_ok:
  "srs_ok s (m1 @ (k, ue) # m2) \<Longrightarrow> srs_ok (RemoveUe s (ue_srsOffset ue)) (m1 @ m2)"
  by (auto simp: srs_ok_def RemoveUe_def)

lemma Increase_periodicity_max:
  assumes "srs_ok s m" and "IncreasePeriodicity gi s m = Inr (s', m', True)"
  shows "srs_periodicity s \<noteq> 2560"
  using assms(2) by (auto simp: IncreasePeriodicity_def upper_bound_def StandardPeriodicity_def)

lemma srs_step_ok:
  assumes "srs_step gi st st'" and "uniform gi" and "srs_ok (fst st) (snd st)"
  shows "srs_ok (fst st') (snd st')"
  using assms
proof (induction rule: srs_step.induct)
  case (step_add s srs s' k m ue)
  then show ?case by (simp add: AddUe_ok)
next
  case (step_remove m m1 k ue m2 s)
  then show ?case by (simp add: RemoveUe_ok)
next
  case (step_increase s m s' m')
  then have "srs_periodicity s \<noteq> 2560"
    using Increase_periodicity_max[of s m gi s' m'] by simp
  with Increase_ok[of gi s m] step_increase show ?case by auto
next
  case (step_decrease s m s' m')
  with Decrease_ok[of gi s m] show ?case by auto
qed

lemma srs_steps_ok:
  assumes "(srs_step gi)\<^sup>*\<^sup>* st st'" and "uniform gi" and "srs_ok (fst st) (snd st)"
  shows "srs_ok (fst st') (snd st')"
  using assms by (induction rule: rtranclp_induct) (auto intro: srs_step_ok)

text \<open>
  C32. No two UEs ever send their sounding reference signal in the same slot of the period: from a
  freshly configured periodicity, after any sequence of UEs coming and going and of periodicity
  changes, whatever numbers the generator draws, the offsets of the UEs are pairwise different and
  below the periodicity every UE is told.
\<close>
theorem srs_offsets_never_collide:
  assumes "uniform gi" and "srs_available s0 = []" and "p \<in> set StandardPeriodicity"
    and "SetStartingPeriodicity gi s0 p = Inr s" and "(srs_step gi)\<^sup>*\<^sup>* (s, []) (s', m)"
  shows "distinct (map (\<lambda>(k, ue). ue_srsOffset ue) m) \<and>
    (\<forall>(k, ue) \<in> set m. ue_srsOffset ue < ue_srsPeriodicity ue \<and>
      ue_srsPeriodicity ue = srs_periodicity s')"
proof -
  have "srs_ok s []"
    using SetStartingPeriodicity_ok[OF assms(1-3)] assms(3,4) by (simp add: srs_ok_def)
  then have ok: "srs_ok s' m" using srs_steps_ok[OF assms(5,1)] by simp
  then show ?thesis using srs_ok_distinct[OF ok] srs_ok_bound[OF ok] by (auto simp: srs_ok_def)
qed

definition lowest :: "unit get_integer" where
  "lowest r lo hi = (lo, r)"

lemma uniform_lowest: "uniform lowest"
  by (simp add: uniform_def lowest_def)

definition demo_srs :: "unit srs" where
  "demo_srs = \<lparr>srs_periodicity = 0, srs_available = [], srs_random = ()\<rparr>"

theorem srs_offsets_never_collide_witness:
  "\<exists>s s' m. SetStartingPeriodicity lowest demo_srs 2 = Inr s \<and>
     (srs_step lowest)\<^sup>*\<^sup>* (s, []) (s', m) \<and> length m = 1 \<and>
     distinct (map (\<lambda>(k, ue). ue_srsOffset ue) m)"
proof -
  have s: "SetStartingPeriodicity lowest demo_srs 2 =
      Inr \<lparr>srs_periodicity = 2, srs_available = [1, 0], srs_random = ()\<rparr>"
    by (simp add: SetStartingPeriodicity_def demo_srs_def StandardPeriodicity_def lowest_def
        upt_rec numeral_2_eq_2[symmetric])
  let ?s = "\<lparr>srs_periodicity = 2, srs_available = [1, 0], srs_random = ()\<rparr>"
  have "srs_step lowest (?s, []) (?s\<lparr>srs_available := [1]\<rparr>,
      [] @ [(7, (demo_ue 7 0 0)\<lparr>ue_srsPeriodicity := 2, ue_srsOffset := 0\<rparr>)])"
    using step_add[of ?s "\<lparr>po_isValid = True, po_periodicity = 2, po_offset = 0\<rparr>"
        "?s\<lparr>srs_available := [1]\<rparr>" 7 "[]" lowest "demo_ue 7 0 0"]
    by (simp add: AddUe_def)
  then have r: "(srs_step lowest)\<^sup>*\<^sup>* (?s, []) (?s\<lparr>srs_available := [1]\<rparr>,
      [(7, (demo_ue 7 0 0)\<lparr>ue_srsPeriodicity := 2, ue_srsOffset := 0\<rparr>)])"
    by simp
  have "2 \<in> set StandardPeriodicity" "srs_available demo_srs = []"
    by (simp_all add: StandardPeriodicity_def demo_srs_def)
  from srs_offsets_never_collide[OF uniform_lowest this(2,1) s r] s r show ?thesis
    by (intro exI[of _ ?s] exI conjI) (assumption+, simp_all)
qed

text \<open>
  Increasing the periodicity always makes room: below the largest standard value it succeeds
  for whatever UEs there are, moves to the next larger standard periodicity, and gives all UEs new
  offsets that do not collide.
\<close>
lemma IncreasePeriodicity_makes_room:
  assumes "uniform gi" and "srs_ok s m" and "srs_periodicity s \<noteq> 2560"
  shows "\<exists>s' m'. IncreasePeriodicity gi s m = Inr (s', m', True) \<and> map fst m' = map fst m \<and>
    srs_periodicity s < srs_periodicity s' \<and> srs_available s' \<noteq> [] \<and>
    distinct (map (\<lambda>(k, ue). ue_srsOffset ue) m')"
proof -
  have p: "srs_periodicity s \<in> set StandardPeriodicity" using assms(2) by (simp add: srs_ok_def)
  have lt: "srs_periodicity s < next_periodicity (srs_periodicity s)"
    using upper_bound_standard[OF p assms(3)] by auto
  obtain s' m' where m': "IncreasePeriodicity gi s m = Inr (s', m', True)" "srs_ok s' m'"
      "srs_periodicity s' = next_periodicity (srs_periodicity s)" "map fst m' = map fst m"
    using Increase_ok[OF assms] by blast
  have "length m' \<le> unat (srs_periodicity s)"
    using srs_ok_length[OF assms(2)] m'(4) by (metis le_add2 length_map)
  then have "srs_available s' \<noteq> []"
    using srs_ok_length[OF m'(2)] lt m'(3) by (auto simp: word_less_nat_alt)
  with m' lt srs_ok_distinct[OF m'(2)] show ?thesis by auto
qed

lemma IncreasePeriodicity_makes_room_witness:
  "\<exists>s' m'. IncreasePeriodicity lowest \<lparr>srs_periodicity = 2, srs_available = [],  srs_random = ()\<rparr>
      [(1, (demo_ue 1 0 0)\<lparr>ue_srsPeriodicity := 2, ue_srsOffset := 0\<rparr>),
       (2, (demo_ue 2 0 0)\<lparr>ue_srsPeriodicity := 2, ue_srsOffset := 1\<rparr>)] = Inr (s', m', True) \<and>
    2 < srs_periodicity s'"
proof -
  have "srs_ok \<lparr>srs_periodicity = 2, srs_available = [], srs_random = ()\<rparr>
      [(1, (demo_ue 1 0 0)\<lparr>ue_srsPeriodicity := 2, ue_srsOffset := 0\<rparr>),
       (2, (demo_ue 2 0 0)\<lparr>ue_srsPeriodicity := 2, ue_srsOffset := 1\<rparr>)]"
    by (simp add: srs_ok_def StandardPeriodicity_def all_offsets_def upt_rec)
  from IncreasePeriodicity_makes_room[OF uniform_lowest this] show ?thesis by auto
qed

text \<open>
  Decreasing the periodicity does not decrease it: \<open>std::lower_bound\<close> finds the current value
  itself, so the call only reassigns the offsets, under the same periodicity.
\<close>
lemma DecreasePeriodicity_keeps_periodicity:
  assumes "uniform gi" and "srs_ok s m"
  shows "\<exists>s' m'. DecreasePeriodicity gi s m = Inr (s', m', True) \<and>
    srs_periodicity s' = srs_periodicity s"
  using Decrease_ok[OF assms] by blast

lemma DecreasePeriodicity_keeps_periodicity_witness:
  "\<exists>s' m'. DecreasePeriodicity lowest \<lparr>srs_periodicity = 4, srs_available = [0, 1, 2, 3],
      srs_random = ()\<rparr> [] = Inr (s', m', True) \<and> srs_periodicity s' = 4"
proof -
  have "srs_ok \<lparr>srs_periodicity = 4, srs_available = [0, 1, 2, 3], srs_random = ()\<rparr> []"
    by (simp add: srs_ok_def StandardPeriodicity_def all_offsets_def upt_rec)
  from DecreasePeriodicity_keeps_periodicity[OF uniform_lowest this] show ?thesis by simp
qed

end
