(* ===== verification/Binary64.thy ===== *)
theory Binary64
  imports Prelude "HOL-Library.Log_Nat" Complex_Main
begin

text \<open>
  The C++ \<open>double\<close>: IEEE 754 binary64 with rounding to nearest, ties to even, subnormal numbers and
  overflow to infinity. A finite \<open>double\<close> is the rational it stands for, every operation is the exact
  one followed by \<open>fl\<close>. The sign of a zero is not kept. Conversions to an integer type are undefined
  where C++ leaves them so: a NaN, an infinity, a value out of the range of the type.
\<close>

datatype fp = NaN | Inf bool | Num rat

definition pow2 :: "int \<Rightarrow> rat" where
  "pow2 e = (if e \<ge> 0 then 2 ^ nat e else 1 / 2 ^ nat (- e))"

text \<open>The \<open>e\<close> with \<open>2 ^ e \<le> x < 2 ^ (e + 1)\<close>.\<close>

definition exponent :: "rat \<Rightarrow> int" where
  "exponent x = (let (p, q) = quotient_of x; e = bitlen p - bitlen q
     in if pow2 e \<le> x then e else e - 1)"

definition round_half_even :: "rat \<Rightarrow> int" where
  "round_half_even m = (let f = \<lfloor>m\<rfloor>; d = m - of_int f
     in if d < 1 / 2 then f else if d > 1 / 2 then f + 1 else if even f then f else f + 1)"

definition round53 :: "rat \<Rightarrow> rat" where
  "round53 x = (if x = 0 then 0
     else let q = max (exponent \<bar>x\<bar> - 52) (- 1074)
          in of_int (round_half_even (x / pow2 q)) * pow2 q)"

definition fl :: "rat \<Rightarrow> fp" where
  "fl x = (let r = round53 x in if \<bar>r\<bar> \<ge> pow2 1024 then Inf (r > 0) else Num r)"

subsection \<open>Operations\<close>

fun fp_neg :: "fp \<Rightarrow> fp" where
  "fp_neg NaN = NaN"
| "fp_neg (Inf s) = Inf (\<not> s)"
| "fp_neg (Num x) = Num (- x)"

fun fp_add :: "fp \<Rightarrow> fp \<Rightarrow> fp" where
  "fp_add NaN b = NaN"
| "fp_add a NaN = NaN"
| "fp_add (Inf s) (Inf t) = (if s = t then Inf s else NaN)"
| "fp_add (Inf s) (Num y) = Inf s"
| "fp_add (Num x) (Inf t) = Inf t"
| "fp_add (Num x) (Num y) = fl (x + y)"

definition fp_sub :: "fp \<Rightarrow> fp \<Rightarrow> fp" where
  "fp_sub a b = fp_add a (fp_neg b)"

fun fp_mul :: "fp \<Rightarrow> fp \<Rightarrow> fp" where
  "fp_mul NaN b = NaN"
| "fp_mul a NaN = NaN"
| "fp_mul (Inf s) (Inf t) = Inf (s = t)"
| "fp_mul (Inf s) (Num y) = (if y = 0 then NaN else Inf (s = (y > 0)))"
| "fp_mul (Num x) (Inf t) = (if x = 0 then NaN else Inf (t = (x > 0)))"
| "fp_mul (Num x) (Num y) = fl (x * y)"

fun fp_div :: "fp \<Rightarrow> fp \<Rightarrow> fp" where
  "fp_div NaN b = NaN"
| "fp_div a NaN = NaN"
| "fp_div (Inf s) (Inf t) = NaN"
| "fp_div (Inf s) (Num y) = Inf (s = (y \<ge> 0))"
| "fp_div (Num x) (Inf t) = Num 0"
| "fp_div (Num x) (Num y) = (if y = 0 then (if x = 0 then NaN else Inf (x > 0)) else fl (x / y))"

fun fp_less :: "fp \<Rightarrow> fp \<Rightarrow> bool" where
  "fp_less (Num x) (Num y) = (x < y)"
| "fp_less (Inf s) (Num y) = (\<not> s)"
| "fp_less (Num x) (Inf t) = t"
| "fp_less (Inf s) (Inf t) = (\<not> s \<and> t)"
| "fp_less _ _ = False"

fun fp_le :: "fp \<Rightarrow> fp \<Rightarrow> bool" where
  "fp_le (Num x) (Num y) = (x \<le> y)"
| "fp_le (Inf s) (Num y) = (\<not> s)"
| "fp_le (Num x) (Inf t) = t"
| "fp_le (Inf s) (Inf t) = (\<not> s \<or> t)"
| "fp_le _ _ = False"

definition fp_of_int :: "int \<Rightarrow> fp" where
  "fp_of_int n = fl (of_int n)"

text \<open>Truncation towards zero.\<close>

definition rat_trunc :: "rat \<Rightarrow> int" where
  "rat_trunc x = (if x \<ge> 0 then \<lfloor>x\<rfloor> else \<lceil>x\<rceil>)"

fun fp_to_int :: "fp \<Rightarrow> int res" where
  "fp_to_int (Num x) = (let n = rat_trunc x in defined_if (- (2 ^ 31) \<le> n \<and> n < 2 ^ 31) (Inr n))"
| "fp_to_int _ = Inl Undefined"

fun fp_to_u32 :: "fp \<Rightarrow> u32 res" where
  "fp_to_u32 (Num x) = (let n = rat_trunc x in defined_if (0 \<le> n \<and> n < 2 ^ 32) (Inr (of_int n)))"
| "fp_to_u32 _ = Inl Undefined"

text \<open>Arithmetic on \<open>int\<close>: overflow is undefined.\<close>

definition i32 :: "int \<Rightarrow> int res" where
  "i32 n = defined_if (- (2 ^ 31) \<le> n \<and> n < 2 ^ 31) (Inr n)"

lemma i32_Inr_iff [res_simps]: "i32 n = Inr m \<longleftrightarrow> m = n \<and> - (2 ^ 31) \<le> n \<and> n < 2 ^ 31"
  by (auto simp: i32_def res_simps)

lemma i32_ok: "- (2 ^ 31) \<le> n \<Longrightarrow> n < 2 ^ 31 \<Longrightarrow> i32 n = Inr n"
  by (simp add: i32_def)

subsection \<open>Rounding is exact on what fits\<close>

lemma pow2_pos [simp]: "0 < pow2 e"
  by (simp add: pow2_def)

lemma pow2_nz [simp]: "pow2 e \<noteq> 0"
  using pow2_pos[of e] by linarith

lemma pow2_add: "pow2 (a + b) = pow2 a * pow2 b"
proof -
  consider "a \<ge> 0" "b \<ge> 0" | "a < 0" "b < 0" | "a \<ge> 0" "b < 0" "a + b \<ge> 0" | "a \<ge> 0" "b < 0" "a + b < 0"
    | "a < 0" "b \<ge> 0" "a + b \<ge> 0" | "a < 0" "b \<ge> 0" "a + b < 0" by linarith
  then show ?thesis
  proof cases
    case 1
    then show ?thesis by (simp add: pow2_def nat_add_distrib power_add)
  next
    case 2
    then have "nat (- (a + b)) = nat (- a) + nat (- b)" by linarith
    with 2 show ?thesis by (simp add: pow2_def power_add)
  next
    case 3
    then have "nat a = nat (a + b) + nat (- b)" by linarith
    with 3 show ?thesis by (simp add: pow2_def power_add)
  next
    case 4
    then have "nat (- b) = nat (- (a + b)) + nat a" by linarith
    with 4 show ?thesis by (simp add: pow2_def power_add)
  next
    case 5
    then have "nat b = nat (a + b) + nat (- a)" by linarith
    with 5 show ?thesis by (simp add: pow2_def power_add)
  next
    case 6
    then have "nat (- a) = nat (- (a + b)) + nat b" by linarith
    with 6 show ?thesis by (simp add: pow2_def power_add)
  qed
qed

lemma pow2_mono: "a \<le> b \<Longrightarrow> pow2 a \<le> pow2 b"
proof -
  assume "a \<le> b"
  have "pow2 b = pow2 a * pow2 (b - a)" using pow2_add[of a "b - a"] by simp
  moreover have "1 \<le> pow2 (b - a)" using \<open>a \<le> b\<close> by (simp add: pow2_def)
  ultimately show ?thesis using mult_left_mono[of 1 "pow2 (b - a)" "pow2 a"] pow2_pos[of a] by simp
qed

lemma bitlen_range:
  assumes "0 < p"
  shows "pow2 (bitlen p - 1) \<le> of_int p" "of_int p < pow2 (bitlen p)"
proof -
  have b: "2 ^ nat (bitlen p - 1) \<le> p \<and> p < 2 ^ nat (bitlen p)" "1 \<le> bitlen p"
    using bitlen_bounds[OF assms] bitlen_nonneg[of p] bitlen_eq_zero_iff[of p] assms
    by linarith+
  then show "pow2 (bitlen p - 1) \<le> of_int p"
    by (simp add: pow2_def)
  show "of_int p < pow2 (bitlen p)"
    using b by (simp add: pow2_def)
qed

lemma exponent_bounds:
  assumes "0 < x"
  shows "pow2 (exponent x) \<le> x" "x < pow2 (exponent x + 1)"
proof -
  obtain p q where pq: "quotient_of x = (p, q)" by fastforce
  then have q: "0 < q" and x: "x = of_int p / of_int q"
    by (auto simp: quotient_of_denom_pos quotient_of_div)
  have p: "0 < p" using assms q unfolding x by (simp add: zero_less_divide_iff)
  let ?e = "bitlen p - bitlen q"
  have up: "x < pow2 (?e + 1)"
  proof -
    have "of_int p < pow2 (bitlen p)" "pow2 (bitlen q - 1) \<le> of_int q"
      using bitlen_range[OF p] bitlen_range[OF q] by auto
    then have "of_int p * 1 < pow2 (?e + 1) * pow2 (bitlen q - 1)"
      unfolding pow2_add[symmetric] by simp
    also have "\<dots> \<le> pow2 (?e + 1) * of_int q"
      using \<open>pow2 (bitlen q - 1) \<le> of_int q\<close> pow2_pos[of "?e + 1"]
      by (intro mult_left_mono) (auto intro: less_imp_le)
    finally show ?thesis using q unfolding x by (simp add: pos_divide_less_eq)
  qed
  have lo: "pow2 (?e - 1) \<le> x"
  proof -
    have "pow2 (bitlen p - 1) \<le> of_int p" "of_int q < pow2 (bitlen q)"
      using bitlen_range[OF p] bitlen_range[OF q] by auto
    have "pow2 (?e - 1) * of_int q \<le> pow2 (?e - 1) * pow2 (bitlen q)"
      using \<open>of_int q < pow2 (bitlen q)\<close> pow2_pos[of "?e - 1"]
      by (intro mult_left_mono) (auto intro: less_imp_le)
    also have "\<dots> = pow2 (bitlen p - 1)" unfolding pow2_add[symmetric] by simp
    finally show ?thesis
      using \<open>pow2 (bitlen p - 1) \<le> of_int p\<close> q unfolding x by (simp add: pos_le_divide_eq)
  qed
  show "pow2 (exponent x) \<le> x" using lo by (simp add: exponent_def pq Let_def)
  show "x < pow2 (exponent x + 1)" using up by (simp add: exponent_def pq Let_def)
qed

lemma round_half_even_int [simp]: "round_half_even (of_int n) = n"
  by (simp add: round_half_even_def)

text \<open>A dyadic rational with a numerator of at most 53 bits is not rounded; an integer is one.\<close>

lemma round53_dyadic:
  assumes "\<bar>n\<bar> < 2 ^ 53" and "j \<le> 1000"
  shows "round53 (of_int n / 2 ^ j) = of_int n / 2 ^ j"
proof (cases "n = 0")
  case True
  then show ?thesis by (simp add: round53_def)
next
  case False
  let ?x = "of_int \<bar>n\<bar> / 2 ^ j :: rat"
  have pos: "0 < ?x" using False by simp
  let ?e = "exponent ?x" and ?q = "max (exponent ?x - 52) (- 1074)"
  have pj: "pow2 (- int j) = 1 / 2 ^ j" by (simp add: pow2_def)
  have "?e < 53 - int j"
  proof (rule ccontr)
    assume "\<not> ?e < 53 - int j"
    then have "pow2 (53 - int j) \<le> ?x"
      using exponent_bounds(1)[OF pos] pow2_mono[of "53 - int j" ?e] by linarith
    then have "pow2 53 * pow2 (- int j) \<le> ?x" using pow2_add[of 53 "- int j"] by simp
    then have "pow2 53 \<le> of_int \<bar>n\<bar>" unfolding pj by (simp add: divide_le_cancel)
    moreover have "(of_int \<bar>n\<bar> :: rat) < of_int (2 ^ 53)" using assms(1) by (simp only: of_int_less_iff)
    ultimately show False by (simp add: pow2_def)
  qed
  then have q0: "?q \<le> - int j" using assms(2) by simp
  have "pow2 (- int j) = pow2 ?q * pow2 (- int j - ?q)" using pow2_add[of ?q "- int j - ?q"] by simp
  moreover have "pow2 (- int j - ?q) = of_int (2 ^ nat (- int j - ?q))" using q0 by (simp add: pow2_def)
  ultimately have "of_int n / 2 ^ j / pow2 ?q = of_int (n * 2 ^ nat (- int j - ?q))"
    using pj by (simp add: field_simps)
  then have r: "of_int (round_half_even (of_int n / 2 ^ j / pow2 ?q)) = of_int n / 2 ^ j / pow2 ?q"
    by (simp only: round_half_even_int)
  have abs: "\<bar>of_int n / 2 ^ j :: rat\<bar> = ?x" by simp
  have nz: "of_int n / 2 ^ j \<noteq> (0 :: rat)" using False by simp
  show ?thesis using nz unfolding round53_def Let_def abs r by simp
qed

lemma fl_dyadic:
  assumes "\<bar>n\<bar> < 2 ^ 53" and "j \<le> 1000"
  shows "fl (of_int n / 2 ^ j) = Num (of_int n / 2 ^ j)"
proof -
  have "pow2 53 \<le> pow2 1024" by (rule pow2_mono) simp
  moreover have "\<bar>of_int n :: rat\<bar> < of_int (2 ^ 53)" using assms(1) by (metis of_int_abs of_int_less_iff)
  moreover have "\<bar>of_int n / 2 ^ j :: rat\<bar> \<le> \<bar>of_int n\<bar>"
    by (simp add: divide_le_eq mult_le_cancel_left1)
  ultimately have "\<not> pow2 1024 \<le> \<bar>of_int n / 2 ^ j :: rat\<bar>" by (simp add: pow2_def)
  then show ?thesis using round53_dyadic[OF assms] by (simp add: fl_def)
qed

lemma fl_int: "\<bar>n\<bar> < 2 ^ 53 \<Longrightarrow> fl (of_int n) = Num (of_int n)"
  using fl_dyadic[of n 0] by simp

lemma fl_small [simp]:
  "fl 0 = Num 0" "fl 1 = Num 1" "numeral k < (2 ^ 53 :: int) \<Longrightarrow> fl (numeral k) = Num (numeral k)"
  "fl (1 / 2) = Num (1 / 2)"
  using fl_int[of 0] fl_int[of 1] fl_int[of "numeral k"] fl_dyadic[of 1 1] by simp_all

lemma fp_of_int_exact: "\<bar>n\<bar> < 2 ^ 53 \<Longrightarrow> fp_of_int n = Num (of_int n)"
  by (simp add: fp_of_int_def fl_int)


text \<open>A number that is not tiny does not round to zero.\<close>

lemma round53_pos:
  assumes "pow2 (- 1000) \<le> x"
  shows "0 < round53 x"
proof -
  have x: "0 < x" using assms pow2_pos[of "- 1000"] by linarith
  let ?e = "exponent x" and ?q = "max (exponent \<bar>x\<bar> - 52) (- 1074)"
  have "- 1000 < ?e + 1"
  proof (rule ccontr)
    assume "\<not> - 1000 < ?e + 1"
    then have "pow2 (?e + 1) \<le> pow2 (- 1000)" by (intro pow2_mono) simp
    with exponent_bounds(2)[OF x] assms show False by linarith
  qed
  then have "?q \<le> ?e" using x by simp
  then have "pow2 ?q \<le> x" using pow2_mono[of ?q ?e] exponent_bounds(1)[OF x] by linarith
  then have "1 \<le> \<lfloor>x / pow2 ?q\<rfloor>" by (simp add: pos_le_divide_eq le_floor_iff)
  moreover have "\<lfloor>m\<rfloor> \<le> round_half_even m" for m :: rat
    by (simp add: round_half_even_def Let_def)
  ultimately have "0 < round_half_even (x / pow2 ?q)" by (meson less_le_trans zero_less_one)
  then show ?thesis using x by (simp add: round53_def Let_def)
qed

lemma fl_pos: "pow2 (- 1000) \<le> x \<Longrightarrow> (\<exists>r > 0. fl x = Num r) \<or> fl x = Inf True"
  using round53_pos[of x] by (auto simp: fl_def Let_def)

subsection \<open>The relative error of a \<open>double\<close>\<close>

lemma round_half_even_err: "\<bar>of_int (round_half_even m) - m\<bar> \<le> 1 / 2"
proof -
  have "of_int \<lfloor>m\<rfloor> \<le> m" "m < of_int \<lfloor>m\<rfloor> + 1" by linarith+
  then show ?thesis by (auto simp: round_half_even_def Let_def abs_le_iff)
qed

lemma round53_err:
  assumes "pow2 (- 1000) \<le> x"
  shows "\<bar>round53 x - x\<bar> \<le> x / 2 ^ 53"
proof -
  have x: "0 < x" using assms pow2_pos[of "- 1000"] by linarith
  let ?e = "exponent x"
  let ?q = "?e - 52"
  have e: "- 1000 \<le> ?e"
  proof (rule ccontr)
    assume "\<not> - 1000 \<le> ?e"
    then have "pow2 (?e + 1) \<le> pow2 (- 1000)" by (intro pow2_mono) simp
    then show False using exponent_bounds(2)[OF x] assms by linarith
  qed
  define P where "P = pow2 ?q"
  have P: "0 < P" by (simp add: P_def)
  have Px: "P * 2 ^ 52 \<le> x"
    using pow2_add[of ?q 52] exponent_bounds(1)[OF x] by (simp add: P_def pow2_def)
  define r where "r = (of_int (round_half_even (x / P)) :: rat)"
  have r: "round53 x = r * P" using x e by (simp add: round53_def max_def Let_def r_def P_def)
  have "r * P - x = (r - x / P) * P" using P by (simp add: left_diff_distrib)
  then have "\<bar>r * P - x\<bar> = \<bar>r - x / P\<bar> * P" using P by (simp add: abs_mult)
  also have "\<dots> \<le> 1 / 2 * P"
    unfolding r_def by (rule mult_right_mono[OF round_half_even_err]) (use P in simp)
  finally show ?thesis using Px unfolding r by simp
qed

lemma fl_err:
  assumes "pow2 (- 1000) \<le> x" and "x \<le> 2 ^ 1000"
  obtains y where "fl x = Num y" "\<bar>y - x\<bar> \<le> x / 2 ^ 53"
proof -
  have x: "0 < x" using assms(1) pow2_pos[of "- 1000"] by linarith
  have err: "\<bar>round53 x - x\<bar> \<le> x / 2 ^ 53" by (rule round53_err[OF assms(1)])
  have "x / 2 ^ 53 \<le> x" using x by (simp add: divide_le_eq)
  then have "\<bar>round53 x\<bar> \<le> 2 * x" using err x by linarith
  also have "\<dots> \<le> 2 * 2 ^ 1000" using assms(2) by simp
  also have "\<dots> < pow2 1024" by (simp add: pow2_def)
  finally show thesis using that[of "round53 x"] err by (simp add: fl_def)
qed

lemma tiny: "1 / 2 ^ 100 \<le> x \<Longrightarrow> pow2 (- 1000) \<le> (x :: rat)"
proof -
  assume "1 / 2 ^ 100 \<le> x"
  moreover have "pow2 (- 1000) \<le> pow2 (- 100)" by (rule pow2_mono) simp
  ultimately show ?thesis by (simp add: pow2_def)
qed

lemma fl_near:
  assumes "1 / 2 ^ 100 \<le> x" and "x \<le> 2 ^ 100"
  obtains y where "fl x = Num y" "y \<le> x + x / 2 ^ 53" "x - x / 2 ^ 53 \<le> y"
proof -
  have "(2 :: rat) ^ 100 \<le> 2 ^ 1000" by (rule power_increasing) simp_all
  then have "x \<le> 2 ^ 1000" using assms(2) by (rule order_trans[rotated])
  then obtain y where "fl x = Num y" "\<bar>y - x\<bar> \<le> x / 2 ^ 53"
    using fl_err[OF tiny[OF assms(1)]] by blast
  moreover from this(2) have "y \<le> x + x / 2 ^ 53" "x - x / 2 ^ 53 \<le> y" by linarith+
  ultimately show thesis using that by blast
qed

end
