(* ===== verification/Bullet.thy ===== *)
theory Bullet
  imports MacHeaders Binary64
begin

text \<open>
  The demand estimator of one UE: \<open>BulletTrigger\<close> of \<open>contrib/nr/model/bullet-trigger.h\<close> and
  \<open>bullet-trigger.cc\<close>, which runs once per slot. It records what the MAC saw in the slot, detects
  traffic that has arrived from the buffer reports and the grants between them, keeps the estimate of
  the arrivals per slot, and turns both into the proactive buffer size the scheduler plans with.

  The functions of the C++ mathematical library and the normal quantile of Boost are parameters
  (\<open>libm\<close>). An \<open>int\<close> is an unbounded integer whose accumulations are checked by \<open>i32\<close>. A \<open>deque\<close> read
  out of its bounds is undefined. The frequency analysis (\<open>fft\<close>, \<open>ProfileTraffic\<close>) and the
  Holt-Winters functions are not called by the processor and are not modelled.
\<close>

record libm =
  lm_exp :: "fp \<Rightarrow> fp"
  lm_erf :: "fp \<Rightarrow> fp"
  lm_sqrt :: "fp \<Rightarrow> fp"
  lm_pow :: "fp \<Rightarrow> fp \<Rightarrow> fp"
  lm_quantile :: "fp \<Rightarrow> fp"

subsection \<open>OnlineGaussianEstimator\<close>

record estimator =
  est_mean :: fp
  est_M2 :: fp
  est_n :: int
  est_recent :: "fp list"

definition OnlineGaussianEstimator :: estimator where
  "OnlineGaussianEstimator =
     \<lparr>est_mean = Num 0, est_M2 = Num 1, est_n = 0, est_recent = [Num 0]\<rparr>"

definition add_sample :: "estimator \<Rightarrow> fp \<Rightarrow> estimator" where
  "add_sample e x =
     (let n = est_n e + 1;
          delta = fp_sub x (est_mean e);
          mean = fp_add (est_mean e) (fp_div delta (fp_of_int n));
          M2 = fp_add (est_M2 e) (fp_mul delta (fp_sub x mean));
          recent = (if length (est_recent e) > 50 then tl (est_recent e) else est_recent e)
      in \<lparr>est_mean = mean, est_M2 = M2, est_n = n, est_recent = recent @ [x]\<rparr>)"

definition get_variance :: "estimator \<Rightarrow> fp" where
  "get_variance e = (if est_n e < 2 then Num 1 else fp_div (est_M2 e) (fp_of_int (est_n e - 1)))"

definition get_stddev :: "libm \<Rightarrow> estimator \<Rightarrow> fp" where
  "get_stddev lm e = lm_sqrt lm (get_variance e)"

text \<open>\<open>std::min_element\<close> and \<open>std::max_element\<close>: the first smallest and the first largest.\<close>

definition fp_min_element :: "fp list \<Rightarrow> fp" where
  "fp_min_element xs = foldl (\<lambda>m x. if fp_less x m then x else m) (hd xs) (tl xs)"

definition fp_max_element :: "fp list \<Rightarrow> fp" where
  "fp_max_element xs = foldl (\<lambda>m x. if fp_less m x then x else m) (hd xs) (tl xs)"

definition get_min_recent :: "estimator \<Rightarrow> fp" where
  "get_min_recent e = fp_min_element (est_recent e)"

definition get_max_recent :: "estimator \<Rightarrow> fp" where
  "get_max_recent e = (let r = fp_max_element (est_recent e) in if r = Num 0 then Num 100 else r)"

subsection \<open>State\<close>

record TriggerInput =
  in_sr :: int
  in_bsr :: int
  in_get_bsr :: bool
  in_alloc :: int
  in_ack :: int

record trigger =
  t_rnti :: u16
  t_input :: TriggerInput
  t_proactiveBsr :: int
  t_totalBuffer :: int
  t_startDiff :: fp
  t_estimator :: estimator
  t_betaVal :: fp
  t_zScore :: fp
  t_time_queue :: "int list"
  t_sr_queue :: "int list"
  t_bsr_queue :: "int list"
  t_get_bsr_queue :: "bool list"
  t_alloc_queue :: "int list"
  t_ack_queue :: "int list"
  t_current_slot :: int
  t_sr_slot :: int
  t_bsr_slot :: int
  t_alloc_slot :: int
  t_ack_slot :: int
  t_event :: fp
  t_mode :: int
  t_estimated_arrival :: int
  t_fft_arrival :: int
  t_period_app :: fp
  t_scheduleMode :: int
  t_onPeriod :: bool
  t_avg_arrival :: int
  t_periodStartTime :: fp
  t_periodEndTime :: fp
  t_onPeriodLength :: fp
  t_offPeriodLength :: fp
  t_slotDemandMap :: "(int \<times> int) list"
  t_slotErrorMap :: "(int \<times> int) list"
  t_recentGranted :: int
  t_confidentBsr :: int

definition slot_unit :: fp where "slot_unit = fl (5 / 10000)"
definition m_queue_size :: nat where "m_queue_size = 1000"
definition m_initial_input :: nat where "m_initial_input = 50"
definition m_onThreshold :: fp where "m_onThreshold = fl (5 / 1000)"
definition max_sample :: nat where "max_sample = 300"

subsection \<open>Input\<close>

definition pop_front :: "bool \<Rightarrow> 'a list \<Rightarrow> 'a list" where
  "pop_front b q = (if b then tl q else q)"

definition InputVariableTracer :: "trigger \<Rightarrow> int \<Rightarrow> int \<Rightarrow> int \<Rightarrow> bool \<Rightarrow> int \<Rightarrow> int \<Rightarrow> trigger" where
  "InputVariableTracer t current_time sr bsr get_bsr alloc ack =
     (let full = length (t_time_queue t @ [current_time]) > m_queue_size
      in t\<lparr>t_time_queue := pop_front full (t_time_queue t @ [current_time]),
           t_sr_queue := pop_front full (t_sr_queue t @ [sr]),
           t_bsr_queue := pop_front full (t_bsr_queue t @ [bsr]),
           t_get_bsr_queue := pop_front full (t_get_bsr_queue t @ [get_bsr]),
           t_alloc_queue := pop_front full (t_alloc_queue t @ [alloc]),
           t_ack_queue := pop_front full (t_ack_queue t @ [ack])\<rparr>)"

definition InputParameterTracer :: "trigger \<Rightarrow> int \<Rightarrow> int \<Rightarrow> int \<Rightarrow> int \<Rightarrow> trigger" where
  "InputParameterTracer t sr_slot bsr_slot alloc_slot ack_slot =
     t\<lparr>t_sr_slot := sr_slot, t_bsr_slot := bsr_slot, t_alloc_slot := alloc_slot,
       t_ack_slot := ack_slot,
       t_sr_queue := t_sr_queue t @ replicate m_initial_input 0,
       t_bsr_queue := t_bsr_queue t @ replicate m_initial_input 0,
       t_get_bsr_queue := t_get_bsr_queue t @ replicate m_initial_input False,
       t_time_queue := t_time_queue t @ replicate m_initial_input 0,
       t_alloc_queue := t_alloc_queue t @ replicate m_initial_input 0,
       t_ack_queue := t_ack_queue t @ replicate m_initial_input 0\<rparr>"

definition GetCurrentSlot :: "fp \<Rightarrow> fp" where
  "GetCurrentSlot time = fp_div time slot_unit"

definition MacRxTracer :: "trigger \<Rightarrow> u32 \<Rightarrow> u16 \<Rightarrow> trigger" where
  \<comment> \<open>\<open>int += uint32_t\<close>: the sum is a \<open>uint32_t\<close>, converted back to \<open>int\<close>\<close>
  "MacRxTracer t sz rnti =
     (if rnti = t_rnti t
      then t\<lparr>t_input := (t_input t)\<lparr>in_alloc := sint (of_int (in_alloc (t_input t)) + sz :: u32)\<rparr>\<rparr>
      else t)"

definition GetProactiveBSR :: "trigger \<Rightarrow> int" where
  "GetProactiveBSR t = t_proactiveBsr t"

definition GetConfidentBSR :: "trigger \<Rightarrow> int" where
  "GetConfidentBSR t = t_confidentBsr t"

definition SetScheduleMode :: "trigger \<Rightarrow> int \<Rightarrow> trigger" where
  "SetScheduleMode t scheduleMode = t\<lparr>t_scheduleMode := scheduleMode\<rparr>"

definition SetBeta :: "libm \<Rightarrow> trigger \<Rightarrow> fp \<Rightarrow> trigger" where
  "SetBeta lm t betaVal = t\<lparr>t_betaVal := betaVal, t_zScore := lm_quantile lm betaVal\<rparr>"

subsection \<open>Distributions\<close>

definition exponential_cdf :: "libm \<Rightarrow> fp \<Rightarrow> fp \<Rightarrow> fp" where
  "exponential_cdf lm x scale = fp_sub (Num 1) (lm_exp lm (fp_div (fp_neg x) scale))"

definition normal_cdf :: "libm \<Rightarrow> fp \<Rightarrow> fp \<Rightarrow> fp \<Rightarrow> fp" where
  "normal_cdf lm x mu sigma =
     fp_mul (fl (1 / 2)) (fp_add (Num 1)
       (lm_erf lm (fp_div (fp_sub x mu) (fp_mul sigma (lm_sqrt lm (Num 2))))))"

definition truncated_normal_cdf :: "libm \<Rightarrow> fp \<Rightarrow> fp \<Rightarrow> fp \<Rightarrow> fp \<Rightarrow> fp \<Rightarrow> fp" where
  "truncated_normal_cdf lm x mu sigma lower_bound upper_bound =
     (let cdf_value = normal_cdf lm x mu sigma;
          cdf_lower = normal_cdf lm lower_bound mu sigma;
          cdf_upper = normal_cdf lm upper_bound mu sigma;
          cdf_value = fp_div (fp_sub cdf_value cdf_lower) (fp_sub cdf_upper cdf_lower)
      in if fp_less cdf_value (Num 0) then Num 0 else cdf_value)"

subsection \<open>DetectArrival\<close>

definition dq_at :: "'a list \<Rightarrow> int \<Rightarrow> 'a res" where
  "dq_at q i = (if 0 \<le> i \<and> i < int (length q) then Inr (q ! nat i) else Inl Undefined)"

definition level_bytes :: "int \<Rightarrow> int" where
  \<comment> \<open>\<open>static_cast<int>(FromLevelToBytes(level))\<close>; the argument becomes a \<open>uint8_t\<close>\<close>
  "level_bytes level = uint (FromLevelToBytes (of_int level))"

text \<open>The search for the last report: the first index from 2 on with a report or a request.\<close>

fun last_report :: "trigger \<Rightarrow> int list \<Rightarrow> int res" where
  "last_report t [] = Inr 1"
| "last_report t (i # is) =
     (let n = int (length (t_get_bsr_queue t)) in
      bindE (dq_at (t_get_bsr_queue t) (n - i)) (\<lambda>g.
      if g then Inr i
      else bindE (dq_at (t_sr_queue t) (n - i - t_bsr_slot t + t_sr_slot t)) (\<lambda>s.
           if s > 0 then Inr i else last_report t is)))"

fun alloc_total :: "trigger \<Rightarrow> int \<Rightarrow> int list \<Rightarrow> int res" where
  "alloc_total t acc [] = Inr acc"
| "alloc_total t acc (i # is) =
     (let temp_index = int (length (t_get_bsr_queue t)) - i - 1 in
      bindE (dq_at (t_time_queue t) temp_index) (\<lambda>_.
      bindE (dq_at (t_alloc_queue t) temp_index) (\<lambda>a.
      bindE (i32 (acc + a)) (\<lambda>acc. alloc_total t acc is))))"

text \<open>The result: the state, the arrival and the slots it covers.\<close>

definition DetectArrival :: "trigger \<Rightarrow> (trigger \<times> int \<times> int) res" where
  "DetectArrival t =
     bindE (dq_at (t_sr_queue t) (int (length (t_sr_queue t)) - 1)) (\<lambda>sr.
     bindE (dq_at (t_get_bsr_queue t) (int (length (t_get_bsr_queue t)) - 1)) (\<lambda>g.
     let arrival = (if sr = 1 then 50 else 0) in
     if \<not> g then Inr (t, arrival, 0)
     else
       let curr_queue_size = int (length (t_get_bsr_queue t));
           queue_range = min 100 curr_queue_size in
       bindE (last_report t [2..queue_range - 1]) (\<lambda>last_bsr_index.
       bindE (alloc_total t 0 [0..last_bsr_index - 2]) (\<lambda>alloc_sum.
       let t = t\<lparr>t_recentGranted := alloc_sum\<rparr> in
       bindE (dq_at (t_bsr_queue t) (curr_queue_size - 1)) (\<lambda>curr_bsr.
       bindE (dq_at (t_bsr_queue t) (curr_queue_size - last_bsr_index)) (\<lambda>last_bsr.
       bindE (i32 (level_bytes curr_bsr - level_bytes (max last_bsr 0) + alloc_sum)) (\<lambda>max_arrival.
       let last_bsr_index = max last_bsr_index 1 in
       bindE (i32 (arrival + max_arrival)) (\<lambda>arrival.
       \<comment> \<open>the trace that the code prints reads this entry\<close>
       bindE (dq_at (t_time_queue t)
               (curr_queue_size - last_bsr_index - t_bsr_slot t - t_alloc_slot t)) (\<lambda>_.
         Inr (t, arrival, last_bsr_index))))))))))"


subsection \<open>Processor\<close>

text \<open>A \<open>std::map\<close>: the entries in ascending order of their keys.\<close>

fun map_set :: "int \<Rightarrow> int \<Rightarrow> (int \<times> int) list \<Rightarrow> (int \<times> int) list" where
  "map_set k v [] = [(k, v)]"
| "map_set k v ((j, w) # r) =
     (if k < j then (k, v) # (j, w) # r else if k = j then (k, v) # r else (j, w) # map_set k v r)"

text \<open>The on-period, from the arrival of the slot (the code up to \<open>timeGap\<close>).\<close>

definition start_period :: "trigger \<Rightarrow> fp \<Rightarrow> bool \<Rightarrow> trigger" where
  "start_period t now get_bsr =
     (let startDiff = (if \<not> get_bsr then fp_mul (fp_of_int (t_sr_slot t)) slot_unit
                       else fp_mul (fp_of_int (t_bsr_slot t)) slot_unit);
          periodLength = fp_sub now (t_periodStartTime t);
          t = (if t_periodStartTime t \<noteq> Num 0
               then t\<lparr>t_offPeriodLength := fp_add (fp_mul (fl (1 / 4)) periodLength)
                                             (fp_mul (fl (3 / 4)) (t_offPeriodLength t)),
                      t_estimator := add_sample (t_estimator t) periodLength\<rparr>
               else t)
      in t\<lparr>t_startDiff := startDiff, t_periodStartTime := fp_sub now startDiff\<rparr>)"

definition end_period :: "trigger \<Rightarrow> trigger res" where
  "end_period t =
     (let periodLength = fp_sub (t_periodEndTime t) (t_periodStartTime t) in
      bindE (fp_to_int (fp_div (fp_of_int (t_avg_arrival t)) (fp_div periodLength slot_unit))) (\<lambda>avg.
      bindE (if t_estimated_arrival t = 0 then Inr avg
             else fp_to_int (fp_add (fp_mul (fl (2 / 10)) (fp_of_int avg))
                                    (fp_mul (fl (8 / 10)) (fp_of_int (t_estimated_arrival t)))))
        (\<lambda>est.
        Inr (t\<lparr>t_onPeriod := False,
               t_onPeriodLength := fp_add (fp_mul (fl (2 / 10)) periodLength)
                                          (fp_mul (fl (8 / 10)) (t_onPeriodLength t)),
               t_estimated_arrival := est, t_avg_arrival := 0,
               t_periodStartTime := fp_sub (t_periodEndTime t)
                 (fp_mul (fp_of_int (t_bsr_slot t)) slot_unit)\<rparr>))))"

definition track_period :: "trigger \<Rightarrow> fp \<Rightarrow> bool \<Rightarrow> int \<Rightarrow> trigger res" where
  "track_period t now get_bsr arrival =
     (if arrival > 0 then
        let t = (if \<not> t_onPeriod t then start_period t now get_bsr else t) in
        bindE (i32 (t_avg_arrival t + arrival)) (\<lambda>avg.
          Inr (t\<lparr>t_avg_arrival := avg, t_periodEndTime := now, t_onPeriod := True\<rparr>))
      else if t_onPeriod t then
        if fp_less m_onThreshold (fp_sub now (t_periodEndTime t)) then end_period t else Inr t
      else if t_scheduleMode t = 5 then
        bindE (fp_to_int (fp_mul (fl (8 / 10)) (fp_of_int (t_estimated_arrival t)))) (\<lambda>est.
          Inr (t\<lparr>t_estimated_arrival := est\<rparr>))
      else Inr t)"

definition event_of :: "libm \<Rightarrow> trigger \<Rightarrow> fp \<Rightarrow> fp" where
  "event_of lm t now =
     (let timeGap = fp_sub now (t_periodStartTime t);
          event = (if t_onPeriod t
            then if fp_less (exponential_cdf lm timeGap (t_onPeriodLength t)) (fl (8 / 10))
                 then Num 1 else Num 0
            else truncated_normal_cdf lm timeGap (est_mean (t_estimator t))
                   (get_stddev lm (t_estimator t)) (get_min_recent (t_estimator t))
                   (get_max_recent (t_estimator t)))
      in if fp_less event (Num 0) then Num 0 else event)"

definition proactive_demand :: "trigger \<Rightarrow> bool \<Rightarrow> fp \<Rightarrow> int res" where
  "proactive_demand t get_bsr event =
     (let expected = fp_mul event (fp_of_int (t_estimated_arrival t)) in
      if t_onPeriod t \<and> \<not> get_bsr then
        bindE (fp_to_int (fp_add (fp_of_int (t_proactiveBsr t)) expected)) (\<lambda>p.
        bindE (i32 (t_bsr_slot t * t_estimated_arrival t)) (\<lambda>cap.
          Inr (if p > cap then cap else p)))
      else fp_to_int expected)"

definition mode_override :: "trigger \<Rightarrow> int \<Rightarrow> int" where
  "mode_override t p =
     (if t_scheduleMode t = 1 then 2000
      else if t_scheduleMode t = 0 \<or> t_scheduleMode t = 4 then 0
      else if t_scheduleMode t = 3 then p
      else if t_scheduleMode t = 5 then t_estimated_arrival t
      else if t_scheduleMode t = 6 then 50000
      else p)"

text \<open>
  The statistics behind the confident demand: the mean and the deviation of the most recent entries
  of \<open>slotDemandMap\<close>, newest first; both zero up to ten of them.
\<close>

definition recent_values :: "(int \<times> int) list \<Rightarrow> int list" where
  "recent_values m = map snd (take max_sample (rev m))"

definition mean_dev :: "libm \<Rightarrow> int list \<Rightarrow> fp \<times> fp" where
  "mean_dev lm values =
     (if length values > 10 then
        let n = fp_of_int (int (length values));
            mean = fp_div (foldl (\<lambda>sum v. fp_add sum (fp_of_int v)) (Num 0) values) n;
            squaredSum = foldl (\<lambda>sum v. fp_add sum (lm_pow lm (fp_sub (fp_of_int v) mean) (Num 2)))
                           (Num 0) values
        in (mean, lm_sqrt lm (fp_div squaredSum n))
      else (Num 0, Num 0))"

definition confident_demand :: "libm \<Rightarrow> trigger \<Rightarrow> int \<Rightarrow> int \<Rightarrow> int res" where
  "confident_demand lm t demand identifiedDemand =
     (let (mean, standardDeviation) = mean_dev lm (recent_values (t_slotDemandMap t)) in
      bindE (fp_to_int mean) (\<lambda>m.
      bindE (fp_to_int (fp_mul (t_zScore t) standardDeviation)) (\<lambda>d.
      bindE (i32 (demand - m)) (\<lambda>c.
      bindE (i32 (c - d)) (\<lambda>c. Inr (max c identifiedDemand))))))"

definition update_confidence :: "libm \<Rightarrow> trigger \<Rightarrow> int \<Rightarrow> int \<Rightarrow> bool \<Rightarrow> trigger res" where
  "update_confidence lm t bsr sr get_bsr =
     (let identifiedDemand = level_bytes bsr in
      bindE (i32 (t_proactiveBsr t + identifiedDemand)) (\<lambda>demand.
      let t = t\<lparr>t_slotDemandMap := map_set (t_current_slot t) demand (t_slotDemandMap t)\<rparr> in
      if sr \<noteq> 0 \<or> get_bsr then
        let reportedDelay = (if sr \<noteq> 0 then t_sr_slot t else t_bsr_slot t);
            reportedSlot = t_current_slot t - reportedDelay in
        case map_of (t_slotDemandMap t) reportedSlot of
          None \<Rightarrow> Inr t
        | Some demanded \<Rightarrow>
            bindE (i32 (level_bytes bsr + t_recentGranted t)) (\<lambda>granted.
            bindE (i32 (demanded - max granted 0)) (\<lambda>error.
            bindE (confident_demand lm t demand identifiedDemand) (\<lambda>c.
              Inr (t\<lparr>t_slotErrorMap := map_set reportedSlot error (t_slotErrorMap t),
                     t_confidentBsr := c\<rparr>))))
      else Inr t))"

definition Processor :: "libm \<Rightarrow> fp \<Rightarrow> trigger \<Rightarrow> trigger res" where
  "Processor lm now t =
     (let inp = t_input t; sr = in_sr inp; bsr = in_bsr inp; get_bsr = in_get_bsr inp in
      bindE (fp_to_int (GetCurrentSlot now)) (\<lambda>slot.
      let t = InputVariableTracer (t\<lparr>t_current_slot := slot\<rparr>) slot sr bsr get_bsr
                (in_alloc inp) (in_ack inp) in
      bindE (DetectArrival t) (\<lambda>(t, arrival, arrival_slot).
      let t = t\<lparr>t_fft_arrival := arrival\<rparr> in
      bindE (track_period t now get_bsr arrival) (\<lambda>t.
      let event = event_of lm t now in
      bindE (proactive_demand t get_bsr event) (\<lambda>p.
      let t = t\<lparr>t_event := event, t_proactiveBsr := mode_override t p,
                t_mode := (if t_onPeriod t then 1 else 0), t_period_app := event\<rparr> in
      bindE (update_confidence lm t bsr sr get_bsr) (\<lambda>t.
        Inr (t\<lparr>t_input := (t_input t)\<lparr>in_sr := 0, in_get_bsr := False, in_alloc := 0,
                                       in_ack := 0\<rparr>\<rparr>)))))))"

text \<open>
  A new trigger. The two members without an initialiser, \<open>m_recentGranted\<close> and \<open>m_confidentBsr\<close>, have
  arbitrary values, which are arguments. The constructor ends with a first run of the processor.
\<close>

definition new_trigger :: "u16 \<Rightarrow> int \<Rightarrow> int \<Rightarrow> int \<Rightarrow> int \<Rightarrow> int \<Rightarrow> int \<Rightarrow> trigger" where
  "new_trigger rnti sr_slot bsr_slot alloc_slot ack_slot recentGranted confidentBsr =
     InputParameterTracer
       \<lparr>t_rnti = rnti,
        t_input = \<lparr>in_sr = 0, in_bsr = 0, in_get_bsr = False, in_alloc = 0, in_ack = 0\<rparr>,
        t_proactiveBsr = 0, t_totalBuffer = 0, t_startDiff = Num 0,
        t_estimator = OnlineGaussianEstimator, t_betaVal = Num 0, t_zScore = Num 0,
        t_time_queue = [], t_sr_queue = [], t_bsr_queue = [], t_get_bsr_queue = [],
        t_alloc_queue = [], t_ack_queue = [], t_current_slot = 0, t_sr_slot = 0, t_bsr_slot = 0,
        t_alloc_slot = 0, t_ack_slot = 0, t_event = Num 0, t_mode = 0, t_estimated_arrival = 0,
        t_fft_arrival = 0, t_period_app = Num 0, t_scheduleMode = 0, t_onPeriod = False,
        t_avg_arrival = 0, t_periodStartTime = Num 0, t_periodEndTime = Num 0,
        t_onPeriodLength = Num 0, t_offPeriodLength = Num 0, t_slotDemandMap = [],
        t_slotErrorMap = [], t_recentGranted = recentGranted, t_confidentBsr = confidentBsr\<rparr>
       sr_slot bsr_slot alloc_slot ack_slot"

definition BulletTrigger :: "libm \<Rightarrow> fp \<Rightarrow> u16 \<Rightarrow> int \<Rightarrow> int \<Rightarrow> int \<Rightarrow> int \<Rightarrow> int \<Rightarrow> int \<Rightarrow> trigger res" where
  "BulletTrigger lm now rnti sr_slot bsr_slot alloc_slot ack_slot recentGranted confidentBsr =
     Processor lm now
       (new_trigger rnti sr_slot bsr_slot alloc_slot ack_slot recentGranted confidentBsr)"


subsection \<open>The queues\<close>

text \<open>The six queues run in parallel: one entry per slot, between 50 and 1000 of them.\<close>

definition queues_ok :: "trigger \<Rightarrow> bool" where
  "queues_ok t \<longleftrightarrow> (let n = length (t_time_queue t) in
     m_initial_input \<le> n \<and> n \<le> m_queue_size \<and> length (t_sr_queue t) = n \<and>
     length (t_bsr_queue t) = n \<and> length (t_get_bsr_queue t) = n \<and>
     length (t_alloc_queue t) = n \<and> length (t_ack_queue t) = n)"

lemma queues_ok_new: "queues_ok (new_trigger rnti sr_slot bsr_slot alloc_slot ack_slot r c)"
  by (simp add: queues_ok_def new_trigger_def InputParameterTracer_def m_queue_size_def
      m_initial_input_def)

lemma queues_ok_input: "queues_ok t \<Longrightarrow> queues_ok (InputVariableTracer t ct sr bsr g al ak)"
  by (auto simp: queues_ok_def InputVariableTracer_def pop_front_def Let_def m_queue_size_def
      m_initial_input_def)

text \<open>The later phases of the processor leave the queues alone.\<close>

definition same_queues :: "trigger \<Rightarrow> trigger \<Rightarrow> bool" where
  "same_queues t u \<longleftrightarrow> t_time_queue u = t_time_queue t \<and> t_sr_queue u = t_sr_queue t \<and>
     t_bsr_queue u = t_bsr_queue t \<and> t_get_bsr_queue u = t_get_bsr_queue t \<and>
     t_alloc_queue u = t_alloc_queue t \<and> t_ack_queue u = t_ack_queue t \<and>
     t_bsr_slot u = t_bsr_slot t \<and> t_scheduleMode u = t_scheduleMode t"

lemma same_queues_trans: "same_queues t u \<Longrightarrow> same_queues u v \<Longrightarrow> same_queues t v"
  by (simp add: same_queues_def)

lemma same_queues_ok: "same_queues t u \<Longrightarrow> queues_ok t \<Longrightarrow> queues_ok u"
  by (simp add: same_queues_def queues_ok_def)

lemma DetectArrival_same: "DetectArrival t = Inr (u, a, s) \<Longrightarrow> same_queues t u"
proof -
  assume d: "DetectArrival t = Inr (u, a, s)"
  obtain sr where sr: "dq_at (t_sr_queue t) (int (length (t_sr_queue t)) - 1) = Inr sr"
    using d by (cases "dq_at (t_sr_queue t) (int (length (t_sr_queue t)) - 1)") (simp_all add: DetectArrival_def)
  obtain g where g: "dq_at (t_get_bsr_queue t) (int (length (t_get_bsr_queue t)) - 1) = Inr g"
    using d sr by (cases "dq_at (t_get_bsr_queue t) (int (length (t_get_bsr_queue t)) - 1)")
      (simp_all add: DetectArrival_def)
  have "\<exists>x. u = t\<lparr>t_recentGranted := x\<rparr>" if g
    using d sr g that unfolding DetectArrival_def Let_def by (fastforce simp: bindE_Inr_iff)
  moreover have "u = t" if "\<not> g"
    using d sr g that unfolding DetectArrival_def Let_def by simp
  ultimately show ?thesis by (cases g) (auto simp: same_queues_def)
qed

lemma start_period_same: "same_queues t (start_period t now g)"
  by (simp add: start_period_def Let_def same_queues_def)

lemma end_period_same: "end_period t = Inr u \<Longrightarrow> same_queues t u"
  by (auto simp: end_period_def Let_def same_queues_def res_simps)

lemma track_period_same: "track_period t now g a = Inr u \<Longrightarrow> same_queues t u"
  using start_period_same[of t now g] end_period_same[of t u]
  by (auto simp: track_period_def Let_def same_queues_def res_simps split: if_splits)

lemma update_confidence_shape:
  assumes "update_confidence lm t b s g = Inr u"
  shows "\<exists>d e c. u = t\<lparr>t_slotDemandMap := d\<rparr> \<or>
    u = t\<lparr>t_slotDemandMap := d, t_slotErrorMap := e, t_confidentBsr := c\<rparr>"
proof (cases "i32 (t_proactiveBsr t + level_bytes b)")
  case (Inl e)
  with assms show ?thesis by (simp add: update_confidence_def)
next
  case (Inr x)
  let ?m = "map_set (t_current_slot t) x (t_slotDemandMap t)"
  let ?k = "t_current_slot t - (if s \<noteq> 0 then t_sr_slot t else t_bsr_slot t)"
  show ?thesis
  proof (cases "(s \<noteq> 0 \<or> g) \<and> map_of ?m ?k \<noteq> None")
    case False
    then have "u = t\<lparr>t_slotDemandMap := ?m\<rparr>"
      using assms Inr by (auto simp: update_confidence_def Let_def split: if_splits)
    then show ?thesis by blast
  next
    case True
    then obtain y where y: "map_of ?m ?k = Some y" by blast
    have "\<exists>e c. u = t\<lparr>t_slotDemandMap := ?m, t_slotErrorMap := e, t_confidentBsr := c\<rparr>"
      using assms True Inr y unfolding update_confidence_def Let_def
      by (cases "s = 0") (fastforce simp: bindE_Inr_iff)+
    then show ?thesis by blast
  qed
qed

lemma update_confidence_same: "update_confidence lm t b s g = Inr u \<Longrightarrow> same_queues t u"
  by (drule update_confidence_shape) (auto simp: same_queues_def)

lemma Processor_phases:
  assumes "Processor lm now t = Inr v"
  obtains slot t1 a s t2 t3 p t4 where
    "t1 = InputVariableTracer (t\<lparr>t_current_slot := slot\<rparr>) slot (in_sr (t_input t)) (in_bsr (t_input t))
       (in_get_bsr (t_input t)) (in_alloc (t_input t)) (in_ack (t_input t))"
    "DetectArrival t1 = Inr (t2, a, s)"
    "track_period (t2\<lparr>t_fft_arrival := a\<rparr>) now (in_get_bsr (t_input t)) a = Inr t3"
    "proactive_demand t3 (in_get_bsr (t_input t)) (event_of lm t3 now) = Inr p"
    "update_confidence lm (t3\<lparr>t_event := event_of lm t3 now, t_proactiveBsr := mode_override t3 p,
       t_mode := (if t_onPeriod t3 then 1 else 0), t_period_app := event_of lm t3 now\<rparr>)
       (in_bsr (t_input t)) (in_sr (t_input t)) (in_get_bsr (t_input t)) = Inr t4"
    "v = t4\<lparr>t_input := (t_input t4)\<lparr>in_sr := 0, in_get_bsr := False, in_alloc := 0, in_ack := 0\<rparr>\<rparr>"
  using assms unfolding Processor_def Let_def by (auto simp: res_simps split: prod.splits)

lemma queues_ok_Processor:
  assumes "queues_ok t" and "Processor lm now t = Inr v"
  shows "queues_ok v"
proof -
  from assms(2) obtain slot t1 a s t2 t3 p t4 where ph:
    "t1 = InputVariableTracer (t\<lparr>t_current_slot := slot\<rparr>) slot (in_sr (t_input t)) (in_bsr (t_input t))
       (in_get_bsr (t_input t)) (in_alloc (t_input t)) (in_ack (t_input t))"
    "DetectArrival t1 = Inr (t2, a, s)"
    "track_period (t2\<lparr>t_fft_arrival := a\<rparr>) now (in_get_bsr (t_input t)) a = Inr t3"
    "update_confidence lm (t3\<lparr>t_event := event_of lm t3 now, t_proactiveBsr := mode_override t3 p,
       t_mode := (if t_onPeriod t3 then 1 else 0), t_period_app := event_of lm t3 now\<rparr>)
       (in_bsr (t_input t)) (in_sr (t_input t)) (in_get_bsr (t_input t)) = Inr t4"
    "v = t4\<lparr>t_input := (t_input t4)\<lparr>in_sr := 0, in_get_bsr := False, in_alloc := 0, in_ack := 0\<rparr>\<rparr>"
    by (rule Processor_phases)
  have "queues_ok t1" unfolding ph(1)
    by (rule queues_ok_input) (use assms(1) in \<open>simp add: queues_ok_def\<close>)
  then have "queues_ok t2" using DetectArrival_same[OF ph(2)] same_queues_ok by blast
  then have "queues_ok (t2\<lparr>t_fft_arrival := a\<rparr>)" by (simp add: queues_ok_def)
  then have "queues_ok t3" using track_period_same[OF ph(3)] same_queues_ok by blast
  then have "queues_ok (t3\<lparr>t_event := event_of lm t3 now, t_proactiveBsr := mode_override t3 p,
       t_mode := (if t_onPeriod t3 then 1 else 0), t_period_app := event_of lm t3 now\<rparr>)"
    by (simp add: queues_ok_def)
  then have "queues_ok t4" using update_confidence_same[OF ph(4)] same_queues_ok by blast
  then show ?thesis unfolding ph(5) by (simp add: queues_ok_def)
qed

text \<open>
  What happens to a trigger between two runs of its processor: the MAC reports a reception, the
  scheduler a buffer level or a request, and the mode or the level of confidence is set.
\<close>

inductive trigger_step :: "libm \<Rightarrow> trigger \<Rightarrow> trigger \<Rightarrow> bool" for lm where
  slot: "Processor lm now t = Inr t' \<Longrightarrow> trigger_step lm t t'"
| rx: "trigger_step lm t (MacRxTracer t sz rnti)"
| report: "trigger_step lm t (t\<lparr>t_input := (t_input t)\<lparr>in_bsr := b, in_get_bsr := True\<rparr>\<rparr>)"
| request: "trigger_step lm t (t\<lparr>t_input := (t_input t)\<lparr>in_sr := 1\<rparr>\<rparr>)"
| configure: "trigger_step lm t (SetBeta lm (SetScheduleMode t m) b)"

lemma queues_ok_step: "trigger_step lm t t' \<Longrightarrow> queues_ok t \<Longrightarrow> queues_ok t'"
proof (induction rule: trigger_step.induct)
  case (slot now t t')
  then show ?case by (auto intro: queues_ok_Processor)
qed (simp_all add: queues_ok_def MacRxTracer_def SetBeta_def SetScheduleMode_def)

text \<open>
  The history a trigger decides on is bounded and consistent: whatever is reported to it and
  however many slots it runs, its six queues always have the same number of entries, one per slot,
  at least the 50 it starts with and at most 1000.
\<close>
lemma trigger_history_bounded:
  assumes "(trigger_step lm)\<^sup>*\<^sup>* (new_trigger rnti srs bsrs als acks r c) t"
  shows "50 \<le> length (t_time_queue t) \<and> length (t_time_queue t) \<le> 1000 \<and>
    length (t_sr_queue t) = length (t_time_queue t) \<and>
    length (t_bsr_queue t) = length (t_time_queue t) \<and>
    length (t_get_bsr_queue t) = length (t_time_queue t) \<and>
    length (t_alloc_queue t) = length (t_time_queue t) \<and>
    length (t_ack_queue t) = length (t_time_queue t)"
proof -
  have "queues_ok t"
    using assms by (induction rule: rtranclp_induct) (auto intro: queues_ok_new queues_ok_step)
  then show ?thesis
    by (simp add: queues_ok_def Let_def m_queue_size_def m_initial_input_def)
qed

definition demo_libm :: libm where
  "demo_libm = \<lparr>lm_exp = (\<lambda>_. Num 1), lm_erf = (\<lambda>x. if x = Num 0 then x else Num 1), lm_sqrt = id, lm_pow = (\<lambda>x y. x),
     lm_quantile = id\<rparr>"

lemma trigger_history_bounded_witness:
  "50 \<le> length (t_time_queue (MacRxTracer (new_trigger 3 4 8 3 5 0 0) 120 3))"
proof -
  have "(trigger_step demo_libm)\<^sup>*\<^sup>* (new_trigger 3 4 8 3 5 0 0)
      (MacRxTracer (new_trigger 3 4 8 3 5 0 0) 120 3)"
    by (rule r_into_rtranclp, rule rx)
  from trigger_history_bounded[OF this] show ?thesis by blast
qed


subsection \<open>The detected arrival\<close>

lemma dq_at_ok [simp]: "0 \<le> i \<Longrightarrow> i < int (length q) \<Longrightarrow> dq_at q i = Inr (q ! nat i)"
  by (simp add: dq_at_def)

text \<open>The entry of \<open>k\<close> slots ago, the current one being 1.\<close>

definition ago :: "'a list \<Rightarrow> int \<Rightarrow> 'a" where
  "ago q k = q ! nat (int (length q) - k)"

lemma last_report_hits:
  assumes q: "queues_ok t" and i: "2 \<le> i" "i \<le> L" "L \<le> m"
    and n: "L - t_sr_slot t + t_bsr_slot t \<le> int (length (t_time_queue t))"
    and sl: "0 < t_bsr_slot t - t_sr_slot t"
    and L: "ago (t_get_bsr_queue t) L"
    and before: "\<forall>k. i \<le> k \<and> k < L \<longrightarrow> \<not> ago (t_get_bsr_queue t) k \<and>
      ago (t_sr_queue t) (k + t_bsr_slot t - t_sr_slot t) \<le> 0"
  shows "last_report t [i..m] = Inr L"
  using i before
proof (induction "nat (L - i)" arbitrary: i)
  case 0
  then have "i = L" by simp
  moreover have "[L..m] = L # [L + 1..m]" using 0 by (simp add: upto_rec1)
  ultimately show ?case using 0 q n sl L by (simp add: Let_def queues_ok_def ago_def)
next
  case (Suc k)
  have len: "length (t_get_bsr_queue t) = length (t_time_queue t)"
    "length (t_sr_queue t) = length (t_time_queue t)"
    using q by (auto simp: queues_ok_def Let_def)
  have i: "i < L" using Suc.hyps(2) by simp
  have g: "dq_at (t_get_bsr_queue t) (int (length (t_time_queue t)) - i) = Inr False"
    using Suc.prems(1,4) i n sl len by (simp add: ago_def)
  have s: "\<exists>s. dq_at (t_sr_queue t) (int (length (t_time_queue t)) - i - t_bsr_slot t + t_sr_slot t) = Inr s
      \<and> s \<le> 0"
    using Suc.prems(1,4) i n sl len by (simp add: ago_def algebra_simps)
  have "last_report t [i + 1..m] = Inr L"
    using Suc.hyps(1)[of "i + 1"] Suc.hyps(2) Suc.prems i by simp
  then show ?case using i Suc.prems(3) g s len by (auto simp: upto_rec1[of i m] Let_def)
qed

lemma alloc_total_sum:
  assumes "queues_ok t" and "\<forall>i \<in> set is. 0 \<le> i \<and> i < int (length (t_time_queue t))"
    and "\<forall>a \<in> set (t_alloc_queue t). 0 \<le> a \<and> a \<le> 2 ^ 20"
    and "0 \<le> acc" and "acc + int (length is) * 2 ^ 20 < 2 ^ 31"
  shows "alloc_total t acc is = Inr (acc + (\<Sum>i\<leftarrow>is. ago (t_alloc_queue t) (i + 1)))"
  using assms(2,4,5)
proof (induction "is" arbitrary: acc)
  case Nil
  then show ?case by simp
next
  case (Cons i "is")
  have len: "length (t_get_bsr_queue t) = length (t_time_queue t)"
    "length (t_alloc_queue t) = length (t_time_queue t)"
    using assms(1) by (auto simp: queues_ok_def Let_def)
  let ?a = "t_alloc_queue t ! nat (int (length (t_time_queue t)) - i - 1)"
  have "nat (int (length (t_time_queue t)) - i - 1) < length (t_alloc_queue t)"
    using Cons.prems(1) len by (simp add: nat_less_iff)
  then have a: "0 \<le> ?a" "?a \<le> 2 ^ 20" using assms(3) nth_mem by blast+
  have "i32 (acc + ?a) = Inr (acc + ?a)"
    by (rule i32_ok) (use Cons.prems(2,3) a in \<open>simp_all add: algebra_simps\<close>)
  moreover have "alloc_total t (acc + ?a) is =
      Inr (acc + ?a + (\<Sum>i\<leftarrow>is. ago (t_alloc_queue t) (i + 1)))"
    using Cons.IH[of "acc + ?a"] Cons.prems a by (simp add: algebra_simps)
  ultimately show ?case
    using Cons.prems(1) len by (simp add: Let_def ago_def algebra_simps)
qed

lemma level_bytes_range: "0 \<le> level_bytes l \<and> level_bytes l \<le> 150000"
proof -
  have "FromLevelToBytes k \<le> 150000" for k
  proof (cases "unat k > length lookupVector - 1")
    case True
    then show ?thesis by (simp add: FromLevelToBytes_def)
  next
    case False
    have "\<forall>x \<in> set lookupVector. x \<le> 150000" by (simp add: lookupVector_def)
    moreover have "unat k < length lookupVector" using False by (simp add: lookupVector_def)
    ultimately show ?thesis using False by (simp add: FromLevelToBytes_def)
  qed
  from this[of "of_int l"] show ?thesis by (simp add: level_bytes_def word_le_def)
qed

text \<open>
  C2. The arrival that a buffer report reveals is accounted for exactly: when the last report was
  \<open>L\<close> slots ago (and no request since), what has arrived is the reported buffer, minus the buffer
  reported then, plus everything received in the slots since; a scheduling request in the slot adds 50 bytes. The
  computation reads no queue out of bounds.
\<close>
theorem DetectArrival_accounts:
  assumes "queues_ok t" and "t_sr_slot t = 4" and "t_bsr_slot t = 8" and "t_alloc_slot t = 3"
    and "2 \<le> L" and "L \<le> 99" and "L + 11 \<le> int (length (t_time_queue t))"
    and "ago (t_get_bsr_queue t) 1" and "ago (t_get_bsr_queue t) L"
    and "\<forall>k. 2 \<le> k \<and> k < L \<longrightarrow> \<not> ago (t_get_bsr_queue t) k \<and> ago (t_sr_queue t) (k + 4) \<le> 0"
    and "\<forall>a \<in> set (t_alloc_queue t). 0 \<le> a \<and> a \<le> 2 ^ 20"
  shows "DetectArrival t = Inr (t\<lparr>t_recentGranted := (\<Sum>i\<leftarrow>[1..L - 1]. ago (t_alloc_queue t) i)\<rparr>,
    (if ago (t_sr_queue t) 1 = 1 then 50 else 0) + level_bytes (ago (t_bsr_queue t) 1) -
    level_bytes (max (ago (t_bsr_queue t) L) 0) + (\<Sum>i\<leftarrow>[1..L - 1]. ago (t_alloc_queue t) i), L)"
proof -
  let ?n = "length (t_time_queue t)" and ?S = "\<Sum>i\<leftarrow>[1..L - 1]. ago (t_alloc_queue t) i"
  have len: "length (t_get_bsr_queue t) = ?n" "length (t_sr_queue t) = ?n"
      "length (t_bsr_queue t) = ?n" "length (t_alloc_queue t) = ?n"
    using assms(1) by (auto simp: queues_ok_def Let_def)
  have report: "last_report t [2..min 100 (int ?n) - 1] = Inr L"
    by (rule last_report_hits) (use assms in \<open>auto simp: algebra_simps\<close>)
  have shift: "(\<Sum>i\<leftarrow>[0..L - 2]. ago (t_alloc_queue t) (i + 1)) = ?S"
  proof -
    have "map (\<lambda>i. i + 1) [0..L - 2] = [1..L - 1]"
      using assms(5) by (intro nth_equalityI) auto
    then show ?thesis by (simp flip: map_map[unfolded comp_def, of "ago (t_alloc_queue t)" "\<lambda>i. i + 1"])
  qed
  have total: "alloc_total t 0 [0..L - 2] = Inr ?S"
    using alloc_total_sum[OF assms(1), of "[0..L - 2]" 0] assms(5-7,11) shift by auto
  have S: "0 \<le> ?S \<and> ?S \<le> 99 * 2 ^ 20"
  proof -
    have b: "0 \<le> ago (t_alloc_queue t) i \<and> ago (t_alloc_queue t) i \<le> 2 ^ 20" if "i \<in> {1..L - 1}" for i
    proof -
      have "nat (int ?n - i) < length (t_alloc_queue t)"
        using that assms(7) len(4) by (simp add: nat_less_iff)
      then show ?thesis using assms(11) len(4) nth_mem unfolding ago_def by metis
    qed
    have "?S = sum (ago (t_alloc_queue t)) {1..L - 1}"
      by (simp add: sum_list_distinct_conv_sum_set)
    moreover have "sum (ago (t_alloc_queue t)) {1..L - 1} \<le> of_nat (card {1..L - 1}) * 2 ^ 20"
      by (rule sum_bounded_above) (use b in blast)
    moreover have "0 \<le> sum (ago (t_alloc_queue t)) {1..L - 1}"
      by (rule sum_nonneg) (use b in blast)
    ultimately show ?thesis using assms(5,6) by auto
  qed
  note lv = level_bytes_range[of "ago (t_bsr_queue t) 1"] level_bytes_range[of "max (ago (t_bsr_queue t) L) 0"]
  have i1: "i32 (level_bytes (ago (t_bsr_queue t) 1) - level_bytes (max (ago (t_bsr_queue t) L) 0) + ?S) =
      Inr (level_bytes (ago (t_bsr_queue t) 1) - level_bytes (max (ago (t_bsr_queue t) L) 0) + ?S)"
    by (rule i32_ok) (use lv S in auto)
  have i2: "i32 (r + (level_bytes (ago (t_bsr_queue t) 1) -
      level_bytes (max (ago (t_bsr_queue t) L) 0) + ?S)) = Inr (r + (level_bytes (ago (t_bsr_queue t) 1) -
      level_bytes (max (ago (t_bsr_queue t) L) 0) + ?S))" if "r = 0 \<or> r = 50" for r
    by (rule i32_ok) (use lv S that in auto)
  show ?thesis
    using assms(2-9) len report total i1 i2[of 0] i2[of 50]
    by (simp add: DetectArrival_def Let_def ago_def max_absorb1 algebra_simps split: if_splits)
qed

definition demo_trigger :: trigger where
  "demo_trigger = (new_trigger 3 4 8 3 5 0 0)\<lparr>t_time_queue := replicate 60 0,
     t_sr_queue := replicate 60 0, t_bsr_queue := replicate 57 5 @ [9, 9, 12],
     t_get_bsr_queue := replicate 57 False @ [True, False, True],
     t_alloc_queue := replicate 58 7 @ [400, 300], t_ack_queue := replicate 60 0\<rparr>"

theorem DetectArrival_accounts_witness:
  "\<exists>u. DetectArrival demo_trigger = Inr (u, 384 - 142 + 700, 3)"
proof -
  have *: "ago (t_get_bsr_queue demo_trigger) 1" "ago (t_get_bsr_queue demo_trigger) 3"
    "\<not> ago (t_get_bsr_queue demo_trigger) 2" "ago (t_sr_queue demo_trigger) 6 = 0"
    "ago (t_sr_queue demo_trigger) 1 = 0" "ago (t_bsr_queue demo_trigger) 1 = 12"
    "ago (t_bsr_queue demo_trigger) 3 = 9" "ago (t_alloc_queue demo_trigger) 1 = 300"
    "ago (t_alloc_queue demo_trigger) 2 = 400"
    by (simp_all add: demo_trigger_def ago_def nth_append)
  have q: "queues_ok demo_trigger"
    by (simp add: queues_ok_def demo_trigger_def m_queue_size_def m_initial_input_def)
  have k: "\<forall>k. 2 \<le> k \<and> k < 3 \<longrightarrow> \<not> ago (t_get_bsr_queue demo_trigger) k \<and>
      ago (t_sr_queue demo_trigger) (k + 4) \<le> 0"
  proof (intro allI impI)
    fix k :: int assume "2 \<le> k \<and> k < 3"
    then have "k = 2" by simp
    then show "\<not> ago (t_get_bsr_queue demo_trigger) k \<and> ago (t_sr_queue demo_trigger) (k + 4) \<le> 0"
      using * by simp
  qed
  have "level_bytes 12 = 384" "level_bytes (max 9 0) = 142"
    by (simp_all add: level_bytes_def FromLevelToBytes_def lookupVector_def)
  moreover have "[1..3 - 1] = [1, 2 :: int]" by (simp add: upto_rec1)
  moreover have "\<forall>a \<in> set (t_alloc_queue demo_trigger). 0 \<le> a \<and> a \<le> 2 ^ 20"
    by (simp add: demo_trigger_def)
  ultimately show ?thesis
    using DetectArrival_accounts[OF q _ _ _ _ _ _ *(1,2) k] *
    by (simp add: demo_trigger_def new_trigger_def InputParameterTracer_def)
qed

end
