(* ===== verification/BulletDemand.thy ===== *)
theory BulletDemand
  imports Bullet
begin

text \<open>
  What the demand estimator of \<open>contrib/nr/model/bullet-trigger.cc\<close> promises to the scheduler, and
  where it does not keep what its comments say: the limits of the proactive buffer size, the confident
  demand, and the first buffer report of a UE.
\<close>

subsection \<open>The limits of the estimate\<close>

lemma proactive_demand_cap:
  assumes "proactive_demand t False event = Inr p" and "t_onPeriod t"
  shows "p \<le> t_bsr_slot t * t_estimated_arrival t"
  using assms by (auto simp: proactive_demand_def Let_def res_simps split: if_splits)

definition fixed_demand :: "int \<Rightarrow> int option" where
  "fixed_demand m = (if m = 1 then Some 2000 else if m = 0 \<or> m = 4 then Some 0
     else if m = 6 then Some 50000 else None)"

lemma update_confidence_demand:
  "update_confidence lm t b s g = Inr u \<Longrightarrow> t_proactiveBsr u = t_proactiveBsr t \<and>
    t_estimated_arrival u = t_estimated_arrival t \<and> t_onPeriod u = t_onPeriod t"
  by (drule update_confidence_shape) auto

text \<open>
  C3. What the scheduler is given in a slot: with the proactive grants off (modes 0 and 4) nothing,
  with the fixed grants of modes 1 and 6 exactly 2000 and 50000 bytes, and with the estimate, in a
  slot of an on-period without a buffer report, at most the arrivals that the time to the next report can bring.
\<close>
theorem Processor_limits_demand:
  assumes "Processor lm now t = Inr v"
  shows "(\<forall>d. fixed_demand (t_scheduleMode t) = Some d \<longrightarrow> GetProactiveBSR v = d) \<and>
    (t_scheduleMode t \<in> {2, 3} \<and> t_onPeriod v \<and> \<not> in_get_bsr (t_input t) \<longrightarrow>
       GetProactiveBSR v \<le> t_bsr_slot t * t_estimated_arrival v)"
proof -
  from assms obtain slot t1 a s t2 t3 p t4 where ph:
    "t1 = InputVariableTracer (t\<lparr>t_current_slot := slot\<rparr>) slot (in_sr (t_input t)) (in_bsr (t_input t))
       (in_get_bsr (t_input t)) (in_alloc (t_input t)) (in_ack (t_input t))"
    "DetectArrival t1 = Inr (t2, a, s)"
    "track_period (t2\<lparr>t_fft_arrival := a\<rparr>) now (in_get_bsr (t_input t)) a = Inr t3"
    "proactive_demand t3 (in_get_bsr (t_input t)) (event_of lm t3 now) = Inr p"
    "update_confidence lm (t3\<lparr>t_event := event_of lm t3 now, t_proactiveBsr := mode_override t3 p,
       t_mode := (if t_onPeriod t3 then 1 else 0), t_period_app := event_of lm t3 now\<rparr>)
       (in_bsr (t_input t)) (in_sr (t_input t)) (in_get_bsr (t_input t)) = Inr t4"
    "v = t4\<lparr>t_input := (t_input t4)\<lparr>in_sr := 0, in_get_bsr := False, in_alloc := 0, in_ack := 0\<rparr>\<rparr>"
    by (rule Processor_phases)
  have m1: "t_scheduleMode t1 = t_scheduleMode t" "t_bsr_slot t1 = t_bsr_slot t"
    unfolding ph(1) by (simp_all add: InputVariableTracer_def Let_def)
  have m3: "t_scheduleMode t3 = t_scheduleMode t" "t_bsr_slot t3 = t_bsr_slot t"
    using DetectArrival_same[OF ph(2)] track_period_same[OF ph(3)] m1 by (simp_all add: same_queues_def)
  have v: "t_proactiveBsr v = mode_override t3 p" "t_estimated_arrival v = t_estimated_arrival t3"
      "t_onPeriod v = t_onPeriod t3"
    using update_confidence_demand[OF ph(5)] unfolding ph(6) by simp_all
  have "t_onPeriod t3 \<and> \<not> in_get_bsr (t_input t) \<longrightarrow> p \<le> t_bsr_slot t3 * t_estimated_arrival t3"
    using proactive_demand_cap[of t3 "event_of lm t3 now" p] ph(4) by auto
  then show ?thesis
    using v m3 by (auto simp: GetProactiveBSR_def mode_override_def fixed_demand_def split: if_splits)
qed

text \<open>A run in which nothing was reported since the start.\<close>

lemma demo_cdf:
  "truncated_normal_cdf demo_libm (Num 0) (est_mean OnlineGaussianEstimator)
     (get_stddev demo_libm OnlineGaussianEstimator) (get_min_recent OnlineGaussianEstimator)
     (get_max_recent OnlineGaussianEstimator) = Num 0"
  by (simp add: truncated_normal_cdf_def normal_cdf_def demo_libm_def OnlineGaussianEstimator_def
      get_stddev_def get_variance_def get_min_recent_def get_max_recent_def fp_min_element_def
      fp_max_element_def fp_sub_def Let_def)

lemma demo_event:
  "\<not> t_onPeriod t \<Longrightarrow> t_periodStartTime t = Num 0 \<Longrightarrow> t_estimator t = OnlineGaussianEstimator \<Longrightarrow>
    event_of demo_libm t (Num 0) = Num 0"
  by (simp add: event_of_def Let_def demo_cdf fp_sub_def)

lemma quiet_input:
  assumes "queues_ok t" and "in_sr (t_input t) = 0" and "\<not> in_get_bsr (t_input t)"
  shows "DetectArrival (InputVariableTracer t ct (in_sr (t_input t)) b (in_get_bsr (t_input t)) al ak) =
    Inr (InputVariableTracer t ct (in_sr (t_input t)) b (in_get_bsr (t_input t)) al ak, 0, 0)"
proof -
  have *: "\<exists>q'. pop_front c (q @ [x]) = q' @ [x]" if "q \<noteq> []" for c and q :: "'a list" and x
    using that by (cases q) (auto simp: pop_front_def)
  let ?c = "length (t_time_queue t @ [ct]) > m_queue_size"
  have "t_sr_queue t \<noteq> []" "t_get_bsr_queue t \<noteq> []"
    using assms(1) by (auto simp: queues_ok_def Let_def m_initial_input_def)
  then obtain q r where "pop_front ?c (t_sr_queue t @ [0]) = q @ [0]"
      "pop_front ?c (t_get_bsr_queue t @ [False]) = r @ [False]"
    using *[of "t_sr_queue t" ?c 0] *[of "t_get_bsr_queue t" ?c False] by blast
  then have
    "t_sr_queue (InputVariableTracer t ct (in_sr (t_input t)) b (in_get_bsr (t_input t)) al ak) = q @ [0]"
    "t_get_bsr_queue (InputVariableTracer t ct (in_sr (t_input t)) b (in_get_bsr (t_input t)) al ak) = r @ [False]"
    using assms(2,3) by (simp_all add: InputVariableTracer_def Let_def)
  then show ?thesis by (simp add: DetectArrival_def dq_at_def Let_def)
qed

lemma slot_unit_zero: "fp_div (Num 0) slot_unit = Num 0"
proof -
  have "pow2 (- 1000) \<le> pow2 (- 11)" by (rule pow2_mono) simp
  then have "pow2 (- 1000) \<le> 5 / 10000" by (simp add: pow2_def)
  then show ?thesis using fl_pos[of "5 / 10000"] by (auto simp: slot_unit_def)
qed

lemma quiet_Processor:
  assumes "queues_ok t" and "in_sr (t_input t) = 0" and "\<not> in_get_bsr (t_input t)"
    and "in_bsr (t_input t) = 0" and "\<not> t_onPeriod t" and "t_periodStartTime t = Num 0"
    and "t_estimator t = OnlineGaussianEstimator" and "t_scheduleMode t \<in> {0, 1}"
    and "t_estimated_arrival t = 0"
  shows "\<exists>v. Processor demo_libm (Num 0) t = Inr v"
proof -
  let ?t = "t\<lparr>t_current_slot := 0\<rparr>"
  let ?u = "InputVariableTracer ?t 0 (in_sr (t_input t)) (in_bsr (t_input t)) (in_get_bsr (t_input t))
      (in_alloc (t_input t)) (in_ack (t_input t))"
  have slot: "fp_to_int (GetCurrentSlot (Num 0)) = Inr 0"
    by (simp add: GetCurrentSlot_def slot_unit_zero rat_trunc_def)
  have "DetectArrival ?u = Inr (?u, 0, 0)"
    using quiet_input[of ?t 0 "in_bsr (t_input t)"] assms(1-3) by (simp add: queues_ok_def)
  moreover have "event_of demo_libm (?u\<lparr>t_fft_arrival := 0\<rparr>) (Num 0) = Num 0"
    by (rule demo_event) (use assms in \<open>simp_all add: InputVariableTracer_def Let_def\<close>)
  moreover have "\<exists>w. update_confidence lm w' 0 0 False = Inr w" if "t_proactiveBsr w' \<in> {0, 2000}" for lm w'
    using that by (auto simp: update_confidence_def Let_def level_bytes_def FromLevelToBytes_def
        lookupVector_def i32_def)
  ultimately show ?thesis
    using slot assms
    by (auto simp: Processor_def Let_def track_period_def InputVariableTracer_def
        proactive_demand_def mode_override_def fp_of_int_def rat_trunc_def bindE_Inr_iff)
qed

lemma quiet_BulletTrigger: "\<exists>t. BulletTrigger demo_libm (Num 0) rnti 4 8 3 5 r c = Inr t"
  unfolding BulletTrigger_def
  by (rule quiet_Processor[OF queues_ok_new]) (simp_all add: new_trigger_def InputParameterTracer_def)

theorem Processor_limits_demand_witness:
  "\<exists>v. Processor demo_libm (Num 0) (SetScheduleMode (new_trigger 3 4 8 3 5 0 0) 1) = Inr v \<and>
     GetProactiveBSR v = 2000"
proof -
  have "\<exists>v. Processor demo_libm (Num 0) (SetScheduleMode (new_trigger 3 4 8 3 5 0 0) 1) = Inr v"
  proof (rule quiet_Processor)
    show "queues_ok (SetScheduleMode (new_trigger 3 4 8 3 5 0 0) 1)"
      using queues_ok_new[of 3 4 8 3 5 0 0] by (simp add: queues_ok_def SetScheduleMode_def)
  qed (simp_all add: SetScheduleMode_def new_trigger_def InputParameterTracer_def)
  then obtain v where v: "Processor demo_libm (Num 0) (SetScheduleMode (new_trigger 3 4 8 3 5 0 0) 1) = Inr v"
    by blast
  from Processor_limits_demand[OF v] v show ?thesis
    by (auto simp: SetScheduleMode_def fixed_demand_def)
qed

subsection \<open>The confident demand\<close>

text \<open>
  The error of the estimates does not enter the confident demand: the code collects the error of
  every reported slot in \<open>slotErrorMap\<close>, but takes the mean and the deviation of \<open>slotDemandMap\<close>,
  so whatever errors were recorded before, the confident demand is the same.
\<close>
lemma confident_ignores_errors:
  "bindE (update_confidence lm (t\<lparr>t_slotErrorMap := errors\<rparr>) bsr sr get_bsr)
      (\<lambda>u. Inr (GetConfidentBSR u, GetProactiveBSR u)) =
   bindE (update_confidence lm t bsr sr get_bsr) (\<lambda>u. Inr (GetConfidentBSR u, GetProactiveBSR u))"
proof (cases "i32 (t_proactiveBsr t + level_bytes bsr)")
  case (Inl e)
  then show ?thesis by (simp add: update_confidence_def)
next
  case (Inr x)
  have same: "confident_demand lm (t\<lparr>t_slotErrorMap := errors, t_slotDemandMap := d\<rparr>) a b =
      confident_demand lm (t\<lparr>t_slotDemandMap := d\<rparr>) a b" for d a b
    by (simp add: confident_demand_def)
  show ?thesis
  proof (cases "sr \<noteq> 0 \<or> get_bsr")
    case False
    with Inr show ?thesis
      by (simp add: update_confidence_def Let_def GetConfidentBSR_def GetProactiveBSR_def)
  next
    case True
    then show ?thesis
      by (cases "sr = 0";
          cases "map_of (map_set (t_current_slot t) x (t_slotDemandMap t)) (t_current_slot t - t_sr_slot t)";
          cases "map_of (map_set (t_current_slot t) x (t_slotDemandMap t)) (t_current_slot t - t_bsr_slot t)")
        (simp_all add: update_confidence_def Let_def GetConfidentBSR_def GetProactiveBSR_def Inr same
          bindE_assoc)
  qed
qed

subsection \<open>The first report of a UE\<close>

lemma last_report_runs_out:
  assumes q: "queues_ok t" and n: "int (length (t_time_queue t)) \<le> 102"
    and p: "t_sr_slot t = 4" "t_bsr_slot t = 8"
    and none: "\<forall>k \<ge> 2. k \<le> int (length (t_time_queue t)) \<longrightarrow> \<not> ago (t_get_bsr_queue t) k"
      "\<forall>k \<ge> 6. k \<le> int (length (t_time_queue t)) \<longrightarrow> ago (t_sr_queue t) k \<le> 0"
    and i: "2 \<le> i" "i \<le> int (length (t_time_queue t)) - 3"
    and m: "m = min 100 (int (length (t_time_queue t))) - 1"
  shows "last_report t [i..m] = Inl Undefined"
  using i
proof (induction "nat (int (length (t_time_queue t)) - 3 - i)" arbitrary: i)
  case 0
  have len: "length (t_get_bsr_queue t) = length (t_time_queue t)"
    "length (t_sr_queue t) = length (t_time_queue t)" "50 \<le> length (t_time_queue t)"
    using q by (auto simp: queues_ok_def Let_def m_initial_input_def)
  have i: "i = int (length (t_time_queue t)) - 3" using 0 by simp
  then have c: "[i..m] = i # [i + 1..m]" using m n len by (simp add: upto_rec1)
  have "\<not> t_get_bsr_queue t ! nat (int (length (t_time_queue t)) - i)"
    using none(1)[rule_format, of i] 0 i len by (simp add: ago_def)
  then show ?case using i p len unfolding c by (simp add: Let_def dq_at_def)
next
  case (Suc k)
  have len: "length (t_get_bsr_queue t) = length (t_time_queue t)"
    "length (t_sr_queue t) = length (t_time_queue t)"
    using q by (auto simp: queues_ok_def Let_def)
  have lt: "i < int (length (t_time_queue t)) - 3" using Suc.hyps(2) by simp
  then have c: "[i..m] = i # [i + 1..m]" using m n by (simp add: upto_rec1)
  have "\<not> t_get_bsr_queue t ! nat (int (length (t_time_queue t)) - i)"
    using none(1)[rule_format, of i] Suc.prems lt len by (simp add: ago_def)
  moreover have "t_sr_queue t ! nat (int (length (t_time_queue t)) - i - 8 + 4) \<le> 0"
    using none(2)[rule_format, of "i + 4"] Suc.prems lt len by (simp add: ago_def algebra_simps)
  moreover have "last_report t [i + 1..m] = Inl Undefined"
    using Suc.hyps(1)[of "i + 1"] Suc.hyps(2) Suc.prems lt by simp
  ultimately show ?case using Suc.prems lt p len unfolding c by (simp add: Let_def dq_at_def)
qed

text \<open>
  C40. A buffer report that comes in the first 52 slots of a UE (a history of at most 102 entries, 50 of them from the start), with the
  4 and 8 slots that a request and a report take by default, is undefined in C++ when the history holds no earlier report and no
  request six or more slots back: nothing stops the search, and it goes on until it reads the request queue at index -1. A request in the last
  five slots does not help, because the search does not look at them; an older one does stop it.
\<close>
theorem first_report_undefined:
  assumes "queues_ok t" and "t_sr_slot t = 4" and "t_bsr_slot t = 8"
    and "length (t_time_queue t) \<le> 102" and "ago (t_get_bsr_queue t) 1"
    and "\<forall>k \<ge> 2. k \<le> int (length (t_time_queue t)) \<longrightarrow> \<not> ago (t_get_bsr_queue t) k"
    and "\<forall>k \<ge> 6. k \<le> int (length (t_time_queue t)) \<longrightarrow> ago (t_sr_queue t) k \<le> 0"
  shows "DetectArrival t = Inl Undefined"
proof -
  have len: "length (t_get_bsr_queue t) = length (t_time_queue t)"
    "length (t_sr_queue t) = length (t_time_queue t)" "50 \<le> length (t_time_queue t)"
    using assms(1) by (auto simp: queues_ok_def Let_def m_initial_input_def)
  have "last_report t [2..min 100 (int (length (t_time_queue t))) - 1] = Inl Undefined"
    by (rule last_report_runs_out[OF assms(1) _ assms(2,3,6,7)]) (use assms(4) len in auto)
  moreover have ne: "t_time_queue t \<noteq> []" using len by auto
  moreover obtain sr where "dq_at (t_sr_queue t) (int (length (t_sr_queue t)) - 1) = Inr sr"
    using len ne by (simp add: dq_at_def)
  moreover have "dq_at (t_get_bsr_queue t) (int (length (t_get_bsr_queue t)) - 1) = Inr True"
    using assms(5) len ne by (simp add: dq_at_def ago_def)
  ultimately show ?thesis using len by (simp add: DetectArrival_def Let_def)
qed

text \<open>The second slot of a UE, a request in the slot before.\<close>

theorem first_report_undefined_witness:
  "DetectArrival (InputVariableTracer (InputVariableTracer (new_trigger 3 4 8 3 5 0 0) 1 1 0 False 0 0) 2 0 6 True 0 0) = Inl Undefined"
proof -
  let ?t = "InputVariableTracer (InputVariableTracer (new_trigger 3 4 8 3 5 0 0) 1 1 0 False 0 0) 2 0 6 True 0 0"
  have f: "t_sr_slot ?t = 4" "t_bsr_slot ?t = 8" "t_sr_queue ?t = replicate 50 0 @ [1, 0]"
      "t_get_bsr_queue ?t = replicate 51 False @ [True]" "length (t_time_queue ?t) = 52"
    by (simp_all add: InputVariableTracer_def new_trigger_def InputParameterTracer_def pop_front_def
        m_queue_size_def m_initial_input_def Let_def replicate_append_same[symmetric]
        numeral_eq_Suc)
  show ?thesis
  proof (rule first_report_undefined)
    show "queues_ok ?t" by (intro queues_ok_input queues_ok_new)
    show "ago (t_get_bsr_queue ?t) 1" by (simp add: f ago_def nth_append)
    show "\<forall>k \<ge> 2. k \<le> int (length (t_time_queue ?t)) \<longrightarrow> \<not> ago (t_get_bsr_queue ?t) k"
      by (auto simp: f ago_def nth_append nat_less_iff)
    show "\<forall>k \<ge> 6. k \<le> int (length (t_time_queue ?t)) \<longrightarrow> ago (t_sr_queue ?t) k \<le> 0"
      by (auto simp: f ago_def nth_append nat_less_iff)
  qed (simp_all add: f)
qed

end
