(* ===== verification/SchedConfig.thy ===== *)
theory SchedConfig
  imports Srs Bullet
begin

text \<open>
  The state of the MAC scheduler and its configuration and report primitives:
  \<open>NrMacSchedulerNs3\<close> of \<open>contrib/nr/model/nr-mac-scheduler-ns3.h\<close> and \<open>.cc\<close>. The map of UEs goes from
  the RNTI to the UE's representation; C++ reaches a UE through shared pointers, all of which are
  looked up by RNTI, so an update of a UE is an update of its entry. What the scheduler asks of its
  surroundings (the clock, the random numbers, the mathematics, the gNB's configuration) is the
  record \<open>env\<close>.
\<close>

record 'r env =
  e_lm :: libm
  e_now :: fp
  e_gi :: "'r get_integer"
  e_numHarqProcess :: u8
  e_numRbPerRbg :: u32
  e_symbolsPerSlot :: u32
  e_recentGranted :: int
  e_confidentBsr :: int

record AllocElem =
  ae_rnti :: u16
  ae_tbs :: u32
  ae_symStart :: u8
  ae_numSym :: u8
  ae_mcs :: u8
  ae_rbgMask :: "u8 list"

record SlotElem =
  se_totUlSym :: u8
  se_ulAllocations :: "AllocElem list"

record RachListElement =
  rach_rnti :: u16
  rach_estimatedSize :: u16

record 'r sched =
  s_ueMap :: "(u16 \<times> UeInfo) list"
  s_triggerMap :: "(u16 \<times> trigger) list"
  s_idealBsrMap :: "(u16 \<times> u32) list"
  s_ulAllocationMap :: "(u64 \<times> SlotElem) list"
  s_fixedMcsDl :: bool
  s_fixedMcsUl :: bool
  s_startMcsDl :: u8
  s_startMcsUl :: u8
  s_dlHarqToRetransmit :: "DlHarqInfo list"
  s_ulHarqToRetransmit :: "UlHarqInfo list"
  s_srList :: "u16 list"
  s_rachList :: "RachListElement list"
  s_bandwidth :: u16
  s_dlCtrlSymbols :: u8
  s_ulCtrlSymbols :: u8
  s_srsCtrlSymbols :: u8
  s_enableSrsInUlSlots :: bool
  s_enableSrsInFSlots :: bool
  s_dlNotchedRbgsMask :: "u8 list"
  s_ulNotchedRbgsMask :: "u8 list"
  s_schedulerSrs :: "'r srs"
  s_srsSlotCounter :: u32
  s_enableHarqReTx :: bool
  s_scheduleMode :: int
  s_betaVal :: fp

text \<open>
  \<open>m_triggerMap[rnti]->\<close>: \<open>operator[]\<close> makes a null pointer of a missing entry, and \<open>Ptr::operator->\<close>
  asserts that its pointer is not null.
\<close>

definition trigger_at :: "u16 \<Rightarrow> (u16 \<times> trigger) list \<Rightarrow> trigger res" where
  "trigger_at rnti m = (case map_of m rnti of None \<Rightarrow> Inl AssertFailed | Some t \<Rightarrow> Inr t)"

lemma trigger_at_Inr_iff [res_simps]: "trigger_at k m = Inr t \<longleftrightarrow> map_of m k = Some t"
  by (simp add: trigger_at_def split: option.splits)

lemma trigger_at_SomeI [simp]: "map_of m k = Some t \<Longrightarrow> trigger_at k m = Inr t"
  by (simp add: trigger_at_def)

definition IdealBsrTracer :: "'r sched \<Rightarrow> u16 \<Rightarrow> u32 \<Rightarrow> 'r sched" where
  "IdealBsrTracer s rnti bufferSize =
     s\<lparr>s_idealBsrMap := AList.update rnti bufferSize (s_idealBsrMap s)\<rparr>"

subsection \<open>Configuration\<close>

definition DoSchedSetMcs :: "'r sched \<Rightarrow> u32 \<Rightarrow> 'r sched" where
  "DoSchedSetMcs s mcs = s\<lparr>s_fixedMcsDl := True, s_fixedMcsUl := True,
     s_startMcsDl := ucast mcs, s_startMcsUl := ucast mcs\<rparr>"

definition DoSchedDlRachInfoReq :: "'r sched \<Rightarrow> RachListElement list \<Rightarrow> 'r sched" where
  "DoSchedDlRachInfoReq s rachList = s\<lparr>s_rachList := rachList\<rparr>"

definition DoCschedCellConfigReq :: "'r sched \<Rightarrow> u16 \<Rightarrow> u16 \<Rightarrow> 'r sched res" where
  "DoCschedCellConfigReq s ulBandwidth dlBandwidth =
     ns_assert (ulBandwidth = dlBandwidth) (Inr (s\<lparr>s_bandwidth := dlBandwidth\<rparr>))"

definition CreateUeRepresentation :: "'r env \<Rightarrow> u16 \<Rightarrow> BeamConfId \<Rightarrow> UeInfo" where
  "CreateUeRepresentation e rnti beamConfId = NrMacSchedulerUeInfo rnti beamConfId (e_numRbPerRbg e)"

definition new_ue :: "'r env \<Rightarrow> 'r sched \<Rightarrow> u16 \<Rightarrow> BeamConfId \<Rightarrow> UeInfo" where
  "new_ue e s rnti beamConfId =
     (let ue = CreateUeRepresentation e rnti beamConfId
      in ue\<lparr>ue_dlHarq := hv_SetMaxSize (ue_dlHarq ue) (e_numHarqProcess e),
            ue_ulHarq := hv_SetMaxSize (ue_ulHarq ue) (e_numHarqProcess e),
            ue_dlMcs := ue_dlMcs ue @ [s_startMcsDl s],
            ue_startMcsDlUe := s_startMcsDl s,
            ue_dlCqi := (ue_dlCqi ue)\<lparr>dlcqi_ri := 1\<rparr>,
            ue_ulMcs := s_startMcsUl s\<rparr>)"

definition DoCschedUeConfigReq :: "'r env \<Rightarrow> 'r sched \<Rightarrow> u16 \<Rightarrow> BeamConfId \<Rightarrow> 'r sched res" where
  "DoCschedUeConfigReq e s rnti beamConfId =
     (case map_of (s_ueMap s) rnti of
        None \<Rightarrow>
          bindE (BulletTrigger (e_lm e) (e_now e) rnti 4 8 3 5 (e_recentGranted e) (e_confidentBsr e))
            (\<lambda>bt.
          let bt = SetBeta (e_lm e) (SetScheduleMode bt (s_scheduleMode s)) (s_betaVal s);
              s = s\<lparr>s_triggerMap := map_emplace rnti bt (s_triggerMap s),
                    s_idealBsrMap := AList.update rnti 0 (s_idealBsrMap s)\<rparr>;
              ue = new_ue e s rnti beamConfId;
              (srs, sched_srs) = AddUe (s_schedulerSrs s) in
          if \<not> po_isValid srs then
            bindE (IncreasePeriodicity (e_gi e) sched_srs (s_ueMap s @ [(rnti, ue)]))
              (\<lambda>(sched_srs, ueMap, ret).
                ns_assert ret (Inr (s\<lparr>s_ueMap := ueMap, s_schedulerSrs := sched_srs\<rparr>)))
          else
            Inr (s\<lparr>s_ueMap := s_ueMap s @ [(rnti, ue\<lparr>ue_srsPeriodicity := po_periodicity srs,
                                                ue_srsOffset := po_offset srs\<rparr>)],
                   s_schedulerSrs := sched_srs\<rparr>))
      | Some ue \<Rightarrow>
          Inr (s\<lparr>s_ueMap := AList.update rnti (ue\<lparr>ue_beamConfId := beamConfId\<rparr>) (s_ueMap s)\<rparr>))"

definition DoCschedUeReleaseReq :: "'r sched \<Rightarrow> u16 \<Rightarrow> 'r sched res" where
  "DoCschedUeReleaseReq s rnti =
     (case map_of (s_ueMap s) rnti of
        None \<Rightarrow> Inl Aborted
      | Some ue \<Rightarrow> Inr (s\<lparr>s_schedulerSrs := RemoveUe (s_schedulerSrs s) (ue_srsOffset ue),
                         s_ueMap := AList.delete rnti (s_ueMap s)\<rparr>))"

definition CreateLC :: "lc_config \<Rightarrow> lc res" where
  "CreateLC config = NrMacSchedulerLC config"

definition CreateLCG :: "lc_config \<Rightarrow> lcg" where
  "CreateLCG config = NrMacSchedulerLCG (conf_lcGroup config)"

text \<open>One channel of the list in one direction: the group is created when it does not exist.\<close>

definition config_dl :: "(u8 \<times> lcg) list \<Rightarrow> lc_config \<Rightarrow> (u8 \<times> lcg) list res" where
  "config_dl m config =
     (let k = conf_lcGroup config;
          m = (if map_of m k = None then map_emplace k (CreateLCG config) m else m) in
      bindE (map_deref k m) (\<lambda>g.
      bindE (CreateLC config) (\<lambda>c.
      bindE (Insert g c) (\<lambda>(g, _). Inr (AList.update k g m)))))"

definition config_ul :: "(u8 \<times> lcg) list \<Rightarrow> lc_config \<Rightarrow> (u8 \<times> lcg) list res" where
  "config_ul m config =
     (let k = conf_lcGroup config;
          m = (if map_of m k = None then map_emplace k (CreateLCG config) m else m) in
      bindE (map_deref k m) (\<lambda>g.
      if NumOfLC g = 0 then
        bindE (CreateLC config) (\<lambda>c.
        bindE (Insert g c) (\<lambda>(g, _). Inr (AList.update k g m)))
      else Inr m))"

definition config_lc :: "UeInfo \<Rightarrow> lc_config \<Rightarrow> UeInfo res" where
  "config_lc ue config =
     bindE (if conf_direction config = DIR_DL \<or> conf_direction config = DIR_BOTH
            then bindE (config_dl (ue_dlLCG ue) config) (\<lambda>m. Inr (ue\<lparr>ue_dlLCG := m\<rparr>))
            else Inr ue) (\<lambda>ue.
     if conf_direction config = DIR_UL \<or> conf_direction config = DIR_BOTH
     then bindE (config_ul (ue_ulLCG ue) config) (\<lambda>m. Inr (ue\<lparr>ue_ulLCG := m\<rparr>))
     else Inr ue)"

definition DoCschedLcConfigReq :: "'r sched \<Rightarrow> u16 \<Rightarrow> lc_config list \<Rightarrow> 'r sched res" where
  "DoCschedLcConfigReq s rnti configs =
     (case map_of (s_ueMap s) rnti of
        None \<Rightarrow> Inl Aborted
      | Some ue \<Rightarrow> bindE (foldE config_lc ue configs) (\<lambda>ue.
                   Inr (s\<lparr>s_ueMap := AList.update rnti ue (s_ueMap s)\<rparr>)))"

definition DoCschedLcReleaseReq :: "'r sched \<Rightarrow> u16 \<Rightarrow> u8 list \<Rightarrow> 'r sched res" where
  "DoCschedLcReleaseReq s rnti lcIds =
     foldE (\<lambda>s lcId. ns_abort_if (map_of (s_ueMap s) rnti = None) (Inr s)) s lcIds"

subsection \<open>Buffer reports\<close>

fun update_containing :: "(u8 \<times> lcg) list \<Rightarrow> rlc_buffer_req \<Rightarrow> (u8 \<times> lcg) list res" where
  "update_containing [] params = Inl FatalError"
| "update_containing ((k, g) # r) params =
     (if Contains g (rbr_lcId params) then bindE (UpdateInfo_rlc g params) (\<lambda>g. Inr ((k, g) # r))
      else bindE (update_containing r params) (\<lambda>r. Inr ((k, g) # r)))"

definition DoSchedDlRlcBufferReq :: "'r sched \<Rightarrow> rlc_buffer_req \<Rightarrow> 'r sched res" where
  "DoSchedDlRlcBufferReq s params =
     (case map_of (s_ueMap s) (rbr_rnti params) of
        None \<Rightarrow> Inl Aborted
      | Some ue \<Rightarrow> bindE (update_containing (ue_dlLCG ue) params) (\<lambda>m.
                   Inr (s\<lparr>s_ueMap := AList.update (rbr_rnti params) (ue\<lparr>ue_dlLCG := m\<rparr>) (s_ueMap s)\<rparr>)))"

datatype MacCeType = BSR | PHR | CRNTI

record MacCeElement =
  ce_rnti :: u16
  ce_type :: MacCeType
  ce_bufferStatus :: "u8 list"

text \<open>The loop body for one of the four groups; the state is the triggers and the groups of the UE.\<close>

definition bsr_group :: "u16 \<Rightarrow> u8 list \<Rightarrow> (u16 \<times> trigger) list \<times> (u8 \<times> lcg) list \<Rightarrow> u8 \<Rightarrow>
    ((u16 \<times> trigger) list \<times> (u8 \<times> lcg) list) res" where
  "bsr_group rnti bufferStatus = (\<lambda>(triggerMap, ulLCG) lcg.
     bindE (vec_at bufferStatus (unat lcg)) (\<lambda>bsrId.
     let bufSize = ucast (FromLevelToBytes bsrId) :: u32 in
     bindE (if lcg = 2
            then bindE (trigger_at rnti triggerMap) (\<lambda>t.
                   Inr (AList.update rnti
                     (t\<lparr>t_input := (t_input t)\<lparr>in_bsr := uint bsrId, in_get_bsr := True\<rparr>\<rparr>)
                     triggerMap))
            else Inr triggerMap) (\<lambda>triggerMap.
     case map_of ulLCG lcg of
       None \<Rightarrow> ns_abort_if (bufSize > 0) (Inr (triggerMap, ulLCG))
     | Some g \<Rightarrow> bindE (UpdateInfo g bufSize) (\<lambda>g. Inr (triggerMap, AList.update lcg g ulLCG)))))"

definition BSRReceivedFromUe :: "'r sched \<Rightarrow> MacCeElement \<Rightarrow> 'r sched res" where
  "BSRReceivedFromUe s bsr =
     ns_assert (ce_type bsr = BSR)
     (case map_of (s_ueMap s) (ce_rnti bsr) of
        None \<Rightarrow> Inl Aborted
      | Some ue \<Rightarrow>
          bindE (foldE (bsr_group (ce_rnti bsr) (ce_bufferStatus bsr)) (s_triggerMap s, ue_ulLCG ue)
                   [0, 1, 2, 3]) (\<lambda>(triggerMap, ulLCG).
            Inr (s\<lparr>s_triggerMap := triggerMap,
                   s_ueMap := AList.update (ce_rnti bsr) (ue\<lparr>ue_ulLCG := ulLCG\<rparr>) (s_ueMap s)\<rparr>)))"

definition DoSchedUlMacCtrlInfoReq :: "'r sched \<Rightarrow> MacCeElement list \<Rightarrow> 'r sched res" where
  "DoSchedUlMacCtrlInfoReq s macCeList =
     foldE (\<lambda>s element. if ce_type element = BSR then BSRReceivedFromUe s element else Inr s)
       s macCeList"

text \<open>A scheduling request is noted once, and told to the trigger of the UE.\<close>

definition DoSchedUlSrInfoReq :: "'r sched \<Rightarrow> u16 list \<Rightarrow> 'r sched res" where
  "DoSchedUlSrInfoReq s srList =
     bindE (foldE (\<lambda>s ue.
         if ue \<notin> set (s_srList s) then
           bindE (trigger_at ue (s_triggerMap s)) (\<lambda>t.
             Inr (s\<lparr>s_srList := s_srList s @ [ue],
                    s_triggerMap := AList.update ue (t\<lparr>t_input := (t_input t)\<lparr>in_sr := 1\<rparr>\<rparr>)
                      (s_triggerMap s)\<rparr>))
         else Inr s) s srList) (\<lambda>s.
     ns_assert (length (s_srList s) \<ge> length srList) (Inr s))"

end
