(* ===== verification/SchedInv.thy ===== *)
theory SchedInv
  imports SchedConfig BulletDemand
begin

text \<open>
  The invariant of the scheduler's state over the configuration and report primitives and the
  periodic runs of the triggers: every UE sits once under its RNTI, with well-formed HARQ vectors and
  channel groups (one channel per uplink group), sounding offsets that do not collide, and a
  trigger of its own whose queues run in parallel.
\<close>

subsection \<open>Well-formed UEs\<close>

definition groups_wf :: "(u8 \<times> lcg) list \<Rightarrow> bool" where
  "groups_wf m \<longleftrightarrow> distinct (map fst m) \<and> (\<forall>(k, g) \<in> set m. lcg_id g = k \<and> lcg_wf g)"

definition ul_groups_wf :: "(u8 \<times> lcg) list \<Rightarrow> bool" where
  "ul_groups_wf m \<longleftrightarrow> groups_wf m \<and> (\<forall>(k, g) \<in> set m. single_lc g)"

definition ue_wf :: "u16 \<Rightarrow> UeInfo \<Rightarrow> bool" where
  "ue_wf k ue \<longleftrightarrow> ue_rnti ue = k \<and> hv_wf (ue_dlHarq ue) \<and> hv_wf (ue_ulHarq ue) \<and>
     groups_wf (ue_dlLCG ue) \<and> ul_groups_wf (ue_ulLCG ue)"

definition same_srs :: "UeInfo \<Rightarrow> UeInfo \<Rightarrow> bool" where
  "same_srs u v \<longleftrightarrow> ue_srsOffset v = ue_srsOffset u \<and> ue_srsPeriodicity v = ue_srsPeriodicity u"

definition sched_wf :: "'r sched \<Rightarrow> bool" where
  "sched_wf s \<longleftrightarrow> distinct (map fst (s_ueMap s)) \<and> (\<forall>(k, ue) \<in> set (s_ueMap s). ue_wf k ue) \<and>
     srs_ok (s_schedulerSrs s) (s_ueMap s) \<and>
     (\<forall>k \<in> fst ` set (s_ueMap s). map_of (s_triggerMap s) k \<noteq> None) \<and>
     (\<forall>(k, t) \<in> set (s_triggerMap s). queues_ok t)"

lemma sched_wfD:
  assumes "sched_wf s" and "map_of (s_ueMap s) k = Some ue"
  shows "ue_wf k ue" and "\<exists>t. map_of (s_triggerMap s) k = Some t \<and> queues_ok t"
proof -
  show "ue_wf k ue" using assms map_of_SomeD[OF assms(2)] by (auto simp: sched_wf_def)
  have "k \<in> fst ` set (s_ueMap s)" using map_of_SomeD[OF assms(2)] by force
  then obtain t where t: "map_of (s_triggerMap s) k = Some t"
    using assms(1) by (auto simp: sched_wf_def)
  then show "\<exists>t. map_of (s_triggerMap s) k = Some t \<and> queues_ok t"
    using assms(1) map_of_SomeD[OF t] by (auto simp: sched_wf_def)
qed

lemma groups_wf_Nil [simp]: "groups_wf []" "ul_groups_wf []"
  by (simp_all add: groups_wf_def ul_groups_wf_def)

lemma groups_wf_get:
  "groups_wf m \<Longrightarrow> map_of m k = Some g \<Longrightarrow> lcg_wf g \<and> lcg_id g = k"
  by (auto simp: groups_wf_def dest!: map_of_SomeD)

lemma ul_groups_wf_get: "ul_groups_wf m \<Longrightarrow> map_of m k = Some g \<Longrightarrow> single_lc g"
  by (auto simp: ul_groups_wf_def dest!: map_of_SomeD)

lemma groups_wf_update:
  "groups_wf m \<Longrightarrow> lcg_wf g \<Longrightarrow> lcg_id g = k \<Longrightarrow> groups_wf (AList.update k g m)"
  using set_AList_update[of k g m] by (fastforce simp: groups_wf_def distinct_update)

lemma ul_groups_wf_update:
  "ul_groups_wf m \<Longrightarrow> lcg_wf g \<Longrightarrow> lcg_id g = k \<Longrightarrow> single_lc g \<Longrightarrow> ul_groups_wf (AList.update k g m)"
  using set_AList_update[of k g m] groups_wf_update[of m g k] by (fastforce simp: ul_groups_wf_def)

lemma map_AList_update_same:
  "map_of m k = Some v \<Longrightarrow> f (k, v') = f (k, v) \<Longrightarrow> map f (AList.update k v' m) = map f m"
  by (induction m) (auto split: if_splits)

lemma srs_ok_update:
  assumes "srs_ok s m" and "map_of m k = Some ue" and "same_srs ue ue'"
  shows "srs_ok s (AList.update k ue' m)"
proof -
  let ?f = "\<lambda>(k :: u16, ue). ue_srsOffset ue"
  have "map ?f (AList.update k ue' m) = map ?f m"
    using map_AList_update_same[OF assms(2), of ?f ue'] assms(3) by (simp add: same_srs_def)
  moreover have "\<forall>(k, u) \<in> set (AList.update k ue' m). ue_srsPeriodicity u = srs_periodicity s"
    using set_AList_update[of k ue' m] assms map_of_SomeD[OF assms(2)]
    by (fastforce simp: srs_ok_def same_srs_def)
  ultimately show ?thesis using assms(1) unfolding srs_ok_def by simp
qed

text \<open>One UE replaced by another with the same sounding parameters.\<close>

lemma sched_wf_ue:
  assumes wf: "sched_wf s" and k: "map_of (s_ueMap s) k = Some ue" and u: "ue_wf k ue'" "same_srs ue ue'"
  shows "sched_wf (s\<lparr>s_ueMap := AList.update k ue' (s_ueMap s)\<rparr>)"
proof -
  have "\<forall>(j, u) \<in> set (AList.update k ue' (s_ueMap s)). ue_wf j u"
    using set_AList_update[of k ue' "s_ueMap s"] wf u(1) by (auto simp: sched_wf_def)
  moreover have "fst ` set (AList.update k ue' (s_ueMap s)) = fst ` set (s_ueMap s)"
    using keys_AList_update[OF k, of ue'] by (metis set_map)
  ultimately show ?thesis
    using wf srs_ok_update[of "s_schedulerSrs s", OF _ k u(2)]
    by (auto simp: sched_wf_def keys_AList_update[OF k])
qed

lemma sched_wf_trigger:
  assumes "sched_wf s" and "queues_ok t"
  shows "sched_wf (s\<lparr>s_triggerMap := AList.update k t (s_triggerMap s)\<rparr>)"
  using assms set_AList_update[of k t "s_triggerMap s"]
  by (auto simp: sched_wf_def map_of_update)

text \<open>The fields that carry no invariant.\<close>

lemma sched_wf_other [simp]:
  "sched_wf (s\<lparr>s_srList := x\<rparr>) = sched_wf s" "sched_wf (s\<lparr>s_rachList := r\<rparr>) = sched_wf s"
  "sched_wf (s\<lparr>s_bandwidth := b\<rparr>) = sched_wf s" "sched_wf (s\<lparr>s_idealBsrMap := i\<rparr>) = sched_wf s"
  "sched_wf (s\<lparr>s_fixedMcsDl := f1, s_fixedMcsUl := f2, s_startMcsDl := m1, s_startMcsUl := m2\<rparr>) =
     sched_wf s"
  by (simp_all add: sched_wf_def)

subsection \<open>Configuration keeps the invariant\<close>

named_theorems sched_intros "operations of the scheduler that keep the invariant"

lemma ue_wf_new: "ue_wf rnti (new_ue e s rnti beam)"
  by (simp add: ue_wf_def new_ue_def CreateUeRepresentation_def NrMacSchedulerUeInfo_def
      hv_wf_SetMaxSize Let_def)

lemma ReassignSrsValue_ues:
  "ReassignSrsValue s m = Inr (s', m') \<Longrightarrow> \<forall>(k, ue) \<in> set m. ue_wf k ue \<Longrightarrow>
     \<forall>(k, ue) \<in> set m'. ue_wf k ue"
proof (induction s m arbitrary: s' m' rule: ReassignSrsValue.induct)
  case (1 s)
  then show ?case by simp
next
  case (2 s k ue r)
  then show ?case
    by (fastforce simp: res_simps Let_def ue_wf_def split: prod.splits)
qed

lemma IncreasePeriodicity_ues:
  "IncreasePeriodicity gi s m = Inr (s', m', b) \<Longrightarrow> \<forall>(k, ue) \<in> set m. ue_wf k ue \<Longrightarrow>
     \<forall>(k, ue) \<in> set m'. ue_wf k ue"
  by (auto simp: IncreasePeriodicity_def Let_def res_simps split: list.splits
      dest!: ReassignSrsValue_ues)

text \<open>The offsets have run out and one more UE is there: the next periodicity has room for all.\<close>

lemma Increase_room:
  assumes "uniform gi" and "srs_ok s m" and "IncreasePeriodicity gi s (m @ [x]) = Inr (s', m', True)"
  shows "srs_ok s' m' \<and> map fst m' = map fst (m @ [x])"
proof -
  let ?p = "next_periodicity (srs_periodicity s)"
  have p: "srs_periodicity s \<in> set StandardPeriodicity" using assms(2) by (simp add: srs_ok_def)
  have "srs_periodicity s \<noteq> 2560"
    using assms(3) by (auto simp: IncreasePeriodicity_def upper_bound_def StandardPeriodicity_def)
  from upper_bound_standard[OF p this] obtain r where
    r: "upper_bound StandardPeriodicity (srs_periodicity s) = ?p # r"
      "?p \<in> set StandardPeriodicity" "srs_periodicity s < ?p" by blast
  have "length (m @ [x]) \<le> unat ?p"
    using srs_ok_length[OF assms(2)] r(3) by (simp add: word_less_nat_alt)
  then obtain s0 s1 m1 where
      "SetStartingPeriodicity gi (s\<lparr>srs_available := []\<rparr>) ?p = Inr s0"
      "ReassignSrsValue s0 (m @ [x]) = Inr (s1, m1)" "srs_ok s1 m1" "map fst m1 = map fst (m @ [x])"
    using reassign_all[OF assms(1) r(2), of "m @ [x]" s] by blast
  then show ?thesis using assms(3) by (simp add: IncreasePeriodicity_def r(1))
qed

lemma sched_wf_new_ue:
  assumes wf: "sched_wf s" and new: "map_of (s_ueMap s) rnti = None" and t: "queues_ok bt"
    and ues: "map fst m = map fst (s_ueMap s) @ [rnti]" "\<forall>(k, ue) \<in> set m. ue_wf k ue" "srs_ok srs m"
  shows "sched_wf (s\<lparr>s_triggerMap := map_emplace rnti bt (s_triggerMap s), s_idealBsrMap := i,
    s_ueMap := m, s_schedulerSrs := srs\<rparr>)"
proof -
  have "fst ` set m = insert rnti (fst ` set (s_ueMap s))"
    using arg_cong[OF ues(1), of set] by simp
  moreover have "distinct (map fst m)" using wf new ues(1) by (auto simp: sched_wf_def map_of_eq_None_iff)
  moreover have "\<forall>(k, t) \<in> set (map_emplace rnti bt (s_triggerMap s)). queues_ok t"
    using wf t by (auto simp: sched_wf_def map_emplace_def)
  ultimately show ?thesis using wf ues(2,3) by (auto simp: sched_wf_def map_of_emplace)
qed

lemma queues_ok_config [simp]:
  "queues_ok (SetBeta lm (SetScheduleMode t m) b) = queues_ok t"
  by (simp add: SetBeta_def SetScheduleMode_def queues_ok_def)

lemma queues_ok_BulletTrigger: "BulletTrigger lm now rnti a b c d g h = Inr t \<Longrightarrow> queues_ok t"
  unfolding BulletTrigger_def by (rule queues_ok_Processor[OF queues_ok_new])

lemma ue_wf_srs [simp]:
  "ue_wf k (ue\<lparr>ue_srsPeriodicity := p, ue_srsOffset := q\<rparr>) = ue_wf k ue"
  "ue_wf k (ue\<lparr>ue_beamConfId := b\<rparr>) = ue_wf k ue"
  by (simp_all add: ue_wf_def)

lemma UeConfig_new:
  assumes "DoCschedUeConfigReq e s rnti beam = Inr s'" and "map_of (s_ueMap s) rnti = None"
  obtains bt i m srs where "queues_ok bt"
    "s' = s\<lparr>s_triggerMap := map_emplace rnti bt (s_triggerMap s), s_idealBsrMap := i,
       s_ueMap := m, s_schedulerSrs := srs\<rparr>"
    "(\<exists>po u. AddUe (s_schedulerSrs s) = (po, srs) \<and> po_isValid po \<and> ue_wf rnti u \<and>
        m = s_ueMap s @ [(rnti, u\<lparr>ue_srsPeriodicity := po_periodicity po, ue_srsOffset := po_offset po\<rparr>)]) \<or>
     (\<exists>u. ue_wf rnti u \<and>
        IncreasePeriodicity (e_gi e) (s_schedulerSrs s) (s_ueMap s @ [(rnti, u)]) = Inr (srs, m, True))"
proof -
  obtain po ss where a: "AddUe (s_schedulerSrs s) = (po, ss)" by fastforce
  obtain bt0 where bt0: "BulletTrigger (e_lm e) (e_now e) rnti 4 8 3 5 (e_recentGranted e) (e_confidentBsr e) = Inr bt0"
    using assms by (auto simp: DoCschedUeConfigReq_def res_simps)
  define bt where "bt = SetBeta (e_lm e) (SetScheduleMode bt0 (s_scheduleMode s)) (s_betaVal s)"
  have q: "queues_ok bt" using queues_ok_BulletTrigger[OF bt0] by (simp add: bt_def)
  define i where "i = AList.update rnti 0 (s_idealBsrMap s)"
  define s1 where "s1 = s\<lparr>s_triggerMap := map_emplace rnti bt (s_triggerMap s), s_idealBsrMap := i\<rparr>"
  let ?u = "new_ue e s1 rnti beam"
  show thesis
  proof (cases "po_isValid po")
    case True
    then have "s' = s1\<lparr>s_ueMap := s_ueMap s @ [(rnti, ?u\<lparr>ue_srsPeriodicity := po_periodicity po,
        ue_srsOffset := po_offset po\<rparr>)], s_schedulerSrs := ss\<rparr>"
      using assms bt0 a by (simp add: DoCschedUeConfigReq_def Let_def bt_def i_def s1_def)
    then show thesis using that[OF q, where i = i and srs = ss] a True ue_wf_new[of rnti e s1 beam] unfolding s1_def by simp blast
  next
    case False
    then have "ss = s_schedulerSrs s" using a by (auto simp: AddUe_def Let_def split: if_splits)
    with False assms bt0 a obtain srs m where
      "IncreasePeriodicity (e_gi e) (s_schedulerSrs s) (s_ueMap s @ [(rnti, ?u)]) = Inr (srs, m, True)"
      "s' = s1\<lparr>s_ueMap := m, s_schedulerSrs := srs\<rparr>"
      by (auto simp: DoCschedUeConfigReq_def Let_def bt_def i_def s1_def res_simps)
    then show thesis using that[OF q, where i = i and m = m and srs = srs] ue_wf_new[of rnti e s1 beam] unfolding s1_def by simp blast
  qed
qed

lemma sched_wf_UeConfig [sched_intros]:
  assumes wf: "sched_wf s" and gi: "uniform (e_gi e)" and r: "DoCschedUeConfigReq e s rnti beam = Inr s'"
  shows "sched_wf s'"
proof (cases "map_of (s_ueMap s) rnti")
  case None
  have ok: "srs_ok (s_schedulerSrs s) (s_ueMap s)" and ues: "\<forall>(k, ue) \<in> set (s_ueMap s). ue_wf k ue"
    using wf by (simp_all add: sched_wf_def)
  from UeConfig_new[OF r None] obtain bt i m srs where q: "queues_ok bt"
    and s': "s' = s\<lparr>s_triggerMap := map_emplace rnti bt (s_triggerMap s), s_idealBsrMap := i,
       s_ueMap := m, s_schedulerSrs := srs\<rparr>"
    and c: "(\<exists>po u. AddUe (s_schedulerSrs s) = (po, srs) \<and> po_isValid po \<and> ue_wf rnti u \<and>
        m = s_ueMap s @ [(rnti, u\<lparr>ue_srsPeriodicity := po_periodicity po, ue_srsOffset := po_offset po\<rparr>)]) \<or>
     (\<exists>u. ue_wf rnti u \<and>
        IncreasePeriodicity (e_gi e) (s_schedulerSrs s) (s_ueMap s @ [(rnti, u)]) = Inr (srs, m, True))" .
  have "map fst m = map fst (s_ueMap s) @ [rnti] \<and> (\<forall>(k, ue) \<in> set m. ue_wf k ue) \<and> srs_ok srs m"
    using c
  proof (elim disjE exE conjE, goal_cases)
    case (1 po u)
    then show ?case using AddUe_ok[OF ok 1(1,2), of rnti u] ues by auto
  next
    case (2 u)
    then show ?case using Increase_room[OF gi ok 2(2)] IncreasePeriodicity_ues[OF 2(2)] ues by auto
  qed
  with sched_wf_new_ue[OF wf None q] s' show ?thesis by blast
next
  case (Some ue)
  then show ?thesis
    using r sched_wf_ue[OF wf Some, of "ue\<lparr>ue_beamConfId := beam\<rparr>"] sched_wfD(1)[OF wf Some]
    by (simp add: DoCschedUeConfigReq_def same_srs_def)
qed

lemma AList_delete_split:
  assumes "distinct (map fst m)" and "map_of m k = Some v"
  shows "\<exists>m1 m2. m = m1 @ (k, v) # m2 \<and> AList.delete k m = m1 @ m2"
proof -
  obtain m1 m2 where "m = m1 @ (k, v) # m2" using map_of_SomeD[OF assms(2)] by (meson split_list)
  moreover from this have "AList.delete k m = AList.delete k m1 @ AList.delete k m2"
    by (simp add: AList.delete_eq)
  moreover have "AList.delete k m1 = m1" "AList.delete k m2 = m2"
    using calculation(1) assms(1) by (auto intro: AList.delete_id)
  ultimately show ?thesis by auto
qed

lemma sched_wf_UeRelease [sched_intros]:
  assumes wf: "sched_wf s" and r: "DoCschedUeReleaseReq s rnti = Inr s'"
  shows "sched_wf s'"
proof -
  obtain ue where ue: "map_of (s_ueMap s) rnti = Some ue"
    and s': "s' = s\<lparr>s_schedulerSrs := RemoveUe (s_schedulerSrs s) (ue_srsOffset ue),
      s_ueMap := AList.delete rnti (s_ueMap s)\<rparr>"
    using r by (auto simp: DoCschedUeReleaseReq_def split: option.splits)
  obtain m1 m2 where m: "s_ueMap s = m1 @ (rnti, ue) # m2" "AList.delete rnti (s_ueMap s) = m1 @ m2"
    using AList_delete_split[OF _ ue] wf by (auto simp: sched_wf_def)
  have "srs_ok (RemoveUe (s_schedulerSrs s) (ue_srsOffset ue)) (m1 @ m2)"
    using wf m(1) by (intro RemoveUe_ok[of _ _ rnti]) (simp add: sched_wf_def)
  then show ?thesis using wf m unfolding s' by (auto simp: sched_wf_def)
qed

subsection \<open>Channels\<close>

lemma groups_wf_new:
  assumes "groups_wf m" and "map_of m k = None"
  shows "groups_wf (map_emplace k (NrMacSchedulerLCG k) m)"
  using assms lcg_wf_empty[of k] distinct_map_emplace[of m k "NrMacSchedulerLCG k"]
  by (auto simp: groups_wf_def map_emplace_def NrMacSchedulerLCG_def)

lemma groups_wf_ensure:
  "groups_wf m \<Longrightarrow> groups_wf (if map_of m k = None then map_emplace k (NrMacSchedulerLCG k) m else m)"
  by (auto intro: groups_wf_new)

lemma Insert_keeps:
  assumes "lcg_wf g" and "NrMacSchedulerLC config = Inr c" and "Insert g c = Inr (g', b)"
  shows "lcg_wf g' \<and> lcg_id g' = lcg_id g \<and> length (lcg_lcMap g') = Suc (length (lcg_lcMap g))"
  using lcg_wf_Insert[OF assms(1) NrMacSchedulerLC_id[OF assms(2)] assms(3)] assms(3)
  by (auto simp: Insert_def Let_def res_simps map_emplace_def Contains_def)

lemma groups_wf_config_dl:
  assumes m: "groups_wf m" and r: "config_dl m config = Inr m'"
  shows "groups_wf m'"
proof -
  let ?k = "conf_lcGroup config"
  define m0 where "m0 = (if map_of m ?k = None then map_emplace ?k (NrMacSchedulerLCG ?k) m else m)"
  have m0: "groups_wf m0" using groups_wf_ensure[OF m] by (simp add: m0_def)
  obtain g c g' b where c: "map_of m0 ?k = Some g" "NrMacSchedulerLC config = Inr c"
      "Insert g c = Inr (g', b)" "m' = AList.update ?k g' m0"
    using r unfolding config_dl_def Let_def CreateLCG_def CreateLC_def m0_def[symmetric]
    by (auto simp: res_simps)
  then show ?thesis
    using groups_wf_get[OF m0 c(1)] Insert_keeps[OF _ c(2,3)] by (auto intro: groups_wf_update[OF m0])
qed

lemma ul_groups_wf_config_ul:
  assumes m: "ul_groups_wf m" and r: "config_ul m config = Inr m'"
  shows "ul_groups_wf m'"
proof (cases "map_of m (conf_lcGroup config)")
  case (Some g)
  then have "NumOfLC g = 1" using ul_groups_wf_get[OF m Some] by (simp add: single_lc_def NumOfLC_def)
  then show ?thesis using r m Some by (simp add: config_ul_def Let_def)
next
  case None
  let ?k = "conf_lcGroup config"
  let ?m = "map_emplace ?k (NrMacSchedulerLCG ?k) m"
  have g: "map_of ?m ?k = Some (NrMacSchedulerLCG ?k)" using None by (simp add: map_of_emplace)
  obtain c g' b where c: "NrMacSchedulerLC config = Inr c" "Insert (NrMacSchedulerLCG ?k) c = Inr (g', b)"
      "m' = AList.update ?k g' ?m"
    using r None g by (auto simp: config_ul_def Let_def CreateLCG_def CreateLC_def NumOfLC_def
        NrMacSchedulerLCG_def res_simps)
  have g': "lcg_wf g'" "lcg_id g' = ?k" "single_lc g'"
    using Insert_keeps[OF lcg_wf_empty c(1,2)] by (simp_all add: NrMacSchedulerLCG_def single_lc_def)
  have "groups_wf (AList.update ?k g' ?m)"
    using m None g' by (intro groups_wf_update groups_wf_new) (auto simp: ul_groups_wf_def)
  moreover have "AList.update ?k g' ?m = m @ [(?k, g')]"
    using None by (induction m) (auto simp: map_emplace_def split: if_splits)
  ultimately show ?thesis using m g'(3) unfolding c(3) by (auto simp: ul_groups_wf_def)
qed

lemma ue_wf_groups:
  "ue_wf k ue \<Longrightarrow> groups_wf m \<Longrightarrow> ue_wf k (ue\<lparr>ue_dlLCG := m\<rparr>) \<and> same_srs ue (ue\<lparr>ue_dlLCG := m\<rparr>)"
  "ue_wf k ue \<Longrightarrow> ul_groups_wf m \<Longrightarrow> ue_wf k (ue\<lparr>ue_ulLCG := m\<rparr>) \<and> same_srs ue (ue\<lparr>ue_ulLCG := m\<rparr>)"
  by (simp_all add: ue_wf_def same_srs_def)

lemma same_srs_trans: "same_srs u v \<Longrightarrow> same_srs v w \<Longrightarrow> same_srs u w"
  by (simp add: same_srs_def)

lemma same_srs_refl [simp]: "same_srs u u"
  by (simp add: same_srs_def)

lemma ue_wf_config_lc:
  assumes u: "ue_wf k ue" and r: "config_lc ue config = Inr ue'"
  shows "ue_wf k ue' \<and> same_srs ue ue'"
proof -
  have keeps: "ue_wf k v \<and> same_srs ue v"
    if "(if c then bindE (config_dl (ue_dlLCG ue) config) (\<lambda>m. Inr (ue\<lparr>ue_dlLCG := m\<rparr>)) else Inr ue) = Inr v"
    for v c
    using that u ue_wf_groups(1)[OF u] groups_wf_config_dl
    by (auto simp: res_simps ue_wf_def split: if_splits)
  obtain v where v: "ue_wf k v" "same_srs ue v"
    and w: "(if conf_direction config = DIR_UL \<or> conf_direction config = DIR_BOTH
      then bindE (config_ul (ue_ulLCG v) config) (\<lambda>m. Inr (v\<lparr>ue_ulLCG := m\<rparr>)) else Inr v) = Inr ue'"
    using r keeps unfolding config_lc_def bindE_Inr_iff[of _ _ ue'] by blast
  have "ue_wf k ue' \<and> same_srs v ue'"
    using w v(1) ue_wf_groups(2)[OF v(1)] ul_groups_wf_config_ul
    by (auto simp: res_simps ue_wf_def split: if_splits)
  then show ?thesis using v(2) same_srs_trans by blast
qed

lemma sched_wf_LcConfig [sched_intros]:
  assumes wf: "sched_wf s" and r: "DoCschedLcConfigReq s rnti configs = Inr s'"
  shows "sched_wf s'"
proof -
  obtain ue ue' where ue: "map_of (s_ueMap s) rnti = Some ue" "foldE config_lc ue configs = Inr ue'"
      "s' = s\<lparr>s_ueMap := AList.update rnti ue' (s_ueMap s)\<rparr>"
    using r by (auto simp: DoCschedLcConfigReq_def res_simps split: option.splits)
  have "ue_wf rnti ue' \<and> same_srs ue ue'"
    by (rule foldE_invariant[OF ue(2)])
      (use sched_wfD(1)[OF wf ue(1)] ue_wf_config_lc same_srs_trans in \<open>blast intro: same_srs_refl\<close>)+
  then show ?thesis using sched_wf_ue[OF wf ue(1)] ue(3) by simp
qed

lemma LcRelease_same: "DoCschedLcReleaseReq s rnti lcIds = Inr s' \<Longrightarrow> s' = s"
  unfolding DoCschedLcReleaseReq_def
  by (drule foldE_invariant[where P = "\<lambda>t. t = s"]) (auto simp: res_simps)

subsection \<open>Reports\<close>

lemma UpdateInfo_rlc_id: "UpdateInfo_rlc g params = Inr g' \<Longrightarrow> lcg_id g' = lcg_id g"
  by (auto simp: UpdateInfo_rlc_def res_simps)

lemma groups_wf_containing:
  assumes "update_containing m params = Inr m'" and "groups_wf m"
  shows "groups_wf m' \<and> map fst m' = map fst m"
  using assms
proof (induction m params arbitrary: m' rule: update_containing.induct)
  case (1 params)
  then show ?case by simp
next
  case (2 k g r params)
  have g: "lcg_wf g" "lcg_id g = k" and r: "groups_wf r" and k: "k \<notin> fst ` set r"
    using 2(3) by (auto simp: groups_wf_def)
  show ?case
  proof (cases "Contains g (rbr_lcId params)")
    case True
    then obtain g' where "UpdateInfo_rlc g params = Inr g'" "m' = (k, g') # r"
      using 2(2) by (auto simp: res_simps)
    then show ?thesis using 2(3) lcg_wf_UpdateInfo_rlc[OF g(1)] UpdateInfo_rlc_id g(2)
      by (auto simp: groups_wf_def)
  next
    case False
    then obtain r' where r': "update_containing r params = Inr r'" "m' = (k, g) # r'"
      using 2(2) by (auto simp: res_simps)
    have ih: "groups_wf r'" "map fst r' = map fst r" using 2(1)[OF False r'(1) r] by auto
    have "k \<notin> set (map fst r')" unfolding ih(2) using k by simp
    then show ?thesis using ih g r'(2) by (auto simp: groups_wf_def)
  qed
qed

lemma sched_wf_DlRlcBufferReq [sched_intros]:
  assumes wf: "sched_wf s" and r: "DoSchedDlRlcBufferReq s params = Inr s'"
  shows "sched_wf s'"
proof -
  obtain ue m where ue: "map_of (s_ueMap s) (rbr_rnti params) = Some ue"
      "update_containing (ue_dlLCG ue) params = Inr m"
      "s' = s\<lparr>s_ueMap := AList.update (rbr_rnti params) (ue\<lparr>ue_dlLCG := m\<rparr>) (s_ueMap s)\<rparr>"
    using r by (auto simp: DoSchedDlRlcBufferReq_def res_simps split: option.splits)
  have "groups_wf m"
    using groups_wf_containing[OF ue(2)] sched_wfD(1)[OF wf ue(1)] by (simp add: ue_wf_def)
  then show ?thesis
    using sched_wf_ue[OF wf ue(1)] ue_wf_groups(1)[OF sched_wfD(1)[OF wf ue(1)]] ue(3) by simp
qed

lemma UpdateInfo_single:
  assumes "single_lc g"
  shows "\<exists>g'. UpdateInfo g q = Inr g' \<and> single_lc g' \<and> lcg_id g' = lcg_id g \<and>
    GetReactiveTotalSize g' = q + lcg_pending g \<and> (lcg_wf g \<longrightarrow> lcg_wf g')"
proof -
  obtain g' where g': "UpdateInfo g q = Inr g'" "single_lc g'" "GetReactiveTotalSize g' = q + lcg_pending g"
    using ul_group.report_total[OF assms] by blast
  then have "lcg_id g' = lcg_id g" using assms by (auto simp: UpdateInfo_def Let_def res_simps)
  with g' lcg_wf_UpdateInfo[OF _ g'(1)] show ?thesis by blast
qed

text \<open>
  The effect of a report on the groups of a UE, group by group: \<open>reported\<close> relates the groups before
  and after the levels of some group numbers have been written.
\<close>

definition level32 :: "u8 list \<Rightarrow> u8 \<Rightarrow> u32" where
  "level32 bs l = ucast (FromLevelToBytes (bs ! unat l))"

definition reported :: "u8 list \<Rightarrow> u8 set \<Rightarrow> (u8 \<times> lcg) list \<Rightarrow> (u8 \<times> lcg) list \<Rightarrow> bool" where
  "reported bs ls m m' \<longleftrightarrow> map fst m' = map fst m \<and> ul_groups_wf m' \<and>
     (\<forall>l g. map_of m l = Some g \<longrightarrow> (\<exists>g'. map_of m' l = Some g' \<and>
        (if l \<in> ls then GetReactiveTotalSize g' = level32 bs l + lcg_pending g else g' = g)))"

lemma reported_refl: "ul_groups_wf m \<Longrightarrow> reported bs {} m m"
  by (simp add: reported_def)

lemma reported_get:
  "reported bs ls m m' \<Longrightarrow> map_of m l = Some g \<Longrightarrow> \<exists>g'. map_of m' l = Some g' \<and>
     (if l \<in> ls then GetReactiveTotalSize g' = level32 bs l + lcg_pending g else g' = g)"
  unfolding reported_def by blast

lemma reported_step:
  assumes r: "reported bs ls m m'" and l: "l \<notin> ls" and g: "map_of m' l = Some g"
    and g': "UpdateInfo g (level32 bs l) = Inr g'"
  shows "reported bs (insert l ls) m (AList.update l g' m')"
proof -
  have wf: "ul_groups_wf m'" using r by (simp add: reported_def)
  have u: "single_lc g'" "lcg_id g' = l" "GetReactiveTotalSize g' = level32 bs l + lcg_pending g" "lcg_wf g'"
    using UpdateInfo_single[OF ul_groups_wf_get[OF wf g], of "level32 bs l"] g' wf
      groups_wf_get[of m' l g] g by (auto simp: ul_groups_wf_def)
  have "map_of m l = Some g"
  proof (cases "map_of m l")
    case None
    then have "l \<notin> set (map fst m')" using r unfolding reported_def map_of_eq_None_iff by simp
    then show ?thesis using map_of_SomeD[OF g] by force
  next
    case (Some h)
    then show ?thesis using reported_get[OF r Some] l g by simp
  qed
  then show ?thesis
    using r u ul_groups_wf_update[OF wf u(4,2,1)]
    by (auto simp: reported_def keys_AList_update[OF g] map_of_update)
qed

text \<open>The fields of the trigger a report touches.\<close>

definition told :: "u8 list \<Rightarrow> trigger \<Rightarrow> trigger" where
  "told bs t = t\<lparr>t_input := (t_input t)\<lparr>in_bsr := uint (bs ! 2), in_get_bsr := True\<rparr>\<rparr>"

lemma queues_ok_input_fields [simp]: "queues_ok (t\<lparr>t_input := i\<rparr>) = queues_ok t"
  by (simp add: queues_ok_def)

lemma bsr_group_ok:
  assumes l: "unat l < length bs" and t: "map_of tm k = Some t" and rep: "reported bs ls m m'" "l \<notin> ls"
    and conf: "map_of m' l = None \<Longrightarrow> level32 bs l = 0"
  shows "\<exists>m''. bsr_group k bs (tm, m') l = Inr (if l = 2 then AList.update k (told bs t) tm else tm, m'') \<and>
    reported bs (insert l ls) m m''"
proof -
  have tmq: "(if l = 2 then bindE (trigger_at k tm) (\<lambda>t. Inr (AList.update k
        (t\<lparr>t_input := (t_input t)\<lparr>in_bsr := uint (bs ! unat l), in_get_bsr := True\<rparr>\<rparr>) tm)) else Inr tm) =
      Inr (if l = 2 then AList.update k (told bs t) tm else tm)"
    using t by (simp add: told_def)
  show ?thesis
  proof (cases "map_of m' l")
    case None
    then have "map_of m l = None"
      using rep(1) reported_get[OF rep(1), of l] by (cases "map_of m l") auto
    then have "reported bs (insert l ls) m m'"
      using rep(1) unfolding reported_def by (metis insert_iff option.distinct(1))
    then show ?thesis using None l conf[OF None] tmq by (simp add: bsr_group_def level32_def Let_def)
  next
    case (Some g)
    have "single_lc g" using rep(1) Some by (auto simp: reported_def intro: ul_groups_wf_get)
    then obtain g' where g': "UpdateInfo g (level32 bs l) = Inr g'" using UpdateInfo_single by blast
    have "bsr_group k bs (tm, m') l =
        Inr (if l = 2 then AList.update k (told bs t) tm else tm, AList.update l g' m')"
      using Some l g' tmq by (simp add: bsr_group_def level32_def Let_def)
    with reported_step[OF rep Some g'] show ?thesis by blast
  qed
qed

lemma bsr_groups_ok:
  assumes "length bs \<ge> 4" and t: "map_of tm k = Some t" and m: "ul_groups_wf m"
    and conf: "\<And>l. l < 4 \<Longrightarrow> map_of m l = None \<Longrightarrow> level32 bs l = 0"
  shows "\<exists>m'. foldE (bsr_group k bs) (tm, m) [0, 1, 2, 3] = Inr (AList.update k (told bs t) tm, m') \<and>
    reported bs {0, 1, 2, 3} m m'"
proof -
  have none: "map_of m l = None" if "reported bs ls m m'" "map_of m' l = None" for l ls m'
    using that reported_get[OF that(1), of l] by (cases "map_of m l") auto
  have go: "\<exists>m''. bsr_group k bs (tm', m') l = Inr (if l = 2 then AList.update k (told bs t') tm' else tm', m'') \<and>
      reported bs (insert l ls) m m''"
    if "l < 4" "l \<notin> ls" "reported bs ls m m'" "map_of tm' k = Some t'" for l ls m' tm' t'
  proof (rule bsr_group_ok[OF _ that(4,3,2)])
    show "unat l < length bs" using that(1) assms(1) by (simp add: word_less_nat_alt)
    show "map_of m' l = None \<Longrightarrow> level32 bs l = 0" by (rule conf[OF that(1) none[OF that(3)]])
  qed
  obtain m0 where m0: "bsr_group k bs (tm, m) 0 = Inr (tm, m0)" "reported bs {0} m m0"
    using go[OF _ _ reported_refl[OF m] t, of 0] by auto
  obtain m1 where m1: "bsr_group k bs (tm, m0) 1 = Inr (tm, m1)" "reported bs {1, 0} m m1"
    using go[OF _ _ m0(2) t, of 1] by auto
  obtain m2 where m2: "bsr_group k bs (tm, m1) 2 = Inr (AList.update k (told bs t) tm, m2)"
      "reported bs {2, 1, 0} m m2"
    using go[OF _ _ m1(2) t, of 2] by auto
  have t': "map_of (AList.update k (told bs t) tm) k = Some (told bs t)" by (simp add: map_of_update)
  obtain m3 where m3: "bsr_group k bs (AList.update k (told bs t) tm, m2) 3 =
        Inr (AList.update k (told bs t) tm, m3)" "reported bs {3, 2, 1, 0} m m3"
    using go[OF _ _ m2(2) t', of 3] by auto
  have "{3, 2, 1, 0} = {0, 1, 2, 3 :: u8}" by auto
  then show ?thesis using m0(1) m1(1) m2(1) m3 by simp
qed

lemma less4_cases:
  assumes "l < 4"
  shows "l \<in> {0, 1, 2, 3 :: u8}"
proof -
  have "unat l \<in> {0, 1, 2, 3}" using assms by (auto simp: word_less_nat_alt)
  then show ?thesis by (auto simp: word_unat_eq_iff)
qed

lemma BSR_step:
  assumes "sched_wf s" and "ce_type bsr = BSR" and "map_of (s_ueMap s) (ce_rnti bsr) = Some ue"
    and "4 \<le> length (ce_bufferStatus bsr)"
    and "\<And>l. l < 4 \<Longrightarrow> map_of (ue_ulLCG ue) l = None \<Longrightarrow>
      FromLevelToBytes (ce_bufferStatus bsr ! unat l) = 0"
  shows "\<exists>t m'. map_of (s_triggerMap s) (ce_rnti bsr) = Some t \<and>
    BSRReceivedFromUe s bsr = Inr (s\<lparr>s_triggerMap := AList.update (ce_rnti bsr)
        (told (ce_bufferStatus bsr) t) (s_triggerMap s),
      s_ueMap := AList.update (ce_rnti bsr) (ue\<lparr>ue_ulLCG := m'\<rparr>) (s_ueMap s)\<rparr>) \<and>
    reported (ce_bufferStatus bsr) {0, 1, 2, 3} (ue_ulLCG ue) m'"
proof -
  let ?k = "ce_rnti bsr" and ?bs = "ce_bufferStatus bsr"
  obtain t where t: "map_of (s_triggerMap s) ?k = Some t" using sched_wfD(2)[OF assms(1,3)] by blast
  have ul: "ul_groups_wf (ue_ulLCG ue)" using sched_wfD(1)[OF assms(1,3)] by (simp add: ue_wf_def)
  have "level32 ?bs l = 0" if "l < 4" "map_of (ue_ulLCG ue) l = None" for l
    using assms(5)[OF that] by (simp add: level32_def)
  from bsr_groups_ok[OF assms(4) t ul this] obtain m' where
      f: "foldE (bsr_group ?k ?bs) (s_triggerMap s, ue_ulLCG ue) [0, 1, 2, 3] =
        Inr (AList.update ?k (told ?bs t) (s_triggerMap s), m')"
      "reported ?bs {0, 1, 2, 3} (ue_ulLCG ue) m'"
    by blast
  have "BSRReceivedFromUe s bsr = Inr (s\<lparr>s_triggerMap := AList.update ?k (told ?bs t) (s_triggerMap s),
      s_ueMap := AList.update ?k (ue\<lparr>ue_ulLCG := m'\<rparr>) (s_ueMap s)\<rparr>)"
    using assms(2,3) f(1) by (simp add: BSRReceivedFromUe_def del: foldE.simps)
  then show ?thesis using t f(2) by blast
qed

definition triggers_ok :: "u16 set \<Rightarrow> (u16 \<times> trigger) list \<Rightarrow> bool" where
  "triggers_ok K tm \<longleftrightarrow> (\<forall>k \<in> K. map_of tm k \<noteq> None) \<and> (\<forall>(k, t) \<in> set tm. queues_ok t)"

lemma triggers_ok_update: "triggers_ok K tm \<Longrightarrow> queues_ok t \<Longrightarrow> triggers_ok K (AList.update k t tm)"
  using set_AList_update[of k t tm] by (auto simp: triggers_ok_def map_of_update)

lemma triggers_ok_get: "triggers_ok K tm \<Longrightarrow> map_of tm k = Some t \<Longrightarrow> queues_ok t"
  by (auto simp: triggers_ok_def dest!: map_of_SomeD)

lemma bsr_group_wf:
  assumes "bsr_group k bs tmm l = Inr tmm'" and "triggers_ok K (fst tmm) \<and> ul_groups_wf (snd tmm)"
  shows "triggers_ok K (fst tmm') \<and> ul_groups_wf (snd tmm')"
proof -
  obtain tm m tm' m' where tmm: "tmm = (tm, m)" "tmm' = (tm', m')" by (cases tmm, cases tmm')
  have tq: "triggers_ok K tm" and m: "ul_groups_wf m" using assms(2) tmm by simp_all
  have "tm' = tm \<or> (\<exists>t. map_of tm k = Some t \<and> tm' = AList.update k (t\<lparr>t_input :=
      (t_input t)\<lparr>in_bsr := uint (bs ! unat l), in_get_bsr := True\<rparr>\<rparr>) tm)"
    using assms(1) unfolding tmm
    by (auto simp: bsr_group_def Let_def res_simps split: if_splits option.splits)
  then have tm': "triggers_ok K tm'"
    using tq triggers_ok_get[OF tq] by (auto intro!: triggers_ok_update)
  have "ul_groups_wf m'"
  proof (cases "map_of m l")
    case None
    then show ?thesis using assms(1) m unfolding tmm
      by (auto simp: bsr_group_def Let_def res_simps split: if_splits)
  next
    case (Some g)
    then obtain g' where g': "UpdateInfo g (level32 bs l) = Inr g'" "m' = AList.update l g' m"
      using assms(1) unfolding tmm
      by (auto simp: bsr_group_def Let_def res_simps level32_def split: if_splits)
    have "single_lc g'" "lcg_id g' = l" "lcg_wf g'"
      using UpdateInfo_single[OF ul_groups_wf_get[OF m Some], of "level32 bs l"] g'(1) m
        groups_wf_get[of m l g] Some by (auto simp: ul_groups_wf_def)
    then show ?thesis using ul_groups_wf_update[OF m] g'(2) by simp
  qed
  with tm' have "triggers_ok K tm' \<and> ul_groups_wf m'" ..
  then show ?thesis by (simp add: tmm)
qed

lemma sched_wf_alt:
  "sched_wf s \<longleftrightarrow> distinct (map fst (s_ueMap s)) \<and> (\<forall>(k, ue) \<in> set (s_ueMap s). ue_wf k ue) \<and>
     srs_ok (s_schedulerSrs s) (s_ueMap s) \<and> triggers_ok (fst ` set (s_ueMap s)) (s_triggerMap s)"
  by (auto simp: sched_wf_def triggers_ok_def)

lemma sched_wf_triggers:
  "sched_wf s \<Longrightarrow> triggers_ok (fst ` set (s_ueMap s)) tm \<Longrightarrow> sched_wf (s\<lparr>s_triggerMap := tm\<rparr>)"
  by (simp add: sched_wf_alt)

lemma sched_wf_BSR [sched_intros]:
  assumes wf: "sched_wf s" and r: "BSRReceivedFromUe s bsr = Inr s'"
  shows "sched_wf s'"
proof -
  let ?k = "ce_rnti bsr"
  obtain ue tm m where ue: "map_of (s_ueMap s) ?k = Some ue"
    and f: "foldE (bsr_group ?k (ce_bufferStatus bsr)) (s_triggerMap s, ue_ulLCG ue) [0, 1, 2, 3] = Inr (tm, m)"
    and s': "s' = s\<lparr>s_triggerMap := tm, s_ueMap := AList.update ?k (ue\<lparr>ue_ulLCG := m\<rparr>) (s_ueMap s)\<rparr>"
    using r by (auto simp: BSRReceivedFromUe_def res_simps simp del: foldE.simps split: option.splits)
  have u: "ue_wf ?k ue" by (rule sched_wfD(1)[OF wf ue])
  have "triggers_ok (fst ` set (s_ueMap s)) (fst (tm, m)) \<and> ul_groups_wf (snd (tm, m))"
    by (rule foldE_invariant[OF f])
      (use wf u bsr_group_wf in \<open>auto simp: sched_wf_alt ue_wf_def\<close>)
  then have "sched_wf (s\<lparr>s_triggerMap := tm\<rparr>)" "ul_groups_wf m"
    using sched_wf_triggers[OF wf] by simp_all
  from sched_wf_ue[OF this(1), of ?k ue] this(2) ue ue_wf_groups(2)[OF u] show ?thesis
    unfolding s' by simp
qed

lemma sched_wf_MacCtrl [sched_intros]:
  "sched_wf s \<Longrightarrow> DoSchedUlMacCtrlInfoReq s es = Inr s' \<Longrightarrow> sched_wf s'"
  unfolding DoSchedUlMacCtrlInfoReq_def
  by (erule foldE_invariant) (auto split: if_splits intro: sched_wf_BSR)

text \<open>Reports leave alone what waits in the other queues of every group.\<close>

definition pend :: "'r sched \<Rightarrow> u16 \<Rightarrow> (u8 \<Rightarrow> u32 option) option" where
  "pend s k = map_option (\<lambda>ue l. map_option lcg_pending (map_of (ue_ulLCG ue) l)) (map_of (s_ueMap s) k)"

lemma UpdateInfo_pending:
  assumes "UpdateInfo g q = Inr g'"
  shows "lcg_pending g' = lcg_pending g"
proof -
  obtain k c where "lcg_lcMap g = [(k, c)]"
    using assms by (cases "lcg_lcMap g"; cases "tl (lcg_lcMap g)") (auto simp: UpdateInfo_def res_simps)
  then show ?thesis using assms by (auto simp: UpdateInfo_def lcg_pending_def)
qed

lemma bsr_group_pending:
  assumes "bsr_group k bs tmm l = Inr tmm'"
  shows "map_option lcg_pending \<circ> map_of (snd tmm') = map_option lcg_pending \<circ> map_of (snd tmm)"
proof -
  obtain tm m tm' m' where tmm: "tmm = (tm, m)" "tmm' = (tm', m')" by (cases tmm, cases tmm')
  show ?thesis
  proof (cases "map_of m l")
    case None
    then show ?thesis using assms unfolding tmm
      by (auto simp: bsr_group_def Let_def res_simps split: if_splits)
  next
    case (Some g)
    then obtain g' where g': "UpdateInfo g (level32 bs l) = Inr g'" "m' = AList.update l g' m"
      using assms unfolding tmm
      by (auto simp: bsr_group_def Let_def res_simps level32_def split: if_splits)
    then show ?thesis using UpdateInfo_pending[OF g'(1)] Some by (auto simp: tmm map_of_update)
  qed
qed

lemma pend_BSR:
  assumes "BSRReceivedFromUe s bsr = Inr s'"
  shows "pend s' = pend s"
proof -
  let ?k = "ce_rnti bsr"
  obtain ue tm m where ue: "map_of (s_ueMap s) ?k = Some ue"
    and f: "foldE (bsr_group ?k (ce_bufferStatus bsr)) (s_triggerMap s, ue_ulLCG ue) [0, 1, 2, 3] = Inr (tm, m)"
    and s': "s' = s\<lparr>s_triggerMap := tm, s_ueMap := AList.update ?k (ue\<lparr>ue_ulLCG := m\<rparr>) (s_ueMap s)\<rparr>"
    using assms by (auto simp: BSRReceivedFromUe_def res_simps simp del: foldE.simps split: option.splits)
  have "map_option lcg_pending \<circ> map_of (snd (tm, m)) = map_option lcg_pending \<circ> map_of (ue_ulLCG ue)"
    by (rule foldE_invariant[OF f]) (simp, metis bsr_group_pending)
  then show ?thesis using ue by (auto simp: pend_def s' map_of_update fun_eq_iff)
qed

definition note_sr :: "'r sched \<Rightarrow> u16 \<Rightarrow> trigger \<Rightarrow> 'r sched" where
  "note_sr s ue t = s\<lparr>s_srList := s_srList s @ [ue],
     s_triggerMap := AList.update ue (t\<lparr>t_input := (t_input t)\<lparr>in_sr := 1\<rparr>\<rparr>) (s_triggerMap s)\<rparr>"

lemma sched_wf_note_sr: "sched_wf s \<Longrightarrow> map_of (s_triggerMap s) ue = Some t \<Longrightarrow> sched_wf (note_sr s ue t)"
  using triggers_ok_get[of "fst ` set (s_ueMap s)" "s_triggerMap s" ue t]
  by (auto simp: sched_wf_alt note_sr_def intro!: triggers_ok_update)

lemma sched_wf_SrInfo [sched_intros]:
  assumes "sched_wf s" and "DoSchedUlSrInfoReq s srs = Inr s'"
  shows "sched_wf s'"
  using assms(2) unfolding DoSchedUlSrInfoReq_def bindE_Inr_iff ns_assert_Inr_iff
  by (elim exE conjE, simp only: sum.inject)
    (erule foldE_invariant, use assms(1) in \<open>auto simp: res_simps note_sr_def[symmetric] sched_wf_note_sr
      split: if_splits\<close>)

subsection \<open>Every sequence of configurations and reports\<close>

text \<open>
  What reaches the scheduler between two scheduling decisions, with the slots of the triggers: every
  primitive of the two service access points but the triggers and the CQI reports, each when it does
  not stop the program.
\<close>

inductive config_step :: "'r env \<Rightarrow> 'r sched \<Rightarrow> 'r sched \<Rightarrow> bool" for e where
  set_mcs: "config_step e s (DoSchedSetMcs s mcs)"
| rach: "config_step e s (DoSchedDlRachInfoReq s rachList)"
| cell: "DoCschedCellConfigReq s ul dl = Inr s' \<Longrightarrow> config_step e s s'"
| ue_config: "DoCschedUeConfigReq (e\<lparr>e_now := now\<rparr>) s rnti beam = Inr s' \<Longrightarrow> config_step e s s'"
| ue_release: "DoCschedUeReleaseReq s rnti = Inr s' \<Longrightarrow> config_step e s s'"
| lc_config: "DoCschedLcConfigReq s rnti configs = Inr s' \<Longrightarrow> config_step e s s'"
| lc_release: "DoCschedLcReleaseReq s rnti lcIds = Inr s' \<Longrightarrow> config_step e s s'"
| rlc_buffer: "DoSchedDlRlcBufferReq s params = Inr s' \<Longrightarrow> config_step e s s'"
| mac_ctrl: "DoSchedUlMacCtrlInfoReq s ces = Inr s' \<Longrightarrow> config_step e s s'"
| sr_info: "DoSchedUlSrInfoReq s srs = Inr s' \<Longrightarrow> config_step e s s'"
| ideal_bsr: "config_step e s (IdealBsrTracer s rnti b)"
| trigger: "map_of (s_triggerMap s) rnti = Some t \<Longrightarrow> trigger_step (e_lm e) t t' \<Longrightarrow>
    config_step e s (s\<lparr>s_triggerMap := AList.update rnti t' (s_triggerMap s)\<rparr>)"

inductive_simps config_step_iff: "config_step e s s'"

lemma sched_wf_step:
  assumes "config_step e s s'" and "uniform (e_gi e)" and "sched_wf s"
  shows "sched_wf s'"
  using assms
proof (induction rule: config_step.induct)
  case (trigger s rnti t t')
  have "queues_ok t" using trigger(1,4) map_of_SomeD[OF trigger(1)] by (auto simp: sched_wf_def)
  then show ?case using sched_wf_trigger[OF trigger(4)] queues_ok_step[OF trigger(2)] by blast
next
  case (ue_config now s rnti beam s')
  then show ?case using sched_wf_UeConfig[of s "e\<lparr>e_now := now\<rparr>"] by simp
qed (auto simp: DoSchedSetMcs_def DoSchedDlRachInfoReq_def DoCschedCellConfigReq_def IdealBsrTracer_def
    res_simps dest: LcRelease_same intro: sched_intros)

lemma sched_wf_steps:
  assumes "(config_step e)\<^sup>*\<^sup>* s s'" and "uniform (e_gi e)" and "sched_wf s"
  shows "sched_wf s'"
  using assms by (induction rule: rtranclp_induct) (auto intro: sched_wf_step)

text \<open>A scheduler with no UE, whose sounding object has taken its first periodicity.\<close>

definition no_ues :: "'r sched \<Rightarrow> bool" where
  "no_ues s \<longleftrightarrow> s_ueMap s = [] \<and> s_triggerMap s = [] \<and> srs_ok (s_schedulerSrs s) []"

lemma sched_wf_no_ues: "no_ues s \<Longrightarrow> sched_wf s"
  by (simp add: no_ues_def sched_wf_def)

text \<open>
  C4. The scheduler's state stays consistent: from no UE at all, after any sequence of configurations,
  releases, buffer reports, scheduling requests and slots of the triggers, whatever was drawn and
  reported, every UE sits once under its own RNTI, no two UEs share a sounding offset, every uplink
  group has exactly one channel, and every UE has a trigger with at least 50 slots of history.
\<close>
theorem scheduler_state_consistent:
  assumes "uniform (e_gi e)" and "no_ues s0" and "(config_step e)\<^sup>*\<^sup>* s0 s"
  shows "distinct (map fst (s_ueMap s)) \<and>
    distinct (map (\<lambda>(k, ue). ue_srsOffset ue) (s_ueMap s)) \<and>
    (\<forall>(k, ue) \<in> set (s_ueMap s). ue_rnti ue = k \<and>
       (\<forall>(l, g) \<in> set (ue_ulLCG ue). length (lcg_lcMap g) = 1) \<and>
       (\<exists>t. map_of (s_triggerMap s) k = Some t \<and> 50 \<le> length (t_time_queue t)))"
proof -
  have wf: "sched_wf s" by (rule sched_wf_steps[OF assms(3,1) sched_wf_no_ues[OF assms(2)]])
  then have d: "distinct (map fst (s_ueMap s))" by (simp add: sched_wf_def)
  have "ue_rnti ue = k \<and> (\<forall>(l, g) \<in> set (ue_ulLCG ue). length (lcg_lcMap g) = 1) \<and>
      (\<exists>t. map_of (s_triggerMap s) k = Some t \<and> 50 \<le> length (t_time_queue t))"
    if "(k, ue) \<in> set (s_ueMap s)" for k ue
  proof -
    have k: "map_of (s_ueMap s) k = Some ue" by (rule map_of_is_SomeI[OF d that])
    obtain t where "map_of (s_triggerMap s) k = Some t" "queues_ok t" using sched_wfD(2)[OF wf k] by blast
    then show ?thesis using sched_wfD(1)[OF wf k]
      by (auto simp: ue_wf_def ul_groups_wf_def single_lc_def queues_ok_def Let_def m_initial_input_def)
  qed
  moreover have "distinct (map (\<lambda>(k, ue). ue_srsOffset ue) (s_ueMap s))"
    using wf srs_ok_distinct unfolding sched_wf_def by blast
  ultimately show ?thesis using d by blast
qed

definition demo_env :: "unit env" where
  "demo_env = \<lparr>e_lm = demo_libm, e_now = Num 0, e_gi = lowest, e_numHarqProcess = 8,
     e_numRbPerRbg = 4, e_symbolsPerSlot = 14, e_recentGranted = 0, e_confidentBsr = 0\<rparr>"

definition demo_sched :: "unit sched" where
  "demo_sched = \<lparr>s_ueMap = [], s_triggerMap = [], s_idealBsrMap = [], s_ulAllocationMap = [],
     s_fixedMcsDl = False, s_fixedMcsUl = False, s_startMcsDl = 0, s_startMcsUl = 0,
     s_dlHarqToRetransmit = [], s_ulHarqToRetransmit = [], s_srList = [], s_rachList = [],
     s_bandwidth = 24, s_dlCtrlSymbols = 1, s_ulCtrlSymbols = 1, s_srsCtrlSymbols = 1,
     s_enableSrsInUlSlots = True, s_enableSrsInFSlots = True, s_dlNotchedRbgsMask = [],
     s_ulNotchedRbgsMask = [],
     s_schedulerSrs = \<lparr>srs_periodicity = 2, srs_available = [1, 0], srs_random = ()\<rparr>,
     s_srsSlotCounter = 0, s_enableHarqReTx = True, s_scheduleMode = 3, s_betaVal = Num 0\<rparr>"

lemma demo_no_ues: "no_ues demo_sched"
  by (simp add: no_ues_def demo_sched_def srs_ok_def StandardPeriodicity_def all_offsets_def upt_rec)

lemma demo_attach:
  "\<exists>s. DoCschedUeConfigReq demo_env demo_sched rnti beam = Inr s \<and> map fst (s_ueMap s) = [rnti]"
proof -
  obtain bt where "BulletTrigger (e_lm demo_env) (e_now demo_env) rnti 4 8 3 5
      (e_recentGranted demo_env) (e_confidentBsr demo_env) = Inr bt"
    using quiet_BulletTrigger[of rnti 0 0] by (auto simp: demo_env_def)
  then show ?thesis
    by (simp add: DoCschedUeConfigReq_def Let_def AddUe_def demo_sched_def)
qed

theorem scheduler_state_consistent_witness:
  "\<exists>s. (config_step demo_env)\<^sup>*\<^sup>* demo_sched s \<and> map fst (s_ueMap s) = [7] \<and>
     (\<exists>t. map_of (s_triggerMap s) 7 = Some t \<and> 50 \<le> length (t_time_queue t))"
proof -
  obtain s where s: "DoCschedUeConfigReq demo_env demo_sched 7
      (\<lparr>bid_sector = 1, bid_elevation = 90\<rparr>, \<lparr>bid_sector = 0, bid_elevation = 0\<rparr>) = Inr s"
      "map fst (s_ueMap s) = [7]"
    using demo_attach[of 7 "(\<lparr>bid_sector = 1, bid_elevation = 90\<rparr>,
      \<lparr>bid_sector = 0, bid_elevation = 0\<rparr>)"] by auto
  have "demo_env\<lparr>e_now := Num 0\<rparr> = demo_env" by (simp add: demo_env_def)
  then have "(config_step demo_env)\<^sup>*\<^sup>* demo_sched s" using s(1) ue_config[where e = demo_env and now = "Num 0"] by auto
  moreover have "uniform (e_gi demo_env)" by (simp add: demo_env_def uniform_lowest)
  ultimately show ?thesis
    using scheduler_state_consistent[of demo_env demo_sched s] demo_no_ues s(2)
    by (cases "s_ueMap s") auto
qed

text \<open>
  A buffer status report always gets through: in a consistent state, a report of four levels
  from an attached UE that is zero for the groups the UE does not have never stops the scheduler.
  Every configured group then has, as its reactive size, the bytes of its level and what is pending in
  its retransmission and status queues; the trigger of the UE is told the level of group 2; nobody
  else is touched.
\<close>
lemma BSR_gets_through:
  assumes "sched_wf s" and "ce_type bsr = BSR" and "map_of (s_ueMap s) (ce_rnti bsr) = Some ue"
    and "4 \<le> length (ce_bufferStatus bsr)"
    and "\<And>l. l < 4 \<Longrightarrow> map_of (ue_ulLCG ue) l = None \<Longrightarrow>
      FromLevelToBytes (ce_bufferStatus bsr ! unat l) = 0"
  shows "\<exists>s' ue' t t'. BSRReceivedFromUe s bsr = Inr s' \<and>
    map_of (s_ueMap s') (ce_rnti bsr) = Some ue' \<and>
    (\<forall>l g. l < 4 \<longrightarrow> map_of (ue_ulLCG ue) l = Some g \<longrightarrow> (\<exists>g'. map_of (ue_ulLCG ue') l = Some g' \<and>
       GetReactiveTotalSize g' =
         ucast (FromLevelToBytes (ce_bufferStatus bsr ! unat l)) + lcg_pending g)) \<and>
    map_of (s_triggerMap s) (ce_rnti bsr) = Some t \<and>
    map_of (s_triggerMap s') (ce_rnti bsr) = Some t' \<and>
    in_bsr (t_input t') = uint (ce_bufferStatus bsr ! 2) \<and> in_get_bsr (t_input t') \<and>
    (\<forall>k. k \<noteq> ce_rnti bsr \<longrightarrow> map_of (s_ueMap s') k = map_of (s_ueMap s) k \<and>
       map_of (s_triggerMap s') k = map_of (s_triggerMap s) k)"
proof -
  obtain t m' where t: "map_of (s_triggerMap s) (ce_rnti bsr) = Some t"
    and r: "BSRReceivedFromUe s bsr = Inr (s\<lparr>s_triggerMap := AList.update (ce_rnti bsr)
        (told (ce_bufferStatus bsr) t) (s_triggerMap s),
      s_ueMap := AList.update (ce_rnti bsr) (ue\<lparr>ue_ulLCG := m'\<rparr>) (s_ueMap s)\<rparr>)"
      "reported (ce_bufferStatus bsr) {0, 1, 2, 3} (ue_ulLCG ue) m'"
    using BSR_step[OF assms] by blast
  have groups: "\<exists>g'. map_of m' l = Some g' \<and> GetReactiveTotalSize g' =
      ucast (FromLevelToBytes (ce_bufferStatus bsr ! unat l)) + lcg_pending g"
    if "l < 4" "map_of (ue_ulLCG ue) l = Some g" for l g
    using reported_get[OF r(2) that(2)] less4_cases[OF that(1)] by (auto simp: level32_def)
  then show ?thesis using t r(1) by (simp add: map_of_update told_def)
qed

text \<open>A group of one channel, and a report of 20 for group 2 and of nothing else.\<close>

definition demo_lcg :: lcg where
  "demo_lcg = \<lparr>lcg_id = 2, lcg_lcMap = [(4, \<lparr>lc_id = 4, lc_txQueue = 7, lc_txHolDelay = 0,
      lc_retxHolDelay = 0, lc_retxQueue = 30, lc_statusPdu = 0, lc_delayBudget = 300,
      lc_per_exp = 6, lc_isGbr = False, lc_proactiveQueue = 9\<rparr>)]\<rparr>"

definition demo_full :: "unit sched" where
  "demo_full = demo_sched\<lparr>
     s_ueMap := [(7, (demo_ue 7 9 0)\<lparr>ue_srsPeriodicity := 2, ue_srsOffset := 0, ue_ulLCG := [(2, demo_lcg)]\<rparr>)],
     s_triggerMap := [(7, new_trigger 7 4 8 3 5 0 0)],
     s_schedulerSrs := \<lparr>srs_periodicity = 2, srs_available = [1], srs_random = ()\<rparr>\<rparr>"

lemma hv_wf_empty: "hv_wf NrMacHarqVector_default"
  using hv_wf_SetMaxSize[of 0] by (simp add: hv_SetMaxSize_def NrMacHarqVector_default_def)

lemma demo_full_wf: "sched_wf demo_full"
  by (simp add: sched_wf_def demo_full_def demo_sched_def ue_wf_def demo_ue_def NrMacSchedulerUeInfo_def
      hv_wf_empty groups_wf_def ul_groups_wf_def demo_lcg_def lcg_wf_def single_lc_def queues_ok_new
      srs_ok_def StandardPeriodicity_def all_offsets_def upt_rec)

lemma BSR_gets_through_witness:
  "\<exists>s' ue' g'. BSRReceivedFromUe demo_full
      \<lparr>ce_rnti = 7, ce_type = BSR, ce_bufferStatus = [0, 0, 20, 0]\<rparr> = Inr s' \<and>
    map_of (s_ueMap s') 7 = Some ue' \<and> map_of (ue_ulLCG ue') 2 = Some g' \<and>
    GetReactiveTotalSize g' = ucast (FromLevelToBytes 20) + 30"
proof -
  let ?bsr = "\<lparr>ce_rnti = 7, ce_type = BSR, ce_bufferStatus = [0, 0, 20, 0]\<rparr> :: MacCeElement"
  let ?ue = "(demo_ue 7 9 0)\<lparr>ue_srsPeriodicity := 2, ue_srsOffset := 0, ue_ulLCG := [(2, demo_lcg)]\<rparr>"
  have z: "FromLevelToBytes 0 = 0" by (simp add: FromLevelToBytes_def lookupVector_def)
  have "FromLevelToBytes (ce_bufferStatus ?bsr ! unat l) = 0"
    if "l < 4" "map_of (ue_ulLCG ?ue) l = None" for l
  proof -
    have "unat l \<in> {0, 1, 2, 3}" using that by (auto simp: word_less_nat_alt)
    moreover have "l \<noteq> 2" using that(2) by (auto simp: demo_lcg_def)
    ultimately have "unat l \<in> {0, 1, 3}" by (auto simp: word_unat_eq_iff)
    then show ?thesis using z by auto
  qed
  note zero = this
  have k: "map_of (s_ueMap demo_full) (ce_rnti ?bsr) = Some ?ue" by (simp add: demo_full_def)
  have g: "map_of (ue_ulLCG ?ue) 2 = Some demo_lcg" by simp
  have p: "lcg_pending demo_lcg = 30" "ce_bufferStatus ?bsr ! unat (2 :: u8) = 20"
    by (simp_all add: demo_lcg_def lcg_pending_def)
  have side: "ce_type ?bsr = BSR" "4 \<le> length (ce_bufferStatus ?bsr)" "(2 :: u8) < 4"
    "ce_rnti ?bsr = 7" by simp_all
  from BSR_gets_through[OF demo_full_wf side(1) k side(2) zero] obtain s' ue' where
    "BSRReceivedFromUe demo_full ?bsr = Inr s'" "map_of (s_ueMap s') (ce_rnti ?bsr) = Some ue'"
    "\<exists>g'. map_of (ue_ulLCG ue') 2 = Some g' \<and> GetReactiveTotalSize g' =
       ucast (FromLevelToBytes (ce_bufferStatus ?bsr ! unat (2 :: u8))) + lcg_pending demo_lcg"
    using side(3) g by blast
  then show ?thesis unfolding p side(4) by blast
qed

end
