(* ===== verification/Cqi.thy ===== *)
theory Cqi
  imports SchedInv "HOL-Library.Signed_Division"
begin

text \<open>
  Channel quality reports: \<open>NrMacSchedulerCQIManagement\<close> of
  \<open>contrib/nr/model/nr-mac-scheduler-cqi-management.cc\<close> and the two primitives of
  \<open>nr-mac-scheduler-ns3.cc\<close> that deliver reports to it. The link adaptation (\<open>NrAmc::GetMcsFromCqi\<close> and
  \<open>NrAmc::CreateCqiFeedbackWbTdma\<close>), the times in nanoseconds and the spectrum model are parameters,
  in the record \<open>cqi_env\<close>.
\<close>

record cqi_env =
  c_GetMcsFromCqi :: "u8 \<Rightarrow> u8 res"
  c_CreateCqiFeedbackWbTdma :: "rat list \<Rightarrow> u8 \<times> u8"
  c_maxDlMcs :: u8
  c_cqiTimersThreshold :: int
  c_slotPeriod :: int
  c_numRbPerRbg :: u32
  c_numBands :: nat

subsection \<open>Wideband reports\<close>

record DlCqiInfo =
  dci_cqi_rnti :: u16
  dci_cqi_ri :: u8
  dci_cqi_type :: CqiType
  dci_cqi_wbCqi :: "u8 list"
  dci_cqi_wbPmi :: u8

text \<open>\<open>std::vector::resize\<close>.\<close>

definition vec_resize :: "nat \<Rightarrow> 'a \<Rightarrow> 'a list \<Rightarrow> 'a list" where
  "vec_resize n d xs = take n xs @ replicate (n - length xs) d"

text \<open>The loop body, for one stream: the pair is the vector of CQIs and the vector of MCSs.\<close>

definition wb_stream :: "cqi_env \<Rightarrow> u8 list \<Rightarrow> u8 list \<times> u8 list \<Rightarrow> nat \<Rightarrow> (u8 list \<times> u8 list) res" where
  "wb_stream ce cqis = (\<lambda>(wbCqi, dlMcs) stream.
     bindE (vec_at cqis stream) (\<lambda>c.
     if c > 0 then
       bindE (vec_set wbCqi stream c) (\<lambda>wbCqi.
       bindE (c_GetMcsFromCqi ce c) (\<lambda>m.
       bindE (vec_set dlMcs stream (min m (c_maxDlMcs ce))) (\<lambda>dlMcs. Inr (wbCqi, dlMcs))))
     else
       bindE (vec_set wbCqi stream 0) (\<lambda>wbCqi.
       bindE (vec_set dlMcs stream 0) (\<lambda>dlMcs. Inr (wbCqi, dlMcs)))))"

definition DlWBCQIReported :: "cqi_env \<Rightarrow> DlCqiInfo \<Rightarrow> UeInfo \<Rightarrow> u32 \<Rightarrow> UeInfo res" where
  "DlWBCQIReported ce info ue expirationTime =
     (let n = length (dci_cqi_wbCqi info);
          tbs = (if (dci_cqi_ri info = 2 \<or> n = 2) \<and> length (ue_dlTbSize ue) = 1
                 then ue_dlTbSize ue @ [0] else ue_dlTbSize ue) in
      bindE (foldE (wb_stream ce (dci_cqi_wbCqi info))
               (vec_resize n 0 (dlcqi_wbCqi (ue_dlCqi ue)), vec_resize n 0 (ue_dlMcs ue)) [0..<n])
        (\<lambda>(wbCqi, dlMcs).
        Inr (ue\<lparr>ue_dlTbSize := tbs, ue_dlMcs := dlMcs,
                ue_dlCqi := (ue_dlCqi ue)\<lparr>dlcqi_type := WB, dlcqi_timer := expirationTime,
                  dlcqi_ri := dci_cqi_ri info, dlcqi_wbCqi := wbCqi\<rparr>\<rparr>)))"

text \<open>Sub-band reports of the downlink are ignored (the code says TODO).\<close>

definition DlSBCQIReported :: "DlCqiInfo \<Rightarrow> UeInfo \<Rightarrow> UeInfo" where
  "DlSBCQIReported info ue = ue"

subsection \<open>Uplink reports\<close>

text \<open>\<open>rbAssignment[k] = 1\<close>, undefined out of range.\<close>

definition mark_rb :: "nat list \<Rightarrow> nat \<Rightarrow> nat list res" where
  "mark_rb rbAssignment k = defined_if (k < length rbAssignment) (Inr (rbAssignment[k := 1]))"

definition mark_rbg :: "u8 list \<Rightarrow> nat \<Rightarrow> nat list \<Rightarrow> nat \<Rightarrow> nat list res" where
  "mark_rbg rbgMask numRbPerRbg rbAssignment i =
     bindE (vec_at rbgMask i) (\<lambda>m.
       if m = 1 then foldE mark_rb rbAssignment (map (\<lambda>k. i * numRbPerRbg + k) [0..<numRbPerRbg])
       else Inr rbAssignment)"

definition spec_values :: "rat list \<Rightarrow> nat list \<Rightarrow> rat list \<Rightarrow> nat \<Rightarrow> rat list res" where
  "spec_values sinr rbAssignment = (\<lambda>vals ichunk.
     defined_if (ichunk < length rbAssignment)
       (if rbAssignment ! ichunk = 1 then bindE (vec_at sinr ichunk) (\<lambda>v. Inr (vals @ [v]))
        else Inr (vals @ [0])))"

definition UlSBCQIReported :: "cqi_env \<Rightarrow> u32 \<Rightarrow> rat list \<Rightarrow> UeInfo \<Rightarrow> u8 list \<Rightarrow> UeInfo res" where
  "UlSBCQIReported ce expirationTime sinr ue rbgMask =
     ns_assert (length rbgMask > 0)
     (bindE (foldE (mark_rbg rbgMask (unat (c_numRbPerRbg ce))) (replicate (length sinr) 0)
               [0..<length rbgMask]) (\<lambda>rbAssignment.
      bindE (foldE (spec_values sinr rbAssignment) [] [0..<c_numBands ce]) (\<lambda>specVals.
        let (cqi, mcs) = c_CreateCqiFeedbackWbTdma ce specVals in
        Inr (ue\<lparr>ue_ulCqi := (ue_ulCqi ue)\<lparr>cqi_sinr := sinr, cqi_type := SB,
                  cqi_timer := expirationTime, cqi_cqi := cqi\<rparr>,
                ue_ulMcs := mcs\<rparr>))))"

subsection \<open>Expiry\<close>

text \<open>
  \<open>GetStartMcsDl\<close> and \<open>GetStartMcsUl\<close> are the scheduler's own \<open>m_startMcsDl\<close> and \<open>m_startMcsUl\<close>.
\<close>

definition refresh_dl :: "u8 \<Rightarrow> UeInfo \<Rightarrow> UeInfo res" where
  "refresh_dl startMcsDl ue =
     (if dlcqi_timer (ue_dlCqi ue) = 0 then
        bindE (foldE (\<lambda>(wbCqi, dlMcs) stream.
                 bindE (vec_set wbCqi stream 1) (\<lambda>wbCqi.
                 bindE (vec_set dlMcs stream startMcsDl) (\<lambda>dlMcs. Inr (wbCqi, dlMcs))))
               (dlcqi_wbCqi (ue_dlCqi ue), ue_dlMcs ue) [0..<length (dlcqi_wbCqi (ue_dlCqi ue))])
          (\<lambda>(wbCqi, dlMcs).
          Inr (ue\<lparr>ue_dlMcs := dlMcs,
                  ue_dlCqi := (ue_dlCqi ue)\<lparr>dlcqi_type := WB, dlcqi_wbCqi := wbCqi\<rparr>\<rparr>))
      else Inr (ue\<lparr>ue_dlCqi := (ue_dlCqi ue)\<lparr>dlcqi_timer := dlcqi_timer (ue_dlCqi ue) - 1\<rparr>\<rparr>))"

definition refresh_ul :: "u8 \<Rightarrow> UeInfo \<Rightarrow> UeInfo" where
  "refresh_ul startMcsUl ue =
     (if cqi_timer (ue_ulCqi ue) = 0 then
        ue\<lparr>ue_ulCqi := (ue_ulCqi ue)\<lparr>cqi_cqi := 1, cqi_type := WB\<rparr>, ue_ulMcs := startMcsUl\<rparr>
      else ue\<lparr>ue_ulCqi := (ue_ulCqi ue)\<lparr>cqi_timer := cqi_timer (ue_ulCqi ue) - 1\<rparr>\<rparr>)"

text \<open>The loop over the map: each UE is changed in place.\<close>

fun each_ue :: "(UeInfo \<Rightarrow> UeInfo res) \<Rightarrow> (u16 \<times> UeInfo) list \<Rightarrow> (u16 \<times> UeInfo) list res" where
  "each_ue f [] = Inr []"
| "each_ue f ((k, ue) # r) = bindE (f ue) (\<lambda>ue. bindE (each_ue f r) (\<lambda>r. Inr ((k, ue) # r)))"

definition RefreshDlCqiMaps :: "u8 \<Rightarrow> (u16 \<times> UeInfo) list \<Rightarrow> (u16 \<times> UeInfo) list res" where
  "RefreshDlCqiMaps startMcsDl ueMap = each_ue (refresh_dl startMcsDl) ueMap"

definition RefreshUlCqiMaps :: "u8 \<Rightarrow> (u16 \<times> UeInfo) list \<Rightarrow> (u16 \<times> UeInfo) list res" where
  "RefreshUlCqiMaps startMcsUl ueMap = each_ue (\<lambda>ue. Inr (refresh_ul startMcsUl ue)) ueMap"

subsection \<open>The primitives of the scheduler\<close>

definition expiration_time :: "cqi_env \<Rightarrow> u32 res" where
  "expiration_time ce = defined_if (c_slotPeriod ce \<noteq> 0)
     (Inr (of_int (c_cqiTimersThreshold ce sdiv c_slotPeriod ce)))"

definition DoSchedDlCqiInfoReq :: "cqi_env \<Rightarrow> 'r sched \<Rightarrow> DlCqiInfo list \<Rightarrow> 'r sched res" where
  "DoSchedDlCqiInfoReq ce s cqiList =
     (if s_fixedMcsDl s then Inr s
      else ns_assert (c_cqiTimersThreshold ce \<ge> c_slotPeriod ce)
        (bindE (expiration_time ce) (\<lambda>expirationTime.
         foldE (\<lambda>s cqi. case map_of (s_ueMap s) (dci_cqi_rnti cqi) of
             None \<Rightarrow> Inl AssertFailed
           | Some ue \<Rightarrow>
               bindE (if dci_cqi_type cqi = WB then DlWBCQIReported ce cqi ue expirationTime
                      else Inr (DlSBCQIReported cqi ue)) (\<lambda>ue.
               Inr (s\<lparr>s_ueMap := AList.update (dci_cqi_rnti cqi) ue (s_ueMap s)\<rparr>))) s cqiList)))"

datatype UlCqiType = UL_SRS | PUSCH | PUCCH_1 | PUCCH_2 | PRACH

record UlCqiReport =
  ulcqi_sfnSf :: sfnsf
  ulcqi_symStart :: u8
  ulcqi_sinr :: "rat list"
  ulcqi_type :: UlCqiType

text \<open>
  The loop over the allocations of the slot: the allocations that start at the reported symbol are
  used and erased; the result is the UEs, the rest of the allocations and whether one was found.
\<close>

fun ul_cqi_allocations :: "cqi_env \<Rightarrow> u32 \<Rightarrow> UlCqiReport \<Rightarrow> (u16 \<times> UeInfo) list \<Rightarrow> AllocElem list \<Rightarrow>
    ((u16 \<times> UeInfo) list \<times> AllocElem list \<times> bool) res" where
  "ul_cqi_allocations ce expirationTime rep ueMap [] = Inr (ueMap, [], False)"
| "ul_cqi_allocations ce expirationTime rep ueMap (allocation # r) =
     (if ae_symStart allocation = ulcqi_symStart rep then
        case map_of ueMap (ae_rnti allocation) of
          None \<Rightarrow> Inl AssertFailed
        | Some ue \<Rightarrow>
            ns_assert (ae_numSym allocation > 0)
            (ns_assert (ae_tbs allocation > 0)
            (bindE (UlSBCQIReported ce expirationTime (ulcqi_sinr rep) ue (ae_rbgMask allocation))
              (\<lambda>ue.
             bindE (ul_cqi_allocations ce expirationTime rep
                      (AList.update (ae_rnti allocation) ue ueMap) r) (\<lambda>(ueMap, r, _).
               Inr (ueMap, r, True)))))
      else
        bindE (ul_cqi_allocations ce expirationTime rep ueMap r) (\<lambda>(ueMap, r, found).
          Inr (ueMap, allocation # r, found)))"

definition DoSchedUlCqiInfoReq :: "cqi_env \<Rightarrow> 'r sched \<Rightarrow> UlCqiReport \<Rightarrow> 'r sched res" where
  "DoSchedUlCqiInfoReq ce s rep =
     (if s_fixedMcsUl s then Inr s
      else bindE (expiration_time ce) (\<lambda>expirationTime.
        if ulcqi_type rep = PUSCH then
          bindE (GetEncoding (ulcqi_sfnSf rep)) (\<lambda>enc.
          case map_of (s_ulAllocationMap s) enc of
            None \<Rightarrow> Inl AssertFailed
          | Some slot \<Rightarrow>
              bindE (ul_cqi_allocations ce expirationTime rep (s_ueMap s) (se_ulAllocations slot))
                (\<lambda>(ueMap, rest, found).
              ns_assert found
              (Inr (s\<lparr>s_ueMap := ueMap,
                      s_ulAllocationMap := (if length rest = 0
                        then AList.delete enc (s_ulAllocationMap s)
                        else AList.update enc (slot\<lparr>se_ulAllocations := rest\<rparr>)
                               (s_ulAllocationMap s))\<rparr>))))
        else Inl FatalError))"

subsection \<open>What a report and its expiry do\<close>

lemma vec_resize_length [simp]: "length (vec_resize n d xs) = n"
  by (simp add: vec_resize_def)

text \<open>The MCS a report of one stream stands for.\<close>

definition mcs_of :: "cqi_env \<Rightarrow> u8 \<Rightarrow> u8 \<Rightarrow> bool" where
  "mcs_of ce c m \<longleftrightarrow> (if c = 0 then m = 0
     else \<exists>m0. c_GetMcsFromCqi ce c = Inr m0 \<and> m = min m0 (c_maxDlMcs ce))"

lemma wb_stream_ok:
  assumes "i < length cqis" "i < length wb" "i < length mcs"
    and "cqis ! i = 0 \<or> (\<exists>m. c_GetMcsFromCqi ce (cqis ! i) = Inr m)"
  shows "\<exists>m. wb_stream ce cqis (wb, mcs) i = Inr (wb[i := cqis ! i], mcs[i := m]) \<and> mcs_of ce (cqis ! i) m"
  using assms by (auto simp: wb_stream_def vec_set_def mcs_of_def word_gt_0)

lemma wb_streams_ok:
  assumes "n \<le> length cqis" "n \<le> length wb" "n \<le> length mcs"
    and "\<forall>c \<in> set cqis. c = 0 \<or> (\<exists>m. c_GetMcsFromCqi ce c = Inr m)"
  shows "\<exists>wb' mcs'. foldE (wb_stream ce cqis) (wb, mcs) [0..<n] = Inr (wb', mcs') \<and>
    length wb' = length wb \<and> length mcs' = length mcs \<and>
    (\<forall>i < n. wb' ! i = cqis ! i \<and> mcs_of ce (cqis ! i) (mcs' ! i))"
  using assms(1-3)
proof (induction n)
  case 0
  then show ?case by simp
next
  case (Suc n)
  then obtain wb' mcs' where ih: "foldE (wb_stream ce cqis) (wb, mcs) [0..<n] = Inr (wb', mcs')"
      "length wb' = length wb" "length mcs' = length mcs"
      "\<forall>i < n. wb' ! i = cqis ! i \<and> mcs_of ce (cqis ! i) (mcs' ! i)"
    by auto
  have "cqis ! n = 0 \<or> (\<exists>m. c_GetMcsFromCqi ce (cqis ! n) = Inr m)"
    using assms(4) Suc.prems(1) by (simp add: Suc_le_lessD)
  with Suc.prems ih(2,3) obtain m where m: "wb_stream ce cqis (wb', mcs') n = Inr (wb'[n := cqis ! n], mcs'[n := m])"
      "mcs_of ce (cqis ! n) m"
    using wb_stream_ok[of n cqis wb' mcs' ce] by auto
  have "\<forall>i < Suc n. wb'[n := cqis ! n] ! i = cqis ! i \<and> mcs_of ce (cqis ! i) (mcs'[n := m] ! i)"
    using ih Suc.prems m(2) by (auto simp: less_Suc_eq nth_list_update)
  then show ?case using ih(1-3) m(1) by (simp add: foldE_append)
qed

text \<open>
  C23. A wideband report sets the link adaptation of every stream: if the link adaptation knows every
  reported CQI, the report is accepted, and afterwards there is one CQI and one MCS per reported
  stream, the MCS being the one for the CQI, never above the configured maximum, and 0 for a CQI of
  0. The CQI vector and the MCS vector have the same length, so the later expiry stays in bounds.
\<close>
theorem wideband_report_sets_mcs:
  assumes "\<forall>c \<in> set (dci_cqi_wbCqi info). c = 0 \<or> (\<exists>m. c_GetMcsFromCqi ce c = Inr m)"
  shows "\<exists>ue'. DlWBCQIReported ce info ue expirationTime = Inr ue' \<and>
    length (ue_dlMcs ue') = length (dci_cqi_wbCqi info) \<and>
    dlcqi_wbCqi (ue_dlCqi ue') = dci_cqi_wbCqi info \<and>
    dlcqi_timer (ue_dlCqi ue') = expirationTime \<and>
    (\<forall>i < length (dci_cqi_wbCqi info).
       if dci_cqi_wbCqi info ! i = 0 then ue_dlMcs ue' ! i = 0
       else \<exists>m. c_GetMcsFromCqi ce (dci_cqi_wbCqi info ! i) = Inr m \<and>
         ue_dlMcs ue' ! i = min m (c_maxDlMcs ce))"
proof -
  let ?c = "dci_cqi_wbCqi info"
  obtain wb' mcs' where f: "foldE (wb_stream ce ?c) (vec_resize (length ?c) 0 (dlcqi_wbCqi (ue_dlCqi ue)),
      vec_resize (length ?c) 0 (ue_dlMcs ue)) [0..<length ?c] = Inr (wb', mcs')"
      "length wb' = length ?c" "length mcs' = length ?c"
      "\<forall>i < length ?c. wb' ! i = ?c ! i \<and> mcs_of ce (?c ! i) (mcs' ! i)"
    using wb_streams_ok[of "length ?c" ?c "vec_resize (length ?c) 0 (dlcqi_wbCqi (ue_dlCqi ue))"
      "vec_resize (length ?c) 0 (ue_dlMcs ue)" ce] assms by auto
  have "wb' = ?c" using f(2,4) by (auto intro: nth_equalityI)
  with f show ?thesis by (auto simp: DlWBCQIReported_def Let_def mcs_of_def split: if_splits)
qed

definition demo_cqi :: cqi_env where
  "demo_cqi = \<lparr>c_GetMcsFromCqi = (\<lambda>c. if c \<le> 15 then Inr (2 * c - 1) else Inl AssertFailed),
     c_CreateCqiFeedbackWbTdma = (\<lambda>vals. (7, 4)), c_maxDlMcs = 27,
     c_cqiTimersThreshold = 1000000000, c_slotPeriod = 500000, c_numRbPerRbg = 1, c_numBands = 2\<rparr>"

theorem wideband_report_sets_mcs_witness:
  "\<exists>ue'. DlWBCQIReported demo_cqi \<lparr>dci_cqi_rnti = 7, dci_cqi_ri = 2, dci_cqi_type = WB,
      dci_cqi_wbCqi = [15, 3], dci_cqi_wbPmi = 0\<rparr> (demo_ue 7 9 0) 2000 = Inr ue' \<and>
    ue_dlMcs ue' ! 0 = 27 \<and> ue_dlMcs ue' ! 1 = 5"
proof -
  let ?i = "\<lparr>dci_cqi_rnti = 7, dci_cqi_ri = 2, dci_cqi_type = WB, dci_cqi_wbCqi = [15, 3],
      dci_cqi_wbPmi = 0\<rparr> :: DlCqiInfo"
  have "\<forall>c \<in> set (dci_cqi_wbCqi ?i). c = 0 \<or> (\<exists>m. c_GetMcsFromCqi demo_cqi c = Inr m)"
    by (simp add: demo_cqi_def)
  from wideband_report_sets_mcs[OF this, of "demo_ue 7 9 0" 2000] obtain ue' where
    u: "DlWBCQIReported demo_cqi ?i (demo_ue 7 9 0) 2000 = Inr ue'"
    "\<forall>i < length (dci_cqi_wbCqi ?i).
       if dci_cqi_wbCqi ?i ! i = 0 then ue_dlMcs ue' ! i = 0
       else \<exists>m. c_GetMcsFromCqi demo_cqi (dci_cqi_wbCqi ?i ! i) = Inr m \<and>
         ue_dlMcs ue' ! i = min m (c_maxDlMcs demo_cqi)"
    by blast
  from u(2) have "ue_dlMcs ue' ! 0 = 27" "ue_dlMcs ue' ! 1 = 5"
    by (auto simp: demo_cqi_def dest: spec[of _ 0] spec[of _ 1])
  with u(1) show ?thesis by blast
qed

text \<open>The refresh of every slot.\<close>

definition cqi_ok :: "UeInfo \<Rightarrow> bool" where
  "cqi_ok ue \<longleftrightarrow> length (dlcqi_wbCqi (ue_dlCqi ue)) \<le> length (ue_dlMcs ue)"

lemma refresh_loop:
  fixes wb mcs :: "u8 list"
  assumes "n \<le> length wb" "n \<le> length mcs"
  shows "foldE (\<lambda>(wbCqi, dlMcs) stream.
      bindE (vec_set wbCqi stream 1) (\<lambda>wbCqi.
      bindE (vec_set dlMcs stream m) (\<lambda>dlMcs. Inr (wbCqi, dlMcs)))) (wb, mcs) [0..<n] =
    Inr (replicate n 1 @ drop n wb, replicate n m @ drop n mcs)"
  using assms
proof (induction n)
  case 0
  then show ?case by simp
next
  case (Suc n)
  have upd: "(replicate n x @ drop n ys)[n := x] = replicate (Suc n) x @ drop (Suc n) ys"
    if "Suc n \<le> length ys" for x :: u8 and ys
    using that by (simp add: list_update_append Cons_nth_drop_Suc[symmetric] replicate_append_same)
  show ?case using Suc upd[of wb 1] upd[of mcs m] by (simp add: foldE_append vec_set_def)
qed

lemma refresh_dl_ok:
  assumes "cqi_ok ue"
  shows "\<exists>ue'. refresh_dl m ue = Inr ue' \<and> cqi_ok ue' \<and>
    length (dlcqi_wbCqi (ue_dlCqi ue')) = length (dlcqi_wbCqi (ue_dlCqi ue)) \<and>
    dlcqi_timer (ue_dlCqi ue') = dlcqi_timer (ue_dlCqi ue) - (if dlcqi_timer (ue_dlCqi ue) = 0 then 0 else 1) \<and>
    (dlcqi_timer (ue_dlCqi ue) = 0 \<longrightarrow>
       (\<forall>i < length (dlcqi_wbCqi (ue_dlCqi ue)). ue_dlMcs ue' ! i = m))"
  using assms by (auto simp: refresh_dl_def cqi_ok_def refresh_loop nth_append)

text \<open>The slots of the scheduler, of which each refreshes the report once.\<close>

fun refresh_slots :: "u8 \<Rightarrow> nat \<Rightarrow> UeInfo \<Rightarrow> UeInfo res" where
  "refresh_slots m 0 ue = Inr ue"
| "refresh_slots m (Suc n) ue = bindE (refresh_dl m ue) (refresh_slots m n)"

lemma refresh_slots_Suc: "refresh_slots m (Suc n) ue = bindE (refresh_slots m n ue) (refresh_dl m)"
proof (induction n arbitrary: ue)
  case 0
  show ?case by (cases "refresh_dl m ue") simp_all
next
  case (Suc n)
  have "refresh_slots m (Suc (Suc n)) ue = bindE (refresh_dl m ue) (refresh_slots m (Suc n))"
    by (rule refresh_slots.simps(2))
  also have "\<dots> = bindE (refresh_dl m ue) (\<lambda>u. bindE (refresh_slots m n u) (refresh_dl m))"
    using Suc.IH by (intro bindE_cong refl)
  also have "\<dots> = bindE (refresh_slots m (Suc n) ue) (refresh_dl m)"
    by (simp add: bindE_assoc)
  finally show ?case .
qed

text \<open>While the timer runs a refresh only counts it down; once it has run out every refresh sets the starting MCS.\<close>

lemma refresh_slots_valid:
  assumes "k \<le> unat (dlcqi_timer (ue_dlCqi ue))"
  shows "refresh_slots m k ue =
    Inr (ue\<lparr>ue_dlCqi := (ue_dlCqi ue)\<lparr>dlcqi_timer := dlcqi_timer (ue_dlCqi ue) - of_nat k\<rparr>\<rparr>)"
  using assms
proof (induction k)
  case (Suc k)
  let ?t = "dlcqi_timer (ue_dlCqi ue)"
  have "unat (?t - of_nat k) = unat ?t - k"
    using Suc.prems u_lt[of ?t] by (simp add: unat_sub word_le_nat_alt unat_of_nat)
  then have "?t - of_nat k \<noteq> 0" using Suc.prems by (metis diff_is_0_eq not_less_eq_eq unat_0)
  then have "refresh_dl m (ue\<lparr>ue_dlCqi := (ue_dlCqi ue)\<lparr>dlcqi_timer := ?t - of_nat k\<rparr>\<rparr>) =
      Inr (ue\<lparr>ue_dlCqi := (ue_dlCqi ue)\<lparr>dlcqi_timer := ?t - of_nat (Suc k)\<rparr>\<rparr>)"
    by (simp add: refresh_dl_def)
  then show ?case using Suc unfolding refresh_slots_Suc by simp
qed simp

definition expired :: "u8 \<Rightarrow> UeInfo \<Rightarrow> UeInfo \<Rightarrow> bool" where
  "expired m ue ue' \<longleftrightarrow> (let n = length (dlcqi_wbCqi (ue_dlCqi ue)) in dlcqi_timer (ue_dlCqi ue') = 0 \<and>
     ue_dlMcs ue' = replicate n m @ drop n (ue_dlMcs ue) \<and> dlcqi_wbCqi (ue_dlCqi ue') = replicate n 1)"

lemma refresh_dl_expired:
  assumes "cqi_ok ue" and "dlcqi_timer (ue_dlCqi u) = 0"
    and "ue_dlMcs u = ue_dlMcs ue \<and> dlcqi_wbCqi (ue_dlCqi u) = dlcqi_wbCqi (ue_dlCqi ue) \<or> expired m ue u"
  shows "\<exists>v. refresh_dl m u = Inr v \<and> expired m ue v"
  using assms by (auto simp: refresh_dl_def cqi_ok_def refresh_loop expired_def Let_def)

lemma refresh_slots_expired:
  assumes "cqi_ok ue" and "unat (dlcqi_timer (ue_dlCqi ue)) < k"
  shows "\<exists>ue'. refresh_slots m k ue = Inr ue' \<and> expired m ue ue'"
  using assms(2)
proof (induction k)
  case (Suc k)
  show ?case
  proof (cases "unat (dlcqi_timer (ue_dlCqi ue)) < k")
    case True
    then obtain u where u: "refresh_slots m k ue = Inr u" "expired m ue u" using Suc.IH by blast
    then have "\<exists>v. refresh_dl m u = Inr v \<and> expired m ue v"
      using refresh_dl_expired[OF assms(1)] by (simp add: expired_def Let_def)
    then show ?thesis using u(1) unfolding refresh_slots_Suc by simp
  next
    case False
    then have k: "k = unat (dlcqi_timer (ue_dlCqi ue))" using Suc.prems by simp
    let ?u = "ue\<lparr>ue_dlCqi := (ue_dlCqi ue)\<lparr>dlcqi_timer := 0\<rparr>\<rparr>"
    have "refresh_slots m k ue = Inr ?u" using refresh_slots_valid[of k ue m] k by simp
    moreover have "\<exists>v. refresh_dl m ?u = Inr v \<and> expired m ue v" by (rule refresh_dl_expired[OF assms(1)]) simp_all
    ultimately show ?thesis unfolding refresh_slots_Suc by simp
  qed
qed simp

text \<open>
  C24. A CQI lasts exactly as long as its timer: let a UE whose report came with a validity of \<open>n\<close> slots send no other. For each of
  the next \<open>n\<close> slots every stream keeps its MCS and its CQI; in every later slot all streams with a reported CQI are at the
  starting MCS and CQI 1, and the MCS of a stream without a report is left alone. The refresh never throws on the way.
\<close>
theorem stale_report_expires:
  assumes "length (dlcqi_wbCqi (ue_dlCqi ue)) \<le> length (ue_dlMcs ue)"
  shows "\<exists>ue'. refresh_slots startMcs k ue = Inr ue' \<and>
    (if k \<le> unat (dlcqi_timer (ue_dlCqi ue))
     then ue_dlMcs ue' = ue_dlMcs ue \<and> dlcqi_wbCqi (ue_dlCqi ue') = dlcqi_wbCqi (ue_dlCqi ue)
     else ue_dlMcs ue' = replicate (length (dlcqi_wbCqi (ue_dlCqi ue))) startMcs @
            drop (length (dlcqi_wbCqi (ue_dlCqi ue))) (ue_dlMcs ue) \<and>
          dlcqi_wbCqi (ue_dlCqi ue') = replicate (length (dlcqi_wbCqi (ue_dlCqi ue))) 1)"
proof (cases "k \<le> unat (dlcqi_timer (ue_dlCqi ue))")
  case True
  then show ?thesis using refresh_slots_valid by simp
next
  case False
  then show ?thesis using refresh_slots_expired[of ue k startMcs] assms by (auto simp: cqi_ok_def expired_def Let_def)
qed

theorem stale_report_expires_witness:
  "let ue = (demo_ue 7 9 0)\<lparr>ue_dlMcs := [20, 22, 9],
       ue_dlCqi := \<lparr>dlcqi_type = WB, dlcqi_ri = 2, dlcqi_sinr = [], dlcqi_wbCqi = [11, 12], dlcqi_timer = 2000\<rparr>\<rparr> in
   (\<exists>u. refresh_slots 4 2000 ue = Inr u \<and> ue_dlMcs u = [20, 22, 9]) \<and>
   (\<exists>u. refresh_slots 4 2001 ue = Inr u \<and> ue_dlMcs u = [4, 4, 9])"
proof -
  let ?u = "(demo_ue 7 9 0)\<lparr>ue_dlMcs := [20, 22, 9],
      ue_dlCqi := \<lparr>dlcqi_type = WB, dlcqi_ri = 2, dlcqi_sinr = [], dlcqi_wbCqi = [11, 12], dlcqi_timer = 2000\<rparr>\<rparr>"
  have "length (dlcqi_wbCqi (ue_dlCqi ?u)) \<le> length (ue_dlMcs ?u)" by simp
  from stale_report_expires[OF this, of 4 2000] stale_report_expires[OF this, of 4 2001] show ?thesis
    by (auto simp: Let_def simp del: refresh_slots.simps)
qed

end
