(* ===== verification/SchedHarq.thy ===== *)
theory SchedHarq
  imports Cqi
begin

text \<open>
  What the scheduler does with HARQ feedback before it schedules, in \<open>nr-mac-scheduler-ns3.cc\<close>:
  \<open>ResetExpiredHARQ\<close>, \<open>MergeHARQ\<close>, the removal of late and duplicated feedback in
  \<open>DoSchedDlTriggerReq\<close> and \<open>DoSchedUlTriggerReq\<close>, \<open>ProcessHARQFeedbacks\<close> and \<open>ComputeActiveHarq\<close>. The
  C++ is generic in the feedback and takes the vector of a UE by a function; here both are in the
  record \<open>harq_fns\<close>, of which \<open>dl_fns\<close> and \<open>ul_fns\<close> are the two instances.
\<close>

record 'h harq_fns =
  f_rnti :: "'h \<Rightarrow> u16"
  f_id :: "'h \<Rightarrow> u8"
  f_ok :: "'h \<Rightarrow> bool res"
  f_nack :: "'h \<Rightarrow> u8 list"
  f_vec :: "UeInfo \<Rightarrow> NrMacHarqVector"
  f_put :: "NrMacHarqVector \<Rightarrow> UeInfo \<Rightarrow> UeInfo"

definition dl_fns :: "DlHarqInfo harq_fns" where
  "dl_fns = \<lparr>f_rnti = dlh_rnti, f_id = dlh_harqProcessId, f_ok = dl_IsReceivedOk,
     f_nack = dl_GetNackStreamIndexes, f_vec = ue_dlHarq, f_put = (\<lambda>v ue. ue\<lparr>ue_dlHarq := v\<rparr>)\<rparr>"

definition ul_fns :: "UlHarqInfo harq_fns" where
  "ul_fns = \<lparr>f_rnti = ulh_rnti, f_id = ulh_harqProcessId, f_ok = (\<lambda>h. Inr (ul_IsReceivedOk h)),
     f_nack = ul_GetNackStreamIndexes, f_vec = ue_ulHarq, f_put = (\<lambda>v ue. ue\<lparr>ue_ulHarq := v\<rparr>)\<rparr>"

lemma fns_sel [simp]:
  "f_rnti dl_fns = dlh_rnti" "f_id dl_fns = dlh_harqProcessId" "f_ok dl_fns = dl_IsReceivedOk"
  "f_nack dl_fns = dl_GetNackStreamIndexes" "f_vec dl_fns = ue_dlHarq"
  "f_put dl_fns = (\<lambda>v ue. ue\<lparr>ue_dlHarq := v\<rparr>)"
  "f_rnti ul_fns = ulh_rnti" "f_id ul_fns = ulh_harqProcessId" "f_ok ul_fns = (\<lambda>h. Inr (ul_IsReceivedOk h))"
  "f_nack ul_fns = ul_GetNackStreamIndexes" "f_vec ul_fns = ue_ulHarq"
  "f_put ul_fns = (\<lambda>v ue. ue\<lparr>ue_ulHarq := v\<rparr>)"
  by (simp_all add: dl_fns_def ul_fns_def)

subsection \<open>ResetExpiredHARQ\<close>

definition reset_process :: "u8 \<Rightarrow> NrMacHarqVector \<Rightarrow> u8 \<Rightarrow> NrMacHarqVector res" where
  "reset_process numHarqProcess harq processId =
     bindE (map_deref processId (hv_map harq)) (\<lambda>process.
       if m_status process = INACTIVE then Inr harq
       else if m_timer process < numHarqProcess
       then Inr (hv_Set harq processId (process\<lparr>m_timer := m_timer process + 1\<rparr>))
       else bindE (hv_Erase harq processId) (\<lambda>(harq, _). Inr harq))"

definition ResetExpiredHARQ :: "u8 \<Rightarrow> NrMacHarqVector \<Rightarrow> NrMacHarqVector res" where
  "ResetExpiredHARQ numHarqProcess harq =
     foldE (reset_process numHarqProcess) harq (map fst (hv_map harq))"

subsection \<open>Feedback\<close>

text \<open>The result: all feedback, and the list of old feedback, which is left empty.\<close>

definition MergeHARQ :: "'h list \<Rightarrow> 'h list \<Rightarrow> ('h list \<times> 'h list) res" where
  "MergeHARQ existingFeedbacks inFeedbacks =
     (let existingSize = length existingFeedbacks; inSize = length inFeedbacks;
          existingFeedbacks = existingFeedbacks @ inFeedbacks in
      ns_assert (length existingFeedbacks = existingSize + inSize) (Inr (existingFeedbacks, [])))"

text \<open>The process a feedback is for, looked up with \<open>find\<close> (undefined when there is none).\<close>

definition process_of :: "'h harq_fns \<Rightarrow> (u16 \<times> UeInfo) list \<Rightarrow> 'h \<Rightarrow> HarqProcess res" where
  "process_of F ueMap h =
     bindE (map_deref (f_rnti F h) ueMap) (\<lambda>ue. map_deref (f_id F h) (hv_map (f_vec F ue)))"

fun drop_inactive :: "'h harq_fns \<Rightarrow> (u16 \<times> UeInfo) list \<Rightarrow> 'h list \<Rightarrow> 'h list res" where
  "drop_inactive F ueMap [] = Inr []"
| "drop_inactive F ueMap (h # r) =
     bindE (process_of F ueMap h) (\<lambda>p.
     bindE (drop_inactive F ueMap r) (\<lambda>r. Inr (if \<not> m_active p then r else h # r)))"

text \<open>The downlink also drops a second feedback for the same process; \<open>feedbacksDup\<close> holds the seen.\<close>

fun drop_late_or_duplicated :: "'h harq_fns \<Rightarrow> (u16 \<times> UeInfo) list \<Rightarrow> (u16 \<Rightarrow> u32 set option) \<Rightarrow>
    'h list \<Rightarrow> 'h list res" where
  "drop_late_or_duplicated F ueMap feedbacksDup [] = Inr []"
| "drop_late_or_duplicated F ueMap feedbacksDup (h # r) =
     bindE (process_of F ueMap h) (\<lambda>p.
     if \<not> m_active p then drop_late_or_duplicated F ueMap feedbacksDup r
     else let i = ucast (f_id F h) in
       case feedbacksDup (f_rnti F h) of
         None \<Rightarrow> bindE (drop_late_or_duplicated F ueMap (feedbacksDup(f_rnti F h \<mapsto> {i})) r)
                   (\<lambda>r. Inr (h # r))
       | Some seen \<Rightarrow>
           if i \<notin> seen
           then bindE (drop_late_or_duplicated F ueMap (feedbacksDup(f_rnti F h \<mapsto> insert i seen)) r)
                  (\<lambda>r. Inr (h # r))
           else drop_late_or_duplicated F ueMap feedbacksDup r)"

text \<open>
  The loop of \<open>ProcessHARQFeedbacks\<close>: the UEs, the feedback that stays, and the count of NACKs. The
  largest redundancy version is \<open>std::max_element\<close>, which must not be dereferenced on an empty vector.
\<close>

fun process_feedbacks :: "'h harq_fns \<Rightarrow> u8 \<Rightarrow> (u16 \<times> UeInfo) list \<Rightarrow> 'h list \<Rightarrow>
    ((u16 \<times> UeInfo) list \<times> 'h list \<times> u32) res" where
  "process_feedbacks F maxHarqReTx ueMap [] = Inr (ueMap, [], 0)"
| "process_feedbacks F maxHarqReTx ueMap (h # r) =
     bindE (map_deref (f_rnti F h) ueMap) (\<lambda>ue.
     bindE (hv_Get (f_vec F ue) (f_id F h)) (\<lambda>ueProcess.
     if \<not> m_active ueProcess then Inl FatalError
     else case m_dciElement ueProcess of
       None \<Rightarrow> Inl Aborted
     | Some d \<Rightarrow>
         defined_if (dci_rv d \<noteq> [])
         (let rv = dci_rv d ! max_element (dci_rv d) in
          ns_assert (rv < 4)
          (bindE (f_ok F h) (\<lambda>ok.
           if ok \<or> rv = maxHarqReTx then
             bindE (hv_Erase (f_vec F ue) (f_id F h)) (\<lambda>(v, _).
               process_feedbacks F maxHarqReTx (AList.update (f_rnti F h) (f_put F v ue) ueMap) r)
           else
             let v = hv_Set (f_vec F ue) (f_id F h)
                   (ueProcess\<lparr>m_status := RECEIVED_FEEDBACK, nackStreamIndexes := f_nack F h\<rparr>) in
             bindE (process_feedbacks F maxHarqReTx (AList.update (f_rnti F h) (f_put F v ue) ueMap) r)
               (\<lambda>(ueMap, r, nackReceived). Inr (ueMap, h # r, nackReceived + 1)))))))"

definition ProcessHARQFeedbacks :: "'h harq_fns \<Rightarrow> bool \<Rightarrow> (u16 \<times> UeInfo) list \<Rightarrow> 'h list \<Rightarrow>
    ((u16 \<times> UeInfo) list \<times> 'h list) res" where
  "ProcessHARQFeedbacks F enableHarqReTx ueMap harqInfo =
     (let maxHarqReTx = (if enableHarqReTx then 3 else 0) in
      bindE (process_feedbacks F maxHarqReTx ueMap harqInfo) (\<lambda>(ueMap, harqInfo, nackReceived).
        ns_assert (length harqInfo = unat nackReceived) (Inr (ueMap, harqInfo))))"

subsection \<open>ComputeActiveHarq\<close>

text \<open>
  The map from a beam to the processes to retransmit. The C++ keeps iterators into the UEs' vectors;
  a reference to a process is here the RNTI and the id.
\<close>

type_synonym ActiveHarqMap = "(BeamConfId \<times> (u16 \<times> u8) list) list"

definition add_active :: "'h harq_fns \<Rightarrow> bool \<Rightarrow> (u16 \<times> UeInfo) list \<Rightarrow> ActiveHarqMap \<Rightarrow> 'h \<Rightarrow>
    ActiveHarqMap res" where
  "add_active F check_status ueMap active h =
     bindE (map_deref (f_rnti F h) ueMap) (\<lambda>ue.
     bindE (map_deref (f_id F h) (hv_map (f_vec F ue))) (\<lambda>p.
     ns_assert (m_active p)
     (ns_assert (check_status \<longrightarrow> m_status p = RECEIVED_FEEDBACK)
       (Inr (case map_of active (ue_beamConfId ue) of
          None \<Rightarrow> active @ [(ue_beamConfId ue, [(f_rnti F h, f_id F h)])]
        | Some ps \<Rightarrow> AList.update (ue_beamConfId ue) (ps @ [(f_rnti F h, f_id F h)]) active)))))"

text \<open>\<open>SortDlHarq\<close> of the HARQ scheduler, and no order in the uplink.\<close>

definition ComputeActiveDlHarq :: "(ActiveHarqMap \<Rightarrow> ActiveHarqMap) \<Rightarrow> (u16 \<times> UeInfo) list \<Rightarrow>
    DlHarqInfo list \<Rightarrow> ActiveHarqMap res" where
  "ComputeActiveDlHarq SortDlHarq ueMap dlHarqFeedback =
     bindE (foldE (add_active dl_fns True ueMap) [] dlHarqFeedback) (\<lambda>active. Inr (SortDlHarq active))"

definition ComputeActiveUlHarq :: "(u16 \<times> UeInfo) list \<Rightarrow> UlHarqInfo list \<Rightarrow> ActiveHarqMap res" where
  "ComputeActiveUlHarq ueMap ulHarqFeedback =
     foldE (add_active ul_fns False ueMap) [] ulHarqFeedback"

subsection \<open>The triggers, up to scheduling\<close>

text \<open>
  \<open>DoSchedDlTriggerReq\<close> and \<open>DoSchedUlTriggerReq\<close> without their last call: the new state and the
  feedback to schedule.
\<close>

definition dl_harq_phase :: "'r env \<Rightarrow> 'r sched \<Rightarrow> DlHarqInfo list \<Rightarrow> ('r sched \<times> DlHarqInfo list) res" where
  "dl_harq_phase e s dlHarqInfoList =
     bindE (RefreshDlCqiMaps (s_startMcsDl s) (s_ueMap s)) (\<lambda>ueMap.
     bindE (each_ue (\<lambda>ue. bindE (ResetExpiredHARQ (e_numHarqProcess e) (ue_dlHarq ue)) (\<lambda>v.
              Inr (ue\<lparr>ue_dlHarq := v\<rparr>))) ueMap) (\<lambda>ueMap.
     if length dlHarqInfoList > 0 \<or> length (s_dlHarqToRetransmit s) > 0 then
       bindE (MergeHARQ (s_dlHarqToRetransmit s) dlHarqInfoList) (\<lambda>(dlHarqFeedback, toRetransmit).
       bindE (drop_late_or_duplicated dl_fns ueMap (\<lambda>_. None) dlHarqFeedback) (\<lambda>dlHarqFeedback.
       bindE (ProcessHARQFeedbacks dl_fns (s_enableHarqReTx s) ueMap dlHarqFeedback)
         (\<lambda>(ueMap, dlHarqFeedback).
         Inr (s\<lparr>s_ueMap := ueMap, s_dlHarqToRetransmit := toRetransmit\<rparr>, dlHarqFeedback))))
     else Inr (s\<lparr>s_ueMap := ueMap\<rparr>, [])))"

definition ul_harq_phase :: "'r env \<Rightarrow> 'r sched \<Rightarrow> UlHarqInfo list \<Rightarrow> ('r sched \<times> UlHarqInfo list) res" where
  "ul_harq_phase e s ulHarqInfoList =
     bindE (RefreshUlCqiMaps (s_startMcsUl s) (s_ueMap s)) (\<lambda>ueMap.
     bindE (each_ue (\<lambda>ue. bindE (ResetExpiredHARQ (e_numHarqProcess e) (ue_ulHarq ue)) (\<lambda>v.
              Inr (ue\<lparr>ue_ulHarq := v\<rparr>))) ueMap) (\<lambda>ueMap.
     if length ulHarqInfoList > 0 \<or> length (s_ulHarqToRetransmit s) > 0 then
       bindE (MergeHARQ (s_ulHarqToRetransmit s) ulHarqInfoList) (\<lambda>(ulHarqFeedback, toRetransmit).
       bindE (drop_inactive ul_fns ueMap ulHarqFeedback) (\<lambda>ulHarqFeedback.
       bindE (ProcessHARQFeedbacks ul_fns (s_enableHarqReTx s) ueMap ulHarqFeedback)
         (\<lambda>(ueMap, ulHarqFeedback).
         Inr (s\<lparr>s_ueMap := ueMap, s_ulHarqToRetransmit := toRetransmit\<rparr>, ulHarqFeedback))))
     else Inr (s\<lparr>s_ueMap := ueMap\<rparr>, [])))"

subsection \<open>Well-formed processes\<close>

text \<open>
  A process is active exactly when its status is not inactive, and an active process has a DCI with
  a redundancy version of at most 3 for every stream.
\<close>

definition proc_wf :: "HarqProcess \<Rightarrow> bool" where
  "proc_wf p \<longleftrightarrow> (m_status p = INACTIVE \<longleftrightarrow> \<not> m_active p) \<and>
     (m_active p \<longrightarrow> (\<exists>d. m_dciElement p = Some d \<and> dci_rv d \<noteq> [] \<and> (\<forall>rv \<in> set (dci_rv d). rv < 4)))"

definition harq_wf :: "NrMacHarqVector \<Rightarrow> bool" where
  "harq_wf v \<longleftrightarrow> hv_wf v \<and> (\<forall>(i, p) \<in> set (hv_map v). proc_wf p)"

lemma harq_wf_get: "harq_wf v \<Longrightarrow> map_of (hv_map v) i = Some p \<Longrightarrow> proc_wf p"
  by (auto simp: harq_wf_def dest!: map_of_SomeD)

lemma proc_wf_Erase [simp]: "proc_wf (process_Erase p)"
  by (simp add: proc_wf_def process_Erase_def)

lemma harq_wf_Set:
  assumes "harq_wf v" and "map_of (hv_map v) i = Some p" and "m_active q = m_active p" and "proc_wf q"
  shows "harq_wf (hv_Set v i q)"
  using assms hv_wf_update[of v i p q] set_AList_update[of i q "hv_map v"]
  by (auto simp: harq_wf_def hv_Set_def)

lemma harq_wf_Erase:
  assumes wf: "harq_wf v" and i: "map_of (hv_map v) i = Some p" and act: "m_active p"
  shows "\<exists>v'. hv_Erase v i = Inr (v', True) \<and> harq_wf v' \<and>
    hv_map v' = AList.update i (process_Erase p) (hv_map v)"
proof -
  have "content v i = Some p" using i act by (simp add: content_Some)
  then obtain v' where v': "hv_Erase v i = Inr (v', True)" "hv_wf v'"
    using hv_Erase_used[of v i p] wf by (auto simp: harq_wf_def)
  then have m: "hv_map v' = AList.update i (process_Erase p) (hv_map v)"
    using i by (auto simp: hv_Erase_def Let_def res_simps)
  moreover have "\<forall>(j, q) \<in> set (hv_map v'). proc_wf q"
    unfolding m using wf set_AList_update[of i "process_Erase p" "hv_map v"] by (auto simp: harq_wf_def)
  ultimately show ?thesis using v' by (simp add: harq_wf_def)
qed

subsection \<open>Expiry\<close>

text \<open>What one slot does to a process.\<close>

definition tick :: "u8 \<Rightarrow> HarqProcess \<Rightarrow> HarqProcess" where
  "tick n p = (if m_status p = INACTIVE then p
     else if m_timer p < n then p\<lparr>m_timer := m_timer p + 1\<rparr> else process_Erase p)"

lemma reset_process_tick:
  assumes wf: "harq_wf v" and i: "map_of (hv_map v) i = Some p"
  shows "\<exists>v'. reset_process n v i = Inr v' \<and> harq_wf v' \<and> map fst (hv_map v') = map fst (hv_map v) \<and>
    map_of (hv_map v') = (map_of (hv_map v))(i \<mapsto> tick n p)"
proof -
  have p: "proc_wf p" by (rule harq_wf_get[OF assms])
  consider (idle) "m_status p = INACTIVE" | (wait) "m_status p \<noteq> INACTIVE" "m_timer p < n"
    | (late) "m_status p \<noteq> INACTIVE" "\<not> m_timer p < n" by blast
  then show ?thesis
  proof cases
    case idle
    then show ?thesis using wf i by (simp add: reset_process_def tick_def fun_upd_idem)
  next
    case wait
    let ?q = "p\<lparr>m_timer := m_timer p + 1\<rparr>"
    have "proc_wf ?q" using p by (simp add: proc_wf_def)
    then have "harq_wf (hv_Set v i ?q)" using wf i by (intro harq_wf_Set) simp_all
    then show ?thesis using wait i
      by (simp add: reset_process_def tick_def hv_Set_def map_of_update keys_AList_update)
  next
    case late
    then have act: "m_active p" using p by (simp add: proc_wf_def)
    from harq_wf_Erase[OF wf i act] late i show ?thesis
      by (auto simp: reset_process_def tick_def map_of_update keys_AList_update)
  qed
qed

lemma reset_processes_tick:
  assumes "harq_wf v" and "distinct ks" and "set ks \<subseteq> set (map fst (hv_map v))"
  shows "\<exists>v'. foldE (reset_process n) v ks = Inr v' \<and> harq_wf v' \<and>
    map fst (hv_map v') = map fst (hv_map v) \<and>
    (\<forall>i. map_of (hv_map v') i = (if i \<in> set ks then map_option (tick n) (map_of (hv_map v) i)
       else map_of (hv_map v) i))"
  using assms
proof (induction ks arbitrary: v)
  case Nil
  then show ?case by simp
next
  case (Cons k ks)
  obtain p where p: "map_of (hv_map v) k = Some p"
    using Cons.prems(3) by (cases "map_of (hv_map v) k") (auto simp: map_of_eq_None_iff)
  obtain v1 where v1: "reset_process n v k = Inr v1" "harq_wf v1" "map fst (hv_map v1) = map fst (hv_map v)"
      "map_of (hv_map v1) = (map_of (hv_map v))(k \<mapsto> tick n p)"
    using reset_process_tick[OF Cons.prems(1) p] by blast
  have ks: "distinct ks" "set ks \<subseteq> set (map fst (hv_map v1))" "k \<notin> set ks"
    using Cons.prems(2,3) unfolding v1(3) by auto
  from Cons.IH[OF v1(2) ks(1,2)] obtain v2 where v2: "foldE (reset_process n) v1 ks = Inr v2" "harq_wf v2"
      "map fst (hv_map v2) = map fst (hv_map v1)"
      "\<forall>i. map_of (hv_map v2) i = (if i \<in> set ks then map_option (tick n) (map_of (hv_map v1) i)
         else map_of (hv_map v1) i)"
    by blast
  have "\<forall>i. map_of (hv_map v2) i = (if i \<in> set (k # ks) then map_option (tick n) (map_of (hv_map v) i)
      else map_of (hv_map v) i)"
    using v2(4) v1(4) p ks(3) by simp
  then show ?case using v1 v2 by (intro exI[of _ v2]) simp
qed

lemma ResetExpiredHARQ_tick:
  assumes "harq_wf v"
  shows "\<exists>v'. ResetExpiredHARQ n v = Inr v' \<and> harq_wf v' \<and>
    (\<forall>i. map_of (hv_map v') i = map_option (tick n) (map_of (hv_map v) i))"
proof -
  have "distinct (map fst (hv_map v))" using assms by (simp add: harq_wf_def hv_wf_def)
  from reset_processes_tick[OF assms this order_refl, of n] obtain v' where
    "ResetExpiredHARQ n v = Inr v'" "harq_wf v'"
    "\<forall>i. map_of (hv_map v') i = (if i \<in> set (map fst (hv_map v)) then map_option (tick n) (map_of (hv_map v) i)
       else map_of (hv_map v) i)"
    by (auto simp: ResetExpiredHARQ_def)
  moreover have "map_of (hv_map v) i = None" if "i \<notin> set (map fst (hv_map v))" for i
    using that by (simp add: map_of_eq_None_iff)
  ultimately show ?thesis by (metis (full_types) option.simps(8))
qed

fun reset_slots :: "u8 \<Rightarrow> nat \<Rightarrow> NrMacHarqVector \<Rightarrow> NrMacHarqVector res" where
  "reset_slots n 0 v = Inr v"
| "reset_slots n (Suc k) v = bindE (ResetExpiredHARQ n v) (reset_slots n k)"

lemma reset_slots_tick:
  "harq_wf v \<Longrightarrow> \<exists>v'. reset_slots n k v = Inr v' \<and> harq_wf v' \<and>
     (\<forall>i. map_of (hv_map v') i = map_option (tick n ^^ k) (map_of (hv_map v) i))"
proof (induction k arbitrary: v)
  case 0
  then show ?case by (simp add: option.map_ident)
next
  case (Suc k)
  obtain v1 where v1: "ResetExpiredHARQ n v = Inr v1" "harq_wf v1"
      "\<forall>i. map_of (hv_map v1) i = map_option (tick n) (map_of (hv_map v) i)"
    using ResetExpiredHARQ_tick[OF Suc.prems] by blast
  from Suc.IH[OF v1(2)] v1 show ?case
    by (auto simp: option.map_comp funpow_Suc_right comp_def simp del: funpow.simps)
qed

lemma tick_idle: "m_status p = INACTIVE \<Longrightarrow> (tick n ^^ k) p = p"
  by (induction k) (simp_all add: tick_def)

lemma ticks_idle:
  assumes "unat n - unat (m_timer p) < k" and "proc_wf p"
  shows "\<not> m_active ((tick n ^^ k) p)"
  using assms
proof (induction k arbitrary: p)
  case 0
  then show ?case by simp
next
  case (Suc k)
  have wf: "proc_wf (tick n p)" using Suc.prems(2) by (auto simp: tick_def proc_wf_def process_Erase_def)
  show ?case
  proof (cases "m_status p \<noteq> INACTIVE \<and> m_timer p < n")
    case True
    then have "unat (m_timer (tick n p)) = Suc (unat (m_timer p))"
      using unat_plus1[of "m_timer p" n] by (simp add: tick_def)
    moreover have "unat (m_timer p) < unat n" using True by (simp add: word_less_nat_alt)
    ultimately have "unat n - unat (m_timer (tick n p)) < k" using Suc.prems(1) by simp
    from Suc.IH[OF this wf] show ?thesis by (simp add: funpow_Suc_right del: funpow.simps)
  next
    case False
    then have "m_status (tick n p) = INACTIVE" by (auto simp: tick_def process_Erase_def)
    then show ?thesis using tick_idle[of "tick n p" k n] wf
      by (simp add: funpow_Suc_right proc_wf_def del: funpow.simps)
  qed
qed

text \<open>
  C22. No HARQ process is lost for good: whatever feedback fails to arrive, after one more slot than there
  are HARQ processes every process of the vector is free again, and the resets never fail on the way.
\<close>
theorem unanswered_processes_expire:
  assumes "harq_wf v"
  shows "\<exists>v'. reset_slots numHarqProcess (Suc (unat numHarqProcess)) v = Inr v' \<and> harq_wf v' \<and>
    (\<forall>i. content v' i = None)"
proof -
  obtain v' where v': "reset_slots numHarqProcess (Suc (unat numHarqProcess)) v = Inr v'" "harq_wf v'"
      "\<forall>i. map_of (hv_map v') i =
         map_option (tick numHarqProcess ^^ Suc (unat numHarqProcess)) (map_of (hv_map v) i)"
    using reset_slots_tick[OF assms] by blast
  have "content v' i = None" for i
    using v'(3) ticks_idle[of numHarqProcess _ "Suc (unat numHarqProcess)"] harq_wf_get[OF assms]
    by (cases "map_of (hv_map v) i") (auto simp: content_def simp del: funpow.simps)
  with v'(1,2) show ?thesis by blast
qed

text \<open>A vector of two processes, one of them waiting.\<close>

definition demo_waiting :: HarqProcess where
  "demo_waiting = HarqProcess True WAITING_FEEDBACK 1
     ((Dci_ctrl 0 1 DL_DCI DATA [1, 1])\<lparr>dci_rnti := 7, dci_rv := [0], dci_tbSize := [100]\<rparr>)"

definition demo_vector :: NrMacHarqVector where
  "demo_vector = \<lparr>hv_map = [(0, demo_waiting), (1, HarqProcess_default)], m_maxSize = 2, m_usedSize = 1\<rparr>"

lemma demo_vector_wf: "harq_wf demo_vector"
  by (simp add: harq_wf_def hv_wf_def demo_vector_def demo_waiting_def proc_wf_def HarqProcess_def
      HarqProcess_default_def active_part_def)

theorem unanswered_processes_expire_witness:
  "\<exists>v'. reset_slots 2 3 demo_vector = Inr v' \<and> content v' 0 = None \<and> content demo_vector 0 \<noteq> None"
proof -
  have "content demo_vector 0 \<noteq> None"
    by (simp add: content_def demo_vector_def demo_waiting_def HarqProcess_def)
  moreover have "Suc (unat (2 :: u8)) = 3" by simp
  ultimately show ?thesis
    using unanswered_processes_expire[OF demo_vector_wf, of 2] by (metis (no_types))
qed

lemma max_element_ge: "x \<in> set xs \<Longrightarrow> x \<le> xs ! max_element xs"
  using max_element_max by (auto simp: in_set_conv_nth)

subsection \<open>One side of the HARQ state\<close>

text \<open>
  What \<open>ProcessHARQFeedbacks\<close> relies on from the functions it is instantiated with: writing the vector of
  a UE and reading it back gives the vector, and nothing the other components rely on changes.
\<close>

definition proc_at :: "'h harq_fns \<Rightarrow> (u16 \<times> UeInfo) list \<Rightarrow> u16 \<times> u8 \<Rightarrow> HarqProcess option" where
  "proc_at F m = (\<lambda>(k, i). case map_of m k of None \<Rightarrow> None | Some ue \<Rightarrow> map_of (hv_map (f_vec F ue)) i)"

definition fb_key :: "'h harq_fns \<Rightarrow> 'h \<Rightarrow> u16 \<times> u8" where
  "fb_key F h = (f_rnti F h, f_id F h)"

definition side_wf :: "'h harq_fns \<Rightarrow> (u16 \<times> UeInfo) list \<Rightarrow> bool" where
  "side_wf F m \<longleftrightarrow> (\<forall>(k, ue) \<in> set m. harq_wf (f_vec F ue) \<and> ue_wf k ue)"

text \<open>The largest redundancy version is the last one allowed.\<close>

definition last_try :: "u8 \<Rightarrow> HarqProcess \<Rightarrow> bool" where
  "last_try mx p \<longleftrightarrow> (\<exists>d. m_dciElement p = Some d \<and> dci_rv d ! max_element (dci_rv d) = mx)"

locale harq_side =
  fixes F :: "'h harq_fns"
  assumes vec_put [simp]: "f_vec F (f_put F v ue) = v"
    and put_wf: "ue_wf k ue \<Longrightarrow> hv_wf v \<Longrightarrow> ue_wf k (f_put F v ue)"
    and put_srs: "same_srs ue (f_put F v ue)"
begin

lemma side_wf_get: "side_wf F m \<Longrightarrow> map_of m k = Some ue \<Longrightarrow> harq_wf (f_vec F ue) \<and> ue_wf k ue"
  by (auto simp: side_wf_def dest!: map_of_SomeD)

lemma side_wf_put:
  assumes "side_wf F m" and "map_of m k = Some ue" and "harq_wf v"
  shows "side_wf F (AList.update k (f_put F v ue) m)"
proof -
  have "ue_wf k (f_put F v ue)"
    using put_wf[of k ue v] side_wf_get[OF assms(1,2)] assms(3) by (simp add: harq_wf_def)
  then show ?thesis
    using assms(1,3) set_AList_update[of k "f_put F v ue" m] unfolding side_wf_def by fastforce
qed

lemma proc_at_put:
  assumes "map_of m k = Some ue" and "hv_map v = AList.update i q (hv_map (f_vec F ue))"
  shows "proc_at F (AList.update k (f_put F v ue) m) = (proc_at F m)((k, i) \<mapsto> q)"
  using assms by (auto simp: proc_at_def map_of_update fun_eq_iff)

lemma proc_at_wf: "side_wf F m \<Longrightarrow> proc_at F m ki = Some p \<Longrightarrow> proc_wf p"
  by (auto simp: proc_at_def split: prod.splits option.splits dest!: side_wf_get harq_wf_get)

text \<open>
  The outcome for a feedback: the process is freed when it was received or no retransmission is left,
  otherwise it is marked, with the streams to send again.
\<close>

definition outcome :: "u8 \<Rightarrow> 'h \<Rightarrow> HarqProcess \<Rightarrow> HarqProcess" where
  "outcome mx h p = (if f_ok F h = Inr True \<or> last_try mx p then process_Erase p
     else p\<lparr>m_status := RECEIVED_FEEDBACK, nackStreamIndexes := f_nack F h\<rparr>)"

definition kept :: "u8 \<Rightarrow> (u16 \<times> UeInfo) list \<Rightarrow> 'h list \<Rightarrow> 'h list" where
  "kept mx m hs = filter (\<lambda>h. f_ok F h \<noteq> Inr True \<and> \<not> last_try mx (the (proc_at F m (fb_key F h)))) hs"

lemma kept_cong:
  assumes "\<And>h. h \<in> set hs \<Longrightarrow> proc_at F m' (fb_key F h) = proc_at F m (fb_key F h)"
  shows "kept mx m' hs = kept mx m hs"
  using assms unfolding kept_def by (intro filter_cong refl) simp

lemma process_step:
  assumes wf: "side_wf F m" and p: "proc_at F m (fb_key F h) = Some p" and act: "m_active p"
    and ok: "f_ok F h = Inr b"
  shows "\<exists>m1. side_wf F m1 \<and> map fst m1 = map fst m \<and>
    proc_at F m1 = (proc_at F m)(fb_key F h \<mapsto> outcome mx h p) \<and>
    process_feedbacks F mx m (h # r) =
      (if b \<or> last_try mx p then process_feedbacks F mx m1 r
       else bindE (process_feedbacks F mx m1 r) (\<lambda>(m, r, c). Inr (m, h # r, c + 1)))"
proof -
  let ?k = "f_rnti F h" and ?i = "f_id F h"
  obtain ue where ue: "map_of m ?k = Some ue" "map_of (hv_map (f_vec F ue)) ?i = Some p"
    using p by (auto simp: proc_at_def fb_key_def split: option.splits)
  have hw: "harq_wf (f_vec F ue)" and pw: "proc_wf p"
    using side_wf_get[OF wf ue(1)] harq_wf_get ue(2) by auto
  obtain d where d: "m_dciElement p = Some d" "dci_rv d \<noteq> []" "\<forall>rv \<in> set (dci_rv d). rv < 4"
    using pw act by (auto simp: proc_wf_def)
  have rv: "dci_rv d ! max_element (dci_rv d) < 4"
    using d(2,3) max_element_bound[OF d(2)] by simp
  have last: "last_try mx p \<longleftrightarrow> dci_rv d ! max_element (dci_rv d) = mx" by (simp add: last_try_def d(1))
  have pre: "process_feedbacks F mx m (h # r) = (if b \<or> last_try mx p then
      bindE (hv_Erase (f_vec F ue) ?i) (\<lambda>(v, _). process_feedbacks F mx (AList.update ?k (f_put F v ue) m) r)
    else bindE (process_feedbacks F mx (AList.update ?k (f_put F (hv_Set (f_vec F ue) ?i
        (p\<lparr>m_status := RECEIVED_FEEDBACK, nackStreamIndexes := f_nack F h\<rparr>)) ue) m) r)
      (\<lambda>(m, r, c). Inr (m, h # r, c + 1)))"
    using ue act d(1,2) rv ok by (simp add: hv_Get_Some last Let_def)
  show ?thesis
  proof (cases "b \<or> last_try mx p")
    case True
    obtain v where v: "hv_Erase (f_vec F ue) ?i = Inr (v, True)" "harq_wf v"
        "hv_map v = AList.update ?i (process_Erase p) (hv_map (f_vec F ue))"
      using harq_wf_Erase[OF hw ue(2) act] by blast
    then show ?thesis
      using pre True side_wf_put[OF wf ue(1) v(2)] proc_at_put[OF ue(1) v(3)] keys_AList_update[OF ue(1)] ok
      by (intro exI[of _ "AList.update ?k (f_put F v ue) m"]) (simp add: outcome_def fb_key_def)
  next
    case False
    let ?q = "p\<lparr>m_status := RECEIVED_FEEDBACK, nackStreamIndexes := f_nack F h\<rparr>"
    let ?v = "hv_Set (f_vec F ue) ?i ?q"
    have "proc_wf ?q" using pw act by (simp add: proc_wf_def)
    then have "harq_wf ?v" using harq_wf_Set[OF hw ue(2), of ?q] by simp
    then show ?thesis
      using pre False side_wf_put[OF wf ue(1), of ?v] proc_at_put[OF ue(1), of ?v ?i ?q]
        keys_AList_update[OF ue(1)] ok
      by (intro exI[of _ "AList.update ?k (f_put F ?v ue) m"])
        (simp add: outcome_def fb_key_def hv_Set_def)
  qed
qed

lemma process_feedbacks_ok:
  assumes "side_wf F m" and "distinct (map (fb_key F) hs)"
    and "\<forall>h \<in> set hs. \<exists>p b. proc_at F m (fb_key F h) = Some p \<and> m_active p \<and> f_ok F h = Inr b"
  shows "\<exists>m'. process_feedbacks F mx m hs = Inr (m', kept mx m hs, of_nat (length (kept mx m hs))) \<and>
    side_wf F m' \<and> map fst m' = map fst m \<and>
    (\<forall>h \<in> set hs. proc_at F m' (fb_key F h) = map_option (outcome mx h) (proc_at F m (fb_key F h))) \<and>
    (\<forall>x. x \<notin> fb_key F ` set hs \<longrightarrow> proc_at F m' x = proc_at F m x)"
  using assms
proof (induction hs arbitrary: m)
  case Nil
  then show ?case by (simp add: kept_def)
next
  case (Cons h r)
  obtain p b where p: "proc_at F m (fb_key F h) = Some p" "m_active p" "f_ok F h = Inr b"
    using Cons.prems(3) by auto
  obtain m1 where m1: "side_wf F m1" "map fst m1 = map fst m"
      "proc_at F m1 = (proc_at F m)(fb_key F h \<mapsto> outcome mx h p)"
      "process_feedbacks F mx m (h # r) =
        (if b \<or> last_try mx p then process_feedbacks F mx m1 r
         else bindE (process_feedbacks F mx m1 r) (\<lambda>(m, r, c). Inr (m, h # r, c + 1)))"
    using process_step[OF Cons.prems(1) p, of mx r] by blast
  have other: "fb_key F g \<noteq> fb_key F h" if "g \<in> set r" for g
    using Cons.prems(2) that by (auto simp: image_iff)
  then have same: "proc_at F m1 (fb_key F g) = proc_at F m (fb_key F g)" if "g \<in> set r" for g
    using that m1(3) by simp
  have "\<forall>g \<in> set r. \<exists>p b. proc_at F m1 (fb_key F g) = Some p \<and> m_active p \<and> f_ok F g = Inr b"
    using Cons.prems(3) same by simp
  from Cons.IH[OF m1(1) _ this] Cons.prems(2) obtain m' where
      m': "process_feedbacks F mx m1 r = Inr (m', kept mx m1 r, of_nat (length (kept mx m1 r)))"
      "side_wf F m'" "map fst m' = map fst m1"
      "\<forall>g \<in> set r. proc_at F m' (fb_key F g) = map_option (outcome mx g) (proc_at F m1 (fb_key F g))"
      "\<forall>x. x \<notin> fb_key F ` set r \<longrightarrow> proc_at F m' x = proc_at F m1 x"
    by auto
  have k: "kept mx m1 r = kept mx m r" by (rule kept_cong[OF same])
  have "fb_key F h \<notin> fb_key F ` set r" using other by (metis imageE)
  then have "proc_at F m' (fb_key F h) = Some (outcome mx h p)"
    using m'(5) m1(3) by (metis fun_upd_same)
  then have "\<forall>g \<in> set (h # r). proc_at F m' (fb_key F g) = map_option (outcome mx g) (proc_at F m (fb_key F g))"
    using m'(4) same p(1) by simp
  moreover have "\<forall>x. x \<notin> fb_key F ` set (h # r) \<longrightarrow> proc_at F m' x = proc_at F m x"
    using m'(5) m1(3) by simp
  moreover have "process_feedbacks F mx m (h # r) =
      Inr (m', kept mx m (h # r), of_nat (length (kept mx m (h # r))))"
    using m1(4) m'(1) p k by (simp add: kept_def)
  ultimately show ?case using m'(2,3) m1(2) by (intro exI[of _ m']) simp
qed

lemma ProcessHARQFeedbacks_ok:
  assumes "side_wf F m" and "distinct (map (fb_key F) hs)" and "length hs < 2 ^ 32"
    and "\<forall>h \<in> set hs. \<exists>p b. proc_at F m (fb_key F h) = Some p \<and> m_active p \<and> f_ok F h = Inr b"
    and mx: "mx = (if retx then 3 else 0)"
  shows "\<exists>m'. ProcessHARQFeedbacks F retx m hs = Inr (m', kept mx m hs) \<and>
    side_wf F m' \<and> map fst m' = map fst m \<and>
    (\<forall>h \<in> set hs. proc_at F m' (fb_key F h) = map_option (outcome mx h) (proc_at F m (fb_key F h))) \<and>
    (\<forall>x. x \<notin> fb_key F ` set hs \<longrightarrow> proc_at F m' x = proc_at F m x)"
proof -
  have "length (kept mx m hs) < 2 ^ 32"
    using assms(3) length_filter_le[of _ hs] unfolding kept_def by (meson le_less_trans)
  then have "unat (of_nat (length (kept mx m hs)) :: u32) = length (kept mx m hs)"
    by (simp add: unsigned_of_nat take_bit_nat_eq_self_iff)
  with process_feedbacks_ok[OF assms(1,2,4), of mx] mx show ?thesis
    unfolding ProcessHARQFeedbacks_def Let_def by force
qed

text \<open>
  What is kept is what can be retransmitted: the process is active, has received its feedback, and
  every stream it has to send again has had fewer than three retransmissions.
\<close>

lemma kept_active:
  assumes "h \<in> set (kept mx m hs)" and "proc_at F m (fb_key F h) = Some p" and "m_active p"
    and "proc_at F m' (fb_key F h) = map_option (outcome mx h) (proc_at F m (fb_key F h))"
  shows "\<exists>q. proc_at F m' (fb_key F h) = Some q \<and> m_active q \<and> m_status q = RECEIVED_FEEDBACK \<and>
    nackStreamIndexes q = f_nack F h \<and> m_dciElement q = m_dciElement p \<and> \<not> last_try mx p"
  using assms by (simp add: kept_def outcome_def)

end

interpretation dl_side: harq_side dl_fns
  by unfold_locales (auto simp: ue_wf_def same_srs_def)

interpretation ul_side: harq_side ul_fns
  by unfold_locales (auto simp: ue_wf_def same_srs_def)

subsection \<open>Late and duplicated feedback\<close>

lemma process_of_Some: "process_of F m h = Inr p \<longleftrightarrow> proc_at F m (fb_key F h) = Some p"
  by (auto simp: process_of_def proc_at_def fb_key_def res_simps split: option.splits)

lemma ucast_u8_u32_inj: "(ucast (i :: u8) :: u32) = ucast j \<longleftrightarrow> i = j"
  by (metis ucast_u8_u32_u8)

definition seen_keys :: "(u16 \<Rightarrow> u32 set option) \<Rightarrow> (u16 \<times> u8) set" where
  "seen_keys fd = {(k, i). \<exists>T. fd k = Some T \<and> ucast i \<in> T}"

lemma seen_keys_upd:
  "fd k = None \<Longrightarrow> seen_keys (fd(k \<mapsto> {ucast i})) = insert (k, i) (seen_keys fd)"
  "fd k = Some T \<Longrightarrow> seen_keys (fd(k \<mapsto> insert (ucast i) T)) = insert (k, i) (seen_keys fd)"
  by (auto simp: seen_keys_def ucast_u8_u32_inj split: if_splits)

lemma drop_dup_ok:
  assumes "\<forall>h \<in> set hs. proc_at F m (fb_key F h) \<noteq> None"
  shows "\<exists>r. drop_late_or_duplicated F m fd hs = Inr r \<and> set r \<subseteq> set hs \<and> length r \<le> length hs \<and>
    distinct (map (fb_key F) r) \<and> fb_key F ` set r \<inter> seen_keys fd = {} \<and>
    (\<forall>h \<in> set r. \<exists>p. proc_at F m (fb_key F h) = Some p \<and> m_active p) \<and>
    (\<forall>h \<in> set hs. \<forall>p. proc_at F m (fb_key F h) = Some p \<longrightarrow> m_active p \<longrightarrow>
       fb_key F h \<in> seen_keys fd \<union> fb_key F ` set r)"
  using assms
proof (induction hs arbitrary: fd)
  case Nil
  then show ?case by simp
next
  case (Cons h hs)
  obtain p where p: "process_of F m h = Inr p" "proc_at F m (fb_key F h) = Some p"
    using Cons.prems process_of_Some[of F m h] by auto
  have key: "fb_key F h = (f_rnti F h, f_id F h)" by (simp add: fb_key_def)
  consider (drop) "\<not> m_active p \<or> fb_key F h \<in> seen_keys fd"
    | (keep) fd' where "m_active p" "fb_key F h \<notin> seen_keys fd"
      "seen_keys fd' = insert (fb_key F h) (seen_keys fd)"
      "drop_late_or_duplicated F m fd (h # hs) = bindE (drop_late_or_duplicated F m fd' hs) (\<lambda>r. Inr (h # r))"
  proof (cases "fd (f_rnti F h)")
    case None
    then show thesis using that(1) that(2)[of "fd(f_rnti F h \<mapsto> {ucast (f_id F h)})"] p(1)
        seen_keys_upd(1)[of fd "f_rnti F h" "f_id F h", OF None] by (force simp: key seen_keys_def)
  next
    case (Some T)
    then show thesis
      using that(1) that(2)[of "fd(f_rnti F h \<mapsto> insert (ucast (f_id F h)) T)"] p(1)
        seen_keys_upd(2)[of fd "f_rnti F h" T "f_id F h", OF Some]
      by (cases "ucast (f_id F h) \<in> T") (force simp: key seen_keys_def Let_def)+
  qed
  then show ?case
  proof cases
    case drop
    have "drop_late_or_duplicated F m fd (h # hs) = drop_late_or_duplicated F m fd hs"
      using drop p(1) by (auto simp: key seen_keys_def Let_def split: option.splits)
    moreover obtain r where "drop_late_or_duplicated F m fd hs = Inr r" "set r \<subseteq> set hs"
      "length r \<le> length hs" "distinct (map (fb_key F) r)" "fb_key F ` set r \<inter> seen_keys fd = {}"
      "\<forall>h \<in> set r. \<exists>p. proc_at F m (fb_key F h) = Some p \<and> m_active p"
      "\<forall>h \<in> set hs. \<forall>p. proc_at F m (fb_key F h) = Some p \<longrightarrow> m_active p \<longrightarrow>
         fb_key F h \<in> seen_keys fd \<union> fb_key F ` set r"
      using Cons.IH[of fd] Cons.prems by auto
    ultimately show ?thesis using drop p(2) by (intro exI[of _ r]) auto
  next
    case keep
    obtain r where "drop_late_or_duplicated F m fd' hs = Inr r" "set r \<subseteq> set hs"
      "length r \<le> length hs" "distinct (map (fb_key F) r)" "fb_key F ` set r \<inter> seen_keys fd' = {}"
      "\<forall>h \<in> set r. \<exists>p. proc_at F m (fb_key F h) = Some p \<and> m_active p"
      "\<forall>h \<in> set hs. \<forall>p. proc_at F m (fb_key F h) = Some p \<longrightarrow> m_active p \<longrightarrow>
         fb_key F h \<in> seen_keys fd' \<union> fb_key F ` set r"
      using Cons.IH[of fd'] Cons.prems by auto
    then show ?thesis using keep p(2) by (intro exI[of _ "h # r"]) auto
  qed
qed

subsection \<open>The downlink phase\<close>

lemma each_ue_ok:
  assumes "\<And>k ue. (k, ue) \<in> set m \<Longrightarrow> \<exists>ue'. f ue = Inr ue' \<and> P k ue ue'"
  shows "\<exists>m'. each_ue f m = Inr m' \<and> map fst m' = map fst m \<and>
    (\<forall>(k, ue') \<in> set m'. \<exists>ue. (k, ue) \<in> set m \<and> P k ue ue') \<and>
    (\<forall>k ue. map_of m k = Some ue \<longrightarrow> (\<exists>ue'. map_of m' k = Some ue' \<and> P k ue ue'))"
  using assms
proof (induction m)
  case Nil
  then show ?case by simp
next
  case (Cons x m)
  obtain k ue where x: "x = (k, ue)" by fastforce
  obtain u where u: "f ue = Inr u" "P k ue u" using Cons.prems[of k ue] x by auto
  obtain m' where m': "each_ue f m = Inr m'" "map fst m' = map fst m"
      "\<forall>(k, ue') \<in> set m'. \<exists>ue. (k, ue) \<in> set m \<and> P k ue ue'"
      "\<forall>k ue. map_of m k = Some ue \<longrightarrow> (\<exists>ue'. map_of m' k = Some ue' \<and> P k ue ue')"
    using Cons.IH Cons.prems by (metis (no_types, lifting) list.set_intros(2))
  have "\<forall>(j, v') \<in> set ((k, u) # m'). \<exists>v. (j, v) \<in> set (x # m) \<and> P j v v'"
    using m'(3) u(2) x by fastforce
  with m' u x show ?case by (intro exI[of _ "(k, u) # m'"]) simp
qed

text \<open>What the phase needs: well-formed UEs, and feedback for processes that exist.\<close>

definition dl_ready :: "'r sched \<Rightarrow> bool" where
  "dl_ready s \<longleftrightarrow> (\<forall>(k, ue) \<in> set (s_ueMap s). ue_wf k ue \<and> harq_wf (ue_dlHarq ue) \<and> cqi_ok ue)"

definition addressed :: "'r sched \<Rightarrow> DlHarqInfo \<Rightarrow> bool" where
  "addressed s h \<longleftrightarrow> proc_at dl_fns (s_ueMap s) (fb_key dl_fns h) \<noteq> None \<and> (\<exists>b. dl_IsReceivedOk h = Inr b)"

lemma refresh_dl_keeps:
  "refresh_dl m ue = Inr ue' \<Longrightarrow> ue_dlHarq ue' = ue_dlHarq ue \<and> (ue_wf k ue' \<longleftrightarrow> ue_wf k ue)"
  by (auto simp: refresh_dl_def res_simps ue_wf_def split: if_splits)

lemma dl_prepare:
  assumes "dl_ready s"
  shows "\<exists>m1 m2. RefreshDlCqiMaps (s_startMcsDl s) (s_ueMap s) = Inr m1 \<and>
    each_ue (\<lambda>ue. bindE (ResetExpiredHARQ n (ue_dlHarq ue)) (\<lambda>v. Inr (ue\<lparr>ue_dlHarq := v\<rparr>))) m1 = Inr m2 \<and>
    side_wf dl_fns m2 \<and> map fst m2 = map fst (s_ueMap s) \<and>
    (\<forall>x p. proc_at dl_fns (s_ueMap s) x = Some p \<longrightarrow> proc_at dl_fns m2 x = Some (tick n p))"
proof -
  have "\<exists>ue'. refresh_dl (s_startMcsDl s) ue = Inr ue' \<and>
      (ue_wf k ue' \<and> harq_wf (ue_dlHarq ue') \<and> ue_dlHarq ue' = ue_dlHarq ue)"
    if "(k, ue) \<in> set (s_ueMap s)" for k ue
    using that assms refresh_dl_ok[of ue "s_startMcsDl s"] refresh_dl_keeps[of "s_startMcsDl s" ue _ k]
    by (fastforce simp: dl_ready_def)
  from each_ue_ok[of "s_ueMap s", OF this] obtain m1 where
      m1: "RefreshDlCqiMaps (s_startMcsDl s) (s_ueMap s) = Inr m1"
      "\<forall>(k, u) \<in> set m1. ue_wf k u \<and> harq_wf (ue_dlHarq u)"
      "\<forall>k ue. map_of (s_ueMap s) k = Some ue \<longrightarrow> (\<exists>u. map_of m1 k = Some u \<and> ue_dlHarq u = ue_dlHarq ue)"
      "map fst m1 = map fst (s_ueMap s)"
    unfolding RefreshDlCqiMaps_def by fastforce
  have "\<exists>ue'. bindE (ResetExpiredHARQ n (ue_dlHarq ue)) (\<lambda>v. Inr (ue\<lparr>ue_dlHarq := v\<rparr>)) = Inr ue' \<and>
      (ue_wf k ue' \<and> harq_wf (ue_dlHarq ue') \<and>
       (\<forall>i. map_of (hv_map (ue_dlHarq ue')) i = map_option (tick n) (map_of (hv_map (ue_dlHarq ue)) i)))"
    if "(k, ue) \<in> set m1" for k ue
  proof -
    have u: "ue_wf k ue" "harq_wf (ue_dlHarq ue)" using m1(2) that by auto
    obtain v where v: "ResetExpiredHARQ n (ue_dlHarq ue) = Inr v" "harq_wf v"
        "\<forall>i. map_of (hv_map v) i = map_option (tick n) (map_of (hv_map (ue_dlHarq ue)) i)"
      using ResetExpiredHARQ_tick[OF u(2)] by blast
    then show ?thesis using u by (intro exI[of _ "ue\<lparr>ue_dlHarq := v\<rparr>"]) (simp add: ue_wf_def harq_wf_def)
  qed
  from each_ue_ok[of m1, OF this] obtain m2 where m2:
      "each_ue (\<lambda>ue. bindE (ResetExpiredHARQ n (ue_dlHarq ue)) (\<lambda>v. Inr (ue\<lparr>ue_dlHarq := v\<rparr>))) m1 = Inr m2"
      "\<forall>(k, u) \<in> set m2. ue_wf k u \<and> harq_wf (ue_dlHarq u)" "map fst m2 = map fst m1"
      "\<forall>k ue. map_of m1 k = Some ue \<longrightarrow> (\<exists>u. map_of m2 k = Some u \<and>
         (\<forall>i. map_of (hv_map (ue_dlHarq u)) i = map_option (tick n) (map_of (hv_map (ue_dlHarq ue)) i)))"
    by fastforce
  have "proc_at dl_fns m2 x = Some (tick n p)" if x: "proc_at dl_fns (s_ueMap s) x = Some p" for x p
  proof -
    obtain k i where ki: "x = (k, i)" by fastforce
    obtain ue where "map_of (s_ueMap s) k = Some ue" "map_of (hv_map (ue_dlHarq ue)) i = Some p"
      using x by (auto simp: ki proc_at_def split: option.splits)
    moreover from this(1) m1(3) obtain u where "map_of m1 k = Some u" "ue_dlHarq u = ue_dlHarq ue" by blast
    moreover from this(1) m2(4) obtain w where "map_of m2 k = Some w"
        "\<forall>i. map_of (hv_map (ue_dlHarq w)) i = map_option (tick n) (map_of (hv_map (ue_dlHarq u)) i)"
      by blast
    ultimately show ?thesis by (simp add: ki proc_at_def)
  qed
  moreover have "side_wf dl_fns m2" using m2(2) by (fastforce simp: side_wf_def)
  ultimately show ?thesis using m1(1,4) m2(1,3) by auto
qed

lemma no_last_try:
  assumes "proc_wf p" and "m_active p" and "\<not> last_try 3 p" and "m_dciElement p = Some d"
    and "rv \<in> set (dci_rv d)"
  shows "rv < 3"
proof -
  have ne: "dci_rv d \<noteq> []" using assms(5) by auto
  let ?x = "dci_rv d ! max_element (dci_rv d)"
  have "?x < 4" "?x \<noteq> 3" using assms(1-4) max_element_bound[OF ne] by (auto simp: proc_wf_def last_try_def)
  then have "unat ?x < 4" "unat ?x \<noteq> 3" by (auto simp: word_less_nat_alt word_unat_eq_iff)
  then have "?x < 3" by (simp add: word_less_nat_alt)
  then show ?thesis using max_element_ge[OF assms(5)] by (rule le_less_trans[rotated])
qed

text \<open>
  The state in the middle of the phase: \<open>m2\<close> after refreshing and expiring, \<open>hs\<close> the feedback left after the
  removal, \<open>m'\<close> the UEs after processing it.
\<close>

lemma dl_phase_runs:
  fixes s :: "'r sched" and new :: "DlHarqInfo list"
  defines "all \<equiv> s_dlHarqToRetransmit s @ new" and "mx \<equiv> if s_enableHarqReTx s then 3 else 0 :: u8"
  assumes ready: "dl_ready s" and addr: "\<forall>h \<in> set all. addressed s h" and len: "length all < 2 ^ 32"
  obtains m2 hs m' s' where
    "dl_harq_phase e s new = Inr (s', dl_side.kept mx m2 hs)" "s_dlHarqToRetransmit s' = []" "s_ueMap s' = m'"
    "map fst m' = map fst (s_ueMap s)" "side_wf dl_fns m2"
    "\<forall>x p. proc_at dl_fns (s_ueMap s) x = Some p \<longrightarrow> proc_at dl_fns m2 x = Some (tick (e_numHarqProcess e) p)"
    "set hs \<subseteq> set all" "distinct (map (fb_key dl_fns) hs)"
    "\<forall>h \<in> set hs. \<exists>p. proc_at dl_fns m2 (fb_key dl_fns h) = Some p \<and> m_active p \<and>
       proc_at dl_fns m' (fb_key dl_fns h) = Some (dl_side.outcome mx h p)"
    "\<forall>h \<in> set all. \<forall>p. proc_at dl_fns m2 (fb_key dl_fns h) = Some p \<longrightarrow> m_active p \<longrightarrow>
       fb_key dl_fns h \<in> fb_key dl_fns ` set hs"
proof -
  let ?F = dl_fns
  obtain m1 m2 where m: "RefreshDlCqiMaps (s_startMcsDl s) (s_ueMap s) = Inr m1"
      "each_ue (\<lambda>ue. bindE (ResetExpiredHARQ (e_numHarqProcess e) (ue_dlHarq ue)) (\<lambda>v.
         Inr (ue\<lparr>ue_dlHarq := v\<rparr>))) m1 = Inr m2"
      "side_wf ?F m2"
      "\<forall>x p. proc_at ?F (s_ueMap s) x = Some p \<longrightarrow> proc_at ?F m2 x = Some (tick (e_numHarqProcess e) p)"
      "map fst m2 = map fst (s_ueMap s)"
    using dl_prepare[OF ready, of "e_numHarqProcess e"] by blast
  have "\<forall>h \<in> set all. proc_at ?F m2 (fb_key ?F h) \<noteq> None"
    using addr m(4) unfolding addressed_def by (metis option.exhaust option.simps(3))
  then obtain hs where hs: "drop_late_or_duplicated ?F m2 (\<lambda>_. None) all = Inr hs" "set hs \<subseteq> set all"
      "length hs \<le> length all" "distinct (map (fb_key ?F) hs)"
      "\<forall>h \<in> set hs. \<exists>p. proc_at ?F m2 (fb_key ?F h) = Some p \<and> m_active p"
      "\<forall>h \<in> set all. \<forall>p. proc_at ?F m2 (fb_key ?F h) = Some p \<longrightarrow> m_active p \<longrightarrow>
         fb_key ?F h \<in> seen_keys (\<lambda>_. None) \<union> fb_key ?F ` set hs"
    using drop_dup_ok[of all ?F m2 "\<lambda>_. None"] by blast
  have "\<forall>h \<in> set hs. \<exists>p b. proc_at ?F m2 (fb_key ?F h) = Some p \<and> m_active p \<and> f_ok ?F h = Inr b"
  proof
    fix h assume h: "h \<in> set hs"
    then have "\<exists>b. dl_IsReceivedOk h = Inr b" using hs(2) addr unfolding addressed_def by blast
    then show "\<exists>p b. proc_at ?F m2 (fb_key ?F h) = Some p \<and> m_active p \<and> f_ok ?F h = Inr b"
      using hs(5) h by (metis fns_sel(3))
  qed
  then obtain m' where m': "ProcessHARQFeedbacks ?F (s_enableHarqReTx s) m2 hs = Inr (m', dl_side.kept mx m2 hs)"
      "map fst m' = map fst m2"
      "\<forall>h \<in> set hs. proc_at ?F m' (fb_key ?F h) = map_option (dl_side.outcome mx h) (proc_at ?F m2 (fb_key ?F h))"
    using dl_side.ProcessHARQFeedbacks_ok[OF m(3) hs(4) _ _ refl, of "s_enableHarqReTx s"] hs(3) len
    by (auto simp: mx_def)
  have run: "\<exists>s'. dl_harq_phase e s new = Inr (s', dl_side.kept mx m2 hs) \<and> s_dlHarqToRetransmit s' = [] \<and> s_ueMap s' = m'"
  proof (cases "all = []")
    case True
    then have "hs = []" using hs(2) by simp
    then show ?thesis using True m(1,2) m'(1) by (simp add: dl_harq_phase_def all_def dl_side.kept_def ProcessHARQFeedbacks_def)
  next
    case False
    then show ?thesis using m(1,2) hs(1) m'(1)
      by (auto simp: dl_harq_phase_def MergeHARQ_def all_def)
  qed
  then obtain s' where s': "dl_harq_phase e s new = Inr (s', dl_side.kept mx m2 hs)"
      "s_dlHarqToRetransmit s' = []" "s_ueMap s' = m'" by blast
  have active: "\<forall>h \<in> set hs. \<exists>p. proc_at dl_fns m2 (fb_key dl_fns h) = Some p \<and> m_active p \<and>
       proc_at dl_fns m' (fb_key dl_fns h) = Some (dl_side.outcome mx h p)"
    using hs(5) m'(3) by force
  have all_kept: "\<forall>h \<in> set all. \<forall>p. proc_at dl_fns m2 (fb_key dl_fns h) = Some p \<longrightarrow> m_active p \<longrightarrow>
       fb_key dl_fns h \<in> fb_key dl_fns ` set hs"
    using hs(6) by (simp add: seen_keys_def)
  show thesis by (rule that[OF s' _ m(3,4) hs(2,4) active all_kept]) (use m(5) m'(2) in simp)
qed

lemma dl_keys: "map (fb_key dl_fns) xs = map (\<lambda>h. (dlh_rnti h, dlh_harqProcessId h)) xs"
  by (simp add: fb_key_def)

lemma kept_feedback:
  assumes h: "h \<in> set (dl_side.kept (if rtx then 3 else 0) m2 hs)" and wf: "side_wf dl_fns m2"
    and out: "\<forall>h \<in> set hs. \<exists>p. proc_at dl_fns m2 (fb_key dl_fns h) = Some p \<and> m_active p \<and>
       proc_at dl_fns m' (fb_key dl_fns h) = Some (dl_side.outcome (if rtx then 3 else 0) h p)"
    and addr: "addressed s h"
  shows "dl_IsReceivedOk h = Inr False \<and> (\<exists>ue p d. map_of m' (dlh_rnti h) = Some ue \<and>
      map_of (hv_map (ue_dlHarq ue)) (dlh_harqProcessId h) = Some p \<and> m_active p \<and>
      m_status p = RECEIVED_FEEDBACK \<and> nackStreamIndexes p = dl_GetNackStreamIndexes h \<and>
      m_dciElement p = Some d \<and> (rtx \<longrightarrow> (\<forall>rv \<in> set (dci_rv d). rv < 3)))"
proof -
  have hh: "h \<in> set hs" using h by (auto simp: dl_side.kept_def)
  then obtain p where p: "proc_at dl_fns m2 (fb_key dl_fns h) = Some p" "m_active p"
      "proc_at dl_fns m' (fb_key dl_fns h) = Some (dl_side.outcome (if rtx then 3 else 0) h p)"
    using out by blast
  obtain q where q: "proc_at dl_fns m' (fb_key dl_fns h) = Some q" "m_active q" "m_status q = RECEIVED_FEEDBACK"
      "nackStreamIndexes q = dl_GetNackStreamIndexes h" "m_dciElement q = m_dciElement p"
      "\<not> last_try (if rtx then 3 else 0) p"
    using dl_side.kept_active[OF h p(1,2), of m'] p by auto
  have wfp: "proc_wf p" by (rule dl_side.proc_at_wf[OF wf p(1)])
  then obtain d where d: "m_dciElement p = Some d" using p(2) by (auto simp: proc_wf_def)
  have "dl_IsReceivedOk h = Inr False"
    using h addr by (auto simp: dl_side.kept_def addressed_def)
  moreover have "rtx \<longrightarrow> (\<forall>rv \<in> set (dci_rv d). rv < 3)"
    using no_last_try[OF wfp p(2) _ d] q(6) by auto
  ultimately show ?thesis using q d
    by (auto simp: proc_at_def fb_key_def split: option.splits)
qed

text \<open>
  C21. The downlink HARQ feedback always gets through, late, duplicated or repeated from an earlier slot as
  it may be: from well-formed UEs, and for feedback that names existing processes, refreshing the
  CQIs, expiring processes, merging old and new feedback and processing it never stops the program.
  What is left to schedule is at most one feedback per process, each of them a NACK for an active
  process that is marked with exactly the streams to send again, and of which, with retransmissions
  enabled, no stream has used up its three. No old feedback stays behind.
\<close>
theorem dl_feedback_gets_through:
  assumes "dl_ready s" and "\<forall>h \<in> set (s_dlHarqToRetransmit s @ new). addressed s h"
    and "length (s_dlHarqToRetransmit s @ new) < 2 ^ 32"
  shows "\<exists>s' fb. dl_harq_phase e s new = Inr (s', fb) \<and> s_dlHarqToRetransmit s' = [] \<and>
    map fst (s_ueMap s') = map fst (s_ueMap s) \<and>
    set fb \<subseteq> set (s_dlHarqToRetransmit s @ new) \<and>
    distinct (map (\<lambda>h. (dlh_rnti h, dlh_harqProcessId h)) fb) \<and>
    (\<forall>h \<in> set fb. dl_IsReceivedOk h = Inr False \<and> (\<exists>ue p d.
       map_of (s_ueMap s') (dlh_rnti h) = Some ue \<and>
       map_of (hv_map (ue_dlHarq ue)) (dlh_harqProcessId h) = Some p \<and> m_active p \<and>
       m_status p = RECEIVED_FEEDBACK \<and> nackStreamIndexes p = dl_GetNackStreamIndexes h \<and>
       m_dciElement p = Some d \<and> (s_enableHarqReTx s \<longrightarrow> (\<forall>rv \<in> set (dci_rv d). rv < 3)))) \<and>
    (\<forall>h \<in> set (s_dlHarqToRetransmit s @ new). \<forall>p.
       proc_at dl_fns (s_ueMap s) (dlh_rnti h, dlh_harqProcessId h) = Some p \<longrightarrow>
       m_active (tick (e_numHarqProcess e) p) \<longrightarrow>
       \<not> last_try (if s_enableHarqReTx s then 3 else 0) (tick (e_numHarqProcess e) p) \<longrightarrow>
       (\<forall>g \<in> set (s_dlHarqToRetransmit s @ new).
          (dlh_rnti g, dlh_harqProcessId g) = (dlh_rnti h, dlh_harqProcessId h) \<longrightarrow> dl_IsReceivedOk g = Inr False) \<longrightarrow>
       (dlh_rnti h, dlh_harqProcessId h) \<in> (\<lambda>g. (dlh_rnti g, dlh_harqProcessId g)) ` set fb)"
proof -
  let ?F = dl_fns and ?all = "s_dlHarqToRetransmit s @ new" and ?mx = "if s_enableHarqReTx s then 3 else 0 :: u8"
  let ?n = "e_numHarqProcess e"
  obtain m2 hs m' s' where r: "dl_harq_phase e s new = Inr (s', dl_side.kept ?mx m2 hs)" "s_dlHarqToRetransmit s' = []"
    "s_ueMap s' = m'" "map fst m' = map fst (s_ueMap s)" "side_wf ?F m2"
    "\<forall>x p. proc_at ?F (s_ueMap s) x = Some p \<longrightarrow> proc_at ?F m2 x = Some (tick ?n p)"
    "set hs \<subseteq> set ?all" "distinct (map (fb_key ?F) hs)"
    "\<forall>h \<in> set hs. \<exists>p. proc_at ?F m2 (fb_key ?F h) = Some p \<and> m_active p \<and>
       proc_at ?F m' (fb_key ?F h) = Some (dl_side.outcome ?mx h p)"
    "\<forall>h \<in> set ?all. \<forall>p. proc_at ?F m2 (fb_key ?F h) = Some p \<longrightarrow> m_active p \<longrightarrow>
       fb_key ?F h \<in> fb_key ?F ` set hs"
    using dl_phase_runs[OF assms] .
  let ?fb = "dl_side.kept ?mx m2 hs"
  have fb: "dl_IsReceivedOk h = Inr False \<and> (\<exists>ue p d. map_of m' (dlh_rnti h) = Some ue \<and>
      map_of (hv_map (ue_dlHarq ue)) (dlh_harqProcessId h) = Some p \<and> m_active p \<and>
      m_status p = RECEIVED_FEEDBACK \<and> nackStreamIndexes p = dl_GetNackStreamIndexes h \<and>
      m_dciElement p = Some d \<and> (s_enableHarqReTx s \<longrightarrow> (\<forall>rv \<in> set (dci_rv d). rv < 3)))"
    if "h \<in> set ?fb" for h
  proof -
    have "h \<in> set ?all" using that r(7) by (auto simp: dl_side.kept_def)
    then show ?thesis using kept_feedback[OF that r(5,9)] assms(2) by blast
  qed
  have complete: "(dlh_rnti h, dlh_harqProcessId h) \<in> (\<lambda>g. (dlh_rnti g, dlh_harqProcessId g)) ` set ?fb"
    if h: "h \<in> set ?all" "proc_at ?F (s_ueMap s) (dlh_rnti h, dlh_harqProcessId h) = Some p"
      "m_active (tick ?n p)" "\<not> last_try ?mx (tick ?n p)"
      "\<forall>g \<in> set ?all. (dlh_rnti g, dlh_harqProcessId g) = (dlh_rnti h, dlh_harqProcessId h) \<longrightarrow>
         dl_IsReceivedOk g = Inr False" for h p
  proof -
    have p: "proc_at ?F m2 (fb_key ?F h) = Some (tick ?n p)" using r(6) h(2) by (simp add: fb_key_def)
    then obtain g where g: "g \<in> set hs" "fb_key ?F g = fb_key ?F h" using r(10) h(1,3) by force
    then have "g \<in> set ?fb" using h(4,5) r(7) p by (auto simp: dl_side.kept_def fb_key_def)
    then show ?thesis using g(2) by (intro image_eqI[of _ _ g]) (auto simp: fb_key_def)
  qed
  have "distinct (map (\<lambda>h. (dlh_rnti h, dlh_harqProcessId h)) ?fb)"
    using r(8) unfolding dl_keys dl_side.kept_def by (rule distinct_map_filter)
  moreover have "set ?fb \<subseteq> set ?all" using r(7) by (auto simp: dl_side.kept_def)
  ultimately show ?thesis using r(1-4) fb complete by (intro exI[of _ s'] exI[of _ ?fb]) simp
qed

definition demo_nack :: "u8 \<Rightarrow> DlHarqInfo" where
  "demo_nack i = \<lparr>dlh_rnti = 7, dlh_harqProcessId = i, dlh_bwpIndex = 0, dlh_harqStatus = [NACK], dlh_numRetx = [0]\<rparr>"

definition demo_waiting_sched :: "unit sched" where
  "demo_waiting_sched = demo_sched\<lparr>s_ueMap := [(7, (demo_ue 7 9 0)\<lparr>ue_dlHarq := demo_vector\<rparr>)],
     s_dlHarqToRetransmit := [demo_nack 0]\<rparr>"

lemma demo_waiting_ready:
  "dl_ready demo_waiting_sched" "addressed demo_waiting_sched (demo_nack 0)"
proof -
  have "hv_wf demo_vector" using demo_vector_wf by (simp add: harq_wf_def)
  then show "dl_ready demo_waiting_sched" using demo_vector_wf
    by (simp add: dl_ready_def demo_waiting_sched_def demo_sched_def ue_wf_def demo_ue_def
        NrMacSchedulerUeInfo_def hv_wf_empty groups_wf_def ul_groups_wf_def cqi_ok_def)
  show "addressed demo_waiting_sched (demo_nack 0)"
    by (auto simp: demo_waiting_sched_def addressed_def demo_nack_def
        dl_IsReceivedOk_def proc_at_def fb_key_def demo_vector_def)
qed

text \<open>A NACK stored in an earlier slot and its duplicate of this slot: one retransmission is left.\<close>

theorem dl_feedback_gets_through_witness:
  "\<exists>s'. dl_harq_phase demo_env demo_waiting_sched [demo_nack 0] = Inr (s', [demo_nack 0]) \<and>
    s_dlHarqToRetransmit s' = []"
proof -
  let ?s = demo_waiting_sched and ?new = "[demo_nack 0]"
  let ?key = "\<lambda>h. (dlh_rnti h, dlh_harqProcessId h)"
  have old: "s_dlHarqToRetransmit ?s = [demo_nack 0]" by (simp add: demo_waiting_sched_def)
  have pre: "\<forall>h \<in> set (s_dlHarqToRetransmit ?s @ ?new). addressed ?s h"
    "length (s_dlHarqToRetransmit ?s @ ?new) < 2 ^ 32"
    using demo_waiting_ready by (simp_all add: old)
  have p0: "proc_at dl_fns (s_ueMap ?s) (?key (demo_nack 0)) = Some demo_waiting"
    by (simp add: proc_at_def demo_waiting_sched_def demo_vector_def demo_nack_def)
  have t0: "m_active (tick (e_numHarqProcess demo_env) demo_waiting)"
    "\<not> last_try (if s_enableHarqReTx ?s then 3 else 0) (tick (e_numHarqProcess demo_env) demo_waiting)"
    by (simp_all add: demo_env_def demo_waiting_sched_def demo_sched_def
        tick_def demo_waiting_def HarqProcess_def last_try_def max_element_def)
  have nack: "dl_IsReceivedOk (demo_nack 0) = Inr False" by (simp add: demo_nack_def dl_IsReceivedOk_def)
  obtain s' fb where r: "dl_harq_phase demo_env ?s ?new = Inr (s', fb)" "s_dlHarqToRetransmit s' = []"
      "set fb \<subseteq> set (s_dlHarqToRetransmit ?s @ ?new)" "distinct (map ?key fb)"
      "?key (demo_nack 0) \<in> ?key ` set fb"
    using dl_feedback_gets_through[OF demo_waiting_ready(1) pre, of demo_env] p0 t0 nack
    by (fastforce simp: old)
  have sub: "set fb \<subseteq> {demo_nack 0}" using r(3) by (simp add: old)
  have "fb = [demo_nack 0]"
  proof (cases fb)
    case Nil
    then show ?thesis using r(5) by simp
  next
    case (Cons h hs)
    then show ?thesis using sub r(4) by (cases hs) auto
  qed
  with r(1,2) show ?thesis by blast
qed

end
