(* ===== verification/HarqRr.thy ===== *)
theory HarqRr
  imports SchedHarq
begin

text \<open>
  Where retransmissions go in a slot: \<open>NrMacSchedulerHarqRr\<close> of
  \<open>contrib/nr/model/nr-mac-scheduler-harq-rr.cc\<close>. The state the C++ writes through its arguments is the
  record \<open>rr\<close>. Feedback lists are taken to have fewer than \<open>2^16\<close> entries, the range of the C++ loop index.
\<close>

record PointInFTPlane =
  pt_rbg :: u32
  pt_sym :: u8

record 'h rr =
  rr_ueMap :: "(u16 \<times> UeInfo) list"
  rr_point :: PointInFTPlane
  rr_toRetransmit :: "'h list"
  rr_slotAlloc :: SlotAllocInfo
  rr_used :: u8

subsection \<open>Downlink\<close>

fun BufferHARQFeedback :: "DlHarqInfo list \<Rightarrow> DlHarqInfo list \<Rightarrow> u16 \<Rightarrow> u8 \<Rightarrow> DlHarqInfo list res" where
  "BufferHARQFeedback [] dlHarqToRetransmit rnti harqProcess = Inl AssertFailed"
| "BufferHARQFeedback (feedback # r) dlHarqToRetransmit rnti harqProcess =
     (if dlh_rnti feedback = rnti \<and> dlh_harqProcessId feedback = harqProcess
      then Inr (dlHarqToRetransmit @ [feedback])
      else BufferHARQFeedback r dlHarqToRetransmit rnti harqProcess)"

text \<open>One stream of the new DCI: the vectors of sizes, MCSs, redundancy versions and new data indicators.\<close>

type_synonym stream_vectors = "u32 list \<times> u8 list \<times> u8 list \<times> u8 list"

definition retx_stream :: "u8 list \<Rightarrow> dci \<Rightarrow> stream_vectors \<Rightarrow> nat \<Rightarrow> stream_vectors res" where
  "retx_stream nacks d = (\<lambda>(tbSize, mcs, rv, ndi) stream.
     if stream \<in> unat ` set nacks then
       bindE (vec_at (dci_tbSize d) stream) (\<lambda>t. bindE (vec_set tbSize stream t) (\<lambda>tbSize.
       bindE (vec_at (dci_mcs d) stream) (\<lambda>m. bindE (vec_set mcs stream m) (\<lambda>mcs.
       bindE (vec_at (dci_rv d) stream) (\<lambda>v. bindE (vec_set rv stream (v + 1)) (\<lambda>rv.
       bindE (vec_set ndi stream 0) (\<lambda>ndi. Inr (tbSize, mcs, rv, ndi))))))))
     else
       bindE (vec_set tbSize stream 0) (\<lambda>tbSize.
       bindE (vec_set mcs stream 255) (\<lambda>mcs.
       bindE (vec_set rv stream 0) (\<lambda>rv.
       bindE (vec_set ndi stream 255) (\<lambda>ndi. Inr (tbSize, mcs, rv, ndi))))))"

definition retx_streams :: "u8 list \<Rightarrow> dci \<Rightarrow> stream_vectors res" where
  "retx_streams nacks d =
     foldE (retx_stream nacks d)
       (replicate (length (dci_tbSize d)) 0, replicate (length (dci_mcs d)) 0,
        replicate (length (dci_rv d)) 0, replicate (length (dci_ndi d)) 0)
       [0..<length (dci_tbSize d)]"

definition block_mask :: "nat \<Rightarrow> nat \<Rightarrow> nat \<Rightarrow> u8 list" where
  "block_mask len start n = map (\<lambda>i. if start \<le> i \<and> i < start + n then 1 else 0) [0..<len]"

text \<open>
  One process: it is put off when its UE already has a retransmission in the beam or when what is left of the
  bandwidth is too small, and gets the next RBGs otherwise.
\<close>

definition retx_dl :: "u16 \<Rightarrow> u8 \<Rightarrow> DlHarqInfo list \<Rightarrow> DlHarqInfo rr \<times> u16 list \<Rightarrow> u16 \<times> u8 \<Rightarrow>
    (DlHarqInfo rr \<times> u16 list) res" where
  "retx_dl bw symPerBeam dlHarqFeedback = (\<lambda>(s, allocatedUe) (k, i).
     bindE (map_deref k (rr_ueMap s)) (\<lambda>ue.
     bindE (map_deref i (hv_map (ue_dlHarq ue))) (\<lambda>p.
     ns_assert (m_status p = RECEIVED_FEEDBACK)
     (let p = p\<lparr>m_status := WAITING_FEEDBACK, m_timer := 0\<rparr>;
          s = s\<lparr>rr_ueMap := AList.update k (ue\<lparr>ue_dlHarq := hv_Set (ue_dlHarq ue) i p\<rparr>) (rr_ueMap s)\<rparr>
      in case m_dciElement p of
        None \<Rightarrow> Inl Undefined
      | Some d \<Rightarrow>
        let rbgAssigned = count_list (dci_rbgBitmask d) 1 * unat (dci_numSym d);
            rbgAvail = (ucast bw - pt_rbg (rr_point s)) * ucast symPerBeam :: u32
        in if dci_rnti d \<in> set allocatedUe \<or> unat rbgAvail < rbgAssigned then
             bindE (BufferHARQFeedback dlHarqFeedback (rr_toRetransmit s) (dci_rnti d) (dci_harqProcess d))
               (\<lambda>l. Inr (s\<lparr>rr_toRetransmit := l\<rparr>, allocatedUe))
           else
             ns_assert (dci_format d = DL_DCI)
             (bindE (retx_streams (nackStreamIndexes p) d) (\<lambda>(tbSize, mcs, rv, ndi).
              let dci = (Dci_data (dci_rnti d) (dci_format d) (pt_sym (rr_point s)) symPerBeam mcs tbSize
                          ndi rv DATA (dci_bwpIndex d) (dci_tpc d))
                        \<lparr>dci_rbgBitmask := dci_rbgBitmask d, dci_harqProcess := dci_harqProcess d\<rparr>
              in defined_if (symPerBeam \<noteq> 0)
                (let n = rbgAssigned div unat symPerBeam + (if rbgAssigned mod unat symPerBeam = 0 then 0 else 1)
                 in ns_abort_if (n > length (dci_rbgBitmask dci))
                   (let dci = dci\<lparr>dci_rbgBitmask :=
                          block_mask (length (dci_rbgBitmask dci)) (unat (pt_rbg (rr_point s))) n\<rparr>;
                        p = p\<lparr>m_dciElement := Some dci\<rparr>;
                        m = AList.update k (ue\<lparr>ue_dlHarq := hv_Set (ue_dlHarq ue) i p\<rparr>) (rr_ueMap s);
                        slotInfo = (VarTtiAllocInfo dci)\<lparr>tti_rlcPduInfo := m_rlcPduInfo p\<rparr>;
                        slot = (rr_slotAlloc s)\<lparr>slot_varTtiAllocInfo :=
                          slot_varTtiAllocInfo (rr_slotAlloc s) @ [slotInfo]\<rparr>
                    in bindE (map_deref (dci_rnti dci) m) (\<lambda>u.
                       Inr (s\<lparr>rr_ueMap := AList.update (dci_rnti dci)
                                (u\<lparr>ue_dlMRBRetx := of_nat (unat symPerBeam * n)\<rparr>) m,
                              rr_point := (rr_point s)\<lparr>pt_rbg := pt_rbg (rr_point s) + of_nat n\<rparr>,
                              rr_slotAlloc := slot\<rparr>,
                            allocatedUe @ [dci_rnti d]))))))))))"

definition retx_beam :: "u16 \<Rightarrow> u8 \<Rightarrow> DlHarqInfo list \<Rightarrow> DlHarqInfo rr \<Rightarrow> BeamConfId \<times> (u16 \<times> u8) list \<Rightarrow>
    DlHarqInfo rr res" where
  "retx_beam bw symPerBeam dlHarqFeedback s = (\<lambda>(_, refs).
     bindE (foldE (retx_dl bw symPerBeam dlHarqFeedback) (s, []) refs) (\<lambda>(s, allocatedUe).
     Inr (if allocatedUe \<noteq> [] then
            s\<lparr>rr_point := \<lparr>pt_rbg = 0, pt_sym = pt_sym (rr_point s) + symPerBeam\<rparr>,
              rr_used := rr_used s + symPerBeam,
              rr_slotAlloc := (rr_slotAlloc s)\<lparr>slot_numSymAlloc :=
                slot_numSymAlloc (rr_slotAlloc s) + ucast symPerBeam\<rparr>\<rparr>
          else s)))"

text \<open>The symbols per beam: an integer division by the number of beams, which must not be 0.\<close>

definition ScheduleDlHarq :: "u16 \<Rightarrow> PointInFTPlane \<Rightarrow> u8 \<Rightarrow> ActiveHarqMap \<Rightarrow> (u16 \<times> UeInfo) list \<Rightarrow>
    DlHarqInfo list \<Rightarrow> DlHarqInfo list \<Rightarrow> SlotAllocInfo \<Rightarrow> DlHarqInfo rr res" where
  "ScheduleDlHarq bw startingPoint symAvail activeDlHarq ueMap dlHarqToRetransmit dlHarqFeedback slotAlloc =
     ns_assert (pt_rbg startingPoint = 0)
     (defined_if (activeDlHarq \<noteq> [])
      (let symPerBeam = of_nat (unat symAvail div length activeDlHarq) :: u8 in
       bindE (foldE (retx_beam bw symPerBeam dlHarqFeedback)
          \<lparr>rr_ueMap = ueMap, rr_point = startingPoint, rr_toRetransmit = dlHarqToRetransmit,
           rr_slotAlloc = slotAlloc, rr_used = 0\<rparr> activeDlHarq) (\<lambda>s.
       ns_assert (pt_rbg (rr_point s) = 0) (Inr s))))"

text \<open>\<open>SortDlHarq\<close>, with \<open>std::sort\<close> as a parameter: the processes with the most symbols first.\<close>

definition CompareNumSym :: "(u16 \<times> UeInfo) list \<Rightarrow> u16 \<times> u8 \<Rightarrow> u16 \<times> u8 \<Rightarrow> bool" where
  "CompareNumSym ueMap a b \<longleftrightarrow>
     (\<exists>p q d e. proc_at dl_fns ueMap a = Some p \<and> m_dciElement p = Some d \<and>
        proc_at dl_fns ueMap b = Some q \<and> m_dciElement q = Some e \<and> dci_numSym d > dci_numSym e)"

definition SortDlHarq :: "((u16 \<times> u8 \<Rightarrow> u16 \<times> u8 \<Rightarrow> bool) \<Rightarrow> (u16 \<times> u8) list \<Rightarrow> (u16 \<times> u8) list) \<Rightarrow>
    (u16 \<times> UeInfo) list \<Rightarrow> ActiveHarqMap \<Rightarrow> ActiveHarqMap" where
  "SortDlHarq srt ueMap activeDlHarq =
     map (\<lambda>(beam, refs). (beam, srt (CompareNumSym ueMap) refs)) activeDlHarq"

subsection \<open>Uplink\<close>

text \<open>One feedback, with the symbols still available.\<close>

definition retx_ul :: "u16 \<Rightarrow> UlHarqInfo rr \<Rightarrow> u8 \<Rightarrow> UlHarqInfo \<Rightarrow> (UlHarqInfo rr \<times> u8) res" where
  "retx_ul bw s symAvail harqInfo =
     (let k = ulh_rnti harqInfo; i = ulh_harqProcessId harqInfo in
      ns_abort_if (ul_IsReceivedOk harqInfo)
      (bindE (map_deref k (rr_ueMap s)) (\<lambda>ue.
       bindE (map_deref i (hv_map (ue_ulHarq ue))) (\<lambda>p.
       ns_assert (m_status p = RECEIVED_FEEDBACK)
       (let p = p\<lparr>m_status := WAITING_FEEDBACK, m_timer := 0\<rparr> in
        case m_dciElement p of
          None \<Rightarrow> Inl Undefined
        | Some d \<Rightarrow>
          if symAvail \<ge> dci_numSym d then
            ns_assert (dci_format d = UL_DCI)
            (ns_assert (length (nackStreamIndexes p) = 1)
             (bindE (vec_at (dci_rv d) 0) (\<lambda>v.
              let dci = (Dci_data (dci_rnti d) (dci_format d) (pt_sym (rr_point s) - dci_numSym d) (dci_numSym d)
                          (dci_mcs d) (dci_tbSize d) [0] [v + 1] DATA (dci_bwpIndex d) (dci_tpc d))
                        \<lparr>dci_rbgBitmask := dci_rbgBitmask d, dci_harqProcess := i\<rparr>;
                  p = p\<lparr>m_dciElement := Some dci\<rparr>;
                  slot = (rr_slotAlloc s)\<lparr>slot_varTtiAllocInfo :=
                             VarTtiAllocInfo dci # slot_varTtiAllocInfo (rr_slotAlloc s),
                           slot_numSymAlloc := slot_numSymAlloc (rr_slotAlloc s) + ucast (dci_numSym d)\<rparr>;
                  ue = ue\<lparr>ue_ulHarq := hv_Set (ue_ulHarq ue) i p,
                          ue_ulMRBRetx := ucast (dci_numSym d) * ucast bw\<rparr>
              in Inr (s\<lparr>rr_ueMap := AList.update k ue (rr_ueMap s),
                        rr_point := (rr_point s)\<lparr>pt_sym := pt_sym (rr_point s) - dci_numSym d\<rparr>,
                        rr_slotAlloc := slot,
                        rr_used := rr_used s + dci_numSym d\<rparr>,
                      symAvail - dci_numSym d))))
          else
            Inr (s\<lparr>rr_ueMap := AList.update k (ue\<lparr>ue_ulHarq := hv_Set (ue_ulHarq ue) i p\<rparr>) (rr_ueMap s),
                   rr_toRetransmit := rr_toRetransmit s @ [harqInfo]\<rparr>, symAvail))))))"

fun retx_ul_loop :: "u16 \<Rightarrow> UlHarqInfo rr \<Rightarrow> u8 \<Rightarrow> UlHarqInfo list \<Rightarrow> UlHarqInfo rr res" where
  "retx_ul_loop bw s symAvail [] = Inr s"
| "retx_ul_loop bw s symAvail (h # r) =
     (if symAvail > 0 then bindE (retx_ul bw s symAvail h) (\<lambda>(s, symAvail). retx_ul_loop bw s symAvail r)
      else Inr s)"

definition ScheduleUlHarq :: "u16 \<Rightarrow> PointInFTPlane \<Rightarrow> u8 \<Rightarrow> (u16 \<times> UeInfo) list \<Rightarrow> UlHarqInfo list \<Rightarrow>
    UlHarqInfo list \<Rightarrow> SlotAllocInfo \<Rightarrow> UlHarqInfo rr res" where
  "ScheduleUlHarq bw startingPoint symAvail ueMap ulHarqToRetransmit ulHarqFeedback slotAlloc =
     ns_assert (pt_rbg startingPoint = 0)
     (bindE (retx_ul_loop bw
        \<lparr>rr_ueMap = ueMap, rr_point = startingPoint, rr_toRetransmit = ulHarqToRetransmit,
         rr_slotAlloc = slotAlloc, rr_used = 0\<rparr> symAvail ulHarqFeedback) (\<lambda>s.
      ns_assert (pt_rbg (rr_point s) = 0) (Inr s)))"

subsection \<open>What a retransmission carries\<close>

definition sent_again :: "u8 list \<Rightarrow> dci \<Rightarrow> stream_vectors" where
  "sent_again nacks d =
     (let on_nack = (\<lambda>f z. map (\<lambda>j. if j \<in> unat ` set nacks then f j else z) [0..<length (dci_tbSize d)]) in
      (map (\<lambda>j. if j \<in> unat ` set nacks then dci_tbSize d ! j else 0) [0..<length (dci_tbSize d)],
       on_nack (\<lambda>j. dci_mcs d ! j) 255, on_nack (\<lambda>j. dci_rv d ! j + 1) 0, on_nack (\<lambda>j. 0) 255))"

definition streams_ok :: "dci \<Rightarrow> bool" where
  "streams_ok d \<longleftrightarrow> length (dci_mcs d) = length (dci_tbSize d) \<and> length (dci_rv d) = length (dci_tbSize d) \<and>
     length (dci_ndi d) = length (dci_tbSize d)"

lemma fill_upto:
  "n < L \<Longrightarrow> (map (\<lambda>j. if j < n then f j else 0) [0..<L])[n := f n] = map (\<lambda>j. if j < Suc n then f j else 0) [0..<L]"
  by (rule nth_equalityI) (auto simp: nth_list_update less_Suc_eq)

lemma retx_streams_ok:
  assumes "streams_ok d"
  shows "retx_streams nacks d = Inr (sent_again nacks d)"
proof -
  let ?L = "length (dci_tbSize d)" and ?N = "unat ` set nacks"
  define A where "A = (\<lambda>j. if j \<in> ?N then dci_tbSize d ! j else 0)"
  define B where "B = (\<lambda>j. if j \<in> ?N then dci_mcs d ! j else 255)"
  define C where "C = (\<lambda>j. if j \<in> ?N then dci_rv d ! j + 1 else 0)"
  define D where "D = (\<lambda>j. if j \<in> ?N then 0 else 255 :: u8)"
  define st where "st = (\<lambda>n. (map (\<lambda>j. if j < n then A j else 0) [0..<?L], map (\<lambda>j. if j < n then B j else 0) [0..<?L],
    map (\<lambda>j. if j < n then C j else 0) [0..<?L], map (\<lambda>j. if j < n then D j else 0) [0..<?L]))"
  have step: "retx_stream nacks d (st n) n = Inr (st (Suc n))" if "n < ?L" for n
    using assms that unfolding st_def
    by (auto simp: retx_stream_def streams_ok_def vec_set_def A_def B_def C_def D_def
        fill_upto[symmetric] simp del: map_eq_conv)
  have "foldE (retx_stream nacks d) (st 0) [0..<n] = Inr (st n)" if "n \<le> ?L" for n
    using that by (induction n) (simp_all add: foldE_append step)
  from this[of ?L] have "foldE (retx_stream nacks d) (st 0) [0..<?L] = Inr (st ?L)" by simp
  moreover have "st 0 = (replicate ?L 0, replicate (length (dci_mcs d)) 0, replicate (length (dci_rv d)) 0,
      replicate (length (dci_ndi d)) 0)"
    using assms by (simp add: st_def streams_ok_def map_replicate_const)
  moreover have "st ?L = sent_again nacks d"
    by (simp add: st_def sent_again_def A_def B_def C_def D_def Let_def cong: map_cong)
  ultimately show ?thesis by (simp add: retx_streams_def)
qed

subsection \<open>The resource blocks of an allocation\<close>

text \<open>Pairs of a symbol and an RBG, and the process an allocation is for.\<close>

definition cells :: "VarTtiAllocInfo \<Rightarrow> (nat \<times> nat) set" where
  "cells a = (let d = tti_dci a in {unat (dci_symStart d)..<unat (dci_symStart d) + unat (dci_numSym d)} \<times>
     {r. r < length (dci_rbgBitmask d) \<and> dci_rbgBitmask d ! r = 1})"

definition alloc_key :: "VarTtiAllocInfo \<Rightarrow> u16 \<times> u8" where
  "alloc_key a = (dci_rnti (tti_dci a), dci_harqProcess (tti_dci a))"

lemma cells_block:
  assumes "dci_rbgBitmask (tti_dci a) = block_mask len r n" and "r + n \<le> len"
  shows "cells a = {unat (dci_symStart (tti_dci a))..<unat (dci_symStart (tti_dci a)) + unat (dci_numSym (tti_dci a))}
    \<times> {r..<r + n}"
  using assms by (auto simp: cells_def Let_def block_mask_def split: if_splits)

text \<open>
  The resources the process had: \<open>demand\<close>. The new allocation carries the NACKed streams of the old DCI, with the
  next redundancy version and nothing for the other streams, and at least the resources the first one had.
\<close>

definition demand :: "dci \<Rightarrow> nat" where
  "demand d = count_list (dci_rbgBitmask d) 1 * unat (dci_numSym d)"

definition resends :: "HarqProcess \<Rightarrow> VarTtiAllocInfo \<Rightarrow> bool" where
  "resends p a \<longleftrightarrow> (\<exists>d. m_dciElement p = Some d \<and> dci_type (tti_dci a) = DATA \<and>
     (dci_tbSize (tti_dci a), dci_mcs (tti_dci a), dci_rv (tti_dci a), dci_ndi (tti_dci a)) =
       sent_again (nackStreamIndexes p) d \<and>
     tti_rlcPduInfo a = m_rlcPduInfo p \<and> demand d \<le> card (cells a))"

text \<open>A process that is ready to be sent again.\<close>

definition retx_ready :: "u16 \<Rightarrow> u16 \<times> u8 \<Rightarrow> HarqProcess \<Rightarrow> bool" where
  "retx_ready bw = (\<lambda>(k, i) p. m_status p = RECEIVED_FEEDBACK \<and> (\<exists>d. m_dciElement p = Some d \<and>
     dci_rnti d = k \<and> dci_harqProcess d = i \<and> dci_format d = DL_DCI \<and> streams_ok d \<and>
     length (dci_rbgBitmask d) = unat bw \<and> 0 < demand d))"

lemma BufferHARQFeedback_finds:
  assumes "(k, i) \<in> (\<lambda>h. (dlh_rnti h, dlh_harqProcessId h)) ` set fb"
  shows "\<exists>h \<in> set fb. (dlh_rnti h, dlh_harqProcessId h) = (k, i) \<and> BufferHARQFeedback fb l k i = Inr (l @ [h])"
  using assms by (induction fb) auto

lemma ceil_div:
  assumes "0 < (n :: nat)"
  shows "m \<le> n * (m div n + (if m mod n = 0 then 0 else 1))" (is ?lower)
    and "m \<le> n * c \<Longrightarrow> m div n + (if m mod n = 0 then 0 else 1) \<le> c"
proof -
  define q r where "q = m div n" and "r = m mod n"
  have m: "m = n * q + r" "r < n" using assms by (simp_all add: q_def r_def)
  have e: "m div n + (if m mod n = 0 then 0 else 1) = (if r = 0 then q else Suc q)"
    by (simp add: q_def r_def)
  show ?lower unfolding e using m by auto
  assume le: "m \<le> n * c"
  have "n * q < n * c" if "r \<noteq> 0" using that le m by linarith
  moreover have "q \<le> c" if "r = 0" using that le m assms by simp
  ultimately show "m div n + (if m mod n = 0 then 0 else 1) \<le> c" unfolding e by auto
qed

lemma proc_at_update:
  assumes "map_of m k = Some ue"
  shows "proc_at dl_fns (AList.update k (ue\<lparr>ue_dlHarq := hv_Set v i p\<rparr>) m) x =
    (if fst x = k then map_of (AList.update i p (hv_map v)) (snd x) else proc_at dl_fns m x)"
  by (cases x) (simp add: proc_at_def map_of_update hv_Set_def)

lemma rbg_avail:
  fixes r :: u32 and bw :: u16 and n :: u8
  assumes "unat r \<le> unat bw"
  shows "unat ((ucast bw - r) * ucast n) = (unat bw - unat r) * unat n"
proof -
  have d: "unat ((ucast bw :: u32) - r) = unat bw - unat r"
    using assms by (subst unat_sub) (simp_all add: word_le_nat_alt)
  have "(unat bw - unat r) * unat n \<le> (2 ^ 16) * (2 ^ 8)"
    by (rule mult_le_mono) (use u_lt[of bw] u_lt[of n] in auto)
  then show ?thesis using d by (simp add: unat_word_ariths)
qed

lemma retx_dl_step:
  fixes s :: "DlHarqInfo rr"
  assumes ue: "map_of (rr_ueMap s) k = Some ue" and p: "map_of (hv_map (ue_dlHarq ue)) i = Some p"
    and ready: "retx_ready bw (k, i) p" and fb: "(k, i) \<in> (\<lambda>h. (dlh_rnti h, dlh_harqProcessId h)) ` set fb"
    and rbg: "unat (pt_rbg (rr_point s)) \<le> unat bw"
  obtains (put_off) h m' where
      "retx_dl bw n fb (s, al) (k, i) =
         Inr (s\<lparr>rr_ueMap := m', rr_toRetransmit := rr_toRetransmit s @ [h]\<rparr>, al)"
      "(dlh_rnti h, dlh_harqProcessId h) = (k, i)"
      "\<forall>x. x \<noteq> (k, i) \<longrightarrow> proc_at dl_fns m' x = proc_at dl_fns (rr_ueMap s) x"
    | (placed) a c m' where
      "retx_dl bw n fb (s, al) (k, i) =
         Inr (s\<lparr>rr_ueMap := m', rr_point := (rr_point s)\<lparr>pt_rbg := of_nat (unat (pt_rbg (rr_point s)) + c)\<rparr>,
                rr_slotAlloc := (rr_slotAlloc s)\<lparr>slot_varTtiAllocInfo :=
                  slot_varTtiAllocInfo (rr_slotAlloc s) @ [a]\<rparr>\<rparr>, al @ [k])"
      "alloc_key a = (k, i)" "resends p a" "unat (pt_rbg (rr_point s)) + c \<le> unat bw"
      "cells a = {unat (pt_sym (rr_point s))..<unat (pt_sym (rr_point s)) + unat n} \<times>
         {unat (pt_rbg (rr_point s))..<unat (pt_rbg (rr_point s)) + c}"
      "\<forall>x. x \<noteq> (k, i) \<longrightarrow> proc_at dl_fns m' x = proc_at dl_fns (rr_ueMap s) x"
proof -
  let ?r = "pt_rbg (rr_point s)"
  obtain d where d: "m_status p = RECEIVED_FEEDBACK" "m_dciElement p = Some d" "dci_rnti d = k"
      "dci_harqProcess d = i" "dci_format d = DL_DCI" "streams_ok d" "length (dci_rbgBitmask d) = unat bw" "0 < demand d"
    using ready by (auto simp: retx_ready_def)
  let ?p = "p\<lparr>m_status := WAITING_FEEDBACK, m_timer := 0\<rparr>"
  have avail: "unat ((ucast bw - ?r) * ucast n) = (unat bw - unat ?r) * unat n" by (rule rbg_avail[OF rbg])
  have others: "\<forall>x. x \<noteq> (k, i) \<longrightarrow>
      proc_at dl_fns (AList.update k (ue\<lparr>ue_dlHarq := hv_Set (ue_dlHarq ue) i q\<rparr>) (rr_ueMap s)) x =
      proc_at dl_fns (rr_ueMap s) x" for q
    using proc_at_update[OF ue, of "ue_dlHarq ue" i q] ue by (auto simp: map_of_update proc_at_def)
  show thesis
  proof (cases "k \<in> set al \<or> (unat bw - unat ?r) * unat n < demand d")
    case True
    obtain h where h: "(dlh_rnti h, dlh_harqProcessId h) = (k, i)"
        "BufferHARQFeedback fb (rr_toRetransmit s) k i = Inr (rr_toRetransmit s @ [h])"
      using BufferHARQFeedback_finds[OF fb] by blast
    show thesis
      by (rule put_off[OF _ h(1) others[of ?p]])
        (use True h(2) ue p d avail in \<open>simp add: retx_dl_def demand_def\<close>)
  next
    case False
    let ?n = "unat n"
    let ?c = "demand d div ?n + (if demand d mod ?n = 0 then 0 else 1)"
    obtain tb mcs rv ndi where sa: "sent_again (nackStreamIndexes p) d = (tb, mcs, rv, ndi)"
      by (metis prod_cases4)
    have n: "0 < ?n" using False d(8) by (cases "?n = 0") auto
    have c: "?c \<le> unat bw - unat ?r"
      by (rule ceil_div(2)[OF n]) (use False in \<open>simp add: mult.commute not_less\<close>)
    define a where "a = (VarTtiAllocInfo ((Dci_data k DL_DCI (pt_sym (rr_point s)) n mcs tb ndi rv DATA
        (dci_bwpIndex d) (dci_tpc d))\<lparr>dci_rbgBitmask := block_mask (unat bw) (unat ?r) ?c, dci_harqProcess := i\<rparr>))
        \<lparr>tti_rlcPduInfo := m_rlcPduInfo p\<rparr>"
    have a: "dci_rbgBitmask (tti_dci a) = block_mask (unat bw) (unat ?r) ?c" "dci_symStart (tti_dci a) = pt_sym (rr_point s)"
      "dci_numSym (tti_dci a) = n" "alloc_key a = (k, i)"
      by (simp_all add: a_def VarTtiAllocInfo_def Dci_data_def alloc_key_def)
    have cl: "cells a = {unat (pt_sym (rr_point s))..<unat (pt_sym (rr_point s)) + ?n} \<times> {unat ?r..<unat ?r + ?c}"
      using cells_block[OF a(1)] c rbg by (simp add: a(2,3))
    have "resends p a"
      unfolding resends_def using d(2) ceil_div(1)[OF n, of "demand d"] cl
      by (simp add: sa) (simp add: a_def VarTtiAllocInfo_def Dci_data_def)
    define q where "q = ?p\<lparr>m_dciElement := Some (tti_dci a)\<rparr>"
    define m1 where "m1 = AList.update k (ue\<lparr>ue_dlHarq := hv_Set (ue_dlHarq ue) i q\<rparr>)
      (AList.update k (ue\<lparr>ue_dlHarq := hv_Set (ue_dlHarq ue) i ?p\<rparr>) (rr_ueMap s))"
    define m' where "m' = AList.update k (ue\<lparr>ue_dlHarq := hv_Set (ue_dlHarq ue) i q,
      ue_dlMRBRetx := of_nat (?n * ?c)\<rparr>) m1"
    have len: "\<not> length (dci_rbgBitmask d) < ?c" using c d(7) by linarith
    have m1: "map_of m1 k = Some (ue\<lparr>ue_dlHarq := hv_Set (ue_dlHarq ue) i q\<rparr>)"
      by (simp add: m1_def map_of_update)
    have others': "\<forall>x. x \<noteq> (k, i) \<longrightarrow> proc_at dl_fns m' x = proc_at dl_fns (rr_ueMap s) x"
      using ue by (auto simp: m'_def m1_def proc_at_def map_of_update hv_Set_def)
    have n0: "n \<noteq> 0" using n by auto
    show thesis
    proof (rule placed[OF _ a(4) \<open>resends p a\<close> _ cl others'])
      show "unat ?r + ?c \<le> unat bw" using c rbg by linarith
      show "retx_dl bw n fb (s, al) (k, i) =
         Inr (s\<lparr>rr_ueMap := m', rr_point := (rr_point s)\<lparr>pt_rbg := of_nat (unat ?r + ?c)\<rparr>,
                rr_slotAlloc := (rr_slotAlloc s)\<lparr>slot_varTtiAllocInfo :=
                  slot_varTtiAllocInfo (rr_slotAlloc s) @ [a]\<rparr>\<rparr>, al @ [k])"
        using False ue p d(1-5,7) avail n0 len sa retx_streams_ok[OF d(6), of "nackStreamIndexes p"]
        by (simp add: retx_dl_def demand_def[symmetric] Let_def m'_def m1_def q_def a_def
            VarTtiAllocInfo_def Dci_data_def map_of_update)
    qed
  qed
qed

subsection \<open>Runs\<close>

text \<open>
  What scheduling the processes \<open>refs\<close> does between two states: new allocations inside the area \<open>A\<close> that do not
  overlap, feedback put off, and each process in exactly one of the two.
\<close>

definition retx_run :: "(nat \<times> nat) set \<Rightarrow> DlHarqInfo rr \<Rightarrow> DlHarqInfo rr \<Rightarrow> (u16 \<times> u8) list \<Rightarrow> bool" where
  "retx_run A s s' refs \<longleftrightarrow> (\<exists>news buf.
     slot_varTtiAllocInfo (rr_slotAlloc s') = slot_varTtiAllocInfo (rr_slotAlloc s) @ news \<and>
     rr_toRetransmit s' = rr_toRetransmit s @ buf \<and>
     mset (map alloc_key news) + mset (map (\<lambda>h. (dlh_rnti h, dlh_harqProcessId h)) buf) = mset refs \<and>
     (\<forall>a \<in> set news. \<exists>p. proc_at dl_fns (rr_ueMap s) (alloc_key a) = Some p \<and> resends p a) \<and>
     sorted_wrt (\<lambda>a b. cells a \<inter> cells b = {}) news \<and> (\<forall>a \<in> set news. cells a \<subseteq> A) \<and>
     (\<forall>x. x \<notin> set refs \<longrightarrow> proc_at dl_fns (rr_ueMap s') x = proc_at dl_fns (rr_ueMap s) x))"

lemma retx_run_Nil: "retx_run A s s []"
  by (simp add: retx_run_def)

lemma retx_run_append:
  assumes 1: "retx_run A s t xs" and 2: "retx_run B t u ys" and AB: "A \<inter> B = {}" and xy: "set xs \<inter> set ys = {}"
  shows "retx_run (A \<union> B) s u (xs @ ys)"
proof -
  let ?K = "mset (map alloc_key news)" and ?F = dl_fns
  from 1 obtain n1 b1 where n1: "slot_varTtiAllocInfo (rr_slotAlloc t) = slot_varTtiAllocInfo (rr_slotAlloc s) @ n1"
      "rr_toRetransmit t = rr_toRetransmit s @ b1"
      "mset (map alloc_key n1) + mset (map (\<lambda>h. (dlh_rnti h, dlh_harqProcessId h)) b1) = mset xs"
      "\<forall>a \<in> set n1. \<exists>p. proc_at ?F (rr_ueMap s) (alloc_key a) = Some p \<and> resends p a"
      "sorted_wrt (\<lambda>a b. cells a \<inter> cells b = {}) n1" "\<forall>a \<in> set n1. cells a \<subseteq> A"
      "\<forall>x. x \<notin> set xs \<longrightarrow> proc_at ?F (rr_ueMap t) x = proc_at ?F (rr_ueMap s) x"
    unfolding retx_run_def by blast
  from 2 obtain n2 b2 where n2: "slot_varTtiAllocInfo (rr_slotAlloc u) = slot_varTtiAllocInfo (rr_slotAlloc t) @ n2"
      "rr_toRetransmit u = rr_toRetransmit t @ b2"
      "mset (map alloc_key n2) + mset (map (\<lambda>h. (dlh_rnti h, dlh_harqProcessId h)) b2) = mset ys"
      "\<forall>a \<in> set n2. \<exists>p. proc_at ?F (rr_ueMap t) (alloc_key a) = Some p \<and> resends p a"
      "sorted_wrt (\<lambda>a b. cells a \<inter> cells b = {}) n2" "\<forall>a \<in> set n2. cells a \<subseteq> B"
      "\<forall>x. x \<notin> set ys \<longrightarrow> proc_at ?F (rr_ueMap u) x = proc_at ?F (rr_ueMap t) x"
    unfolding retx_run_def by blast
  have "alloc_key a \<in> set ys" if "a \<in> set n2" for a
    using that arg_cong[OF n2(3), of set_mset] by (force simp: image_Un)
  then have "\<forall>a \<in> set n2. \<exists>p. proc_at ?F (rr_ueMap s) (alloc_key a) = Some p \<and> resends p a"
    using n2(4) n1(7) xy by (metis disjoint_iff)
  moreover have "sorted_wrt (\<lambda>a b. cells a \<inter> cells b = {}) (n1 @ n2)"
    unfolding sorted_wrt_append using n1(5,6) n2(5,6) AB by blast
  moreover have "\<forall>a \<in> set (n1 @ n2). cells a \<subseteq> A \<union> B" using n1(6) n2(6) by auto
  moreover have "mset (map alloc_key (n1 @ n2)) +
      mset (map (\<lambda>h. (dlh_rnti h, dlh_harqProcessId h)) (b1 @ b2)) = mset (xs @ ys)"
    using n1(3) n2(3) by (simp add: ac_simps flip: n1(3) n2(3))
  ultimately show ?thesis unfolding retx_run_def
    by (intro exI[of _ "n1 @ n2"] exI[of _ "b1 @ b2"]) (use n1(1,2,4,7) n2(1,2,7) in auto)
qed

lemma retx_run_mono: "retx_run A s s' refs \<Longrightarrow> A \<subseteq> B \<Longrightarrow> retx_run B s s' refs"
  unfolding retx_run_def by (meson order_trans)

text \<open>Everything the loops need of the processes, kept by runs over other processes.\<close>

definition refs_ready :: "u16 \<Rightarrow> DlHarqInfo list \<Rightarrow> (u16 \<times> UeInfo) list \<Rightarrow> (u16 \<times> u8) list \<Rightarrow> bool" where
  "refs_ready bw fb m refs \<longleftrightarrow> (\<forall>x \<in> set refs. (\<exists>p. proc_at dl_fns m x = Some p \<and> retx_ready bw x p) \<and>
     x \<in> (\<lambda>h. (dlh_rnti h, dlh_harqProcessId h)) ` set fb)"

lemma refs_ready_run:
  assumes "retx_run A s s' xs" and "refs_ready bw fb (rr_ueMap s) ys" and "set xs \<inter> set ys = {}"
  shows "refs_ready bw fb (rr_ueMap s') ys"
proof -
  have "proc_at dl_fns (rr_ueMap s') x = proc_at dl_fns (rr_ueMap s) x" if "x \<in> set ys" for x
    using assms(1,3) that unfolding retx_run_def by blast
  then show ?thesis using assms(2) by (simp add: refs_ready_def)
qed

lemma retx_dl_run:
  fixes s :: "DlHarqInfo rr"
  assumes "refs_ready bw fb (rr_ueMap s) [x]" and rbg: "unat (pt_rbg (rr_point s)) \<le> unat bw"
  shows "\<exists>s' al'. retx_dl bw n fb (s, al) x = Inr (s', al') \<and>
    retx_run ({unat (pt_sym (rr_point s))..<unat (pt_sym (rr_point s)) + unat n} \<times>
      {unat (pt_rbg (rr_point s))..<unat (pt_rbg (rr_point s'))}) s s' [x] \<and>
    pt_sym (rr_point s') = pt_sym (rr_point s) \<and> rr_used s' = rr_used s \<and>
    unat (pt_rbg (rr_point s)) \<le> unat (pt_rbg (rr_point s')) \<and> unat (pt_rbg (rr_point s')) \<le> unat bw \<and>
    (al' = [] \<longrightarrow> al = [] \<and> rr_point s' = rr_point s)"
proof -
  obtain k i where x: "x = (k, i)" by fastforce
  obtain p where p: "proc_at dl_fns (rr_ueMap s) (k, i) = Some p" "retx_ready bw (k, i) p"
      "(k, i) \<in> (\<lambda>h. (dlh_rnti h, dlh_harqProcessId h)) ` set fb"
    using assms(1) by (auto simp: refs_ready_def x)
  then obtain ue where ue: "map_of (rr_ueMap s) k = Some ue" "map_of (hv_map (ue_dlHarq ue)) i = Some p"
    by (auto simp: proc_at_def split: option.splits)
  let ?r = "unat (pt_rbg (rr_point s))"
  show ?thesis
  proof (cases rule: retx_dl_step[OF ue p(2,3) rbg, of n al, case_names put_off placed])
    case (put_off h m')
    let ?s = "s\<lparr>rr_ueMap := m', rr_toRetransmit := rr_toRetransmit s @ [h]\<rparr>"
    have "retx_run A s ?s [x]" for A
      unfolding retx_run_def using put_off(2,3) by (intro exI[of _ "[]"] exI[of _ "[h]"]) (simp add: x)
    then show ?thesis using put_off(1) rbg by (intro exI[of _ ?s] exI[of _ al]) (simp add: x)
  next
    case (placed a c m')
    let ?s = "s\<lparr>rr_ueMap := m', rr_point := (rr_point s)\<lparr>pt_rbg := of_nat (?r + c)\<rparr>,
      rr_slotAlloc := (rr_slotAlloc s)\<lparr>slot_varTtiAllocInfo := slot_varTtiAllocInfo (rr_slotAlloc s) @ [a]\<rparr>\<rparr>"
    have "?r + c < 2 ^ 32" using placed(4) u_lt[of bw] by simp
    then have r: "unat (pt_rbg (rr_point ?s)) = ?r + c"
      by (simp add: unsigned_of_nat take_bit_nat_eq_self_iff del: of_nat_add)
    have "retx_run ({unat (pt_sym (rr_point s))..<unat (pt_sym (rr_point s)) + unat n} \<times> {?r..<?r + c}) s ?s [x]"
      unfolding retx_run_def using placed(2,3,5,6) p(1)
      by (intro exI[of _ "[a]"] exI[of _ "[]"]) (simp add: x)
    then show ?thesis using placed(1,4) r by (intro exI[of _ ?s] exI[of _ "al @ [k]"]) (simp add: x)
  qed
qed

lemma retx_dl_loop:
  fixes s :: "DlHarqInfo rr"
  assumes "refs_ready bw fb (rr_ueMap s) refs" and "distinct refs" and "unat (pt_rbg (rr_point s)) \<le> unat bw"
  shows "\<exists>s' al'. foldE (retx_dl bw n fb) (s, al) refs = Inr (s', al') \<and>
    retx_run ({unat (pt_sym (rr_point s))..<unat (pt_sym (rr_point s)) + unat n} \<times>
      {unat (pt_rbg (rr_point s))..<unat (pt_rbg (rr_point s'))}) s s' refs \<and>
    pt_sym (rr_point s') = pt_sym (rr_point s) \<and> rr_used s' = rr_used s \<and>
    unat (pt_rbg (rr_point s)) \<le> unat (pt_rbg (rr_point s')) \<and> unat (pt_rbg (rr_point s')) \<le> unat bw \<and>
    (al' = [] \<longrightarrow> al = [] \<and> rr_point s' = rr_point s)"
  using assms
proof (induction refs arbitrary: s al)
  case Nil
  then show ?case by (simp add: retx_run_Nil)
next
  case (Cons x refs)
  let ?Y = "{unat (pt_sym (rr_point s))..<unat (pt_sym (rr_point s)) + unat n}"
  have "refs_ready bw fb (rr_ueMap s) [x]" using Cons.prems(1) by (simp add: refs_ready_def)
  from retx_dl_run[OF this Cons.prems(3), of n al] obtain t bl where t:
      "retx_dl bw n fb (s, al) x = Inr (t, bl)"
      "retx_run (?Y \<times> {unat (pt_rbg (rr_point s))..<unat (pt_rbg (rr_point t))}) s t [x]"
      "pt_sym (rr_point t) = pt_sym (rr_point s)" "rr_used t = rr_used s"
      "unat (pt_rbg (rr_point s)) \<le> unat (pt_rbg (rr_point t))" "unat (pt_rbg (rr_point t)) \<le> unat bw"
      "bl = [] \<longrightarrow> al = [] \<and> rr_point t = rr_point s" by blast
  have "refs_ready bw fb (rr_ueMap t) refs"
    by (rule refs_ready_run[OF t(2)]) (use Cons.prems(1,2) in \<open>simp_all add: refs_ready_def\<close>)
  from Cons.IH[OF this _ t(6), of bl] Cons.prems(2) obtain u cl where u:
      "foldE (retx_dl bw n fb) (t, bl) refs = Inr (u, cl)"
      "retx_run (?Y \<times> {unat (pt_rbg (rr_point t))..<unat (pt_rbg (rr_point u))}) t u refs"
      "pt_sym (rr_point u) = pt_sym (rr_point t)" "rr_used u = rr_used t"
      "unat (pt_rbg (rr_point t)) \<le> unat (pt_rbg (rr_point u))" "unat (pt_rbg (rr_point u)) \<le> unat bw"
      "cl = [] \<longrightarrow> bl = [] \<and> rr_point u = rr_point t" using t(3) by auto
  have "retx_run (?Y \<times> {unat (pt_rbg (rr_point s))..<unat (pt_rbg (rr_point u))}) s u ([x] @ refs)"
    by (rule retx_run_mono[OF retx_run_append[OF t(2) u(2)]]) (use Cons.prems(2) t(5) u(5) in auto)
  with t u show ?case by (intro exI[of _ u] exI[of _ cl]) auto
qed

lemma retx_run_point:
  "retx_run A s (t\<lparr>rr_point := pt, rr_used := n, rr_slotAlloc := (rr_slotAlloc t)\<lparr>slot_numSymAlloc := c\<rparr>\<rparr>) xs =
   retx_run A s t xs"
  by (simp add: retx_run_def)

lemma retx_beam_run:
  fixes s :: "DlHarqInfo rr"
  assumes "refs_ready bw fb (rr_ueMap s) refs" and "distinct refs" and 0: "pt_rbg (rr_point s) = 0"
    and y: "unat (pt_sym (rr_point s)) + unat n < 256" and used: "unat (rr_used s) + unat n < 256"
  shows "\<exists>s' g. retx_beam bw n fb s (b, refs) = Inr s' \<and> g \<le> unat n \<and>
    retx_run ({unat (pt_sym (rr_point s))..<unat (pt_sym (rr_point s'))} \<times> {..<unat bw}) s s' refs \<and>
    pt_rbg (rr_point s') = 0 \<and> unat (pt_sym (rr_point s')) = unat (pt_sym (rr_point s)) + g \<and>
    unat (rr_used s') = unat (rr_used s) + g"
proof -
  let ?y = "unat (pt_sym (rr_point s))"
  obtain t al where t: "foldE (retx_dl bw n fb) (s, []) refs = Inr (t, al)"
      "retx_run ({?y..<?y + unat n} \<times> {0..<unat (pt_rbg (rr_point t))}) s t refs"
      "pt_sym (rr_point t) = pt_sym (rr_point s)" "rr_used t = rr_used s" "unat (pt_rbg (rr_point t)) \<le> unat bw"
      "al = [] \<longrightarrow> rr_point t = rr_point s"
    using retx_dl_loop[OF assms(1,2), of n "[]"] 0 by auto
  show ?thesis
  proof (cases "al = []")
    case True
    then show ?thesis using t 0 retx_run_mono[OF t(2)]
      by (intro exI[of _ t] exI[of _ 0]) (simp add: retx_beam_def)
  next
    case False
    let ?t = "t\<lparr>rr_point := \<lparr>pt_rbg = 0, pt_sym = pt_sym (rr_point t) + n\<rparr>, rr_used := rr_used t + n,
      rr_slotAlloc := (rr_slotAlloc t)\<lparr>slot_numSymAlloc := slot_numSymAlloc (rr_slotAlloc t) + ucast n\<rparr>\<rparr>"
    have n: "unat (pt_sym (rr_point ?t)) = ?y + unat n" "unat (rr_used ?t) = unat (rr_used s) + unat n"
      using y used t(3,4) by (simp_all add: unat_word_ariths)
    have "retx_run ({?y..<?y + unat n} \<times> {..<unat bw}) s ?t refs"
      unfolding retx_run_point by (rule retx_run_mono[OF t(2)]) (use t(5) in auto)
    then show ?thesis using False t(1) n
      by (intro exI[of _ ?t] exI[of _ "unat n"]) (simp add: retx_beam_def)
  qed
qed

lemma retx_beams_run:
  fixes s :: "DlHarqInfo rr"
  assumes "refs_ready bw fb (rr_ueMap s) (concat (map snd bs))" and "distinct (concat (map snd bs))"
    and "pt_rbg (rr_point s) = 0" and "unat (pt_sym (rr_point s)) + length bs * unat n < 256"
    and "unat (rr_used s) + length bs * unat n < 256"
  shows "\<exists>s' g. foldE (retx_beam bw n fb) s bs = Inr s' \<and> g \<le> length bs * unat n \<and>
    retx_run ({unat (pt_sym (rr_point s))..<unat (pt_sym (rr_point s'))} \<times> {..<unat bw}) s s' (concat (map snd bs)) \<and>
    pt_rbg (rr_point s') = 0 \<and> unat (pt_sym (rr_point s')) = unat (pt_sym (rr_point s)) + g \<and>
    unat (rr_used s') = unat (rr_used s) + g"
  using assms
proof (induction bs arbitrary: s)
  case Nil
  then show ?case by (simp add: retx_run_Nil)
next
  case (Cons x bs)
  obtain b refs where x: "x = (b, refs)" by fastforce
  let ?y = "unat (pt_sym (rr_point s))"
  have "refs_ready bw fb (rr_ueMap s) refs" "distinct refs" using Cons.prems(1,2) by (auto simp: x refs_ready_def)
  from retx_beam_run[OF this Cons.prems(3), of n b] obtain t g where t:
      "retx_beam bw n fb s x = Inr t" "g \<le> unat n"
      "retx_run ({?y..<unat (pt_sym (rr_point t))} \<times> {..<unat bw}) s t refs" "pt_rbg (rr_point t) = 0"
      "unat (pt_sym (rr_point t)) = ?y + g" "unat (rr_used t) = unat (rr_used s) + g"
    using Cons.prems(4,5) by (auto simp: x)
  have ready: "refs_ready bw fb (rr_ueMap t) (concat (map snd bs))"
    by (rule refs_ready_run[OF t(3)]) (use Cons.prems(1,2) in \<open>auto simp: x refs_ready_def\<close>)
  obtain u h where u: "foldE (retx_beam bw n fb) t bs = Inr u" "h \<le> length bs * unat n"
      "retx_run ({?y + g..<unat (pt_sym (rr_point u))} \<times> {..<unat bw}) t u (concat (map snd bs))"
      "pt_rbg (rr_point u) = 0" "unat (pt_sym (rr_point u)) = ?y + g + h" "unat (rr_used u) = unat (rr_used s) + g + h"
    using Cons.IH[OF ready _ t(4)] Cons.prems(2,4,5) t(2,5,6) by (auto simp: x)
  have "retx_run ({?y..<unat (pt_sym (rr_point u))} \<times> {..<unat bw}) s u (refs @ concat (map snd bs))"
    by (rule retx_run_mono[OF retx_run_append[OF t(3) u(3)]]) (use Cons.prems(2) t(5) u(5) in \<open>auto simp: x\<close>)
  then show ?case using t(1,2) u by (intro exI[of _ u] exI[of _ "g + h"]) (simp add: x)
qed

text \<open>
  C19. Downlink retransmissions always fit. When the processes to send again are distinct, wait with received
  feedback and are named by the feedback list, scheduling them never stops the program: each
  is sent again or its feedback is put off, exactly one of the two. The new allocations do
  not overlap in any symbol and RBG, lie in the symbols used (at most the symbols available) and in
  the bandwidth, have at least the resources of the first transmission, and carry the NACKed streams with their size
  and MCS and the next redundancy version, and nothing for the others.
\<close>
theorem downlink_retransmissions_fit:
  assumes "refs_ready bw feedback ueMap (concat (map snd active))" and "distinct (concat (map snd active))"
    and "active \<noteq> []" and "pt_rbg start = 0" and "unat (pt_sym start) + unat symAvail < 256"
  shows "\<exists>s news buf. ScheduleDlHarq bw start symAvail active ueMap toRetransmit feedback slot = Inr s \<and>
    slot_varTtiAllocInfo (rr_slotAlloc s) = slot_varTtiAllocInfo slot @ news \<and> rr_toRetransmit s = toRetransmit @ buf \<and>
    mset (map alloc_key news) + mset (map (\<lambda>h. (dlh_rnti h, dlh_harqProcessId h)) buf) =
      mset (concat (map snd active)) \<and>
    (\<forall>a \<in> set news. \<exists>p. proc_at dl_fns ueMap (alloc_key a) = Some p \<and> resends p a) \<and>
    sorted_wrt (\<lambda>a b. cells a \<inter> cells b = {}) news \<and>
    (\<forall>a \<in> set news. cells a \<subseteq> {unat (pt_sym start)..<unat (pt_sym start) + unat (rr_used s)} \<times> {..<unat bw}) \<and>
    rr_used s \<le> symAvail \<and> pt_sym (rr_point s) = pt_sym start + rr_used s"
proof -
  let ?n = "of_nat (unat symAvail div length active) :: u8"
  let ?s = "\<lparr>rr_ueMap = ueMap, rr_point = start, rr_toRetransmit = toRetransmit, rr_slotAlloc = slot, rr_used = 0\<rparr>"
  have "unat symAvail div length active < 2 ^ 8"
    using le_less_trans[OF div_le_dividend u_lt[of symAvail]] by simp
  then have n: "unat ?n = unat symAvail div length active" by (simp add: unsigned_of_nat take_bit_nat_eq_self_iff)
  have le: "length active * unat ?n \<le> unat symAvail" unfolding n by simp
  obtain s g where s: "foldE (retx_beam bw ?n feedback) ?s active = Inr s" "g \<le> length active * unat ?n"
      "retx_run ({unat (pt_sym start)..<unat (pt_sym (rr_point s))} \<times> {..<unat bw}) ?s s (concat (map snd active))"
      "pt_rbg (rr_point s) = 0" "unat (pt_sym (rr_point s)) = unat (pt_sym start) + g" "unat (rr_used s) = g"
    using retx_beams_run[of bw feedback ?s active ?n] assms le by auto
  have "pt_sym (rr_point s) = pt_sym start + rr_used s"
    using s(2,5,6) le assms(5) by (simp add: word_unat_eq_iff unat_word_ariths)
  moreover have "rr_used s \<le> symAvail" using s(2,6) le by (simp add: word_le_nat_alt)
  moreover have "ScheduleDlHarq bw start symAvail active ueMap toRetransmit feedback slot = Inr s"
    using assms(3,4) s(1,4) by (simp add: ScheduleDlHarq_def)
  moreover have "unat (pt_sym (rr_point s)) = unat (pt_sym start) + unat (rr_used s)" using s(5,6) by simp
  moreover from s(3) obtain news buf where
      "slot_varTtiAllocInfo (rr_slotAlloc s) = slot_varTtiAllocInfo slot @ news" "rr_toRetransmit s = toRetransmit @ buf"
      "mset (map alloc_key news) + mset (map (\<lambda>h. (dlh_rnti h, dlh_harqProcessId h)) buf) =
        mset (concat (map snd active))"
      "\<forall>a \<in> set news. \<exists>p. proc_at dl_fns ueMap (alloc_key a) = Some p \<and> resends p a"
      "sorted_wrt (\<lambda>a b. cells a \<inter> cells b = {}) news"
      "\<forall>a \<in> set news. cells a \<subseteq> {unat (pt_sym start)..<unat (pt_sym (rr_point s))} \<times> {..<unat bw}"
    unfolding retx_run_def by auto
  ultimately show ?thesis by (intro exI[of _ s] exI[of _ news] exI[of _ buf]) simp
qed

subsection \<open>Uplink retransmissions\<close>

definition ul_key :: "UlHarqInfo \<Rightarrow> u16 \<times> u8" where
  "ul_key h = (ulh_rnti h, ulh_harqProcessId h)"

definition ul_retx_ready :: "(u16 \<times> UeInfo) list \<Rightarrow> UlHarqInfo \<Rightarrow> bool" where
  "ul_retx_ready m h \<longleftrightarrow> \<not> ul_IsReceivedOk h \<and> (\<exists>p d. proc_at ul_fns m (ul_key h) = Some p \<and>
     m_status p = RECEIVED_FEEDBACK \<and> m_dciElement p = Some d \<and> dci_rnti d = ulh_rnti h \<and> dci_format d = UL_DCI \<and>
     length (nackStreamIndexes p) = 1 \<and> dci_rv d \<noteq> [])"

text \<open>The new uplink DCI is the old one at its new place, with the next redundancy version.\<close>

definition ul_resends :: "HarqProcess \<Rightarrow> VarTtiAllocInfo \<Rightarrow> bool" where
  "ul_resends p a \<longleftrightarrow> (\<exists>d. m_dciElement p = Some d \<and> dci_type (tti_dci a) = DATA \<and>
     dci_tbSize (tti_dci a) = dci_tbSize d \<and> dci_mcs (tti_dci a) = dci_mcs d \<and> dci_numSym (tti_dci a) = dci_numSym d \<and>
     dci_rbgBitmask (tti_dci a) = dci_rbgBitmask d \<and> dci_rv (tti_dci a) = [dci_rv d ! 0 + 1] \<and> dci_ndi (tti_dci a) = [0])"

lemma proc_at_update_ul:
  assumes "map_of m k = Some ue" and "ue_ulHarq ue' = hv_Set (ue_ulHarq ue) i p"
  shows "x \<noteq> (k, i) \<Longrightarrow> proc_at ul_fns (AList.update k ue' m) x = proc_at ul_fns m x"
  using assms by (cases x) (auto simp: proc_at_def map_of_update hv_Set_def)

lemma retx_ul_step:
  fixes s :: "UlHarqInfo rr"
  assumes "ul_retx_ready (rr_ueMap s) h"
  obtains (put_off) m' where
      "retx_ul bw s av h = Inr (s\<lparr>rr_ueMap := m', rr_toRetransmit := rr_toRetransmit s @ [h]\<rparr>, av)"
      "\<forall>x. x \<noteq> ul_key h \<longrightarrow> proc_at ul_fns m' x = proc_at ul_fns (rr_ueMap s) x"
      "\<exists>p d. proc_at ul_fns (rr_ueMap s) (ul_key h) = Some p \<and> m_dciElement p = Some d \<and> av < dci_numSym d"
    | (placed) a m' p where
      "retx_ul bw s av h = Inr (s\<lparr>rr_ueMap := m',
         rr_point := (rr_point s)\<lparr>pt_sym := pt_sym (rr_point s) - dci_numSym (tti_dci a)\<rparr>,
         rr_slotAlloc := (rr_slotAlloc s)\<lparr>slot_varTtiAllocInfo := a # slot_varTtiAllocInfo (rr_slotAlloc s),
           slot_numSymAlloc := slot_numSymAlloc (rr_slotAlloc s) + ucast (dci_numSym (tti_dci a))\<rparr>,
         rr_used := rr_used s + dci_numSym (tti_dci a)\<rparr>, av - dci_numSym (tti_dci a))"
      "alloc_key a = ul_key h" "proc_at ul_fns (rr_ueMap s) (ul_key h) = Some p" "ul_resends p a"
      "dci_numSym (tti_dci a) \<le> av" "dci_symStart (tti_dci a) = pt_sym (rr_point s) - dci_numSym (tti_dci a)"
      "\<forall>x. x \<noteq> ul_key h \<longrightarrow> proc_at ul_fns m' x = proc_at ul_fns (rr_ueMap s) x"
proof -
  obtain p d where pd: "\<not> ul_IsReceivedOk h" "proc_at ul_fns (rr_ueMap s) (ul_key h) = Some p"
      "m_status p = RECEIVED_FEEDBACK" "m_dciElement p = Some d" "dci_rnti d = ulh_rnti h" "dci_format d = UL_DCI"
      "length (nackStreamIndexes p) = 1" "dci_rv d \<noteq> []"
    using assms by (auto simp: ul_retx_ready_def)
  obtain ue where ue: "map_of (rr_ueMap s) (ulh_rnti h) = Some ue"
      "map_of (hv_map (ue_ulHarq ue)) (ulh_harqProcessId h) = Some p"
    using pd(2) by (auto simp: proc_at_def ul_key_def split: option.splits)
  let ?p = "p\<lparr>m_status := WAITING_FEEDBACK, m_timer := 0\<rparr>"
  show thesis
  proof (cases "dci_numSym d \<le> av")
    case False
    show thesis
      by (rule put_off[where m' = "AList.update (ulh_rnti h)
            (ue\<lparr>ue_ulHarq := hv_Set (ue_ulHarq ue) (ulh_harqProcessId h) ?p\<rparr>) (rr_ueMap s)"])
        (use False pd ue proc_at_update_ul[OF ue(1)] in \<open>auto simp: retx_ul_def Let_def ul_key_def\<close>)
  next
    case True
    define a where "a = VarTtiAllocInfo ((Dci_data (dci_rnti d) (dci_format d) (pt_sym (rr_point s) - dci_numSym d)
        (dci_numSym d) (dci_mcs d) (dci_tbSize d) [0] [dci_rv d ! 0 + 1] DATA (dci_bwpIndex d) (dci_tpc d))
        \<lparr>dci_rbgBitmask := dci_rbgBitmask d, dci_harqProcess := ulh_harqProcessId h\<rparr>)"
    have n: "dci_numSym (tti_dci a) = dci_numSym d"
      by (simp add: a_def VarTtiAllocInfo_def Dci_data_def)
    let ?ue = "ue\<lparr>ue_ulHarq := hv_Set (ue_ulHarq ue) (ulh_harqProcessId h) (?p\<lparr>m_dciElement := Some (tti_dci a)\<rparr>),
      ue_ulMRBRetx := ucast (dci_numSym d) * ucast bw\<rparr>"
    show thesis
    proof (rule placed[where a = a and m' = "AList.update (ulh_rnti h) ?ue (rr_ueMap s)" and p = p])
      show "ul_resends p a" "alloc_key a = ul_key h"
        using pd(4,5) by (simp_all add: ul_resends_def a_def VarTtiAllocInfo_def Dci_data_def alloc_key_def ul_key_def)
      show "dci_symStart (tti_dci a) = pt_sym (rr_point s) - dci_numSym (tti_dci a)"
        by (simp add: a_def VarTtiAllocInfo_def Dci_data_def)
      show "\<forall>x. x \<noteq> ul_key h \<longrightarrow>
          proc_at ul_fns (AList.update (ulh_rnti h) ?ue (rr_ueMap s)) x = proc_at ul_fns (rr_ueMap s) x"
        using proc_at_update_ul[OF ue(1), of ?ue] by (simp add: ul_key_def)
    qed (use True pd ue n in \<open>simp_all add: retx_ul_def Let_def a_def VarTtiAllocInfo_def\<close>)
  qed
qed

text \<open>Allocations laid out one after the other, from one symbol to another.\<close>

fun laid_out :: "nat \<Rightarrow> VarTtiAllocInfo list \<Rightarrow> nat \<Rightarrow> bool" where
  "laid_out y [] z \<longleftrightarrow> y = z"
| "laid_out y (a # r) z \<longleftrightarrow> unat (dci_symStart (tti_dci a)) = y \<and> laid_out (y + unat (dci_numSym (tti_dci a))) r z"

lemma laid_out_append: "laid_out y (xs @ ys) z \<longleftrightarrow> (\<exists>w. laid_out y xs w \<and> laid_out w ys z)"
  by (induction xs arbitrary: y) auto

definition ul_run :: "UlHarqInfo rr \<Rightarrow> UlHarqInfo rr \<Rightarrow> UlHarqInfo list \<Rightarrow> bool" where
  "ul_run s s' hs \<longleftrightarrow> (\<exists>news buf.
     slot_varTtiAllocInfo (rr_slotAlloc s') = news @ slot_varTtiAllocInfo (rr_slotAlloc s) \<and>
     rr_toRetransmit s' = rr_toRetransmit s @ buf \<and>
     mset (map alloc_key news) + mset (map ul_key buf) = mset (map ul_key hs) \<and>
     (\<forall>a \<in> set news. \<exists>p. proc_at ul_fns (rr_ueMap s) (alloc_key a) = Some p \<and> ul_resends p a) \<and>
     laid_out (unat (pt_sym (rr_point s'))) news (unat (pt_sym (rr_point s))) \<and>
     (\<forall>x. x \<notin> ul_key ` set hs \<longrightarrow> proc_at ul_fns (rr_ueMap s') x = proc_at ul_fns (rr_ueMap s) x))"

lemma ul_run_Nil: "ul_run s s []"
  by (simp add: ul_run_def)

lemma ul_run_append:
  assumes 1: "ul_run s t xs" and 2: "ul_run t u ys" and xy: "ul_key ` set xs \<inter> ul_key ` set ys = {}"
  shows "ul_run s u (xs @ ys)"
proof -
  let ?F = ul_fns
  from 1 obtain n1 b1 where n1: "slot_varTtiAllocInfo (rr_slotAlloc t) = n1 @ slot_varTtiAllocInfo (rr_slotAlloc s)"
      "rr_toRetransmit t = rr_toRetransmit s @ b1" "mset (map alloc_key n1) + mset (map ul_key b1) = mset (map ul_key xs)"
      "\<forall>a \<in> set n1. \<exists>p. proc_at ?F (rr_ueMap s) (alloc_key a) = Some p \<and> ul_resends p a"
      "laid_out (unat (pt_sym (rr_point t))) n1 (unat (pt_sym (rr_point s)))"
      "\<forall>x. x \<notin> ul_key ` set xs \<longrightarrow> proc_at ?F (rr_ueMap t) x = proc_at ?F (rr_ueMap s) x"
    unfolding ul_run_def by blast
  from 2 obtain n2 b2 where n2: "slot_varTtiAllocInfo (rr_slotAlloc u) = n2 @ slot_varTtiAllocInfo (rr_slotAlloc t)"
      "rr_toRetransmit u = rr_toRetransmit t @ b2" "mset (map alloc_key n2) + mset (map ul_key b2) = mset (map ul_key ys)"
      "\<forall>a \<in> set n2. \<exists>p. proc_at ?F (rr_ueMap t) (alloc_key a) = Some p \<and> ul_resends p a"
      "laid_out (unat (pt_sym (rr_point u))) n2 (unat (pt_sym (rr_point t)))"
      "\<forall>x. x \<notin> ul_key ` set ys \<longrightarrow> proc_at ?F (rr_ueMap u) x = proc_at ?F (rr_ueMap t) x"
    unfolding ul_run_def by blast
  have "alloc_key a \<in> ul_key ` set ys" if "a \<in> set n2" for a
    using that arg_cong[OF n2(3), of set_mset] by (force simp: image_Un)
  then have r: "\<forall>a \<in> set n2. \<exists>p. proc_at ?F (rr_ueMap s) (alloc_key a) = Some p \<and> ul_resends p a"
    using n2(4) n1(6) xy by (metis disjoint_iff)
  have l: "laid_out (unat (pt_sym (rr_point u))) (n2 @ n1) (unat (pt_sym (rr_point s)))"
    using n1(5) n2(5) laid_out_append by blast
  have k: "mset (map alloc_key (n2 @ n1)) + mset (map ul_key (b1 @ b2)) = mset (map ul_key (xs @ ys))"
    unfolding map_append mset_append n1(3)[symmetric] n2(3)[symmetric] by (simp add: ac_simps)
  have o: "\<forall>x. x \<notin> ul_key ` set (xs @ ys) \<longrightarrow> proc_at ?F (rr_ueMap u) x = proc_at ?F (rr_ueMap s) x"
    using n1(6) n2(6) by (simp add: image_Un)
  have "\<forall>a \<in> set (n2 @ n1). \<exists>p. proc_at ?F (rr_ueMap s) (alloc_key a) = Some p \<and> ul_resends p a"
    using n1(4) r by auto
  then show ?thesis unfolding ul_run_def
    by (intro exI[of _ "n2 @ n1"] exI[of _ "b1 @ b2"]) (use n1(1,2) n2(1,2) l k o in simp)
qed

lemma retx_ul_run:
  fixes s :: "UlHarqInfo rr"
  assumes "ul_retx_ready (rr_ueMap s) h" and "unat av \<le> unat (pt_sym (rr_point s))" and "unat (rr_used s) + unat av < 256"
  shows "\<exists>s' av'. retx_ul bw s av h = Inr (s', av') \<and> ul_run s s' [h] \<and> pt_rbg (rr_point s') = pt_rbg (rr_point s) \<and>
    unat av' \<le> unat av \<and> unat (rr_used s') = unat (rr_used s) + (unat av - unat av') \<and>
    unat av' \<le> unat (pt_sym (rr_point s'))"
proof (cases rule: retx_ul_step[OF assms(1), of bw av, case_names put_off placed])
  case (put_off m')
  let ?s = "s\<lparr>rr_ueMap := m', rr_toRetransmit := rr_toRetransmit s @ [h]\<rparr>"
  have "ul_run s ?s [h]" unfolding ul_run_def
    using put_off(2) by (intro exI[of _ "[]"] exI[of _ "[h]"]) simp
  then show ?thesis using put_off(1) assms(2) by (intro exI[of _ ?s] exI[of _ av]) simp
next
  case (placed a m' p)
  let ?n = "dci_numSym (tti_dci a)"
  let ?s = "s\<lparr>rr_ueMap := m', rr_point := (rr_point s)\<lparr>pt_sym := pt_sym (rr_point s) - ?n\<rparr>,
    rr_slotAlloc := (rr_slotAlloc s)\<lparr>slot_varTtiAllocInfo := a # slot_varTtiAllocInfo (rr_slotAlloc s),
      slot_numSymAlloc := slot_numSymAlloc (rr_slotAlloc s) + ucast ?n\<rparr>, rr_used := rr_used s + ?n\<rparr>"
  have le: "unat ?n \<le> unat av" using placed(5) by (simp add: word_le_nat_alt)
  have av: "unat (av - ?n) = unat av - unat ?n" using placed(5) by (rule unat_sub)
  have y: "unat (pt_sym (rr_point s) - ?n) = unat (pt_sym (rr_point s)) - unat ?n"
    using le assms(2) by (intro unat_sub) (simp add: word_le_nat_alt)
  have u: "unat (rr_used s + ?n) = unat (rr_used s) + unat ?n"
    using le assms(3) by (simp add: unat_word_ariths)
  have "ul_run s ?s [h]" unfolding ul_run_def
    by (intro exI[of _ "[a]"] exI[of _ "[]"]) (use placed(2,3,4,6,7) y le assms(2) in simp)
  then show ?thesis using placed(1) av y u le assms(2)
    by (intro exI[of _ ?s] exI[of _ "av - ?n"]) simp
qed

lemma ul_retx_ready_run:
  assumes "ul_run s s' xs" and "\<forall>h \<in> set ys. ul_retx_ready (rr_ueMap s) h" and "ul_key ` set xs \<inter> ul_key ` set ys = {}"
  shows "\<forall>h \<in> set ys. ul_retx_ready (rr_ueMap s') h"
proof
  fix h assume h: "h \<in> set ys"
  then have "proc_at ul_fns (rr_ueMap s') (ul_key h) = proc_at ul_fns (rr_ueMap s) (ul_key h)"
    using assms(1,3) unfolding ul_run_def by blast
  then show "ul_retx_ready (rr_ueMap s') h" using assms(2) h by (simp add: ul_retx_ready_def)
qed

lemma retx_ul_loop_run:
  fixes s :: "UlHarqInfo rr"
  assumes "\<forall>h \<in> set hs. ul_retx_ready (rr_ueMap s) h" and "distinct (map ul_key hs)"
    and "unat av \<le> unat (pt_sym (rr_point s))" and "unat (rr_used s) + unat av < 256"
  shows "\<exists>s' n. retx_ul_loop bw s av hs = Inr s' \<and> n \<le> length hs \<and> ul_run s s' (take n hs) \<and>
    pt_rbg (rr_point s') = pt_rbg (rr_point s) \<and> unat (rr_used s') \<le> unat (rr_used s) + unat av \<and>
    (n < length hs \<longrightarrow> unat (rr_used s') = unat (rr_used s) + unat av)"
  using assms
proof (induction hs arbitrary: s av)
  case Nil
  then show ?case by (simp add: ul_run_Nil)
next
  case (Cons h hs)
  show ?case
  proof (cases "av > 0")
    case False
    then have "av = 0" by (simp add: word_gt_0)
    then show ?thesis by (intro exI[of _ s] exI[of _ 0]) (simp add: ul_run_Nil)
  next
    case True
    obtain t bv where t: "retx_ul bw s av h = Inr (t, bv)" "ul_run s t [h]" "pt_rbg (rr_point t) = pt_rbg (rr_point s)"
        "unat bv \<le> unat av" "unat (rr_used t) = unat (rr_used s) + (unat av - unat bv)" "unat bv \<le> unat (pt_sym (rr_point t))"
      using retx_ul_run[of s h av bw] Cons.prems by auto
    have ready: "\<forall>h \<in> set hs. ul_retx_ready (rr_ueMap t) h"
      by (rule ul_retx_ready_run[OF t(2)]) (use Cons.prems(1,2) in auto)
    obtain u n where u: "retx_ul_loop bw t bv hs = Inr u" "n \<le> length hs" "ul_run t u (take n hs)"
        "pt_rbg (rr_point u) = pt_rbg (rr_point t)" "unat (rr_used u) \<le> unat (rr_used t) + unat bv"
        "n < length hs \<longrightarrow> unat (rr_used u) = unat (rr_used t) + unat bv"
      using Cons.IH[OF ready _ t(6)] Cons.prems(2,4) t(4,5) by auto
    have "ul_run s u ([h] @ take n hs)"
      by (rule ul_run_append[OF t(2) u(3)]) (use Cons.prems(2) in \<open>auto dest: in_set_takeD\<close>)
    then show ?thesis using True t(1,3,4,5) u by (intro exI[of _ u] exI[of _ "Suc n"]) auto
  qed
qed

text \<open>
  C20. Uplink retransmissions are stacked downwards from the starting symbol without gap or overlap. Scheduling never
  stops the program; of the first \<open>n\<close> feedbacks, each is sent again with the next redundancy version or put off,
  exactly one of the two; and all feedbacks are handled unless the available symbols are used up to the last one. Of the
  feedbacks after the first \<open>n\<close> no trace is left: they are neither sent again nor put off, and their
  processes stay as they are.
\<close>
theorem uplink_retransmissions_stack:
  assumes "\<forall>h \<in> set feedback. ul_retx_ready ueMap h" and "distinct (map ul_key feedback)"
    and "pt_rbg start = 0" and "symAvail \<le> pt_sym start"
  shows "\<exists>s n news buf. ScheduleUlHarq bw start symAvail ueMap toRetransmit feedback slot = Inr s \<and>
    n \<le> length feedback \<and> (n < length feedback \<longrightarrow> rr_used s = symAvail) \<and> rr_used s \<le> symAvail \<and>
    slot_varTtiAllocInfo (rr_slotAlloc s) = news @ slot_varTtiAllocInfo slot \<and> rr_toRetransmit s = toRetransmit @ buf \<and>
    mset (map alloc_key news) + mset (map ul_key buf) = mset (map ul_key (take n feedback)) \<and>
    (\<forall>a \<in> set news. \<exists>p. proc_at ul_fns ueMap (alloc_key a) = Some p \<and> ul_resends p a) \<and>
    laid_out (unat (pt_sym (rr_point s))) news (unat (pt_sym start)) \<and>
    (\<forall>h \<in> set (drop n feedback). proc_at ul_fns (rr_ueMap s) (ul_key h) = proc_at ul_fns ueMap (ul_key h))"
proof -
  let ?s = "\<lparr>rr_ueMap = ueMap, rr_point = start, rr_toRetransmit = toRetransmit, rr_slotAlloc = slot, rr_used = 0\<rparr>"
  have side: "unat symAvail \<le> unat (pt_sym start)" "unat symAvail < 256"
    using assms(4) u_lt[of symAvail] by (simp_all add: word_le_nat_alt)
  obtain s n where s: "retx_ul_loop bw ?s symAvail feedback = Inr s" "n \<le> length feedback" "ul_run ?s s (take n feedback)"
      "pt_rbg (rr_point s) = 0" "unat (rr_used s) \<le> unat symAvail" "n < length feedback \<longrightarrow> unat (rr_used s) = unat symAvail"
    using retx_ul_loop_run[of feedback ?s symAvail bw] assms(1-3) side by auto
  have d: "ul_key ` set (take n feedback) \<inter> ul_key ` set (drop n feedback) = {}"
    using assms(2) distinct_append[of "map ul_key (take n feedback)" "map ul_key (drop n feedback)"]
    by (simp flip: map_append)
  from s(3) obtain news buf where r:
      "slot_varTtiAllocInfo (rr_slotAlloc s) = news @ slot_varTtiAllocInfo slot" "rr_toRetransmit s = toRetransmit @ buf"
      "mset (map alloc_key news) + mset (map ul_key buf) = mset (map ul_key (take n feedback))"
      "\<forall>a \<in> set news. \<exists>p. proc_at ul_fns ueMap (alloc_key a) = Some p \<and> ul_resends p a"
      "laid_out (unat (pt_sym (rr_point s))) news (unat (pt_sym start))"
      "\<forall>x. x \<notin> ul_key ` set (take n feedback) \<longrightarrow> proc_at ul_fns (rr_ueMap s) x = proc_at ul_fns ueMap x"
    unfolding ul_run_def by auto
  have "ScheduleUlHarq bw start symAvail ueMap toRetransmit feedback slot = Inr s"
    using assms(3) s(1,4) by (simp add: ScheduleUlHarq_def)
  moreover have "\<forall>h \<in> set (drop n feedback). proc_at ul_fns (rr_ueMap s) (ul_key h) = proc_at ul_fns ueMap (ul_key h)"
    using r(6) d by blast
  ultimately show ?thesis using s(2,5,6) r(1-5)
    by (intro exI[of _ s] exI[of _ n] exI[of _ news] exI[of _ buf]) (simp add: word_le_nat_alt word_unat_eq_iff)
qed

text \<open>
  Uplink feedback gets lost. When a retransmission takes exactly the symbols that are left, all feedback
  behind it is forgotten: it is not put off for the next slot, nothing of it is sent, and its processes keep
  waiting as they were.
\<close>
lemma uplink_feedback_lost:
  assumes "ul_retx_ready ueMap h" and "proc_at ul_fns ueMap (ul_key h) = Some p" and "m_dciElement p = Some d"
    and "dci_numSym d = symAvail" and "0 < symAvail" and "pt_rbg start = 0"
  shows "\<exists>s a. ScheduleUlHarq bw start symAvail ueMap toRetransmit (h # rest) slot = Inr s \<and>
    rr_toRetransmit s = toRetransmit \<and> slot_varTtiAllocInfo (rr_slotAlloc s) = a # slot_varTtiAllocInfo slot \<and>
    alloc_key a = ul_key h \<and> (\<forall>x. x \<noteq> ul_key h \<longrightarrow> proc_at ul_fns (rr_ueMap s) x = proc_at ul_fns ueMap x)"
proof -
  let ?s = "\<lparr>rr_ueMap = ueMap, rr_point = start, rr_toRetransmit = toRetransmit, rr_slotAlloc = slot, rr_used = 0\<rparr>"
  have ready: "ul_retx_ready (rr_ueMap ?s) h" using assms(1) by simp
  show ?thesis
  proof (cases rule: retx_ul_step[OF ready, of bw symAvail, case_names put_off placed])
    case (put_off m')
    then show ?thesis using assms(2-4) by simp
  next
    case (placed a m' q)
    have n: "dci_numSym (tti_dci a) = symAvail" using placed(3,4) assms(2-4) by (simp add: ul_resends_def)
    have stop: "retx_ul_loop bw t 0 rest = Inr t" for t by (cases rest) simp_all
    show ?thesis using placed(1,2,7) n assms(5,6) by (simp add: ScheduleUlHarq_def stop)
  qed
qed

text \<open>A UE with a downlink and two uplink processes to send again, in a bandwidth of two RBGs.\<close>

definition demo_dci :: "DciFormat \<Rightarrow> u8 \<Rightarrow> u8 \<Rightarrow> dci" where
  "demo_dci f i n = (Dci_data 7 f 2 n [9] [100] [1] [0] DATA 0 0)\<lparr>dci_rbgBitmask := [1, 1], dci_harqProcess := i\<rparr>"

definition demo_again :: "DciFormat \<Rightarrow> u8 \<Rightarrow> u8 \<Rightarrow> HarqProcess" where
  "demo_again f i n = (HarqProcess True RECEIVED_FEEDBACK 0 (demo_dci f i n))\<lparr>nackStreamIndexes := [0]\<rparr>"

definition demo_retx :: "(u16 \<times> UeInfo) list" where
  "demo_retx = [(7, (demo_ue 7 9 0)\<lparr>
     ue_dlHarq := \<lparr>hv_map = [(0, demo_again DL_DCI 0 1)], m_maxSize = 1, m_usedSize = 1\<rparr>,
     ue_ulHarq := \<lparr>hv_map = [(0, demo_again UL_DCI 0 2), (1, demo_again UL_DCI 1 1)], m_maxSize = 2, m_usedSize = 2\<rparr>\<rparr>)]"

definition demo_empty_slot :: SlotAllocInfo where
  "demo_empty_slot = SlotAllocInfo SfnSf_default"

definition demo_ul_nack :: "u8 \<Rightarrow> UlHarqInfo" where
  "demo_ul_nack i = \<lparr>ulh_rnti = 7, ulh_harqProcessId = i, ulh_bwpIndex = 0, ulh_ulReception = [],
     ulh_receptionStatus = NotOk, ulh_tpc = 0, ulh_numRetx = 0\<rparr>"

lemma demo_retx_proc:
  "proc_at dl_fns demo_retx (7, 0) = Some (demo_again DL_DCI 0 1)"
  "proc_at ul_fns demo_retx (7, 0) = Some (demo_again UL_DCI 0 2)"
  "proc_at ul_fns demo_retx (7, 1) = Some (demo_again UL_DCI 1 1)"
  by (simp_all add: proc_at_def demo_retx_def)

lemma demo_refs_ready: "refs_ready 2 [demo_nack 0] demo_retx [(7, 0)]"
  by (simp add: refs_ready_def demo_retx_proc retx_ready_def demo_again_def demo_dci_def HarqProcess_def Dci_data_def
      streams_ok_def demand_def demo_nack_def)

lemma demo_ul_ready: "ul_retx_ready demo_retx (demo_ul_nack 0)" "ul_retx_ready demo_retx (demo_ul_nack 1)"
  by (simp_all add: ul_retx_ready_def ul_key_def demo_ul_nack_def demo_retx_proc demo_again_def demo_dci_def
      HarqProcess_def Dci_data_def ul_IsReceivedOk_def)

definition demo_harq_beam :: BeamConfId where
  "demo_harq_beam = (\<lparr>bid_sector = 1, bid_elevation = 90\<rparr>, \<lparr>bid_sector = 0, bid_elevation = 0\<rparr>)"

theorem downlink_retransmissions_fit_witness:
  "\<exists>s. ScheduleDlHarq 2 \<lparr>pt_rbg = 0, pt_sym = 1\<rparr> 12 [(demo_harq_beam, [(7, 0)])] demo_retx [] [demo_nack 0] demo_empty_slot = Inr s \<and>
    size (slot_varTtiAllocInfo (rr_slotAlloc s)) + size (rr_toRetransmit s) = 1 \<and> rr_used s \<le> 12"
proof -
  have "refs_ready 2 [demo_nack 0] demo_retx (concat (map snd [(demo_harq_beam, [(7, 0)])]))" using demo_refs_ready by simp
  from downlink_retransmissions_fit[OF this, of "\<lparr>pt_rbg = 0, pt_sym = 1\<rparr>" 12 "[]" demo_empty_slot] obtain s news buf where r:
    "ScheduleDlHarq 2 \<lparr>pt_rbg = 0, pt_sym = 1\<rparr> 12 [(demo_harq_beam, [(7, 0)])] demo_retx [] [demo_nack 0] demo_empty_slot = Inr s"
    "slot_varTtiAllocInfo (rr_slotAlloc s) = slot_varTtiAllocInfo demo_empty_slot @ news" "rr_toRetransmit s = [] @ buf"
    "mset (map alloc_key news) + mset (map (\<lambda>h. (dlh_rnti h, dlh_harqProcessId h)) buf) =
       mset (concat (map snd [(demo_harq_beam, [(7, 0)])]))" "rr_used s \<le> 12"
    by auto
  have "length news + length buf = 1" using arg_cong[OF r(4), of size] by simp
  then show ?thesis using r(1,2,3,5) by (intro exI[of _ s]) (simp add: demo_empty_slot_def SlotAllocInfo_def)
qed

theorem uplink_retransmissions_stack_witness:
  "\<exists>s. ScheduleUlHarq 2 \<lparr>pt_rbg = 0, pt_sym = 13\<rparr> 12 demo_retx [] [demo_ul_nack 0, demo_ul_nack 1] demo_empty_slot = Inr s \<and>
    rr_used s \<le> 12"
  using uplink_retransmissions_stack[of "[demo_ul_nack 0, demo_ul_nack 1]" demo_retx "\<lparr>pt_rbg = 0, pt_sym = 13\<rparr>" 12 2 "[]"
      demo_empty_slot] demo_ul_ready by (auto simp: ul_key_def demo_ul_nack_def)

lemma uplink_feedback_lost_witness:
  "\<exists>s. ScheduleUlHarq 2 \<lparr>pt_rbg = 0, pt_sym = 13\<rparr> 2 demo_retx [] [demo_ul_nack 0, demo_ul_nack 1] demo_empty_slot = Inr s \<and>
    rr_toRetransmit s = [] \<and> length (slot_varTtiAllocInfo (rr_slotAlloc s)) = 1 \<and>
    proc_at ul_fns (rr_ueMap s) (7, 1) = Some (demo_again UL_DCI 1 1)"
proof -
  let ?p = "demo_again UL_DCI 0 2" and ?d = "demo_dci UL_DCI 0 2"
  have "proc_at ul_fns demo_retx (ul_key (demo_ul_nack 0)) = Some ?p" "m_dciElement ?p = Some ?d" "dci_numSym ?d = 2"
    by (simp_all add: ul_key_def demo_ul_nack_def demo_retx_proc demo_again_def HarqProcess_def demo_dci_def Dci_data_def)
  from uplink_feedback_lost[OF demo_ul_ready(1) this, of "\<lparr>pt_rbg = 0, pt_sym = 13\<rparr>" 2 "[]" "[demo_ul_nack 1]" demo_empty_slot]
  obtain s a where
    "ScheduleUlHarq 2 \<lparr>pt_rbg = 0, pt_sym = 13\<rparr> 2 demo_retx [] [demo_ul_nack 0, demo_ul_nack 1] demo_empty_slot = Inr s"
    "rr_toRetransmit s = []" "slot_varTtiAllocInfo (rr_slotAlloc s) = a # slot_varTtiAllocInfo demo_empty_slot"
    "\<forall>x. x \<noteq> ul_key (demo_ul_nack 0) \<longrightarrow> proc_at ul_fns (rr_ueMap s) x = proc_at ul_fns demo_retx x"
    by auto
  then show ?thesis
    by (simp add: ul_key_def demo_ul_nack_def demo_retx_proc demo_empty_slot_def SlotAllocInfo_def)
qed

end
