(* ===== verification/Ofdma.thy ===== *)
theory Ofdma
  imports HarqRr
begin

text \<open>
  The allocation of symbols to beams and of resource block groups to UEs, and the placement of the DCIs:
  \<open>NrMacSchedulerOfdma\<close> of \<open>contrib/nr/model/nr-mac-scheduler-ofdma.cc\<close> and its round-robin and maximum-rate
  subclasses. A UE is its \<open>UeInfo\<close> with what a subclass keeps in addition (\<open>'p\<close>); a vector entry pairs it
  with its buffer request. The C++ vector holds pointers to UEs that occur once; here it holds the values. The
  virtual methods of the subclass and \<open>std::sort\<close> are the record \<open>policy\<close>; its four resets are what a subclass
  does to its own members before it calls the method of the base class. The branch for
  \<open>m_robust\<close>, which the C++ never sets, and the console output are left out.
\<close>

type_synonym 'p ue = "UeInfo \<times> 'p"
type_synonym 'p entry = "'p ue \<times> u32"
type_synonym 'p ActiveUeMap = "(BeamConfId \<times> 'p entry list) list"
type_synonym BeamSymbolMap = "(BeamConfId \<times> u32) list"

record 'p policy =
  pol_sort :: "('p entry \<Rightarrow> 'p entry \<Rightarrow> bool) \<Rightarrow> 'p entry list \<Rightarrow> 'p entry list"
  pol_CompareDl :: "'p ue \<Rightarrow> 'p ue \<Rightarrow> bool"
  pol_CompareUl :: "'p ue \<Rightarrow> 'p ue \<Rightarrow> bool"
  pol_BeforeDl :: "PointInFTPlane \<Rightarrow> 'p ue \<Rightarrow> 'p ue res"
  pol_BeforeUl :: "PointInFTPlane \<Rightarrow> 'p ue \<Rightarrow> 'p ue res"
  pol_AssignedDl :: "PointInFTPlane \<Rightarrow> 'p ue \<Rightarrow> 'p ue res"
  pol_NotAssignedDl :: "PointInFTPlane \<Rightarrow> 'p ue \<Rightarrow> 'p ue res"
  pol_AssignedUl :: "PointInFTPlane \<Rightarrow> 'p ue \<Rightarrow> 'p ue res"
  pol_NotAssignedUl :: "PointInFTPlane \<Rightarrow> 'p ue \<Rightarrow> 'p ue res"
  pol_ResetDlSchedInfo :: "'p \<Rightarrow> 'p"
  pol_ResetUlSchedInfo :: "'p \<Rightarrow> 'p"
  pol_ResetDlMetric :: "'p \<Rightarrow> 'p"
  pol_ResetUlMetric :: "'p \<Rightarrow> 'p"

definition NrMacSchedulerOfdmaRR :: "(u8 \<Rightarrow> u32 \<Rightarrow> u32) \<Rightarrow> (u8 \<Rightarrow> u32 \<Rightarrow> u32) \<Rightarrow>
    (('p entry \<Rightarrow> 'p entry \<Rightarrow> bool) \<Rightarrow> 'p entry list \<Rightarrow> 'p entry list) \<Rightarrow> 'p policy" where
  "NrMacSchedulerOfdmaRR dlAmc ulAmc srt =
     \<lparr>pol_sort = srt,
      pol_CompareDl = (\<lambda>a b. rr_CompareUeWeightsDl (fst a) (fst b)),
      pol_CompareUl = (\<lambda>a b. rr_CompareUeWeightsUl (fst a) (fst b)),
      pol_BeforeDl = (\<lambda>_. Inr), pol_BeforeUl = (\<lambda>_. Inr),
      pol_AssignedDl = (\<lambda>_ (ue, x). bindE (UpdateDlMetric dlAmc ue) (\<lambda>ue. Inr (ue, x))),
      pol_NotAssignedDl = (\<lambda>_. Inr),
      pol_AssignedUl = (\<lambda>_ (ue, x). Inr (UpdateUlMetric ulAmc ue, x)),
      pol_NotAssignedUl = (\<lambda>_. Inr),
      pol_ResetDlSchedInfo = (\<lambda>x. x), pol_ResetUlSchedInfo = (\<lambda>x. x), pol_ResetDlMetric = (\<lambda>x. x),
      pol_ResetUlMetric = (\<lambda>x. x)\<rparr>"

definition NrMacSchedulerOfdmaMR :: "(u8 \<Rightarrow> u32 \<Rightarrow> u32) \<Rightarrow> (u8 \<Rightarrow> u32 \<Rightarrow> u32) \<Rightarrow>
    (('p entry \<Rightarrow> 'p entry \<Rightarrow> bool) \<Rightarrow> 'p entry list \<Rightarrow> 'p entry list) \<Rightarrow> 'p policy" where
  "NrMacSchedulerOfdmaMR dlAmc ulAmc srt =
     (NrMacSchedulerOfdmaRR dlAmc ulAmc srt)
     \<lparr>pol_CompareDl := (\<lambda>a b. mr_CompareUeWeightsDl (fst a) (fst b)),
      pol_CompareUl := (\<lambda>a b. mr_CompareUeWeightsUl (fst a) (fst b))\<rparr>"

text \<open>\<open>FTResources (rbg, sym)\<close>: the constructor takes both at 8 bits.\<close>

definition FTResources :: "u32 \<Rightarrow> u32 \<Rightarrow> PointInFTPlane" where
  "FTResources rbg symb = \<lparr>pt_rbg = ucast (ucast rbg :: u8), pt_sym = ucast symb\<rparr>"

subsection \<open>GetSymPerBeam\<close>

definition GetUeBufSize :: "'p entry \<Rightarrow> u32" where
  "GetUeBufSize ue = snd ue"

definition buf_total :: "'p ActiveUeMap \<Rightarrow> fp" where
  "buf_total active =
     foldl (\<lambda>t el. foldl (\<lambda>t ue. fp_add t (fp_of_int (uint (GetUeBufSize ue)))) t (snd el)) (Num 0) active"

definition buf_beam :: "'p entry list \<Rightarrow> u32" where
  "buf_beam ues = foldl (\<lambda>b ue. b + GetUeBufSize ue) 0 ues"

definition sym_of_beam :: "u32 \<Rightarrow> fp \<Rightarrow> BeamSymbolMap \<times> u8 \<Rightarrow> BeamConfId \<times> 'p entry list \<Rightarrow>
    (BeamSymbolMap \<times> u8) res" where
  "sym_of_beam symAvail bufTotal = (\<lambda>(ret, symUsed) (beam, ues).
     let tmp = fp_div (fp_of_int (uint symAvail)) bufTotal in
     bindE (fp_to_u32 (fp_mul (fp_of_int (uint (buf_beam ues))) tmp)) (\<lambda>symForBeam.
       Inr (map_emplace beam symForBeam ret, ucast (ucast symUsed + symForBeam))))"

text \<open>The first beam of the map with the fewest symbols gets one more.\<close>

fun min_beam :: "(BeamConfId \<times> u32) option \<Rightarrow> BeamSymbolMap \<Rightarrow> (BeamConfId \<times> u32) option" where
  "min_beam m [] = m"
| "min_beam m ((k, v) # r) =
     min_beam (case m of None \<Rightarrow> Some (k, v) | Some (_, w) \<Rightarrow> if v < w then Some (k, v) else m) r"

definition give_one :: "BeamSymbolMap \<Rightarrow> BeamSymbolMap res" where
  "give_one ret = (case min_beam None ret of None \<Rightarrow> Inl Undefined
     | Some (k, v) \<Rightarrow> Inr (AList.update k (v + 1) ret))"

fun redistribute :: "nat \<Rightarrow> BeamSymbolMap \<Rightarrow> BeamSymbolMap res" where
  "redistribute 0 ret = Inr ret"
| "redistribute (Suc n) ret = bindE (give_one ret) (redistribute n)"

definition GetSymPerBeam :: "u32 \<Rightarrow> 'p ActiveUeMap \<Rightarrow> BeamSymbolMap res" where
  "GetSymPerBeam symAvail active =
     bindE (foldE (sym_of_beam symAvail (buf_total active)) ([], 0) active) (\<lambda>(ret, symUsed).
       ns_assert (symAvail \<ge> ucast symUsed)
       (redistribute (unat (ucast (symAvail - ucast symUsed) :: u8)) ret))"

subsection \<open>Downlink allocation\<close>

text \<open>
  A UE that has enough: with more than one stream, the streams after those that empty the buffer lose their
  transport block.
\<close>

fun trim_streams :: "u32 \<Rightarrow> u32 list \<Rightarrow> u32 list" where
  "trim_streams copyBufQueueSize [] = []"
| "trim_streams copyBufQueueSize (t # r) =
     (if copyBufQueueSize \<noteq> 0
      then t # trim_streams (if t \<ge> copyBufQueueSize then 0 else copyBufQueueSize - t) r
      else 0 # trim_streams copyBufQueueSize r)"

text \<open>The UEs passed over and the rest of the vector.\<close>

fun dl_pass :: "'p entry list \<Rightarrow> 'p entry list \<times> 'p entry list" where
  "dl_pass [] = ([], [])"
| "dl_pass (((ue, x), bufQueueSize) # r) =
     (if GetDlTBS ue \<ge> max bufQueueSize 10 then
        let ue = (if length (ue_dlTbSize ue) > 1
                  then ue\<lparr>ue_dlTbSize := trim_streams bufQueueSize (ue_dlTbSize ue)\<rparr> else ue);
            (p, q) = dl_pass r
        in (((ue, x), bufQueueSize) # p, q)
      else ([], ((ue, x), bufQueueSize) # r))"

fun map_entries :: "('p ue \<Rightarrow> 'p ue res) \<Rightarrow> 'p entry list \<Rightarrow> 'p entry list res" where
  "map_entries f [] = Inr []"
| "map_entries f ((u, b) # r) = bindE (f u) (\<lambda>u. bindE (map_entries f r) (\<lambda>r. Inr ((u, b) # r)))"

text \<open>\<open>NotAssignedXlResources\<close> of every UE but the one with the RNTI.\<close>

definition not_assigned :: "(PointInFTPlane \<Rightarrow> 'p ue \<Rightarrow> 'p ue res) \<Rightarrow> PointInFTPlane \<Rightarrow> u16 \<Rightarrow> 'p entry list \<Rightarrow>
    'p entry list res" where
  "not_assigned f assigned rnti vec =
     map_entries (\<lambda>u. if ue_rnti (fst u) \<noteq> rnti then f assigned u else Inr u) vec"

text \<open>One round of the loop: the vector, and the resources assigned so far, or nothing when all UEs have enough.\<close>

definition dl_round :: "'p policy \<Rightarrow> u32 \<Rightarrow> PointInFTPlane \<Rightarrow> 'p entry list \<Rightarrow>
    ('p entry list \<times> PointInFTPlane option) res" where
  "dl_round pol beamSym assigned vec =
     (let vec = pol_sort pol (\<lambda>a b. pol_CompareDl pol (fst a) (fst b)) vec; (passed, rest) = dl_pass vec in
      case rest of
        [] \<Rightarrow> Inr (passed, None)
      | ((ue, x), buf) # r \<Rightarrow>
          let ue = ue\<lparr>ue_dlRBG := ue_dlRBG ue + beamSym, ue_dlSym := ucast beamSym\<rparr>;
              assigned = \<lparr>pt_rbg = pt_rbg assigned + beamSym, pt_sym = ucast beamSym\<rparr>
          in bindE (pol_AssignedDl pol assigned (ue, x)) (\<lambda>u.
             bindE (not_assigned (pol_NotAssignedDl pol) assigned (ue_rnti ue) (passed @ (u, buf) # r)) (\<lambda>vec.
               Inr (vec, Some assigned))))"

text \<open>\<open>while (resources > 0)\<close>. The value \<open>None\<close> would be a loop that does not end.\<close>

partial_function (option) dl_rounds :: "'p policy \<Rightarrow> u32 \<Rightarrow> u32 \<Rightarrow> PointInFTPlane \<Rightarrow> 'p entry list \<Rightarrow>
    'p entry list res option" where
  "dl_rounds pol beamSym resources assigned vec =
     (if resources > 0 then
        (case dl_round pol beamSym assigned vec of
           Inl e \<Rightarrow> Some (Inl e)
         | Inr (vec, None) \<Rightarrow> Some (Inr vec)
         | Inr (vec, Some assigned) \<Rightarrow> dl_rounds pol beamSym (resources - 1) assigned vec)
      else Some (Inr vec))"

text \<open>Sequencing of computations that may fail and may not end.\<close>

definition bindL :: "'a res option \<Rightarrow> ('a \<Rightarrow> 'b res option) \<Rightarrow> 'b res option" where
  "bindL r f = (case r of None \<Rightarrow> None | Some (Inl e) \<Rightarrow> Some (Inl e) | Some (Inr x) \<Rightarrow> f x)"

lemma bindL_simps [simp]:
  "bindL None f = None" "bindL (Some (Inl e)) f = Some (Inl e)" "bindL (Some (Inr x)) f = f x"
  by (simp_all add: bindL_def)

fun mapL :: "('a \<Rightarrow> 'b res option) \<Rightarrow> 'a list \<Rightarrow> 'b list res option" where
  "mapL f [] = Some (Inr [])"
| "mapL f (x # r) = bindL (f x) (\<lambda>y. bindL (mapL f r) (\<lambda>r. Some (Inr (y # r))))"

text \<open>The RBGs that may be used.\<close>

definition usable_rbgs :: "u16 \<Rightarrow> u8 list \<Rightarrow> u32" where
  "usable_rbgs bw notched = (if length notched > 0 then of_nat (count_list notched 1) else ucast bw)"

definition assign_dl_beam :: "'p policy \<Rightarrow> u16 \<Rightarrow> u8 list \<Rightarrow> BeamSymbolMap \<Rightarrow> BeamConfId \<times> 'p entry list \<Rightarrow>
    (BeamConfId \<times> 'p entry list) res option" where
  "assign_dl_beam pol bw notched symPerBeam = (\<lambda>(beam, ues).
     bindL (Some (map_at beam symPerBeam)) (\<lambda>beamSym.
     bindL (Some (ns_assert (usable_rbgs bw notched > 0) (Inr ()))) (\<lambda>_.
     bindL (Some (map_entries (pol_BeforeDl pol (FTResources (beamSym * beamSym) beamSym)) ues)) (\<lambda>vec.
     bindL (dl_rounds pol beamSym (usable_rbgs bw notched) \<lparr>pt_rbg = 0, pt_sym = 0\<rparr> vec) (\<lambda>vec.
       Some (Inr (beam, vec)))))))"

definition AssignDLRBG :: "'p policy \<Rightarrow> u16 \<Rightarrow> u8 list \<Rightarrow> u32 \<Rightarrow> 'p ActiveUeMap \<Rightarrow>
    (BeamSymbolMap \<times> 'p ActiveUeMap) res option" where
  "AssignDLRBG pol bw notched symAvail activeDl =
     bindL (Some (GetSymPerBeam symAvail activeDl)) (\<lambda>symPerBeam.
     bindL (mapL (assign_dl_beam pol bw notched symPerBeam) activeDl) (\<lambda>activeDl.
       Some (Inr (symPerBeam, activeDl))))"

subsection \<open>Uplink allocation\<close>

text \<open>
  What \<open>AssignULRBG\<close> reads besides its arguments. \<open>o_proactive\<close> and \<open>o_confident\<close> are \<open>m_proactiveBSR\<close> and
  \<open>m_confidentBSR\<close>; a missing key counts as 0, as with \<open>operator[]\<close>. Times are in milliseconds.
\<close>

record ofdma_env =
  o_bw :: u16
  o_ulNotched :: "u8 list"
  o_scheduleMode :: int
  o_enableBbr :: bool
  o_now :: int
  o_bufferResetTime :: int
  o_timeWindow :: u32
  o_proactive :: "(u16 \<times> u32) list"
  o_confident :: "(u16 \<times> u32) list"

definition bsr_of :: "(u16 \<times> u32) list \<Rightarrow> u16 \<Rightarrow> u32" where
  "bsr_of m rnti = (case map_of m rnti of None \<Rightarrow> 0 | Some v \<Rightarrow> v)"

definition SetProactiveBSR :: "(u16 \<times> trigger) list \<Rightarrow> ofdma_env \<Rightarrow> ofdma_env" where
  "SetProactiveBSR triggerMap e =
     foldl (\<lambda>e (rnti, t). e\<lparr>o_proactive := AList.update rnti (of_int (GetProactiveBSR t)) (o_proactive e),
                            o_confident := AList.update rnti (of_int (GetConfidentBSR t)) (o_confident e)\<rparr>) e triggerMap"

text \<open>The buffer penalty: the new \<open>m_maxBuffer\<close> and the share of the bandwidth a UE may get.\<close>

definition next_max_buffer :: "ofdma_env \<Rightarrow> u32 \<Rightarrow> u32 \<Rightarrow> u32 res" where
  "next_max_buffer e bufQueueSize maxBuffer =
     (let maxBuffer = (if o_now e - o_bufferResetTime e > uint (o_timeWindow e) then 0 else maxBuffer) in
      if maxBuffer = 0 then Inr bufQueueSize
      else fp_to_u32 (fp_add (fp_mul (fl (1 / 5)) (fp_of_int (uint bufQueueSize)))
                             (fp_mul (fl (4 / 5)) (fp_of_int (uint maxBuffer)))))"

definition buffer_penalty :: "u32 \<Rightarrow> fp" where
  "buffer_penalty maxBuffer =
     (let d = fp_sub (fp_of_int (uint maxBuffer)) (Num 60000); d = (if fp_less d (Num 0) then Num 0 else d) in
      fp_add (fp_div d (Num 150000)) (fl (2 / 5)))"

definition bbr_step :: "ofdma_env \<Rightarrow> u32 \<Rightarrow> u32 \<times> fp \<Rightarrow> (u32 \<times> fp) res" where
  "bbr_step e bufQueueSize = (\<lambda>(maxBuffer, penalty).
     if o_enableBbr e then
       bindE (next_max_buffer e bufQueueSize maxBuffer) (\<lambda>m. Inr (m, buffer_penalty m))
     else Inr (maxBuffer, penalty))"

text \<open>A UE is passed over when its block covers its request or its RBGs reach its share of the bandwidth.\<close>

definition has_enough :: "u32 \<Rightarrow> u32 \<Rightarrow> fp \<Rightarrow> u32 \<Rightarrow> UeInfo \<Rightarrow> bool res" where
  "has_enough rbgAssignable max_resources penalty bufQueueSize ue =
     (if ue_ulTbSize ue \<ge> max bufQueueSize 12 then Inr True
      else defined_if (rbgAssignable \<noteq> 0)
        (let share = fp_mul (fp_of_int (uint max_resources)) penalty; rbgs = ue_ulRBG ue div rbgAssignable
         in Inr (fp_le share (fp_of_int (uint rbgs)))))"

definition request_of :: "ofdma_env \<Rightarrow> nat \<Rightarrow> 'p entry \<Rightarrow> u32" where
  "request_of e i = (\<lambda>((ue, _), buf). if o_scheduleMode e = 3 \<and> i = 0 then bsr_of (o_confident e) (ue_rnti ue) else buf)"

fun ul_pass :: "ofdma_env \<Rightarrow> nat \<Rightarrow> u32 \<Rightarrow> u32 \<Rightarrow> u32 \<times> fp \<Rightarrow> 'p entry list \<Rightarrow>
    ('p entry list \<times> 'p entry list \<times> u32) res" where
  "ul_pass e i rbgAssignable max_resources bbr [] = Inr ([], [], fst bbr)"
| "ul_pass e i rbgAssignable max_resources bbr (x # r) =
     bindE (bbr_step e (request_of e i x) bbr) (\<lambda>bbr.
     bindE (has_enough rbgAssignable max_resources (snd bbr) (request_of e i x) (fst (fst x))) (\<lambda>enough.
       if enough then
         bindE (ul_pass e i rbgAssignable max_resources bbr r) (\<lambda>(p, q, m). Inr (x # p, q, m))
       else Inr ([], x # r, fst bbr)))"

record 'p ul_state =
  us_vec :: "'p entry list"
  us_assigned :: PointInFTPlane
  us_maxBuffer :: u32

definition ul_round :: "'p policy \<Rightarrow> ofdma_env \<Rightarrow> nat \<Rightarrow> u32 \<Rightarrow> u32 \<Rightarrow> 'p ul_state \<Rightarrow> ('p ul_state \<times> bool) res" where
  "ul_round pol e i beamSym max_resources s =
     (let vec = pol_sort pol (\<lambda>a b. pol_CompareUl pol (fst a) (fst b)) (us_vec s) in
      bindE (ul_pass e i beamSym max_resources (us_maxBuffer s, Num 1) vec) (\<lambda>(passed, rest, maxBuffer).
      case rest of
        [] \<Rightarrow> Inr (s\<lparr>us_vec := passed, us_maxBuffer := maxBuffer\<rparr>, False)
      | ((ue, x), buf) # r \<Rightarrow>
          let ue = ue\<lparr>ue_ulRBG := ue_ulRBG ue + beamSym, ue_ulSym := ucast beamSym\<rparr>;
              assigned = \<lparr>pt_rbg = pt_rbg (us_assigned s) + beamSym, pt_sym = ucast beamSym\<rparr>
          in bindE (pol_AssignedUl pol assigned (ue, x)) (\<lambda>u.
             bindE (not_assigned (pol_NotAssignedUl pol) assigned (ue_rnti ue) (passed @ (u, buf) # r)) (\<lambda>vec.
               Inr (\<lparr>us_vec = vec, us_assigned = assigned, us_maxBuffer = maxBuffer\<rparr>, True)))))"

partial_function (option) ul_rounds :: "'p policy \<Rightarrow> ofdma_env \<Rightarrow> nat \<Rightarrow> u32 \<Rightarrow> u32 \<Rightarrow> u32 \<Rightarrow> 'p ul_state \<Rightarrow>
    (u32 \<times> 'p ul_state) res option" where
  "ul_rounds pol e i beamSym max_resources resources s =
     (if resources > 0 then
        (case ul_round pol e i beamSym max_resources s of
           Inl e \<Rightarrow> Some (Inl e)
         | Inr (s, again) \<Rightarrow>
             if again then ul_rounds pol e i beamSym max_resources (resources - 1) s
             else Some (Inr (resources, s)))
      else Some (Inr (resources, s)))"

text \<open>
  The aggressive mode: every UE with a proactive demand gets 15 RBGs, whatever is left. The loop counts
  \<open>resources\<close> down without a test.
\<close>

partial_function (option) aggressive_ue :: "u32 \<Rightarrow> UeInfo \<Rightarrow> u32 \<Rightarrow> PointInFTPlane \<Rightarrow>
    (UeInfo \<times> u32 \<times> PointInFTPlane) res option" where
  "aggressive_ue beamSym ue resources assigned =
     (if beamSym = 0 then Some (Inl Undefined)
      else if ue_ulRBG ue div beamSym < 15 then
        aggressive_ue beamSym (ue\<lparr>ue_ulRBG := ue_ulRBG ue + beamSym, ue_ulSym := ucast beamSym\<rparr>) (resources - 1)
          \<lparr>pt_rbg = pt_rbg assigned + beamSym, pt_sym = ucast beamSym\<rparr>
      else Some (Inr (ue, resources, assigned)))"

fun aggressive :: "ofdma_env \<Rightarrow> u32 \<Rightarrow> 'p entry list \<Rightarrow> u32 \<Rightarrow> PointInFTPlane \<Rightarrow>
    ('p entry list \<times> u32 \<times> PointInFTPlane) res option" where
  "aggressive e beamSym [] resources assigned = Some (Inr ([], resources, assigned))"
| "aggressive e beamSym (((ue, x), buf) # r) resources assigned =
     bindL (if bsr_of (o_proactive e) (ue_rnti ue) > 0 then aggressive_ue beamSym ue resources assigned
            else Some (Inr (ue, resources, assigned))) (\<lambda>(ue, resources, assigned).
     bindL (aggressive e beamSym r resources assigned) (\<lambda>(r, resources, assigned).
       Some (Inr (((ue, x), buf) # r, resources, assigned))))"

text \<open>One stage: mode 3 has two, every other mode one.\<close>

definition ul_stage :: "'p policy \<Rightarrow> ofdma_env \<Rightarrow> nat \<Rightarrow> u32 \<Rightarrow> u32 \<Rightarrow> u32 \<times> 'p entry list \<times> u32 \<Rightarrow>
    (u32 \<times> 'p entry list \<times> u32) res option" where
  "ul_stage pol e i beamSym max_resources = (\<lambda>(resources, vec, maxBuffer).
     if resources = 0 then Some (Inr (resources, vec, maxBuffer))
     else
       bindL (if o_scheduleMode e = 1 then aggressive e beamSym vec resources \<lparr>pt_rbg = 0, pt_sym = 0\<rparr>
              else Some (Inr (vec, resources, \<lparr>pt_rbg = 0, pt_sym = 0\<rparr>))) (\<lambda>(vec, resources, assigned).
       bindL (ul_rounds pol e i beamSym max_resources resources
                \<lparr>us_vec = vec, us_assigned = assigned, us_maxBuffer = maxBuffer\<rparr>) (\<lambda>(resources, s).
         Some (Inr (resources, us_vec s, us_maxBuffer s)))))"

definition assign_ul_beam :: "'p policy \<Rightarrow> ofdma_env \<Rightarrow> BeamSymbolMap \<Rightarrow> u32 \<Rightarrow> BeamConfId \<times> 'p entry list \<Rightarrow>
    ((BeamConfId \<times> 'p entry list) \<times> u32) res option" where
  "assign_ul_beam pol e symPerBeam maxBuffer = (\<lambda>(beam, ues).
     let resources = usable_rbgs (o_bw e) (o_ulNotched e) in
     bindL (Some (map_at beam symPerBeam)) (\<lambda>beamSym.
     bindL (Some (ns_assert (resources > 0) (Inr ()))) (\<lambda>_.
     bindL (Some (map_entries (pol_BeforeUl pol (FTResources (beamSym * beamSym) beamSym)) ues)) (\<lambda>vec.
     bindL (ul_stage pol e 0 beamSym resources (resources, vec, maxBuffer)) (\<lambda>s.
     bindL (if o_scheduleMode e = 3 then ul_stage pol e 1 beamSym resources s else Some (Inr s))
       (\<lambda>(_, vec, maxBuffer). Some (Inr ((beam, vec), maxBuffer))))))))"

fun assign_ul_beams :: "'p policy \<Rightarrow> ofdma_env \<Rightarrow> BeamSymbolMap \<Rightarrow> u32 \<Rightarrow> 'p ActiveUeMap \<Rightarrow>
    ('p ActiveUeMap \<times> u32) res option" where
  "assign_ul_beams pol e symPerBeam maxBuffer [] = Some (Inr ([], maxBuffer))"
| "assign_ul_beams pol e symPerBeam maxBuffer (b # r) =
     bindL (assign_ul_beam pol e symPerBeam maxBuffer b) (\<lambda>(b, maxBuffer).
     bindL (assign_ul_beams pol e symPerBeam maxBuffer r) (\<lambda>(r, maxBuffer). Some (Inr (b # r, maxBuffer))))"

definition AssignULRBG :: "'p policy \<Rightarrow> ofdma_env \<Rightarrow> u32 \<Rightarrow> u32 \<Rightarrow> 'p ActiveUeMap \<Rightarrow>
    (BeamSymbolMap \<times> 'p ActiveUeMap \<times> u32) res option" where
  "AssignULRBG pol e maxBuffer symAvail activeUl =
     bindL (Some (GetSymPerBeam symAvail activeUl)) (\<lambda>symPerBeam.
     bindL (assign_ul_beams pol e symPerBeam maxBuffer activeUl) (\<lambda>(activeUl, maxBuffer).
       Some (Inr (symPerBeam, activeUl, maxBuffer))))"

subsection \<open>The DCIs\<close>

text \<open>The RBGs of the mask from a starting point on, as many as needed: the mask, what is missing, the last RBG.\<close>

fun take_rbgs :: "nat \<Rightarrow> nat \<Rightarrow> nat \<Rightarrow> nat \<Rightarrow> u8 list \<Rightarrow> u8 list \<times> nat \<times> nat" where
  "take_rbgs i start n lastRbg [] = ([], n, lastRbg)"
| "take_rbgs i start n lastRbg (b # r) =
     (if i \<ge> start \<and> n > 0 \<and> b = 1
      then let (r, m, l) = take_rbgs (Suc i) start (n - 1) i r in (b # r, m, l)
      else let (r, m, l) = take_rbgs (Suc i) start n lastRbg r in (0 # r, m, l))"

definition rbg_mask :: "u16 \<Rightarrow> u8 list \<Rightarrow> u8 list" where
  "rbg_mask bw notched = (if length notched = 0 then replicate (unat bw) 1 else notched)"

definition dl_streams :: "u32 list \<Rightarrow> u32 list \<times> u8 list \<times> u8 list \<times> nat" where
  "dl_streams tbs = (map (\<lambda>t. if t < 10 then 0 else t) tbs, map (\<lambda>t. if t < 10 then 0 else 1) tbs,
     map (\<lambda>_. 0) tbs, length (filter (\<lambda>t. t < 10) tbs))"

definition CreateDlDci :: "u16 \<Rightarrow> u8 list \<Rightarrow> u8 \<Rightarrow> PointInFTPlane \<Rightarrow> UeInfo \<Rightarrow> u32 \<Rightarrow>
    (dci option \<times> UeInfo \<times> PointInFTPlane) res" where
  "CreateDlDci bw notched bwpId spoint ue maxSym =
     (let (tbs, ndi, rv, small) = dl_streams (ue_dlTbSize ue); ue = ue\<lparr>ue_dlTbSize := tbs\<rparr> in
      defined_if (maxSym \<noteq> 0)
      (ns_assert (ue_dlRBG ue mod maxSym = 0)
      (ns_assert (ue_dlRBG ue \<le> maxSym * ucast bw)
      (ns_assert (pt_rbg spoint < ucast bw)
      (ns_assert (maxSym \<le> 255)
      (if small = length tbs then Inr (None, ue, spoint)
       else
         let mask = rbg_mask bw notched in
         ns_assert (length mask = unat bw)
         (let (mask, left, lastRbg) = take_rbgs 0 (unat (pt_rbg spoint)) (unat (ue_dlRBG ue div maxSym))
                                     (unat (pt_rbg spoint)) mask in
          ns_assert (left = 0)
          (let d = (Dci_data (ue_rnti ue) DL_DCI (pt_sym spoint) (ucast maxSym) (ue_dlMcs ue) tbs ndi rv DATA
                      bwpId 1)\<lparr>dci_rbgBitmask := mask\<rparr> in
           ns_assert (count_list mask 0 \<noteq> unat bw)
           (Inr (Some d, ue, spoint\<lparr>pt_rbg := of_nat lastRbg + 1\<rparr>))))))))))"

definition CreateUlDci :: "(u8 \<Rightarrow> u32 \<Rightarrow> u32) \<Rightarrow> u16 \<Rightarrow> u8 list \<Rightarrow> u8 \<Rightarrow> PointInFTPlane \<Rightarrow> UeInfo \<Rightarrow> u32 \<Rightarrow>
    (dci option \<times> PointInFTPlane) res" where
  "CreateUlDci CalculateTbSize bw notched bwpId spoint ue maxSym =
     (let tbs = CalculateTbSize (ue_ulMcs ue) (ue_ulRBG ue * ue_numRbPerRbg ue) in
      if tbs < 12 then Inr (None, spoint)
      else
        defined_if (maxSym \<noteq> 0)
        (let mask = rbg_mask bw notched in
         ns_assert (length mask = unat bw)
         (let (mask, left, lastRbg) = take_rbgs 0 (unat (pt_rbg spoint)) (unat (ue_ulRBG ue div maxSym))
                                     (unat (pt_rbg spoint)) mask in
          ns_assert (left = 0)
          (ns_assert (ucast (pt_sym spoint) \<ge> maxSym)
          (let d = (Dci_data (ue_rnti ue) UL_DCI (pt_sym spoint - ucast maxSym) (ucast maxSym) [ue_ulMcs ue] [tbs] [1]
                      [0] DATA bwpId 1)\<lparr>dci_rbgBitmask := mask\<rparr> in
           ns_assert (count_list mask 0 \<noteq> unat bw)
           (Inr (Some d, spoint\<lparr>pt_rbg := of_nat lastRbg + 1\<rparr>)))))))"

definition ChangeDlBeam :: "PointInFTPlane \<Rightarrow> u32 \<Rightarrow> PointInFTPlane" where
  "ChangeDlBeam spoint symOfBeam = \<lparr>pt_rbg = 0, pt_sym = pt_sym spoint + ucast symOfBeam\<rparr>"

definition ChangeUlBeam :: "PointInFTPlane \<Rightarrow> u32 \<Rightarrow> PointInFTPlane" where
  "ChangeUlBeam spoint symOfBeam = \<lparr>pt_rbg = 0, pt_sym = pt_sym spoint - ucast symOfBeam\<rparr>"

end
