(* ===== verification/OfdmaSym.thy ===== *)
theory OfdmaSym
  imports Ofdma
begin

text \<open>
  \<open>GetSymPerBeam\<close>, with the rounding of its \<open>double\<close> arithmetic: the symbols it hands out are exactly the
  available ones.
\<close>

subsection \<open>One beam\<close>

text \<open>The share of a beam is rounded down, at most one symbol too low and never too high.\<close>

lemma share_bounds:
  fixes s b B :: nat
  assumes "0 < s" "s < 2 ^ 8" "0 < b" "b < 2 ^ 32" "0 < B" "B < 2 ^ 53" "b \<le> B"
  obtains z where "fp_mul (fp_of_int (int b)) (fp_div (fp_of_int (int s)) (Num (of_nat B))) = Num z" "0 \<le> z"
    "z < of_nat b * of_nat s / of_nat B + 1 / of_nat B" "of_nat b * of_nat s / of_nat B < z + 1" "z < 2 ^ 9"
proof -
  define x where "x = (of_nat s / of_nat B :: rat)"
  have B: "(0 :: rat) < of_nat B" "(of_nat B :: rat) \<le> 2 ^ 53" using assms(5,6) by (simp, metis of_nat_le_iff less_imp_le of_nat_numeral of_nat_power)
  have s: "(1 :: rat) \<le> of_nat s" "(of_nat s :: rat) \<le> 2 ^ 8" using assms(1,2) by (simp, metis of_nat_le_iff less_imp_le of_nat_numeral of_nat_power)
  have b: "(1 :: rat) \<le> of_nat b" "(of_nat b :: rat) \<le> 2 ^ 32" using assms(3,4) by (simp, metis of_nat_le_iff less_imp_le of_nat_numeral of_nat_power)
  have bB: "of_nat b \<le> (of_nat B :: rat)" using assms(7) by simp
  have x: "1 / 2 ^ 53 \<le> x" "x \<le> 2 ^ 8" "0 < x"
    unfolding x_def using frac_le[of "of_nat s" 1 "of_nat B" "2 ^ 53 :: rat"] B s
    by (auto simp: divide_le_eq intro: order_trans)
  obtain y where y: "fl x = Num y" "y \<le> x + x / 2 ^ 53" "x - x / 2 ^ 53 \<le> y"
    by (rule fl_near[of x]) (use x in simp_all)
  define t where "t = of_nat b * x"
  define p where "p = of_nat b * y"
  have t: "0 < t" "t \<le> 2 ^ 8"
  proof -
    show "0 < t" using b x by (simp add: t_def)
    have "t \<le> of_nat B * x" unfolding t_def using bB x(3) by (intro mult_right_mono) simp_all
    also have "\<dots> = of_nat s" using B by (simp add: x_def)
    finally have "t \<le> of_nat s" .
    then show "t \<le> 2 ^ 8" using s(2) by linarith
  qed
  have p2: "p \<le> t + t / 2 ^ 53" "t - t / 2 ^ 53 \<le> p"
    using mult_left_mono[OF y(2), of "of_nat b"] mult_left_mono[OF y(3), of "of_nat b"]
    by (simp_all add: p_def t_def ac_simps)
  have tx: "x \<le> t" using b(1) x(1) mult_right_mono[of 1 "of_nat b" x] by (simp add: t_def)
  have pl: "1 / 2 ^ 54 \<le> p" using p2(2) tx x(1) t(1) by simp
  obtain z where z: "fl p = Num z" "z \<le> p + p / 2 ^ 53" "p - p / 2 ^ 53 \<le> z"
    by (rule fl_near[of p]) (use pl p2(1) t in simp_all)
  have "fp_mul (fp_of_int (int b)) (fp_div (fp_of_int (int s)) (Num (of_nat B))) = Num z"
    using y(1) z(1) assms by (simp add: fp_of_int_exact p_def x_def)
  moreover have "0 \<le> z" using z(3) pl by simp
  moreover have up: "z \<le> t + t * 3 / 2 ^ 53" using z(2) p2(1) t by simp
  moreover have "z < t + 1 / of_nat B"
  proof -
    have "of_nat b * of_nat s \<le> (2 ^ 32 * 2 ^ 8 :: rat)" using b s by (intro mult_mono) simp_all
    then have "of_nat b * of_nat s * (3 / 2 ^ 53) < (1 :: rat)" by simp
    then have "of_nat b * of_nat s * (3 / 2 ^ 53) / of_nat B < (1 / of_nat B :: rat)"
      using B by (intro divide_strict_right_mono) simp_all
    then show ?thesis using up by (simp add: t_def x_def)
  qed
  moreover have "t < z + 1" using z(3) p2 t by simp
  moreover have "z < 2 ^ 9" using up t by simp
  ultimately show thesis using that[of z] by (simp add: t_def x_def)
qed

lemma beam_share:
  fixes s b B :: nat
  assumes "s < 2 ^ 8" "b < 2 ^ 32" "0 < B" "B < 2 ^ 53" "b \<le> B"
  obtains c where
    "fp_to_u32 (fp_mul (fp_of_int (int b)) (fp_div (fp_of_int (int s)) (Num (of_nat B)))) = Inr (of_nat c)"
    "c * B \<le> b * s" "b * s < (c + 2) * B"
proof (cases "0 < s \<and> 0 < b")
  case True
  obtain z where z: "fp_mul (fp_of_int (int b)) (fp_div (fp_of_int (int s)) (Num (of_nat B))) = Num z" "0 \<le> z"
      "z < of_nat b * of_nat s / of_nat B + 1 / of_nat B" "of_nat b * of_nat s / of_nat B < z + 1" "z < 2 ^ 9"
    using share_bounds[of s b B] True assms by auto
  define c where "c = nat \<lfloor>z\<rfloor>"
  have c: "of_nat c \<le> z" "z < of_nat c + 1" using z(2) floor_correct[of z] by (simp_all add: c_def of_nat_floor)
  have B: "(0 :: rat) < of_nat B" using assms(3) by simp
  have t: "of_nat b * of_nat s = of_nat b * of_nat s / of_nat B * (of_nat B :: rat)" using B by simp
  have "(of_nat c :: rat) * of_nat B < (of_nat b * of_nat s / of_nat B + 1 / of_nat B) * of_nat B"
    using c(1) z(3) B by (intro mult_strict_right_mono) linarith+
  also have "\<dots> = of_nat b * of_nat s + 1" using B by (simp add: distrib_right)
  finally have "of_nat (c * B) < (of_nat (b * s + 1) :: rat)" by simp
  then have lo: "c * B \<le> b * s" by (simp only: of_nat_less_iff)
  have "of_nat b * of_nat s / of_nat B * of_nat B < ((of_nat c + 2) * of_nat B :: rat)"
    by (rule mult_strict_right_mono[OF _ B]) (use c(2) z(4) in linarith)
  then have "of_nat b * of_nat s < ((of_nat c + 2) * of_nat B :: rat)" unfolding t[symmetric] .
  moreover have "of_nat ((c + 2) * B) = ((of_nat c + 2) * of_nat B :: rat)"
    by (simp only: of_nat_mult of_nat_add of_nat_numeral)
  ultimately have "of_nat (b * s) < (of_nat ((c + 2) * B) :: rat)" by (simp only: of_nat_mult)
  then have hi: "b * s < (c + 2) * B" by (simp only: of_nat_less_iff)
  have "rat_trunc z = int c" using z(2) by (simp add: rat_trunc_def c_def)
  moreover have "c < 2 ^ 32"
  proof -
    have "(of_nat c :: rat) < of_nat (2 ^ 9)" using c(1) z(5) by simp
    then have "c < 2 ^ 9" by (simp only: of_nat_less_iff)
    then show ?thesis by simp
  qed
  ultimately have "fp_to_u32 (Num z) = Inr (of_nat c)" by simp
  then show thesis using that lo hi z(1) by simp
next
  case False
  have fl0: "fl 0 = Num 0" by simp
  have "fp_mul (fp_of_int (int b)) (fp_div (fp_of_int (int s)) (Num (of_nat B))) = Num 0"
  proof (cases "s = 0")
    case True
    then show ?thesis using assms by (simp add: fp_of_int_exact)
  next
    case s: False
    obtain z where "fp_mul (fp_of_int (int 1)) (fp_div (fp_of_int (int s)) (Num (of_nat B))) = Num z"
      using share_bounds[of s 1 B] s assms by auto
    then have "\<exists>y. fp_div (fp_of_int (int s)) (Num (of_nat B)) = Num y"
      by (cases "fp_div (fp_of_int (int s)) (Num (of_nat B))") (auto simp: fp_of_int_exact)
    then show ?thesis using s False assms by (auto simp: fp_of_int_exact)
  qed
  then have "fp_to_u32 (fp_mul (fp_of_int (int b)) (fp_div (fp_of_int (int s)) (Num (of_nat B)))) = Inr (of_nat 0)"
    by (simp add: rat_trunc_def)
  then show thesis using that[of 0] False assms(3) by auto
qed

subsection \<open>All beams\<close>

text \<open>The buffer of a beam and of all beams, as numbers, when they fit.\<close>

definition beam_bytes :: "'p entry list \<Rightarrow> nat" where
  "beam_bytes ues = sum_list (map (\<lambda>x. unat (snd x)) ues)"

definition total_bytes :: "'p ActiveUeMap \<Rightarrow> nat" where
  "total_bytes active = sum_list (map (\<lambda>el. beam_bytes (snd el)) active)"

definition all_symbols :: "BeamSymbolMap \<Rightarrow> nat" where
  "all_symbols m = sum_list (map (\<lambda>x. unat (snd x)) m)"

lemma buf_beam_exact:
  assumes "unat b + beam_bytes ues < 2 ^ 32"
  shows "unat (foldl (\<lambda>b ue. b + GetUeBufSize ue) b ues) = unat b + beam_bytes ues"
  using assms
proof (induction ues arbitrary: b)
  case Nil
  then show ?case by (simp add: beam_bytes_def)
next
  case (Cons x ues)
  have "unat (b + snd x) = unat b + unat (snd x)"
    using Cons.prems by (simp add: beam_bytes_def unat_word_ariths)
  then show ?case using Cons.IH[of "b + snd x"] Cons.prems by (simp add: beam_bytes_def GetUeBufSize_def)
qed

lemma buf_ues_exact:
  assumes "t + beam_bytes ues < 2 ^ 53"
  shows "foldl (\<lambda>t ue. fp_add t (fp_of_int (uint (GetUeBufSize ue)))) (Num (of_nat t)) ues =
    Num (of_nat (t + beam_bytes ues))"
  using assms
proof (induction ues arbitrary: t)
  case Nil
  then show ?case by (simp add: beam_bytes_def)
next
  case (Cons x ues)
  have "t + unat (snd x) < 2 ^ 53" using Cons.prems by (simp add: beam_bytes_def)
  then have "int (t + unat (snd x)) < int (2 ^ 53)" by (simp only: of_nat_less_iff)
  then have b: "int (t + unat (snd x)) < 2 ^ 53" by (simp only: of_nat_power of_nat_numeral)
  then have "fp_of_int (uint (snd x)) = Num (of_nat (unat (snd x)))"
    using fp_of_int_exact[of "int (unat (snd x))"] by simp
  moreover have "fl (of_nat t + of_nat (unat (snd x))) = Num (of_nat (t + unat (snd x)))"
    using fl_int[of "int (t + unat (snd x))"] b by simp
  ultimately show ?case
    using Cons.IH[of "t + unat (snd x)"] Cons.prems by (simp add: beam_bytes_def GetUeBufSize_def)
qed

lemma buf_total_exact:
  assumes "total_bytes active < 2 ^ 53"
  shows "buf_total active = Num (of_nat (total_bytes active))"
proof -
  have "foldl (\<lambda>t el. foldl (\<lambda>t ue. fp_add t (fp_of_int (uint (GetUeBufSize ue)))) t (snd el)) (Num (of_nat t)) active =
      Num (of_nat (t + total_bytes active))" if "t + total_bytes active < 2 ^ 53" for t
    using that
  proof (induction active arbitrary: t)
    case Nil
    then show ?case by (simp add: total_bytes_def)
  next
    case (Cons el active)
    then show ?case using Cons.IH[of "t + beam_bytes (snd el)"] buf_ues_exact[of t "snd el"]
      by (simp add: total_bytes_def add.assoc)
  qed
  from this[of 0] assms show ?thesis by (simp add: buf_total_def)
qed

text \<open>What a beam gets before the redistribution: its share rounded down, or one less.\<close>

definition shares :: "nat \<Rightarrow> nat \<Rightarrow> 'p entry list \<Rightarrow> u32 \<Rightarrow> bool" where
  "shares s B ues c \<longleftrightarrow> unat c * B \<le> beam_bytes ues * s \<and> beam_bytes ues * s < (unat c + 2) * B"

lemma u8_add_via_u32: "ucast (ucast (u :: u8) + (c :: u32)) = u + ucast c"
  by (simp add: word_uint_eq_iff unsigned_ucast_eq uint_word_ariths take_bit_eq_mod mod_add_left_eq mod_add_right_eq mod_mod_cancel)

lemma all_symbols_Nil [simp]: "all_symbols [] = 0"
  by (simp add: all_symbols_def)

lemma all_symbols_append [simp]: "all_symbols (xs @ ys) = all_symbols xs + all_symbols ys"
  by (simp add: all_symbols_def)

lemma all_symbols_Cons [simp]: "all_symbols ((k, v) # m) = unat v + all_symbols m"
  by (simp add: all_symbols_def)

lemma beams_fold:
  fixes xs :: "'p ActiveUeMap"
  assumes "unat s < 2 ^ 8" "0 < B" "B < 2 ^ 53" "total_bytes xs \<le> B" "\<forall>el \<in> set xs. beam_bytes (snd el) < 2 ^ 32"
    "distinct (map fst xs)" "fst ` set ret \<inter> fst ` set xs = {}"
  shows "\<exists>m. foldE (sym_of_beam s (Num (of_nat B))) (ret, u) xs = Inr (ret @ m, u + of_nat (all_symbols m)) \<and>
    map fst m = map fst xs \<and> list_all2 (\<lambda>el x. shares (unat s) B (snd el) (snd x)) xs m \<and>
    all_symbols m * B \<le> total_bytes xs * unat s"
  using assms(4-)
proof (induction xs arbitrary: ret u)
  case Nil
  then show ?case by (simp add: total_bytes_def)
next
  case (Cons el xs)
  obtain k ues where el: "el = (k, ues)" by fastforce
  have b: "beam_bytes ues < 2 ^ 32" "beam_bytes ues \<le> B" using Cons.prems by (auto simp: el total_bytes_def)
  then have bb: "unat (buf_beam ues) = beam_bytes ues" using buf_beam_exact[of 0 ues] by (simp add: buf_beam_def)
  have u: "uint (buf_beam ues) = int (beam_bytes ues)" using bb by (metis uint_nat)
  obtain c where c: "fp_to_u32 (fp_mul (fp_of_int (int (beam_bytes ues)))
        (fp_div (fp_of_int (int (unat s))) (Num (of_nat B)))) = Inr (of_nat c)"
      "c * B \<le> beam_bytes ues * unat s" "beam_bytes ues * unat s < (c + 2) * B"
    using beam_share[OF assms(1) b(1) assms(2,3) b(2)] .
  have "c * B \<le> B * unat s" using c(2) b(2) by (meson le_trans mult_le_mono1)
  then have "c \<le> unat s" using assms(2) by simp
  then have c32: "unat (of_nat c :: u32) = c" using assms(1) by (simp add: unsigned_of_nat take_bit_nat_eq_self_iff)
  have c8: "ucast (of_nat c :: u32) = (of_nat c :: u8)"
    by (simp add: word_unat_eq_iff unsigned_ucast_eq unsigned_of_nat take_bit_eq_mod mod_mod_cancel)
  have k: "map_of ret k = None" using Cons.prems(4) by (auto simp: el map_of_eq_None_iff)
  have step: "sym_of_beam s (Num (of_nat B)) (ret, u) el = Inr (ret @ [(k, of_nat c)], u + of_nat c)"
    using c(1) k u by (simp add: sym_of_beam_def el map_emplace_def u8_add_via_u32 c8)
  obtain m where m: "foldE (sym_of_beam s (Num (of_nat B))) (ret @ [(k, of_nat c)], u + of_nat c) xs =
        Inr ((ret @ [(k, of_nat c)]) @ m, u + of_nat c + of_nat (all_symbols m))"
      "map fst m = map fst xs" "list_all2 (\<lambda>el x. shares (unat s) B (snd el) (snd x)) xs m"
      "all_symbols m * B \<le> total_bytes xs * unat s"
    using Cons.IH[of "ret @ [(k, of_nat c)]" "u + of_nat c"] Cons.prems by (auto simp: el total_bytes_def)
  have sh: "shares (unat s) B ues (of_nat c)" using c(2,3) c32 by (simp add: shares_def)
  show ?case using step m sh c(2) c32
    by (intro exI[of _ "(k, of_nat c) # m"]) (simp add: el total_bytes_def distrib_right add.assoc)
qed

subsection \<open>Redistribution\<close>

definition grown :: "BeamSymbolMap \<Rightarrow> BeamSymbolMap \<Rightarrow> bool" where
  "grown = list_all2 (\<lambda>x y. fst x = fst y \<and> unat (snd x) \<le> unat (snd y))"

lemma grown_refl: "grown m m"
  by (simp add: grown_def list_all2_refl)

lemma grown_trans: "grown a b \<Longrightarrow> grown b c \<Longrightarrow> grown a c"
  unfolding grown_def by (erule (1) list_all2_trans[rotated 1]) auto

lemma min_beam_in: "min_beam x m = Some y \<Longrightarrow> Some y = x \<or> y \<in> set m"
proof (induction x m rule: min_beam.induct)
  case (1 m)
  then show ?case by simp
next
  case (2 m k v r)
  then show ?case by (auto split: option.splits if_splits prod.splits)
qed

lemma min_beam_some: "x \<noteq> None \<or> m \<noteq> [] \<Longrightarrow> min_beam x m \<noteq> None"
  by (induction x m rule: min_beam.induct) (auto split: option.splits if_splits prod.splits)

lemma update_one:
  assumes "(k, v) \<in> set m" and "distinct (map fst m)" and "unat v < 2 ^ 32 - 1"
  shows "map fst (AList.update k (v + 1) m) = map fst m \<and> all_symbols (AList.update k (v + 1) m) = all_symbols m + 1 \<and>
    grown m (AList.update k (v + 1) m)"
  using assms
proof (induction m)
  case Nil
  then show ?case by simp
next
  case (Cons x m)
  obtain j w where x: "x = (j, w)" by fastforce
  have v: "unat (v + 1) = unat v + 1" using Cons.prems(3) by (simp add: unat_word_ariths)
  show ?case
  proof (cases "j = k")
    case True
    then have "w = v" using Cons.prems(1,2) by (auto simp: x image_iff)
    then show ?thesis using True v grown_refl[of m] by (simp add: x grown_def)
  next
    case False
    then show ?thesis using Cons by (auto simp: x grown_def)
  qed
qed

lemma redistribute_ok:
  assumes "m \<noteq> []" and "distinct (map fst m)" and "all_symbols m + n < 2 ^ 32 - 1"
  shows "\<exists>m'. redistribute n m = Inr m' \<and> map fst m' = map fst m \<and> all_symbols m' = all_symbols m + n \<and> grown m m'"
  using assms
proof (induction n arbitrary: m)
  case 0
  then show ?case by (simp add: grown_refl)
next
  case (Suc n)
  obtain k v where kv: "min_beam None m = Some (k, v)" using min_beam_some[of None m] Suc.prems(1) by fastforce
  then have i: "(k, v) \<in> set m" using min_beam_in by fastforce
  have "unat v \<le> all_symbols m" using member_le_sum_list[of "unat v" "map (\<lambda>x. unat (snd x)) m"] i
    by (force simp: all_symbols_def)
  then have u: "map fst (AList.update k (v + 1) m) = map fst m" "all_symbols (AList.update k (v + 1) m) = all_symbols m + 1"
      "grown m (AList.update k (v + 1) m)"
    using update_one[OF i Suc.prems(2)] Suc.prems(3) by auto
  obtain m' where "redistribute n (AList.update k (v + 1) m) = Inr m'" "map fst m' = map fst m"
      "all_symbols m' = all_symbols m + 1 + n" "grown (AList.update k (v + 1) m) m'"
    using Suc.IH[of "AList.update k (v + 1) m"] Suc.prems u by fastforce
  then show ?case using kv grown_trans[OF u(3)] by (simp add: give_one_def)
qed

text \<open>
  C18. All symbols are given out. For distinct beams whose buffers fit their counters, \<open>GetSymPerBeam\<close> never stops the
  program: the rounded \<open>double\<close> shares never exceed the available symbols, every beam gets its proportional share up to
  less than two symbols, and the shares with what is redistributed sum up to exactly the symbols available.
\<close>
theorem symbols_all_assigned:
  fixes active :: "'p ActiveUeMap"
  assumes "unat symAvail < 2 ^ 8" and "distinct (map fst active)" and "0 < total_bytes active" and "total_bytes active < 2 ^ 53"
    and "\<forall>el \<in> set active. beam_bytes (snd el) < 2 ^ 32"
  shows "\<exists>m. GetSymPerBeam symAvail active = Inr m \<and> map fst m = map fst active \<and> all_symbols m = unat symAvail \<and>
    list_all2 (\<lambda>el x. beam_bytes (snd el) * unat symAvail < (unat (snd x) + 2) * total_bytes active) active m"
proof -
  let ?s = "unat symAvail" and ?B = "total_bytes active"
  obtain m where m: "foldE (sym_of_beam symAvail (Num (of_nat ?B))) ([], 0) active = Inr (m, of_nat (all_symbols m))"
      "map fst m = map fst active" "list_all2 (\<lambda>el x. shares ?s ?B (snd el) (snd x)) active m"
      "all_symbols m * ?B \<le> ?B * ?s"
    using beams_fold[of symAvail ?B active "[]" 0] assms by auto
  have le: "all_symbols m \<le> ?s" using m(4) assms(3) by simp
  then have u: "unat (of_nat (all_symbols m) :: u8) = all_symbols m"
    using assms(1) by (simp add: unsigned_of_nat take_bit_nat_eq_self_iff)
  have rest: "unat (ucast (symAvail - ucast (of_nat (all_symbols m) :: u8)) :: u8) = ?s - all_symbols m"
    using u le assms(1) by (simp add: unsigned_ucast_eq unat_sub word_le_nat_alt take_bit_nat_eq_self_iff)
  have "m \<noteq> []" using assms(3) m(2) by (cases active) (auto simp: total_bytes_def)
  then obtain m' where m': "redistribute (?s - all_symbols m) m = Inr m'" "map fst m' = map fst m"
      "all_symbols m' = all_symbols m + (?s - all_symbols m)" "grown m m'"
    using redistribute_ok[of m "?s - all_symbols m"] m(2) assms(1,2) le by auto
  have "GetSymPerBeam symAvail active = Inr m'"
    using m(1) m'(1) u le rest by (simp add: GetSymPerBeam_def buf_total_exact[OF assms(4)] ns_assert_def word_le_nat_alt)
  moreover have "list_all2 (\<lambda>el x. beam_bytes (snd el) * ?s < (unat (snd x) + 2) * ?B) active m'"
  proof (rule list_all2_trans[OF _ m(3) m'(4)[unfolded grown_def]])
    fix el :: "BeamConfId \<times> 'p entry list" and x y :: "BeamConfId \<times> u32"
    assume "shares ?s ?B (snd el) (snd x)" "fst x = fst y \<and> unat (snd x) \<le> unat (snd y)"
    then have "beam_bytes (snd el) * ?s < (unat (snd x) + 2) * ?B" "unat (snd x) + 2 \<le> unat (snd y) + 2"
      by (auto simp: shares_def)
    then show "beam_bytes (snd el) * ?s < (unat (snd y) + 2) * ?B"
      by (meson less_le_trans mult_le_mono1)
  qed
  ultimately show ?thesis using m(2) m'(2,3) le by auto
qed

text \<open>Two beams with 100 and 300 bytes share 13 symbols.\<close>

definition demo_beam :: "u16 \<Rightarrow> BeamConfId" where
  "demo_beam k = (\<lparr>bid_sector = k, bid_elevation = 90\<rparr>, \<lparr>bid_sector = 0, bid_elevation = 0\<rparr>)"

definition demo_active :: "unit ActiveUeMap" where
  "demo_active = [(demo_beam 1, [((demo_ue 7 9 0, ()), 100)]),
     (demo_beam 2, [((demo_ue 8 9 0, ()), 250), ((demo_ue 9 9 0, ()), 50)])]"

theorem symbols_all_assigned_witness:
  "\<exists>m. GetSymPerBeam 13 demo_active = Inr m \<and> map fst m = [demo_beam 1, demo_beam 2] \<and> all_symbols m = 13"
proof -
  have "total_bytes demo_active = 400" "distinct (map fst demo_active)"
    "\<forall>el \<in> set demo_active. beam_bytes (snd el) < 2 ^ 32"
    by (simp_all add: demo_active_def total_bytes_def beam_bytes_def demo_beam_def)
  then show ?thesis using symbols_all_assigned[of 13 demo_active] by (auto simp: demo_active_def)
qed

end
