(* ===== verification/UePf.thy ===== *)
theory UePf
  imports Bullet HarqRr
begin

text \<open>
  What the proportional fair subclass keeps of a UE: \<open>NrMacSchedulerUeInfoPF\<close> in
  \<open>contrib/nr/model/nr-mac-scheduler-ue-info-pf.h\<close> and its \<open>.cc\<close>. The members of the base class are the \<open>UeInfo\<close>, the
  added ones the record \<open>pf\<close>; a reset that calls the one of the base class is here the part on the added members.
  \<open>std::pow\<close> is in \<open>libm\<close>, \<open>CalculateTbSize\<close> of the AMC a parameter.
\<close>

record pf =
  pf_currTputDl :: fp
  pf_avgTputDl :: fp
  pf_lastAvgTputDl :: fp
  pf_potentialTputDl :: fp
  pf_alpha :: fp
  pf_currTputUl :: fp
  pf_avgTputUl :: fp
  pf_lastAvgTputUl :: fp
  pf_potentialTputUl :: fp
  pf_currTputUlPro :: fp
  pf_avgTputUlPro :: fp
  pf_lastAvgTputUlPro :: fp
  pf_potentialTputUlPro :: fp

definition NrMacSchedulerUeInfoPF :: "fp \<Rightarrow> pf" where
  "NrMacSchedulerUeInfoPF alpha =
     \<lparr>pf_currTputDl = Num 0, pf_avgTputDl = Num 0, pf_lastAvgTputDl = Num 0, pf_potentialTputDl = Num 0, pf_alpha = alpha,
      pf_currTputUl = Num 0, pf_avgTputUl = Num 0, pf_lastAvgTputUl = Num 0, pf_potentialTputUl = Num 0,
      pf_currTputUlPro = Num 0, pf_avgTputUlPro = Num 0, pf_lastAvgTputUlPro = Num 0, pf_potentialTputUlPro = Num 0\<rparr>"

definition pf_ResetDlSchedInfo :: "pf \<Rightarrow> pf" where
  "pf_ResetDlSchedInfo x = x\<lparr>pf_lastAvgTputDl := pf_avgTputDl x, pf_avgTputDl := Num 0, pf_currTputDl := Num 0,
     pf_potentialTputDl := Num 0\<rparr>"

definition pf_ResetUlSchedInfo :: "pf \<Rightarrow> pf" where
  "pf_ResetUlSchedInfo x = x\<lparr>pf_lastAvgTputUl := pf_avgTputUl x, pf_avgTputUl := Num 0, pf_currTputUl := Num 0,
     pf_potentialTputUl := Num 0, pf_lastAvgTputUlPro := pf_avgTputUlPro x, pf_avgTputUlPro := Num 0,
     pf_currTputUlPro := Num 0, pf_potentialTputUlPro := Num 0\<rparr>"

definition pf_ResetDlMetric :: "pf \<Rightarrow> pf" where
  "pf_ResetDlMetric x = x\<lparr>pf_avgTputDl := pf_lastAvgTputDl x\<rparr>"

definition pf_ResetUlMetric :: "pf \<Rightarrow> pf" where
  "pf_ResetUlMetric x = x\<lparr>pf_avgTputUl := pf_lastAvgTputUl x\<rparr>"

subsection \<open>The metrics\<close>

text \<open>The throughput of a block over the symbols, and the weighted average with the last one.\<close>

definition tput :: "u32 \<Rightarrow> u8 \<Rightarrow> fp" where
  "tput tbSize symbs = fp_div (fp_of_int (uint tbSize)) (fp_of_int (uint symbs))"

definition avg_tput :: "fp \<Rightarrow> fp \<Rightarrow> fp \<Rightarrow> fp" where
  "avg_tput timeWindow lastAvg now =
     fp_add (fp_mul (fp_sub (Num 1) (fp_div (Num 1) timeWindow)) lastAvg) (fp_mul (fp_div (Num 1) timeWindow) now)"

definition UpdateDlPFMetric :: "PointInFTPlane \<Rightarrow> fp \<Rightarrow> (u8 \<Rightarrow> u32 \<Rightarrow> u32) \<Rightarrow> UeInfo \<times> pf \<Rightarrow> (UeInfo \<times> pf) res" where
  "UpdateDlPFMetric totAssigned timeWindow amc = (\<lambda>(ue, x).
     bindE (UpdateDlMetric amc ue) (\<lambda>ue.
     let now = tput (GetDlTBS ue) (pt_sym totAssigned) in
     Inr (ue, x\<lparr>pf_currTputDl := now, pf_avgTputDl := avg_tput timeWindow (pf_lastAvgTputDl x) now\<rparr>)))"

definition UpdateUlPFMetric :: "PointInFTPlane \<Rightarrow> fp \<Rightarrow> (u8 \<Rightarrow> u32 \<Rightarrow> u32) \<Rightarrow> UeInfo \<times> pf \<Rightarrow> UeInfo \<times> pf" where
  "UpdateUlPFMetric totAssigned timeWindow amc = (\<lambda>(ue, x).
     let ue = UpdateUlMetric amc ue; now = tput (ue_ulTbSize ue) (pt_sym totAssigned) in
     (ue, x\<lparr>pf_currTputUl := now, pf_avgTputUl := avg_tput timeWindow (pf_lastAvgTputUl x) now\<rparr>))"

definition UpdateUlPFMetricPro :: "PointInFTPlane \<Rightarrow> fp \<Rightarrow> (u8 \<Rightarrow> u32 \<Rightarrow> u32) \<Rightarrow> UeInfo \<times> pf \<Rightarrow> UeInfo \<times> pf" where
  "UpdateUlPFMetricPro totAssigned timeWindow amc = (\<lambda>(ue, x).
     let ue = UpdateUlMetricPro amc ue; now = tput (ue_ulTbSizePro ue) (pt_sym totAssigned) in
     (ue, x\<lparr>pf_currTputUlPro := now, pf_avgTputUlPro := avg_tput timeWindow (pf_lastAvgTputUlPro x) now\<rparr>))"

text \<open>With one stream the largest MCS counts, which an empty vector does not have; with two the blocks are added.\<close>

definition CalculatePotentialTPutDl :: "PointInFTPlane \<Rightarrow> (u8 \<Rightarrow> u32 \<Rightarrow> u32) \<Rightarrow> UeInfo \<times> pf \<Rightarrow> (UeInfo \<times> pf) res" where
  "CalculatePotentialTPutDl assignable amc = (\<lambda>(ue, x).
     let rbs = pt_rbg assignable * ue_numRbPerRbg ue; mcs = ue_dlMcs ue; ri = dlcqi_ri (ue_dlCqi ue) in
     bindE (if ri = 1 then defined_if (mcs \<noteq> []) (Inr (fp_of_int (uint (amc (mcs ! max_element mcs) rbs)))) else Inr (Num 0))
       (\<lambda>p.
     let p = (if ri = 2 then foldl (\<lambda>p m. fp_add p (fp_of_int (uint (amc m rbs)))) p mcs else p) in
     Inr (ue, x\<lparr>pf_potentialTputDl := fp_div p (fp_of_int (uint (pt_sym assignable)))\<rparr>)))"

definition CalculatePotentialTPutUl :: "PointInFTPlane \<Rightarrow> (u8 \<Rightarrow> u32 \<Rightarrow> u32) \<Rightarrow> UeInfo \<times> pf \<Rightarrow> UeInfo \<times> pf" where
  "CalculatePotentialTPutUl assignable amc = (\<lambda>(ue, x).
     (ue, x\<lparr>pf_potentialTputUl := tput (amc (ue_ulMcs ue) (pt_rbg assignable * ue_numRbPerRbg ue)) (pt_sym assignable)\<rparr>))"

subsection \<open>The order\<close>

text \<open>\<open>std::max (1E-9, avg)\<close> is its first argument unless that is less than the second.\<close>

definition pf_metric :: "libm \<Rightarrow> fp \<Rightarrow> fp \<Rightarrow> fp \<Rightarrow> fp" where
  "pf_metric lm potential alpha avg =
     fp_div (lm_pow lm potential alpha) (let least = fl (1 / 10 ^ 9) in if fp_less least avg then avg else least)"

definition pf_CompareUeWeightsDl :: "libm \<Rightarrow> pf \<Rightarrow> pf \<Rightarrow> bool" where
  "pf_CompareUeWeightsDl lm lue rue \<longleftrightarrow>
     fp_less (pf_metric lm (pf_potentialTputDl rue) (pf_alpha rue) (pf_avgTputDl rue))
       (pf_metric lm (pf_potentialTputDl lue) (pf_alpha lue) (pf_avgTputDl lue))"

definition pf_CompareUeWeightsUl :: "libm \<Rightarrow> pf \<Rightarrow> pf \<Rightarrow> bool" where
  "pf_CompareUeWeightsUl lm lue rue \<longleftrightarrow>
     fp_less (pf_metric lm (pf_potentialTputUl rue) (pf_alpha rue) (pf_avgTputUl rue))
       (pf_metric lm (pf_potentialTputUl lue) (pf_alpha lue) (pf_avgTputUl lue))"

definition pf_CompareUeWeightsUlPro :: "libm \<Rightarrow> pf \<Rightarrow> pf \<Rightarrow> bool" where
  "pf_CompareUeWeightsUlPro lm lue rue \<longleftrightarrow>
     fp_less (pf_metric lm (pf_potentialTputUl rue) (pf_alpha rue) (pf_avgTputUlPro rue))
       (pf_metric lm (pf_potentialTputUl lue) (pf_alpha lue) (pf_avgTputUlPro lue))"

end
