(* ===== verification/OfdmaPf.thy ===== *)
theory OfdmaPf
  imports Ofdma UePf
begin

text \<open>
  The proportional fair subclass, \<open>NrMacSchedulerOfdmaPF\<close> of \<open>contrib/nr/model/nr-mac-scheduler-ofdma-pf.cc\<close>: the one the
  BULLET simulation uses. Every UE is told of every RBG that is handed out, its own or not. The overrides for the proactive
  round, which the allocation does not call, are \<open>pf_AssignedUlResourcesPro\<close> and \<open>pf_NotAssignedUlResourcesPro\<close>.
\<close>

definition NrMacSchedulerOfdmaPF :: "libm \<Rightarrow> fp \<Rightarrow> (u8 \<Rightarrow> u32 \<Rightarrow> u32) \<Rightarrow> (u8 \<Rightarrow> u32 \<Rightarrow> u32) \<Rightarrow>
    ((pf entry \<Rightarrow> pf entry \<Rightarrow> bool) \<Rightarrow> pf entry list \<Rightarrow> pf entry list) \<Rightarrow> pf policy" where
  "NrMacSchedulerOfdmaPF lm timeWindow dlAmc ulAmc srt =
     \<lparr>pol_sort = srt,
      pol_CompareDl = (\<lambda>a b. pf_CompareUeWeightsDl lm (snd a) (snd b)),
      pol_CompareUl = (\<lambda>a b. pf_CompareUeWeightsUl lm (snd a) (snd b)),
      pol_BeforeDl = (\<lambda>assignable. CalculatePotentialTPutDl assignable dlAmc),
      pol_BeforeUl = (\<lambda>assignable u. Inr (CalculatePotentialTPutUl assignable ulAmc u)),
      pol_AssignedDl = (\<lambda>totAssigned. UpdateDlPFMetric totAssigned timeWindow dlAmc),
      pol_NotAssignedDl = (\<lambda>totAssigned. UpdateDlPFMetric totAssigned timeWindow dlAmc),
      pol_AssignedUl = (\<lambda>totAssigned u. Inr (UpdateUlPFMetric totAssigned timeWindow ulAmc u)),
      pol_NotAssignedUl = (\<lambda>totAssigned u. Inr (UpdateUlPFMetric totAssigned timeWindow ulAmc u)),
      pol_ResetDlSchedInfo = pf_ResetDlSchedInfo, pol_ResetUlSchedInfo = pf_ResetUlSchedInfo,
      pol_ResetDlMetric = pf_ResetDlMetric, pol_ResetUlMetric = pf_ResetUlMetric\<rparr>"

definition pf_AssignedUlResourcesPro :: "PointInFTPlane \<Rightarrow> fp \<Rightarrow> (u8 \<Rightarrow> u32 \<Rightarrow> u32) \<Rightarrow> pf ue \<Rightarrow> pf ue" where
  "pf_AssignedUlResourcesPro totAssigned timeWindow ulAmc = UpdateUlPFMetric totAssigned timeWindow ulAmc"

definition pf_NotAssignedUlResourcesPro :: "PointInFTPlane \<Rightarrow> fp \<Rightarrow> (u8 \<Rightarrow> u32 \<Rightarrow> u32) \<Rightarrow> pf ue \<Rightarrow> pf ue" where
  "pf_NotAssignedUlResourcesPro totAssigned timeWindow ulAmc = UpdateUlPFMetric totAssigned timeWindow ulAmc"

text \<open>What the program may be configured with.\<close>

definition ofdma_subclass :: "((pf entry \<Rightarrow> pf entry \<Rightarrow> bool) \<Rightarrow> pf entry list \<Rightarrow> pf entry list) \<Rightarrow> pf policy \<Rightarrow> bool" where
  "ofdma_subclass srt pol \<longleftrightarrow>
     (\<exists>dlAmc ulAmc. pol = NrMacSchedulerOfdmaRR dlAmc ulAmc srt \<or> pol = NrMacSchedulerOfdmaMR dlAmc ulAmc srt \<or>
        (\<exists>lm timeWindow. pol = NrMacSchedulerOfdmaPF lm timeWindow dlAmc ulAmc srt))"

lemma ofdma_subclassI:
  "ofdma_subclass srt (NrMacSchedulerOfdmaRR dlAmc ulAmc srt)"
  "ofdma_subclass srt (NrMacSchedulerOfdmaMR dlAmc ulAmc srt)"
  "ofdma_subclass srt (NrMacSchedulerOfdmaPF lm timeWindow dlAmc ulAmc srt)"
  unfolding ofdma_subclass_def by blast+

lemma ofdma_subclass_cases:
  assumes "ofdma_subclass srt pol"
  obtains (round_robin) dlAmc ulAmc where "pol = NrMacSchedulerOfdmaRR dlAmc ulAmc srt"
    | (max_rate) dlAmc ulAmc where "pol = NrMacSchedulerOfdmaMR dlAmc ulAmc srt"
    | (proportional) lm timeWindow dlAmc ulAmc where "pol = NrMacSchedulerOfdmaPF lm timeWindow dlAmc ulAmc srt"
  using assms unfolding ofdma_subclass_def by blast

lemmas subclass_defs = NrMacSchedulerOfdmaRR_def NrMacSchedulerOfdmaMR_def NrMacSchedulerOfdmaPF_def

end
