(* ===== verification/OfdmaAlloc.thy ===== *)
theory OfdmaAlloc
  imports OfdmaSym OfdmaPf
begin

text \<open>
  What the allocation loops of \<open>NrMacSchedulerOfdma\<close> promise: they end, they never hand out more RBGs than there are
  except in the aggressive mode, and what the buffer-based restriction leaves a UE.
\<close>

subsection \<open>The buffer-based restriction never fails\<close>

lemma fp_of_u32: "fp_of_int (uint w) = Num (of_nat (unat (w :: u32)))"
proof -
  have "unat w < 2 ^ 53" using u_lt[of w] by simp
  then have "\<bar>int (unat w)\<bar> < 2 ^ 53" by (simp only: abs_of_nat of_nat_less_numeral_power_cancel_iff)
  then show ?thesis using fp_of_int_exact[of "int (unat w)"] by simp
qed

lemma fl_fraction:
  assumes "0 < p" "p \<le> 1" "1 / 2 ^ 10 \<le> p"
  shows "\<exists>z. fp_mul (fl p) (fp_of_int (uint (b :: u32))) = Num z \<and> (z = 0 \<or> 1 / 2 ^ 12 \<le> z) \<and>
    z \<le> p * of_nat (unat b) + of_nat (unat b) / 2 ^ 51"
proof -
  define n where "n = (of_nat (unat b) :: rat)"
  have n: "0 \<le> n" "n \<le> 2 ^ 32"
  proof -
    have "n \<le> of_nat (2 ^ 32)" unfolding n_def using u_lt[of b] by (intro of_nat_mono) simp
    then show "n \<le> 2 ^ 32" by simp
    show "0 \<le> n" unfolding n_def by (rule of_nat_0_le_iff)
  qed
  have fb: "fp_of_int (uint b) = Num n" by (simp only: fp_of_u32 n_def)
  obtain y where y: "fl p = Num y" "y \<le> p + p / 2 ^ 53" "p - p / 2 ^ 53 \<le> y"
  proof -
    have "1 / 2 ^ 100 \<le> p" "p \<le> 2 ^ 100" using assms by simp_all
    then show ?thesis using fl_near that by blast
  qed
  show ?thesis
  proof (cases "unat b = 0")
    case True
    then show ?thesis using y(1) fb by (simp add: n_def)
  next
    case False
    then have "1 \<le> unat b" by simp
    then have "of_nat 1 \<le> (of_nat (unat b) :: rat)" by (rule of_nat_mono)
    then have n1: "1 \<le> n" by (simp only: n_def of_nat_1)
    have yn: "1 / 2 ^ 11 \<le> y" using y(3) assms(3) by simp
    have py: "y * n \<le> p * n + n / 2 ^ 53"
    proof -
      have "y * n \<le> (p + 1 / 2 ^ 53) * n"
        using y(2) assms(2) n(1) by (intro mult_right_mono) simp_all
      then show ?thesis by (simp add: distrib_right)
    qed
    have lo: "1 / 2 ^ 11 \<le> y * n" using mult_mono[OF yn n1] yn by simp
    have "p * n \<le> 1 * n" using assms(2) n(1) by (intro mult_right_mono)
    then have up: "y * n \<le> 2 * n" using py n(1) by simp
    define w where "w = y * n"
    obtain z where z: "fl w = Num z" "z \<le> w + w / 2 ^ 53" "w - w / 2 ^ 53 \<le> z"
      by (rule fl_near[of w]) (use lo up n(2) in \<open>simp_all add: w_def\<close>)
    have "1 / 2 ^ 12 \<le> z" using z(3) lo[folded w_def] by simp
    moreover have "z \<le> p * n + n / 2 ^ 51" using z(2) py[folded w_def] up[folded w_def] n(1) by simp
    ultimately show ?thesis using y(1) z(1) fb by (simp add: n_def w_def)
  qed
qed

lemma next_max_buffer_ok: "\<exists>m. next_max_buffer e b maxBuffer = Inr m"
proof -
  have "\<exists>m. fp_to_u32 (fp_add (fp_mul (fl (1 / 5)) (fp_of_int (uint b))) (fp_mul (fl (4 / 5)) (fp_of_int (uint c)))) = Inr m"
    for c :: u32
  proof -
    obtain x where x: "fp_mul (fl (1 / 5)) (fp_of_int (uint b)) = Num x" "x = 0 \<or> 1 / 2 ^ 12 \<le> x"
        "x \<le> 1 / 5 * of_nat (unat b) + of_nat (unat b) / 2 ^ 51"
      using fl_fraction[of "1 / 5" b] by auto
    obtain y where y: "fp_mul (fl (4 / 5)) (fp_of_int (uint c)) = Num y" "y = 0 \<or> 1 / 2 ^ 12 \<le> y"
        "y \<le> 4 / 5 * of_nat (unat c) + of_nat (unat c) / 2 ^ 51"
      using fl_fraction[of "4 / 5" c] by auto
    have "of_nat (unat d) \<le> (2 ^ 32 - 1 :: rat)" for d :: u32
    proof -
      have "unat d \<le> 2 ^ 32 - 1" using u_lt[of d] by simp
      then have "of_nat (unat d) \<le> (of_nat (2 ^ 32 - 1) :: rat)" by (rule of_nat_mono)
      then show ?thesis by simp
    qed
    from this[of b] this[of c] have s: "x + y \<le> 2 ^ 32 - 1 / 2" using x(3) y(3) by simp
    have "\<exists>z. fl (x + y) = Num z \<and> 0 \<le> z \<and> z < 2 ^ 32"
    proof (cases "x = 0 \<and> y = 0")
      case False
      then have l: "1 / 2 ^ 12 \<le> x + y" using x(2) y(2) by auto
      define S where "S = x + y"
      have S: "1 / 2 ^ 100 \<le> S" "S \<le> 2 ^ 100" using l s by (simp_all add: S_def)
      obtain z where z: "fl S = Num z" "z \<le> S + S / 2 ^ 53" "S - S / 2 ^ 53 \<le> z"
        using fl_near[OF S] by blast
      have "0 \<le> z" using z(3) l by (simp add: S_def[symmetric])
      moreover have "z < 2 ^ 32" using z(2) s by (simp add: S_def[symmetric])
      ultimately show ?thesis using z(1) by (simp add: S_def)
    qed simp
    then show ?thesis using x(1) y(1) by (auto simp: rat_trunc_def Let_def defined_if_def floor_less_iff)
  qed
  then show ?thesis by (simp add: next_max_buffer_def Let_def)
qed

lemma bbr_step_ok: "\<exists>bbr'. bbr_step e b bbr = Inr bbr'"
  using next_max_buffer_ok[of e b "fst bbr"] by (cases bbr) (auto simp: bbr_step_def)

lemma has_enough_ok: "k \<noteq> 0 \<Longrightarrow> \<exists>b. has_enough k mx pen rq ue = Inr b"
  by (auto simp: has_enough_def Let_def)

lemma ul_pass_ok:
  assumes "k \<noteq> 0"
  shows "\<exists>p q m. ul_pass e i k mx bbr vec = Inr (p, q, m) \<and> vec = p @ q"
proof (induction vec arbitrary: bbr)
  case Nil
  then show ?case by simp
next
  case (Cons x vec)
  obtain bbr' where b: "bbr_step e (request_of e i x) bbr = Inr bbr'" using bbr_step_ok by blast
  obtain en where en: "has_enough k mx (snd bbr') (request_of e i x) (fst (fst x)) = Inr en"
    using has_enough_ok[OF assms] by blast
  obtain p q m where "ul_pass e i k mx bbr' vec = Inr (p, q, m)" "vec = p @ q" using Cons.IH by blast
  then show ?case using b en by (cases en) auto
qed

text \<open>
  Once the time window is over the restriction forgets the past: the penalty of a UE follows from its own request, and the
  UE that is served was below its share.
\<close>

definition window_over :: "ofdma_env \<Rightarrow> bool" where
  "window_over e \<longleftrightarrow> o_enableBbr e \<and> o_now e - o_bufferResetTime e > uint (o_timeWindow e)"

lemma ul_pass_served:
  assumes "window_over e" and "ul_pass e i k mx bbr vec = Inr (p, y # q, m)"
  shows "has_enough k mx (buffer_penalty (request_of e i y)) (request_of e i y) (fst (fst y)) = Inr False"
  using assms(2)
proof (induction vec arbitrary: bbr p)
  case Nil
  then show ?case by simp
next
  case (Cons x vec)
  have b: "bbr_step e (request_of e i x) bbr = Inr (request_of e i x, buffer_penalty (request_of e i x))"
    using assms(1) by (cases bbr) (simp add: bbr_step_def window_over_def next_max_buffer_def)
  show ?case
  proof (cases "has_enough k mx (buffer_penalty (request_of e i x)) (request_of e i x) (fst (fst x))")
    case (Inl er)
    then show ?thesis using Cons.prems b by simp
  next
    case (Inr en)
    then show ?thesis using Cons.prems b Cons.IH by (cases en) (auto simp: res_simps)
  qed
qed

text \<open>The penalty of a request of at most 60000 bytes is 0.4, up to rounding.\<close>

lemma small_penalty:
  assumes "rq \<le> (60000 :: u32)"
  shows "\<exists>y. buffer_penalty rq = Num y \<and> 1 / 4 \<le> y \<and> y \<le> 2 / 5 + 1 / 2 ^ 50"
proof -
  have q: "unat rq \<le> 60000" using assms by (simp add: word_le_nat_alt)
  define R where "R = (of_nat (unat rq) :: rat)"
  have f: "fp_of_int (uint rq) = Num R" by (simp only: fp_of_u32 R_def)
  have "fl (of_int (int (unat rq) - 60000)) = Num (of_int (int (unat rq) - 60000))"
  proof (rule fl_int)
    have "\<bar>int (unat rq) - 60000\<bar> \<le> 60000" using q by linarith
    also have "(60000 :: int) < 2 ^ 53" by simp
    finally show "\<bar>int (unat rq) - 60000\<bar> < 2 ^ 53" .
  qed
  then have d: "fl (R - 60000) = Num (R - 60000)"
    by (simp only: R_def of_int_diff of_int_of_nat_eq of_int_numeral)
  have "R \<le> of_nat 60000" unfolding R_def using q by (rule of_nat_mono)
  then have le: "R < 60000 \<or> R = 60000" by auto
  have s1: "1 / 2 ^ 100 \<le> (2 / 5 :: rat)" "(2 / 5 :: rat) \<le> 2 ^ 100" by simp_all
  obtain x where x: "fl (2 / 5) = Num x" "x \<le> 2 / 5 + 2 / 5 / 2 ^ 53" "2 / 5 - 2 / 5 / 2 ^ 53 \<le> x"
    using fl_near[OF s1] by blast
  have s2: "1 / 2 ^ 100 \<le> x" "x \<le> 2 ^ 100" using x(2,3) by simp_all
  obtain y where y: "fl x = Num y" "y \<le> x + x / 2 ^ 53" "x - x / 2 ^ 53 \<le> y"
    using fl_near[OF s2] by blast
  have "buffer_penalty rq = Num y" using f d le x(1) y(1) by (auto simp: buffer_penalty_def fp_sub_def)
  moreover have "1 / 4 \<le> y" using y(3) x(3) by simp
  moreover have "y \<le> 2 / 5 + 1 / 2 ^ 50" using y(2) x(2) by simp
  ultimately show ?thesis by blast
qed

definition request_key :: "ofdma_env \<Rightarrow> nat \<Rightarrow> u16 \<Rightarrow> u32 \<Rightarrow> u32" where
  "request_key e i rnti buf = (if o_scheduleMode e = 3 \<and> i = 0 then bsr_of (o_confident e) rnti else buf)"

lemma request_key_of: "request_key e i (ue_rnti (fst (fst y))) (snd y) = request_of e i y"
  by (simp add: request_key_def request_of_def split: prod.splits)

lemma request_key_le: "request_key e i rnti buf \<le> max (request_key e 0 rnti buf) (request_key e 1 rnti buf)"
  by (cases "i = 0") (simp_all add: request_key_def)

definition cap_ok :: "u32 \<Rightarrow> u32 \<Rightarrow> u32 \<Rightarrow> u32 \<Rightarrow> bool" where
  "cap_ok mx k rq r \<longleftrightarrow> (rq \<le> 60000 \<longrightarrow> 5 * (unat r div unat k - 1) \<le> 2 * unat mx)"

lemma served_cap:
  assumes "k \<noteq> 0" and "has_enough k mx (buffer_penalty rq) rq ue = Inr False" and "rq \<le> 60000"
  shows "5 * (unat (ue_ulRBG ue) div unat k) \<le> 2 * unat mx"
proof -
  let ?n = "unat (ue_ulRBG ue) div unat k" and ?m = "of_nat (unat mx) :: rat"
  obtain y where y: "buffer_penalty rq = Num y" "1 / 4 \<le> y" "y \<le> 2 / 5 + 1 / 2 ^ 50"
    using small_penalty[OF assms(3)] by blast
  have share: "\<not> fp_le (fl (?m * y)) (Num (of_nat ?n))"
    using assms(1,2) y(1)
    by (auto simp: has_enough_def Let_def fp_of_u32 unat_div simp del: of_nat_unat split: if_splits)
  show ?thesis
  proof (cases "unat mx = 0")
    case True
    then show ?thesis using share by simp
  next
    case False
    then have "1 \<le> unat mx" "unat mx \<le> 2 ^ 32" using u_lt[of mx] by simp_all
    then have "of_nat 1 \<le> ?m" "?m \<le> of_nat (2 ^ 32)" by (metis of_nat_mono)+
    then have m: "1 \<le> ?m" "?m \<le> 2 ^ 32" by simp_all
    define w where "w = ?m * y"
    have "w \<le> ?m * (2 / 5 + 1 / 2 ^ 50)" unfolding w_def using y(3) m(1) by (intro mult_left_mono) linarith+
    then have hi: "w \<le> 2 / 5 * ?m + ?m / 2 ^ 50" by (simp add: distrib_left)
    have lo: "1 / 4 \<le> w" 
    proof -
      have "1 * (1 / 4) \<le> ?m * y" by (rule mult_mono[OF m(1) y(2)]) (use m(1) in linarith, simp)
      then show ?thesis by (simp add: w_def)
    qed
    have s3: "1 / 2 ^ 100 \<le> w" "w \<le> 2 ^ 100" using lo hi m(2) by simp_all
    obtain z where z: "fl w = Num z" "z \<le> w + w / 2 ^ 53" using fl_near[OF s3] by blast
    have "of_nat ?n < z" using share z(1) by (simp add: w_def)
    then have "5 * of_nat ?n < 2 * ?m + 1" using z(2) hi m(2) by simp
    then have "of_nat (5 * ?n) < (of_nat (2 * unat mx + 1) :: rat)" by simp
    then have "5 * ?n < 2 * unat mx + 1" by (simp only: of_nat_less_iff)
    then show ?thesis by simp
  qed
qed

text \<open>What of an entry the accounting is about.\<close>

definition entry_key :: "'p entry \<Rightarrow> u16 \<times> u32 \<times> u32" where
  "entry_key x = (ue_rnti (fst (fst x)), ue_ulRBG (fst (fst x)), snd x)"

definition largest_request :: "ofdma_env \<Rightarrow> u16 \<Rightarrow> u32 \<Rightarrow> u32" where
  "largest_request e rnti buf = max (request_key e 0 rnti buf) (request_key e 1 rnti buf)"

definition capped :: "ofdma_env \<Rightarrow> u32 \<Rightarrow> u32 \<Rightarrow> 'p entry list \<Rightarrow> bool" where
  "capped e mx k vec \<longleftrightarrow> (window_over e \<longrightarrow>
     (\<forall>(rnti, r, b) \<in> set (map entry_key vec). cap_ok mx k (largest_request e rnti b) r))"

subsection \<open>What an uplink policy promises\<close>

definition keeps_rbgs :: "('p ue \<Rightarrow> 'p ue res) \<Rightarrow> bool" where
  "keeps_rbgs f \<longleftrightarrow> (\<forall>u. \<exists>u'. f u = Inr u' \<and> ue_rnti (fst u') = ue_rnti (fst u) \<and> ue_ulRBG (fst u') = ue_ulRBG (fst u))"

lemma map_entries_keeps:
  assumes "keeps_rbgs f"
  shows "\<exists>vec'. map_entries f vec = Inr vec' \<and> map entry_key vec' = map entry_key vec"
proof (induction vec)
  case Nil
  then show ?case by simp
next
  case (Cons x vec)
  obtain u b where x: "x = (u, b)" by fastforce
  obtain u' where "f u = Inr u'" "ue_rnti (fst u') = ue_rnti (fst u)" "ue_ulRBG (fst u') = ue_ulRBG (fst u)"
    using assms unfolding keeps_rbgs_def by blast
  then show ?case using Cons.IH by (auto simp: x entry_key_def)
qed

definition rbgs_of :: "nat \<Rightarrow> u16 \<times> u32 \<times> u32 \<Rightarrow> nat" where
  "rbgs_of k = (\<lambda>(_, r, _). unat r div k)"

definition total_rbgs :: "nat \<Rightarrow> 'p entry list \<Rightarrow> nat" where
  "total_rbgs k vec = sum_list (map (rbgs_of k) (map entry_key vec))"

definition whole_rbgs :: "nat \<Rightarrow> 'p entry list \<Rightarrow> bool" where
  "whole_rbgs k vec \<longleftrightarrow> (\<forall>(_, r, _) \<in> set (map entry_key vec). k dvd unat r)"

definition rntis :: "'p entry list \<Rightarrow> u16 multiset" where
  "rntis vec = mset (map fst (map entry_key vec))"

lemma sum_list_perm:
  fixes f :: "'b \<Rightarrow> nat"
  assumes "mset xs = mset ys"
  shows "sum_list (map f xs) = sum_list (map f ys)"
  using arg_cong[OF assms, of "\<lambda>m. sum_mset (image_mset f m)"] by (simp only: sum_mset_sum_list flip: mset_map)

lemma accounting_cong:
  assumes "mset (map entry_key vec') = mset (map entry_key vec)"
  shows "total_rbgs k vec' = total_rbgs k vec" "whole_rbgs k vec' \<longleftrightarrow> whole_rbgs k vec" "rntis vec' = rntis vec"
    "capped e mx k' vec' \<longleftrightarrow> capped e mx k' vec"
proof -
  show "total_rbgs k vec' = total_rbgs k vec"
    unfolding total_rbgs_def using assms by (rule sum_list_perm)
  show "whole_rbgs k vec' \<longleftrightarrow> whole_rbgs k vec"
    unfolding whole_rbgs_def using mset_eq_setD[OF assms] by simp
  show "rntis vec' = rntis vec" unfolding rntis_def using assms by (metis mset_map)
  show "capped e mx k' vec' \<longleftrightarrow> capped e mx k' vec" unfolding capped_def using mset_eq_setD[OF assms] by simp
qed

text \<open>What the allocation of a beam leaves.\<close>

definition beam_fits :: "ofdma_env \<Rightarrow> BeamSymbolMap \<Rightarrow> BeamConfId \<times> 'p entry list \<Rightarrow> BeamConfId \<times> 'p entry list \<Rightarrow> bool" where
  "beam_fits e m = (\<lambda>(b, ues) (b', vec). b' = b \<and> rntis vec = rntis ues \<and> (\<exists>n. map_of m b = Some n \<and>
     whole_rbgs (unat n) vec \<and> total_rbgs (unat n) vec \<le> unat (usable_rbgs (o_bw e) (o_ulNotched e))))"

text \<open>The interface of a scheduler subclass to the uplink allocation.\<close>

locale ul_policy =
  fixes pol :: "'p policy"
  assumes sort_perm: "mset (pol_sort pol lt vec) = mset vec"
    and before_keeps: "keeps_rbgs (pol_BeforeUl pol a)"
    and assigned_keeps: "keeps_rbgs (pol_AssignedUl pol a)"
    and not_assigned_keeps: "keeps_rbgs (pol_NotAssignedUl pol a)"
begin

lemma others_keep: "\<exists>vec'. not_assigned (pol_NotAssignedUl pol) a rnti vec = Inr vec' \<and> map entry_key vec' = map entry_key vec"
  unfolding not_assigned_def
  by (rule map_entries_keeps) (use not_assigned_keeps[of a] in \<open>auto simp: keeps_rbgs_def\<close>)

text \<open>
  One round leaves the vector up to order, or gives one RBG over all symbols of the beam to one UE, which is below its share
  when the restriction looks at its own request.
\<close>

lemma ul_round_shape:
  assumes k: "beamSym \<noteq> 0"
  obtains (idle) s' where "ul_round pol e i beamSym mx s = Inr (s', False)"
      "mset (map entry_key (us_vec s')) = mset (map entry_key (us_vec s))"
    | (gave) s' A and y :: "'p entry" and B where "ul_round pol e i beamSym mx s = Inr (s', True)"
      "mset (map entry_key (us_vec s)) = mset (A @ entry_key y # B)"
      "map entry_key (us_vec s') = A @ (ue_rnti (fst (fst y)), ue_ulRBG (fst (fst y)) + beamSym, snd y) # B"
      "window_over e \<longrightarrow>
         has_enough beamSym mx (buffer_penalty (request_of e i y)) (request_of e i y) (fst (fst y)) = Inr False"
proof -
  let ?lt = "\<lambda>a b. pol_CompareUl pol (fst a) (fst b)"
  obtain p q m where pq: "ul_pass e i beamSym mx (us_maxBuffer s, Num 1) (pol_sort pol ?lt (us_vec s)) = Inr (p, q, m)"
      "pol_sort pol ?lt (us_vec s) = p @ q"
    using ul_pass_ok[OF k] by blast
  have perm: "mset (map entry_key (us_vec s)) = mset (map entry_key (p @ q))"
    using sort_perm[of ?lt "us_vec s"] unfolding pq(2) by (metis mset_map)
  show thesis
  proof (cases q)
    case Nil
    then show thesis using idle[of "s\<lparr>us_vec := p, us_maxBuffer := m\<rparr>"] pq perm by (simp add: ul_round_def Let_def)
  next
    case (Cons y r)
    obtain ue x b where y: "y = ((ue, x), b)" by (metis prod.exhaust)
    let ?ue = "ue\<lparr>ue_ulRBG := ue_ulRBG ue + beamSym, ue_ulSym := ucast beamSym\<rparr>"
    let ?a = "\<lparr>pt_rbg = pt_rbg (us_assigned s) + beamSym, pt_sym = ucast beamSym\<rparr>"
    obtain u where u: "pol_AssignedUl pol ?a (?ue, x) = Inr u" "ue_rnti (fst u) = ue_rnti ue"
        "ue_ulRBG (fst u) = ue_ulRBG ue + beamSym"
      using assigned_keeps[of ?a, unfolded keeps_rbgs_def, rule_format, of "(?ue, x)"] by auto
    obtain vec' where v: "not_assigned (pol_NotAssignedUl pol) ?a (ue_rnti ?ue) (p @ (u, b) # r) = Inr vec'"
        "map entry_key vec' = map entry_key (p @ (u, b) # r)"
      using others_keep by blast
    show thesis
    proof (rule gave[of "\<lparr>us_vec = vec', us_assigned = ?a, us_maxBuffer = m\<rparr>" "map entry_key p" y "map entry_key r"])
      show "ul_round pol e i beamSym mx s = Inr (\<lparr>us_vec = vec', us_assigned = ?a, us_maxBuffer = m\<rparr>, True)"
        using pq(1) u(1) v(1) Cons y by (simp add: ul_round_def Let_def)
      show "window_over e \<longrightarrow>
          has_enough beamSym mx (buffer_penalty (request_of e i y)) (request_of e i y) (fst (fst y)) = Inr False"
        using ul_pass_served pq(1) Cons by blast
    qed (use perm v(2) u Cons y in \<open>simp_all add: entry_key_def\<close>)
  qed
qed

lemma ul_round_ok:
  assumes k: "beamSym \<noteq> 0" and whole: "whole_rbgs (unat beamSym) (us_vec s)"
    and fits: "(total_rbgs (unat beamSym) (us_vec s) + 1) * unat beamSym < 2 ^ 32"
  shows "\<exists>s' again. ul_round pol e i beamSym mx s = Inr (s', again) \<and> whole_rbgs (unat beamSym) (us_vec s') \<and>
    rntis (us_vec s') = rntis (us_vec s) \<and>
    total_rbgs (unat beamSym) (us_vec s') = total_rbgs (unat beamSym) (us_vec s) + (if again then 1 else 0) \<and>
    (capped e mx beamSym (us_vec s) \<longrightarrow> capped e mx beamSym (us_vec s'))"
proof (cases rule: ul_round_shape[OF k, of e i mx s, case_names idle gave])
  case (idle s')
  note acc = accounting_cong[OF idle(2)]
  show ?thesis using idle(1) acc(1,2)[of "unat beamSym"] acc(3) acc(4)[of e mx beamSym] whole
    by (intro exI[of _ s'] exI[of _ False]) simp
next
  case (gave s' A y B)
  let ?k = "unat beamSym" and ?r = "ue_ulRBG (fst (fst y))"
  have set: "set (map entry_key (us_vec s)) = set (A @ entry_key y # B)" by (rule mset_eq_setD[OF gave(2)])
  have w: "?k dvd unat ?r"
    using whole unfolding whole_rbgs_def set by (auto simp: entry_key_def)
  have tot: "total_rbgs ?k (us_vec s) = sum_list (map (rbgs_of ?k) (A @ entry_key y # B))"
    unfolding total_rbgs_def using gave(2) by (rule sum_list_perm)
  have "unat ?r div ?k \<le> total_rbgs ?k (us_vec s)" unfolding tot by (simp add: rbgs_of_def entry_key_def)
  then have "(unat ?r div ?k + 1) * ?k \<le> (total_rbgs ?k (us_vec s) + 1) * ?k" by (intro mult_right_mono) simp_all
  moreover have "unat ?r + ?k = (unat ?r div ?k + 1) * ?k" using w by simp
  ultimately have "unat ?r + ?k < 2 ^ 32" using fits by linarith
  then have a: "unat (?r + beamSym) = unat ?r + ?k" by (simp add: unat_word_ariths)
  have k0: "0 < ?k" using k by (simp add: unat_gt_0)
  have "total_rbgs ?k (us_vec s') = total_rbgs ?k (us_vec s) + 1"
    unfolding tot unfolding total_rbgs_def gave(3) using a k0 by (simp add: rbgs_of_def entry_key_def)
  moreover have "rntis (us_vec s') = rntis (us_vec s)"
  proof -
    have "mset (map fst (map entry_key (us_vec s))) = mset (map fst (A @ entry_key y # B))"
      using gave(2) by (metis mset_map)
    then show ?thesis unfolding rntis_def gave(3) by (simp add: entry_key_def)
  qed
  moreover have "whole_rbgs ?k (us_vec s')"
    using whole w a unfolding whole_rbgs_def set gave(3) by (auto simp: entry_key_def)
  moreover have "capped e mx beamSym (us_vec s) \<longrightarrow> capped e mx beamSym (us_vec s')"
  proof
    assume c: "capped e mx beamSym (us_vec s)"
    have "request_of e i y \<le> largest_request e (ue_rnti (fst (fst y))) (snd y)"
      unfolding request_key_of[symmetric] unfolding largest_request_def by (rule request_key_le)
    then have "cap_ok mx beamSym (largest_request e (ue_rnti (fst (fst y))) (snd y)) (?r + beamSym)" if "window_over e"
      using served_cap[OF k gave(4)[rule_format, OF that]] a k0 unfolding cap_ok_def by fastforce
    then show "capped e mx beamSym (us_vec s')"
      using c unfolding capped_def set gave(3) by (auto simp: entry_key_def)
  qed
  ultimately show ?thesis using gave(1) by (intro exI[of _ s'] exI[of _ True]) simp
qed

text \<open>The loop ends, and every RBG it takes from the resources goes to a UE.\<close>

lemma ul_rounds_ok:
  assumes "beamSym \<noteq> 0" and "whole_rbgs (unat beamSym) (us_vec s)"
    and "(total_rbgs (unat beamSym) (us_vec s) + unat resources) * unat beamSym < 2 ^ 32"
  shows "\<exists>resources' s'. ul_rounds pol e i beamSym mx resources s = Some (Inr (resources', s')) \<and>
    whole_rbgs (unat beamSym) (us_vec s') \<and> rntis (us_vec s') = rntis (us_vec s) \<and>
    total_rbgs (unat beamSym) (us_vec s') + unat resources' = total_rbgs (unat beamSym) (us_vec s) + unat resources \<and>
    (capped e mx beamSym (us_vec s) \<longrightarrow> capped e mx beamSym (us_vec s'))"
  using assms(2,3)
proof (induction "unat resources" arbitrary: resources s)
  case 0
  then show ?case by (simp add: ul_rounds.simps unat_eq_0 word_gt_0)
next
  case (Suc n)
  let ?k = "unat beamSym"
  have nz: "resources \<noteq> 0" using Suc.hyps(2) by auto
  then have pos: "resources > 0" by (simp add: word_gt_0)
  have dec: "unat (resources - 1) = n" using Suc.hyps(2) unat_minus_one[OF nz] by simp
  have "(total_rbgs ?k (us_vec s) + 1) * ?k \<le> (total_rbgs ?k (us_vec s) + unat resources) * ?k"
    using Suc.hyps(2) by (intro mult_right_mono) simp_all
  then have fits: "(total_rbgs ?k (us_vec s) + 1) * ?k < 2 ^ 32" using Suc.prems(2) by linarith
  obtain s' again where r: "ul_round pol e i beamSym mx s = Inr (s', again)" "whole_rbgs ?k (us_vec s')"
      "rntis (us_vec s') = rntis (us_vec s)"
      "total_rbgs ?k (us_vec s') = total_rbgs ?k (us_vec s) + (if again then 1 else 0)"
      "capped e mx beamSym (us_vec s) \<longrightarrow> capped e mx beamSym (us_vec s')"
    using ul_round_ok[OF assms(1) Suc.prems(1) fits] by blast
  show ?case
  proof (cases again)
    case False
    then show ?thesis using pos r by (subst ul_rounds.simps) simp
  next
    case True
    have eq: "total_rbgs ?k (us_vec s') + unat (resources - 1) = total_rbgs ?k (us_vec s) + unat resources"
      using True r(4) dec Suc.hyps(2) by simp
    have "(total_rbgs ?k (us_vec s') + unat (resources - 1)) * ?k < 2 ^ 32" unfolding eq by (rule Suc.prems(2))
    from Suc.hyps(1)[OF dec[symmetric] r(2) this] show ?thesis
      using pos r(1,3,5) True eq by (subst ul_rounds.simps) auto
  qed
qed

text \<open>One beam, outside the aggressive mode.\<close>

lemma ul_stage_ok:
  assumes "beamSym \<noteq> 0" and "o_scheduleMode e \<noteq> 1" and "whole_rbgs (unat beamSym) vec"
    and "(total_rbgs (unat beamSym) vec + unat resources) * unat beamSym < 2 ^ 32"
  shows "\<exists>resources' vec' m. ul_stage pol e i beamSym mx (resources, vec, maxBuffer) = Some (Inr (resources', vec', m)) \<and>
    whole_rbgs (unat beamSym) vec' \<and> rntis vec' = rntis vec \<and>
    total_rbgs (unat beamSym) vec' + unat resources' = total_rbgs (unat beamSym) vec + unat resources \<and>
    (capped e mx beamSym vec \<longrightarrow> capped e mx beamSym vec')"
proof (cases "resources = 0")
  case True
  then show ?thesis using assms(3) by (simp add: ul_stage_def)
next
  case False
  then show ?thesis
    using ul_rounds_ok[OF assms(1), of "\<lparr>us_vec = vec, us_assigned = \<lparr>pt_rbg = 0, pt_sym = 0\<rparr>, us_maxBuffer = maxBuffer\<rparr>"
        resources e i mx] assms(2-4) by (auto simp: ul_stage_def)
qed

lemma assign_ul_beam_ok:
  assumes sym: "map_of symPerBeam beam = Some beamSym" "beamSym \<noteq> 0" and mode: "o_scheduleMode e \<noteq> 1"
    and res: "0 < usable_rbgs (o_bw e) (o_ulNotched e)"
    and zero: "\<forall>x \<in> set ues. ue_ulRBG (fst (fst x)) = 0"
    and fits: "unat (usable_rbgs (o_bw e) (o_ulNotched e)) * unat beamSym < 2 ^ 32"
  shows "\<exists>vec m. assign_ul_beam pol e symPerBeam maxBuffer (beam, ues) = Some (Inr ((beam, vec), m)) \<and>
    whole_rbgs (unat beamSym) vec \<and> rntis vec = rntis ues \<and>
    total_rbgs (unat beamSym) vec \<le> unat (usable_rbgs (o_bw e) (o_ulNotched e)) \<and>
    capped e (usable_rbgs (o_bw e) (o_ulNotched e)) beamSym vec"
proof -
  let ?k = "unat beamSym" and ?R = "usable_rbgs (o_bw e) (o_ulNotched e)"
  obtain vec0 where v0: "map_entries (pol_BeforeUl pol (FTResources (beamSym * beamSym) beamSym)) ues = Inr vec0"
      "map entry_key vec0 = map entry_key ues"
    using map_entries_keeps[OF before_keeps] by blast
  have w0: "whole_rbgs ?k vec0" "total_rbgs ?k vec0 = 0" "rntis vec0 = rntis ues"
    using zero unfolding whole_rbgs_def total_rbgs_def rntis_def v0(2)
    by (auto simp: entry_key_def rbgs_of_def intro: sum_list_0[THEN trans, rotated])
  have c0: "capped e ?R beamSym vec0"
    using zero unfolding capped_def v0(2) by (auto simp: entry_key_def cap_ok_def)
  obtain r1 v1 m1 where s1: "ul_stage pol e 0 beamSym ?R (?R, vec0, maxBuffer) = Some (Inr (r1, v1, m1))"
      "whole_rbgs ?k v1" "rntis v1 = rntis vec0" "total_rbgs ?k v1 + unat r1 = unat ?R"
      "capped e ?R beamSym v1"
    using ul_stage_ok[OF sym(2) mode w0(1), of ?R 0 ?R maxBuffer] w0(2) fits c0 by auto
  obtain r2 v2 m2 where s2: "ul_stage pol e 1 beamSym ?R (r1, v1, m1) = Some (Inr (r2, v2, m2))"
      "whole_rbgs ?k v2" "rntis v2 = rntis v1" "total_rbgs ?k v2 + unat r2 = unat ?R" "capped e ?R beamSym v2"
    using ul_stage_ok[OF sym(2) mode s1(2), of r1 1 ?R m1] s1(4,5) fits by auto
  show ?thesis
  proof (cases "o_scheduleMode e = 3")
    case True
    then show ?thesis using sym res v0(1) s1(1,3) s2 w0(3) by (simp add: assign_ul_beam_def)
  next
    case False
    then show ?thesis using sym res v0(1) s1 w0(3) by (simp add: assign_ul_beam_def)
  qed
qed

lemma assign_ul_beams_ok:
  assumes "\<forall>(b, ues) \<in> set active. (\<exists>n. map_of m b = Some n \<and> 0 < n \<and>
      unat (usable_rbgs (o_bw e) (o_ulNotched e)) * unat n < 2 ^ 32) \<and> (\<forall>x \<in> set ues. ue_ulRBG (fst (fst x)) = 0)"
    and "o_scheduleMode e \<noteq> 1" and "0 < usable_rbgs (o_bw e) (o_ulNotched e)"
  shows "\<exists>active' mb. assign_ul_beams pol e m maxBuffer active = Some (Inr (active', mb)) \<and>
    list_all2 (beam_fits e m) active active'"
  using assms(1)
proof (induction active arbitrary: maxBuffer)
  case Nil
  then show ?case by simp
next
  case (Cons el active)
  obtain b ues where el: "el = (b, ues)" by fastforce
  obtain n where n: "map_of m b = Some n" "0 < n" "unat (usable_rbgs (o_bw e) (o_ulNotched e)) * unat n < 2 ^ 32"
      "\<forall>x \<in> set ues. ue_ulRBG (fst (fst x)) = 0"
    using Cons.prems by (auto simp: el)
  have n0: "n \<noteq> 0" using n(2) by auto
  obtain vec mb where v: "assign_ul_beam pol e m maxBuffer el = Some (Inr ((b, vec), mb))" "beam_fits e m el (b, vec)"
    using assign_ul_beam_ok[OF n(1) n0 assms(2,3) n(4,3), of maxBuffer] n(1) by (auto simp: el beam_fits_def)
  obtain active' mb' where "assign_ul_beams pol e m mb active = Some (Inr (active', mb'))"
      "list_all2 (beam_fits e m) active active'"
    using Cons.IH[of mb] Cons.prems by (simp only: list.set ball_simps) blast
  then show ?case using v by simp
qed

end

subsection \<open>The subclasses\<close>

text \<open>A \<open>std::sort\<close>: insertion from the right.\<close>

fun insert_by :: "('a \<Rightarrow> 'a \<Rightarrow> bool) \<Rightarrow> 'a \<Rightarrow> 'a list \<Rightarrow> 'a list" where
  "insert_by lt x [] = [x]"
| "insert_by lt x (y # r) = (if lt y x then y # insert_by lt x r else x # y # r)"

definition sort_by :: "('a \<Rightarrow> 'a \<Rightarrow> bool) \<Rightarrow> 'a list \<Rightarrow> 'a list" where
  "sort_by lt xs = foldr (insert_by lt) xs []"

lemma mset_insert_by [simp]: "mset (insert_by lt x r) = add_mset x (mset r)"
  by (induction lt x r rule: insert_by.induct) auto

lemma mset_sort_by [simp]: "mset (sort_by lt xs) = mset xs"
  by (induction xs) (simp_all add: sort_by_def)

lemma UpdateUlMetric_keeps: "keeps_rbgs (\<lambda>(ue, x). Inr (UpdateUlMetric amc ue, x))"
  by (auto simp: keeps_rbgs_def UpdateUlMetric_def)

lemma UpdateUlPFMetric_keeps: "keeps_rbgs (\<lambda>u. Inr (UpdateUlPFMetric a w amc u))"
  by (auto simp: keeps_rbgs_def UpdateUlPFMetric_def UpdateUlMetric_def Let_def)

lemma CalculatePotentialTPutUl_keeps: "keeps_rbgs (\<lambda>u. Inr (CalculatePotentialTPutUl a amc u))"
  by (auto simp: keeps_rbgs_def CalculatePotentialTPutUl_def)

lemma Inr_keeps: "keeps_rbgs Inr"
  by (simp add: keeps_rbgs_def)

lemmas subclass_keeps = UpdateUlMetric_keeps UpdateUlPFMetric_keeps CalculatePotentialTPutUl_keeps Inr_keeps

lemma subclass_policy:
  assumes "\<And>lt vec. mset (srt lt vec) = mset vec" and "ofdma_subclass srt pol"
  shows "ul_policy pol"
  using assms(2)
  by (cases rule: ofdma_subclass_cases) (unfold_locales; simp add: subclass_defs subclass_keeps assms(1))+

interpretation rr_up: ul_policy "NrMacSchedulerOfdmaRR dlAmc ulAmc sort_by" for dlAmc ulAmc
  by unfold_locales (simp_all add: subclass_defs subclass_keeps)

interpretation mr_up: ul_policy "NrMacSchedulerOfdmaMR dlAmc ulAmc sort_by" for dlAmc ulAmc
  by unfold_locales (simp_all add: subclass_defs subclass_keeps)

interpretation pf_up: ul_policy "NrMacSchedulerOfdmaPF lm timeWindow dlAmc ulAmc sort_by" for lm timeWindow dlAmc ulAmc
  by unfold_locales (simp_all add: subclass_defs subclass_keeps)

text \<open>
  C17. The uplink allocation ends and never hands out more than there is. With the round-robin, maximum-rate or proportional fair subclass,
  any sorting procedure, every scheduling mode but the aggressive one and a symbol for every beam, the nested loops of
  \<open>AssignULRBG\<close> terminate without a failure, whatever the transport block sizes, demands and restriction state; every beam
  keeps its UEs, every UE has whole RBGs, and the RBGs of a beam add up to at most those that may be used.
\<close>
theorem uplink_allocation_ends:
  assumes "\<And>lt vec. mset (srt lt vec) = mset vec"
    and "ofdma_subclass srt pol"
    and "GetSymPerBeam symAvail active = Inr m"
    and "\<forall>(b, ues) \<in> set active. (\<exists>n. map_of m b = Some n \<and> 0 < n \<and> n < 2 ^ 8) \<and> (\<forall>x \<in> set ues. ue_ulRBG (fst (fst x)) = 0)"
    and "o_scheduleMode e \<noteq> 1"
    and "0 < usable_rbgs (o_bw e) (o_ulNotched e)" and "usable_rbgs (o_bw e) (o_ulNotched e) < 2 ^ 16"
  shows "\<exists>active' mb. AssignULRBG pol e maxBuffer symAvail active = Some (Inr (m, active', mb)) \<and>
    list_all2 (beam_fits e m) active active'"
proof -
  let ?R = "usable_rbgs (o_bw e) (o_ulNotched e)"
  have "unat ?R * unat n < 2 ^ 32" if "n < 2 ^ 8" for n :: u32
  proof -
    have "unat ?R < 2 ^ 16" "unat n < 2 ^ 8" using assms(7) that by (simp_all add: word_less_nat_alt)
    then have "unat ?R * unat n \<le> 2 ^ 16 * 2 ^ 8" by (intro mult_le_mono) simp_all
    then show ?thesis by simp
  qed
  then have "\<forall>(b, ues) \<in> set active. (\<exists>n. map_of m b = Some n \<and> 0 < n \<and> unat ?R * unat n < 2 ^ 32) \<and>
      (\<forall>x \<in> set ues. ue_ulRBG (fst (fst x)) = 0)" using assms(4) by blast
  from ul_policy.assign_ul_beams_ok[OF subclass_policy[OF assms(1,2)] this assms(5,6), of maxBuffer]
  obtain active' mb where "assign_ul_beams pol e m maxBuffer active = Some (Inr (active', mb))"
      "list_all2 (beam_fits e m) active active'" by blast
  then show ?thesis using assms(3) by (simp add: AssignULRBG_def)
qed

text \<open>
  C28. The buffer-based restriction caps small requests. With \<open>m_enableBbr\<close> on and more time passed since the last reset than the
  time window, in every mode but the aggressive one (mode 1), a UE whose request is at most 60000 bytes ends with at most two fifths of
  the usable RBGs of its beam plus one, however many are free; in the two stages of mode 3 both its requests, the confident one of the
  first stage and the buffer of the second, have to be that small. The allocation of the beam ends without a failure and
  keeps its UEs.
\<close>
theorem small_requests_capped:
  assumes "\<And>lt vec. mset (srt lt vec) = mset vec"
    and "ofdma_subclass srt pol"
    and "map_of m beam = Some n" and "0 < n" and "\<forall>x \<in> set ues. ue_ulRBG (fst (fst x)) = 0"
    and "o_scheduleMode e \<noteq> 1" and "window_over e"
    and "0 < usable_rbgs (o_bw e) (o_ulNotched e)" and "unat (usable_rbgs (o_bw e) (o_ulNotched e)) * unat n < 2 ^ 32"
  shows "\<exists>vec mb. assign_ul_beam pol e m maxBuffer (beam, ues) = Some (Inr ((beam, vec), mb)) \<and> rntis vec = rntis ues \<and>
    (\<forall>x \<in> set vec. request_of e 0 x \<le> 60000 \<and> request_of e 1 x \<le> 60000 \<longrightarrow>
       5 * (unat (ue_ulRBG (fst (fst x))) div unat n - 1) \<le> 2 * unat (usable_rbgs (o_bw e) (o_ulNotched e)))"
proof -
  have n0: "n \<noteq> 0" using assms(4) by auto
  obtain vec mb where v: "assign_ul_beam pol e m maxBuffer (beam, ues) = Some (Inr ((beam, vec), mb))" "rntis vec = rntis ues"
      "capped e (usable_rbgs (o_bw e) (o_ulNotched e)) n vec"
    using ul_policy.assign_ul_beam_ok[OF subclass_policy[OF assms(1,2)] assms(3) n0 assms(6,8,5,9), of maxBuffer] by blast
  then show ?thesis using assms(7)
    by (intro exI[of _ vec] exI[of _ mb]) (auto simp: capped_def entry_key_def largest_request_def request_key_of cap_ok_def)
qed

text \<open>
  C30. A beam that gets no symbol stops the program in the uplink: with a UE that still needs something, the test of its share
  divides by the RBGs per round, which are 0.
\<close>
theorem zero_symbol_beam:
  assumes "\<And>lt vec. mset (srt lt vec) = mset vec"
    and "ofdma_subclass srt pol"
    and "map_of m beam = Some 0" and "ues \<noteq> []" and "\<forall>x \<in> set ues. ue_ulTbSize (fst (fst x)) = 0"
    and "o_scheduleMode e \<noteq> 1" and "0 < usable_rbgs (o_bw e) (o_ulNotched e)"
  shows "assign_ul_beam pol e m maxBuffer (beam, ues) = Some (Inl Undefined)"
proof -
  have sort: "pol_sort pol = srt" using assms(2) by (cases rule: ofdma_subclass_cases) (simp_all add: subclass_defs)
  have "\<exists>g. pol_BeforeUl pol a = (\<lambda>u. Inr (g u)) \<and> (\<forall>u. fst (g u) = fst u)" for a
    using assms(2)
  proof (cases rule: ofdma_subclass_cases)
    case (proportional lm timeWindow dlAmc ulAmc)
    then show ?thesis
      by (intro exI[of _ "CalculatePotentialTPutUl a ulAmc"])
        (simp add: NrMacSchedulerOfdmaPF_def CalculatePotentialTPutUl_def split_beta)
  qed (simp_all add: subclass_defs fun_eq_iff, (intro exI[of _ "\<lambda>u. u"], simp)+)
  then obtain g where g: "\<And>a. pol_BeforeUl pol a = (\<lambda>u. Inr (g a u))" "\<And>a u. fst (g a u) = fst u" by metis
  have before: "map_entries (pol_BeforeUl pol a) vec = Inr (map (\<lambda>(u, b). (g a u, b)) vec)" for a vec
    by (induction vec) (auto simp: g(1))
  have undef: "ul_round pol e 0 0 mx \<lparr>us_vec = vec, us_assigned = a, us_maxBuffer = maxBuffer\<rparr> = Inl Undefined"
    if "vec \<noteq> []" "\<forall>x \<in> set vec. ue_ulTbSize (fst (fst x)) = 0" for vec mx a
  proof -
    let ?lt = "\<lambda>a b. pol_CompareUl pol (fst a) (fst b)"
    have set: "set (srt ?lt vec) = set vec" using mset_eq_setD[OF assms(1)] .
    then have "srt ?lt vec \<noteq> []" using that(1) by auto
    then obtain x r where x: "srt ?lt vec = x # r" by (cases "srt ?lt vec") blast
    have tbs: "ue_ulTbSize (fst (fst x)) = 0" using that(2) set unfolding x by auto
    obtain bbr where "bbr_step e (request_of e 0 x) (maxBuffer, Num 1) = Inr bbr" using bbr_step_ok by blast
    moreover have "\<not> max w 12 \<le> (0 :: u32)" for w by (auto simp: max_def word_le_nat_alt)
    ultimately show ?thesis using x tbs by (simp add: ul_round_def Let_def sort has_enough_def)
  qed
  have "\<forall>x \<in> set (map (\<lambda>(u, b). (g a u, b)) ues). ue_ulTbSize (fst (fst x)) = 0" for a
    using assms(5) by (auto simp: g(2))
  then show ?thesis using assms(3,4,6,7) undef
    by (simp add: assign_ul_beam_def before ul_stage_def ul_rounds.simps Let_def)
qed

definition demo_ofdma :: ofdma_env where
  "demo_ofdma = \<lparr>o_bw = 24, o_ulNotched = [], o_scheduleMode = 2, o_enableBbr = True, o_now = 500, o_bufferResetTime = 0,
     o_timeWindow = 20, o_proactive = [(7, 3000)], o_confident = []\<rparr>"

definition demo_single :: "pf ActiveUeMap" where
  "demo_single = [(demo_beam 1, [((demo_ue 7 9 0, NrMacSchedulerUeInfoPF (Num 1)), 100), ((demo_ue 8 9 0, NrMacSchedulerUeInfoPF (Num 1)), 28)])]"

lemma demo_single_syms: "GetSymPerBeam 12 demo_single = Inr [(demo_beam 1, 12)]"
proof -
  have "fl (3 / 32) = Num (3 / 32)" using fl_dyadic[of 3 5] by simp
  moreover have "fp_of_int 100 = Num 100" "fp_of_int 28 = Num 28" "fp_of_int 12 = Num 12" "fp_of_int 128 = Num 128"
    by (simp_all add: fp_of_int_exact)
  ultimately have "sym_of_beam 12 (buf_total demo_single) ([], 0) (demo_beam 1, [((demo_ue 7 9 0, NrMacSchedulerUeInfoPF (Num 1)), 100), ((demo_ue 8 9 0, NrMacSchedulerUeInfoPF (Num 1)), 28)]) =
      Inr ([(demo_beam 1, 12)], 12)"
    by (simp add: sym_of_beam_def buf_total_def demo_single_def GetUeBufSize_def buf_beam_def rat_trunc_def map_emplace_def)
  then show ?thesis by (simp add: GetSymPerBeam_def demo_single_def)
qed

theorem uplink_allocation_ends_witness:
  "\<exists>active' mb. AssignULRBG (NrMacSchedulerOfdmaPF demo_libm (Num 99) (\<lambda>_ _. 50) (\<lambda>_ n. 3 * n) sort_by) demo_ofdma 0 12 demo_single =
     Some (Inr ([(demo_beam 1, 12)], active', mb))"
proof -
  have "usable_rbgs (o_bw demo_ofdma) (o_ulNotched demo_ofdma) = 24" "o_scheduleMode demo_ofdma \<noteq> 1"
    by (simp_all add: demo_ofdma_def usable_rbgs_def)
  moreover have "\<forall>(b, ues) \<in> set demo_single. (\<exists>n. map_of [(demo_beam 1, 12 :: u32)] b = Some n \<and> 0 < n \<and> n < 2 ^ 8) \<and>
      (\<forall>x \<in> set ues. ue_ulRBG (fst (fst x)) = 0)"
    by (simp add: demo_single_def demo_ue_def NrMacSchedulerUeInfo_def)
  ultimately show ?thesis
    using uplink_allocation_ends[of sort_by _ 12 demo_single "[(demo_beam 1, 12)]" demo_ofdma 0]
      demo_single_syms mset_sort_by ofdma_subclassI(3)[of sort_by demo_libm "Num 99" "\<lambda>_ _. 50" "\<lambda>_ n. 3 * n"] by fastforce
qed

text \<open>Mode 3, with the UE's confident demand in the first stage and its buffer in the second.\<close>

theorem small_requests_capped_witness:
  "\<exists>vec mb. assign_ul_beam (NrMacSchedulerOfdmaPF demo_libm (Num 99) (\<lambda>_ _. 50) (\<lambda>_ n. 3 * n) sort_by)
      (demo_ofdma\<lparr>o_scheduleMode := 3, o_confident := [(7, 900)]\<rparr>) [(demo_beam 1, 12)] 0
      (demo_beam 1, [((demo_ue 7 9 0, NrMacSchedulerUeInfoPF (Num 1)), 50000)]) = Some (Inr ((demo_beam 1, vec), mb)) \<and>
    rntis vec = {#7#} \<and> (\<forall>x \<in> set vec. snd x \<le> 60000 \<and> ue_rnti (fst (fst x)) = 7 \<longrightarrow>
       5 * (unat (ue_ulRBG (fst (fst x))) div 12 - 1) \<le> 48)"
proof -
  let ?e = "demo_ofdma\<lparr>o_scheduleMode := 3, o_confident := [(7, 900)]\<rparr>"
  let ?ues = "[((demo_ue 7 9 0, NrMacSchedulerUeInfoPF (Num 1)), 50000 :: u32)]"
  have "usable_rbgs (o_bw ?e) (o_ulNotched ?e) = 24" "o_scheduleMode ?e \<noteq> 1" "window_over ?e"
    by (simp_all add: demo_ofdma_def usable_rbgs_def window_over_def)
  moreover have "\<forall>x \<in> set ?ues. ue_ulRBG (fst (fst x)) = 0" "rntis ?ues = {#7#}"
    by (simp_all add: demo_ue_def NrMacSchedulerUeInfo_def rntis_def entry_key_def)
  moreover have "map_of [(demo_beam 1, 12 :: u32)] (demo_beam 1) = Some 12" by simp
  moreover note sorts = mset_sort_by ofdma_subclassI(3)
  ultimately obtain vec mb where v: "assign_ul_beam (NrMacSchedulerOfdmaPF demo_libm (Num 99) (\<lambda>_ _. 50) (\<lambda>_ n. 3 * n) sort_by) ?e
      [(demo_beam 1, 12)] 0 (demo_beam 1, ?ues) = Some (Inr ((demo_beam 1, vec), mb))" "rntis vec = {#7#}"
      "\<forall>x \<in> set vec. request_of ?e 0 x \<le> 60000 \<and> request_of ?e 1 x \<le> 60000 \<longrightarrow>
         5 * (unat (ue_ulRBG (fst (fst x))) div 12 - 1) \<le> 48"
    using small_requests_capped[of sort_by "NrMacSchedulerOfdmaPF demo_libm (Num 99) (\<lambda>_ _. 50) (\<lambda>_ n. 3 * n) sort_by"
        "[(demo_beam 1, 12)]" "demo_beam 1" 12 ?ues ?e 0] by auto
  have "request_of ?e 0 x = 900 \<and> request_of ?e 1 x = snd x" if "ue_rnti (fst (fst x)) = 7" for x :: "pf entry"
    using that by (simp add: request_of_def bsr_of_def split_beta)
  then show ?thesis using v by (intro exI[of _ vec] exI[of _ mb]) simp
qed

theorem zero_symbol_beam_witness:
  "assign_ul_beam (NrMacSchedulerOfdmaPF demo_libm (Num 99) (\<lambda>_ _. 50) (\<lambda>_ n. 3 * n) sort_by) demo_ofdma [(demo_beam 1, 0)] 0
     (demo_beam 1, [((demo_ue 7 9 0, NrMacSchedulerUeInfoPF (Num 1)), 100)]) = Some (Inl Undefined)"
  by (rule zero_symbol_beam[where srt = sort_by])
    (simp_all add: demo_ofdma_def usable_rbgs_def demo_ue_def NrMacSchedulerUeInfo_def ofdma_subclassI)

subsection \<open>The aggressive mode\<close>




end
