(* ===== verification/SlotParts.thy ===== *)
theory SlotParts
  imports OfdmaAlloc
begin

text \<open>
  The parts a slot is put together from, in \<open>contrib/nr/model/nr-mac-scheduler-ns3.cc\<close>: the control symbols, the
  sounding symbols, the scheduling requests, the UEs with data and the distribution of a transport block to the logical
  channels. A computation that may not end has a value of \<open>res option\<close>, as in the allocation.
\<close>

subsection \<open>Control symbols\<close>

definition ctrl_alloc :: "u16 \<Rightarrow> DciFormat \<Rightarrow> u8 \<Rightarrow> VarTtiAllocInfo" where
  "ctrl_alloc bw mode symb = VarTtiAllocInfo (Dci_ctrl symb 1 mode CTRL (replicate (unat bw) 1))"

text \<open>
  The loop counts a \<open>uint8_t\<close> up to a bound that is an \<open>int\<close>: it does not end when the bound is above 255.
\<close>

partial_function (option) ctrl_loop :: "(VarTtiAllocInfo \<Rightarrow> VarTtiAllocInfo list \<Rightarrow> VarTtiAllocInfo list) \<Rightarrow>
    u16 \<Rightarrow> DciFormat \<Rightarrow> nat \<Rightarrow> u8 \<Rightarrow> VarTtiAllocInfo list \<Rightarrow> VarTtiAllocInfo list option" where
  "ctrl_loop put bw mode bound symb allocations =
     (if unat symb < bound then ctrl_loop put bw mode bound (symb + 1) (put (ctrl_alloc bw mode symb) allocations)
      else Some allocations)"

definition ctrl_syms :: "(VarTtiAllocInfo \<Rightarrow> VarTtiAllocInfo list \<Rightarrow> VarTtiAllocInfo list) \<Rightarrow>
    u16 \<Rightarrow> u8 \<Rightarrow> u8 \<Rightarrow> DciFormat \<Rightarrow> VarTtiAllocInfo list \<Rightarrow> (VarTtiAllocInfo list \<times> u8) res option" where
  "ctrl_syms put bw symStart numSymToAllocate mode allocations =
     (if mode = DL_DCI \<and> \<not> (allocations = [] \<and> symStart = 0) then Some (Inl AssertFailed)
      else case ctrl_loop put bw mode (unat symStart + unat numSymToAllocate) symStart allocations of
        None \<Rightarrow> None
      | Some allocations \<Rightarrow> Some (Inr (allocations, symStart + numSymToAllocate)))"

definition PrependCtrlSym :: "u16 \<Rightarrow> u8 \<Rightarrow> u8 \<Rightarrow> DciFormat \<Rightarrow> VarTtiAllocInfo list \<Rightarrow>
    (VarTtiAllocInfo list \<times> u8) res option" where
  "PrependCtrlSym = ctrl_syms (\<lambda>a q. a # q)"

definition AppendCtrlSym :: "u16 \<Rightarrow> u8 \<Rightarrow> u8 \<Rightarrow> DciFormat \<Rightarrow> VarTtiAllocInfo list \<Rightarrow>
    (VarTtiAllocInfo list \<times> u8) res option" where
  "AppendCtrlSym = ctrl_syms (\<lambda>a q. q @ [a])"

subsection \<open>Sounding symbols\<close>

text \<open>The last UE of the map with the offset, and 0 when there is none.\<close>

definition srs_rnti :: "u32 \<Rightarrow> (u16 \<times> UeInfo) list \<Rightarrow> u16" where
  "srs_rnti offset_UEx ueMap =
     foldl (\<lambda>rnti (_, ue). if ue_srsOffset ue = offset_UEx then ue_rnti ue else rnti) 0 ueMap"

fun srs_allocs :: "u16 \<Rightarrow> u8 \<Rightarrow> u16 \<Rightarrow> nat \<Rightarrow> PointInFTPlane \<Rightarrow> SlotAllocInfo \<Rightarrow> PointInFTPlane \<times> SlotAllocInfo" where
  "srs_allocs bw bwpId rnti 0 spoint allocInfo = (spoint, allocInfo)"
| "srs_allocs bw bwpId rnti (Suc n) spoint allocInfo =
     (let spoint = spoint\<lparr>pt_sym := pt_sym spoint - 1\<rparr>;
          d = (Dci_data rnti UL_DCI (pt_sym spoint) 1 [0] [0] [1] [0] SRS bwpId 1)\<lparr>dci_rbgBitmask := replicate (unat bw) 1\<rparr>
      in srs_allocs bw bwpId rnti n spoint
           (allocInfo\<lparr>slot_numSymAlloc := slot_numSymAlloc allocInfo + 1,
                      slot_varTtiAllocInfo := VarTtiAllocInfo d # slot_varTtiAllocInfo allocInfo\<rparr>))"

definition DoScheduleSrs :: "u16 \<Rightarrow> u8 \<Rightarrow> u8 \<Rightarrow> u32 \<Rightarrow> (u16 \<times> UeInfo) list \<Rightarrow> PointInFTPlane \<Rightarrow> SlotAllocInfo \<Rightarrow>
    (u8 \<times> PointInFTPlane \<times> SlotAllocInfo) res" where
  "DoScheduleSrs bw bwpId srsCtrlSymbols srsSlotCounter ueMap spoint allocInfo =
     (case ueMap of
        [] \<Rightarrow> Inr (0, spoint, allocInfo)
      | (_, ue) # _ \<Rightarrow>
          defined_if (ue_srsPeriodicity ue \<noteq> 0)
          (let rnti = srs_rnti (srsSlotCounter mod ue_srsPeriodicity ue) ueMap in
           if rnti = 0 then Inr (0, spoint, allocInfo)
           else Inr (srsCtrlSymbols, srs_allocs bw bwpId rnti (unat srsCtrlSymbols) spoint allocInfo)))"

subsection \<open>Scheduling requests\<close>

fun each_group :: "(lcg \<Rightarrow> lcg res) \<Rightarrow> (u8 \<times> lcg) list \<Rightarrow> (u8 \<times> lcg) list res" where
  "each_group f [] = Inr []"
| "each_group f ((k, g) # r) = bindE (f g) (\<lambda>g. bindE (each_group f r) (\<lambda>r. Inr ((k, g) # r)))"

text \<open>A request makes every uplink group of the UE ask for 12 bytes, on top of its proactive queue.\<close>

definition DoScheduleUlSr :: "int \<Rightarrow> (u16 \<times> u32) list \<Rightarrow> PointInFTPlane \<Rightarrow> u16 list \<Rightarrow> (u16 \<times> UeInfo) list \<Rightarrow>
    (u16 \<times> UeInfo) list res" where
  "DoScheduleUlSr scheduleMode idealBsrMap spoint rntiList ueMap =
     ns_assert (pt_rbg spoint = 0)
     (foldE (\<lambda>ueMap v.
        bindE (map_at v ueMap) (\<lambda>ue.
        bindE (each_group (\<lambda>ulLcg.
            if scheduleMode \<noteq> 4 then UpdateInfo ulLcg (12 + GetTotalSize ulLcg - GetReactiveTotalSize ulLcg)
            else UpdateInfo ulLcg (bsr_of idealBsrMap v)) (ue_ulLCG ue)) (\<lambda>m.
          Inr (AList.update v (ue\<lparr>ue_ulLCG := m\<rparr>) ueMap)))) ueMap rntiList)"

subsection \<open>UEs with data\<close>

text \<open>
  In the uplink, group 2 takes the proactive demand of the UE's trigger into its queue, by scheduling mode, and the trigger
  is told the size of the group.
\<close>

definition plan_group :: "int \<Rightarrow> (u16 \<times> u32) list \<Rightarrow> u16 \<Rightarrow> (u16 \<times> trigger) list \<Rightarrow> lcg \<Rightarrow>
    ((u16 \<times> trigger) list \<times> lcg) res" where
  "plan_group scheduleMode idealBsrMap rnti triggerMap g =
     (if lcg_id g = 2 then
        bindE (if scheduleMode = 0 then Inr (triggerMap, g)
               else if scheduleMode = 1 then
                 bindE (trigger_at rnti triggerMap) (\<lambda>t.
                 if GetReactiveTotalSize g = 0 then
                   bindE (UpdateProactiveBSR g (of_int (GetProactiveBSR t))) (\<lambda>g. Inr (triggerMap, g))
                 else
                   bindE (UpdateProactiveBSR g 0) (\<lambda>g.
                     Inr (AList.update rnti (t\<lparr>t_proactiveBsr := 0\<rparr>) triggerMap, g)))
               else if scheduleMode \<in> {2, 3, 5, 6} then
                 bindE (trigger_at rnti triggerMap) (\<lambda>t.
                 bindE (UpdateProactiveBSR g (of_int (GetProactiveBSR t))) (\<lambda>g. Inr (triggerMap, g)))
               else bindE (UpdateInfo g (bsr_of idealBsrMap rnti)) (\<lambda>g. Inr (triggerMap, g))) (\<lambda>(triggerMap, g).
        bindE (trigger_at rnti triggerMap) (\<lambda>t.
          Inr (AList.update rnti (t\<lparr>t_totalBuffer := sint (GetTotalSize g)\<rparr>) triggerMap, g)))
      else Inr (triggerMap, g))"

fun plan_groups :: "int \<Rightarrow> (u16 \<times> u32) list \<Rightarrow> u16 \<Rightarrow> (u16 \<times> trigger) list \<Rightarrow> (u8 \<times> lcg) list \<Rightarrow>
    ((u16 \<times> trigger) list \<times> (u8 \<times> lcg) list \<times> u32) res" where
  "plan_groups scheduleMode idealBsrMap rnti triggerMap [] = Inr (triggerMap, [], 0)"
| "plan_groups scheduleMode idealBsrMap rnti triggerMap ((k, g) # r) =
     bindE (plan_group scheduleMode idealBsrMap rnti triggerMap g) (\<lambda>(triggerMap, g).
     bindE (plan_groups scheduleMode idealBsrMap rnti triggerMap r) (\<lambda>(triggerMap, r, totBuffer).
       Inr (triggerMap, (k, g) # r, GetTotalSize g + totBuffer)))"

definition add_active_ue :: "'p ActiveUeMap \<Rightarrow> 'p ue \<Rightarrow> u32 \<Rightarrow> 'p ActiveUeMap" where
  "add_active_ue activeUe u totBuffer =
     (case map_of activeUe (ue_beamConfId (fst u)) of
        None \<Rightarrow> activeUe @ [(ue_beamConfId (fst u), [(u, totBuffer)])]
      | Some es \<Rightarrow> AList.update (ue_beamConfId (fst u)) (es @ [(u, totBuffer)]) activeUe)"

text \<open>\<open>x\<close> is what the subclass keeps of each UE.\<close>

fun ComputeActiveUlUe :: "int \<Rightarrow> (u16 \<times> u32) list \<Rightarrow> (u16 \<Rightarrow> 'p) \<Rightarrow> 'p ActiveUeMap \<Rightarrow> (u16 \<times> trigger) list \<Rightarrow>
    (u16 \<times> UeInfo) list \<Rightarrow> ('p ActiveUeMap \<times> (u16 \<times> trigger) list \<times> (u16 \<times> UeInfo) list) res" where
  "ComputeActiveUlUe scheduleMode idealBsrMap x activeUe triggerMap [] = Inr (activeUe, triggerMap, [])"
| "ComputeActiveUlUe scheduleMode idealBsrMap x activeUe triggerMap ((k, ue) # r) =
     bindE (plan_groups scheduleMode idealBsrMap (ue_rnti ue) triggerMap (ue_ulLCG ue)) (\<lambda>(triggerMap, m, totBuffer).
     let ue = ue\<lparr>ue_ulLCG := m\<rparr>;
         activeUe = (if totBuffer > 0 \<and> CanInsert (ue_ulHarq ue) then add_active_ue activeUe (ue, x (ue_rnti ue)) totBuffer
                     else activeUe)
     in bindE (ComputeActiveUlUe scheduleMode idealBsrMap x activeUe triggerMap r) (\<lambda>(activeUe, triggerMap, r).
          Inr (activeUe, triggerMap, (k, ue) # r)))"

definition ComputeActiveDlUe :: "(u16 \<Rightarrow> 'p) \<Rightarrow> (u16 \<times> UeInfo) list \<Rightarrow> 'p ActiveUeMap" where
  "ComputeActiveDlUe x ueMap =
     foldl (\<lambda>activeUe (_, ue).
        let totBuffer = foldl (\<lambda>t (_, g). t + GetTotalSize g) 0 (ue_dlLCG ue) in
        if totBuffer > 0 \<and> CanInsert (ue_dlHarq ue) then add_active_ue activeUe (ue, x (ue_rnti ue)) totBuffer
        else activeUe) [] ueMap"

text \<open>The UEs that have an allocation in the slot already are taken out: at most one of each beam and allocation.\<close>

fun drop_first :: "u16 \<Rightarrow> 'p entry list \<Rightarrow> 'p entry list" where
  "drop_first rnti [] = []"
| "drop_first rnti (e # r) = (if ue_rnti (fst (fst e)) = rnti then r else e # drop_first rnti r)"

definition drop_allocated :: "VarTtiAllocInfo list \<Rightarrow> 'p ActiveUeMap \<Rightarrow> 'p ActiveUeMap" where
  "drop_allocated allocs activeUe =
     foldl (\<lambda>activeUe alloc. map (\<lambda>(b, es). (b, drop_first (dci_rnti (tti_dci alloc)) es)) activeUe) activeUe allocs"

subsection \<open>The bytes of a block\<close>

record Assignation =
  as_lcg :: u8
  as_lcId :: u8
  as_bytes :: u32

fun active_lcs :: "lcg \<Rightarrow> u8 list \<Rightarrow> u8 list res" where
  "active_lcs g [] = Inr []"
| "active_lcs g (i # r) = bindE (GetTotalSizeOfLC g i) (\<lambda>sz. bindE (active_lcs g r) (\<lambda>r. Inr (if sz > 0 then i # r else r)))"

fun active_channels :: "(u8 \<times> lcg) list \<Rightarrow> (u8 \<times> u8) list res" where
  "active_channels [] = Inr []"
| "active_channels ((k, g) # r) =
     bindE (active_lcs g (GetLCId g)) (\<lambda>is. bindE (active_channels r) (\<lambda>r. Inr (map (Pair k) is @ r)))"

definition AssignBytesToLC :: "(u8 \<times> lcg) list \<Rightarrow> u32 \<Rightarrow> Assignation list res" where
  "AssignBytesToLC ueLCG tbs =
     bindE (active_channels ueLCG) (\<lambda>cs.
     let activeLc = of_nat (length cs) :: u32 in
     if activeLc = 0 then Inr []
     else let amountPerLC = tbs div activeLc in
       Inr (map (\<lambda>(k, i). \<lparr>as_lcg = k, as_lcId = i, as_bytes = amountPerLC\<rparr>) cs))"

end
