(* ===== verification/SchedData.thy ===== *)
theory SchedData
  imports SlotParts
begin

text \<open>
  New data in a slot: \<open>DoScheduleDlData\<close> and \<open>DoScheduleUlData\<close> of
  \<open>contrib/nr/model/nr-mac-scheduler-ns3.cc\<close>, over the allocation and the DCIs of \<open>Ofdma\<close>. The C++ reaches the UEs
  through pointers, so that the order of the map of active UEs is not touched by the sorting of the allocation;
  \<open>read_back\<close> restores it here.
\<close>

fun mapE_state :: "('s \<Rightarrow> 'a \<Rightarrow> ('s \<times> 'b) res) \<Rightarrow> 's \<Rightarrow> 'a list \<Rightarrow> ('s \<times> 'b list) res" where
  "mapE_state f s [] = Inr (s, [])"
| "mapE_state f s (x # r) = bindE (f s x) (\<lambda>(s, y). bindE (mapE_state f s r) (\<lambda>(s, r). Inr (s, y # r)))"

fun find_ue :: "u16 \<Rightarrow> 'p entry list \<Rightarrow> 'p ue option" where
  "find_ue rnti [] = None"
| "find_ue rnti (e # r) = (if ue_rnti (fst (fst e)) = rnti then Some (fst e) else find_ue rnti r)"

definition read_back :: "'p entry list \<Rightarrow> 'p entry list \<Rightarrow> 'p entry list" where
  "read_back vec ues = map (\<lambda>(u, b). (case find_ue (ue_rnti (fst u)) vec of None \<Rightarrow> u | Some v \<Rightarrow> v, b)) ues"

text \<open>\<open>zip\<close> pairs the beams, which keep their order.\<close>

definition read_back_all :: "'p ActiveUeMap \<Rightarrow> 'p ActiveUeMap \<Rightarrow> 'p ActiveUeMap" where
  "read_back_all new old = map (\<lambda>((_, vec), (b, ues)). (b, read_back vec ues)) (zip new old)"

text \<open>The state of the loop over the UEs of a beam, and what the slot needs to know of the cell.\<close>

record placing =
  pl_point :: PointInFTPlane
  pl_slot :: SlotAllocInfo
  pl_assigned :: bool
  pl_symbStartDci :: "u8 list"
  pl_allocSym :: u32

record cell =
  c_bw :: u16
  c_bwpId :: u8
  c_symbolsPerSlot :: u32
  c_dlNotched :: "u8 list"
  c_ulNotched :: "u8 list"

definition count_symbols :: "dci \<Rightarrow> placing \<Rightarrow> placing" where
  "count_symbols d s =
     (let s = s\<lparr>pl_assigned := True\<rparr> in
      if dci_symStart d \<in> set (pl_symbStartDci s) then s
      else s\<lparr>pl_symbStartDci := dci_symStart d # pl_symbStartDci s, pl_allocSym := pl_allocSym s + ucast (dci_numSym d)\<rparr>)"

text \<open>
  A new process for the DCI: the vector, the id and the DCI with its id. The DCI is shared by the process and the slot.
\<close>

definition store_process :: "NrMacHarqVector \<Rightarrow> dci \<Rightarrow> (NrMacHarqVector \<times> dci) res" where
  "store_process harq d =
     (if \<not> CanInsert harq then Inl FatalError
      else bindE (hv_Insert harq 0 (HarqProcess True WAITING_FEEDBACK 0 d)) (\<lambda>(harq, i, _).
           bindE (hv_Get harq i) (\<lambda>p.
           let d = d\<lparr>dci_harqProcess := i\<rparr> in Inr (hv_Set harq i (p\<lparr>m_dciElement := Some d\<rparr>), d))))"

subsection \<open>Downlink\<close>

text \<open>The bytes of one stream are added to the vectors of the channels, which the first stream makes.\<close>

definition add_stream :: "Assignation list list \<Rightarrow> Assignation list \<Rightarrow> Assignation list list res" where
  "add_stream bytesPerLcPerStream distributedBytes =
     (let v = (if bytesPerLcPerStream = [] then replicate (length distributedBytes) [] else bytesPerLcPerStream) in
      if length distributedBytes \<le> length v
      then Inr (map2 (\<lambda>l a. l @ [a]) v distributedBytes @ drop (length distributedBytes) v) else Inl OutOfRange)"

definition dl_bytes :: "(u8 \<times> lcg) list \<Rightarrow> u32 list \<Rightarrow> Assignation list list res" where
  "dl_bytes dlLCG tbSize =
     foldE (\<lambda>v it. bindE (AssignBytesToLC dlLCG it) (\<lambda>distributedBytes. add_stream v distributedBytes)) [] tbSize"

definition dl_pdu :: "(u8 \<times> lcg) list \<Rightarrow> Assignation \<Rightarrow> ((u8 \<times> lcg) list \<times> RlcPduInfo) res" where
  "dl_pdu dlLCG a =
     (if as_bytes a \<noteq> 0 then
        ns_assert (as_bytes a \<ge> 3)
        (let bytes = as_bytes a - 3 in
         bindE (map_at (as_lcg a) dlLCG) (\<lambda>g.
         bindE (AssignedData g (as_lcId a) bytes ''DL'') (\<lambda>g.
           Inr (AList.update (as_lcg a) g dlLCG, \<lparr>pdu_lcid = as_lcId a, pdu_size = bytes\<rparr>))))
      else Inr (dlLCG, \<lparr>pdu_lcid = as_lcId a, pdu_size = 0\<rparr>))"

definition dl_pdus :: "(u8 \<times> lcg) list \<Rightarrow> Assignation list list \<Rightarrow> ((u8 \<times> lcg) list \<times> RlcPduInfo list list) res" where
  "dl_pdus = mapE_state (mapE_state dl_pdu)"

definition place_dl_ue :: "'p policy \<Rightarrow> cell \<Rightarrow> u32 \<Rightarrow> placing \<Rightarrow> 'p entry \<Rightarrow> (placing \<times> 'p entry) res" where
  "place_dl_ue pol c beamSym s = (\<lambda>((ue, x), buf).
     if ue_dlRBG ue = 0 then Inr (s, ((ue, x), buf))
     else
       bindE (CreateDlDci (c_bw c) (c_dlNotched c) (c_bwpId c) (pl_point s) ue beamSym) (\<lambda>(d, ue, point).
       case d of
         None \<Rightarrow> Inr (s\<lparr>pl_point := point\<rparr>, ((ResetDlMetric ue, pol_ResetDlMetric pol x), buf))
       | Some d \<Rightarrow>
           let s = (count_symbols d s)\<lparr>pl_point := point\<rparr> in
           ns_assert (unat (dci_symStart d) + unat (dci_numSym d) \<le> unat (c_symbolsPerSlot c))
           (bindE (store_process (ue_dlHarq ue) d) (\<lambda>(harq, d).
            bindE (dl_bytes (ue_dlLCG ue) (dci_tbSize d)) (\<lambda>bytesPerLcPerStream.
            bindE (dl_pdus (ue_dlLCG ue) bytesPerLcPerStream) (\<lambda>(dlLCG, pdus).
            bindE (hv_Get harq (dci_harqProcess d)) (\<lambda>p.
            let harq = hv_Set harq (dci_harqProcess d) (p\<lparr>m_rlcPduInfo := m_rlcPduInfo p @ pdus\<rparr>);
                slotInfo = (VarTtiAllocInfo d)\<lparr>tti_rlcPduInfo := pdus\<rparr> in
            ns_abort_if (pdus = [])
            (Inr (s\<lparr>pl_slot := (pl_slot s)\<lparr>slot_varTtiAllocInfo := slot_varTtiAllocInfo (pl_slot s) @ [slotInfo]\<rparr>\<rparr>,
                  ((ue\<lparr>ue_dlHarq := harq, ue_dlLCG := dlLCG\<rparr>, x), buf))))))))))"

text \<open>A beam: with symbols of its own, and moved past when a UE got something.\<close>

definition place_dl_beam :: "'p policy \<Rightarrow> cell \<Rightarrow> BeamSymbolMap \<Rightarrow> PointInFTPlane \<times> SlotAllocInfo \<times> u8 \<Rightarrow> BeamConfId \<times> 'p entry list \<Rightarrow>
    ((PointInFTPlane \<times> SlotAllocInfo \<times> u8) \<times> (BeamConfId \<times> 'p entry list)) res" where
  "place_dl_beam pol c symPerBeam = (\<lambda>(point, slot, usedSym) (beam, ues).
     bindE (map_at beam symPerBeam) (\<lambda>beamSym.
     if beamSym = 0 then Inr ((point, slot, usedSym), (beam, ues))
     else
       bindE (mapE_state (place_dl_ue pol c beamSym)
         \<lparr>pl_point = point, pl_slot = slot, pl_assigned = False, pl_symbStartDci = [], pl_allocSym = 0\<rparr> ues) (\<lambda>(s, ues).
       if pl_assigned s then
         Inr ((ChangeDlBeam (pl_point s) beamSym,
               (pl_slot s)\<lparr>slot_numSymAlloc := slot_numSymAlloc (pl_slot s) + pl_allocSym s\<rparr>,
               usedSym + ucast (pl_allocSym s)), (beam, ues))
       else Inr ((pl_point s, pl_slot s, usedSym), (beam, ues)))))"

definition DoScheduleDlData :: "'p policy \<Rightarrow> cell \<Rightarrow> PointInFTPlane \<Rightarrow> u32 \<Rightarrow> 'p ActiveUeMap \<Rightarrow> SlotAllocInfo \<Rightarrow>
    (u8 \<times> PointInFTPlane \<times> SlotAllocInfo \<times> 'p ActiveUeMap) res option" where
  "DoScheduleDlData pol c spoint symAvail activeDl slotAlloc =
     bindL (Some (ns_assert (pt_rbg spoint = 0) (Inr ()))) (\<lambda>_.
     bindL (AssignDLRBG pol (c_bw c) (c_dlNotched c) symAvail activeDl) (\<lambda>(symPerBeam, assigned).
     bindL (Some (mapE_state (place_dl_beam pol c symPerBeam) (spoint, slotAlloc, 0) (read_back_all assigned activeDl)))
       (\<lambda>((point, slot, usedSym), active).
     let active = map (\<lambda>(b, ues). (b, map (\<lambda>((ue, x), buf). ((ResetDlSchedInfo ue, pol_ResetDlSchedInfo pol x), buf)) ues)) active in
     Some (ns_assert (pt_rbg point = 0) (Inr (usedSym, point, slot, active))))))"

subsection \<open>Uplink\<close>

text \<open>
  What the C++ computes for its traces before it places the DCIs: RBs per symbol, the share of them that is proactive and
  the spectral efficiency. \<open>spectral_efficiency\<close> is a local variable that is not initialised, and read when a UE has no RBG;
  \<open>indeterminate\<close> is what is read. Two values that are computed and not used are left out, but not the conversion that the
  first of them needs.
\<close>

type_synonym traces = "(u16 \<times> u32) list \<times> (u16 \<times> u32) list \<times> (u16 \<times> fp) list"

definition trace_ue :: "fp \<Rightarrow> (u16 \<times> trigger) list \<Rightarrow> u32 \<Rightarrow> traces \<Rightarrow> 'p entry \<Rightarrow> traces res" where
  "trace_ue indeterminate triggerMap rbgAssignable = (\<lambda>(allocated_map, proactive_map, spectralEfficiencyMap) ((ue, _), buf).
     bindE (trigger_at (ue_rnti ue) triggerMap) (\<lambda>t.
     let reactiveBuffer = buf - of_int (GetProactiveBSR t) in
     defined_if (rbgAssignable \<noteq> 0)
     (let allocRb = ue_ulRBG ue div rbgAssignable;
          spectral_efficiency = (if allocRb = 0 then indeterminate else fp_of_int (uint (ue_ulTbSize ue div allocRb)));
          spectralEfficiencyMap = (if allocRb = 0 then spectralEfficiencyMap
            else AList.update (ue_rnti ue) spectral_efficiency spectralEfficiencyMap) in
      bindE (if fp_less (Num 0) spectral_efficiency
             then fp_to_int (fp_div (fp_of_int (uint reactiveBuffer)) spectral_efficiency) else Inr 0) (\<lambda>_.
      let proactiveAlloc = sint (ue_ulTbSize ue - reactiveBuffer) in
      bindE (if proactiveAlloc \<le> 0 then Inr 0
             else fp_to_u32 (fp_div (fp_of_int proactiveAlloc) spectral_efficiency)) (\<lambda>proactive.
        Inr (AList.update (ue_rnti ue) allocRb allocated_map, AList.update (ue_rnti ue) proactive proactive_map,
             spectralEfficiencyMap))))))"

definition trace_beam :: "fp \<Rightarrow> (u16 \<times> trigger) list \<Rightarrow> BeamSymbolMap \<Rightarrow> traces \<Rightarrow> BeamConfId \<times> 'p entry list \<Rightarrow>
    traces res" where
  "trace_beam indeterminate triggerMap symPerBeam tr = (\<lambda>(beam, ues).
     foldE (\<lambda>tr u. bindE (map_at beam symPerBeam) (\<lambda>beamSym. trace_ue indeterminate triggerMap beamSym tr u)) tr ues)"

definition ul_bytes :: "(u8 \<times> lcg) list \<Rightarrow> Assignation \<Rightarrow> (u8 \<times> lcg) list res" where
  "ul_bytes ulLCG a =
     bindE (map_at (as_lcg a) ulLCG) (\<lambda>g.
     bindE (AssignedData g (as_lcId a) (as_bytes a) ''UL'') (\<lambda>g. Inr (AList.update (as_lcg a) g ulLCG)))"

definition place_ul_ue :: "'p policy \<Rightarrow> (u8 \<Rightarrow> u32 \<Rightarrow> u32) \<Rightarrow> cell \<Rightarrow> u32 \<Rightarrow> placing \<Rightarrow> 'p entry \<Rightarrow> (placing \<times> 'p entry) res" where
  "place_ul_ue pol CalculateTbSize c beamSym s = (\<lambda>((ue, x), buf).
     if ue_ulRBG ue = 0 then Inr (s, ((ue, x), buf))
     else
       bindE (CreateUlDci CalculateTbSize (c_bw c) (c_ulNotched c) (c_bwpId c) (pl_point s) ue beamSym) (\<lambda>(d, point).
       case d of
         None \<Rightarrow> Inr (s\<lparr>pl_point := point\<rparr>, ((ResetUlMetric ue, pol_ResetUlMetric pol x), buf))
       | Some d \<Rightarrow>
           let s = (count_symbols d s)\<lparr>pl_point := point\<rparr> in
           bindE (store_process (ue_ulHarq ue) d) (\<lambda>(harq, d).
           bindE (vec_at (dci_tbSize d) 0) (\<lambda>tbs.
           bindE (AssignBytesToLC (ue_ulLCG ue) tbs) (\<lambda>distributedBytes.
           bindE (foldE ul_bytes (ue_ulLCG ue) distributedBytes) (\<lambda>ulLCG.
           ns_assert (distributedBytes \<noteq> [])
           (Inr (s\<lparr>pl_slot := (pl_slot s)\<lparr>slot_varTtiAllocInfo := VarTtiAllocInfo d # slot_varTtiAllocInfo (pl_slot s)\<rparr>\<rparr>,
                 ((ue\<lparr>ue_ulHarq := harq, ue_ulLCG := ulLCG\<rparr>, x), buf)))))))))"

definition place_ul_beam :: "'p policy \<Rightarrow> (u8 \<Rightarrow> u32 \<Rightarrow> u32) \<Rightarrow> cell \<Rightarrow> BeamSymbolMap \<Rightarrow> PointInFTPlane \<times> SlotAllocInfo \<times> u8 \<Rightarrow>
    BeamConfId \<times> 'p entry list \<Rightarrow> ((PointInFTPlane \<times> SlotAllocInfo \<times> u8) \<times> (BeamConfId \<times> 'p entry list)) res" where
  "place_ul_beam pol CalculateTbSize c symPerBeam = (\<lambda>(point, slot, usedSym) (beam, ues).
     bindE (map_at beam symPerBeam) (\<lambda>beamSym.
     if beamSym = 0 then Inr ((point, slot, usedSym), (beam, ues))
     else
       bindE (mapE_state (place_ul_ue pol CalculateTbSize c beamSym)
         \<lparr>pl_point = point, pl_slot = slot, pl_assigned = False, pl_symbStartDci = [], pl_allocSym = 0\<rparr> ues) (\<lambda>(s, ues).
       if pl_assigned s then
         Inr ((ChangeUlBeam (pl_point s) beamSym,
               (pl_slot s)\<lparr>slot_numSymAlloc := slot_numSymAlloc (pl_slot s) + pl_allocSym s\<rparr>,
               usedSym + ucast (pl_allocSym s)), (beam, ues))
       else Inr ((pl_point s, pl_slot s, usedSym), (beam, ues)))))"

definition place_ul :: "'p policy \<Rightarrow> (u8 \<Rightarrow> u32 \<Rightarrow> u32) \<Rightarrow> cell \<Rightarrow> BeamSymbolMap \<Rightarrow> PointInFTPlane \<Rightarrow> SlotAllocInfo \<Rightarrow> 'p ActiveUeMap \<Rightarrow>
    (u8 \<times> PointInFTPlane \<times> SlotAllocInfo \<times> 'p ActiveUeMap) res" where
  "place_ul pol CalculateTbSize c symPerBeam spoint slotAlloc activeUl =
     bindE (mapE_state (place_ul_beam pol CalculateTbSize c symPerBeam) (spoint, slotAlloc, 0) activeUl)
       (\<lambda>((point, slot, usedSym), active).
     let active = map (\<lambda>(b, ues). (b, map (\<lambda>((ue, x), buf). ((ResetUlSchedInfo ue, pol_ResetUlSchedInfo pol x), buf)) ues)) active in
     ns_assert (pt_rbg point = 0) (Inr (usedSym, point, slot, active)))"

text \<open>What the uplink adds to the state: the traces, \<open>m_maxBuffer\<close> and the demands of \<open>SetProactiveBSR\<close>.\<close>

record 'p ul_result =
  ur_usedSym :: u8
  ur_point :: PointInFTPlane
  ur_slot :: SlotAllocInfo
  ur_active :: "'p ActiveUeMap"
  ur_ofdma :: ofdma_env
  ur_maxBuffer :: u32
  ur_traces :: traces

definition DoScheduleUlData :: "'p policy \<Rightarrow> (u8 \<Rightarrow> u32 \<Rightarrow> u32) \<Rightarrow> cell \<Rightarrow> fp \<Rightarrow> (u16 \<times> trigger) list \<Rightarrow> ofdma_env \<Rightarrow> u32 \<Rightarrow>
    (u16 \<times> fp) list \<Rightarrow> PointInFTPlane \<Rightarrow> u32 \<Rightarrow> 'p ActiveUeMap \<Rightarrow> SlotAllocInfo \<Rightarrow> 'p ul_result res option" where
  "DoScheduleUlData pol CalculateTbSize c indeterminate triggerMap e maxBuffer efficiency spoint symAvail activeUl slotAlloc =
     bindL (Some (ns_assert (symAvail > 0 \<and> length activeUl > 0) (ns_assert (pt_rbg spoint = 0) (Inr ())))) (\<lambda>_.
     let e = SetProactiveBSR triggerMap e in
     bindL (AssignULRBG pol e maxBuffer symAvail activeUl) (\<lambda>(symPerBeam, assigned, maxBuffer).
     let activeUl = read_back_all assigned activeUl in
     bindL (Some (foldE (trace_beam indeterminate triggerMap symPerBeam) ([], [], efficiency) activeUl)) (\<lambda>traces.
     bindL (Some (place_ul pol CalculateTbSize c symPerBeam spoint slotAlloc activeUl)) (\<lambda>(usedSym, point, slot, active).
       Some (Inr \<lparr>ur_usedSym = usedSym, ur_point = point, ur_slot = slot, ur_active = active, ur_ofdma = e,
                  ur_maxBuffer = maxBuffer, ur_traces = traces\<rparr>)))))"

end
