(* ===== verification/SchedSlot.thy ===== *)
theory SchedSlot
  imports SchedData
begin

text \<open>
  A whole slot, from the trigger to the decision handed to the MAC: \<open>DoSchedDlTriggerReq\<close>, \<open>ScheduleDl\<close>,
  \<open>DoScheduleDl\<close> and their uplink counterparts in \<open>contrib/nr/model/nr-mac-scheduler-ns3.cc\<close>.
  The state is the scheduler core of \<open>SchedConfig\<close> with the members of the OFDMA scheduler. A reference to
  \<open>m_ulAllocationMap\<close> is a key.
\<close>

datatype LteNrTddSlotType = SlotDL | SlotS | SlotF | SlotUL

record ('r, 'p) gnb_env =
  ge_env :: "'r env"
  ge_pol :: "'p policy"
  ge_ulAmc :: "u8 \<Rightarrow> u32 \<Rightarrow> u32"
  ge_sortHarq :: "(u16 \<times> u8 \<Rightarrow> u16 \<times> u8 \<Rightarrow> bool) \<Rightarrow> (u16 \<times> u8) list \<Rightarrow> (u16 \<times> u8) list"
  ge_nowMs :: int
  ge_bwpId :: u8
  ge_enableBbr :: bool
  ge_indeterminate :: fp

record ('r, 'p) gnb =
  g_sched :: "'r sched"
  g_extra :: "u16 \<Rightarrow> 'p"
  g_bufferResetTime :: int
  g_timeWindow :: u32
  g_maxBuffer :: u32
  g_proactiveBSR :: "(u16 \<times> u32) list"
  g_confidentBSR :: "(u16 \<times> u32) list"
  g_spectralEfficiencyMap :: "(u16 \<times> fp) list"

record slot_decision =
  sd_slotAllocInfo :: SlotAllocInfo
  sd_buildRarList :: "u16 list"

definition cell_of :: "('r, 'p) gnb_env \<Rightarrow> 'r sched \<Rightarrow> cell" where
  "cell_of E s = \<lparr>c_bw = s_bandwidth s, c_bwpId = ge_bwpId E, c_symbolsPerSlot = e_symbolsPerSlot (ge_env E),
     c_dlNotched = s_dlNotchedRbgsMask s, c_ulNotched = s_ulNotchedRbgsMask s\<rparr>"

definition ofdma_of :: "('r, 'p) gnb_env \<Rightarrow> ('r, 'p) gnb \<Rightarrow> ofdma_env" where
  "ofdma_of E g = \<lparr>o_bw = s_bandwidth (g_sched g), o_ulNotched = s_ulNotchedRbgsMask (g_sched g),
     o_scheduleMode = s_scheduleMode (g_sched g), o_enableBbr = ge_enableBbr E, o_now = ge_nowMs E,
     o_bufferResetTime = g_bufferResetTime g, o_timeWindow = g_timeWindow g,
     o_proactive = g_proactiveBSR g, o_confident = g_confidentBSR g\<rparr>"

text \<open>The entries of a map of active UEs are pointers: what they point to is read from, and written to, the map of UEs.\<close>

definition deref :: "(u16 \<times> UeInfo) list \<Rightarrow> 'p ActiveUeMap \<Rightarrow> 'p ActiveUeMap" where
  "deref ueMap activeUe = map (\<lambda>(b, es). (b, map (\<lambda>((ue, x), buf).
     ((case map_of ueMap (ue_rnti ue) of None \<Rightarrow> ue | Some ue \<Rightarrow> ue, x), buf)) es)) activeUe"

definition write_back :: "'p ActiveUeMap \<Rightarrow> ('r, 'p) gnb \<Rightarrow> ('r, 'p) gnb" where
  "write_back activeUe g =
     foldl (\<lambda>g ((ue, x), _). g\<lparr>g_sched := (g_sched g)\<lparr>s_ueMap := AList.update (ue_rnti ue) ue (s_ueMap (g_sched g))\<rparr>,
                              g_extra := (g_extra g)(ue_rnti ue := x)\<rparr>) g (concat (map snd activeUe))"

subsection \<open>Downlink\<close>

definition DoScheduleDl :: "('r, 'p) gnb_env \<Rightarrow> ('r, 'p) gnb \<Rightarrow> DlHarqInfo list \<Rightarrow> ActiveHarqMap \<Rightarrow> 'p ActiveUeMap \<Rightarrow>
    u8 \<Rightarrow> SlotAllocInfo \<Rightarrow> (('r, 'p) gnb \<times> SlotAllocInfo \<times> u8) res option" where
  "DoScheduleDl E g dlHarqFeedback activeDlHarq activeDlUe totUlSym allocInfo =
     (let s = g_sched g;
          dataSymPerSlot = ucast (e_symbolsPerSlot (ge_env E)) - s_dlCtrlSymbols s :: u8;
          dlSymAvail = dataSymPerSlot - totUlSym;
          point = \<lparr>pt_rbg = 0, pt_sym = s_dlCtrlSymbols s\<rparr> in
      bindL (Some (if activeDlHarq \<noteq> [] then
                     bindE (ScheduleDlHarq (s_bandwidth s) point dlSymAvail activeDlHarq (s_ueMap s)
                              (s_dlHarqToRetransmit s) dlHarqFeedback allocInfo) (\<lambda>r.
                     ns_assert (dlSymAvail \<ge> rr_used r)
                     (Inr (s\<lparr>s_ueMap := rr_ueMap r, s_dlHarqToRetransmit := rr_toRetransmit r\<rparr>,
                           rr_point r, rr_slotAlloc r, dlSymAvail - rr_used r)))
                   else Inr (s, point, allocInfo, dlSymAvail))) (\<lambda>(s, point, allocInfo, dlSymAvail).
      let g = g\<lparr>g_sched := s\<rparr>;
          activeDlUe = drop_allocated (slot_varTtiAllocInfo allocInfo) (deref (s_ueMap s) activeDlUe) in
      bindL (Some (ns_assert (pt_rbg point = 0) (Inr ()))) (\<lambda>_.
      if dlSymAvail > 0 \<and> activeDlUe \<noteq> [] then
        bindL (DoScheduleDlData (ge_pol E) (cell_of E s) point (ucast dlSymAvail) activeDlUe allocInfo)
          (\<lambda>(usedDl, point, allocInfo, activeDlUe).
        bindL (Some (ns_assert (dlSymAvail \<ge> usedDl) (Inr ()))) (\<lambda>_.
          Some (Inr (write_back activeDlUe g, allocInfo, dataSymPerSlot - totUlSym - (dlSymAvail - usedDl)))))
      else Some (Inr (g, allocInfo, dataSymPerSlot - totUlSym - dlSymAvail)))))"

text \<open>The uplink allocation of the slot, made if there is none, decides how many symbols are left.\<close>

definition ScheduleDl :: "('r, 'p) gnb_env \<Rightarrow> ('r, 'p) gnb \<Rightarrow> sfnsf \<Rightarrow> LteNrTddSlotType \<Rightarrow> DlHarqInfo list \<Rightarrow>
    (('r, 'p) gnb \<times> slot_decision) res option" where
  "ScheduleDl E g snfSf slotType dlHarqFeedback =
     bindL (Some (GetEncoding snfSf)) (\<lambda>enc.
     let s = g_sched g;
         s = s\<lparr>s_ulAllocationMap := map_emplace enc \<lparr>se_totUlSym = 0, se_ulAllocations = []\<rparr> (s_ulAllocationMap s)\<rparr>;
         slot = (SlotAllocInfo snfSf)\<lparr>slot_type := DL\<rparr> in
     bindL (PrependCtrlSym (s_bandwidth s) 0 (s_dlCtrlSymbols s) DL_DCI []) (\<lambda>(allocs, _).
     let slot = slot\<lparr>slot_varTtiAllocInfo := allocs, slot_numSymAlloc := ucast (s_dlCtrlSymbols s)\<rparr> in
     bindL (if slotType = SlotS then
              bindL (AppendCtrlSym (s_bandwidth s) (ucast (e_symbolsPerSlot (ge_env E) - 1)) (s_ulCtrlSymbols s) UL_DCI
                       (slot_varTtiAllocInfo slot)) (\<lambda>(allocs, _).
              bindL (Some (map_deref enc (s_ulAllocationMap s))) (\<lambda>u.
                Some (Inr (s\<lparr>s_ulAllocationMap := AList.update enc (u\<lparr>se_totUlSym := se_totUlSym u + s_ulCtrlSymbols s\<rparr>)
                               (s_ulAllocationMap s)\<rparr>,
                           slot\<lparr>slot_varTtiAllocInfo := allocs,
                                slot_numSymAlloc := slot_numSymAlloc slot + ucast (s_ulCtrlSymbols s)\<rparr>))))
            else Some (Inr (s, slot))) (\<lambda>(s, slot).
     let rar = map rach_rnti (s_rachList s); s = s\<lparr>s_rachList := []\<rparr> in
     bindL (Some (ComputeActiveDlHarq (SortDlHarq (ge_sortHarq E) (s_ueMap s)) (s_ueMap s) dlHarqFeedback)) (\<lambda>activeDlHarq.
     bindL (Some (map_deref enc (s_ulAllocationMap s))) (\<lambda>u.
     bindL (DoScheduleDl E (g\<lparr>g_sched := s\<rparr>) dlHarqFeedback activeDlHarq (ComputeActiveDlUe (g_extra g) (s_ueMap s))
              (se_totUlSym u) slot) (\<lambda>(g, slot, _).
     let s = g_sched g;
         s = (if se_totUlSym u \<le> s_ulCtrlSymbols s then s\<lparr>s_ulAllocationMap := AList.delete enc (s_ulAllocationMap s)\<rparr>
              else s) in
     Some (Inr (g\<lparr>g_sched := s\<rparr>, \<lparr>sd_slotAllocInfo = slot, sd_buildRarList = rar\<rparr>))))))))"

definition DoSchedDlTriggerReq :: "('r, 'p) gnb_env \<Rightarrow> ('r, 'p) gnb \<Rightarrow> sfnsf \<Rightarrow> LteNrTddSlotType \<Rightarrow> DlHarqInfo list \<Rightarrow>
    (('r, 'p) gnb \<times> slot_decision) res option" where
  "DoSchedDlTriggerReq E g snfSf slotType dlHarqInfoList =
     bindL (Some (dl_harq_phase (ge_env E) (g_sched g) dlHarqInfoList)) (\<lambda>(s, dlHarqFeedback).
       ScheduleDl E (g\<lparr>g_sched := s\<rparr>) snfSf slotType dlHarqFeedback)"

subsection \<open>Uplink\<close>

text \<open>The symbols of the slot that the uplink takes, by starting symbol, and the data allocations for the CQI reports.\<close>

definition sym_to_al :: "VarTtiAllocInfo list \<Rightarrow> u32 list res" where
  "sym_to_al allocs =
     foldE (\<lambda>symToAl alloc.
       let d = tti_dci alloc in
       if dci_format d = UL_DCI then
         defined_if (unat (dci_symStart d) < length symToAl) (Inr (symToAl[unat (dci_symStart d) := ucast (dci_numSym d)]))
       else Inr symToAl) (replicate 15 0) allocs"

definition data_allocs :: "VarTtiAllocInfo list \<Rightarrow> AllocElem list res" where
  "data_allocs allocs =
     foldE (\<lambda>allocations alloc.
       let d = tti_dci alloc in
       if dci_format d = UL_DCI \<and> dci_type d = DATA then
         bindE (vec_at (dci_tbSize d) 0) (\<lambda>tbs. bindE (vec_at (dci_mcs d) 0) (\<lambda>mcs.
           Inr (allocations @ [\<lparr>ae_rnti = dci_rnti d, ae_tbs = tbs, ae_symStart = dci_symStart d, ae_numSym = dci_numSym d,
                                ae_mcs = mcs, ae_rbgMask = dci_rbgBitmask d\<rparr>])))
       else Inr allocations) [] allocs"

definition account_ul :: "u64 \<Rightarrow> u8 \<Rightarrow> u8 \<Rightarrow> VarTtiAllocInfo list \<Rightarrow> 'r sched \<Rightarrow> 'r sched res" where
  "account_ul enc dataSymPerSlot ulSymAvail allocs s =
     bindE (sym_to_al allocs) (\<lambda>symToAl.
     bindE (data_allocs allocs) (\<lambda>allocations.
     bindE (map_at enc (s_ulAllocationMap s)) (\<lambda>u.
     let u = \<lparr>se_totUlSym = foldl (\<lambda>t v. ucast (ucast t + v)) (se_totUlSym u) symToAl,
              se_ulAllocations = se_ulAllocations u @ allocations\<rparr> in
     ns_assert (int (unat dataSymPerSlot) + int (unat (s_ulCtrlSymbols s)) - int (unat ulSymAvail) = int (unat (se_totUlSym u)))
     (Inr (s\<lparr>s_ulAllocationMap := AList.update enc u (s_ulAllocationMap s)\<rparr>)))))"

text \<open>The sounding symbols and the retransmissions, which come before the new data.\<close>

type_synonym 'r ul_parts = "'r sched \<times> PointInFTPlane \<times> SlotAllocInfo \<times> u8"

definition ul_sounding :: "('r, 'p) gnb_env \<Rightarrow> LteNrTddSlotType \<Rightarrow> 'r ul_parts \<Rightarrow> 'r ul_parts res" where
  "ul_sounding E ty = (\<lambda>(s, point, allocInfo, ulSymAvail).
     if s_enableSrsInFSlots s \<and> ty = SlotF \<or> s_enableSrsInUlSlots s \<and> ty = SlotUL then
       let s = s\<lparr>s_srsSlotCounter := s_srsSlotCounter s + 1\<rparr> in
       ns_assert (s_srsCtrlSymbols s \<le> ulSymAvail)
       (bindE (DoScheduleSrs (s_bandwidth s) (ge_bwpId E) (s_srsCtrlSymbols s) (s_srsSlotCounter s) (s_ueMap s) point allocInfo)
         (\<lambda>(srsSym, point, allocInfo). Inr (s, point, allocInfo, ulSymAvail - srsSym)))
     else Inr (s, point, allocInfo, ulSymAvail))"

definition ul_retransmissions :: "ActiveHarqMap \<Rightarrow> UlHarqInfo list \<Rightarrow> 'r ul_parts \<Rightarrow> 'r ul_parts res" where
  "ul_retransmissions activeUlHarq ulHarqFeedback = (\<lambda>(s, point, allocInfo, ulSymAvail).
     if activeUlHarq \<noteq> [] then
       bindE (ScheduleUlHarq (s_bandwidth s) point ulSymAvail (s_ueMap s) (s_ulHarqToRetransmit s) ulHarqFeedback allocInfo)
         (\<lambda>r.
       ns_assert (ulSymAvail \<ge> rr_used r)
       (Inr (s\<lparr>s_ueMap := rr_ueMap r, s_ulHarqToRetransmit := rr_toRetransmit r\<rparr>, rr_point r, rr_slotAlloc r,
             ulSymAvail - rr_used r)))
     else Inr (s, point, allocInfo, ulSymAvail))"

definition ul_requests :: "PointInFTPlane \<Rightarrow> u8 \<Rightarrow> 'r sched \<Rightarrow> 'r sched res" where
  "ul_requests point ulSymAvail s =
     (if ulSymAvail > 0 \<and> s_srList s \<noteq> [] then
        bindE (DoScheduleUlSr (s_scheduleMode s) (s_idealBsrMap s) point (s_srList s) (s_ueMap s)) (\<lambda>ueMap.
          Inr (s\<lparr>s_ueMap := ueMap, s_srList := []\<rparr>))
      else Inr s)"

definition DoScheduleUl :: "('r, 'p) gnb_env \<Rightarrow> ('r, 'p) gnb \<Rightarrow> UlHarqInfo list \<Rightarrow> sfnsf \<Rightarrow> SlotAllocInfo \<Rightarrow>
    LteNrTddSlotType \<Rightarrow> (('r, 'p) gnb \<times> SlotAllocInfo \<times> u8) res option" where
  "DoScheduleUl E g ulHarqFeedback ulSfn allocInfo ty =
     bindL (Some (ns_assert (length (slot_varTtiAllocInfo allocInfo) = 1) (Inr ()))) (\<lambda>_.
     let s = g_sched g;
         lastSym = ucast (e_symbolsPerSlot (ge_env E) - ucast (s_ulCtrlSymbols s)) :: u8;
         dataSymPerSlot = (if ty = SlotF then lastSym - s_dlCtrlSymbols s else lastSym) in
     bindL (Some (ComputeActiveUlHarq (s_ueMap s) ulHarqFeedback)) (\<lambda>activeUlHarq.
     bindL (Some (GetEncoding ulSfn)) (\<lambda>enc.
     let s = s\<lparr>s_ulAllocationMap := map_emplace enc \<lparr>se_totUlSym = 0, se_ulAllocations = []\<rparr> (s_ulAllocationMap s)\<rparr> in
     bindL (Some (bindE (ul_sounding E ty (s, \<lparr>pt_rbg = 0, pt_sym = lastSym\<rparr>, allocInfo, dataSymPerSlot))
                    (ul_retransmissions activeUlHarq ulHarqFeedback))) (\<lambda>(s, point, allocInfo, ulSymAvail).
     bindL (Some (ns_assert (pt_rbg point = 0) (ul_requests point ulSymAvail s))) (\<lambda>s.
     bindL (Some (ComputeActiveUlUe (s_scheduleMode s) (s_idealBsrMap s) (g_extra g) [] (s_triggerMap s) (s_ueMap s)))
       (\<lambda>(activeUlUe, triggerMap, ueMap).
     let s = s\<lparr>s_triggerMap := triggerMap, s_ueMap := ueMap\<rparr>; g = g\<lparr>g_sched := s\<rparr>;
         activeUlUe = drop_allocated (slot_varTtiAllocInfo allocInfo) activeUlUe in
     bindL (if ulSymAvail > 0 \<and> activeUlUe \<noteq> [] then
              bindL (DoScheduleUlData (ge_pol E) (ge_ulAmc E) (cell_of E s) (ge_indeterminate E) triggerMap (ofdma_of E g)
                       (g_maxBuffer g) (g_spectralEfficiencyMap g) point (ucast ulSymAvail) activeUlUe allocInfo) (\<lambda>r.
              Some (Inr ((write_back (ur_active r) g)
                           \<lparr>g_maxBuffer := ur_maxBuffer r, g_proactiveBSR := o_proactive (ur_ofdma r),
                            g_confidentBSR := o_confident (ur_ofdma r),
                            g_spectralEfficiencyMap := snd (snd (ur_traces r))\<rparr>,
                         ur_slot r, ulSymAvail - ur_usedSym r)))
            else Some (Inr (g, allocInfo, ulSymAvail))) (\<lambda>(g, allocInfo, ulSymAvail).
     bindL (Some (account_ul enc dataSymPerSlot ulSymAvail (slot_varTtiAllocInfo allocInfo) (g_sched g))) (\<lambda>s.
       Some (Inr (g\<lparr>g_sched := s\<rparr>, allocInfo, dataSymPerSlot - ulSymAvail))))))))))"

definition ScheduleUl :: "('r, 'p) gnb_env \<Rightarrow> ('r, 'p) gnb \<Rightarrow> sfnsf \<Rightarrow> LteNrTddSlotType \<Rightarrow> UlHarqInfo list \<Rightarrow>
    (('r, 'p) gnb \<times> slot_decision) res option" where
  "ScheduleUl E g snfSf slotType ulHarqFeedback =
     (let s = g_sched g; slot = (SlotAllocInfo snfSf)\<lparr>slot_type := UL\<rparr> in
      bindL (AppendCtrlSym (s_bandwidth s) (ucast (e_symbolsPerSlot (ge_env E) - 1)) (s_ulCtrlSymbols s) UL_DCI [])
        (\<lambda>(allocs, _).
      bindL (DoScheduleUl E g ulHarqFeedback snfSf
               (slot\<lparr>slot_varTtiAllocInfo := allocs, slot_numSymAlloc := ucast (s_ulCtrlSymbols s)\<rparr>) slotType)
        (\<lambda>(g, slot, _). Some (Inr (g, \<lparr>sd_slotAllocInfo = slot, sd_buildRarList = []\<rparr>)))))"

definition DoSchedUlTriggerReq :: "('r, 'p) gnb_env \<Rightarrow> ('r, 'p) gnb \<Rightarrow> sfnsf \<Rightarrow> LteNrTddSlotType \<Rightarrow> UlHarqInfo list \<Rightarrow>
    (('r, 'p) gnb \<times> slot_decision) res option" where
  "DoSchedUlTriggerReq E g snfSf slotType ulHarqInfoList =
     bindL (Some (ul_harq_phase (ge_env E) (g_sched g) ulHarqInfoList)) (\<lambda>(s, ulHarqFeedback).
       ScheduleUl E (g\<lparr>g_sched := s\<rparr>) snfSf slotType ulHarqFeedback)"

end
