(* ===== verification/SchedPlace.thy ===== *)
theory SchedPlace
  imports SchedSlot
begin

text \<open>
  Where new uplink data goes. The RBGs that \<open>AssignULRBG\<close> hands out always find a place in the masks that
  \<open>CreateUlDci\<close> builds; every DCI gets a free process and its bytes go to the channels with data; DCIs never overlap.
\<close>

subsection \<open>Masks\<close>

text \<open>The usable RBGs of a mask from a starting point on; the mask begins with number \<open>i\<close>.\<close>

fun avail :: "nat \<Rightarrow> nat \<Rightarrow> u8 list \<Rightarrow> nat" where
  "avail i start [] = 0"
| "avail i start (b # r) = (if i \<ge> start \<and> b = 1 then Suc (avail (Suc i) start r) else avail (Suc i) start r)"

lemma avail_below: "s \<le> i \<Longrightarrow> t \<le> i \<Longrightarrow> avail i s bs = avail i t bs"
  by (induction bs arbitrary: i) auto

lemma avail_0: "avail i 0 bs = count_list bs 1"
  by (induction bs arbitrary: i) auto

text \<open>What \<open>take_rbgs\<close> does when there are enough.\<close>

lemma take_rbgs_none: "\<exists>m. take_rbgs i start 0 l bs = (m, 0, l) \<and> length m = length bs \<and> set m \<subseteq> {0}"
proof (induction bs arbitrary: i)
  case Nil
  then show ?case by simp
next
  case (Cons b bs)
  from Cons.IH[of "Suc i"] obtain m where "take_rbgs (Suc i) start 0 l bs = (m, 0, l)" "length m = length bs" "set m \<subseteq> {0}"
    by blast
  then show ?case by (intro exI[of _ "0 # m"]) simp
qed

lemma take_rbgs_some:
  assumes "0 < n" and "n \<le> avail i start bs"
  shows "\<exists>m l'. take_rbgs i start n l bs = (m, 0, l') \<and> length m = length bs \<and> set m \<subseteq> {0, 1} \<and> count_list m 1 = n \<and>
    i \<le> l' \<and> start \<le> l' \<and> l' < i + length bs \<and> avail i (Suc l') bs + n = avail i start bs \<and>
    (\<forall>j < length bs. m ! j = 1 \<longrightarrow> bs ! j = 1 \<and> start \<le> i + j \<and> i + j \<le> l')"
  using assms
proof (induction bs arbitrary: i n l)
  case Nil
  then show ?case by simp
next
  case (Cons b bs)
  show ?case
  proof (cases "i \<ge> start \<and> b = 1")
    case False
    with Cons.prems have "n \<le> avail (Suc i) start bs" by auto
    from Cons.IH[OF Cons.prems(1) this, of l] obtain m l' where m:
      "take_rbgs (Suc i) start n l bs = (m, 0, l')" "length m = length bs" "set m \<subseteq> {0, 1}" "count_list m 1 = n"
      "Suc i \<le> l'" "start \<le> l'" "l' < Suc i + length bs" "avail (Suc i) (Suc l') bs + n = avail (Suc i) start bs"
      "\<forall>j < length bs. m ! j = 1 \<longrightarrow> bs ! j = 1 \<and> start \<le> Suc i + j \<and> Suc i + j \<le> l'"
      by blast
    have "\<forall>j < length (b # bs). (0 # m) ! j = 1 \<longrightarrow> (b # bs) ! j = 1 \<and> start \<le> i + j \<and> i + j \<le> l'"
      using m(9) by (auto simp: nth_Cons split: nat.splits)
    then show ?thesis using m(1-8) False by (intro exI[of _ "0 # m"] exI[of _ l']) auto
  next
    case True
    then have b: "i \<ge> start" "b = 1" by simp_all
    show ?thesis
    proof (cases "n = 1")
      case n1: True
      from take_rbgs_none[of "Suc i" start i bs] obtain m where m:
        "take_rbgs (Suc i) start 0 i bs = (m, 0, i)" "length m = length bs" "set m \<subseteq> {0}" by blast
      have z: "m ! j = 0" if "j < length bs" for j using m(2,3) that by (metis nth_mem singletonD subsetD)
      have "count_list m 1 = 0" using m(3) by (auto simp: count_list_0_iff)
      moreover have "avail (Suc i) (Suc i) bs = avail (Suc i) start bs" using b(1) by (intro avail_below) simp_all
      moreover have "\<forall>j < length (b # bs). (1 # m) ! j = 1 \<longrightarrow> (b # bs) ! j = 1 \<and> start \<le> i + j \<and> i + j \<le> i"
        using b z by (auto simp: nth_Cons split: nat.splits)
      ultimately show ?thesis using m b n1 by (intro exI[of _ "1 # m"] exI[of _ i]) auto
    next
      case False
      then have n: "0 < n - 1" "n - 1 \<le> avail (Suc i) start bs" using Cons.prems b by auto
      from Cons.IH[OF n, of i] obtain m l' where m:
        "take_rbgs (Suc i) start (n - 1) i bs = (m, 0, l')" "length m = length bs" "set m \<subseteq> {0, 1}" "count_list m 1 = n - 1"
        "Suc i \<le> l'" "start \<le> l'" "l' < Suc i + length bs" "avail (Suc i) (Suc l') bs + (n - 1) = avail (Suc i) start bs"
        "\<forall>j < length bs. m ! j = 1 \<longrightarrow> bs ! j = 1 \<and> start \<le> Suc i + j \<and> Suc i + j \<le> l'"
        by blast
      have "\<forall>j < length (b # bs). (1 # m) ! j = 1 \<longrightarrow> (b # bs) ! j = 1 \<and> start \<le> i + j \<and> i + j \<le> l'"
        using m(5,9) b by (auto simp: nth_Cons split: nat.splits)
      then show ?thesis using m(1-8) b n by (intro exI[of _ "1 # m"] exI[of _ l']) auto
    qed
  qed
qed

lemma count_masks: "set (m :: u8 list) \<subseteq> {0, 1} \<Longrightarrow> count_list m 0 + count_list m 1 = length m"
  by (induction m) auto

subsection \<open>One DCI\<close>

definition new_ul_dci :: "u16 \<Rightarrow> u8 list \<Rightarrow> u16 \<Rightarrow> nat \<Rightarrow> nat \<Rightarrow> nat \<Rightarrow> dci \<Rightarrow> bool" where
  "new_ul_dci bw notched rnti symEnd n r d \<longleftrightarrow> dci_rnti d = rnti \<and> dci_format d = UL_DCI \<and> dci_type d = DATA \<and>
     unat (dci_symStart d) = symEnd - n \<and> unat (dci_numSym d) = n \<and> dci_rv d = [0] \<and> length (dci_tbSize d) = 1 \<and>
     length (dci_mcs d) = 1 \<and> length (dci_rbgBitmask d) = unat bw \<and> count_list (dci_rbgBitmask d) 1 = r \<and>
     (\<forall>j < unat bw. dci_rbgBitmask d ! j = 1 \<longrightarrow> rbg_mask bw notched ! j = 1)"

lemma CreateUlDci_places:
  fixes n :: u32
  assumes n: "n \<noteq> 0" "unat n \<le> unat (pt_sym pt)" and r: "0 < unat (ue_ulRBG ue) div unat n"
    and mask: "length (rbg_mask bw notched) = unat bw"
    and room: "unat (ue_ulRBG ue) div unat n \<le> avail 0 (unat (pt_rbg pt)) (rbg_mask bw notched)"
  obtains (none) "CreateUlDci amc bw notched b pt ue n = Inr (None, pt)"
    | (some) d pt' where "CreateUlDci amc bw notched b pt ue n = Inr (Some d, pt')"
      "new_ul_dci bw notched (ue_rnti ue) (unat (pt_sym pt)) (unat n) (unat (ue_ulRBG ue) div unat n) d"
      "pt_sym pt' = pt_sym pt" "unat (pt_rbg pt) \<le> unat (pt_rbg pt')"
      "avail 0 (unat (pt_rbg pt')) (rbg_mask bw notched) + unat (ue_ulRBG ue) div unat n =
        avail 0 (unat (pt_rbg pt)) (rbg_mask bw notched)"
      "\<forall>j < unat bw. dci_rbgBitmask d ! j = 1 \<longrightarrow> unat (pt_rbg pt) \<le> j \<and> j < unat (pt_rbg pt')"
proof -
  let ?r = "unat (ue_ulRBG ue) div unat n" and ?m = "rbg_mask bw notched" and ?p = "unat (pt_rbg pt)"
  let ?tbs = "amc (ue_ulMcs ue) (ue_ulRBG ue * ue_numRbPerRbg ue)"
  obtain m l where m: "take_rbgs 0 ?p ?r ?p ?m = (m, 0, l)" "length m = length ?m" "set m \<subseteq> {0, 1}" "count_list m 1 = ?r"
      "?p \<le> l" "l < length ?m" "avail 0 (Suc l) ?m + ?r = avail 0 ?p ?m"
      "\<forall>j < length ?m. m ! j = 1 \<longrightarrow> ?m ! j = 1 \<and> ?p \<le> j \<and> j \<le> l"
    using take_rbgs_some[OF r room, of ?p] by auto
  have div: "unat (ue_ulRBG ue div n) = ?r" by (rule unat_div)
  have le: "n \<le> ucast (pt_sym pt)" using n(2) by (simp add: word_le_nat_alt)
  have zeros: "count_list m 0 \<noteq> unat bw" using count_masks[OF m(3)] m(2,4) mask r by linarith
  have small: "Suc l < 2 ^ 32" using m(6) mask u_lt[of bw] by simp
  have "of_nat l + 1 = (of_nat (Suc l) :: u32)" by simp
  then have l: "unat (of_nat l + 1 :: u32) = Suc l"
    using small by (simp only: unsigned_of_nat) (simp add: take_bit_nat_eq_self_iff)
  have lt8: "unat n < 2 ^ 8" using n(2) u_lt[of "pt_sym pt"] by simp
  have n8: "unat (ucast n :: u8) = unat n" using lt8 by (simp add: unsigned_ucast_eq take_bit_nat_eq_self_iff)
  have s8: "unat (pt_sym pt - ucast n) = unat (pt_sym pt) - unat n"
    using n(2) n8 by (subst unat_sub) (simp_all add: word_le_nat_alt)
  let ?d = "(Dci_data (ue_rnti ue) UL_DCI (pt_sym pt - ucast n) (ucast n) [ue_ulMcs ue] [?tbs] [1] [0] DATA b 1)
    \<lparr>dci_rbgBitmask := m\<rparr>"
  show thesis
  proof (cases "?tbs < 12")
    case True
    then show thesis by (intro none) (simp add: CreateUlDci_def)
  next
    case False
    show thesis
    proof (rule some[of ?d "pt\<lparr>pt_rbg := of_nat l + 1\<rparr>"])
      show "CreateUlDci amc bw notched b pt ue n = Inr (Some ?d, pt\<lparr>pt_rbg := of_nat l + 1\<rparr>)"
        using False n(1) mask m(1) zeros le by (simp add: CreateUlDci_def Let_def div)
      show "new_ul_dci bw notched (ue_rnti ue) (unat (pt_sym pt)) (unat n) ?r ?d"
        using m(2,4,8) mask s8 n8 by (simp add: new_ul_dci_def Dci_data_def)
    qed (use m l mask in \<open>simp_all add: Dci_data_def less_Suc_eq_le\<close>)
  qed
qed

subsection \<open>One process\<close>

lemma store_process_ok:
  assumes wf: "harq_wf v" and room: "CanInsert v" and rv: "dci_rv d \<noteq> []" "\<forall>r \<in> set (dci_rv d). r < 4"
  obtains v' i where "store_process v d = Inr (v', d\<lparr>dci_harqProcess := i\<rparr>)" "harq_wf v'" "content v i = None"
    "content v' = (content v)(i \<mapsto> HarqProcess True WAITING_FEEDBACK 0 (d\<lparr>dci_harqProcess := i\<rparr>))"
proof -
  let ?p = "HarqProcess True WAITING_FEEDBACK 0 d"
  have "m_active ?p" "m_usedSize v < m_maxSize v" using room by (simp_all add: HarqProcess_def CanInsert_iff)
  then obtain v1 i where v1: "hv_Insert v 0 ?p = Inr (v1, i, True)" "hv_wf v1" "content v i = None"
      "content v1 = (content v)(i \<mapsto> ?p)"
    using hv_Insert_room[of v ?p 0] wf by (auto simp: harq_wf_def)
  then have m: "hv_map v1 = AList.update i ?p (hv_map v)"
    by (auto simp: hv_Insert_def hv_Set_def Let_def res_simps split: if_splits)
  have "proc_wf ?p" using rv by (simp add: proc_wf_def HarqProcess_def)
  then have wf1: "harq_wf v1"
    using v1(2) wf set_AList_update[of i ?p "hv_map v"] by (auto simp: harq_wf_def m)
  have i: "map_of (hv_map v1) i = Some ?p" by (simp add: m map_of_update)
  let ?d = "d\<lparr>dci_harqProcess := i\<rparr>"
  let ?q = "?p\<lparr>m_dciElement := Some ?d\<rparr>"
  have q: "?q = HarqProcess True WAITING_FEEDBACK 0 ?d" by (simp add: HarqProcess_def)
  show thesis
  proof (rule that)
    show "store_process v d = Inr (hv_Set v1 i ?q, ?d)"
      using room v1(1) i by (simp add: store_process_def hv_Get_Some Let_def)
    show "harq_wf (hv_Set v1 i ?q)"
      by (rule harq_wf_Set[OF wf1 i]) (use rv in \<open>simp_all add: HarqProcess_def proc_wf_def\<close>)
    show "content (hv_Set v1 i ?q) = (content v)(i \<mapsto> HarqProcess True WAITING_FEEDBACK 0 ?d)"
      using v1(4) unfolding q by (auto simp: content_def hv_Set_def map_of_update fun_eq_iff HarqProcess_def split: if_splits)
    show "content v i = None" by (rule v1(3))
  qed
qed

subsection \<open>The bytes of a grant\<close>

text \<open>Groups under their ids, channels under theirs, and something to send.\<close>

definition has_data :: "(u8 \<times> lcg) list \<Rightarrow> bool" where
  "has_data m \<longleftrightarrow> distinct (map fst m) \<and> (\<forall>(k, g) \<in> set m. lcg_wf g) \<and>
     (\<exists>(k, g) \<in> set m. \<exists>(i, c) \<in> set (lcg_lcMap g). 0 < lc_GetTotalSize c)"

lemma active_lcs_ok:
  assumes "set is \<subseteq> fst ` set (lcg_lcMap g)"
  shows "\<exists>js. active_lcs g is = Inr js \<and> length js \<le> length is \<and>
    set js = {i \<in> set is. \<exists>c. map_of (lcg_lcMap g) i = Some c \<and> 0 < lc_GetTotalSize c}"
  using assms
proof (induction "is")
  case Nil
  then show ?case by simp
next
  case (Cons i "is")
  then obtain c where c: "map_of (lcg_lcMap g) i = Some c"
    by (cases "map_of (lcg_lcMap g) i") (auto simp: map_of_eq_None_iff)
  moreover from c have "lcg_lcMap g \<noteq> []" by auto
  ultimately have sz: "GetTotalSizeOfLC g i = Inr (lc_GetTotalSize c)" by (simp add: GetTotalSizeOfLC_def)
  obtain js where js: "active_lcs g is = Inr js" "length js \<le> length is"
      "set js = {i \<in> set is. \<exists>c. map_of (lcg_lcMap g) i = Some c \<and> 0 < lc_GetTotalSize c}"
    using Cons by auto
  show ?case
  proof (cases "0 < lc_GetTotalSize c")
    case True
    then show ?thesis using sz js c by (intro exI[of _ "i # js"]) auto
  next
    case False
    then show ?thesis using sz js c by (intro exI[of _ js]) auto
  qed
qed

lemma active_channels_ok:
  shows "\<exists>cs. active_channels m = Inr cs \<and> length cs \<le> sum_list (map (\<lambda>(k, g). length (lcg_lcMap g)) m) \<and>
    set cs = {(k, i). \<exists>g. (k, g) \<in> set m \<and> (\<exists>c. map_of (lcg_lcMap g) i = Some c \<and> 0 < lc_GetTotalSize c)}"
proof (induction m)
  case Nil
  then show ?case by simp
next
  case (Cons x m)
  obtain k g where x: "x = (k, g)" by fastforce
  obtain js where js: "active_lcs g (GetLCId g) = Inr js" "length js \<le> length (lcg_lcMap g)"
      "set js = {i \<in> set (GetLCId g). \<exists>c. map_of (lcg_lcMap g) i = Some c \<and> 0 < lc_GetTotalSize c}"
    using active_lcs_ok[of "GetLCId g" g] by (auto simp: GetLCId_def)
  have js': "set js = {i. \<exists>c. map_of (lcg_lcMap g) i = Some c \<and> 0 < lc_GetTotalSize c}"
    unfolding js(3) by (auto simp: GetLCId_def dest: map_of_SomeD simp: rev_image_eqI)
  obtain cs where cs: "active_channels m = Inr cs" "length cs \<le> sum_list (map (\<lambda>(k, g). length (lcg_lcMap g)) m)"
      "set cs = {(k, i). \<exists>g. (k, g) \<in> set m \<and> (\<exists>c. map_of (lcg_lcMap g) i = Some c \<and> 0 < lc_GetTotalSize c)}"
    using Cons.IH by blast
  have "set (map (Pair k) js @ cs) =
      {(k, i). \<exists>g. (k, g) \<in> set (x # m) \<and> (\<exists>c. map_of (lcg_lcMap g) i = Some c \<and> 0 < lc_GetTotalSize c)}"
    using js' cs(3) by (auto simp: x)
  then show ?case using js(1,2) cs(1,2) by (intro exI[of _ "map (Pair k) js @ cs"]) (simp add: x)
qed

lemma length_u8_keys:
  assumes "distinct (map fst (m :: (u8 \<times> 'a) list))"
  shows "length m \<le> 256"
proof -
  have "length m = card (set (map fst m))" using distinct_card[OF assms] by simp
  also have "\<dots> \<le> card (UNIV :: u8 set)" by (rule card_mono) simp_all
  finally show ?thesis by (simp add: card_word)
qed

lemma AssignBytesToLC_some:
  assumes "has_data m"
  shows "\<exists>as. AssignBytesToLC m tbs = Inr as \<and> as \<noteq> [] \<and>
    (\<forall>a \<in> set as. \<exists>g. (as_lcg a, g) \<in> set m \<and> as_lcId a \<in> fst ` set (lcg_lcMap g))"
proof -
  obtain cs where cs: "active_channels m = Inr cs" "length cs \<le> sum_list (map (\<lambda>(k, g). length (lcg_lcMap g)) m)"
      "set cs = {(k, i). \<exists>g. (k, g) \<in> set m \<and> (\<exists>c. map_of (lcg_lcMap g) i = Some c \<and> 0 < lc_GetTotalSize c)}"
    using active_channels_ok[of m] by blast
  obtain k g i c where kg: "(k, g) \<in> set m" "(i, c) \<in> set (lcg_lcMap g)" "0 < lc_GetTotalSize c"
    using assms by (auto simp: has_data_def)
  moreover have "lcg_wf g" using assms kg(1) by (auto simp: has_data_def)
  ultimately have "(k, i) \<in> set cs" unfolding cs(3) by (auto simp: lcg_wf_def)
  then have ne: "cs \<noteq> []" by auto
  have "sum_list (map (\<lambda>(k, g). length (lcg_lcMap g)) m) \<le> sum_list (map (\<lambda>_. 256) m)"
    by (rule sum_list_mono) (use assms in \<open>auto simp: has_data_def lcg_wf_def intro: length_u8_keys\<close>)
  also have "\<dots> = 256 * length m" by (simp add: sum_list_triv)
  also have "\<dots> \<le> 256 * 256" using assms length_u8_keys[of m] by (simp add: has_data_def)
  finally have "length cs < 2 ^ 32" using cs(2) by simp
  then have "unat (of_nat (length cs) :: u32) = length cs" by (simp add: unsigned_of_nat take_bit_nat_eq_self_iff)
  then have "(of_nat (length cs) :: u32) \<noteq> 0" using ne by (metis length_0_conv unsigned_0)
  moreover have "\<exists>g. (fst y, g) \<in> set m \<and> snd y \<in> fst ` set (lcg_lcMap g)" if "y \<in> set cs" for y
    using that unfolding cs(3) by (auto dest!: map_of_SomeD simp: rev_image_eqI)
  ultimately show ?thesis using ne cs(1) by (auto simp: AssignBytesToLC_def Let_def case_prod_beta)
qed

lemma ul_bytes_ok:
  assumes "distinct (map fst m)"
    and "\<forall>a \<in> set as. \<exists>g. (as_lcg a, g) \<in> set m \<and> as_lcId a \<in> fst ` set (lcg_lcMap g)"
  shows "\<exists>m'. foldE ul_bytes m as = Inr m'"
  using assms
proof (induction "as" arbitrary: m)
  case Nil
  then show ?case by simp
next
  case (Cons a "as")
  obtain g where g: "(as_lcg a, g) \<in> set m" "as_lcId a \<in> fst ` set (lcg_lcMap g)" using Cons.prems(2) by auto
  have mg: "map_of m (as_lcg a) = Some g" using g(1) Cons.prems(1) by simp
  obtain c where c: "map_of (lcg_lcMap g) (as_lcId a) = Some c"
    using g(2) by (cases "map_of (lcg_lcMap g) (as_lcId a)") (auto simp: map_of_eq_None_iff)
  let ?g = "g\<lparr>lcg_lcMap := AList.update (as_lcId a) (lc_AssignedData c (as_lcId a) (as_bytes a) ''UL'') (lcg_lcMap g)\<rparr>"
  let ?m = "AList.update (as_lcg a) ?g m"
  have "lcg_lcMap g \<noteq> []" using c by auto
  then have step: "ul_bytes m a = Inr ?m" using mg c by (simp add: ul_bytes_def AssignedData_def)
  have keys: "distinct (map fst ?m)" using Cons.prems(1) mg by (simp add: keys_AList_update)
  have "\<exists>h. (as_lcg b, h) \<in> set ?m \<and> as_lcId b \<in> fst ` set (lcg_lcMap h)" if b: "b \<in> set as" for b
  proof -
    obtain h where h: "(as_lcg b, h) \<in> set m" "as_lcId b \<in> fst ` set (lcg_lcMap h)"
      using Cons.prems(2) b by (meson list.set_intros(2))
    have mh: "map_of m (as_lcg b) = Some h" using h(1) Cons.prems(1) by simp
    show ?thesis
    proof (cases "as_lcg b = as_lcg a")
      case True
      then have "map_of ?m (as_lcg b) = Some ?g" by (simp add: map_of_update)
      moreover have "as_lcId b \<in> fst ` set (lcg_lcMap ?g)"
      proof -
        have "map fst (lcg_lcMap ?g) = map fst (lcg_lcMap g)" using c by (simp add: keys_AList_update)
        then have "fst ` set (lcg_lcMap ?g) = fst ` set (lcg_lcMap g)" by (metis list.set_map)
        moreover have "h = g" using mh mg True by simp
        ultimately show ?thesis using h(2) by simp
      qed
      ultimately show ?thesis by (blast dest: map_of_SomeD)
    next
      case False
      then have "map_of ?m (as_lcg b) = Some h" using mh by (simp add: map_of_update)
      then show ?thesis using h(2) by (blast dest: map_of_SomeD)
    qed
  qed
  then show ?case using Cons.IH[OF keys] step by simp
qed

subsection \<open>One UE, one beam\<close>

text \<open>
  What a UE may leave the placement with: nothing new, or one DCI stored as a process in a free place.
\<close>

definition kept :: "'p entry \<Rightarrow> 'p entry \<Rightarrow> bool" where
  "kept e e' \<longleftrightarrow> ue_rnti (fst (fst e')) = ue_rnti (fst (fst e)) \<and> ue_ulHarq (fst (fst e')) = ue_ulHarq (fst (fst e))"

definition granted :: "cell \<Rightarrow> nat \<Rightarrow> nat \<Rightarrow> 'p entry \<Rightarrow> 'p entry \<Rightarrow> VarTtiAllocInfo \<Rightarrow> bool" where
  "granted c symEnd n e e' a \<longleftrightarrow> (let ue = fst (fst e); ue' = fst (fst e'); d = tti_dci a in
     ue_rnti ue' = ue_rnti ue \<and> new_ul_dci (c_bw c) (c_ulNotched c) (ue_rnti ue) symEnd n (unat (ue_ulRBG ue) div n) d \<and>
     harq_wf (ue_ulHarq ue') \<and> content (ue_ulHarq ue) (dci_harqProcess d) = None \<and>
     content (ue_ulHarq ue') =
       (content (ue_ulHarq ue))(dci_harqProcess d \<mapsto> HarqProcess True WAITING_FEEDBACK 0 d))"

text \<open>A beam as a whole: every UE in turn, the newest allocation in front.\<close>

inductive placed :: "cell \<Rightarrow> nat \<Rightarrow> nat \<Rightarrow> 'p entry list \<Rightarrow> 'p entry list \<Rightarrow> VarTtiAllocInfo list \<Rightarrow> bool"
  for c symEnd n where
  placed_none: "placed c symEnd n [] [] []"
| placed_keep: "kept e e' \<Longrightarrow> placed c symEnd n es es' news \<Longrightarrow> placed c symEnd n (e # es) (e' # es') news"
| placed_grant: "granted c symEnd n e e' a \<Longrightarrow> placed c symEnd n es es' news \<Longrightarrow>
    placed c symEnd n (e # es) (e' # es') (news @ [a])"

definition placeable :: "UeInfo \<Rightarrow> bool" where
  "placeable ue \<longleftrightarrow> harq_wf (ue_ulHarq ue) \<and> CanInsert (ue_ulHarq ue) \<and> has_data (ue_ulLCG ue)"

text \<open>The counters of a beam whose DCIs all start at the same symbol.\<close>

definition beam_counts :: "u8 \<Rightarrow> u32 \<Rightarrow> placing \<Rightarrow> bool" where
  "beam_counts y n s \<longleftrightarrow> pl_symbStartDci s = (if pl_assigned s then [y] else []) \<and>
     pl_allocSym s = (if pl_assigned s then n else 0)"

lemma place_ul_ue_ok:
  fixes n :: u32 and e :: "'p entry"
  assumes n: "n \<noteq> 0" "unat n \<le> unat (pt_sym (pl_point s))" and dvd: "unat n dvd unat (ue_ulRBG (fst (fst e)))"
    and mask: "length (rbg_mask (c_bw c) (c_ulNotched c)) = unat (c_bw c)"
    and room: "unat (ue_ulRBG (fst (fst e))) div unat n \<le> avail 0 (unat (pt_rbg (pl_point s))) (rbg_mask (c_bw c) (c_ulNotched c))"
    and ready: "placeable (fst (fst e))" and counts: "beam_counts (pt_sym (pl_point s) - ucast n) n s"
  obtains (keep) e' where "place_ul_ue pol amc c n s e = Inr (s, e')" "kept e e'"
    | (grant) e' a s' where "place_ul_ue pol amc c n s e = Inr (s', e')"
      "granted c (unat (pt_sym (pl_point s))) (unat n) e e' a"
      "pl_slot s' = (pl_slot s)\<lparr>slot_varTtiAllocInfo := a # slot_varTtiAllocInfo (pl_slot s)\<rparr>"
      "pt_sym (pl_point s') = pt_sym (pl_point s)" "unat (pt_rbg (pl_point s)) \<le> unat (pt_rbg (pl_point s'))"
      "avail 0 (unat (pt_rbg (pl_point s'))) (rbg_mask (c_bw c) (c_ulNotched c)) + unat (ue_ulRBG (fst (fst e))) div unat n =
        avail 0 (unat (pt_rbg (pl_point s))) (rbg_mask (c_bw c) (c_ulNotched c))"
      "\<forall>j < unat (c_bw c). dci_rbgBitmask (tti_dci a) ! j = 1 \<longrightarrow>
        unat (pt_rbg (pl_point s)) \<le> j \<and> j < unat (pt_rbg (pl_point s'))"
      "pl_assigned s'" "beam_counts (pt_sym (pl_point s) - ucast n) n s'"
proof -
  obtain ue x buf where e: "e = ((ue, x), buf)" by (metis prod.exhaust)
  show thesis
  proof (cases "ue_ulRBG ue = 0")
    case True
    then show thesis using keep[of e] by (simp add: e place_ul_ue_def kept_def)
  next
    case False
    then have "0 < unat (ue_ulRBG ue)" by (simp add: unat_gt_0)
    then have r: "0 < unat (ue_ulRBG ue) div unat n" using dvd n(1) by (simp add: e div_greater_zero_iff dvd_imp_le unat_gt_0)
    have room': "unat (ue_ulRBG ue) div unat n \<le> avail 0 (unat (pt_rbg (pl_point s))) (rbg_mask (c_bw c) (c_ulNotched c))"
      using room by (simp add: e)
    show thesis
    proof (cases rule: CreateUlDci_places[OF n r mask room', of amc "c_bwpId c", case_names none some])
      case none
      have "s\<lparr>pl_point := pl_point s\<rparr> = s" by simp
      then show ?thesis using keep[of "((ResetUlMetric ue, pol_ResetUlMetric pol x), buf)"] none False
        by (simp add: e place_ul_ue_def kept_def ResetUlMetric_def)
    next
      case (some d pt')
      have ready': "harq_wf (ue_ulHarq ue)" "CanInsert (ue_ulHarq ue)" "has_data (ue_ulLCG ue)"
        using ready by (simp_all add: e placeable_def)
      have rv: "dci_rv d = [0]" "length (dci_tbSize d) = 1" "unat (dci_symStart d) = unat (pt_sym (pl_point s)) - unat n"
          "unat (dci_numSym d) = unat n"
        using some(2) by (simp_all add: new_ul_dci_def)
      obtain v' i where v: "store_process (ue_ulHarq ue) d = Inr (v', d\<lparr>dci_harqProcess := i\<rparr>)" "harq_wf v'"
          "content (ue_ulHarq ue) i = None"
          "content v' = (content (ue_ulHarq ue))(i \<mapsto> HarqProcess True WAITING_FEEDBACK 0 (d\<lparr>dci_harqProcess := i\<rparr>))"
        by (rule store_process_ok[OF ready'(1,2), of d]) (simp_all add: rv)
      let ?d = "d\<lparr>dci_harqProcess := i\<rparr>"
      obtain as where as: "AssignBytesToLC (ue_ulLCG ue) (dci_tbSize d ! 0) = Inr as" "as \<noteq> []"
          "\<forall>a \<in> set as. \<exists>g. (as_lcg a, g) \<in> set (ue_ulLCG ue) \<and> as_lcId a \<in> fst ` set (lcg_lcMap g)"
        using AssignBytesToLC_some[OF ready'(3)] by blast
      obtain m' where m': "foldE ul_bytes (ue_ulLCG ue) as = Inr m'"
        using ul_bytes_ok[OF _ as(3)] ready'(3) by (auto simp: has_data_def)
      let ?s = "(count_symbols d s)\<lparr>pl_point := pt'\<rparr>"
      let ?s' = "?s\<lparr>pl_slot := (pl_slot ?s)\<lparr>slot_varTtiAllocInfo := VarTtiAllocInfo ?d # slot_varTtiAllocInfo (pl_slot ?s)\<rparr>\<rparr>"
      let ?e = "((ue\<lparr>ue_ulHarq := v', ue_ulLCG := m'\<rparr>, x), buf)"
      have lt8: "unat n < 2 ^ 8" using n(2) u_lt[of "pt_sym (pl_point s)"] by simp
      then have n8: "unat (ucast n :: u8) = unat n" by (simp add: unsigned_ucast_eq take_bit_nat_eq_self_iff)
      have y: "dci_symStart d = pt_sym (pl_point s) - ucast n"
        using rv(3) n(2) n8 by (simp add: word_unat_eq_iff unat_sub word_le_nat_alt)
      have w: "ucast (dci_numSym d) = n" using rv(4) by (simp add: word_unat_eq_iff)
      show ?thesis
      proof (rule grant[of ?s' ?e "VarTtiAllocInfo ?d"])
        show "place_ul_ue pol amc c n s e = Inr (?s', ?e)"
          using False some(1) v(1) rv(2) as(1,2) m' by (simp add: e place_ul_ue_def Let_def)
        show "granted c (unat (pt_sym (pl_point s))) (unat n) e ?e (VarTtiAllocInfo ?d)"
          using some(2) v(2-4) by (simp add: e granted_def new_ul_dci_def VarTtiAllocInfo_def Let_def)
        show "beam_counts (pt_sym (pl_point s) - ucast n) n ?s'"
          using counts by (auto simp: beam_counts_def count_symbols_def Let_def y w)
        show "pl_slot ?s' = (pl_slot s)\<lparr>slot_varTtiAllocInfo := VarTtiAllocInfo ?d # slot_varTtiAllocInfo (pl_slot s)\<rparr>"
          by (simp add: count_symbols_def Let_def)
        show "pl_assigned ?s'" by (simp add: count_symbols_def Let_def)
      qed (use some(3-6) in \<open>simp_all add: e VarTtiAllocInfo_def\<close>)
    qed
  qed
qed

text \<open>The RBGs of an allocation, and the shape of the allocations of a beam.\<close>

definition rows :: "nat \<Rightarrow> nat \<Rightarrow> VarTtiAllocInfo \<Rightarrow> bool" where
  "rows lo hi a \<longleftrightarrow> snd ` cells a \<subseteq> {lo..<hi}"

lemma rows_mono: "rows lo hi a \<Longrightarrow> lo' \<le> lo \<Longrightarrow> hi \<le> hi' \<Longrightarrow> rows lo' hi' a"
  by (force simp: rows_def)

lemma rows_disjoint: "rows a b x \<Longrightarrow> rows b c y \<Longrightarrow> cells y \<inter> cells x = {}"
  by (force simp: rows_def)

lemma granted_rows:
  assumes "granted c y n e e' a"
    and "\<forall>j < unat (c_bw c). dci_rbgBitmask (tti_dci a) ! j = 1 \<longrightarrow> lo \<le> j \<and> j < hi"
  shows "rows lo hi a"
  using assms by (auto simp: rows_def granted_def new_ul_dci_def cells_def Let_def)

definition usable :: "cell \<Rightarrow> nat set" where
  "usable c = {r. r < unat (c_bw c) \<and> rbg_mask (c_bw c) (c_ulNotched c) ! r = 1}"

lemma granted_cells:
  assumes "granted c y n e e' a" and "n \<le> y"
  shows "cells a \<subseteq> {y - n..<y} \<times> usable c"
  using assms by (auto simp: granted_def new_ul_dci_def cells_def usable_def Let_def)

lemma placed_granted:
  assumes "placed c y n es es' news" and "a \<in> set news"
  shows "\<exists>e e'. e \<in> set es \<and> granted c y n e e' a"
  using assms
proof (induction rule: placed.induct)
  case placed_none
  then show ?case by simp
next
  case (placed_keep e e' es es' news)
  then show ?case by (meson list.set_intros(2))
next
  case (placed_grant e e' b es es' news)
  then show ?case by (cases "a = b") (auto simp del: split_paired_Ex intro: exI[of _ e] exI[of _ e'])
qed

lemma place_ues_ok:
  fixes n :: u32 and ues :: "'p entry list"
  assumes n: "n \<noteq> 0" and mask: "length (rbg_mask (c_bw c) (c_ulNotched c)) = unat (c_bw c)"
    and "unat n \<le> unat (pt_sym (pl_point s))"
    and "\<forall>e \<in> set ues. placeable (fst (fst e)) \<and> unat n dvd unat (ue_ulRBG (fst (fst e)))"
    and "sum_list (map (\<lambda>e. unat (ue_ulRBG (fst (fst e))) div unat n) ues)
      \<le> avail 0 (unat (pt_rbg (pl_point s))) (rbg_mask (c_bw c) (c_ulNotched c))"
    and "beam_counts (pt_sym (pl_point s) - ucast n) n s"
  shows "\<exists>s' ues' news. mapE_state (place_ul_ue pol amc c n) s ues = Inr (s', ues') \<and>
    placed c (unat (pt_sym (pl_point s))) (unat n) ues ues' news \<and>
    pl_slot s' = (pl_slot s)\<lparr>slot_varTtiAllocInfo := news @ slot_varTtiAllocInfo (pl_slot s)\<rparr> \<and>
    pt_sym (pl_point s') = pt_sym (pl_point s) \<and> (news = [] \<longrightarrow> pl_point s' = pl_point s) \<and>
    beam_counts (pt_sym (pl_point s) - ucast n) n s' \<and> (pl_assigned s' \<longleftrightarrow> pl_assigned s \<or> news \<noteq> []) \<and>
    sorted_wrt (\<lambda>a b. cells a \<inter> cells b = {}) news \<and>
    (\<forall>a \<in> set news. rows (unat (pt_rbg (pl_point s))) (unat (pt_rbg (pl_point s'))) a) \<and>
    unat (pt_rbg (pl_point s)) \<le> unat (pt_rbg (pl_point s'))"
  using assms(3-6)
proof (induction ues arbitrary: s)
  case Nil
  then show ?case by (auto intro!: exI[of _ "[]"] placed.placed_none)
next
  case (Cons e ues)
  let ?M = "rbg_mask (c_bw c) (c_ulNotched c)" and ?r = "unat (ue_ulRBG (fst (fst e))) div unat n"
  have e: "placeable (fst (fst e))" "unat n dvd unat (ue_ulRBG (fst (fst e)))" using Cons.prems(2) by simp_all
  have room: "?r \<le> avail 0 (unat (pt_rbg (pl_point s))) ?M" using Cons.prems(3) by simp
  have rest: "\<forall>e \<in> set ues. placeable (fst (fst e)) \<and> unat n dvd unat (ue_ulRBG (fst (fst e)))"
    using Cons.prems(2) by simp
  show ?case
  proof (cases rule: place_ul_ue_ok[OF n Cons.prems(1) e(2) mask room e(1) Cons.prems(4), of pol amc, case_names keep grant])
    case (keep e')
    obtain s' ues' news where r: "mapE_state (place_ul_ue pol amc c n) s ues = Inr (s', ues')"
        "placed c (unat (pt_sym (pl_point s))) (unat n) ues ues' news"
        "pl_slot s' = (pl_slot s)\<lparr>slot_varTtiAllocInfo := news @ slot_varTtiAllocInfo (pl_slot s)\<rparr>"
        "pt_sym (pl_point s') = pt_sym (pl_point s)" "news = [] \<longrightarrow> pl_point s' = pl_point s"
        "beam_counts (pt_sym (pl_point s) - ucast n) n s'" "pl_assigned s' \<longleftrightarrow> pl_assigned s \<or> news \<noteq> []"
        "sorted_wrt (\<lambda>a b. cells a \<inter> cells b = {}) news"
        "\<forall>a \<in> set news. rows (unat (pt_rbg (pl_point s))) (unat (pt_rbg (pl_point s'))) a"
        "unat (pt_rbg (pl_point s)) \<le> unat (pt_rbg (pl_point s'))"
      using Cons.IH[OF Cons.prems(1) rest _ Cons.prems(4)] Cons.prems(3) by auto
    then show ?thesis using keep by (intro exI[of _ s'] exI[of _ "e' # ues'"] exI[of _ news]) (simp add: placed.placed_keep)
  next
    case (grant e' a t)
    have p: "unat n \<le> unat (pt_sym (pl_point t))" "beam_counts (pt_sym (pl_point t) - ucast n) n t"
      using grant(4,9) Cons.prems(1) by simp_all
    have "sum_list (map (\<lambda>e. unat (ue_ulRBG (fst (fst e))) div unat n) ues) \<le> avail 0 (unat (pt_rbg (pl_point t))) ?M"
      using grant(6) Cons.prems(3) by simp
    from Cons.IH[OF p(1) rest this p(2)] obtain s' ues' news where r:
        "mapE_state (place_ul_ue pol amc c n) t ues = Inr (s', ues')"
        "placed c (unat (pt_sym (pl_point t))) (unat n) ues ues' news"
        "pl_slot s' = (pl_slot t)\<lparr>slot_varTtiAllocInfo := news @ slot_varTtiAllocInfo (pl_slot t)\<rparr>"
        "pt_sym (pl_point s') = pt_sym (pl_point t)" "beam_counts (pt_sym (pl_point t) - ucast n) n s'"
        "pl_assigned s' \<longleftrightarrow> pl_assigned t \<or> news \<noteq> []" "sorted_wrt (\<lambda>a b. cells a \<inter> cells b = {}) news"
        "\<forall>a \<in> set news. rows (unat (pt_rbg (pl_point t))) (unat (pt_rbg (pl_point s'))) a"
        "unat (pt_rbg (pl_point t)) \<le> unat (pt_rbg (pl_point s'))" by blast
    have a: "rows (unat (pt_rbg (pl_point s))) (unat (pt_rbg (pl_point t))) a" by (rule granted_rows[OF grant(2,7)])
    have all: "\<forall>b \<in> set (news @ [a]). rows (unat (pt_rbg (pl_point s))) (unat (pt_rbg (pl_point s'))) b"
      using r(8,9) grant(5) a by (auto intro: rows_mono)
    have "sorted_wrt (\<lambda>a b. cells a \<inter> cells b = {}) (news @ [a])"
      using r(7,8) rows_disjoint[OF a] by (auto simp: sorted_wrt_append)
    then show ?thesis using r grant all
      by (intro exI[of _ s'] exI[of _ "e' # ues'"] exI[of _ "news @ [a]"]) (simp add: placed.placed_grant)
  qed
qed

subsection \<open>All beams\<close>

text \<open>
  The specification of the placement: beams are stacked downwards from symbol \<open>y\<close> to \<open>z\<close>, and a beam in which nobody
  got anything takes no symbol.
\<close>

inductive placed_all :: "cell \<Rightarrow> BeamSymbolMap \<Rightarrow> nat \<Rightarrow> 'p ActiveUeMap \<Rightarrow> 'p ActiveUeMap \<Rightarrow> VarTtiAllocInfo list \<Rightarrow> nat \<Rightarrow>
    bool" for c m where
  all_done: "placed_all c m y [] [] [] y"
| all_skip: "placed c y n ues ues' [] \<Longrightarrow> placed_all c m y act act' news z \<Longrightarrow>
    placed_all c m y ((b, ues) # act) ((b, ues') # act') news z"
| all_beam: "map_of m b = Some k \<Longrightarrow> 0 < unat k \<Longrightarrow> unat k \<le> y \<Longrightarrow> placed c y (unat k) ues ues' ns \<Longrightarrow> ns \<noteq> [] \<Longrightarrow>
    placed_all c m (y - unat k) act act' news z \<Longrightarrow>
    placed_all c m y ((b, ues) # act) ((b, ues') # act') (news @ ns) z"

lemma placed_all_bounds: "placed_all c m y act act' news z \<Longrightarrow> z \<le> y"
  by (induction rule: placed_all.induct) auto

lemma placed_all_cells:
  assumes "placed_all c m y act act' news z"
  shows "\<forall>a \<in> set news. cells a \<subseteq> {z..<y} \<times> usable c"
  using assms
proof (induction rule: placed_all.induct)
  case (all_beam b k y ues ues' ns act act' news z)
  have z: "z \<le> y - unat k" using placed_all_bounds[OF all_beam.hyps(6)] .
  have "cells a \<subseteq> {y - unat k..<y} \<times> usable c" if "a \<in> set ns" for a
    using placed_granted[OF all_beam.hyps(4) that] granted_cells[OF _ all_beam.hyps(3)] by blast
  moreover have "{y - unat k..<y} \<times> usable c \<subseteq> {z..<y} \<times> usable c" using z by auto
  moreover have "{z..<y - unat k} \<times> usable c \<subseteq> {z..<y} \<times> usable c" by auto
  ultimately show ?case using all_beam.IH by (simp add: ball_Un) blast
qed simp_all

text \<open>Contiguous columns of symbols.\<close>

fun stacked :: "nat \<Rightarrow> (nat \<times> nat) list \<Rightarrow> nat \<Rightarrow> bool" where
  "stacked z [] y \<longleftrightarrow> z = y"
| "stacked z ((a, n) # r) y \<longleftrightarrow> a = z \<and> 0 < n \<and> stacked (z + n) r y"

lemma stacked_append: "stacked z (xs @ ys) y \<longleftrightarrow> (\<exists>w. stacked z xs w \<and> stacked w ys y)"
  by (induction xs arbitrary: z) auto

definition column_of :: "VarTtiAllocInfo \<Rightarrow> nat \<times> nat" where
  "column_of a = (unat (dci_symStart (tti_dci a)), unat (dci_numSym (tti_dci a)))"

definition columns :: "nat \<Rightarrow> VarTtiAllocInfo list \<Rightarrow> nat \<Rightarrow> bool" where
  "columns z allocs y \<longleftrightarrow> (\<exists>cols. stacked z cols y \<and> column_of ` set allocs = set cols)"

lemma columns_append: "columns z xs w \<Longrightarrow> columns w ys y \<Longrightarrow> columns z (xs @ ys) y"
  unfolding columns_def using stacked_append by (metis image_Un set_append)

lemma placed_all_columns: "placed_all c m y act act' news z \<Longrightarrow> columns z news y"
proof (induction rule: placed_all.induct)
  case (all_done y)
  then show ?case by (auto simp: columns_def intro!: exI[of _ "[]"])
next
  case (all_beam b k y ues ues' ns act act' news z)
  have "column_of a = (y - unat k, unat k)" if "a \<in> set ns" for a
    using placed_granted[OF all_beam.hyps(4) that] by (auto simp: column_of_def granted_def new_ul_dci_def Let_def)
  then have "column_of ` set ns = set [(y - unat k, unat k)]" using all_beam.hyps(5) by (auto simp: image_iff neq_Nil_conv)
  moreover have "stacked (y - unat k) [(y - unat k, unat k)] y" using all_beam.hyps(2,3) by simp
  ultimately have "columns (y - unat k) ns y" unfolding columns_def by blast
  then show ?case using all_beam.IH by (rule columns_append[rotated])
qed simp

lemma place_ul_beam_ok:
  fixes k :: u32 and ues :: "'p entry list"
  assumes k: "map_of m b = Some k" "k \<noteq> 0" "unat k \<le> unat (pt_sym point)" and rbg: "pt_rbg point = 0"
    and mask: "length (rbg_mask (c_bw c) (c_ulNotched c)) = unat (c_bw c)"
    and ues: "\<forall>e \<in> set ues. placeable (fst (fst e)) \<and> unat k dvd unat (ue_ulRBG (fst (fst e)))"
    and room: "sum_list (map (\<lambda>e. unat (ue_ulRBG (fst (fst e))) div unat k) ues)
      \<le> count_list (rbg_mask (c_bw c) (c_ulNotched c)) 1"
  obtains (skip) ues' where "place_ul_beam pol amc c m (point, slot, used) (b, ues) = Inr ((point, slot, used), (b, ues'))"
      "placed c (unat (pt_sym point)) (unat k) ues ues' []"
    | (beam) ues' news where "place_ul_beam pol amc c m (point, slot, used) (b, ues) =
        Inr ((\<lparr>pt_rbg = 0, pt_sym = pt_sym point - ucast k\<rparr>,
              slot\<lparr>slot_varTtiAllocInfo := news @ slot_varTtiAllocInfo slot, slot_numSymAlloc := slot_numSymAlloc slot + k\<rparr>,
              used + ucast k), (b, ues'))"
      "placed c (unat (pt_sym point)) (unat k) ues ues' news" "news \<noteq> []"
      "sorted_wrt (\<lambda>a b. cells a \<inter> cells b = {}) news"
proof -
  let ?s = "\<lparr>pl_point = point, pl_slot = slot, pl_assigned = False, pl_symbStartDci = [], pl_allocSym = 0\<rparr>"
  have "sum_list (map (\<lambda>e. unat (ue_ulRBG (fst (fst e))) div unat k) ues)
      \<le> avail 0 (unat (pt_rbg (pl_point ?s))) (rbg_mask (c_bw c) (c_ulNotched c))"
    using room rbg by (simp add: avail_0)
  moreover have "beam_counts (pt_sym (pl_point ?s) - ucast k) k ?s" by (simp add: beam_counts_def)
  moreover have "unat k \<le> unat (pt_sym (pl_point ?s))" using k(3) by simp
  ultimately obtain s' ues' news where r: "mapE_state (place_ul_ue pol amc c k) ?s ues = Inr (s', ues')"
      "placed c (unat (pt_sym point)) (unat k) ues ues' news"
      "pl_slot s' = slot\<lparr>slot_varTtiAllocInfo := news @ slot_varTtiAllocInfo slot\<rparr>"
      "pt_sym (pl_point s') = pt_sym point" "news = [] \<longrightarrow> pl_point s' = point"
      "beam_counts (pt_sym point - ucast k) k s'" "pl_assigned s' \<longleftrightarrow> news \<noteq> []"
      "sorted_wrt (\<lambda>a b. cells a \<inter> cells b = {}) news"
    using place_ues_ok[OF k(2) mask _ ues, of ?s pol amc] by auto
  show thesis
  proof (cases "news = []")
    case True
    then show thesis using r k by (intro skip[of ues']) (simp_all add: place_ul_beam_def)
  next
    case False
    then have "pl_allocSym s' = k" "pl_assigned s'" using r(6,7) by (simp_all add: beam_counts_def)
    then show thesis using r k(1,2) False
      by (intro beam[of news ues']) (simp_all add: place_ul_beam_def ChangeUlBeam_def)
  qed
qed

lemma place_beams_ok:
  fixes active :: "'p ActiveUeMap"
  assumes mask: "length (rbg_mask (c_bw c) (c_ulNotched c)) = unat (c_bw c)"
    and "pt_rbg point = 0" and "sum_list (map (\<lambda>(b, _). unat (the (map_of m b))) active) \<le> unat (pt_sym point)"
    and "\<forall>(b, ues) \<in> set active. \<exists>k. map_of m b = Some k \<and> k \<noteq> 0 \<and>
      (\<forall>e \<in> set ues. placeable (fst (fst e)) \<and> unat k dvd unat (ue_ulRBG (fst (fst e)))) \<and>
      sum_list (map (\<lambda>e. unat (ue_ulRBG (fst (fst e))) div unat k) ues) \<le> count_list (rbg_mask (c_bw c) (c_ulNotched c)) 1"
  shows "\<exists>active' news u. mapE_state (place_ul_beam pol amc c m) (point, slot, used) active =
      Inr ((\<lparr>pt_rbg = 0, pt_sym = pt_sym point - of_nat u\<rparr>,
            slot\<lparr>slot_varTtiAllocInfo := news @ slot_varTtiAllocInfo slot, slot_numSymAlloc := slot_numSymAlloc slot + of_nat u\<rparr>,
            used + of_nat u), active') \<and>
    placed_all c m (unat (pt_sym point)) active active' news (unat (pt_sym point) - u) \<and>
    u \<le> sum_list (map (\<lambda>(b, _). unat (the (map_of m b))) active) \<and> sorted_wrt (\<lambda>a b. cells a \<inter> cells b = {}) news"
  using assms(2-4)
proof (induction active arbitrary: point slot used)
  case Nil
  have "point = \<lparr>pt_rbg = 0, pt_sym = pt_sym point\<rparr>" using Nil.prems(1) by simp
  then show ?case by (auto intro!: exI[of _ "[]"] exI[of _ 0] placed_all.all_done)
next
  case (Cons x active)
  obtain b ues where x: "x = (b, ues)" by fastforce
  obtain k where k: "map_of m b = Some k" "k \<noteq> 0" "\<forall>e \<in> set ues. placeable (fst (fst e)) \<and> unat k dvd unat (ue_ulRBG (fst (fst e)))"
      "sum_list (map (\<lambda>e. unat (ue_ulRBG (fst (fst e))) div unat k) ues) \<le> count_list (rbg_mask (c_bw c) (c_ulNotched c)) 1"
    using Cons.prems(3) by (auto simp: x)
  let ?sum = "sum_list (map (\<lambda>(b, _). unat (the (map_of m b))) active)"
  have le: "unat k + ?sum \<le> unat (pt_sym point)" using Cons.prems(2) k(1) by (simp add: x)
  have rest: "\<forall>(b, ues) \<in> set active. \<exists>k. map_of m b = Some k \<and> k \<noteq> 0 \<and>
      (\<forall>e \<in> set ues. placeable (fst (fst e)) \<and> unat k dvd unat (ue_ulRBG (fst (fst e)))) \<and>
      sum_list (map (\<lambda>e. unat (ue_ulRBG (fst (fst e))) div unat k) ues) \<le> count_list (rbg_mask (c_bw c) (c_ulNotched c)) 1"
    using Cons.prems(3) by simp
  have k3: "unat k \<le> unat (pt_sym point)" using le by simp
  show ?case
  proof (cases rule: place_ul_beam_ok[OF k(1,2) k3 Cons.prems(1) mask k(3,4), of pol amc slot used, case_names skip beam])
    case (skip ues')
    obtain active' news u where r: "mapE_state (place_ul_beam pol amc c m) (point, slot, used) active =
        Inr ((\<lparr>pt_rbg = 0, pt_sym = pt_sym point - of_nat u\<rparr>,
            slot\<lparr>slot_varTtiAllocInfo := news @ slot_varTtiAllocInfo slot, slot_numSymAlloc := slot_numSymAlloc slot + of_nat u\<rparr>,
            used + of_nat u), active')"
        "placed_all c m (unat (pt_sym point)) active active' news (unat (pt_sym point) - u)" "u \<le> ?sum"
        "sorted_wrt (\<lambda>a b. cells a \<inter> cells b = {}) news"
      using Cons.IH[OF Cons.prems(1) _ rest, of slot used] le by auto
    then show ?thesis using skip k(1)
      by (intro exI[of _ "(b, ues') # active'"] exI[of _ news] exI[of _ u]) (simp add: x placed_all.all_skip)
  next
    case (beam ues' ns)
    let ?pt = "\<lparr>pt_rbg = 0, pt_sym = pt_sym point - ucast k\<rparr>"
    let ?slot = "slot\<lparr>slot_varTtiAllocInfo := ns @ slot_varTtiAllocInfo slot, slot_numSymAlloc := slot_numSymAlloc slot + k\<rparr>"
    have "unat k < 2 ^ 8" using k3 u_lt[of "pt_sym point"] by simp
    then have k8: "unat (ucast k :: u8) = unat k" by (simp add: unsigned_ucast_eq take_bit_nat_eq_self_iff)
    then have pt: "unat (pt_sym ?pt) = unat (pt_sym point) - unat k"
      using k3 by (simp add: unat_sub word_le_nat_alt)
    have "?sum \<le> unat (pt_sym ?pt)" using le pt by simp
    from Cons.IH[OF _ this rest, of ?slot "used + ucast k"] obtain active' news u where
      r: "mapE_state (place_ul_beam pol amc c m) (?pt, ?slot, used + ucast k) active =
        Inr ((\<lparr>pt_rbg = 0, pt_sym = pt_sym ?pt - of_nat u\<rparr>,
            ?slot\<lparr>slot_varTtiAllocInfo := news @ slot_varTtiAllocInfo ?slot,
                  slot_numSymAlloc := slot_numSymAlloc ?slot + of_nat u\<rparr>, used + ucast k + of_nat u), active')"
        "placed_all c m (unat (pt_sym ?pt)) active active' news (unat (pt_sym ?pt) - u)" "u \<le> ?sum"
        "sorted_wrt (\<lambda>a b. cells a \<inter> cells b = {}) news"
      by auto
    have pos: "0 < unat k" using k(2) by (simp add: unat_gt_0)
    have z: "unat (pt_sym point) - (unat k + u) = unat (pt_sym ?pt) - u" using pt by simp
    have all: "placed_all c m (unat (pt_sym point)) ((b, ues) # active) ((b, ues') # active') (news @ ns)
        (unat (pt_sym point) - (unat k + u))"
      unfolding z by (rule placed_all.all_beam[OF k(1) pos k3 beam(2,3)]) (use r(2) pt in simp)
    have "\<forall>a \<in> set news. cells a \<subseteq> {unat (pt_sym ?pt) - u..<unat (pt_sym ?pt)} \<times> usable c"
      by (rule placed_all_cells[OF r(2)])
    moreover have "\<forall>a \<in> set ns. cells a \<subseteq> {unat (pt_sym ?pt)..<unat (pt_sym point)} \<times> usable c"
      using placed_granted[OF beam(2)] granted_cells[OF _ k3] unfolding pt by blast
    ultimately have "\<forall>a \<in> set news. \<forall>b \<in> set ns. cells a \<inter> cells b = {}" by fastforce
    then have dis: "sorted_wrt (\<lambda>a b. cells a \<inter> cells b = {}) (news @ ns)" using beam(4) r(4) by (simp add: sorted_wrt_append)
    show ?thesis
      by (intro exI[of _ "(b, ues') # active'"] exI[of _ "news @ ns"] exI[of _ "unat k + u"])
        (use r(1,3) k(1) beam(1) all dis in \<open>simp add: x algebra_simps\<close>)
  qed
qed

end
