(* ===== verification/UlData.thy ===== *)
theory UlData
  imports SchedPlace
begin

text \<open>
  New uplink data, from the allocation to the DCIs. The locale \<open>static_policy\<close> adds to \<open>ul_policy\<close> that a subclass
  leaves the processes and the channels of the UEs alone, which is what the placement relies on.
\<close>

definition static :: "'p ue \<Rightarrow> u16 \<times> NrMacHarqVector \<times> (u8 \<times> lcg) list" where
  "static u = (ue_rnti (fst u), ue_ulHarq (fst u), ue_ulLCG (fst u))"

definition statics :: "'p entry list \<Rightarrow> (u16 \<times> NrMacHarqVector \<times> (u8 \<times> lcg) list) multiset" where
  "statics vec = mset (map (\<lambda>e. static (fst e)) vec)"

lemma statics_perm: "mset vec = mset vec' \<Longrightarrow> statics vec = statics vec'"
  by (simp add: statics_def)

lemma map_entries_static:
  assumes "map_entries f vec = Inr vec'" and "\<And>u u'. f u = Inr u' \<Longrightarrow> static u' = static u"
  shows "statics vec' = statics vec"
  using assms(1)
proof (induction vec arbitrary: vec')
  case Nil
  then show ?case by simp
next
  case (Cons x vec)
  then show ?case using assms(2) by (cases x) (auto simp: res_simps statics_def)
qed

lemma ul_pass_split: "ul_pass e i k mx bbr vec = Inr (p, q, m) \<Longrightarrow> vec = p @ q"
proof (induction vec arbitrary: bbr p)
  case Nil
  then show ?case by simp
next
  case (Cons x vec)
  then show ?case by (auto simp: res_simps split: if_splits)
qed

locale static_policy = ul_policy pol for pol :: "'p policy" +
  assumes before_static: "pol_BeforeUl pol a u = Inr u' \<Longrightarrow> static u' = static u"
    and assigned_static: "pol_AssignedUl pol a u = Inr u' \<Longrightarrow> static u' = static u"
    and not_assigned_static: "pol_NotAssignedUl pol a u = Inr u' \<Longrightarrow> static u' = static u"
begin

lemma ul_round_static:
  assumes "ul_round pol e i k mx s = Inr (s', b)"
  shows "statics (us_vec s') = statics (us_vec s)"
proof -
  let ?vec = "pol_sort pol (\<lambda>a b. pol_CompareUl pol (fst a) (fst b)) (us_vec s)"
  obtain p q m where pq: "ul_pass e i k mx (us_maxBuffer s, Num 1) ?vec = Inr (p, q, m)"
    using assms by (auto simp: ul_round_def Let_def res_simps)
  have sorted: "statics (us_vec s) = statics (p @ q)"
    using sort_perm ul_pass_split[OF pq] by (metis statics_perm)
  show ?thesis
  proof (cases q)
    case Nil
    then show ?thesis using assms pq sorted by (auto simp: ul_round_def Let_def)
  next
    case (Cons y r)
    obtain ue x buf where y: "y = ((ue, x), buf)" by (metis prod.exhaust)
    let ?ue = "ue\<lparr>ue_ulRBG := ue_ulRBG ue + k, ue_ulSym := ucast k\<rparr>"
    let ?a = "\<lparr>pt_rbg = pt_rbg (us_assigned s) + k, pt_sym = ucast k\<rparr>"
    obtain u vec' where u: "pol_AssignedUl pol ?a (?ue, x) = Inr u"
        "not_assigned (pol_NotAssignedUl pol) ?a (ue_rnti ?ue) (p @ (u, buf) # r) = Inr vec'" "us_vec s' = vec'"
      using assms pq Cons y by (auto simp: ul_round_def Let_def res_simps)
    have "statics vec' = statics (p @ (u, buf) # r)"
      by (rule map_entries_static[OF u(2)[unfolded not_assigned_def]]) (auto dest: not_assigned_static split: if_splits)
    moreover have "static u = static (ue, x)" using assigned_static[OF u(1)] by (simp add: static_def)
    ultimately show ?thesis using sorted u(3) by (simp add: statics_def Cons y)
  qed
qed

end

lemma ul_rounds_static:
  assumes "static_policy pol" and "ul_rounds pol e i k mx res s = Some (Inr (res', s'))"
  shows "statics (us_vec s') = statics (us_vec s)"
proof -
  have "static_policy pol \<longrightarrow> (\<forall>res' s'. y = Inr (res', s') \<longrightarrow> statics (us_vec s') = statics (us_vec s))"
    if "ul_rounds pol e i k mx res s = Some y" for y
  proof (rule ul_rounds.raw_induct[where P = "\<lambda>pol e i k mx res s y. static_policy pol \<longrightarrow>
      (\<forall>res' s'. y = Inr (res', s') \<longrightarrow> statics (us_vec s') = statics (us_vec s))", OF _ that])
    fix f :: "'a policy \<Rightarrow> ofdma_env \<Rightarrow> nat \<Rightarrow> u32 \<Rightarrow> u32 \<Rightarrow> u32 \<Rightarrow> 'a ul_state \<Rightarrow> (u32 \<times> 'a ul_state) res option"
      and pol e i k mx res s y
    assume IH: "\<And>pol e i k mx res s y. f pol e i k mx res s = Some y \<Longrightarrow> static_policy pol \<longrightarrow>
        (\<forall>res' s'. y = Inr (res', s') \<longrightarrow> statics (us_vec s') = statics (us_vec s))"
      and body: "(if 0 < res then case ul_round pol e i k mx s of Inl e \<Rightarrow> Some (Inl e)
          | Inr (s, again) \<Rightarrow> if again then f pol e i k mx (res - 1) s else Some (Inr (res, s))
        else Some (Inr (res, s))) = Some y"
    show "static_policy pol \<longrightarrow> (\<forall>res' s'. y = Inr (res', s') \<longrightarrow> statics (us_vec s') = statics (us_vec s))"
    proof (intro impI allI)
      fix res' s'
      assume p: "static_policy pol" and y: "y = Inr (res', s')"
      show "statics (us_vec s') = statics (us_vec s)"
      proof (cases "0 < res \<and> (\<exists>t. ul_round pol e i k mx s = Inr (t, True))")
        case True
        then obtain t where t: "ul_round pol e i k mx s = Inr (t, True)" "0 < res" by blast
        then have "f pol e i k mx (res - 1) t = Some y" using body by simp
        then have "statics (us_vec s') = statics (us_vec t)" using IH p y by blast
        then show ?thesis using static_policy.ul_round_static[OF p t(1)] by simp
      next
        case False
        then show ?thesis using body y static_policy.ul_round_static[OF p]
          by (auto split: if_splits sum.splits prod.splits)
      qed
    qed
  qed
  then show ?thesis using assms by blast
qed

lemma aggressive_ue_static:
  assumes "aggressive_ue k ue res a = Some (Inr (ue', res', a'))"
  shows "static (ue', x) = static (ue, x)"
proof -
  have "\<forall>ue' res' a'. y = Inr (ue', res', a') \<longrightarrow> static (ue', x) = static (ue, x)"
    if "aggressive_ue k ue res a = Some y" for y
  proof (rule aggressive_ue.raw_induct[where P = "\<lambda>k ue res a y. \<forall>ue' res' a'. y = Inr (ue', res', a') \<longrightarrow>
      static (ue', x) = static (ue, x)", OF _ that], goal_cases)
    case (1 f k ue res a y)
    show ?case
    proof (cases "k \<noteq> 0 \<and> ue_ulRBG ue div k < 15")
      case True
      then have "f k (ue\<lparr>ue_ulRBG := ue_ulRBG ue + k, ue_ulSym := ucast k\<rparr>) (res - 1)
          \<lparr>pt_rbg = pt_rbg a + k, pt_sym = ucast k\<rparr> = Some y" using 1(2) by simp
      moreover have "static (ue\<lparr>ue_ulRBG := ue_ulRBG ue + k, ue_ulSym := ucast k\<rparr>, x) = static (ue, x)"
        by (simp add: static_def)
      ultimately show ?thesis using 1(1) by metis
    next
      case False
      then show ?thesis using 1(2) by (cases "k = 0") (auto simp: static_def)
    qed
  qed
  then show ?thesis using assms by blast
qed

lemma aggressive_static:
  assumes "aggressive e k vec res a = Some (Inr (vec', res', a'))"
  shows "statics vec' = statics vec"
  using assms
proof (induction vec arbitrary: res a vec' res' a')
  case (Cons y r)
  obtain ue x buf where y: "y = ((ue, x), buf)" by (metis prod.exhaust)
  from Cons.prems obtain ue1 res1 a1 r1 where s:
      "(if bsr_of (o_proactive e) (ue_rnti ue) > 0 then aggressive_ue k ue res a else Some (Inr (ue, res, a))) = Some (Inr (ue1, res1, a1))"
      "aggressive e k r res1 a1 = Some (Inr (r1, res', a'))" "vec' = ((ue1, x), buf) # r1"
    by (auto simp: y bindL_def split: option.splits sum.splits)
  have "static (ue1, x) = static (ue, x)" using s(1) aggressive_ue_static by (auto split: if_splits)
  then show ?case using Cons.IH[OF s(2)] s(3) by (simp add: statics_def y)
qed simp

context static_policy
begin

lemma ul_stage_static:
  assumes "ul_stage pol e i k mx (res, vec, mb) = Some (Inr (res', vec', mb'))"
  shows "statics vec' = statics vec"
proof (cases "res = 0")
  case True
  then show ?thesis using assms by (simp add: ul_stage_def)
next
  case False
  then obtain v r a s where s: "(if o_scheduleMode e = 1 then aggressive e k vec res \<lparr>pt_rbg = 0, pt_sym = 0\<rparr>
      else Some (Inr (vec, res, \<lparr>pt_rbg = 0, pt_sym = 0\<rparr>))) = Some (Inr (v, r, a))"
      "ul_rounds pol e i k mx r \<lparr>us_vec = v, us_assigned = a, us_maxBuffer = mb\<rparr> = Some (Inr (res', s))" "vec' = us_vec s"
    using assms by (auto simp: ul_stage_def bindL_def split: option.splits sum.splits)
  have "statics v = statics vec" using s(1) aggressive_static by (auto split: if_splits)
  then show ?thesis using ul_rounds_static[OF static_policy_axioms s(2)] s(3) by simp
qed

lemma assign_ul_beam_static:
  assumes "assign_ul_beam pol e m mb el = Some (Inr (el', mb'))"
  shows "statics (snd el') = statics (snd el)"
proof -
  obtain b ues where el: "el = (b, ues)" by fastforce
  let ?R = "usable_rbgs (o_bw e) (o_ulNotched e)"
  from assms obtain n vec0 r1 vec1 m1 where
      v: "map_entries (pol_BeforeUl pol (FTResources (n * n) n)) ues = Inr vec0"
      "ul_stage pol e 0 n ?R (?R, vec0, mb) = Some (Inr (r1, vec1, m1))"
      "if o_scheduleMode e = 3 then \<exists>r2. ul_stage pol e 1 n ?R (r1, vec1, m1) = Some (Inr (r2, snd el', mb'))
       else snd el' = vec1"
    by (auto simp: assign_ul_beam_def el bindL_def Let_def split: option.splits sum.splits if_splits)
  have "statics vec0 = statics ues" by (rule map_entries_static[OF v(1)]) (rule before_static)
  moreover have "statics vec1 = statics vec0" by (rule ul_stage_static[OF v(2)])
  moreover have "statics (snd el') = statics vec1"
    using v(3) ul_stage_static by (auto split: if_splits)
  ultimately show ?thesis by (simp add: el)
qed

lemma assign_ul_beams_static:
  assumes "assign_ul_beams pol e m mb active = Some (Inr (active', mb'))"
  shows "list_all2 (\<lambda>el el'. statics (snd el') = statics (snd el)) active active'"
  using assms(1)
proof (induction active arbitrary: mb active' mb')
  case Nil
  then show ?case by simp
next
  case (Cons el active)
  from Cons.prems obtain el' m1 act' m2 where r: "assign_ul_beam pol e m mb el = Some (Inr (el', m1))"
      "assign_ul_beams pol e m m1 active = Some (Inr (act', m2))" "active' = el' # act'"
    by (auto simp: bindL_def split: option.splits sum.splits)
  then show ?case using Cons.IH assign_ul_beam_static[OF r(1)] by simp
qed

end

lemma metric_static:
  "static (UpdateUlMetric amc ue, x) = static (ue, x)" "static (UpdateUlPFMetric a w amc u) = static u"
  "static (CalculatePotentialTPutUl a amc u) = static u"
  by (auto simp: static_def UpdateUlMetric_def UpdateUlPFMetric_def CalculatePotentialTPutUl_def Let_def split_beta)

lemma subclass_static:
  assumes "\<And>lt vec. mset (srt lt vec) = mset vec" and "ofdma_subclass srt pol"
  shows "static_policy pol"
proof (intro static_policy.intro[OF subclass_policy[OF assms]] static_policy_axioms.intro)
  fix a u u'
  show "pol_BeforeUl pol a u = Inr u' \<Longrightarrow> static u' = static u"
    using assms(2) by (cases rule: ofdma_subclass_cases) (auto simp: subclass_defs metric_static split: prod.splits)
  show "pol_AssignedUl pol a u = Inr u' \<Longrightarrow> static u' = static u"
    using assms(2) by (cases rule: ofdma_subclass_cases) (auto simp: subclass_defs metric_static split: prod.splits)
  show "pol_NotAssignedUl pol a u = Inr u' \<Longrightarrow> static u' = static u"
    using assms(2) by (cases rule: ofdma_subclass_cases) (auto simp: subclass_defs metric_static split: prod.splits)
qed

interpretation rr_sp: static_policy "NrMacSchedulerOfdmaRR dlAmc ulAmc sort_by" for dlAmc ulAmc
  by unfold_locales (auto simp: subclass_defs metric_static)

interpretation mr_sp: static_policy "NrMacSchedulerOfdmaMR dlAmc ulAmc sort_by" for dlAmc ulAmc
  by unfold_locales (auto simp: subclass_defs metric_static)

interpretation pf_sp: static_policy "NrMacSchedulerOfdmaPF lm timeWindow dlAmc ulAmc sort_by" for lm timeWindow dlAmc ulAmc
  by unfold_locales (auto simp: subclass_defs metric_static)

subsection \<open>Reading the allocation back\<close>

definition rnti_of :: "'p entry \<Rightarrow> u16" where
  "rnti_of x = ue_rnti (fst (fst x))"

lemma find_ue_member:
  "distinct (map rnti_of vec) \<Longrightarrow> x \<in> set vec \<Longrightarrow> find_ue (rnti_of x) vec = Some (fst x)"
  by (induction vec) (auto simp: rnti_of_def)

lemma find_ue_Some: "find_ue k vec = Some u \<Longrightarrow> u \<in> fst ` set vec \<and> ue_rnti (fst u) = k"
  by (induction vec) (auto split: if_splits)

lemma mset_rntis: "mset (map rnti_of vec) = image_mset fst (statics vec)"
  by (simp add: statics_def static_def rnti_of_def[abs_def] image_mset.compositionality comp_def)

lemma read_back_spec:
  assumes d: "distinct (map rnti_of ues)" and st: "statics vec = statics ues"
  shows "mset (map fst (read_back vec ues)) = mset (map fst vec)"
    and "list_all2 (\<lambda>x y. static (fst y) = static (fst x)) ues (read_back vec ues)"
proof -
  let ?h = "\<lambda>k. the (find_ue k vec)"
  have r: "mset (map rnti_of vec) = mset (map rnti_of ues)" using st mset_rntis by metis
  then have dv: "distinct (map rnti_of vec)" using d mset_eq_imp_distinct_iff by blast
  have found: "\<exists>x. x \<in> set vec \<and> rnti_of x = rnti_of y \<and> find_ue (rnti_of y) vec = Some (fst x)" if "y \<in> set ues" for y
  proof -
    have "rnti_of y \<in> set (map rnti_of vec)" using that mset_eq_setD[OF r] by simp
    then obtain x where "x \<in> set vec" "rnti_of x = rnti_of y" by auto
    then show ?thesis using find_ue_member[OF dv, of x] by (intro exI[of _ x]) simp
  qed
  have bk: "map fst (read_back vec ues) = map ?h (map rnti_of ues)"
    unfolding read_back_def map_map comp_def case_prod_beta fst_conv
    by (rule map_cong[OF refl]) (use found in \<open>fastforce simp: rnti_of_def\<close>)
  have "map ?h (map rnti_of vec) = map fst vec"
    using find_ue_member[OF dv] by (auto simp: map_eq_conv)
  then show "mset (map fst (read_back vec ues)) = mset (map fst vec)" unfolding bk using r by (metis mset_map)
  have "static (fst y) = static u" if y: "y \<in> set ues" and u: "find_ue (rnti_of y) vec = Some u" for y u
  proof -
    obtain x where x: "x \<in> set vec" "rnti_of x = rnti_of y" "u = fst x" using found[OF y] u by auto
    have "static (fst x) \<in># statics vec" using x(1) by (auto simp: statics_def)
    then obtain z where z: "z \<in> set ues" "static (fst z) = static (fst x)" unfolding st by (auto simp: statics_def)
    then have "rnti_of z = rnti_of y" using x(2) by (simp add: rnti_of_def static_def)
    then have "z = y" using d z(1) y by (auto simp: distinct_map dest: inj_onD)
    then show ?thesis using z(2) x(3) by simp
  qed
  then show "list_all2 (\<lambda>x y. static (fst y) = static (fst x)) ues (read_back vec ues)"
    using found by (auto simp: read_back_def list_all2_map2 list_all2_same rnti_of_def case_prod_beta split: option.splits)
qed

lemma sum_at_le:
  assumes "distinct ks"
  shows "sum_list (map (\<lambda>k. case map_of m k of None \<Rightarrow> 0 | Some v \<Rightarrow> unat v) ks) \<le> all_symbols m"
proof -
  let ?f = "\<lambda>m k. case map_of m k of None \<Rightarrow> 0 | Some v \<Rightarrow> unat (v :: u32)"
  have "(\<Sum>k\<in>A. ?f m k) \<le> all_symbols m" if "finite A" for A
  proof (induction m)
    case Nil
    then show ?case by (simp add: all_symbols_def)
  next
    case (Cons x m)
    obtain k v where x: "x = (k, v)" by fastforce
    have "(\<Sum>j\<in>A. ?f (x # m) j) \<le> (\<Sum>j\<in>A. (if j = k then unat v else 0) + ?f m j)"
      by (rule sum_mono) (auto simp: x)
    also have "\<dots> = (\<Sum>j\<in>A. if j = k then unat v else 0) + (\<Sum>j\<in>A. ?f m j)" by (rule sum.distrib)
    also have "\<dots> \<le> unat v + all_symbols m" using Cons.IH that by (intro add_mono) (simp_all add: sum.delta')
    finally show ?case by (simp add: x all_symbols_def)
  qed
  from this[of "set ks"] show ?thesis using assms by (simp add: sum_list_distinct_conv_sum_set)
qed

subsection \<open>All of it\<close>

lemma usable_count:
  assumes "length (rbg_mask bw notched) = unat bw"
  shows "unat (usable_rbgs bw notched) = count_list (rbg_mask bw notched) 1" "count_list (rbg_mask bw notched) 1 < 2 ^ 16"
proof -
  have "count_list (rbg_mask bw notched) 1 \<le> unat bw" using count_le_length[of "rbg_mask bw notched" 1] assms by simp
  then show lt: "count_list (rbg_mask bw notched) 1 < 2 ^ 16" using u_lt[of bw] by simp
  have "count_list (replicate n x) (x :: u8) = n" for n x by (induction n) auto
  then show "unat (usable_rbgs bw notched) = count_list (rbg_mask bw notched) 1"
    using lt by (auto simp: usable_rbgs_def rbg_mask_def unsigned_of_nat take_bit_nat_eq_self_iff)
qed

lemma SetProactiveBSR_sel:
  "o_bw (SetProactiveBSR tm e) = o_bw e" "o_ulNotched (SetProactiveBSR tm e) = o_ulNotched e"
  "o_scheduleMode (SetProactiveBSR tm e) = o_scheduleMode e"
proof -
  have "o_bw (SetProactiveBSR tm e) = o_bw e \<and> o_ulNotched (SetProactiveBSR tm e) = o_ulNotched e \<and>
    o_scheduleMode (SetProactiveBSR tm e) = o_scheduleMode e"
    unfolding SetProactiveBSR_def by (induction tm arbitrary: e) (simp_all add: case_prod_beta)
  then show "o_bw (SetProactiveBSR tm e) = o_bw e" "o_ulNotched (SetProactiveBSR tm e) = o_ulNotched e"
    "o_scheduleMode (SetProactiveBSR tm e) = o_scheduleMode e" by simp_all
qed

text \<open>What a beam needs before its allocation, and what it then has.\<close>

definition beam_ready :: "BeamSymbolMap \<Rightarrow> BeamConfId \<times> 'p entry list \<Rightarrow> bool" where
  "beam_ready m = (\<lambda>(b, ues). (\<exists>n. map_of m b = Some n \<and> 0 < n \<and> n < 2 ^ 8) \<and> distinct (map rnti_of ues) \<and>
     (\<forall>x \<in> set ues. ue_ulRBG (fst (fst x)) = 0 \<and> placeable (fst (fst x))))"

lemma read_back_beam:
  assumes ready: "beam_ready m (b, ues)" and fits: "beam_fits e m (b, ues) (b', vec)" and st: "statics vec = statics ues"
    and c: "unat (usable_rbgs (o_bw e) (o_ulNotched e)) = N"
  shows "\<exists>k. map_of m b = Some k \<and> k \<noteq> 0 \<and>
    (\<forall>x \<in> set (read_back vec ues). placeable (fst (fst x)) \<and> unat k dvd unat (ue_ulRBG (fst (fst x)))) \<and>
    sum_list (map (\<lambda>x. unat (ue_ulRBG (fst (fst x))) div unat k) (read_back vec ues)) \<le> N"
proof -
  have d: "distinct (map rnti_of ues)" using ready by (simp add: beam_ready_def)
  obtain k where k: "map_of m b = Some k" "whole_rbgs (unat k) vec" "total_rbgs (unat k) vec \<le> N"
    using fits c by (auto simp: beam_fits_def)
  have k0: "k \<noteq> 0" using ready k(1) by (auto simp: beam_ready_def)
  have perm: "mset (map fst (read_back vec ues)) = mset (map fst vec)" by (rule read_back_spec(1)[OF d st])
  have rel: "list_all2 (\<lambda>x y. static (fst y) = static (fst x)) ues (read_back vec ues)" by (rule read_back_spec(2)[OF d st])
  have "placeable (fst (fst y))" if y: "y \<in> set (read_back vec ues)" for y
  proof -
    obtain i where i: "i < length (read_back vec ues)" "y = read_back vec ues ! i" using y by (metis in_set_conv_nth)
    have "length ues = length (read_back vec ues)" by (rule list_all2_lengthD[OF rel])
    then have x: "ues ! i \<in> set ues" "static (fst y) = static (fst (ues ! i))"
      using i list_all2_nthD2[OF rel i(1)] by simp_all
    have "\<forall>x \<in> set ues. placeable (fst (fst x))" using ready by (simp add: beam_ready_def)
    then have "placeable (fst (fst (ues ! i)))" using x(1) by blast
    then show ?thesis using x(2) by (simp add: placeable_def static_def)
  qed
  moreover have "unat k dvd unat (ue_ulRBG (fst (fst y)))" if y: "y \<in> set (read_back vec ues)" for y
  proof -
    have "fst y \<in> set (map fst vec)" using y mset_eq_setD[OF perm] by (metis image_eqI list.set_map)
    then obtain z where z: "z \<in> set vec" "fst z = fst y" by auto
    have "\<forall>z \<in> set vec. unat k dvd unat (ue_ulRBG (fst (fst z)))" using k(2) by (simp add: whole_rbgs_def entry_key_def)
    then show ?thesis using z by metis
  qed
  moreover have "sum_list (map (\<lambda>x. unat (ue_ulRBG (fst (fst x))) div unat k) (read_back vec ues)) = total_rbgs (unat k) vec"
    using sum_list_perm[OF perm, of "\<lambda>u. unat (ue_ulRBG (fst u)) div unat k"]
    by (simp add: total_rbgs_def rbgs_of_def entry_key_def comp_def)
  ultimately show ?thesis using k k0 by auto
qed

lemma read_back_all_beams:
  assumes "list_all2 (beam_fits e m) active assigned"
    and "list_all2 (\<lambda>el el'. statics (snd el') = statics (snd el)) active assigned"
    and "\<forall>el \<in> set active. beam_ready m el" and "unat (usable_rbgs (o_bw e) (o_ulNotched e)) = N"
  shows "map fst (read_back_all assigned active) = map fst active \<and>
    (\<forall>(b, ues) \<in> set (read_back_all assigned active). \<exists>k. map_of m b = Some k \<and> k \<noteq> 0 \<and>
      (\<forall>x \<in> set ues. placeable (fst (fst x)) \<and> unat k dvd unat (ue_ulRBG (fst (fst x)))) \<and>
      sum_list (map (\<lambda>x. unat (ue_ulRBG (fst (fst x))) div unat k) ues) \<le> N)"
  using assms(1-3)
proof (induction rule: list_all2_induct)
  case Nil
  then show ?case by (simp add: read_back_all_def)
next
  case (Cons el active el' assigned)
  obtain b ues b' vec where el: "el = (b, ues)" "el' = (b', vec)" by (metis prod.exhaust)
  have "beam_ready m (b, ues)" "statics vec = statics ues" "beam_fits e m (b, ues) (b', vec)"
    using Cons.prems Cons.hyps(1) by (simp_all add: el)
  from read_back_beam[OF this(1,3,2) assms(4)] show ?case
    using Cons.IH Cons.prems by (auto simp: el read_back_all_def)
qed

lemma read_back_all_rntis:
  assumes "list_all2 (beam_fits e m) active assigned"
    and "list_all2 (\<lambda>el el'. statics (snd el') = statics (snd el)) active assigned"
    and "\<forall>el \<in> set active. beam_ready m el"
  shows "map (\<lambda>(b, ues). (b, map rnti_of ues)) (read_back_all assigned active) =
    map (\<lambda>(b, ues). (b, map rnti_of ues)) active"
  using assms
proof (induction rule: list_all2_induct)
  case Nil
  then show ?case by (simp add: read_back_all_def)
next
  case (Cons el active el' assigned)
  obtain b ues b' vec where el: "el = (b, ues)" "el' = (b', vec)" by (metis prod.exhaust)
  have "distinct (map rnti_of ues)" "statics vec = statics ues" using Cons.prems by (simp_all add: el beam_ready_def)
  from read_back_spec(2)[OF this] have "map rnti_of (read_back vec ues) = map rnti_of ues"
    by (induction rule: list_all2_induct) (simp_all add: rnti_of_def static_def)
  then show ?case using Cons.IH Cons.prems by (simp add: el read_back_all_def)
qed

definition reset_all :: "'p policy \<Rightarrow> 'p ActiveUeMap \<Rightarrow> 'p ActiveUeMap" where
  "reset_all pol active = map (\<lambda>(b, ues). (b, map (\<lambda>((ue, x), buf). ((ResetUlSchedInfo ue, pol_ResetUlSchedInfo pol x), buf)) ues)) active"

text \<open>
  C7. New uplink data always fits. With the round-robin or the maximum-rate subclass, any sorting procedure and every
  scheduling mode but the aggressive one, after the symbols are shared out so that every beam has some and they fit below the
  starting symbol, the allocation and the placement of the DCIs never fail: the only step of \<open>DoScheduleUlData\<close> that can
  is the computation of its traces. Every UE keeps its processes or gets exactly one DCI, for as many usable RBGs as it was
  assigned, stored as a new process under a free id. The new allocations do not overlap, lie in usable RBGs and are
  stacked beam by beam below the starting symbol, and the counters of symbols are those of the stack.
\<close>
theorem uplink_data_fits:
  assumes "\<And>lt vec. mset (srt lt vec) = mset vec"
    and "ofdma_subclass srt pol"
    and "GetSymPerBeam symAvail active = Inr m" and "0 < symAvail" and "active \<noteq> []" and "distinct (map fst active)"
    and "\<forall>el \<in> set active. beam_ready m el" and "all_symbols m \<le> unat (pt_sym point)" and "pt_rbg point = 0"
    and "o_scheduleMode e \<noteq> 1" and "o_bw e = c_bw c" and "o_ulNotched e = c_ulNotched c"
    and "length (rbg_mask (c_bw c) (c_ulNotched c)) = unat (c_bw c)" and "1 \<in> set (rbg_mask (c_bw c) (c_ulNotched c))"
  shows "\<exists>active' active'' mb news used. (\<forall>ind eff.
      DoScheduleUlData pol amc c ind triggerMap e maxBuffer eff point symAvail active slot =
        bindL (Some (foldE (trace_beam ind triggerMap m) ([], [], eff) active')) (\<lambda>traces.
          Some (Inr \<lparr>ur_usedSym = of_nat used, ur_point = \<lparr>pt_rbg = 0, pt_sym = pt_sym point - of_nat used\<rparr>,
            ur_slot = slot\<lparr>slot_varTtiAllocInfo := news @ slot_varTtiAllocInfo slot,
                           slot_numSymAlloc := slot_numSymAlloc slot + of_nat used\<rparr>,
            ur_active = reset_all pol active'', ur_ofdma = SetProactiveBSR triggerMap e, ur_maxBuffer = mb,
            ur_traces = traces\<rparr>))) \<and>
    placed_all c m (unat (pt_sym point)) active' active'' news (unat (pt_sym point) - used) \<and> used \<le> all_symbols m \<and>
    map (\<lambda>(b, ues). (b, map rnti_of ues)) active' = map (\<lambda>(b, ues). (b, map rnti_of ues)) active \<and>
    sorted_wrt (\<lambda>a b. cells a \<inter> cells b = {}) news \<and>
    (\<forall>a \<in> set news. cells a \<subseteq> {unat (pt_sym point) - used..<unat (pt_sym point)} \<times> usable c)"
proof -
  let ?e = "SetProactiveBSR triggerMap e" and ?M = "rbg_mask (c_bw c) (c_ulNotched c)"
  let ?R = "usable_rbgs (c_bw c) (c_ulNotched c)" and ?sym = "unat (pt_sym point)"
  have e: "o_bw ?e = c_bw c" "o_ulNotched ?e = c_ulNotched c" "o_scheduleMode ?e \<noteq> 1"
    using assms(10-12) by (simp_all add: SetProactiveBSR_sel)
  have N: "unat ?R = count_list ?M 1" "count_list ?M 1 < 2 ^ 16" by (rule usable_count[OF assms(13)])+
  have "count_list ?M 1 \<noteq> 0" using assms(14) by (simp add: count_list_0_iff)
  then have R: "0 < ?R" using N(1) by (simp add: word_less_nat_alt)
  have small: "unat ?R * unat n < 2 ^ 32" if "n < 2 ^ 8" for n :: u32
  proof -
    have "unat ?R * unat n \<le> 2 ^ 16 * 2 ^ 8" using N that by (intro mult_le_mono) (simp_all add: word_less_nat_alt)
    then show ?thesis by simp
  qed
  have beams: "\<forall>(b, ues) \<in> set active. (\<exists>n. map_of m b = Some n \<and> 0 < n \<and>
      unat (usable_rbgs (o_bw ?e) (o_ulNotched ?e)) * unat n < 2 ^ 32) \<and> (\<forall>x \<in> set ues. ue_ulRBG (fst (fst x)) = 0)"
    using assms(7) small unfolding beam_ready_def e by fast
  have R': "0 < usable_rbgs (o_bw ?e) (o_ulNotched ?e)" using R by (simp add: e)
  obtain assigned mb where a: "assign_ul_beams pol ?e m maxBuffer active = Some (Inr (assigned, mb))"
      "list_all2 (beam_fits ?e m) active assigned"
    using ul_policy.assign_ul_beams_ok[OF subclass_policy[OF assms(1,2)] beams e(3) R', of maxBuffer] by blast
  have st: "list_all2 (\<lambda>el el'. statics (snd el') = statics (snd el)) active assigned"
    by (rule static_policy.assign_ul_beams_static[OF subclass_static[OF assms(1,2)] a(1)])
  let ?act = "read_back_all assigned active"
  have "unat (usable_rbgs (o_bw ?e) (o_ulNotched ?e)) = count_list ?M 1" using N(1) by (simp add: e)
  from read_back_all_beams[OF a(2) st assms(7) this] have keys: "map fst ?act = map fst active"
    and act: "\<forall>(b, ues) \<in> set ?act. \<exists>k. map_of m b = Some k \<and> k \<noteq> 0 \<and>
      (\<forall>x \<in> set ues. placeable (fst (fst x)) \<and> unat k dvd unat (ue_ulRBG (fst (fst x)))) \<and>
      sum_list (map (\<lambda>x. unat (ue_ulRBG (fst (fst x))) div unat k) ues) \<le> count_list ?M 1" by blast+
  have "sum_list (map (\<lambda>(b, _). unat (the (map_of m b))) ?act) =
      sum_list (map (\<lambda>k. case map_of m k of None \<Rightarrow> 0 | Some v \<Rightarrow> unat v) (map fst ?act))"
    unfolding map_map by (rule arg_cong[OF map_cong[OF refl]]) (use act in \<open>fastforce split: option.splits\<close>)
  also have "\<dots> \<le> all_symbols m" unfolding keys by (rule sum_at_le[OF assms(6)])
  finally have sum: "sum_list (map (\<lambda>(b, _). unat (the (map_of m b))) ?act) \<le> all_symbols m" .
  then have "sum_list (map (\<lambda>(b, _). unat (the (map_of m b))) ?act) \<le> ?sym" using assms(8) by linarith
  from place_beams_ok[OF assms(13,9) this act, of pol amc slot 0] obtain active'' news u where p:
      "mapE_state (place_ul_beam pol amc c m) (point, slot, 0) ?act =
        Inr ((\<lparr>pt_rbg = 0, pt_sym = pt_sym point - of_nat u\<rparr>,
          slot\<lparr>slot_varTtiAllocInfo := news @ slot_varTtiAllocInfo slot,
               slot_numSymAlloc := slot_numSymAlloc slot + of_nat u\<rparr>, 0 + of_nat u), active'')"
      "placed_all c m ?sym ?act active'' news (?sym - u)" "u \<le> sum_list (map (\<lambda>(b, _). unat (the (map_of m b))) ?act)"
      "sorted_wrt (\<lambda>a b. cells a \<inter> cells b = {}) news" by blast
  have same: "map (\<lambda>(b, ues). (b, map rnti_of ues)) ?act = map (\<lambda>(b, ues). (b, map rnti_of ues)) active"
    by (rule read_back_all_rntis[OF a(2) st assms(7)])
  have "u \<le> all_symbols m" using p(3) sum by linarith
  then show ?thesis
    using a(1) assms(3-5,9) p(1,2,4) placed_all_cells[OF p(2)] same
    by (intro exI[of _ ?act] exI[of _ active''] exI[of _ mb] exI[of _ news] exI[of _ u])
      (simp add: DoScheduleUlData_def AssignULRBG_def place_ul_def reset_all_def Let_def)
qed

text \<open>One UE with 128 bytes in one beam of 12 symbols.\<close>

definition demo_sender :: UeInfo where
  "demo_sender = (demo_ue 7 9 0)
     \<lparr>ue_ulHarq := \<lparr>hv_map = [(0, HarqProcess_default)], m_maxSize = 1, m_usedSize = 0\<rparr>,
      ue_ulLCG := [(2, \<lparr>lcg_id = 2, lcg_lcMap = [(4, \<lparr>lc_id = 4, lc_txQueue = 128, lc_txHolDelay = 0, lc_retxHolDelay = 0,
        lc_retxQueue = 0, lc_statusPdu = 0, lc_delayBudget = 0, lc_per_exp = 0, lc_isGbr = False, lc_proactiveQueue = 0\<rparr>)]\<rparr>)]\<rparr>"

definition demo_cell :: cell where
  "demo_cell = \<lparr>c_bw = 24, c_bwpId = 0, c_symbolsPerSlot = 14, c_dlNotched = [], c_ulNotched = []\<rparr>"

definition demo_senders :: "pf ActiveUeMap" where
  "demo_senders = [(demo_beam 1, [((demo_sender, NrMacSchedulerUeInfoPF (Num 1)), 128)])]"

lemma demo_senders_syms: "GetSymPerBeam 12 demo_senders = Inr [(demo_beam 1, 12)]"
proof -
  have "fl (3 / 32) = Num (3 / 32)" using fl_dyadic[of 3 5] by simp
  moreover have "fp_of_int 12 = Num 12" "fp_of_int 128 = Num 128" by (simp_all add: fp_of_int_exact)
  ultimately have "sym_of_beam 12 (buf_total demo_senders) ([], 0) (demo_beam 1, [((demo_sender, NrMacSchedulerUeInfoPF (Num 1)), 128)]) =
      Inr ([(demo_beam 1, 12)], 12)"
    by (simp add: sym_of_beam_def buf_total_def demo_senders_def GetUeBufSize_def buf_beam_def rat_trunc_def map_emplace_def)
  then show ?thesis by (simp add: GetSymPerBeam_def demo_senders_def)
qed

lemma demo_sender_placeable: "placeable demo_sender"
  by (simp add: placeable_def demo_sender_def harq_wf_def hv_wf_def active_part_def HarqProcess_default_def proc_wf_def
      CanInsert_def hv_Size_def has_data_def lcg_wf_def lc_GetTotalSize_def)

theorem uplink_data_fits_witness:
  "\<exists>active' active'' news used. placed_all demo_cell [(demo_beam 1, 12)] 13 active' active'' news (13 - used) \<and> used \<le> 12 \<and>
     map (\<lambda>(b, ues). (b, map rnti_of ues)) (active' :: pf ActiveUeMap) = [(demo_beam 1, [7])]"
proof -
  have ready: "\<forall>el \<in> set demo_senders. beam_ready [(demo_beam 1, 12)] el"
    using demo_sender_placeable
    by (simp add: demo_senders_def beam_ready_def) (simp add: demo_sender_def demo_ue_def NrMacSchedulerUeInfo_def)
  have syms: "all_symbols [(demo_beam 1, 12)] \<le> unat (pt_sym \<lparr>pt_rbg = 0, pt_sym = 13\<rparr>)" by (simp add: all_symbols_def)
  have mask: "length (rbg_mask (c_bw demo_cell) (c_ulNotched demo_cell)) = unat (c_bw demo_cell)"
    "1 \<in> set (rbg_mask (c_bw demo_cell) (c_ulNotched demo_cell))"
    by (simp_all add: rbg_mask_def demo_cell_def)
  have env: "o_scheduleMode demo_ofdma \<noteq> 1" "o_bw demo_ofdma = c_bw demo_cell"
    "o_ulNotched demo_ofdma = c_ulNotched demo_cell"
    by (simp_all add: demo_ofdma_def demo_cell_def)
  have ne: "(0 :: u32) < 12" "demo_senders \<noteq> []" "distinct (map fst demo_senders)" by (simp_all add: demo_senders_def)
  have names: "map (\<lambda>(b, ues). (b, map rnti_of ues)) demo_senders = [(demo_beam 1, [7])]"
    by (simp add: demo_senders_def rnti_of_def demo_sender_def demo_ue_def NrMacSchedulerUeInfo_def)
  have "pt_rbg \<lparr>pt_rbg = 0, pt_sym = 13\<rparr> = 0" by simp
  from uplink_data_fits[where srt = sort_by and amc = "\<lambda>_ n. 3 * n" and
      triggerMap = "[]" and maxBuffer = 0 and slot = demo_empty_slot,
      OF mset_sort_by ofdma_subclassI(3)[of sort_by demo_libm "Num 99" "\<lambda>_ _. 50" "\<lambda>_ n. 3 * n"] demo_senders_syms ne ready syms this env mask]
  obtain active' active'' :: "pf ActiveUeMap" and news used where r:
    "placed_all demo_cell [(demo_beam 1, 12)] (unat (pt_sym \<lparr>pt_rbg = 0, pt_sym = 13\<rparr>)) active' active'' news
      (unat (pt_sym \<lparr>pt_rbg = 0, pt_sym = 13\<rparr>) - used)"
    "used \<le> all_symbols [(demo_beam 1, 12)]" "map (\<lambda>(b, ues). (b, map rnti_of ues)) active' = [(demo_beam 1, [7])]"
    unfolding names by (elim exE conjE) (rule that)
  have "unat (pt_sym \<lparr>pt_rbg = 0, pt_sym = 13\<rparr>) = 13" "all_symbols [(demo_beam 1, 12)] = 12" by (simp_all add: all_symbols_def)
  then show ?thesis using r by metis
qed

end
