(* ===== verification/Sounding.thy ===== *)
theory Sounding
  imports UlData
begin

text \<open>
  Sounding, \<open>DoScheduleSrs\<close> of \<open>contrib/nr/model/nr-mac-scheduler-ns3.cc\<close>: when the offsets are those that
  \<open>Srs\<close> hands out, every UE is sounded in exactly one slot of each period, in symbols of its own.
\<close>

definition srs_alloc :: "u16 \<Rightarrow> u8 \<Rightarrow> u16 \<Rightarrow> nat \<Rightarrow> VarTtiAllocInfo" where
  "srs_alloc bw bwpId rnti symb =
     VarTtiAllocInfo ((Dci_data rnti UL_DCI (of_nat symb) 1 [0] [0] [1] [0] SRS bwpId 1)
       \<lparr>dci_rbgBitmask := replicate (unat bw) 1\<rparr>)"

definition sounded :: "u16 \<Rightarrow> u8 \<Rightarrow> u16 \<Rightarrow> u8 \<Rightarrow> u8 \<Rightarrow> SlotAllocInfo \<Rightarrow> SlotAllocInfo" where
  "sounded bw bwpId rnti n symb slot =
     slot\<lparr>slot_numSymAlloc := slot_numSymAlloc slot + ucast n,
          slot_varTtiAllocInfo := map (srs_alloc bw bwpId rnti) [unat symb - unat n..<unat symb] @ slot_varTtiAllocInfo slot\<rparr>"

text \<open>The UEs share a periodicity, and have offsets and RNTIs of their own; RNTI 0 stands for no UE.\<close>

definition offsets_ok :: "u32 \<Rightarrow> (u16 \<times> UeInfo) list \<Rightarrow> bool" where
  "offsets_ok P ueMap \<longleftrightarrow> P \<noteq> 0 \<and>
     (\<forall>(k, ue) \<in> set ueMap. ue_srsPeriodicity ue = P \<and> ue_srsOffset ue < P \<and> ue_rnti ue = k \<and> k \<noteq> 0) \<and>
     distinct (map fst ueMap) \<and> distinct (map (ue_srsOffset \<circ> snd) ueMap)"

lemma srs_rnti_snoc:
  "srs_rnti r (m @ [(k, ue)]) = (if ue_srsOffset ue = r then ue_rnti ue else srs_rnti r m)"
  by (simp add: srs_rnti_def)

lemma srs_rnti_absent: "r \<notin> ue_srsOffset ` snd ` set m \<Longrightarrow> srs_rnti r m = 0"
  by (induction m rule: rev_induct) (auto simp: srs_rnti_snoc, simp add: srs_rnti_def)

lemma srs_rnti_present:
  assumes "distinct (map (ue_srsOffset \<circ> snd) m)" and "(k, ue) \<in> set m"
  shows "srs_rnti (ue_srsOffset ue) m = ue_rnti ue"
  using assms by (induction m rule: rev_induct) (force simp: srs_rnti_snoc)+

lemma srs_rnti_iff:
  assumes "offsets_ok P m" and "(k, ue) \<in> set m"
  shows "srs_rnti r m = k \<longleftrightarrow> r = ue_srsOffset ue"
proof (cases "r \<in> ue_srsOffset ` snd ` set m")
  case True
  then obtain k' ue' where u: "(k', ue') \<in> set m" "r = ue_srsOffset ue'" by auto
  have d: "distinct (map fst m)" "distinct (map (ue_srsOffset \<circ> snd) m)" using assms(1) by (auto simp: offsets_ok_def)
  have r: "ue_rnti ue' = k'" "ue_rnti ue = k" using assms u(1) by (auto simp: offsets_ok_def)
  have "srs_rnti r m = k'" using srs_rnti_present[OF d(2) u(1)] u(2) r by simp
  moreover have "ue' = ue" if "k' = k"
    using eq_key_imp_eq_value[OF d(1), of k ue' ue] u(1) assms(2) that by simp
  moreover have "(k', ue') = (k, ue)" if "ue_srsOffset ue' = ue_srsOffset ue"
    using inj_onD[OF conjunct2[OF iffD1[OF distinct_map d(2)]], of "(k', ue')" "(k, ue)"] u(1) assms(2) that by simp
  ultimately show ?thesis using u(2) by auto
next
  case False
  then have "srs_rnti r m = 0" by (rule srs_rnti_absent)
  moreover have "k \<noteq> 0" "ue_srsOffset ue \<noteq> r" using assms False by (auto simp: offsets_ok_def image_iff split_beta)
  ultimately show ?thesis by metis
qed

lemma srs_allocs_run:
  "m \<le> unat (pt_sym p) \<Longrightarrow> srs_allocs bw b k m p s =
     (p\<lparr>pt_sym := pt_sym p - of_nat m\<rparr>,
      s\<lparr>slot_numSymAlloc := slot_numSymAlloc s + of_nat m,
        slot_varTtiAllocInfo := map (srs_alloc bw b k) [unat (pt_sym p) - m..<unat (pt_sym p)] @ slot_varTtiAllocInfo s\<rparr>)"
proof (induction m arbitrary: p s)
  case 0
  then show ?case by simp
next
  case (Suc m)
  have sym: "unat (pt_sym p - 1) = unat (pt_sym p) - 1" using Suc.prems by (intro unat_minus_one) auto
  have up: "[unat (pt_sym p) - Suc m..<unat (pt_sym p)] = [unat (pt_sym p) - 1 - m..<unat (pt_sym p) - 1] @ [unat (pt_sym p) - 1]"
    using Suc.prems upt_Suc_append[of "unat (pt_sym p) - 1 - m" "unat (pt_sym p) - 1"] by (cases "unat (pt_sym p)") simp_all
  have one: "(of_nat (unat (pt_sym p) - Suc 0) :: u8) = pt_sym p - 1" using arg_cong[OF sym, of "of_nat :: nat \<Rightarrow> u8"] by simp
  have "m \<le> unat (pt_sym (p\<lparr>pt_sym := pt_sym p - 1\<rparr>))" using Suc.prems sym by simp
  then show ?case using Suc.IH by (simp add: Let_def up one srs_alloc_def sym algebra_simps)
qed

lemma srs_allocs_sounded:
  assumes "n \<le> pt_sym p"
  shows "srs_allocs bw b k (unat n) p s = (p\<lparr>pt_sym := pt_sym p - n\<rparr>, sounded bw b k n (pt_sym p) s)"
  using assms srs_allocs_run[of "unat n" p bw b k s] by (simp add: word_le_nat_alt sounded_def)

lemma DoScheduleSrs_cases:
  assumes "offsets_ok P m" and "m \<noteq> []" and "n \<le> pt_sym p"
  shows "DoScheduleSrs bw b n c m p s =
    (let k = srs_rnti (c mod P) m in
     if k = 0 then Inr (0, p, s) else Inr (n, p\<lparr>pt_sym := pt_sym p - n\<rparr>, sounded bw b k n (pt_sym p) s))"
  using assms srs_allocs_sounded[OF assms(3)]
  by (cases m) (auto simp: DoScheduleSrs_def offsets_ok_def Let_def)

lemma sounded_rnti:
  assumes "sounded bw b k n symb s = sounded bw b k' n symb s" and "0 < n" and "n \<le> symb"
  shows "k = k'"
proof -
  have "0 < unat n" "unat n \<le> unat symb" using assms(2,3) by (simp_all add: word_less_nat_alt word_le_nat_alt)
  then have "[unat symb - unat n..<unat symb] \<noteq> []" by simp
  then obtain x xs where x: "[unat symb - unat n..<unat symb] = x # xs" by (meson neq_Nil_conv)
  have "map (srs_alloc bw b k) (x # xs) = map (srs_alloc bw b k') (x # xs)"
    using arg_cong[OF assms(1), of slot_varTtiAllocInfo] by (simp add: sounded_def flip: x)
  then have "srs_alloc bw b k x = srs_alloc bw b k' x" by simp
  then have "dci_rnti (tti_dci (srs_alloc bw b k x)) = dci_rnti (tti_dci (srs_alloc bw b k' x))" by simp
  then show ?thesis by (simp add: srs_alloc_def VarTtiAllocInfo_def Dci_data_def)
qed

text \<open>
  C8. Every UE is sounded once per period. With offsets that are below the shared periodicity and that no two UEs share, and
  a slot counter that does not wrap in the period, there is for every UE exactly one slot of the next \<open>P\<close> in which the
  \<open>n\<close> symbols below the point go to it, one allocation over all RBGs per symbol, in front of the allocations of the slot.
\<close>
theorem sounded_once_per_period:
  assumes "offsets_ok P ueMap" and "(k, ue) \<in> set ueMap" and "0 < n" and "n \<le> pt_sym point"
    and "unat c + unat P \<le> 2 ^ 32"
  shows "\<exists>!i. i < unat P \<and> DoScheduleSrs bw b n (c + of_nat i) ueMap point slot =
    Inr (n, point\<lparr>pt_sym := pt_sym point - n\<rparr>, sounded bw b k n (pt_sym point) slot)"
proof -
  have ne: "ueMap \<noteq> []" "k \<noteq> 0" "ue_srsOffset ue < P" using assms(1,2) by (auto simp: offsets_ok_def)
  have "DoScheduleSrs bw b n (c + of_nat i) ueMap point slot =
      Inr (n, point\<lparr>pt_sym := pt_sym point - n\<rparr>, sounded bw b k n (pt_sym point) slot) \<longleftrightarrow>
      (unat c + i) mod unat P = unat (ue_srsOffset ue)" if "i < unat P" for i
  proof -
    let ?r = "(c + of_nat i) mod P"
    have "unat (c + of_nat i) = unat c + i"
      using that assms(5) by (simp add: unat_word_ariths unat_of_nat)
    then have r: "unat ?r = (unat c + i) mod unat P" by (simp add: unat_mod)
    have "DoScheduleSrs bw b n (c + of_nat i) ueMap point slot =
        Inr (n, point\<lparr>pt_sym := pt_sym point - n\<rparr>, sounded bw b k n (pt_sym point) slot) \<longleftrightarrow> srs_rnti ?r ueMap = k"
      using sounded_rnti[OF _ assms(3,4), of bw b "srs_rnti ?r ueMap" slot k] ne(2) assms(3)
      by (auto simp: DoScheduleSrs_cases[OF assms(1) ne(1) assms(4)] Let_def)
    also have "\<dots> \<longleftrightarrow> ?r = ue_srsOffset ue" by (rule srs_rnti_iff[OF assms(1,2)])
    also have "\<dots> \<longleftrightarrow> (unat c + i) mod unat P = unat (ue_srsOffset ue)" by (simp add: word_unat_eq_iff r)
    finally show ?thesis .
  qed
  then show ?thesis
    using unique_residue[of "unat (ue_srsOffset ue)" "unat P" "unat c"] ne(3)
    by (simp add: word_less_nat_alt cong: conj_cong)
qed

text \<open>Two UEs with a periodicity of 2, at counter 100, with the four symbols below symbol 13.\<close>

definition demo_sounding :: "(u16 \<times> UeInfo) list" where
  "demo_sounding = [(7, (demo_ue 7 9 0)\<lparr>ue_srsPeriodicity := 2, ue_srsOffset := 1\<rparr>),
                    (8, (demo_ue 8 9 0)\<lparr>ue_srsPeriodicity := 2, ue_srsOffset := 0\<rparr>)]"

theorem sounded_once_per_period_witness:
  "\<exists>!i. i < 2 \<and> DoScheduleSrs 24 0 4 (100 + of_nat i) demo_sounding \<lparr>pt_rbg = 0, pt_sym = 13\<rparr> demo_empty_slot =
    Inr (4, \<lparr>pt_rbg = 0, pt_sym = 9\<rparr>, sounded 24 0 7 4 13 demo_empty_slot)"
proof -
  have "offsets_ok 2 demo_sounding"
    by (simp add: offsets_ok_def demo_sounding_def demo_ue_def NrMacSchedulerUeInfo_def)
  from sounded_once_per_period[OF this, of 7 "(demo_ue 7 9 0)\<lparr>ue_srsPeriodicity := 2, ue_srsOffset := 1\<rparr>" 4
      "\<lparr>pt_rbg = 0, pt_sym = 13\<rparr>" 100 24 0 demo_empty_slot]
  show ?thesis by (simp add: demo_sounding_def)
qed

end
