(* ===== verification/RlcHeader.thy ===== *)
theory RlcHeader
  imports MacHeaders "HOL-Library.Signed_Division"
begin

text \<open>
  The RLC header and its sequence numbers: \<open>src/lte/model/lte-rlc-sequence-number.h\<close> and
  \<open>lte-rlc-header.cc\<close>. The header has an extension bit for every data field and a length indicator for every one but
  the last, packed two to three bytes.
\<close>

subsection \<open>Sequence numbers\<close>

record seqno =
  sn_value :: u16
  sn_base :: u16

definition SequenceNumber10 :: "u16 \<Rightarrow> seqno" where
  "SequenceNumber10 v = \<lparr>sn_value = v mod 1024, sn_base = 0\<rparr>"

definition sn_assign :: "seqno \<Rightarrow> u16 \<Rightarrow> seqno" where
  "sn_assign n v = n\<lparr>sn_value := v mod 1024\<rparr>"

definition SetModulusBase :: "seqno \<Rightarrow> seqno \<Rightarrow> seqno" where
  "SetModulusBase n base = n\<lparr>sn_base := sn_value base\<rparr>"

definition sn_next :: "seqno \<Rightarrow> seqno" where
  "sn_next n = n\<lparr>sn_value := ucast ((ucast (sn_value n) + 1 :: u32) mod 1024)\<rparr>"

text \<open>The operands are promoted to \<open>int\<close>, where the remainder of a negative difference is negative.\<close>

definition sn_plus :: "seqno \<Rightarrow> u16 \<Rightarrow> seqno" where
  "sn_plus n delta = (SequenceNumber10 (of_int ((uint (sn_value n) + uint delta) smod 1024)))\<lparr>sn_base := sn_base n\<rparr>"

definition sn_minus :: "seqno \<Rightarrow> u16 \<Rightarrow> seqno" where
  "sn_minus n delta = (SequenceNumber10 (of_int ((uint (sn_value n) - uint delta) smod 1024)))\<lparr>sn_base := sn_base n\<rparr>"

definition sn_offset :: "seqno \<Rightarrow> u16" where
  "sn_offset n = of_int ((uint (sn_value n) - uint (sn_base n)) smod 1024)"

definition sn_greater :: "seqno \<Rightarrow> seqno \<Rightarrow> bool res" where
  "sn_greater a b = ns_assert (sn_base a = sn_base b) (Inr (sn_offset a > sn_offset b))"

definition sn_le :: "seqno \<Rightarrow> seqno \<Rightarrow> bool res" where
  "sn_le a b = bindE (sn_greater a b) (\<lambda>g. Inr (\<not> g))"

definition sn_less :: "seqno \<Rightarrow> seqno \<Rightarrow> bool res" where
  "sn_less a b = bindE (sn_greater a b) (\<lambda>g. Inr (\<not> g \<and> sn_value a \<noteq> sn_value b))"

subsection \<open>The header\<close>

record rlc_header =
  rh_headerLength :: u16
  rh_framingInfo :: u8
  rh_sequenceNumber :: seqno
  rh_extensionBits :: "u8 list"
  rh_lengthIndicators :: "u16 list"

definition LteRlcHeader :: rlc_header where
  "LteRlcHeader = \<lparr>rh_headerLength = 0, rh_framingInfo = 0xff, rh_sequenceNumber = SequenceNumber10 0xfffa,
     rh_extensionBits = [], rh_lengthIndicators = []\<rparr>"

definition DATA_FIELD_FOLLOWS :: u8 where "DATA_FIELD_FOLLOWS = 0"
definition E_LI_FIELDS_FOLLOWS :: u8 where "E_LI_FIELDS_FOLLOWS = 1"
definition FIRST_BYTE :: u8 where "FIRST_BYTE = 0"
definition NO_FIRST_BYTE :: u8 where "NO_FIRST_BYTE = 2"
definition LAST_BYTE :: u8 where "LAST_BYTE = 0"
definition NO_LAST_BYTE :: u8 where "NO_LAST_BYTE = 1"

definition SetFramingInfo :: "rlc_header \<Rightarrow> u8 \<Rightarrow> rlc_header" where
  "SetFramingInfo h framingInfo = h\<lparr>rh_framingInfo := framingInfo AND 0x03\<rparr>"

definition PushExtensionBit :: "rlc_header \<Rightarrow> u8 \<Rightarrow> rlc_header" where
  "PushExtensionBit h extensionBit =
     (let h = h\<lparr>rh_extensionBits := rh_extensionBits h @ [extensionBit]\<rparr>; n = length (rh_extensionBits h) in
      if n = 1 then h\<lparr>rh_headerLength := 2\<rparr>
      else if n mod 2 \<noteq> 0 then h\<lparr>rh_headerLength := rh_headerLength h + 1\<rparr>
      else h\<lparr>rh_headerLength := rh_headerLength h + 2\<rparr>)"

definition PushLengthIndicator :: "rlc_header \<Rightarrow> u16 \<Rightarrow> rlc_header" where
  "PushLengthIndicator h lengthIndicator = h\<lparr>rh_lengthIndicators := rh_lengthIndicators h @ [lengthIndicator]\<rparr>"

definition PopExtensionBit :: "rlc_header \<Rightarrow> (u8 \<times> rlc_header) res" where
  "PopExtensionBit h = (case rh_extensionBits h of [] \<Rightarrow> Inl Undefined
     | e # r \<Rightarrow> Inr (e, h\<lparr>rh_extensionBits := r\<rparr>))"

definition PopLengthIndicator :: "rlc_header \<Rightarrow> (u16 \<times> rlc_header) res" where
  "PopLengthIndicator h = (case rh_lengthIndicators h of [] \<Rightarrow> Inl Undefined
     | l # r \<Rightarrow> Inr (l, h\<lparr>rh_lengthIndicators := r\<rparr>))"

text \<open>Bytes as the C++ computes them, with operands promoted to \<open>int\<close>.\<close>

definition byte_of :: "u32 \<Rightarrow> u8" where
  "byte_of = ucast"

definition odd_1 :: "u8 \<Rightarrow> u16 \<Rightarrow> u8" where
  "odd_1 oddE oddLi = byte_of ((push_bit 7 (ucast oddE) AND 0x80) OR (drop_bit 4 (ucast oddLi) AND 0x7F))"

definition odd_2 :: "u16 \<Rightarrow> u8" where
  "odd_2 oddLi = byte_of (push_bit 4 (ucast oddLi) AND 0xF0)"

definition even_2 :: "u16 \<Rightarrow> u8 \<Rightarrow> u16 \<Rightarrow> u8" where
  "even_2 oddLi evenE evenLi = byte_of ((push_bit 4 (ucast oddLi) AND 0xF0) OR (push_bit 3 (ucast evenE) AND 0x08) OR
     (drop_bit 8 (ucast evenLi) AND 0x07))"

definition even_3 :: "u16 \<Rightarrow> u8" where
  "even_3 evenLi = byte_of (ucast evenLi AND 0xFF)"

fun write_li :: "u8 list \<Rightarrow> u16 list \<Rightarrow> bytes" where
  "write_li (oddE # evenE # es) (oddLi # evenLi # ls) =
     [odd_1 oddE oddLi, even_2 oddLi evenE evenLi, even_3 evenLi] @ write_li es ls"
| "write_li (oddE # es) (oddLi # ls) = [odd_1 oddE oddLi, odd_2 oddLi]"
| "write_li _ _ = []"

definition rlc_Serialize :: "rlc_header \<Rightarrow> bytes res" where
  "rlc_Serialize h =
     (case rh_extensionBits h of [] \<Rightarrow> Inl Undefined
      | e # es \<Rightarrow>
          let sn = ucast (sn_value (rh_sequenceNumber h)) in
          Inr ([byte_of ((push_bit 3 (ucast (rh_framingInfo h)) AND 0x18) OR (push_bit 2 (ucast e) AND 0x04) OR
                         (drop_bit 8 sn AND 0x03)),
                byte_of (sn AND 0xFF)] @ write_li es (rh_lengthIndicators h)))"

definition byte_bits :: "u8 \<Rightarrow> u32" where
  "byte_bits = ucast"

definition read_odd :: "u8 \<Rightarrow> u8 \<Rightarrow> u8 \<times> u16" where
  "read_odd byte_1 byte_2 =
     (ucast (drop_bit 7 (byte_bits byte_1 AND 0x80)),
      ucast (push_bit 4 (byte_bits byte_1 AND 0x7F) OR drop_bit 4 (byte_bits byte_2 AND 0xF0)))"

definition read_even :: "u8 \<Rightarrow> u8 \<Rightarrow> u8 \<times> u16" where
  "read_even byte_2 byte_3 =
     (ucast (drop_bit 3 (byte_bits byte_2 AND 0x08)),
      ucast (push_bit 8 (byte_bits byte_2 AND 0x07) OR (byte_bits byte_3 AND 0xFF)))"

text \<open>Two bytes for an odd field and one more for an even one; the loop ends with the input at the latest.\<close>

fun read_li :: "rlc_header \<Rightarrow> bytes \<Rightarrow> rlc_header res" where
  "read_li h (byte_1 # byte_2 # i) =
     (let (oddE, oddLi) = read_odd byte_1 byte_2;
          h = h\<lparr>rh_extensionBits := rh_extensionBits h @ [oddE], rh_lengthIndicators := rh_lengthIndicators h @ [oddLi],
                rh_headerLength := rh_headerLength h + 2\<rparr> in
      if oddE = E_LI_FIELDS_FOLLOWS then
        (case i of
           [] \<Rightarrow> Inl AssertFailed
         | byte_3 # i \<Rightarrow>
             let (evenE, evenLi) = read_even byte_2 byte_3;
                 h = h\<lparr>rh_extensionBits := rh_extensionBits h @ [evenE],
                       rh_lengthIndicators := rh_lengthIndicators h @ [evenLi],
                       rh_headerLength := rh_headerLength h + 1\<rparr> in
             if evenE = E_LI_FIELDS_FOLLOWS then read_li h i else Inr h)
      else Inr h)"
| "read_li h _ = Inl AssertFailed"

definition rlc_Deserialize :: "rlc_header \<Rightarrow> bytes \<Rightarrow> rlc_header res" where
  "rlc_Deserialize h bs =
     bindE (ReadU8 bs) (\<lambda>(byte_1, i).
     bindE (ReadU8 i) (\<lambda>(byte_2, i).
     let extensionBit = ucast (drop_bit 2 (byte_bits byte_1 AND 0x04));
         h = h\<lparr>rh_headerLength := 2, rh_framingInfo := ucast (drop_bit 3 (byte_bits byte_1 AND 0x18)),
               rh_sequenceNumber := sn_assign (rh_sequenceNumber h)
                 (ucast (push_bit 8 (byte_bits byte_1 AND 0x03) OR byte_bits byte_2)),
               rh_extensionBits := rh_extensionBits h @ [extensionBit]\<rparr> in
     if extensionBit = DATA_FIELD_FOLLOWS then Inr h
     else if extensionBit = E_LI_FIELDS_FOLLOWS then read_li h i else Inr h))"

subsection \<open>Round trip\<close>

lemma rlc_masks:
  "(0x80 :: u32) = push_bit 7 (mask 1)" "(0x7F :: u32) = mask 7" "(0xF0 :: u32) = push_bit 4 (mask 4)"
  "(0x08 :: u32) = push_bit 3 (mask 1)" "(0x07 :: u32) = mask 3" "(0xFF :: u32) = mask 8"
  "(0x18 :: u32) = push_bit 3 (mask 2)" "(0x04 :: u32) = push_bit 2 (mask 1)" "(0x03 :: u32) = mask 2"
  by (simp_all add: mask_eq_exp_minus_1 push_bit_eq_mult)

lemma rlc_mask_bits:
  "bit (0x80 :: u32) n \<longleftrightarrow> n = 7" "bit (0x7F :: u32) n \<longleftrightarrow> n < 7" "bit (0xF0 :: u32) n \<longleftrightarrow> 4 \<le> n \<and> n < 8"
  "bit (0x08 :: u32) n \<longleftrightarrow> n = 3" "bit (0x07 :: u32) n \<longleftrightarrow> n < 3" "bit (0xFF :: u32) n \<longleftrightarrow> n < 8"
  "bit (0x18 :: u32) n \<longleftrightarrow> 3 \<le> n \<and> n < 5" "bit (0x04 :: u32) n \<longleftrightarrow> n = 2" "bit (0x03 :: u32) n \<longleftrightarrow> n < 2"
  unfolding rlc_masks bit_push_bit_iff bit_mask_iff possible_bit_word by auto

lemmas rlc_bits = rlc_mask_bits byte_of_def byte_bits_def bit_and_iff bit_or_iff bit_ucast_iff bit_push_bit_iff
  bit_drop_bit_eq comp_def

lemma small_bits:
  fixes w :: "'a::len word"
  assumes "unat w < 2 ^ n" and "bit w k"
  shows "k < n"
proof (rule ccontr)
  assume "\<not> k < n"
  have "bit (unat w) k" using assms(2) by (simp add: bit_unsigned_iff)
  moreover have "take_bit n (unat w) = unat w" using assms(1) by (simp add: take_bit_nat_eq_self_iff)
  ultimately show False using \<open>\<not> k < n\<close> by (metis bit_take_bit_iff)
qed

lemma odd_field:
  assumes "unat e < 2 ^ 1" and "unat l < 2 ^ 11" and "\<And>k. bit (byte_bits b AND 0xF0) k \<longleftrightarrow> 4 \<le> k \<and> k < 8 \<and> bit l (k - 4)"
  shows "read_odd (odd_1 e l) b = (e, l)"
proof -
  note sm = small_bits[OF assms(1)] small_bits[OF assms(2)]
  have "ucast (drop_bit 7 (byte_bits (odd_1 e l) AND 0x80)) = e"
    by (rule bit_word_eqI, unfold odd_1_def rlc_bits) (auto dest: sm)
  moreover have "ucast (push_bit 4 (byte_bits (odd_1 e l) AND 0x7F) OR drop_bit 4 (byte_bits b AND 0xF0)) = l"
  proof (rule bit_word_eqI)
    fix n assume "n < LENGTH(16)"
    have b: "bit (drop_bit 4 (byte_bits b AND 0xF0)) n \<longleftrightarrow> n < 4 \<and> bit l n"
      unfolding bit_drop_bit_eq comp_def assms(3) by auto
    show "bit (ucast (push_bit 4 (byte_bits (odd_1 e l) AND 0x7F) OR drop_bit 4 (byte_bits b AND 0xF0)) :: u16) n = bit l n"
      using \<open>n < LENGTH(16)\<close> unfolding bit_ucast_iff bit_or_iff b unfolding odd_1_def rlc_bits by (auto dest: sm)
  qed
  ultimately show ?thesis by (simp add: read_odd_def)
qed

lemma odd_2_bits: "bit (byte_bits (odd_2 l) AND 0xF0) k \<longleftrightarrow> 4 \<le> k \<and> k < 8 \<and> bit l (k - 4)"
  unfolding odd_2_def rlc_bits by auto

lemma even_2_bits: "bit (byte_bits (even_2 l e l') AND 0xF0) k \<longleftrightarrow> 4 \<le> k \<and> k < 8 \<and> bit l (k - 4)"
  unfolding even_2_def rlc_bits by auto

lemma even_field:
  assumes "unat e < 2 ^ 1" and "unat l' < 2 ^ 11"
  shows "read_even (even_2 l e l') (even_3 l') = (e, l')"
proof -
  note sm = small_bits[OF assms(1)] small_bits[OF assms(2)]
  have "ucast (drop_bit 3 (byte_bits (even_2 l e l') AND 0x08)) = e"
    by (rule bit_word_eqI, unfold even_2_def rlc_bits) (auto dest: sm)
  moreover have "ucast (push_bit 8 (byte_bits (even_2 l e l') AND 0x07) OR (byte_bits (even_3 l') AND 0xFF)) = l'"
    by (rule bit_word_eqI, unfold even_2_def even_3_def rlc_bits) (auto dest: sm)
  ultimately show ?thesis by (simp add: read_even_def)
qed

lemmas field_rounds = odd_field[OF _ _ odd_2_bits] odd_field[OF _ _ even_2_bits] even_field

text \<open>A header for \<open>n + 1\<close> data fields.\<close>

definition li_bytes :: "nat \<Rightarrow> nat" where
  "li_bytes n = n + (n + 1) div 2"

definition header_ok :: "rlc_header \<Rightarrow> bool" where
  "header_ok h \<longleftrightarrow> rh_extensionBits h = replicate (length (rh_lengthIndicators h)) 1 @ [0] \<and>
     (\<forall>l \<in> set (rh_lengthIndicators h). unat l < 2 ^ 11) \<and> unat (rh_framingInfo h) < 2 ^ 2 \<and>
     unat (sn_value (rh_sequenceNumber h)) < 2 ^ 10 \<and>
     rh_headerLength h = of_nat (2 + li_bytes (length (rh_lengthIndicators h)))"

lemma write_li_length:
  "length es = length ls \<Longrightarrow> length (write_li es ls) = li_bytes (length ls)"
  by (induction es ls rule: write_li.induct) (auto simp: li_bytes_def)

lemma read_write_li:
  assumes "ls \<noteq> []" and "\<forall>l \<in> set ls. unat l < 2 ^ 11"
  shows "read_li h (write_li (replicate (length ls - 1) 1 @ [0]) ls @ rest) =
    Inr (h\<lparr>rh_extensionBits := rh_extensionBits h @ replicate (length ls - 1) 1 @ [0],
           rh_lengthIndicators := rh_lengthIndicators h @ ls,
           rh_headerLength := rh_headerLength h + of_nat (li_bytes (length ls))\<rparr>)"
  using assms
proof (induction ls arbitrary: h rule: induct_list012)
  case 1
  then show ?case by simp
next
  case (2 l)
  then show ?case by (simp add: field_rounds E_LI_FIELDS_FOLLOWS_def li_bytes_def)
next
  case (3 l l' ls)
  show ?case
  proof (cases ls)
    case Nil
    then show ?thesis using "3.prems" by (simp add: field_rounds E_LI_FIELDS_FOLLOWS_def li_bytes_def)
  next
    case (Cons k r)
    then have "replicate (length (l # l' # ls) - 1) (1 :: u8) @ [0] = 1 # 1 # replicate (length ls - 1) 1 @ [0]"
      by simp
    moreover have "li_bytes (length (l # l' # ls)) = 3 + li_bytes (length ls)" by (simp add: li_bytes_def)
    ultimately show ?thesis using "3.prems" "3.IH"(1) Cons
      by (simp add: field_rounds E_LI_FIELDS_FOLLOWS_def algebra_simps)
  qed
qed

lemma fixed_part:
  assumes "unat fi < 2 ^ 2" and "unat e < 2 ^ 1" and "unat sn < 2 ^ 10"
    and "b1 = byte_of ((push_bit 3 (ucast (fi :: u8)) AND 0x18) OR (push_bit 2 (ucast (e :: u8)) AND 0x04) OR
      (drop_bit 8 (ucast (sn :: u16)) AND 0x03))" and "b2 = byte_of (ucast sn AND 0xFF)"
  shows "ucast (drop_bit 2 (byte_bits b1 AND 0x04)) = e" and "ucast (drop_bit 3 (byte_bits b1 AND 0x18)) = fi"
    and "ucast (push_bit 8 (byte_bits b1 AND 0x03) OR byte_bits b2) = sn"
proof -
  note sm = small_bits[OF assms(1)] small_bits[OF assms(2)] small_bits[OF assms(3)]
  show "ucast (drop_bit 2 (byte_bits b1 AND 0x04)) = e"
    by (rule bit_word_eqI, unfold assms(4) rlc_bits) (auto dest: sm)
  show "ucast (drop_bit 3 (byte_bits b1 AND 0x18)) = fi"
    by (rule bit_word_eqI, unfold assms(4) rlc_bits) (auto dest: sm)
  show "ucast (push_bit 8 (byte_bits b1 AND 0x03) OR byte_bits b2) = sn"
    by (rule bit_word_eqI, unfold assms(4,5) rlc_bits) (auto dest: sm)
qed

lemma rlc_header_read:
  assumes "header_ok h" and "rlc_Serialize h = Inr bs"
  shows "rlc_Deserialize LteRlcHeader (bs @ rest) =
      Inr (h\<lparr>rh_sequenceNumber := \<lparr>sn_value = sn_value (rh_sequenceNumber h), sn_base = 0\<rparr>\<rparr>)"
    and "length bs = 2 + li_bytes (length (rh_lengthIndicators h))"
proof -
  let ?ls = "rh_lengthIndicators h" and ?n = "length (rh_lengthIndicators h)"
  have ok: "rh_extensionBits h = replicate ?n 1 @ [0]" "\<forall>l \<in> set ?ls. unat l < 2 ^ 11"
    "unat (rh_framingInfo h) < 2 ^ 2" "unat (sn_value (rh_sequenceNumber h)) < 2 ^ 10"
    "rh_headerLength h = of_nat (2 + li_bytes ?n)"
    using assms(1) by (auto simp: header_ok_def)
  have sn: "sn_assign (SequenceNumber10 0xfffa) (sn_value (rh_sequenceNumber h)) =
      \<lparr>sn_value = sn_value (rh_sequenceNumber h), sn_base = 0\<rparr>"
    using ok(4) by (simp add: sn_assign_def SequenceNumber10_def word_unat_eq_iff unat_mod)
  obtain e es where e: "rh_extensionBits h = e # es" using ok(1) by (cases ?n) auto
  have e1: "unat e < 2 ^ 1" using e ok(1) by (cases ?n) auto
  obtain b1 b2 where b: "bs = b1 # b2 # write_li es ?ls"
      "b1 = byte_of ((push_bit 3 (ucast (rh_framingInfo h)) AND 0x18) OR (push_bit 2 (ucast e) AND 0x04) OR
        (drop_bit 8 (ucast (sn_value (rh_sequenceNumber h))) AND 0x03))"
      "b2 = byte_of (ucast (sn_value (rh_sequenceNumber h)) AND 0xFF)"
    using assms(2) e by (simp add: rlc_Serialize_def Let_def)
  note fixed = fixed_part[OF ok(3) e1 ok(4) b(2,3)]
  have "length es = ?n" using e ok(1) by (metis length_Cons length_append_singleton length_replicate nat.inject)
  then show "length bs = 2 + li_bytes ?n" using b(1) write_li_length by simp
  have read: "rlc_Deserialize LteRlcHeader (bs @ rest) =
    (let g = \<lparr>rh_headerLength = 2, rh_framingInfo = rh_framingInfo h,
       rh_sequenceNumber = \<lparr>sn_value = sn_value (rh_sequenceNumber h), sn_base = 0\<rparr>,
       rh_extensionBits = [e], rh_lengthIndicators = []\<rparr> in
     if e = DATA_FIELD_FOLLOWS then Inr g
     else if e = E_LI_FIELDS_FOLLOWS then read_li g (write_li es ?ls @ rest) else Inr g)"
    unfolding b(1) append_Cons rlc_Deserialize_def ReadU8_def list.case bindE_simps prod.case Let_def fixed
    by (simp add: LteRlcHeader_def sn)
  show "rlc_Deserialize LteRlcHeader (bs @ rest) =
      Inr (h\<lparr>rh_sequenceNumber := \<lparr>sn_value = sn_value (rh_sequenceNumber h), sn_base = 0\<rparr>\<rparr>)"
  proof (cases ?ls)
    case Nil
    then have "e = 0" using e ok(1) by auto
    then show ?thesis using Nil ok(1,5) e by (simp add: read DATA_FIELD_FOLLOWS_def li_bytes_def)
  next
    case (Cons l r)
    then have x: "e = 1" "es = replicate (?n - 1) 1 @ [0]" using e ok(1) by auto
    have "?ls \<noteq> []" using Cons by simp
    note rw = read_write_li[OF this ok(2), unfolded One_nat_def]
    show ?thesis using x ok(1,5) e
      by (simp add: read DATA_FIELD_FOLLOWS_def E_LI_FIELDS_FOLLOWS_def rw algebra_simps)
  qed
qed

text \<open>
  C16. A header is read back from the front of any packet that begins with it: framing, sequence number, the length
  indicators and the extension bits, for any number of data fields; its length is the number of bytes written.
\<close>
theorem rlc_header_roundtrip:
  assumes "header_ok h"
  shows "\<exists>bs. rlc_Serialize h = Inr bs \<and> length bs = 2 + li_bytes (length (rh_lengthIndicators h)) \<and>
    rh_headerLength h = of_nat (length bs) \<and>
    (\<forall>rest. rlc_Deserialize LteRlcHeader (bs @ rest) =
       Inr (h\<lparr>rh_sequenceNumber := \<lparr>sn_value = sn_value (rh_sequenceNumber h), sn_base = 0\<rparr>\<rparr>))"
proof -
  obtain bs where bs: "rlc_Serialize h = Inr bs"
    using assms by (cases "rh_lengthIndicators h") (auto simp: header_ok_def rlc_Serialize_def Let_def)
  show ?thesis using bs rlc_header_read[OF assms bs] assms by (auto simp: header_ok_def)
qed

definition demo_header :: rlc_header where
  "demo_header = \<lparr>rh_headerLength = 7, rh_framingInfo = 1, rh_sequenceNumber = \<lparr>sn_value = 1023, sn_base = 5\<rparr>,
     rh_extensionBits = [1, 1, 1, 0], rh_lengthIndicators = [2047, 1, 300]\<rparr>"

theorem rlc_header_roundtrip_witness:
  "\<exists>bs. rlc_Serialize demo_header = Inr bs \<and> length bs = 7 \<and>
     rlc_Deserialize LteRlcHeader (bs @ [0xAB]) = Inr (demo_header\<lparr>rh_sequenceNumber := \<lparr>sn_value = 1023, sn_base = 0\<rparr>\<rparr>)"
proof -
  have "header_ok demo_header" by (simp add: header_ok_def demo_header_def li_bytes_def numeral_3_eq_3)
  from rlc_header_roundtrip[OF this] show ?thesis by (fastforce simp: demo_header_def li_bytes_def)
qed

end
