(* ===== verification/RlcUm.thy ===== *)
theory RlcUm
  imports RlcHeader
begin

text \<open>
  The unacknowledged mode of the RLC, \<open>src/lte/model/lte-rlc-um.cc\<close>: segmentation of the queued SDUs into the
  opportunities the MAC grants, and the reordering and reassembly of the PDUs at the other end. A packet is the list of its
  bytes; the status tag of a segment is kept beside it. Times are in nanoseconds. What the SAP carries for traces is left out.
\<close>

subsection \<open>Service access points\<close>

record ReportBufferStatusParameters =
  rb_rnti :: u16
  rb_lcid :: u8
  rb_txQueueSize :: u32
  rb_txQueueHolDelay :: u16
  rb_retxQueueSize :: u32
  rb_retxQueueHolDelay :: u16
  rb_statusPduSize :: u16

record TransmitPduParameters =
  tp_pdu :: bytes
  tp_rnti :: u16
  tp_lcid :: u8
  tp_layer :: u8
  tp_harqProcessId :: u8
  tp_componentCarrierId :: u8

record TxOpportunityParameters =
  to_bytes :: u32
  to_layer :: u8
  to_harqId :: u8
  to_componentCarrierId :: u8
  to_rnti :: u16
  to_lcid :: u8

subsection \<open>State\<close>

datatype SduStatus = FULL_SDU | FIRST_SEGMENT | MIDDLE_SEGMENT | LAST_SEGMENT | ANY_SEGMENT

record TxPdu =
  tx_pdu :: bytes
  tx_status :: SduStatus
  tx_waitingSince :: int

datatype ReassemblingState = NONE | WAITING_S0_FULL | WAITING_SI_SF

record um =
  um_rnti :: u16
  um_lcid :: u8
  um_maxTxBufferSize :: u32
  um_txBufferSize :: u32
  um_txBuffer :: "TxPdu list"
  um_sequenceNumber :: seqno
  um_rbsTimer :: "int option"
  um_rxBuffer :: "(u16 \<times> bytes) list"
  um_sdusBuffer :: "bytes list"
  um_vrUr :: seqno
  um_vrUx :: seqno
  um_vrUh :: seqno
  um_windowSize :: u16
  um_reorderingTimer :: bool
  um_reassemblingState :: ReassemblingState
  um_keepS0 :: "bytes option"
  um_expectedSeqNumber :: seqno

definition LteRlcUm :: "u16 \<Rightarrow> u8 \<Rightarrow> um" where
  "LteRlcUm rnti lcid = \<lparr>um_rnti = rnti, um_lcid = lcid, um_maxTxBufferSize = 10 * 1024, um_txBufferSize = 0,
     um_txBuffer = [], um_sequenceNumber = SequenceNumber10 0, um_rbsTimer = None, um_rxBuffer = [], um_sdusBuffer = [],
     um_vrUr = SequenceNumber10 0, um_vrUx = SequenceNumber10 0, um_vrUh = SequenceNumber10 0, um_windowSize = 512,
     um_reorderingTimer = False, um_reassemblingState = WAITING_S0_FULL, um_keepS0 = None,
     um_expectedSeqNumber = SequenceNumber10 0\<rparr>"

definition GetSize :: "bytes \<Rightarrow> u32" where
  "GetSize p = of_nat (length p)"

subsection \<open>Transmission\<close>

definition um_DoReportBufferStatus :: "int \<Rightarrow> um \<Rightarrow> ReportBufferStatusParameters" where
  "um_DoReportBufferStatus now s =
     (let (queueSize, holDelay) =
        (case um_txBuffer s of
           [] \<Rightarrow> (0, 0)
         | x # _ \<Rightarrow> (um_txBufferSize s + 2 * of_nat (length (um_txBuffer s)), now - tx_waitingSince x)) in
      \<lparr>rb_rnti = um_rnti s, rb_lcid = um_lcid s, rb_txQueueSize = queueSize,
       rb_txQueueHolDelay = of_int (holDelay sdiv 1000000), rb_retxQueueSize = 0, rb_retxQueueHolDelay = 0,
       rb_statusPduSize = 0\<rparr>)"

definition DoTransmitPdcpPdu :: "int \<Rightarrow> um \<Rightarrow> bytes \<Rightarrow> um \<times> ReportBufferStatusParameters" where
  "DoTransmitPdcpPdu now s p =
     (let s = (if um_txBufferSize s + GetSize p \<le> um_maxTxBufferSize s then
                 s\<lparr>um_txBuffer := um_txBuffer s @ [\<lparr>tx_pdu = p, tx_status = FULL_SDU, tx_waitingSince = now\<rparr>],
                   um_txBufferSize := um_txBufferSize s + GetSize p\<rparr>
               else s)
      in (s\<lparr>um_rbsTimer := None\<rparr>, um_DoReportBufferStatus now s))"

text \<open>
  The part of a segment that fits and what is given back. A segment above 2047 bytes is split as well, even when it fits,
  since a length indicator has 11 bits.
\<close>

definition take_segment :: "TxPdu \<Rightarrow> u32 \<Rightarrow> TxPdu \<times> TxPdu option" where
  "take_segment firstSegment nextSegmentSize =
     (let currSegmentSize = min (GetSize (tx_pdu firstSegment)) nextSegmentSize;
          newSegment = take (unat currSegmentSize) (tx_pdu firstSegment);
          remaining = drop (unat currSegmentSize) (tx_pdu firstSegment);
          (newTag, oldTag) = (if tx_status firstSegment = FULL_SDU then (FIRST_SEGMENT, LAST_SEGMENT)
            else if tx_status firstSegment = LAST_SEGMENT then (MIDDLE_SEGMENT, LAST_SEGMENT)
            else (tx_status firstSegment, tx_status firstSegment)) in
      if GetSize remaining > 0 then
        (firstSegment\<lparr>tx_pdu := newSegment, tx_status := newTag\<rparr>,
         Some (firstSegment\<lparr>tx_pdu := remaining, tx_status := oldTag\<rparr>))
      else
        (firstSegment\<lparr>tx_pdu := newSegment,
                      tx_status := (if newTag = FIRST_SEGMENT then FULL_SDU
                                    else if newTag = MIDDLE_SEGMENT then LAST_SEGMENT else newTag)\<rparr>, None))"

text \<open>The data fields, the header, and the buffer with its size.\<close>

fun fill_data :: "TxPdu \<Rightarrow> u32 \<Rightarrow> u32 \<Rightarrow> TxPdu list \<Rightarrow> rlc_header \<Rightarrow> u32 \<Rightarrow> TxPdu list \<Rightarrow>
    TxPdu list \<times> rlc_header \<times> u32 \<times> TxPdu list" where
  "fill_data firstSegment nextSegmentSize nextSegmentId dataField rlcHeader txBufferSize txBuffer =
     (let sz = GetSize (tx_pdu firstSegment) in
      if \<not> (sz > 0 \<and> nextSegmentSize > 0) then (dataField, rlcHeader, txBufferSize, txBuffer)
      else if sz > nextSegmentSize \<or> sz > 2047 then
        (let (newSegment, remaining) = take_segment firstSegment nextSegmentSize;
             rlcHeader = PushExtensionBit rlcHeader DATA_FIELD_FOLLOWS in
         case remaining of
           None \<Rightarrow> (dataField @ [newSegment], rlcHeader, txBufferSize, txBuffer)
         | Some x \<Rightarrow> (dataField @ [newSegment], rlcHeader, txBufferSize + GetSize (tx_pdu x), x # txBuffer))
      else if nextSegmentSize - sz \<le> 2 \<or> txBuffer = [] then
        (dataField @ [firstSegment], PushExtensionBit rlcHeader DATA_FIELD_FOLLOWS, txBufferSize, txBuffer)
      else
        (case txBuffer of
           [] \<Rightarrow> (dataField, rlcHeader, txBufferSize, txBuffer)
         | x # rest \<Rightarrow>
             fill_data x (nextSegmentSize - ((if nextSegmentId mod 2 \<noteq> 0 then 2 else 1) + sz)) (nextSegmentId + 1)
               (dataField @ [firstSegment])
               (PushLengthIndicator (PushExtensionBit rlcHeader E_LI_FIELDS_FOLLOWS) (ucast sz))
               (txBufferSize - GetSize (tx_pdu x)) rest))"

declare fill_data.simps [simp del]

definition framing_of :: "TxPdu list \<Rightarrow> u8" where
  "framing_of dataField =
     ((if tx_status (hd dataField) = FULL_SDU \<or> tx_status (hd dataField) = FIRST_SEGMENT then FIRST_BYTE else NO_FIRST_BYTE) OR
      (if tx_status (last dataField) = FULL_SDU \<or> tx_status (last dataField) = LAST_SEGMENT then LAST_BYTE else NO_LAST_BYTE))"

definition um_DoNotifyTxOpportunity :: "int \<Rightarrow> um \<Rightarrow> TxOpportunityParameters \<Rightarrow> (um \<times> TransmitPduParameters option) res" where
  "um_DoNotifyTxOpportunity now s txOpParams =
     (if to_bytes txOpParams \<le> 2 then Inr (s, None)
      else case um_txBuffer s of
        [] \<Rightarrow> Inr (s, None)
      | x # rest \<Rightarrow>
          let (dataField, rlcHeader, txBufferSize, txBuffer) =
                fill_data x (to_bytes txOpParams - 2) 1 [] LteRlcHeader (um_txBufferSize s - GetSize (tx_pdu x)) rest;
              rlcHeader = rlcHeader\<lparr>rh_sequenceNumber := um_sequenceNumber s\<rparr>;
              s = s\<lparr>um_txBuffer := txBuffer, um_txBufferSize := txBufferSize,
                    um_sequenceNumber := sn_next (um_sequenceNumber s)\<rparr> in
          defined_if (dataField \<noteq> [])
          (bindE (rlc_Serialize (SetFramingInfo rlcHeader (framing_of dataField))) (\<lambda>hdr.
             Inr (if um_txBuffer s \<noteq> [] then s\<lparr>um_rbsTimer := Some (now + 10000000)\<rparr> else s,
                  Some \<lparr>tp_pdu = hdr @ concat (map tx_pdu dataField), tp_rnti = um_rnti s, tp_lcid = um_lcid s,
                        tp_layer = to_layer txOpParams, tp_harqProcessId = to_harqId txOpParams,
                        tp_componentCarrierId = to_componentCarrierId txOpParams\<rparr>))))"

definition ExpireRbsTimer :: "int \<Rightarrow> um \<Rightarrow> um \<times> ReportBufferStatusParameters option" where
  "ExpireRbsTimer now s =
     (if um_txBuffer s \<noteq> [] then (s\<lparr>um_rbsTimer := Some (now + 2000000)\<rparr>, Some (um_DoReportBufferStatus now s))
      else (s, None))"

subsection \<open>Reassembly\<close>

definition CreateFragment :: "bytes \<Rightarrow> u16 \<Rightarrow> bytes res" where
  "CreateFragment p n = ns_assert (unat n \<le> length p) (Inr (take (unat n) p))"

function split_sdus :: "rlc_header \<Rightarrow> bytes \<Rightarrow> bytes list res" where
  "split_sdus rlcHeader packet =
     bindE (PopExtensionBit rlcHeader) (\<lambda>(extensionBit, rlcHeader).
     if extensionBit = 0 then Inr [packet]
     else bindE (PopLengthIndicator rlcHeader) (\<lambda>(lengthIndicator, rlcHeader).
       bindE (CreateFragment packet lengthIndicator) (\<lambda>data_field.
       bindE (if extensionBit = 1 then split_sdus rlcHeader (drop (unat lengthIndicator) packet) else Inr []) (\<lambda>rest.
         Inr (data_field # rest)))))"
  by pat_completeness auto
termination
  by (relation "measure (\<lambda>(h, _). length (rh_extensionBits h))")
    (auto simp: PopExtensionBit_def PopLengthIndicator_def split: list.splits)

declare split_sdus.simps [simp del]

definition pop_sdu :: "um \<Rightarrow> (bytes \<times> um) res" where
  "pop_sdu s = (case um_sdusBuffer s of [] \<Rightarrow> Inl Undefined | x # r \<Rightarrow> Inr (x, s\<lparr>um_sdusBuffer := r\<rparr>))"

text \<open>What the cases of the \<open>switch\<close> have in common: all the SDUs are delivered, or all but the last, which is kept.\<close>

definition deliver_all :: "um \<Rightarrow> um \<times> bytes list" where
  "deliver_all s = (s\<lparr>um_sdusBuffer := []\<rparr>, um_sdusBuffer s)"

definition keep_last :: "um \<Rightarrow> (um \<times> bytes list) res" where
  "keep_last s = defined_if (um_sdusBuffer s \<noteq> [])
     (Inr (s\<lparr>um_keepS0 := Some (last (um_sdusBuffer s)), um_sdusBuffer := []\<rparr>, butlast (um_sdusBuffer s)))"

definition from_start :: "u8 \<Rightarrow> um \<Rightarrow> (um \<times> bytes list) res" where
  "from_start framingInfo s =
     (if framingInfo = FIRST_BYTE OR LAST_BYTE then
        Inr (deliver_all (s\<lparr>um_reassemblingState := WAITING_S0_FULL\<rparr>))
      else if framingInfo = FIRST_BYTE OR NO_LAST_BYTE then keep_last (s\<lparr>um_reassemblingState := WAITING_SI_SF\<rparr>)
      else if framingInfo = NO_FIRST_BYTE OR LAST_BYTE then
        bindE (pop_sdu (s\<lparr>um_reassemblingState := WAITING_S0_FULL\<rparr>)) (\<lambda>(_, s). Inr (deliver_all s))
      else if framingInfo = NO_FIRST_BYTE OR NO_LAST_BYTE then
        bindE (pop_sdu (s\<lparr>um_reassemblingState :=
            (if length (um_sdusBuffer s) = 1 then WAITING_S0_FULL else WAITING_SI_SF)\<rparr>)) (\<lambda>(_, s).
        if length (um_sdusBuffer s) > 0 then keep_last s else Inr (s, []))
      else Inr (s, []))"

text \<open>The kept part is completed with the first SDU.\<close>

definition append_kept :: "um \<Rightarrow> (bytes \<times> um) res" where
  "append_kept s =
     bindE (pop_sdu s) (\<lambda>(x, s).
     case um_keepS0 s of None \<Rightarrow> Inl Undefined | Some k \<Rightarrow> Inr (k @ x, s\<lparr>um_keepS0 := Some (k @ x)\<rparr>))"

definition continued :: "u8 \<Rightarrow> um \<Rightarrow> (um \<times> bytes list) res" where
  "continued framingInfo s =
     (if framingInfo = NO_FIRST_BYTE OR LAST_BYTE then
        bindE (append_kept (s\<lparr>um_reassemblingState := WAITING_S0_FULL\<rparr>)) (\<lambda>(sdu, s).
          let (s, rest) = deliver_all s in Inr (s, sdu # rest))
      else if framingInfo = NO_FIRST_BYTE OR NO_LAST_BYTE then
        (let s = s\<lparr>um_reassemblingState := WAITING_SI_SF\<rparr> in
         if length (um_sdusBuffer s) = 1 then bindE (append_kept s) (\<lambda>(_, s). Inr (s, []))
         else bindE (append_kept s) (\<lambda>(sdu, s). bindE (keep_last s) (\<lambda>(s, rest). Inr (s, sdu # rest))))
      else Inr (s, []))"

definition ReassembleAndDeliver :: "um \<Rightarrow> bytes \<Rightarrow> (um \<times> bytes list) res" where
  "ReassembleAndDeliver s packet =
     bindE (rlc_Deserialize LteRlcHeader packet) (\<lambda>rlcHeader.
     let packet = drop (unat (rh_headerLength rlcHeader)) packet;
         currSeqNumber = rh_sequenceNumber rlcHeader;
         expectedSnLost = (sn_value currSeqNumber \<noteq> sn_value (um_expectedSeqNumber s));
         s = s\<lparr>um_expectedSeqNumber := (if expectedSnLost then sn_plus currSeqNumber 1 else sn_next (um_expectedSeqNumber s))\<rparr> in
     bindE (split_sdus rlcHeader packet) (\<lambda>sdus.
     let s = s\<lparr>um_sdusBuffer := um_sdusBuffer s @ sdus\<rparr>; framingInfo = rh_framingInfo rlcHeader in
     case um_reassemblingState s of
       WAITING_S0_FULL \<Rightarrow> from_start framingInfo s
     | WAITING_SI_SF \<Rightarrow>
         if \<not> expectedSnLost then continued framingInfo s
         else if framingInfo \<le> 3 then from_start framingInfo (s\<lparr>um_keepS0 := None\<rparr>) else Inr (s, [])
     | NONE \<Rightarrow> Inr (s, [])))"

subsection \<open>Reordering\<close>

definition window_start :: "um \<Rightarrow> seqno" where
  "window_start s = sn_minus (um_vrUh s) (um_windowSize s)"

definition IsInsideReorderingWindow :: "um \<Rightarrow> seqno \<Rightarrow> (bool \<times> um) res" where
  "IsInsideReorderingWindow s seqNumber =
     (let s = s\<lparr>um_vrUh := SetModulusBase (um_vrUh s) (window_start s)\<rparr>;
          seqNumber = SetModulusBase seqNumber (window_start s) in
      bindE (sn_le (window_start s) seqNumber) (\<lambda>le.
      bindE (if le then sn_less seqNumber (um_vrUh s) else Inr False) (\<lambda>inside. Inr (inside, s))))"

text \<open>A \<open>std::map\<close> is iterated in the order of its keys.\<close>

definition rx_entries :: "um \<Rightarrow> (u16 \<times> bytes) list" where
  "rx_entries s = sort_key fst (um_rxBuffer s)"

fun outside_window :: "(u16 \<times> bytes) list \<Rightarrow> um \<Rightarrow> (um \<times> bytes list) res" where
  "outside_window [] s = Inr (s, [])"
| "outside_window ((k, p) # it) s =
     bindE (IsInsideReorderingWindow s (SequenceNumber10 k)) (\<lambda>(inside, s).
     if inside then Inr (s, [])
     else bindE (ReassembleAndDeliver s p) (\<lambda>(s, sdus).
       bindE (outside_window it (s\<lparr>um_rxBuffer := AList.delete k (um_rxBuffer s)\<rparr>)) (\<lambda>(s, rest). Inr (s, sdus @ rest))))"

definition ReassembleOutsideWindow :: "um \<Rightarrow> (um \<times> bytes list) res" where
  "ReassembleOutsideWindow s = outside_window (rx_entries s) s"

text \<open>
  The loops over sequence numbers. A sequence number comes back after 1024 steps, so 1024 steps are enough to reach any other
  one.
\<close>

fun sn_interval :: "nat \<Rightarrow> seqno \<Rightarrow> seqno \<Rightarrow> um \<Rightarrow> (um \<times> bytes list) res" where
  "sn_interval 0 reassembleSn highSeqNumber s = Inl Undefined"
| "sn_interval (Suc n) reassembleSn highSeqNumber s =
     bindE (sn_less reassembleSn highSeqNumber) (\<lambda>less.
     if \<not> less then Inr (s, [])
     else bindE (case map_of (um_rxBuffer s) (sn_value reassembleSn) of
                   None \<Rightarrow> Inr (s, [])
                 | Some p \<Rightarrow> bindE (ReassembleAndDeliver s p) (\<lambda>(s, sdus).
                     Inr (s\<lparr>um_rxBuffer := AList.delete (sn_value reassembleSn) (um_rxBuffer s)\<rparr>, sdus))) (\<lambda>(s, sdus).
       bindE (sn_interval n (sn_next reassembleSn) highSeqNumber s) (\<lambda>(s, rest). Inr (s, sdus @ rest))))"

definition ReassembleSnInterval :: "seqno \<Rightarrow> seqno \<Rightarrow> um \<Rightarrow> (um \<times> bytes list) res" where
  "ReassembleSnInterval = sn_interval 1024"

text \<open>The first key that is missing; there are as many keys as entries.\<close>

fun first_missing :: "nat \<Rightarrow> (u16 \<times> bytes) list \<Rightarrow> u16 \<Rightarrow> u16" where
  "first_missing 0 rxBuffer newVrUr = newVrUr"
| "first_missing (Suc n) rxBuffer newVrUr =
     (if newVrUr \<in> fst ` set rxBuffer then first_missing n rxBuffer (newVrUr + 1) else newVrUr)"

definition set_bases :: "um \<Rightarrow> um" where
  "set_bases s =
     (let s = s\<lparr>um_vrUr := SetModulusBase (um_vrUr s) (window_start s)\<rparr>
      in s\<lparr>um_vrUh := SetModulusBase (um_vrUh s) (window_start s)\<rparr>)"

definition restart_timer :: "um \<Rightarrow> um res" where
  "restart_timer s =
     bindE (sn_greater (um_vrUh s) (um_vrUr s)) (\<lambda>g.
       Inr (if g then s\<lparr>um_reorderingTimer := True, um_vrUx := um_vrUh s\<rparr> else s))"

definition um_DoReceivePdu :: "um \<Rightarrow> bytes \<Rightarrow> (um \<times> bytes list) res" where
  "um_DoReceivePdu s p =
     bindE (rlc_Deserialize LteRlcHeader p) (\<lambda>rlcHeader.
     let s = set_bases s; seqNumber = SetModulusBase (rh_sequenceNumber rlcHeader) (window_start s) in
     bindE (bindE (sn_less (um_vrUr s) seqNumber) (\<lambda>b.
            if b then bindE (sn_less seqNumber (um_vrUh s)) (\<lambda>b. Inr (b \<and> sn_value seqNumber \<in> fst ` set (um_rxBuffer s)))
            else Inr False)) (\<lambda>duplicate.
     bindE (if duplicate then Inr True
            else bindE (sn_le (window_start s) seqNumber) (\<lambda>b. if b then sn_less seqNumber (um_vrUr s) else Inr False))
       (\<lambda>discard.
     if discard then Inr (s, [])
     else
       let s = s\<lparr>um_rxBuffer := AList.update (sn_value seqNumber) p (um_rxBuffer s)\<rparr> in
       bindE (IsInsideReorderingWindow s seqNumber) (\<lambda>(inside, s).
       bindE (if inside then Inr (s, [])
              else bindE (ReassembleOutsideWindow (s\<lparr>um_vrUh := sn_plus seqNumber 1\<rparr>)) (\<lambda>(s, sdus).
                   bindE (IsInsideReorderingWindow s (um_vrUr s)) (\<lambda>(inside, s).
                     Inr (if inside then s else s\<lparr>um_vrUr := window_start s\<rparr>, sdus)))) (\<lambda>(s, sdus).
       bindE (if sn_value (um_vrUr s) \<in> fst ` set (um_rxBuffer s) then
                let newVrUr = first_missing (length (um_rxBuffer s)) (um_rxBuffer s) (sn_value (um_vrUr s) + 1) in
                ReassembleSnInterval (um_vrUr s) (sn_assign (um_vrUr s) newVrUr)
                  (s\<lparr>um_vrUr := sn_assign (um_vrUr s) newVrUr\<rparr>)
              else Inr (s, [])) (\<lambda>(s, sdus').
       let s = s\<lparr>um_vrUr := SetModulusBase (um_vrUr s) (window_start s)\<rparr>;
           s = s\<lparr>um_vrUx := SetModulusBase (um_vrUx s) (window_start s)\<rparr>;
           s = s\<lparr>um_vrUh := SetModulusBase (um_vrUh s) (window_start s)\<rparr> in
       bindE (if um_reorderingTimer s then
                bindE (sn_le (um_vrUx s) (um_vrUr s)) (\<lambda>b.
                if b then Inr (s\<lparr>um_reorderingTimer := False\<rparr>)
                else bindE (IsInsideReorderingWindow s (um_vrUx s)) (\<lambda>(inside, s).
                  Inr (if \<not> inside \<and> sn_value (um_vrUx s) \<noteq> sn_value (um_vrUh s) then s\<lparr>um_reorderingTimer := False\<rparr>
                       else s)))
              else Inr s) (\<lambda>s.
       bindE (if \<not> um_reorderingTimer s then restart_timer s else Inr s) (\<lambda>s. Inr (s, sdus @ sdus')))))))))"

fun missing_sn :: "nat \<Rightarrow> (u16 \<times> bytes) list \<Rightarrow> seqno \<Rightarrow> seqno" where
  "missing_sn 0 rxBuffer newVrUr = newVrUr"
| "missing_sn (Suc n) rxBuffer newVrUr =
     (if sn_value newVrUr \<in> fst ` set rxBuffer then missing_sn n rxBuffer (sn_next newVrUr) else newVrUr)"

definition ExpireReorderingTimer :: "um \<Rightarrow> (um \<times> bytes list) res" where
  "ExpireReorderingTimer s =
     (let newVrUr = missing_sn (length (um_rxBuffer s)) (um_rxBuffer s) (um_vrUx s); s = s\<lparr>um_reorderingTimer := False\<rparr> in
      bindE (ReassembleSnInterval (um_vrUr s) newVrUr (s\<lparr>um_vrUr := newVrUr\<rparr>)) (\<lambda>(s, sdus).
      bindE (restart_timer s) (\<lambda>s. Inr (s, sdus))))"

end
