(* ===== verification/RlcStream.thy ===== *)
theory RlcStream
  imports RlcUm
begin

text \<open>
  What the unacknowledged mode promises: the receiver delivers the SDUs the sender accepted, in order and unchanged,
  whatever the sizes of the opportunities. A PDU is read as a cut through the stream of SDUs.
\<close>

subsection \<open>Cutting and gluing\<close>

text \<open>
  \<open>cut xs fs ys w\<close>: a PDU with the fields \<open>fs\<close> takes the waiting SDUs from \<open>xs\<close> to \<open>ys\<close>; the last field is a whole one
  if \<open>w\<close>. \<open>glue\<close> completes the first SDU with what was kept.
\<close>

definition cut :: "bytes list \<Rightarrow> bytes list \<Rightarrow> bytes list \<Rightarrow> bool \<Rightarrow> bool" where
  "cut xs fs ys w \<longleftrightarrow> fs \<noteq> [] \<and>
     (if w then xs = fs @ ys else \<exists>y ys'. ys = y # ys' \<and> y \<noteq> [] \<and> xs = butlast fs @ (last fs @ y) # ys')"

fun glue :: "bytes option \<Rightarrow> bytes list \<Rightarrow> bytes list" where
  "glue None xs = xs"
| "glue (Some k) xs = (case xs of [] \<Rightarrow> [] | x # r \<Rightarrow> (k @ x) # r)"

definition out_of :: "bytes option \<Rightarrow> bytes list \<Rightarrow> bool \<Rightarrow> bytes list" where
  "out_of k fs w = (if w then glue k fs else butlast (glue k fs))"

definition keep_of :: "bytes option \<Rightarrow> bytes list \<Rightarrow> bool \<Rightarrow> bytes option" where
  "keep_of k fs w = (if w then None else Some (last (glue k fs)))"

lemma glue_append: "fs \<noteq> [] \<Longrightarrow> glue k (fs @ ys) = glue k fs @ ys"
  by (cases k; cases fs) auto

lemma cut_glue:
  assumes "cut xs fs ys w"
  shows "glue k xs = out_of k fs w @ glue (keep_of k fs w) ys"
proof (cases w)
  case True
  then show ?thesis using assms by (simp add: cut_def out_of_def keep_of_def glue_append)
next
  case False
  then obtain y ys' where y: "ys = y # ys'" "xs = butlast fs @ (last fs @ y) # ys'" and fs: "fs \<noteq> []"
    using assms by (auto simp: cut_def)
  obtain b l where bl: "fs = b @ [l]" using fs by (metis append_butlast_last_id)
  show ?thesis
  proof (cases k)
    case None
    then show ?thesis using y bl False by (simp add: out_of_def keep_of_def)
  next
    case (Some c)
    then show ?thesis using y bl False by (cases b) (simp_all add: out_of_def keep_of_def)
  qed
qed

lemma cut_sum:
  assumes "cut xs fs ys w"
  shows "sum_list (map length xs) = sum_list (map length fs) + sum_list (map length ys)"
proof -
  obtain b l where "fs = b @ [l]" using assms by (metis append_butlast_last_id cut_def)
  then show ?thesis using assms by (auto simp: cut_def split: if_splits)
qed

lemma cut_Cons: "cut xs fs ys w \<Longrightarrow> cut (x # xs) (x # fs) ys w"
  by (auto simp: cut_def split: if_splits)

subsection \<open>Filling a PDU\<close>

definition waiting_ok :: "TxPdu list \<Rightarrow> bool" where
  "waiting_ok buf \<longleftrightarrow> (\<forall>x \<in> set buf. tx_pdu x \<noteq> [] \<and> length (tx_pdu x) < 2 ^ 32) \<and>
     (\<forall>x \<in> set (tl buf). tx_status x = FULL_SDU) \<and> (buf \<noteq> [] \<longrightarrow> tx_status (hd buf) \<in> {FULL_SDU, LAST_SEGMENT})"

definition started :: "TxPdu list \<Rightarrow> bool" where
  "started buf \<longleftrightarrow> buf \<noteq> [] \<and> tx_status (hd buf) = LAST_SEGMENT"

lemma GetSize_unat [simp]: "length p < 2 ^ 32 \<Longrightarrow> unat (GetSize p) = length p"
  by (simp add: GetSize_def unat_of_nat)

lemma take_segment_cases:
  assumes "tx_pdu x \<noteq> []" and "length (tx_pdu x) < 2 ^ 32" and "tx_status x \<in> {FULL_SDU, LAST_SEGMENT}" and "0 < n"
  shows "take_segment x n =
    (if length (tx_pdu x) \<le> unat n then (x, None)
     else (x\<lparr>tx_pdu := take (unat n) (tx_pdu x),
             tx_status := (if tx_status x = FULL_SDU then FIRST_SEGMENT else MIDDLE_SEGMENT)\<rparr>,
           Some (x\<lparr>tx_pdu := drop (unat n) (tx_pdu x), tx_status := LAST_SEGMENT\<rparr>)))"
proof -
  have sz: "unat (GetSize (tx_pdu x)) = length (tx_pdu x)" using assms(2) by simp
  show ?thesis
  proof (cases "length (tx_pdu x) \<le> unat n")
    case True
    then have m: "min (GetSize (tx_pdu x)) n = GetSize (tx_pdu x)" using sz by (simp add: min_def word_le_nat_alt)
    have r: "GetSize (drop (unat (GetSize (tx_pdu x))) (tx_pdu x)) = 0" using sz by (simp add: GetSize_def)
    show ?thesis using True assms(3) sz unfolding take_segment_def m r Let_def by auto
  next
    case False
    then have m: "min (GetSize (tx_pdu x)) n = n" using sz by (simp add: min_def word_le_nat_alt)
    have "length (drop (unat n) (tx_pdu x)) < 2 ^ 32" using assms(2) by simp
    then have r: "0 < GetSize (drop (unat n) (tx_pdu x))"
      using False by (simp add: word_less_nat_alt)
    show ?thesis using False assms(3) r unfolding take_segment_def m Let_def by auto
  qed
qed

definition hdr_mid :: "rlc_header \<Rightarrow> nat \<Rightarrow> bool" where
  "hdr_mid h m \<longleftrightarrow> rh_extensionBits h = replicate m 1 \<and> length (rh_lengthIndicators h) = m \<and>
     (\<forall>l \<in> set (rh_lengthIndicators h). unat l < 2 ^ 11) \<and>
     (m \<noteq> 0 \<longrightarrow> rh_headerLength h = of_nat (2 + li_bytes (m - 1)))"

lemma li_bytes_Suc: "li_bytes (Suc m) = li_bytes m + (if even m then 2 else 1)"
  by (auto simp: li_bytes_def elim: evenE oddE)

lemma PushExtensionBit_mid:
  assumes "hdr_mid h m"
  shows "PushExtensionBit h e = h\<lparr>rh_extensionBits := replicate m 1 @ [e], rh_headerLength := of_nat (2 + li_bytes m)\<rparr>"
proof (cases m)
  case 0
  then show ?thesis using assms by (simp add: hdr_mid_def PushExtensionBit_def Let_def li_bytes_def)
next
  case (Suc k)
  then show ?thesis using assms li_bytes_Suc[of k]
    by (simp add: hdr_mid_def PushExtensionBit_def Let_def mod2_eq_if)
qed

lemma push_field_mid:
  assumes "hdr_mid h m" and "unat l < 2 ^ 11"
  shows "hdr_mid (PushLengthIndicator (PushExtensionBit h E_LI_FIELDS_FOLLOWS) l) (Suc m)"
    and "rh_lengthIndicators (PushLengthIndicator (PushExtensionBit h E_LI_FIELDS_FOLLOWS) l) = rh_lengthIndicators h @ [l]"
  using assms
  by (auto simp: PushExtensionBit_mid[OF assms(1)] PushLengthIndicator_def hdr_mid_def E_LI_FIELDS_FOLLOWS_def
      replicate_append_same)

definition total :: "TxPdu list \<Rightarrow> nat" where
  "total buf = sum_list (map (length \<circ> tx_pdu) buf)"

lemma total_simps [simp]:
  "total [] = 0" "total (x # buf) = length (tx_pdu x) + total buf" "total (a @ b) = total a + total b"
  by (simp_all add: total_def)

text \<open>What one run of the loop gives: the fields \<open>fs\<close>, the header, the size of the buffer and the buffer.\<close>

definition filled :: "TxPdu \<Rightarrow> TxPdu list \<Rightarrow> rlc_header \<Rightarrow> nat \<Rightarrow> u32 \<Rightarrow> nat \<Rightarrow>
    TxPdu list \<Rightarrow> rlc_header \<Rightarrow> u32 \<Rightarrow> TxPdu list \<Rightarrow> bool \<Rightarrow> bool" where
  "filled x buf h m sz n fs h' sz' buf' w \<longleftrightarrow>
     cut (map tx_pdu (x # buf)) (map tx_pdu fs) (map tx_pdu buf') w \<and> waiting_ok buf' \<and> (started buf' \<longleftrightarrow> \<not> w) \<and>
     rh_extensionBits h' = replicate (m + length fs - 1) 1 @ [0] \<and>
     rh_lengthIndicators h' = rh_lengthIndicators h @ map (of_nat \<circ> length \<circ> tx_pdu) (butlast fs) \<and>
     (\<forall>f \<in> set (butlast fs). length (tx_pdu f) < 2 ^ 11) \<and> (\<forall>f \<in> set fs. tx_pdu f \<noteq> []) \<and>
     rh_headerLength h' = of_nat (2 + li_bytes (m + length fs - 1)) \<and>
     (tx_status (hd fs) \<in> {FULL_SDU, FIRST_SEGMENT} \<longleftrightarrow> tx_status x = FULL_SDU) \<and>
     (tx_status (last fs) \<in> {FULL_SDU, LAST_SEGMENT} \<longleftrightarrow> w) \<and>
     total fs + li_bytes (m + length fs - 1) \<le> n + li_bytes m \<and>
     sz' + of_nat (total buf) = sz + of_nat (total buf')"

lemma filled_one:
  assumes "waiting_ok (x # buf)" and "hdr_mid h m" and "length (tx_pdu x) \<le> n"
  shows "filled x buf h m sz n [x] (PushExtensionBit h DATA_FIELD_FOLLOWS) sz buf True"
proof -
  have "waiting_ok buf" "\<not> started buf" using assms(1) by (cases buf; auto simp: waiting_ok_def started_def)+
  then show ?thesis using assms
    by (auto simp: filled_def cut_def PushExtensionBit_mid[OF assms(2)] DATA_FIELD_FOLLOWS_def waiting_ok_def)
qed

lemma filled_part:
  assumes "waiting_ok (x # buf)" and "hdr_mid h m" and "n < length (tx_pdu x)" and "0 < n"
    and "x' = x\<lparr>tx_pdu := take n (tx_pdu x), tx_status := (if tx_status x = FULL_SDU then FIRST_SEGMENT else MIDDLE_SEGMENT)\<rparr>"
    and "y = x\<lparr>tx_pdu := drop n (tx_pdu x), tx_status := LAST_SEGMENT\<rparr>"
  shows "filled x buf h m sz n [x'] (PushExtensionBit h DATA_FIELD_FOLLOWS) (sz + GetSize (tx_pdu y)) (y # buf) False"
proof -
  have "waiting_ok (y # buf)" using assms by (auto simp: waiting_ok_def)
  moreover have "started (y # buf)" using assms(6) by (simp add: started_def)
  ultimately show ?thesis using assms
    by (auto simp: filled_def cut_def PushExtensionBit_mid[OF assms(2)] DATA_FIELD_FOLLOWS_def waiting_ok_def GetSize_def)
qed

lemma filled_more:
  assumes "filled x2 buf h2 (Suc m) (sz - GetSize (tx_pdu x2)) n2 fs h' sz' buf' w"
    and "waiting_ok (x # x2 # buf)" and "hdr_mid h m" and "length (tx_pdu x) < 2 ^ 11"
    and "rh_lengthIndicators h2 = rh_lengthIndicators h @ [of_nat (length (tx_pdu x))]"
    and "n2 + (if even m then 2 else 1) + length (tx_pdu x) = n"
  shows "filled x (x2 # buf) h m sz n (x # fs) h' sz' buf' w"
proof -
  have fs: "fs \<noteq> []" using assms(1) by (auto simp: filled_def cut_def)
  have f: "Suc (m + length fs) - 1 = Suc m + length fs - 1" by simp
  have "tx_status x = FULL_SDU \<or> tx_status x = LAST_SEGMENT" using assms(2) by (auto simp: waiting_ok_def)
  then show ?thesis using assms fs unfolding filled_def
    by (auto simp: cut_Cons f li_bytes_Suc algebra_simps waiting_ok_def GetSize_def)
qed

lemma parity_word: "(of_nat m :: u32) mod 2 \<noteq> 0 \<longleftrightarrow> odd m"
proof -
  have "unat ((of_nat m :: u32) mod 2) = m mod 2 ^ 32 mod 2" by (simp add: unat_mod unat_of_nat)
  also have "\<dots> = m mod 2" by (simp add: mod_mod_cancel)
  finally show ?thesis by (simp add: word_unat_eq_iff odd_iff_mod_2_eq_one)
qed

lemma fill_data_filled:
  assumes "waiting_ok (x # buf)" and "hdr_mid h m" and "0 < n"
  shows "\<exists>fs h' sz' buf' w. fill_data x n (of_nat (Suc m)) df h sz buf = (df @ fs, h', sz', buf') \<and>
    filled x buf h m sz (unat n) fs h' sz' buf' w"
  using assms
proof (induction buf arbitrary: x n m df h sz)
  case Nil
  let ?z = "GetSize (tx_pdu x)"
  have x: "tx_pdu x \<noteq> []" "length (tx_pdu x) < 2 ^ 32" "tx_status x \<in> {FULL_SDU, LAST_SEGMENT}"
    using Nil.prems(1) by (auto simp: waiting_ok_def)
  have z: "0 < ?z" "unat ?z = length (tx_pdu x)" using x by (simp_all add: word_less_nat_alt)
  show ?case
  proof (cases "length (tx_pdu x) \<le> unat n")
    case True
    then show ?thesis using z Nil.prems filled_one[OF Nil.prems(1,2) True, of sz]
      by (auto simp: fill_data.simps[of x] Let_def take_segment_cases[OF x Nil.prems(3)] word_le_nat_alt word_less_nat_alt)
  next
    case False
    then have "?z > n" using z by (simp add: word_less_nat_alt)
    moreover have "0 < unat n" using Nil.prems(3) by (simp add: word_less_nat_alt)
    ultimately show ?thesis using z Nil.prems False filled_part[OF Nil.prems(1,2) _ _ refl refl, of "unat n" sz]
      by (auto simp: fill_data.simps[of x] Let_def take_segment_cases[OF x Nil.prems(3)])
  qed
next
  case (Cons x2 buf)
  let ?z = "GetSize (tx_pdu x)"
  have x: "tx_pdu x \<noteq> []" "length (tx_pdu x) < 2 ^ 32" "tx_status x \<in> {FULL_SDU, LAST_SEGMENT}"
    using Cons.prems(1) by (auto simp: waiting_ok_def)
  have z: "0 < ?z" "unat ?z = length (tx_pdu x)" using x by (simp_all add: word_less_nat_alt)
  have n: "0 < unat n" using Cons.prems(3) by (simp add: word_less_nat_alt)
  consider (part) "unat n < length (tx_pdu x)" | (whole) "length (tx_pdu x) \<le> unat n" "?z > 2047 \<or> n - ?z \<le> 2"
    | (more) "length (tx_pdu x) \<le> unat n" "\<not> ?z > 2047" "\<not> n - ?z \<le> 2" by linarith
  then show ?case
  proof cases
    case part
    then have "?z > n" using z by (simp add: word_less_nat_alt)
    then show ?thesis using z part n Cons.prems filled_part[OF Cons.prems(1,2) part n refl refl, of sz]
      by (auto simp: fill_data.simps[of x] Let_def take_segment_cases[OF x Cons.prems(3)])
  next
    case whole
    then have "\<not> ?z > n" using z by (simp add: word_less_nat_alt)
    then show ?thesis using z whole Cons.prems filled_one[OF Cons.prems(1,2) whole(1), of sz]
      by (auto simp: fill_data.simps[of x] Let_def take_segment_cases[OF x Cons.prems(3)])
  next
    case more
    let ?c = "if even m then 2 else 1 :: u32"
    let ?n2 = "n - (?c + ?z)"
    let ?h2 = "PushLengthIndicator (PushExtensionBit h E_LI_FIELDS_FOLLOWS) (ucast ?z)"
    have le: "\<not> ?z > n" using z more(1) by (simp add: word_less_nat_alt)
    then have d: "unat (n - ?z) = unat n - length (tx_pdu x)" using z by (simp add: unat_sub not_less)
    then have "2 < unat n - length (tx_pdu x)" using more(3) by (simp add: word_le_nat_alt)
    then have "unat (n - ?z - ?c) = unat n - length (tx_pdu x) - unat ?c" using d
      by (subst unat_sub) (simp_all add: word_le_nat_alt)
    moreover have "n - ?z - ?c = ?n2" by (simp add: algebra_simps)
    ultimately have n2: "unat ?n2 + (if even m then 2 else 1) + length (tx_pdu x) = unat n"
      using \<open>2 < unat n - length (tx_pdu x)\<close> by auto
    then have n2': "0 < ?n2" using \<open>2 < unat n - length (tx_pdu x)\<close> by (auto simp: word_less_nat_alt split: if_splits)
    have "length (tx_pdu x) < 2 ^ 11" using more(2) z by (simp add: word_less_nat_alt)
    then have "unat (ucast ?z :: u16) = length (tx_pdu x)"
      using z(2) by (simp add: unsigned_ucast_eq take_bit_nat_eq_self_iff)
    then have l: "unat (ucast ?z :: u16) < 2 ^ 11" "(ucast ?z :: u16) = of_nat (length (tx_pdu x))"
      using \<open>length (tx_pdu x) < 2 ^ 11\<close> by (simp_all add: unat_of_nat word_unat_eq_iff)
    have w2: "waiting_ok (x2 # buf)" using Cons.prems(1) by (auto simp: waiting_ok_def)
    have id: "of_nat (Suc m) + 1 = (of_nat (Suc (Suc m)) :: u32)" "(of_nat (Suc m) :: u32) mod 2 \<noteq> 0 \<longleftrightarrow> even m"
      using parity_word[of "Suc m"] by (simp_all add: algebra_simps)
    obtain fs h' sz' buf' w where f:
      "fill_data x2 ?n2 (of_nat (Suc (Suc m))) (df @ [x]) ?h2 (sz - GetSize (tx_pdu x2)) buf = ((df @ [x]) @ fs, h', sz', buf')"
      "filled x2 buf ?h2 (Suc m) (sz - GetSize (tx_pdu x2)) (unat ?n2) fs h' sz' buf' w"
      using Cons.IH[OF w2 push_field_mid(1)[OF Cons.prems(2) l(1)] n2'] by blast
    have "filled x (x2 # buf) h m sz (unat n) (x # fs) h' sz' buf' w"
      by (rule filled_more[OF f(2) Cons.prems(1,2) \<open>length (tx_pdu x) < 2 ^ 11\<close> _ n2])
        (rule trans[OF push_field_mid(2)[OF Cons.prems(2) l(1)]], simp only: l(2))
    moreover have "fill_data x n (of_nat (Suc m)) df h sz (x2 # buf) = (df @ (x # fs), h', sz', buf')"
      using z(1) Cons.prems(3) more(2,3) le f(1)
      by (subst fill_data.simps) (simp only: Let_def id if_True if_False, simp)
    ultimately show ?thesis by blast
  qed
qed

subsection \<open>A PDU and what is read from it\<close>

definition framing :: "bool \<Rightarrow> bool \<Rightarrow> u8" where
  "framing f w = (if f then FIRST_BYTE else NO_FIRST_BYTE) OR (if w then LAST_BYTE else NO_LAST_BYTE)"

lemma framing_values [simp]:
  "framing True True = 0" "framing True False = 1" "framing False True = 2" "framing False False = 3"
  by (simp_all add: framing_def FIRST_BYTE_def NO_FIRST_BYTE_def LAST_BYTE_def NO_LAST_BYTE_def)

text \<open>The PDU with sequence number \<open>n\<close> and fields \<open>fs\<close>, the first one from the start of an SDU if \<open>f\<close>.\<close>

definition pdu_of :: "u16 \<Rightarrow> bool \<Rightarrow> bytes list \<Rightarrow> bool \<Rightarrow> bytes \<Rightarrow> bool" where
  "pdu_of n f fs w p \<longleftrightarrow> (\<exists>h hdr. header_ok h \<and> rlc_Serialize h = Inr hdr \<and> p = hdr @ concat fs \<and> fs \<noteq> [] \<and>
     rh_lengthIndicators h = map (of_nat \<circ> length) (butlast fs) \<and> (\<forall>x \<in> set (butlast fs). length x < 2 ^ 11) \<and>
     rh_framingInfo h = framing f w \<and> sn_value (rh_sequenceNumber h) = n \<and> length hdr < 2 ^ 16)"

lemma split_sdus_fields:
  assumes "fs \<noteq> []" and "rh_extensionBits h = replicate (length fs - 1) 1 @ [0]"
    and "rh_lengthIndicators h = map (of_nat \<circ> length) (butlast fs)" and "\<forall>x \<in> set (butlast fs). length x < 2 ^ 11"
  shows "split_sdus h (concat fs) = Inr fs"
  using assms
proof (induction fs arbitrary: h)
  case Nil
  then show ?case by simp
next
  case (Cons x fs)
  show ?case
  proof (cases fs)
    case Nil
    then show ?thesis using Cons.prems by (simp add: split_sdus.simps PopExtensionBit_def)
  next
    case (Cons y r)
    let ?h = "h\<lparr>rh_extensionBits := replicate (length fs - 1) 1 @ [0],
                 rh_lengthIndicators := map (of_nat \<circ> length) (butlast fs)\<rparr>"
    have "length x < 2 ^ 11" using Cons Cons.prems(4) by simp
    then have "unat (of_nat (length x) :: u16) = length x" by (simp add: unat_of_nat)
    moreover have "split_sdus ?h (concat fs) = Inr fs"
      using Cons Cons.prems(4) by (intro Cons.IH) auto
    ultimately show ?thesis using Cons Cons.prems(2,3)
      by (cases r) (simp_all add: split_sdus.simps[of h] PopExtensionBit_def PopLengthIndicator_def CreateFragment_def
          comp_def)
  qed
qed

lemma pdu_read:
  assumes "pdu_of n f fs w p"
  shows "\<exists>h. rlc_Deserialize LteRlcHeader p = Inr h \<and> drop (unat (rh_headerLength h)) p = concat fs \<and>
    split_sdus h (concat fs) = Inr fs \<and> rh_framingInfo h = framing f w \<and>
    rh_sequenceNumber h = \<lparr>sn_value = n, sn_base = 0\<rparr> \<and> unat n < 1024"
proof -
  obtain h hdr where h: "header_ok h" "rlc_Serialize h = Inr hdr" "p = hdr @ concat fs" "fs \<noteq> []"
    "rh_lengthIndicators h = map (of_nat \<circ> length) (butlast fs)" "\<forall>x \<in> set (butlast fs). length x < 2 ^ 11"
    "rh_framingInfo h = framing f w" "sn_value (rh_sequenceNumber h) = n" "length hdr < 2 ^ 16"
    using assms unfolding pdu_of_def by (elim exE conjE) (rule that)
  note r = rlc_header_read[OF h(1,2)]
  let ?h = "h\<lparr>rh_sequenceNumber := \<lparr>sn_value = sn_value (rh_sequenceNumber h), sn_base = 0\<rparr>\<rparr>"
  have "rh_headerLength h = of_nat (length hdr)" using h(1) r(2) by (simp add: header_ok_def)
  then have "unat (rh_headerLength h) = length hdr" using h(9) by (simp add: unat_of_nat)
  moreover have "split_sdus ?h (concat fs) = Inr fs"
    using h(1,5,6) by (intro split_sdus_fields[OF h(4)]) (simp_all add: header_ok_def)
  moreover have "unat n < 1024" using h(1,8) by (simp add: header_ok_def)
  ultimately show ?thesis using r(1) h(3,7,8) by simp
qed

subsection \<open>An opportunity\<close>

lemma opportunity_spec:
  assumes "waiting_ok (um_txBuffer s)" and "um_txBuffer s \<noteq> []" and "2 < to_bytes opp" and "to_bytes opp < 2 ^ 16"
    and "unat (sn_value (um_sequenceNumber s)) < 1024"
  shows "\<exists>fs buf sz w t pdu. um_DoNotifyTxOpportunity now s opp = Inr (s\<lparr>um_txBuffer := buf, um_txBufferSize := sz,
      um_sequenceNumber := sn_next (um_sequenceNumber s), um_rbsTimer := t\<rparr>, Some pdu) \<and>
    cut (map tx_pdu (um_txBuffer s)) fs (map tx_pdu buf) w \<and> waiting_ok buf \<and> (started buf \<longleftrightarrow> \<not> w) \<and>
    (\<forall>x \<in> set fs. x \<noteq> []) \<and> pdu_of (sn_value (um_sequenceNumber s)) (\<not> started (um_txBuffer s)) fs w (tp_pdu pdu) \<and>
    sz + of_nat (total (um_txBuffer s)) = um_txBufferSize s + of_nat (total buf) \<and>
    length (tp_pdu pdu) \<le> unat (to_bytes opp)"
proof -
  obtain x rest where b: "um_txBuffer s = x # rest" using assms(2) by (cases "um_txBuffer s") auto
  have n: "0 < to_bytes opp - 2" "unat (to_bytes opp - 2) = unat (to_bytes opp) - 2"
    using assms(3) by (simp_all add: word_less_nat_alt unat_sub word_le_nat_alt)
  have mid: "hdr_mid LteRlcHeader 0" by (simp add: hdr_mid_def LteRlcHeader_def)
  let ?sz = "um_txBufferSize s - GetSize (tx_pdu x)"
  obtain fs h' sz buf w where f:
    "fill_data x (to_bytes opp - 2) 1 [] LteRlcHeader ?sz rest = (fs, h', sz, buf)"
    "filled x rest LteRlcHeader 0 ?sz (unat (to_bytes opp) - 2) fs h' sz buf w"
    using fill_data_filled[OF assms(1)[unfolded b] mid n(1), of "[]" ?sz] n(2) by auto
  note fd = f(2)[unfolded filled_def]
  have fs: "fs \<noteq> []" using fd by (auto simp: cut_def)
  let ?h = "SetFramingInfo (h'\<lparr>rh_sequenceNumber := um_sequenceNumber s\<rparr>) (framing_of fs)"
  have first: "tx_status x = FULL_SDU \<longleftrightarrow> \<not> started (um_txBuffer s)"
    using assms(1) b by (auto simp: waiting_ok_def started_def)
  have fr: "framing_of fs = framing (\<not> started (um_txBuffer s)) w"
    using fd first unfolding framing_of_def framing_def by auto
  have and3: "framing f w AND 3 = framing f w" "unat (framing f w) < 4" for f w
    by (cases f; cases w; simp)+
  have ok: "header_ok ?h"
    using fd assms(5) fs by (auto simp: header_ok_def SetFramingInfo_def fr and3 LteRlcHeader_def unat_of_nat)
  obtain hdr where hdr: "rlc_Serialize ?h = Inr hdr"
    using ok by (cases "rh_lengthIndicators ?h") (auto simp: header_ok_def rlc_Serialize_def Let_def)
  have len: "length hdr + total fs \<le> unat (to_bytes opp)"
  proof -
    have "length (rh_lengthIndicators ?h) = length fs - 1" using fd by (simp add: SetFramingInfo_def LteRlcHeader_def)
    then have "length hdr = 2 + li_bytes (length fs - 1)" using rlc_header_read(2)[OF ok hdr] by simp
    moreover have "total fs + li_bytes (length fs - 1) \<le> unat (to_bytes opp) - 2"
      using fd by (simp add: li_bytes_def)
    ultimately show ?thesis using assms(3) by (simp add: word_less_nat_alt)
  qed
  then have "length hdr < 2 ^ 16" using assms(4) by (simp add: word_less_nat_alt)
  then have "pdu_of (sn_value (um_sequenceNumber s)) (\<not> started (um_txBuffer s)) (map tx_pdu fs) w
      (hdr @ concat (map tx_pdu fs))"
    unfolding pdu_of_def using fd fs ok hdr
    by (intro exI[of _ ?h] exI[of _ hdr]) (simp add: SetFramingInfo_def fr and3 LteRlcHeader_def comp_def flip: map_butlast)
  moreover have "length (hdr @ concat (map tx_pdu fs)) \<le> unat (to_bytes opp)"
    using len by (simp add: total_def length_concat comp_def)
  moreover have "sz + of_nat (total (um_txBuffer s)) = um_txBufferSize s + of_nat (total buf)"
    using fd by (simp add: b GetSize_def algebra_simps)
  moreover let ?t = "if buf \<noteq> [] then Some (now + 10000000) else um_rbsTimer s"
    and ?p = "\<lparr>tp_pdu = hdr @ concat (map tx_pdu fs), tp_rnti = um_rnti s, tp_lcid = um_lcid s, tp_layer = to_layer opp,
      tp_harqProcessId = to_harqId opp, tp_componentCarrierId = to_componentCarrierId opp\<rparr>"
  have "um_DoNotifyTxOpportunity now s opp = Inr (s\<lparr>um_txBuffer := buf, um_txBufferSize := sz,
      um_sequenceNumber := sn_next (um_sequenceNumber s), um_rbsTimer := ?t\<rparr>, Some ?p)"
    using assms(3) f(1) fs hdr by (auto simp: um_DoNotifyTxOpportunity_def b Let_def)
  ultimately show ?thesis using fd
    by (intro exI[of _ "map tx_pdu fs"] exI[of _ buf] exI[of _ sz] exI[of _ w] exI[of _ ?t] exI[of _ ?p] conjI) (simp_all add: b)
qed

end
