(* ===== verification/RlcWindow.thy ===== *)
theory RlcWindow
  imports RlcStream
begin

text \<open>
  The reordering window of the receiver: sequence numbers count modulo 1024, seen from the start of the window. A PDU that
  comes in order goes straight to the reassembly.
\<close>

subsection \<open>Sequence numbers modulo 1024\<close>

definition ahead :: "seqno \<Rightarrow> nat" where
  "ahead n = (unat (sn_value n) + 1024 - unat (sn_base n)) mod 1024"

definition sn_ok :: "seqno \<Rightarrow> bool" where
  "sn_ok n \<longleftrightarrow> unat (sn_value n) < 1024 \<and> unat (sn_base n) < 1024"

lemma smod_1024:
  fixes a :: int
  shows "0 \<le> a \<Longrightarrow> a smod 1024 = a mod 1024" and "\<bar>a\<bar> < 1024 \<Longrightarrow> a smod 1024 = a"
  by (cases "a = 0"; simp add: smod_int_alt_def sgn_if abs_if)+

lemma unat_of_int_u16: "unat (of_int a :: u16) = nat (a mod 65536)"
  by (simp add: unat_eq_nat_uint uint_word_of_int)

lemma unat_SequenceNumber10 [simp]: "unat (sn_value (SequenceNumber10 v)) = unat v mod 1024"
  by (simp add: SequenceNumber10_def unat_mod)

lemma sn_plus_value [simp]:
  assumes "unat (sn_value n) < 1024"
  shows "unat (sn_value (sn_plus n 1)) = (unat (sn_value n) + 1) mod 1024"
proof -
  have "(uint (sn_value n) + uint (1 :: u16)) smod 1024 = (int (unat (sn_value n)) + 1) mod 1024"
    by (simp add: smod_1024)
  then have "unat (of_int ((uint (sn_value n) + uint (1 :: u16)) smod 1024) :: u16) = (unat (sn_value n) + 1) mod 1024"
    using assms by (simp add: unat_of_int_u16 nat_mod_distrib nat_add_distrib)
  then show ?thesis by (simp add: sn_plus_def)
qed

lemma sn_next_value [simp]:
  assumes "unat (sn_value n) < 1024"
  shows "unat (sn_value (sn_next n)) = (unat (sn_value n) + 1) mod 1024"
proof -
  have "unat ((ucast (sn_value n) + 1 :: u32) mod 1024) = (unat (sn_value n) + 1) mod 1024"
    using assms by (simp add: unat_mod unat_word_ariths)
  then show ?thesis by (simp add: sn_next_def unsigned_ucast_eq take_bit_nat_eq_self_iff)
qed

lemma sn_minus_value:
  assumes "unat (sn_value n) < 1024"
  shows "unat (sn_value (sn_minus n 512)) = (unat (sn_value n) + 512) mod 1024"
proof -
  let ?v = "int (unat (sn_value n))"
  have "?v < 1024" using assms by linarith
  then have "\<bar>?v - 512\<bar> < 1024" by linarith
  then have "(uint (sn_value n) - uint (512 :: u16)) smod 1024 = ?v - 512" using smod_1024(2)[of "?v - 512"] by simp
  moreover have "sn_value (sn_minus n 512) =
      sn_value (SequenceNumber10 (of_int ((uint (sn_value n) - uint (512 :: u16)) smod 1024)))"
    by (simp add: sn_minus_def)
  ultimately have "unat (sn_value (sn_minus n 512)) = nat ((?v - 512) mod 65536) mod 1024"
    by (simp only: unat_SequenceNumber10 unat_of_int_u16)
  also have "\<dots> = nat ((?v - 512) mod 65536 mod 1024)" by (simp add: nat_mod_distrib)
  also have "(?v - 512) mod 65536 mod 1024 = (?v - 512) mod 1024" by (rule mod_mod_cancel) simp
  also have "\<dots> = (?v + 512) mod 1024"
    using mod_add_self2[of "?v - 512" 1024] by (simp add: algebra_simps)
  also have "nat \<dots> = (unat (sn_value n) + 512) mod 1024" by (simp add: nat_mod_distrib nat_add_distrib)
  finally show ?thesis .
qed

lemma sn_bases [simp]:
  "sn_base (sn_plus n d) = sn_base n" "sn_base (sn_next n) = sn_base n" "sn_base (sn_minus n d) = sn_base n"
  "sn_base (sn_assign n v) = sn_base n" "sn_value (SetModulusBase n b) = sn_value n"
  "sn_base (SetModulusBase n b) = sn_value b"
  by (simp_all add: sn_plus_def sn_next_def sn_minus_def sn_assign_def SetModulusBase_def)

lemma offset_mod:
  fixes v b :: nat
  assumes "v < 1024" and "b < 1024"
  shows "nat ((int v - int b) mod 65536) = (if b \<le> v then (v + 1024 - b) mod 1024 else 64512 + (v + 1024 - b) mod 1024)"
proof (cases "b \<le> v")
  case True
  have "(int v - int b) mod 65536 = int (v - b)" using True assms by (simp add: of_nat_diff)
  moreover have "(v + 1024 - b) mod 1024 = v - b" using True assms by (simp add: mod_if)
  ultimately show ?thesis using True by (simp only: if_True nat_int)
next
  case False
  have "(int v - int b + 65536) mod 65536 = int (v + 65536 - b)" using False assms
    by (subst mod_pos_pos_trivial) linarith+
  then have "(int v - int b) mod 65536 = int (v + 65536 - b)" by (simp only: mod_add_self2)
  moreover have "(v + 1024 - b) mod 1024 = v + 1024 - b" using False by (intro mod_less) linarith
  moreover have "v + 65536 - b = 64512 + (v + 1024 - b)" using assms by linarith
  ultimately show ?thesis using False by (simp only: if_False nat_int)
qed

lemma sn_offset_ahead:
  assumes "sn_ok n"
  shows "unat (sn_offset n) = (if unat (sn_base n) \<le> unat (sn_value n) then ahead n else 64512 + ahead n)"
proof -
  let ?v = "int (unat (sn_value n))" and ?b = "int (unat (sn_base n))"
  have lt: "unat (sn_value n) < 1024" "unat (sn_base n) < 1024" using assms by (simp_all add: sn_ok_def)
  then have "\<bar>?v - ?b\<bar> < 1024" by linarith
  then have "(uint (sn_value n) - uint (sn_base n)) smod 1024 = ?v - ?b" using smod_1024(2)[of "?v - ?b"] by simp
  then have "unat (sn_offset n) = nat ((?v - ?b) mod 65536)" by (simp only: sn_offset_def unat_of_int_u16)
  then show ?thesis unfolding offset_mod[OF lt] ahead_def .
qed

lemma ahead_lt [simp]: "ahead n < 1024"
  by (simp add: ahead_def)

lemma sn_greater_ahead:
  assumes "sn_ok a" and "sn_ok b" and "sn_base a = sn_base b"
  shows "sn_greater a b = Inr (ahead a > ahead b)"
proof -
  have lt: "unat (sn_value a) < 1024" "unat (sn_base a) < 1024" "unat (sn_value b) < 1024"
    using assms by (simp_all add: sn_ok_def)
  have "ahead n = (if unat (sn_base n) \<le> unat (sn_value n) then unat (sn_value n) - unat (sn_base n)
      else unat (sn_value n) + 1024 - unat (sn_base n))" if "sn_ok n" for n
    using that by (auto simp: ahead_def sn_ok_def mod_if)
  note ah = this[OF assms(1)] this[OF assms(2)]
  have "sn_offset a > sn_offset b \<longleftrightarrow> ahead a > ahead b"
    using lt assms(3) unfolding word_less_nat_alt sn_offset_ahead[OF assms(1)] sn_offset_ahead[OF assms(2)]
    by (auto simp: ah)
  then show ?thesis using assms(3) by (simp add: sn_greater_def)
qed

lemma sn_ahead_eq:
  assumes "sn_ok a" and "sn_ok b" and "sn_base a = sn_base b"
  shows "sn_value a = sn_value b \<longleftrightarrow> ahead a = ahead b"
proof
  assume "ahead a = ahead b"
  then have "unat (sn_value a) = unat (sn_value b)" using assms
    by (auto simp: ahead_def sn_ok_def mod_if split: if_splits)
  then show "sn_value a = sn_value b" by (simp add: word_unat_eq_iff)
qed (use assms in \<open>simp add: ahead_def\<close>)

lemma sn_le_ahead:
  assumes "sn_ok a" and "sn_ok b" and "sn_base a = sn_base b"
  shows "sn_le a b = Inr (ahead a \<le> ahead b)"
  using sn_greater_ahead[OF assms] by (auto simp: sn_le_def)

lemma sn_less_ahead:
  assumes "sn_ok a" and "sn_ok b" and "sn_base a = sn_base b"
  shows "sn_less a b = Inr (ahead a < ahead b)"
  using sn_greater_ahead[OF assms] sn_ahead_eq[OF assms] by (auto simp: sn_less_def)

lemmas sn_orders = sn_greater_ahead sn_le_ahead sn_less_ahead

subsection \<open>Reassembly\<close>

text \<open>
  What the reassembly makes of a PDU: it continues the kept part when nothing was lost, and otherwise starts afresh, without
  the part of an SDU whose beginning is missing.
\<close>

definition fresh :: "bool \<Rightarrow> bytes list \<Rightarrow> bool \<Rightarrow> bytes list \<times> bytes option" where
  "fresh f fs w =
     (let gs = (if f then fs else tl fs) in
      if w then (gs, None) else if gs = [] then ([], None) else (butlast gs, Some (last gs)))"

definition rsm :: "bytes option \<Rightarrow> bool \<Rightarrow> bool \<Rightarrow> bytes list \<Rightarrow> bool \<Rightarrow> bytes list \<times> bytes option" where
  "rsm k lost f fs w = (if k \<noteq> None \<and> \<not> lost then (out_of k fs w, keep_of k fs w) else fresh f fs w)"

definition rs_ok :: "um \<Rightarrow> bytes option \<Rightarrow> bool" where
  "rs_ok s k \<longleftrightarrow> um_sdusBuffer s = [] \<and>
     (case k of None \<Rightarrow> um_reassemblingState s = WAITING_S0_FULL
      | Some b \<Rightarrow> um_reassemblingState s = WAITING_SI_SF \<and> um_keepS0 s = Some b)"

text \<open>What the reassembly changes.\<close>

definition reassembled :: "um \<Rightarrow> um \<Rightarrow> bool" where
  "reassembled s s' \<longleftrightarrow> s' = s\<lparr>um_expectedSeqNumber := um_expectedSeqNumber s', um_reassemblingState := um_reassemblingState s',
     um_keepS0 := um_keepS0 s', um_sdusBuffer := []\<rparr>"

lemma reassembled_sel:
  assumes "reassembled s s'"
  shows "um_rxBuffer s' = um_rxBuffer s" "um_windowSize s' = um_windowSize s" "um_reorderingTimer s' = um_reorderingTimer s"
    "um_vrUr s' = um_vrUr s" "um_vrUh s' = um_vrUh s"
  by (rule trans[OF arg_cong[OF assms[unfolded reassembled_def]]], simp)+

lemmas framing_bytes = FIRST_BYTE_def NO_FIRST_BYTE_def LAST_BYTE_def NO_LAST_BYTE_def

lemma from_start_fresh:
  assumes "fs \<noteq> []" and "um_sdusBuffer s = fs"
  shows "\<exists>s'. from_start (framing f w) s = Inr (s', fst (fresh f fs w)) \<and> rs_ok s' (snd (fresh f fs w)) \<and>
    um_expectedSeqNumber s' = um_expectedSeqNumber s \<and> reassembled s s'"
proof -
  obtain x r where fs: "fs = x # r" using assms(1) by (cases fs) auto
  show ?thesis using assms(2) fs
    by (cases f; cases w; cases r)
      (auto simp: from_start_def framing_bytes deliver_all_def keep_last_def pop_sdu_def fresh_def rs_ok_def reassembled_def)
qed

lemma continued_kept:
  assumes "fs \<noteq> []" and "um_sdusBuffer s = fs" and "um_keepS0 s = Some b"
  shows "\<exists>s'. continued (framing False w) s = Inr (s', out_of (Some b) fs w) \<and> rs_ok s' (keep_of (Some b) fs w) \<and>
    um_expectedSeqNumber s' = um_expectedSeqNumber s \<and> reassembled s s'"
proof -
  obtain x r where fs: "fs = x # r" using assms(1) by (cases fs) auto
  show ?thesis using assms(2,3) fs
    by (cases w; cases r)
      (auto simp: continued_def framing_bytes deliver_all_def keep_last_def pop_sdu_def append_kept_def out_of_def
        keep_of_def rs_ok_def reassembled_def Let_def)
qed

lemma reassemble_spec:
  assumes "pdu_of n f fs w p" and "rs_ok s k" and "unat (sn_value (um_expectedSeqNumber s)) < 1024"
    and "lost \<longleftrightarrow> n \<noteq> sn_value (um_expectedSeqNumber s)" and "k \<noteq> None \<and> \<not> lost \<longrightarrow> \<not> f"
  shows "\<exists>s'. ReassembleAndDeliver s p = Inr (s', fst (rsm k lost f fs w)) \<and> rs_ok s' (snd (rsm k lost f fs w)) \<and>
    unat (sn_value (um_expectedSeqNumber s')) = (unat n + 1) mod 1024 \<and> reassembled s s'"
proof -
  obtain h where h: "rlc_Deserialize LteRlcHeader p = Inr h" "drop (unat (rh_headerLength h)) p = concat fs"
    "split_sdus h (concat fs) = Inr fs" "rh_framingInfo h = framing f w"
    "rh_sequenceNumber h = \<lparr>sn_value = n, sn_base = 0\<rparr>" "unat n < 1024"
    using pdu_read[OF assms(1)] by blast
  have fs: "fs \<noteq> []" using assms(1) by (auto simp: pdu_of_def)
  let ?e = "if lost then sn_plus (rh_sequenceNumber h) 1 else sn_next (um_expectedSeqNumber s)"
  let ?s = "s\<lparr>um_expectedSeqNumber := ?e, um_sdusBuffer := um_sdusBuffer s @ fs\<rparr>"
  have buf: "um_sdusBuffer ?s = fs" using assms(2) by (simp add: rs_ok_def)
  have e: "unat (sn_value ?e) = (unat n + 1) mod 1024" using h(5,6) assms(3,4) by simp
  have f3: "framing f w \<le> 3" by (cases f; cases w) simp_all
  have run: "ReassembleAndDeliver s p =
      (case k of None \<Rightarrow> from_start (framing f w) ?s
       | Some b \<Rightarrow> if \<not> lost then continued (framing f w) ?s else from_start (framing f w) (?s\<lparr>um_keepS0 := None\<rparr>))"
    using assms(2) h f3
    by (cases k) (simp_all add: ReassembleAndDeliver_def Let_def assms(4) rs_ok_def)
  have trans: "reassembled s s'" if "reassembled ?s s'" for s'
    using that by (simp add: reassembled_def)
  show ?thesis
  proof (cases "k \<noteq> None \<and> \<not> lost")
    case True
    then obtain b where b: "k = Some b" "\<not> lost" "\<not> f" using assms(5) by auto
    then have "um_keepS0 ?s = Some b" using assms(2) by (simp add: rs_ok_def)
    from continued_kept[OF fs buf this, of w] show ?thesis
      using b e trans by (auto simp: run rsm_def)
  next
    case False
    let ?t = "if k = None then ?s else ?s\<lparr>um_keepS0 := None\<rparr>"
    have r: "rsm k lost f fs w = fresh f fs w" using False by (auto simp: rsm_def)
    have t: "um_sdusBuffer ?t = fs" "um_expectedSeqNumber ?t = ?e" using buf by (simp_all split: if_splits)
    have run_t: "ReassembleAndDeliver s p = from_start (framing f w) ?t" using False by (cases k) (simp_all add: run)
    obtain s' where s': "from_start (framing f w) ?t = Inr (s', fst (fresh f fs w))" "rs_ok s' (snd (fresh f fs w))"
      "um_expectedSeqNumber s' = um_expectedSeqNumber ?t" "reassembled ?t s'"
      using from_start_fresh[OF fs t(1), of f w] by blast
    have "reassembled s s'" using s'(4) by (simp add: reassembled_def split: if_splits)
    then show ?thesis using s'(1-3) e unfolding run_t r t(2) by (intro exI[of _ s']) simp
  qed
qed

subsection \<open>A PDU in order\<close>

lemma ahead_of:
  assumes "unat v = (unat b + d) mod 1024" and "d < 1024" and "unat b < 1024"
  shows "ahead \<lparr>sn_value = v, sn_base = b\<rparr> = d"
proof -
  have "unat v + 1024 - unat b = (unat b + d) mod 1024 + (1024 - unat b)" using assms(1,3) by simp
  then have "ahead \<lparr>sn_value = v, sn_base = b\<rparr> = (unat b + d + (1024 - unat b)) mod 1024"
    by (simp add: ahead_def mod_simps)
  also have "unat b + d + (1024 - unat b) = d + 1024" using assms(3) by simp
  finally show ?thesis using assms(2) by simp
qed

lemma window_value:
  assumes "um_windowSize s = 512" and "unat (sn_value (um_vrUh s)) < 1024"
  shows "unat (sn_value (window_start s)) = (unat (sn_value (um_vrUh s)) + 512) mod 1024"
  using assms by (simp add: window_start_def sn_minus_value)

lemma inside_window:
  assumes "um_windowSize s = 512" and "unat (sn_value (um_vrUh s)) < 1024" and "unat (sn_value q) < 1024"
    and "b = sn_value (window_start s)"
  shows "IsInsideReorderingWindow s q =
    Inr (ahead (q\<lparr>sn_base := b\<rparr>) < 512, s\<lparr>um_vrUh := (um_vrUh s)\<lparr>sn_base := b\<rparr>\<rparr>)"
proof -
  let ?t = "s\<lparr>um_vrUh := SetModulusBase (um_vrUh s) (window_start s)\<rparr>"
  have b: "unat b = (unat (sn_value (um_vrUh s)) + 512) mod 1024" "unat b < 1024"
    using window_value[OF assms(1,2)] by (simp_all add: assms(4))
  have ws: "window_start ?t = \<lparr>sn_value = b, sn_base = b\<rparr>"
    using assms(4) by (simp add: window_start_def sn_minus_def SetModulusBase_def)
  have a0: "ahead \<lparr>sn_value = b, sn_base = b\<rparr> = 0" by (rule ahead_of) (use b in simp_all)
  have h: "um_vrUh ?t = (um_vrUh s)\<lparr>sn_base := b\<rparr>" by (simp add: assms(4) SetModulusBase_def)
  have "unat (sn_value (um_vrUh s)) = (unat b + 512) mod 1024" using b assms(2) by (simp add: mod_simps)
  from ahead_of[OF this _ b(2)] have ah: "ahead ((um_vrUh s)\<lparr>sn_base := b\<rparr>) = 512" by (simp add: ahead_def)
  have q: "SetModulusBase q \<lparr>sn_value = b, sn_base = b\<rparr> = q\<lparr>sn_base := b\<rparr>" by (simp add: SetModulusBase_def)
  have ok: "sn_ok (q\<lparr>sn_base := b\<rparr>)" "sn_ok \<lparr>sn_value = b, sn_base = b\<rparr>" "sn_ok ((um_vrUh s)\<lparr>sn_base := b\<rparr>)"
    using assms(2,3) b(2) by (simp_all add: sn_ok_def)
  show ?thesis
    unfolding IsInsideReorderingWindow_def Let_def ws q h
    using a0 ah h sn_le_ahead[OF ok(2,1)] sn_less_ahead[OF ok(1,3)] by (simp add: h[simplified])
qed

text \<open>A receiver that has got everything up to the sequence number \<open>n\<close>, with \<open>k\<close> kept of the SDU in progress.\<close>

definition rx_ok :: "um \<Rightarrow> nat \<Rightarrow> bytes option \<Rightarrow> bool" where
  "rx_ok s n k \<longleftrightarrow> rs_ok s k \<and> um_rxBuffer s = [] \<and> um_windowSize s = 512 \<and> \<not> um_reorderingTimer s \<and> n < 1024 \<and>
     unat (sn_value (um_vrUr s)) = n \<and> unat (sn_value (um_vrUh s)) = n \<and> unat (sn_value (um_expectedSeqNumber s)) = n"

lemma sn_same:
  "sn_base a = sn_base b \<Longrightarrow> sn_value a = sn_value b \<Longrightarrow> sn_less a b = Inr False"
  "sn_base a = sn_base b \<Longrightarrow> sn_value a = sn_value b \<Longrightarrow> sn_greater a b = Inr False"
  by (simp_all add: sn_less_def sn_greater_def sn_offset_def)

text \<open>The interval of one sequence number.\<close>

lemma interval_one:
  assumes "sn_base lo = sn_base hi" and "unat (sn_value hi) = (unat (sn_value lo) + 1) mod 1024"
    and "unat (sn_value lo) < 1024" and "sn_value lo = n" and "um_rxBuffer s = [(n, p)]"
    and "sn_base lo = b" and "unat b = (unat n + 512) mod 1024"
    and "ReassembleAndDeliver s p = Inr (s', sdus)" and "um_rxBuffer s' = [(n, p)]"
  shows "ReassembleSnInterval lo hi s = Inr (s'\<lparr>um_rxBuffer := []\<rparr>, sdus)"
proof -
  have b: "unat b < 1024" using assms(7) by simp
  have n: "unat n = (unat b + 512) mod 1024" using assms(3,4,7) by (simp add: mod_simps)
  then have h: "unat (sn_value hi) = (unat b + 513) mod 1024" using assms(2,4) by (simp add: mod_simps add.commute)
  have lo: "lo = \<lparr>sn_value = n, sn_base = b\<rparr>" "hi = \<lparr>sn_value = sn_value hi, sn_base = b\<rparr>" using assms(1,4,6) by simp_all
  have "ahead lo = 512" "ahead hi = 513"
    using ahead_of[OF n _ b] ahead_of[OF h _ b] lo by simp_all
  moreover have "sn_ok lo" "sn_ok hi" using assms(1-4,6) b by (simp_all add: sn_ok_def)
  ultimately have less: "sn_less lo hi = Inr True" using assms(1) by (simp add: sn_less_ahead)
  have "sn_value (sn_next lo) = sn_value hi" using assms(2,3) by (simp add: word_unat_eq_iff)
  then have stop: "sn_less (sn_next lo) hi = Inr False" using assms(1) by (intro sn_same) simp_all
  have "ReassembleSnInterval lo hi s = sn_interval (Suc (Suc 1022)) lo hi s" by (simp add: ReassembleSnInterval_def)
  also have "\<dots> = Inr (s'\<lparr>um_rxBuffer := []\<rparr>, sdus)"
    unfolding sn_interval.simps less stop using assms(4,5,8,9) by simp
  finally show ?thesis .
qed

lemma receive_in_order:
  assumes rx: "rx_ok s n k" and pdu: "pdu_of m f fs w p" and m: "unat m = n" and kf: "k \<noteq> None \<longrightarrow> \<not> f"
  shows "\<exists>s'. um_DoReceivePdu s p = Inr (s', fst (rsm k False f fs w)) \<and> rx_ok s' ((n + 1) mod 1024) (snd (rsm k False f fs w))"
proof -
  have r: "rs_ok s k" "um_rxBuffer s = []" "um_windowSize s = 512" "\<not> um_reorderingTimer s" "n < 1024"
    "sn_value (um_vrUr s) = m" "sn_value (um_vrUh s) = m" "sn_value (um_expectedSeqNumber s) = m"
    using rx m by (auto simp: rx_ok_def word_unat_eq_iff)
  obtain h where h: "rlc_Deserialize LteRlcHeader p = Inr h" "rh_sequenceNumber h = \<lparr>sn_value = m, sn_base = 0\<rparr>"
    using pdu_read[OF pdu] by blast
  have mm: "m mod 1024 = m" using m r(5) by (simp add: word_unat_eq_iff unat_mod)
  define b where "b = sn_value (window_start s)"
  have b: "unat b = (n + 512) mod 1024" "unat b < 1024"
    using window_value[OF r(3)] r(5,7) m by (simp_all add: b_def)
  let ?q = "\<lparr>sn_value = m, sn_base = b\<rparr>" and ?q1 = "sn_plus \<lparr>sn_value = m, sn_base = b\<rparr> 1"
  have q1: "unat (sn_value ?q1) = (n + 1) mod 1024" using m r(5) by simp
  have s0: "set_bases s = s\<lparr>um_vrUr := ?q, um_vrUh := ?q\<rparr>"
  proof -
    have "window_start (s\<lparr>um_vrUr := x\<rparr>) = window_start s" for x by (simp add: window_start_def)
    then show ?thesis using r(6,7) by (simp add: set_bases_def Let_def SetModulusBase_def b_def)
  qed
  let ?s0 = "s\<lparr>um_vrUr := ?q, um_vrUh := ?q\<rparr>"
  have w0: "window_start ?s0 = \<lparr>sn_value = b, sn_base = b\<rparr>"
    using r(3,7) by (simp add: window_start_def sn_minus_def b_def)
  have nb: "unat m = (unat b + 512) mod 1024" using b r(5) m by (simp add: mod_simps)
  have aq: "ahead ?q = 512" by (rule ahead_of[OF nb _ b(2)]) simp
  have le0: "sn_le \<lparr>sn_value = b, sn_base = b\<rparr> ?q = Inr True"
    using m r(5) b(2) ahead_of[of b b 0] by (subst sn_le_ahead) (simp_all add: sn_ok_def)
  let ?s1 = "?s0\<lparr>um_rxBuffer := [(m, p)]\<rparr>"
  have "window_start ?s1 = window_start ?s0" by (simp add: window_start_def)
  then have in1: "IsInsideReorderingWindow ?s1 ?q = Inr (False, ?s1)"
    using r(3,5) m aq by (subst inside_window[where b = b]) (simp_all add: w0)
  let ?s2 = "?s1\<lparr>um_vrUh := ?q1\<rparr>"
  define b' where "b' = sn_value (window_start ?s2)"
  have b': "unat b' = (n + 1 + 512) mod 1024" "unat b' < 1024"
    using window_value[of ?s2] r(3,5) q1 by (simp_all add: b'_def mod_simps)
  have nb': "unat m = (unat b' + 511) mod 1024" using b' r(5) m by (simp add: mod_simps)
  have a': "ahead \<lparr>sn_value = m, sn_base = b'\<rparr> = 511" by (rule ahead_of[OF nb' _ b'(2)]) simp
  let ?s3 = "?s2\<lparr>um_vrUh := ?q1\<lparr>sn_base := b'\<rparr>\<rparr>"
  have w3: "sn_value (window_start ?s3) = b'" unfolding b'_def by (simp add: window_start_def sn_minus_def)
  have in2: "IsInsideReorderingWindow ?s2 (SequenceNumber10 m) = Inr (True, ?s3)"
    using r(3,5) m q1 a' by (subst inside_window[where b = b']) (simp_all add: b'_def SequenceNumber10_def mm)
  have out: "ReassembleOutsideWindow ?s2 = Inr (?s3, [])"
    using in2 by (simp add: ReassembleOutsideWindow_def rx_entries_def)
  have in3: "IsInsideReorderingWindow ?s3 ?q = Inr (True, ?s3)"
    using r(3,5) m q1 a' w3 by (subst inside_window[where b = b']) simp_all
  let ?hi = "sn_assign ?q (m + 1)" and ?s4 = "?s3\<lparr>um_vrUr := sn_assign ?q (m + 1)\<rparr>"
  have hi: "unat (sn_value ?hi) = (n + 1) mod 1024"
    using m r(5) by (simp add: sn_assign_def unat_mod unat_word_ariths)
  have rs4: "rs_ok ?s4 k" "unat (sn_value (um_expectedSeqNumber ?s4)) < 1024"
    "False \<longleftrightarrow> m \<noteq> sn_value (um_expectedSeqNumber ?s4)"
    using r(1,5,8) m by (cases k; simp add: rs_ok_def)+
  obtain s' where s': "ReassembleAndDeliver ?s4 p = Inr (s', fst (rsm k False f fs w))" "rs_ok s' (snd (rsm k False f fs w))"
    "unat (sn_value (um_expectedSeqNumber s')) = (n + 1) mod 1024" "reassembled ?s4 s'"
    using reassemble_spec[OF pdu rs4] kf m by auto
  have f': "um_rxBuffer s' = [(m, p)]" "um_windowSize s' = 512" "\<not> um_reorderingTimer s'" "um_vrUr s' = ?hi"
    "sn_value (um_vrUh s') = sn_value ?q1"
    using r(3,4) by (simp_all add: reassembled_sel[OF s'(4)])
  have int: "ReassembleSnInterval ?q ?hi ?s4 = Inr (s'\<lparr>um_rxBuffer := []\<rparr>, fst (rsm k False f fs w))"
    by (rule interval_one[OF _ _ _ _ _ refl _ s'(1) f'(1)]) (use hi m r(5) b in simp_all)
  have missing: "first_missing 1 [(m, p)] (m + 1) = m + 1" by simp
  let ?t = "s'\<lparr>um_rxBuffer := []\<rparr>"
  let ?w = "window_start ?t"
  let ?r = "?t\<lparr>um_vrUr := SetModulusBase (um_vrUr ?t) ?w, um_vrUx := SetModulusBase (um_vrUx ?t) ?w,
               um_vrUh := SetModulusBase (um_vrUh ?t) ?w\<rparr>"
  have same: "sn_value (um_vrUh s') = sn_value (um_vrUr s')"
    unfolding f'(4,5) using hi q1 by (simp add: word_unat_eq_iff)
  then have restart: "restart_timer ?r = Inr ?r"
    unfolding restart_timer_def by (subst sn_same(2)) simp_all
  have ws: "window_start (x\<lparr>um_vrUr := y\<rparr>) = window_start x" "window_start (x\<lparr>um_vrUx := y\<rparr>) = window_start x" for x y
    by (simp_all add: window_start_def)
  have q: "SetModulusBase (rh_sequenceNumber h) (window_start ?s0) = ?q" unfolding w0 h(2) by (simp add: SetModulusBase_def)
  have lt: "sn_less ?q ?q = Inr False" by (simp add: sn_same)
  have eq: "um_DoReceivePdu s p = Inr (?r, fst (rsm k False f fs w))"
    unfolding um_DoReceivePdu_def h(1) bindE_simps Let_def s0 q
    using f'(3) restart in1 out in3 int
    by (simp add: lt w0 le0 r(2) ws)
  have "rx_ok ?r ((n + 1) mod 1024) (snd (rsm k False f fs w))"
    using s'(2,3) f' hi q1 by (simp add: rx_ok_def rs_ok_def split: option.splits)
  then show ?thesis using eq by blast
qed

end
