(* ===== verification/RlcChannel.thy ===== *)
theory RlcChannel
  imports RlcWindow "HOL-Library.Sublist"
begin

text \<open>
  Two entities of the unacknowledged mode joined by a channel: SDUs are submitted to one, the MAC gives it opportunities,
  and its PDUs reach the other, all of them or only some. The contract is a queue.
\<close>

record channel =
  ch_tx :: um
  ch_rx :: um
  ch_accepted :: "bytes list"
  ch_delivered :: "bytes list"

text \<open>An opportunity comes with whether its PDU arrives.\<close>

datatype um_event =
    Submit int bytes
  | Opportunity int TxOpportunityParameters bool
  | RbsTimer int

definition submit :: "int \<Rightarrow> bytes \<Rightarrow> channel \<Rightarrow> channel" where
  "submit now p c =
     (let (tx, _) = DoTransmitPdcpPdu now (ch_tx c) p in
      c\<lparr>ch_tx := tx, ch_accepted := (if length (um_txBuffer tx) > length (um_txBuffer (ch_tx c)) then ch_accepted c @ [p]
                                    else ch_accepted c)\<rparr>)"

fun um_step :: "(um \<Rightarrow> bytes \<Rightarrow> (um \<times> bytes list) res) \<Rightarrow> channel \<Rightarrow> um_event \<Rightarrow> channel res" where
  "um_step receive c (Submit now p) = Inr (submit now p c)"
| "um_step receive c (Opportunity now opp arrives) =
     bindE (um_DoNotifyTxOpportunity now (ch_tx c) opp) (\<lambda>(tx, pdu).
     case pdu of
       None \<Rightarrow> Inr (c\<lparr>ch_tx := tx\<rparr>)
     | Some pdu \<Rightarrow>
         if arrives then bindE (receive (ch_rx c) (tp_pdu pdu)) (\<lambda>(rx, sdus).
           Inr (c\<lparr>ch_tx := tx, ch_rx := rx, ch_delivered := ch_delivered c @ sdus\<rparr>))
         else Inr (c\<lparr>ch_tx := tx\<rparr>))"
| "um_step receive c (RbsTimer now) = Inr (c\<lparr>ch_tx := fst (ExpireRbsTimer now (ch_tx c))\<rparr>)"

definition um_start :: "u16 \<Rightarrow> u8 \<Rightarrow> channel" where
  "um_start rnti lcid = \<lparr>ch_tx = LteRlcUm rnti lcid, ch_rx = LteRlcUm rnti lcid, ch_accepted = [], ch_delivered = []\<rparr>"

fun event_ok :: "um_event \<Rightarrow> bool" where
  "event_ok (Submit now p) \<longleftrightarrow> p \<noteq> [] \<and> length p < 2 ^ 16"
| "event_ok (Opportunity now opp arrives) \<longleftrightarrow> to_bytes opp < 2 ^ 16"
| "event_ok (RbsTimer now) \<longleftrightarrow> True"

fun arrives :: "um_event \<Rightarrow> bool" where
  "arrives (Opportunity now opp a) \<longleftrightarrow> a"
| "arrives _ \<longleftrightarrow> True"

subsection \<open>The sender\<close>

text \<open>\<open>gone\<close> are the SDUs that have left the buffer, and \<open>h\<close> is what has left of the one in progress.\<close>

definition tx_ok :: "um \<Rightarrow> bytes list \<Rightarrow> bytes list \<Rightarrow> bytes option \<Rightarrow> bool" where
  "tx_ok s accepted gone h \<longleftrightarrow> waiting_ok (um_txBuffer s) \<and> unat (sn_value (um_sequenceNumber s)) < 1024 \<and>
     um_maxTxBufferSize s = 10 * 1024 \<and> um_txBufferSize s = of_nat (total (um_txBuffer s)) \<and>
     total (um_txBuffer s) \<le> 10 * 1024 \<and>
     accepted = gone @ glue h (map tx_pdu (um_txBuffer s)) \<and> (h \<noteq> None \<longleftrightarrow> started (um_txBuffer s))"

lemma glue_length [simp]: "length (glue h xs) = length xs"
  by (cases h; cases xs) auto

lemma tx_ok_submit:
  assumes "tx_ok s accepted gone h" and "p \<noteq> []" and "length p < 2 ^ 16"
  shows "tx_ok (fst (DoTransmitPdcpPdu now s p))
    (if length (um_txBuffer (fst (DoTransmitPdcpPdu now s p))) > length (um_txBuffer s) then accepted @ [p] else accepted) gone h"
proof -
  have t: "total (um_txBuffer s) \<le> 10240" "um_txBufferSize s = of_nat (total (um_txBuffer s))"
    using assms(1) by (simp_all add: tx_ok_def)
  then have "unat (um_txBufferSize s) = total (um_txBuffer s)" by (simp add: unat_of_nat)
  moreover have "unat (GetSize p) = length p" using assms(3) by simp
  ultimately have u: "unat (um_txBufferSize s + GetSize p) = total (um_txBuffer s) + length p"
    using t assms(3) by (simp add: unat_word_ariths)
  show ?thesis
  proof (cases "um_txBufferSize s + GetSize p \<le> um_maxTxBufferSize s")
    case True
    then have "total (um_txBuffer s) + length p \<le> 10240" using u assms(1) by (simp add: tx_ok_def word_le_nat_alt)
    moreover have "glue h (map tx_pdu (um_txBuffer s) @ [p]) = glue h (map tx_pdu (um_txBuffer s)) @ [p]"
    proof (cases "um_txBuffer s")
      case Nil
      then have "h = None" using assms(1) by (simp add: tx_ok_def started_def)
      then show ?thesis by simp
    qed (use glue_append[of "map tx_pdu (um_txBuffer s)" h "[p]"] in simp)
    ultimately show ?thesis using assms True
      by (cases "um_txBuffer s") (auto simp: tx_ok_def DoTransmitPdcpPdu_def Let_def waiting_ok_def started_def GetSize_def)
  next
    case False
    then show ?thesis using assms by (simp add: tx_ok_def DoTransmitPdcpPdu_def Let_def)
  qed
qed

lemma tx_ok_opportunity:
  assumes "tx_ok s accepted gone h" and "to_bytes opp < 2 ^ 16"
  shows "(um_DoNotifyTxOpportunity now s opp = Inr (s, None) \<and> (to_bytes opp \<le> 2 \<or> um_txBuffer s = [])) \<or>
    (\<exists>s' pdu fs w. um_DoNotifyTxOpportunity now s opp = Inr (s', Some pdu) \<and>
       pdu_of (sn_value (um_sequenceNumber s)) (h = None) fs w (tp_pdu pdu) \<and>
       tx_ok s' accepted (gone @ out_of h fs w) (keep_of h fs w) \<and> total (um_txBuffer s') < total (um_txBuffer s) \<and>
       unat (sn_value (um_sequenceNumber s')) = (unat (sn_value (um_sequenceNumber s)) + 1) mod 1024 \<and>
       length (tp_pdu pdu) \<le> unat (to_bytes opp))"
proof (cases "to_bytes opp \<le> 2 \<or> um_txBuffer s = []")
  case True
  then show ?thesis by (auto simp: um_DoNotifyTxOpportunity_def split: list.splits)
next
  case False
  then have b: "um_txBuffer s \<noteq> []" "2 < to_bytes opp" by auto
  have t: "waiting_ok (um_txBuffer s)" "unat (sn_value (um_sequenceNumber s)) < 1024"
    "um_maxTxBufferSize s = 10 * 1024" "um_txBufferSize s = of_nat (total (um_txBuffer s))"
    "total (um_txBuffer s) \<le> 10 * 1024" "accepted = gone @ glue h (map tx_pdu (um_txBuffer s))"
    "h \<noteq> None \<longleftrightarrow> started (um_txBuffer s)"
    using assms(1) by (simp_all add: tx_ok_def)
  obtain fs buf sz w tm pdu where o: "um_DoNotifyTxOpportunity now s opp = Inr (s\<lparr>um_txBuffer := buf, um_txBufferSize := sz,
      um_sequenceNumber := sn_next (um_sequenceNumber s), um_rbsTimer := tm\<rparr>, Some pdu)"
    "cut (map tx_pdu (um_txBuffer s)) fs (map tx_pdu buf) w" "waiting_ok buf" "started buf \<longleftrightarrow> \<not> w" "\<forall>x \<in> set fs. x \<noteq> []"
    "pdu_of (sn_value (um_sequenceNumber s)) (\<not> started (um_txBuffer s)) fs w (tp_pdu pdu)"
    "sz + of_nat (total (um_txBuffer s)) = um_txBufferSize s + of_nat (total buf)"
    "length (tp_pdu pdu) \<le> unat (to_bytes opp)"
    using opportunity_spec[OF t(1) b assms(2) t(2), of now] by blast
  obtain x r where fs: "fs = x # r" using o(2) by (cases fs) (auto simp: cut_def)
  then have "0 < length x" using o(5) by simp
  then have less: "total buf < total (um_txBuffer s)"
    using cut_sum[OF o(2)] fs by (simp add: total_def)
  let ?s = "s\<lparr>um_txBuffer := buf, um_txBufferSize := sz,
      um_sequenceNumber := sn_next (um_sequenceNumber s), um_rbsTimer := tm\<rparr>"
  have "tx_ok ?s accepted (gone @ out_of h fs w) (keep_of h fs w)"
    using t(2,3,5,6) less o(3,4,7) t(4) cut_glue[OF o(2), of h] by (simp add: tx_ok_def keep_of_def)
  moreover have "pdu_of (sn_value (um_sequenceNumber s)) (h = None) fs w (tp_pdu pdu)" using o(6) t(7) by (cases h) simp_all
  ultimately show ?thesis using o(1,8) less t(2) by (intro disjI2 exI[of _ ?s] exI[of _ pdu] exI[of _ fs] exI[of _ w]) simp
qed

lemma tx_ok_timer: "tx_ok s accepted gone h \<Longrightarrow> tx_ok (fst (ExpireRbsTimer now s)) accepted gone h"
  by (auto simp: ExpireRbsTimer_def tx_ok_def)

subsection \<open>Nothing is lost\<close>

definition in_order :: "channel \<Rightarrow> bool" where
  "in_order c \<longleftrightarrow> (\<exists>h. tx_ok (ch_tx c) (ch_accepted c) (ch_delivered c) h \<and>
     rx_ok (ch_rx c) (unat (sn_value (um_sequenceNumber (ch_tx c)))) h)"

lemma in_order_start: "in_order (um_start rnti lcid)"
  by (auto simp: in_order_def um_start_def tx_ok_def rx_ok_def rs_ok_def LteRlcUm_def SequenceNumber10_def waiting_ok_def
      started_def intro!: exI[of _ None])

lemma in_order_step:
  assumes "in_order c" and "event_ok e" and "arrives e"
  shows "\<exists>c'. um_step um_DoReceivePdu c e = Inr c' \<and> in_order c' \<and>
    (\<forall>now opp a. e = Opportunity now opp a \<and> 2 < to_bytes opp \<and> um_txBuffer (ch_tx c) \<noteq> [] \<longrightarrow>
       total (um_txBuffer (ch_tx c')) < total (um_txBuffer (ch_tx c)))"
proof -
  obtain h where h: "tx_ok (ch_tx c) (ch_accepted c) (ch_delivered c) h"
    "rx_ok (ch_rx c) (unat (sn_value (um_sequenceNumber (ch_tx c)))) h"
    using assms(1) by (auto simp: in_order_def)
  show ?thesis
  proof (cases e)
    case (Submit now p)
    then have "in_order (submit now p c)"
      using tx_ok_submit[OF h(1), of p now] h(2) assms(2)
      by (auto simp: in_order_def submit_def split_beta DoTransmitPdcpPdu_def Let_def intro!: exI[of _ h])
    then show ?thesis using Submit by simp
  next
    case (Opportunity now opp a)
    then have a: "a" "to_bytes opp < 2 ^ 16" using assms(2,3) by auto
    from tx_ok_opportunity[OF h(1) a(2), of now] show ?thesis
    proof (elim disjE exE conjE)
      fix s' pdu fs w
      assume o: "um_DoNotifyTxOpportunity now (ch_tx c) opp = Inr (s', Some pdu)"
        "pdu_of (sn_value (um_sequenceNumber (ch_tx c))) (h = None) fs w (tp_pdu pdu)"
        "tx_ok s' (ch_accepted c) (ch_delivered c @ out_of h fs w) (keep_of h fs w)"
        "total (um_txBuffer s') < total (um_txBuffer (ch_tx c))"
        "unat (sn_value (um_sequenceNumber s')) = (unat (sn_value (um_sequenceNumber (ch_tx c))) + 1) mod 1024"
      have "rsm h False (h = None) fs w = (out_of h fs w, keep_of h fs w)"
        using o(2) by (cases h) (auto simp: rsm_def fresh_def out_of_def keep_of_def pdu_of_def)
      then show ?thesis
        using receive_in_order[OF h(2) o(2) refl] o(1,3-5) Opportunity a(1) by (auto simp: in_order_def)
    qed (use assms(1) Opportunity in auto)
  next
    case (RbsTimer now)
    then show ?thesis using tx_ok_timer[OF h(1)] h(2)
      by (auto simp: in_order_def ExpireRbsTimer_def intro!: exI[of _ h])
  qed
qed

lemma in_order_run:
  assumes "in_order c" and "\<forall>e \<in> set evs. event_ok e \<and> arrives e"
  shows "\<exists>c'. foldE (um_step um_DoReceivePdu) c evs = Inr c' \<and> in_order c'"
  using assms
proof (induction evs arbitrary: c)
  case (Cons e evs)
  then obtain c1 where "um_step um_DoReceivePdu c e = Inr c1" "in_order c1" using in_order_step[of c e] by auto
  then show ?case using Cons by simp
qed simp

text \<open>
  C9. The channel is a queue. However SDUs of up to 65535 bytes are submitted and opportunities of up to 65535 bytes given,
  in any order and number, when every PDU arrives no step fails, and what has been delivered is what was accepted, in order
  and unchanged, up to the SDUs that are still in the buffer; the sizes in the buffer add up to the size it keeps, which is
  never above the maximum.
\<close>
theorem um_channel_fifo:
  assumes "\<forall>e \<in> set evs. event_ok e \<and> arrives e"
  shows "\<exists>c rest. foldE (um_step um_DoReceivePdu) (um_start rnti lcid) evs = Inr c \<and>
    ch_accepted c = ch_delivered c @ rest \<and> length rest = length (um_txBuffer (ch_tx c)) \<and>
    unat (um_txBufferSize (ch_tx c)) = total (um_txBuffer (ch_tx c)) \<and> um_txBufferSize (ch_tx c) \<le> 10 * 1024"
proof -
  obtain c where c: "foldE (um_step um_DoReceivePdu) (um_start rnti lcid) evs = Inr c" "in_order c"
    using in_order_run[OF in_order_start assms] by blast
  then obtain h where h: "tx_ok (ch_tx c) (ch_accepted c) (ch_delivered c) h" by (auto simp: in_order_def)
  then have "unat (um_txBufferSize (ch_tx c)) = total (um_txBuffer (ch_tx c))" by (simp add: tx_ok_def unat_of_nat)
  then show ?thesis using c(1) h by (auto simp: tx_ok_def word_le_nat_alt intro!: exI[of _ c])
qed

definition demo_opp :: "u32 \<Rightarrow> TxOpportunityParameters" where
  "demo_opp n = \<lparr>to_bytes = n, to_layer = 0, to_harqId = 0, to_componentCarrierId = 0, to_rnti = 7, to_lcid = 4\<rparr>"

definition demo_events :: "um_event list" where
  "demo_events = [Submit 0 [1, 2, 3], Submit 1 [4, 5], Opportunity 2 (demo_opp 4) True, RbsTimer 3,
     Opportunity 4 (demo_opp 20) True]"

theorem um_channel_fifo_witness:
  "\<exists>c rest. foldE (um_step um_DoReceivePdu) (um_start 7 4) demo_events = Inr c \<and> ch_accepted c = ch_delivered c @ rest"
proof -
  have "\<forall>e \<in> set demo_events. event_ok e \<and> arrives e" by (simp add: demo_events_def demo_opp_def)
  from um_channel_fifo[OF this, of 7 4] show ?thesis by blast
qed

lemma drain_run:
  assumes "in_order c" and "\<forall>opp \<in> set opps. 2 < to_bytes opp \<and> to_bytes opp < 2 ^ 16"
  shows "\<exists>c'. foldE (um_step um_DoReceivePdu) c (map (\<lambda>opp. Opportunity now opp True) opps) = Inr c' \<and> in_order c' \<and>
    (um_txBuffer (ch_tx c') = [] \<or> total (um_txBuffer (ch_tx c')) + length opps \<le> total (um_txBuffer (ch_tx c)))"
  using assms
proof (induction opps arbitrary: c)
  case (Cons opp opps)
  let ?e = "Opportunity now opp True"
  have ev: "event_ok ?e" "arrives ?e" using Cons.prems by auto
  show ?case
  proof (cases "um_txBuffer (ch_tx c) = []")
    case True
    then have "um_step um_DoReceivePdu c ?e = Inr c" by (simp add: um_DoNotifyTxOpportunity_def)
    moreover obtain c' where "foldE (um_step um_DoReceivePdu) c (map (\<lambda>opp. Opportunity now opp True) opps) = Inr c'"
      "in_order c'" "um_txBuffer (ch_tx c') = [] \<or> total (um_txBuffer (ch_tx c')) + length opps \<le> 0"
      using Cons.IH[OF Cons.prems(1)] Cons.prems(2) True by auto
    moreover have "total b = 0 \<Longrightarrow> in_order c' \<Longrightarrow> um_txBuffer (ch_tx c') = b \<Longrightarrow> b = []" for b c'
      by (cases b) (auto simp: in_order_def tx_ok_def waiting_ok_def)
    ultimately show ?thesis by auto
  next
    case False
    then obtain c1 where c1: "um_step um_DoReceivePdu c ?e = Inr c1" "in_order c1"
      "total (um_txBuffer (ch_tx c1)) < total (um_txBuffer (ch_tx c))"
      using in_order_step[OF Cons.prems(1) ev] Cons.prems(2) by auto
    show ?thesis using Cons.IH[OF c1(2)] Cons.prems(2) c1(1,3) by auto
  qed
qed simp

text \<open>
  C15. The buffer drains: after as many opportunities of at least 3 bytes as the buffer can hold bytes, with no SDU in
  between, everything accepted has been delivered.
\<close>
theorem um_channel_drains:
  assumes "\<forall>e \<in> set evs. event_ok e \<and> arrives e" and "10 * 1024 \<le> length opps"
    and "\<forall>opp \<in> set opps. 2 < to_bytes opp \<and> to_bytes opp < 2 ^ 16"
  shows "\<exists>c. foldE (um_step um_DoReceivePdu) (um_start rnti lcid) (evs @ map (\<lambda>opp. Opportunity now opp True) opps) = Inr c \<and>
    ch_delivered c = ch_accepted c \<and> um_txBuffer (ch_tx c) = []"
proof -
  obtain c where c: "foldE (um_step um_DoReceivePdu) (um_start rnti lcid) evs = Inr c" "in_order c"
    using in_order_run[OF in_order_start assms(1)] by blast
  obtain c' where c': "foldE (um_step um_DoReceivePdu) c (map (\<lambda>opp. Opportunity now opp True) opps) = Inr c'" "in_order c'"
    "um_txBuffer (ch_tx c') = [] \<or> total (um_txBuffer (ch_tx c')) + length opps \<le> total (um_txBuffer (ch_tx c))"
    using drain_run[OF c(2) assms(3)] by blast
  have "total (um_txBuffer (ch_tx c)) \<le> 10240" using c(2) by (auto simp: in_order_def tx_ok_def)
  then have "um_txBuffer (ch_tx c') = [] \<or> total (um_txBuffer (ch_tx c')) = 0" using c'(3) assms(2) by linarith
  then have e: "um_txBuffer (ch_tx c') = []"
    using c'(2) by (cases "um_txBuffer (ch_tx c')") (auto simp: in_order_def tx_ok_def waiting_ok_def)
  then have "ch_delivered c' = ch_accepted c'" using c'(2) by (auto simp: in_order_def tx_ok_def started_def)
  then show ?thesis using c(1) c'(1) e by (simp add: foldE_append)
qed

theorem um_channel_drains_witness:
  "\<exists>c. foldE (um_step um_DoReceivePdu) (um_start 7 4)
      (demo_events @ map (\<lambda>opp. Opportunity 5 opp True) (replicate 10240 (demo_opp 3))) = Inr c \<and>
    ch_delivered c = ch_accepted c \<and> um_txBuffer (ch_tx c) = []"
proof -
  have "\<forall>e \<in> set demo_events. event_ok e \<and> arrives e" by (simp add: demo_events_def demo_opp_def)
  moreover have "10 * 1024 \<le> length (replicate 10240 (demo_opp 3))" by simp
  moreover have "\<forall>opp \<in> set (replicate 10240 (demo_opp 3)). 2 < to_bytes opp \<and> to_bytes opp < 2 ^ 16"
    by (simp add: demo_opp_def)
  ultimately show ?thesis by (rule um_channel_drains)
qed

subsection \<open>PDUs are lost\<close>

text \<open>
  \<open>g\<close> PDUs have been lost since the last that arrived. As long as they are fewer than the sequence numbers, the receiver
  notices, and drops the SDU it was in.
\<close>

fun gaps_ok :: "um \<Rightarrow> nat \<Rightarrow> um_event list \<Rightarrow> bool" where
  "gaps_ok s g [] \<longleftrightarrow> True"
| "gaps_ok s g (Opportunity now opp a # r) \<longleftrightarrow>
     (case um_DoNotifyTxOpportunity now s opp of
        Inl _ \<Rightarrow> True
      | Inr (s', None) \<Rightarrow> gaps_ok s' g r
      | Inr (s', Some _) \<Rightarrow> if a then gaps_ok s' 0 r else g + 1 < 1024 \<and> gaps_ok s' (g + 1) r)"
| "gaps_ok s g (Submit now p # r) \<longleftrightarrow> gaps_ok (fst (DoTransmitPdcpPdu now s p)) g r"
| "gaps_ok s g (RbsTimer now # r) \<longleftrightarrow> gaps_ok (fst (ExpireRbsTimer now s)) g r"

definition lossy :: "channel \<Rightarrow> nat \<Rightarrow> bool" where
  "lossy c g \<longleftrightarrow> (\<exists>gone h k. tx_ok (ch_tx c) (ch_accepted c) gone h \<and> rs_ok (ch_rx c) k \<and> subseq (ch_delivered c) gone \<and>
     unat (sn_value (um_expectedSeqNumber (ch_rx c))) < 1024 \<and>
     unat (sn_value (um_sequenceNumber (ch_tx c))) = (unat (sn_value (um_expectedSeqNumber (ch_rx c))) + g) mod 1024 \<and>
     (g = 0 \<and> k \<noteq> None \<longrightarrow> k = h))"

text \<open>What a receiver that starts afresh delivers and keeps, against what has left the sender.\<close>

lemma fresh_sub:
  assumes "fs \<noteq> []" and "f \<longleftrightarrow> h = None"
  shows "subseq (fst (fresh f fs w)) (out_of h fs w)"
    and "snd (fresh f fs w) \<noteq> None \<longrightarrow> snd (fresh f fs w) = keep_of h fs w"
proof -
  obtain x r where fs: "fs = x # r" using assms(1) by (cases fs) auto
  have "subseq (fst (fresh f fs w)) (out_of h fs w) \<and> (snd (fresh f fs w) \<noteq> None \<longrightarrow> snd (fresh f fs w) = keep_of h fs w)"
    using assms(2) fs by (cases h; cases w; cases r) (auto simp: fresh_def out_of_def keep_of_def Let_def)
  then show "subseq (fst (fresh f fs w)) (out_of h fs w)"
    "snd (fresh f fs w) \<noteq> None \<longrightarrow> snd (fresh f fs w) = keep_of h fs w" by simp_all
qed

lemma lossy_start: "lossy (um_start rnti lcid) 0"
  by (auto simp: lossy_def um_start_def tx_ok_def rs_ok_def LteRlcUm_def SequenceNumber10_def waiting_ok_def
      started_def intro!: exI[of _ "[]"] exI[of _ None])

lemma lossy_received:
  assumes "tx_ok s accepted gone h" and "rs_ok r k" and "subseq delivered gone"
    and "unat (sn_value (um_expectedSeqNumber r)) < 1024" and "g < 1024"
    and "unat (sn_value (um_sequenceNumber s)) = (unat (sn_value (um_expectedSeqNumber r)) + g) mod 1024"
    and "g = 0 \<and> k \<noteq> None \<longrightarrow> k = h"
    and "pdu_of (sn_value (um_sequenceNumber s)) (h = None) fs w p"
  shows "\<exists>r' sdus k'. ReassembleAndDeliver r p = Inr (r', sdus) \<and> rs_ok r' k' \<and>
    subseq (delivered @ sdus) (gone @ out_of h fs w) \<and> (k' \<noteq> None \<longrightarrow> k' = keep_of h fs w) \<and>
    unat (sn_value (um_expectedSeqNumber r')) = (unat (sn_value (um_sequenceNumber s)) + 1) mod 1024"
proof -
  have fs: "fs \<noteq> []" using assms(8) by (auto simp: pdu_of_def)
  have lost: "g \<noteq> 0 \<longleftrightarrow> sn_value (um_sequenceNumber s) \<noteq> sn_value (um_expectedSeqNumber r)"
    using assms(4-6) by (auto simp: word_unat_eq_iff mod_if split: if_splits)
  have kf: "k \<noteq> None \<and> \<not> g \<noteq> 0 \<longrightarrow> \<not> h = None" using assms(7) by auto
  obtain r' where r': "ReassembleAndDeliver r p = Inr (r', fst (rsm k (g \<noteq> 0) (h = None) fs w))"
    "rs_ok r' (snd (rsm k (g \<noteq> 0) (h = None) fs w))"
    "unat (sn_value (um_expectedSeqNumber r')) = (unat (sn_value (um_sequenceNumber s)) + 1) mod 1024"
    using reassemble_spec[OF assms(8,2,4) lost kf] by blast
  have "subseq (fst (rsm k (g \<noteq> 0) (h = None) fs w)) (out_of h fs w) \<and>
      (snd (rsm k (g \<noteq> 0) (h = None) fs w) \<noteq> None \<longrightarrow> snd (rsm k (g \<noteq> 0) (h = None) fs w) = keep_of h fs w)"
    using fresh_sub[OF fs, of "h = None" h w] assms(7) by (auto simp: rsm_def)
  then show ?thesis using r' assms(3) by (blast intro: list_emb_append_mono)
qed

lemma lossy_step:
  assumes "lossy c g" and "event_ok e" and "gaps_ok (ch_tx c) g (e # r)" and "g < 1024"
  shows "\<exists>c' g'. um_step ReassembleAndDeliver c e = Inr c' \<and> lossy c' g' \<and> gaps_ok (ch_tx c') g' r \<and> g' < 1024"
proof -
  obtain gone h k where h: "tx_ok (ch_tx c) (ch_accepted c) gone h" "rs_ok (ch_rx c) k" "subseq (ch_delivered c) gone"
    "unat (sn_value (um_expectedSeqNumber (ch_rx c))) < 1024"
    "unat (sn_value (um_sequenceNumber (ch_tx c))) = (unat (sn_value (um_expectedSeqNumber (ch_rx c))) + g) mod 1024"
    "g = 0 \<and> k \<noteq> None \<longrightarrow> k = h"
    using assms(1) unfolding lossy_def by (elim exE conjE) (rule that)
  have keep: "lossy c' g" if "tx_ok (ch_tx c') (ch_accepted c') gone h" "ch_rx c' = ch_rx c" "ch_delivered c' = ch_delivered c"
      "um_sequenceNumber (ch_tx c') = um_sequenceNumber (ch_tx c)" for c'
    unfolding lossy_def using that h by (intro exI[of _ gone] exI[of _ h] exI[of _ k]) simp
  show ?thesis
  proof (cases e)
    case (Submit now p)
    have "lossy (submit now p c) g"
      using tx_ok_submit[OF h(1), of p now] assms(2) Submit
      by (intro keep) (simp_all add: submit_def split_beta DoTransmitPdcpPdu_def Let_def)
    then show ?thesis using Submit assms(3,4) by (auto simp: submit_def split_beta)
  next
    case (Opportunity now opp a)
    have bytes: "to_bytes opp < 2 ^ 16" using assms(2) Opportunity by simp
    from tx_ok_opportunity[OF h(1) bytes, of now] consider
        (none) "um_DoNotifyTxOpportunity now (ch_tx c) opp = Inr (ch_tx c, None)"
      | (some) s' pdu fs w where "um_DoNotifyTxOpportunity now (ch_tx c) opp = Inr (s', Some pdu)"
          "pdu_of (sn_value (um_sequenceNumber (ch_tx c))) (h = None) fs w (tp_pdu pdu)"
          "tx_ok s' (ch_accepted c) (gone @ out_of h fs w) (keep_of h fs w)"
          "unat (sn_value (um_sequenceNumber s')) = (unat (sn_value (um_sequenceNumber (ch_tx c))) + 1) mod 1024"
      by blast
    then show ?thesis
    proof cases
      case none
      then show ?thesis using assms Opportunity by (intro exI[of _ c] exI[of _ g]) simp
    next
      case some
      note 2 = some
      show ?thesis
      proof (cases a)
        case True
        obtain r' sdus k' where r: "ReassembleAndDeliver (ch_rx c) (tp_pdu pdu) = Inr (r', sdus)" "rs_ok r' k'"
          "subseq (ch_delivered c @ sdus) (gone @ out_of h fs w)" "k' \<noteq> None \<longrightarrow> k' = keep_of h fs w"
          "unat (sn_value (um_expectedSeqNumber r')) = (unat (sn_value (um_sequenceNumber (ch_tx c))) + 1) mod 1024"
          using lossy_received[OF h(1-4) assms(4) h(5,6) 2(2)] by blast
        let ?c = "c\<lparr>ch_tx := s', ch_rx := r', ch_delivered := ch_delivered c @ sdus\<rparr>"
        have "lossy ?c 0" unfolding lossy_def
          using r(2-5) 2 by (intro exI[of _ "gone @ out_of h fs w"] exI[of _ "keep_of h fs w"] exI[of _ k']) simp
        then show ?thesis using True r(1) 2 Opportunity assms(3) by (intro exI[of _ ?c] exI[of _ 0]) simp
      next
        case False
        let ?c = "c\<lparr>ch_tx := s'\<rparr>"
        have "subseq (ch_delivered c) (gone @ out_of h fs w)" using h(3) by (rule subseq_rev_drop_many)
        then have "lossy ?c (g + 1)" unfolding lossy_def using h(2,4,5) 2
          by (intro exI[of _ "gone @ out_of h fs w"] exI[of _ "keep_of h fs w"] exI[of _ k]) (simp add: mod_simps)
        then show ?thesis using False 2 Opportunity assms(3) by (intro exI[of _ ?c] exI[of _ "g + 1"]) simp
      qed
    qed
  next
    case (RbsTimer now)
    let ?c = "c\<lparr>ch_tx := fst (ExpireRbsTimer now (ch_tx c))\<rparr>"
    have "lossy ?c g" using tx_ok_timer[OF h(1)] by (intro keep) (auto simp: ExpireRbsTimer_def)
    then show ?thesis using RbsTimer assms(3,4) by (intro exI[of _ ?c] exI[of _ g]) simp
  qed
qed

lemma lossy_run:
  assumes "lossy c g" and "\<forall>e \<in> set evs. event_ok e" and "gaps_ok (ch_tx c) g evs" and "g < 1024"
  shows "\<exists>c' g'. foldE (um_step ReassembleAndDeliver) c evs = Inr c' \<and> lossy c' g'"
  using assms
proof (induction evs arbitrary: c g)
  case (Cons e evs)
  then obtain c1 g1 where "um_step ReassembleAndDeliver c e = Inr c1" "lossy c1 g1" "gaps_ok (ch_tx c1) g1 evs" "g1 < 1024"
    using lossy_step[of c g e evs] by auto
  then show ?case using Cons by simp
qed auto

text \<open>
  C14. Losses never corrupt. When PDUs are lost between the two entities, and the ones that arrive are reassembled in order, no
  step fails, and what is delivered is a subsequence of what was accepted: no SDU is changed, doubled, reordered or put together
  from pieces of two, as long as fewer than 1024 consecutive PDUs are lost, which is what the sequence numbers can tell.
\<close>
theorem um_lossy_channel:
  assumes "\<forall>e \<in> set evs. event_ok e" and "gaps_ok (LteRlcUm rnti lcid) 0 evs"
  shows "\<exists>c. foldE (um_step ReassembleAndDeliver) (um_start rnti lcid) evs = Inr c \<and>
    subseq (ch_delivered c) (ch_accepted c)"
proof -
  have "gaps_ok (ch_tx (um_start rnti lcid)) 0 evs" using assms(2) by (simp add: um_start_def)
  from lossy_run[OF lossy_start assms(1) this] obtain c g where c: "foldE (um_step ReassembleAndDeliver) (um_start rnti lcid) evs = Inr c" "lossy c g"
    by auto
  then obtain gone h where "tx_ok (ch_tx c) (ch_accepted c) gone h" "subseq (ch_delivered c) gone"
    unfolding lossy_def by (elim exE conjE) (rule that)
  then have "subseq (ch_delivered c) (ch_accepted c)"
    by (auto simp: tx_ok_def intro: subseq_rev_drop_many)
  then show ?thesis using c(1) by blast
qed

definition demo_losses :: "um_event list" where
  "demo_losses = [Submit 0 [1, 2, 3], Submit 1 [4, 5], Opportunity 2 (demo_opp 4) True, Opportunity 3 (demo_opp 20) False,
     Submit 4 [6], Opportunity 5 (demo_opp 20) True]"

theorem um_lossy_channel_witness:
  "\<exists>c. foldE (um_step ReassembleAndDeliver) (um_start 7 4) demo_losses = Inr c \<and> subseq (ch_delivered c) (ch_accepted c)"
proof -
  have "\<forall>e \<in> set demo_losses. event_ok e" by (simp add: demo_losses_def demo_opp_def)
  moreover have "gaps_ok (LteRlcUm 7 4) 0 demo_losses" by code_simp
  ultimately show ?thesis by (rule um_lossy_channel)
qed

end
