(* ===== verification/UeMac.thy ===== *)
theory UeMac
  imports RlcUm SfnSf PhyMacCommon
begin

text \<open>
  The MAC of a UE, \<open>contrib/nr/model/nr-ue-mac.cc\<close>: scheduling requests, buffer status reports, and what is sent in
  an uplink grant. A RLC entity answers an opportunity with calls to the SAP; \<open>'r\<close> is its state and \<open>notify\<close>
  its handler. What the PHY and the upper layers are told is a list of messages. The trace callbacks and the output to
  \<open>std::cout\<close> are left out.
\<close>

subsection \<open>State\<close>

record LteRadioBearerTag =
  bt_rnti :: u16
  bt_lcid :: u8
  bt_layer :: u8

record mac_packet =
  mp_bytes :: bytes
  mp_tag :: LteRadioBearerTag

datatype mac_msg =
    SendMacPdu mac_packet sfnsf u8 u8
  | NrSRMessage u16
  | SendRachPreamble u8 u8
  | ReceivePdu u8 bytes
  | SetTemporaryCellRnti u16
  | NotifyRandomAccessSuccessful

datatype SrBsrMachine = INACTIVE | TO_SEND | ACTIVE

record UlHarqProcessInfo =
  hp_pktBurst :: "mac_packet list option"
  hp_lcidList :: "u8 list"

record 'r LcInfo =
  li_logicalChannelGroup :: u8
  li_macSapUser :: 'r

record 'r ue_mac =
  mac_currentSlot :: sfnsf
  mac_numHarqProcess :: u8
  mac_ulDci :: "dci option"
  mac_ulDciSfnsf :: sfnsf
  mac_ulDciTotalUsed :: u32
  mac_ulBsrReceived :: "(u8 \<times> ReportBufferStatusParameters) list"
  mac_srState :: SrBsrMachine
  mac_srPeriodicity :: u8
  mac_bsrPeriodicity :: int
  mac_bsrLast :: int
  mac_freshUlBsr :: bool
  mac_raPreambleId :: u8
  mac_raRnti :: u8
  mac_harq :: "UlHarqProcessInfo list"
  mac_harqTimer :: "u8 list"
  mac_lcInfoMap :: "(u8 \<times> 'r LcInfo) list"
  mac_rnti :: u16
  mac_waitingForRaResponse :: bool
  mac_bwpId :: u16
  mac_sent :: "mac_msg list"

text \<open>The attributes have their default values; \<open>bwpId\<close> is what the PHY answers.\<close>

definition NrUeMac :: "u16 \<Rightarrow> 'r ue_mac" where
  "NrUeMac bwpId = \<lparr>mac_currentSlot = SfnSf_default, mac_numHarqProcess = 20, mac_ulDci = None,
     mac_ulDciSfnsf = SfnSf_default, mac_ulDciTotalUsed = 0, mac_ulBsrReceived = [], mac_srState = INACTIVE,
     mac_srPeriodicity = 10, mac_bsrPeriodicity = 2500000, mac_bsrLast = 0, mac_freshUlBsr = True,
     mac_raPreambleId = 0, mac_raRnti = 0, mac_harq = [], mac_harqTimer = [], mac_lcInfoMap = [], mac_rnti = 0,
     mac_waitingForRaResponse = True, mac_bwpId = bwpId, mac_sent = []\<rparr>"

definition send :: "mac_msg \<Rightarrow> 'r ue_mac \<Rightarrow> 'r ue_mac" where
  "send m s = s\<lparr>mac_sent := mac_sent s @ [m]\<rparr>"

definition SetNumHarqProcess :: "u8 \<Rightarrow> 'r ue_mac \<Rightarrow> 'r ue_mac" where
  "SetNumHarqProcess numHarqProcess s =
     (let n = unat numHarqProcess;
          resized = take n (mac_harq s) @ replicate (n - length (mac_harq s)) \<lparr>hp_pktBurst = None, hp_lcidList = []\<rparr> in
      s\<lparr>mac_numHarqProcess := numHarqProcess,
        mac_harq := map (\<lambda>p. if hp_pktBurst p = None then p\<lparr>hp_pktBurst := Some []\<rparr> else p) resized,
        mac_harqTimer := take n (mac_harqTimer s) @ replicate (n - length (mac_harqTimer s)) 0\<rparr>)"

definition AddLc :: "u8 \<Rightarrow> u8 \<Rightarrow> 'r \<Rightarrow> 'r ue_mac \<Rightarrow> 'r ue_mac res" where
  "AddLc lcId lcg msu s =
     ns_assert (map_of (mac_lcInfoMap s) lcId = None)
       (Inr (s\<lparr>mac_lcInfoMap := AList.update lcId \<lparr>li_logicalChannelGroup = lcg, li_macSapUser = msu\<rparr> (mac_lcInfoMap s)\<rparr>))"

subsection \<open>Buffer status\<close>

definition bsr_size :: "ReportBufferStatusParameters \<Rightarrow> u32" where
  "bsr_size r = rb_txQueueSize r + rb_retxQueueSize r + ucast (rb_statusPduSize r)"

definition GetTotalBufSize :: "'r ue_mac \<Rightarrow> u32" where
  "GetTotalBufSize s = sum_list (map (\<lambda>(_, r). bsr_size r) (mac_ulBsrReceived s))"

definition add_queue :: "(u8 \<times> 'r LcInfo) list \<Rightarrow> u32 list \<Rightarrow> u8 \<times> ReportBufferStatusParameters \<Rightarrow> u32 list res" where
  "add_queue lcInfoMap queue = (\<lambda>(lcid, r).
     case map_of lcInfoMap lcid of
       None \<Rightarrow> Inl AssertFailed
     | Some info \<Rightarrow>
         let lcg = unat (li_logicalChannelGroup info) in
         ns_assert (lcid \<noteq> 0 \<or> (rb_txQueueSize r = 0 \<and> rb_retxQueueSize r = 0 \<and> rb_statusPduSize r = 0))
         (bindE (vec_at queue lcg) (\<lambda>q.
            let q = q + bsr_size r;
                q = (if q \<noteq> 0 then q + 5 else q);
                q = (if rb_txQueueSize r > 0 then q + 3 else q);
                q = (if rb_retxQueueSize r > 0 then q + 3 else q) in
            Inr (queue[lcg := q]))))"

definition lcg_queues :: "'r ue_mac \<Rightarrow> u32 list res" where
  "lcg_queues s = foldE (add_queue (mac_lcInfoMap s)) (replicate 4 0) (mac_ulBsrReceived s)"

definition ue_DoReportBufferStatus :: "'r ue_mac \<Rightarrow> ReportBufferStatusParameters \<Rightarrow> 'r ue_mac res" where
  "ue_DoReportBufferStatus s params =
     bindE (lcg_queues s) (\<lambda>_.
     let s = s\<lparr>mac_ulBsrReceived := AList.update (rb_lcid params) params (mac_ulBsrReceived s)\<rparr>;
         s = (if mac_srState s = INACTIVE then s\<lparr>mac_srState := TO_SEND\<rparr> else s) in
     Inr (s\<lparr>mac_freshUlBsr := True\<rparr>))"

text \<open>The first transport block size of the grant in progress.\<close>

definition with_dci :: "'r ue_mac \<Rightarrow> (dci \<Rightarrow> 'a res) \<Rightarrow> 'a res" where
  "with_dci s k = (case mac_ulDci s of None \<Rightarrow> Inl Undefined | Some d \<Rightarrow> k d)"

definition tb_size :: "'r ue_mac \<Rightarrow> u32 res" where
  "tb_size s = with_dci s (\<lambda>d. vec_at (dci_tbSize d) 0)"

definition SendReportBufferStatus :: "'r ue_mac \<Rightarrow> sfnsf \<Rightarrow> u8 \<Rightarrow> 'r ue_mac res" where
  "SendReportBufferStatus s dataSfn symStart =
     (if mac_rnti s = 0 then Inr s
      else if mac_ulBsrReceived s = [] then Inr s
      else
        bindE (lcg_queues s) (\<lambda>queue.
        bindE (tb_size s) (\<lambda>tbs.
        bindE (FromBytesToLevel (ucast (queue ! 0))) (\<lambda>la.
        bindE (FromBytesToLevel (ucast (queue ! 1))) (\<lambda>lb.
        bindE (FromBytesToLevel (ucast (queue ! 2))) (\<lambda>lc.
        bindE (FromBytesToLevel (ucast (queue ! 3))) (\<lambda>ld.
        bindE NrMacShortBsrCe (\<lambda>header.
        bindE (bsr_Serialize (header\<lparr>bufferSizeLevel_0 := la, bufferSizeLevel_1 := lb, bufferSizeLevel_2 := lc,
                 bufferSizeLevel_3 := ld\<rparr>)) (\<lambda>bs.
        let p = \<lparr>mp_bytes = bs, mp_tag = \<lparr>bt_rnti = mac_rnti s, bt_lcid = SHORT_BSR, bt_layer = 0\<rparr>\<rparr>;
            s = s\<lparr>mac_ulDciTotalUsed := mac_ulDciTotalUsed s + GetSize (mp_bytes p)\<rparr> in
        ns_assert (mac_ulDciTotalUsed s \<le> tbs) (Inr (send (SendMacPdu p dataSfn symStart 0) s)))))))))))"

subsection \<open>Slots and scheduling requests\<close>

definition RefreshHarqProcessesPacketBuffer :: "'r ue_mac \<Rightarrow> 'r ue_mac" where
  "RefreshHarqProcessesPacketBuffer s =
     s\<lparr>mac_harq := map (\<lambda>(p, timer).
         case hp_pktBurst p of
           None \<Rightarrow> p
         | Some pb \<Rightarrow> if timer = 0 \<and> concat (map mp_bytes pb) \<noteq> [] then p\<lparr>hp_pktBurst := Some [], hp_lcidList := []\<rparr> else p)
       (zip (mac_harq s) (mac_harqTimer s))\<rparr>"

definition SendSR :: "'r ue_mac \<Rightarrow> 'r ue_mac" where
  "SendSR s = (if mac_rnti s = 0 then s else send (NrSRMessage (mac_rnti s)) s)"

definition sr_occasion :: "sfnsf \<Rightarrow> u8 \<Rightarrow> bool" where
  "sr_occasion sfn p \<longleftrightarrow>
     (frameNum sfn * 20 + 2 * ucast (subframeNum sfn) + ucast (slotNum sfn)) mod ucast p = 2 mod (ucast p :: u32)"

definition ue_DoSlotIndication :: "'r ue_mac \<Rightarrow> sfnsf \<Rightarrow> 'r ue_mac res" where
  "ue_DoSlotIndication s sfn =
     (let s = RefreshHarqProcessesPacketBuffer (s\<lparr>mac_currentSlot := sfn\<rparr>) in
      if mac_srState s = TO_SEND then
        defined_if (mac_srPeriodicity s \<noteq> 0)
          (Inr (if sr_occasion sfn (mac_srPeriodicity s) then (SendSR s)\<lparr>mac_srState := ACTIVE\<rparr> else s))
      else Inr s)"

subsection \<open>Transmission\<close>

text \<open>What an entity calls while it handles an opportunity.\<close>

datatype rlc_call =
    TransmitPdu TransmitPduParameters
  | ReportBufferStatus ReportBufferStatusParameters

definition ue_DoTransmitPdu :: "'r ue_mac \<Rightarrow> TransmitPduParameters \<Rightarrow> 'r ue_mac res" where
  "ue_DoTransmitPdu s params =
     with_dci s (\<lambda>d.
     ns_assert (dci_harqProcess d = tp_harqProcessId params)
     (let h = unat (tp_harqProcessId params) in
      bindE (vec_at (mac_harq s) h) (\<lambda>proc.
      bindE (vs_SetLcId \<lparr>vs_lcid = 0, vs_size = 0\<rparr> (tp_lcid params)) (\<lambda>header.
      let header = header\<lparr>vs_size := ucast (GetSize (tp_pdu params))\<rparr>;
          pdu = \<lparr>mp_bytes = vs_Serialize header @ tp_pdu params,
                 mp_tag = \<lparr>bt_rnti = tp_rnti params, bt_lcid = tp_lcid params, bt_layer = tp_layer params\<rparr>\<rparr>;
          used = mac_ulDciTotalUsed s + GetSize (mp_bytes pdu);
          burst = (case hp_pktBurst proc of None \<Rightarrow> [] | Some pb \<Rightarrow> pb) in
      bindE (vec_at (mac_harqTimer s) h) (\<lambda>_.
      bindE (tb_size s) (\<lambda>tbs.
      ns_assert (used \<le> tbs)
        (Inr (send (SendMacPdu pdu (mac_ulDciSfnsf s) (dci_symStart d) (tp_layer params))
          (s\<lparr>mac_ulDciTotalUsed := used,
             mac_harq := (mac_harq s)[h := \<lparr>hp_pktBurst = Some (burst @ [pdu]),
                                           hp_lcidList = hp_lcidList proc @ [tp_lcid params]\<rparr>],
             mac_harqTimer := (mac_harqTimer s)[h := mac_numHarqProcess s]\<rparr>)))))))))"

definition rlc_calls :: "'r ue_mac \<Rightarrow> rlc_call list \<Rightarrow> 'r ue_mac res" where
  "rlc_calls = foldE (\<lambda>s c. case c of TransmitPdu p \<Rightarrow> ue_DoTransmitPdu s p
                                   | ReportBufferStatus r \<Rightarrow> ue_DoReportBufferStatus s r)"

type_synonym 'r notify = "'r \<Rightarrow> TxOpportunityParameters \<Rightarrow> ('r \<times> rlc_call list) res"

text \<open>An opportunity for the channel whose last report has the key \<open>k\<close>.\<close>

definition tx_opportunity :: "'r notify \<Rightarrow> 'r ue_mac \<Rightarrow> u8 \<Rightarrow> u32 \<Rightarrow> 'r ue_mac res" where
  "tx_opportunity notify s lcid n =
     with_dci s (\<lambda>d.
     bindE (map_at lcid (mac_lcInfoMap s)) (\<lambda>info.
     bindE (notify (li_macSapUser info) \<lparr>to_bytes = n, to_layer = 0, to_harqId = dci_harqProcess d,
              to_componentCarrierId = ucast (mac_bwpId s), to_rnti = mac_rnti s, to_lcid = lcid\<rparr>) (\<lambda>(r, calls).
     rlc_calls (s\<lparr>mac_lcInfoMap := AList.update lcid (info\<lparr>li_macSapUser := r\<rparr>) (mac_lcInfoMap s)\<rparr>) calls)))"

definition update_bsr :: "u8 \<Rightarrow> (ReportBufferStatusParameters \<Rightarrow> ReportBufferStatusParameters) \<Rightarrow> 'r ue_mac \<Rightarrow> 'r ue_mac" where
  "update_bsr k f s = s\<lparr>mac_ulBsrReceived := map (\<lambda>(k', r). (k', if k' = k then f r else r)) (mac_ulBsrReceived s)\<rparr>"

text \<open>One loop for both kinds of data: \<open>sub\<close> takes the bytes off the queue that is served.\<close>

definition serve :: "'r notify \<Rightarrow> (u32 \<Rightarrow> ReportBufferStatusParameters \<Rightarrow> ReportBufferStatusParameters) \<Rightarrow> u32 \<Rightarrow>
    'r ue_mac \<Rightarrow> u8 \<Rightarrow> 'r ue_mac res" where
  "serve notify sub bytesPerLcId s k =
     bindE (map_at k (mac_ulBsrReceived s)) (\<lambda>r.
     bindE (tb_size s) (\<lambda>tbs.
     if mac_ulDciTotalUsed s + bytesPerLcId \<le> tbs then
       bindE (tx_opportunity notify s (rb_lcid r) bytesPerLcId) (\<lambda>s. Inr (update_bsr k (sub bytesPerLcId) s))
     else Inr s))"

definition off_retx :: "u32 \<Rightarrow> ReportBufferStatusParameters \<Rightarrow> ReportBufferStatusParameters" where
  "off_retx n r = r\<lparr>rb_retxQueueSize := rb_retxQueueSize r - min n (rb_retxQueueSize r)\<rparr>"

definition off_tx :: "u32 \<Rightarrow> ReportBufferStatusParameters \<Rightarrow> ReportBufferStatusParameters" where
  "off_tx n r = r\<lparr>rb_txQueueSize := rb_txQueueSize r - min n (rb_txQueueSize r)\<rparr>"

definition SendRetxData :: "'r notify \<Rightarrow> 'r ue_mac \<Rightarrow> u32 \<Rightarrow> u32 \<Rightarrow> 'r ue_mac res" where
  "SendRetxData notify s usefulTbs activeLcsRetx =
     (if activeLcsRetx = 0 then Inr s
      else foldE (serve notify off_retx (usefulTbs div activeLcsRetx)) s (map fst (mac_ulBsrReceived s)))"

definition SendTxData :: "'r notify \<Rightarrow> 'r ue_mac \<Rightarrow> u32 \<Rightarrow> u32 \<Rightarrow> 'r ue_mac res" where
  "SendTxData notify s usefulTbs activeTx =
     (if activeTx = 0 then Inr s
      else foldE (serve notify off_tx (usefulTbs div activeTx)) s (map fst (mac_ulBsrReceived s)))"

definition serve_status :: "'r notify \<Rightarrow> 'r ue_mac \<times> bool \<times> bool \<Rightarrow> u8 \<Rightarrow> ('r ue_mac \<times> bool \<times> bool) res" where
  "serve_status notify = (\<lambda>(s, hasStatusPdu, sentOneStatusPdu) k.
     bindE (map_at k (mac_ulBsrReceived s)) (\<lambda>r.
     if rb_statusPduSize r > 0 then
       bindE (tb_size s) (\<lambda>tbs.
       if mac_ulDciTotalUsed s + ucast (rb_statusPduSize r) \<le> tbs then
         bindE (tx_opportunity notify s (rb_lcid r) (ucast (rb_statusPduSize r))) (\<lambda>s.
           Inr (update_bsr k (\<lambda>r. r\<lparr>rb_statusPduSize := 0\<rparr>) s, True, True))
       else Inr (s, True, sentOneStatusPdu))
     else Inr (s, hasStatusPdu, sentOneStatusPdu)))"

definition SendNewStatusData :: "'r notify \<Rightarrow> 'r ue_mac \<Rightarrow> 'r ue_mac res" where
  "SendNewStatusData notify s =
     bindE (foldE (serve_status notify) (s, False, False) (map fst (mac_ulBsrReceived s)))
       (\<lambda>(s, hasStatusPdu, sentOneStatusPdu). ns_abort_if (hasStatusPdu \<and> \<not> sentOneStatusPdu) (Inr s))"

definition active_channels :: "(ReportBufferStatusParameters \<Rightarrow> u32) \<Rightarrow> 'r ue_mac \<Rightarrow> u16" where
  "active_channels q s = of_nat (length (filter (\<lambda>(_, r). q r > 0) (mac_ulBsrReceived s)))"

definition SendNewData :: "'r notify \<Rightarrow> 'r ue_mac \<Rightarrow> 'r ue_mac res" where
  "SendNewData notify s =
     with_dci s (\<lambda>d.
     let h = unat (dci_harqProcess d) in
     bindE (vec_at (mac_harq s) h) (\<lambda>_.
     bindE (SendNewStatusData notify (s\<lparr>mac_harq := (mac_harq s)[h := \<lparr>hp_pktBurst = Some [], hp_lcidList = []\<rparr>]\<rparr>)) (\<lambda>s.
     let activeLcsRetx = ucast (active_channels rb_retxQueueSize s) :: u32;
         activeLcsTx = ucast (active_channels rb_txQueueSize s) :: u32 in
     bindE (tb_size s) (\<lambda>tbs.
     ns_assert (mac_ulDciTotalUsed s + 5 \<le> tbs)
     (let usefulTbs = tbs - mac_ulDciTotalUsed s - 5 in
      bindE (if activeLcsRetx > 0 \<and> usefulTbs > 0 \<and> \<not> activeLcsRetx * 10 > usefulTbs then
               SendRetxData notify s (usefulTbs - activeLcsRetx * 3) activeLcsRetx
             else Inr s) (\<lambda>s.
      ns_assert (mac_ulDciTotalUsed s + 5 \<le> tbs)
      (let usefulTbs = tbs - mac_ulDciTotalUsed s - 5 in
       bindE (if activeLcsTx > 0 \<and> usefulTbs > 0 \<and> \<not> activeLcsTx * 10 > usefulTbs then
                SendTxData notify s (usefulTbs - activeLcsTx * 3) activeLcsTx
              else Inr s) (\<lambda>s.
       Inr (if mac_ulDciTotalUsed s = 0
            then s\<lparr>mac_harq := (mac_harq s)[h := \<lparr>hp_pktBurst = None, hp_lcidList = []\<rparr>]\<rparr> else s)))))))))"

definition TransmitRetx :: "'r ue_mac \<Rightarrow> 'r ue_mac res" where
  "TransmitRetx s =
     with_dci s (\<lambda>d.
     let h = unat (dci_harqProcess d) in
     bindE (vec_at (mac_harq s) h) (\<lambda>proc.
     case hp_pktBurst proc of
       None \<Rightarrow> Inr s
     | Some pb \<Rightarrow>
         ns_assert (pb \<noteq> [])
         (let s = foldl (\<lambda>s pkt. send (SendMacPdu pkt (mac_ulDciSfnsf s) (dci_symStart d) 0)
                    (s\<lparr>mac_ulDciTotalUsed := mac_ulDciTotalUsed s + GetSize (mp_bytes pkt)\<rparr>)) s pb in
          bindE (vec_at (mac_harqTimer s) h) (\<lambda>_.
          Inr (s\<lparr>mac_harqTimer := (mac_harqTimer s)[h := mac_numHarqProcess s]\<rparr>)))))"

definition report_if_due :: "int \<Rightarrow> 'r ue_mac \<Rightarrow> sfnsf \<Rightarrow> u8 \<Rightarrow> 'r ue_mac res" where
  "report_if_due now s dataSfn symStart =
     (if now \<ge> mac_bsrLast s + mac_bsrPeriodicity s then
        bindE (SendReportBufferStatus s dataSfn symStart) (\<lambda>s. Inr (s\<lparr>mac_bsrLast := now, mac_freshUlBsr := False\<rparr>))
      else Inr s)"

definition ProcessUlDci :: "'r notify \<Rightarrow> int \<Rightarrow> 'r ue_mac \<Rightarrow> dci \<Rightarrow> u32 \<Rightarrow> 'r ue_mac res" where
  "ProcessUlDci notify now s d kDelay =
     bindE (Add (mac_currentSlot s) kDelay) (\<lambda>dataSfn.
     let s = s\<lparr>mac_ulDciSfnsf := dataSfn, mac_ulDciTotalUsed := 0, mac_ulDci := Some d\<rparr> in
     bindE (vec_at (dci_ndi d) 0) (\<lambda>ndi.
     if ndi = 0 then bindE (TransmitRetx s) (\<lambda>s. report_if_due now s dataSfn (dci_symStart d))
     else if ndi = 1 then
       bindE (SendNewData notify s) (\<lambda>s.
       bindE (report_if_due now s dataSfn (dci_symStart d)) (\<lambda>s.
       if GetTotalBufSize s = 0 then
         let s = s\<lparr>mac_srState := INACTIVE\<rparr> in
         if mac_ulDciTotalUsed s = 0 then
           ue_DoTransmitPdu s \<lparr>tp_pdu = [], tp_rnti = mac_rnti s, tp_lcid = 3, tp_layer = 0,
             tp_harqProcessId = dci_harqProcess d, tp_componentCarrierId = ucast (mac_bwpId s)\<rparr>
         else Inr s
       else Inr s))
     else Inr s))"

subsection \<open>Reception and random access\<close>

definition DoReceivePhyPdu :: "'r ue_mac \<Rightarrow> mac_packet \<Rightarrow> 'r ue_mac res" where
  "DoReceivePhyPdu s p =
     (if bt_rnti (mp_tag p) \<noteq> mac_rnti s then Inr s
      else bindE (take_header vs_Deserialize (mp_bytes p)) (\<lambda>(header, bs).
        if GetSize bs > 0 then
          bindE (map_deref (vs_lcid header) (mac_lcInfoMap s)) (\<lambda>_. Inr (send (ReceivePdu (vs_lcid header) bs) s))
        else Inr s))"

definition RecvRaResponse :: "'r ue_mac \<Rightarrow> u16 \<Rightarrow> 'r ue_mac" where
  "RecvRaResponse s rnti =
     send NotifyRandomAccessSuccessful (send (SetTemporaryCellRnti rnti)
       (s\<lparr>mac_waitingForRaResponse := False, mac_rnti := rnti\<rparr>))"

definition ReceiveRar :: "'r ue_mac \<Rightarrow> (u8 \<times> u16) list \<Rightarrow> 'r ue_mac" where
  "ReceiveRar s rarList =
     (if mac_waitingForRaResponse s
      then foldl (\<lambda>s (rapId, rnti). if rapId = mac_raPreambleId s then RecvRaResponse s rnti else s) s rarList
      else s)"

text \<open>The preamble counter is a static member that all UEs share.\<close>

definition SendRaPreamble :: "u8 \<Rightarrow> 'r ue_mac \<Rightarrow> u8 \<times> 'r ue_mac" where
  "SendRaPreamble g_raPreambleId s =
     (g_raPreambleId + 1, send (SendRachPreamble g_raPreambleId 1) (s\<lparr>mac_raPreambleId := g_raPreambleId, mac_raRnti := 1\<rparr>))"

definition DoStartNonContentionBasedRandomAccessProcedure :: "'r ue_mac \<Rightarrow> u16 \<Rightarrow> u8 \<Rightarrow> 'r ue_mac res" where
  "DoStartNonContentionBasedRandomAccessProcedure s rnti prachMask =
     ns_assert (prachMask = 0) (Inr (s\<lparr>mac_rnti := rnti\<rparr>))"

definition ue_DoReset :: "'r ue_mac \<Rightarrow> 'r ue_mac" where
  "ue_DoReset s = s\<lparr>mac_freshUlBsr := True\<rparr>"

datatype NrControlMessage =
    NrUlDciMessage dci u32
  | NrRarMessage "(u8 \<times> u16) list"
  | OtherMessage

fun ue_DoReceiveControlMessage :: "'r notify \<Rightarrow> int \<Rightarrow> 'r ue_mac \<Rightarrow> NrControlMessage \<Rightarrow> 'r ue_mac res" where
  "ue_DoReceiveControlMessage notify now s (NrUlDciMessage d kDelay) = ProcessUlDci notify now s d kDelay"
| "ue_DoReceiveControlMessage notify now s (NrRarMessage rarList) = Inr (ReceiveRar s rarList)"
| "ue_DoReceiveControlMessage notify now s OtherMessage = Inr s"

end
