(* ===== verification/UeGrant.thy ===== *)
theory UeGrant
  imports UeMac RlcChannel
begin

text \<open>
  An uplink grant is never exceeded. What the MAC expects of the RLC is a locale, interpreted on the unacknowledged mode.
\<close>

declare map_of_eq_Some_iff [simp del]

subsection \<open>The grant in progress\<close>

fun pdu_bytes :: "mac_msg \<Rightarrow> nat" where
  "pdu_bytes (SendMacPdu p _ _ _) = length (mp_bytes p)"
| "pdu_bytes _ = 0"

text \<open>The packets among the messages that are no buffer status report.\<close>

fun data_pdu :: "mac_msg \<Rightarrow> mac_packet list" where
  "data_pdu (SendMacPdu p _ _ _) = (if bt_lcid (mp_tag p) = SHORT_BSR then [] else [p])"
| "data_pdu _ = []"

definition data_pdus :: "mac_msg list \<Rightarrow> mac_packet list" where
  "data_pdus ms = concat (map data_pdu ms)"

text \<open>The packets that a HARQ process keeps for a retransmission, and their bytes.\<close>

definition kept :: "'r ue_mac \<Rightarrow> nat \<Rightarrow> mac_packet list" where
  "kept s i = (case hp_pktBurst (mac_harq s ! i) of None \<Rightarrow> [] | Some pb \<Rightarrow> pb)"

definition bytes_of :: "mac_packet list \<Rightarrow> nat" where
  "bytes_of ps = sum_list (map (\<lambda>p. length (mp_bytes p)) ps)"

lemma data_pdus_simps [simp]:
  "data_pdus [] = []" "data_pdus (m # ms) = data_pdu m @ data_pdus ms" "data_pdus (ms @ ms') = data_pdus ms @ data_pdus ms'"
  by (simp_all add: data_pdus_def)

lemma bytes_of_simps [simp]:
  "bytes_of [] = 0" "bytes_of (p # ps) = length (mp_bytes p) + bytes_of ps" "bytes_of (ps @ qs) = bytes_of ps + bytes_of qs"
  by (simp_all add: bytes_of_def)

text \<open>The channels of \<open>C\<close> are configured, and only they have reported.\<close>

definition mac_ok :: "('r \<Rightarrow> bool) \<Rightarrow> u8 set \<Rightarrow> u8 \<Rightarrow> 'r ue_mac \<Rightarrow> bool" where
  "mac_ok ready C n s \<longleftrightarrow> distinct (map fst (mac_ulBsrReceived s)) \<and> length (mac_harqTimer s) = length (mac_harq s) \<and>
     (\<forall>k r. map_of (mac_ulBsrReceived s) k = Some r \<longrightarrow> rb_lcid r = k \<and> k \<noteq> 0 \<and> rb_statusPduSize r = 0 \<and>
        rb_retxQueueSize r = 0 \<and> map_of (mac_lcInfoMap s) k \<noteq> None) \<and>
     (\<forall>k i. map_of (mac_lcInfoMap s) k = Some i \<longrightarrow> ready (li_macSapUser i) \<and> li_logicalChannelGroup i < 4) \<and>
     dom (map_of (mac_lcInfoMap s)) = C \<and> length (mac_harq s) = unat n \<and> mac_numHarqProcess s = n \<and>
     mac_srPeriodicity s \<noteq> 0 \<and> numerology (mac_currentSlot s) \<le> 5"

text \<open>
  A new-data grant \<open>d\<close> that began in \<open>s0\<close>: what was sent since, besides \<open>b0\<close> bytes of reports, is what the process keeps, and the other
  processes are as they were.
\<close>

definition in_grant :: "('r \<Rightarrow> bool) \<Rightarrow> u8 set \<Rightarrow> u8 \<Rightarrow> dci \<Rightarrow> 'r ue_mac \<Rightarrow> nat \<Rightarrow> 'r ue_mac \<Rightarrow> bool" where
  "in_grant ready C n d s0 b0 s \<longleftrightarrow> mac_ok ready C n s \<and> mac_ulDci s = Some d \<and> unat (dci_harqProcess d) < length (mac_harq s) \<and>
     (\<exists>ms. mac_sent s = mac_sent s0 @ ms \<and> sum_list (map pdu_bytes ms) = unat (mac_ulDciTotalUsed s) \<and>
        data_pdus ms = kept s (unat (dci_harqProcess d))) \<and>
     unat (mac_ulDciTotalUsed s) = bytes_of (kept s (unat (dci_harqProcess d))) + b0 \<and>
     (kept s (unat (dci_harqProcess d)) \<noteq> [] \<longrightarrow> mac_harqTimer s ! unat (dci_harqProcess d) \<noteq> 0 \<and>
        bytes_of (kept s (unat (dci_harqProcess d))) \<noteq> 0) \<and>
     (\<forall>i < length (mac_harq s). i \<noteq> unat (dci_harqProcess d) \<longrightarrow>
        mac_harq s ! i = mac_harq s0 ! i \<and> mac_harqTimer s ! i = mac_harqTimer s0 ! i)"

text \<open>The same with everything else of the state left open: \<open>in_grant\<close> looks at no other field than these.\<close>

lemma in_grant_cong:
  assumes "in_grant ready C n d s0 b0 s" and "mac_ok ready C n t" and "mac_ulDci t = mac_ulDci s" and "mac_harq t = mac_harq s"
    and "mac_harqTimer t = mac_harqTimer s" and "mac_sent t = mac_sent s" and "mac_ulDciTotalUsed t = mac_ulDciTotalUsed s"
  shows "in_grant ready C n d s0 b0 t"
  using assms unfolding in_grant_def kept_def by (elim conjE exE) (intro conjI exI; simp)

lemma allowed_not_report: "k \<in> set allowedLcId \<Longrightarrow> k \<noteq> SHORT_BSR"
proof -
  have "SHORT_BSR \<notin> set allowedLcId" by code_simp
  then show "k \<in> set allowedLcId \<Longrightarrow> k \<noteq> SHORT_BSR" by metis
qed

lemma unat_add_small: "unat a + unat b < 2 ^ LENGTH('a) \<Longrightarrow> unat (a + b :: 'a::len word) = unat a + unat b"
  by (simp add: unat_word_ariths)

lemma length_vs_le: "length (vs_Serialize h) \<le> 3"
  by (simp add: vs_Serialize_def Let_def)

lemma length_vs_empty: "length (vs_Serialize \<lparr>vs_lcid = k, vs_size = 0\<rparr>) = 2"
  by (simp add: vs_Serialize_def Let_def)

lemma DoTransmitPdu_fits:
  assumes "in_grant ready C n d s0 b0 s" and "vec_at (dci_tbSize d) 0 = Inr tbs"
    and "tp_harqProcessId p = dci_harqProcess d" and "tp_lcid p \<in> set allowedLcId"
    and "unat (mac_ulDciTotalUsed s) + length (tp_pdu p) + 3 \<le> unat tbs"
  shows "\<exists>s'. ue_DoTransmitPdu s p = Inr s' \<and> in_grant ready C n d s0 b0 s' \<and>
    unat (mac_ulDciTotalUsed s') \<le> unat (mac_ulDciTotalUsed s) + length (tp_pdu p) + (if tp_pdu p = [] then 2 else 3) \<and>
    mac_ulBsrReceived s' = mac_ulBsrReceived s \<and> mac_lcInfoMap s' = mac_lcInfoMap s \<and>
    kept s' (unat (dci_harqProcess d)) \<noteq> []"
proof -
  let ?h = "unat (dci_harqProcess d)"
  let ?v = "\<lparr>vs_lcid = tp_lcid p, vs_size = ucast (GetSize (tp_pdu p))\<rparr>"
  let ?bs = "vs_Serialize ?v @ tp_pdu p"
  obtain ms where g: "mac_ok ready C n s" "mac_ulDci s = Some d" "?h < length (mac_harq s)" "mac_sent s = mac_sent s0 @ ms"
    "sum_list (map pdu_bytes ms) = unat (mac_ulDciTotalUsed s)" "data_pdus ms = kept s ?h"
    "unat (mac_ulDciTotalUsed s) = bytes_of (kept s ?h) + b0"
    using assms(1) unfolding in_grant_def by blast
  have others: "\<forall>i < length (mac_harq s). i \<noteq> ?h \<longrightarrow> mac_harq s ! i = mac_harq s0 ! i \<and> mac_harqTimer s ! i = mac_harqTimer s0 ! i"
    using assms(1) unfolding in_grant_def by blast
  have ne: "vs_Serialize ?v \<noteq> []" by (simp add: vs_Serialize_def Let_def)
  have l: "length ?bs \<le> length (tp_pdu p) + (if tp_pdu p = [] then 2 else 3)"
    using length_vs_le[of ?v] by (simp add: GetSize_def length_vs_empty)
  then have small: "unat (mac_ulDciTotalUsed s) + length ?bs < 2 ^ 32" using assms(5) u_lt[of tbs] by (simp split: if_splits)
  then have u: "unat (mac_ulDciTotalUsed s + GetSize ?bs) = unat (mac_ulDciTotalUsed s) + length ?bs"
    by (simp add: GetSize_def unat_word_ariths unat_of_nat)
  have t: "length (mac_harqTimer s) = length (mac_harq s)" "mac_numHarqProcess s \<noteq> 0" using g(1,3) by (auto simp: mac_ok_def)
  have le: "mac_ulDciTotalUsed s + GetSize ?bs \<le> tbs" using u l assms(5) unfolding word_le_nat_alt by (simp split: if_splits)
  let ?pdu = "\<lparr>mp_bytes = ?bs, mp_tag = \<lparr>bt_rnti = tp_rnti p, bt_lcid = tp_lcid p, bt_layer = tp_layer p\<rparr>\<rparr>"
  let ?proc = "\<lparr>hp_pktBurst = Some (kept s ?h @ [?pdu]), hp_lcidList = hp_lcidList (mac_harq s ! ?h) @ [tp_lcid p]\<rparr>"
  let ?s = "send (SendMacPdu ?pdu (mac_ulDciSfnsf s) (dci_symStart d) (tp_layer p))
     (s\<lparr>mac_ulDciTotalUsed := mac_ulDciTotalUsed s + GetSize ?bs, mac_harq := (mac_harq s)[?h := ?proc],
        mac_harqTimer := (mac_harqTimer s)[?h := mac_numHarqProcess s]\<rparr>)"
  have "ue_DoTransmitPdu s p = Inr ?s"
    using g(2,3) assms(2-4) t le
    by (simp add: ue_DoTransmitPdu_def with_dci_def tb_size_def vs_SetLcId_def kept_def Let_def)
  moreover have k: "kept ?s ?h = kept s ?h @ [?pdu]" using g(3) by (simp add: kept_def send_def)
  have "in_grant ready C n d s0 b0 ?s" unfolding in_grant_def k
  proof (intro conjI exI[of _ "ms @ [SendMacPdu ?pdu (mac_ulDciSfnsf s) (dci_symStart d) (tp_layer p)]"])
    show "mac_ok ready C n ?s" using g(1) by (simp add: mac_ok_def send_def)
  qed (use g t u ne others allowed_not_report[OF assms(4)] in \<open>simp_all add: send_def\<close>)
  ultimately show ?thesis using u l k by (auto simp: send_def)
qed

subsection \<open>Buffer status never fails\<close>

lemma lcg_queues_total:
  assumes "mac_ok ready C n s"
  shows "\<exists>q. lcg_queues s = Inr q \<and> length q = 4"
proof -
  have "\<exists>q. foldE (add_queue (mac_lcInfoMap s)) (replicate 4 0) (mac_ulBsrReceived s) = Inr q \<and> length q = 4"
  proof (rule foldE_total, simp, goal_cases)
    case (1 q x)
    obtain k r where x: "x = (k, r)" by (cases x)
    then have "map_of (mac_ulBsrReceived s) k = Some r" using 1 assms by (simp add: mac_ok_def)
    then obtain i where i: "k \<noteq> 0" "map_of (mac_lcInfoMap s) k = Some i" "li_logicalChannelGroup i < 4"
      using assms unfolding mac_ok_def by blast
    then have "unat (li_logicalChannelGroup i) < 4" by (simp add: word_less_nat_alt)
    then show ?case using i x 1 by (simp add: add_queue_def Let_def)
  qed
  then show ?thesis by (simp add: lcg_queues_def)
qed

lemma SendReportBufferStatus_fits:
  assumes "mac_ok ready C n s" and "mac_ulDci s = Some d" and "vec_at (dci_tbSize d) 0 = Inr tbs"
    and "unat (mac_ulDciTotalUsed s) + 5 \<le> unat tbs"
  shows "\<exists>s' ms. SendReportBufferStatus s sfn symStart = Inr s' \<and> mac_ok ready C n s' \<and> mac_ulDci s' = Some d \<and>
    mac_harq s' = mac_harq s \<and> mac_harqTimer s' = mac_harqTimer s \<and> mac_sent s' = mac_sent s @ ms \<and>
    sum_list (map pdu_bytes ms) + unat (mac_ulDciTotalUsed s) = unat (mac_ulDciTotalUsed s') \<and> data_pdus ms = [] \<and>
    unat (mac_ulDciTotalUsed s') \<le> unat (mac_ulDciTotalUsed s) + 5"
proof -
  obtain q where q: "lcg_queues s = Inr q" "length q = 4" using assms(1) lcg_queues_total[of ready C n s] by blast
  obtain la lb lc ld where l: "FromBytesToLevel (ucast (q ! 0)) = Inr la" "la \<le> 31" "FromBytesToLevel (ucast (q ! 1)) = Inr lb" "lb \<le> 31"
    "FromBytesToLevel (ucast (q ! 2)) = Inr lc" "lc \<le> 31" "FromBytesToLevel (ucast (q ! 3)) = Inr ld" "ld \<le> 31"
    using FromBytesToLevel_total by metis
  have u: "unat (mac_ulDciTotalUsed s + 5) = unat (mac_ulDciTotalUsed s) + 5"
    using assms(4) u_lt[of tbs] by (simp add: unat_word_ariths)
  then have le: "mac_ulDciTotalUsed s + 5 \<le> tbs" using assms(4) unfolding word_le_nat_alt by simp
  show ?thesis
  proof (cases "mac_rnti s = 0 \<or> mac_ulBsrReceived s = []")
    case True
    then show ?thesis using assms by (auto simp: SendReportBufferStatus_def)
  next
    case False
    then show ?thesis using assms q l u le
      by (simp add: SendReportBufferStatus_def tb_size_def with_dci_def mac_ok_def NrMacShortBsrCe_def
          fs_ul_SetLcId_def ul_IsFixedSizeHeader_def SHORT_BSR_def bsr_Serialize_def fs_Serialize_def GetSize_def send_def)
  qed
qed

text \<open>The report that follows the data of a new-data grant.\<close>

lemma report_in_grant:
  assumes "in_grant ready C n d s0 b0 s" and "vec_at (dci_tbSize d) 0 = Inr tbs"
    and "unat (mac_ulDciTotalUsed s) + 5 \<le> unat tbs"
  shows "\<exists>s' b1. report_if_due now s sfn symStart = Inr s' \<and> in_grant ready C n d s0 b1 s' \<and>
    unat (mac_ulDciTotalUsed s') \<le> unat tbs \<and> mac_harq s' = mac_harq s \<and>
    unat (mac_ulDciTotalUsed s) \<le> unat (mac_ulDciTotalUsed s')"
proof (cases "now \<ge> mac_bsrLast s + mac_bsrPeriodicity s")
  case False
  then show ?thesis using assms by (auto simp: report_if_due_def)
next
  case True
  obtain ms0 where g: "mac_ok ready C n s" "mac_ulDci s = Some d" "unat (dci_harqProcess d) < length (mac_harq s)"
      "mac_sent s = mac_sent s0 @ ms0" "sum_list (map pdu_bytes ms0) = unat (mac_ulDciTotalUsed s)"
      "data_pdus ms0 = kept s (unat (dci_harqProcess d))"
      "unat (mac_ulDciTotalUsed s) = bytes_of (kept s (unat (dci_harqProcess d))) + b0"
      "kept s (unat (dci_harqProcess d)) \<noteq> [] \<longrightarrow> mac_harqTimer s ! unat (dci_harqProcess d) \<noteq> 0 \<and>
         bytes_of (kept s (unat (dci_harqProcess d))) \<noteq> 0"
      "\<forall>i < length (mac_harq s). i \<noteq> unat (dci_harqProcess d) \<longrightarrow>
         mac_harq s ! i = mac_harq s0 ! i \<and> mac_harqTimer s ! i = mac_harqTimer s0 ! i"
    using assms(1) unfolding in_grant_def by blast
  obtain s' ms where r: "SendReportBufferStatus s sfn symStart = Inr s'" "mac_ok ready C n s'" "mac_ulDci s' = Some d"
      "mac_harq s' = mac_harq s" "mac_harqTimer s' = mac_harqTimer s" "mac_sent s' = mac_sent s @ ms"
      "sum_list (map pdu_bytes ms) + unat (mac_ulDciTotalUsed s) = unat (mac_ulDciTotalUsed s')" "data_pdus ms = []"
      "unat (mac_ulDciTotalUsed s') \<le> unat (mac_ulDciTotalUsed s) + 5"
    using SendReportBufferStatus_fits[OF g(1,2) assms(2,3)] by blast
  let ?t = "s'\<lparr>mac_bsrLast := now, mac_freshUlBsr := False\<rparr>"
  have k: "kept ?t i = kept s i" for i using r(4) by (simp add: kept_def)
  have "in_grant ready C n d s0 (b0 + sum_list (map pdu_bytes ms)) ?t" unfolding in_grant_def k
  proof (intro conjI exI[of _ "ms0 @ ms"])
    show "mac_ok ready C n ?t" using r(2) by (simp add: mac_ok_def)
  qed (use g r in simp_all)
  then show ?thesis using r True assms(3) by (intro exI[of _ ?t]) (auto simp: report_if_due_def)
qed

subsection \<open>What a HARQ process keeps\<close>

text \<open>
  A process whose last new-data grant had \<open>tbs\<close> bytes (0: none yet): what it keeps fits into such a grant, a due report included, is no
  report, and does not expire; after the first grant it keeps no empty burst, which a retransmission must not have.
\<close>

definition process_ok :: "'r ue_mac \<Rightarrow> nat \<Rightarrow> u32 \<Rightarrow> bool" where
  "process_ok s i tbs \<longleftrightarrow> (kept s i \<noteq> [] \<longrightarrow> mac_harqTimer s ! i \<noteq> 0) \<and> bytes_of (kept s i) + 5 \<le> max 7 (unat tbs) \<and>
     (tbs \<noteq> 0 \<longrightarrow> hp_pktBurst (mac_harq s ! i) \<noteq> Some []) \<and> (\<forall>p \<in> set (kept s i). bt_lcid (mp_tag p) \<noteq> SHORT_BSR)"

definition others_same :: "'r ue_mac \<Rightarrow> 'r ue_mac \<Rightarrow> nat \<Rightarrow> bool" where
  "others_same s s' h \<longleftrightarrow> (\<forall>i < length (mac_harq s'). i \<noteq> h \<longrightarrow>
     mac_harq s' ! i = mac_harq s ! i \<and> mac_harqTimer s' ! i = mac_harqTimer s ! i)"

lemma data_pdus_no_report: "p \<in> set (data_pdus ms) \<Longrightarrow> bt_lcid (mp_tag p) \<noteq> SHORT_BSR"
proof (induction ms)
  case (Cons m ms)
  then show ?case by (cases m) (auto split: if_splits)
qed simp

lemma resent_bytes: "sum_list (map pdu_bytes (map (\<lambda>pkt. SendMacPdu pkt sfn start 0) pb)) = bytes_of pb"
  by (induction pb) simp_all

lemma resent_data:
  assumes "\<forall>p \<in> set pb. bt_lcid (mp_tag p) \<noteq> SHORT_BSR"
  shows "data_pdus (map (\<lambda>pkt. SendMacPdu pkt sfn start 0) pb) = pb"
  using assms by (induction pb) simp_all

lemma resend_all:
  "foldl (\<lambda>s pkt. send (SendMacPdu pkt (mac_ulDciSfnsf s) start 0)
       (s\<lparr>mac_ulDciTotalUsed := mac_ulDciTotalUsed s + GetSize (mp_bytes pkt)\<rparr>)) s pb =
     s\<lparr>mac_ulDciTotalUsed := mac_ulDciTotalUsed s + of_nat (bytes_of pb),
       mac_sent := mac_sent s @ map (\<lambda>pkt. SendMacPdu pkt (mac_ulDciSfnsf s) start 0) pb\<rparr>"
  by (induction pb arbitrary: s) (simp_all add: send_def GetSize_def)

lemma report_alone:
  assumes "mac_ok ready C n s" and "mac_ulDci s = Some d" and "vec_at (dci_tbSize d) 0 = Inr tbs"
    and "unat (mac_ulDciTotalUsed s) + 5 \<le> unat tbs"
  shows "\<exists>s' ms. report_if_due now s sfn symStart = Inr s' \<and> mac_ok ready C n s' \<and> mac_harq s' = mac_harq s \<and>
    mac_harqTimer s' = mac_harqTimer s \<and> mac_sent s' = mac_sent s @ ms \<and>
    sum_list (map pdu_bytes ms) + unat (mac_ulDciTotalUsed s) \<le> unat tbs \<and> data_pdus ms = []"
proof (cases "now \<ge> mac_bsrLast s + mac_bsrPeriodicity s")
  case False
  then show ?thesis using assms(1,4) by (auto simp: report_if_due_def)
next
  case True
  obtain s' ms where r: "SendReportBufferStatus s sfn symStart = Inr s'" "mac_ok ready C n s'"
      "mac_harq s' = mac_harq s" "mac_harqTimer s' = mac_harqTimer s" "mac_sent s' = mac_sent s @ ms"
      "sum_list (map pdu_bytes ms) + unat (mac_ulDciTotalUsed s) = unat (mac_ulDciTotalUsed s')" "data_pdus ms = []"
      "unat (mac_ulDciTotalUsed s') \<le> unat (mac_ulDciTotalUsed s) + 5"
    using SendReportBufferStatus_fits[OF assms] by blast
  then show ?thesis using True assms(4)
    by (intro exI[of _ "s'\<lparr>mac_bsrLast := now, mac_freshUlBsr := False\<rparr>"] exI[of _ ms])
      (auto simp: report_if_due_def mac_ok_def)
qed

subsection \<open>The channels\<close>

text \<open>A channel that has data according to its last report, or whose entity is known to have none.\<close>

definition waiting :: "'r ue_mac \<Rightarrow> u8 \<Rightarrow> bool" where
  "waiting s k \<longleftrightarrow> (\<exists>r. map_of (mac_ulBsrReceived s) k = Some r \<and> rb_txQueueSize r > 0)"

definition silent_or_waiting :: "('r \<Rightarrow> bool) \<Rightarrow> 'r ue_mac \<Rightarrow> u8 \<Rightarrow> bool" where
  "silent_or_waiting idle s k \<longleftrightarrow> waiting s k \<or> (\<exists>i. map_of (mac_lcInfoMap s) k = Some i \<and> idle (li_macSapUser i))"

lemma map_of_update_bsr:
  "map_of (mac_ulBsrReceived (update_bsr k f s)) j =
     (if j = k then map_option f (map_of (mac_ulBsrReceived s) j) else map_of (mac_ulBsrReceived s) j)"
proof -
  have "map_of (map (\<lambda>(k', r). (k', if k' = k then f r else r)) m) j =
    (if j = k then map_option f (map_of m j) else map_of m j)" for m :: "(u8 \<times> ReportBufferStatusParameters) list"
    by (induction m) auto
  then show ?thesis by (simp add: update_bsr_def)
qed

lemma keys_update_bsr: "map fst (mac_ulBsrReceived (update_bsr k f s)) = map fst (mac_ulBsrReceived s)"
  by (auto simp: update_bsr_def comp_def split_beta)

lemma in_grant_off_tx:
  assumes "in_grant ready C n d s0 b0 s"
  shows "in_grant ready C n d s0 b0 (update_bsr k (off_tx b) s)"
proof (rule in_grant_cong[OF assms])
  have "mac_ok ready C n s" using assms by (simp add: in_grant_def)
  then show "mac_ok ready C n (update_bsr k (off_tx b) s)"
    unfolding mac_ok_def keys_update_bsr map_of_update_bsr by (auto simp: update_bsr_def off_tx_def split: if_splits)
qed (simp_all add: update_bsr_def)

text \<open>The channels without data send nothing, or no channel has data and none is asked.\<close>

definition quiet :: "('r \<Rightarrow> bool) \<Rightarrow> 'r ue_mac \<Rightarrow> bool" where
  "quiet idle s \<longleftrightarrow> (\<forall>k \<in> fst ` set (mac_ulBsrReceived s). silent_or_waiting idle s k) \<or>
     (\<forall>k \<in> fst ` set (mac_ulBsrReceived s). \<not> waiting s k)"

text \<open>The counters of the channels: there are at most 256, one for each logical channel id.\<close>

lemma distinct_u8: "distinct (ks :: u8 list) \<Longrightarrow> length ks \<le> 256"
  using card_mono[of "UNIV :: u8 set" "set ks"] by (simp add: distinct_card card_word)

lemma active_tx:
  assumes "distinct (map fst (mac_ulBsrReceived s))"
  shows "unat (ucast (active_channels rb_txQueueSize s) :: u32) =
    length (filter (waiting s) (map fst (mac_ulBsrReceived s)))"
    and "length (filter (waiting s) (map fst (mac_ulBsrReceived s))) \<le> 256"
proof -
  have "filter (waiting s) (map fst (mac_ulBsrReceived s)) = map fst (filter (\<lambda>(_, r). rb_txQueueSize r > 0) (mac_ulBsrReceived s))"
    unfolding filter_map comp_def using assms
    by (intro arg_cong[of _ _ "map fst"] filter_cong) (auto simp: waiting_def dest!: map_of_is_SomeI[OF assms])
  moreover show le: "length (filter (waiting s) (map fst (mac_ulBsrReceived s))) \<le> 256"
    using distinct_u8[of "filter (waiting s) (map fst (mac_ulBsrReceived s))"] assms by simp
  ultimately show "unat (ucast (active_channels rb_txQueueSize s) :: u32) =
    length (filter (waiting s) (map fst (mac_ulBsrReceived s)))"
    by (simp add: active_channels_def unat_of_nat)
qed

lemma active_retx:
  assumes "mac_ok ready C n s"
  shows "active_channels rb_retxQueueSize s = 0"
proof -
  have "filter (\<lambda>(_, r). rb_retxQueueSize r > 0) (mac_ulBsrReceived s) = []"
    using assms by (auto simp: filter_empty_conv mac_ok_def map_of_eq_Some_iff)
  then show ?thesis by (simp add: active_channels_def)
qed

lemma no_status:
  assumes "mac_ok ready C n s"
  shows "SendNewStatusData notify s = Inr s"
proof -
  have "foldE (serve_status notify) (s, False, False) ks = Inr (s, False, False)"
    if "set ks \<subseteq> fst ` set (mac_ulBsrReceived s)" for ks
    using that
  proof (induction ks)
    case (Cons k ks)
    then obtain r where "map_of (mac_ulBsrReceived s) k = Some r"
      by (metis insert_subset list.simps(15) map_of_eq_None_iff option.exhaust)
    moreover from this have "rb_statusPduSize r = 0" using assms by (simp add: mac_ok_def)
    ultimately show ?case using Cons by (simp add: serve_status_def)
  qed simp
  then show ?thesis by (simp add: SendNewStatusData_def)
qed

text \<open>The share of each channel, with its subheader, fits into what is left of the block after the report.\<close>

lemma share_fits:
  assumes "0 < n" and "unat n \<le> 256" and "5 \<le> unat tbs" and "\<not> n * 10 > tbs - 5" and "unat tbs < 2 ^ 16"
  shows "unat n * (unat ((tbs - 5 - n * 3) div n :: u32) + 3) + 5 \<le> unat tbs" "(tbs - 5 - n * 3) div n < 2 ^ 16"
proof -
  have t: "unat (tbs - 5) = unat tbs - 5" using assms(3) by (simp add: unat_sub word_le_nat_alt)
  have m: "unat (n * 10) = unat n * 10" "unat (n * 3) = unat n * 3" using assms(2) by (simp_all add: unat_word_ariths)
  have le: "unat n * 10 \<le> unat tbs - 5" using assms(4) unfolding not_less word_le_nat_alt t m .
  then have "unat (tbs - 5 - n * 3) = unat tbs - 5 - unat n * 3" using t m by (simp add: unat_sub word_le_nat_alt)
  then have d: "unat ((tbs - 5 - n * 3) div n) = (unat tbs - 5 - unat n * 3) div unat n" by (simp add: unat_div)
  have "unat n * ((unat tbs - 5 - unat n * 3) div unat n) \<le> unat tbs - 5 - unat n * 3" by (rule times_div_less_eq_dividend)
  then show "unat n * (unat ((tbs - 5 - n * 3) div n) + 3) + 5 \<le> unat tbs" using le assms(3) unfolding d distrib_left by linarith
  have "unat ((tbs - 5 - n * 3) div n) \<le> unat tbs" unfolding d by (rule order.trans[OF div_le_dividend]) simp
  then show "(tbs - 5 - n * 3) div n < 2 ^ 16" using assms(5) by (simp add: word_less_nat_alt)
qed

subsection \<open>What the MAC expects of the RLC\<close>

text \<open>
  Asked for at most \<open>n\<close> bytes, an entity that is \<open>ready\<close> sends nothing or one PDU of at most \<open>n\<close> bytes; one that is
  \<open>idle\<close> sends nothing.
\<close>

locale rlc_sap =
  fixes notify :: "'r notify" and ready :: "'r \<Rightarrow> bool" and idle :: "'r \<Rightarrow> bool"
  assumes answers: "ready r \<Longrightarrow> to_bytes opp < 2 ^ 16 \<Longrightarrow>
      \<exists>r' calls. notify r opp = Inr (r', calls) \<and> ready r' \<and>
        (calls = [] \<or> (\<exists>p. calls = [TransmitPdu p] \<and> length (tp_pdu p) \<le> unat (to_bytes opp) \<and>
           tp_harqProcessId p = to_harqId opp \<and> tp_lcid p \<in> set allowedLcId))"
    and silent: "ready r \<Longrightarrow> idle r \<Longrightarrow> notify r opp = Inr (r, [])"
begin

lemma opportunity_fits:
  assumes "in_grant ready C n d s0 b0 s" and "vec_at (dci_tbSize d) 0 = Inr tbs"
    and "map_of (mac_lcInfoMap s) k = Some i" and "b < 2 ^ 16"
    and "idle (li_macSapUser i) \<or> unat (mac_ulDciTotalUsed s) + unat b + 3 \<le> unat tbs"
  shows "\<exists>s' i'. tx_opportunity notify s k b = Inr s' \<and> in_grant ready C n d s0 b0 s' \<and>
    unat (mac_ulDciTotalUsed s') \<le> unat (mac_ulDciTotalUsed s) + (if idle (li_macSapUser i) then 0 else unat b + 3) \<and>
    mac_ulBsrReceived s' = mac_ulBsrReceived s \<and> map_of (mac_lcInfoMap s') = (map_of (mac_lcInfoMap s))(k \<mapsto> i')"
proof -
  let ?opp = "\<lparr>to_bytes = b, to_layer = 0, to_harqId = dci_harqProcess d, to_componentCarrierId = ucast (mac_bwpId s),
     to_rnti = mac_rnti s, to_lcid = k\<rparr>"
  have r: "ready (li_macSapUser i)" using assms(1,3) by (auto simp: in_grant_def mac_ok_def)
  then obtain r' calls where a: "notify (li_macSapUser i) ?opp = Inr (r', calls)" "ready r'"
    "calls = [] \<or> (\<exists>p. calls = [TransmitPdu p] \<and> length (tp_pdu p) \<le> unat b \<and>
       tp_harqProcessId p = dci_harqProcess d \<and> tp_lcid p \<in> set allowedLcId)"
    using answers[of "li_macSapUser i" ?opp] assms(4) by auto
  let ?s = "s\<lparr>mac_lcInfoMap := AList.update k (i\<lparr>li_macSapUser := r'\<rparr>) (mac_lcInfoMap s)\<rparr>"
  have d: "mac_ulDci s = Some d" using assms(1) by (simp add: in_grant_def)
  have "mac_ok ready C n ?s"
    using assms(1,3) a(2) by (fastforce simp: in_grant_def mac_ok_def map_of_update split: if_splits)
  then have g: "in_grant ready C n d s0 b0 ?s" by (rule in_grant_cong[OF assms(1)]) simp_all
  have e: "tx_opportunity notify s k b = rlc_calls ?s calls"
    using d assms(3) a(1) by (simp add: tx_opportunity_def with_dci_def)
  show ?thesis
  proof (cases "calls = []")
    case True
    then show ?thesis using e g by (auto simp: rlc_calls_def map_of_update intro!: exI[of _ ?s])
  next
    case False
    then have "\<not> idle (li_macSapUser i)" using silent[OF r, of ?opp] a(1) by auto
    obtain p where p: "calls = [TransmitPdu p]" "length (tp_pdu p) \<le> unat b" "tp_harqProcessId p = dci_harqProcess d"
      "tp_lcid p \<in> set allowedLcId" using a(3) False by blast
    have "unat (mac_ulDciTotalUsed ?s) + length (tp_pdu p) + 3 \<le> unat tbs"
      using p(2) assms(5) \<open>\<not> idle _\<close> by simp
    then obtain s' where s': "ue_DoTransmitPdu ?s p = Inr s'" "in_grant ready C n d s0 b0 s'"
        "unat (mac_ulDciTotalUsed s') \<le> unat (mac_ulDciTotalUsed ?s) + length (tp_pdu p) + (if tp_pdu p = [] then 2 else 3)"
        "mac_ulBsrReceived s' = mac_ulBsrReceived ?s" "mac_lcInfoMap s' = mac_lcInfoMap ?s"
      using DoTransmitPdu_fits[OF g assms(2) p(3,4)] by blast
    have "unat (mac_ulDciTotalUsed s') \<le> unat (mac_ulDciTotalUsed s) + (unat b + 3)"
      using s'(3) p(2) by (simp split: if_splits)
    then show ?thesis using e p(1) s' \<open>\<not> idle _\<close>
      by (intro exI[of _ s'] exI[of _ "i\<lparr>li_macSapUser := r'\<rparr>"]) (simp add: rlc_calls_def map_of_update)
  qed
qed

lemma serve_fits:
  assumes "in_grant ready C n d s0 b0 s" and "vec_at (dci_tbSize d) 0 = Inr tbs" and "b < 2 ^ 16" and "unat tbs < 2 ^ 16"
    and "map_of (mac_ulBsrReceived s) k \<noteq> None" and "silent_or_waiting idle s k"
    and "waiting s k \<longrightarrow> unat (mac_ulDciTotalUsed s) + unat b + 3 \<le> unat tbs" and "mac_ulDciTotalUsed s \<le> tbs"
  shows "\<exists>s'. serve notify off_tx b s k = Inr s' \<and> in_grant ready C n d s0 b0 s' \<and>
    unat (mac_ulDciTotalUsed s') \<le> unat (mac_ulDciTotalUsed s) + (if waiting s k then unat b + 3 else 0) \<and>
    map fst (mac_ulBsrReceived s') = map fst (mac_ulBsrReceived s) \<and>
    (\<forall>j. j \<noteq> k \<longrightarrow> waiting s' j = waiting s j \<and> silent_or_waiting idle s' j = silent_or_waiting idle s j)"
proof -
  obtain r where r: "map_of (mac_ulBsrReceived s) k = Some r" using assms(5) by blast
  then obtain i where i: "rb_lcid r = k" "map_of (mac_lcInfoMap s) k = Some i"
    using assms(1) by (auto simp: in_grant_def mac_ok_def)
  have t: "tb_size s = Inr tbs" using assms(1,2) by (simp add: in_grant_def tb_size_def with_dci_def)
  show ?thesis
  proof (cases "mac_ulDciTotalUsed s + b \<le> tbs")
    case False
    then show ?thesis using r t assms(1) by (simp add: serve_def)
  next
    case True
    have "idle (li_macSapUser i) \<or> unat (mac_ulDciTotalUsed s) + unat b + 3 \<le> unat tbs"
      using assms(6,7) i(2) by (auto simp: silent_or_waiting_def)
    from opportunity_fits[OF assms(1,2) i(2) assms(3) this] obtain s' i' where
      s': "tx_opportunity notify s k b = Inr s'" "in_grant ready C n d s0 b0 s'"
        "unat (mac_ulDciTotalUsed s') \<le> unat (mac_ulDciTotalUsed s) + (if idle (li_macSapUser i) then 0 else unat b + 3)"
        "mac_ulBsrReceived s' = mac_ulBsrReceived s" "map_of (mac_lcInfoMap s') = (map_of (mac_lcInfoMap s))(k \<mapsto> i')"
      by blast
    let ?s = "update_bsr k (off_tx b) s'"
    have "serve notify off_tx b s k = Inr ?s" using r t True i(1) s'(1) by (simp add: serve_def)
    moreover have "mac_ulDciTotalUsed ?s = mac_ulDciTotalUsed s'" "mac_lcInfoMap ?s = mac_lcInfoMap s'"
      by (simp_all add: update_bsr_def)
    moreover have "idle (li_macSapUser i) \<or> waiting s k" using assms(6) i(2) by (auto simp: silent_or_waiting_def)
    ultimately show ?thesis using s' in_grant_off_tx[OF s'(2), of k b]
      by (auto simp: keys_update_bsr waiting_def silent_or_waiting_def map_of_update_bsr split: if_splits)
  qed
qed

lemma serve_all:
  assumes "in_grant ready C n d s0 b0 s" and "vec_at (dci_tbSize d) 0 = Inr tbs" and "b < 2 ^ 16" and "unat tbs < 2 ^ 16"
    and "distinct ks" and "set ks \<subseteq> fst ` set (mac_ulBsrReceived s)" and "\<forall>k \<in> set ks. silent_or_waiting idle s k"
    and "unat (mac_ulDciTotalUsed s) + length (filter (waiting s) ks) * (unat b + 3) + 5 \<le> unat tbs"
  shows "\<exists>s'. foldE (serve notify off_tx b) s ks = Inr s' \<and> in_grant ready C n d s0 b0 s' \<and>
    unat (mac_ulDciTotalUsed s') + 5 \<le> unat tbs"
  using assms
proof (induction ks arbitrary: s)
  case (Cons k ks)
  have "map_of (mac_ulBsrReceived s) k \<noteq> None" using Cons.prems(6) by (simp add: map_of_eq_None_iff)
  moreover have "waiting s k \<longrightarrow> unat (mac_ulDciTotalUsed s) + unat b + 3 \<le> unat tbs" using Cons.prems(8) by auto
  moreover have "mac_ulDciTotalUsed s \<le> tbs" using Cons.prems(8) unfolding word_le_nat_alt by linarith
  ultimately obtain s1 where s1: "serve notify off_tx b s k = Inr s1" "in_grant ready C n d s0 b0 s1"
    "unat (mac_ulDciTotalUsed s1) \<le> unat (mac_ulDciTotalUsed s) + (if waiting s k then unat b + 3 else 0)"
    "map fst (mac_ulBsrReceived s1) = map fst (mac_ulBsrReceived s)"
    "\<forall>j. j \<noteq> k \<longrightarrow> waiting s1 j = waiting s j \<and> silent_or_waiting idle s1 j = silent_or_waiting idle s j"
    using serve_fits[OF Cons.prems(1-4), of k] Cons.prems(7) by auto
  have "filter (waiting s1) ks = filter (waiting s) ks" using s1(5) Cons.prems(5) by (intro filter_cong) auto
  then have "unat (mac_ulDciTotalUsed s1) + length (filter (waiting s1) ks) * (unat b + 3) + 5 \<le> unat tbs"
    using Cons.prems(8) s1(3) by (cases "waiting s k") auto
  moreover have "set ks \<subseteq> fst ` set (mac_ulBsrReceived s1)"
    using Cons.prems(6) s1(4) by (metis insert_subset list.set_map list.simps(15))
  moreover have "\<forall>j \<in> set ks. silent_or_waiting idle s1 j" using s1(5) Cons.prems(5,7) by auto
  ultimately show ?case using Cons.IH[OF s1(2) Cons.prems(2-4)] Cons.prems(5) s1(1) by simp
qed simp

text \<open>At the end the process gives its burst up when nothing was sent, so it never keeps an empty one.\<close>

lemma new_data_end:
  assumes "in_grant ready C n d s0 0 s"
  shows "in_grant ready C n d s0 0 (if mac_ulDciTotalUsed s = 0
      then s\<lparr>mac_harq := (mac_harq s)[unat (dci_harqProcess d) := \<lparr>hp_pktBurst = None, hp_lcidList = []\<rparr>]\<rparr> else s) \<and>
    hp_pktBurst (mac_harq (if mac_ulDciTotalUsed s = 0
      then s\<lparr>mac_harq := (mac_harq s)[unat (dci_harqProcess d) := \<lparr>hp_pktBurst = None, hp_lcidList = []\<rparr>]\<rparr> else s) !
      unat (dci_harqProcess d)) \<noteq> Some []"
proof (cases "mac_ulDciTotalUsed s = 0")
  case True
  let ?s = "s\<lparr>mac_harq := (mac_harq s)[unat (dci_harqProcess d) := \<lparr>hp_pktBurst = None, hp_lcidList = []\<rparr>]\<rparr>"
  have k: "kept s (unat (dci_harqProcess d)) = []" using True assms by (auto simp: in_grant_def)
  have h: "unat (dci_harqProcess d) < length (mac_harq s)" using assms by (simp add: in_grant_def)
  have k': "kept ?s (unat (dci_harqProcess d)) = []" using h by (simp add: kept_def)
  have "mac_ok ready C n ?s" using assms by (simp add: in_grant_def mac_ok_def)
  then have "in_grant ready C n d s0 0 ?s" using assms unfolding in_grant_def k k' by fastforce
  then show ?thesis using True h by simp
next
  case False
  then have "unat (mac_ulDciTotalUsed s) \<noteq> 0" by (simp add: unat_eq_0)
  then have "kept s (unat (dci_harqProcess d)) \<noteq> []" using assms by (auto simp: in_grant_def)
  then show ?thesis using False assms by (auto simp: kept_def)
qed

lemma SendNewData_fits:
  assumes "mac_ok ready C n s" and "mac_ulDci s = Some d" and "unat (dci_harqProcess d) < length (mac_harq s)"
    and "vec_at (dci_tbSize d) 0 = Inr tbs" and "5 \<le> unat tbs" and "unat tbs < 2 ^ 16"
    and "mac_ulDciTotalUsed s = 0" and "quiet idle s"
  shows "\<exists>s'. SendNewData notify s = Inr s' \<and> in_grant ready C n d s 0 s' \<and> unat (mac_ulDciTotalUsed s') + 5 \<le> unat tbs \<and>
    hp_pktBurst (mac_harq s' ! unat (dci_harqProcess d)) \<noteq> Some []"
proof -
  let ?h = "unat (dci_harqProcess d)"
  let ?s = "s\<lparr>mac_harq := (mac_harq s)[?h := \<lparr>hp_pktBurst = Some [], hp_lcidList = []\<rparr>]\<rparr>"
  let ?n = "ucast (active_channels rb_txQueueSize ?s) :: u32"
  let ?b = "(tbs - 5 - ?n * 3) div ?n"
  let ?ks = "map fst (mac_ulBsrReceived s)"
  have "mac_ok ready C n ?s" using assms(1) by (simp add: mac_ok_def)
  then have g: "in_grant ready C n d s 0 ?s" using assms(2,3,7) by (simp add: in_grant_def kept_def)
  then have ok: "mac_ok ready C n ?s" "mac_ulDci s = Some d" "?h < length (mac_harq s)" by (simp_all add: in_grant_def)
  have t: "tb_size ?s = Inr tbs" using ok(2) assms(4) by (simp add: tb_size_def with_dci_def)
  have five: "5 \<le> tbs" using assms(5) by (simp add: word_le_nat_alt)
  have n: "unat ?n = length (filter (waiting ?s) ?ks)" "unat ?n \<le> 256"
    using active_tx[of ?s] ok(1) by (simp_all add: mac_ok_def)
  have w: "waiting ?s = waiting s" "silent_or_waiting idle ?s = silent_or_waiting idle s"
    by (simp_all add: waiting_def silent_or_waiting_def fun_eq_iff)
  let ?go = "?n > 0 \<and> tbs - 5 > 0 \<and> \<not> ?n * 10 > tbs - 5"
  have "\<exists>s'. (if ?go then SendTxData notify ?s (tbs - 5 - ?n * 3) ?n else Inr ?s) = Inr s' \<and>
    in_grant ready C n d s 0 s' \<and> unat (mac_ulDciTotalUsed s') + 5 \<le> unat tbs"
  proof (cases ?go)
    case True
    then have "0 < unat ?n" by (simp only: word_less_nat_alt unat_0)
    then have "filter (waiting ?s) ?ks \<noteq> []" unfolding n(1) by blast
    then have "\<forall>k \<in> set ?ks. silent_or_waiting idle ?s k"
      using assms(8) unfolding quiet_def w by (auto simp: filter_empty_conv)
    moreover have "unat (mac_ulDciTotalUsed ?s) + length (filter (waiting ?s) ?ks) * (unat ?b + 3) + 5 \<le> unat tbs"
      using share_fits(1)[of ?n tbs] True n assms(5-7) by simp
    moreover have "?b < 2 ^ 16" using share_fits(2)[of ?n tbs] True n assms(5-7) by simp
    moreover have "distinct ?ks" using ok(1) by (simp add: mac_ok_def)
    ultimately have "\<exists>s'. foldE (serve notify off_tx ?b) ?s ?ks = Inr s' \<and> in_grant ready C n d s 0 s' \<and>
        unat (mac_ulDciTotalUsed s') + 5 \<le> unat tbs"
      using serve_all[OF g assms(4) _ assms(6), of ?b ?ks] by simp
    moreover have "SendTxData notify ?s (tbs - 5 - ?n * 3) ?n = foldE (serve notify off_tx ?b) ?s ?ks"
      using True unfolding SendTxData_def by (subst if_not_P) auto
    ultimately show ?thesis unfolding if_P[OF True] by simp
  next
    case False
    then show ?thesis using g assms(5,7) by auto
  qed
  then obtain s' where s': "(if ?go then SendTxData notify ?s (tbs - 5 - ?n * 3) ?n else Inr ?s) = Inr s'"
    "in_grant ready C n d s 0 s'" "unat (mac_ulDciTotalUsed s') + 5 \<le> unat tbs" by blast
  let ?e = "if mac_ulDciTotalUsed s' = 0 then s'\<lparr>mac_harq := (mac_harq s')[?h := \<lparr>hp_pktBurst = None, hp_lcidList = []\<rparr>]\<rparr> else s'"
  have "SendNewData notify s = Inr ?e"
    using ok t five s'(1) assms(7) active_retx[OF ok(1)]
    by (simp add: SendNewData_def with_dci_def no_status)
  moreover have "in_grant ready C n d s 0 ?e \<and> hp_pktBurst (mac_harq ?e ! ?h) \<noteq> Some []" by (rule new_data_end[OF s'(2)])
  ultimately show ?thesis using s'(3) by auto
qed

text \<open>A grant for new data.\<close>

lemma ProcessUlDci_new:
  assumes "mac_ok ready C n s" and "quiet idle s" and "dci_harqProcess d < n" and "vec_at (dci_ndi d) 0 = Inr 1"
    and "vec_at (dci_tbSize d) 0 = Inr tbs" and "5 \<le> tbs" and "tbs < 2 ^ 16"
  shows "\<exists>s' ms. ProcessUlDci notify now s d kDelay = Inr s' \<and> mac_ok ready C n s' \<and> mac_sent s' = mac_sent s @ ms \<and>
    sum_list (map pdu_bytes ms) \<le> unat tbs \<and> data_pdus ms = kept s' (unat (dci_harqProcess d)) \<and>
    process_ok s' (unat (dci_harqProcess d)) tbs \<and> others_same s s' (unat (dci_harqProcess d))"
proof -
  let ?h = "unat (dci_harqProcess d)"
  obtain dataSfn where a: "Add (mac_currentSlot s) kDelay = Inr dataSfn" using assms(1) by (auto simp: Add_def Let_def mac_ok_def)
  let ?s = "s\<lparr>mac_ulDciSfnsf := dataSfn, mac_ulDciTotalUsed := 0, mac_ulDci := Some d\<rparr>"
  have tbs: "5 \<le> unat tbs" "unat tbs < 2 ^ 16" using assms(6,7) by (simp_all add: word_le_nat_alt word_less_nat_alt)
  have "mac_ok ready C n ?s" "?h < length (mac_harq ?s)" using assms(1,3) by (auto simp: mac_ok_def word_less_nat_alt)
  moreover have "quiet idle ?s" using assms(2) by (simp add: quiet_def waiting_def silent_or_waiting_def)
  ultimately obtain s1 where s1: "SendNewData notify ?s = Inr s1" "in_grant ready C n d ?s 0 s1"
    "unat (mac_ulDciTotalUsed s1) + 5 \<le> unat tbs" "hp_pktBurst (mac_harq s1 ! ?h) \<noteq> Some []"
    using SendNewData_fits[of C n ?s d tbs] assms(5) tbs by auto
  have k1: "bytes_of (kept s1 ?h) + 5 \<le> unat tbs" using s1(2,3) by (simp add: in_grant_def)
  obtain s2 b1 where s2: "report_if_due now s1 dataSfn (dci_symStart d) = Inr s2" "in_grant ready C n d ?s b1 s2"
    "unat (mac_ulDciTotalUsed s2) \<le> unat tbs" "mac_harq s2 = mac_harq s1"
    "unat (mac_ulDciTotalUsed s1) \<le> unat (mac_ulDciTotalUsed s2)"
    using report_in_grant[OF s1(2) assms(5) s1(3)] by blast
  let ?s2 = "s2\<lparr>mac_srState := INACTIVE\<rparr>"
  let ?p = "\<lparr>tp_pdu = [], tp_rnti = mac_rnti ?s2, tp_lcid = 3, tp_layer = 0, tp_harqProcessId = dci_harqProcess d,
     tp_componentCarrierId = ucast (mac_bwpId ?s2)\<rparr>"
  have "mac_ok ready C n ?s2" using s2(2) by (simp add: in_grant_def mac_ok_def)
  then have g2: "in_grant ready C n d ?s b1 ?s2" by (rule in_grant_cong[OF s2(2)]) simp_all
  have "(3 :: u8) = of_nat 3" by simp
  then have l: "(3 :: u8) \<in> set allowedLcId" unfolding allowedLcId_def by (force intro!: image_eqI[of _ _ 3])
  have "\<exists>s3. (if GetTotalBufSize s2 = 0 then if mac_ulDciTotalUsed ?s2 = 0 then ue_DoTransmitPdu ?s2 ?p else Inr ?s2
      else Inr s2) = Inr s3 \<and> in_grant ready C n d ?s b1 s3 \<and> unat (mac_ulDciTotalUsed s3) \<le> unat tbs \<and>
      bytes_of (kept s3 ?h) + 5 \<le> max 7 (unat tbs) \<and> hp_pktBurst (mac_harq s3 ! ?h) \<noteq> Some []"
  proof (cases "GetTotalBufSize s2 = 0 \<and> mac_ulDciTotalUsed ?s2 = 0")
    case True
    have "unat (mac_ulDciTotalUsed ?s2) + length (tp_pdu ?p) + 3 \<le> unat tbs" using True tbs(1) by simp
    then obtain s3 where s3: "ue_DoTransmitPdu ?s2 ?p = Inr s3" "in_grant ready C n d ?s b1 s3"
        "unat (mac_ulDciTotalUsed s3) \<le> 2" "kept s3 ?h \<noteq> []"
      using DoTransmitPdu_fits[OF g2 assms(5), of ?p] l True by auto
    have "bytes_of (kept s3 ?h) \<le> 2" using s3(2,3) by (simp add: in_grant_def)
    then show ?thesis using True s3 tbs(1) by (auto simp: kept_def)
  next
    case False
    have "kept s2 ?h = kept s1 ?h" "kept ?s2 ?h = kept s1 ?h" using s2(4) by (simp_all add: kept_def)
    then show ?thesis using False s2 g2 k1 s1(4) by auto
  qed
  then obtain s3 where s3: "(if GetTotalBufSize s2 = 0 then if mac_ulDciTotalUsed ?s2 = 0 then ue_DoTransmitPdu ?s2 ?p else Inr ?s2
      else Inr s2) = Inr s3" "in_grant ready C n d ?s b1 s3" "unat (mac_ulDciTotalUsed s3) \<le> unat tbs"
      "bytes_of (kept s3 ?h) + 5 \<le> max 7 (unat tbs)" "hp_pktBurst (mac_harq s3 ! ?h) \<noteq> Some []" by blast
  have run: "ProcessUlDci notify now s d kDelay = Inr s3"
    using a s1(1) s2(1) s3(1) assms(4) by (auto simp: ProcessUlDci_def Let_def split: if_splits)
  obtain ms where ms: "mac_sent s3 = mac_sent s @ ms" "sum_list (map pdu_bytes ms) = unat (mac_ulDciTotalUsed s3)"
      "data_pdus ms = kept s3 ?h"
    using s3(2) by (auto simp: in_grant_def)
  have "process_ok s3 ?h tbs"
    using s3(2,4,5) data_pdus_no_report[of _ ms] unfolding process_ok_def ms(3) in_grant_def by blast
  moreover have "others_same s s3 ?h" using s3(2) by (simp add: in_grant_def others_same_def)
  ultimately show ?thesis using run ms s3(2,3) by (auto simp: in_grant_def)
qed

text \<open>A grant for a retransmission, as large as the one it repeats.\<close>

lemma ProcessUlDci_again:
  assumes "mac_ok ready C n s" and "dci_harqProcess d < n" and "vec_at (dci_ndi d) 0 = Inr 0"
    and "vec_at (dci_tbSize d) 0 = Inr tbs" and "tbs < 2 ^ 16" and "process_ok s (unat (dci_harqProcess d)) first"
    and "first \<noteq> 0" and "first \<le> tbs" and "7 \<le> tbs"
  shows "\<exists>s' ms. ProcessUlDci notify now s d kDelay = Inr s' \<and> mac_ok ready C n s' \<and> mac_sent s' = mac_sent s @ ms \<and>
    sum_list (map pdu_bytes ms) \<le> unat tbs \<and> data_pdus ms = kept s (unat (dci_harqProcess d)) \<and>
    mac_harq s' = mac_harq s \<and> (\<forall>i < length (mac_harq s). mac_harqTimer s ! i \<noteq> 0 \<longrightarrow> mac_harqTimer s' ! i \<noteq> 0)"
proof -
  let ?h = "unat (dci_harqProcess d)"
  obtain dataSfn where a: "Add (mac_currentSlot s) kDelay = Inr dataSfn" using assms(1) by (auto simp: Add_def Let_def mac_ok_def)
  let ?s = "s\<lparr>mac_ulDciSfnsf := dataSfn, mac_ulDciTotalUsed := 0, mac_ulDci := Some d\<rparr>"
  have h: "?h < length (mac_harq s)" "length (mac_harqTimer s) = length (mac_harq s)" "mac_numHarqProcess s = n"
    using assms(1,2) by (auto simp: mac_ok_def word_less_nat_alt)
  have n0: "n \<noteq> 0" using assms(2) by (auto simp: word_less_nat_alt)
  have "unat first \<le> unat tbs" "7 \<le> unat tbs" using assms(8,9) by (simp_all add: word_le_nat_alt)
  moreover have "bytes_of (kept s ?h) + 5 \<le> max 7 (unat first)" using assms(6) by (simp add: process_ok_def)
  ultimately have fits: "bytes_of (kept s ?h) + 5 \<le> unat tbs" by simp
  have "\<exists>s1 ms. TransmitRetx ?s = Inr s1 \<and> mac_ok ready C n s1 \<and> mac_ulDci s1 = Some d \<and> mac_harq s1 = mac_harq s \<and>
      (\<forall>i < length (mac_harq s). mac_harqTimer s ! i \<noteq> 0 \<longrightarrow> mac_harqTimer s1 ! i \<noteq> 0) \<and> mac_sent s1 = mac_sent s @ ms \<and>
      sum_list (map pdu_bytes ms) = unat (mac_ulDciTotalUsed s1) \<and> data_pdus ms = kept s ?h \<and>
      unat (mac_ulDciTotalUsed s1) = bytes_of (kept s ?h)"
  proof (cases "hp_pktBurst (mac_harq s ! ?h)")
    case None
    have "mac_ok ready C n ?s" using assms(1) by (simp add: mac_ok_def)
    then show ?thesis using None h by (intro exI[of _ ?s]) (simp add: TransmitRetx_def with_dci_def kept_def)
  next
    case (Some pb)
    then have pb: "pb \<noteq> []" "kept s ?h = pb" "\<forall>p \<in> set pb. bt_lcid (mp_tag p) \<noteq> SHORT_BSR"
      using assms(6,7) by (auto simp: process_ok_def kept_def)
    let ?ms = "map (\<lambda>pkt. SendMacPdu pkt dataSfn (dci_symStart d) 0) pb"
    let ?t = "?s\<lparr>mac_ulDciTotalUsed := of_nat (bytes_of pb), mac_sent := mac_sent s @ ?ms,
       mac_harqTimer := (mac_harqTimer s)[?h := n]\<rparr>"
    have "TransmitRetx ?s = Inr ?t"
      using Some pb(1) h by (simp add: TransmitRetx_def with_dci_def resend_all Let_def)
    moreover have "mac_ok ready C n ?t" using assms(1) by (simp add: mac_ok_def)
    moreover have "unat (of_nat (bytes_of pb) :: u32) = bytes_of pb"
      using fits u_lt[of tbs] pb(2) by (simp add: unat_of_nat)
    ultimately show ?thesis using pb h n0 resent_bytes[of dataSfn "dci_symStart d" pb] resent_data[OF pb(3)]
      by (intro exI[of _ ?t] exI[of _ ?ms]) (simp add: nth_list_update)
  qed
  then obtain s1 ms where s1: "TransmitRetx ?s = Inr s1" "mac_ok ready C n s1" "mac_ulDci s1 = Some d" "mac_harq s1 = mac_harq s"
      "\<forall>i < length (mac_harq s). mac_harqTimer s ! i \<noteq> 0 \<longrightarrow> mac_harqTimer s1 ! i \<noteq> 0" "mac_sent s1 = mac_sent s @ ms"
      "sum_list (map pdu_bytes ms) = unat (mac_ulDciTotalUsed s1)" "data_pdus ms = kept s ?h"
      "unat (mac_ulDciTotalUsed s1) + 5 \<le> unat tbs"
    using fits by auto
  obtain s2 ms' where s2: "report_if_due now s1 dataSfn (dci_symStart d) = Inr s2" "mac_ok ready C n s2"
      "mac_harq s2 = mac_harq s" "mac_harqTimer s2 = mac_harqTimer s1" "mac_sent s2 = mac_sent s1 @ ms'"
      "sum_list (map pdu_bytes ms') + unat (mac_ulDciTotalUsed s1) \<le> unat tbs" "data_pdus ms' = []"
    using report_alone[OF s1(2,3) assms(4) s1(9), of now dataSfn "dci_symStart d"] s1(4) by auto
  have "ProcessUlDci notify now s d kDelay = Inr s2"
    using a s1(1) s2(1) assms(3) by (simp add: ProcessUlDci_def Let_def)
  then show ?thesis using s1 s2 by (intro exI[of _ s2] exI[of _ "ms @ ms'"]) simp
qed

end

subsection \<open>The unacknowledged mode below the MAC\<close>

definition um_notify :: "int \<Rightarrow> um notify" where
  "um_notify now s opp =
     bindE (um_DoNotifyTxOpportunity now s opp) (\<lambda>(s, p). Inr (s, case p of None \<Rightarrow> [] | Some p \<Rightarrow> [TransmitPdu p]))"

definition um_ready :: "u8 \<Rightarrow> um \<Rightarrow> bool" where
  "um_ready lcid s \<longleftrightarrow> (\<exists>accepted gone h. tx_ok s accepted gone h) \<and> um_lcid s = lcid \<and> lcid \<in> set allowedLcId"

definition um_idle :: "um \<Rightarrow> bool" where
  "um_idle s \<longleftrightarrow> um_txBuffer s = []"

lemma opportunity_keeps:
  assumes "um_DoNotifyTxOpportunity now s opp = Inr (s', Some p)"
  shows "um_lcid s' = um_lcid s \<and> tp_lcid p = um_lcid s \<and> tp_harqProcessId p = to_harqId opp"
proof (cases "to_bytes opp \<le> 2 \<or> um_txBuffer s = []")
  case True
  then show ?thesis using assms by (auto simp: um_DoNotifyTxOpportunity_def split: list.splits)
next
  case False
  then obtain x rest where x: "um_txBuffer s = x # rest" "\<not> to_bytes opp \<le> 2" by (cases "um_txBuffer s") auto
  obtain df hdr sz buf where f: "fill_data x (to_bytes opp - 2) 1 [] LteRlcHeader (um_txBufferSize s - GetSize (tx_pdu x)) rest =
      (df, hdr, sz, buf)" by (rule prod_cases4)
  have [simp]: "um_lcid (if b then s\<lparr>um_txBuffer := buf, um_txBufferSize := sz, um_sequenceNumber := q, um_rbsTimer := tm\<rparr>
      else s\<lparr>um_txBuffer := buf, um_txBufferSize := sz, um_sequenceNumber := q\<rparr>) = um_lcid s" for b q tm
    by simp
  show ?thesis using assms x(2)
    unfolding um_DoNotifyTxOpportunity_def x(1) list.case f Let_def prod.case
    by (clarsimp simp: res_simps)
qed

interpretation um_sap: rlc_sap "um_notify now" "um_ready lcid" um_idle for now lcid
proof (unfold_locales, goal_cases)
  case (1 r opp)
  then obtain accepted gone h where t: "tx_ok r accepted gone h" by (auto simp: um_ready_def)
  from tx_ok_opportunity[OF t 1(2), of now] show ?case
  proof (elim disjE exE conjE, goal_cases)
    case (3 s' pdu fs w)
    then have "um_ready lcid s'" using opportunity_keeps[OF 3(1)] 1(1) by (auto simp: um_ready_def)
    then show ?case using 3 opportunity_keeps[OF 3(1)] 1(1) by (auto simp: um_notify_def um_ready_def)
  qed (use 1 in \<open>simp_all add: um_notify_def\<close>)
next
  case (2 r opp)
  then show ?case by (auto simp: um_notify_def um_idle_def um_DoNotifyTxOpportunity_def)
qed

subsection \<open>A UE with one channel\<close>

text \<open>What happens to a UE: SDUs from above, the timer of the RLC, the slots of the grid, and uplink grants.\<close>

datatype ue_event =
    Sdu int bytes
  | ReportTimer int
  | Slot sfnsf
  | Grant int dci u32

definition rlc_report :: "u8 \<Rightarrow> (um \<Rightarrow> um \<times> ReportBufferStatusParameters option) \<Rightarrow> um ue_mac \<Rightarrow> um ue_mac res" where
  "rlc_report lcid f s =
     bindE (map_at lcid (mac_lcInfoMap s)) (\<lambda>info.
     let (r, report) = f (li_macSapUser info);
         s = s\<lparr>mac_lcInfoMap := AList.update lcid (info\<lparr>li_macSapUser := r\<rparr>) (mac_lcInfoMap s)\<rparr> in
     case report of None \<Rightarrow> Inr s | Some report \<Rightarrow> ue_DoReportBufferStatus s report)"

fun ue_step :: "u8 \<Rightarrow> um ue_mac \<Rightarrow> ue_event \<Rightarrow> um ue_mac res" where
  "ue_step lcid s (Sdu now p) = rlc_report lcid (\<lambda>r. let (r, b) = DoTransmitPdcpPdu now r p in (r, Some b)) s"
| "ue_step lcid s (ReportTimer now) = rlc_report lcid (ExpireRbsTimer now) s"
| "ue_step lcid s (Slot sfn) = ue_DoSlotIndication s sfn"
| "ue_step lcid s (Grant now d kDelay) = ProcessUlDci (um_notify now) now s d kDelay"

definition ue_start :: "u16 \<Rightarrow> u8 \<Rightarrow> u16 \<Rightarrow> u8 \<Rightarrow> u8 \<Rightarrow> sfnsf \<Rightarrow> um ue_mac res" where
  "ue_start bwpId numHarqProcess rnti lcid lcg sfn =
     bindE (AddLc lcid lcg (LteRlcUm rnti lcid) (RecvRaResponse (SetNumHarqProcess numHarqProcess (NrUeMac bwpId)) rnti))
       (\<lambda>s. ue_DoSlotIndication s sfn)"

text \<open>
  What the scheduler keeps to: the size of the last new-data grant of every process (0: none yet), a new-data grant of at least 5 bytes, and a
  retransmission (\<open>ndi\<close> 0) only of a process that had new data, with a block as large as the first one and of at least 7 bytes.
\<close>

fun after_event :: "(u8 \<Rightarrow> u32) \<Rightarrow> ue_event \<Rightarrow> u8 \<Rightarrow> u32" where
  "after_event f (Grant now d kDelay) = (if dci_ndi d = [1] then f(dci_harqProcess d := hd (dci_tbSize d)) else f)"
| "after_event f _ = f"

fun ue_event_ok :: "u8 \<Rightarrow> (u8 \<Rightarrow> u32) \<Rightarrow> ue_event \<Rightarrow> bool" where
  "ue_event_ok n f (Sdu now p) \<longleftrightarrow> p \<noteq> [] \<and> length p < 2 ^ 16"
| "ue_event_ok n f (ReportTimer now) \<longleftrightarrow> True"
| "ue_event_ok n f (Slot sfn) \<longleftrightarrow> numerology sfn \<le> 5"
| "ue_event_ok n f (Grant now d kDelay) \<longleftrightarrow> dci_harqProcess d < n \<and>
     (\<exists>tbs. dci_tbSize d = [tbs] \<and> tbs < 2 ^ 16 \<and>
        (dci_ndi d = [1] \<and> 5 \<le> tbs \<or>
         dci_ndi d = [0] \<and> f (dci_harqProcess d) \<noteq> 0 \<and> f (dci_harqProcess d) \<le> tbs \<and> 7 \<le> tbs))"

fun ue_events_ok :: "u8 \<Rightarrow> (u8 \<Rightarrow> u32) \<Rightarrow> ue_event list \<Rightarrow> bool" where
  "ue_events_ok n f [] \<longleftrightarrow> True"
| "ue_events_ok n f (e # es) \<longleftrightarrow> ue_event_ok n f e \<and> ue_events_ok n (after_event f e) es"

definition ue_ok :: "u8 \<Rightarrow> u8 \<Rightarrow> (u8 \<Rightarrow> u32) \<Rightarrow> um ue_mac \<Rightarrow> bool" where
  "ue_ok n lcid f s \<longleftrightarrow> mac_ok (um_ready lcid) {lcid} n s \<and> lcid \<noteq> 0 \<and> (\<forall>h < n. process_ok s (unat h) (f h))"

lemma ue_events_ok_append [simp]:
  "ue_events_ok n f (es @ fs) \<longleftrightarrow> ue_events_ok n f es \<and> ue_events_ok n (foldl after_event f es) fs"
  by (induction es arbitrary: f) auto

lemma process_ok_cong:
  "mac_harq s' = mac_harq s \<Longrightarrow> mac_harqTimer s' = mac_harqTimer s \<Longrightarrow> process_ok s' i tbs = process_ok s i tbs"
  by (simp add: process_ok_def kept_def)

lemma process_ok_others:
  assumes "others_same s s' h" and "i < length (mac_harq s')" and "i \<noteq> h"
  shows "process_ok s' i tbs = process_ok s i tbs" "kept s' i = kept s i"
  using assms by (simp_all add: others_same_def process_ok_def kept_def)

text \<open>No burst that is kept expires.\<close>

lemma RefreshHarqProcessesPacketBuffer_same:
  assumes "mac_ok ready C n s" and "\<forall>h < n. process_ok s (unat h) (f h)"
  shows "RefreshHarqProcessesPacketBuffer s = s"
proof -
  let ?f = "\<lambda>(p, timer). case hp_pktBurst p of None \<Rightarrow> p
      | Some pb \<Rightarrow> if timer = 0 \<and> concat (map mp_bytes pb) \<noteq> [] then p\<lparr>hp_pktBurst := Some [], hp_lcidList := []\<rparr> else p"
  have l: "length (mac_harqTimer s) = length (mac_harq s)" "length (mac_harq s) = unat n" using assms(1) by (simp_all add: mac_ok_def)
  have "map ?f (zip (mac_harq s) (mac_harqTimer s)) = mac_harq s"
  proof (rule nth_equalityI, simp add: l)
    fix i
    assume "i < length (map ?f (zip (mac_harq s) (mac_harqTimer s)))"
    then have i: "i < unat n" using l by simp
    then have "i < 2 ^ 8" using u_lt[of n] by simp
    then have "unat (of_nat i :: u8) = i" by (simp add: unat_of_nat)
    moreover have "of_nat i < n" using i calculation by (simp add: word_less_nat_alt)
    ultimately have "kept s i \<noteq> [] \<longrightarrow> mac_harqTimer s ! i \<noteq> 0" using assms(2) unfolding process_ok_def by metis
    then show "map ?f (zip (mac_harq s) (mac_harqTimer s)) ! i = mac_harq s ! i"
      using i l by (auto simp: kept_def split: option.splits)
  qed
  then show ?thesis by (simp add: RefreshHarqProcessesPacketBuffer_def)
qed

lemma one_channel_quiet:
  assumes "ue_ok n lcid f s"
  shows "quiet idle s"
proof -
  have "k = lcid" if "k \<in> fst ` set (mac_ulBsrReceived s)" for k
  proof -
    have "map_of (mac_ulBsrReceived s) k \<noteq> None" using that by (simp add: map_of_eq_None_iff)
    then have "map_of (mac_lcInfoMap s) k \<noteq> None" "dom (map_of (mac_lcInfoMap s)) = {lcid}"
      using assms unfolding ue_ok_def mac_ok_def by blast+
    then show ?thesis by (metis domIff singletonD)
  qed
  then have k: "\<forall>k \<in> fst ` set (mac_ulBsrReceived s). waiting s k = waiting s lcid" by (intro ballI) simp
  then show ?thesis unfolding quiet_def silent_or_waiting_def by (cases "waiting s lcid") simp_all
qed

lemma report_keeps:
  assumes "ue_ok n lcid f s" and "rb_lcid r = lcid" and "rb_retxQueueSize r = 0" and "rb_statusPduSize r = 0"
  shows "\<exists>s'. ue_DoReportBufferStatus s r = Inr s' \<and> ue_ok n lcid f s' \<and> mac_harq s' = mac_harq s"
proof -
  obtain q where q: "lcg_queues s = Inr q" using lcg_queues_total assms(1) unfolding ue_ok_def by blast
  let ?s = "let s = s\<lparr>mac_ulBsrReceived := AList.update (rb_lcid r) r (mac_ulBsrReceived s)\<rparr>;
      s = (if mac_srState s = INACTIVE then s\<lparr>mac_srState := TO_SEND\<rparr> else s) in s\<lparr>mac_freshUlBsr := True\<rparr>"
  have "map_of (mac_lcInfoMap s) lcid \<noteq> None" using assms(1) unfolding ue_ok_def mac_ok_def by blast
  then have "mac_ok (um_ready lcid) {lcid} n ?s" using assms
    by (auto simp: Let_def ue_ok_def mac_ok_def map_of_update distinct_update)
  moreover have h: "mac_harq ?s = mac_harq s" "mac_harqTimer ?s = mac_harqTimer s" by (simp_all add: Let_def)
  ultimately have "ue_ok n lcid f ?s" using assms(1) process_ok_cong[OF h] by (simp add: ue_ok_def)
  moreover have "ue_DoReportBufferStatus s r = Inr ?s" using q by (simp add: ue_DoReportBufferStatus_def Let_def)
  ultimately show ?thesis using h by blast
qed

lemma rlc_report_keeps:
  assumes "ue_ok n lcid f s"
    and "\<And>r. um_ready lcid r \<Longrightarrow> um_ready lcid (fst (g r)) \<and>
      (\<forall>b. snd (g r) = Some b \<longrightarrow> rb_lcid b = lcid \<and> rb_retxQueueSize b = 0 \<and> rb_statusPduSize b = 0)"
  shows "\<exists>s'. rlc_report lcid g s = Inr s' \<and> ue_ok n lcid f s' \<and> mac_harq s' = mac_harq s"
proof -
  have m: "dom (map_of (mac_lcInfoMap s)) = {lcid}" using assms(1) unfolding ue_ok_def mac_ok_def by blast
  then obtain i where i: "map_of (mac_lcInfoMap s) lcid = Some i" by (metis domD insertI1)
  then have r: "um_ready lcid (li_macSapUser i)" using assms(1) unfolding ue_ok_def mac_ok_def by blast
  let ?s = "s\<lparr>mac_lcInfoMap := AList.update lcid (i\<lparr>li_macSapUser := fst (g (li_macSapUser i))\<rparr>) (mac_lcInfoMap s)\<rparr>"
  have c: "li_logicalChannelGroup i < 4" using assms(1) i unfolding ue_ok_def mac_ok_def by blast
  have "mac_ok (um_ready lcid) {lcid} n ?s"
    using assms(1) m c assms(2)[OF r] by (auto simp: ue_ok_def mac_ok_def map_of_update dom_fun_upd)
  then have "ue_ok n lcid f ?s" using assms(1) process_ok_cong[of ?s s] by (simp add: ue_ok_def)
  then show ?thesis
    using i assms(2)[OF r] report_keeps[of n lcid f ?s]
    by (cases "snd (g (li_macSapUser i))") (simp_all add: rlc_report_def split_beta)
qed

lemma um_ready_submit:
  assumes "um_ready lcid r" and "p \<noteq> []" and "length p < 2 ^ 16"
  shows "um_ready lcid (fst (DoTransmitPdcpPdu now r p))"
proof -
  obtain accepted gone h where "tx_ok r accepted gone h" using assms(1) by (auto simp: um_ready_def)
  from tx_ok_submit[OF this assms(2,3), of now] show ?thesis
    using assms(1) unfolding um_ready_def by (intro conjI) (blast, simp_all add: DoTransmitPdcpPdu_def Let_def)
qed

lemma report_fields [simp]:
  "rb_lcid (um_DoReportBufferStatus now s) = um_lcid s" "rb_retxQueueSize (um_DoReportBufferStatus now s) = 0"
  "rb_statusPduSize (um_DoReportBufferStatus now s) = 0"
  by (simp_all add: um_DoReportBufferStatus_def split_beta)

lemma um_ready_timer:
  assumes "um_ready lcid r"
  shows "um_ready lcid (fst (ExpireRbsTimer now r)) \<and> (\<forall>b. snd (ExpireRbsTimer now r) = Some b \<longrightarrow>
    rb_lcid b = lcid \<and> rb_retxQueueSize b = 0 \<and> rb_statusPduSize b = 0)"
proof -
  obtain accepted gone h where "tx_ok r accepted gone h" using assms by (auto simp: um_ready_def)
  from tx_ok_timer[OF this, of now] show ?thesis
    using assms unfolding um_ready_def
    by (intro conjI allI impI) (blast, auto simp: ExpireRbsTimer_def split: if_splits)
qed

text \<open>Only a new-data grant changes what a process keeps.\<close>

fun renews :: "u8 \<Rightarrow> ue_event \<Rightarrow> bool" where
  "renews h (Grant now d kDelay) \<longleftrightarrow> dci_ndi d = [1] \<and> dci_harqProcess d = h"
| "renews h _ \<longleftrightarrow> False"

lemma new_data_step:
  assumes "ue_ok n lcid f s" and "ue_event_ok n f (Grant now d kDelay)" and "dci_ndi d = [1]"
  shows "\<exists>s' ms. ue_step lcid s (Grant now d kDelay) = Inr s' \<and> ue_ok n lcid (after_event f (Grant now d kDelay)) s' \<and>
    mac_sent s' = mac_sent s @ ms \<and> sum_list (map pdu_bytes ms) \<le> unat (hd (dci_tbSize d)) \<and>
    data_pdus ms = kept s' (unat (dci_harqProcess d)) \<and>
    (\<forall>h < n. h \<noteq> dci_harqProcess d \<longrightarrow> kept s' (unat h) = kept s (unat h))"
proof -
  obtain tbs where d: "dci_harqProcess d < n" "vec_at (dci_ndi d) 0 = Inr 1" "vec_at (dci_tbSize d) 0 = Inr tbs"
    "5 \<le> tbs" "tbs < 2 ^ 16" "hd (dci_tbSize d) = tbs" using assms(2,3) by auto
  obtain s' ms where r: "ProcessUlDci (um_notify now) now s d kDelay = Inr s'" "mac_ok (um_ready lcid) {lcid} n s'"
      "mac_sent s' = mac_sent s @ ms" "sum_list (map pdu_bytes ms) \<le> unat tbs" "data_pdus ms = kept s' (unat (dci_harqProcess d))"
      "process_ok s' (unat (dci_harqProcess d)) tbs" "others_same s s' (unat (dci_harqProcess d))"
    using um_sap.ProcessUlDci_new[OF _ one_channel_quiet[OF assms(1)] d(1-5), of lcid "{lcid}" now now kDelay] assms(1)
    by (auto simp: ue_ok_def)
  have other: "unat h < length (mac_harq s') \<and> unat h \<noteq> unat (dci_harqProcess d)" if "h < n" "h \<noteq> dci_harqProcess d" for h
    using that r(2) word_unat_eq_iff[of h "dci_harqProcess d"] by (simp add: mac_ok_def word_less_nat_alt)
  have "process_ok s' (unat h) (after_event f (Grant now d kDelay) h)" if "h < n" for h
    using r(6) process_ok_others(1)[OF r(7)] other[OF that] assms(1,3) d(6) that by (auto simp: ue_ok_def)
  moreover have "kept s' (unat h) = kept s (unat h)" if "h < n" "h \<noteq> dci_harqProcess d" for h
    using process_ok_others(2)[OF r(7)] other[OF that] by blast
  ultimately show ?thesis using r d(6) assms(1) by (auto simp: ue_ok_def)
qed

lemma retransmission_step:
  assumes "ue_ok n lcid f s" and "ue_event_ok n f (Grant now d kDelay)" and "dci_ndi d = [0]"
  shows "\<exists>s' ms. ue_step lcid s (Grant now d kDelay) = Inr s' \<and> ue_ok n lcid (after_event f (Grant now d kDelay)) s' \<and>
    mac_sent s' = mac_sent s @ ms \<and> sum_list (map pdu_bytes ms) \<le> unat (hd (dci_tbSize d)) \<and>
    data_pdus ms = kept s (unat (dci_harqProcess d)) \<and> mac_harq s' = mac_harq s"
proof -
  obtain tbs where d: "dci_harqProcess d < n" "vec_at (dci_ndi d) 0 = Inr 0" "vec_at (dci_tbSize d) 0 = Inr tbs"
    "tbs < 2 ^ 16" "f (dci_harqProcess d) \<noteq> 0" "f (dci_harqProcess d) \<le> tbs" "7 \<le> tbs" "hd (dci_tbSize d) = tbs"
    using assms(2,3) by auto
  have p: "process_ok s (unat (dci_harqProcess d)) (f (dci_harqProcess d))" using assms(1) d(1) by (simp add: ue_ok_def)
  obtain s' ms where r: "ProcessUlDci (um_notify now) now s d kDelay = Inr s'" "mac_ok (um_ready lcid) {lcid} n s'"
      "mac_sent s' = mac_sent s @ ms" "sum_list (map pdu_bytes ms) \<le> unat tbs" "data_pdus ms = kept s (unat (dci_harqProcess d))"
      "mac_harq s' = mac_harq s" "\<forall>i < length (mac_harq s). mac_harqTimer s ! i \<noteq> 0 \<longrightarrow> mac_harqTimer s' ! i \<noteq> 0"
    using um_sap.ProcessUlDci_again[OF _ d(1-4) p d(5-7), of lcid "{lcid}" now now kDelay] assms(1) by (auto simp: ue_ok_def)
  have "process_ok s' (unat h) (f h)" if "h < n" for h
  proof -
    have "unat h < length (mac_harq s)" using that assms(1) by (simp add: ue_ok_def mac_ok_def word_less_nat_alt)
    moreover have "process_ok s (unat h) (f h)" using that assms(1) by (simp add: ue_ok_def)
    ultimately show ?thesis using r(6,7) by (simp add: process_ok_def kept_def)
  qed
  then show ?thesis using r d(8) assms(1,3) by (auto simp: ue_ok_def)
qed

lemma ue_step_keeps:
  assumes "ue_ok n lcid f s" and "ue_event_ok n f e"
  shows "\<exists>s'. ue_step lcid s e = Inr s' \<and> ue_ok n lcid (after_event f e) s' \<and>
    (\<forall>h < n. \<not> renews h e \<longrightarrow> kept s' (unat h) = kept s (unat h))"
proof (cases e)
  case (Sdu now p)
  have "\<exists>s'. rlc_report lcid (\<lambda>r. let (r, b) = DoTransmitPdcpPdu now r p in (r, Some b)) s = Inr s' \<and> ue_ok n lcid f s' \<and>
      mac_harq s' = mac_harq s"
    using um_ready_submit[of lcid _ p now] assms(2) Sdu
    by (intro rlc_report_keeps[OF assms(1)])
      (auto simp: split_beta DoTransmitPdcpPdu_def um_DoReportBufferStatus_def um_ready_def Let_def)
  then show ?thesis using Sdu by (auto simp: kept_def)
next
  case (ReportTimer now)
  have "\<exists>s'. rlc_report lcid (ExpireRbsTimer now) s = Inr s' \<and> ue_ok n lcid f s' \<and> mac_harq s' = mac_harq s"
    using um_ready_timer by (intro rlc_report_keeps[OF assms(1)])
  then show ?thesis using ReportTimer by (auto simp: kept_def)
next
  case (Slot sfn)
  let ?s = "s\<lparr>mac_currentSlot := sfn\<rparr>" and ?t = "(SendSR (s\<lparr>mac_currentSlot := sfn\<rparr>))\<lparr>mac_srState := ACTIVE\<rparr>"
  have ok: "mac_ok (um_ready lcid) {lcid} n ?s" "mac_srPeriodicity ?s \<noteq> 0"
    using assms Slot by (auto simp: ue_ok_def mac_ok_def)
  then have t: "mac_ok (um_ready lcid) {lcid} n ?t" unfolding mac_ok_def SendSR_def send_def by simp
  have h: "mac_harq ?t = mac_harq s" "mac_harqTimer ?t = mac_harqTimer s" by (simp_all add: SendSR_def send_def)
  have p: "process_ok ?s i x = process_ok s i x" "process_ok ?t i x = process_ok s i x" for i x
    by (rule process_ok_cong; simp add: SendSR_def send_def)+
  then have "RefreshHarqProcessesPacketBuffer ?s = ?s"
    using RefreshHarqProcessesPacketBuffer_same[OF ok(1), of f] assms(1) by (simp add: ue_ok_def)
  then have "ue_step lcid s e = Inr (if mac_srState ?s = TO_SEND then if sr_occasion sfn (mac_srPeriodicity ?s) then ?t else ?s else ?s)"
    using ok(2) Slot by (simp add: ue_DoSlotIndication_def Let_def)
  moreover have "ue_ok n lcid f ?s" "ue_ok n lcid f ?t" using ok t p assms(1) by (simp_all add: ue_ok_def)
  ultimately show ?thesis using h Slot by (simp add: kept_def)
next
  case (Grant now d kDelay)
  then consider "dci_ndi d = [1]" | "dci_ndi d = [0]" using assms(2) by auto
  then show ?thesis
  proof cases
    case 1
    then show ?thesis using new_data_step[OF assms(1) assms(2)[unfolded Grant]] Grant by force
  next
    case 2
    then show ?thesis using retransmission_step[OF assms(1) assms(2)[unfolded Grant]] Grant by (fastforce simp: kept_def)
  qed
qed

lemma ue_start_ok:
  assumes "lcid \<in> set allowedLcId" and "lcg < 4" and "numerology sfn \<le> 5"
  shows "\<exists>s. ue_start bwpId n rnti lcid lcg sfn = Inr s \<and> ue_ok n lcid (\<lambda>_. 0) s"
proof -
  let ?um = "LteRlcUm rnti lcid"
  have "tx_ok ?um [] [] None"
    by (simp add: tx_ok_def LteRlcUm_def SequenceNumber10_def waiting_ok_def started_def)
  then have r: "um_ready lcid ?um" using assms(1) by (auto simp: um_ready_def LteRlcUm_def)
  have "(0 :: u8) \<notin> set allowedLcId" by code_simp
  then have z: "lcid \<noteq> 0" using assms(1) by metis
  let ?s = "(RecvRaResponse (SetNumHarqProcess n (NrUeMac bwpId)) rnti)\<lparr>
    mac_lcInfoMap := [(lcid, \<lparr>li_logicalChannelGroup = lcg, li_macSapUser = ?um\<rparr>)]\<rparr>"
  have a: "AddLc lcid lcg ?um (RecvRaResponse (SetNumHarqProcess n (NrUeMac bwpId)) rnti) = Inr ?s"
    by (simp add: AddLc_def RecvRaResponse_def SetNumHarqProcess_def NrUeMac_def send_def Let_def)
  have "mac_ok (um_ready lcid) {lcid} n (?s\<lparr>mac_currentSlot := sfn\<rparr>)"
    using r assms(2,3)
    by (auto simp: mac_ok_def RecvRaResponse_def SetNumHarqProcess_def NrUeMac_def send_def Let_def)
  moreover have p: "process_ok (?s\<lparr>mac_currentSlot := sfn\<rparr>) (unat h) 0" if "h < n" for h
    using that by (simp add: process_ok_def kept_def RecvRaResponse_def SetNumHarqProcess_def NrUeMac_def send_def
        word_less_nat_alt Let_def)
  moreover have "mac_srState ?s = INACTIVE"
    by (simp add: RecvRaResponse_def SetNumHarqProcess_def NrUeMac_def send_def Let_def)
  ultimately show ?thesis
    using a z RefreshHarqProcessesPacketBuffer_same[of "um_ready lcid" "{lcid}" n "?s\<lparr>mac_currentSlot := sfn\<rparr>" "\<lambda>_. 0"]
    unfolding ue_start_def ue_ok_def by (simp add: ue_DoSlotIndication_def)
qed

lemma ue_run:
  assumes "ue_ok n lcid f s" and "ue_events_ok n f evs"
  shows "\<exists>s'. foldE (ue_step lcid) s evs = Inr s' \<and> ue_ok n lcid (foldl after_event f evs) s' \<and>
    (\<forall>h < n. (\<forall>e \<in> set evs. \<not> renews h e) \<longrightarrow> kept s' (unat h) = kept s (unat h))"
  using assms
proof (induction evs arbitrary: f s)
  case (Cons e evs)
  obtain s1 where s1: "ue_step lcid s e = Inr s1" "ue_ok n lcid (after_event f e) s1"
      "\<forall>h < n. \<not> renews h e \<longrightarrow> kept s1 (unat h) = kept s (unat h)"
    using ue_step_keeps[OF Cons.prems(1), of e] Cons.prems(2) by auto
  from Cons.IH[OF s1(2)] Cons.prems(2) obtain s' where "foldE (ue_step lcid) s1 evs = Inr s'"
      "ue_ok n lcid (foldl after_event (after_event f e) evs) s'"
      "\<forall>h < n. (\<forall>e \<in> set evs. \<not> renews h e) \<longrightarrow> kept s' (unat h) = kept s1 (unat h)"
    by auto
  then show ?case using s1 by auto
qed simp

text \<open>
  C12. The MAC of a UE never exceeds its grants, for new data or for a retransmission. Let SDUs come from above and the timer of the RLC
  and the slots come in any order, and let the UE receive grants of fewer than 65536 bytes, of which those for new data have at least 5 bytes,
  and those for a retransmission (\<open>ndi\<close> 0) are for a process that had a grant for new data, and have at least 7 bytes and at least
  those of the last such grant. Then no assertion of the MAC, the RLC or the headers fails, \<open>TransmitRetx\<close> never finds an empty
  burst, and the PDUs and the report sent for a grant, subheaders included, fit into its transport block.
\<close>
theorem uplink_grants_respected:
  assumes "lcid \<in> set allowedLcId" and "lcg < 4" and "numerology sfn \<le> 5"
    and "ue_events_ok n (\<lambda>_. 0) (evs @ [Grant now d kDelay])"
  shows "\<exists>s0 s s' ms. ue_start bwpId n rnti lcid lcg sfn = Inr s0 \<and> foldE (ue_step lcid) s0 evs = Inr s \<and>
    ue_step lcid s (Grant now d kDelay) = Inr s' \<and> mac_sent s' = mac_sent s @ ms \<and>
    sum_list (map pdu_bytes ms) \<le> unat (hd (dci_tbSize d))"
proof -
  obtain s0 where s0: "ue_start bwpId n rnti lcid lcg sfn = Inr s0" "ue_ok n lcid (\<lambda>_. 0) s0"
    using ue_start_ok[OF assms(1-3)] by blast
  let ?f = "foldl after_event (\<lambda>_. 0) evs"
  obtain s where s: "foldE (ue_step lcid) s0 evs = Inr s" "ue_ok n lcid ?f s" using ue_run[OF s0(2), of evs] assms(4) by auto
  have g: "ue_event_ok n ?f (Grant now d kDelay)" using assms(4) by simp
  then consider "dci_ndi d = [1]" | "dci_ndi d = [0]" by auto
  then show ?thesis
  proof cases
    case 1
    then show ?thesis using new_data_step[OF s(2) g] s0(1) s(1) by blast
  next
    case 2
    then show ?thesis using retransmission_step[OF s(2) g] s0(1) s(1) by blast
  qed
qed

text \<open>
  C33. A retransmission repeats what was sent first. After a grant for new data of a HARQ process, whatever SDUs, timers, slots and grants come
  in between except another grant for new data of that process, a grant for its retransmission sends the same data PDUs again, in the same
  order, and no other data: no slot, buffer report or grant of another process touches what the process keeps. Only a buffer report may be
  added or left out.
\<close>
theorem retransmission_repeats:
  assumes "lcid \<in> set allowedLcId" and "lcg < 4" and "numerology sfn \<le> 5"
    and "ue_events_ok n (\<lambda>_. 0) (evs @ Grant t1 d1 k1 # between @ [Grant t2 d2 k2])"
    and "dci_ndi d1 = [1]" and "dci_ndi d2 = [0]" and "dci_harqProcess d2 = dci_harqProcess d1"
    and "\<forall>e \<in> set between. \<not> renews (dci_harqProcess d1) e"
  shows "\<exists>s0 s s1 s2 s3 ms1 ms2. ue_start bwpId n rnti lcid lcg sfn = Inr s0 \<and> foldE (ue_step lcid) s0 evs = Inr s \<and>
    ue_step lcid s (Grant t1 d1 k1) = Inr s1 \<and> mac_sent s1 = mac_sent s @ ms1 \<and>
    foldE (ue_step lcid) s1 between = Inr s2 \<and>
    ue_step lcid s2 (Grant t2 d2 k2) = Inr s3 \<and> mac_sent s3 = mac_sent s2 @ ms2 \<and> data_pdus ms2 = data_pdus ms1"
proof -
  obtain s0 where s0: "ue_start bwpId n rnti lcid lcg sfn = Inr s0" "ue_ok n lcid (\<lambda>_. 0) s0"
    using ue_start_ok[OF assms(1-3)] by blast
  let ?f = "foldl after_event (\<lambda>_. 0) evs"
  obtain s where s: "foldE (ue_step lcid) s0 evs = Inr s" "ue_ok n lcid ?f s" using ue_run[OF s0(2), of evs] assms(4) by auto
  have "ue_event_ok n ?f (Grant t1 d1 k1)" using assms(4) by simp
  from new_data_step[OF s(2) this assms(5)] obtain s1 ms1 where s1: "ue_step lcid s (Grant t1 d1 k1) = Inr s1"
      "ue_ok n lcid (after_event ?f (Grant t1 d1 k1)) s1" "mac_sent s1 = mac_sent s @ ms1"
      "data_pdus ms1 = kept s1 (unat (dci_harqProcess d1))"
    by blast
  let ?g = "foldl after_event (after_event ?f (Grant t1 d1 k1)) between"
  have "ue_events_ok n (after_event ?f (Grant t1 d1 k1)) between" "ue_event_ok n ?g (Grant t2 d2 k2)" "dci_harqProcess d1 < n"
    using assms(4) by simp_all
  then obtain s2 where s2: "foldE (ue_step lcid) s1 between = Inr s2" "ue_ok n lcid ?g s2"
      "kept s2 (unat (dci_harqProcess d1)) = kept s1 (unat (dci_harqProcess d1))" "ue_event_ok n ?g (Grant t2 d2 k2)"
    using ue_run[OF s1(2), of between] assms(8) by blast
  from retransmission_step[OF s2(2,4) assms(6)] show ?thesis
    using s0(1) s(1) s1(1,3,4) s2(1,3) assms(7) by force
qed

definition demo_slot :: sfnsf where
  "demo_slot = \<lparr>frameNum = 3, subframeNum = 2, slotNum = 1, numerology = 1\<rparr>"

definition demo_grant :: "u8 \<Rightarrow> u8 \<Rightarrow> u32 \<Rightarrow> dci" where
  "demo_grant h ndi tbs = (Dci_data 7 UL_DCI 0 12 [9] [tbs] [ndi] [0] DATA 0 1)\<lparr>dci_harqProcess := h\<rparr>"

text \<open>Two SDUs, each with a grant of its own; the first is sent again while the second waits for its answer.\<close>

definition demo_ue_events :: "ue_event list" where
  "demo_ue_events = [Sdu 0 [1, 2, 3], Slot demo_slot]"

definition demo_between :: "ue_event list" where
  "demo_between = [Sdu 5000000 [4, 5], ReportTimer 6000000, Grant 6500000 (demo_grant 1 1 100) 2, Slot demo_slot]"

lemma demo_lcid: "(4 :: u8) \<in> set allowedLcId"
  by code_simp

lemma demo_events_ok:
  "ue_events_ok 20 (\<lambda>_. 0) (demo_ue_events @ Grant 4000000 (demo_grant 0 1 40) 2 # demo_between @ [Grant 7000000 (demo_grant 0 0 40) 2])"
  by (simp add: demo_ue_events_def demo_between_def demo_slot_def demo_grant_def Dci_data_def)

theorem uplink_grants_respected_witness:
  "\<exists>s0 s s' ms. ue_start 0 20 7 4 2 demo_slot = Inr s0 \<and>
    foldE (ue_step 4) s0 (demo_ue_events @ Grant 4000000 (demo_grant 0 1 40) 2 # demo_between) = Inr s \<and>
    ue_step 4 s (Grant 7000000 (demo_grant 0 0 40) 2) = Inr s' \<and> mac_sent s' = mac_sent s @ ms \<and>
    sum_list (map pdu_bytes ms) \<le> 40"
  using uplink_grants_respected[of 4 2 demo_slot 20 "demo_ue_events @ Grant 4000000 (demo_grant 0 1 40) 2 # demo_between" 7000000
      "demo_grant 0 0 40" 2 0 7] demo_lcid demo_events_ok
  by (simp add: demo_slot_def demo_grant_def Dci_data_def)

text \<open>The data PDU has the three bytes of the SDU, two of the RLC header and two of the subheader.\<close>

lemma demo_data:
  "case bindE (ue_start 0 20 7 4 2 demo_slot) (\<lambda>s. foldE (ue_step 4) s demo_ue_events) of
     Inr s \<Rightarrow> data_pdus (mac_sent s) = [] \<and>
       (case ue_step 4 s (Grant 4000000 (demo_grant 0 1 40) 2) of
          Inr s1 \<Rightarrow> map (length \<circ> mp_bytes) (data_pdus (mac_sent s1)) = [7] | _ \<Rightarrow> False)
   | _ \<Rightarrow> False"
  by code_simp

theorem retransmission_repeats_witness:
  "\<exists>s0 s s1 s2 s3 ms2. ue_start 0 20 7 4 2 demo_slot = Inr s0 \<and> foldE (ue_step 4) s0 demo_ue_events = Inr s \<and>
    ue_step 4 s (Grant 4000000 (demo_grant 0 1 40) 2) = Inr s1 \<and> foldE (ue_step 4) s1 demo_between = Inr s2 \<and>
    ue_step 4 s2 (Grant 7000000 (demo_grant 0 0 40) 2) = Inr s3 \<and> mac_sent s3 = mac_sent s2 @ ms2 \<and>
    data_pdus ms2 = data_pdus (mac_sent s1) \<and> map (length \<circ> mp_bytes) (data_pdus ms2) = [7]"
proof -
  have "\<exists>s0 s s1 s2 s3 ms1 ms2. ue_start 0 20 7 4 2 demo_slot = Inr s0 \<and> foldE (ue_step 4) s0 demo_ue_events = Inr s \<and>
    ue_step 4 s (Grant 4000000 (demo_grant 0 1 40) 2) = Inr s1 \<and> mac_sent s1 = mac_sent s @ ms1 \<and>
    foldE (ue_step 4) s1 demo_between = Inr s2 \<and>
    ue_step 4 s2 (Grant 7000000 (demo_grant 0 0 40) 2) = Inr s3 \<and> mac_sent s3 = mac_sent s2 @ ms2 \<and> data_pdus ms2 = data_pdus ms1"
    by (rule retransmission_repeats[OF demo_lcid _ _ demo_events_ok])
      (simp_all add: demo_between_def demo_slot_def demo_grant_def Dci_data_def)
  then show ?thesis using demo_data by fastforce
qed

end
