(* ===== verification/UeSr.thy ===== *)
theory UeSr
  imports UeMac
begin

text \<open>The scheduling request of a UE, against the slots of the grid.\<close>

lemma ue_slot:
  assumes "mac_srPeriodicity s \<noteq> 0"
  shows "\<exists>s'. ue_DoSlotIndication s sfn = Inr s' \<and> mac_srPeriodicity s' = mac_srPeriodicity s \<and> mac_rnti s' = mac_rnti s \<and>
    (mac_srState s', mac_sent s') =
      (if mac_srState s = TO_SEND \<and> sr_occasion sfn (mac_srPeriodicity s)
       then (ACTIVE, mac_sent (SendSR s)) else (mac_srState s, mac_sent s))"
  using assms
  by (cases "mac_srState s = TO_SEND \<and> sr_occasion sfn (mac_srPeriodicity s)"; cases "mac_srState s = TO_SEND")
    (simp_all add: ue_DoSlotIndication_def RefreshHarqProcessesPacketBuffer_def SendSR_def send_def Let_def)

text \<open>The first occasion among the slots takes the request, and nothing else is sent.\<close>

lemma ue_slots:
  assumes "mac_srPeriodicity s \<noteq> 0"
  shows "\<exists>s'. foldE ue_DoSlotIndication s sfns = Inr s' \<and>
    (mac_srState s', mac_sent s') =
      (if mac_srState s = TO_SEND \<and> (\<exists>sfn \<in> set sfns. sr_occasion sfn (mac_srPeriodicity s))
       then (ACTIVE, mac_sent (SendSR s)) else (mac_srState s, mac_sent s))"
  using assms
proof (induction sfns arbitrary: s)
  case (Cons sfn sfns)
  obtain s1 where s1: "ue_DoSlotIndication s sfn = Inr s1" "mac_srPeriodicity s1 = mac_srPeriodicity s" "mac_rnti s1 = mac_rnti s"
    "(mac_srState s1, mac_sent s1) = (if mac_srState s = TO_SEND \<and> sr_occasion sfn (mac_srPeriodicity s)
       then (ACTIVE, mac_sent (SendSR s)) else (mac_srState s, mac_sent s))"
    using ue_slot[OF Cons.prems] by blast
  then show ?case using Cons.IH[of s1] Cons.prems by (auto simp: SendSR_def send_def split: if_splits)
qed simp

lemma sr_occasion_iff:
  assumes "valid_sfn sfn" and "numerology sfn = 1" and "abs_slot sfn < 2 ^ 32"
  shows "sr_occasion sfn p \<longleftrightarrow> abs_slot sfn mod unat p = 2 mod unat p"
proof -
  have "abs_slot sfn = unat (frameNum sfn) * 20 + 2 * unat (subframeNum sfn) + unat (slotNum sfn)"
    using assms(2) by (simp add: abs_slot_def slots_per_sf_def)
  moreover from this have "unat (frameNum sfn * 20 + 2 * ucast (subframeNum sfn) + ucast (slotNum sfn)) =
      unat (frameNum sfn) * 20 + 2 * unat (subframeNum sfn) + unat (slotNum sfn)"
    using assms(3) by (simp add: unat_word_ariths)
  ultimately show ?thesis by (simp add: sr_occasion_def word_unat_eq_iff unat_mod)
qed

text \<open>
  C13. A scheduling request goes out within its period. At numerology 1, a UE whose request is waiting sends exactly one in the
  next \<open>SRperiodicity\<close> slots of the grid, whichever slot they begin with, and then waits for a grant.
\<close>
theorem scheduling_request_sent:
  assumes "mac_srState s = TO_SEND" and "mac_rnti s \<noteq> 0" and "mac_srPeriodicity s = p" and "p \<noteq> 0"
    and "\<forall>i < unat p. valid_sfn (sfn i) \<and> numerology (sfn i) = 1 \<and> abs_slot (sfn i) = c + i" and "c + unat p \<le> 2 ^ 32"
  shows "\<exists>s'. foldE ue_DoSlotIndication s (map sfn [0..<unat p]) = Inr s' \<and> mac_srState s' = ACTIVE \<and>
    mac_sent s' = mac_sent s @ [NrSRMessage (mac_rnti s)]"
proof -
  have "0 < unat p" using assms(4) by (simp add: unat_gt_0)
  then obtain i where i: "i < unat p" "(c + i) mod unat p = 2 mod unat p"
    using unique_residue[of "2 mod unat p" "unat p" c] by auto
  then have "sr_occasion (sfn i) p" using assms(5,6) by (simp add: sr_occasion_iff)
  then have "\<exists>x \<in> set (map sfn [0..<unat p]). sr_occasion x p" using i(1) by auto
  then show ?thesis using ue_slots[of s "map sfn [0..<unat p]"] assms(1-4) by (auto simp: SendSR_def send_def)
qed

text \<open>The ten slots from slot 1 of subframe 9 of frame 3 on.\<close>

definition demo_sfn :: "nat \<Rightarrow> sfnsf" where
  "demo_sfn i = \<lparr>frameNum = of_nat ((79 + i) div 20), subframeNum = of_nat ((79 + i) mod 20 div 2),
     slotNum = of_nat ((79 + i) mod 2), numerology = 1\<rparr>"

theorem scheduling_request_sent_witness:
  "\<exists>s'. foldE ue_DoSlotIndication ((NrUeMac 0 :: nat ue_mac)\<lparr>mac_rnti := 7, mac_srState := TO_SEND\<rparr>)
      (map demo_sfn [0..<10]) = Inr s' \<and> mac_srState s' = ACTIVE \<and> mac_sent s' = [NrSRMessage 7]"
proof -
  let ?s = "(NrUeMac 0 :: nat ue_mac)\<lparr>mac_rnti := 7, mac_srState := TO_SEND\<rparr>"
  have "valid_sfn (demo_sfn i) \<and> numerology (demo_sfn i) = 1 \<and> abs_slot (demo_sfn i) = 79 + i" if "i < 10" for i
  proof -
    have "i \<in> {0, 1, 2, 3, 4, 5, 6, 7, 8, 9}" using that by auto
    then show ?thesis by (auto simp: demo_sfn_def valid_sfn_def abs_slot_def slots_per_sf_def)
  qed
  then show ?thesis
    using scheduling_request_sent[of ?s 10 demo_sfn 79] by (simp add: NrUeMac_def)
qed

end
