(* ===== verification/UlTypes.thy ===== *)
theory UlTypes
  imports UlData SchedSlot
begin

text \<open>
  The types of the uplink HARQ processes: whatever the uplink trigger of a slot does, an active process of a UE has an
  uplink data DCI of that UE, with its own id and one stream.
\<close>

subsection \<open>Typed processes\<close>

definition ul_dci_typed :: "u16 \<Rightarrow> u8 \<Rightarrow> dci \<Rightarrow> bool" where
  "ul_dci_typed k i d \<longleftrightarrow> dci_rnti d = k \<and> dci_harqProcess d = i \<and> dci_format d = UL_DCI \<and> dci_type d = DATA \<and>
     length (dci_tbSize d) = 1 \<and> length (dci_mcs d) = 1 \<and> length (dci_ndi d) = 1"

text \<open>\<open>mx\<close> is the last redundancy version: one that waits for feedback may have it, one to be sent again may not.\<close>

definition proc_typed :: "u8 \<Rightarrow> u16 \<Rightarrow> u8 \<Rightarrow> HarqProcess \<Rightarrow> bool" where
  "proc_typed mx k i p \<longleftrightarrow> (m_active p \<longleftrightarrow> m_status p \<noteq> INACTIVE) \<and>
     (m_active p \<longrightarrow> (\<exists>d v. m_dciElement p = Some d \<and> ul_dci_typed k i d \<and> dci_rv d = [v] \<and> v \<le> mx \<and>
        (m_status p = RECEIVED_FEEDBACK \<longrightarrow> v < mx)))"

definition vec_typed :: "u8 \<Rightarrow> u16 \<Rightarrow> NrMacHarqVector \<Rightarrow> bool" where
  "vec_typed mx k v \<longleftrightarrow> (\<forall>(i, p) \<in> set (hv_map v). proc_typed mx k i p)"

definition ues_typed :: "u8 \<Rightarrow> (u16 \<times> UeInfo) list \<Rightarrow> bool" where
  "ues_typed mx m \<longleftrightarrow> (\<forall>(k, ue) \<in> set m. ue_rnti ue = k \<and> vec_typed mx k (ue_ulHarq ue))"

lemma ues_typed_get: "ues_typed mx m \<Longrightarrow> map_of m k = Some ue \<Longrightarrow> ue_rnti ue = k \<and> vec_typed mx k (ue_ulHarq ue)"
  by (auto simp: ues_typed_def dest!: map_of_SomeD)

lemma ues_typed_update:
  "ues_typed mx m \<Longrightarrow> ue_rnti ue = k \<Longrightarrow> vec_typed mx k (ue_ulHarq ue) \<Longrightarrow> ues_typed mx (AList.update k ue m)"
  using set_AList_update[of k ue m] by (auto simp: ues_typed_def)

lemma vec_typed_get: "vec_typed mx k v \<Longrightarrow> map_of (hv_map v) i = Some p \<Longrightarrow> proc_typed mx k i p"
  by (auto simp: vec_typed_def dest!: map_of_SomeD)

lemma vec_typed_Set: "vec_typed mx k v \<Longrightarrow> proc_typed mx k i p \<Longrightarrow> vec_typed mx k (hv_Set v i p)"
  using set_AList_update[of i p "hv_map v"] by (auto simp: vec_typed_def hv_Set_def)

lemma proc_typed_Erase [simp]: "proc_typed mx k i (process_Erase p)"
  by (simp add: proc_typed_def process_Erase_def)

lemma vec_typed_Erase:
  assumes "hv_Erase v i = Inr (v', b)" and "vec_typed mx k v"
  shows "vec_typed mx k v'"
proof -
  obtain p where "hv_map v' = AList.update i (process_Erase p) (hv_map v)"
    using assms(1) by (auto simp: hv_Erase_def Let_def res_simps)
  then show ?thesis using vec_typed_Set[OF assms(2) proc_typed_Erase, of i p] by (simp add: vec_typed_def hv_Set_def)
qed

subsection \<open>Expiry and feedback\<close>

lemma ResetExpiredHARQ_typed:
  assumes "ResetExpiredHARQ n v = Inr v'" and "vec_typed mx k v"
  shows "vec_typed mx k v'"
proof -
  have "vec_typed mx k v'" if r: "reset_process n v i = Inr v'" and t: "vec_typed mx k v" for v v' i
  proof -
    obtain p where p: "map_of (hv_map v) i = Some p" using r by (auto simp: reset_process_def res_simps)
    have "proc_typed mx k i (p\<lparr>m_timer := m_timer p + 1\<rparr>)" using vec_typed_get[OF t p] by (simp add: proc_typed_def)
    then show ?thesis using r t p vec_typed_Set[OF t, of i] vec_typed_Erase[of v i _ _ mx k]
      by (auto simp: reset_process_def res_simps split: if_splits)
  qed
  then show ?thesis
    by (intro foldE_invariant[OF assms(1)[unfolded ResetExpiredHARQ_def], of "vec_typed mx k"] assms(2)) blast
qed

lemma each_ue_typed:
  assumes "each_ue f m = Inr m'" and "ues_typed mx m"
    and "\<And>ue ue'. vec_typed mx (ue_rnti ue) (ue_ulHarq ue) \<Longrightarrow> f ue = Inr ue' \<Longrightarrow>
      ue_rnti ue' = ue_rnti ue \<and> vec_typed mx (ue_rnti ue) (ue_ulHarq ue')"
  shows "ues_typed mx m'"
  using assms(1,2)
proof (induction m arbitrary: m')
  case (Cons x m)
  obtain k ue where x: "x = (k, ue)" by (cases x)
  obtain ue' r where r: "f ue = Inr ue'" "each_ue f m = Inr r" "m' = (k, ue') # r"
    using Cons.prems(1) by (auto simp: x res_simps)
  have "ues_typed mx r" using Cons.IH[OF r(2)] Cons.prems(2) by (simp add: ues_typed_def)
  moreover have "ue_rnti ue = k" "vec_typed mx k (ue_ulHarq ue)" using Cons.prems(2) by (simp_all add: x ues_typed_def)
  ultimately show ?case using assms(3)[of ue ue'] r(1,3) by (simp add: ues_typed_def)
qed (simp add: ues_typed_def)

lemma process_feedbacks_typed:
  assumes "process_feedbacks ul_fns mx m hs = Inr (m', r, n)" and "ues_typed mx m"
  shows "ues_typed mx m'"
  using assms
proof (induction hs arbitrary: m m' r n)
  case (Cons h hs)
  let ?k = "ulh_rnti h" and ?i = "ulh_harqProcessId h"
  obtain ue p d where u: "map_of m ?k = Some ue" "map_of (hv_map (ue_ulHarq ue)) ?i = Some p" "m_active p"
      "m_dciElement p = Some d"
    using Cons.prems(1) by (auto simp: res_simps hv_Get_def split: if_splits option.splits)
  have t: "ue_rnti ue = ?k" "vec_typed mx ?k (ue_ulHarq ue)" using ues_typed_get[OF Cons.prems(2) u(1)] by simp_all
  obtain v where v: "dci_rv d = [v]" "v \<le> mx" "ul_dci_typed ?k ?i d"
    using vec_typed_get[OF t(2) u(2)] u(3,4) by (auto simp: proc_typed_def)
  have g: "hv_Get (ue_ulHarq ue) ?i = Inr p" using u(2) by (rule hv_Get_Some)
  have mxv: "[v] ! max_element [v] = v" by (simp add: max_element_def)
  let ?q = "p\<lparr>m_status := RECEIVED_FEEDBACK, nackStreamIndexes := ul_GetNackStreamIndexes h\<rparr>"
  show ?case
  proof (cases "ul_IsReceivedOk h \<or> v = mx")
    case True
    then obtain v' b m1 where e: "hv_Erase (ue_ulHarq ue) ?i = Inr (v', b)"
        "process_feedbacks ul_fns mx (AList.update ?k (ue\<lparr>ue_ulHarq := v'\<rparr>) m) hs = Inr (m', r, n)"
      using Cons.prems(1) u g v(1) mxv by (auto simp: res_simps ns_assert_def split: if_splits)
    show ?thesis
      by (rule Cons.IH[OF e(2)], rule ues_typed_update[OF Cons.prems(2)]) (use vec_typed_Erase[OF e(1) t(2)] t(1) in simp_all)
  next
    case False
    then obtain r1 n1 where e: "process_feedbacks ul_fns mx (AList.update ?k (ue\<lparr>ue_ulHarq := hv_Set (ue_ulHarq ue) ?i ?q\<rparr>) m) hs
        = Inr (m', r1, n1)"
      using Cons.prems(1) u g v(1) mxv by (auto simp: res_simps ns_assert_def split: if_splits)
    have "v < mx" using False v(2) by (simp add: less_le)
    then have "proc_typed mx ?k ?i ?q" using u(3,4) v by (simp add: proc_typed_def)
    then show ?thesis
      by (intro Cons.IH[OF e] ues_typed_update[OF Cons.prems(2)]) (use vec_typed_Set[OF t(2)] t(1) in simp_all)
  qed
qed simp

definition last_rv :: "'r sched \<Rightarrow> u8" where
  "last_rv s = (if s_enableHarqReTx s then 3 else 0)"

lemma ul_harq_phase_typed:
  assumes "ul_harq_phase e s infos = Inr (s', fb)" and "ues_typed (last_rv s) (s_ueMap s)"
  shows "ues_typed (last_rv s') (s_ueMap s') \<and> s_enableHarqReTx s' = s_enableHarqReTx s \<and> s_scheduleMode s' = s_scheduleMode s"
proof -
  let ?mx = "last_rv s"
  obtain m1 m2 where m: "RefreshUlCqiMaps (s_startMcsUl s) (s_ueMap s) = Inr m1"
      "each_ue (\<lambda>ue. bindE (ResetExpiredHARQ (e_numHarqProcess e) (ue_ulHarq ue)) (\<lambda>v. Inr (ue\<lparr>ue_ulHarq := v\<rparr>))) m1 = Inr m2"
    using assms(1) by (auto simp: ul_harq_phase_def res_simps)
  have "ues_typed ?mx m1"
    by (rule each_ue_typed[OF m(1)[unfolded RefreshUlCqiMaps_def] assms(2)]) (auto simp: refresh_ul_def)
  then have t: "ues_typed ?mx m2"
    by (rule each_ue_typed[OF m(2)]) (use ResetExpiredHARQ_typed in \<open>auto simp: res_simps\<close>)
  have "ues_typed ?mx m3" if "ProcessHARQFeedbacks ul_fns (s_enableHarqReTx s) m2 x = Inr (m3, y)" for x y m3
    using process_feedbacks_typed[of ?mx m2 _ m3, OF _ t] that
    by (auto simp: ProcessHARQFeedbacks_def last_rv_def res_simps Let_def ns_assert_def split: if_splits)
  then show ?thesis
    using assms(1) m t by (auto simp: ul_harq_phase_def res_simps last_rv_def split: if_splits)
qed

subsection \<open>Retransmissions\<close>

lemma retx_ul_typed:
  assumes "retx_ul bw s n h = Inr (s', n')" and "ues_typed mx (rr_ueMap s)"
  shows "ues_typed mx (rr_ueMap s')"
proof -
  let ?k = "ulh_rnti h" and ?i = "ulh_harqProcessId h"
  obtain ue p d where u: "map_of (rr_ueMap s) ?k = Some ue" "map_of (hv_map (ue_ulHarq ue)) ?i = Some p"
      "m_status p = RECEIVED_FEEDBACK" "m_dciElement p = Some d"
    using assms(1) by (auto simp: retx_ul_def Let_def res_simps split: option.splits)
  have t: "ue_rnti ue = ?k" "vec_typed mx ?k (ue_ulHarq ue)" using ues_typed_get[OF assms(2) u(1)] by simp_all
  obtain v where v: "m_active p" "dci_rv d = [v]" "v < mx" "ul_dci_typed ?k ?i d"
    using vec_typed_get[OF t(2) u(2)] u(3,4) by (auto simp: proc_typed_def)
  have v1: "v + 1 \<le> mx" using v(3) by (simp add: inc_le)
  let ?p = "p\<lparr>m_status := WAITING_FEEDBACK, m_timer := 0\<rparr>"
  let ?d = "(Dci_data (dci_rnti d) (dci_format d) (pt_sym (rr_point s) - dci_numSym d) (dci_numSym d) (dci_mcs d)
      (dci_tbSize d) [0] [v + 1] DATA (dci_bwpIndex d) (dci_tpc d))\<lparr>dci_rbgBitmask := dci_rbgBitmask d, dci_harqProcess := ?i\<rparr>"
  have "proc_typed mx ?k ?i (?p\<lparr>m_dciElement := Some ?d\<rparr>)" "proc_typed mx ?k ?i ?p"
    using v v1 u(4) by (simp_all add: proc_typed_def ul_dci_typed_def Dci_data_def)
  then have "ues_typed mx (AList.update ?k (ue\<lparr>ue_ulHarq := hv_Set (ue_ulHarq ue) ?i (?p\<lparr>m_dciElement := Some ?d\<rparr>),
        ue_ulMRBRetx := ucast (dci_numSym d) * ucast bw\<rparr>) (rr_ueMap s))"
      "ues_typed mx (AList.update ?k (ue\<lparr>ue_ulHarq := hv_Set (ue_ulHarq ue) ?i ?p\<rparr>) (rr_ueMap s))"
    using t vec_typed_Set by (auto intro!: ues_typed_update[OF assms(2)])
  then show ?thesis
    using assms(1) u v(2) by (auto simp: retx_ul_def Let_def ns_assert_def ns_abort_if_def split: if_splits)
qed

lemma retx_ul_loop_typed:
  "retx_ul_loop bw s n hs = Inr s' \<Longrightarrow> ues_typed mx (rr_ueMap s) \<Longrightarrow> ues_typed mx (rr_ueMap s')"
proof (induction hs arbitrary: s n)
  case (Cons h hs)
  then show ?case using retx_ul_typed by (auto simp: res_simps split: if_splits)
qed simp

lemma ScheduleUlHarq_typed:
  assumes "ScheduleUlHarq bw pt n m rt fb slot = Inr s" and "ues_typed mx m"
  shows "ues_typed mx (rr_ueMap s)"
  using assms retx_ul_loop_typed by (fastforce simp: ScheduleUlHarq_def res_simps)

subsection \<open>New data\<close>

lemma update_twice: "AList.update k y (AList.update k x m) = AList.update k y m"
  by (induction m) auto

lemma store_process_typed:
  assumes "store_process v d = Inr (v', d')" and "vec_typed mx k v"
    and "\<And>i. ul_dci_typed k i (d\<lparr>dci_harqProcess := i\<rparr>)" and "dci_rv d = [0]"
  shows "vec_typed mx k v'"
proof -
  obtain w i b p where w: "hv_Insert v 0 (HarqProcess True WAITING_FEEDBACK 0 d) = Inr (w, i, b)" "hv_Get w i = Inr p"
      "v' = hv_Set w i (p\<lparr>m_dciElement := Some (d\<lparr>dci_harqProcess := i\<rparr>)\<rparr>)"
    using assms(1) by (auto simp: store_process_def Let_def res_simps split: if_splits)
  have p: "map_of (hv_map w) i = Some p" using w(2) by (auto simp: hv_Get_def res_simps)
  have new: "proc_typed mx k i (q\<lparr>m_dciElement := Some (d\<lparr>dci_harqProcess := i\<rparr>)\<rparr>)"
    if "proc_typed mx k i q \<or> q = HarqProcess True WAITING_FEEDBACK 0 d" for q
    using that assms(3)[of i] assms(4)
    by (auto simp: proc_typed_def HarqProcess_def intro: le_less_trans)
  show ?thesis
  proof (cases "hv_map w = hv_map v")
    case True
    then show ?thesis using w(3) new[of p] vec_typed_get[OF assms(2), of i p] p vec_typed_Set[OF assms(2), of i]
      by (simp add: vec_typed_def hv_Set_def)
  next
    case False
    then have m: "hv_map w = AList.update i (HarqProcess True WAITING_FEEDBACK 0 d) (hv_map v)"
      using w(1) by (auto simp: hv_Insert_def Let_def hv_Set_def res_simps split: if_splits)
    then have "p = HarqProcess True WAITING_FEEDBACK 0 d" using p by (simp add: map_of_update)
    then have "hv_map v' = hv_map (hv_Set v i (p\<lparr>m_dciElement := Some (d\<lparr>dci_harqProcess := i\<rparr>)\<rparr>))"
      using w(3) m by (simp add: hv_Set_def update_twice)
    then show ?thesis using new[of p] \<open>p = _\<close> vec_typed_Set[OF assms(2), of i] by (simp add: vec_typed_def)
  qed
qed

lemma CreateUlDci_typed:
  assumes "CreateUlDci amc bw notched b pt ue n = Inr (Some d, pt')"
  shows "ul_dci_typed (ue_rnti ue) i (d\<lparr>dci_harqProcess := i\<rparr>) \<and> dci_rv d = [0]"
  using assms by (auto simp: CreateUlDci_def Let_def res_simps split_beta ul_dci_typed_def Dci_data_def split: if_splits)

text \<open>The entries of the map of active UEs.\<close>

definition entry_typed :: "u8 \<Rightarrow> 'p entry \<Rightarrow> bool" where
  "entry_typed mx e \<longleftrightarrow> vec_typed mx (ue_rnti (fst (fst e))) (ue_ulHarq (fst (fst e)))"

definition active_typed :: "u8 \<Rightarrow> 'p ActiveUeMap \<Rightarrow> bool" where
  "active_typed mx m \<longleftrightarrow> (\<forall>(b, es) \<in> set m. \<forall>e \<in> set es. entry_typed mx e)"

lemma place_ul_ue_typed:
  assumes "place_ul_ue pol amc c n s e = Inr (s', e')" and "entry_typed mx e"
  shows "entry_typed mx e'"
proof -
  obtain ue x buf where e: "e = ((ue, x), buf)" by (metis prod.exhaust)
  show ?thesis
  proof (cases "ue_ulRBG ue = 0")
    case True
    then show ?thesis using assms by (auto simp: e place_ul_ue_def)
  next
    case False
    then obtain od pt where d: "CreateUlDci amc (c_bw c) (c_ulNotched c) (c_bwpId c) (pl_point s) ue n = Inr (od, pt)"
      using assms(1) by (auto simp: e place_ul_ue_def res_simps)
    show ?thesis
    proof (cases od)
      case None
      then show ?thesis using assms False d by (auto simp: e place_ul_ue_def entry_typed_def ResetUlMetric_def)
    next
      case (Some d1)
      obtain v d2 m where r: "store_process (ue_ulHarq ue) d1 = Inr (v, d2)" "e' = ((ue\<lparr>ue_ulHarq := v, ue_ulLCG := m\<rparr>, x), buf)"
        using assms(1) False d Some by (auto simp: e place_ul_ue_def res_simps Let_def)
      then show ?thesis
        using store_process_typed[OF r(1)] CreateUlDci_typed[OF d[unfolded Some]] assms(2)
        by (auto simp: e entry_typed_def)
    qed
  qed
qed

lemma mapE_state_all:
  assumes "mapE_state f s xs = Inr (s', ys)" and "\<forall>x \<in> set xs. P x"
    and "\<And>s x s' y. f s x = Inr (s', y) \<Longrightarrow> P x \<Longrightarrow> Q y"
  shows "\<forall>y \<in> set ys. Q y"
  using assms(1,2)
proof (induction xs arbitrary: s ys)
  case (Cons x xs)
  then show ?case using assms(3) by (fastforce simp: res_simps)
qed simp

lemma place_ul_typed:
  assumes "place_ul pol amc c m pt slot active = Inr (u, pt', slot', active')" and "active_typed mx active"
  shows "active_typed mx active'"
proof -
  obtain z act where r: "mapE_state (place_ul_beam pol amc c m) (pt, slot, 0) active = Inr (z, act)"
      "active' = map (\<lambda>(b, ues). (b, map (\<lambda>((ue, x), buf). ((ResetUlSchedInfo ue, pol_ResetUlSchedInfo pol x), buf)) ues)) act"
    using assms(1) by (auto simp: place_ul_def Let_def res_simps)
  have "\<forall>y \<in> set act. \<forall>e \<in> set (snd y). entry_typed mx e"
  proof (rule mapE_state_all[OF r(1), of "\<lambda>x. \<forall>e \<in> set (snd x). entry_typed mx e"])
    show "\<forall>x \<in> set active. \<forall>e \<in> set (snd x). entry_typed mx e" using assms(2) by (auto simp: active_typed_def)
  next
    fix s x s' y
    assume a: "place_ul_beam pol amc c m s x = Inr (s', y)" "\<forall>e \<in> set (snd x). entry_typed mx e"
    obtain p0 sl us b ues where sx: "s = (p0, sl, us)" "x = (b, ues)" by (metis prod.exhaust)
    obtain n where n: "map_of m b = Some n" using a(1) by (auto simp: sx place_ul_beam_def res_simps)
    show "\<forall>e \<in> set (snd y). entry_typed mx e"
    proof (cases "n = 0")
      case True
      then show ?thesis using a n by (auto simp: sx place_ul_beam_def)
    next
      case False
      then obtain s1 ues1 where "mapE_state (place_ul_ue pol amc c n)
          \<lparr>pl_point = p0, pl_slot = sl, pl_assigned = False, pl_symbStartDci = [], pl_allocSym = 0\<rparr> ues = Inr (s1, ues1)"
          "snd y = ues1"
        using a(1) n by (auto simp: sx place_ul_beam_def res_simps split: if_splits)
      then show ?thesis
        using mapE_state_all[of "place_ul_ue pol amc c n" _ ues s1 ues1 "entry_typed mx" "entry_typed mx"] place_ul_ue_typed a(2)
        by (metis sx(2) snd_conv)
    qed
  qed
  then show ?thesis unfolding r(2) active_typed_def entry_typed_def ResetUlSchedInfo_def by fastforce
qed

lemma read_back_typed:
  assumes "statics vec = statics ues" and "\<forall>e \<in> set ues. entry_typed mx e"
  shows "\<forall>e \<in> set (read_back vec ues). entry_typed mx e"
proof -
  have typed: "vec_typed mx (ue_rnti (fst u)) (ue_ulHarq (fst u))" if "u \<in> fst ` set vec" for u
  proof -
    have "static u \<in># statics vec" using that by (auto simp: statics_def)
    then obtain z where "z \<in> set ues" "static (fst z) = static u" unfolding assms(1) by (auto simp: statics_def)
    then show ?thesis using assms(2) by (auto simp: entry_typed_def static_def)
  qed
  show ?thesis
  proof
    fix e
    assume "e \<in> set (read_back vec ues)"
    then obtain u b where e: "(u, b) \<in> set ues" "fst e = (case find_ue (ue_rnti (fst u)) vec of None \<Rightarrow> u | Some v \<Rightarrow> v)"
      by (auto simp: read_back_def)
    show "entry_typed mx e"
    proof (cases "find_ue (ue_rnti (fst u)) vec")
      case None
      then show ?thesis using e assms(2) by (fastforce simp: entry_typed_def)
    next
      case (Some v)
      then show ?thesis using e(2) typed[of v] find_ue_Some[OF Some] by (simp add: entry_typed_def)
    qed
  qed
qed

lemma read_back_all_typed:
  assumes "list_all2 (\<lambda>el el'. statics (snd el') = statics (snd el)) active assigned" and "active_typed mx active"
  shows "active_typed mx (read_back_all assigned active)"
  using assms
proof (induction rule: list_all2_induct)
  case (Cons el active el' assigned)
  obtain b ues b' vec where el: "el = (b, ues)" "el' = (b', vec)" by (metis prod.exhaust)
  have "\<forall>e \<in> set (read_back vec ues). entry_typed mx e"
    by (rule read_back_typed) (use Cons el in \<open>auto simp: active_typed_def\<close>)
  then show ?case using Cons by (auto simp: read_back_all_def active_typed_def el)
qed (simp add: read_back_all_def active_typed_def)

lemma DoScheduleUlData_typed:
  assumes "DoScheduleUlData pol amc c ind tm e mb eff pt n active slot = Some (Inr r)" and "active_typed mx active"
    and "static_policy pol"
  shows "active_typed mx (ur_active r)"
proof -
  let ?e = "SetProactiveBSR tm e"
  obtain m assigned mb' u pt' slot' act where d: "AssignULRBG pol ?e mb n active = Some (Inr (m, assigned, mb'))"
      "place_ul pol amc c m pt slot (read_back_all assigned active) = Inr (u, pt', slot', act)" "ur_active r = act"
    using assms(1) by (auto simp: DoScheduleUlData_def bindL_def Let_def split: option.splits sum.splits)
  then have "assign_ul_beams pol ?e m mb active = Some (Inr (assigned, mb'))"
    by (auto simp: AssignULRBG_def bindL_def split: option.splits sum.splits)
  from static_policy.assign_ul_beams_static[OF assms(3) this]
  have "list_all2 (\<lambda>el el'. statics (snd el') = statics (snd el)) active assigned" .
  then show ?thesis using place_ul_typed[OF d(2)] read_back_all_typed[OF _ assms(2)] d(3) by simp
qed

subsection \<open>The other parts of a slot\<close>

lemma DoScheduleUlSr_typed:
  assumes "DoScheduleUlSr mode ideal pt rs m = Inr m'" and "ues_typed mx m"
  shows "ues_typed mx m'"
proof -
  have s: "foldE (\<lambda>ueMap v.
        bindE (map_at v ueMap) (\<lambda>ue.
        bindE (each_group (\<lambda>ulLcg.
            if mode \<noteq> 4 then UpdateInfo ulLcg (12 + GetTotalSize ulLcg - GetReactiveTotalSize ulLcg)
            else UpdateInfo ulLcg (bsr_of ideal v)) (ue_ulLCG ue)) (\<lambda>m.
          Inr (AList.update v (ue\<lparr>ue_ulLCG := m\<rparr>) ueMap)))) m rs = Inr m'"
    using assms(1) by (simp add: DoScheduleUlSr_def res_simps)
  show ?thesis
    by (rule foldE_invariant[OF s, of "ues_typed mx"])
      (use assms(2) ues_typed_get in \<open>auto simp: res_simps intro!: ues_typed_update\<close>)
qed

lemma add_active_typed:
  assumes "active_typed mx a" and "entry_typed mx (u, n)"
  shows "active_typed mx (add_active_ue a u n)"
proof (cases "map_of a (ue_beamConfId (fst u))")
  case None
  then show ?thesis using assms by (auto simp: add_active_ue_def active_typed_def)
next
  case (Some es)
  then have "\<forall>e \<in> set es. entry_typed mx e" using assms(1) by (auto simp: active_typed_def dest!: map_of_SomeD)
  then show ?thesis
    using assms Some set_AList_update[of "ue_beamConfId (fst u)" "es @ [(u, n)]" a]
    by (fastforce simp: add_active_ue_def active_typed_def)
qed

lemma ComputeActiveUlUe_typed:
  assumes "ComputeActiveUlUe mode ideal x a tm m = Inr (a', tm', m')" and "ues_typed mx m" and "active_typed mx a"
  shows "active_typed mx a' \<and> ues_typed mx m'"
  using assms
proof (induction m arbitrary: a tm a' tm' m')
  case (Cons y m)
  obtain k ue where y: "y = (k, ue)" by (cases y)
  have t: "ue_rnti ue = k" "vec_typed mx k (ue_ulHarq ue)" "ues_typed mx m" using Cons.prems(2) by (simp_all add: y ues_typed_def)
  obtain tm1 g tot r where p: "plan_groups mode ideal (ue_rnti ue) tm (ue_ulLCG ue) = Inr (tm1, g, tot)"
      "ComputeActiveUlUe mode ideal x (if tot > 0 \<and> CanInsert (ue_ulHarq ue)
         then add_active_ue a (ue\<lparr>ue_ulLCG := g\<rparr>, x (ue_rnti (ue\<lparr>ue_ulLCG := g\<rparr>))) tot else a) tm1 m = Inr (a', tm', r)"
      "m' = (k, ue\<lparr>ue_ulLCG := g\<rparr>) # r"
    using Cons.prems(1) by (auto simp: y res_simps Let_def)
  have "active_typed mx (if tot > 0 \<and> CanInsert (ue_ulHarq ue)
         then add_active_ue a (ue\<lparr>ue_ulLCG := g\<rparr>, x (ue_rnti (ue\<lparr>ue_ulLCG := g\<rparr>))) tot else a)"
    using add_active_typed[OF Cons.prems(3)] Cons.prems(3) t by (simp add: entry_typed_def)
  then show ?case using Cons.IH[OF p(2) t(3)] p(3) t(1,2) by (simp add: ues_typed_def)
qed simp

lemma drop_allocated_typed:
  assumes "active_typed mx a"
  shows "active_typed mx (drop_allocated allocs a)"
proof -
  have d: "set (drop_first k es) \<subseteq> set es" for k and es :: "'p entry list" by (induction es) auto
  show ?thesis using assms
  proof (induction allocs arbitrary: a)
    case (Cons al allocs)
    have "active_typed mx (map (\<lambda>(b, es). (b, drop_first (dci_rnti (tti_dci al)) es)) a)"
      using Cons.prems d unfolding active_typed_def by fastforce
    from Cons.IH[OF this] show ?case by (simp add: drop_allocated_def)
  qed (simp add: drop_allocated_def)
qed

lemma foldl_preserves:
  "P g \<Longrightarrow> (\<And>g x. x \<in> set xs \<Longrightarrow> P g \<Longrightarrow> P (f g x)) \<Longrightarrow> P (foldl f g xs)"
  by (induction xs arbitrary: g) auto

lemma write_back_typed:
  assumes "active_typed mx a" and "ues_typed mx (s_ueMap (g_sched g))"
  shows "ues_typed mx (s_ueMap (g_sched (write_back a g))) \<and>
    s_enableHarqReTx (g_sched (write_back a g)) = s_enableHarqReTx (g_sched g) \<and>
    s_scheduleMode (g_sched (write_back a g)) = s_scheduleMode (g_sched g)"
proof -
  have t: "ue_rnti (fst (fst e)) = ue_rnti (fst (fst e)) \<and> vec_typed mx (ue_rnti (fst (fst e))) (ue_ulHarq (fst (fst e)))"
    if "e \<in> set (concat (map snd a))" for e
    using that assms(1) by (auto simp: active_typed_def entry_typed_def split_beta)
  show ?thesis
    unfolding write_back_def
    by (rule foldl_preserves[where P = "\<lambda>g'. ues_typed mx (s_ueMap (g_sched g')) \<and>
        s_enableHarqReTx (g_sched g') = s_enableHarqReTx (g_sched g) \<and> s_scheduleMode (g_sched g') = s_scheduleMode (g_sched g)"])
      (use t assms(2) in \<open>simp_all add: split_beta ues_typed_update\<close>)
qed

lemma ul_sounding_same:
  "ul_sounding E ty (s, r) = Inr (s', r') \<Longrightarrow> s_ueMap s' = s_ueMap s \<and> s_enableHarqReTx s' = s_enableHarqReTx s \<and>
     s_scheduleMode s' = s_scheduleMode s"
  by (cases r) (auto simp: ul_sounding_def Let_def res_simps split: if_splits)

lemma ul_retransmissions_typed:
  assumes "ul_retransmissions a fb (s, r) = Inr (s', r')" and "ues_typed mx (s_ueMap s)"
  shows "ues_typed mx (s_ueMap s') \<and> s_enableHarqReTx s' = s_enableHarqReTx s \<and> s_scheduleMode s' = s_scheduleMode s"
  using assms ScheduleUlHarq_typed by (cases r) (fastforce simp: ul_retransmissions_def res_simps split: if_splits)

lemma ul_requests_typed:
  assumes "ul_requests pt n s = Inr s'" and "ues_typed mx (s_ueMap s)"
  shows "ues_typed mx (s_ueMap s') \<and> s_enableHarqReTx s' = s_enableHarqReTx s \<and> s_scheduleMode s' = s_scheduleMode s"
  using assms DoScheduleUlSr_typed by (auto simp: ul_requests_def res_simps split: if_splits)

lemma account_ul_same:
  "account_ul enc d a al s = Inr s' \<Longrightarrow> s_ueMap s' = s_ueMap s \<and> s_enableHarqReTx s' = s_enableHarqReTx s \<and>
     s_scheduleMode s' = s_scheduleMode s"
  by (auto simp: account_ul_def Let_def res_simps)

subsection \<open>A whole slot\<close>

text \<open>Taking a run of the scheduler apart.\<close>

lemma bindL_run:
  "bindL x f = Some (Inr r) \<Longrightarrow> (\<And>y. x = Some (Inr y) \<Longrightarrow> f y = Some (Inr r) \<Longrightarrow> Q) \<Longrightarrow> Q"
  by (auto simp: bindL_def split: option.splits sum.splits)

lemma pair_run: "(case p of (a, b) \<Rightarrow> f a b) = Some r \<Longrightarrow> (\<And>a b. p = (a, b) \<Longrightarrow> f a b = Some r \<Longrightarrow> Q) \<Longrightarrow> Q"
  by (cases p) simp

lemma if_run:
  "(if c then x else y) = Some r \<Longrightarrow> (c \<Longrightarrow> x = Some r \<Longrightarrow> Q) \<Longrightarrow> (\<not> c \<Longrightarrow> y = Some r \<Longrightarrow> Q) \<Longrightarrow> Q"
  by (cases c) simp_all

lemmas run_elims = bindL_run pair_run if_run

definition typed_from :: "'r sched \<Rightarrow> 'r sched \<Rightarrow> bool" where
  "typed_from s s' \<longleftrightarrow> ues_typed (last_rv s) (s_ueMap s') \<and> s_enableHarqReTx s' = s_enableHarqReTx s \<and>
     s_scheduleMode s' = s_scheduleMode s"

lemma typed_parts:
  assumes "bindE (ul_sounding E ty (s, pt0, slot0, n0)) (ul_retransmissions hs fb) = Inr (s1, pt, slot, n)"
    and "ns_assert (pt_rbg pt = 0) (ul_requests pt n s1) = Inr s2"
    and "ComputeActiveUlUe (s_scheduleMode s2) (s_idealBsrMap s2) x [] (s_triggerMap s2) (s_ueMap s2) = Inr (act, tm, m)"
    and "typed_from s0 s"
  shows "typed_from s0 (s2\<lparr>s_triggerMap := tm, s_ueMap := m\<rparr>) \<and> active_typed (last_rv s0) (drop_allocated al act)"
proof -
  obtain s' rest where a: "ul_sounding E ty (s, pt0, slot0, n0) = Inr (s', rest)"
      "ul_retransmissions hs fb (s', rest) = Inr (s1, pt, slot, n)"
    using assms(1) by (auto simp: res_simps)
  have b: "ul_requests pt n s1 = Inr s2" using assms(2) by (simp add: ns_assert_def split: if_splits)
  have "typed_from s0 s'" using ul_sounding_same[OF a(1)] assms(4) by (simp add: typed_from_def)
  then have "typed_from s0 s1" using ul_retransmissions_typed[OF a(2), of "last_rv s0"] by (simp add: typed_from_def)
  then have t: "typed_from s0 s2" using ul_requests_typed[OF b, of "last_rv s0"] by (simp add: typed_from_def)
  have "active_typed (last_rv s0) act \<and> ues_typed (last_rv s0) m"
    by (rule ComputeActiveUlUe_typed[OF assms(3)]) (use t in \<open>simp_all add: typed_from_def active_typed_def\<close>)
  then show ?thesis using t by (simp add: typed_from_def drop_allocated_typed)
qed

lemma data_typed:
  assumes "DoScheduleUlData (ge_pol E) amc c ind tm (ofdma_of E g) mb eff pt n active slot = Some (Inr r)"
    and "typed_from s0 (g_sched g)" and "active_typed (last_rv s0) active" and "static_policy (ge_pol E)"
  shows "typed_from s0 (g_sched (write_back (ur_active r) g))"
  using write_back_typed[OF DoScheduleUlData_typed[OF assms(1,3,4)], of g] assms(2) by (simp add: typed_from_def)

lemma account_typed: "account_ul enc d a al s = Inr s' \<Longrightarrow> typed_from s0 s \<Longrightarrow> typed_from s0 s'"
  using account_ul_same[of enc d a al s s'] by (simp add: typed_from_def)

lemma DoScheduleUl_typed:
  assumes "DoScheduleUl E g fb sfn slot ty = Some (Inr (g', r))" and "typed_from s0 (g_sched g)"
    and "static_policy (ge_pol E)"
  shows "typed_from s0 (g_sched g')"
proof -
  have emplaced: "typed_from s0 (g_sched g\<lparr>s_ulAllocationMap := m\<rparr>)" for m
    using assms(2) by (simp add: typed_from_def)
  show ?thesis
    using assms(1) unfolding DoScheduleUl_def Let_def
    apply (elim run_elims; clarify)
     subgoal premises p
     proof -
       from typed_parts[OF p(6,7,8) emplaced] data_typed[OF p(1) _ _ assms(3)] account_typed[OF p(9)]
       show ?thesis by simp
     qed
    subgoal premises p
      using typed_parts[OF p(6,7,8) emplaced] account_typed[OF p(9)] by simp
    done
qed

lemma ScheduleUl_typed:
  assumes "ScheduleUl E g sfn ty fb = Some (Inr (g', dec))" and "typed_from s0 (g_sched g)"
    and "static_policy (ge_pol E)"
  shows "typed_from s0 (g_sched g')"
  using assms(1) DoScheduleUl_typed[OF _ assms(2,3)] unfolding ScheduleUl_def Let_def
  by (elim run_elims) auto

text \<open>
  C5. The HARQ processes of the uplink stay typed over a slot. Let every active process of every UE have an uplink data
  DCI with the UE's RNTI, the process's own id and exactly one stream, whose redundancy version has not passed the last
  one and has not reached it when the process is to be sent again. A trigger of an uplink slot that returns a decision,
  in whatever scheduling mode (the aggressive and the two-stage mode of BULLET included) and whatever the feedback, the
  scheduling requests and the policy (round robin, maximum rate or proportional fair) make of it, leaves all
  processes so: expiry, feedback, retransmissions, requests and new data never store a process under a wrong id or give
  it the DCI of another UE, of the downlink or of a control channel.
\<close>

theorem uplink_slot_keeps_types:
  assumes "\<And>lt vec. mset (srt lt vec) = mset vec"
    and "ofdma_subclass srt (ge_pol E)"
    and "ues_typed (last_rv (g_sched g)) (s_ueMap (g_sched g))"
    and "DoSchedUlTriggerReq E g sfn ty infos = Some (Inr (g', dec))"
  shows "ues_typed (last_rv (g_sched g')) (s_ueMap (g_sched g'))"
proof -
  obtain s fb where r: "ul_harq_phase (ge_env E) (g_sched g) infos = Inr (s, fb)"
      "ScheduleUl E (g\<lparr>g_sched := s\<rparr>) sfn ty fb = Some (Inr (g', dec))"
    using assms(4) unfolding DoSchedUlTriggerReq_def by (elim run_elims) auto
  note t = ul_harq_phase_typed[OF r(1) assms(3)]
  have "typed_from s (g_sched g')"
    by (rule ScheduleUl_typed[OF r(2) _ subclass_static[OF assms(1,2)]]) (use t in \<open>simp_all add: typed_from_def\<close>)
  then show ?thesis by (simp add: typed_from_def last_rv_def)
qed

definition demo_pair :: "(unit, pf) gnb_env" where
  "demo_pair = \<lparr>ge_env = demo_env, ge_pol = NrMacSchedulerOfdmaRR (\<lambda>_ _. 50) (\<lambda>_ n. 3 * n) sort_by,
     ge_ulAmc = (\<lambda>_ n. 3 * n), ge_sortHarq = (\<lambda>_ l. l), ge_nowMs = 0, ge_bwpId = 0, ge_enableBbr = False,
     ge_indeterminate = Num 0\<rparr>"

text \<open>A UE with one process that waits for feedback, which is a NACK.\<close>

definition demo_gnb :: "(unit, pf) gnb" where
  "demo_gnb = \<lparr>g_sched = demo_sched\<lparr>s_bandwidth := 2, s_enableSrsInUlSlots := False, s_ueMap := [(7, (demo_ue 7 9 0)\<lparr>
       ue_ulHarq := \<lparr>hv_map = [(0, (demo_again UL_DCI 0 2)\<lparr>m_status := WAITING_FEEDBACK\<rparr>)], m_maxSize = 1,
         m_usedSize = 1\<rparr>\<rparr>)]\<rparr>,
     g_extra = (\<lambda>_. NrMacSchedulerUeInfoPF (Num 1)), g_bufferResetTime = 0, g_timeWindow = 10, g_maxBuffer = 0, g_proactiveBSR = [],
     g_confidentBSR = [], g_spectralEfficiencyMap = []\<rparr>"

lemma demo_gnb_typed: "ues_typed (last_rv (g_sched demo_gnb)) (s_ueMap (g_sched demo_gnb))"
  by (simp add: ues_typed_def demo_gnb_def demo_sched_def last_rv_def vec_typed_def proc_typed_def demo_again_def
      HarqProcess_def ul_dci_typed_def demo_dci_def Dci_data_def demo_ue_def NrMacSchedulerUeInfo_def)


declare ctrl_loop.simps [code]

lemma demo_gnb_run:
  "case DoSchedUlTriggerReq demo_pair demo_gnb (SfnSf_default\<lparr>numerology := 0\<rparr>) SlotUL [demo_ul_nack 0] of
     Some (Inr (g', dec)) \<Rightarrow> map (dci_rv \<circ> tti_dci) (slot_varTtiAllocInfo (sd_slotAllocInfo dec)) = [[1], []]
   | _ \<Rightarrow> False"
  by code_simp

theorem uplink_slot_keeps_types_witness:
  "\<exists>g' dec. DoSchedUlTriggerReq demo_pair demo_gnb (SfnSf_default\<lparr>numerology := 0\<rparr>) SlotUL [demo_ul_nack 0] =
       Some (Inr (g', dec)) \<and>
     map (dci_rv \<circ> tti_dci) (slot_varTtiAllocInfo (sd_slotAllocInfo dec)) = [[1], []] \<and>
     ues_typed (last_rv (g_sched g')) (s_ueMap (g_sched g'))"
proof -
  obtain g' dec where r: "DoSchedUlTriggerReq demo_pair demo_gnb (SfnSf_default\<lparr>numerology := 0\<rparr>) SlotUL [demo_ul_nack 0] =
      Some (Inr (g', dec))"
      "map (dci_rv \<circ> tti_dci) (slot_varTtiAllocInfo (sd_slotAllocInfo dec)) = [[1], []]"
    using demo_gnb_run by (auto split: option.splits sum.splits)
  have a: "ofdma_subclass sort_by (ge_pol demo_pair)" by (simp add: demo_pair_def ofdma_subclassI)
  show ?thesis
    using uplink_slot_keeps_types[OF mset_sort_by a demo_gnb_typed r(1)] r by (intro exI conjI)
qed

end
