(* ===== verification/PfOrder.thy ===== *)
theory PfOrder
  imports OfdmaPf
begin

text \<open>
  The order of the proportional fair subclass: among UEs with the same potential throughput and fairness index the one in front
  of a sorted vector has the least average throughput, up to the rounding of the quotients.
\<close>

definition floored :: "rat \<Rightarrow> rat" where
  "floored x = (let least = round53 (1 / 10 ^ 9) in if least < x then x else least)"

text \<open>Values of a simulation: far from underflow and overflow.\<close>

definition moderate :: "rat \<Rightarrow> bool" where
  "moderate x \<longleftrightarrow> 1 / 2 ^ 400 \<le> x \<and> x \<le> 2 ^ 400"

lemma least_avg:
  "fl (1 / 10 ^ 9) = Num (round53 (1 / 10 ^ 9))" "moderate (round53 (1 / 10 ^ 9))" "round53 (1 / 10 ^ 9) \<le> 1"
proof -
  have "pow2 (- 1000) \<le> 1 / 10 ^ 9" by (simp add: pow2_def)
  from round53_err[OF this] have e: "\<bar>round53 (1 / 10 ^ 9) - 1 / 10 ^ 9\<bar> \<le> 1 / 10 ^ 9 / 2 ^ 53" .
  moreover have "1 / 10 ^ 9 / 2 ^ 53 \<le> (1 / 2 / 10 ^ 9 :: rat)" "1 / 2 ^ 31 + 1 / 2 / 10 ^ 9 \<le> (1 / 10 ^ 9 :: rat)"
    "1 / 10 ^ 9 + 1 / 2 / 10 ^ 9 \<le> (1 :: rat)" by simp_all
  ultimately have b: "1 / 2 ^ 31 \<le> round53 (1 / 10 ^ 9)" "round53 (1 / 10 ^ 9) \<le> 1" unfolding abs_le_iff by linarith+
  have "(1 :: rat) / 2 ^ 400 \<le> 1 / 2 ^ 31" by simp
  then show "moderate (round53 (1 / 10 ^ 9))" using b unfolding moderate_def by (meson order_trans one_le_power one_le_numeral)
  show "round53 (1 / 10 ^ 9) \<le> 1" by (rule b)
  have "(1 :: rat) < pow2 1024" by (simp add: pow2_def)
  then show "fl (1 / 10 ^ 9) = Num (round53 (1 / 10 ^ 9))" using b by (simp add: fl_def Let_def)
qed

lemma moderate_floored: "x \<le> 2 ^ 400 \<Longrightarrow> moderate (floored x)"
  using least_avg(2) by (auto simp: floored_def moderate_def Let_def)

lemma pf_metric_near:
  assumes "lm_pow lm p al = Num r" and "moderate r" and "avg \<le> 2 ^ 400"
  obtains m where "pf_metric lm p al (Num avg) = Num m" "\<bar>m - r / floored avg\<bar> \<le> r / floored avg / 2 ^ 53"
proof -
  have f: "moderate (floored avg)" using moderate_floored[OF assms(3)] .
  have pos: "0 < floored avg" using f less_le_trans[of 0 "1 / 2 ^ 400"] unfolding moderate_def by simp
  have "1 / 2 ^ 400 * (1 / 2 ^ 400) \<le> r * (1 / floored avg)"
    using assms(2) f pos by (intro mult_mono) (simp_all add: moderate_def divide_simps)
  moreover have "pow2 (- 1000) \<le> 1 / 2 ^ 400 * (1 / 2 ^ 400)" by (simp add: pow2_def)
  ultimately have lo: "pow2 (- 1000) \<le> r / floored avg" unfolding divide_inverse[of r] inverse_eq_divide by (rule order_trans[rotated])
  have "r * (1 / floored avg) \<le> 2 ^ 400 * 2 ^ 400"
    using assms(2) f pos by (intro mult_mono) (simp_all add: moderate_def divide_simps)
  moreover have "2 ^ 400 * 2 ^ 400 \<le> (2 ^ 1000 :: rat)" by simp
  ultimately have hi: "r / floored avg \<le> 2 ^ 1000" unfolding divide_inverse[of r] inverse_eq_divide by (rule order_trans)
  obtain m where "fl (r / floored avg) = Num m" "\<bar>m - r / floored avg\<bar> \<le> r / floored avg / 2 ^ 53"
    using fl_err[OF lo hi] .
  moreover have "pf_metric lm p al (Num avg) = fp_div (Num r) (Num (floored avg))"
    unfolding pf_metric_def Let_def least_avg(1) assms(1) floored_def fp_less.simps by (simp only: if_distrib[of Num])
  ultimately show thesis using that pos by simp
qed

text \<open>
  C6. Proportional fairness of the uplink order. Sort, UEs whose potential throughput has just
  been computed from their MCS. A UE with the MCS, the RBs per RBG and the fairness index of the one in front does not have a
  smaller average throughput, except by less than one part in \<open>2^51\<close>, averages below \<open>1E-9\<close> counting as \<open>1E-9\<close>:
  the next RBG goes to the UE that has had least.
\<close>

theorem pf_front_least_average:
  assumes perm: "mset ((CalculatePotentialTPutUl a amc v, b) # rest) = mset (map (\<lambda>(v, b). (CalculatePotentialTPutUl a amc v, b)) ues)"
    and sort: "sorted_wrt (\<lambda>a b. \<not> pf_CompareUeWeightsUl lm (snd (fst b)) (snd (fst a)))
      ((CalculatePotentialTPutUl a amc v, b) # rest)"
    and other: "(w, c) \<in> set ues"
    and same: "ue_ulMcs (fst w) = ue_ulMcs (fst v)" "ue_numRbPerRbg (fst w) = ue_numRbPerRbg (fst v)"
      "pf_alpha (snd w) = pf_alpha (snd v)"
    and pow: "lm_pow lm (tput (amc (ue_ulMcs (fst v)) (pt_rbg a * ue_numRbPerRbg (fst v))) (pt_sym a)) (pf_alpha (snd v)) = Num r"
    and r: "moderate r"
    and avgs: "pf_avgTputUl (snd v) = Num x" "x \<le> 2 ^ 400" "pf_avgTputUl (snd w) = Num y" "y \<le> 2 ^ 400"
  shows "floored x \<le> (1 + 1 / 2 ^ 51) * floored y"
proof -
  let ?g = "CalculatePotentialTPutUl a amc" and ?d = "1 / 2 ^ 53 :: rat"
  let ?p = "tput (amc (ue_ulMcs (fst v)) (pt_rbg a * ue_numRbPerRbg (fst v))) (pt_sym a)" and ?al = "pf_alpha (snd v)"
  obtain m n where m: "pf_metric lm ?p ?al (Num x) = Num m" "\<bar>m - r / floored x\<bar> \<le> r / floored x / 2 ^ 53"
    and n: "pf_metric lm ?p ?al (Num y) = Num n" "\<bar>n - r / floored y\<bar> \<le> r / floored y / 2 ^ 53"
    using pf_metric_near[OF pow r avgs(2)] pf_metric_near[OF pow r avgs(4)] by metis
  have "(?g w, c) \<in> set (map (\<lambda>(v, b). (?g v, b)) ues)" using other by force
  then have "(?g w, c) \<in> set ((?g v, b) # rest)" using mset_eq_setD[OF perm] by simp
  moreover have "\<forall>u \<in> set rest. \<not> pf_CompareUeWeightsUl lm (snd (fst u)) (snd (?g v))"
    using sort by simp
  moreover have "\<not> pf_CompareUeWeightsUl lm z z" for z
    by (cases "pf_metric lm (pf_potentialTputUl z) (pf_alpha z) (pf_avgTputUl z)") (simp_all add: pf_CompareUeWeightsUl_def)
  ultimately have "\<not> pf_CompareUeWeightsUl lm (snd (?g w)) (snd (?g v))" by auto
  then have nm: "n \<le> m"
    using m(1) n(1) avgs(1,3) same by (simp add: pf_CompareUeWeightsUl_def CalculatePotentialTPutUl_def split_beta)
  have pos: "0 < floored x" "0 < floored y" "0 < r"
    using moderate_floored[OF avgs(2)] moderate_floored[OF avgs(4)] r less_le_trans[of 0 "1 / 2 ^ 400 :: rat"]
    unfolding moderate_def by simp_all
  have "r / floored y * (1 - ?d) \<le> n" using n(2) by (simp add: algebra_simps abs_le_iff)
  also have "\<dots> \<le> r / floored x * (1 + ?d)" using nm m(2) by (simp add: algebra_simps abs_le_iff)
  finally have "(1 - ?d) * floored x \<le> (1 + ?d) * floored y" using pos by (simp add: field_simps)
  then have "(1 - ?d) * floored x * (1 + 2 * ?d) \<le> (1 + ?d) * floored y * (1 + 2 * ?d)" by (rule mult_right_mono) simp
  moreover have "floored x \<le> (1 - ?d) * (1 + 2 * ?d) * floored x" using pos by simp
  moreover have "(1 + ?d) * (1 + 2 * ?d) * floored y \<le> (1 + 1 / 2 ^ 51) * floored y"
    using pos by (intro mult_right_mono) simp_all
  ultimately show ?thesis by (simp only: mult_ac)
qed

definition demo_pf :: "u16 \<Rightarrow> rat \<Rightarrow> pf ue" where
  "demo_pf rnti avg = (demo_ue rnti 9 0, (NrMacSchedulerUeInfoPF (Num 1))\<lparr>pf_avgTputUl := Num avg\<rparr>)"

theorem pf_front_least_average_witness:
  "floored 4 \<le> (1 + 1 / 2 ^ 51) * floored 8 \<and>
   pf_CompareUeWeightsUl demo_libm (snd (CalculatePotentialTPutUl \<lparr>pt_rbg = 144, pt_sym = 12\<rparr> (\<lambda>_ _. 24) (demo_pf 7 4)))
     (snd (CalculatePotentialTPutUl \<lparr>pt_rbg = 144, pt_sym = 12\<rparr> (\<lambda>_ _. 24) (demo_pf 8 8)))"
proof -
  let ?a = "\<lparr>pt_rbg = 144 :: u32, pt_sym = 12 :: u8\<rparr>" and ?amc = "\<lambda>_ _. 24 :: u32"
  let ?g = "CalculatePotentialTPutUl ?a ?amc"
  have t: "tput 24 12 = Num 2" by (simp add: tput_def fp_of_int_exact)
  have least: "round53 (1 / 10 ^ 9) < 2" using least_avg(3) by simp
  have met: "pf_metric demo_libm (Num 2) (Num 1) (Num avg) = fl (2 / avg)" if "2 \<le> avg" for avg
    unfolding pf_metric_def Let_def least_avg(1) using that least by (simp add: demo_libm_def)
  have cmp: "pf_CompareUeWeightsUl demo_libm (snd (?g (demo_pf i x))) (snd (?g (demo_pf j y))) \<longleftrightarrow> fp_less (fl (2 / y)) (fl (2 / x))"
    if "2 \<le> x" "2 \<le> y" for i j x y
    using that by (simp add: pf_CompareUeWeightsUl_def CalculatePotentialTPutUl_def demo_pf_def NrMacSchedulerUeInfoPF_def t met)
  have q: "fl (1 / 2) = Num (1 / 2)" "fl (1 / 4) = Num (1 / 4)" using fl_dyadic[of 1 1] fl_dyadic[of 1 2] by simp_all
  have "floored 4 \<le> (1 + 1 / 2 ^ 51) * floored 8"
  proof (rule pf_front_least_average[where ues = "[(demo_pf 7 4, 100), (demo_pf 8 8, 100)]" and rest = "[(?g (demo_pf 8 8), 100)]"
        and a = ?a and amc = ?amc and v = "demo_pf 7 4" and w = "demo_pf 8 8" and lm = demo_libm and r = 2 and b = 100 and c = 100])
    show "sorted_wrt (\<lambda>a b. \<not> pf_CompareUeWeightsUl demo_libm (snd (fst b)) (snd (fst a)))
        [(?g (demo_pf 7 4), 100), (?g (demo_pf 8 8), 100)]" by (simp add: cmp q)
    show "moderate 2" by (simp add: moderate_def)
  qed (simp_all add: demo_pf_def demo_ue_def NrMacSchedulerUeInfo_def NrMacSchedulerUeInfoPF_def t demo_libm_def)
  then show ?thesis by (simp add: cmp q)
qed

end
