(* ===== verification/GnbMac.thy ===== *)
theory GnbMac
  imports UeMac SchedSlot
begin

text \<open>
  The MAC of the gNB, \<open>contrib/nr/model/nr-gnb-mac.cc\<close>: it collects reports, requests and feedback and hands them to the
  scheduler in every slot, gives the RLC its opportunities, keeps what may have to be sent again, and sorts what comes
  in. \<open>'r\<close> is the state of a RLC entity with its handler \<open>notify\<close>, as in \<open>UeMac\<close>; \<open>'a\<close> is the state of
  the RRC, which chooses RNTIs. Calls to the scheduler, the PHY, the RLC and the bandwidth part manager are messages, in
  the order in which they are made. An \<open>unordered_map\<close> is a list in the order of its iteration, which C++ leaves open.
  Trace callbacks and output are left out, the failures of computing a trace are not.
\<close>

subsection \<open>State\<close>

datatype gnb_msg =
    SchedDlCqiInfoReq sfnsf "DlCqiInfo list"
  | SchedDlRachInfoReq "RachListElement list"
  | SchedDlTriggerReq sfnsf LteNrTddSlotType "DlHarqInfo list"
  | SchedUlCqiInfoReq UlCqiReport
  | SchedUlSrInfoReq sfnsf "u16 list"
  | SchedUlMacCtrlInfoReq sfnsf "MacCeElement list"
  | SchedUlTriggerReq sfnsf LteNrTddSlotType "UlHarqInfo list"
  | SchedDlRlcBufferReq rlc_buffer_req
  | CschedCellConfigReq u16 u16
  | CschedUeConfigReq u16 BeamConfId
  | CschedUeReleaseReq u16
  | CschedLcConfigReq u16 "lc_config list"
  | CschedLcReleaseReq u16 "u8 list"
  | UlReceiveSr u16 u8
  | UlReceiveMacCe MacCeElement u8
  | PhySendMacPdu mac_packet sfnsf u8 u8
  | PhySetSlotAllocInfo SlotAllocInfo
  | PhySendRar "(u8 \<times> u16) list"
  | RlcReceivePdu u16 u8 bytes

record HarqProcessInfoSingleStream =
  hs_pktBurst :: "mac_packet list"
  hs_lcidList :: "u8 list"

record NrMacPduInfo =
  pi_sfnSf :: sfnsf
  pi_dci :: dci
  pi_used :: u32
  pi_maxBytes :: u32

text \<open>What the PHY answers. It looks the beam of a UE up by the lower eight bits of its RNTI.\<close>

record gnb_phy =
  gp_bwpId :: u16
  gp_rbNum :: u32
  gp_beamConfId :: "u8 \<Rightarrow> BeamConfId"

record ('r, 'a) gnb_mac =
  gm_numRbPerRbg :: u32
  gm_numHarqProcess :: u8
  gm_macPduMap :: "(u32 \<times> NrMacPduInfo) list"
  gm_dlCqiReceived :: "DlCqiInfo list"
  gm_ulCqiReceived :: "UlCqiReport list"
  gm_ulCeReceived :: "MacCeElement list"
  gm_receivedRachPreambleCount :: "(u8 \<times> u32) list"
  gm_rlcAttached :: "(u16 \<times> (u8 \<times> 'r) list) list"
  gm_dlHarqInfoReceived :: "DlHarqInfo list"
  gm_ulHarqInfoReceived :: "UlHarqInfo list"
  gm_miDlHarqProcessesPackets :: "(u16 \<times> HarqProcessInfoSingleStream list list) list"
  gm_srRntiList :: "u16 list"
  gm_rapIdRntiMap :: "(u8 \<times> u32) list"
  gm_bandwidthInRbg :: u16
  gm_currentSlot :: sfnsf
  gm_rrc :: 'a
  gm_out :: "gnb_msg list"

text \<open>\<open>m_numRbPerRbg\<close> is an \<open>int32_t\<close> that is -1 until it is set, and read as a \<open>uint32_t\<close>.\<close>

definition NrGnbMac :: "'a \<Rightarrow> ('r, 'a) gnb_mac" where
  "NrGnbMac rrc = \<lparr>gm_numRbPerRbg = - 1, gm_numHarqProcess = 20, gm_macPduMap = [], gm_dlCqiReceived = [],
     gm_ulCqiReceived = [], gm_ulCeReceived = [], gm_receivedRachPreambleCount = [], gm_rlcAttached = [],
     gm_dlHarqInfoReceived = [], gm_ulHarqInfoReceived = [], gm_miDlHarqProcessesPackets = [], gm_srRntiList = [],
     gm_rapIdRntiMap = [], gm_bandwidthInRbg = 0, gm_currentSlot = SfnSf_default, gm_rrc = rrc, gm_out = []\<rparr>"

definition emit :: "gnb_msg \<Rightarrow> ('r, 'a) gnb_mac \<Rightarrow> ('r, 'a) gnb_mac" where
  "emit m s = s\<lparr>gm_out := gm_out s @ [m]\<rparr>"

definition gnb_SetNumRbPerRbg :: "('r, 'a) gnb_mac \<Rightarrow> u32 \<Rightarrow> ('r, 'a) gnb_mac res" where
  "gnb_SetNumRbPerRbg s rbgSize = ns_abort_if (gm_numRbPerRbg s \<noteq> - 1) (Inr (s\<lparr>gm_numRbPerRbg := rbgSize\<rparr>))"

definition gnb_SetNumHarqProcess :: "('r, 'a) gnb_mac \<Rightarrow> u8 \<Rightarrow> ('r, 'a) gnb_mac" where
  "gnb_SetNumHarqProcess s n = s\<lparr>gm_numHarqProcess := n\<rparr>"

definition SetCurrentSfn :: "('r, 'a) gnb_mac \<Rightarrow> sfnsf \<Rightarrow> ('r, 'a) gnb_mac" where
  "SetCurrentSfn s sfn = s\<lparr>gm_currentSlot := sfn\<rparr>"

subsection \<open>What comes in\<close>

text \<open>The key of the map of preambles is a \<open>uint8_t\<close>.\<close>

definition ReceiveRachPreamble :: "('r, 'a) gnb_mac \<Rightarrow> u32 \<Rightarrow> ('r, 'a) gnb_mac" where
  "ReceiveRachPreamble s raId =
     (let k = ucast raId :: u8; n = (case map_of (gm_receivedRachPreambleCount s) k of None \<Rightarrow> 0 | Some n \<Rightarrow> n) in
      s\<lparr>gm_receivedRachPreambleCount := AList.update k (n + 1) (gm_receivedRachPreambleCount s)\<rparr>)"

definition ReceiveBsrMessage :: "gnb_phy \<Rightarrow> ('r, 'a) gnb_mac \<Rightarrow> MacCeElement \<Rightarrow> ('r, 'a) gnb_mac" where
  "ReceiveBsrMessage phy s bsr = emit (UlReceiveMacCe bsr (ucast (gp_bwpId phy))) s"

definition DoReportMacCeToScheduler :: "('r, 'a) gnb_mac \<Rightarrow> MacCeElement \<Rightarrow> ('r, 'a) gnb_mac" where
  "DoReportMacCeToScheduler s bsr = s\<lparr>gm_ulCeReceived := gm_ulCeReceived s @ [bsr]\<rparr>"

definition DoReportSrToScheduler :: "('r, 'a) gnb_mac \<Rightarrow> u16 \<Rightarrow> ('r, 'a) gnb_mac" where
  "DoReportSrToScheduler s rnti = s\<lparr>gm_srRntiList := gm_srRntiList s @ [rnti]\<rparr>"

text \<open>The first byte tells a control element from data. A channel that is not found is dereferenced, unless nothing is left.\<close>

definition gnb_DoReceivePhyPdu :: "gnb_phy \<Rightarrow> ('r, 'a) gnb_mac \<Rightarrow> mac_packet \<Rightarrow> ('r, 'a) gnb_mac res" where
  "gnb_DoReceivePhyPdu phy s p =
     (let rnti = bt_rnti (mp_tag p) in
      case map_of (gm_rlcAttached s) rnti of
        None \<Rightarrow> Inl AssertFailed
      | Some lcs \<Rightarrow>
          bindE (fs_Deserialize (mp_bytes p)) (\<lambda>(lcId, _).
          if lcId = SHORT_BSR then
            bindE (take_header bsr_Deserialize (mp_bytes p)) (\<lambda>(b, _).
              Inr (ReceiveBsrMessage phy s \<lparr>ce_rnti = rnti, ce_type = BSR,
                ce_bufferStatus = [bufferSizeLevel_0 b, bufferSizeLevel_1 b, bufferSizeLevel_2 b, bufferSizeLevel_3 b]\<rparr>))
          else
            bindE (take_header vs_Deserialize (mp_bytes p)) (\<lambda>(header, bs).
              if GetSize bs > 0 then
                bindE (map_deref (vs_lcid header) lcs) (\<lambda>_. Inr (emit (RlcReceivePdu rnti (vs_lcid header) bs) s))
              else Inr s)))"

definition DoUlCqiReport :: "('r, 'a) gnb_mac \<Rightarrow> UlCqiReport \<Rightarrow> ('r, 'a) gnb_mac" where
  "DoUlCqiReport s ulcqi = s\<lparr>gm_ulCqiReceived := gm_ulCqiReceived s @ [ulcqi]\<rparr>"

definition DoUlHarqFeedback :: "('r, 'a) gnb_mac \<Rightarrow> UlHarqInfo \<Rightarrow> ('r, 'a) gnb_mac" where
  "DoUlHarqFeedback s params = s\<lparr>gm_ulHarqInfoReceived := gm_ulHarqInfoReceived s @ [params]\<rparr>"

text \<open>The stream of a process, and a change of it.\<close>

definition stream_at :: "HarqProcessInfoSingleStream list list \<Rightarrow> u8 \<Rightarrow> nat \<Rightarrow> HarqProcessInfoSingleStream res" where
  "stream_at buf i k = bindE (vec_at buf (unat i)) (\<lambda>streams. vec_at streams k)"

definition set_stream :: "HarqProcessInfoSingleStream list list \<Rightarrow> u8 \<Rightarrow> nat \<Rightarrow> HarqProcessInfoSingleStream \<Rightarrow>
    HarqProcessInfoSingleStream list list" where
  "set_stream buf i k x = buf[unat i := (buf ! unat i)[k := x]]"

definition ack_stream :: "u8 \<Rightarrow> HarqProcessInfoSingleStream list list \<Rightarrow> nat \<times> HarqStatus \<Rightarrow>
    HarqProcessInfoSingleStream list list res" where
  "ack_stream i buf = (\<lambda>(k, st).
     if st = ACK then bindE (stream_at buf i k) (\<lambda>x. Inr (set_stream buf i k (x\<lparr>hs_pktBurst := []\<rparr>)))
     else Inr buf)"

definition DoDlHarqFeedback :: "('r, 'a) gnb_mac \<Rightarrow> DlHarqInfo \<Rightarrow> ('r, 'a) gnb_mac res" where
  "DoDlHarqFeedback s params =
     (case map_of (gm_miDlHarqProcessesPackets s) (dlh_rnti params) of
        None \<Rightarrow> Inl AssertFailed
      | Some buf \<Rightarrow>
          bindE (foldE (ack_stream (dlh_harqProcessId params)) buf (List.enumerate 0 (dlh_harqStatus params))) (\<lambda>buf.
          Inr (s\<lparr>gm_miDlHarqProcessesPackets := AList.update (dlh_rnti params) buf (gm_miDlHarqProcessesPackets s),
                 gm_dlHarqInfoReceived := gm_dlHarqInfoReceived s @ [params]\<rparr>)))"

datatype gnb_control =
    SrMessage u16
  | DlCqiMessage DlCqiInfo
  | DlHarqFeedbackMessage DlHarqInfo
  | UnexpectedMessage

fun gnb_DoReceiveControlMessage :: "gnb_phy \<Rightarrow> ('r, 'a) gnb_mac \<Rightarrow> gnb_control \<Rightarrow> ('r, 'a) gnb_mac res" where
  "gnb_DoReceiveControlMessage phy s (SrMessage rnti) = Inr (emit (UlReceiveSr rnti (ucast (gp_bwpId phy))) s)"
| "gnb_DoReceiveControlMessage phy s (DlCqiMessage cqi) =
     ns_assert (dci_cqi_rnti cqi \<noteq> 0) (Inr (s\<lparr>gm_dlCqiReceived := gm_dlCqiReceived s @ [cqi]\<rparr>))"
| "gnb_DoReceiveControlMessage phy s (DlHarqFeedbackMessage h) = DoDlHarqFeedback s h"
| "gnb_DoReceiveControlMessage phy s UnexpectedMessage = Inr s"

subsection \<open>Slots\<close>

text \<open>Each preamble of the slot gets a RNTI from the RRC. The key of the map from RNTI to preamble is a \<open>uint8_t\<close>.\<close>

definition assign_rntis :: "('a \<Rightarrow> u16 \<times> 'a) \<Rightarrow> ('r, 'a) gnb_mac \<Rightarrow> RachListElement list \<times> ('r, 'a) gnb_mac" where
  "assign_rntis alloc s =
     foldl (\<lambda>(rachs, s) (raId, _).
       let (rnti, rrc) = alloc (gm_rrc s) in
       (rachs @ [\<lparr>rach_rnti = rnti, rach_estimatedSize = 144\<rparr>],
        s\<lparr>gm_rrc := rrc, gm_rapIdRntiMap := map_emplace (ucast rnti) (ucast raId) (gm_rapIdRntiMap s)\<rparr>))
       ([], s) (gm_receivedRachPreambleCount s)"

definition DoSlotDlIndication :: "('a \<Rightarrow> u16 \<times> 'a) \<Rightarrow> gnb_phy \<Rightarrow> ('r, 'a) gnb_mac \<Rightarrow> sfnsf \<Rightarrow> LteNrTddSlotType \<Rightarrow>
    ('r, 'a) gnb_mac" where
  "DoSlotDlIndication alloc phy s sfn ty =
     (let s = (emit (SchedDlCqiInfoReq sfn (gm_dlCqiReceived s)) s)\<lparr>gm_dlCqiReceived := []\<rparr>;
          s = (if gm_receivedRachPreambleCount s \<noteq> [] then
                 (let (rachs, s) = assign_rntis alloc s in
                  emit (SchedDlRachInfoReq rachs) (s\<lparr>gm_receivedRachPreambleCount := []\<rparr>))
               else s);
          infos = gm_dlHarqInfoReceived s;
          s = foldl (\<lambda>s (rnti, _). emit (CschedUeConfigReq rnti (gp_beamConfId phy (ucast rnti))) s)
                (s\<lparr>gm_dlHarqInfoReceived := []\<rparr>) (gm_rlcAttached s) in
      emit (SchedDlTriggerReq sfn ty infos) s)"

definition DoSlotUlIndication :: "('r, 'a) gnb_mac \<Rightarrow> sfnsf \<Rightarrow> LteNrTddSlotType \<Rightarrow> ('r, 'a) gnb_mac" where
  "DoSlotUlIndication s sfn ty =
     (let s = (foldl (\<lambda>s cqi. emit (SchedUlCqiInfoReq cqi) s) s (gm_ulCqiReceived s))\<lparr>gm_ulCqiReceived := []\<rparr>;
          s = emit (SchedUlSrInfoReq (gm_currentSlot s) (gm_srRntiList s)) (s\<lparr>gm_srRntiList := []\<rparr>);
          s = (if gm_ulCeReceived s \<noteq> [] then
                 emit (SchedUlMacCtrlInfoReq sfn (gm_ulCeReceived s)) (s\<lparr>gm_ulCeReceived := []\<rparr>)
               else s) in
      emit (SchedUlTriggerReq sfn ty (gm_ulHarqInfoReceived s)) (s\<lparr>gm_ulHarqInfoReceived := []\<rparr>))"

subsection \<open>Transmission\<close>

definition tb_map_key :: "u16 \<Rightarrow> u8 \<Rightarrow> u32" where
  "tb_map_key rnti tbUid = push_bit 8 (ucast rnti) OR ucast tbUid"

definition gnb_DoReportBufferStatus :: "('r, 'a) gnb_mac \<Rightarrow> ReportBufferStatusParameters \<Rightarrow> ('r, 'a) gnb_mac" where
  "gnb_DoReportBufferStatus s params =
     emit (SchedDlRlcBufferReq \<lparr>rbr_rnti = rb_rnti params, rbr_lcId = rb_lcid params, rbr_txQueue = rb_txQueueSize params,
       rbr_txHolDelay = rb_txQueueHolDelay params, rbr_retxQueue = rb_retxQueueSize params,
       rbr_retxHolDelay = rb_retxQueueHolDelay params, rbr_statusPdu = rb_statusPduSize params\<rparr>) s"

definition gnb_DoTransmitPdu :: "('r, 'a) gnb_mac \<Rightarrow> TransmitPduParameters \<Rightarrow> ('r, 'a) gnb_mac res" where
  "gnb_DoTransmitPdu s params =
     (let key = tb_map_key (tp_rnti params) (tp_harqProcessId params) in
      case map_of (gm_macPduMap s) key of
        None \<Rightarrow> Inl FatalError
      | Some info \<Rightarrow>
          bindE (vs_SetLcId \<lparr>vs_lcid = 0, vs_size = 0\<rparr> (tp_lcid params)) (\<lambda>header.
          let header = header\<lparr>vs_size := ucast (GetSize (tp_pdu params))\<rparr>;
              pdu = \<lparr>mp_bytes = vs_Serialize header @ tp_pdu params,
                     mp_tag = \<lparr>bt_rnti = tp_rnti params, bt_lcid = tp_lcid params, bt_layer = tp_layer params\<rparr>\<rparr> in
          bindE (map_deref (tp_rnti params) (gm_miDlHarqProcessesPackets s)) (\<lambda>buf.
          bindE (stream_at buf (tp_harqProcessId params) (unat (tp_layer params))) (\<lambda>x.
          let buf = set_stream buf (tp_harqProcessId params) (unat (tp_layer params))
                      (x\<lparr>hs_pktBurst := hs_pktBurst x @ [pdu]\<rparr>);
              info = info\<lparr>pi_used := pi_used info + GetSize (mp_bytes pdu)\<rparr> in
          ns_assert (pi_used info \<le> pi_maxBytes info)
            (Inr (emit (PhySendMacPdu pdu (pi_sfnSf info) (dci_symStart (pi_dci info)) (tp_layer params))
              (s\<lparr>gm_miDlHarqProcessesPackets := AList.update (tp_rnti params) buf (gm_miDlHarqProcessesPackets s),
                 gm_macPduMap := AList.update key info (gm_macPduMap s)\<rparr>)))))))"

definition gnb_rlc_calls :: "('r, 'a) gnb_mac \<Rightarrow> rlc_call list \<Rightarrow> ('r, 'a) gnb_mac res" where
  "gnb_rlc_calls = foldE (\<lambda>s c. case c of TransmitPdu p \<Rightarrow> gnb_DoTransmitPdu s p
                                       | ReportBufferStatus r \<Rightarrow> Inr (gnb_DoReportBufferStatus s r))"

definition SendRar :: "('r, 'a) gnb_mac \<Rightarrow> u16 list \<Rightarrow> ('r, 'a) gnb_mac res" where
  "SendRar s rarList =
     bindE (foldE (\<lambda>rars rnti. case map_of (gm_rapIdRntiMap s) (ucast rnti) of
              None \<Rightarrow> Inl Aborted | Some rapId \<Rightarrow> Inr (rars @ [(ucast rapId, rnti)])) [] rarList) (\<lambda>rars.
     Inr (if rarList \<noteq> [] then (emit (PhySendRar rars) s)\<lparr>gm_rapIdRntiMap := []\<rparr> else s))"

text \<open>New data on any stream empties the buffers of all streams and opens an entry for the transport block.\<close>

fun open_block :: "sfnsf \<Rightarrow> dci \<Rightarrow> ('r, 'a) gnb_mac \<Rightarrow> nat list \<Rightarrow> (('r, 'a) gnb_mac \<times> bool) res" where
  "open_block sfn d s [] = Inr (s, False)"
| "open_block sfn d s (k # ks) =
     bindE (vec_at (dci_ndi d) k) (\<lambda>ndi.
     if ndi = 1 then
       bindE (vec_at (dci_tbSize d) k) (\<lambda>tbs.
       ns_assert (tbs > 0)
       (bindE (map_deref (dci_rnti d) (gm_miDlHarqProcessesPackets s)) (\<lambda>buf.
        bindE (vec_at buf (unat (dci_harqProcess d))) (\<lambda>streams.
        let buf = buf[unat (dci_harqProcess d) := map (\<lambda>_. \<lparr>hs_pktBurst = [], hs_lcidList = []\<rparr>) streams];
            key = tb_map_key (dci_rnti d) (dci_harqProcess d);
            s = s\<lparr>gm_miDlHarqProcessesPackets := AList.update (dci_rnti d) buf (gm_miDlHarqProcessesPackets s)\<rparr> in
        if map_of (gm_macPduMap s) key \<noteq> None then Inl FatalError
        else Inr (s\<lparr>gm_macPduMap := gm_macPduMap s @
               [(key, \<lparr>pi_sfnSf = sfn, pi_dci = d, pi_used = 0, pi_maxBytes = sum_list (dci_tbSize d)\<rparr>)]\<rparr>, True)))))
     else open_block sfn d s ks)"

definition serve_stream :: "'r notify \<Rightarrow> gnb_phy \<Rightarrow> sfnsf \<Rightarrow> dci \<Rightarrow> ('r, 'a) gnb_mac \<Rightarrow> nat \<times> RlcPduInfo \<Rightarrow>
    ('r, 'a) gnb_mac res" where
  "serve_stream notify phy sfn d s = (\<lambda>(k, pdu).
     let rnti = dci_rnti d; tbUid = dci_harqProcess d in
     bindE (vec_at (dci_ndi d) k) (\<lambda>ndi.
     if ndi = 1 then
       bindE (map_deref rnti (gm_rlcAttached s)) (\<lambda>lcs.
       case map_of lcs (pdu_lcid pdu) of
         None \<Rightarrow> Inl AssertFailed
       | Some r \<Rightarrow>
           bindE (notify r \<lparr>to_bytes = pdu_size pdu, to_layer = of_nat k, to_harqId = tbUid,
                    to_componentCarrierId = ucast (gp_bwpId phy), to_rnti = rnti, to_lcid = pdu_lcid pdu\<rparr>) (\<lambda>(r, calls).
           bindE (gnb_rlc_calls (s\<lparr>gm_rlcAttached := AList.update rnti (AList.update (pdu_lcid pdu) r lcs) (gm_rlcAttached s)\<rparr>)
                    calls) (\<lambda>s.
           bindE (map_deref rnti (gm_miDlHarqProcessesPackets s)) (\<lambda>buf.
           bindE (stream_at buf tbUid k) (\<lambda>x.
             Inr (s\<lparr>gm_miDlHarqProcessesPackets := AList.update rnti
                     (set_stream buf tbUid k (x\<lparr>hs_lcidList := hs_lcidList x @ [pdu_lcid pdu]\<rparr>))
                     (gm_miDlHarqProcessesPackets s)\<rparr>))))))
     else
       bindE (vec_at (dci_tbSize d) k) (\<lambda>tbs.
       if tbs > 0 then
         bindE (map_deref rnti (gm_miDlHarqProcessesPackets s)) (\<lambda>buf.
         bindE (stream_at buf tbUid k) (\<lambda>x.
           Inr (foldl (\<lambda>s pkt. emit (PhySendMacPdu pkt sfn (dci_symStart d) (of_nat k)) s) s (hs_pktBurst x))))
       else Inr s)))"

text \<open>The number of streams of a channel is an \<open>uint8_t\<close>.\<close>

definition streams_of :: "RlcPduInfo list \<Rightarrow> (nat \<times> RlcPduInfo) list" where
  "streams_of l = List.enumerate 0 (take (unat (of_nat (length l) :: u8)) l)"

definition trace_info :: "dci \<Rightarrow> unit res" where
  "trace_info d = foldE (\<lambda>_ k. bindE (vec_at (dci_mcs d) k) (\<lambda>_. bindE (vec_at (dci_ndi d) k) (\<lambda>_.
     bindE (vec_at (dci_rv d) k) (\<lambda>_. Inr ())))) () [0..<length (dci_tbSize d)]"

definition dl_allocation :: "'r notify \<Rightarrow> gnb_phy \<Rightarrow> sfnsf \<Rightarrow> ('r, 'a) gnb_mac \<Rightarrow> VarTtiAllocInfo \<Rightarrow> ('r, 'a) gnb_mac res" where
  "dl_allocation notify phy sfn s alloc =
     (let d = tti_dci alloc in
      ns_abort_if (map_of (gm_rlcAttached s) (dci_rnti d) = None)
      (ns_assert (map_of (gm_miDlHarqProcessesPackets s) (dci_rnti d) \<noteq> None)
      (bindE (open_block sfn d s [0..<length (dci_ndi d)]) (\<lambda>(s, opened).
       bindE (foldE (serve_stream notify phy sfn d) s (concat (map streams_of (tti_rlcPduInfo alloc)))) (\<lambda>s.
       let s = (if opened then s\<lparr>gm_macPduMap := AList.delete (tb_map_key (dci_rnti d) (dci_harqProcess d)) (gm_macPduMap s)\<rparr>
                else s) in
       bindE (trace_info d) (\<lambda>_. Inr s))))))"

definition DoSchedConfigIndication :: "'r notify \<Rightarrow> (VarTtiAllocInfo list \<Rightarrow> VarTtiAllocInfo list) \<Rightarrow> gnb_phy \<Rightarrow>
    ('r, 'a) gnb_mac \<Rightarrow> slot_decision \<Rightarrow> ('r, 'a) gnb_mac res" where
  "DoSchedConfigIndication notify srt phy s ind =
     (let slot = sd_slotAllocInfo ind; sfn = slot_sfnSf slot in
      ns_assert (numerology sfn = numerology (gm_currentSlot s))
      (let allocs = srt (slot_varTtiAllocInfo slot) in
       bindE (SendRar (emit (PhySetSlotAllocInfo (slot\<lparr>slot_varTtiAllocInfo := allocs\<rparr>)) s) (sd_buildRarList ind)) (\<lambda>s.
       foldE (\<lambda>s alloc.
         let d = tti_dci alloc in
         if dci_type d \<noteq> CTRL \<and> dci_format d = DL_DCI then dl_allocation notify phy sfn s alloc
         else if dci_type d \<noteq> CTRL \<and> dci_type d \<noteq> SRS \<and> dci_format d = UL_DCI then
           bindE (trace_info d) (\<lambda>_. Inr s)
         else Inr s) s allocs)))"

subsection \<open>Configuration\<close>

definition DoConfigureMac :: "gnb_phy \<Rightarrow> ('r, 'a) gnb_mac \<Rightarrow> ('r, 'a) gnb_mac res" where
  "DoConfigureMac phy s =
     defined_if (gm_numRbPerRbg s \<noteq> 0)
     (let n = ucast (gp_rbNum phy div gm_numRbPerRbg s) :: u16 in
      Inr (emit (CschedCellConfigReq n n) (s\<lparr>gm_bandwidthInRbg := n\<rparr>)))"

definition BeamChangeReport :: "('r, 'a) gnb_mac \<Rightarrow> BeamConfId \<Rightarrow> u8 \<Rightarrow> ('r, 'a) gnb_mac" where
  "BeamChangeReport s beamConfId rnti = emit (CschedUeConfigReq (ucast rnti) beamConfId) s"

definition gnb_DoAddUe :: "gnb_phy \<Rightarrow> ('r, 'a) gnb_mac \<Rightarrow> u16 \<Rightarrow> ('r, 'a) gnb_mac res" where
  "gnb_DoAddUe phy s rnti =
     ns_assert (map_of (gm_rlcAttached s) rnti = None)
     (let s = emit (CschedUeConfigReq rnti (gp_beamConfId phy (ucast rnti)))
                (s\<lparr>gm_rlcAttached := AList.update rnti [] (gm_rlcAttached s)\<rparr>);
          buf = replicate (unat (gm_numHarqProcess s)) (replicate 2 \<lparr>hs_pktBurst = [], hs_lcidList = []\<rparr>) in
      Inr (s\<lparr>gm_miDlHarqProcessesPackets := map_emplace rnti buf (gm_miDlHarqProcessesPackets s)\<rparr>))"

definition gnb_DoRemoveUe :: "('r, 'a) gnb_mac \<Rightarrow> u16 \<Rightarrow> ('r, 'a) gnb_mac" where
  "gnb_DoRemoveUe s rnti =
     (emit (CschedUeReleaseReq rnti) s)
     \<lparr>gm_miDlHarqProcessesPackets := AList.delete rnti (gm_miDlHarqProcessesPackets s),
      gm_rlcAttached := AList.delete rnti (gm_rlcAttached s)\<rparr>"

record lc_info =
  lci_rnti :: u16
  lci_lcId :: u8
  lci_lcGroup :: u8
  lci_qci :: u8
  lci_isGbr :: bool
  lci_mbrUl :: u64
  lci_mbrDl :: u64
  lci_gbrUl :: u64
  lci_gbrDl :: u64

definition gnb_DoAddLc :: "('r, 'a) gnb_mac \<Rightarrow> lc_info \<Rightarrow> 'r \<Rightarrow> ('r, 'a) gnb_mac res" where
  "gnb_DoAddLc s lcinfo msu =
     (case map_of (gm_rlcAttached s) (lci_rnti lcinfo) of
        None \<Rightarrow> Inl AssertFailed
      | Some lcs \<Rightarrow>
          let s = s\<lparr>gm_rlcAttached := AList.update (lci_rnti lcinfo) (map_emplace (lci_lcId lcinfo) msu lcs) (gm_rlcAttached s)\<rparr> in
          Inr (if lci_lcId lcinfo \<noteq> 0 then
                 emit (CschedLcConfigReq (lci_rnti lcinfo)
                   [\<lparr>conf_lcId = lci_lcId lcinfo, conf_lcGroup = lci_lcGroup lcinfo, conf_direction = DIR_BOTH,
                     conf_qosBearerType = (if lci_isGbr lcinfo then QBT_GBR else QBT_NON_GBR), conf_qci = lci_qci lcinfo,
                     conf_maximulBitrateUl = lci_mbrUl lcinfo, conf_maximulBitrateDl = lci_mbrDl lcinfo,
                     conf_guaranteedBitrateUl = lci_gbrUl lcinfo, conf_guaranteedBitrateDl = lci_gbrDl lcinfo\<rparr>]) s
               else s))"

definition gnb_DoReleaseLc :: "('r, 'a) gnb_mac \<Rightarrow> u16 \<Rightarrow> u8 \<Rightarrow> ('r, 'a) gnb_mac res" where
  "gnb_DoReleaseLc s rnti lcid =
     bindE (map_deref rnti (gm_rlcAttached s)) (\<lambda>lcs.
       Inr (emit (CschedLcReleaseReq rnti [lcid])
         (s\<lparr>gm_rlcAttached := AList.update rnti (AList.delete lcid lcs) (gm_rlcAttached s)\<rparr>)))"

definition UeUpdateConfigurationReq :: "gnb_phy \<Rightarrow> ('r, 'a) gnb_mac \<Rightarrow> u16 \<Rightarrow> ('r, 'a) gnb_mac" where
  "UeUpdateConfigurationReq phy s rnti = emit (CschedUeConfigReq rnti (gp_beamConfId phy (ucast rnti))) s"

definition gnb_DoReconfigureLc :: "('r, 'a) gnb_mac \<Rightarrow> lc_info \<Rightarrow> ('r, 'a) gnb_mac res" where
  "gnb_DoReconfigureLc s lcinfo = Inl FatalError"

text \<open>The DCIs of the control symbols the PHY sends on its own; the scheduler answers their number.\<close>

definition GetDlCtrlDci :: "gnb_phy \<Rightarrow> ('r, 'a) gnb_mac \<Rightarrow> u8 \<Rightarrow> dci res" where
  "GetDlCtrlDci phy s dlCtrlSyms =
     defined_if (gm_numRbPerRbg s \<noteq> 0)
     (let bwInRbg = gp_rbNum phy div gm_numRbPerRbg s in
      ns_assert (bwInRbg > 0) (Inr (Dci_ctrl 0 dlCtrlSyms DL_DCI CTRL (replicate (unat bwInRbg) 1))))"

definition GetUlCtrlDci :: "('r, 'a) gnb_mac \<Rightarrow> u8 \<Rightarrow> dci res" where
  "GetUlCtrlDci s ulCtrlSyms =
     ns_assert (gm_bandwidthInRbg s > 0)
       (Inr (Dci_ctrl 0 ulCtrlSyms UL_DCI CTRL (replicate (unat (gm_bandwidthInRbg s)) 1)))"

end
