(* ===== verification/BwpManager.thy ===== *)
theory BwpManager
  imports GnbMac
begin

text \<open>
  The managers of the bandwidth parts, which stand between the RLC and the MACs: \<open>bwp-manager-gnb.cc\<close> and
  \<open>bwp-manager-ue.cc\<close> of \<open>contrib/nr/model\<close>, with the classes of \<open>src/lte/model\<close> they inherit from. A MAC is known by the
  number of its component carrier: the helper registers the same MAC under the same number in both maps of the manager, so
  one list \<open>macs\<close> stands for both. \<open>'r\<close> is the state of a RLC entity. A \<open>std::map\<close> is an association list.
\<close>

subsection \<open>The static algorithm\<close>

text \<open>\<open>m_qciToBwpMap\<close>; one setter per QCI.\<close>

definition SetBwp :: "u8 \<Rightarrow> u8 \<Rightarrow> (u8 \<times> u8) list \<Rightarrow> (u8 \<times> u8) list" where
  "SetBwp qci bwpIndex m = AList.update qci bwpIndex m"

definition GetBwpForEpsBearer :: "(u8 \<times> u8) list \<Rightarrow> u8 \<Rightarrow> u8 res" where
  "GetBwpForEpsBearer m v = map_at v m"

text \<open>Both managers keep the links between bandwidth parts, and route control messages by them.\<close>

definition SetOutputLink :: "u32 \<Rightarrow> u32 \<Rightarrow> (u32 \<times> u32) list \<Rightarrow> (u32 \<times> u32) list" where
  "SetOutputLink sourceBwp outputBwp links = map_emplace sourceBwp outputBwp links"

definition RouteOutgoingCtrlMsg :: "(u32 \<times> u32) list \<Rightarrow> u8 \<Rightarrow> u8" where
  "RouteOutgoingCtrlMsg links sourceBwpId =
     (case map_of links (ucast sourceBwpId) of None \<Rightarrow> sourceBwpId | Some b \<Rightarrow> ucast b)"

subsection \<open>At the gNB\<close>

record eps_bearer =
  eb_requirements :: "(u8 \<times> bearer_req) list"
  eb_qci :: u8
  eb_gbrDl :: u64
  eb_gbrUl :: u64
  eb_mbrDl :: u64
  eb_mbrUl :: u64

record 'r bwp_ue =
  bu_ueAttached :: "(u8 \<times> 'r) list"
  bu_rlcLcInstantiated :: "(u8 \<times> lc_info) list"
  bu_enabledComponentCarrier :: u8
  bu_ueState :: u8

record 'r bwp_gnb =
  bg_ueInfo :: "(u16 \<times> 'r bwp_ue) list"
  bg_noOfComponentCarriers :: u16
  bg_algorithm :: "(u8 \<times> u8) list option"

text \<open>\<open>m_ueInfo\<close> for a RNTI, and a change of it.\<close>

definition set_info :: "u16 \<Rightarrow> 'r bwp_ue \<Rightarrow> 'r bwp_gnb \<Rightarrow> 'r bwp_gnb" where
  "set_info rnti u s = s\<lparr>bg_ueInfo := AList.update rnti u (bg_ueInfo s)\<rparr>"

definition ccm_DoAddUe :: "'r bwp_gnb \<Rightarrow> u16 \<Rightarrow> u8 \<Rightarrow> 'r bwp_gnb" where
  "ccm_DoAddUe s rnti state =
     (case map_of (bg_ueInfo s) rnti of
        None \<Rightarrow> set_info rnti \<lparr>bu_ueAttached = [], bu_rlcLcInstantiated = [], bu_enabledComponentCarrier = 1,
                   bu_ueState = state\<rparr> s
      | Some u \<Rightarrow> set_info rnti (u\<lparr>bu_ueState := state\<rparr>) s)"

definition ccm_DoAddLc :: "'r bwp_gnb \<Rightarrow> lc_info \<Rightarrow> 'r bwp_gnb res" where
  "ccm_DoAddLc s lcInfo =
     bindE (map_at (lci_rnti lcInfo) (bg_ueInfo s)) (\<lambda>u.
       Inr (set_info (lci_rnti lcInfo)
         (u\<lparr>bu_rlcLcInstantiated := map_emplace (lci_lcId lcInfo) lcInfo (bu_rlcLcInstantiated u)\<rparr>) s))"

definition ccm_DoRemoveUe :: "'r bwp_gnb \<Rightarrow> u16 \<Rightarrow> 'r bwp_gnb res" where
  "ccm_DoRemoveUe s rnti =
     ns_assert (map_of (bg_ueInfo s) rnti \<noteq> None) (Inr (s\<lparr>bg_ueInfo := AList.delete rnti (bg_ueInfo s)\<rparr>))"

text \<open>The result is the configuration of the channel on every carrier; the bit rates are those of the first carrier only.\<close>

definition bearer_info :: "eps_bearer \<Rightarrow> u16 \<Rightarrow> u8 \<Rightarrow> u8 \<Rightarrow> bool \<Rightarrow> lc_info res" where
  "bearer_info bearer rnti lcid lcGroup primary =
     (if primary then
        bindE (IsGbr (eb_requirements bearer) (eb_qci bearer)) (\<lambda>gbr.
        Inr \<lparr>lci_rnti = rnti, lci_lcId = lcid, lci_lcGroup = lcGroup, lci_qci = eb_qci bearer, lci_isGbr = gbr,
          lci_mbrUl = eb_mbrUl bearer, lci_mbrDl = eb_mbrDl bearer, lci_gbrUl = eb_gbrUl bearer,
          lci_gbrDl = eb_gbrDl bearer\<rparr>)
      else
        Inr \<lparr>lci_rnti = rnti, lci_lcId = lcid, lci_lcGroup = lcGroup, lci_qci = eb_qci bearer, lci_isGbr = False,
          lci_mbrUl = 0, lci_mbrDl = 0, lci_gbrUl = 0, lci_gbrDl = 0\<rparr>)"

definition ccm_DoSetupDataRadioBearer :: "'r bwp_gnb \<Rightarrow> eps_bearer \<Rightarrow> u16 \<Rightarrow> u8 \<Rightarrow> u8 \<Rightarrow> 'r \<Rightarrow>
    ('r bwp_gnb \<times> (u8 \<times> lc_info) list) res" where
  "ccm_DoSetupDataRadioBearer s bearer rnti lcid lcGroup msu =
     (case map_of (bg_ueInfo s) rnti of
        None \<Rightarrow> Inl AssertFailed
      | Some u \<Rightarrow>
          let u = u\<lparr>bu_enabledComponentCarrier := ucast (bg_noOfComponentCarriers s)\<rparr> in
          bindE (foldE (\<lambda>res ncc. bindE (bearer_info bearer rnti lcid lcGroup (ncc = 0)) (\<lambda>lci.
                   Inr (res @ [(of_nat ncc, lci)]))) [] [0..<unat (bg_noOfComponentCarriers s)]) (\<lambda>res.
          if map_of (bu_rlcLcInstantiated u) lcid = None then
            bindE (bearer_info bearer rnti lcid lcGroup True) (\<lambda>lcinfo.
            Inr (set_info rnti (u\<lparr>bu_rlcLcInstantiated := map_emplace lcid lcinfo (bu_rlcLcInstantiated u),
                                  bu_ueAttached := map_emplace lcid msu (bu_ueAttached u)\<rparr>) s, res))
          else Inr (set_info rnti u s, res)))"

text \<open>The configuration of the channel is looked up by the RNTI, not by the identity of the channel.\<close>

definition ccm_DoReleaseDataRadioBearer :: "'r bwp_gnb \<Rightarrow> u16 \<Rightarrow> u8 \<Rightarrow> ('r bwp_gnb \<times> u8 list) res" where
  "ccm_DoReleaseDataRadioBearer s rnti lcid =
     (case map_of (bg_ueInfo s) rnti of
        None \<Rightarrow> Inl AssertFailed
      | Some u \<Rightarrow>
          let res = map of_nat [0..<unat (bu_enabledComponentCarrier u)]; k = ucast rnti :: u8 in
          ns_assert (map_of (bu_ueAttached u) lcid \<noteq> None)
          (ns_assert (map_of (bu_rlcLcInstantiated u) k \<noteq> None)
          (Inr (set_info rnti (u\<lparr>bu_ueAttached := AList.delete lcid (bu_ueAttached u),
                                bu_rlcLcInstantiated := AList.delete k (bu_rlcLcInstantiated u)\<rparr>) s, res))))"

definition ccm_DoConfigureSignalBearer :: "'r bwp_gnb \<Rightarrow> lc_info \<Rightarrow> 'r \<Rightarrow> 'r bwp_gnb res" where
  "ccm_DoConfigureSignalBearer s lcinfo msu =
     (case map_of (bg_ueInfo s) (lci_rnti lcinfo) of
        None \<Rightarrow> Inl AssertFailed
      | Some u \<Rightarrow> Inr (set_info (lci_rnti lcinfo)
                   (u\<lparr>bu_ueAttached := map_emplace (lci_lcId lcinfo) msu (bu_ueAttached u)\<rparr>) s))"

definition GetBwpIndex :: "'r bwp_gnb \<Rightarrow> u16 \<Rightarrow> u8 \<Rightarrow> u8 res" where
  "GetBwpIndex s rnti lcid =
     (case bg_algorithm s of
        None \<Rightarrow> Inl AssertFailed
      | Some alg \<Rightarrow>
          (case map_of (bg_ueInfo s) rnti of
             None \<Rightarrow> Inl AssertFailed
           | Some u \<Rightarrow>
               (case map_of (bu_rlcLcInstantiated u) lcid of
                  None \<Rightarrow> Inl AssertFailed
                | Some lc \<Rightarrow> GetBwpForEpsBearer alg (lci_qci lc))))"

definition bwp_IsGbr :: "'r bwp_gnb \<Rightarrow> ReportBufferStatusParameters \<Rightarrow> bool res" where
  "bwp_IsGbr s params =
     (case map_of (bg_ueInfo s) (rb_rnti params) of
        None \<Rightarrow> Inl AssertFailed
      | Some u \<Rightarrow>
          (case map_of (bu_rlcLcInstantiated u) (rb_lcid params) of
             None \<Rightarrow> Inl AssertFailed
           | Some lc \<Rightarrow> Inr (lci_isGbr lc)))"

definition bwp_DoReportBufferStatus :: "'r bwp_gnb \<Rightarrow> (u8 \<times> ('s, 'a) gnb_mac) list \<Rightarrow> ReportBufferStatusParameters \<Rightarrow>
    (u8 \<times> ('s, 'a) gnb_mac) list res" where
  "bwp_DoReportBufferStatus s macs params =
     bindE (GetBwpIndex s (rb_rnti params) (rb_lcid params)) (\<lambda>bwpIndex.
     case map_of macs bwpIndex of
       None \<Rightarrow> Inl Aborted
     | Some m \<Rightarrow> Inr (AList.update bwpIndex (gnb_DoReportBufferStatus m params) macs))"

definition bwp_DoNotifyTxOpportunity :: "'r notify \<Rightarrow> 'r bwp_gnb \<Rightarrow> TxOpportunityParameters \<Rightarrow>
    ('r bwp_gnb \<times> rlc_call list) res" where
  "bwp_DoNotifyTxOpportunity notify s txOpParams =
     (case map_of (bg_ueInfo s) (to_rnti txOpParams) of
        None \<Rightarrow> Inl AssertFailed
      | Some u \<Rightarrow>
          (case map_of (bu_ueAttached u) (to_lcid txOpParams) of
             None \<Rightarrow> Inl AssertFailed
           | Some r \<Rightarrow>
               bindE (notify r txOpParams) (\<lambda>(r, calls).
                 Inr (set_info (to_rnti txOpParams)
                   (u\<lparr>bu_ueAttached := AList.update (to_lcid txOpParams) r (bu_ueAttached u)\<rparr>) s, calls))))"

definition ccm_DoTransmitPdu :: "(u8 \<times> ('s, 'a) gnb_mac) list \<Rightarrow> TransmitPduParameters \<Rightarrow>
    (u8 \<times> ('s, 'a) gnb_mac) list res" where
  "ccm_DoTransmitPdu macs params =
     (case map_of macs (tp_componentCarrierId params) of
        None \<Rightarrow> Inl AssertFailed
      | Some m \<Rightarrow> bindE (gnb_DoTransmitPdu m params) (\<lambda>m. Inr (AList.update (tp_componentCarrierId params) m macs)))"

text \<open>What a PDU that came in does to the RLC entity is \<open>receive\<close>. A channel that is not known is ignored.\<close>

definition ccm_DoReceivePdu :: "('r \<Rightarrow> bytes \<Rightarrow> 'r res) \<Rightarrow> 'r bwp_gnb \<Rightarrow> u16 \<Rightarrow> u8 \<Rightarrow> bytes \<Rightarrow> 'r bwp_gnb res" where
  "ccm_DoReceivePdu receive s rnti lcid p =
     bindE (map_at rnti (bg_ueInfo s)) (\<lambda>u.
     case map_of (bu_ueAttached u) lcid of
       None \<Rightarrow> Inr s
     | Some r \<Rightarrow> bindE (receive r p) (\<lambda>r.
                 Inr (set_info rnti (u\<lparr>bu_ueAttached := AList.update lcid r (bu_ueAttached u)\<rparr>) s)))"

text \<open>Reports and requests go back to the MAC of the carrier they came in on.\<close>

definition DoUlReceiveMacCe :: "'r bwp_gnb \<Rightarrow> (u8 \<times> ('s, 'a) gnb_mac) list \<Rightarrow> MacCeElement \<Rightarrow> u8 \<Rightarrow>
    (u8 \<times> ('s, 'a) gnb_mac) list res" where
  "DoUlReceiveMacCe s macs bsr componentCarrierId =
     ns_assert (bg_algorithm s \<noteq> None)
     (ns_assert (ce_type bsr = BSR)
     (case map_of macs componentCarrierId of
        None \<Rightarrow> Inl AssertFailed
      | Some m \<Rightarrow> Inr (AList.update componentCarrierId (DoReportMacCeToScheduler m bsr) macs)))"

definition DoUlReceiveSr :: "'r bwp_gnb \<Rightarrow> (u8 \<times> ('s, 'a) gnb_mac) list \<Rightarrow> u16 \<Rightarrow> u8 \<Rightarrow>
    (u8 \<times> ('s, 'a) gnb_mac) list res" where
  "DoUlReceiveSr s macs rnti componentCarrierId =
     ns_assert (bg_algorithm s \<noteq> None)
     (case map_of macs componentCarrierId of
        None \<Rightarrow> Inl Aborted
      | Some m \<Rightarrow> Inr (AList.update componentCarrierId (DoReportSrToScheduler m rnti) macs))"

subsection \<open>At the UE\<close>

text \<open>
  The SAP of a carrier, in both maps, is the MAC with the carrier's number; \<open>bm_providers\<close> are the numbers registered.
\<close>

record 'r bwp_ue_manager =
  bm_lcToBearerMap :: "(u8 \<times> u8) list"
  bm_lcAttached :: "(u8 \<times> 'r) list"
  bm_componentCarrierLcMap :: "(u8 \<times> (u8 \<times> u8) list) list"
  bm_providers :: "u8 list"
  bm_noOfComponentCarriers :: u8
  bm_ue_algorithm :: "(u8 \<times> u8) list option"

definition SetComponentCarrierMacSapProviders :: "u8 \<Rightarrow> 'r bwp_ue_manager \<Rightarrow> 'r bwp_ue_manager res" where
  "SetComponentCarrierMacSapProviders componentCarrierId s =
     (if componentCarrierId > bm_noOfComponentCarriers s then Inl FatalError
      else if componentCarrierId \<in> set (bm_providers s) then Inl FatalError
      else Inr (s\<lparr>bm_providers := bm_providers s @ [componentCarrierId]\<rparr>))"

definition ue_SetNumberOfComponentCarriers :: "u8 \<Rightarrow> 'r bwp_ue_manager \<Rightarrow> 'r bwp_ue_manager res" where
  "ue_SetNumberOfComponentCarriers n s = ns_abort_if (n < 1 \<or> n > 5) (Inr (s\<lparr>bm_noOfComponentCarriers := n\<rparr>))"

text \<open>One carrier of the loop that connects a channel: an entry that is there is kept.\<close>

definition attach_carrier :: "u8 \<Rightarrow> 'r bwp_ue_manager \<Rightarrow> u8 \<Rightarrow> 'r bwp_ue_manager res" where
  "attach_carrier lcId s ncc =
     (let m = (if map_of (bm_componentCarrierLcMap s) ncc = None then map_emplace ncc [] (bm_componentCarrierLcMap s)
               else bm_componentCarrierLcMap s) in
      bindE (map_deref ncc m) (\<lambda>lcs.
      if ncc \<in> set (bm_providers s)
      then Inr (s\<lparr>bm_componentCarrierLcMap := AList.update ncc (map_emplace lcId ncc lcs) m\<rparr>)
      else Inl OutOfRange))"

definition ue_DoConfigureSignalBearer :: "u8 \<Rightarrow> 'r \<Rightarrow> 'r bwp_ue_manager \<Rightarrow> 'r bwp_ue_manager res" where
  "ue_DoConfigureSignalBearer lcid msu s =
     ns_abort_if (map_of (bm_lcAttached s) lcid \<noteq> None)
     (foldE (attach_carrier lcid) (s\<lparr>bm_lcAttached := map_emplace lcid msu (bm_lcAttached s)\<rparr>)
        (map of_nat [0..<unat (bm_noOfComponentCarriers s)]))"

text \<open>The base class does the same for a data bearer, and answers with the carriers to configure.\<close>

definition simple_DoAddLc :: "u8 \<Rightarrow> 'r \<Rightarrow> 'r bwp_ue_manager \<Rightarrow> ('r bwp_ue_manager \<times> u8 list) res" where
  "simple_DoAddLc lcId msu s =
     ns_abort_if (map_of (bm_lcAttached s) lcId \<noteq> None)
     (let carriers = map of_nat [0..<unat (bm_noOfComponentCarriers s)] in
      bindE (foldE (attach_carrier lcId) (s\<lparr>bm_lcAttached := map_emplace lcId msu (bm_lcAttached s)\<rparr>) carriers)
        (\<lambda>s. Inr (s, carriers)))"

definition bwp_DoAddLc :: "u8 \<Rightarrow> u8 \<Rightarrow> 'r \<Rightarrow> 'r bwp_ue_manager \<Rightarrow> ('r bwp_ue_manager \<times> u8 list) res" where
  "bwp_DoAddLc lcId priority msu s =
     simple_DoAddLc lcId msu (s\<lparr>bm_lcToBearerMap := map_emplace lcId priority (bm_lcToBearerMap s)\<rparr>)"

text \<open>A channel leaves \<open>m_lcAttached\<close> only; the answer is the carriers on which it is still listed.\<close>

definition simple_DoRemoveLc :: "u8 \<Rightarrow> 'r bwp_ue_manager \<Rightarrow> ('r bwp_ue_manager \<times> u8 list) res" where
  "simple_DoRemoveLc lcid s =
     ns_abort_if (map_of (bm_lcAttached s) lcid = None)
     (let res = map fst (filter (\<lambda>(_, lcs). map_of lcs lcid \<noteq> None) (bm_componentCarrierLcMap s)) in
      ns_abort_if (res = []) (Inr (s\<lparr>bm_lcAttached := AList.delete lcid (bm_lcAttached s)\<rparr>, res)))"

definition simple_DoReset :: "'r bwp_ue_manager \<Rightarrow> 'r bwp_ue_manager" where
  "simple_DoReset s = s\<lparr>bm_lcAttached := filter (\<lambda>(k, _). k = 0) (bm_lcAttached s)\<rparr>"

text \<open>The report goes to the MAC of the bandwidth part of the channel's bearer.\<close>

definition ue_bwp_DoReportBufferStatus :: "'r bwp_ue_manager \<Rightarrow> (u8 \<times> 's ue_mac) list \<Rightarrow> ReportBufferStatusParameters \<Rightarrow>
    (u8 \<times> 's ue_mac) list res" where
  "ue_bwp_DoReportBufferStatus s macs params =
     (case bm_ue_algorithm s of
        None \<Rightarrow> Inl AssertFailed
      | Some alg \<Rightarrow>
          bindE (map_at (rb_lcid params) (bm_lcToBearerMap s)) (\<lambda>qci.
          bindE (GetBwpForEpsBearer alg qci) (\<lambda>bwpIndex.
          bindE (map_at bwpIndex (bm_componentCarrierLcMap s)) (\<lambda>lcs.
          bindE (map_at (rb_lcid params) lcs) (\<lambda>cc.
          bindE (map_deref cc macs) (\<lambda>m.
          bindE (ue_DoReportBufferStatus m params) (\<lambda>m. Inr (AList.update cc m macs))))))))"

definition simple_DoTransmitPdu :: "(u8 \<times> 's ue_mac) list \<Rightarrow> TransmitPduParameters \<Rightarrow> (u8 \<times> 's ue_mac) list res" where
  "simple_DoTransmitPdu macs params =
     (case map_of macs (tp_componentCarrierId params) of
        None \<Rightarrow> Inl Aborted
      | Some m \<Rightarrow> bindE (ue_DoTransmitPdu m params) (\<lambda>m. Inr (AList.update (tp_componentCarrierId params) m macs)))"

definition simple_DoNotifyTxOpportunity :: "'r notify \<Rightarrow> 'r bwp_ue_manager \<Rightarrow> TxOpportunityParameters \<Rightarrow>
    ('r bwp_ue_manager \<times> rlc_call list) res" where
  "simple_DoNotifyTxOpportunity notify s txOpParams =
     (case map_of (bm_lcAttached s) (to_lcid txOpParams) of
        None \<Rightarrow> Inl Aborted
      | Some r \<Rightarrow> bindE (notify r txOpParams) (\<lambda>(r, calls).
                  Inr (s\<lparr>bm_lcAttached := AList.update (to_lcid txOpParams) r (bm_lcAttached s)\<rparr>, calls)))"

definition simple_DoReceivePdu :: "('r \<Rightarrow> bytes \<Rightarrow> 'r res) \<Rightarrow> 'r bwp_ue_manager \<Rightarrow> u8 \<Rightarrow> bytes \<Rightarrow> 'r bwp_ue_manager res" where
  "simple_DoReceivePdu receive s lcid p =
     (case map_of (bm_lcAttached s) lcid of
        None \<Rightarrow> Inl Aborted
      | Some r \<Rightarrow> bindE (receive r p) (\<lambda>r. Inr (s\<lparr>bm_lcAttached := AList.update lcid r (bm_lcAttached s)\<rparr>)))"

end
