(* ===== verification/Reports.thy ===== *)
theory Reports
  imports BwpManager SchedInv Cqi
begin

text \<open>
  The way of a buffer status report and of a scheduling request, from the MAC of the UE through the MAC of the gNB, the
  manager of the bandwidth parts and the MAC again to the scheduler. The components call one another through service
  access points; \<open>ccm_call\<close> and \<open>sched_request\<close> connect the messages of the gNB's MAC to the operations of the other two.
  The air delivers a packet as it was sent.
\<close>

subsection \<open>The calls\<close>

definition ccm_call :: "'r bwp_gnb \<Rightarrow> (u8 \<times> ('s, 'a) gnb_mac) list \<Rightarrow> gnb_msg \<Rightarrow> (u8 \<times> ('s, 'a) gnb_mac) list res" where
  "ccm_call mg macs m = (case m of
     UlReceiveMacCe bsr cc \<Rightarrow> DoUlReceiveMacCe mg macs bsr cc
   | UlReceiveSr rnti cc \<Rightarrow> DoUlReceiveSr mg macs rnti cc
   | _ \<Rightarrow> Inr macs)"

text \<open>A handler of the MAC of carrier \<open>cc\<close>, with the calls it makes to the manager.\<close>

definition with_ccm :: "'r bwp_gnb \<Rightarrow> (u8 \<times> ('s, 'a) gnb_mac) list \<Rightarrow> u8 \<Rightarrow>
    (('s, 'a) gnb_mac \<Rightarrow> ('s, 'a) gnb_mac res) \<Rightarrow> (u8 \<times> ('s, 'a) gnb_mac) list res" where
  "with_ccm mg macs cc handler =
     bindE (map_deref cc macs) (\<lambda>m.
     bindE (handler m) (\<lambda>m'.
     foldE (ccm_call mg) (AList.update cc m' macs) (drop (length (gm_out m)) (gm_out m'))))"

definition receive_pdu :: "gnb_phy \<Rightarrow> 'r bwp_gnb \<Rightarrow> (u8 \<times> ('s, 'a) gnb_mac) list \<Rightarrow> u8 \<Rightarrow> mac_packet \<Rightarrow>
    (u8 \<times> ('s, 'a) gnb_mac) list res" where
  "receive_pdu phy mg macs cc p = with_ccm mg macs cc (\<lambda>m. gnb_DoReceivePhyPdu phy m p)"

definition receive_control :: "gnb_phy \<Rightarrow> 'r bwp_gnb \<Rightarrow> (u8 \<times> ('s, 'a) gnb_mac) list \<Rightarrow> u8 \<Rightarrow> gnb_control \<Rightarrow>
    (u8 \<times> ('s, 'a) gnb_mac) list res" where
  "receive_control phy mg macs cc c = with_ccm mg macs cc (\<lambda>m. gnb_DoReceiveControlMessage phy m c)"

text \<open>What the messages do to the state of the scheduler; the triggers answer with a slot and are left to the slot itself.\<close>

definition sched_request :: "'r env \<Rightarrow> cqi_env \<Rightarrow> 'r sched \<Rightarrow> gnb_msg \<Rightarrow> 'r sched res" where
  "sched_request e ce s m = (case m of
     SchedDlCqiInfoReq _ cqis \<Rightarrow> DoSchedDlCqiInfoReq ce s cqis
   | SchedDlRachInfoReq rachs \<Rightarrow> Inr (DoSchedDlRachInfoReq s rachs)
   | SchedUlCqiInfoReq rep \<Rightarrow> DoSchedUlCqiInfoReq ce s rep
   | SchedUlSrInfoReq _ srs \<Rightarrow> DoSchedUlSrInfoReq s srs
   | SchedUlMacCtrlInfoReq _ ces \<Rightarrow> DoSchedUlMacCtrlInfoReq s ces
   | SchedDlRlcBufferReq params \<Rightarrow> DoSchedDlRlcBufferReq s params
   | CschedCellConfigReq ul dl \<Rightarrow> DoCschedCellConfigReq s ul dl
   | CschedUeConfigReq rnti beam \<Rightarrow> DoCschedUeConfigReq e s rnti beam
   | CschedUeReleaseReq rnti \<Rightarrow> DoCschedUeReleaseReq s rnti
   | CschedLcConfigReq rnti configs \<Rightarrow> DoCschedLcConfigReq s rnti configs
   | CschedLcReleaseReq rnti lcIds \<Rightarrow> DoCschedLcReleaseReq s rnti lcIds
   | _ \<Rightarrow> Inr s)"

text \<open>The messages of an uplink slot.\<close>

definition uplink_messages :: "('s, 'a) gnb_mac \<Rightarrow> sfnsf \<Rightarrow> LteNrTddSlotType \<Rightarrow> gnb_msg list" where
  "uplink_messages m sfn ty = drop (length (gm_out m)) (gm_out (DoSlotUlIndication m sfn ty))"

lemma foldl_emit: "foldl (\<lambda>s x. emit (f x) s) m xs = m\<lparr>gm_out := gm_out m @ map f xs\<rparr>"
  by (induction xs arbitrary: m) (simp_all add: emit_def)

lemma uplink_messages_eq:
  "uplink_messages m sfn ty = map SchedUlCqiInfoReq (gm_ulCqiReceived m) @
     [SchedUlSrInfoReq (gm_currentSlot m) (gm_srRntiList m)] @
     (if gm_ulCeReceived m \<noteq> [] then [SchedUlMacCtrlInfoReq sfn (gm_ulCeReceived m)] else []) @
     [SchedUlTriggerReq sfn ty (gm_ulHarqInfoReceived m)]"
  by (simp add: uplink_messages_def DoSlotUlIndication_def Let_def foldl_emit) (simp add: emit_def)

subsection \<open>At the scheduler\<close>

text \<open>A report the scheduler can use: of a UE it knows, silent for the groups the UE does not have.\<close>

definition usable :: "'r sched \<Rightarrow> MacCeElement \<Rightarrow> bool" where
  "usable s ce \<longleftrightarrow> ce_type ce = BSR \<and> length (ce_bufferStatus ce) = 4 \<and>
     (\<exists>p. pend s (ce_rnti ce) = Some p \<and>
       (\<forall>l < 4. p l = None \<longrightarrow> FromLevelToBytes (ce_bufferStatus ce ! unat l) = 0))"

lemma pend_Some: "pend s k = Some p \<Longrightarrow>
    \<exists>ue. map_of (s_ueMap s) k = Some ue \<and> (\<forall>l. p l = map_option lcg_pending (map_of (ue_ulLCG ue) l))"
  by (auto simp: pend_def)

lemma usable_step:
  assumes "sched_wf s" and "usable s ce"
  shows "\<exists>ue t m'. map_of (s_ueMap s) (ce_rnti ce) = Some ue \<and> map_of (s_triggerMap s) (ce_rnti ce) = Some t \<and>
    BSRReceivedFromUe s ce = Inr (s\<lparr>s_triggerMap := AList.update (ce_rnti ce)
        (told (ce_bufferStatus ce) t) (s_triggerMap s),
      s_ueMap := AList.update (ce_rnti ce) (ue\<lparr>ue_ulLCG := m'\<rparr>) (s_ueMap s)\<rparr>) \<and>
    reported (ce_bufferStatus ce) {0, 1, 2, 3} (ue_ulLCG ue) m'"
proof -
  obtain p where p: "pend s (ce_rnti ce) = Some p"
      "\<And>l. l < 4 \<Longrightarrow> p l = None \<Longrightarrow> FromLevelToBytes (ce_bufferStatus ce ! unat l) = 0"
    and ce: "ce_type ce = BSR" "4 \<le> length (ce_bufferStatus ce)"
    using assms(2) by (auto simp: usable_def)
  obtain ue where ue: "map_of (s_ueMap s) (ce_rnti ce) = Some ue"
      "\<And>l. p l = map_option lcg_pending (map_of (ue_ulLCG ue) l)"
    using pend_Some[OF p(1)] by blast
  then have "FromLevelToBytes (ce_bufferStatus ce ! unat l) = 0" if "l < 4" "map_of (ue_ulLCG ue) l = None" for l
    using p(2)[OF that(1)] that(2) by simp
  from BSR_step[OF assms(1) ce(1) ue(1) ce(2) this] ue(1) show ?thesis by blast
qed

lemma usable_reports:
  assumes "sched_wf s" and "\<And>ce. ce \<in> set ces \<Longrightarrow> usable s ce"
  shows "\<exists>s'. DoSchedUlMacCtrlInfoReq s ces = Inr s' \<and> sched_wf s' \<and> pend s' = pend s \<and> s_srList s' = s_srList s"
  unfolding DoSchedUlMacCtrlInfoReq_def
proof (rule foldE_total)
  show "sched_wf s \<and> pend s = pend s \<and> s_srList s = s_srList s" using assms(1) by simp
next
  fix t ce
  assume ce: "ce \<in> set ces" and t: "sched_wf t \<and> pend t = pend s \<and> s_srList t = s_srList s"
  have u: "usable t ce" using assms(2)[OF ce] t by (simp add: usable_def)
  from usable_step[OF _ this] t obtain t' where t': "BSRReceivedFromUe t ce = Inr t'" "s_srList t' = s_srList t"
    by auto
  with u t sched_wf_BSR[OF _ t'(1)] pend_BSR[OF t'(1)]
  show "\<exists>t'. (if ce_type ce = BSR then BSRReceivedFromUe t ce else Inr t) = Inr t' \<and> sched_wf t' \<and>
      pend t' = pend s \<and> s_srList t' = s_srList s"
    by (auto simp: usable_def)
qed

text \<open>Requests of UEs it knows, each at most once.\<close>

lemma requests_noted:
  assumes "sched_wf s" and "distinct srs" and "\<And>r. r \<in> set srs \<Longrightarrow> map_of (s_ueMap s) r \<noteq> None"
  shows "\<exists>s'. DoSchedUlSrInfoReq s srs = Inr s' \<and> sched_wf s' \<and> s_ueMap s' = s_ueMap s \<and> set srs \<subseteq> set (s_srList s')"
proof -
  let ?f = "\<lambda>s ue. if ue \<notin> set (s_srList s) then
      bindE (trigger_at ue (s_triggerMap s)) (\<lambda>t. Inr (note_sr s ue t)) else Inr s"
  have "\<exists>s'. foldE ?f s srs = Inr s' \<and> sched_wf s' \<and> s_ueMap s' = s_ueMap s \<and>
      set srs \<union> set (s_srList s) \<subseteq> set (s_srList s')"
    using assms(1,3)
  proof (induction srs arbitrary: s)
    case Nil
    then show ?case by simp
  next
    case (Cons r rs)
    obtain ue where ue: "map_of (s_ueMap s) r = Some ue" using Cons.prems(2)[of r] by auto
    obtain t where t: "map_of (s_triggerMap s) r = Some t" using sched_wfD(2)[OF Cons.prems(1) ue] by blast
    let ?s = "if r \<notin> set (s_srList s) then note_sr s r t else s"
    have s: "sched_wf ?s" "s_ueMap ?s = s_ueMap s" "insert r (set (s_srList s)) \<subseteq> set (s_srList ?s)"
      using Cons.prems(1) sched_wf_note_sr[OF Cons.prems(1) t] by (auto simp: note_sr_def)
    have "?f s r = Inr ?s" using t by simp
    with Cons.IH[OF s(1)] Cons.prems(2) s(2,3) show ?case by fastforce
  qed
  then obtain s' where s': "foldE ?f s srs = Inr s'" "sched_wf s'" "s_ueMap s' = s_ueMap s"
      "set srs \<subseteq> set (s_srList s')"
    by auto
  have "length srs \<le> length (s_srList s')"
    using card_mono[OF _ s'(4)] distinct_card[OF assms(2)] card_length[of "s_srList s'"] by simp
  moreover have "DoSchedUlSrInfoReq s srs = bindE (foldE ?f s srs)
      (\<lambda>s. ns_assert (length (s_srList s) \<ge> length srs) (Inr s))"
    unfolding DoSchedUlSrInfoReq_def note_sr_def by (rule refl)
  ultimately show ?thesis using s' by simp
qed

subsection \<open>From the UE to the MAC of the gNB\<close>

definition report_of :: "u16 \<Rightarrow> u8 list \<Rightarrow> MacCeElement" where
  "report_of rnti levels = \<lparr>ce_rnti = rnti, ce_type = BSR, ce_bufferStatus = levels\<rparr>"

text \<open>The levels a UE reports for the bytes in its four groups.\<close>

definition levels_of :: "u32 list \<Rightarrow> u8 list \<Rightarrow> bool" where
  "levels_of queue levels \<longleftrightarrow> length levels = 4 \<and> (\<forall>l < 4. FromBytesToLevel (ucast (queue ! l)) = Inr (levels ! l))"

definition bsr_packet :: "u16 \<Rightarrow> u8 list \<Rightarrow> mac_packet \<Rightarrow> bool" where
  "bsr_packet rnti levels p \<longleftrightarrow> bt_rnti (mp_tag p) = rnti \<and> length levels = 4 \<and>
     bsr_Serialize \<lparr>bsr_header = SHORT_BSR, bufferSizeLevel_0 = levels ! 0, bufferSizeLevel_1 = levels ! 1,
       bufferSizeLevel_2 = levels ! 2, bufferSizeLevel_3 = levels ! 3\<rparr> = Inr (mp_bytes p)"

lemma SHORT_BSR_allowed: "NrMacShortBsrCe = Inr \<lparr>bsr_header = SHORT_BSR, bufferSizeLevel_0 = 0, bufferSizeLevel_1 = 0,
    bufferSizeLevel_2 = 0, bufferSizeLevel_3 = 0\<rparr>"
  by (simp add: NrMacShortBsrCe_def fs_ul_SetLcId_def fs_SetLcId_def ul_IsFixedSizeHeader_def SHORT_BSR_def)

lemma SendReport_packet:
  assumes "SendReportBufferStatus ue sfn symStart = Inr ue'" and "mac_sent ue' = mac_sent ue @ [SendMacPdu p sfn' symStart' str]"
  shows "\<exists>queue levels. lcg_queues ue = Inr queue \<and> levels_of queue levels \<and> bsr_packet (mac_rnti ue) levels p"
proof -
  obtain q a b c d bs where q: "lcg_queues ue = Inr q"
    and l: "FromBytesToLevel (ucast (q ! 0)) = Inr a" "FromBytesToLevel (ucast (q ! 1)) = Inr b"
      "FromBytesToLevel (ucast (q ! 2)) = Inr c" "FromBytesToLevel (ucast (q ! 3)) = Inr d"
    and bs: "bsr_Serialize \<lparr>bsr_header = SHORT_BSR, bufferSizeLevel_0 = a, bufferSizeLevel_1 = b,
      bufferSizeLevel_2 = c, bufferSizeLevel_3 = d\<rparr> = Inr bs"
    and p: "p = \<lparr>mp_bytes = bs, mp_tag = \<lparr>bt_rnti = mac_rnti ue, bt_lcid = SHORT_BSR, bt_layer = 0\<rparr>\<rparr>"
    using assms
    by (auto simp: SendReportBufferStatus_def SHORT_BSR_allowed res_simps Let_def send_def split: if_splits)
  have "levels_of q [a, b, c, d]"
    using l by (auto simp: levels_of_def less_Suc_eq numeral_eq_Suc)
  moreover have "bsr_packet (mac_rnti ue) [a, b, c, d] p" using bs p by (simp add: bsr_packet_def)
  ultimately show ?thesis using q by blast
qed

lemma receive_bsr:
  assumes "bsr_packet rnti levels p" and "map_of (gm_rlcAttached m) rnti \<noteq> None"
  shows "gnb_DoReceivePhyPdu phy m p = Inr (emit (UlReceiveMacCe (report_of rnti levels) (ucast (gp_bwpId phy))) m)"
proof -
  let ?b = "\<lparr>bsr_header = SHORT_BSR, bufferSizeLevel_0 = levels ! 0, bufferSizeLevel_1 = levels ! 1,
       bufferSizeLevel_2 = levels ! 2, bufferSizeLevel_3 = levels ! 3\<rparr>"
  have len: "length levels = 4" and ser: "bsr_Serialize ?b = Inr (mp_bytes p)" and tag: "bt_rnti (mp_tag p) = rnti"
    using assms(1) by (simp_all add: bsr_packet_def)
  have ok: "bsr_ok ?b" using ser by (auto simp: bsr_ok_def bsr_Serialize_def res_simps)
  have "take_header bsr_Deserialize (mp_bytes p) = Inr (?b, [])"
    using short_bsr.take_header_ser[OF ok ser, of "[]"] by simp
  moreover have "fs_Deserialize (mp_bytes p) = Inr (SHORT_BSR, 1)"
  proof -
    have "mp_bytes p = fs_Serialize SHORT_BSR @ [levels ! 0, levels ! 1, levels ! 2, levels ! 3]"
      using ser by (auto simp: bsr_Serialize_def res_simps)
    then show ?thesis by (simp only: fs_round) (simp add: SHORT_BSR_def)
  qed
  moreover have "levels = [levels ! 0, levels ! 1, levels ! 2, levels ! 3]"
    using len by (auto simp: list_eq_iff_nth_eq less_Suc_eq numeral_eq_Suc)
  ultimately show ?thesis using assms(2) tag
    by (auto simp: gnb_DoReceivePhyPdu_def ReceiveBsrMessage_def report_of_def)
qed

lemma report_to_mac:
  assumes "bsr_packet rnti levels p" and "map_of macs cc = Some m" and "map_of (gm_rlcAttached m) rnti \<noteq> None"
    and "ucast (gp_bwpId phy) = cc" and "bg_algorithm mg \<noteq> None"
  shows "\<exists>macs' m'. receive_pdu phy mg macs cc p = Inr macs' \<and> map_of macs' cc = Some m' \<and>
    gm_ulCeReceived m' = gm_ulCeReceived m @ [report_of rnti levels] \<and> gm_srRntiList m' = gm_srRntiList m \<and>
    gm_ulCqiReceived m' = gm_ulCqiReceived m \<and> (\<forall>k. k \<noteq> cc \<longrightarrow> map_of macs' k = map_of macs k)"
  using receive_bsr[OF assms(1,3), of phy] assms(2,4,5)
  by (auto simp: receive_pdu_def with_ccm_def emit_def ccm_call_def DoUlReceiveMacCe_def report_of_def
      DoReportMacCeToScheduler_def map_of_update)

subsection \<open>From end to end\<close>

lemma level_zero: "FromBytesToLevel 0 = Inr 0" "FromLevelToBytes 0 = 0"
  by (simp_all add: FromBytesToLevel_def FromLevelToBytes_def lookupVector_def)

lemma levels_usable:
  assumes "levels_of queue levels" and "map_of (s_ueMap s) rnti = Some u"
    and "\<forall>l < 4. map_of (ue_ulLCG u) l = None \<longrightarrow> queue ! unat l = 0"
  shows "usable s (report_of rnti levels)"
proof -
  have "FromLevelToBytes (levels ! unat l) = 0" if l: "l < 4" "map_of (ue_ulLCG u) l = None" for l
  proof -
    have "unat l < 4" using l(1) by (simp add: word_less_nat_alt)
    then have "FromBytesToLevel (ucast (queue ! unat l)) = Inr (levels ! unat l)"
      using assms(1) by (simp add: levels_of_def)
    moreover have "queue ! unat l = 0" using assms(3) l by blast
    ultimately show ?thesis by (simp add: level_zero)
  qed
  then show ?thesis using assms(1,2) by (simp add: usable_def report_of_def levels_of_def pend_def)
qed

lemma level_covers:
  assumes "FromBytesToLevel (ucast q) = Inr lev" and "(q :: u32) \<le> 150000"
  shows "ucast q \<le> FromLevelToBytes lev"
proof (cases "q = 0")
  case False
  have n: "unat (ucast q :: u64) = unat q" using u_lt[of q]
    by (simp add: unsigned_ucast_eq take_bit_nat_eq_self_iff)
  then have "(ucast q :: u64) \<noteq> 0" "(ucast q :: u64) \<le> 150000"
    using False assms(2) by (auto simp: word_le_nat_alt unat_eq_0)
  then obtain i where "i < 31" "FromBytesToLevel (ucast q) = Inr (of_nat i)" "(ucast q :: u64) \<le> lookupVector ! i"
    using bytes_to_level by blast
  moreover have "length lookupVector = 31" by (simp add: lookupVector_def)
  ultimately show ?thesis using assms(1) by (auto simp: FromLevelToBytes_def unat_of_nat)
qed (use level_zero assms(1) in simp)

lemma cqi_requests: "foldE (sched_request e ce) s (map SchedUlCqiInfoReq xs) = foldE (DoSchedUlCqiInfoReq ce) s xs"
  by (induction xs arbitrary: s) (simp_all add: sched_request_def)

text \<open>The scheduler in an uplink slot in which \<open>r\<close> is the last report that waits.\<close>

lemma uplink_slot_requests:
  assumes "foldE (DoSchedUlCqiInfoReq ce) s (gm_ulCqiReceived m) = Inr s1" and wf: "sched_wf s1"
    and "distinct (gm_srRntiList m)" and "\<forall>r \<in> set (gm_srRntiList m). map_of (s_ueMap s1) r \<noteq> None"
    and ces: "gm_ulCeReceived m = bs @ [r]" and bs: "\<forall>b \<in> set bs. usable s1 b" and r: "usable s1 r"
  shows "\<exists>s' ue t lcgs. foldE (sched_request e ce) s (uplink_messages m sfn ty) = Inr s' \<and> sched_wf s' \<and>
    set (gm_srRntiList m) \<subseteq> set (s_srList s') \<and> pend s' = pend s1 \<and>
    map_of (s_ueMap s') (ce_rnti r) = Some (ue\<lparr>ue_ulLCG := lcgs\<rparr>) \<and>
    (\<forall>l. map_option lcg_pending (map_of (ue_ulLCG ue) l) = the (pend s1 (ce_rnti r)) l) \<and>
    reported (ce_bufferStatus r) {0, 1, 2, 3} (ue_ulLCG ue) lcgs \<and>
    map_of (s_triggerMap s') (ce_rnti r) = Some (told (ce_bufferStatus r) t)"
proof -
  obtain s2 where s2: "DoSchedUlSrInfoReq s1 (gm_srRntiList m) = Inr s2" "sched_wf s2" "s_ueMap s2 = s_ueMap s1"
      "set (gm_srRntiList m) \<subseteq> set (s_srList s2)"
    using requests_noted[OF assms(2,3)] assms(4) by blast
  have pend2: "pend s2 = pend s1" using s2(3) by (simp add: pend_def fun_eq_iff)
  obtain s3 where s3: "DoSchedUlMacCtrlInfoReq s2 bs = Inr s3" "sched_wf s3" "pend s3 = pend s1"
      "s_srList s3 = s_srList s2"
    using usable_reports[OF s2(2), of bs] bs pend2 by (auto simp: usable_def)
  have r3: "usable s3 r" using r s3(3) by (simp add: usable_def)
  obtain ue t lcgs where ue: "map_of (s_ueMap s3) (ce_rnti r) = Some ue"
    and b: "BSRReceivedFromUe s3 r = Inr (s3\<lparr>s_triggerMap := AList.update (ce_rnti r)
        (told (ce_bufferStatus r) t) (s_triggerMap s3),
      s_ueMap := AList.update (ce_rnti r) (ue\<lparr>ue_ulLCG := lcgs\<rparr>) (s_ueMap s3)\<rparr>)" (is "_ = Inr ?s")
    and rep: "reported (ce_bufferStatus r) {0, 1, 2, 3} (ue_ulLCG ue) lcgs"
    using usable_step[OF s3(2) r3] by blast
  have p: "pend s3 (ce_rnti r) = Some (\<lambda>l. map_option lcg_pending (map_of (ue_ulLCG ue) l))"
    using ue by (simp add: pend_def)
  have "DoSchedUlMacCtrlInfoReq s2 (bs @ [r]) = Inr ?s"
    using s3(1) b r by (simp add: DoSchedUlMacCtrlInfoReq_def foldE_append usable_def)
  then have "foldE (sched_request e ce) s (uplink_messages m sfn ty) = Inr ?s"
    using assms(1) s2(1) ces
    by (simp add: uplink_messages_eq foldE_append cqi_requests) (simp add: sched_request_def)
  moreover have "sched_wf ?s" "pend ?s = pend s1" using sched_wf_BSR[OF s3(2) b] pend_BSR[OF b] s3(3) by simp_all
  ultimately show ?thesis using s2(4) s3(4) rep p s3(3) by (intro exI[of _ ?s] exI[of _ ue] exI[of _ t] exI[of _ lcgs])
      (simp add: map_of_update)
qed

text \<open>
  C1. What a UE reports reaches the scheduler. When the MAC of a UE has sent a buffer status report, the packet goes
  through the MAC and the manager of the gNB without a failure. In the next uplink slot the scheduler takes every message
  the MAC hands over, if the UEs whose reports and requests wait there are attached and their CQI reports go through:
  each request is noted, and each group of the UE holds the bytes of the level that the UE found for its queue, beside
  what waits for retransmission; a queue of up to 150000 bytes is covered by that level. The trigger that estimates the
  demand of the UE is told the level of group 2.
\<close>
theorem uplink_report_reaches_scheduler:
  assumes "SendReportBufferStatus ue dataSfn symStart = Inr ue'"
    and "mac_sent ue' = mac_sent ue @ [SendMacPdu p sfn' symStart' stream]"
    and "map_of macs cc = Some m" and "map_of (gm_rlcAttached m) (mac_rnti ue) \<noteq> None"
    and "ucast (gp_bwpId phy) = cc" and "bg_algorithm mg \<noteq> None"
    and "foldE (DoSchedUlCqiInfoReq ce) s (gm_ulCqiReceived m) = Inr s1" and "sched_wf s1"
    and "distinct (gm_srRntiList m)" and "\<forall>r \<in> set (gm_srRntiList m). map_of (s_ueMap s1) r \<noteq> None"
    and "\<forall>b \<in> set (gm_ulCeReceived m). usable s1 b"
    and "lcg_queues ue = Inr queue" and "map_of (s_ueMap s1) (mac_rnti ue) = Some u"
    and "\<forall>l < 4. map_of (ue_ulLCG u) l = None \<longrightarrow> queue ! unat l = 0"
  shows "\<exists>macs' m' s' u' t levels. receive_pdu phy mg macs cc p = Inr macs' \<and> map_of macs' cc = Some m' \<and>
    foldE (sched_request e ce) s (uplink_messages m' sfn ty) = Inr s' \<and> sched_wf s' \<and>
    set (gm_srRntiList m) \<subseteq> set (s_srList s') \<and> map_of (s_ueMap s') (mac_rnti ue) = Some u' \<and>
    length levels = 4 \<and>
    (\<forall>l g. l < 4 \<longrightarrow> map_of (ue_ulLCG u) l = Some g \<longrightarrow>
       FromBytesToLevel (ucast (queue ! unat l)) = Inr (levels ! unat l) \<and>
       (queue ! unat l \<le> 150000 \<longrightarrow> ucast (queue ! unat l) \<le> FromLevelToBytes (levels ! unat l)) \<and>
       (\<exists>g'. map_of (ue_ulLCG u') l = Some g' \<and>
          GetReactiveTotalSize g' = ucast (FromLevelToBytes (levels ! unat l)) + lcg_pending g)) \<and>
    map_of (s_triggerMap s') (mac_rnti ue) = Some t \<and> in_bsr (t_input t) = uint (levels ! 2) \<and>
    in_get_bsr (t_input t)"
proof -
  let ?k = "mac_rnti ue"
  obtain levels where lv: "levels_of queue levels" and pk: "bsr_packet ?k levels p"
    using SendReport_packet[OF assms(1,2)] assms(12) by auto
  obtain macs' m' where rec: "receive_pdu phy mg macs cc p = Inr macs'" "map_of macs' cc = Some m'"
    and m': "gm_ulCeReceived m' = gm_ulCeReceived m @ [report_of ?k levels]" "gm_srRntiList m' = gm_srRntiList m"
      "gm_ulCqiReceived m' = gm_ulCqiReceived m"
    using report_to_mac[OF pk assms(3-6)] by blast
  let ?r = "report_of ?k levels"
  have r: "usable s1 ?r" by (rule levels_usable[OF lv assms(13,14)])
  obtain s' ue2 t lcgs where s': "foldE (sched_request e ce) s (uplink_messages m' sfn ty) = Inr s'" "sched_wf s'"
      "set (gm_srRntiList m) \<subseteq> set (s_srList s')" "map_of (s_ueMap s') ?k = Some (ue2\<lparr>ue_ulLCG := lcgs\<rparr>)"
      "map_of (s_triggerMap s') ?k = Some (told levels t)"
    and pen: "\<And>l. map_option lcg_pending (map_of (ue_ulLCG ue2) l) = the (pend s1 ?k) l"
    and rep: "reported levels {0, 1, 2, 3} (ue_ulLCG ue2) lcgs"
    using uplink_slot_requests[of ce s m' s1 "gm_ulCeReceived m" ?r e sfn ty] assms(7-11) m' r
    by (auto simp: report_of_def)
  have groups: "FromBytesToLevel (ucast (queue ! unat l)) = Inr (levels ! unat l) \<and>
      (queue ! unat l \<le> 150000 \<longrightarrow> ucast (queue ! unat l) \<le> FromLevelToBytes (levels ! unat l)) \<and>
      (\<exists>g'. map_of lcgs l = Some g' \<and>
        GetReactiveTotalSize g' = ucast (FromLevelToBytes (levels ! unat l)) + lcg_pending g)"
    if l: "l < 4" "map_of (ue_ulLCG u) l = Some g" for l g
  proof -
    have lev: "FromBytesToLevel (ucast (queue ! unat l)) = Inr (levels ! unat l)"
      using lv l(1) by (simp add: levels_of_def word_less_nat_alt)
    obtain g2 where g2: "map_of (ue_ulLCG ue2) l = Some g2" "lcg_pending g2 = lcg_pending g"
      using pen[of l] assms(13) l(2) by (auto simp: pend_def)
    then show ?thesis using reported_get[OF rep g2(1)] less4_cases[OF l(1)] lev level_covers[OF lev]
      by (auto simp: level32_def)
  qed
  have told: "in_bsr (t_input (told levels t)) = uint (levels ! 2)" "in_get_bsr (t_input (told levels t))"
    by (simp_all add: told_def)
  have "length levels = 4" using lv by (simp add: levels_of_def)
  with rec s' groups told show ?thesis by fastforce
qed

text \<open>
  A UE with 500 bytes in a channel of group 2: with the subheaders it reports a buffer of 508 bytes, level 13, which is
  535 bytes. An older report of it, and a request, wait at the gNB.
\<close>

definition demo_reporter :: "unit ue_mac" where
  "demo_reporter = (NrUeMac 0)\<lparr>mac_rnti := 7, mac_lcInfoMap := [(4, \<lparr>li_logicalChannelGroup = 2, li_macSapUser = ()\<rparr>)],
     mac_ulDci := Some (Dci_data 7 UL_DCI 0 12 [9] [20] [1] [0] DATA 0 1),
     mac_ulBsrReceived := [(4, \<lparr>rb_rnti = 7, rb_lcid = 4, rb_txQueueSize = 500, rb_txQueueHolDelay = 0,
       rb_retxQueueSize = 0, rb_retxQueueHolDelay = 0, rb_statusPduSize = 0\<rparr>)]\<rparr>"

definition demo_mac :: "(unit, unit) gnb_mac" where
  "demo_mac = (NrGnbMac ())\<lparr>gm_rlcAttached := [(7, [(4, ())])], gm_srRntiList := [7],
     gm_ulCeReceived := [report_of 7 [0, 0, 3, 0]]\<rparr>"

definition demo_manager :: "unit bwp_gnb" where
  "demo_manager = \<lparr>bg_ueInfo = [], bg_noOfComponentCarriers = 1, bg_algorithm = Some []\<rparr>"

definition demo_phy :: gnb_phy where
  "demo_phy = \<lparr>gp_bwpId = 0, gp_rbNum = 50, gp_beamConfId = (\<lambda>_. ue_beamConfId (demo_ue 7 9 0))\<rparr>"

lemma demo_queues: "lcg_queues demo_reporter = Inr [0, 0, 508, 0]"
proof -
  have "replicate 4 (0 :: u32) = [0, 0, 0, 0]" by (simp add: numeral_eq_Suc)
  then show ?thesis by (simp add: lcg_queues_def demo_reporter_def add_queue_def bsr_size_def Let_def)
qed

lemma demo_levels: "FromBytesToLevel 508 = Inr 13" "FromLevelToBytes 13 = 535"
  by (simp_all add: FromBytesToLevel_def FromLevelToBytes_def lookupVector_def)

lemma demo_sends:
  "\<exists>ue' p. SendReportBufferStatus demo_reporter SfnSf_default 2 = Inr ue' \<and>
    mac_sent ue' = mac_sent demo_reporter @ [SendMacPdu p SfnSf_default 2 0]"
proof -
  have f: "mac_rnti demo_reporter = 7" "mac_ulBsrReceived demo_reporter \<noteq> []" "tb_size demo_reporter = Inr 20"
    "mac_ulDciTotalUsed demo_reporter = 0"
    by (simp_all add: demo_reporter_def NrUeMac_def tb_size_def with_dci_def Dci_data_def)
  show ?thesis
    by (simp add: SendReportBufferStatus_def f demo_queues demo_levels level_zero SHORT_BSR_allowed bsr_Serialize_def
        fs_Serialize_def GetSize_def send_def)
qed

text \<open>The group the UE has, in \<open>demo_full\<close>.\<close>

lemma demo_full_groups:
  "map_of (s_ueMap demo_full) 7 = Some ((demo_ue 7 9 0)\<lparr>ue_srsPeriodicity := 2, ue_srsOffset := 0, ue_ulLCG := [(2, demo_lcg)]\<rparr>)"
  by (simp add: demo_full_def)

lemma demo_usable:
  assumes "length levels = 4" and "\<forall>l < 4. l \<noteq> 2 \<longrightarrow> levels ! unat (l :: u8) = 0"
  shows "usable demo_full (report_of 7 levels)"
  using assms by (auto simp: usable_def report_of_def pend_def demo_full_groups level_zero)

theorem uplink_report_reaches_scheduler_witness:
  "\<exists>ue' p macs' m' s' u' g'. SendReportBufferStatus demo_reporter SfnSf_default 2 = Inr ue' \<and>
    mac_sent ue' = mac_sent demo_reporter @ [SendMacPdu p SfnSf_default 2 0] \<and>
    receive_pdu demo_phy demo_manager [(0, demo_mac)] 0 p = Inr macs' \<and> map_of macs' 0 = Some m' \<and>
    foldE (sched_request demo_env demo_cqi) demo_full (uplink_messages m' SfnSf_default SlotUL) = Inr s' \<and>
    {7} \<subseteq> set (s_srList s') \<and> map_of (s_ueMap s') 7 = Some u' \<and> map_of (ue_ulLCG u') 2 = Some g' \<and>
    GetReactiveTotalSize g' = 535 + 30"
proof -
  let ?u = "(demo_ue 7 9 0)\<lparr>ue_srsPeriodicity := 2, ue_srsOffset := 0, ue_ulLCG := [(2, demo_lcg)]\<rparr>"
  obtain ue' p where send: "SendReportBufferStatus demo_reporter SfnSf_default 2 = Inr ue'"
      "mac_sent ue' = mac_sent demo_reporter @ [SendMacPdu p SfnSf_default 2 0]"
    using demo_sends by blast
  have nth: "[0, 0, x, 0] ! unat l = (0 :: 'z :: zero)" if "l < 4" "l \<noteq> 2" for l :: u8 and x
    using less4_cases[OF that(1)] that(2) by auto
  have mac: "map_of [(0, demo_mac)] (0 :: u8) = Some demo_mac" "map_of (gm_rlcAttached demo_mac) (mac_rnti demo_reporter) \<noteq> None"
    "ucast (gp_bwpId demo_phy) = (0 :: u8)" "bg_algorithm demo_manager \<noteq> None"
    "foldE (DoSchedUlCqiInfoReq demo_cqi) demo_full (gm_ulCqiReceived demo_mac) = Inr demo_full"
    "distinct (gm_srRntiList demo_mac)" "gm_srRntiList demo_mac = [7]" "mac_rnti demo_reporter = 7"
    by (simp_all add: demo_mac_def NrGnbMac_def demo_reporter_def demo_phy_def demo_manager_def)
  have sr: "\<forall>r \<in> set (gm_srRntiList demo_mac). map_of (s_ueMap demo_full) r \<noteq> None"
    by (simp add: mac(7) demo_full_groups)
  have "usable demo_full (report_of 7 [0, 0, 3, 0])" by (rule demo_usable) (auto intro: nth)
  then have waiting: "\<forall>b \<in> set (gm_ulCeReceived demo_mac). usable demo_full b" by (simp add: demo_mac_def)
  have k: "map_of (s_ueMap demo_full) (mac_rnti demo_reporter) = Some ?u" by (simp add: mac(8) demo_full_groups)
  have q: "\<forall>l < 4. map_of (ue_ulLCG ?u) l = None \<longrightarrow> [0, 0, 508, 0 :: u32] ! unat l = 0"
    by (auto intro: nth)
  have g: "map_of (ue_ulLCG ?u) 2 = Some demo_lcg" "lcg_pending demo_lcg = 30" "(2 :: u8) < 4"
    by (simp_all add: demo_lcg_def lcg_pending_def)
  from uplink_report_reaches_scheduler[OF send mac(1-5) demo_full_wf mac(6) sr waiting demo_queues k q,
      of demo_env SfnSf_default SlotUL]
  obtain macs' m' s' u' levels g' where *: "receive_pdu demo_phy demo_manager [(0, demo_mac)] 0 p = Inr macs'"
      "map_of macs' 0 = Some m'"
      "foldE (sched_request demo_env demo_cqi) demo_full (uplink_messages m' SfnSf_default SlotUL) = Inr s'"
      "set (gm_srRntiList demo_mac) \<subseteq> set (s_srList s')" "map_of (s_ueMap s') (mac_rnti demo_reporter) = Some u'"
      "FromBytesToLevel (ucast ([0, 0, 508, 0 :: u32] ! unat (2 :: u8))) = Inr (levels ! unat (2 :: u8))"
      "map_of (ue_ulLCG u') 2 = Some g'"
      "GetReactiveTotalSize g' = ucast (FromLevelToBytes (levels ! unat (2 :: u8))) + lcg_pending demo_lcg"
    using g(1,3) by blast
  have "levels ! unat (2 :: u8) = 13" using *(6) demo_levels(1) by simp
  with *(8) have "GetReactiveTotalSize g' = 535 + 30" using demo_levels(2) g(2) by simp
  then show ?thesis using send * by (auto simp: mac(7,8))
qed

end
