(* ===== verification/Amc.thy ===== *)
theory Amc
  imports Bullet
begin

text \<open>
  Adaptive modulation and coding: \<open>NrAmc\<close> of \<open>contrib/nr/model/nr-amc.cc\<close> and the error model the simulations of the
  repository use, \<open>NrLteMiErrorModel\<close> of \<open>nr-lte-mi-error-model.cc\<close>. What they compute with is here; the measured curves
  (mutual information against SINR, and the parameters of the block error rate) are data, and a parameter \<open>curves\<close>.
\<close>

subsection \<open>Numbers\<close>

definition dec :: "rat \<Rightarrow> fp" where
  \<comment> \<open>a decimal literal\<close>
  "dec x = fl x"

definition fp_of_u32 :: "u32 \<Rightarrow> fp" where
  "fp_of_u32 n = fp_of_int (uint n)"

fun fp_ceil :: "fp \<Rightarrow> fp" where
  "fp_ceil (Num x) = Num (of_int \<lceil>x\<rceil>)"
| "fp_ceil a = a"

fun fp_floor :: "fp \<Rightarrow> fp" where
  "fp_floor (Num x) = Num (of_int \<lfloor>x\<rfloor>)"
| "fp_floor a = a"

definition fp_eq :: "fp \<Rightarrow> fp \<Rightarrow> bool" where
  "fp_eq a b \<longleftrightarrow> fp_le a b \<and> fp_le b a"

text \<open>\<open>std::max (a, b)\<close>\<close>

definition fp_max :: "fp \<Rightarrow> fp \<Rightarrow> fp" where
  "fp_max a b = (if fp_less a b then b else a)"

text \<open>An array: a read past its end is undefined.\<close>

definition arr :: "'a list \<Rightarrow> nat \<Rightarrow> 'a res" where
  "arr xs i = defined_if (i < length xs) (Inr (xs ! i))"

lemma arr_simps [simp]: "i < length xs \<Longrightarrow> arr xs i = Inr (xs ! i)"
  by (simp add: arr_def)

subsection \<open>The error model\<close>

definition McsEcrTable :: "fp list" where
  "McsEcrTable = map dec [8/100, 1/10, 11/100, 15/100, 19/100, 24/100, 3/10, 37/100, 44/100, 51/100,
     3/10, 33/100, 37/100, 42/100, 48/100, 54/100, 6/10, 43/100, 45/100, 5/10,
     55/100, 6/10, 65/100, 7/10, 75/100, 8/10, 85/100, 89/100, 92/100]"

definition BlerCurvesEcrMap :: "fp list" where
  "BlerCurvesEcrMap = map dec [1/100, 26/1000, 4/100, 8/100, 1/10, 11/100, 15/100, 19/100, 24/100, 3/10, 37/100,
     44/100, 51/100, 75/1000, 1/10, 15/100, 3/10, 33/100, 37/100, 42/100, 48/100, 54/100, 6/10, 1075/10000, 143/1000,
     215/1000, 43/100, 45/100, 5/10, 55/100, 6/10, 65/100, 7/10, 75/100, 8/10, 85/100, 89/100, 92/100]"

definition McsEcrBlerTableMapping :: "u8 list" where
  "McsEcrBlerTableMapping = [3, 4, 5, 6, 7, 8, 9, 10, 11, 12, 16, 17, 18, 19, 20, 21, 22, 26, 27, 28,
     29, 30, 31, 32, 33, 34, 35, 36, 37]"

definition cbMiSizeTable :: "nat list" where
  "cbMiSizeTable = [40, 104, 160, 256, 512, 1024, 2560, 4032, 6144]"

text \<open>The column of block sizes: steps of 8 up to 512, of 16 up to 1024, of 32 up to 2048 and of 64 up to 6144.\<close>

definition cbSizeTable :: "nat list" where
  "cbSizeTable = map (\<lambda>i. 40 + 8 * i) [0..<60] @ map (\<lambda>i. 528 + 16 * i) [0..<32] @
     map (\<lambda>i. 1056 + 32 * i) [0..<32] @ map (\<lambda>i. 2112 + 64 * i) [0..<64]"

definition SpectralEfficiencyForCqi :: "fp list" where
  "SpectralEfficiencyForCqi = map dec [0, 15/100, 23/100, 38/100, 6/10, 88/100, 118/100, 148/100, 191/100, 241/100,
     273/100, 332/100, 39/10, 452/100, 512/100, 555/100]"

definition SpectralEfficiencyForMcs :: "fp list" where
  "SpectralEfficiencyForMcs = map dec [15/100, 19/100, 23/100, 31/100, 38/100, 49/100, 6/10, 74/100, 88/100, 103/100,
     118/100, 133/100, 148/100, 17/10, 191/100, 216/100, 241/100, 257/100, 273/100, 303/100, 332/100, 361/100, 39/10,
     421/100, 452/100, 482/100, 512/100, 533/100, 555/100, 0, 0, 0]"

definition ModulationSchemeForMcs :: "u8 list" where
  "ModulationSchemeForMcs = [2, 2, 2, 2, 2, 2, 2, 2, 2, 2, 4, 4, 4, 4, 4, 4, 4, 6, 6, 6, 6, 6, 6, 6, 6, 6, 6, 6, 6,
     2, 4, 6]"

definition mi_GetMaxMcs :: u8 where "mi_GetMaxMcs = 28"

definition mi_GetSpectralEfficiencyForCqi :: "u8 \<Rightarrow> fp res" where
  "mi_GetSpectralEfficiencyForCqi cqi = ns_abort_if (cqi > 15) (arr SpectralEfficiencyForCqi (unat cqi))"

definition mi_GetSpectralEfficiencyForMcs :: "u8 \<Rightarrow> fp res" where
  "mi_GetSpectralEfficiencyForMcs mcs = ns_abort_if (mcs > mi_GetMaxMcs) (arr SpectralEfficiencyForMcs (unat mcs))"

definition mi_GetPayloadSize :: "u32 \<Rightarrow> u8 \<Rightarrow> u32 \<Rightarrow> u32 res" where
  "mi_GetPayloadSize usefulSC mcs rbNum =
     (let rscElement = usefulSC * rbNum in
      bindE (arr McsEcrTable (unat mcs)) (\<lambda>Rcode.
      bindE (arr ModulationSchemeForMcs (unat mcs)) (\<lambda>Qm.
      fp_to_u32 (fp_div (fp_mul (fp_of_u32 (rscElement * ucast Qm)) Rcode) (Num 8)))))"

definition mi_GetMaxCbSize :: "u32 \<Rightarrow> u8 \<Rightarrow> u32" where
  "mi_GetMaxCbSize tbSize mcs = of_nat (last cbSizeTable div 8)"

subsection \<open>Code blocks\<close>

record code_blocks =
  cb_C :: u32
  cb_Cplus :: u32
  cb_Kplus :: u32
  cb_Cminus :: u32
  cb_Kminus :: u32

text \<open>\<open>std::upper_bound\<close> over all sizes but the last: the index of the first that is greater, or of the last size.\<close>

definition upper_size :: "fp \<Rightarrow> nat" where
  "upper_size v = length (takeWhile (\<lambda>k. \<not> fp_less v (fp_of_int (int k))) (butlast cbSizeTable))"

definition segment :: "u32 \<Rightarrow> code_blocks res" where
  "segment B =
     (let Z = 6144 in
      bindE (if B \<le> Z then Inr (1, B)
             else bindE (fp_to_u32 (fp_ceil (fp_div (fp_of_u32 B) (fp_of_u32 (Z - 24))))) (\<lambda>C. Inr (C, B + C * 24)))
      (\<lambda>(C, B1).
      let i = upper_size (fp_add (fp_div (fp_of_u32 B1) (fp_of_u32 C)) (dec (1 / 1000)));
          Kplus = of_nat (cbSizeTable ! i) in
      if C = 1 then Inr \<lparr>cb_C = C, cb_Cplus = 1, cb_Kplus = Kplus, cb_Cminus = 0, cb_Kminus = 0\<rparr>
      else
        let Kminus = of_nat (cbSizeTable ! (i - 1)) in
        ns_assert (Kplus \<ge> Kminus)
        (let deltaK = Kplus - Kminus in
         bindE (fp_to_u32 (fp_floor (fp_div (fp_sub (fp_mul (fp_of_u32 C) (fp_of_u32 Kplus)) (fp_of_u32 B1))
                 (fp_of_u32 deltaK)))) (\<lambda>Cminus.
         Inr \<lparr>cb_C = C, cb_Cplus = C - Cminus, cb_Kplus = Kplus, cb_Cminus = Cminus, cb_Kminus = Kminus\<rparr>))))"

subsection \<open>Error rates\<close>

record mi_map =
  mm_axis :: "fp list"
  mm_values :: "fp list"

record curves =
  cv_qpsk :: mi_map
  cv_16qam :: mi_map
  cv_64qam :: mi_map
  cv_bEcr :: "fp list list"
  cv_cEcr :: "fp list list"

text \<open>The mutual information of one resource block; the axis is uniformly spaced.\<close>

definition mi_of :: "mi_map \<Rightarrow> fp \<Rightarrow> fp res" where
  "mi_of m sinrLin =
     (let n = length (mm_axis m) in
      bindE (arr (mm_axis m) (n - 1)) (\<lambda>hi.
      bindE (arr (mm_axis m) 0) (\<lambda>lo.
      if fp_less hi sinrLin then Inr (Num 1)
      else
        let scalingCoeff = fp_div (fp_of_int (int (n - 1))) (fp_sub hi lo) in
        bindE (fp_to_u32 (fp_max (Num 0) (fp_floor (fp_add (fp_mul (fp_sub sinrLin lo) scalingCoeff) (Num 1)))))
          (\<lambda>sinrIndex. ns_assert (unat sinrIndex < n) (arr (mm_values m) (unat sinrIndex))))))"

definition Mib :: "curves \<Rightarrow> fp list \<Rightarrow> nat list \<Rightarrow> u8 \<Rightarrow> fp res" where
  "Mib cv sinr rbs mcs =
     (let m = (if mcs \<le> 9 then cv_qpsk cv else if mcs \<le> 16 then cv_16qam cv else cv_64qam cv) in
      bindE (foldE (\<lambda>MIsum i. bindE (arr sinr i) (\<lambda>sinrLin. bindE (mi_of m sinrLin) (\<lambda>MI. Inr (fp_add MIsum MI))))
               (Num 0) rbs) (\<lambda>MIsum.
      Inr (if rbs = [] then Num 0 else fp_div MIsum (fp_of_int (int (length rbs))))))"

text \<open>
  A negative entry stands for a missing curve: the next larger size that has one is taken. \<open>rest\<close> are the rows from the
  one of the block's size on.
\<close>

fun curve_entry :: "fp list list \<Rightarrow> u8 \<Rightarrow> fp \<Rightarrow> fp res" where
  "curve_entry [] ecrId b = Inr b"
| "curve_entry (row # rest) ecrId b =
     (if fp_less b (Num 0) then bindE (arr row (unat ecrId)) (\<lambda>b. curve_entry rest ecrId b) else Inr b)"

definition curve_at :: "fp list list \<Rightarrow> nat \<Rightarrow> u8 \<Rightarrow> fp res" where
  "curve_at tab cbIndex ecrId =
     bindE (arr tab cbIndex) (\<lambda>row. bindE (arr row (unat ecrId)) (\<lambda>b. curve_entry (drop cbIndex tab) ecrId b))"

definition MappingMiBler :: "libm \<Rightarrow> curves \<Rightarrow> fp \<Rightarrow> u8 \<Rightarrow> u32 \<Rightarrow> fp res" where
  "MappingMiBler lm cv mib ecrId cbSize =
     ns_assert (ecrId \<le> 37)
     (let cbIndex = length (takeWhile (\<lambda>k. k \<le> unat cbSize) (tl cbMiSizeTable)) in
      bindE (curve_at (cv_bEcr cv) cbIndex ecrId) (\<lambda>b.
      bindE (curve_at (cv_cEcr cv) cbIndex ecrId) (\<lambda>c.
      Inr (fp_mul (Num (1 / 2)) (fp_sub (Num 1)
        (lm_erf lm (fp_div (fp_sub mib b) (fp_mul (lm_sqrt lm (Num 2)) c))))))))"

text \<open>The closest code rate of the same modulation that is not above the effective one.\<close>

fun ecr_down :: "fp \<Rightarrow> nat \<Rightarrow> nat \<Rightarrow> nat" where
  "ecr_down Reff least 0 = 0"
| "ecr_down Reff least (Suc i) =
     (if fp_less Reff (BlerCurvesEcrMap ! Suc i) \<and> Suc i > least then ecr_down Reff least i else Suc i)"

definition ecr_id :: "u8 \<Rightarrow> bool \<Rightarrow> fp \<Rightarrow> u8" where
  "ecr_id mcs first Reff =
     (if first then McsEcrBlerTableMapping ! unat mcs
      else if mcs \<le> 9 then of_nat (ecr_down Reff 0 9)
      else if mcs \<le> 16 then of_nat (ecr_down Reff 10 16)
      else of_nat (ecr_down Reff 17 28))"

record mi_output =
  mo_tbler :: fp
  mo_mi :: fp
  mo_miTotal :: fp
  mo_infoBits :: u32
  mo_codeBits :: u32

text \<open>What the transmissions before this one add: the sums of code bits and of information.\<close>

definition add_history :: "u32 \<times> fp \<Rightarrow> mi_output \<Rightarrow> u32 \<times> fp" where
  "add_history = (\<lambda>(codeBitsSum, miSum) h.
     (codeBitsSum + mo_codeBits h, fp_add miSum (fp_mul (mo_mi h) (fp_of_u32 (mo_codeBits h)))))"

definition GetTbBitDecodificationStats :: "libm \<Rightarrow> curves \<Rightarrow> fp list \<Rightarrow> nat list \<Rightarrow> u32 \<Rightarrow> u8 \<Rightarrow> mi_output list \<Rightarrow>
    mi_output res" where
  "GetTbBitDecodificationStats lm cv sinr rbs tbSize mcs history =
     ns_abort_if (mcs > mi_GetMaxMcs)
     (bindE (Mib cv sinr rbs mcs) (\<lambda>tbMi.
      bindE (arr McsEcrTable (unat mcs)) (\<lambda>ecr.
      let codeBits = fp_div (fp_of_u32 tbSize) ecr in
      bindE (if history = [] then Inr (tbMi, Num 0)
             else
               let (codeBitsSum, miSum) = foldl add_history (0, Num 0) history in
               bindE (fp_to_u32 (fp_add (fp_of_u32 codeBitsSum) codeBits)) (\<lambda>codeBitsSum.
               Inr (fp_div (fp_add miSum (fp_mul tbMi codeBits)) (fp_of_u32 codeBitsSum),
                    fp_div (fp_of_u32 (mo_infoBits (hd history))) (fp_of_u32 codeBitsSum)))) (\<lambda>(MI, Reff).
      bindE (segment tbSize) (\<lambda>cb.
      let ecrId = ecr_id mcs (history = []) Reff in
      bindE (MappingMiBler lm cv MI ecrId (cb_Kplus cb)) (\<lambda>cbler.
      bindE (if cb_C cb \<noteq> 1 then
               bindE (MappingMiBler lm cv MI ecrId (cb_Kminus cb)) (\<lambda>cblerMinus.
               Inr (fp_sub (Num 1)
                 (fp_mul (fp_mul (Num 1) (lm_pow lm (fp_sub (Num 1) cbler) (fp_of_u32 (cb_Cplus cb))))
                   (lm_pow lm (fp_sub (Num 1) cblerMinus) (fp_of_u32 (cb_Cminus cb))))))
             else Inr cbler) (\<lambda>errorRate.
      bindE (fp_to_u32 codeBits) (\<lambda>codeBits.
      Inr \<lparr>mo_tbler = errorRate, mo_mi = tbMi, mo_miTotal = MI, mo_infoBits = tbSize, mo_codeBits = codeBits\<rparr>))))))))"

definition GetTbDecodificationStats :: "libm \<Rightarrow> curves \<Rightarrow> fp list \<Rightarrow> nat list \<Rightarrow> u32 \<Rightarrow> u8 \<Rightarrow> mi_output list \<Rightarrow>
    mi_output res" where
  "GetTbDecodificationStats lm cv sinr rbs tbSize mcs history =
     GetTbBitDecodificationStats lm cv sinr rbs (tbSize * 8) mcs history"

subsection \<open>NrAmc\<close>

text \<open>
  The operations of an error model; a block error rate is asked for a first transmission only. \<open>lena\<close> says whether the
  model is \<open>LenaErrorModel\<close>.
\<close>

record error_model =
  em_lena :: bool
  em_lteMi :: bool
  em_maxMcs :: u8
  em_payload :: "u32 \<Rightarrow> u8 \<Rightarrow> u32 \<Rightarrow> u32 res"
  em_maxCb :: "u32 \<Rightarrow> u8 \<Rightarrow> u32"
  em_seCqi :: "u8 \<Rightarrow> fp res"
  em_seMcs :: "u8 \<Rightarrow> fp res"
  em_tbler :: "fp list \<Rightarrow> nat list \<Rightarrow> u32 \<Rightarrow> u8 \<Rightarrow> fp res"

definition NrLteMiErrorModel :: "libm \<Rightarrow> curves \<Rightarrow> error_model" where
  "NrLteMiErrorModel lm cv = \<lparr>em_lena = False, em_lteMi = True, em_maxMcs = mi_GetMaxMcs, em_payload = mi_GetPayloadSize,
     em_maxCb = mi_GetMaxCbSize, em_seCqi = mi_GetSpectralEfficiencyForCqi, em_seMcs = mi_GetSpectralEfficiencyForMcs,
     em_tbler = (\<lambda>sinr rbs tbSize mcs. bindE (GetTbDecodificationStats lm cv sinr rbs tbSize mcs [])
                   (\<lambda>out. Inr (mo_tbler out)))\<rparr>"

datatype AmcModel = ShannonModel | ErrorModel

record amc =
  amc_model :: AmcModel
  amc_numRefScPerRb :: u8
  amc_errorModel :: error_model
  amc_lastMcs :: u16

definition SetNumRefScPerRb :: "amc \<Rightarrow> u8 \<Rightarrow> amc" where
  "SetNumRefScPerRb a nref = a\<lparr>amc_numRefScPerRb := nref\<rparr>"

definition SetAmcModel :: "amc \<Rightarrow> AmcModel \<Rightarrow> amc" where
  "SetAmcModel a m = a\<lparr>amc_model := m\<rparr>"

definition SetErrorModelType :: "amc \<Rightarrow> error_model \<Rightarrow> amc" where
  "SetErrorModelType a em = a\<lparr>amc_errorModel := em\<rparr>"

definition amc_GetMaxMcs :: "amc \<Rightarrow> u32" where
  "amc_GetMaxMcs a = ucast (em_maxMcs (amc_errorModel a))"

definition GetBer :: "amc \<Rightarrow> fp" where
  "GetBer a = (if em_lteMi (amc_errorModel a) \<or> em_lena (amc_errorModel a) then dec (5 / 100000) else dec (1 / 100000))"

definition amc_GetPayloadSize :: "amc \<Rightarrow> u8 \<Rightarrow> u32 \<Rightarrow> u32 res" where
  "amc_GetPayloadSize a mcs nprb = em_payload (amc_errorModel a) (12 - ucast (amc_numRefScPerRb a)) mcs nprb"

text \<open>The quotient under \<open>ceil\<close> is one of integers, so it has been rounded down before. \<open>m_crcLen\<close> is 3 bytes.\<close>

definition CalculateTbSize :: "amc \<Rightarrow> u8 \<Rightarrow> u32 \<Rightarrow> u32 res" where
  "CalculateTbSize a mcs nprb =
     (let em = amc_errorModel a in
      ns_assert (mcs \<le> em_maxMcs em)
      (bindE (amc_GetPayloadSize a mcs nprb) (\<lambda>payloadSize.
       if em_lena em then Inr payloadSize
       else
         let tbSize = (if payloadSize \<ge> 3 then payloadSize - 3 else payloadSize);
             cbSize = em_maxCb em payloadSize mcs in
         if tbSize > cbSize then
           defined_if (cbSize \<noteq> 0)
           (let C = fp_ceil (fp_of_u32 (tbSize div cbSize)) in
            bindE (fp_to_u32 (fp_mul C (Num 3))) (\<lambda>crc. Inr (payloadSize - crc)))
         else Inr tbSize)))"

text \<open>The loops that raise an index from \<open>m\<close> while the next entry still suits; \<open>n\<close> is how far it may go.\<close>

fun climb :: "(u8 \<Rightarrow> bool res) \<Rightarrow> nat \<Rightarrow> u8 \<Rightarrow> u8 res" where
  "climb suits 0 m = Inr m"
| "climb suits (Suc n) m = bindE (suits (m + 1)) (\<lambda>b. if b then climb suits n (m + 1) else Inr m)"

definition GetMcsFromCqi :: "amc \<Rightarrow> u8 \<Rightarrow> u8 res" where
  "GetMcsFromCqi a cqi =
     (let em = amc_errorModel a in
      ns_assert (cqi \<le> 15)
      (bindE (em_seCqi em cqi) (\<lambda>spectralEfficiency.
       climb (\<lambda>mcs. bindE (em_seMcs em mcs) (\<lambda>s. Inr (fp_le s spectralEfficiency))) (unat (em_maxMcs em)) 0)))"

definition GetCqiFromSpectralEfficiency :: "amc \<Rightarrow> fp \<Rightarrow> u8 res" where
  "GetCqiFromSpectralEfficiency a s =
     ns_assert (fp_le (Num 0) s)
       (climb (\<lambda>cqi. bindE (em_seCqi (amc_errorModel a) cqi) (\<lambda>t. Inr (fp_less t s))) 15 0)"

definition GetMcsFromSpectralEfficiency :: "amc \<Rightarrow> fp \<Rightarrow> u8 res" where
  "GetMcsFromSpectralEfficiency a s =
     ns_assert (fp_le (Num 0) s)
       (climb (\<lambda>mcs. bindE (em_seMcs (amc_errorModel a) mcs) (\<lambda>t. Inr (fp_less t s)))
          (unat (em_maxMcs (amc_errorModel a))) 0)"

text \<open>The first MCS from \<open>mcs\<close> on whose block error rate is above 0.1, with the rate asked for last; \<open>n\<close> MCSs are left.\<close>

fun probe :: "(u8 \<Rightarrow> fp res) \<Rightarrow> nat \<Rightarrow> u8 \<Rightarrow> fp \<Rightarrow> (u8 \<times> fp) res" where
  "probe tbler 0 mcs out = Inr (mcs, out)"
| "probe tbler (Suc n) mcs out =
     bindE (tbler mcs) (\<lambda>out. if fp_less (dec (1 / 10)) out then Inr (mcs, out) else probe tbler n (mcs + 1) out)"

text \<open>Both logarithms of the Shannon model are functions of the C library. The result is the CQI and the MCS.\<close>

definition shannon_feedback :: "(fp \<Rightarrow> fp) \<Rightarrow> (fp \<Rightarrow> fp) \<Rightarrow> amc \<Rightarrow> fp list \<Rightarrow> (u8 \<times> u8) res" where
  "shannon_feedback log2 logE a sinr =
     (let gap = fp_div (fp_neg (logE (fp_mul (Num 5) (GetBer a)))) (dec (15 / 10)) in
      bindE (foldE (\<lambda>(seAvg, rbNum) x.
                if fp_eq x (Num 0) then Inr (seAvg, rbNum)
                else let s = log2 (fp_add (Num 1) (fp_div x gap)) in
                  bindE (GetCqiFromSpectralEfficiency a s) (\<lambda>_. Inr (fp_add seAvg s, rbNum + 1)))
               (Num 0, 0 :: u32) sinr) (\<lambda>(seAvg, rbNum).
      let seAvg = (if rbNum \<noteq> 0 then fp_div seAvg (fp_of_u32 rbNum) else seAvg) in
      bindE (GetCqiFromSpectralEfficiency a seAvg) (\<lambda>cqi.
      bindE (GetMcsFromSpectralEfficiency a seAvg) (\<lambda>mcs. Inr (cqi, mcs)))))"

definition error_feedback :: "amc \<Rightarrow> fp list \<Rightarrow> (u8 \<times> u8) res" where
  "error_feedback a sinr =
     (let em = amc_errorModel a;
          rbMap = filter (\<lambda>i. \<not> fp_eq (sinr ! i) (Num 0)) [0..<length sinr];
          tbler = (\<lambda>mcs. bindE (CalculateTbSize a mcs (of_nat (length rbMap))) (\<lambda>tbs. em_tbler em sinr rbMap tbs mcs)) in
      bindE (probe tbler (unat (em_maxMcs em) + 1) 0 NaN) (\<lambda>(mcs, out).
      let mcs = (if mcs > 0 then mcs - 1 else mcs) in
      if fp_less (dec (1 / 10)) out \<and> mcs = 0 then Inr (0, mcs)
      else if mcs = em_maxMcs em then Inr (15, mcs)
      else
        bindE (em_seMcs em mcs) (\<lambda>s.
        bindE (climb (\<lambda>cqi. bindE (em_seCqi em cqi) (\<lambda>t. Inr (fp_le t s))) 15 0) (\<lambda>cqi. Inr (cqi, mcs)))))"

definition CreateCqiFeedbackWbTdma :: "(fp \<Rightarrow> fp) \<Rightarrow> (fp \<Rightarrow> fp) \<Rightarrow> amc \<Rightarrow> fp list \<Rightarrow> (u8 \<times> u8 \<times> amc) res" where
  "CreateCqiFeedbackWbTdma log2 logE a sinr =
     bindE (case amc_model a of ShannonModel \<Rightarrow> shannon_feedback log2 logE a sinr | ErrorModel \<Rightarrow> error_feedback a sinr)
       (\<lambda>(cqi, mcs). Inr (cqi, mcs, a\<lparr>amc_lastMcs := ucast mcs\<rparr>))"

end
