(* ===== verification/AmcTables.thy ===== *)
theory AmcTables
  imports Amc
begin

text \<open>
  The measured curves of \<open>contrib/nr/model/nr-lte-mi-error-model.cc\<close>, as they stand in the source: the mutual information
  against the SINR for the three modulations, and the mean and the deviation of the block error rate for the nine sizes and
  the 38 code rates. Every literal has at most six decimals, so a table holds millionths.
\<close>

definition millionths :: "int \<Rightarrow> fp" where
  "millionths n = dec (of_int n / 1000000)"

definition MI_map_qpsk :: "fp list" where
  "MI_map_qpsk = map millionths
    [8922, 11813, 14697, 17570, 20430, 23276, 26109, 28929, 31734, 34526, 37304, 40069, 42821, 45559, 48285, 50999,
     53700, 56389, 59066, 61731, 64384, 67026, 69657, 72277, 74885, 77483, 80070, 82647, 85213, 87769, 90315, 92850,
     95376, 97892, 100399, 102895, 105383, 107861, 110329, 112789, 115239, 117680, 120113, 122536, 124951, 127357,
     129755, 132144, 134525, 136897, 139261, 141616, 143964, 146303, 148635, 150958, 153273, 155581, 157881, 160173,
     162457, 164734, 167003, 169265, 171519, 173765, 176005, 178237, 180461, 182679, 184889, 187092, 189288, 191477,
     193659, 195834, 198002, 200164, 202318, 204465, 206606, 208740, 210867, 212988, 215102, 217209, 219310, 221405,
     223492, 225574, 227649, 229717, 231780, 233835, 235885, 237928, 239965, 241996, 244021, 246039, 248052, 250058,
     252058, 254052, 256040, 258023, 259999, 261969, 263933, 265892, 267844, 269791, 271732, 273667, 275597, 277520,
     279438, 281350, 283257, 285158, 287053, 288943, 290827, 292705, 294578, 296446, 298308, 300164, 302015, 303861,
     305701, 307536, 309365, 311189, 313007, 314821, 316629, 318431, 320229, 322021, 323808, 325589, 327366, 329137,
     330903, 332664, 334420, 336171, 337916, 339657, 341392, 343123, 344848, 346568, 348284, 349994, 351699, 353400,
     355095, 356786, 358471, 360152, 361828, 363499, 365165, 366174, 367827, 369475, 371118, 372755, 374388, 376015,
     377637, 379255, 380867, 382474, 384076, 385674, 387266, 388854, 390436, 392014, 393587, 395155, 396718, 398277,
     399830, 401379, 402924, 404463, 405998, 407529, 409054, 410576, 412092, 413604, 415111, 416614, 418113, 419606,
     421096, 422581, 424061, 425537, 427009, 428476, 429939, 431398, 432852, 434302, 435748, 437189, 438627, 440060,
     441488, 442913, 444333, 445749, 447161, 448569, 449973, 451373, 452768, 454160, 455547, 456931, 458310, 459685,
     461057, 462424, 463788, 465147, 466503, 467854, 469202, 470546, 471886, 473222, 474555, 475883, 477208, 478529,
     479846, 481159, 482469, 483774, 485077, 486375, 487670, 488961, 490248, 491532, 492812, 494088, 495361, 496630,
     497896, 499158, 500416, 501671, 502922, 504170, 505414, 506655, 507893, 509126, 510357, 511584, 512807, 514027,
     515244, 516457, 517667, 518873, 520076, 521276, 522472, 523665, 524855, 526042, 527225, 528404, 529581, 530754,
     531924, 533091, 534255, 535415, 536572, 537726, 538877, 540024, 541169, 542310, 543448, 544583, 545715, 546844,
     547969, 549092, 550211, 551328, 552441, 553551, 554658, 555763, 556864, 557962, 559057, 560149, 561238, 562325,
     563408, 564488, 565566, 566640, 567712, 568780, 569846, 570909, 571969, 573026, 574080, 575131, 576180, 577225,
     578268, 579308, 580345, 581380, 582411, 583440, 584466, 585489, 586510, 587528, 588543, 589555, 590565, 591571,
     592576, 593577, 594576, 595572, 596565, 597556, 598544, 599530, 600513, 601493, 602470, 603445, 604418, 605387,
     606355, 607319, 608281, 609241, 610198, 611152, 612104, 613053, 614000, 614944, 615886, 616825, 617762, 618696,
     619628, 620557, 621484, 622409, 623331, 624250, 625167, 626082, 626994, 627904, 628812, 629717, 630619, 631520,
     632418, 633313, 634206, 635097, 635986, 636872, 637756, 638637, 639516, 640393, 641268, 642140, 643010, 643878,
     644743, 645606, 646467, 647326, 648182, 649037, 649889, 650738, 651586, 652431, 653274, 654115, 654954, 655790,
     656624, 657457, 658287, 659114, 659940, 660763, 661585, 662404, 663221, 664036, 664849, 665660, 666468, 667275,
     668079, 668882, 669682, 670480, 671276, 672070, 672862, 673652, 674440, 675226, 676010, 676792, 677572, 678349,
     679125, 679899, 680671, 681440, 682208, 682974, 683738, 684500, 685260, 686018, 686774, 687528, 688280, 689030,
     689778, 690525, 691269, 692012, 692752, 693491, 694228, 694963, 695696, 696427, 697156, 697883, 698609, 699333,
     700055, 700774, 701493, 702209, 702923, 703636, 704347, 705056, 705763, 706468, 707172, 707874, 708574, 709272,
     709969, 710663, 711356, 712047, 712737, 713424, 714110, 714794, 715477, 716157, 716836, 717513, 718189, 718862,
     719535, 720205, 720873, 721540, 722206, 722869, 723531, 724191, 724850, 725507, 726162, 726815, 727467, 728117,
     728766, 729413, 730058, 730702, 731344, 731984, 732623, 733260, 733896, 734530, 735162, 735793, 736422, 737050,
     737676, 738300, 738923, 739544, 740164, 740782, 741399, 742014, 742627, 743239, 743850, 744459, 745066, 745672,
     746276, 746879, 747480, 748080, 748678, 749275, 749870, 750464, 751056, 751647, 752236, 752824, 753410, 753995,
     754579, 755161, 755741, 756320, 756898, 757474, 758049, 758622, 759194, 759764, 760333, 760901, 761467, 762032,
     762595, 763157, 763717, 764277, 764834, 765391, 765946, 766499, 767051, 767602, 768152, 768700, 769246, 769792,
     770336, 770878, 771419, 771959, 772498, 773035, 773571, 774106, 774639, 775171, 775701, 776231, 776759, 777285,
     777811, 778335, 778858, 779379, 779899, 780418, 780936, 781452, 781967, 782481, 782993, 783504, 784014, 784523,
     785030, 785536, 786041, 786545, 787047, 787549, 788048, 788547, 789045, 789541, 790036, 790530, 791022, 791513,
     792004, 792493, 792980, 793467, 793952, 794436, 794919, 795401, 795881, 796361, 796839, 797316, 797792, 798266,
     798740, 799212, 799683, 800153, 800622, 801090, 801556, 802022, 802486, 802949, 803411, 803872, 804331, 804790,
     805247, 805704, 806159, 806613, 807066, 807518, 807969, 808418, 808867, 809314, 809761, 810206, 810650, 811093,
     811535, 811976, 812416, 812854, 813292, 813729, 814164, 814599, 815032, 815464, 815896, 816326, 816755, 817183,
     817610, 818036, 818461, 818885, 819308, 819730, 820151, 820571, 820990, 821407, 821824, 822240, 822655, 823068,
     823481, 823893, 824303, 824713, 825122, 825529, 825936, 826342, 826747, 827150, 827553, 827955, 828356, 828756,
     829154, 829552, 829949, 830345, 830740, 831134, 831527, 831919, 832311, 832701, 833090, 833478, 833866, 834252,
     834638, 835022, 835406, 835789, 836170, 836551, 836931, 837310, 837688, 838065, 838442, 838817, 839191, 839565,
     839938, 840309, 840680, 841050, 841419, 841787, 842154, 842521, 842886, 843251, 843615, 843977, 844339, 844700,
     845061, 845420, 845778, 846136, 846493, 846849, 847204, 847558, 847911, 848263, 848615, 848966, 849316, 849665,
     850013, 850360, 850707, 851052, 851397, 851741, 852085, 852427, 852768, 853109, 853449, 853788, 854126, 854464,
     854801, 855136, 855471, 855806, 856139, 856472, 856803, 857134, 857465, 857794, 858123, 858451, 858778, 859104,
     859429, 859754, 860078, 860401, 860723, 861045, 861366, 861686, 862005]"

definition MI_map_qpsk_axis :: "fp list" where
  "MI_map_qpsk_axis = map millionths
    [13000, 17000, 21000, 25000, 29000, 33000, 37000, 41000, 45000, 49000, 53000, 57000, 61000, 65000, 69000, 73000,
     77000, 81000, 85000, 89000, 93000, 97000, 101000, 105000, 109000, 113000, 117000, 121000, 125000, 129000,
     133000, 137000, 141000, 145000, 149000, 153000, 157000, 161000, 165000, 169000, 173000, 177000, 181000, 185000,
     189000, 193000, 197000, 201000, 205000, 209000, 213000, 217000, 221000, 225000, 229000, 233000, 237000, 241000,
     245000, 249000, 253000, 257000, 261000, 265000, 269000, 273000, 277000, 281000, 285000, 289000, 293000, 297000,
     301000, 305000, 309000, 313000, 317000, 321000, 325000, 329000, 333000, 337000, 341000, 345000, 349000, 353000,
     357000, 361000, 365000, 369000, 373000, 377000, 381000, 385000, 389000, 393000, 397000, 401000, 405000, 409000,
     413000, 417000, 421000, 425000, 429000, 433000, 437000, 441000, 445000, 449000, 453000, 457000, 461000, 465000,
     469000, 473000, 477000, 481000, 485000, 489000, 493000, 497000, 501000, 505000, 509000, 513000, 517000, 521000,
     525000, 529000, 533000, 537000, 541000, 545000, 549000, 553000, 557000, 561000, 565000, 569000, 573000, 577000,
     581000, 585000, 589000, 593000, 597000, 601000, 605000, 609000, 613000, 617000, 621000, 625000, 629000, 633000,
     637000, 641000, 645000, 649000, 653000, 657000, 661000, 665000, 669000, 673000, 677000, 681000, 685000, 689000,
     693000, 697000, 701000, 705000, 709000, 713000, 717000, 721000, 725000, 729000, 733000, 737000, 741000, 745000,
     749000, 753000, 757000, 761000, 765000, 769000, 773000, 777000, 781000, 785000, 789000, 793000, 797000, 801000,
     805000, 809000, 813000, 817000, 821000, 825000, 829000, 833000, 837000, 841000, 845000, 849000, 853000, 857000,
     861000, 865000, 869000, 873000, 877000, 881000, 885000, 889000, 893000, 897000, 901000, 905000, 909000, 913000,
     917000, 921000, 925000, 929000, 933000, 937000, 941000, 945000, 949000, 953000, 957000, 961000, 965000, 969000,
     973000, 977000, 981000, 985000, 989000, 993000, 997000, 1001000, 1005000, 1009000, 1013000, 1017000, 1021000,
     1025000, 1029000, 1033000, 1037000, 1041000, 1045000, 1049000, 1053000, 1057000, 1061000, 1065000, 1069000,
     1073000, 1077000, 1081000, 1085000, 1089000, 1093000, 1097000, 1101000, 1105000, 1109000, 1113000, 1117000,
     1121000, 1125000, 1129000, 1133000, 1137000, 1141000, 1145000, 1149000, 1153000, 1157000, 1161000, 1165000,
     1169000, 1173000, 1177000, 1181000, 1185000, 1189000, 1193000, 1197000, 1201000, 1205000, 1209000, 1213000,
     1217000, 1221000, 1225000, 1229000, 1233000, 1237000, 1241000, 1245000, 1249000, 1253000, 1257000, 1261000,
     1265000, 1269000, 1273000, 1277000, 1281000, 1285000, 1289000, 1293000, 1297000, 1301000, 1305000, 1309000,
     1313000, 1317000, 1321000, 1325000, 1329000, 1333000, 1337000, 1341000, 1345000, 1349000, 1353000, 1357000,
     1361000, 1365000, 1369000, 1373000, 1377000, 1381000, 1385000, 1389000, 1393000, 1397000, 1401000, 1405000,
     1409000, 1413000, 1417000, 1421000, 1425000, 1429000, 1433000, 1437000, 1441000, 1445000, 1449000, 1453000,
     1457000, 1461000, 1465000, 1469000, 1473000, 1477000, 1481000, 1485000, 1489000, 1493000, 1497000, 1501000,
     1505000, 1509000, 1513000, 1517000, 1521000, 1525000, 1529000, 1533000, 1537000, 1541000, 1545000, 1549000,
     1553000, 1557000, 1561000, 1565000, 1569000, 1573000, 1577000, 1581000, 1585000, 1589000, 1593000, 1597000,
     1601000, 1605000, 1609000, 1613000, 1617000, 1621000, 1625000, 1629000, 1633000, 1637000, 1641000, 1645000,
     1649000, 1653000, 1657000, 1661000, 1665000, 1669000, 1673000, 1677000, 1681000, 1685000, 1689000, 1693000,
     1697000, 1701000, 1705000, 1709000, 1713000, 1717000, 1721000, 1725000, 1729000, 1733000, 1737000, 1741000,
     1745000, 1749000, 1753000, 1757000, 1761000, 1765000, 1769000, 1773000, 1777000, 1781000, 1785000, 1789000,
     1793000, 1797000, 1801000, 1805000, 1809000, 1813000, 1817000, 1821000, 1825000, 1829000, 1833000, 1837000,
     1841000, 1845000, 1849000, 1853000, 1857000, 1861000, 1865000, 1869000, 1873000, 1877000, 1881000, 1885000,
     1889000, 1893000, 1897000, 1901000, 1905000, 1909000, 1913000, 1917000, 1921000, 1925000, 1929000, 1933000,
     1937000, 1941000, 1945000, 1949000, 1953000, 1957000, 1961000, 1965000, 1969000, 1973000, 1977000, 1981000,
     1985000, 1989000, 1993000, 1997000, 2001000, 2005000, 2009000, 2013000, 2017000, 2021000, 2025000, 2029000,
     2033000, 2037000, 2041000, 2045000, 2049000, 2053000, 2057000, 2061000, 2065000, 2069000, 2073000, 2077000,
     2081000, 2085000, 2089000, 2093000, 2097000, 2101000, 2105000, 2109000, 2113000, 2117000, 2121000, 2125000,
     2129000, 2133000, 2137000, 2141000, 2145000, 2149000, 2153000, 2157000, 2161000, 2165000, 2169000, 2173000,
     2177000, 2181000, 2185000, 2189000, 2193000, 2197000, 2201000, 2205000, 2209000, 2213000, 2217000, 2221000,
     2225000, 2229000, 2233000, 2237000, 2241000, 2245000, 2249000, 2253000, 2257000, 2261000, 2265000, 2269000,
     2273000, 2277000, 2281000, 2285000, 2289000, 2293000, 2297000, 2301000, 2305000, 2309000, 2313000, 2317000,
     2321000, 2325000, 2329000, 2333000, 2337000, 2341000, 2345000, 2349000, 2353000, 2357000, 2361000, 2365000,
     2369000, 2373000, 2377000, 2381000, 2385000, 2389000, 2393000, 2397000, 2401000, 2405000, 2409000, 2413000,
     2417000, 2421000, 2425000, 2429000, 2433000, 2437000, 2441000, 2445000, 2449000, 2453000, 2457000, 2461000,
     2465000, 2469000, 2473000, 2477000, 2481000, 2485000, 2489000, 2493000, 2497000, 2501000, 2505000, 2509000,
     2513000, 2517000, 2521000, 2525000, 2529000, 2533000, 2537000, 2541000, 2545000, 2549000, 2553000, 2557000,
     2561000, 2565000, 2569000, 2573000, 2577000, 2581000, 2585000, 2589000, 2593000, 2597000, 2601000, 2605000,
     2609000, 2613000, 2617000, 2621000, 2625000, 2629000, 2633000, 2637000, 2641000, 2645000, 2649000, 2653000,
     2657000, 2661000, 2665000, 2669000, 2673000, 2677000, 2681000, 2685000, 2689000, 2693000, 2697000, 2701000,
     2705000, 2709000, 2713000, 2717000, 2721000, 2725000, 2729000, 2733000, 2737000, 2741000, 2745000, 2749000,
     2753000, 2757000, 2761000, 2765000, 2769000, 2773000, 2777000, 2781000, 2785000, 2789000, 2793000, 2797000,
     2801000, 2805000, 2809000, 2813000, 2817000, 2821000, 2825000, 2829000, 2833000, 2837000, 2841000, 2845000,
     2849000, 2853000, 2857000, 2861000, 2865000, 2869000, 2873000, 2877000, 2881000, 2885000, 2889000, 2893000,
     2897000, 2901000, 2905000, 2909000, 2913000, 2917000, 2921000, 2925000, 2929000, 2933000, 2937000, 2941000,
     2945000, 2949000, 2953000, 2957000, 2961000, 2965000, 2969000, 2973000, 2977000, 2981000, 2985000, 2989000,
     2993000, 2997000, 3001000, 3005000, 3009000, 3013000, 3017000, 3021000, 3025000, 3029000, 3033000, 3037000,
     3041000, 3045000, 3049000, 3053000, 3057000, 3061000, 3065000, 3069000, 3073000, 3077000, 3081000, 3085000,
     3089000, 3093000, 3097000, 3101000, 3105000, 3109000, 3113000, 3117000, 3121000, 3125000, 3129000, 3133000,
     3137000, 3141000, 3145000, 3149000, 3153000, 3157000, 3161000, 3165000, 3169000, 3173000, 3177000, 3181000,
     3185000, 3189000, 3193000, 3197000]"

definition MI_map_16qam :: "fp list" where
  "MI_map_16qam = map millionths
    [18884, 21859, 24808, 27732, 30631, 33506, 36357, 39185, 41991, 44776, 47538, 50280, 53002, 55703, 58385, 61048,
     63692, 66318, 68925, 71514, 74086, 76640, 79178, 81699, 84203, 86691, 89163, 91619, 94059, 96484, 98894, 101289,
     103669, 106034, 108385, 110721, 113043, 115351, 117645, 119926, 122192, 124446, 126686, 128912, 131126, 133326,
     135514, 137689, 139852, 142001, 144139, 146101, 148211, 150308, 152392, 154464, 156524, 158571, 160606, 162630,
     164641, 166641, 168629, 170606, 172572, 174526, 176470, 178403, 180325, 182236, 184136, 186027, 187907, 189777,
     191636, 193486, 195326, 197156, 198976, 200787, 202588, 204380, 206162, 207935, 209700, 211455, 213201, 214938,
     216666, 218386, 220097, 221800, 223494, 225180, 226857, 228526, 230187, 231840, 233485, 235121, 236750, 238372,
     239985, 241591, 243189, 244779, 246362, 247938, 249506, 251067, 252621, 254167, 255707, 257239, 258764, 260283,
     261794, 263299, 264797, 266288, 267772, 269250, 270722, 272186, 273645, 275097, 276542, 277981, 279414, 280841,
     282262, 283676, 285085, 286487, 287883, 289274, 290659, 292037, 293410, 294777, 296139, 297495, 298845, 300189,
     301528, 302862, 304190, 305513, 306830, 308142, 309449, 310750, 312046, 313337, 314623, 315903, 317179, 318449,
     319715, 320975, 322231, 323481, 324727, 325968, 327204, 328436, 329662, 330884, 332102, 333314, 334522, 335726,
     336924, 338119, 339309, 340494, 341675, 342852, 344024, 345192, 346355, 347515, 348670, 349821, 350967, 352110,
     353248, 354382, 355512, 356639, 357761, 358879, 359993, 361103, 362209, 363311, 364410, 365504, 366595, 367682,
     368765, 369844, 370920, 371992, 373060, 374125, 375186, 376243, 377297, 378347, 379393, 380436, 381476, 382512,
     383545, 384574, 385600, 386622, 387641, 388657, 389669, 390678, 391683, 392686, 393685, 394681, 395674, 396663,
     397649, 398632, 399612, 400589, 401563, 402534, 403501, 404466, 405427, 406386, 407341, 408294, 409243, 410190,
     411133, 412074, 413012, 413947, 414879, 415808, 416735, 417658, 418579, 419497, 420412, 421325, 422234, 423142,
     424046, 424947, 425846, 426743, 427636, 428527, 429416, 430302, 431185, 432065, 432943, 433819, 434692, 435562,
     436430, 437296, 438159, 439019, 439877, 440733, 441586, 442437, 443285, 444131, 444975, 445816, 446493, 447329,
     448163, 448994, 449823, 450650, 451474, 452297, 453116, 453934, 454749, 455562, 456373, 457182, 457988, 458793,
     459595, 460395, 461192, 461988, 462781, 463572, 464362, 465149, 465934, 466716, 467497, 468276, 469053, 469827,
     470600, 471370, 472139, 472905, 473670, 474432, 475193, 475952, 476708, 477463, 478216, 478967, 479716, 480463,
     481208, 481951, 482692, 483432, 484169, 484905, 485639, 486371, 487101, 487830, 488556, 489281, 490004, 490726,
     491445, 492163, 492879, 493593, 494306, 495016, 495725, 496433, 497138, 497842, 498544, 499245, 499944, 500641,
     501337, 502030, 502723, 503413, 504102, 504790, 505475, 506159, 506842, 507523, 508202, 508880, 509556, 510231,
     510904, 511575, 512245, 512914, 513581, 514246, 514910, 515572, 516233, 516893, 517551, 518207, 518862, 519515,
     520167, 520818, 521467, 522115, 522761, 523405, 524049, 524691, 525331, 525970, 526608, 527244, 527879, 528513,
     529145, 529776, 530405, 531033, 531660, 532285, 532909, 533532, 534153, 534773, 535392, 536009, 536625, 537240,
     537853, 538465, 539076, 539361, 539968, 540575, 541180, 541783, 542386, 542987, 543587, 544186, 544783, 545379,
     545974, 546568, 547160, 547751, 548341, 548930, 549517, 550103, 550688, 551272, 551855, 552436, 553016, 553595,
     554173, 554749, 555325, 555899, 556472, 557044, 557615, 558184, 558753, 559320, 559886, 560451, 561015, 561578,
     562140, 562700, 563259, 563818, 564375, 564931, 565486, 566040, 566593, 567144, 567695, 568244, 568793, 569340,
     569887, 570432, 570976, 571519, 572061, 572602, 573142, 573681, 574219, 574756, 575292, 575827, 576361, 576894,
     577425, 577956, 578486, 579015, 579543, 580069, 580595, 581120, 581644, 582167, 582689, 583210, 583730, 584249,
     584767, 585284, 585800, 586315, 586829, 587342, 587855, 588366, 588877, 589386, 589895, 590402, 590909, 591415,
     591920, 592424, 592927, 593429, 593930, 594431, 594930, 595429, 595926, 596423, 596919, 597414, 597908, 598402,
     598894, 599386, 599876, 600366, 600855, 601343, 601830, 602317, 602802, 603287, 603771, 604254, 604736, 605217,
     605697, 606177, 606656, 607134, 607611, 608087, 608563, 609038, 609511, 609985, 610457, 610928, 611399, 611869,
     612338, 612806, 613274, 613740, 614206, 614671, 615136, 615599, 616062, 616524, 616985, 617446, 617905, 618364,
     618822, 619280, 619736, 620192, 620647, 621102, 621555, 622008, 622460, 622912, 623362, 623812, 624261, 624710,
     625157, 625604, 626051, 626496, 626941, 627385, 627828, 628271, 628713, 629154, 629594, 630034, 630473, 630911,
     631349, 631786, 632222, 632658, 633093, 633527, 633960, 634393, 634825, 635257, 635687, 636117, 636547, 636975,
     637403, 637831, 638257, 638683, 639109, 639533, 639957, 640381, 640803, 641225, 641647, 642067, 642487, 642907,
     643326, 643744, 644161, 644578, 644994, 645410, 645824, 646239, 646652, 647065, 647477, 647889, 648300, 648711,
     649120, 649530, 649938, 650346, 650753, 651160, 651566, 651972, 652377, 652781, 653184, 653587, 653990, 654392,
     654793, 655193, 655593, 655993, 656392, 656790, 657187, 657584, 657981, 658377, 658772, 659167, 659561, 659954,
     660347, 660739, 661131, 661522, 661913, 662303, 662692, 663081, 663469, 663857, 664244, 664631, 665017, 665402,
     665787, 666171, 666555, 666938, 667321, 667703, 668085, 668466, 668846, 669226, 669605, 669984, 670362, 670740,
     671117, 671494, 671870, 672245, 672620, 672995, 673368, 673742, 674115, 674487, 674859, 675230, 675601, 675971,
     676340, 676709, 677078, 677446, 677814, 678181, 678547, 678913, 679279, 679643, 680008, 680372, 680735, 681098,
     681460, 681822, 682184, 682544, 682905, 683265, 683624, 683983, 684341, 684699, 685056, 685413, 685769, 686125,
     686481, 686835, 687190, 687544, 687897, 688250, 688602, 688954, 689305, 689656, 690007, 690357, 690706, 691055,
     691404, 691752, 692099, 692446, 692793, 693139, 693485, 693830, 694175, 694519, 694863, 695206, 695549, 695891,
     696233, 696574, 696915, 697256, 697596, 697935, 698274, 698613, 698951, 699289, 699626, 699963, 700299, 700635,
     700971, 701306, 701640, 701974, 702308, 702641, 702974, 703306, 703638, 703969, 704300, 704631, 704961, 705291,
     705620, 705949, 706277, 706605, 706932, 707259, 707586, 707912, 708238, 708563, 708888, 709212, 709536, 709859,
     710183, 710505, 710828, 711149, 711471, 711792, 712112, 712432, 712752, 713071, 713390, 713709, 714027, 714344,
     714661, 714978, 715295, 715611, 715926, 716241, 716556, 716870, 717184, 717497, 717811, 718123, 718435, 718747,
     719059, 719370, 719680, 719991, 720300, 720610, 720919, 721227, 721536, 721843, 722151, 722458, 722764, 723071,
     723376, 723682, 723987, 724291, 724596, 724899, 725203, 725506, 725809, 726111, 726413, 726714, 727015, 727316,
     727616, 727916, 728216, 728515, 728814, 729112, 729410, 729708, 730005, 730302, 730599, 730895, 731191, 731486,
     731781, 732076, 732370, 732664, 732957, 733250, 733543, 733835, 734127, 734419, 734710, 735001, 735292, 735582,
     735872, 736161, 736450, 736739, 737027, 737315, 737603, 737890, 738177, 738463, 738750, 739035, 739321, 739606,
     739891, 740175, 740459, 740743, 741026, 741309, 741591, 741874, 742155, 742437, 742718, 742999, 743279, 743559,
     743839, 744119, 744398, 744676, 744955, 745233, 745510, 745788, 746065, 746341, 746618, 746893, 747169, 747444,
     747719, 747994, 748268, 748542, 748815, 749089, 749361, 749634, 749906, 750178, 750450, 750721, 750992, 751262,
     751532, 751802, 752072, 752341, 752610, 752878, 753146, 753414, 753682, 753949, 754216, 754482, 754748, 755014,
     755280, 755545, 755810, 756074, 756339, 756603, 756866, 757129, 757392, 757655, 757917, 758179, 758441, 758702,
     758963, 759224, 759484, 759744, 760004, 760264, 760523, 760781, 761040, 761298, 761556, 761813, 762071, 762328,
     762584, 762840, 763096, 763352, 763607, 763862, 764117, 764371, 764626, 764879]"

definition MI_map_16qam_axis :: "fp list" where
  "MI_map_16qam_axis = map millionths
    [63000, 73000, 83000, 93000, 103000, 113000, 123000, 133000, 143000, 153000, 163000, 173000, 183000, 193000,
     203000, 213000, 223000, 233000, 243000, 253000, 263000, 273000, 283000, 293000, 303000, 313000, 323000, 333000,
     343000, 353000, 363000, 373000, 383000, 393000, 403000, 413000, 423000, 433000, 443000, 453000, 463000, 473000,
     483000, 493000, 503000, 513000, 523000, 533000, 543000, 553000, 563000, 573000, 583000, 593000, 603000, 613000,
     623000, 633000, 643000, 653000, 663000, 673000, 683000, 693000, 703000, 713000, 723000, 733000, 743000, 753000,
     763000, 773000, 783000, 793000, 803000, 813000, 823000, 833000, 843000, 853000, 863000, 873000, 883000, 893000,
     903000, 913000, 923000, 933000, 943000, 953000, 963000, 973000, 983000, 993000, 1003000, 1013000, 1023000,
     1033000, 1043000, 1053000, 1063000, 1073000, 1083000, 1093000, 1103000, 1113000, 1123000, 1133000, 1143000,
     1153000, 1163000, 1173000, 1183000, 1193000, 1203000, 1213000, 1223000, 1233000, 1243000, 1253000, 1263000,
     1273000, 1283000, 1293000, 1303000, 1313000, 1323000, 1333000, 1343000, 1353000, 1363000, 1373000, 1383000,
     1393000, 1403000, 1413000, 1423000, 1433000, 1443000, 1453000, 1463000, 1473000, 1483000, 1493000, 1503000,
     1513000, 1523000, 1533000, 1543000, 1553000, 1563000, 1573000, 1583000, 1593000, 1603000, 1613000, 1623000,
     1633000, 1643000, 1653000, 1663000, 1673000, 1683000, 1693000, 1703000, 1713000, 1723000, 1733000, 1743000,
     1753000, 1763000, 1773000, 1783000, 1793000, 1803000, 1813000, 1823000, 1833000, 1843000, 1853000, 1863000,
     1873000, 1883000, 1893000, 1903000, 1913000, 1923000, 1933000, 1943000, 1953000, 1963000, 1973000, 1983000,
     1993000, 2003000, 2013000, 2023000, 2033000, 2043000, 2053000, 2063000, 2073000, 2083000, 2093000, 2103000,
     2113000, 2123000, 2133000, 2143000, 2153000, 2163000, 2173000, 2183000, 2193000, 2203000, 2213000, 2223000,
     2233000, 2243000, 2253000, 2263000, 2273000, 2283000, 2293000, 2303000, 2313000, 2323000, 2333000, 2343000,
     2353000, 2363000, 2373000, 2383000, 2393000, 2403000, 2413000, 2423000, 2433000, 2443000, 2453000, 2463000,
     2473000, 2483000, 2493000, 2503000, 2513000, 2523000, 2533000, 2543000, 2553000, 2563000, 2573000, 2583000,
     2593000, 2603000, 2613000, 2623000, 2633000, 2643000, 2653000, 2663000, 2673000, 2683000, 2693000, 2703000,
     2713000, 2723000, 2733000, 2743000, 2753000, 2763000, 2773000, 2783000, 2793000, 2803000, 2813000, 2823000,
     2833000, 2843000, 2853000, 2863000, 2873000, 2883000, 2893000, 2903000, 2913000, 2923000, 2933000, 2943000,
     2953000, 2963000, 2973000, 2983000, 2993000, 3003000, 3013000, 3023000, 3033000, 3043000, 3053000, 3063000,
     3073000, 3083000, 3093000, 3103000, 3113000, 3123000, 3133000, 3143000, 3153000, 3163000, 3173000, 3183000,
     3193000, 3203000, 3213000, 3223000, 3233000, 3243000, 3253000, 3263000, 3273000, 3283000, 3293000, 3303000,
     3313000, 3323000, 3333000, 3343000, 3353000, 3363000, 3373000, 3383000, 3393000, 3403000, 3413000, 3423000,
     3433000, 3443000, 3453000, 3463000, 3473000, 3483000, 3493000, 3503000, 3513000, 3523000, 3533000, 3543000,
     3553000, 3563000, 3573000, 3583000, 3593000, 3603000, 3613000, 3623000, 3633000, 3643000, 3653000, 3663000,
     3673000, 3683000, 3693000, 3703000, 3713000, 3723000, 3733000, 3743000, 3753000, 3763000, 3773000, 3783000,
     3793000, 3803000, 3813000, 3823000, 3833000, 3843000, 3853000, 3863000, 3873000, 3883000, 3893000, 3903000,
     3913000, 3923000, 3933000, 3943000, 3953000, 3963000, 3973000, 3983000, 3993000, 4003000, 4013000, 4023000,
     4033000, 4043000, 4053000, 4063000, 4073000, 4083000, 4093000, 4103000, 4113000, 4123000, 4133000, 4143000,
     4153000, 4163000, 4173000, 4183000, 4193000, 4203000, 4213000, 4223000, 4233000, 4243000, 4253000, 4263000,
     4273000, 4283000, 4293000, 4303000, 4313000, 4323000, 4333000, 4343000, 4353000, 4363000, 4373000, 4383000,
     4393000, 4403000, 4413000, 4423000, 4433000, 4443000, 4453000, 4463000, 4473000, 4483000, 4493000, 4503000,
     4513000, 4523000, 4533000, 4543000, 4553000, 4563000, 4573000, 4583000, 4593000, 4603000, 4613000, 4623000,
     4633000, 4643000, 4653000, 4663000, 4673000, 4683000, 4693000, 4703000, 4713000, 4723000, 4733000, 4743000,
     4753000, 4763000, 4773000, 4783000, 4793000, 4803000, 4813000, 4823000, 4833000, 4843000, 4853000, 4863000,
     4873000, 4883000, 4893000, 4903000, 4913000, 4923000, 4933000, 4943000, 4953000, 4963000, 4973000, 4983000,
     4993000, 5003000, 5013000, 5023000, 5033000, 5043000, 5053000, 5063000, 5073000, 5083000, 5093000, 5103000,
     5113000, 5123000, 5133000, 5143000, 5153000, 5163000, 5173000, 5183000, 5193000, 5203000, 5213000, 5223000,
     5233000, 5243000, 5253000, 5263000, 5273000, 5283000, 5293000, 5303000, 5313000, 5323000, 5333000, 5343000,
     5353000, 5363000, 5373000, 5383000, 5393000, 5403000, 5413000, 5423000, 5433000, 5443000, 5453000, 5463000,
     5473000, 5483000, 5493000, 5503000, 5513000, 5523000, 5533000, 5543000, 5553000, 5563000, 5573000, 5583000,
     5593000, 5603000, 5613000, 5623000, 5633000, 5643000, 5653000, 5663000, 5673000, 5683000, 5693000, 5703000,
     5713000, 5723000, 5733000, 5743000, 5753000, 5763000, 5773000, 5783000, 5793000, 5803000, 5813000, 5823000,
     5833000, 5843000, 5853000, 5863000, 5873000, 5883000, 5893000, 5903000, 5913000, 5923000, 5933000, 5943000,
     5953000, 5963000, 5973000, 5983000, 5993000, 6003000, 6013000, 6023000, 6033000, 6043000, 6053000, 6063000,
     6073000, 6083000, 6093000, 6103000, 6113000, 6123000, 6133000, 6143000, 6153000, 6163000, 6173000, 6183000,
     6193000, 6203000, 6213000, 6223000, 6233000, 6243000, 6253000, 6263000, 6273000, 6283000, 6293000, 6303000,
     6313000, 6323000, 6333000, 6343000, 6353000, 6363000, 6373000, 6383000, 6393000, 6403000, 6413000, 6423000,
     6433000, 6443000, 6453000, 6463000, 6473000, 6483000, 6493000, 6503000, 6513000, 6523000, 6533000, 6543000,
     6553000, 6563000, 6573000, 6583000, 6593000, 6603000, 6613000, 6623000, 6633000, 6643000, 6653000, 6663000,
     6673000, 6683000, 6693000, 6703000, 6713000, 6723000, 6733000, 6743000, 6753000, 6763000, 6773000, 6783000,
     6793000, 6803000, 6813000, 6823000, 6833000, 6843000, 6853000, 6863000, 6873000, 6883000, 6893000, 6903000,
     6913000, 6923000, 6933000, 6943000, 6953000, 6963000, 6973000, 6983000, 6993000, 7003000, 7013000, 7023000,
     7033000, 7043000, 7053000, 7063000, 7073000, 7083000, 7093000, 7103000, 7113000, 7123000, 7133000, 7143000,
     7153000, 7163000, 7173000, 7183000, 7193000, 7203000, 7213000, 7223000, 7233000, 7243000, 7253000, 7263000,
     7273000, 7283000, 7293000, 7303000, 7313000, 7323000, 7333000, 7343000, 7353000, 7363000, 7373000, 7383000,
     7393000, 7403000, 7413000, 7423000, 7433000, 7443000, 7453000, 7463000, 7473000, 7483000, 7493000, 7503000,
     7513000, 7523000, 7533000, 7543000, 7553000, 7563000, 7573000, 7583000, 7593000, 7603000, 7613000, 7623000,
     7633000, 7643000, 7653000, 7663000, 7673000, 7683000, 7693000, 7703000, 7713000, 7723000, 7733000, 7743000,
     7753000, 7763000, 7773000, 7783000, 7793000, 7803000, 7813000, 7823000, 7833000, 7843000, 7853000, 7863000,
     7873000, 7883000, 7893000, 7903000, 7913000, 7923000, 7933000, 7943000, 7953000, 7963000, 7973000, 7983000,
     7993000, 8003000, 8013000, 8023000, 8033000, 8043000, 8053000, 8063000, 8073000, 8083000, 8093000, 8103000,
     8113000, 8123000, 8133000, 8143000, 8153000, 8163000, 8173000, 8183000, 8193000, 8203000, 8213000, 8223000,
     8233000, 8243000, 8253000, 8263000, 8273000, 8283000, 8293000, 8303000, 8313000, 8323000, 8333000, 8343000,
     8353000, 8363000, 8373000, 8383000, 8393000, 8403000, 8413000, 8423000, 8433000, 8443000, 8453000, 8463000,
     8473000, 8483000, 8493000, 8503000, 8513000, 8523000, 8533000, 8543000, 8553000, 8563000, 8573000, 8583000,
     8593000, 8603000, 8613000, 8623000, 8633000, 8643000, 8653000, 8663000, 8673000, 8683000, 8693000, 8703000,
     8713000, 8723000, 8733000, 8743000, 8753000, 8763000, 8773000, 8783000, 8793000, 8803000, 8813000, 8823000,
     8833000, 8843000, 8853000, 8863000, 8873000, 8883000, 8893000, 8903000, 8913000, 8923000, 8933000, 8943000,
     8953000, 8963000, 8973000, 8983000, 8993000, 9003000, 9013000, 9023000, 9033000, 9043000, 9053000, 9063000,
     9073000, 9083000, 9093000, 9103000, 9113000, 9123000, 9133000, 9143000, 9153000, 9163000, 9173000, 9183000,
     9193000, 9203000, 9213000, 9223000, 9233000, 9243000, 9253000, 9263000, 9273000, 9283000, 9293000, 9303000,
     9313000, 9323000, 9333000, 9343000, 9353000, 9363000, 9373000, 9383000, 9393000, 9403000, 9413000, 9423000,
     9433000, 9443000, 9453000, 9463000, 9473000, 9483000, 9493000, 9503000, 9513000, 9523000, 9533000, 9543000,
     9553000, 9563000, 9573000, 9583000, 9593000, 9603000, 9613000, 9623000, 9633000, 9643000, 9653000, 9663000,
     9673000, 9683000, 9693000, 9703000, 9713000, 9723000, 9733000, 9743000, 9753000, 9763000, 9773000, 9783000,
     9793000, 9803000, 9813000, 9823000, 9833000, 9843000, 9853000, 9863000, 9873000, 9883000, 9893000, 9903000,
     9913000, 9923000, 9933000, 9943000, 9953000, 9963000, 9973000, 9983000, 9993000]"

definition MI_map_64qam :: "fp list" where
  "MI_map_64qam = map millionths
    [36455, 64415, 90225, 114215, 136597, 157298, 176808, 195063, 212193, 228310, 243505, 257860, 271445, 284323,
     296550, 308175, 319243, 329796, 339870, 349499, 358715, 367545, 376015, 384150, 391971, 399498, 406751, 413746,
     420499, 427026, 433340, 439453, 445378, 451125, 456705, 462127, 467400, 472532, 477531, 482404, 487157, 491797,
     496330, 500760, 505094, 509116, 513264, 517327, 521309, 525213, 529043, 532803, 536495, 540123, 543689, 547196,
     550646, 554041, 557385, 560678, 563922, 567120, 570273, 573383, 576451, 579478, 582467, 585418, 588332, 591211,
     594055, 596866, 599644, 602392, 605108, 607795, 610453, 613082, 615684, 618259, 620808, 623331, 625829, 628303,
     630753, 633179, 635582, 637963, 640321, 642658, 644974, 647269, 649543, 651797, 653815, 656029, 658222, 660396,
     662552, 664689, 666807, 668908, 670990, 673056, 675104, 677135, 679149, 681147, 683128, 685094, 687044, 688978,
     690896, 692799, 694688, 696561, 698420, 700264, 702094, 703909, 705711, 707499, 709273, 711033, 712781, 714515,
     716235, 717943, 719638, 721321, 722991, 724648, 726293, 727926, 729547, 731156, 732753, 734339, 735913, 737475,
     739026, 740566, 742095, 743613, 745120, 746616, 748101, 749576, 751040, 752494, 753937, 755371, 756794, 758207,
     759610, 761003, 762387, 763761, 765125, 766479, 767825, 769160, 770487, 771805, 773113, 774412, 775702, 776984,
     778257, 779521, 780776, 782022, 783261, 784490, 785712, 786925, 788130, 789327, 790515, 791696, 792868, 794033,
     795190, 796339, 797481, 798615, 799741, 800860, 801971, 803075, 804172, 805261, 806343, 807418, 808486, 809547,
     810601, 811647, 812687, 813721, 814747, 815767, 816780, 817786, 818786, 819780, 820767, 821747, 822722, 823689,
     824651, 825607, 826556, 827499, 828436, 829367, 830292, 831212, 832125, 833032, 833934, 834830, 835720, 836605,
     837484, 838357, 839225, 840088, 840945, 841796, 842642, 843483, 844319, 845149, 845974, 846794, 847609, 848419,
     849223, 850023, 850818, 851608, 852392, 853172, 853947, 854718, 855483, 856244, 857000, 857752, 858499, 859241,
     859979, 860712, 861441, 862165, 862885, 863600, 864311, 865018, 865720, 866418, 867112, 867802, 868488, 869169,
     869846, 870519, 871188, 871854, 872515, 873172, 873825, 874474, 875120, 875761, 876399, 877033, 877663, 878289,
     878911, 879530, 880146, 880757, 881365, 881969, 882570, 883167, 883761, 884351, 884938, 885521, 886101, 886677,
     887250, 887820, 888387, 888950, 889509, 890066, 890619, 891169, 891716, 892259, 892800, 893337, 893872, 894403,
     894931, 895456, 895978, 896497, 897013, 897526, 898036, 898543, 899047, 899549, 900047, 900543, 901036, 901526,
     902013, 902497, 902979, 903458, 903934, 904407, 904878, 905346, 905812, 906275, 906735, 907193, 907648, 908100,
     908550, 908998, 909443, 909885, 910325, 910762, 911198, 911630, 912060, 912488, 912914, 913337, 913757, 914176,
     914592, 915005, 915417, 915826, 916233, 916638, 917040, 917440, 917838, 918234, 918628, 919019, 919408, 919796,
     920181, 920564, 920944, 921323, 921700, 922075, 922447, 922818, 923186, 923553, 923917, 924280, 924641, 924999,
     925356, 925711, 926064, 926415, 926764, 927111, 927456, 927800, 928141, 928481, 928819, 929155, 929490, 929822,
     930153, 930482, 930809, 931135, 931459, 931781, 932101, 932420, 932737, 933052, 933365, 933677, 933988, 934296,
     934603, 934909, 935213, 935515, 935815, 936114, 936412, 936708, 937002, 937295, 937586, 937876, 938164, 938451,
     938736, 939020, 939302, 939583, 939862, 940140, 940416, 940691, 940965, 941237, 941507, 941777, 942045, 942311,
     942576, 942840, 943103, 943364, 943623, 943882, 944139, 944395, 944649, 944902, 945154, 945405, 945654, 945902,
     946149, 946394, 946638, 946881, 947123, 947363, 947603, 947841, 948078, 948313, 948548, 948781, 949013, 949244,
     949474, 949702, 949930, 950156, 950381, 950605, 950828, 951050, 951270, 951490, 951708, 951926, 952142, 952357,
     952571, 952784, 952996, 953207, 953417, 953626, 953833, 954040, 954246, 954451, 954654, 954857, 955059, 955259,
     955459, 955657, 955855, 956052, 956248, 956442, 956636, 956829, 957021, 957212, 957402, 957591, 957779, 957966,
     958153, 958338, 958522, 958706, 958889, 959071, 959251, 959431, 959611, 959789, 959966, 960143, 960318, 960493,
     960667, 960840, 961013, 961184, 961355, 961524, 961693, 961862, 962029, 962195, 962361, 962526, 962690, 962854,
     963016, 963178, 963339, 963499, 963659, 963817, 963975, 964132, 964289, 964444, 964599, 964754, 964907, 965060,
     965212, 965363, 965513, 965663, 965812, 965961, 966108, 966255, 966402, 966547, 966692, 966836, 966980, 967123,
     967265, 967407, 967547, 967688, 967827, 967966, 968104, 968242, 968379, 968515, 968650, 968785, 968920, 969053,
     969186, 969319, 969451, 969582, 969713, 969843, 969972, 970101, 970229, 970356, 970483, 970610, 970736, 970861,
     970985, 971110, 971233, 971356, 971478, 971600, 971721, 971842, 971962, 972081, 972200, 972319, 972437, 972554,
     972671, 972787, 972903, 973018, 973133, 973247, 973360, 973473, 973586, 973698, 973809, 973920, 974031, 974141,
     974250, 974359, 974468, 974576, 974683, 974790, 974897, 975003, 975108, 975213, 975318, 975422, 975526, 975629,
     975731, 975834, 975935, 976037, 976138, 976238, 976338, 976437, 976536, 976635, 976733, 976831, 976928, 977025,
     977121, 977217, 977312, 977407, 977502, 977596, 977690, 977783, 977876, 977969, 978061, 978153, 978244, 978335,
     978425, 978515, 978605, 978694, 978783, 978871, 978959, 979047, 979134, 979221, 979308, 979394, 979479, 979565,
     979650, 979734, 979818, 979902, 979986, 980069, 980151, 980234, 980316, 980397, 980479, 980560, 980640, 980720,
     980800, 980879, 980959, 981037, 981116, 981194, 981271, 981349, 981426, 981503, 981579, 981655, 981731, 981806,
     981881, 981956, 982030, 982104, 982178, 982251, 982324, 982397, 982469, 982541, 982613, 982685, 982756, 982827,
     982897, 982967, 983037, 983107, 983176, 983245, 983314, 983382, 983450, 983518, 983586, 983653, 983720, 983786,
     983853, 983919, 983985, 984050, 984115, 984180, 984245, 984309, 984373, 984437, 984500, 984564, 984627, 984689,
     984752, 984814, 984876, 984937, 984999, 985060, 985121, 985181, 985242, 985302]"

definition MI_map_64qam_axis :: "fp list" where
  "MI_map_64qam_axis = map millionths
    [250000, 460000, 670000, 880000, 1090000, 1300000, 1510000, 1720000, 1930000, 2140000, 2350000, 2560000, 2770000,
     2980000, 3190000, 3400000, 3610000, 3820000, 4030000, 4240000, 4450000, 4660000, 4870000, 5080000, 5290000,
     5500000, 5710000, 5920000, 6130000, 6340000, 6550000, 6760000, 6970000, 7180000, 7390000, 7600000, 7810000,
     8020000, 8230000, 8440000, 8650000, 8860000, 9070000, 9280000, 9490000, 9700000, 9910000, 10120000, 10330000,
     10540000, 10750000, 10960000, 11170000, 11380000, 11590000, 11800000, 12010000, 12220000, 12430000, 12640000,
     12850000, 13060000, 13270000, 13480000, 13690000, 13900000, 14110000, 14320000, 14530000, 14740000, 14950000,
     15160000, 15370000, 15580000, 15790000, 16000000, 16210000, 16420000, 16630000, 16840000, 17050000, 17260000,
     17470000, 17680000, 17890000, 18100000, 18310000, 18520000, 18730000, 18940000, 19150000, 19360000, 19570000,
     19780000, 19990000, 20200000, 20410000, 20620000, 20830000, 21040000, 21250000, 21460000, 21670000, 21880000,
     22090000, 22300000, 22510000, 22720000, 22930000, 23140000, 23350000, 23560000, 23770000, 23980000, 24190000,
     24400000, 24610000, 24820000, 25030000, 25240000, 25450000, 25660000, 25870000, 26080000, 26290000, 26500000,
     26710000, 26920000, 27130000, 27340000, 27550000, 27760000, 27970000, 28180000, 28390000, 28600000, 28810000,
     29020000, 29230000, 29440000, 29650000, 29860000, 30070000, 30280000, 30490000, 30700000, 30910000, 31120000,
     31330000, 31540000, 31750000, 31960000, 32170000, 32380000, 32590000, 32800000, 33010000, 33220000, 33430000,
     33640000, 33850000, 34060000, 34270000, 34480000, 34690000, 34900000, 35110000, 35320000, 35530000, 35740000,
     35950000, 36160000, 36370000, 36580000, 36790000, 37000000, 37210000, 37420000, 37630000, 37840000, 38050000,
     38260000, 38470000, 38680000, 38890000, 39100000, 39310000, 39520000, 39730000, 39940000, 40150000, 40360000,
     40570000, 40780000, 40990000, 41200000, 41410000, 41620000, 41830000, 42040000, 42250000, 42460000, 42670000,
     42880000, 43090000, 43300000, 43510000, 43720000, 43930000, 44140000, 44350000, 44560000, 44770000, 44980000,
     45190000, 45400000, 45610000, 45820000, 46030000, 46240000, 46450000, 46660000, 46870000, 47080000, 47290000,
     47500000, 47710000, 47920000, 48130000, 48340000, 48550000, 48760000, 48970000, 49180000, 49390000, 49600000,
     49810000, 50020000, 50230000, 50440000, 50650000, 50860000, 51070000, 51280000, 51490000, 51700000, 51910000,
     52120000, 52330000, 52540000, 52750000, 52960000, 53170000, 53380000, 53590000, 53800000, 54010000, 54220000,
     54430000, 54640000, 54850000, 55060000, 55270000, 55480000, 55690000, 55900000, 56110000, 56320000, 56530000,
     56740000, 56950000, 57160000, 57370000, 57580000, 57790000, 58000000, 58210000, 58420000, 58630000, 58840000,
     59050000, 59260000, 59470000, 59680000, 59890000, 60100000, 60310000, 60520000, 60730000, 60940000, 61150000,
     61360000, 61570000, 61780000, 61990000, 62200000, 62410000, 62620000, 62830000, 63040000, 63250000, 63460000,
     63670000, 63880000, 64090000, 64300000, 64510000, 64720000, 64930000, 65140000, 65350000, 65560000, 65770000,
     65980000, 66190000, 66400000, 66610000, 66820000, 67030000, 67240000, 67450000, 67660000, 67870000, 68080000,
     68290000, 68500000, 68710000, 68920000, 69130000, 69340000, 69550000, 69760000, 69970000, 70180000, 70390000,
     70600000, 70810000, 71020000, 71230000, 71440000, 71650000, 71860000, 72070000, 72280000, 72490000, 72700000,
     72910000, 73120000, 73330000, 73540000, 73750000, 73960000, 74170000, 74380000, 74590000, 74800000, 75010000,
     75220000, 75430000, 75640000, 75850000, 76060000, 76270000, 76480000, 76690000, 76900000, 77110000, 77320000,
     77530000, 77740000, 77950000, 78160000, 78370000, 78580000, 78790000, 79000000, 79210000, 79420000, 79630000,
     79840000, 80050000, 80260000, 80470000, 80680000, 80890000, 81100000, 81310000, 81520000, 81730000, 81940000,
     82150000, 82360000, 82570000, 82780000, 82990000, 83200000, 83410000, 83620000, 83830000, 84040000, 84250000,
     84460000, 84670000, 84880000, 85090000, 85300000, 85510000, 85720000, 85930000, 86140000, 86350000, 86560000,
     86770000, 86980000, 87190000, 87400000, 87610000, 87820000, 88030000, 88240000, 88450000, 88660000, 88870000,
     89080000, 89290000, 89500000, 89710000, 89920000, 90130000, 90340000, 90550000, 90760000, 90970000, 91180000,
     91390000, 91600000, 91810000, 92020000, 92230000, 92440000, 92650000, 92860000, 93070000, 93280000, 93490000,
     93700000, 93910000, 94120000, 94330000, 94540000, 94750000, 94960000, 95170000, 95380000, 95590000, 95800000,
     96010000, 96220000, 96430000, 96640000, 96850000, 97060000, 97270000, 97480000, 97690000, 97900000, 98110000,
     98320000, 98530000, 98740000, 98950000, 99160000, 99370000, 99580000, 99790000, 100000000, 100210000, 100420000,
     100630000, 100840000, 101050000, 101260000, 101470000, 101680000, 101890000, 102100000, 102310000, 102520000,
     102730000, 102940000, 103150000, 103360000, 103570000, 103780000, 103990000, 104200000, 104410000, 104620000,
     104830000, 105040000, 105250000, 105460000, 105670000, 105880000, 106090000, 106300000, 106510000, 106720000,
     106930000, 107140000, 107350000, 107560000, 107770000, 107980000, 108190000, 108400000, 108610000, 108820000,
     109030000, 109240000, 109450000, 109660000, 109870000, 110080000, 110290000, 110500000, 110710000, 110920000,
     111130000, 111340000, 111550000, 111760000, 111970000, 112180000, 112390000, 112600000, 112810000, 113020000,
     113230000, 113440000, 113650000, 113860000, 114070000, 114280000, 114490000, 114700000, 114910000, 115120000,
     115330000, 115540000, 115750000, 115960000, 116170000, 116380000, 116590000, 116800000, 117010000, 117220000,
     117430000, 117640000, 117850000, 118060000, 118270000, 118480000, 118690000, 118900000, 119110000, 119320000,
     119530000, 119740000, 119950000, 120160000, 120370000, 120580000, 120790000, 121000000, 121210000, 121420000,
     121630000, 121840000, 122050000, 122260000, 122470000, 122680000, 122890000, 123100000, 123310000, 123520000,
     123730000, 123940000, 124150000, 124360000, 124570000, 124780000, 124990000, 125200000, 125410000, 125620000,
     125830000, 126040000, 126250000, 126460000, 126670000, 126880000, 127090000, 127300000, 127510000, 127720000,
     127930000, 128140000, 128350000, 128560000, 128770000, 128980000, 129190000, 129400000, 129610000, 129820000,
     130030000, 130240000, 130450000, 130660000, 130870000, 131080000, 131290000, 131500000, 131710000, 131920000,
     132130000, 132340000, 132550000, 132760000, 132970000, 133180000, 133390000, 133600000, 133810000, 134020000,
     134230000, 134440000, 134650000, 134860000, 135070000, 135280000, 135490000, 135700000, 135910000, 136120000,
     136330000, 136540000, 136750000, 136960000, 137170000, 137380000, 137590000, 137800000, 138010000, 138220000,
     138430000, 138640000, 138850000, 139060000, 139270000, 139480000, 139690000, 139900000, 140110000, 140320000,
     140530000, 140740000, 140950000, 141160000, 141370000, 141580000, 141790000, 142000000, 142210000, 142420000,
     142630000, 142840000, 143050000, 143260000, 143470000, 143680000, 143890000, 144100000, 144310000, 144520000,
     144730000, 144940000, 145150000, 145360000, 145570000, 145780000, 145990000, 146200000, 146410000, 146620000,
     146830000, 147040000, 147250000, 147460000, 147670000, 147880000, 148090000, 148300000, 148510000, 148720000,
     148930000, 149140000, 149350000, 149560000, 149770000, 149980000, 150190000, 150400000, 150610000, 150820000,
     151030000, 151240000, 151450000, 151660000, 151870000, 152080000, 152290000, 152500000, 152710000, 152920000,
     153130000, 153340000, 153550000, 153760000, 153970000, 154180000, 154390000, 154600000, 154810000, 155020000,
     155230000, 155440000, 155650000, 155860000, 156070000, 156280000, 156490000, 156700000, 156910000, 157120000,
     157330000, 157540000, 157750000, 157960000]"

definition bEcrTable :: "fp list list" where
  "bEcrTable = map (map millionths)
    [[24720, 63520, 95160, 177700, - 1000000, - 1000000, - 1000000, - 1000000, - 1000000, - 1000000, - 1000000,
      - 1000000, - 1000000, - 1000000, - 1000000, - 1000000, - 1000000, - 1000000, - 1000000, - 1000000, - 1000000,
      - 1000000, - 1000000, - 1000000, - 1000000, - 1000000, - 1000000, - 1000000, - 1000000, - 1000000, - 1000000,
      - 1000000, - 1000000, - 1000000, - 1000000, - 1000000, - 1000000, - 1000000],
     [19400, 50200, 75920, 142300, 175300, 188200, 249900, - 1000000, - 1000000, - 1000000, - 1000000, - 1000000,
      - 1000000, - 1000000, - 1000000, - 1000000, - 1000000, - 1000000, - 1000000, - 1000000, - 1000000, - 1000000,
      - 1000000, - 1000000, - 1000000, - 1000000, - 1000000, - 1000000, - 1000000, - 1000000, - 1000000, - 1000000,
      - 1000000, - 1000000, - 1000000, - 1000000, - 1000000, - 1000000],
     [18200, 46880, 70820, 135400, 165500, 181200, 235100, 287300, 346200, - 1000000, - 1000000, - 1000000,
      - 1000000, - 1000000, - 1000000, - 1000000, - 1000000, - 1000000, - 1000000, - 1000000, - 1000000, - 1000000,
      - 1000000, - 1000000, - 1000000, - 1000000, - 1000000, - 1000000, - 1000000, - 1000000, - 1000000, - 1000000,
      - 1000000, - 1000000, - 1000000, - 1000000, - 1000000, - 1000000],
     [17280, 44880, 67860, 130400, 158400, 173500, 226500, 278200, 334000, 392700, 478500, 556600, - 1000000,
      - 1000000, - 1000000, - 1000000, - 1000000, - 1000000, - 1000000, - 1000000, - 1000000, - 1000000, - 1000000,
      - 1000000, - 1000000, - 1000000, - 1000000, - 1000000, - 1000000, - 1000000, - 1000000, - 1000000, - 1000000,
      - 1000000, - 1000000, - 1000000, - 1000000, - 1000000],
     [16580, 43320, 65500, 125700, 152800, 166700, 218800, 268000, 322900, 381800, 460700, 537300, 608100, 150040,
      182660, 240840, 378300, 404900, 447200, 497500, 555600, - 1000000, - 1000000, - 1000000, - 1000000, - 1000000,
      - 1000000, - 1000000, - 1000000, - 1000000, - 1000000, - 1000000, - 1000000, - 1000000, - 1000000, - 1000000,
      - 1000000, - 1000000],
     [16220, 42160, 64020, 122400, 149700, 163800, 213900, 263600, 319500, 376800, 452000, 526900, 596300, 148460,
      181020, 237880, 375400, 397900, 439900, 489400, 546400, 603400, 661900, 139380, 192120, 288900, 506620, 522260,
      562700, 608900, 657700, 704900, 750800, - 1000000, - 1000000, - 1000000, - 1000000, - 1000000],
     [16000, 41640, 63200, 121100, 148000, 161500, 211900, 261100, 315700, 373500, 445800, 520500, 590200, 144840,
      177700, 235580, 372900, 393900, 435100, 485100, 541600, 597600, 655400, 137700, 183360, 276000, 500280, 518880,
      561900, 605600, 652100, 698200, 744100, 787400, 831500, 873500, 908900, 936900],
     [15980, 41640, 63000, 120800, 147700, 161200, 211200, 260600, 315300, 372800, 444100, 518500, 588200, 169280,
      199820, 255200, 386400, 392100, 433800, 487100, 538600, 594000, 652700, 137540, 189560, 284080, 503160, 518720,
      559100, 602700, 651200, 698100, 743700, 787300, 830100, 870200, 908200, 933900],
     [15980, 41540, 62880, 120700, 147400, 161200, 211100, 260500, 315300, 372600, 443900, 519300, 588200, 144900,
      177420, 235140, 372400, 392100, 433900, 483300, 540700, 595200, 652800, 137520, 182440, 275780, 497800, 516060,
      560000, 602700, 649400, 694800, 740700, 784200, 828400, 869200, 905800, 932500]]"

definition cEcrTable :: "fp list list" where
  "cEcrTable = map (map millionths)
    [[5430, 13370, 19690, 34200, - 1000000, - 1000000, - 1000000, - 1000000, - 1000000, - 1000000, - 1000000,
      - 1000000, - 1000000, - 1000000, - 1000000, - 1000000, - 1000000, - 1000000, - 1000000, - 1000000, - 1000000,
      - 1000000, - 1000000, - 1000000, - 1000000, - 1000000, - 1000000, - 1000000, - 1000000, - 1000000, - 1000000,
      - 1000000, - 1000000, - 1000000, - 1000000, - 1000000, - 1000000, - 1000000],
     [3010, 7490, 10710, 19800, 23900, 24800, 32000, - 1000000, - 1000000, - 1000000, - 1000000, - 1000000,
      - 1000000, - 1000000, - 1000000, - 1000000, - 1000000, - 1000000, - 1000000, - 1000000, - 1000000, - 1000000,
      - 1000000, - 1000000, - 1000000, - 1000000, - 1000000, - 1000000, - 1000000, - 1000000, - 1000000, - 1000000,
      - 1000000, - 1000000, - 1000000, - 1000000, - 1000000, - 1000000],
     [2450, 5890, 8430, 15700, 19000, 20400, 25200, 31000, 34800, - 1000000, - 1000000, - 1000000, - 1000000,
      - 1000000, - 1000000, - 1000000, - 1000000, - 1000000, - 1000000, - 1000000, - 1000000, - 1000000, - 1000000,
      - 1000000, - 1000000, - 1000000, - 1000000, - 1000000, - 1000000, - 1000000, - 1000000, - 1000000, - 1000000,
      - 1000000, - 1000000, - 1000000, - 1000000, - 1000000],
     [1870, 4530, 6990, 12300, 14900, 16300, 21200, 25200, 29800, 30400, 34100, 38200, - 1000000, - 1000000,
      - 1000000, - 1000000, - 1000000, - 1000000, - 1000000, - 1000000, - 1000000, - 1000000, - 1000000, - 1000000,
      - 1000000, - 1000000, - 1000000, - 1000000, - 1000000, - 1000000, - 1000000, - 1000000, - 1000000, - 1000000,
      - 1000000, - 1000000, - 1000000, - 1000000],
     [1350, 3190, 4690, 8500, 10600, 10900, 14000, 17800, 21700, 21900, 24900, 27000, 29200, 10270, 11970, 14850,
      20200, 20600, 22000, 23500, 23600, - 1000000, - 1000000, - 1000000, - 1000000, - 1000000, - 1000000, - 1000000,
      - 1000000, - 1000000, - 1000000, - 1000000, - 1000000, - 1000000, - 1000000, - 1000000, - 1000000, - 1000000],
     [930, 2390, 3270, 6100, 7400, 7800, 10200, 12100, 13800, 16300, 17800, 20700, 19800, 7250, 8790, 10150, 14100,
      13700, 15400, 16400, 17500, 18800, 18800, 7050, 11110, 13590, 16610, 16550, 15700, 16900, 18500, 18900, 20000,
      - 1000000, - 1000000, - 1000000, - 1000000, - 1000000],
     [590, 1450, 2090, 4000, 4700, 5000, 6300, 7900, 9100, 10100, 11700, 12300, 12900, 4190, 5150, 6490, 8300, 9100,
      9500, 10200, 11200, 11400, 11900, 4510, 5970, 7910, 9510, 9430, 9600, 10400, 10900, 10800, 11800, 12200, 11700,
      11000, 9700, 8500],
     [450, 1110, 1730, 3200, 3800, 3900, 5100, 6300, 7200, 7900, 8400, 10000, 10600, 5770, 6150, 7230, 9200, 7400,
      7800, 9000, 8400, 8900, 9200, 3690, 5650, 7370, 7950, 8000, 8000, 8100, 9000, 9100, 9500, 9600, 9400, 8600,
      7800, 7100],
     [370, 930, 1410, 2500, 3200, 3200, 4200, 5400, 5900, 6400, 7300, 8100, 7600, 2730, 3510, 4170, 5600, 5800, 6400,
      7000, 6800, 7400, 8000, 3030, 3770, 5070, 6000, 6090, 6100, 6600, 6900, 8000, 8100, 8000, 7700, 6800, 6600,
      5800]]"

definition measured :: curves where
  "measured = \<lparr>cv_qpsk = \<lparr>mm_axis = MI_map_qpsk_axis, mm_values = MI_map_qpsk\<rparr>,
     cv_16qam = \<lparr>mm_axis = MI_map_16qam_axis, mm_values = MI_map_16qam\<rparr>,
     cv_64qam = \<lparr>mm_axis = MI_map_64qam_axis, mm_values = MI_map_64qam\<rparr>, cv_bEcr = bEcrTable, cv_cEcr = cEcrTable\<rparr>"

lemma curve_sizes:
  "length MI_map_qpsk_axis = 797" "length MI_map_qpsk = 797"
  "length MI_map_16qam_axis = 994" "length MI_map_16qam = 994"
  "length MI_map_64qam_axis = 752" "length MI_map_64qam = 752"
  "length bEcrTable = 9" "length cEcrTable = 9" 
  by (simp_all add: MI_map_qpsk_axis_def MI_map_qpsk_def MI_map_16qam_axis_def MI_map_16qam_def MI_map_64qam_axis_def
      MI_map_64qam_def bEcrTable_def cEcrTable_def)

end
