(* ===== verification/AmcBlocks.thy ===== *)
theory AmcBlocks
  imports Amc
begin

text \<open>
  What the segmentation into code blocks promises, with the rounding of its \<open>double\<close> arithmetic, and when the reported
  channel quality is wrong.
\<close>

subsection \<open>Exact quotients\<close>

text \<open>A quotient of integers that fit rounds neither up to nor down past an integer.\<close>

lemma fl_quotient:
  fixes a d :: nat
  assumes "0 < d" and "d < 2 ^ 40" and "a < 2 ^ 40"
  obtains y where "fl (of_nat a / of_nat d) = Num y" "\<lfloor>y\<rfloor> = int (a div d)"
    "\<lceil>y\<rceil> = (if d dvd a then int (a div d) else int (a div d) + 1)"
proof (cases "d dvd a")
  case True
  then have "(of_nat a / of_nat d :: rat) = of_int (int (a div d))"
    using assms(1) by (auto elim!: dvdE)
  moreover have "\<bar>int (a div d)\<bar> < 2 ^ 53" using le_less_trans[OF div_le_dividend[of a d] assms(3)] by simp
  ultimately have "fl (of_nat a / of_nat d) = Num (of_int (int (a div d)))" by (simp only: fl_int)
  then show ?thesis using that[of "of_int (int (a div d))"] True by simp
next
  case False
  let ?q = "of_nat a / of_nat d :: rat" and ?n = "a div d"
  have m: "0 < a mod d" "a mod d < d" using False assms(1) by (simp_all add: dvd_eq_mod_eq_0)
  have a: "(of_nat a :: rat) = of_nat ?n * of_nat d + of_nat (a mod d)"
    by (metis div_mult_mod_eq of_nat_add of_nat_mult)
  have "0 < a" using False by (auto intro!: gr0I)
  then have al: "(1 :: rat) \<le> of_nat a" "(of_nat a :: rat) < 2 ^ 40" and d: "(0 :: rat) < of_nat d" "(of_nat d :: rat) < 2 ^ 40"
    using assms(1,2) of_nat_less_iff[of a "2 ^ 40", where ?'a = rat] of_nat_less_iff[of d "2 ^ 40", where ?'a = rat] assms(3)
    by (simp_all add: Suc_le_eq)
  have m1: "(1 :: rat) \<le> of_nat (a mod d)" "(of_nat (a mod d) :: rat) \<le> of_nat d - 1"
  proof -
    show "(1 :: rat) \<le> of_nat (a mod d)" using m(1) by (simp add: Suc_le_eq)
    have "of_nat (Suc (a mod d)) \<le> (of_nat d :: rat)" using m(2) by (simp only: of_nat_le_iff Suc_le_eq)
    then show "(of_nat (a mod d) :: rat) \<le> of_nat d - 1" by simp
  qed
  have q: "of_nat ?n + 1 / of_nat d \<le> ?q" "?q \<le> of_nat ?n + 1 - 1 / of_nat d"
  proof -
    have r: "?q = of_nat ?n + of_nat (a mod d) / of_nat d" using d(1) unfolding a by (simp add: add_divide_distrib)
    have "1 / of_nat d \<le> (of_nat (a mod d) / of_nat d :: rat)" by (rule divide_right_mono) (use m1 d in simp_all)
    then show "of_nat ?n + 1 / of_nat d \<le> ?q" unfolding r by simp
    have "(of_nat (a mod d) / of_nat d :: rat) \<le> (of_nat d - 1) / of_nat d" by (rule divide_right_mono) (use m1 d in simp_all)
    then show "?q \<le> of_nat ?n + 1 - 1 / of_nat d" unfolding r using d(1) by (simp add: diff_divide_distrib)
  qed
  have lo: "1 / 2 ^ 100 \<le> ?q"
  proof -
    have "(1 :: rat) / 2 ^ 100 \<le> 1 / 2 ^ 40" by simp
    also have "\<dots> \<le> 1 / of_nat d" using d by (simp add: divide_simps)
    also have "\<dots> \<le> ?q" using al(1) d(1) by (simp add: divide_right_mono)
    finally show ?thesis .
  qed
  have qd: "?q \<le> of_nat a" using d(1) assms(1) by (simp add: pos_divide_le_eq mult_le_cancel_left1 Suc_le_eq)
  have up: "?q \<le> 2 ^ 100"
  proof -
    have "(2 :: rat) ^ 40 \<le> 2 ^ 100" by simp
    then show ?thesis using qd al(2) by linarith
  qed
  obtain y where y: "fl ?q = Num y" "y \<le> ?q + ?q / 2 ^ 53" "?q - ?q / 2 ^ 53 \<le> y" using fl_near[OF lo up] .
  have "?q / 2 ^ 53 < 1 / of_nat d"
  proof -
    have "?q / 2 ^ 53 * of_nat d = of_nat a / 2 ^ 53" using d(1) by simp
    also have "\<dots> < 1" using al(2) by simp
    finally show ?thesis using d(1) by (simp add: pos_less_divide_eq)
  qed
  then have "of_nat ?n < y" "y < of_nat ?n + 1" using q y(2,3) by linarith+
  then have "\<lfloor>y\<rfloor> = int ?n" "\<lceil>y\<rceil> = int ?n + 1"
    by (auto simp: floor_eq_iff ceiling_eq_iff)
  then show ?thesis using that[OF y(1)] False by simp
qed

lemma fp_of_u32_exact: "fp_of_u32 n = Num (of_nat (unat n))"
proof -
  have n: "uint n = int (unat n)" by simp
  have "uint n < 2 ^ LENGTH(32)" by (rule unsigned_less)
  then have "\<bar>uint n\<bar> < 2 ^ 53" by simp
  then have "fp_of_u32 n = Num (of_int (uint n))" unfolding fp_of_u32_def by (rule fp_of_int_exact)
  then show ?thesis unfolding n by (simp only: of_int_of_nat_eq)
qed

lemma fp_to_u32_nat:
  assumes "n < 2 ^ 32"
  shows "fp_to_u32 (Num (of_nat n)) = Inr (of_nat n)"
  using assms by (simp add: rat_trunc_def Let_def)

subsection \<open>The table of sizes\<close>

lemma length_sizes: "length cbSizeTable = 188"
  by (simp add: cbSizeTable_def)

lemma sizes_increase: "sorted_wrt (<) cbSizeTable"
  by (auto simp: cbSizeTable_def sorted_wrt_append sorted_wrt_map sorted_wrt_upt)

lemma size_bounds: "k \<in> set cbSizeTable \<Longrightarrow> 40 \<le> k \<and> k \<le> 6144"
  by (auto simp: cbSizeTable_def)

lemma first_last_size: "cbSizeTable ! 0 = 40" "cbSizeTable ! 187 = 6144"
  by (simp_all add: cbSizeTable_def nth_append)

lemma nth_size: "i < 188 \<Longrightarrow> 40 \<le> cbSizeTable ! i \<and> cbSizeTable ! i \<le> 6144"
  using size_bounds[of "cbSizeTable ! i"] by (simp add: length_sizes)

lemma upper_size_spec:
  assumes "v = Num r" and "i = upper_size v"
  shows "i < 188" "j < i \<Longrightarrow> of_nat (cbSizeTable ! j) \<le> r" "i < 187 \<Longrightarrow> r < of_nat (cbSizeTable ! i)"
proof -
  let ?xs = "butlast cbSizeTable"
  let ?P = "\<lambda>k. \<not> fp_less v (fp_of_int (int k))"
  have len: "length ?xs = 187" by (simp add: length_sizes)
  have i: "i = length (takeWhile ?P ?xs)" using assms(2) by (simp add: upper_size_def)
  then show "i < 188" using length_takeWhile_le[of ?P ?xs] len by simp
  have nth: "?xs ! j = cbSizeTable ! j" if "j < 187" for j using that len by (simp add: nth_butlast)
  have less: "fp_less v (fp_of_int (int (cbSizeTable ! j))) \<longleftrightarrow> r < of_nat (cbSizeTable ! j)" if "j < 188" for j
    using nth_size[OF that] assms(1) by (simp add: fp_of_int_exact)
  show "of_nat (cbSizeTable ! j) \<le> r" if "j < i"
    using nth_length_takeWhile takeWhile_nth[of j ?P ?xs] nth_mem[of j "takeWhile ?P ?xs"] that i len less[of j] nth[of j]
      length_takeWhile_le[of ?P ?xs] set_takeWhileD[of "takeWhile ?P ?xs ! j" ?P ?xs]
    by auto
  show "r < of_nat (cbSizeTable ! i)" if "i < 187"
    using nth_length_takeWhile[of ?P ?xs] that i len less[of i] nth[of i] by auto
qed

text \<open>The value that is looked up lies a little above the exact quotient.\<close>

lemma looked_up:
  fixes b c :: nat
  assumes "0 < c" and "c < 2 ^ 20" and "c \<le> b" and "b \<le> 6144 * c"
  obtains r where "fp_add (fp_div (Num (of_nat b)) (Num (of_nat c))) (dec (1 / 1000)) = Num r"
    "of_nat b / of_nat c < r" "r < of_nat b / of_nat c + 1 / 500"
proof -
  let ?q = "of_nat b / of_nat c :: rat"
  have "of_nat c \<le> (of_nat b :: rat)" "of_nat b \<le> (of_nat (6144 * c) :: rat)"
    using assms(3,4) by (simp_all only: of_nat_le_iff)
  then have q: "1 \<le> ?q" "?q \<le> 6144" using assms(1) by (simp_all add: divide_simps)
  have lo: "(1 :: rat) / 2 ^ 100 \<le> 1 / 1000" and hi: "(6145 :: rat) \<le> 2 ^ 100" by simp_all
  obtain x where x: "fl ?q = Num x" "x \<le> ?q + ?q / 2 ^ 53" "?q - ?q / 2 ^ 53 \<le> x"
    by (rule fl_near[of ?q]) (use q lo hi in linarith)+
  have eps: "?q / 2 ^ 53 \<le> 1 / 100000" using q(2) by simp
  obtain y where y: "fl (1 / 1000) = Num y" "y \<le> 1 / 1000 + 1 / 1000 / 2 ^ 53" "1 / 1000 - 1 / 1000 / 2 ^ 53 \<le> y"
    by (rule fl_near[of "1 / 1000"]) (use lo in simp_all)
  have ey: "(1 / 1000 / 2 ^ 53 :: rat) \<le> 1 / 100000" by simp
  have xy: "1 / 1000 \<le> x + y" "x + y \<le> 6145" using x y q eps ey by linarith+
  obtain r where r: "fl (x + y) = Num r" "r \<le> x + y + (x + y) / 2 ^ 53" "x + y - (x + y) / 2 ^ 53 \<le> r"
    by (rule fl_near[of "x + y"]) (use xy lo hi in linarith)+
  have er: "(x + y) / 2 ^ 53 \<le> 1 / 100000" using xy(2) by simp
  show thesis
  proof (rule that)
    show "fp_add (fp_div (Num (of_nat b)) (Num (of_nat c))) (dec (1 / 1000)) = Num r"
      using x(1) y(1) r(1) assms(1) by (simp add: dec_def)
    show "?q < r" "r < ?q + 1 / 500" using r(2,3) x(2,3) y(2,3) eps ey er by linarith+
  qed
qed

subsection \<open>Segmentation\<close>

text \<open>The sizes that are chosen for \<open>b\<close> bits in \<open>c\<close> blocks.\<close>

lemma chosen_sizes:
  fixes b c :: nat
  assumes c: "0 < c" "c \<le> 500" "c \<le> b" "b \<le> 6144 * c"
  defines "i \<equiv> upper_size (fp_add (fp_div (Num (of_nat b)) (Num (of_nat c))) (dec (1 / 1000)))"
  shows "i < 188" "b \<le> c * cbSizeTable ! i" "0 < i \<Longrightarrow> c * cbSizeTable ! (i - 1) \<le> b" "40 * c < b \<Longrightarrow> 0 < i"
    "0 < i \<Longrightarrow> cbSizeTable ! (i - 1) < cbSizeTable ! i"
proof -
  have "c < 2 ^ 20" using c(2) by simp
  then obtain r where v: "fp_add (fp_div (Num (of_nat b)) (Num (of_nat c))) (dec (1 / 1000)) = Num r"
    and r: "of_nat b / of_nat c < r" "r < of_nat b / of_nat c + 1 / 500"
    using looked_up[OF c(1) _ c(3,4)] by blast
  note spec = upper_size_spec[OF v meta_eq_to_obj_eq[OF i_def]]
  show i: "i < 188" by (rule spec(1))
  have cq: "(0 :: rat) < of_nat c" "(of_nat c :: rat) \<le> 500" using c(1,2) by simp_all
  have rc: "of_nat b < r * of_nat c" using r(1) cq(1) by (simp add: pos_divide_less_eq)
  have "(r - of_nat b / of_nat c) * of_nat c \<le> 1 / 500 * 500" using r cq by (intro mult_mono) simp_all
  moreover have "(r - of_nat b / of_nat c) * of_nat c = r * of_nat c - of_nat b" using cq(1) by (simp add: left_diff_distrib)
  moreover have "(r - of_nat b / of_nat c) * of_nat c < 1 / 500 * of_nat c" using r(2) cq(1) by (intro mult_strict_right_mono) simp_all
  ultimately have rb: "r * of_nat c < of_nat b + 1" using cq(2) by linarith
  show "b \<le> c * cbSizeTable ! i"
  proof (cases "i < 187")
    case True
    then have "r * of_nat c < of_nat (cbSizeTable ! i) * of_nat c" using spec(3) cq(1) by simp
    then have "of_nat b < (of_nat (c * cbSizeTable ! i) :: rat)" using rc by (simp add: mult.commute)
    then show ?thesis by (simp only: of_nat_less_iff)
  next
    case False
    then have "i = 187" using i by simp
    then show ?thesis using c(4) by (simp add: first_last_size)
  qed
  show "c * cbSizeTable ! (i - 1) \<le> b" if "0 < i"
  proof -
    have "of_nat (cbSizeTable ! (i - 1)) * of_nat c \<le> r * of_nat c" using spec(2)[of "i - 1"] that cq(1) by simp
    then have "(of_nat (c * cbSizeTable ! (i - 1)) :: rat) < of_nat (b + 1)" using rb by (simp add: mult.commute)
    then show ?thesis by (simp only: of_nat_less_iff)
  qed
  show "0 < i" if "40 * c < b"
  proof (rule ccontr)
    assume "\<not> 0 < i"
    then have "r < 40" using spec(3) by (simp add: first_last_size)
    then have "r * of_nat c < 40 * of_nat c" using cq(1) by simp
    then have "of_nat b < (of_nat (40 * c) :: rat)" using rc by simp
    then show False using that by (simp only: of_nat_less_iff)
  qed
  show "cbSizeTable ! (i - 1) < cbSizeTable ! i" if "0 < i"
    using sorted_wrt_nth_less[OF sizes_increase, of "i - 1" i] that i by (simp add: length_sizes)
qed


text \<open>What a segmentation of \<open>b\<close> bits has to satisfy.\<close>

definition segmented :: "nat \<Rightarrow> code_blocks \<Rightarrow> bool" where
  "segmented b cb =
     (let c = unat (cb_C cb); kp = unat (cb_Kplus cb); km = unat (cb_Kminus cb);
          np = unat (cb_Cplus cb); nm = unat (cb_Cminus cb); b1 = (if b \<le> 6144 then b else b + 24 * c) in
      (if b \<le> 6144 then c = 1 \<and> km = 0 else (c - 1) * 6120 < b \<and> b \<le> c * 6120 \<and> km \<in> set cbSizeTable) \<and>
      kp \<in> set cbSizeTable \<and> km < kp \<and> np + nm = c \<and>
      c * km \<le> b1 \<and> b1 \<le> c * kp \<and>
      b1 \<le> np * kp + nm * km \<and> (1 < c \<longrightarrow> np * kp + nm * km < b1 + (kp - km)))"

lemma two_sizes:
  fixes b c kp km :: nat
  assumes "km < kp" and "c * km \<le> b" and "b \<le> c * kp"
  defines "m \<equiv> (c * kp - b) div (kp - km)"
  shows "m \<le> c" "b \<le> (c - m) * kp + m * km" "(c - m) * kp + m * km < b + (kp - km)"
proof -
  let ?d = "kp - km" and ?e = "c * kp - b"
  have "?e \<le> c * ?d" using assms(2) by (simp add: diff_mult_distrib2)
  then have "?e div ?d \<le> c * ?d div ?d" by (rule div_le_mono)
  then show m: "m \<le> c" using assms(1) by (simp add: m_def)
  have s: "(c - m) * kp + m * km + m * ?d = c * kp"
  proof -
    obtain r where c: "c = r + m" using m by (metis add.commute le_Suc_ex)
    obtain d where k: "kp = km + d" using assms(1) by (metis less_imp_le le_Suc_ex)
    show ?thesis unfolding c k by (simp add: algebra_simps)
  qed
  have e: "m * ?d + ?e mod ?d = ?e" unfolding m_def by (rule div_mult_mod_eq)
  have "?e mod ?d < ?d" using assms(1) by simp
  then show "b \<le> (c - m) * kp + m * km" "(c - m) * kp + m * km < b + ?d" using s e assms(3) by linarith+
qed


lemma unat_size: "i < 188 \<Longrightarrow> unat (of_nat (cbSizeTable ! i) :: u32) = cbSizeTable ! i"
  using nth_size[of i] by (simp add: unat_of_nat take_bit_nat_eq_self_iff)

lemma segment_one:
  assumes "0 < B" and "B \<le> 6144"
  obtains cb where "segment B = Inr cb" "segmented (unat B) cb"
proof -
  let ?i = "upper_size (fp_add (fp_div (Num (of_nat (unat B))) (Num (of_nat 1))) (dec (1 / 1000)))"
  have b: "1 \<le> unat B" "unat B \<le> 6144 * 1"
    using assms by (simp_all add: word_less_nat_alt word_le_nat_alt Suc_le_eq)
  note ch = chosen_sizes[OF zero_less_one _ b(1,2)]
  have i: "?i < 188" "unat B \<le> cbSizeTable ! ?i" using ch(1,2) by simp_all
  let ?cb = "\<lparr>cb_C = 1, cb_Cplus = 1, cb_Kplus = of_nat (cbSizeTable ! ?i), cb_Cminus = 0, cb_Kminus = 0\<rparr>"
  have "segment B = Inr ?cb"
    using assms(2) by (simp add: segment_def fp_of_u32_exact Let_def)
  moreover have "segmented (unat B) ?cb"
    using i b(1,2) nth_size[OF i(1)] by (simp add: segmented_def unat_size Let_def length_sizes)
  ultimately show ?thesis by (rule that)
qed


lemma fl_nat: "n < 2 ^ 53 \<Longrightarrow> fl (of_nat n) = Num (of_nat n)"
  using fl_int[of "int n"] by simp

lemma u32_nat: "n < 2 ^ 32 \<Longrightarrow> unat (of_nat n :: u32) = n"
  by (simp add: unat_of_nat take_bit_nat_eq_self_iff)

lemma u32_ceil:
  assumes "0 < d" and "d < 2 ^ 40" and "a < 2 ^ 32"
  shows "fp_to_u32 (fp_ceil (fp_div (Num (of_nat a)) (Num (of_nat d)))) = Inr (of_nat (a div d + (if d dvd a then 0 else 1)))"
proof -
  have "a < 2 ^ 40" using assms(3) by simp
  then obtain y where y: "fl (of_nat a / of_nat d) = Num y" "\<lceil>y\<rceil> = (if d dvd a then int (a div d) else int (a div d) + 1)"
    using fl_quotient[OF assms(1,2)] by blast
  then have ce: "\<lceil>y\<rceil> = int (a div d + (if d dvd a then 0 else 1))" by simp
  have "a div d + (if d dvd a then 0 else 1) \<le> a"
  proof (cases "d dvd a")
    case False
    then have "d \<noteq> 1" and "0 < a" by (auto intro!: gr0I)
    then have "a div d < a" using assms(1) by (intro div_less_dividend) simp_all
    then show ?thesis using False by simp
  qed simp
  then have "a div d + (if d dvd a then 0 else 1) < 2 ^ 32" using assms(3) by linarith
  then have n: "fp_to_u32 (Num (of_nat (a div d + (if d dvd a then 0 else 1)))) = Inr (of_nat (a div d + (if d dvd a then 0 else 1)))"
    by (rule fp_to_u32_nat)
  have q: "fp_div (Num (of_nat a)) (Num (of_nat d)) = Num y" using y(1) assms(1) by simp
  show ?thesis unfolding q fp_ceil.simps ce of_int_of_nat_eq by (rule n)
qed

lemma u32_floor:
  assumes "0 < d" and "d < 2 ^ 40" and "a < 2 ^ 32"
  shows "fp_to_u32 (fp_floor (fp_div (Num (of_nat a)) (Num (of_nat d)))) = Inr (of_nat (a div d))"
proof -
  have "a < 2 ^ 40" using assms(3) by simp
  then obtain y where y: "fl (of_nat a / of_nat d) = Num y" "\<lfloor>y\<rfloor> = int (a div d)"
    using fl_quotient[OF assms(1,2)] by blast
  have "a div d < 2 ^ 32" using assms(3) div_le_dividend[of a d] by linarith
  then show ?thesis using y assms(1) fp_to_u32_nat by simp
qed

lemma ceil_bounds:
  fixes a d :: nat
  assumes "0 < d" and "0 < a"
  defines "c \<equiv> a div d + (if d dvd a then 0 else 1)"
  shows "(c - 1) * d < a" "a \<le> c * d"
proof -
  have e: "a div d * d + a mod d = a" by (rule div_mult_mod_eq)
  have lt: "a mod d < d" using assms(1) by simp
  have c: "c = (if a mod d = 0 then a div d else Suc (a div d))" by (simp add: c_def dvd_eq_mod_eq_0)
  show "a \<le> c * d"
  proof (cases "a mod d = 0")
    case True
    then show ?thesis using c e by simp
  next
    case False
    then have "c * d = d + a div d * d" using c by simp
    then show ?thesis using e lt by linarith
  qed
  show "(c - 1) * d < a"
  proof (cases "a mod d = 0")
    case True
    then have "c = a div d" "a = a div d * d" using c e by simp_all
    then show ?thesis using assms(1,2) diff_mult_distrib[of "a div d" 1 d] by simp
  next
    case False
    then have "c - 1 = a div d" using c by simp
    then have "(c - 1) * d = a div d * d" by simp
    then show ?thesis using e False by linarith
  qed
qed

lemma segment_many:
  assumes "6144 < B" and "B \<le> 3000000"
  obtains cb where "segment B = Inr cb" "segmented (unat B) cb"
proof -
  let ?b = "unat B"
  define c where "c = ?b div 6120 + (if 6120 dvd ?b then 0 else 1)"
  define b1 where "b1 = ?b + 24 * c"
  define i where "i = upper_size (fp_add (fp_div (Num (of_nat b1)) (Num (of_nat c))) (dec (1 / 1000)))"
  define kp km where "kp = cbSizeTable ! i" and "km = cbSizeTable ! (i - 1)"
  define m where "m = (c * kp - b1) div (kp - km)"
  have b: "6144 < ?b" "?b \<le> 3000000" using assms by (simp_all add: word_less_nat_alt word_le_nat_alt)
  have c: "(c - 1) * 6120 < ?b" "?b \<le> c * 6120" 
    unfolding c_def by (rule ceil_bounds; use b in simp)+
  have c2: "2 \<le> c" "c \<le> 491" using b c by linarith+
  have b1: "c \<le> b1" "b1 \<le> 6144 * c" "40 * c < b1" using c c2 b by (simp_all add: b1_def)
  have c500: "0 < c" "c \<le> 500" using c2 by simp_all
  note ch = chosen_sizes[OF c500 b1(1,2), folded i_def]
  have i: "i < 188" "0 < i" "i - 1 < 188" using ch(1) ch(4)[OF b1(3)] by simp_all
  have k: "km < kp" "c * km \<le> b1" "b1 \<le> c * kp" using ch i by (simp_all add: kp_def km_def)
  have ks: "kp \<in> set cbSizeTable" "km \<in> set cbSizeTable" "kp \<le> 6144" 
    using i nth_size by (simp_all add: kp_def km_def length_sizes)
  note two = two_sizes[OF k, folded m_def]
  let ?cb = "\<lparr>cb_C = of_nat c, cb_Cplus = of_nat (c - m), cb_Kplus = of_nat kp, cb_Cminus = of_nat m, cb_Kminus = of_nat km\<rparr>"
  have u: "fp_of_u32 (of_nat n) = Num (of_nat n)" "unat (of_nat n :: u32) = n" if "n < 2 ^ 32" for n
    using that by (simp_all add: fp_of_u32_exact u32_nat)
  have kc: "c * kp \<le> 500 * 6144" by (rule mult_le_mono) (use c2 ks in simp_all)
  have small: "c < 2 ^ 32" "b1 < 2 ^ 32" "kp < 2 ^ 32" "km < 2 ^ 32" "kp - km < 2 ^ 40" "kp - km < 2 ^ 32" "c * kp < 2 ^ 53"
    "c * kp - b1 < 2 ^ 53" "c * kp - b1 < 2 ^ 32" "m < 2 ^ 32" "c - m < 2 ^ 32"
    using c2 b ks k(1) kc two(1) by (simp_all add: b1_def)
  have Z: "fp_of_u32 6120 = Num (of_nat 6120)" by (simp add: fp_of_u32_exact)
  have blocks: "fp_to_u32 (fp_ceil (fp_div (fp_of_u32 B) (fp_of_u32 6120))) = Inr (of_nat c)"
    unfolding Z c_def fp_of_u32_exact[of B] by (rule u32_ceil) (use b in simp_all)
  have bits: "B + of_nat c * 24 = of_nat b1" by (simp add: b1_def)
  have cm: "(of_nat c * of_nat kp :: rat) = of_nat (c * kp)" "(of_nat (c * kp) - of_nat b1 :: rat) = of_nat (c * kp - b1)"
    using k(3) by (simp_all only: of_nat_mult of_nat_diff)
  have sub: "(of_nat kp - of_nat km :: u32) = of_nat (kp - km)" using k(1) by simp
  have room: "fp_sub (fp_mul (fp_of_u32 (of_nat c)) (fp_of_u32 (of_nat kp))) (fp_of_u32 (of_nat b1)) =
      Num (of_nat (c * kp - b1))"
    unfolding u(1)[OF small(1)] u(1)[OF small(2)] u(1)[OF small(3)] fp_mul.simps cm(1) fl_nat[OF small(7)] fp_sub_def fp_neg.simps
      fp_add.simps diff_conv_add_uminus[symmetric] cm(2) by (rule fl_nat[OF small(8)])
  have minus: "fp_to_u32 (fp_floor (fp_div (fp_sub (fp_mul (fp_of_u32 (of_nat c)) (fp_of_u32 (of_nat kp)))
      (fp_of_u32 (of_nat b1))) (fp_of_u32 (of_nat kp - of_nat km)))) = Inr (of_nat m)"
    unfolding room sub u(1)[OF small(6)] m_def by (rule u32_floor) (use k(1) small in simp_all)
  have c1: "of_nat c \<noteq> (1 :: u32)" using u(2)[OF small(1)] c2 by auto
  have le: "(of_nat km :: u32) \<le> of_nat kp" using k(1) by (simp add: word_le_nat_alt u(2)[OF small(3)] u(2)[OF small(4)])
  have plus: "(of_nat c - of_nat m :: u32) = of_nat (c - m)" using two(1) by simp
  have at: "upper_size (fp_add (fp_div (fp_of_u32 (of_nat b1)) (fp_of_u32 (of_nat c))) (dec (1 / 1000))) = i"
    by (simp only: u(1)[OF small(1)] u(1)[OF small(2)] i_def)
  have "segment B = Inr ?cb"
    using assms(1) c1 le
    by (simp add: segment_def Let_def blocks bits at minus not_le[symmetric] flip: kp_def km_def[unfolded One_nat_def] plus del: of_nat_diff)
  moreover have "segmented ?b ?cb"
    using c two k ks b unfolding segmented_def Let_def by (simp add: u small b1_def[symmetric] del: of_nat_diff)
  ultimately show ?thesis by (rule that)
qed

text \<open>
  C26. The segmentation of a transport block of 1 to 3000000 bits (\<open>GetTbBitDecodificationStats\<close>), computed in rounded
  \<open>double\<close> arithmetic with two conversions to integers, does not fail and is right: a block of up to 6144 bits stays
  whole; a larger one is cut into the least number of blocks that leaves 24 bits for each one's CRC; both sizes are in the
  table, with \<open>K-\<close> the smaller; the numbers of blocks of the two sizes add up to \<open>C\<close>; \<open>C\<close> blocks of size \<open>K-\<close> do not exceed
  the bits and \<open>C\<close> of size \<open>K+\<close> hold them; the chosen blocks hold every bit with its CRC, and the filler bits are fewer
  than the difference of the sizes.
\<close>

theorem code_blocks_hold_every_bit:
  assumes "0 < B" and "B \<le> 3000000"
  shows "\<exists>cb. segment B = Inr cb \<and> segmented (unat B) cb"
  by (cases "B \<le> 6144") (use assms segment_one segment_many in \<open>metis not_le\<close>)+

text \<open>10000 bits: two blocks, of 5056 bits, the next smaller size would be 4992.\<close>

lemma code_blocks_hold_every_bit_witness:
  "\<exists>cb. segment 10000 = Inr cb \<and> segmented (unat (10000 :: u32)) cb"
  by (rule code_blocks_hold_every_bit) simp_all

subsection \<open>Channel quality\<close>

lemma probe_result:
  assumes "probe tbler n m out0 = Inr (k, out)" and "unat m + n < 256"
  shows "unat m \<le> unat k \<and> unat k \<le> unat m + n \<and>
    (\<forall>j. unat m \<le> unat j \<and> unat j < unat k \<longrightarrow> (\<exists>o'. tbler j = Inr o' \<and> \<not> fp_less (dec (1 / 10)) o')) \<and>
    (if unat k < unat m + n then tbler k = Inr out \<and> fp_less (dec (1 / 10)) out
     else n = 0 \<and> out = out0 \<or> \<not> fp_less (dec (1 / 10)) out)"
  using assms
proof (induction n arbitrary: m out0)
  case 0
  then show ?case by auto
next
  case (Suc n)
  obtain o' where o': "tbler m = Inr o'" using Suc.prems(1) by (cases "tbler m") auto
  have s: "unat (m + 1) = unat m + 1" using Suc.prems(2) using Suc.prems(2) by (simp add: unat_word_ariths)
  show ?case
  proof (cases "fp_less (dec (1 / 10)) o'")
    case True
    then show ?thesis using Suc.prems o' by (simp, linarith)
  next
    case False
    then have "probe tbler n (m + 1) o' = Inr (k, out)" using Suc.prems(1) o' by simp
    note IH = Suc.IH[OF this, unfolded s]
    have at_m: "tbler j = Inr o'" if "unat j = unat m" for j
    proof -
      have "j = m" using that by (simp add: word_unat_eq_iff)
      then show ?thesis using o' by simp
    qed
    have below: "\<exists>o'. tbler j = Inr o' \<and> \<not> fp_less (dec (1 / 10)) o'" if "unat m \<le> unat j" "unat j < unat k" for j
      using IH Suc.prems(2) False at_m[of j] that by (cases "unat j = unat m") auto
    show ?thesis using IH Suc.prems(2) False below by auto
  qed
qed


text \<open>The block error rate \<open>CreateCqiFeedbackWbTdma\<close> asks for: one block over all resource blocks with a signal.\<close>

definition tb_error_rate :: "amc \<Rightarrow> fp list \<Rightarrow> u8 \<Rightarrow> fp res" where
  "tb_error_rate a sinr mcs =
     (let rbMap = filter (\<lambda>i. \<not> fp_eq (sinr ! i) (Num 0)) [0..<length sinr] in
      bindE (CalculateTbSize a mcs (of_nat (length rbMap)))
        (\<lambda>tbs. em_tbler (amc_errorModel a) sinr rbMap tbs mcs))"

definition usable :: "amc \<Rightarrow> fp list \<Rightarrow> u8 \<Rightarrow> bool" where
  "usable a sinr mcs \<longleftrightarrow> (\<exists>out. tb_error_rate a sinr mcs = Inr out \<and> \<not> fp_less (dec (1 / 10)) out)"

lemma error_feedback_probe:
  "error_feedback a sinr =
     (let em = amc_errorModel a in
      bindE (probe (tb_error_rate a sinr) (unat (em_maxMcs em) + 1) 0 NaN) (\<lambda>(mcs, out).
      let mcs = (if mcs > 0 then mcs - 1 else mcs) in
      if fp_less (dec (1 / 10)) out \<and> mcs = 0 then Inr (0, mcs)
      else if mcs = em_maxMcs em then Inr (15, mcs)
      else
        bindE (em_seMcs em mcs) (\<lambda>s.
        bindE (climb (\<lambda>cqi. bindE (em_seCqi em cqi) (\<lambda>t. Inr (fp_le t s))) 15 0) (\<lambda>cqi. Inr (cqi, mcs)))))"
  by (simp add: error_feedback_def tb_error_rate_def[abs_def] Let_def)

text \<open>
  C25. The feedback of the error model (\<open>CreateCqiFeedbackWbTdma\<close>): when an MCS above 0 is reported, a block sent with it or
  with any smaller MCS has an error rate of at most 0.1, and it is the largest such MCS: the next one exceeds 0.1, or there
  is none, and then the CQI is 15. MCS 0 is reported when MCS 0 or MCS 1 exceeds 0.1, and then the CQI is 0: also where
  MCS 0 can be used.
\<close>

theorem cqi_feedback_largest_usable_mcs:
  assumes "CreateCqiFeedbackWbTdma log2 logE a sinr = Inr (cqi, mcs, a')"
    and "amc_model a = ErrorModel" and "0 < em_maxMcs (amc_errorModel a)" and "em_maxMcs (amc_errorModel a) < 255"
  shows "mcs \<le> em_maxMcs (amc_errorModel a) \<and> amc_lastMcs a' = ucast mcs \<and>
    (0 < mcs \<longrightarrow> (\<forall>j \<le> mcs. usable a sinr j)) \<and>
    (0 < mcs \<and> mcs < em_maxMcs (amc_errorModel a) \<longrightarrow> \<not> usable a sinr (mcs + 1)) \<and>
    (mcs = em_maxMcs (amc_errorModel a) \<longrightarrow> cqi = 15) \<and>
    (mcs = 0 \<longrightarrow> cqi = 0 \<and> (\<not> usable a sinr 0 \<or> \<not> usable a sinr 1))"
proof -
  let ?em = "amc_errorModel a" and ?n = "unat (em_maxMcs (amc_errorModel a))"
  have n: "0 < ?n" "?n < 255" using assms(3,4) by (simp_all add: word_less_nat_alt)
  have f: "error_feedback a sinr = Inr (cqi, mcs)" "a' = a\<lparr>amc_lastMcs := ucast mcs\<rparr>"
    using assms(1,2) by (auto simp: CreateCqiFeedbackWbTdma_def bindE_Inr_iff)
  obtain k out where p: "probe (tb_error_rate a sinr) (?n + 1) 0 NaN = Inr (k, out)"
    using f(1) unfolding error_feedback_probe Let_def bindE_Inr_iff by (auto simp del: probe.simps)
  then have m: "mcs = (if 0 < k then k - 1 else k)"
    and low: "fp_less (dec (1 / 10)) out \<Longrightarrow> mcs = 0 \<Longrightarrow> cqi = 0"
    and high: "mcs \<noteq> 0 \<Longrightarrow> mcs = em_maxMcs ?em \<Longrightarrow> cqi = 15"
    using f(1) unfolding error_feedback_probe Let_def p bindE_simps prod.case
    by (auto simp: bindE_Inr_iff simp del: probe.simps split: if_splits)
  have pr: "unat k \<le> ?n + 1" "\<And>j. unat j < unat k \<Longrightarrow> usable a sinr j"
    "unat k < ?n + 1 \<Longrightarrow> \<not> usable a sinr k \<and> fp_less (dec (1 / 10)) out"
    using probe_result[OF p] n by (auto simp: usable_def)
  show ?thesis
  proof (cases "k = 0")
    case True
    then show ?thesis using pr(3) m low n f(2) by auto
  next
    case False
    then have k: "unat k = unat mcs + 1" "k = mcs + 1" 
      using m by (auto simp: word_gt_0 unat_minus_one unat_gt_0)
    moreover have "em_maxMcs ?em \<noteq> 0" using assms(3) by auto
    ultimately show ?thesis
      using pr low high n f(2) by (auto simp: word_le_nat_alt word_less_nat_alt)
  qed
qed

text \<open>An error model with MCSs up to 4, a spectral efficiency equal to the index, and MCS 0 and 1 without errors.\<close>

definition steps :: "libm \<Rightarrow> curves \<Rightarrow> amc" where
  "steps lm cv = \<lparr>amc_model = ErrorModel, amc_numRefScPerRb = 1,
     amc_errorModel = (NrLteMiErrorModel lm cv)\<lparr>em_maxMcs := 4, em_payload := \<lambda>_ _ _. Inr 0, em_maxCb := \<lambda>_ _. 768,
       em_seCqi := \<lambda>c. Inr (Num (of_nat (unat c))), em_seMcs := \<lambda>m. Inr (Num (of_nat (unat m))),
       em_tbler := \<lambda>_ _ _ mcs. Inr (Num (if mcs \<le> 1 then 0 else 1))\<rparr>, amc_lastMcs = 0\<rparr>"

lemma tenth: "fp_less (dec (1 / 10)) (Num 0) = False" "fp_less (dec (1 / 10)) (Num 1) = True"
proof -
  have "(1 :: rat) / 2 ^ 100 \<le> 1 / 10" "(1 / 10 :: rat) \<le> 2 ^ 100" by simp_all
  then obtain y where "fl (1 / 10) = Num y" "y \<le> 1 / 10 + 1 / 10 / 2 ^ 53" "1 / 10 - 1 / 10 / 2 ^ 53 \<le> y"
    by (rule fl_near)
  then show "fp_less (dec (1 / 10)) (Num 0) = False" "fp_less (dec (1 / 10)) (Num 1) = True"
    by (simp_all add: dec_def)
qed

lemma steps_rate: "mcs \<le> 4 \<Longrightarrow> tb_error_rate (steps lm cv) [] mcs = Inr (Num (if mcs \<le> 1 then 0 else 1))"
  by (simp add: tb_error_rate_def steps_def CalculateTbSize_def amc_GetPayloadSize_def NrLteMiErrorModel_def)

lemma steps_fields:
  "amc_model (steps lm cv) = ErrorModel" "em_maxMcs (amc_errorModel (steps lm cv)) = 4"
  "em_seCqi (amc_errorModel (steps lm cv)) = (\<lambda>c. Inr (Num (of_nat (unat c))))"
  "em_seMcs (amc_errorModel (steps lm cv)) = (\<lambda>m. Inr (Num (of_nat (unat m))))"
  by (simp_all add: steps_def NrLteMiErrorModel_def)

lemma steps_feedback:
  "CreateCqiFeedbackWbTdma log2 logE (steps lm cv) [] = Inr (1, 1, (steps lm cv)\<lparr>amc_lastMcs := 1\<rparr>)"
proof -
  have n: "unat (4 :: u8) + 1 = Suc (Suc (Suc 2))" "(15 :: nat) = Suc (Suc 13)" by simp_all
  have p: "probe (tb_error_rate (steps lm cv) []) (unat (4 :: u8) + 1) 0 NaN = Inr (2, Num 1)"
    unfolding n by (simp add: steps_rate tenth word_le_nat_alt del: Suc_numeral)
  have c: "climb (\<lambda>cqi. Inr (fp_le (Num (of_nat (unat cqi))) (Num 1))) 15 0 = Inr 1"
    unfolding n by (simp del: Suc_numeral)
  have e: "error_feedback (steps lm cv) [] = Inr (1, 1)"
    unfolding error_feedback_probe Let_def steps_fields p bindE_simps prod.case by (simp add: tenth c del: climb.simps fp_le.simps of_nat_unat)
  show ?thesis by (simp add: CreateCqiFeedbackWbTdma_def steps_fields e)
qed

lemma cqi_feedback_largest_usable_mcs_witness:
  "\<forall>lm cv. usable (steps lm cv) [] 1 \<and> \<not> usable (steps lm cv) [] 2"
proof (intro allI)
  fix lm cv
  show "usable (steps lm cv) [] 1 \<and> \<not> usable (steps lm cv) [] 2"
    using cqi_feedback_largest_usable_mcs[OF steps_feedback] by (simp add: steps_fields)
qed

end
