(* ===== verification/TddPattern.thy ===== *)
theory TddPattern
  imports SchedSlot
begin

text \<open>
  When the gNB asks its MAC for an allocation: the tables that \<open>NrGnbPhy::SetTddPattern\<close> of
  \<open>contrib/nr/model/nr-gnb-phy.cc\<close> derives from the TDD pattern. For every position of the pattern they say which slots
  are allocated in it (\<open>generate\<close>), the control information of which slots is sent in it (\<open>toSend\<close>) and how many slots
  after a downlink slot its feedback comes. Positions and delays are small, so the \<open>int\<close> and \<open>uint32_t\<close> arithmetic on
  them is exact; they are natural numbers here.
\<close>

subsection \<open>Patterns\<close>

fun slot_val :: "LteNrTddSlotType \<Rightarrow> nat" where
  "slot_val SlotDL = 0"
| "slot_val SlotS = 1"
| "slot_val SlotF = 2"
| "slot_val SlotUL = 3"

fun HasDlSlot :: "LteNrTddSlotType list \<Rightarrow> bool" where
  "HasDlSlot [] = False"
| "HasDlSlot (v # r) = (if v = SlotF \<or> v = SlotDL then True else HasDlSlot r)"

fun HasUlSlot :: "LteNrTddSlotType list \<Rightarrow> bool" where
  "HasUlSlot [] = False"
| "HasUlSlot (v # r) = (if v = SlotF \<or> v = SlotUL then True else HasUlSlot r)"

fun IsTdd_from :: "bool \<Rightarrow> bool \<Rightarrow> LteNrTddSlotType list \<Rightarrow> bool" where
  "IsTdd_from anUl aDl [] = (\<not> (anUl \<noteq> aDl))"
| "IsTdd_from anUl aDl (v # r) =
     (if v = SlotF then True
      else if v = SlotUL then IsTdd_from True aDl r
      else if v = SlotDL then IsTdd_from anUl True r
      else IsTdd_from anUl aDl r)"

definition IsTdd :: "LteNrTddSlotType list \<Rightarrow> bool" where
  "IsTdd pattern = IsTdd_from False False pattern"

subsection \<open>The tables\<close>

function raise_to_0 :: "int \<Rightarrow> nat \<Rightarrow> int" where
  "raise_to_0 n m = (if n < 0 \<and> 0 < m then raise_to_0 (n + int m) m else n)"
  by auto
termination by (relation "measure (\<lambda>(n, m). nat (- n))") auto

declare raise_to_0.simps [simp del]

text \<open>The size of the pattern is not 0 wherever this is called.\<close>

definition modulo :: "int \<Rightarrow> nat \<Rightarrow> nat" where
  "modulo n m = (if n \<ge> 0 then nat n mod m else nat (raise_to_0 n m))"

text \<open>Both searches go round the pattern, for ever if no slot suits.\<close>

partial_function (option) ReturnHarqSlot :: "LteNrTddSlotType list \<Rightarrow> nat \<Rightarrow> nat \<Rightarrow> nat option" where
  "ReturnHarqSlot pattern pos k1 =
     (if slot_val (pattern ! modulo (int pos + int k1) (length pattern)) < slot_val SlotF
      then ReturnHarqSlot pattern pos (k1 + 1) else Some k1)"

partial_function (option) ReturnDciSlot :: "LteNrTddSlotType list \<Rightarrow> nat \<Rightarrow> nat \<Rightarrow> (nat \<times> nat) option" where
  "ReturnDciSlot pattern pos k =
     (let indexDci = modulo (int pos - int k) (length pattern) in
      if slot_val (pattern ! indexDci) > slot_val SlotF
      then ReturnDciSlot pattern pos (k + 1) else Some (indexDci, k))"

type_synonym delays = "(nat \<times> nat list) list"

definition delays_at :: "delays \<Rightarrow> nat \<Rightarrow> nat list" where
  "delays_at m i = (case map_of m i of None \<Rightarrow> [] | Some ks \<Rightarrow> ks)"

definition push_delay :: "nat \<Rightarrow> nat \<Rightarrow> delays \<Rightarrow> delays" where
  "push_delay i k m = AList.update i (delays_at m i @ [k]) m"

definition GenerateDciMaps :: "LteNrTddSlotType list \<Rightarrow> nat \<Rightarrow> nat \<Rightarrow> nat \<Rightarrow> delays \<times> delays \<Rightarrow>
    (delays \<times> delays) option" where
  "GenerateDciMaps pattern pos n l1l2CtrlLatency = (\<lambda>(toSend, generate).
     Option.bind (ReturnDciSlot pattern pos n) (\<lambda>(indexDci, k).
     let indexGen = modulo (int indexDci - int l1l2CtrlLatency) (length pattern) in
     Some (push_delay indexDci k toSend, push_delay indexGen (k + l1l2CtrlLatency) generate)))"

record tdd =
  toSendDl :: delays
  toSendUl :: delays
  generateDl :: delays
  generateUl :: delays
  dlHarqfbPosition :: "(nat \<times> nat) list"

definition dl_maps :: "LteNrTddSlotType list \<Rightarrow> nat \<Rightarrow> nat \<Rightarrow> nat \<Rightarrow> tdd \<Rightarrow> tdd option" where
  "dl_maps gp n0 latency i s =
     Option.bind (GenerateDciMaps gp i n0 latency (toSendDl s, generateDl s)) (\<lambda>(toSend, generate).
     Some (s\<lparr>toSendDl := toSend, generateDl := generate\<rparr>))"

definition ul_maps :: "LteNrTddSlotType list \<Rightarrow> nat \<Rightarrow> nat \<Rightarrow> nat \<Rightarrow> tdd \<Rightarrow> tdd option" where
  "ul_maps gp n2 latency i s =
     Option.bind (GenerateDciMaps gp i n2 latency (toSendUl s, generateUl s)) (\<lambda>(toSend, generate).
     Some (s\<lparr>toSendUl := toSend, generateUl := generate\<rparr>))"

definition harq_map :: "LteNrTddSlotType list \<Rightarrow> nat \<Rightarrow> nat \<Rightarrow> tdd \<Rightarrow> tdd option" where
  "harq_map gp n1 i s =
     Option.bind (ReturnHarqSlot gp i n1) (\<lambda>k1.
     Some (if map_of (dlHarqfbPosition s) i = None
           then s\<lparr>dlHarqfbPosition := AList.update i k1 (dlHarqfbPosition s)\<rparr> else s))"

definition gen_position :: "LteNrTddSlotType list \<Rightarrow> LteNrTddSlotType list \<Rightarrow> nat \<Rightarrow> nat \<Rightarrow> nat \<Rightarrow> nat \<Rightarrow> nat \<Rightarrow> tdd \<Rightarrow>
    tdd option" where
  "gen_position pattern gp n0 n2 n1 latency i s =
     (if gp ! i = SlotUL then ul_maps gp n2 latency i s
      else if gp ! i = SlotDL \<or> pattern ! i = SlotS then
        Option.bind (dl_maps gp n0 latency i s) (harq_map gp n1 i)
      else if gp ! i = SlotF then
        Option.bind (dl_maps gp n0 latency i s) (\<lambda>s.
        Option.bind (ul_maps gp n2 latency i s) (harq_map gp n1 i))
      else Some s)"

fun gen_loop :: "(nat \<Rightarrow> tdd \<Rightarrow> tdd option) \<Rightarrow> nat list \<Rightarrow> tdd \<Rightarrow> tdd option" where
  "gen_loop f [] s = Some s"
| "gen_loop f (i # r) s = Option.bind (f i s) (gen_loop f r)"

definition sort_delays :: "delays \<Rightarrow> delays" where
  "sort_delays m = map (\<lambda>(i, ks). (i, sort ks)) m"

text \<open>Without TDD the tables are those of a pattern that can do everything in every slot, and one direction is dropped.\<close>

definition generation_pattern :: "LteNrTddSlotType list \<Rightarrow> LteNrTddSlotType list" where
  "generation_pattern pattern = (if IsTdd pattern then pattern else replicate (length pattern) SlotF)"

definition GenerateStructuresFromPattern :: "LteNrTddSlotType list \<Rightarrow> nat \<Rightarrow> nat \<Rightarrow> nat \<Rightarrow> nat \<Rightarrow> tdd \<Rightarrow> tdd option" where
  "GenerateStructuresFromPattern pattern n0 n2 n1 latency s =
     (let gp = generation_pattern pattern in
      Option.bind (gen_loop (gen_position pattern gp n0 n2 n1 latency) [0..<length pattern] s) (\<lambda>s.
      let s = (if \<not> IsTdd pattern
               then if HasUlSlot pattern then s\<lparr>generateDl := []\<rparr> else s\<lparr>generateUl := []\<rparr>
               else s)
      in Some (s\<lparr>generateUl := sort_delays (generateUl s), generateDl := sort_delays (generateDl s)\<rparr>)))"

text \<open>The delay \<open>n0\<close> that is passed is the constant 0, not the attribute \<open>N0Delay\<close>.\<close>

definition SetTddPattern :: "LteNrTddSlotType list \<Rightarrow> nat \<Rightarrow> nat \<Rightarrow> nat \<Rightarrow> tdd option" where
  "SetTddPattern pattern n2Delay n1Delay l1l2CtrlLatency =
     GenerateStructuresFromPattern pattern 0 n2Delay n1Delay l1l2CtrlLatency
       \<lparr>toSendDl = [], toSendUl = [], generateDl = [], generateUl = [], dlHarqfbPosition = []\<rparr>"

subsection \<open>What the searches find\<close>

lemma raise_to_0_mod:
  assumes "0 < m" and "n < int m"
  shows "raise_to_0 n m = n mod int m"
  using assms
proof (induction n m rule: raise_to_0.induct)
  case (1 n m)
  show ?case
  proof (cases "n < 0")
    case True
    then have "raise_to_0 n m = raise_to_0 (n + int m) m" using 1(2) by (subst raise_to_0.simps) simp
    then show ?thesis using 1 True by simp
  next
    case False
    then show ?thesis using 1(3) by (subst raise_to_0.simps) simp
  qed
qed

lemma modulo_mod: "0 < m \<Longrightarrow> int (modulo n m) = n mod int m"
  by (auto simp: modulo_def raise_to_0_mod zmod_int)

lemma modulo_less [simp]: "0 < m \<Longrightarrow> modulo n m < m"
  using modulo_mod[of m n] pos_mod_bound[of "int m" n] by linarith

lemma modulo_add [simp]: "0 < m \<Longrightarrow> modulo (int a + int b) m = (a + b) mod m"
  by (simp add: modulo_def flip: of_nat_add)

text \<open>The position \<open>k\<close> slots before \<open>pos\<close>.\<close>

lemma modulo_sub_iff:
  assumes "0 < n" and "p < n" and "i < n"
  shows "modulo (int i - int k) n = p \<longleftrightarrow> (p + k) mod n = i"
proof -
  have "modulo (int i - int k) n = p \<longleftrightarrow> (int i - int k) mod int n = int p"
    using modulo_mod[OF assms(1), of "int i - int k"] by (metis of_nat_eq_iff)
  also have "\<dots> \<longleftrightarrow> (int i - int k) mod int n = int p mod int n" using assms(2) by simp
  also have "\<dots> \<longleftrightarrow> int i mod int n = (int p + int k) mod int n"
    by (simp add: mod_eq_dvd_iff diff_diff_eq add.commute)
  also have "\<dots> \<longleftrightarrow> (p + k) mod n = i" using assms(3) by (metis of_nat_add of_nat_eq_iff of_nat_mod mod_less)
  finally show ?thesis .
qed

lemma dci_slot_found:
  assumes "slot_val (pattern ! modulo (int pos - int (k + d)) (length pattern)) \<le> 2"
  shows "\<exists>e \<le> d. ReturnDciSlot pattern pos k = Some (modulo (int pos - int (k + e)) (length pattern), k + e) \<and>
    slot_val (pattern ! modulo (int pos - int (k + e)) (length pattern)) \<le> 2"
  using assms
proof (induction d arbitrary: k)
  case 0
  then show ?case by (subst ReturnDciSlot.simps) (simp add: Let_def)
next
  case (Suc d)
  show ?case
  proof (cases "slot_val (pattern ! modulo (int pos - int k) (length pattern)) \<le> 2")
    case True
    then show ?thesis by (intro exI[of _ 0], subst ReturnDciSlot.simps) (simp add: Let_def)
  next
    case False
    then have r: "ReturnDciSlot pattern pos k = ReturnDciSlot pattern pos (Suc k)"
      by (subst ReturnDciSlot.simps) (simp add: Let_def)
    obtain e where "e \<le> d" "ReturnDciSlot pattern pos (Suc k) = Some (modulo (int pos - int (Suc k + e)) (length pattern), Suc k + e)"
      "slot_val (pattern ! modulo (int pos - int (Suc k + e)) (length pattern)) \<le> 2"
      using Suc.IH[of "Suc k"] Suc.prems by auto
    then show ?thesis unfolding r by (intro exI[of _ "Suc e"]) simp
  qed
qed

lemma harq_slot_found:
  assumes "2 \<le> slot_val (pattern ! modulo (int pos + int (k + d)) (length pattern))"
  shows "\<exists>e \<le> d. ReturnHarqSlot pattern pos k = Some (k + e) \<and>
    2 \<le> slot_val (pattern ! modulo (int pos + int (k + e)) (length pattern)) \<and>
    (\<forall>f < e. slot_val (pattern ! modulo (int pos + int (k + f)) (length pattern)) < 2)"
  using assms
proof (induction d arbitrary: k)
  case 0
  then show ?case by (subst ReturnHarqSlot.simps) simp
next
  case (Suc d)
  show ?case
  proof (cases "2 \<le> slot_val (pattern ! modulo (int pos + int k) (length pattern))")
    case True
    then show ?thesis by (intro exI[of _ 0], subst ReturnHarqSlot.simps) simp
  next
    case False
    then have r: "ReturnHarqSlot pattern pos k = ReturnHarqSlot pattern pos (Suc k)"
      by (subst ReturnHarqSlot.simps) simp
    obtain e where e: "e \<le> d" "ReturnHarqSlot pattern pos (Suc k) = Some (Suc k + e)"
      "2 \<le> slot_val (pattern ! modulo (int pos + int (Suc k + e)) (length pattern))"
      "\<forall>f < e. slot_val (pattern ! modulo (int pos + int (Suc k + f)) (length pattern)) < 2"
      using Suc.IH[of "Suc k"] Suc.prems by auto
    have "\<forall>f < Suc e. slot_val (pattern ! modulo (int pos + int (k + f)) (length pattern)) < 2"
      using e(4) False by (auto simp: less_Suc_eq_0_disj ac_simps)
    then show ?thesis using e(1-3) unfolding r by (intro exI[of _ "Suc e"]) simp
  qed
qed


subsection \<open>The tables, position by position\<close>

lemma delays_at_push: "delays_at (push_delay i k m) j = (if i = j then delays_at m j @ [k] else delays_at m j)"
  by (simp add: delays_at_def push_delay_def update_conv)

lemma delays_at_sort: "delays_at (sort_delays m) j = sort (delays_at m j)"
proof -
  have "map_of (sort_delays m) j = map_option sort (map_of m j)"
    by (induction m) (auto simp: sort_delays_def)
  then show ?thesis by (simp add: delays_at_def split: option.split)
qed

text \<open>Where the control information for position \<open>i\<close> is sent, how long before, and where it is generated.\<close>

definition dci_of :: "LteNrTddSlotType list \<Rightarrow> nat \<Rightarrow> nat \<Rightarrow> nat \<times> nat" where
  "dci_of gp n i = the (ReturnDciSlot gp i n)"

definition gen_pos :: "LteNrTddSlotType list \<Rightarrow> nat \<Rightarrow> nat \<Rightarrow> nat \<Rightarrow> nat" where
  "gen_pos gp n latency i = modulo (int (fst (dci_of gp n i)) - int latency) (length gp)"

text \<open>Some slot can carry control information, some can carry feedback.\<close>

definition two_way :: "LteNrTddSlotType list \<Rightarrow> bool" where
  "two_way gp \<longleftrightarrow> (\<exists>v \<in> set gp. slot_val v \<le> 2) \<and> (\<exists>v \<in> set gp. 2 \<le> slot_val v)"

lemma before_pos:
  fixes i j k n :: nat
  assumes "j < n" and "i < n"
  shows "\<exists>d < n. modulo (int i - int (k + d)) n = j"
proof (intro exI conjI)
  let ?d = "modulo (int i - int (j + k)) n"
  have n: "0 < n" using assms(1) by linarith
  show "?d < n" using n by simp
  have "(?d + (j + k)) mod n = i" using modulo_sub_iff[OF n _ assms(2), of ?d "j + k"] n by simp
  then have "(j + (k + ?d)) mod n = i" by (simp only: ac_simps)
  then show "modulo (int i - int (k + ?d)) n = j" using modulo_sub_iff[OF n assms] by blast
qed

lemma after_pos:
  fixes i j k n :: nat
  assumes "j < n"
  shows "\<exists>d < n. (i + (k + d)) mod n = j"
proof (intro exI conjI)
  let ?d = "modulo (int j - int (i + k)) n"
  have n: "0 < n" using assms by linarith
  show "?d < n" using n by simp
  have "(?d + (i + k)) mod n = j" using modulo_sub_iff[OF n _ assms, of ?d "i + k"] n by simp
  then show "(i + (k + ?d)) mod n = j" by (simp only: ac_simps)
qed

lemma dci_of:
  assumes "two_way gp" and "i < length gp"
  shows "ReturnDciSlot gp i n = Some (dci_of gp n i)" "n \<le> snd (dci_of gp n i)" "snd (dci_of gp n i) < n + length gp"
    "fst (dci_of gp n i) = modulo (int i - int (snd (dci_of gp n i))) (length gp)"
    "slot_val (gp ! fst (dci_of gp n i)) \<le> 2"
proof -
  obtain j where j: "j < length gp" "slot_val (gp ! j) \<le> 2"
    using assms(1) by (auto simp: two_way_def in_set_conv_nth)
  obtain d where d: "d < length gp" "modulo (int i - int (n + d)) (length gp) = j"
    using before_pos[OF j(1) assms(2)] by blast
  have "slot_val (gp ! modulo (int i - int (n + d)) (length gp)) \<le> 2" unfolding d(2) by (rule j(2))
  from dci_slot_found[OF this] obtain e where "e \<le> d"
    "ReturnDciSlot gp i n = Some (modulo (int i - int (n + e)) (length gp), n + e)"
    "slot_val (gp ! modulo (int i - int (n + e)) (length gp)) \<le> 2" by blast
  then show "ReturnDciSlot gp i n = Some (dci_of gp n i)" "n \<le> snd (dci_of gp n i)" "snd (dci_of gp n i) < n + length gp"
    "fst (dci_of gp n i) = modulo (int i - int (snd (dci_of gp n i))) (length gp)"
    "slot_val (gp ! fst (dci_of gp n i)) \<le> 2"
    using d(1) by (simp_all add: dci_of_def)
qed

definition harq_of :: "LteNrTddSlotType list \<Rightarrow> nat \<Rightarrow> nat \<Rightarrow> nat" where
  "harq_of gp n1 i = the (ReturnHarqSlot gp i n1)"

lemma harq_of:
  assumes "two_way gp" and "i < length gp"
  shows "ReturnHarqSlot gp i n1 = Some (harq_of gp n1 i)" "n1 \<le> harq_of gp n1 i" "harq_of gp n1 i < n1 + length gp"
    "2 \<le> slot_val (gp ! ((i + harq_of gp n1 i) mod length gp))"
    "n1 \<le> k \<Longrightarrow> k < harq_of gp n1 i \<Longrightarrow> slot_val (gp ! ((i + k) mod length gp)) < 2"
proof -
  obtain j where j: "j < length gp" "2 \<le> slot_val (gp ! j)"
    using assms(1) by (auto simp: two_way_def in_set_conv_nth)
  have l: "0 < length gp" using j(1) by linarith
  obtain d where d: "d < length gp" "(i + (n1 + d)) mod length gp = j" using after_pos[OF j(1)] by blast
  have "2 \<le> slot_val (gp ! modulo (int i + int (n1 + d)) (length gp))"
    unfolding modulo_add[OF l] d(2) by (rule j(2))
  from harq_slot_found[OF this, unfolded modulo_add[OF l]] obtain e where e: "e \<le> d" "ReturnHarqSlot gp i n1 = Some (n1 + e)"
    "2 \<le> slot_val (gp ! ((i + (n1 + e)) mod length gp))" "\<forall>f < e. slot_val (gp ! ((i + (n1 + f)) mod length gp)) < 2" by blast
  have h: "harq_of gp n1 i = n1 + e" using e(2) by (simp add: harq_of_def)
  show "ReturnHarqSlot gp i n1 = Some (harq_of gp n1 i)" "n1 \<le> harq_of gp n1 i" "harq_of gp n1 i < n1 + length gp"
    "2 \<le> slot_val (gp ! ((i + harq_of gp n1 i) mod length gp))" using e(1-3) d(1) h by simp_all
  show "slot_val (gp ! ((i + k) mod length gp)) < 2" if "n1 \<le> k" "k < harq_of gp n1 i"
    using e(4)[rule_format, of "k - n1"] that h by simp
qed

text \<open>What a whole run of the loop leaves in the tables.\<close>

definition ul_at :: "LteNrTddSlotType list \<Rightarrow> LteNrTddSlotType list \<Rightarrow> nat \<Rightarrow> bool" where
  "ul_at pattern gp i \<longleftrightarrow> gp ! i = SlotUL \<or> gp ! i = SlotF \<and> pattern ! i \<noteq> SlotS"

definition dl_at :: "LteNrTddSlotType list \<Rightarrow> LteNrTddSlotType list \<Rightarrow> nat \<Rightarrow> bool" where
  "dl_at pattern gp i \<longleftrightarrow> gp ! i \<noteq> SlotUL \<and> (gp ! i \<noteq> SlotS \<or> pattern ! i = SlotS)"

definition filled :: "LteNrTddSlotType list \<Rightarrow> LteNrTddSlotType list \<Rightarrow> nat \<Rightarrow> nat \<Rightarrow> nat \<Rightarrow> nat \<Rightarrow> tdd \<Rightarrow> nat list \<Rightarrow>
    tdd \<Rightarrow> bool" where
  "filled pattern gp n0 n2 n1 latency s is t \<longleftrightarrow>
    (\<forall>p. delays_at (toSendUl t) p = delays_at (toSendUl s) p @
       map (\<lambda>i. snd (dci_of gp n2 i)) (filter (\<lambda>i. ul_at pattern gp i \<and> fst (dci_of gp n2 i) = p) is)) \<and>
    (\<forall>p. delays_at (generateUl t) p = delays_at (generateUl s) p @
       map (\<lambda>i. snd (dci_of gp n2 i) + latency) (filter (\<lambda>i. ul_at pattern gp i \<and> gen_pos gp n2 latency i = p) is)) \<and>
    (\<forall>p. delays_at (toSendDl t) p = delays_at (toSendDl s) p @
       map (\<lambda>i. snd (dci_of gp n0 i)) (filter (\<lambda>i. dl_at pattern gp i \<and> fst (dci_of gp n0 i) = p) is)) \<and>
    (\<forall>p. delays_at (generateDl t) p = delays_at (generateDl s) p @
       map (\<lambda>i. snd (dci_of gp n0 i) + latency) (filter (\<lambda>i. dl_at pattern gp i \<and> gen_pos gp n0 latency i = p) is)) \<and>
    (\<forall>p. map_of (dlHarqfbPosition t) p =
       (if p \<in> set is \<and> dl_at pattern gp p then Some (harq_of gp n1 p) else map_of (dlHarqfbPosition s) p))"

lemma filled_trans:
  assumes "filled pattern gp n0 n2 n1 latency s is u" and "filled pattern gp n0 n2 n1 latency u js t"
  shows "filled pattern gp n0 n2 n1 latency s (is @ js) t"
  using assms unfolding filled_def by simp

lemma gen_maps:
  assumes "two_way gp" and "i < length gp"
  shows "GenerateDciMaps gp i n latency (toSend, generate) =
    Some (push_delay (fst (dci_of gp n i)) (snd (dci_of gp n i)) toSend,
      push_delay (gen_pos gp n latency i) (snd (dci_of gp n i) + latency) generate)"
  by (simp add: GenerateDciMaps_def dci_of(1)[OF assms] gen_pos_def Let_def split: prod.split)

lemma gen_position_filled:
  assumes "two_way gp" and "i < length gp" and "map_of (dlHarqfbPosition s) i = None"
  shows "\<exists>t. gen_position pattern gp n0 n2 n1 latency i s = Some t \<and> filled pattern gp n0 n2 n1 latency s [i] t"
  by (cases "gp ! i"; cases "pattern ! i = SlotS")
    (simp_all add: gen_position_def dl_maps_def ul_maps_def harq_map_def gen_maps[OF assms(1,2)] harq_of(1)[OF assms(1,2)]
      assms(3) filled_def delays_at_push update_conv ul_at_def dl_at_def)

lemma gen_loop_filled:
  assumes "two_way gp" and "\<forall>i \<in> set is. i < length gp" and "distinct is" and "\<forall>i \<in> set is. map_of (dlHarqfbPosition s) i = None"
  shows "\<exists>t. gen_loop (gen_position pattern gp n0 n2 n1 latency) is s = Some t \<and> filled pattern gp n0 n2 n1 latency s is t"
  using assms
proof (induction "is" arbitrary: s)
  case Nil
  then show ?case by (simp add: filled_def)
next
  case (Cons i r)
  obtain u where u: "gen_position pattern gp n0 n2 n1 latency i s = Some u" "filled pattern gp n0 n2 n1 latency s [i] u"
    using gen_position_filled[of gp i s pattern n0 n2 n1 latency] Cons.prems by auto
  have "\<forall>j \<in> set r. map_of (dlHarqfbPosition u) j = None" using u(2) Cons.prems(3,4) by (auto simp: filled_def)
  then obtain t where t: "gen_loop (gen_position pattern gp n0 n2 n1 latency) r u = Some t" "filled pattern gp n0 n2 n1 latency u r t"
    using Cons.IH[of u] Cons.prems by auto
  then show ?case using u filled_trans[OF u(2) t(2)] by simp
qed


subsection \<open>SetTddPattern\<close>

lemma HasUlSlot_iff: "HasUlSlot pattern \<longleftrightarrow> SlotF \<in> set pattern \<or> SlotUL \<in> set pattern"
  by (induction pattern) auto

lemma IsTdd_from_iff:
  "IsTdd_from anUl aDl pattern \<longleftrightarrow> SlotF \<in> set pattern \<or> ((anUl \<or> SlotUL \<in> set pattern) = (aDl \<or> SlotDL \<in> set pattern))"
proof (induction anUl aDl pattern rule: IsTdd_from.induct)
  case (2 anUl aDl v r)
  then show ?case by (cases v) auto
qed auto

lemma IsTdd_iff: "IsTdd pattern \<longleftrightarrow> SlotF \<in> set pattern \<or> (SlotUL \<in> set pattern \<longleftrightarrow> SlotDL \<in> set pattern)"
  by (simp add: IsTdd_def IsTdd_from_iff)

lemma length_generation_pattern [simp]: "length (generation_pattern pattern) = length pattern"
  by (simp add: generation_pattern_def)

lemma two_way_generation:
  assumes "\<exists>v \<in> set pattern. v \<noteq> SlotS"
  shows "two_way (generation_pattern pattern)"
proof (cases "IsTdd pattern")
  case True
  obtain v where v: "v \<in> set pattern" "v \<noteq> SlotS" using assms by blast
  have "SlotF \<in> set pattern \<or> SlotUL \<in> set pattern \<and> SlotDL \<in> set pattern"
    using True v by (cases v) (auto simp: IsTdd_iff)
  then show ?thesis using True by (force simp: two_way_def generation_pattern_def)
next
  case False
  then show ?thesis using assms by (auto simp: two_way_def generation_pattern_def)
qed

text \<open>The uplink and the downlink slots of a pattern.\<close>

definition has_uplink :: "LteNrTddSlotType \<Rightarrow> bool" where
  "has_uplink v \<longleftrightarrow> v = SlotF \<or> v = SlotUL"

lemma ul_at_iff:
  assumes "i < length pattern" and "IsTdd pattern \<or> HasUlSlot pattern"
  shows "ul_at pattern (generation_pattern pattern) i \<longleftrightarrow> has_uplink (pattern ! i)"
proof (cases "IsTdd pattern")
  case False
  then have "pattern ! i \<noteq> SlotF" "pattern ! i \<noteq> SlotDL"
    using assms by (auto simp: IsTdd_iff HasUlSlot_iff dest: nth_mem)
  then show ?thesis using False assms(1)
    by (cases "pattern ! i") (simp_all add: ul_at_def generation_pattern_def has_uplink_def)
qed (auto simp: ul_at_def generation_pattern_def has_uplink_def)

definition start_tables :: tdd where
  "start_tables = \<lparr>toSendDl = [], toSendUl = [], generateDl = [], generateUl = [], dlHarqfbPosition = []\<rparr>"

lemma SetTddPattern_tables:
  assumes "\<exists>v \<in> set pattern. v \<noteq> SlotS"
  defines "gp \<equiv> generation_pattern pattern"
  shows "\<exists>t. SetTddPattern pattern n2 n1 latency = Some t \<and>
    (\<forall>p. delays_at (generateUl t) p =
       sort (map (\<lambda>i. snd (dci_of gp n2 i) + latency)
         (filter (\<lambda>i. has_uplink (pattern ! i) \<and> gen_pos gp n2 latency i = p) [0..<length pattern]))) \<and>
    (\<forall>p. delays_at (toSendUl t) p =
       map (\<lambda>i. snd (dci_of gp n2 i)) (filter (\<lambda>i. ul_at pattern gp i \<and> fst (dci_of gp n2 i) = p) [0..<length pattern])) \<and>
    (\<forall>p. map_of (dlHarqfbPosition t) p =
       (if p < length pattern \<and> dl_at pattern gp p then Some (harq_of gp n1 p) else None))"
proof -
  obtain t where t: "gen_loop (gen_position pattern gp 0 n2 n1 latency) [0..<length pattern] start_tables = Some t"
    "filled pattern gp 0 n2 n1 latency start_tables [0..<length pattern] t"
    using gen_loop_filled[OF two_way_generation[OF assms(1)], of "[0..<length pattern]" start_tables pattern 0 n2 n1 latency]
    by (auto simp: gp_def start_tables_def)
  let ?drop = "if \<not> IsTdd pattern then if HasUlSlot pattern then t\<lparr>generateDl := []\<rparr> else t\<lparr>generateUl := []\<rparr> else t"
  have set: "SetTddPattern pattern n2 n1 latency =
      Some (?drop\<lparr>generateUl := sort_delays (generateUl ?drop), generateDl := sort_delays (generateDl ?drop)\<rparr>)"
    using t(1) by (simp add: SetTddPattern_def GenerateStructuresFromPattern_def start_tables_def gp_def Let_def)
  have ul: "delays_at (generateUl ?drop) p = map (\<lambda>i. snd (dci_of gp n2 i) + latency)
      (filter (\<lambda>i. has_uplink (pattern ! i) \<and> gen_pos gp n2 latency i = p) [0..<length pattern])" for p
  proof (cases "IsTdd pattern \<or> HasUlSlot pattern")
    case True
    have "filter (\<lambda>i. ul_at pattern gp i \<and> gen_pos gp n2 latency i = p) [0..<length pattern] =
        filter (\<lambda>i. has_uplink (pattern ! i) \<and> gen_pos gp n2 latency i = p) [0..<length pattern]"
      using ul_at_iff[OF _ True] by (intro filter_cong) (auto simp: gp_def)
    then show ?thesis using t(2) True by (auto simp: filled_def start_tables_def delays_at_def)
  next
    case False
    then have "\<forall>i < length pattern. \<not> has_uplink (pattern ! i)" by (auto simp: HasUlSlot_iff has_uplink_def dest: nth_mem)
    then show ?thesis using False by (auto simp: delays_at_def intro!: filter_False[symmetric])
  qed
  let ?t = "?drop\<lparr>generateUl := sort_delays (generateUl ?drop), generateDl := sort_delays (generateDl ?drop)\<rparr>"
  have e: "generateUl ?t = sort_delays (generateUl ?drop)" "toSendUl ?t = toSendUl t" "dlHarqfbPosition ?t = dlHarqfbPosition t"
    by simp_all
  have f: "delays_at (toSendUl t) p = map (\<lambda>i. snd (dci_of gp n2 i))
      (filter (\<lambda>i. ul_at pattern gp i \<and> fst (dci_of gp n2 i) = p) [0..<length pattern])"
    "map_of (dlHarqfbPosition t) p = (if p < length pattern \<and> dl_at pattern gp p then Some (harq_of gp n1 p) else None)" for p
    using t(2) by (simp_all add: filled_def start_tables_def delays_at_def)
  show ?thesis
    by (rule exI[of _ ?t], intro conjI allI set) (simp_all only: e f delays_at_sort ul)
qed


subsection \<open>Every uplink slot is asked for once\<close>

lemma gen_pos_iff:
  assumes "two_way gp" and "i < length gp" and "p < length gp"
  shows "gen_pos gp n latency i = p \<longleftrightarrow> (p + (snd (dci_of gp n i) + latency)) mod length gp = i"
proof -
  let ?k = "snd (dci_of gp n i)"
  have l: "0 < length gp" using assms(2) by linarith
  have "gen_pos gp n latency i = p \<longleftrightarrow> (p + latency) mod length gp = fst (dci_of gp n i)"
    unfolding gen_pos_def using dci_of(4)[OF assms(1,2)] l by (intro modulo_sub_iff[OF l assms(3)]) simp
  also have "\<dots> \<longleftrightarrow> modulo (int i - int ?k) (length gp) = (p + latency) mod length gp"
    using dci_of(4)[OF assms(1,2)] by auto
  also have "\<dots> \<longleftrightarrow> ((p + latency) mod length gp + ?k) mod length gp = i"
    using l by (intro modulo_sub_iff[OF l _ assms(2)]) simp
  finally show ?thesis by (simp add: mod_simps ac_simps)
qed

definition request_delay :: "LteNrTddSlotType list \<Rightarrow> nat \<Rightarrow> nat \<Rightarrow> nat \<Rightarrow> nat" where
  "request_delay pattern n2 latency i = snd (dci_of (generation_pattern pattern) n2 i) + latency"

lemma request_delay_bounds:
  assumes "\<exists>v \<in> set pattern. v \<noteq> SlotS" and "i < length pattern"
  shows "n2 + latency \<le> request_delay pattern n2 latency i" "request_delay pattern n2 latency i < n2 + latency + length pattern"
  using dci_of(2,3)[OF two_way_generation[OF assms(1)], of i n2] assms(2) by (simp_all add: request_delay_def)

lemma count_list_sort: "count_list (sort xs) x = count_list xs x"
  by (simp flip: count_mset)

lemma count_list_map_upt: "count_list (map f (filter P [0..<n])) d = card {i. i < n \<and> P i \<and> f i = d}"
proof -
  have "count_list (map f (filter P [0..<n])) d = length (filter (\<lambda>i. f i = d) (filter P [0..<n]))"
    by (induction n) auto
  also have "\<dots> = card {i. i < n \<and> P i \<and> f i = d}"
    using distinct_card[of "filter (\<lambda>i. f i = d) (filter P [0..<n])"] by (simp add: conj_commute conj_left_commute)
  finally show ?thesis .
qed

text \<open>How often slot \<open>T\<close> is asked for in slot \<open>s\<close>: once in the one slot that lies the delay of its position before it.\<close>

lemma requests_in_slot:
  assumes "SetTddPattern pattern n2 n1 latency = Some t" and "\<exists>v \<in> set pattern. v \<noteq> SlotS"
  shows "count_list (map ((+) s) (delays_at (generateUl t) (s mod length pattern))) T =
    (if has_uplink (pattern ! (T mod length pattern)) \<and> s + request_delay pattern n2 latency (T mod length pattern) = T then 1 else 0)"
proof -
  let ?n = "length pattern" and ?gp = "generation_pattern pattern" and ?d = "request_delay pattern n2 latency"
  have n: "0 < ?n" using assms(2) by auto
  have two: "two_way ?gp" by (rule two_way_generation[OF assms(2)])
  have at: "delays_at (generateUl t) p = sort (map ?d (filter (\<lambda>i. has_uplink (pattern ! i) \<and> gen_pos ?gp n2 latency i = p) [0..<?n]))" for p
    using SetTddPattern_tables[OF assms(2), of n2 n1 latency] assms(1) by (auto simp: request_delay_def[abs_def])
  have "count_list (map ((+) s) ks) T = (if s \<le> T then count_list ks (T - s) else 0)" for ks :: "nat list"
    by (induction ks) auto
  then have "count_list (map ((+) s) (delays_at (generateUl t) (s mod ?n))) T =
      (if s \<le> T then card {i. i < ?n \<and> (has_uplink (pattern ! i) \<and> gen_pos ?gp n2 latency i = s mod ?n) \<and> ?d i = T - s} else 0)"
    by (simp only: at count_list_sort count_list_map_upt)
  also have "\<dots> = (if has_uplink (pattern ! (T mod ?n)) \<and> s + ?d (T mod ?n) = T then 1 else 0)"
  proof (cases "s \<le> T")
    case True
    have "{i. i < ?n \<and> (has_uplink (pattern ! i) \<and> gen_pos ?gp n2 latency i = s mod ?n) \<and> ?d i = T - s} =
        (if has_uplink (pattern ! (T mod ?n)) \<and> s + ?d (T mod ?n) = T then {T mod ?n} else {})"
    proof -
      have i: "gen_pos ?gp n2 latency i = s mod ?n \<longleftrightarrow> (s + ?d i) mod ?n = i" if "i < ?n" for i
        using gen_pos_iff[OF two, of i "s mod ?n"] that n by (simp add: request_delay_def mod_simps)
      have "i < ?n \<and> (has_uplink (pattern ! i) \<and> gen_pos ?gp n2 latency i = s mod ?n) \<and> ?d i = T - s \<longleftrightarrow>
          i = T mod ?n \<and> has_uplink (pattern ! (T mod ?n)) \<and> s + ?d (T mod ?n) = T" for i
        using i True n by auto
      then show ?thesis by auto
    qed
    then show ?thesis using True by simp
  qed auto
  finally show ?thesis .
qed

end
