(* ===== verification/PhyQueue.thy ===== *)
theory PhyQueue
  imports PhyMacCommon
begin

text \<open>
  What both physical layers inherit from \<open>NrPhy\<close> of \<open>contrib/nr/model/nr-phy.cc\<close> to carry the decisions of the MAC to
  the slot they are for: the list of slot allocations, the queue that delays control messages by the latency of the
  control channel, and the packet bursts waiting for their symbol. \<open>'m\<close> are control messages, \<open>'p\<close> packets.
\<close>

record ('m, 'p) nr_phy =
  phy_numerology :: u16
  phy_slotAllocInfo :: "SlotAllocInfo list"
  phy_controlMessageQueue :: "'m list list"
  phy_packetBurstMap :: "(u64 \<times> 'p list) list"
  phy_ctrlMsgs :: "'m list"

definition GetL1L2CtrlLatency :: nat where
  "GetL1L2CtrlLatency = 2"

subsection \<open>Slot allocations\<close>

text \<open>
  The search for a slot, which stops at the first that is equal; slots of different numerologies cannot be compared.
\<close>

fun slot_index :: "sfnsf \<Rightarrow> SlotAllocInfo list \<Rightarrow> nat option res" where
  "slot_index sfn [] = Inr None"
| "slot_index sfn (a # r) =
     bindE (sfn_eq (slot_sfnSf a) sfn) (\<lambda>eq.
     if eq then Inr (Some 0) else bindE (slot_index sfn r) (\<lambda>i. Inr (map_option Suc i)))"

text \<open>
  \<open>std::list::sort\<close> is stable, so its result is determined. Any sort of slots of different numerologies compares two that
  differ in it, and stops at the assertion of \<open>operator<\<close>.
\<close>

definition slot_key :: "sfnsf \<Rightarrow> nat" where
  "slot_key p = (unat (frameNum p) * 256 + unat (subframeNum p)) * 256 + unat (slotNum p)"

definition same_numerology :: "SlotAllocInfo list \<Rightarrow> bool" where
  "same_numerology xs \<longleftrightarrow> list_all (\<lambda>a. numerology (slot_sfnSf a) = numerology (slot_sfnSf (hd xs))) xs"

definition sort_slots :: "SlotAllocInfo list \<Rightarrow> SlotAllocInfo list res" where
  "sort_slots xs = ns_assert (same_numerology xs) (Inr (sort_key (\<lambda>a. slot_key (slot_sfnSf a)) xs))"

definition PushBackSlotAllocInfo :: "(VarTtiAllocInfo list \<Rightarrow> VarTtiAllocInfo list) \<Rightarrow> ('m, 'p) nr_phy \<Rightarrow> SlotAllocInfo \<Rightarrow>
    ('m, 'p) nr_phy res" where
  "PushBackSlotAllocInfo sort_deque s slotAllocInfo =
     bindE (slot_index (slot_sfnSf slotAllocInfo) (phy_slotAllocInfo s)) (\<lambda>i.
     case i of
       Some i \<Rightarrow> bindE (Merge sort_deque (phy_slotAllocInfo s ! i) slotAllocInfo) (\<lambda>m.
                  Inr (s\<lparr>phy_slotAllocInfo := (phy_slotAllocInfo s)[i := m]\<rparr>))
     | None \<Rightarrow> bindE (sort_slots (phy_slotAllocInfo s @ [slotAllocInfo])) (\<lambda>q. Inr (s\<lparr>phy_slotAllocInfo := q\<rparr>)))"

definition own_numerology :: "('m, 'p) nr_phy \<Rightarrow> sfnsf \<Rightarrow> 'a res \<Rightarrow> 'a res" where
  "own_numerology s sfn k = bindE (GetNumerology sfn) (\<lambda>num. ns_assert (ucast num = phy_numerology s) k)"

definition SlotAllocInfoExists :: "('m, 'p) nr_phy \<Rightarrow> sfnsf \<Rightarrow> bool res" where
  "SlotAllocInfoExists s sfn =
     own_numerology s sfn (bindE (slot_index sfn (phy_slotAllocInfo s)) (\<lambda>i. Inr (i \<noteq> None)))"

definition RetrieveSlotAllocInfo_front :: "('m, 'p) nr_phy \<Rightarrow> (SlotAllocInfo \<times> ('m, 'p) nr_phy) res" where
  "RetrieveSlotAllocInfo_front s =
     defined_if (phy_slotAllocInfo s \<noteq> [])
       (Inr (hd (phy_slotAllocInfo s), s\<lparr>phy_slotAllocInfo := tl (phy_slotAllocInfo s)\<rparr>))"

definition RetrieveSlotAllocInfo :: "('m, 'p) nr_phy \<Rightarrow> sfnsf \<Rightarrow> (SlotAllocInfo \<times> ('m, 'p) nr_phy) res" where
  "RetrieveSlotAllocInfo s sfn =
     own_numerology s sfn (bindE (slot_index sfn (phy_slotAllocInfo s)) (\<lambda>i.
     case i of
       None \<Rightarrow> Inl FatalError
     | Some i \<Rightarrow> Inr (phy_slotAllocInfo s ! i,
         s\<lparr>phy_slotAllocInfo := take i (phy_slotAllocInfo s) @ drop (Suc i) (phy_slotAllocInfo s)\<rparr>)))"

definition PeekSlotAllocInfo :: "('m, 'p) nr_phy \<Rightarrow> sfnsf \<Rightarrow> SlotAllocInfo res" where
  "PeekSlotAllocInfo s sfn =
     own_numerology s sfn (bindE (slot_index sfn (phy_slotAllocInfo s)) (\<lambda>i.
     case i of None \<Rightarrow> Inl FatalError | Some i \<Rightarrow> Inr (phy_slotAllocInfo s ! i)))"

definition SlotAllocInfoSize :: "('m, 'p) nr_phy \<Rightarrow> nat" where
  "SlotAllocInfoSize s = length (phy_slotAllocInfo s)"

subsection \<open>Packet bursts\<close>

definition SetMacPdu :: "('m, 'p) nr_phy \<Rightarrow> 'p \<Rightarrow> sfnsf \<Rightarrow> u8 \<Rightarrow> u8 \<Rightarrow> ('m, 'p) nr_phy res" where
  "SetMacPdu s p sfn symStart streamId =
     own_numerology s sfn (bindE (GetEncForStreamWithSymStart sfn streamId symStart) (\<lambda>key.
     let burst = (case map_of (phy_packetBurstMap s) key of None \<Rightarrow> [] | Some b \<Rightarrow> b) in
     Inr (s\<lparr>phy_packetBurstMap := AList.update key (burst @ [p]) (phy_packetBurstMap s)\<rparr>)))"

text \<open>No burst is the null pointer.\<close>

definition GetPacketBurst :: "('m, 'p) nr_phy \<Rightarrow> sfnsf \<Rightarrow> u8 \<Rightarrow> u8 \<Rightarrow> ('p list option \<times> ('m, 'p) nr_phy) res" where
  "GetPacketBurst s sfn symb streamId =
     own_numerology s sfn (bindE (GetEncForStreamWithSymStart sfn streamId symb) (\<lambda>key.
     case map_of (phy_packetBurstMap s) key of
       None \<Rightarrow> Inr (None, s)
     | Some b \<Rightarrow> Inr (Some b, s\<lparr>phy_packetBurstMap := AList.delete key (phy_packetBurstMap s)\<rparr>)))"

text \<open>
  The allocations that could not be sent move one slot on, with their bursts. \<open>newBursts\<close> is keyed by another encoding of
  the slot than the map of the bursts is.
\<close>

definition move_stream :: "sfnsf \<Rightarrow> sfnsf \<Rightarrow> u8 \<Rightarrow> ('m, 'p) nr_phy \<times> (u64 \<times> 'p list) list \<Rightarrow> nat \<Rightarrow>
    (('m, 'p) nr_phy \<times> (u64 \<times> 'p list) list) res" where
  "move_stream slotSfn currentSfn symStart = (\<lambda>(s, newBursts) stream.
     bindE (GetPacketBurst s slotSfn symStart (of_nat stream)) (\<lambda>(burst, s).
     case burst of
       None \<Rightarrow> Inr (s, newBursts)
     | Some b \<Rightarrow>
         if length b > 0 then
           bindE (GetEncodingWithSymStart currentSfn symStart) (\<lambda>key.
           bindE (GetEncodingWithSymStart slotSfn symStart) (\<lambda>_.
           Inr (s, map_emplace key b newBursts)))
         else Inr (s, newBursts)))"

definition move_alloc :: "sfnsf \<Rightarrow> sfnsf \<Rightarrow> ('m, 'p) nr_phy \<times> (u64 \<times> 'p list) list \<Rightarrow> VarTtiAllocInfo \<Rightarrow>
    (('m, 'p) nr_phy \<times> (u64 \<times> 'p list) list) res" where
  "move_alloc slotSfn currentSfn st alloc =
     (let d = tti_dci alloc in
      if dci_type d = DATA
      then foldE (move_stream slotSfn currentSfn (dci_symStart d)) st [0..<unat (of_nat (length (dci_tbSize d)) :: u8)]
      else Inr st)"

fun move_slots :: "sfnsf \<Rightarrow> SlotAllocInfo list \<Rightarrow> ('m, 'p) nr_phy \<times> (u64 \<times> 'p list) list \<Rightarrow>
    (SlotAllocInfo list \<times> ('m, 'p) nr_phy \<times> (u64 \<times> 'p list) list) res" where
  "move_slots currentSfn [] st = Inr ([], st)"
| "move_slots currentSfn (a # r) st =
     bindE (foldE (move_alloc (slot_sfnSf a) currentSfn) st (slot_varTtiAllocInfo a)) (\<lambda>st.
     bindE (Add currentSfn 1) (\<lambda>next.
     bindE (move_slots next r st) (\<lambda>(r, st). Inr (a\<lparr>slot_sfnSf := currentSfn\<rparr> # r, st))))"

definition PushFrontSlotAllocInfo :: "('m, 'p) nr_phy \<Rightarrow> sfnsf \<Rightarrow> SlotAllocInfo \<Rightarrow> ('m, 'p) nr_phy res" where
  "PushFrontSlotAllocInfo s newSfnSf slotAllocInfo =
     bindE (move_slots newSfnSf (slotAllocInfo # phy_slotAllocInfo s) (s, [])) (\<lambda>(slots, s, newBursts).
     Inr (s\<lparr>phy_slotAllocInfo := slots,
            phy_packetBurstMap := foldl (\<lambda>m (k, b). map_emplace k b m) (phy_packetBurstMap s) newBursts\<rparr>))"

subsection \<open>Control messages\<close>

text \<open>\<open>m_controlMessageQueue.at (i)\<close> throws when there is no such list; \<open>size () - 1\<close> of an empty queue wraps.\<close>

definition push_ctrl :: "nat \<Rightarrow> 'm \<Rightarrow> ('m, 'p) nr_phy \<Rightarrow> ('m, 'p) nr_phy res" where
  "push_ctrl i m s =
     (if i < length (phy_controlMessageQueue s)
      then Inr (s\<lparr>phy_controlMessageQueue := (phy_controlMessageQueue s)[i := phy_controlMessageQueue s ! i @ [m]]\<rparr>)
      else Inl OutOfRange)"

definition EnqueueCtrlMessage :: "('m, 'p) nr_phy \<Rightarrow> 'm \<Rightarrow> ('m, 'p) nr_phy res" where
  "EnqueueCtrlMessage s m = push_ctrl (length (phy_controlMessageQueue s) - 1) m s"

definition EnqueueCtrlMsgNow :: "('m, 'p) nr_phy \<Rightarrow> 'm \<Rightarrow> ('m, 'p) nr_phy res" where
  "EnqueueCtrlMsgNow s msg = push_ctrl 0 msg s"

definition EnqueueCtrlMsgNow_list :: "('m, 'p) nr_phy \<Rightarrow> 'm list \<Rightarrow> ('m, 'p) nr_phy res" where
  "EnqueueCtrlMsgNow_list s listOfMsgs = foldE EnqueueCtrlMsgNow s listOfMsgs"

definition EncodeCtrlMsg :: "('m, 'p) nr_phy \<Rightarrow> 'm \<Rightarrow> ('m, 'p) nr_phy" where
  "EncodeCtrlMsg s msg = s\<lparr>phy_ctrlMsgs := phy_ctrlMsgs s @ [msg]\<rparr>"

definition InitializeMessageList :: "('m, 'p) nr_phy \<Rightarrow> ('m, 'p) nr_phy" where
  "InitializeMessageList s = s\<lparr>phy_controlMessageQueue := replicate (GetL1L2CtrlLatency + 1) []\<rparr>"

definition PopCurrentSlotCtrlMsgs :: "('m, 'p) nr_phy \<Rightarrow> 'm list \<times> ('m, 'p) nr_phy" where
  "PopCurrentSlotCtrlMsgs s =
     (case phy_controlMessageQueue s of
        [] \<Rightarrow> ([], s)
      | ms # r \<Rightarrow> (ms, s\<lparr>phy_controlMessageQueue := r @ [[]]\<rparr>))"

definition IsCtrlMsgListEmpty :: "('m, 'p) nr_phy \<Rightarrow> bool" where
  "IsCtrlMsgListEmpty s \<longleftrightarrow> phy_controlMessageQueue s = [] \<or> hd (phy_controlMessageQueue s) = []"

definition FromRBGBitmaskToRBAssignment :: "u32 \<Rightarrow> u8 list \<Rightarrow> nat list" where
  "FromRBGBitmaskToRBAssignment numRbPerRbg rbgBitmask =
     concat (map (\<lambda>i. if rbgBitmask ! i = 1
       then map (\<lambda>k. i * unat numRbPerRbg + k) [0..<unat numRbPerRbg] else []) [0..<length rbgBitmask])"


subsection \<open>The queue of control messages is a delay line\<close>

datatype 'm ctrl_op = Later 'm | Now 'm | Pop

text \<open>A sequence of uses of the queue; the result are the lists that were popped.\<close>

fun ctrl_run :: "'m ctrl_op list \<Rightarrow> ('m, 'p) nr_phy \<Rightarrow> ('m list list \<times> ('m, 'p) nr_phy) res" where
  "ctrl_run [] s = Inr ([], s)"
| "ctrl_run (Later m # r) s = bindE (EnqueueCtrlMessage s m) (ctrl_run r)"
| "ctrl_run (Now m # r) s = bindE (EnqueueCtrlMsgNow s m) (ctrl_run r)"
| "ctrl_run (Pop # r) s =
     (let (ms, s) = PopCurrentSlotCtrlMsgs s in bindE (ctrl_run r s) (\<lambda>(out, s). Inr (ms # out, s)))"

text \<open>The messages with the number of the pop they are due in, counted from \<open>c\<close>.\<close>

fun due_in :: "nat \<Rightarrow> 'm ctrl_op list \<Rightarrow> (nat \<times> 'm) list" where
  "due_in c [] = []"
| "due_in c (Later m # r) = (c + GetL1L2CtrlLatency, m) # due_in c r"
| "due_in c (Now m # r) = (c, m) # due_in c r"
| "due_in c (Pop # r) = due_in (Suc c) r"

definition due_at :: "nat \<Rightarrow> (nat \<times> 'm) list \<Rightarrow> 'm list" where
  "due_at j ds = map snd (filter (\<lambda>d. fst d = j) ds)"

fun pops :: "'m ctrl_op list \<Rightarrow> nat" where
  "pops [] = 0"
| "pops (Pop # r) = Suc (pops r)"
| "pops (_ # r) = pops r"

lemma due_at_simps [simp]:
  "due_at j [] = []" "due_at j ((d, m) # r) = (if d = j then m # due_at j r else due_at j r)"
  by (simp_all add: due_at_def)

lemma due_in_Suc: "due_in (c + k) r = map (\<lambda>(d, m). (d + k, m)) (due_in c r)"
proof (induction r arbitrary: c rule: pops.induct)
  case (2 r)
  then show ?case using 2[of "Suc c"] by simp
qed auto

lemma due_at_shift: "due_at (Suc j) (due_in (Suc c) r) = due_at j (due_in c r)"
  using due_in_Suc[of c 1 r] by (induction "due_in c r") (auto simp: due_at_def filter_map o_def split_def)

lemma due_at_early: "j < c \<Longrightarrow> due_at j (due_in c r) = []"
  by (induction r arbitrary: c rule: pops.induct) auto

definition pending :: "'m list list \<Rightarrow> nat \<Rightarrow> 'm list" where
  "pending q j = (if j < length q then q ! j else [])"

lemma ctrl_run_spec:
  assumes "length (phy_controlMessageQueue s) = GetL1L2CtrlLatency + 1"
  shows "\<exists>s'. ctrl_run ops s =
    Inr (map (\<lambda>j. pending (phy_controlMessageQueue s) j @ due_at j (due_in 0 ops)) [0..<pops ops], s')"
  using assms
proof (induction ops arbitrary: s)
  case (Cons x r)
  let ?q = "phy_controlMessageQueue s"
  show ?case
  proof (cases x)
    case (Later m)
    let ?s = "s\<lparr>phy_controlMessageQueue := ?q[GetL1L2CtrlLatency := ?q ! GetL1L2CtrlLatency @ [m]]\<rparr>"
    have e: "EnqueueCtrlMessage s m = Inr ?s" using Cons.prems by (simp add: EnqueueCtrlMessage_def push_ctrl_def)
    obtain s' where "ctrl_run r ?s = Inr (map (\<lambda>j. pending (phy_controlMessageQueue ?s) j @ due_at j (due_in 0 r)) [0..<pops r], s')"
      using Cons.IH[of ?s] Cons.prems by auto
    then show ?thesis using Later e Cons.prems by (auto simp: pending_def nth_list_update)
  next
    case (Now m)
    let ?s = "s\<lparr>phy_controlMessageQueue := ?q[0 := ?q ! 0 @ [m]]\<rparr>"
    have e: "EnqueueCtrlMsgNow s m = Inr ?s" using Cons.prems by (simp add: EnqueueCtrlMsgNow_def push_ctrl_def)
    obtain s' where "ctrl_run r ?s = Inr (map (\<lambda>j. pending (phy_controlMessageQueue ?s) j @ due_at j (due_in 0 r)) [0..<pops r], s')"
      using Cons.IH[of ?s] Cons.prems by auto
    then show ?thesis using Now e Cons.prems by (auto simp: pending_def nth_list_update)
  next
    case Pop
    obtain ms q where q: "?q = ms # q" "length q = GetL1L2CtrlLatency" using Cons.prems by (cases ?q) auto
    let ?s = "s\<lparr>phy_controlMessageQueue := q @ [[]]\<rparr>"
    have e: "PopCurrentSlotCtrlMsgs s = (ms, ?s)" using q(1) by (simp add: PopCurrentSlotCtrlMsgs_def)
    obtain s' where r: "ctrl_run r ?s = Inr (map (\<lambda>j. pending (phy_controlMessageQueue ?s) j @ due_at j (due_in 0 r)) [0..<pops r], s')"
      using Cons.IH[of ?s] q(2) by auto
    have "pending (q @ [[]]) j = pending ?q (Suc j)" for j
      using q by (auto simp: pending_def nth_append)
    then show ?thesis using Pop e r q(1)
      by (simp add: due_at_early due_at_shift upt_conv_Cons map_Suc_upt[symmetric] pending_def del: upt_Suc)
  qed
qed simp

text \<open>
  C27. The queue of control messages (\<open>InitializeMessageList\<close>, \<open>EnqueueCtrlMessage\<close>, \<open>EnqueueCtrlMsgNow\<close>,
  \<open>PopCurrentSlotCtrlMsgs\<close>) is a delay line: however its operations are interleaved, none fails, and pop number \<open>j\<close>
  returns, in the order they were queued, exactly the messages queued since pop \<open>j - 1\<close> for at once and those queued for
  later between the two pops that lie the latency of the control channel before it.
\<close>

theorem control_queue_delays:
  "\<exists>s'. ctrl_run ops (InitializeMessageList s) = Inr (map (\<lambda>j. due_at j (due_in 0 ops)) [0..<pops ops], s')"
proof -
  have p: "pending (phy_controlMessageQueue (InitializeMessageList s)) j = []" for j
    by (simp add: InitializeMessageList_def pending_def del: replicate_Suc)
  have "length (phy_controlMessageQueue (InitializeMessageList s)) = GetL1L2CtrlLatency + 1"
    by (simp add: InitializeMessageList_def)
  from ctrl_run_spec[OF this, of ops] show ?thesis by (simp only: p append_Nil)
qed


subsection \<open>The list of allocations is a map from slots\<close>

definition alloc_of :: "('m, 'p) nr_phy \<Rightarrow> sfnsf \<Rightarrow> SlotAllocInfo option" where
  "alloc_of s = map_of (map (\<lambda>a. (slot_sfnSf a, a)) (phy_slotAllocInfo s))"

definition own_slot :: "('m, 'p) nr_phy \<Rightarrow> sfnsf \<Rightarrow> bool" where
  "own_slot s sfn \<longleftrightarrow> numerology sfn \<le> 5 \<and> ucast (numerology sfn) = phy_numerology s"

text \<open>Every allocation is for a slot of the numerology of the PHY, and no slot has two.\<close>

definition slots_ok :: "('m, 'p) nr_phy \<Rightarrow> bool" where
  "slots_ok s \<longleftrightarrow> (\<forall>a \<in> set (phy_slotAllocInfo s). own_slot s (slot_sfnSf a)) \<and>
     distinct (map slot_sfnSf (phy_slotAllocInfo s)) \<and> sorted (map (slot_key \<circ> slot_sfnSf) (phy_slotAllocInfo s))"

lemma own_numerology [simp]: "own_slot s sfn \<Longrightarrow> own_numerology s sfn k = k"
  by (simp add: own_slot_def own_numerology_def GetNumerology_def)

lemma ucast_u8_u16_u8: "ucast (ucast (k :: u8) :: u16) = k"
  by (rule bit_word_eqI) (auto simp: bit_simps)

lemma own_same: "own_slot s p \<Longrightarrow> own_slot s q \<Longrightarrow> numerology p = numerology q"
  by (metis own_slot_def ucast_u8_u16_u8)

lemma sfn_eq_own: "numerology p = numerology q \<Longrightarrow> sfn_eq p q = Inr (p = q)"
  by (auto simp: sfn_eq_def)

lemma slot_index_spec:
  assumes "\<forall>a \<in> set xs. numerology (slot_sfnSf a) = numerology sfn"
  shows "\<exists>i. slot_index sfn xs = Inr i \<and>
    (case i of None \<Rightarrow> \<forall>a \<in> set xs. slot_sfnSf a \<noteq> sfn | Some i \<Rightarrow> i < length xs \<and> slot_sfnSf (xs ! i) = sfn)"
  using assms
proof (induction xs)
  case (Cons a r)
  then obtain i where "slot_index sfn r = Inr i"
    "case i of None \<Rightarrow> \<forall>a \<in> set r. slot_sfnSf a \<noteq> sfn | Some i \<Rightarrow> i < length r \<and> slot_sfnSf (r ! i) = sfn" by auto
  then show ?case using Cons.prems by (auto simp: sfn_eq_own split: option.splits)
qed simp

lemma slot_index_own:
  assumes "slots_ok s" and "own_slot s sfn"
  shows "slot_index sfn (phy_slotAllocInfo s) = Inr None \<and> alloc_of s sfn = None \<or>
    (\<exists>i. slot_index sfn (phy_slotAllocInfo s) = Inr (Some i) \<and> i < length (phy_slotAllocInfo s) \<and>
      slot_sfnSf (phy_slotAllocInfo s ! i) = sfn \<and> alloc_of s sfn = Some (phy_slotAllocInfo s ! i))"
proof -
  let ?xs = "phy_slotAllocInfo s"
  have "\<forall>a \<in> set ?xs. numerology (slot_sfnSf a) = numerology sfn"
    using assms own_same by (auto simp: slots_ok_def)
  then obtain i where i: "slot_index sfn ?xs = Inr i"
    "case i of None \<Rightarrow> \<forall>a \<in> set ?xs. slot_sfnSf a \<noteq> sfn | Some i \<Rightarrow> i < length ?xs \<and> slot_sfnSf (?xs ! i) = sfn"
    using slot_index_spec by blast
  show ?thesis
  proof (cases i)
    case None
    then show ?thesis using i by (auto simp: alloc_of_def map_of_eq_None_iff)
  next
    case (Some j)
    then have j: "j < length ?xs" "slot_sfnSf (?xs ! j) = sfn" using i(2) by simp_all
    have "map_of (map (\<lambda>a. (slot_sfnSf a, a)) ?xs) (slot_sfnSf (?xs ! j)) = Some (?xs ! j)"
      using assms(1) j(1) by (intro map_of_is_SomeI) (auto simp: slots_ok_def comp_def)
    then show ?thesis using i(1) Some j by (simp add: alloc_of_def)
  qed
qed

lemma exists_own: "slots_ok s \<Longrightarrow> own_slot s sfn \<Longrightarrow> SlotAllocInfoExists s sfn = Inr (alloc_of s sfn \<noteq> None)"
  using slot_index_own[of s sfn] by (auto simp: SlotAllocInfoExists_def)

lemma peek_own: "slots_ok s \<Longrightarrow> own_slot s sfn \<Longrightarrow> alloc_of s sfn = Some a \<Longrightarrow> PeekSlotAllocInfo s sfn = Inr a"
  using slot_index_own[of s sfn] by (auto simp: PeekSlotAllocInfo_def)


lemma alloc_update:
  assumes "slots_ok s" and "i < length (phy_slotAllocInfo s)" and "slot_sfnSf m = slot_sfnSf (phy_slotAllocInfo s ! i)"
  defines "t \<equiv> s\<lparr>phy_slotAllocInfo := (phy_slotAllocInfo s)[i := m]\<rparr>"
  shows "slots_ok t" "alloc_of t = (alloc_of s)(slot_sfnSf m \<mapsto> m)"
proof -
  let ?xs = "phy_slotAllocInfo s"
  have same: "map slot_sfnSf (?xs[i := m]) = map slot_sfnSf ?xs"
    by (simp add: map_update assms(3)) (metis assms(2) list_update_id nth_map length_map)
  then have keys: "map (slot_key \<circ> slot_sfnSf) (?xs[i := m]) = map (slot_key \<circ> slot_sfnSf) ?xs"
    by (simp flip: map_map)
  have own: "\<forall>a \<in> set ?xs. own_slot s (slot_sfnSf a)" using assms(1) by (simp add: slots_ok_def)
  have "\<forall>p \<in> set (map slot_sfnSf (?xs[i := m])). own_slot s p" unfolding same using own by simp
  then have "\<forall>a \<in> set (?xs[i := m]). own_slot t (slot_sfnSf a)" by (simp add: own_slot_def t_def)
  then show "slots_ok t" using assms(1) same keys by (simp add: slots_ok_def t_def)
  have d: "distinct (map fst (map (\<lambda>a. (slot_sfnSf a, a)) ?xs))" using assms(1) by (simp add: slots_ok_def comp_def)
  have "map (\<lambda>a. (slot_sfnSf a, a)) (?xs[i := m]) = (map (\<lambda>a. (slot_sfnSf a, a)) ?xs)[i := (slot_sfnSf m, m)]"
    by (simp add: map_update)
  moreover have "map_of (ys[i := (k, v)]) = (map_of ys)(k \<mapsto> v)"
    if "i < length ys" "fst (ys ! i) = k" "distinct (map fst ys)" for ys and k :: sfnsf and v :: SlotAllocInfo
    using that
  proof (induction ys arbitrary: i)
    case (Cons y r)
    show ?case
    proof (cases i)
      case 0
      then show ?thesis using Cons.prems by (cases y) auto
    next
      case (Suc n)
      have "fst y \<noteq> k" using Cons.prems nth_mem[of n r] Suc by (cases y) force
      then show ?thesis using Cons Suc by (cases y) (auto simp: fun_eq_iff)
    qed
  qed simp
  ultimately show "alloc_of t = (alloc_of s)(slot_sfnSf m \<mapsto> m)"
    using d assms(2,3) by (simp add: alloc_of_def t_def)
qed

lemma alloc_insert:
  assumes "slots_ok s" and "own_slot s (slot_sfnSf a)" and "alloc_of s (slot_sfnSf a) = None"
  shows "\<exists>q. sort_slots (phy_slotAllocInfo s @ [a]) = Inr q \<and> slots_ok (s\<lparr>phy_slotAllocInfo := q\<rparr>) \<and>
    alloc_of (s\<lparr>phy_slotAllocInfo := q\<rparr>) = (alloc_of s)(slot_sfnSf a \<mapsto> a)"
proof -
  let ?xs = "phy_slotAllocInfo s @ [a]" and ?f = "\<lambda>a. slot_key (slot_sfnSf a)" and ?p = "\<lambda>a. (slot_sfnSf a, a)"
  let ?q = "sort_key ?f ?xs"
  have own: "\<forall>b \<in> set ?xs. own_slot s (slot_sfnSf b)" using assms(1,2) by (auto simp: slots_ok_def)
  have "\<forall>b \<in> set ?xs. numerology (slot_sfnSf b) = numerology (slot_sfnSf (hd ?xs))"
    using own own_same hd_in_set[of ?xs] by (metis append_is_Nil_conv list.distinct(1))
  then have "sort_slots ?xs = Inr ?q" by (auto simp: sort_slots_def same_numerology_def list_all_iff)
  moreover have new: "slot_sfnSf a \<notin> slot_sfnSf ` set (phy_slotAllocInfo s)"
    using assms(3) by (auto simp: alloc_of_def map_of_eq_None_iff image_image)
  then have dx: "distinct (map slot_sfnSf ?xs)" using assms(1) by (simp add: slots_ok_def)
  have m: "mset (map slot_sfnSf ?q) = mset (map slot_sfnSf ?xs)" by simp
  then have dq: "distinct (map slot_sfnSf ?q)" using dx by (metis mset_eq_imp_distinct_iff)
  moreover have "sorted (map (slot_key \<circ> slot_sfnSf) ?q)" by (simp add: comp_def)
  ultimately have "sort_slots ?xs = Inr ?q \<and> slots_ok (s\<lparr>phy_slotAllocInfo := ?q\<rparr>)"
    using own by (simp add: slots_ok_def own_slot_def del: sort_key_simps)
  moreover have "map_of (map ?p ?q) = map_of (map ?p ?xs)"
  proof (subst map_of_inject_set)
    show "distinct (map fst (map ?p ?q))" "distinct (map fst (map ?p ?xs))"
      using dq dx by (simp_all add: comp_def del: sort_key_simps)
  qed simp
  moreover have "map_of (map ?p ?xs) = (alloc_of s)(slot_sfnSf a \<mapsto> a)"
    using assms(3) unfolding alloc_of_def by (auto simp: map_add_def fun_eq_iff split: option.split)
  ultimately show ?thesis by (intro exI[of _ ?q]) (simp add: alloc_of_def)
qed


lemma retrieve_own:
  assumes "slots_ok s" and "own_slot s sfn" and "alloc_of s sfn = Some a"
  shows "\<exists>s'. RetrieveSlotAllocInfo s sfn = Inr (a, s') \<and> slots_ok s' \<and> alloc_of s' = (alloc_of s)(sfn := None)"
proof -
  let ?xs = "phy_slotAllocInfo s"
  obtain i where i: "slot_index sfn ?xs = Inr (Some i)" "i < length ?xs" "slot_sfnSf (?xs ! i) = sfn" "a = ?xs ! i"
    using slot_index_own[OF assms(1,2)] assms(3) by auto
  let ?q = "take i ?xs @ drop (Suc i) ?xs"
  let ?s = "s\<lparr>phy_slotAllocInfo := ?q\<rparr>"
  have x: "?xs = take i ?xs @ a # drop (Suc i) ?xs" using i(2,4) by (simp add: id_take_nth_drop)
  have d: "distinct (map slot_sfnSf (take i ?xs @ a # drop (Suc i) ?xs))"
    "sorted (map (slot_key \<circ> slot_sfnSf) (take i ?xs @ a # drop (Suc i) ?xs))" "\<forall>b \<in> set (take i ?xs @ a # drop (Suc i) ?xs). own_slot s (slot_sfnSf b)"
    using assms(1) x unfolding slots_ok_def by metis+
  then have "slots_ok ?s" by (auto simp: slots_ok_def own_slot_def sorted_append)
  moreover have "alloc_of ?s = (alloc_of s)(sfn := None)"
  proof -
    have "alloc_of s = map_of (map (\<lambda>a. (slot_sfnSf a, a)) (take i ?xs @ a # drop (Suc i) ?xs))"
      unfolding alloc_of_def by (metis x)
    moreover have "sfn \<notin> slot_sfnSf ` set ?q" using d(1) i(3,4) by auto
    then have "alloc_of ?s sfn = None" by (auto simp: alloc_of_def map_of_eq_None_iff image_image)
    ultimately show ?thesis using i(3,4) by (auto simp: alloc_of_def fun_eq_iff map_add_def split: option.split)
  qed
  ultimately show ?thesis using i assms(2) by (auto simp: RetrieveSlotAllocInfo_def)
qed

lemma Merge_slot: "Merge f a b = Inr m \<Longrightarrow> slot_sfnSf m = slot_sfnSf a"
  by (auto simp: Merge_def res_simps Let_def split: if_splits)

text \<open>Putting an allocation into the list: it is merged with the one of the same slot, and no other slot changes.\<close>

lemma push_back_own:
  assumes "slots_ok s" and "own_slot s (slot_sfnSf a)"
    and "case alloc_of s (slot_sfnSf a) of None \<Rightarrow> m = a | Some b \<Rightarrow> Merge f b a = Inr m"
  shows "\<exists>s'. PushBackSlotAllocInfo f s a = Inr s' \<and> slots_ok s' \<and> alloc_of s' = (alloc_of s)(slot_sfnSf a \<mapsto> m) \<and>
    phy_numerology s' = phy_numerology s"
  using slot_index_own[OF assms(1,2)]
proof (elim disjE conjE exE)
  assume i: "slot_index (slot_sfnSf a) (phy_slotAllocInfo s) = Inr None" "alloc_of s (slot_sfnSf a) = None"
  then show ?thesis using alloc_insert[OF assms(1,2) i(2)] assms(3) by (auto simp: PushBackSlotAllocInfo_def)
next
  fix i
  assume i: "slot_index (slot_sfnSf a) (phy_slotAllocInfo s) = Inr (Some i)" "i < length (phy_slotAllocInfo s)"
    "slot_sfnSf (phy_slotAllocInfo s ! i) = slot_sfnSf a" "alloc_of s (slot_sfnSf a) = Some (phy_slotAllocInfo s ! i)"
  then have m: "Merge f (phy_slotAllocInfo s ! i) a = Inr m" using assms(3) by simp
  have e: "slot_sfnSf m = slot_sfnSf (phy_slotAllocInfo s ! i)" by (rule Merge_slot[OF m])
  then show ?thesis using alloc_update[OF assms(1) i(2) e] i m by (simp add: PushBackSlotAllocInfo_def)
qed

end
