(* ===== verification/GnbPhy.thy ===== *)
theory GnbPhy
  imports TddPattern PhyQueue
begin

text \<open>
  The slot processing of the gNB's physical layer, class \<open>NrGnbPhy\<close> of \<open>contrib/nr/model/nr-gnb-phy.cc\<close>: from the start of
  a slot, which asks the MAC for the slots of the tables, sends the control information of slots already allocated and
  schedules the transmissions, to its end. What the PHY asks of others (its MAC, the simulator, other bandwidth parts, the
  spectrum) are values of \<^theory_text>\<open>gnb_out\<close>. Times are nanoseconds. Traces and beam forming are left out.
\<close>

datatype ChannelStatus = ChNONE | ChREQUESTED | ChGRANTED | ChTO_LOSE

datatype 'x ctrl_msg =
    NrDlDciMessage dci u8 nat nat
  | NrUlDciMessage dci u8 nat
  | NrMibMessage u8 u32
  | NrSib1Message u8
  | OtherMessage 'x

datatype ('x, 'p) gnb_out =
    SetCurrentSfn sfnsf
  | SlotUlIndication sfnsf LteNrTddSlotType
  | SlotDlIndication sfnsf LteNrTddSlotType
  | RouteTo u8 "'x ctrl_msg"
  | ScheduleVarTti int dci
  | ScheduleUlCtrl int dci
  | ScheduleUlSrs int dci
  | StartTxDlControl "'x ctrl_msg list" int
  | SendDataChannels "'p list" int dci nat
  | AddExpectedTb u16 u8 u32 u8 "nat list" u8 u8 u8 u8 sfnsf
  | AddExpectedSrsRnti u16
  | EndVarTtiAfter int dci

text \<open>
  What does not change in a run: \<open>e_request\<close> is the status in which the channel access manager leaves the channel when
  access is requested (\<open>ChGRANTED\<close> for \<open>NrAlwaysOnAccessManager\<close>), \<open>e_merge\<close> is \<open>std::list::merge\<close>, which orders the
  messages by their addresses, \<open>e_route\<close> the bandwidth part to which a message goes out.
\<close>

record 'x gphy_env =
  e_bwpId :: u8
  e_symPerSlot :: u32
  e_rbPerRbg :: u32
  e_bandwidth :: u32
  e_slotPeriod :: int
  e_symbolPeriod :: int
  e_streams :: nat
  e_dlCtrlDci :: dci
  e_ulCtrlDci :: dci
  e_request :: ChannelStatus
  e_merge :: "'x ctrl_msg list \<Rightarrow> 'x ctrl_msg list \<Rightarrow> 'x ctrl_msg list"
  e_route :: "'x ctrl_msg \<Rightarrow> u8"
  e_sortDeque :: "VarTtiAllocInfo list \<Rightarrow> VarTtiAllocInfo list"

record ('x, 'p) nr_gnb_phy =
  gp_phy :: "('x ctrl_msg, 'p) nr_phy"
  gp_tddPattern :: "LteNrTddSlotType list"
  gp_tdd :: tdd
  gp_n0Delay :: nat
  gp_n1Delay :: nat
  gp_n2Delay :: nat
  gp_currentSlot :: sfnsf
  gp_currSlotAllocInfo :: SlotAllocInfo
  gp_channelStatus :: ChannelStatus
  gp_isPrimary :: bool
  gp_rbgAllocationPerSym :: "(u8 \<times> u8 list) list"
  gp_currSymStart :: u8
  gp_ueAttached :: "u64 list"
  gp_ueAttachedRnti :: "u16 list"

subsection \<open>Configuration\<close>

text \<open>\<open>None\<close>: the tables are computed for ever.\<close>

definition gnb_SetTddPattern :: "('x, 'p) nr_gnb_phy \<Rightarrow> LteNrTddSlotType list \<Rightarrow> ('x, 'p) nr_gnb_phy option" where
  "gnb_SetTddPattern s pattern =
     Option.bind (SetTddPattern pattern (gp_n2Delay s) (gp_n1Delay s) GetL1L2CtrlLatency) (\<lambda>t.
     Some (s\<lparr>gp_tddPattern := pattern, gp_tdd := t\<rparr>))"

definition SetN0Delay :: "('x, 'p) nr_gnb_phy \<Rightarrow> nat \<Rightarrow> ('x, 'p) nr_gnb_phy option" where
  "SetN0Delay s delay = gnb_SetTddPattern (s\<lparr>gp_n0Delay := delay\<rparr>) (gp_tddPattern s)"

definition SetN1Delay :: "('x, 'p) nr_gnb_phy \<Rightarrow> nat \<Rightarrow> ('x, 'p) nr_gnb_phy option" where
  "SetN1Delay s delay = gnb_SetTddPattern (s\<lparr>gp_n1Delay := delay\<rparr>) (gp_tddPattern s)"

definition SetN2Delay :: "('x, 'p) nr_gnb_phy \<Rightarrow> nat \<Rightarrow> ('x, 'p) nr_gnb_phy option" where
  "SetN2Delay s delay = gnb_SetTddPattern (s\<lparr>gp_n2Delay := delay\<rparr>) (gp_tddPattern s)"

definition RegisterUe :: "('x, 'p) nr_gnb_phy \<Rightarrow> u64 \<Rightarrow> bool \<times> ('x, 'p) nr_gnb_phy" where
  "RegisterUe s imsi =
     (if imsi \<notin> set (gp_ueAttached s) then (True, s\<lparr>gp_ueAttached := gp_ueAttached s @ [imsi]\<rparr>) else (False, s))"

definition gphy_DoAddUe :: "('x, 'p) nr_gnb_phy \<Rightarrow> u16 \<Rightarrow> ('x, 'p) nr_gnb_phy" where
  "gphy_DoAddUe s rnti = s\<lparr>gp_ueAttachedRnti := List.insert rnti (gp_ueAttachedRnti s)\<rparr>"

definition gphy_DoRemoveUe :: "('x, 'p) nr_gnb_phy \<Rightarrow> u16 \<Rightarrow> ('x, 'p) nr_gnb_phy res" where
  "gphy_DoRemoveUe s rnti =
     (if rnti \<in> set (gp_ueAttachedRnti s)
      then Inr (s\<lparr>gp_ueAttachedRnti := removeAll rnti (gp_ueAttachedRnti s)\<rparr>) else Inl FatalError)"

definition with_phy :: "('x, 'p) nr_gnb_phy \<Rightarrow> ('x ctrl_msg, 'p) nr_phy res \<Rightarrow> ('x, 'p) nr_gnb_phy res" where
  "with_phy s r = bindE r (\<lambda>q. Inr (s\<lparr>gp_phy := q\<rparr>))"

definition push_ctrl_alloc :: "'x gphy_env \<Rightarrow> ('x, 'p) nr_gnb_phy \<Rightarrow> sfnsf \<Rightarrow> dci \<Rightarrow> AllocationType \<Rightarrow>
    ('x, 'p) nr_gnb_phy res" where
  "push_ctrl_alloc e s sfn d ty =
     with_phy s (PushBackSlotAllocInfo (e_sortDeque e) (gp_phy s)
       \<lparr>slot_sfnSf = sfn, slot_numSymAlloc = ucast (dci_numSym d), slot_varTtiAllocInfo = [VarTtiAllocInfo d], slot_type = ty\<rparr>)"

definition PushDlAllocation :: "'x gphy_env \<Rightarrow> ('x, 'p) nr_gnb_phy \<Rightarrow> sfnsf \<Rightarrow> ('x, 'p) nr_gnb_phy res" where
  "PushDlAllocation e s sfn = push_ctrl_alloc e s sfn (e_dlCtrlDci e) DL"

definition PushUlAllocation :: "'x gphy_env \<Rightarrow> ('x, 'p) nr_gnb_phy \<Rightarrow> sfnsf \<Rightarrow> ('x, 'p) nr_gnb_phy res" where
  "PushUlAllocation e s sfn = push_ctrl_alloc e s sfn (e_ulCtrlDci e) UL"

definition QueueMib :: "'x gphy_env \<Rightarrow> ('x, 'p) nr_gnb_phy \<Rightarrow> ('x, 'p) nr_gnb_phy res" where
  "QueueMib e s = with_phy s (EnqueueCtrlMsgNow (gp_phy s) (NrMibMessage (e_bwpId e) (e_bandwidth e div (1000 * 100))))"

definition QueueSib :: "'x gphy_env \<Rightarrow> ('x, 'p) nr_gnb_phy \<Rightarrow> ('x, 'p) nr_gnb_phy res" where
  "QueueSib e s = with_phy s (EnqueueCtrlMsgNow (gp_phy s) (NrSib1Message (e_bwpId e)))"

subsection \<open>Asking the MAC\<close>

definition position :: "LteNrTddSlotType list \<Rightarrow> sfnsf \<Rightarrow> nat" where
  "position pattern sfn = unat (Normalize sfn) mod length pattern"

text \<open>One indication per delay of the table, in its order.\<close>

fun indications :: "LteNrTddSlotType list \<Rightarrow> sfnsf \<Rightarrow> nat list \<Rightarrow> (sfnsf \<times> LteNrTddSlotType) list res" where
  "indications pattern currentSlot [] = Inr []"
| "indications pattern currentSlot (k # r) =
     bindE (Add currentSlot (of_nat k)) (\<lambda>targetSlot.
     bindE (indications pattern currentSlot r) (\<lambda>r.
     Inr ((targetSlot, pattern ! position pattern targetSlot) # r)))"

definition CallMacForSlotIndication :: "LteNrTddSlotType list \<Rightarrow> tdd \<Rightarrow> sfnsf \<Rightarrow> ('x, 'p) gnb_out list res" where
  "CallMacForSlotIndication pattern t currentSlot =
     ns_assert (generateDl t \<noteq> [] \<or> generateUl t \<noteq> [])
     (let currentSlotN = position pattern currentSlot in
      bindE (indications pattern currentSlot (delays_at (generateUl t) currentSlotN)) (\<lambda>ul.
      bindE (indications pattern currentSlot (delays_at (generateDl t) currentSlotN)) (\<lambda>dl.
      Inr (SetCurrentSfn currentSlot # map (\<lambda>(sfn, ty). SlotUlIndication sfn ty) ul @
           map (\<lambda>(sfn, ty). SlotDlIndication sfn ty) dl))))"

subsection \<open>Sending control information\<close>

fun RetrieveDciFromAllocation :: "'x gphy_env \<Rightarrow> VarTtiAllocInfo list \<Rightarrow> DciFormat \<Rightarrow> nat \<Rightarrow> nat \<Rightarrow>
    'x ctrl_msg list res" where
  "RetrieveDciFromAllocation e [] format kDelay k1Delay = Inr []"
| "RetrieveDciFromAllocation e (a # r) format kDelay k1Delay =
     (let d = tti_dci a in
      if dci_type d \<noteq> CTRL \<and> dci_format d = format then
        ns_assert (unat (dci_symStart d) + unat (dci_numSym d) \<le> unat (e_symPerSlot e))
        (bindE (RetrieveDciFromAllocation e r format kDelay k1Delay) (\<lambda>ms.
         Inr ((if dci_format d = DL_DCI then NrDlDciMessage d (e_bwpId e) kDelay k1Delay
               else NrUlDciMessage d (e_bwpId e) kDelay) # ms)))
      else RetrieveDciFromAllocation e r format kDelay k1Delay)"

text \<open>The loop over the delays of one direction.\<close>

definition msgs_for :: "'x gphy_env \<Rightarrow> ('x, 'p) nr_gnb_phy \<Rightarrow> sfnsf \<Rightarrow> DciFormat \<Rightarrow> nat \<Rightarrow> 'x ctrl_msg list \<Rightarrow> nat \<Rightarrow>
    'x ctrl_msg list res" where
  "msgs_for e s currentSlot format k1Delay ctrlMsgs k =
     bindE (Add currentSlot (of_nat k)) (\<lambda>targetSlot.
     bindE (sfn_eq targetSlot currentSlot) (\<lambda>eq.
     if eq then
       bindE (RetrieveDciFromAllocation e (slot_varTtiAllocInfo (gp_currSlotAllocInfo s)) format k k1Delay) (\<lambda>ms.
       Inr (e_merge e ctrlMsgs ms))
     else
       bindE (SlotAllocInfoExists (gp_phy s) targetSlot) (\<lambda>ex.
       if ex then
         bindE (PeekSlotAllocInfo (gp_phy s) targetSlot) (\<lambda>a.
         bindE (RetrieveDciFromAllocation e (slot_varTtiAllocInfo a) format k k1Delay) (\<lambda>ms.
         Inr (e_merge e ctrlMsgs ms)))
       else Inr ctrlMsgs)))"

definition RetrieveMsgsFromDCIs :: "'x gphy_env \<Rightarrow> ('x, 'p) nr_gnb_phy \<Rightarrow> sfnsf \<Rightarrow> 'x ctrl_msg list res" where
  "RetrieveMsgsFromDCIs e s currentSlot =
     (let currentSlotN = position (gp_tddPattern s) currentSlot;
          k1delay = (case map_of (dlHarqfbPosition (gp_tdd s)) currentSlotN of None \<Rightarrow> 0 | Some k \<Rightarrow> k) in
      bindE (foldE (msgs_for e s currentSlot DL_DCI k1delay) [] (delays_at (toSendDl (gp_tdd s)) currentSlotN)) (\<lambda>ms.
      foldE (msgs_for e s currentSlot UL_DCI k1delay) ms (delays_at (toSendUl (gp_tdd s)) currentSlotN)))"

text \<open>\<open>RouteOutgoingCtrlMsgs\<close> of the net device hands each message to the PHY of a bandwidth part, this one or another.\<close>

definition route_msg :: "'x gphy_env \<Rightarrow> ('x ctrl_msg, 'p) nr_phy \<times> ('x, 'p) gnb_out list \<Rightarrow> 'x ctrl_msg \<Rightarrow>
    ('x ctrl_msg, 'p) nr_phy \<times> ('x, 'p) gnb_out list" where
  "route_msg e = (\<lambda>(q, out) m.
     if e_route e m = e_bwpId e then (EncodeCtrlMsg q m, out) else (q, out @ [RouteTo (e_route e m) m]))"

definition RetrievePrepareEncodeCtrlMsgs :: "'x gphy_env \<Rightarrow> ('x, 'p) nr_gnb_phy \<Rightarrow>
    (('x, 'p) nr_gnb_phy \<times> ('x, 'p) gnb_out list) res" where
  "RetrievePrepareEncodeCtrlMsgs e s =
     (let (ctrlMsgs, q) = PopCurrentSlotCtrlMsgs (gp_phy s);
          s = s\<lparr>gp_phy := q\<rparr> in
      bindE (RetrieveMsgsFromDCIs e s (gp_currentSlot s)) (\<lambda>ms.
      let (q, out) = foldl (route_msg e) (gp_phy s, []) (e_merge e ctrlMsgs ms) in
      Inr (s\<lparr>gp_phy := q\<rparr>, out)))"

subsection \<open>A slot\<close>

text \<open>
  The statistics of a slot are written to traces; what matters is that their two assertions hold: the allocations are in
  the order of their symbols, and the symbols they start in add up to \<open>m_numSymAlloc\<close>.
\<close>

definition stat_alloc :: "int \<times> u32 \<Rightarrow> VarTtiAllocInfo \<Rightarrow> (int \<times> u32) res" where
  "stat_alloc = (\<lambda>(lastSymStart, symUsed) a.
     let d = tti_dci a; start = int (unat (dci_symStart d)) in
     ns_assert (lastSymStart \<le> start)
       (Inr (start, if lastSymStart \<noteq> start then symUsed + ucast (dci_numSym d) else symUsed)))"

definition GenerateAllocationStatistics :: "SlotAllocInfo \<Rightarrow> unit res" where
  "GenerateAllocationStatistics allocInfo =
     bindE (foldE stat_alloc (- 1, 0) (slot_varTtiAllocInfo allocInfo)) (\<lambda>(_, symUsed).
     ns_assert (symUsed = slot_numSymAlloc allocInfo) (Inr ()))"

definition last_dl_symbol :: "VarTtiAllocInfo list \<Rightarrow> u8" where
  "last_dl_symbol = foldl (\<lambda>m a. let d = tti_dci a in
     if dci_type d = DATA \<and> dci_format d = DL_DCI then max m (dci_symStart d + dci_numSym d) else m) 0"

definition DoCheckOrReleaseChannel :: "'x gphy_env \<Rightarrow> ('x, 'p) nr_gnb_phy \<Rightarrow> ('x, 'p) nr_gnb_phy res" where
  "DoCheckOrReleaseChannel e s =
     ns_assert (gp_channelStatus s = ChGRANTED)
     (let lastDataTime = e_symbolPeriod e * int (unat (last_dl_symbol (slot_varTtiAllocInfo (gp_currSlotAllocInfo s)))) in
      Inr (if e_slotPeriod e - lastDataTime > 25000 then s\<lparr>gp_channelStatus := ChTO_LOSE\<rparr> else s))"

definition StoreRBGAllocation :: "(u8 \<times> u8 list) list \<Rightarrow> dci \<Rightarrow> (u8 \<times> u8 list) list res" where
  "StoreRBGAllocation m d =
     (case map_of m (dci_symStart d) of
        None \<Rightarrow> Inr (AList.update (dci_symStart d) (dci_rbgBitmask d) m)
      | Some bits \<Rightarrow>
          ns_assert (length bits = length (dci_rbgBitmask d))
            (Inr (AList.update (dci_symStart d) (map2 (OR) bits (dci_rbgBitmask d)) m)))"

text \<open>The second map is for a trace and is cleared, but its assertion counts.\<close>

definition PrepareRbgAllocationMap :: "VarTtiAllocInfo list \<Rightarrow> (u8 \<times> u8 list) list res" where
  "PrepareRbgAllocationMap allocations =
     bindE (foldE (\<lambda>(perSym, stat) a.
         let d = tti_dci a in
         if dci_type d \<noteq> CTRL then
           bindE (if dci_format d = DL_DCI then StoreRBGAllocation perSym d else Inr perSym) (\<lambda>perSym.
           bindE (StoreRBGAllocation stat d) (\<lambda>stat. Inr (perSym, stat)))
         else Inr (perSym, stat)) ([], []) allocations) (\<lambda>(perSym, _). Inr perSym)"

text \<open>Of the allocations of one symbol that follow a downlink one, none is scheduled.\<close>

fun fill_events :: "int \<Rightarrow> u8 \<Rightarrow> bool \<Rightarrow> VarTtiAllocInfo list \<Rightarrow> ('x, 'p) gnb_out list res" where
  "fill_events symbolPeriod lastSymStart useNext [] = Inr []"
| "fill_events symbolPeriod lastSymStart useNext (a # r) =
     (let d = tti_dci a in
      ns_assert (lastSymStart \<le> dci_symStart d)
      (if lastSymStart = dci_symStart d \<and> \<not> useNext then fill_events symbolPeriod lastSymStart useNext r
       else
         bindE (fill_events symbolPeriod (dci_symStart d) (dci_format d \<noteq> DL_DCI) r) (\<lambda>out.
         Inr (ScheduleVarTti (symbolPeriod * int (unat (dci_symStart d))) d # out))))"

definition FillTheEvent :: "'x gphy_env \<Rightarrow> ('x, 'p) nr_gnb_phy \<Rightarrow> (('x, 'p) nr_gnb_phy \<times> ('x, 'p) gnb_out list) res" where
  "FillTheEvent e s =
     bindE (fill_events (e_symbolPeriod e) 0 True (slot_varTtiAllocInfo (gp_currSlotAllocInfo s))) (\<lambda>out.
     Inr (s\<lparr>gp_currSlotAllocInfo := (gp_currSlotAllocInfo s)\<lparr>slot_varTtiAllocInfo := []\<rparr>\<rparr>, out))"

definition DoStartSlot :: "'x gphy_env \<Rightarrow> ('x, 'p) nr_gnb_phy \<Rightarrow> (('x, 'p) nr_gnb_phy \<times> ('x, 'p) gnb_out list) res" where
  "DoStartSlot e s =
     ns_assert (phy_ctrlMsgs (gp_phy s) = [])
     (bindE (GenerateAllocationStatistics (gp_currSlotAllocInfo s)) (\<lambda>_.
      if slot_varTtiAllocInfo (gp_currSlotAllocInfo s) = [] then Inr (s, [])
      else
        bindE (DoCheckOrReleaseChannel e s) (\<lambda>s.
        bindE (RetrievePrepareEncodeCtrlMsgs e s) (\<lambda>(s, routed).
        bindE (PrepareRbgAllocationMap (slot_varTtiAllocInfo (gp_currSlotAllocInfo s))) (\<lambda>m.
        bindE (FillTheEvent e (s\<lparr>gp_rbgAllocationPerSym := m\<rparr>)) (\<lambda>(s, events). Inr (s, routed @ events)))))))"

text \<open>The allocation of the slot that starts, empty if the MAC made none.\<close>

definition take_alloc :: "('x, 'p) nr_gnb_phy \<Rightarrow> sfnsf \<Rightarrow> ('x, 'p) nr_gnb_phy res" where
  "take_alloc s sfn =
     bindE (SlotAllocInfoExists (gp_phy s) sfn) (\<lambda>ex.
     if ex then
       bindE (RetrieveSlotAllocInfo (gp_phy s) sfn) (\<lambda>(a, q). Inr (s\<lparr>gp_phy := q, gp_currSlotAllocInfo := a\<rparr>))
     else Inr (s\<lparr>gp_currSlotAllocInfo := SlotAllocInfo sfn\<rparr>))"

text \<open>MIB and SIB; one symbol is added for the control allocation, whatever its length.\<close>

definition broadcast :: "'x gphy_env \<Rightarrow> ('x, 'p) nr_gnb_phy \<Rightarrow> ('x, 'p) nr_gnb_phy res" where
  "broadcast e s =
     (let sfn = gp_currentSlot s in
      if gp_isPrimary s \<and> slotNum sfn = 0 \<and> (subframeNum sfn = 0 \<or> subframeNum sfn = 5) then
        bindE (if subframeNum sfn = 0 then QueueMib e s else QueueSib e s) (\<lambda>s.
        let a = gp_currSlotAllocInfo s in
        Inr (if ContainsDlCtrlAllocation a then s
             else s\<lparr>gp_currSlotAllocInfo := a\<lparr>slot_varTtiAllocInfo := VarTtiAllocInfo (e_dlCtrlDci e) # slot_varTtiAllocInfo a,
                    slot_numSymAlloc := slot_numSymAlloc a + 1\<rparr>\<rparr>))
      else Inr s)"

definition call_and_start :: "'x gphy_env \<Rightarrow> ('x, 'p) nr_gnb_phy \<Rightarrow>
    (('x, 'p) nr_gnb_phy \<times> ('x, 'p) gnb_out list) res" where
  "call_and_start e s =
     bindE (CallMacForSlotIndication (gp_tddPattern s) (gp_tdd s) (gp_currentSlot s)) (\<lambda>calls.
     bindE (DoStartSlot e s) (\<lambda>(s, out). Inr (s, calls @ out)))"

definition uplink_ctrl_events :: "'x gphy_env \<Rightarrow> VarTtiAllocInfo list \<Rightarrow> ('x, 'p) gnb_out list" where
  "uplink_ctrl_events e allocs = concat (map (\<lambda>a.
     let d = tti_dci a; start = e_symbolPeriod e * int (unat (dci_symStart d)) in
     if dci_type d = CTRL \<and> dci_format d = UL_DCI then [ScheduleUlCtrl start d]
     else if dci_type d = SRS \<and> dci_format d = UL_DCI then [ScheduleUlSrs start d] else []) allocs)"

definition has_ul_dci :: "('x, 'p) nr_gnb_phy \<Rightarrow> bool res" where
  "has_ul_dci s =
     bindE (Add (gp_currentSlot s) (of_nat (gp_n2Delay s))) (\<lambda>ulSfn.
     if gp_n2Delay s > 0 then
       bindE (SlotAllocInfoExists (gp_phy s) ulSfn) (\<lambda>ex.
       if ex then bindE (PeekSlotAllocInfo (gp_phy s) ulSfn) (\<lambda>a.
         Inr (ContainsDataAllocation a \<or> ContainsUlCtrlAllocation a))
       else Inr False)
     else Inr False)"

text \<open>Without the channel the allocation is put back for the next slot, and the MAC is not called.\<close>

definition defer_slot :: "('x, 'p) nr_gnb_phy \<Rightarrow> ('x, 'p) nr_gnb_phy res" where
  "defer_slot s =
     (let a = gp_currSlotAllocInfo s in
      bindE (Add (slot_sfnSf a) 1) (\<lambda>newSfnSf. with_phy s (PushFrontSlotAllocInfo (gp_phy s) newSfnSf a)))"

definition gnb_StartSlot :: "'x gphy_env \<Rightarrow> ('x, 'p) nr_gnb_phy \<Rightarrow> sfnsf \<Rightarrow>
    (('x, 'p) nr_gnb_phy \<times> ('x, 'p) gnb_out list) res" where
  "gnb_StartSlot e s startSlot =
     ns_assert (gp_channelStatus s \<noteq> ChTO_LOSE)
     (bindE (take_alloc (s\<lparr>gp_currentSlot := startSlot\<rparr>) startSlot) (\<lambda>s.
      bindE (broadcast e s) (\<lambda>s.
      if gp_channelStatus s = ChGRANTED then call_and_start e s
      else
        bindE (has_ul_dci s) (\<lambda>hasUlDci.
        let a = gp_currSlotAllocInfo s in
        if ContainsDataAllocation a \<or> ContainsDlCtrlAllocation a \<or> hasUlDci then
          let s = (if gp_channelStatus s = ChNONE then s\<lparr>gp_channelStatus := e_request e\<rparr> else s) in
          if gp_channelStatus s = ChGRANTED then call_and_start e s
          else
            bindE (defer_slot s) (\<lambda>s. Inr (s, uplink_ctrl_events e (slot_varTtiAllocInfo (gp_currSlotAllocInfo s))))
        else
          bindE (CallMacForSlotIndication (gp_tddPattern s) (gp_tdd s) (gp_currentSlot s)) (\<lambda>calls.
          Inr (s, calls @ uplink_ctrl_events e (slot_varTtiAllocInfo (gp_currSlotAllocInfo s))))))))"

text \<open>The slot that starts next is the result.\<close>

definition EndSlot :: "('x, 'p) nr_gnb_phy \<Rightarrow> ('x, 'p) nr_gnb_phy res" where
  "EndSlot s =
     (let s = (if gp_channelStatus s = ChTO_LOSE then s\<lparr>gp_channelStatus := ChNONE\<rparr> else s) in
      bindE (Add (gp_currentSlot s) 1) (\<lambda>next. Inr (s\<lparr>gp_currentSlot := next\<rparr>)))"

definition StartEventLoop :: "'x gphy_env \<Rightarrow> ('x, 'p) nr_gnb_phy \<Rightarrow> u16 \<Rightarrow> u8 \<Rightarrow> u16 \<Rightarrow>
    (('x, 'p) nr_gnb_phy \<times> ('x, 'p) gnb_out list) res" where
  "StartEventLoop e s frame subframe slot =
     bindE (SfnSf (ucast frame) subframe (ucast slot) (ucast (phy_numerology (gp_phy s)))) (\<lambda>startSlot.
     gnb_StartSlot e (s\<lparr>gp_phy := InitializeMessageList (gp_phy s)\<rparr>) startSlot)"

subsection \<open>A variable TTI\<close>

text \<open>\<open>ueRntis\<close> are the RNTIs that the UEs of \<open>m_deviceMap\<close> have at that time, 0 before the random access response.\<close>

definition gnb_DlCtrl :: "'x gphy_env \<Rightarrow> ('x, 'p) nr_gnb_phy \<Rightarrow> dci \<Rightarrow> ('x, 'p) nr_gnb_phy \<times> ('x, 'p) gnb_out list" where
  "gnb_DlCtrl e s d =
     (let q = gp_phy s in
      if phy_ctrlMsgs q \<noteq> []
      then (s\<lparr>gp_phy := q\<lparr>phy_ctrlMsgs := []\<rparr>\<rparr>,
            [StartTxDlControl (phy_ctrlMsgs q) (e_symbolPeriod e * int (unat (dci_numSym d)) - 1)])
      else (s, []))"

definition dl_stream :: "'x gphy_env \<Rightarrow> dci \<Rightarrow> ('x, 'p) nr_gnb_phy \<times> ('x, 'p) gnb_out list \<Rightarrow> nat \<Rightarrow>
    (('x, 'p) nr_gnb_phy \<times> ('x, 'p) gnb_out list) res" where
  "dl_stream e d = (\<lambda>(s, out) streamIndex.
     bindE (GetPacketBurst (gp_phy s) (gp_currentSlot s) (dci_symStart d) (of_nat streamIndex)) (\<lambda>(burst, q).
     let s = s\<lparr>gp_phy := q\<rparr> in
     Inr (case burst of
            None \<Rightarrow> (s, out)
          | Some b \<Rightarrow> if b = [] then (s, out)
              else (s, out @ [SendDataChannels b (e_symbolPeriod e * int (unat (dci_numSym d)) - 2) d streamIndex]))))"

definition gnb_DlData :: "'x gphy_env \<Rightarrow> ('x, 'p) nr_gnb_phy \<Rightarrow> dci \<Rightarrow>
    (('x, 'p) nr_gnb_phy \<times> ('x, 'p) gnb_out list) res" where
  "gnb_DlData e s d = foldE (dl_stream e d) (s, []) [0..<unat (of_nat (e_streams e) :: u8)]"

definition at_0 :: "'a list \<Rightarrow> 'a res" where
  "at_0 xs = (case xs of [] \<Rightarrow> Inl OutOfRange | x # _ \<Rightarrow> Inr x)"

definition gnb_UlData :: "'x gphy_env \<Rightarrow> u64 list \<Rightarrow> ('x, 'p) nr_gnb_phy \<Rightarrow> dci \<Rightarrow> ('x, 'p) gnb_out list res" where
  "gnb_UlData e ueRntis s d =
     bindE (at_0 (dci_tbSize d)) (\<lambda>tbSize.
     bindE (if tbSize > 0 then
              bindE (at_0 (dci_ndi d)) (\<lambda>ndi. bindE (at_0 (dci_mcs d)) (\<lambda>mcs. bindE (at_0 (dci_rv d)) (\<lambda>rv.
              Inr [AddExpectedTb (dci_rnti d) ndi tbSize mcs (FromRBGBitmaskToRBAssignment (e_rbPerRbg e) (dci_rbgBitmask d))
                     (dci_harqProcess d) rv (dci_symStart d) (dci_numSym d) (gp_currentSlot s)])))
            else Inr []) (\<lambda>out.
     ns_assert (ucast (dci_rnti d) \<in> set ueRntis) (Inr out)))"

definition gnb_UlSrs :: "'x gphy_env \<Rightarrow> u64 list \<Rightarrow> dci \<Rightarrow> ('x, 'p) gnb_out list res" where
  "gnb_UlSrs e ueRntis d =
     (let found = (ucast (dci_rnti d) \<in> set ueRntis);
          notValidRntiCounter = of_nat (length (filter (\<lambda>r. r = 0) (takeWhile (\<lambda>r. r \<noteq> ucast (dci_rnti d)) ueRntis))) :: u16 in
      ns_abort_if (\<not> found \<and> notValidRntiCounter = 0)
        (Inr (replicate (e_streams e) (AddExpectedSrsRnti (dci_rnti d)))))"

definition gnb_StartVarTti :: "'x gphy_env \<Rightarrow> u64 list \<Rightarrow> ('x, 'p) nr_gnb_phy \<Rightarrow> dci \<Rightarrow>
    (('x, 'p) nr_gnb_phy \<times> ('x, 'p) gnb_out list) res" where
  "gnb_StartVarTti e ueRntis s d =
     (let s = s\<lparr>gp_currSymStart := dci_symStart d\<rparr>;
          period = e_symbolPeriod e * int (unat (dci_numSym d)) in
      bindE (case (dci_type d, dci_format d) of
               (CTRL, DL_DCI) \<Rightarrow> Inr (gnb_DlCtrl e s d)
             | (CTRL, UL_DCI) \<Rightarrow> Inr (s, [])
             | (DATA, DL_DCI) \<Rightarrow> gnb_DlData e s d
             | (DATA, UL_DCI) \<Rightarrow> bindE (gnb_UlData e ueRntis s d) (\<lambda>out. Inr (s, out))
             | (SRS, f) \<Rightarrow> ns_assert (f = UL_DCI) (bindE (gnb_UlSrs e ueRntis d) (\<lambda>out. Inr (s, out)))) (\<lambda>(s, out).
      Inr (s, out @ [EndVarTtiAfter period d])))"

subsection \<open>Channel access\<close>

text \<open>The duration until the timer expires is the second component.\<close>

definition ChannelAccessGranted :: "'x gphy_env \<Rightarrow> ('x, 'p) nr_gnb_phy \<Rightarrow> int \<Rightarrow> int \<Rightarrow>
    ('x, 'p) nr_gnb_phy \<times> int option" where
  "ChannelAccessGranted e s time toNextSlot =
     (if time < e_slotPeriod e then (s\<lparr>gp_channelStatus := ChNONE\<rparr>, None)
      else
        let slotGranted = (time - toNextSlot) div e_slotPeriod e in
        (s\<lparr>gp_channelStatus := ChGRANTED\<rparr>, Some (e_slotPeriod e * (if slotGranted < 1 then 1 else slotGranted) - 1)))"

definition ChannelAccessLost :: "('x, 'p) nr_gnb_phy \<Rightarrow> ('x, 'p) nr_gnb_phy" where
  "ChannelAccessLost s = s\<lparr>gp_channelStatus := ChNONE\<rparr>"

end
