(* ===== verification/GnbSlots.thy ===== *)
theory GnbSlots
  imports GnbPhy
begin

text \<open>
  The clock of the gNB: over any sequence of slots the MAC is asked exactly once for every uplink slot, early enough, and
  with an access manager that always grants the channel every slot that starts asks it exactly once.
\<close>

subsection \<open>Counting slots\<close>

text \<open>The counters are far from their bounds: \<open>Normalize\<close> is computed at 32 bits.\<close>

lemma Normalize_abs:
  assumes "valid_sfn p" and "abs_slot p < 2 ^ 32"
  shows "unat (Normalize p) = abs_slot p"
proof (rule Normalize_exact[OF assms(1)])
  have "unat (frameNum p) * 10 * slots_per_sf p \<le> abs_slot p" by (simp add: abs_slot_def add_mult_distrib)
  then show "unat (frameNum p) * 10 * slots_per_sf p < 2 ^ 32" using assms(2) by linarith
qed

lemma position_abs: "valid_sfn p \<Longrightarrow> abs_slot p < 2 ^ 32 \<Longrightarrow> position pattern p = abs_slot p mod length pattern"
  by (simp add: position_def Normalize_abs)

lemma Add_abs:
  assumes "valid_sfn p" and "abs_slot p + k < 2 ^ 32" and "k < 2 ^ 31"
  obtains q where "Add p (of_nat k) = Inr q" "valid_sfn q" "numerology q = numerology p" "abs_slot q = abs_slot p + k"
proof -
  have k: "unat (of_nat k :: u32) = k" using assms(3) by (simp add: unat_of_nat take_bit_nat_eq_self_iff)
  then obtain q where q: "Add p (of_nat k) = Inr q" "valid_sfn q" "numerology q = numerology p"
    "abs_slot q = (abs_slot p + k) mod (2 ^ 32 * (10 * slots_per_sf p))"
    using Add_valid[OF assms(1), of "of_nat k"] assms(3) by auto
  have "0 < slots_per_sf p" using assms(1) by (simp add: valid_sfn_def)
  then have "(2 :: nat) ^ 32 \<le> 2 ^ 32 * (10 * slots_per_sf p)" by simp
  then have "abs_slot q = abs_slot p + k" unfolding q(4) using assms(2) by (intro mod_less) linarith
  then show ?thesis using q(1-3) that by blast
qed

subsection \<open>One slot\<close>

fun ul_target :: "('x, 'p) gnb_out \<Rightarrow> (sfnsf \<times> LteNrTddSlotType) list" where
  "ul_target (SlotUlIndication sfn ty) = [(sfn, ty)]"
| "ul_target _ = []"

definition ul_targets :: "('x, 'p) gnb_out list \<Rightarrow> (sfnsf \<times> LteNrTddSlotType) list" where
  "ul_targets out = concat (map ul_target out)"

lemma ul_targets_simps [simp]:
  "ul_targets [] = []" "ul_targets (x # r) = ul_target x @ ul_targets r" "ul_targets (a @ b) = ul_targets a @ ul_targets b"
  "ul_targets (map (\<lambda>(sfn, ty). SlotUlIndication sfn ty) xs) = xs"
  "ul_targets (map (\<lambda>(sfn, ty). SlotDlIndication sfn ty) xs) = []"
  by (simp_all add: ul_targets_def) (induction xs; auto)+

text \<open>What an indication for a slot has to be.\<close>

definition good_target :: "LteNrTddSlotType list \<Rightarrow> u8 \<Rightarrow> sfnsf \<times> LteNrTddSlotType \<Rightarrow> bool" where
  "good_target pattern num = (\<lambda>(q, ty). valid_sfn q \<and> numerology q = num \<and> ty = pattern ! (abs_slot q mod length pattern))"

lemma indications_spec:
  assumes "valid_sfn p" and "\<forall>k \<in> set ks. k < 2 ^ 31 \<and> abs_slot p + k < 2 ^ 32"
  shows "\<exists>xs. indications pattern p ks = Inr xs \<and> map (\<lambda>x. abs_slot (fst x)) xs = map ((+) (abs_slot p)) ks \<and>
    (\<forall>x \<in> set xs. good_target pattern (numerology p) x)"
  using assms(2)
proof (induction ks)
  case (Cons k r)
  obtain q where q: "Add p (of_nat k) = Inr q" "valid_sfn q" "numerology q = numerology p" "abs_slot q = abs_slot p + k"
    using Add_abs[OF assms(1), of k] Cons.prems by auto
  obtain xs where xs: "indications pattern p r = Inr xs" "map (\<lambda>x. abs_slot (fst x)) xs = map ((+) (abs_slot p)) r"
    "\<forall>x \<in> set xs. good_target pattern (numerology p) x" using Cons by auto
  have "position pattern q = abs_slot q mod length pattern"
    using position_abs[OF q(2)] q(4) Cons.prems by simp
  then show ?case using q xs by (simp add: good_target_def)
qed simp

text \<open>The delays of the tables are short.\<close>

lemma delays_short:
  assumes "SetTddPattern pattern n2 n1 latency = Some t" and "\<exists>v \<in> set pattern. v \<noteq> SlotS" 
    and "k \<in> set (delays_at (generateUl t) p)"
  shows "k < n2 + latency + length pattern"
proof -
  obtain t' where "SetTddPattern pattern n2 n1 latency = Some t'"
    "\<forall>p. delays_at (generateUl t') p = sort (map (\<lambda>i. snd (dci_of (generation_pattern pattern) n2 i) + latency)
         (filter (\<lambda>i. has_uplink (pattern ! i) \<and> gen_pos (generation_pattern pattern) n2 latency i = p) [0..<length pattern]))"
    using SetTddPattern_tables[OF assms(2)] by blast
  then have "k \<in> set (map (\<lambda>i. snd (dci_of (generation_pattern pattern) n2 i) + latency) [0..<length pattern])"
    using assms(1,3) by auto
  then show ?thesis using request_delay_bounds(2)[OF assms(2), of _ n2 latency] by (auto simp: request_delay_def)
qed


lemma dl_delays_short:
  assumes "SetTddPattern pattern n2 n1 latency = Some t" and "\<exists>v \<in> set pattern. v \<noteq> SlotS"
    and "k \<in> set (delays_at (generateDl t) p)"
  shows "k < latency + length pattern"
proof -
  let ?gp = "generation_pattern pattern"
  note two = two_way_generation[OF assms(2)]
  obtain u where u: "gen_loop (gen_position pattern ?gp 0 n2 n1 latency) [0..<length pattern] start_tables = Some u"
    "filled pattern ?gp 0 n2 n1 latency start_tables [0..<length pattern] u"
    using gen_loop_filled[OF two, of "[0..<length pattern]" start_tables pattern 0 n2 n1 latency] by (auto simp: start_tables_def)
  have t: "generateDl t = sort_delays (generateDl u) \<or> generateDl t = sort_delays []"
    using assms(1) u(1) by (auto simp: SetTddPattern_def GenerateStructuresFromPattern_def start_tables_def Let_def split: if_splits)
  have "k \<in> set (delays_at (generateDl u) p)"
    using t assms(3) by (auto simp: delays_at_sort) (simp add: delays_at_def)
  moreover have "delays_at (generateDl start_tables) p = []" by (simp add: start_tables_def delays_at_def)
  ultimately obtain i where "i < length pattern" "k = snd (dci_of ?gp 0 i) + latency"
    using u(2) by (auto simp: filled_def)
  then show ?thesis using dci_of(3)[OF two, of i 0] by simp
qed

definition horizon :: "LteNrTddSlotType list \<Rightarrow> nat \<Rightarrow> nat \<Rightarrow> nat" where
  "horizon pattern n2 latency = n2 + latency + length pattern"

lemma some_uplink:
  assumes "SetTddPattern pattern n2 n1 latency = Some t" and "HasUlSlot pattern"
  shows "generateUl t \<noteq> []"
proof -
  obtain i where i: "i < length pattern" "has_uplink (pattern ! i)"
    using assms(2) by (auto simp: HasUlSlot_iff has_uplink_def in_set_conv_nth)
  have v: "\<exists>v \<in> set pattern. v \<noteq> SlotS" using assms(2) by (auto simp: HasUlSlot_iff)
  let ?d = "request_delay pattern n2 latency i" and ?n = "length pattern"
  let ?s = "i + ?d * ?n - ?d"
  have "?d \<le> ?d * ?n" using i(1) by simp
  then have "?d \<le> i + ?d * ?n" by linarith
  then have s: "?s + ?d = i + ?d * ?n" by (rule le_add_diff_inverse2)
  have "(?s + ?d) mod ?n = i" unfolding s using i(1) by simp
  then have "count_list (map ((+) ?s) (delays_at (generateUl t) (?s mod ?n))) (?s + ?d) = 1"
    using requests_in_slot[OF assms(1) v, of ?s "?s + ?d"] i(2) by simp
  then show ?thesis by (auto simp: delays_at_def)
qed

text \<open>The call of the MAC in slot \<open>p\<close>.\<close>

lemma CallMac_spec:
  assumes "SetTddPattern pattern n2 n1 latency = Some t" and "HasUlSlot pattern"
    and "valid_sfn p" and "abs_slot p + horizon pattern n2 latency < 2 ^ 31"
  shows "\<exists>out. CallMacForSlotIndication pattern t p = Inr out \<and>
    (\<forall>x \<in> set (ul_targets out). good_target pattern (numerology p) x) \<and>
    (\<forall>T. count_list (map (\<lambda>x. abs_slot (fst x)) (ul_targets out)) T =
      (if has_uplink (pattern ! (T mod length pattern)) \<and>
          abs_slot p + request_delay pattern n2 latency (T mod length pattern) = T then 1 else 0))"
proof -
  have v: "\<exists>v \<in> set pattern. v \<noteq> SlotS" using assms(2) by (auto simp: HasUlSlot_iff)
  let ?pos = "position pattern p"
  have pos: "?pos = abs_slot p mod length pattern" by (rule position_abs[OF assms(3)]) (use assms(4) in simp)
  have "\<forall>k \<in> set (delays_at (generateUl t) ?pos). k < 2 ^ 31 \<and> abs_slot p + k < 2 ^ 32"
    using delays_short[OF assms(1) v, of _ ?pos] assms(4) by (fastforce simp: horizon_def)
  from indications_spec[OF assms(3) this] obtain ul where ul: "indications pattern p (delays_at (generateUl t) ?pos) = Inr ul"
    "map (\<lambda>x. abs_slot (fst x)) ul = map ((+) (abs_slot p)) (delays_at (generateUl t) ?pos)"
    "\<forall>x \<in> set ul. good_target pattern (numerology p) x" by blast
  have "\<forall>k \<in> set (delays_at (generateDl t) ?pos). k < 2 ^ 31 \<and> abs_slot p + k < 2 ^ 32"
    using dl_delays_short[OF assms(1) v, of _ ?pos] assms(4) by (fastforce simp: horizon_def)
  from indications_spec[OF assms(3) this] obtain dl where dl: "indications pattern p (delays_at (generateDl t) ?pos) = Inr dl"
    by blast
  let ?out = "SetCurrentSfn p # map (\<lambda>(sfn, ty). SlotUlIndication sfn ty) ul @ map (\<lambda>(sfn, ty). SlotDlIndication sfn ty) dl"
  have "CallMacForSlotIndication pattern t p = Inr ?out"
    using some_uplink[OF assms(1,2)] ul(1) dl by (simp add: CallMacForSlotIndication_def)
  then show ?thesis
    using ul(2,3) requests_in_slot[OF assms(1) v, of "abs_slot p"] unfolding pos by (intro exI[of _ ?out]) simp
qed

subsection \<open>A sequence of slots\<close>

text \<open>The calls of \<open>n\<close> slots from \<open>sfn\<close> on.\<close>

fun slot_calls :: "LteNrTddSlotType list \<Rightarrow> tdd \<Rightarrow> sfnsf \<Rightarrow> nat \<Rightarrow> ('x, 'p) gnb_out list res" where
  "slot_calls pattern t sfn 0 = Inr []"
| "slot_calls pattern t sfn (Suc n) =
     bindE (CallMacForSlotIndication pattern t sfn) (\<lambda>out.
     bindE (Add sfn 1) (\<lambda>next. bindE (slot_calls pattern t next n) (\<lambda>r. Inr (out @ r))))"

lemma slot_calls_spec:
  assumes "SetTddPattern pattern n2 n1 latency = Some t" and "HasUlSlot pattern"
    and "valid_sfn p" and "abs_slot p + n + horizon pattern n2 latency < 2 ^ 31"
  shows "\<exists>out :: ('x, 'p) gnb_out list. slot_calls pattern t p n = Inr out \<and>
    (\<forall>x \<in> set (ul_targets out). good_target pattern (numerology p) x) \<and>
    (\<forall>T. count_list (map (\<lambda>x. abs_slot (fst x)) (ul_targets out)) T =
      (let d = request_delay pattern n2 latency (T mod length pattern) in
       if has_uplink (pattern ! (T mod length pattern)) \<and> abs_slot p + d \<le> T \<and> T < abs_slot p + d + n then 1 else 0))"
  using assms(3,4)
proof (induction n arbitrary: p)
  case (Suc n)
  obtain out :: "('x, 'p) gnb_out list" where out: "CallMacForSlotIndication pattern t p = Inr out"
    "\<forall>x \<in> set (ul_targets out). good_target pattern (numerology p) x"
    "\<And>T. count_list (map (\<lambda>x. abs_slot (fst x)) (ul_targets out)) T =
      (if has_uplink (pattern ! (T mod length pattern)) \<and>
          abs_slot p + request_delay pattern n2 latency (T mod length pattern) = T then 1 else 0)"
    using CallMac_spec[OF assms(1,2) Suc.prems(1)] Suc.prems(2) by fastforce
  obtain q where q: "Add p 1 = Inr q" "valid_sfn q" "numerology q = numerology p" "abs_slot q = abs_slot p + 1"
    using Add_abs[OF Suc.prems(1), of 1] Suc.prems(2) by auto
  have b: "abs_slot q + n + horizon pattern n2 latency < 2 ^ 31" using Suc.prems(2) q(4) by simp
  obtain r :: "('x, 'p) gnb_out list" where r: "slot_calls pattern t q n = Inr r"
    "\<forall>x \<in> set (ul_targets r). good_target pattern (numerology q) x"
    "\<And>T. count_list (map (\<lambda>x. abs_slot (fst x)) (ul_targets r)) T =
      (let d = request_delay pattern n2 latency (T mod length pattern) in
       if has_uplink (pattern ! (T mod length pattern)) \<and> abs_slot q + d \<le> T \<and> T < abs_slot q + d + n then 1 else 0)"
    using Suc.IH[OF q(2) b] by blast
  show ?case
  proof (intro exI[of _ "out @ r"] conjI allI)
    show "slot_calls pattern t p (Suc n) = Inr (out @ r)" using out(1) q(1) r(1) by simp
    show "\<forall>x \<in> set (ul_targets (out @ r)). good_target pattern (numerology p) x" using out(2) r(2) q(3) by auto
  next
    fix T
    show "count_list (map (\<lambda>x. abs_slot (fst x)) (ul_targets (out @ r))) T =
      (let d = request_delay pattern n2 latency (T mod length pattern) in
       if has_uplink (pattern ! (T mod length pattern)) \<and> abs_slot p + d \<le> T \<and> T < abs_slot p + d + Suc n then 1 else 0)"
      using out(3)[of T] r(3)[of T] q(4) by (auto simp: count_list_append Let_def split: if_splits)
  qed
qed (simp add: Let_def)


lemma count_targets:
  assumes "\<forall>x \<in> set xs. good_target pattern num x" and "valid_sfn sfn" and "numerology sfn = num"
  shows "count_list (map fst xs) sfn = count_list (map (\<lambda>x. abs_slot (fst x)) xs) (abs_slot sfn)"
  using assms(1)
proof (induction xs)
  case (Cons x r)
  then have "abs_slot (fst x) = abs_slot sfn \<longleftrightarrow> fst x = sfn"
    using assms(2,3) abs_slot_inj[of sfn "fst x"] by (auto simp: good_target_def)
  then show ?case using Cons by auto
qed simp

text \<open>
  C10. The slot clock of the gNB (\<open>SetTddPattern\<close>, \<open>CallMacForSlotIndication\<close>, \<open>SfnSf::Add\<close>). For every pattern with an
  uplink slot the tables are computed in finite time, and then, over any \<open>n\<close> slots from any valid slot on, the MAC is asked
  exactly once for each uplink slot that lies between the longest delay after the first and the shortest delay after the last of them; every slot it is asked for is an
  uplink slot, named with its type in the pattern, and at least \<open>N2\<close> and the latency of the control channel ahead.
\<close>

theorem uplink_slots_asked_once:
  assumes "HasUlSlot pattern" and "valid_sfn start" and "abs_slot start + n + horizon pattern n2 latency < 2 ^ 31"
  shows "\<exists>t (out :: ('x, 'p) gnb_out list). SetTddPattern pattern n2 n1 latency = Some t \<and> slot_calls pattern t start n = Inr out \<and>
    (\<forall>sfn. valid_sfn sfn \<and> numerology sfn = numerology start \<and> has_uplink (pattern ! (abs_slot sfn mod length pattern)) \<and>
      abs_slot start + horizon pattern n2 latency \<le> abs_slot sfn \<and> abs_slot sfn < abs_slot start + n + n2 + latency \<longrightarrow>
      count_list (map fst (ul_targets out)) sfn = 1) \<and>
    (\<forall>(sfn, ty) \<in> set (ul_targets out). valid_sfn sfn \<and> numerology sfn = numerology start \<and> has_uplink ty \<and>
      ty = pattern ! (abs_slot sfn mod length pattern) \<and> abs_slot start + n2 + latency \<le> abs_slot sfn \<and>
      count_list (map fst (ul_targets out)) sfn = 1)"
proof -
  have v: "\<exists>v \<in> set pattern. v \<noteq> SlotS" using assms(1) by (auto simp: HasUlSlot_iff)
  then have l: "0 < length pattern" by auto
  obtain t where t: "SetTddPattern pattern n2 n1 latency = Some t" using SetTddPattern_tables[OF v] by blast
  obtain out :: "('x, 'p) gnb_out list" where out: "slot_calls pattern t start n = Inr out"
    "\<forall>x \<in> set (ul_targets out). good_target pattern (numerology start) x"
    "\<And>T. count_list (map (\<lambda>x. abs_slot (fst x)) (ul_targets out)) T =
      (let d = request_delay pattern n2 latency (T mod length pattern) in
       if has_uplink (pattern ! (T mod length pattern)) \<and> abs_slot start + d \<le> T \<and> T < abs_slot start + d + n then 1 else 0)"
    using slot_calls_spec[OF t assms] by blast
  note cnt = count_targets[OF out(2)]
  have d: "n2 + latency \<le> request_delay pattern n2 latency (T mod length pattern)"
    "request_delay pattern n2 latency (T mod length pattern) < horizon pattern n2 latency" for T
    using request_delay_bounds[OF v, of "T mod length pattern" n2 latency] l by (simp_all add: horizon_def)
  have once: "count_list (map fst (ul_targets out)) sfn = 1"
    if "valid_sfn sfn" "numerology sfn = numerology start" "has_uplink (pattern ! (abs_slot sfn mod length pattern))"
      "abs_slot start + horizon pattern n2 latency \<le> abs_slot sfn" "abs_slot sfn < abs_slot start + n + n2 + latency" for sfn
    using cnt[OF that(1,2)] out(3)[of "abs_slot sfn"] that(3-5) d[of "abs_slot sfn"] by (simp add: Let_def)
  have all: "valid_sfn sfn \<and> numerology sfn = numerology start \<and> has_uplink ty \<and>
      ty = pattern ! (abs_slot sfn mod length pattern) \<and> abs_slot start + n2 + latency \<le> abs_slot sfn \<and>
      count_list (map fst (ul_targets out)) sfn = 1" if x: "(sfn, ty) \<in> set (ul_targets out)" for sfn ty
  proof -
    have g: "valid_sfn sfn" "numerology sfn = numerology start" "ty = pattern ! (abs_slot sfn mod length pattern)"
      using out(2) x by (auto simp: good_target_def)
    have "sfn \<in> set (map fst (ul_targets out))" using x by force
    then have "count_list (map fst (ul_targets out)) sfn \<noteq> 0" by (simp only: count_list_0_iff not_not)
    then show ?thesis using g cnt[OF g(1,2)] out(3)[of "abs_slot sfn"] d[of "abs_slot sfn"] by (auto simp: Let_def split: if_splits)
  qed
  show ?thesis
  proof (rule exI[of _ t], rule exI[of _ out], intro conjI)
    show "SetTddPattern pattern n2 n1 latency = Some t" "slot_calls pattern t start n = Inr out" by (rule t, rule out(1))
  qed (use once all in blast)+
qed

text \<open>A pattern of five slots, 40 slots of numerology 1.\<close>

lemma uplink_slots_asked_once_witness:
  "\<exists>t (out :: (nat, nat) gnb_out list). SetTddPattern [SlotDL, SlotDL, SlotS, SlotUL, SlotUL] 2 4 2 = Some t \<and>
     slot_calls [SlotDL, SlotDL, SlotS, SlotUL, SlotUL] t \<lparr>frameNum = 0, subframeNum = 0, slotNum = 0, numerology = 1\<rparr> 40 = Inr out \<and>
     count_list (map fst (ul_targets out)) \<lparr>frameNum = 0, subframeNum = 9, slotNum = 1, numerology = 1\<rparr> = 1"
proof -
  let ?p = "[SlotDL, SlotDL, SlotS, SlotUL, SlotUL]" and ?s = "\<lparr>frameNum = 0, subframeNum = 0, slotNum = 0, numerology = 1\<rparr>"
    and ?f = "\<lparr>frameNum = 0, subframeNum = 9, slotNum = 1, numerology = 1\<rparr>"
  have f: "valid_sfn ?f" "abs_slot ?f = 19" "has_uplink (?p ! (abs_slot ?f mod length ?p))"
    by (simp_all add: valid_sfn_def slots_per_sf_def abs_slot_def has_uplink_def)
  have s: "HasUlSlot ?p" "valid_sfn ?s" "abs_slot ?s + 40 + horizon ?p 2 2 < 2 ^ 31" "abs_slot ?s = 0"
    by (simp_all add: valid_sfn_def slots_per_sf_def abs_slot_def horizon_def)
  obtain t and out :: "(nat, nat) gnb_out list" where o: "SetTddPattern ?p 2 4 2 = Some t" "slot_calls ?p t ?s 40 = Inr out"
    "\<forall>sfn. valid_sfn sfn \<and> numerology sfn = numerology ?s \<and> has_uplink (?p ! (abs_slot sfn mod length ?p)) \<and>
      abs_slot ?s + horizon ?p 2 2 \<le> abs_slot sfn \<and> abs_slot sfn < abs_slot ?s + 40 + 2 + 2 \<longrightarrow>
      count_list (map fst (ul_targets out)) sfn = 1"
    using uplink_slots_asked_once[OF s(1-3), of 4] by blast
  have "count_list (map fst (ul_targets out)) ?f = 1"
    by (rule o(3)[rule_format]) (use f s(4) in \<open>simp add: horizon_def\<close>)
  then show ?thesis using o(1,2) by blast
qed

end
