(* ===== verification/GnbGrants.thy ===== *)
theory GnbGrants
  imports GnbSlots
begin

text \<open>
  The other half of the slot clock: the control information of an allocation is sent, with the delay that names its slot,
  and a slot that starts asks the MAC once.
\<close>

subsection \<open>Sending the grants\<close>

definition dci_fits :: "'x gphy_env \<Rightarrow> SlotAllocInfo \<Rightarrow> bool" where
  "dci_fits e a \<longleftrightarrow> (\<forall>x \<in> set (slot_varTtiAllocInfo a).
     unat (dci_symStart (tti_dci x)) + unat (dci_numSym (tti_dci x)) \<le> unat (e_symPerSlot e))"

definition ctrl_msg :: "'x gphy_env \<Rightarrow> DciFormat \<Rightarrow> nat \<Rightarrow> nat \<Rightarrow> dci \<Rightarrow> 'x ctrl_msg" where
  "ctrl_msg e format k k1 d =
     (if format = DL_DCI then NrDlDciMessage d (e_bwpId e) k k1 else NrUlDciMessage d (e_bwpId e) k)"

definition dcis_of :: "DciFormat \<Rightarrow> SlotAllocInfo \<Rightarrow> dci list" where
  "dcis_of format a = filter (\<lambda>d. dci_type d \<noteq> CTRL \<and> dci_format d = format) (map tti_dci (slot_varTtiAllocInfo a))"

lemma RetrieveDci_spec:
  assumes "dci_fits e a"
  shows "RetrieveDciFromAllocation e (slot_varTtiAllocInfo a) format k k1 = Inr (map (ctrl_msg e format k k1) (dcis_of format a))"
proof -
  have "RetrieveDciFromAllocation e xs format k k1 = Inr (map (ctrl_msg e format k k1)
      (filter (\<lambda>d. dci_type d \<noteq> CTRL \<and> dci_format d = format) (map tti_dci xs)))"
    if "\<forall>x \<in> set xs. unat (dci_symStart (tti_dci x)) + unat (dci_numSym (tti_dci x)) \<le> unat (e_symPerSlot e)" for xs
    using that by (induction xs) (auto simp: ctrl_msg_def)
  then show ?thesis using assms by (simp add: dci_fits_def dcis_of_def)
qed

text \<open>The allocation of a slot as the PHY sees it in slot \<open>p\<close>.\<close>

definition seen_alloc :: "('x, 'p) nr_gnb_phy \<Rightarrow> sfnsf \<Rightarrow> sfnsf \<Rightarrow> SlotAllocInfo option" where
  "seen_alloc s p q = (if q = p then Some (gp_currSlotAllocInfo s) else alloc_of (gp_phy s) q)"

text \<open>What holds of the state when the messages of slot \<open>p\<close> are collected.\<close>

definition sending :: "'x gphy_env \<Rightarrow> ('x, 'p) nr_gnb_phy \<Rightarrow> sfnsf \<Rightarrow> bool" where
  "sending e s p \<longleftrightarrow> (\<forall>a b. set (e_merge e a b) = set a \<union> set b) \<and> slots_ok (gp_phy s) \<and> own_slot (gp_phy s) p \<and> valid_sfn p \<and>
     dci_fits e (gp_currSlotAllocInfo s) \<and> (\<forall>a \<in> set (phy_slotAllocInfo (gp_phy s)). dci_fits e a)"

lemma alloc_of_in: "alloc_of q sfn = Some a \<Longrightarrow> a \<in> set (phy_slotAllocInfo q)"
  by (auto simp: alloc_of_def dest: map_of_SomeD)

lemma msgs_for_spec:
  assumes "sending e s p" and "abs_slot p + k < 2 ^ 31"
  shows "\<exists>ms'. msgs_for e s p format k1 ms k = Inr ms' \<and> set ms \<subseteq> set ms' \<and>
    (\<forall>q a. valid_sfn q \<and> numerology q = numerology p \<and> abs_slot q = abs_slot p + k \<and> seen_alloc s p q = Some a \<longrightarrow>
       ctrl_msg e format k k1 ` set (dcis_of format a) \<subseteq> set ms')"
proof -
  obtain q where q: "Add p (of_nat k) = Inr q" "valid_sfn q" "numerology q = numerology p" "abs_slot q = abs_slot p + k"
    using Add_abs[of p k] assms by (auto simp: sending_def)
  have own: "own_slot (gp_phy s) q" using q(3) assms(1) by (simp add: own_slot_def sending_def)
  have merge: "set (e_merge e a b) = set a \<union> set b" for a b using assms(1) by (simp add: sending_def)
  have uniq: "q' = q" if "valid_sfn q'" "numerology q' = numerology p" "abs_slot q' = abs_slot p + k" for q'
    using abs_slot_inj[OF q(2) that(1)] that q by simp
  have eq: "sfn_eq q p = Inr (q = p)" by (rule sfn_eq_own[OF q(3)])
  show ?thesis
  proof (cases "seen_alloc s p q")
    case None
    then have "msgs_for e s p format k1 ms k = Inr ms"
      using q(1) eq own assms(1) by (auto simp: msgs_for_def seen_alloc_def exists_own sending_def split: if_splits)
    then show ?thesis using None uniq by auto
  next
    case (Some a)
    have fits: "dci_fits e a"
      using Some assms(1) by (auto simp: seen_alloc_def sending_def dest: alloc_of_in split: if_splits)
    have "msgs_for e s p format k1 ms k = Inr (e_merge e ms (map (ctrl_msg e format k k1) (dcis_of format a)))"
      using q(1) eq own assms(1) Some fits RetrieveDci_spec[OF fits]
      by (auto simp: msgs_for_def seen_alloc_def exists_own peek_own sending_def split: if_splits)
    then show ?thesis using Some uniq merge by auto
  qed
qed

lemma msgs_fold:
  assumes "sending e s p" and "\<forall>k \<in> set ks. abs_slot p + k < 2 ^ 31"
  shows "\<exists>ms'. foldE (msgs_for e s p format k1) ms ks = Inr ms' \<and> set ms \<subseteq> set ms' \<and>
    (\<forall>k \<in> set ks. \<forall>q a. valid_sfn q \<and> numerology q = numerology p \<and> abs_slot q = abs_slot p + k \<and> seen_alloc s p q = Some a \<longrightarrow>
       ctrl_msg e format k k1 ` set (dcis_of format a) \<subseteq> set ms')"
  using assms(2)
proof (induction ks arbitrary: ms)
  case (Cons k r)
  obtain m1 where m1: "msgs_for e s p format k1 ms k = Inr m1" "set ms \<subseteq> set m1"
    "\<forall>q a. valid_sfn q \<and> numerology q = numerology p \<and> abs_slot q = abs_slot p + k \<and> seen_alloc s p q = Some a \<longrightarrow>
       ctrl_msg e format k k1 ` set (dcis_of format a) \<subseteq> set m1"
    using msgs_for_spec[OF assms(1), of k format k1 ms] Cons.prems by auto
  obtain m2 where m2: "foldE (msgs_for e s p format k1) m1 r = Inr m2" "set m1 \<subseteq> set m2"
    "\<forall>k \<in> set r. \<forall>q a. valid_sfn q \<and> numerology q = numerology p \<and> abs_slot q = abs_slot p + k \<and> seen_alloc s p q = Some a \<longrightarrow>
       ctrl_msg e format k k1 ` set (dcis_of format a) \<subseteq> set m2"
    using Cons.IH[of m1] Cons.prems by auto
  show ?case
    by (rule exI[of _ m2]) (use m1 m2 in \<open>simp; blast\<close>)
qed simp


lemma send_delays_short:
  assumes "SetTddPattern pattern n2 n1 latency = Some t" and "\<exists>v \<in> set pattern. v \<noteq> SlotS"
  shows "k \<in> set (delays_at (toSendDl t) p) \<Longrightarrow> k < length pattern" "k \<in> set (delays_at (toSendUl t) p) \<Longrightarrow> k < n2 + length pattern"
proof -
  let ?gp = "generation_pattern pattern"
  note two = two_way_generation[OF assms(2)]
  obtain u where u: "gen_loop (gen_position pattern ?gp 0 n2 n1 latency) [0..<length pattern] start_tables = Some u"
    "filled pattern ?gp 0 n2 n1 latency start_tables [0..<length pattern] u"
    using gen_loop_filled[OF two, of "[0..<length pattern]" start_tables pattern 0 n2 n1 latency] by (auto simp: start_tables_def)
  have t: "toSendDl t = toSendDl u" "toSendUl t = toSendUl u"
    using assms(1) u(1) by (auto simp: SetTddPattern_def GenerateStructuresFromPattern_def start_tables_def Let_def split: if_splits)
  have start: "delays_at (toSendDl start_tables) p = []" "delays_at (toSendUl start_tables) p = []"
    by (simp_all add: start_tables_def delays_at_def)
  show "k < length pattern" if "k \<in> set (delays_at (toSendDl t) p)"
    using that u(2) start t dci_of(3)[OF two, of _ 0] by (auto simp: filled_def)
  show "k < n2 + length pattern" if "k \<in> set (delays_at (toSendUl t) p)"
    using that u(2) start t dci_of(3)[OF two, of _ n2] by (auto simp: filled_def)
qed

text \<open>The messages of a slot that can carry control information, and the grants among them.\<close>

lemma uplink_dcis_sent:
  assumes "SetTddPattern (gp_tddPattern s) n2 n1 latency = Some (gp_tdd s)" and "HasUlSlot (gp_tddPattern s)"
    and "sending e s p" and "abs_slot p + horizon (gp_tddPattern s) n2 latency < 2 ^ 31"
    and "valid_sfn q" and "numerology q = numerology p" and "has_uplink (gp_tddPattern s ! (abs_slot q mod length (gp_tddPattern s)))"
    and "abs_slot p + request_delay (gp_tddPattern s) n2 latency (abs_slot q mod length (gp_tddPattern s)) = abs_slot q + latency"
    and "seen_alloc s p q = Some a"
  shows "\<exists>ms. RetrieveMsgsFromDCIs e s p = Inr ms \<and>
    (\<forall>d \<in> set (dcis_of UL_DCI a). \<exists>k \<ge> n2. NrUlDciMessage d (e_bwpId e) k \<in> set ms \<and> Add p (of_nat k) = Inr q) \<and>
    (IsTdd (gp_tddPattern s) \<longrightarrow> gp_tddPattern s ! (abs_slot p mod length (gp_tddPattern s)) \<noteq> SlotUL)"
proof -
  let ?pt = "gp_tddPattern s" and ?n = "length (gp_tddPattern s)" and ?t = "gp_tdd s" and ?gp = "generation_pattern (gp_tddPattern s)"
  let ?i = "abs_slot q mod ?n" and ?pos = "position ?pt p"
  let ?k = "snd (dci_of ?gp n2 ?i)"
  have v: "\<exists>v \<in> set ?pt. v \<noteq> SlotS" using assms(2) by (auto simp: HasUlSlot_iff)
  then have n: "0 < ?n" by auto
  note two = two_way_generation[OF v]
  have pv: "valid_sfn p" using assms(3) by (simp add: sending_def)
  have pos: "?pos = abs_slot p mod ?n" by (rule position_abs[OF pv]) (use assms(4) in simp)
  have k: "abs_slot p + ?k = abs_slot q" using assms(8) by (simp add: request_delay_def)
  have kn: "n2 \<le> ?k" "?k < n2 + ?n" using dci_of(2,3)[OF two, of ?i n2] n by simp_all
  have i: "?i < ?n" using n by simp
  have "(?pos + ?k) mod ?n = ?i" unfolding pos using k by (simp add: mod_simps)
  then have fst: "fst (dci_of ?gp n2 ?i) = ?pos"
    using dci_of(4)[OF two, of ?i n2] modulo_sub_iff[OF n _ i, of ?pos ?k] n pos by simp
  have ul: "ul_at ?pt ?gp ?i" using ul_at_iff[OF i] assms(2,7) by simp
  have mem: "?k \<in> set (delays_at (toSendUl ?t) ?pos)"
    using SetTddPattern_tables[OF v, of n2 n1 latency] assms(1) fst ul i by auto
  have short: "\<forall>k \<in> set (delays_at (toSendDl ?t) ?pos). abs_slot p + k < 2 ^ 31" "\<forall>k \<in> set (delays_at (toSendUl ?t) ?pos). abs_slot p + k < 2 ^ 31"
    using send_delays_short[OF assms(1) v, of _ ?pos] assms(4) by (fastforce simp: horizon_def)+
  let ?k1 = "case map_of (dlHarqfbPosition ?t) ?pos of None \<Rightarrow> 0 | Some k \<Rightarrow> k"
  obtain m1 where m1: "foldE (msgs_for e s p DL_DCI ?k1) [] (delays_at (toSendDl ?t) ?pos) = Inr m1"
    using msgs_fold[OF assms(3) short(1), of DL_DCI ?k1 "[]"] by blast
  obtain ms where ms: "foldE (msgs_for e s p UL_DCI ?k1) m1 (delays_at (toSendUl ?t) ?pos) = Inr ms"
    "\<forall>k \<in> set (delays_at (toSendUl ?t) ?pos). \<forall>q a. valid_sfn q \<and> numerology q = numerology p \<and> abs_slot q = abs_slot p + k \<and>
       seen_alloc s p q = Some a \<longrightarrow> ctrl_msg e UL_DCI k ?k1 ` set (dcis_of UL_DCI a) \<subseteq> set ms"
    using msgs_fold[OF assms(3) short(2), of UL_DCI ?k1 m1] by blast
  have all: "ctrl_msg e UL_DCI ?k ?k1 ` set (dcis_of UL_DCI a) \<subseteq> set ms"
    using ms(2)[rule_format, OF mem, of q a] assms(5,6,9) k by simp
  have add: "Add p (of_nat ?k) = Inr q"
    using Add_abs[OF pv, of ?k] k kn assms(4,5,6) abs_slot_inj[of q] by (force simp: horizon_def)
  have "RetrieveMsgsFromDCIs e s p = Inr ms" using m1 ms(1) by (simp add: RetrieveMsgsFromDCIs_def Let_def)
  moreover have "\<forall>d \<in> set (dcis_of UL_DCI a). \<exists>k \<ge> n2. NrUlDciMessage d (e_bwpId e) k \<in> set ms \<and> Add p (of_nat k) = Inr q"
    using all add kn(1) by (auto simp: ctrl_msg_def)
  moreover have "IsTdd ?pt \<longrightarrow> ?pt ! (abs_slot p mod ?n) \<noteq> SlotUL"
    using dci_of(5)[OF two, of ?i n2] n fst pos by (auto simp: generation_pattern_def)
  ultimately show ?thesis by blast
qed

text \<open>
  C11. Uplink grants go out in time (\<open>RetrieveMsgsFromDCIs\<close>, \<open>RetrieveDciFromAllocation\<close>). Let \<open>q\<close> be an uplink slot, and
  \<open>p\<close> the slot that lies the latency of the control channel after the one in which the MAC was asked for \<open>q\<close>. Collecting the
  messages of \<open>p\<close> does not fail, and for every uplink DCI of the allocation of \<open>q\<close>, for data or sounding, they contain a
  message with a delay of at least \<open>N2\<close> that, added to \<open>p\<close> as its receiver does, gives \<open>q\<close>; in a TDD pattern \<open>p\<close> can carry
  downlink control information.
\<close>

theorem uplink_grant_sent_in_time:
  assumes "SetTddPattern (gp_tddPattern s) n2 n1 latency = Some (gp_tdd s)" and "HasUlSlot (gp_tddPattern s)"
    and "sending e s p" and "abs_slot p + horizon (gp_tddPattern s) n2 latency < 2 ^ 31"
    and "valid_sfn q" and "numerology q = numerology p" and "has_uplink (gp_tddPattern s ! (abs_slot q mod length (gp_tddPattern s)))"
    and "abs_slot p + request_delay (gp_tddPattern s) n2 latency (abs_slot q mod length (gp_tddPattern s)) = abs_slot q + latency"
    and "seen_alloc s p q = Some a"
  shows "\<exists>ms. RetrieveMsgsFromDCIs e s p = Inr ms \<and>
    (\<forall>d \<in> set (dcis_of UL_DCI a). \<exists>k \<ge> n2. NrUlDciMessage d (e_bwpId e) k \<in> set ms \<and> Add p (of_nat k) = Inr q) \<and>
    (IsTdd (gp_tddPattern s) \<longrightarrow> gp_tddPattern s ! (abs_slot p mod length (gp_tddPattern s)) \<noteq> SlotUL)"
  by (rule uplink_dcis_sent[OF assms])


text \<open>A grant for slot 3 of the pattern, sent in slot 1.\<close>

definition demo_grant :: dci where
  "demo_grant = Dci_data 7 UL_DCI 2 10 [10] [500] [1] [0] DATA 0 1"

definition demo_gphy :: "tdd \<Rightarrow> ('x, 'p) nr_gnb_phy" where
  "demo_gphy t = \<lparr>gp_phy = \<lparr>phy_numerology = 1,
       phy_slotAllocInfo = [\<lparr>slot_sfnSf = \<lparr>frameNum = 0, subframeNum = 1, slotNum = 1, numerology = 1\<rparr>, slot_numSymAlloc = 10,
         slot_varTtiAllocInfo = [VarTtiAllocInfo demo_grant], slot_type = UL\<rparr>],
       phy_controlMessageQueue = [], phy_packetBurstMap = [], phy_ctrlMsgs = []\<rparr>,
     gp_tddPattern = [SlotDL, SlotDL, SlotS, SlotUL, SlotUL], gp_tdd = t, gp_n0Delay = 0, gp_n1Delay = 4, gp_n2Delay = 2,
     gp_currentSlot = \<lparr>frameNum = 0, subframeNum = 0, slotNum = 1, numerology = 1\<rparr>,
     gp_currSlotAllocInfo = SlotAllocInfo \<lparr>frameNum = 0, subframeNum = 0, slotNum = 1, numerology = 1\<rparr>,
     gp_channelStatus = ChGRANTED, gp_isPrimary = True, gp_rbgAllocationPerSym = [], gp_currSymStart = 0, gp_ueAttached = [],
     gp_ueAttachedRnti = []\<rparr>"

definition demo_genv :: "'x gphy_env" where
  "demo_genv = \<lparr>e_bwpId = 0, e_symPerSlot = 14, e_rbPerRbg = 4, e_bandwidth = 20000000, e_slotPeriod = 500000,
     e_symbolPeriod = 35714, e_streams = 1, e_dlCtrlDci = Dci_ctrl 0 1 DL_DCI CTRL [], e_ulCtrlDci = Dci_ctrl 13 1 UL_DCI CTRL [],
     e_request = ChGRANTED, e_merge = (@), e_route = (\<lambda>_. 0), e_sortDeque = (\<lambda>x. x)\<rparr>"

lemma demo_delay: "request_delay [SlotDL, SlotDL, SlotS, SlotUL, SlotUL] 2 2 3 = 4"
proof -
  let ?p = "[SlotDL, SlotDL, SlotS, SlotUL, SlotUL]"
  have "IsTdd ?p" by (simp add: IsTdd_iff)
  moreover have "modulo (1 :: int) (Suc (Suc (Suc (Suc (Suc 0))))) = 1" by (simp add: modulo_def)
  then have "ReturnDciSlot ?p 3 2 = Some (1, 2)" by (subst ReturnDciSlot.simps) (simp add: Let_def)
  ultimately show ?thesis by (simp add: request_delay_def dci_of_def generation_pattern_def)
qed

theorem uplink_grant_sent_in_time_witness:
  "\<exists>t ms k. SetTddPattern [SlotDL, SlotDL, SlotS, SlotUL, SlotUL] 2 4 2 = Some t \<and>
     RetrieveMsgsFromDCIs (demo_genv :: nat gphy_env) (demo_gphy t :: (nat, nat) nr_gnb_phy)
       \<lparr>frameNum = 0, subframeNum = 0, slotNum = 1, numerology = 1\<rparr> = Inr ms \<and> NrUlDciMessage demo_grant 0 k \<in> set ms"
proof -
  let ?p = "[SlotDL, SlotDL, SlotS, SlotUL, SlotUL]" and ?q = "\<lparr>frameNum = 0, subframeNum = 1, slotNum = 1, numerology = 1\<rparr>"
    and ?c = "\<lparr>frameNum = 0, subframeNum = 0, slotNum = 1, numerology = 1\<rparr>"
    and ?a = "\<lparr>slot_sfnSf = \<lparr>frameNum = 0, subframeNum = 1, slotNum = 1, numerology = 1\<rparr>, slot_numSymAlloc = 10,
         slot_varTtiAllocInfo = [VarTtiAllocInfo demo_grant], slot_type = UL\<rparr>"
  have v: "\<exists>v \<in> set ?p. v \<noteq> SlotS" by simp
  obtain t where t: "SetTddPattern ?p 2 4 2 = Some t" using SetTddPattern_tables[OF v] by blast
  let ?s = "demo_gphy t :: (nat, nat) nr_gnb_phy" and ?e = "demo_genv :: nat gphy_env"
  have f: "gp_tddPattern ?s = ?p" "gp_tdd ?s = t" "gp_currentSlot ?s = ?c" by (simp_all add: demo_gphy_def)
  have sl: "abs_slot ?c = 1" "abs_slot ?q = 3" by (simp_all add: abs_slot_def slots_per_sf_def)
  have c: "sending ?e ?s ?c"
    by (simp add: sending_def demo_genv_def demo_gphy_def slots_ok_def own_slot_def valid_sfn_def slots_per_sf_def dci_fits_def
        SlotAllocInfo_def VarTtiAllocInfo_def demo_grant_def Dci_data_def)
  have a: "seen_alloc ?s ?c ?q = Some ?a" by (simp add: seen_alloc_def demo_gphy_def alloc_of_def)
  have d: "demo_grant \<in> set (dcis_of UL_DCI ?a)" by (simp add: dcis_of_def VarTtiAllocInfo_def demo_grant_def Dci_data_def)
  have b: "e_bwpId ?e = 0" by (simp add: demo_genv_def)
  have "\<exists>ms. RetrieveMsgsFromDCIs ?e ?s ?c = Inr ms \<and>
    (\<forall>d \<in> set (dcis_of UL_DCI ?a). \<exists>k \<ge> 2. NrUlDciMessage d (e_bwpId ?e) k \<in> set ms \<and> Add ?c (of_nat k) = Inr ?q) \<and>
    (IsTdd (gp_tddPattern ?s) \<longrightarrow> gp_tddPattern ?s ! (abs_slot ?c mod length (gp_tddPattern ?s)) \<noteq> SlotUL)"
    by (rule uplink_grant_sent_in_time[where ?n1.0 = 4 and latency = 2, OF _ _ c])
      (use t sl a demo_delay in \<open>simp_all add: f horizon_def valid_sfn_def slots_per_sf_def has_uplink_def\<close>)
  then obtain ms k where "RetrieveMsgsFromDCIs ?e ?s ?c = Inr ms" "NrUlDciMessage demo_grant 0 k \<in> set ms"
    unfolding b using d by blast
  then show ?thesis using t by (intro exI[of _ t] exI[of _ ms] exI[of _ k]) simp
qed

subsection \<open>A slot asks the MAC once\<close>

lemma routed_targets: "ul_targets (snd (foldl (route_msg e) (q, out) ms)) = ul_targets out"
  by (induction ms arbitrary: q out) (auto simp: route_msg_def split_def)

lemma fill_events_targets: "fill_events sp l u xs = Inr out \<Longrightarrow> ul_targets out = []"
  by (induction xs arbitrary: l u out) (auto simp: Let_def res_simps split: if_splits)

lemma uplink_ctrl_events_targets: "ul_targets (uplink_ctrl_events e xs) = []"
  by (induction xs) (auto simp: uplink_ctrl_events_def Let_def)

lemma retrieve_msgs_frame:
  assumes "RetrievePrepareEncodeCtrlMsgs e s = Inr (s', out)"
  shows "ul_targets out = [] \<and> gp_channelStatus s' = gp_channelStatus s \<and> gp_tdd s' = gp_tdd s \<and>
    gp_tddPattern s' = gp_tddPattern s \<and> gp_currentSlot s' = gp_currentSlot s"
proof -
  obtain c q where c: "PopCurrentSlotCtrlMsgs (gp_phy s) = (c, q)" by (cases "PopCurrentSlotCtrlMsgs (gp_phy s)")
  obtain ms where ms: "RetrieveMsgsFromDCIs e (s\<lparr>gp_phy := q\<rparr>) (gp_currentSlot s) = Inr ms"
    using assms c by (auto simp: RetrievePrepareEncodeCtrlMsgs_def Let_def res_simps)
  obtain q' o' where r: "foldl (route_msg e) (q, []) (e_merge e c ms) = (q', o')" by (metis surj_pair)
  have "s' = s\<lparr>gp_phy := q'\<rparr>" "out = o'" using assms c ms r by (simp_all add: RetrievePrepareEncodeCtrlMsgs_def)
  then show ?thesis using routed_targets[of e q "[]" "e_merge e c ms"] r by simp
qed

lemma do_start_frame:
  assumes "DoStartSlot e s = Inr (s', out)"
  shows "ul_targets out = [] \<and> (gp_channelStatus s = ChGRANTED \<longrightarrow> gp_channelStatus s' \<in> {ChGRANTED, ChTO_LOSE}) \<and> gp_tdd s' = gp_tdd s \<and>
    gp_tddPattern s' = gp_tddPattern s \<and> gp_currentSlot s' = gp_currentSlot s"
proof (cases "slot_varTtiAllocInfo (gp_currSlotAllocInfo s) = []")
  case True
  then show ?thesis using assms by (auto simp: DoStartSlot_def res_simps)
next
  case False
  obtain s1 s2 routed m events where d: "DoCheckOrReleaseChannel e s = Inr s1" "RetrievePrepareEncodeCtrlMsgs e s1 = Inr (s2, routed)"
    "FillTheEvent e (s2\<lparr>gp_rbgAllocationPerSym := m\<rparr>) = Inr (s', events)" "out = routed @ events"
    using assms False by (auto simp: DoStartSlot_def res_simps)
  show ?thesis using d retrieve_msgs_frame[OF d(2)]
    by (auto simp: FillTheEvent_def DoCheckOrReleaseChannel_def res_simps dest!: fill_events_targets split: if_splits)
qed

text \<open>
  The slots that run through: with an access manager that always grants, the MAC is called in every slot with what
  \<^theory_text>\<open>CallMacForSlotIndication\<close> gives, and no slot is put back.
\<close>

lemma start_slot_calls:
  fixes s :: "('x, 'p) nr_gnb_phy"
  assumes "gnb_StartSlot e s p = Inr (s', out)" and "e_request e = ChGRANTED" and "gp_channelStatus s \<in> {ChNONE, ChGRANTED}"
  shows "\<exists>calls :: ('x, 'p) gnb_out list. CallMacForSlotIndication (gp_tddPattern s) (gp_tdd s) p = Inr calls \<and> ul_targets out = ul_targets calls \<and>
    gp_channelStatus s' \<noteq> ChREQUESTED \<and> gp_tdd s' = gp_tdd s \<and> gp_tddPattern s' = gp_tddPattern s \<and> gp_currentSlot s' = p"
proof -
  obtain s1 where s1: "take_alloc (s\<lparr>gp_currentSlot := p\<rparr>) p = Inr s1" using assms(1) by (auto simp: gnb_StartSlot_def res_simps)
  obtain s2 where s2: "broadcast e s1 = Inr s2" using assms(1) s1 by (auto simp: gnb_StartSlot_def res_simps)
  have f1: "gp_channelStatus s1 = gp_channelStatus s \<and> gp_tdd s1 = gp_tdd s \<and> gp_tddPattern s1 = gp_tddPattern s \<and> gp_currentSlot s1 = p"
    using s1 by (auto simp: take_alloc_def res_simps split: if_splits)
  have f2: "gp_channelStatus s2 = gp_channelStatus s \<and> gp_tdd s2 = gp_tdd s \<and> gp_tddPattern s2 = gp_tddPattern s \<and> gp_currentSlot s2 = p"
    using s2 f1 by (auto simp: broadcast_def QueueMib_def QueueSib_def with_phy_def res_simps Let_def split: if_splits)
  have start: ?thesis if c: "call_and_start e s3 = Inr (s', out)" "gp_channelStatus s3 = ChGRANTED" "gp_tdd s3 = gp_tdd s"
    "gp_tddPattern s3 = gp_tddPattern s" "gp_currentSlot s3 = p" for s3
  proof -
    obtain calls o' where "CallMacForSlotIndication (gp_tddPattern s3) (gp_tdd s3) (gp_currentSlot s3) = Inr calls"
      "DoStartSlot e s3 = Inr (s', o')" "out = calls @ o'" using c(1) by (auto simp: call_and_start_def res_simps)
    then show ?thesis using do_start_frame[of e s3 s' o'] c(2-) by (intro exI[of _ calls]) auto
  qed
  show ?thesis
  proof (cases "gp_channelStatus s = ChGRANTED")
    case True
    then have "call_and_start e s2 = Inr (s', out)" using assms(1) s1 s2 f2 by (simp add: gnb_StartSlot_def)
    then show ?thesis using start[of s2] f2 True by simp
  next
    case False
    then have none: "gp_channelStatus s = ChNONE" using assms(3) by simp
    obtain h where h: "has_ul_dci s2 = Inr h" using assms(1) s1 s2 f2 False by (auto simp: gnb_StartSlot_def res_simps)
    let ?a = "gp_currSlotAllocInfo s2"
    show ?thesis
    proof (cases "ContainsDataAllocation ?a \<or> ContainsDlCtrlAllocation ?a \<or> h")
      case True
      then have "call_and_start e (s2\<lparr>gp_channelStatus := ChGRANTED\<rparr>) = Inr (s', out)"
        using assms(1,2) s1 s2 f2 none h by (simp add: gnb_StartSlot_def Let_def)
      then show ?thesis using start[of "s2\<lparr>gp_channelStatus := ChGRANTED\<rparr>"] f2 by simp
    next
      case False
      then show ?thesis using assms(1) s1 s2 f2 none h
        by (auto simp: gnb_StartSlot_def Let_def res_simps uplink_ctrl_events_targets)
    qed
  qed
qed

text \<open>A run: in every slot the MAC may put allocations into the list before the slot ends.\<close>

fun gnb_run :: "'x gphy_env \<Rightarrow> ('x, 'p) nr_gnb_phy \<Rightarrow> SlotAllocInfo list list \<Rightarrow>
    (('x, 'p) nr_gnb_phy \<times> ('x, 'p) gnb_out list) res" where
  "gnb_run e s [] = Inr (s, [])"
| "gnb_run e s (allocs # r) =
     bindE (gnb_StartSlot e s (gp_currentSlot s)) (\<lambda>(s, out).
     bindE (foldE (\<lambda>s a. with_phy s (PushBackSlotAllocInfo (e_sortDeque e) (gp_phy s) a)) s allocs) (\<lambda>s.
     bindE (EndSlot s) (\<lambda>s. bindE (gnb_run e s r) (\<lambda>(s, out'). Inr (s, out @ out')))))"

lemma push_frame:
  assumes "foldE (\<lambda>s a. with_phy s (PushBackSlotAllocInfo f (gp_phy s) a)) s allocs = Inr s'"
  shows "gp_channelStatus s' = gp_channelStatus s \<and> gp_tdd s' = gp_tdd s \<and> gp_tddPattern s' = gp_tddPattern s \<and>
    gp_currentSlot s' = gp_currentSlot s"
  by (rule foldE_invariant[OF assms]) (auto simp: with_phy_def res_simps)

lemma run_asks_as_clock:
  fixes s :: "('x, 'p) nr_gnb_phy"
  assumes "gnb_run e s allocs = Inr (s', out)" and "e_request e = ChGRANTED" and "gp_channelStatus s \<in> {ChNONE, ChGRANTED}"
  shows "\<exists>calls :: ('x, 'p) gnb_out list. slot_calls (gp_tddPattern s) (gp_tdd s) (gp_currentSlot s) (length allocs) = Inr calls \<and>
    ul_targets out = ul_targets calls"
  using assms(1,3)
proof (induction allocs arbitrary: s out)
  case (Cons a r)
  obtain s1 o1 s2 s3 o2 where st: "gnb_StartSlot e s (gp_currentSlot s) = Inr (s1, o1)"
    "foldE (\<lambda>s a. with_phy s (PushBackSlotAllocInfo (e_sortDeque e) (gp_phy s) a)) s1 a = Inr s2" "EndSlot s2 = Inr s3"
    "gnb_run e s3 r = Inr (s', o2)" "out = o1 @ o2" using Cons.prems(1) by (auto simp: res_simps)
  obtain calls :: "('x, 'p) gnb_out list" where c: "CallMacForSlotIndication (gp_tddPattern s) (gp_tdd s) (gp_currentSlot s) = Inr calls" "ul_targets o1 = ul_targets calls"
    "gp_channelStatus s1 \<noteq> ChREQUESTED" "gp_tdd s1 = gp_tdd s" "gp_tddPattern s1 = gp_tddPattern s" "gp_currentSlot s1 = gp_currentSlot s"
    using start_slot_calls[OF st(1) assms(2) Cons.prems(2)] by blast
  note p = push_frame[OF st(2)]
  have e: "Add (gp_currentSlot s) 1 = Inr (gp_currentSlot s3)" "gp_tdd s3 = gp_tdd s" "gp_tddPattern s3 = gp_tddPattern s"
    using st(3) c p by (auto simp: EndSlot_def Let_def res_simps split: if_splits)
  have "gp_channelStatus s3 \<in> {ChNONE, ChGRANTED}"
    using st(3) c(3) p by (cases "gp_channelStatus s1") (auto simp: EndSlot_def Let_def res_simps)
  from Cons.IH[OF st(4) this] obtain calls2 :: "('x, 'p) gnb_out list" where "slot_calls (gp_tddPattern s3) (gp_tdd s3) (gp_currentSlot s3) (length r) = Inr calls2"
    "ul_targets o2 = ul_targets calls2" by blast
  then show ?case using c e st(5) by (intro exI[of _ "calls @ calls2"]) simp
qed simp

end
