(* ===== verification/UePhy.thy ===== *)
theory UePhy
  imports GnbPhy Amc
begin

text \<open>
  The physical layer of a UE, class \<open>NrUePhy\<close> of \<open>contrib/nr/model/nr-ue-phy.cc\<close>: it executes what the DCIs say. A slot is
  a chain of events, each of which schedules the next: the start of the slot, the start and the end of every allocation, the
  next slot. What the PHY asks of others (its MAC, the simulator, the spectrum, the channel access manager) are values of
  \<^theory_text>\<open>ue_out\<close>. Times are nanoseconds; \<open>now\<close> is the time of the simulator. Power, beams and traces are left out.
\<close>

datatype UeChannelStatus = UeNONE | UeREQUESTED | UeGRANTED

datatype 'x ue_msg =
    RarMessage "(u8 \<times> u16) list"
  | DlHarqFeedbackMessage u8 DlHarqInfo
  | DlCqiMessage u8 DlCqiInfo
  | SrsMessage u8
  | RachPreambleMessage u8 u32
  | UeOtherMessage 'x

text \<open>A signal in the direction of the gNB has the messages of both directions in one type, as \<open>NrControlMessage\<close> is one class.\<close>

type_synonym 'x phy_msg = "'x ue_msg ctrl_msg"

datatype ('x, 'p) ue_out =
    UeSlotIndication sfnsf
  | UeReceiveControlMessage "'x phy_msg"
  | ReportTpc u8
  | RecvMasterInformationBlock u16 u32
  | RecvSystemInformationBlockType1 u16
  | ScheduleReceiveRar int "(u8 \<times> u16) list"
  | CancelLbt
  | ScheduleRequestAccess int
  | CamRequestAccess
  | CamCancel
  | UeRouteTo u8 "'x phy_msg"
  | UeScheduleStartVarTti int dci
  | UeScheduleEndVarTti int dci
  | UeScheduleStartSlot int sfnsf
  | SetTxPsd "nat list" u8 nat
  | StartTxUlControl "'x phy_msg list" int nat
  | UeSendDataChannels "'p list" int
  | UeAddExpectedTb nat u16 u8 u32 u8 "nat list" u8 u8 u8 u8 sfnsf
  | PhyDlHarqFeedback DlHarqInfo
  | ScheduleSendControlMessageNow int "'x phy_msg"

text \<open>
  What does not change in a run: \<open>u_route\<close> is the bandwidth part to which a message goes out, \<open>u_cqi\<close> the CQI that the link
  adaptation finds for the SINR of each resource block, \<open>u_log10\<close> the function of the C library.
\<close>

record 'x uphy_env =
  u_bwpId :: u8
  u_cellId :: u16
  u_symPerSlot :: u32
  u_slotPeriod :: int
  u_symbolPeriod :: int
  u_rbNum :: nat
  u_streams :: nat
  u_powerControl :: bool
  u_lbtThreshold :: int
  u_route :: "'x phy_msg \<Rightarrow> u8"
  u_sortDeque :: "VarTtiAllocInfo list \<Rightarrow> VarTtiAllocInfo list"
  u_cqi :: "fp list \<Rightarrow> u8"
  u_log10 :: "fp \<Rightarrow> fp"

record ('x, 'p) nr_ue_phy =
  up_phy :: "('x phy_msg, 'p) nr_phy"
  up_raPreambleId :: u32
  up_tddPattern :: "LteNrTddSlotType list"
  up_ulConfigured :: bool
  up_receptionEnabled :: bool
  up_rnti :: u16
  up_currTbs :: u32
  up_harqIdToK1Map :: "(u8 \<times> u32) list"
  up_numRbPerRbg :: u32
  up_currentSlot :: sfnsf
  up_currSlotAllocInfo :: SlotAllocInfo
  up_lastSlotStart :: int
  up_channelStatus :: UeChannelStatus
  up_tryToPerformLbt :: bool
  up_dlCtrlSyms :: u8
  up_ulCtrlSyms :: u8
  up_dlHarqInfo :: "(u8 \<times> DlHarqInfo) list"
  up_activeDlDataStreams :: u8
  up_activeDlDataStreamsPerHarqId :: "(u8 \<times> u8) list"
  up_prevDlWbCqi :: "u8 list"
  up_dlCqiFeedbackCounter :: u8
  up_fixedRi :: u8
  up_useFixedRi :: bool
  up_riSinrThreshold1 :: fp
  up_riSinrThreshold2 :: fp
  up_reportedRi2 :: bool

type_synonym ('x, 'p) uphy_step = "(('x, 'p) nr_ue_phy \<times> ('x, 'p) ue_out list) res"

text \<open>\<open>Simulator::Schedule\<close> asserts that its delay is not negative.\<close>

definition schedule :: "int \<Rightarrow> 'a res \<Rightarrow> 'a res" where
  "schedule delay k = ns_assert (0 \<le> delay) k"

subsection \<open>Configuration\<close>

definition SetUlCtrlSyms :: "('x, 'p) nr_ue_phy \<Rightarrow> u8 \<Rightarrow> ('x, 'p) nr_ue_phy" where
  "SetUlCtrlSyms s n = s\<lparr>up_ulCtrlSyms := n\<rparr>"

definition SetDlCtrlSyms :: "('x, 'p) nr_ue_phy \<Rightarrow> u8 \<Rightarrow> ('x, 'p) nr_ue_phy" where
  "SetDlCtrlSyms s n = s\<lparr>up_dlCtrlSyms := n\<rparr>"

definition SetNumRbPerRbg :: "('x, 'p) nr_ue_phy \<Rightarrow> u32 \<Rightarrow> ('x, 'p) nr_ue_phy" where
  "SetNumRbPerRbg s n = s\<lparr>up_numRbPerRbg := n\<rparr>"

definition RegisterToEnb :: "('x, 'p) nr_ue_phy \<Rightarrow> ('x, 'p) nr_ue_phy" where
  "RegisterToEnb s = s\<lparr>up_phy := InitializeMessageList (up_phy s)\<rparr>"

definition uphy_DoSetRnti :: "('x, 'p) nr_ue_phy \<Rightarrow> u16 \<Rightarrow> ('x, 'p) nr_ue_phy" where
  "uphy_DoSetRnti s rnti = s\<lparr>up_rnti := rnti\<rparr>"

definition DoConfigureUplink :: "('x, 'p) nr_ue_phy \<Rightarrow> ('x, 'p) nr_ue_phy" where
  "DoConfigureUplink s = s\<lparr>up_ulConfigured := True\<rparr>"

definition ue_ChannelAccessGranted :: "('x, 'p) nr_ue_phy \<Rightarrow> ('x, 'p) nr_ue_phy" where
  "ue_ChannelAccessGranted s = s\<lparr>up_channelStatus := UeGRANTED\<rparr>"

definition ChannelAccessDenied :: "('x, 'p) nr_ue_phy \<Rightarrow> ('x, 'p) nr_ue_phy" where
  "ChannelAccessDenied s = s\<lparr>up_channelStatus := UeNONE\<rparr>"

definition on_phy :: "('x, 'p) nr_ue_phy \<Rightarrow> ('x phy_msg, 'p) nr_phy res \<Rightarrow> ('x, 'p) nr_ue_phy res" where
  "on_phy s q = bindE q (\<lambda>q. Inr (s\<lparr>up_phy := q\<rparr>))"

definition DoSendControlMessage :: "('x, 'p) nr_ue_phy \<Rightarrow> 'x phy_msg \<Rightarrow> ('x, 'p) nr_ue_phy res" where
  "DoSendControlMessage s msg = on_phy s (EnqueueCtrlMessage (up_phy s) msg)"

definition DoSendControlMessageNow :: "('x, 'p) nr_ue_phy \<Rightarrow> 'x phy_msg \<Rightarrow> ('x, 'p) nr_ue_phy res" where
  "DoSendControlMessageNow s msg = on_phy s (EnqueueCtrlMsgNow (up_phy s) msg)"

definition phy_SendRachPreamble :: "'x uphy_env \<Rightarrow> ('x, 'p) nr_ue_phy \<Rightarrow> u32 \<Rightarrow> ('x, 'p) nr_ue_phy res" where
  "phy_SendRachPreamble e s preambleId =
     DoSendControlMessageNow (s\<lparr>up_raPreambleId := preambleId\<rparr>) (OtherMessage (RachPreambleMessage (u_bwpId e) preambleId))"

subsection \<open>Taking grants\<close>

definition add_alloc :: "'x uphy_env \<Rightarrow> dci \<Rightarrow> SlotAllocInfo \<Rightarrow> SlotAllocInfo" where
  "add_alloc e d a = a\<lparr>slot_varTtiAllocInfo := u_sortDeque e (slot_varTtiAllocInfo a @ [VarTtiAllocInfo d])\<rparr>"

definition InsertAllocation :: "'x uphy_env \<Rightarrow> ('x, 'p) nr_ue_phy \<Rightarrow> dci \<Rightarrow> ('x, 'p) nr_ue_phy" where
  "InsertAllocation e s d = s\<lparr>up_currSlotAllocInfo := add_alloc e d (up_currSlotAllocInfo s)\<rparr>"

text \<open>The reference that \<open>PeekSlotAllocInfo\<close> returns is written through.\<close>

definition update_slot :: "('m, 'p) nr_phy \<Rightarrow> sfnsf \<Rightarrow> (SlotAllocInfo \<Rightarrow> SlotAllocInfo) \<Rightarrow> ('m, 'p) nr_phy res" where
  "update_slot q sfn f =
     own_numerology q sfn (bindE (slot_index sfn (phy_slotAllocInfo q)) (\<lambda>i.
     case i of
       None \<Rightarrow> Inl FatalError
     | Some i \<Rightarrow> Inr (q\<lparr>phy_slotAllocInfo := (phy_slotAllocInfo q)[i := f (phy_slotAllocInfo q ! i)]\<rparr>)))"

definition InsertFutureAllocation :: "'x uphy_env \<Rightarrow> ('x, 'p) nr_ue_phy \<Rightarrow> sfnsf \<Rightarrow> dci \<Rightarrow> ('x, 'p) nr_ue_phy res" where
  "InsertFutureAllocation e s sfn d =
     bindE (SlotAllocInfoExists (up_phy s) sfn) (\<lambda>ex.
     on_phy s (if ex then update_slot (up_phy s) sfn (add_alloc e d)
       else PushBackSlotAllocInfo (u_sortDeque e) (up_phy s) ((SlotAllocInfo sfn)\<lparr>slot_varTtiAllocInfo := [VarTtiAllocInfo d]\<rparr>)))"

definition ProcessDataDci :: "'x uphy_env \<Rightarrow> ('x, 'p) nr_ue_phy \<Rightarrow> sfnsf \<Rightarrow> dci \<Rightarrow> ('x, 'p) nr_ue_phy res" where
  "ProcessDataDci e s ulSfnSf d =
     bindE (sfn_eq ulSfnSf (up_currentSlot s)) (\<lambda>eq.
     if eq then Inr (InsertAllocation e s d) else InsertFutureAllocation e s ulSfnSf d)"

definition ProcessSrsDci :: "'x uphy_env \<Rightarrow> ('x, 'p) nr_ue_phy \<Rightarrow> sfnsf \<Rightarrow> dci \<Rightarrow> ('x, 'p) nr_ue_phy res" where
  "ProcessSrsDci e s ulSfnSf d =
     bindE (sfn_eq ulSfnSf (up_currentSlot s)) (\<lambda>eq.
     if eq then Inr (InsertAllocation e s d) else InsertFutureAllocation e s ulSfnSf d)"

subsection \<open>Control messages\<close>

definition not_for_me :: "('x, 'p) nr_ue_phy \<Rightarrow> dci \<Rightarrow> bool" where
  "not_for_me s d \<longleftrightarrow> dci_rnti d \<noteq> 0 \<and> dci_rnti d \<noteq> up_rnti s"

definition receive_dl_dci :: "'x uphy_env \<Rightarrow> ('x, 'p) nr_ue_phy \<Rightarrow> dci \<Rightarrow> u8 \<Rightarrow> nat \<Rightarrow> nat \<Rightarrow> ('x, 'p) uphy_step" where
  "receive_dl_dci e s d bwp k0 k1 =
     (if not_for_me s d then Inr (s, [])
      else
        bindE (Add (up_currentSlot s) (of_nat k0)) (\<lambda>dciSfn.
        let m = AList.delete (dci_harqProcess d) (up_harqIdToK1Map s);
            s = s\<lparr>up_harqIdToK1Map := map_emplace (dci_harqProcess d) (of_nat k1) m\<rparr> in
        Inr (InsertAllocation e s d,
             UeReceiveControlMessage (NrDlDciMessage d bwp k0 k1) # (if u_powerControl e then [ReportTpc (dci_tpc d)] else []))))"

definition receive_ul_dci :: "'x uphy_env \<Rightarrow> ('x, 'p) nr_ue_phy \<Rightarrow> dci \<Rightarrow> u8 \<Rightarrow> nat \<Rightarrow> ('x, 'p) uphy_step" where
  "receive_ul_dci e s d bwp k2 =
     (if not_for_me s d then Inr (s, [])
      else
        bindE (Add (up_currentSlot s) (of_nat k2)) (\<lambda>ulSfnSf.
        case dci_type d of
          DATA \<Rightarrow> bindE (ProcessDataDci e s ulSfnSf d) (\<lambda>s. Inr (s, [UeReceiveControlMessage (NrUlDciMessage d bwp k2)]))
        | SRS \<Rightarrow> bindE (ProcessSrsDci e s ulSfnSf d) (\<lambda>s. Inr (s, []))
        | CTRL \<Rightarrow> Inr (s, [])))"

fun ue_PhyCtrlMessagesReceived :: "'x uphy_env \<Rightarrow> ('x, 'p) nr_ue_phy \<Rightarrow> 'x phy_msg \<Rightarrow> ('x, 'p) uphy_step" where
  "ue_PhyCtrlMessagesReceived e s (NrDlDciMessage d bwp k0 k1) = receive_dl_dci e s d bwp k0 k1"
| "ue_PhyCtrlMessagesReceived e s (NrUlDciMessage d bwp k2) = receive_ul_dci e s d bwp k2"
| "ue_PhyCtrlMessagesReceived e s (NrMibMessage bwp bandwidth) = Inr (s, [RecvMasterInformationBlock (u_cellId e) bandwidth])"
| "ue_PhyCtrlMessagesReceived e s (NrSib1Message bwp) = Inr (s, [RecvSystemInformationBlockType1 (u_cellId e)])"
| "ue_PhyCtrlMessagesReceived e s (OtherMessage (RarMessage rar)) =
     Inr (s, [ScheduleReceiveRar (u_slotPeriod e * int (GetL1L2CtrlLatency div 2)) rar])"
| "ue_PhyCtrlMessagesReceived e s msg = Inr (s, [UeReceiveControlMessage msg])"

definition DoReceiveRar :: "('x, 'p) nr_ue_phy \<Rightarrow> (u8 \<times> u16) list \<Rightarrow> ('x, 'p) ue_out list" where
  "DoReceiveRar s rar =
     map (\<lambda>_. UeReceiveControlMessage (OtherMessage (RarMessage rar))) (filter (\<lambda>(rapId, _). ucast rapId = up_raPreambleId s) rar)"

subsection \<open>Listen before talk\<close>

text \<open>The first symbol and the number of symbols of the uplink control allocation; both 0 if there is none.\<close>

fun ul_ctrl :: "VarTtiAllocInfo list \<Rightarrow> u8 \<times> u8" where
  "ul_ctrl [] = (0, 0)"
| "ul_ctrl (a # r) =
     (if dci_type (tti_dci a) = CTRL \<and> dci_format (tti_dci a) = UL_DCI
      then (dci_symStart (tti_dci a), dci_numSym (tti_dci a)) else ul_ctrl r)"

text \<open>\<open>Time::GetMicroSeconds\<close> rounds towards zero.\<close>

definition microseconds :: "int \<Rightarrow> int" where
  "microseconds t = t sdiv 1000"

definition lbt_data :: "'x uphy_env \<Rightarrow> int \<Rightarrow> ('x, 'p) nr_ue_phy \<times> ('x, 'p) ue_out list \<Rightarrow> VarTtiAllocInfo \<Rightarrow>
    ('x, 'p) nr_ue_phy \<times> ('x, 'p) ue_out list" where
  "lbt_data e limit = (\<lambda>(s, out) a.
     let d = tti_dci a;
         dciEndsAt = microseconds (up_lastSlotStart s) +
           int (unat (dci_numSym d) + unat (dci_symStart d)) * microseconds (u_symbolPeriod e) in
     if dci_type d = DATA \<and> microseconds limit < dciEndsAt
     then (s\<lparr>up_channelStatus := UeGRANTED\<rparr>, out @ [CancelLbt]) else (s, out))"

definition TryToPerformLbt :: "'x uphy_env \<Rightarrow> int \<Rightarrow> ('x, 'p) nr_ue_phy \<Rightarrow> ('x, 'p) uphy_step" where
  "TryToPerformLbt e now s =
     (let allocs = slot_varTtiAllocInfo (up_currSlotAllocInfo s); (ulCtrlSymStart, ulCtrlNumSym) = ul_ctrl allocs in
      if ulCtrlNumSym \<noteq> 0 then
        let limit = up_lastSlotStart s + u_slotPeriod e -
              int (unat (u_symPerSlot e - ucast ulCtrlSymStart)) * u_symbolPeriod e - u_lbtThreshold e;
            (s, out) = foldl (lbt_data e limit) (s, []) allocs in
        if up_channelStatus s \<noteq> UeGRANTED then
          let sched = up_lastSlotStart s - now + u_symbolPeriod e * int (unat ulCtrlSymStart) - 25000 in
          schedule sched (Inr (s, out @ [CancelLbt, ScheduleRequestAccess sched]))
        else Inr (s, out)
      else Inr (s, []))"

definition RequestAccess :: "('x, 'p) ue_out list" where
  "RequestAccess = [CamRequestAccess]"


subsection \<open>The start of a slot\<close>

definition uphy_ctrl_alloc :: "'x uphy_env \<Rightarrow> u8 \<Rightarrow> u8 \<Rightarrow> DciFormat \<Rightarrow> VarTtiAllocInfo" where
  "uphy_ctrl_alloc e symStart numSym format = VarTtiAllocInfo (Dci_ctrl symStart numSym format CTRL (replicate (u_rbNum e) 1))"

definition PushCtrlAllocations :: "'x uphy_env \<Rightarrow> ('x, 'p) nr_ue_phy \<Rightarrow> sfnsf \<Rightarrow> ('x, 'p) nr_ue_phy" where
  "PushCtrlAllocations e s currentSfnSf =
     (let a = up_currSlotAllocInfo s; q = slot_varTtiAllocInfo a;
          dlCtrlSlot = uphy_ctrl_alloc e 0 (up_dlCtrlSyms s) DL_DCI;
          ulCtrlSlot = uphy_ctrl_alloc e (ucast (u_symPerSlot e - ucast (up_ulCtrlSyms s))) (up_ulCtrlSyms s) UL_DCI in
      if up_tddPattern s = [] then s\<lparr>up_currSlotAllocInfo := a\<lparr>slot_varTtiAllocInfo := dlCtrlSlot # q\<rparr>\<rparr>
      else
        let ty = up_tddPattern s ! position (up_tddPattern s) currentSfnSf;
            q = (if slot_val ty < slot_val SlotUL then dlCtrlSlot # q else q);
            q = (if slot_val ty > slot_val SlotDL then q @ [ulCtrlSlot] else q) in
        s\<lparr>up_currSlotAllocInfo := a\<lparr>slot_varTtiAllocInfo := q\<rparr>\<rparr>)"

definition ue_take_alloc :: "('x, 'p) nr_ue_phy \<Rightarrow> sfnsf \<Rightarrow> ('x, 'p) nr_ue_phy res" where
  "ue_take_alloc s sfn =
     bindE (SlotAllocInfoExists (up_phy s) sfn) (\<lambda>ex.
     if ex then
       bindE (RetrieveSlotAllocInfo (up_phy s) sfn) (\<lambda>(a, q). Inr (s\<lparr>up_phy := q, up_currSlotAllocInfo := a\<rparr>))
     else Inr (s\<lparr>up_currSlotAllocInfo := SlotAllocInfo sfn\<rparr>))"

text \<open>\<open>RouteOutgoingCtrlMsgs\<close> of the net device hands each message to the PHY of a bandwidth part, this one or another.\<close>

definition ue_route_msg :: "'x uphy_env \<Rightarrow> ('x phy_msg, 'p) nr_phy \<times> ('x, 'p) ue_out list \<Rightarrow> 'x phy_msg \<Rightarrow>
    ('x phy_msg, 'p) nr_phy \<times> ('x, 'p) ue_out list" where
  "ue_route_msg e = (\<lambda>(q, out) m.
     if u_route e m = u_bwpId e then (EncodeCtrlMsg q m, out) else (q, out @ [UeRouteTo (u_route e m) m]))"

text \<open>The first allocation of the list is taken, and its start is scheduled.\<close>

definition next_alloc :: "('x, 'p) nr_ue_phy \<Rightarrow> (dci \<times> ('x, 'p) nr_ue_phy) res" where
  "next_alloc s =
     (let a = up_currSlotAllocInfo s in
      case slot_varTtiAllocInfo a of
        [] \<Rightarrow> Inl Undefined
      | x # r \<Rightarrow> Inr (tti_dci x, s\<lparr>up_currSlotAllocInfo := a\<lparr>slot_varTtiAllocInfo := r\<rparr>\<rparr>))"

text \<open>\<open>macMsgs\<close> are the control messages that the MAC sends while it handles \<open>SlotIndication\<close>.\<close>

definition ue_StartSlot :: "'x uphy_env \<Rightarrow> int \<Rightarrow> 'x phy_msg list \<Rightarrow> ('x, 'p) nr_ue_phy \<Rightarrow> sfnsf \<Rightarrow> ('x, 'p) uphy_step" where
  "ue_StartSlot e now macMsgs s sfn =
     bindE (foldE DoSendControlMessage (s\<lparr>up_currentSlot := sfn, up_lastSlotStart := now\<rparr>) macMsgs) (\<lambda>s.
     bindE (ue_take_alloc s sfn) (\<lambda>s.
     let s = PushCtrlAllocations e s sfn in
     bindE (sfn_eq (slot_sfnSf (up_currSlotAllocInfo s)) sfn) (\<lambda>eq.
     ns_assert eq
     (bindE (TryToPerformLbt e now s) (\<lambda>(s, lbt).
      bindE (next_alloc s) (\<lambda>(d, s).
      let (ctrlMsgs, q) = PopCurrentSlotCtrlMsgs (up_phy s);
          (q, routed) = foldl (ue_route_msg e) (q, []) ctrlMsgs in
      Inr (s\<lparr>up_phy := q\<rparr>,
           UeSlotIndication sfn # lbt @ routed @ [UeScheduleStartVarTti (u_symbolPeriod e * int (unat (dci_symStart d))) d])))))))"

definition ue_StartEventLoop :: "'x uphy_env \<Rightarrow> int \<Rightarrow> 'x phy_msg list \<Rightarrow> ('x, 'p) nr_ue_phy \<Rightarrow> u16 \<Rightarrow> u8 \<Rightarrow> u16 \<Rightarrow>
    ('x, 'p) uphy_step" where
  "ue_StartEventLoop e now macMsgs s frame subframe slot =
     bindE (SfnSf (ucast frame) subframe (ucast slot) (ucast (phy_numerology (up_phy s)))) (\<lambda>startSlot.
     ue_StartSlot e now macMsgs s startSlot)"

subsection \<open>A variable TTI\<close>

definition ue_DlCtrl :: "('x, 'p) nr_ue_phy \<Rightarrow> ('x, 'p) nr_ue_phy" where
  "ue_DlCtrl s = s\<lparr>up_tryToPerformLbt := True\<rparr>"

definition ue_UlSrs :: "'x uphy_env \<Rightarrow> ('x, 'p) nr_ue_phy \<Rightarrow> dci \<Rightarrow> ('x, 'p) nr_ue_phy \<times> ('x, 'p) ue_out list" where
  "ue_UlSrs e s d =
     (ChannelAccessDenied s,
      SetTxPsd [0..<u_rbNum e] (dci_numSym d) (u_streams e) #
      map (StartTxUlControl [OtherMessage (SrsMessage (u_bwpId e))] (u_symbolPeriod e * int (unat (dci_numSym d)) - 1)) [0..<u_streams e])"

definition ue_UlCtrl :: "'x uphy_env \<Rightarrow> ('x, 'p) nr_ue_phy \<Rightarrow> dci \<Rightarrow> ('x, 'p) uphy_step" where
  "ue_UlCtrl e s d =
     (if phy_ctrlMsgs (up_phy s) = [] then Inr (s, [CamCancel])
      else if up_channelStatus s \<noteq> UeGRANTED then Inr (s, [CamCancel])
      else if u_streams e = 0 then Inl OutOfRange
      else Inr (ChannelAccessDenied (s\<lparr>up_phy := (up_phy s)\<lparr>phy_ctrlMsgs := []\<rparr>\<rparr>),
        [SetTxPsd [0..<u_rbNum e] (dci_numSym d) 1,
         StartTxUlControl (phy_ctrlMsgs (up_phy s)) (u_symbolPeriod e * int (unat (dci_numSym d)) - 1) 0]))"

text \<open>The streams of a HARQ process are counted with \<open>find\<close>; an index that is not found reads as 0.\<close>

definition count_stream :: "u8 \<Rightarrow> (u8 \<times> u8) list \<Rightarrow> (u8 \<times> u8) list" where
  "count_stream harqId m =
     (case map_of m harqId of
        Some _ \<Rightarrow> AList.update harqId 1 m
      | None \<Rightarrow> AList.update harqId (0 + 1) m)"

definition dl_expect :: "'x uphy_env \<Rightarrow> dci \<Rightarrow> ('x, 'p) nr_ue_phy \<times> ('x, 'p) ue_out list \<Rightarrow> nat \<Rightarrow> ('x, 'p) uphy_step" where
  "dl_expect e d = (\<lambda>(s, out) i.
     if dci_tbSize d ! i > 0 then
       let s = s\<lparr>up_activeDlDataStreams := up_activeDlDataStreams s + 1,
                 up_activeDlDataStreamsPerHarqId := count_stream (dci_harqProcess d) (up_activeDlDataStreamsPerHarqId s)\<rparr> in
       if i < u_streams e then
         bindE (vec_at (dci_ndi d) i) (\<lambda>ndi. bindE (vec_at (dci_mcs d) i) (\<lambda>mcs. bindE (vec_at (dci_rv d) i) (\<lambda>rv.
         Inr (s, out @ [UeAddExpectedTb i (dci_rnti d) ndi (dci_tbSize d ! i) mcs
           (FromRBGBitmaskToRBAssignment (up_numRbPerRbg s) (dci_rbgBitmask d)) (dci_harqProcess d) rv
           (dci_symStart d) (dci_numSym d) (up_currentSlot s)]))))
       else Inl OutOfRange
     else Inr (s, out))"

definition ue_DlData :: "'x uphy_env \<Rightarrow> ('x, 'p) nr_ue_phy \<Rightarrow> dci \<Rightarrow> ('x, 'p) uphy_step" where
  "ue_DlData e s d =
     (let s = s\<lparr>up_receptionEnabled := True, up_activeDlDataStreams := 0, up_activeDlDataStreamsPerHarqId := []\<rparr> in
      ns_assert (dci_rnti d = up_rnti s)
      (ns_assert (up_dlHarqInfo s = [])
       (foldE (dl_expect e d) (s, []) [0..<length (dci_tbSize d)])))"

text \<open>The radio bearer tag that every packet of the MAC has is not looked at here. \<open>tbSize.at (0)\<close> is read for a trace.\<close>

definition ue_UlData :: "'x uphy_env \<Rightarrow> ('x, 'p) nr_ue_phy \<Rightarrow> dci \<Rightarrow> ('x, 'p) uphy_step" where
  "ue_UlData e s d =
     bindE (GetPacketBurst (up_phy s) (up_currentSlot s) (dci_symStart d) 0) (\<lambda>(burst, q).
     let s = s\<lparr>up_phy := q\<rparr>;
         psd = SetTxPsd (FromRBGBitmaskToRBAssignment (up_numRbPerRbg s) (dci_rbgBitmask d)) (dci_numSym d) 1 in
     case burst of
       None \<Rightarrow> Inr (s, [psd])
     | Some b \<Rightarrow>
         if length b = 0 then Inr (s, [psd])
         else bindE (vec_at (dci_tbSize d) 0) (\<lambda>_.
           Inr (s, [psd, UeSendDataChannels b (u_symbolPeriod e * int (unat (dci_numSym d)) - 2)])))"

text \<open>The duration stays 0 for a sounding DCI of the downlink, which none of the tests asks for.\<close>

definition ue_StartVarTti :: "'x uphy_env \<Rightarrow> ('x, 'p) nr_ue_phy \<Rightarrow> dci \<Rightarrow> ('x, 'p) uphy_step" where
  "ue_StartVarTti e s d =
     (let s = s\<lparr>up_currTbs := (if dci_tbSize d = [] then up_currTbs s else last (dci_tbSize d)), up_receptionEnabled := False\<rparr>;
          varTtiDuration = (if dci_type d = SRS \<and> dci_format d = DL_DCI then 0 else u_symbolPeriod e * int (unat (dci_numSym d))) in
      bindE (case (dci_type d, dci_format d) of
               (CTRL, DL_DCI) \<Rightarrow> Inr (ue_DlCtrl s, [])
             | (CTRL, UL_DCI) \<Rightarrow> ue_UlCtrl e s d
             | (SRS, UL_DCI) \<Rightarrow> Inr (ue_UlSrs e s d)
             | (DATA, DL_DCI) \<Rightarrow> ue_DlData e s d
             | (DATA, UL_DCI) \<Rightarrow> ue_UlData e s d
             | (SRS, DL_DCI) \<Rightarrow> Inr (s, [])) (\<lambda>(s, out).
      Inr (s, out @ [UeScheduleEndVarTti varTtiDuration d])))"

definition ue_EndVarTti :: "'x uphy_env \<Rightarrow> int \<Rightarrow> ('x, 'p) nr_ue_phy \<Rightarrow> ('x, 'p) uphy_step" where
  "ue_EndVarTti e now s =
     bindE (if up_tryToPerformLbt s
            then bindE (TryToPerformLbt e now s) (\<lambda>(s, out). Inr (s\<lparr>up_tryToPerformLbt := False\<rparr>, out)) else Inr (s, [])) (\<lambda>(s, lbt).
     bindE (if slot_varTtiAllocInfo (up_currSlotAllocInfo s) = [] then
              bindE (Add (up_currentSlot s) 1) (\<lambda>next.
              let delay = up_lastSlotStart s + u_slotPeriod e - now in
              schedule delay (Inr (s\<lparr>up_currentSlot := next\<rparr>, [UeScheduleStartSlot delay next])))
            else
              bindE (next_alloc s) (\<lambda>(d, s).
              let delay = u_symbolPeriod e * int (unat (dci_symStart d)) + up_lastSlotStart s - now in
              schedule delay (Inr (s, [UeScheduleStartVarTti delay d])))) (\<lambda>(s, out).
     Inr (s\<lparr>up_receptionEnabled := False\<rparr>, lbt @ out)))"


subsection \<open>Channel quality\<close>

text \<open>The number of resource blocks is counted in 8 bits.\<close>

definition DBL_MAX :: fp where
  "DBL_MAX = Num ((2 ^ 53 - 1) * 2 ^ 971)"

definition ComputeAvgSinr :: "fp list \<Rightarrow> fp" where
  "ComputeAvgSinr sinr =
     (let (sum, rbNum) = foldl (\<lambda>(sum, rbNum :: u8) it. (fp_add sum it, rbNum + 1)) (Num 0, 0) sinr in
      if rbNum > 0 then fp_div sum (fp_of_int (uint rbNum)) else DBL_MAX)"

definition no_sinr :: fp where
  "no_sinr = Num (2 ^ 32 - 1)"

definition index_valid :: "fp list \<Rightarrow> u8 list" where
  "index_valid avrgSinr = map of_nat (filter (\<lambda>i. \<not> fp_eq (avrgSinr ! i) no_sinr) [0..<length avrgSinr])"

definition above :: "fp list \<Rightarrow> nat \<Rightarrow> fp \<Rightarrow> bool res" where
  "above avrgSinr i threshold = bindE (arr avrgSinr i) (\<lambda>x. Inr (fp_less threshold x))"

definition SelectRi :: "('x, 'p) nr_ue_phy \<Rightarrow> fp list \<Rightarrow> (u8 \<times> ('x, 'p) nr_ue_phy) res" where
  "SelectRi s avrgSinr =
     (if up_useFixedRi s then Inr (up_fixedRi s, s)
      else if \<not> up_reportedRi2 s then
        bindE (above avrgSinr 0 (up_riSinrThreshold1 s)) (\<lambda>a.
        Inr (if a then (2, s\<lparr>up_reportedRi2 := True\<rparr>) else (1, s)))
      else
        let valid = index_valid avrgSinr in
        ns_abort_if (valid = [])
        (if length valid = length avrgSinr then
           bindE (above avrgSinr 0 (up_riSinrThreshold2 s)) (\<lambda>a.
           if a then bindE (above avrgSinr 1 (up_riSinrThreshold2 s)) (\<lambda>b. Inr (if b then 2 else 1, s)) else Inr (1, s))
         else
           bindE (vec_at valid 0) (\<lambda>v. bindE (above avrgSinr (unat v) (up_riSinrThreshold1 s)) (\<lambda>a.
           Inr (if a then 2 else 1, s)))))"

definition cqi_report :: "'x uphy_env \<Rightarrow> ('x, 'p) nr_ue_phy \<Rightarrow> fp list \<Rightarrow> ('x, 'p) nr_ue_phy res" where
  "cqi_report e s avrgSinr =
     bindE (if u_streams e = 1 then Inr (1, s) else SelectRi s avrgSinr) (\<lambda>(ri, s).
     ns_assert (unat ri \<le> length (up_prevDlWbCqi s))
     (bindE (DoSendControlMessage s (OtherMessage (DlCqiMessage (u_bwpId e)
        \<lparr>dci_cqi_rnti = up_rnti s, dci_cqi_ri = ri, dci_cqi_type = WB, dci_cqi_wbCqi = up_prevDlWbCqi s, dci_cqi_wbPmi = 0\<rparr>))) (\<lambda>s.
      Inr (s\<lparr>up_dlCqiFeedbackCounter := 0\<rparr>))))"

definition GenerateDlCqiReport :: "'x uphy_env \<Rightarrow> ('x, 'p) nr_ue_phy \<Rightarrow> fp list \<Rightarrow> u8 \<Rightarrow> ('x, 'p) nr_ue_phy res" where
  "GenerateDlCqiReport e s sinr streamId =
     (if up_ulConfigured s \<and> up_rnti s > 0 \<and> up_receptionEnabled s then
        let s = (if up_prevDlWbCqi s = []
                 then s\<lparr>up_prevDlWbCqi := replicate (u_streams e) 0, up_reportedRi2 := False\<rparr> else s);
            wbCqi = u_cqi e sinr in
        ns_assert (unat streamId < length (up_prevDlWbCqi s))
        (defined_if (unat streamId < u_streams e)
        (let s = s\<lparr>up_prevDlWbCqi := (up_prevDlWbCqi s)[unat streamId := wbCqi],
                  up_dlCqiFeedbackCounter := up_dlCqiFeedbackCounter s + 1\<rparr>;
             avrgSinrdB = fp_mul (Num 10) (u_log10 e (ComputeAvgSinr sinr));
             avrgSinr = (replicate (u_streams e) no_sinr)[unat streamId := avrgSinrdB] in
         if up_dlCqiFeedbackCounter s = up_activeDlDataStreams s then cqi_report e s avrgSinr else Inr s))
      else Inr s)"

subsection \<open>Downlink HARQ feedback\<close>

text \<open>The iterator of \<open>m_harqIdToK1Map\<close> is dereferenced without a test.\<close>

definition ue_EnqueueDlHarqFeedback :: "'x uphy_env \<Rightarrow> int \<Rightarrow> ('x, 'p) nr_ue_phy \<Rightarrow> DlHarqInfo \<Rightarrow> ('x, 'p) uphy_step" where
  "ue_EnqueueDlHarqFeedback e now s m =
     bindE (map_deref (dlh_harqProcessId m) (up_harqIdToK1Map s)) (\<lambda>k1.
     let event = up_lastSlotStart s + u_slotPeriod e * int (unat k1) in
     Inr (s, [ScheduleSendControlMessageNow (if event \<le> now then 0 else event - now)
                (OtherMessage (DlHarqFeedbackMessage (u_bwpId e) m))]))"

definition new_feedback :: "'x uphy_env \<Rightarrow> ('x, 'p) nr_ue_phy \<Rightarrow> u8 \<Rightarrow> DlHarqInfo" where
  "new_feedback e s harqProcessId =
     \<lparr>dlh_rnti = up_rnti s, dlh_harqProcessId = harqProcessId, dlh_bwpIndex = u_bwpId e,
      dlh_harqStatus = replicate (u_streams e) HNONE, dlh_numRetx = replicate (u_streams e) 255\<rparr>"

definition NotifyDlHarqFeedback :: "'x uphy_env \<Rightarrow> ('x, 'p) nr_ue_phy \<Rightarrow> u8 \<Rightarrow> HarqStatus \<Rightarrow> u8 \<Rightarrow> u8 \<Rightarrow> ('x, 'p) uphy_step" where
  "NotifyDlHarqFeedback e s streamId harqFeedback harqProcessId rv =
     (let m = up_dlHarqInfo s;
          m = (case map_of m harqProcessId of None \<Rightarrow> AList.update harqProcessId (new_feedback e s harqProcessId) m | Some _ \<Rightarrow> m) in
      bindE (map_deref harqProcessId m) (\<lambda>harq.
      let i = unat streamId in
      ns_assert (dlh_harqProcessId harq = harqProcessId)
      (ns_assert (i < length (dlh_harqStatus harq))
      (ns_assert (dlh_harqStatus harq ! i = HNONE)
      (let harq = harq\<lparr>dlh_harqStatus := (dlh_harqStatus harq)[i := harqFeedback], dlh_numRetx := (dlh_numRetx harq)[i := rv]\<rparr>;
           feedbackCounter = of_nat (length (filter (\<lambda>h. h \<noteq> HNONE) (dlh_harqStatus harq))) :: u8;
           s = s\<lparr>up_dlHarqInfo := AList.update harqProcessId harq m\<rparr> in
       case map_of (up_activeDlDataStreamsPerHarqId s) harqProcessId of
         None \<Rightarrow> Inl AssertFailed
       | Some n \<Rightarrow>
           if feedbackCounter = n
           then Inr (s\<lparr>up_dlHarqInfo := AList.delete harqProcessId (up_dlHarqInfo s)\<rparr>, [PhyDlHarqFeedback harq])
           else Inr (s, []))))))"


subsection \<open>A UE to try things on\<close>

definition demo_uphy :: "(nat, nat) nr_ue_phy" where
  "demo_uphy = \<lparr>up_phy = \<lparr>phy_numerology = 1, phy_slotAllocInfo = [], phy_controlMessageQueue = [[], [], []], phy_packetBurstMap = [],
       phy_ctrlMsgs = []\<rparr>,
     up_raPreambleId = 0, up_tddPattern = [SlotDL, SlotDL, SlotS, SlotUL, SlotUL], up_ulConfigured = True, up_receptionEnabled = False,
     up_rnti = 7, up_currTbs = 0, up_harqIdToK1Map = [], up_numRbPerRbg = 4,
     up_currentSlot = \<lparr>frameNum = 0, subframeNum = 0, slotNum = 1, numerology = 1\<rparr>,
     up_currSlotAllocInfo = SlotAllocInfo \<lparr>frameNum = 0, subframeNum = 0, slotNum = 1, numerology = 1\<rparr>,
     up_lastSlotStart = 500000, up_channelStatus = UeGRANTED, up_tryToPerformLbt = False, up_dlCtrlSyms = 1, up_ulCtrlSyms = 1,
     up_dlHarqInfo = [], up_activeDlDataStreams = 0, up_activeDlDataStreamsPerHarqId = [], up_prevDlWbCqi = [],
     up_dlCqiFeedbackCounter = 0, up_fixedRi = 0, up_useFixedRi = False, up_riSinrThreshold1 = Num 0, up_riSinrThreshold2 = Num 0,
     up_reportedRi2 = False\<rparr>"

definition demo_uenv :: "nat uphy_env" where
  "demo_uenv = \<lparr>u_bwpId = 0, u_cellId = 1, u_symPerSlot = 14, u_slotPeriod = 500000, u_symbolPeriod = 35714, u_rbNum = 8, u_streams = 2,
     u_powerControl = False, u_lbtThreshold = 25000, u_route = (\<lambda>_. 0), u_sortDeque = sort_key (\<lambda>x. dci_symStart (tti_dci x)),
     u_cqi = (\<lambda>_. 10), u_log10 = id\<rparr>"

end
