(* ===== verification/UeGrants.thy ===== *)
theory UeGrants
  imports UePhy GnbGrants
begin

text \<open>
  A grant reaches its slot: what the gNB sends and the UE receives is kept until the slot starts, whatever else the UE does
  in between, and is then among the allocations of the slot.
\<close>

subsection \<open>What the UE goes through\<close>

text \<open>
  Everything that can happen to the PHY: a control message arrives, a slot starts, an allocation starts or ends, the
  spectrum reports the quality or the outcome of a reception, the MAC sends a message or hands over a packet.
\<close>

datatype ('x, 'p) uphy_event =
    EvReceived "'x phy_msg"
  | EvSlot int "'x phy_msg list" sfnsf
  | EvStartVarTti dci
  | EvEndVarTti int
  | EvCqi "fp list" u8
  | EvHarq u8 HarqStatus u8 u8
  | EvFeedback int DlHarqInfo
  | EvSend "'x phy_msg"
  | EvSendNow "'x phy_msg"
  | EvMacPdu 'p sfnsf u8 u8
  | EvGranted
  | EvDenied

fun ue_handle :: "'x uphy_env \<Rightarrow> ('x, 'p) nr_ue_phy \<Rightarrow> ('x, 'p) uphy_event \<Rightarrow> ('x, 'p) uphy_step" where
  "ue_handle e s (EvReceived m) = ue_PhyCtrlMessagesReceived e s m"
| "ue_handle e s (EvSlot now macMsgs sfn) = ue_StartSlot e now macMsgs s sfn"
| "ue_handle e s (EvStartVarTti d) = ue_StartVarTti e s d"
| "ue_handle e s (EvEndVarTti now) = ue_EndVarTti e now s"
| "ue_handle e s (EvCqi sinr streamId) = bindE (GenerateDlCqiReport e s sinr streamId) (\<lambda>s. Inr (s, []))"
| "ue_handle e s (EvHarq streamId fb harqId rv) = NotifyDlHarqFeedback e s streamId fb harqId rv"
| "ue_handle e s (EvFeedback now h) = ue_EnqueueDlHarqFeedback e now s h"
| "ue_handle e s (EvSend m) = bindE (DoSendControlMessage s m) (\<lambda>s. Inr (s, []))"
| "ue_handle e s (EvSendNow m) = bindE (DoSendControlMessageNow s m) (\<lambda>s. Inr (s, []))"
| "ue_handle e s (EvMacPdu p sfn symStart streamId) = bindE (on_phy s (SetMacPdu (up_phy s) p sfn symStart streamId)) (\<lambda>s. Inr (s, []))"
| "ue_handle e s EvGranted = Inr (ue_ChannelAccessGranted s, [])"
| "ue_handle e s EvDenied = Inr (ChannelAccessDenied s, [])"

definition uphy_run :: "'x uphy_env \<Rightarrow> ('x, 'p) nr_ue_phy \<Rightarrow> ('x, 'p) uphy_event list \<Rightarrow> ('x, 'p) nr_ue_phy res" where
  "uphy_run e = foldE (\<lambda>s ev. bindE (ue_handle e s ev) (\<lambda>(s, out). Inr s))"

fun starts :: "sfnsf \<Rightarrow> ('x, 'p) uphy_event \<Rightarrow> bool" where
  "starts q (EvSlot now macMsgs sfn) = (sfn = q)"
| "starts q ev = False"

subsection \<open>The allocations of a slot to come are kept\<close>

definition dcis_in :: "SlotAllocInfo \<Rightarrow> dci set" where
  "dcis_in a = tti_dci ` set (slot_varTtiAllocInfo a)"

definition dcis_at :: "('m, 'p) nr_phy \<Rightarrow> sfnsf \<Rightarrow> dci set" where
  "dcis_at s q = (case alloc_of s q of None \<Rightarrow> {} | Some a \<Rightarrow> dcis_in a)"

definition keeps :: "sfnsf \<Rightarrow> ('m, 'p) nr_phy \<Rightarrow> ('m, 'p) nr_phy \<Rightarrow> bool" where
  "keeps q s s' \<longleftrightarrow> (slots_ok s \<longrightarrow> slots_ok s' \<and> phy_numerology s' = phy_numerology s \<and> dcis_at s q \<subseteq> dcis_at s' q)"

lemma keeps_refl [simp]: "keeps q s s"
  by (simp add: keeps_def)

lemma keeps_trans: "keeps q s t \<Longrightarrow> keeps q t u \<Longrightarrow> keeps q s u"
  by (auto simp: keeps_def)

lemma keeps_same: "phy_slotAllocInfo s' = phy_slotAllocInfo s \<Longrightarrow> phy_numerology s' = phy_numerology s \<Longrightarrow> keeps q s s'"
  by (simp add: keeps_def slots_ok_def own_slot_def dcis_at_def alloc_of_def)

lemma own_numerology_Inr: "own_numerology s sfn k = Inr r \<Longrightarrow> own_slot s sfn \<and> k = Inr r"
  by (auto simp: own_numerology_def own_slot_def GetNumerology_def res_simps)

lemma push_ctrl_keeps: "push_ctrl i m s = Inr s' \<Longrightarrow> keeps q s s'"
  by (auto simp: push_ctrl_def intro: keeps_same split: if_splits)

lemma send_keeps:
  "DoSendControlMessage s m = Inr s' \<Longrightarrow> keeps q (up_phy s) (up_phy s')"
  "DoSendControlMessageNow s m = Inr s' \<Longrightarrow> keeps q (up_phy s) (up_phy s')"
  by (auto simp: DoSendControlMessage_def DoSendControlMessageNow_def on_phy_def EnqueueCtrlMessage_def EnqueueCtrlMsgNow_def
      res_simps dest: push_ctrl_keeps)

lemma SetMacPdu_keeps: "SetMacPdu s p sfn symStart streamId = Inr s' \<Longrightarrow> keeps q s s'"
  by (auto simp: SetMacPdu_def res_simps Let_def intro!: keeps_same dest!: own_numerology_Inr)

lemma GetPacketBurst_keeps: "GetPacketBurst s sfn symStart streamId = Inr (b, s') \<Longrightarrow> keeps q s s'"
  by (auto simp: GetPacketBurst_def res_simps intro!: keeps_same dest!: own_numerology_Inr split: option.splits)

subsection \<open>Putting an allocation in\<close>

lemma update_slot_own:
  assumes "slots_ok s" and "own_slot s sfn" and "alloc_of s sfn = Some a" and "\<And>a. slot_sfnSf (f a) = slot_sfnSf a"
  shows "\<exists>s'. update_slot s sfn f = Inr s' \<and> slots_ok s' \<and> phy_numerology s' = phy_numerology s \<and> alloc_of s' = (alloc_of s)(sfn \<mapsto> f a)"
proof -
  obtain i where i: "slot_index sfn (phy_slotAllocInfo s) = Inr (Some i)" "i < length (phy_slotAllocInfo s)"
    "slot_sfnSf (phy_slotAllocInfo s ! i) = sfn" "a = phy_slotAllocInfo s ! i"
    using slot_index_own[OF assms(1,2)] assms(3) by auto
  show ?thesis
    using alloc_update[OF assms(1) i(2), of "f a"] i assms(2,4) by (simp add: update_slot_def)
qed

lemma dcis_in_add [simp]: "std_sort tti_less (u_sortDeque e) \<Longrightarrow> dcis_in (add_alloc e d a) = insert d (dcis_in a)"
  by (simp add: dcis_in_def add_alloc_def VarTtiAllocInfo_def image_Un)

lemma add_alloc_slot [simp]: "slot_sfnSf (add_alloc e d a) = slot_sfnSf a"
  by (simp add: add_alloc_def)

lemma insert_future:
  assumes sort: "std_sort tti_less (u_sortDeque e)" and "slots_ok (up_phy s)" and "own_slot (up_phy s) sfn"
  shows "\<exists>q. InsertFutureAllocation e s sfn d = Inr (s\<lparr>up_phy := q\<rparr>) \<and> slots_ok q \<and> phy_numerology q = phy_numerology (up_phy s) \<and>
    (\<forall>p. dcis_at q p = (if p = sfn then insert d (dcis_at (up_phy s) p) else dcis_at (up_phy s) p))"
proof (cases "alloc_of (up_phy s) sfn")
  case None
  let ?a = "(SlotAllocInfo sfn)\<lparr>slot_varTtiAllocInfo := [VarTtiAllocInfo d]\<rparr>"
  have a: "slot_sfnSf ?a = sfn" "dcis_in ?a = {d}" by (simp_all add: SlotAllocInfo_def dcis_in_def VarTtiAllocInfo_def)
  obtain q where "PushBackSlotAllocInfo (u_sortDeque e) (up_phy s) ?a = Inr q" "slots_ok q"
    "alloc_of q = (alloc_of (up_phy s))(sfn \<mapsto> ?a)" "phy_numerology q = phy_numerology (up_phy s)"
    using push_back_own[of "up_phy s" ?a ?a "u_sortDeque e"] a(1) None assms(2,3) by auto
  then show ?thesis
    using None a assms(2,3) by (auto simp: InsertFutureAllocation_def exists_own on_phy_def dcis_at_def)
next
  case (Some a)
  obtain q where "update_slot (up_phy s) sfn (add_alloc e d) = Inr q" "slots_ok q" "phy_numerology q = phy_numerology (up_phy s)"
    "alloc_of q = (alloc_of (up_phy s))(sfn \<mapsto> add_alloc e d a)"
    using update_slot_own[OF assms(2,3) Some, of "add_alloc e d"] by auto
  then show ?thesis
    using Some assms by (auto simp: InsertFutureAllocation_def exists_own on_phy_def dcis_at_def)
qed

lemma insert_future_keeps:
  assumes sort: "std_sort tti_less (u_sortDeque e)" and "InsertFutureAllocation e s sfn d = Inr s'"
  shows "keeps q (up_phy s) (up_phy s')"
proof (cases "slots_ok (up_phy s)")
  case True
  have own: "own_slot (up_phy s) sfn"
    using assms(2) by (auto simp: InsertFutureAllocation_def SlotAllocInfoExists_def res_simps dest!: own_numerology_Inr)
  show ?thesis using insert_future[OF sort True own, of d] assms(2) True by (auto simp: keeps_def)
qed (simp add: keeps_def)

lemma process_keeps:
  assumes "std_sort tti_less (u_sortDeque e)"
  shows "ProcessDataDci e s sfn d = Inr s' \<Longrightarrow> keeps q (up_phy s) (up_phy s')"
    "ProcessSrsDci e s sfn d = Inr s' \<Longrightarrow> keeps q (up_phy s) (up_phy s')"
  using insert_future_keeps[OF assms]
  by (auto simp: ProcessDataDci_def ProcessSrsDci_def InsertAllocation_def res_simps split: if_splits)

lemma ul_dci_keeps:
  assumes "std_sort tti_less (u_sortDeque e)" and "receive_ul_dci e s d bwp k2 = Inr (s', out)"
  shows "keeps q (up_phy s) (up_phy s')"
  using assms(2) process_keeps[OF assms(1)]
  by (cases "dci_type d") (auto simp: receive_ul_dci_def res_simps split: if_splits)

lemma received_keeps:
  assumes "std_sort tti_less (u_sortDeque e)" and "ue_PhyCtrlMessagesReceived e s m = Inr (s', out)"
  shows "keeps q (up_phy s) (up_phy s')"
  using assms(2) ul_dci_keeps[OF assms(1), of s]
  by (cases "(e, s, m)" rule: ue_PhyCtrlMessagesReceived.cases)
    (auto simp: receive_dl_dci_def InsertAllocation_def res_simps Let_def split: if_splits)

subsection \<open>Other events\<close>

lemma lbt_phy: "TryToPerformLbt e now s = Inr (s', out) \<Longrightarrow> up_phy s' = up_phy s \<and> up_currSlotAllocInfo s' = up_currSlotAllocInfo s"
proof -
  have "up_phy (fst (foldl (lbt_data e limit) (s, out) xs)) = up_phy s \<and>
      up_currSlotAllocInfo (fst (foldl (lbt_data e limit) (s, out) xs)) = up_currSlotAllocInfo s" for limit out xs
    by (induction xs arbitrary: s out) (auto simp: lbt_data_def Let_def)
  then show "TryToPerformLbt e now s = Inr (s', out) \<Longrightarrow> ?thesis"
    by (auto simp: TryToPerformLbt_def schedule_def Let_def res_simps split: if_splits prod.splits) (metis fst_conv)+
qed

lemma next_alloc_phy: "next_alloc s = Inr (d, s') \<Longrightarrow> up_phy s' = up_phy s"
  by (auto simp: next_alloc_def Let_def split: list.splits)

lemma dl_expect_phy: "foldE (dl_expect e d) (s, out) is = Inr (s', out') \<Longrightarrow> up_phy s' = up_phy s"
proof (induction "is" arbitrary: s out)
  case (Cons i r)
  then obtain t out1 where "dl_expect e d (s, out) i = Inr (t, out1)" "foldE (dl_expect e d) (t, out1) r = Inr (s', out')"
    by (auto simp: res_simps)
  moreover from this have "up_phy t = up_phy s" by (auto simp: dl_expect_def Let_def res_simps split: if_splits)
  ultimately show ?case using Cons.IH by simp
qed simp

lemma UlData_keeps:
  assumes "ue_UlData e s d = Inr (s', out)"
  shows "keeps q (up_phy s) (up_phy s')"
proof -
  obtain b t where t: "GetPacketBurst (up_phy s) (up_currentSlot s) (dci_symStart d) 0 = Inr (b, t)"
    using assms unfolding ue_UlData_def bindE_Inr_iff by auto
  have "s' = s\<lparr>up_phy := t\<rparr>"
    using assms unfolding ue_UlData_def t Let_def by (auto simp: bindE_Inr_iff split: option.splits if_splits)
  then show ?thesis using GetPacketBurst_keeps[OF t] by simp
qed

lemma UlCtrl_keeps: "ue_UlCtrl e s d = Inr (s', out) \<Longrightarrow> keeps q (up_phy s) (up_phy s')"
  by (auto simp: ue_UlCtrl_def ChannelAccessDenied_def intro!: keeps_same split: if_splits)

lemma DlData_phy: "ue_DlData e s d = Inr (s', out) \<Longrightarrow> up_phy s' = up_phy s"
  by (auto simp: ue_DlData_def Let_def ns_assert_Inr_iff dest!: dl_expect_phy)

definition started_kind :: "'x uphy_env \<Rightarrow> ('x, 'p) nr_ue_phy \<Rightarrow> dci \<Rightarrow> ('x, 'p) uphy_step" where
  "started_kind e s d = (case (dci_type d, dci_format d) of
               (CTRL, DL_DCI) \<Rightarrow> Inr (ue_DlCtrl s, [])
             | (CTRL, UL_DCI) \<Rightarrow> ue_UlCtrl e s d
             | (SRS, UL_DCI) \<Rightarrow> Inr (ue_UlSrs e s d)
             | (DATA, DL_DCI) \<Rightarrow> ue_DlData e s d
             | (DATA, UL_DCI) \<Rightarrow> ue_UlData e s d
             | (SRS, DL_DCI) \<Rightarrow> Inr (s, []))"

lemma started_kind_keeps: "started_kind e s d = Inr (s', out) \<Longrightarrow> keeps q (up_phy s) (up_phy s')"
  by (cases "dci_type d"; cases "dci_format d")
    (auto simp: started_kind_def ue_DlCtrl_def ue_UlSrs_def ChannelAccessDenied_def
      dest: UlData_keeps[where q = q] UlCtrl_keeps[where q = q] DlData_phy)

lemma start_tti_eq:
  "ue_StartVarTti e s d =
     bindE (started_kind e (s\<lparr>up_currTbs := (if dci_tbSize d = [] then up_currTbs s else last (dci_tbSize d)), up_receptionEnabled := False\<rparr>) d)
       (\<lambda>(s, out). Inr (s, out @ [UeScheduleEndVarTti
          (if dci_type d = SRS \<and> dci_format d = DL_DCI then 0 else u_symbolPeriod e * int (unat (dci_numSym d))) d]))"
  by (simp add: ue_StartVarTti_def started_kind_def Let_def)

lemma start_tti_keeps: "ue_StartVarTti e s d = Inr (s', out) \<Longrightarrow> keeps q (up_phy s) (up_phy s')"
  by (auto simp: start_tti_eq bindE_Inr_iff dest: started_kind_keeps[where q = q])

lemma end_tti_phy: "ue_EndVarTti e now s = Inr (s', out) \<Longrightarrow> up_phy s' = up_phy s"
  by (auto simp: ue_EndVarTti_def schedule_def Let_def res_simps dest!: lbt_phy next_alloc_phy split: if_splits)

lemma ri_phy: "SelectRi s xs = Inr (ri, s') \<Longrightarrow> up_phy s' = up_phy s"
  by (auto simp: SelectRi_def Let_def res_simps split: if_splits)

lemma cqi_report_keeps: "cqi_report e s avrgSinr = Inr s' \<Longrightarrow> keeps q (up_phy s) (up_phy s')"
  unfolding cqi_report_def by (auto simp: res_simps split: if_splits) (metis ri_phy send_keeps(1))+

lemma cqi_keeps: "GenerateDlCqiReport e s sinr streamId = Inr s' \<Longrightarrow> keeps q (up_phy s) (up_phy s')"
  by (auto simp: GenerateDlCqiReport_def Let_def ns_assert_Inr_iff defined_if_Inr_iff dest!: cqi_report_keeps[where q = q] split: if_splits)

lemma harq_keeps_phy: "NotifyDlHarqFeedback e s streamId fb harqId rv = Inr (s', out) \<Longrightarrow> up_phy s' = up_phy s"
  by (auto simp: NotifyDlHarqFeedback_def Let_def res_simps split: option.splits if_splits)

lemma pop_keeps: "PopCurrentSlotCtrlMsgs s = (ms, s') \<Longrightarrow> keeps q s s'"
  by (auto simp: PopCurrentSlotCtrlMsgs_def intro!: keeps_same split: list.splits)

lemma route_keeps: "foldl (ue_route_msg e) (s, out) ms = (s', out') \<Longrightarrow> keeps q s s'"
proof (induction ms arbitrary: s out)
  case (Cons m r)
  have "keeps q s (fst (ue_route_msg e (s, out) m))"
    by (auto simp: ue_route_msg_def EncodeCtrlMsg_def intro: keeps_same)
  then show ?case using Cons by (cases "ue_route_msg e (s, out) m") (auto intro: keeps_trans)
qed simp

lemma sends_keeps: "foldE DoSendControlMessage s ms = Inr s' \<Longrightarrow> keeps q (up_phy s) (up_phy s')"
proof (induction ms arbitrary: s)
  case (Cons m r)
  then obtain t where "DoSendControlMessage s m = Inr t" "foldE DoSendControlMessage t r = Inr s'" by (auto simp: res_simps)
  then show ?case using Cons.IH keeps_trans send_keeps(1) by blast
qed simp

text \<open>The allocation that is taken when a slot starts.\<close>

lemma take_alloc_own:
  assumes "slots_ok (up_phy s)" and "ue_take_alloc s sfn = Inr s'"
  shows "slots_ok (up_phy s')" "phy_numerology (up_phy s') = phy_numerology (up_phy s)"
    "dcis_in (up_currSlotAllocInfo s') = dcis_at (up_phy s) sfn"
    "q \<noteq> sfn \<Longrightarrow> dcis_at (up_phy s') q = dcis_at (up_phy s) q"
proof -
  have own: "own_slot (up_phy s) sfn"
    using assms(2) by (auto simp: ue_take_alloc_def SlotAllocInfoExists_def res_simps dest!: own_numerology_Inr)
  have "slots_ok (up_phy s') \<and> phy_numerology (up_phy s') = phy_numerology (up_phy s) \<and>
    dcis_in (up_currSlotAllocInfo s') = dcis_at (up_phy s) sfn \<and> (q \<noteq> sfn \<longrightarrow> dcis_at (up_phy s') q = dcis_at (up_phy s) q)"
  proof (cases "alloc_of (up_phy s) sfn")
    case None
    then show ?thesis
      using assms own by (auto simp: ue_take_alloc_def exists_own dcis_at_def dcis_in_def SlotAllocInfo_def)
  next
    case (Some a)
    obtain t where t: "RetrieveSlotAllocInfo (up_phy s) sfn = Inr (a, t)" "slots_ok t" "alloc_of t = (alloc_of (up_phy s))(sfn := None)"
      using retrieve_own[OF assms(1) own Some] by blast
    moreover have "phy_numerology t = phy_numerology (up_phy s)"
      using t(1) by (auto simp: RetrieveSlotAllocInfo_def res_simps dest!: own_numerology_Inr split: option.splits)
    ultimately show ?thesis
      using assms own Some by (auto simp: ue_take_alloc_def exists_own dcis_at_def)
  qed
  then show "slots_ok (up_phy s')" "phy_numerology (up_phy s') = phy_numerology (up_phy s)"
    "dcis_in (up_currSlotAllocInfo s') = dcis_at (up_phy s) sfn"
    "q \<noteq> sfn \<Longrightarrow> dcis_at (up_phy s') q = dcis_at (up_phy s) q" by blast+
qed


lemma start_slot_own:
  assumes "slots_ok (up_phy s)" and "ue_StartSlot e now macMsgs s sfn = Inr (s', out)"
  shows "slots_ok (up_phy s')" "phy_numerology (up_phy s') = phy_numerology (up_phy s)"
    "q \<noteq> sfn \<Longrightarrow> dcis_at (up_phy s) q \<subseteq> dcis_at (up_phy s') q"
    "\<exists>d t. UeScheduleStartVarTti t d \<in> set out \<and> dcis_at (up_phy s) sfn \<subseteq> insert d (dcis_in (up_currSlotAllocInfo s'))"
proof -
  obtain s1 where s1: "foldE DoSendControlMessage (s\<lparr>up_currentSlot := sfn, up_lastSlotStart := now\<rparr>) macMsgs = Inr s1"
    and r1: "bindE (ue_take_alloc s1 sfn) (\<lambda>s.
     let s = PushCtrlAllocations e s sfn in
     bindE (sfn_eq (slot_sfnSf (up_currSlotAllocInfo s)) sfn) (\<lambda>eq.
     ns_assert eq
     (bindE (TryToPerformLbt e now s) (\<lambda>(s, lbt).
      bindE (next_alloc s) (\<lambda>(d, s).
      let (ctrlMsgs, q) = PopCurrentSlotCtrlMsgs (up_phy s);
          (q, routed) = foldl (ue_route_msg e) (q, []) ctrlMsgs in
      Inr (s\<lparr>up_phy := q\<rparr>,
           UeSlotIndication sfn # lbt @ routed @ [UeScheduleStartVarTti (u_symbolPeriod e * int (unat (dci_symStart d))) d])))))) = Inr (s', out)"
    using assms(2) unfolding ue_StartSlot_def bindE_Inr_iff by blast
  have k1: "keeps p (up_phy s) (up_phy s1)" for p using sends_keeps[OF s1, of p] by simp
  obtain s2 where s2: "ue_take_alloc s1 sfn = Inr s2" using r1 unfolding bindE_Inr_iff by blast
  let ?s2 = "PushCtrlAllocations e s2 sfn"
  obtain s3 lbt where s3: "TryToPerformLbt e now ?s2 = Inr (s3, lbt)"
    using r1 s2 by (auto simp: Let_def res_simps)
  obtain d s4 where s4: "next_alloc s3 = Inr (d, s4)"
    using r1 s2 s3 by (auto simp: Let_def res_simps)
  obtain ms q1 where pop: "PopCurrentSlotCtrlMsgs (up_phy s4) = (ms, q1)" by fastforce
  obtain q2 routed where rt: "foldl (ue_route_msg e) (q1, []) ms = (q2, routed)" by fastforce
  have s': "s' = s4\<lparr>up_phy := q2\<rparr>" "UeScheduleStartVarTti (u_symbolPeriod e * int (unat (dci_symStart d))) d \<in> set out"
    using r1 s2 s3 s4 pop rt by (auto simp: Let_def res_simps)
  have ok1: "slots_ok (up_phy s1)" "phy_numerology (up_phy s1) = phy_numerology (up_phy s)" using k1 assms(1) by (auto simp: keeps_def)
  have push: "up_phy ?s2 = up_phy s2" "dcis_in (up_currSlotAllocInfo s2) \<subseteq> dcis_in (up_currSlotAllocInfo ?s2)"
    by (auto simp: PushCtrlAllocations_def dcis_in_def Let_def)
  have phy4: "up_phy s4 = up_phy s2" using lbt_phy[OF s3] next_alloc_phy[OF s4] push(1) by simp
  have k4: "keeps p (up_phy s2) q2" for p using pop_keeps[OF pop] route_keeps[OF rt] phy4 keeps_trans by metis
  note own = take_alloc_own[OF ok1(1) s2]
  show "slots_ok (up_phy s')" "phy_numerology (up_phy s') = phy_numerology (up_phy s)"
    using k4 own(1,2) ok1(2) s'(1) by (auto simp: keeps_def)
  show "dcis_at (up_phy s) q \<subseteq> dcis_at (up_phy s') q" if "q \<noteq> sfn"
    using k1[of q] k4[of q] own(1) own(4)[OF that] assms(1) s'(1) by (auto simp: keeps_def)
  have "dcis_at (up_phy s) sfn \<subseteq> dcis_in (up_currSlotAllocInfo s3)"
    using k1[of sfn] assms(1) own(3) push(2) lbt_phy[OF s3] by (auto simp: keeps_def)
  also have "\<dots> \<subseteq> insert d (dcis_in (up_currSlotAllocInfo s4))"
    using s4 by (auto simp: next_alloc_def dcis_in_def Let_def split: list.splits)
  finally show "\<exists>d t. UeScheduleStartVarTti t d \<in> set out \<and> dcis_at (up_phy s) sfn \<subseteq> insert d (dcis_in (up_currSlotAllocInfo s'))"
    using s' by auto
qed

lemma handle_keeps:
  assumes "std_sort tti_less (u_sortDeque e)" and "ue_handle e s ev = Inr (s', out)" and "\<not> starts q ev"
  shows "keeps q (up_phy s) (up_phy s')"
proof (cases ev)
  case (EvSlot now macMsgs sfn)
  then show ?thesis using start_slot_own[of s e now macMsgs sfn s' out] assms(2,3) by (auto simp: keeps_def)
next
  case (EvReceived m)
  then show ?thesis using received_keeps[OF assms(1)] assms(2) by auto
next
  case (EvStartVarTti d)
  then show ?thesis using start_tti_keeps assms(2) by auto
next
  case (EvEndVarTti now)
  then show ?thesis using end_tti_phy[of e now s] assms(2) by auto
next
  case (EvMacPdu p sfn symStart streamId)
  then show ?thesis using assms(2) SetMacPdu_keeps by (fastforce simp: on_phy_def res_simps)
next
  case (EvHarq streamId fb harqId rv)
  then show ?thesis using assms(2) harq_keeps_phy[of e s] by fastforce
qed (use assms(2) in \<open>auto simp: res_simps ue_EnqueueDlHarqFeedback_def ue_ChannelAccessGranted_def ChannelAccessDenied_def Let_def
  dest: cqi_keeps[where q = q] send_keeps[where q = q]\<close>)

lemma run_keeps:
  assumes "std_sort tti_less (u_sortDeque e)" and "uphy_run e s evs = Inr s'" and "\<forall>ev \<in> set evs. \<not> starts q ev"
  shows "keeps q (up_phy s) (up_phy s')"
  using assms(2,3)
proof (induction evs arbitrary: s)
  case (Cons ev r)
  obtain t out where t: "ue_handle e s ev = Inr (t, out)" "uphy_run e t r = Inr s'"
    using Cons.prems(1) by (auto simp: uphy_run_def res_simps)
  show ?case using handle_keeps[OF assms(1) t(1)] Cons.IH[OF t(2)] Cons.prems(2) keeps_trans by fastforce
qed (simp add: uphy_run_def)


subsection \<open>From the gNB to the slot\<close>

lemma receive_grant:
  assumes sort: "std_sort tti_less (u_sortDeque e)" and ok: "slots_ok (up_phy u)" "own_slot (up_phy u) p" and "up_currentSlot u = p"
    and "Add p (of_nat k) = Inr q" and "numerology q = numerology p" and "q \<noteq> p"
    and "dci_rnti d = up_rnti u" and "dci_type d \<noteq> CTRL"
  shows "\<exists>u1 out1. ue_PhyCtrlMessagesReceived e u (NrUlDciMessage d bwp k) = Inr (u1, out1) \<and> slots_ok (up_phy u1) \<and>
    d \<in> dcis_at (up_phy u1) q \<and> out1 = (if dci_type d = DATA then [UeReceiveControlMessage (NrUlDciMessage d bwp k)] else [])"
proof -
  have own: "own_slot (up_phy u) q" using ok(2) assms(6) by (simp add: own_slot_def)
  obtain w where w: "InsertFutureAllocation e u q d = Inr (u\<lparr>up_phy := w\<rparr>)" "slots_ok w" "d \<in> dcis_at w q"
    using insert_future[OF sort ok(1) own, of d] by auto
  have eq: "sfn_eq q p = Inr False" using sfn_eq_own[of q p] assms(6,7) by simp
  show ?thesis
    using w eq assms(4,5,8,9)
    by (cases "dci_type d") (simp_all add: receive_ul_dci_def not_for_me_def ProcessDataDci_def ProcessSrsDci_def)
qed

text \<open>
  A grant is used in the slot it is for (\<open>RetrieveMsgsFromDCIs\<close> of the gNB; \<open>PhyCtrlMessagesReceived\<close>, \<open>ProcessDataDci\<close>,
  \<open>InsertFutureAllocation\<close>, \<open>PushBackSlotAllocInfo\<close> and \<open>StartSlot\<close> of the UE). Let \<open>q\<close> be an uplink slot, and \<open>p\<close> the slot that
  lies the latency of the control channel after the one in which the MAC was asked for \<open>q\<close>. For every uplink DCI of a UE in
  the allocation of \<open>q\<close>, for data or sounding, the gNB has a message for slot \<open>p\<close>. A UE in slot \<open>p\<close> receives it without a failure,
  and hands it to its MAC when it is for data; whatever else the UE goes through until it starts slot \<open>q\<close>, other slots and
  messages included, the DCI is then the allocation that starts first or among those of the slot.
\<close>

lemma uplink_grant_reaches_slot:
  assumes "SetTddPattern (gp_tddPattern s) n2 n1 latency = Some (gp_tdd s)" and "HasUlSlot (gp_tddPattern s)" and "0 < n2"
    and "sending e s p" and "abs_slot p + horizon (gp_tddPattern s) n2 latency < 2 ^ 31"
    and "valid_sfn q" and "numerology q = numerology p" and "has_uplink (gp_tddPattern s ! (abs_slot q mod length (gp_tddPattern s)))"
    and "abs_slot p + request_delay (gp_tddPattern s) n2 latency (abs_slot q mod length (gp_tddPattern s)) = abs_slot q + latency"
    and "seen_alloc s p q = Some a" and "d \<in> set (dcis_of UL_DCI a)"
    and "std_sort tti_less (u_sortDeque ue)" and "slots_ok (up_phy u)" and "own_slot (up_phy u) p" and "up_currentSlot u = p"
    and "dci_rnti d = up_rnti u"
  shows "\<exists>ms m u1 out1. RetrieveMsgsFromDCIs e s p = Inr ms \<and> m \<in> set ms \<and> ue_PhyCtrlMessagesReceived ue u m = Inr (u1, out1) \<and>
    (dci_type d = DATA \<longrightarrow> out1 = [UeReceiveControlMessage m]) \<and>
    (\<forall>evs u2 now macMsgs u3 out3. uphy_run ue u1 evs = Inr u2 \<and> (\<forall>ev \<in> set evs. \<not> starts q ev) \<and>
       ue_StartSlot ue now macMsgs u2 q = Inr (u3, out3) \<longrightarrow>
       (\<exists>d1 t. UeScheduleStartVarTti t d1 \<in> set out3 \<and> (d = d1 \<or> d \<in> dcis_in (up_currSlotAllocInfo u3))))"
proof -
  obtain ms k where ms: "RetrieveMsgsFromDCIs e s p = Inr ms" "NrUlDciMessage d (e_bwpId e) k \<in> set ms" "n2 \<le> k" "Add p (of_nat k) = Inr q"
    using uplink_dcis_sent[OF assms(1,2,4-10)] assms(11) by blast
  let ?n = "length (gp_tddPattern s)"
  have v: "\<exists>v \<in> set (gp_tddPattern s). v \<noteq> SlotS" using assms(2) by (auto simp: HasUlSlot_iff)
  have n: "0 < ?n" using assms(2) by (auto simp: HasUlSlot_iff)
  have "n2 \<le> snd (dci_of (generation_pattern (gp_tddPattern s)) n2 (abs_slot q mod ?n))"
    using dci_of(2)[OF two_way_generation[OF v], of "abs_slot q mod ?n" n2] n by simp
  then have ne: "q \<noteq> p" using assms(3,9) by (auto simp: request_delay_def)
  have ty: "dci_type d \<noteq> CTRL" using assms(11) by (auto simp: dcis_of_def)
  obtain u1 out1 where u1: "ue_PhyCtrlMessagesReceived ue u (NrUlDciMessage d (e_bwpId e) k) = Inr (u1, out1)" "slots_ok (up_phy u1)"
    "d \<in> dcis_at (up_phy u1) q" "out1 = (if dci_type d = DATA then [UeReceiveControlMessage (NrUlDciMessage d (e_bwpId e) k)] else [])"
    using receive_grant[OF assms(12-15) ms(4) assms(7) ne assms(16) ty] by blast
  have "\<exists>d1 t. UeScheduleStartVarTti t d1 \<in> set out3 \<and> (d = d1 \<or> d \<in> dcis_in (up_currSlotAllocInfo u3))"
    if "uphy_run ue u1 evs = Inr u2" "\<forall>ev \<in> set evs. \<not> starts q ev" "ue_StartSlot ue now macMsgs u2 q = Inr (u3, out3)"
    for evs u2 now macMsgs u3 out3
  proof -
    have "slots_ok (up_phy u2)" "d \<in> dcis_at (up_phy u2) q"
      using run_keeps[OF assms(12) that(1,2)] u1(2,3) by (auto simp: keeps_def)
    then show ?thesis using start_slot_own(4)[OF _ that(3)] by blast
  qed
  then show ?thesis using ms(1,2) u1(1,4) by (intro exI[of _ ms] exI[of _ "NrUlDciMessage d (e_bwpId e) k"]) auto
qed

text \<open>The grant of \<^theory_text>\<open>demo_gphy\<close>, received by the UE it is for.\<close>

lemma demo_sort: "std_sort tti_less (u_sortDeque demo_uenv)"
  using std_sort_key[of "\<lambda>x. dci_symStart (tti_dci x)"] by (simp add: demo_uenv_def tti_less_def[abs_def])

lemma uplink_grant_reaches_slot_witness:
  "\<exists>t ms m u1. SetTddPattern [SlotDL, SlotDL, SlotS, SlotUL, SlotUL] 2 4 2 = Some t \<and>
     RetrieveMsgsFromDCIs demo_genv (demo_gphy t :: (nat ue_msg, nat) nr_gnb_phy)
       \<lparr>frameNum = 0, subframeNum = 0, slotNum = 1, numerology = 1\<rparr> = Inr ms \<and> m \<in> set ms \<and>
     ue_PhyCtrlMessagesReceived demo_uenv demo_uphy m = Inr (u1, [UeReceiveControlMessage m])"
proof -
  let ?p = "[SlotDL, SlotDL, SlotS, SlotUL, SlotUL]" and ?q = "\<lparr>frameNum = 0, subframeNum = 1, slotNum = 1, numerology = 1\<rparr>"
    and ?c = "\<lparr>frameNum = 0, subframeNum = 0, slotNum = 1, numerology = 1\<rparr>"
    and ?a = "\<lparr>slot_sfnSf = \<lparr>frameNum = 0, subframeNum = 1, slotNum = 1, numerology = 1\<rparr>, slot_numSymAlloc = 10,
         slot_varTtiAllocInfo = [VarTtiAllocInfo demo_grant], slot_type = UL\<rparr>"
  have v: "\<exists>v \<in> set ?p. v \<noteq> SlotS" by simp
  obtain t where t: "SetTddPattern ?p 2 4 2 = Some t" using SetTddPattern_tables[OF v] by blast
  let ?s = "demo_gphy t :: (nat ue_msg, nat) nr_gnb_phy" and ?e = "demo_genv :: nat ue_msg gphy_env"
  have f: "gp_tddPattern ?s = ?p" "gp_tdd ?s = t" "gp_currentSlot ?s = ?c" by (simp_all add: demo_gphy_def)
  have sl: "abs_slot ?c = 1" "abs_slot ?q = 3" by (simp_all add: abs_slot_def slots_per_sf_def)
  have c: "sending ?e ?s ?c"
    by (simp add: sending_def demo_genv_def demo_gphy_def slots_ok_def own_slot_def valid_sfn_def slots_per_sf_def dci_fits_def
        SlotAllocInfo_def VarTtiAllocInfo_def demo_grant_def Dci_data_def)
  have a: "seen_alloc ?s ?c ?q = Some ?a" by (simp add: seen_alloc_def demo_gphy_def alloc_of_def)
  have d: "demo_grant \<in> set (dcis_of UL_DCI ?a)" by (simp add: dcis_of_def VarTtiAllocInfo_def demo_grant_def Dci_data_def)
  have u: "slots_ok (up_phy demo_uphy)" "own_slot (up_phy demo_uphy) ?c" "up_currentSlot demo_uphy = ?c" "dci_rnti demo_grant = up_rnti demo_uphy"
    by (simp_all add: demo_uphy_def demo_grant_def Dci_data_def slots_ok_def own_slot_def)
  have ty: "dci_type demo_grant = DATA" by (simp add: demo_grant_def Dci_data_def)
  have "\<exists>ms m u1 out1. RetrieveMsgsFromDCIs ?e ?s ?c = Inr ms \<and> m \<in> set ms \<and>
      ue_PhyCtrlMessagesReceived demo_uenv demo_uphy m = Inr (u1, out1) \<and>
      (dci_type demo_grant = DATA \<longrightarrow> out1 = [UeReceiveControlMessage m]) \<and>
      (\<forall>evs u2 now macMsgs u3 out3. uphy_run demo_uenv u1 evs = Inr u2 \<and> (\<forall>ev \<in> set evs. \<not> starts ?q ev) \<and>
         ue_StartSlot demo_uenv now macMsgs u2 ?q = Inr (u3, out3) \<longrightarrow>
         (\<exists>d1 t. UeScheduleStartVarTti t d1 \<in> set out3 \<and> (demo_grant = d1 \<or> demo_grant \<in> dcis_in (up_currSlotAllocInfo u3))))"
    by (rule uplink_grant_reaches_slot[where ?n1.0 = 4 and latency = 2 and ?n2.0 = 2, OF _ _ _ c _ _ _ _ _ a d demo_sort u])
      (use t sl demo_delay in \<open>simp_all add: f horizon_def valid_sfn_def slots_per_sf_def has_uplink_def\<close>)
  then show ?thesis using t ty by auto
qed

end
