(* ===== verification/UeFeedback.thy ===== *)
theory UeFeedback
  imports UePhy
begin

text \<open>
  Downlink HARQ feedback of a UE with several streams. The comments say the PHY merges the outcomes of the streams of a
  transport block into one feedback; it reports each stream by itself, and the scheduler takes the first report for the whole.
\<close>

lemma map_of_single_AList [simp]: "AList.update k v [] = [(k, v)]" "AList.delete k [(k, v)] = []"
  by simp_all

lemma count_stream_simps [simp]: "count_stream k [] = [(k, 1)]" "count_stream k [(k, 1)] = [(k, 1)]"
  by (simp_all add: count_stream_def)

lemma dl_expect_counts:
  assumes "foldE (dl_expect e d) (s, out) is = Inr (s', out')" and "m = [] \<or> m = [(dci_harqProcess d, 1)]"
    and "up_activeDlDataStreamsPerHarqId s = m"
  shows "up_activeDlDataStreamsPerHarqId s' = (if \<exists>i \<in> set is. dci_tbSize d ! i > 0 then [(dci_harqProcess d, 1)] else m) \<and>
    up_dlHarqInfo s' = up_dlHarqInfo s \<and> up_rnti s' = up_rnti s"
  using assms
proof (induction "is" arbitrary: s out m)
  case (Cons i r)
  obtain t out1 where t: "dl_expect e d (s, out) i = Inr (t, out1)" "foldE (dl_expect e d) (t, out1) r = Inr (s', out')"
    using Cons.prems(1) by (auto simp: res_simps)
  have u: "up_activeDlDataStreamsPerHarqId t = (if dci_tbSize d ! i > 0 then [(dci_harqProcess d, 1)] else m)"
    "up_dlHarqInfo t = up_dlHarqInfo s" "up_rnti t = up_rnti s"
    using t(1) Cons.prems(2,3) by (auto simp: dl_expect_def Let_def res_simps split: if_splits)
  show ?case
    using Cons.IH[OF t(2) _ u(1)] u(2,3) Cons.prems(2) by (cases "dci_tbSize d ! i > 0") simp_all
qed simp

lemma DlData_counts:
  assumes "ue_DlData e s d = Inr (s1, out)" and "i < length (dci_tbSize d)" and "dci_tbSize d ! i > 0"
  shows "up_activeDlDataStreamsPerHarqId s1 = [(dci_harqProcess d, 1)]" "up_dlHarqInfo s1 = []" "up_rnti s1 = up_rnti s"
  using assms dl_expect_counts[of e d _ "[]" "[0..<length (dci_tbSize d)]" s1 out "[]"]
  by (fastforce simp: ue_DlData_def Let_def ns_assert_Inr_iff)+

lemma one_status:
  assumes "i < n" and "fb \<noteq> HNONE"
  shows "length (filter (\<lambda>h. h \<noteq> HNONE) ((replicate n HNONE)[i := fb])) = 1"
proof -
  have "(replicate n HNONE)[i := fb] = replicate i HNONE @ fb # replicate (n - Suc i) HNONE"
    using assms(1) by (simp add: list_eq_iff_nth_eq nth_append nth_Cons' nth_list_update)
  then show ?thesis using assms(2) by simp
qed

definition stream_feedback :: "'x uphy_env \<Rightarrow> ('x, 'p) nr_ue_phy \<Rightarrow> u8 \<Rightarrow> nat \<Rightarrow> HarqStatus \<Rightarrow> u8 \<Rightarrow> DlHarqInfo" where
  "stream_feedback e s harqId i fb rv =
     (new_feedback e s harqId)\<lparr>dlh_harqStatus := (replicate (u_streams e) HNONE)[i := fb], dlh_numRetx := (replicate (u_streams e) 255)[i := rv]\<rparr>"

lemma reported_apart:
  assumes "up_activeDlDataStreamsPerHarqId s = [(harqId, 1)]" and "up_dlHarqInfo s = []"
    and "i < u_streams e" and "i < 256" and "fb \<noteq> HNONE"
  shows "NotifyDlHarqFeedback e s (of_nat i) fb harqId rv = Inr (s, [PhyDlHarqFeedback (stream_feedback e s harqId i fb rv)])"
proof -
  have i: "unat (of_nat i :: u8) = i" using assms(4) by (simp add: unsigned_of_nat take_bit_nat_eq_self_iff)
  have "(of_nat (length (filter (\<lambda>h. h \<noteq> HNONE) ((replicate (u_streams e) HNONE)[i := fb]))) :: u8) = 1"
    by (simp only: one_status[OF assms(3,5)] of_nat_1)
  then show ?thesis
    using assms i by (simp add: NotifyDlHarqFeedback_def Let_def new_feedback_def stream_feedback_def)
qed

lemma scan_one_ack:
  "i < n \<Longrightarrow> received_scan ok HNONE ((replicate n HNONE)[i := ACK]) = (True, ACK)"
proof -
  have none: "received_scan ok st (replicate n HNONE) = (ok \<or> n > 0, st)" for ok st n
    by (induction n arbitrary: ok) simp_all
  have "received_scan ok HNONE (replicate i HNONE @ xs) = received_scan (ok \<or> i > 0) HNONE xs" for ok i xs
    by (induction i arbitrary: ok) simp_all
  moreover assume "i < n"
  then have "(replicate n HNONE)[i := ACK] = replicate i HNONE @ ACK # replicate (n - Suc i) HNONE"
    by (simp add: list_eq_iff_nth_eq nth_append nth_Cons' nth_list_update)
  ultimately show ?thesis by (simp add: none)
qed

lemma nacks_one: "j < n \<Longrightarrow> nack_indexes 0 ((replicate n HNONE)[j := NACK]) = [of_nat j]"
proof -
  have "nack_indexes k (replicate n HNONE) = []" for k n by (induction n arbitrary: k) simp_all
  moreover have "nack_indexes k (replicate i HNONE @ NACK # xs) = of_nat (k + i) # nack_indexes (Suc (k + i)) xs" for k i xs
    by (induction i arbitrary: k) simp_all
  moreover assume "j < n"
  then have "(replicate n HNONE)[j := NACK] = replicate j HNONE @ NACK # replicate (n - Suc j) HNONE"
    by (simp add: list_eq_iff_nth_eq nth_append nth_Cons' nth_list_update)
  ultimately show ?thesis by simp
qed

text \<open>
  A stream that was not received is not sent again when another of the same transport block was (\<open>DlData\<close> and
  \<open>NotifyDlHarqFeedback\<close> of the UE; the removal of duplicates and \<open>ProcessHARQFeedbacks\<close> of the scheduler). The count of the
  streams of a HARQ process is set to 1 where it should be raised, so the outcome of each stream is reported by itself, at
  once, although the comments say that they are merged. The scheduler drops the second report of a process as a duplicate:
  with an ACK first, the process is freed and the NACK of the other stream is lost.
\<close>

lemma stream_nack_lost:
  assumes "ue_DlData e s d = Inr (s1, out)" and "i < length (dci_tbSize d)" and "dci_tbSize d ! i > 0"
    and "i < u_streams e" and "j < u_streams e" and "u_streams e \<le> 256"
    and "side_wf dl_fns m" and "proc_at dl_fns m (up_rnti s, dci_harqProcess d) = Some p" and "m_active p"
  shows "\<exists>h1 h2 m'. NotifyDlHarqFeedback e s1 (of_nat i) ACK (dci_harqProcess d) rv1 = Inr (s1, [PhyDlHarqFeedback h1]) \<and>
    NotifyDlHarqFeedback e s1 (of_nat j) NACK (dci_harqProcess d) rv2 = Inr (s1, [PhyDlHarqFeedback h2]) \<and>
    dl_GetNackStreamIndexes h2 = [of_nat j] \<and>
    drop_late_or_duplicated dl_fns m (\<lambda>_. None) [h1, h2] = Inr [h1] \<and>
    ProcessHARQFeedbacks dl_fns retx m [h1] = Inr (m', []) \<and>
    proc_at dl_fns m' (up_rnti s, dci_harqProcess d) = Some (process_Erase p)"
proof -
  let ?id = "dci_harqProcess d" and ?h1 = "stream_feedback e s1 (dci_harqProcess d) i ACK rv1"
    and ?h2 = "stream_feedback e s1 (dci_harqProcess d) j NACK rv2"
  note c = DlData_counts[OF assms(1-3)]
  have keys: "fb_key dl_fns ?h1 = (up_rnti s, ?id)" "fb_key dl_fns ?h2 = (up_rnti s, ?id)"
    by (simp_all add: fb_key_def stream_feedback_def new_feedback_def c(3))
  have status: "dlh_harqStatus ?h1 = (replicate (u_streams e) HNONE)[i := ACK]" "dlh_harqStatus ?h2 = (replicate (u_streams e) HNONE)[j := NACK]"
    by (simp_all add: stream_feedback_def)
  have ok: "f_ok dl_fns ?h1 = Inr True" by (simp add: dl_IsReceivedOk_def status scan_one_ack[OF assms(4)])
  have proc: "process_of dl_fns m ?h1 = Inr p" "process_of dl_fns m ?h2 = Inr p"
    using assms(8) keys by (simp_all add: process_of_Some)
  have drop: "drop_late_or_duplicated dl_fns m (\<lambda>_. None) [?h1, ?h2] = Inr [?h1]"
    using proc assms(9) keys by (simp add: fb_key_def)
  obtain m' where m': "ProcessHARQFeedbacks dl_fns retx m [?h1] = Inr (m', dl_side.kept (if retx then 3 else 0) m [?h1])"
    "\<forall>h \<in> set [?h1]. proc_at dl_fns m' (fb_key dl_fns h) = map_option (dl_side.outcome (if retx then 3 else 0) h) (proc_at dl_fns m (fb_key dl_fns h))"
    using dl_side.ProcessHARQFeedbacks_ok[OF assms(7), of "[?h1]" "if retx then 3 else 0" retx] assms(8,9) keys ok by auto
  have "proc_at dl_fns m' (up_rnti s, ?id) = Some (process_Erase p)"
    using m'(2) assms(8) keys ok by (simp add: dl_side.outcome_def)
  moreover have "dl_side.kept (if retx then 3 else 0) m [?h1] = []" using ok by (simp add: dl_side.kept_def)
  moreover have "NotifyDlHarqFeedback e s1 (of_nat i) ACK ?id rv1 = Inr (s1, [PhyDlHarqFeedback ?h1])"
    "NotifyDlHarqFeedback e s1 (of_nat j) NACK ?id rv2 = Inr (s1, [PhyDlHarqFeedback ?h2])"
    using reported_apart[OF c(1,2)] assms(4-6) by auto
  moreover have "dl_GetNackStreamIndexes ?h2 = [of_nat j]" by (simp add: dl_GetNackStreamIndexes_def status nacks_one[OF assms(5)])
  ultimately show ?thesis using drop m'(1) by (intro exI[of _ ?h1] exI[of _ ?h2] exI[of _ m']) simp
qed


text \<open>A transport block on two streams, for the waiting process of \<^theory_text>\<open>demo_waiting_sched\<close>.\<close>

definition demo_two_streams :: dci where
  "demo_two_streams = (Dci_data 7 DL_DCI 1 10 [10, 9] [500, 400] [1, 1] [0, 0] DATA 0 1)\<lparr>dci_rbgBitmask := [1, 1]\<rparr>"

lemma stream_nack_lost_witness:
  "\<exists>s1 out h1 h2 m'. ue_DlData demo_uenv demo_uphy demo_two_streams = Inr (s1, out) \<and>
     NotifyDlHarqFeedback demo_uenv s1 0 ACK 0 0 = Inr (s1, [PhyDlHarqFeedback h1]) \<and>
     NotifyDlHarqFeedback demo_uenv s1 1 NACK 0 0 = Inr (s1, [PhyDlHarqFeedback h2]) \<and>
     bindE (drop_late_or_duplicated dl_fns (s_ueMap demo_waiting_sched) (\<lambda>_. None) [h1, h2])
       (ProcessHARQFeedbacks dl_fns True (s_ueMap demo_waiting_sched)) = Inr (m', [])"
proof -
  let ?m = "s_ueMap demo_waiting_sched"
  have "\<exists>s1 out. ue_DlData demo_uenv demo_uphy demo_two_streams = Inr (s1, out)"
    by (simp add: ue_DlData_def dl_expect_def demo_uenv_def demo_uphy_def demo_two_streams_def Dci_data_def Let_def
        vec_at_def upt_conv_Cons del: upt_Suc)
  then obtain s1 out where d: "ue_DlData demo_uenv demo_uphy demo_two_streams = Inr (s1, out)" by blast
  have wf: "side_wf dl_fns ?m"
    using demo_waiting_ready(1) demo_vector_wf by (auto simp: dl_ready_def side_wf_def demo_waiting_sched_def)
  have p: "proc_at dl_fns ?m (up_rnti demo_uphy, dci_harqProcess demo_two_streams) = Some demo_waiting" "m_active demo_waiting"
    by (simp_all add: proc_at_def demo_waiting_sched_def demo_vector_def demo_uphy_def demo_two_streams_def Dci_data_def
        demo_waiting_def HarqProcess_def)
  have "\<exists>h1 h2 m'. NotifyDlHarqFeedback demo_uenv s1 (of_nat 0) ACK (dci_harqProcess demo_two_streams) 0 = Inr (s1, [PhyDlHarqFeedback h1]) \<and>
      NotifyDlHarqFeedback demo_uenv s1 (of_nat 1) NACK (dci_harqProcess demo_two_streams) 0 = Inr (s1, [PhyDlHarqFeedback h2]) \<and>
      dl_GetNackStreamIndexes h2 = [of_nat 1] \<and> drop_late_or_duplicated dl_fns ?m (\<lambda>_. None) [h1, h2] = Inr [h1] \<and>
      ProcessHARQFeedbacks dl_fns True ?m [h1] = Inr (m', []) \<and>
      proc_at dl_fns m' (up_rnti demo_uphy, dci_harqProcess demo_two_streams) = Some (process_Erase demo_waiting)"
    by (rule stream_nack_lost[OF d _ _ _ _ _ wf p])
      (simp_all add: demo_two_streams_def Dci_data_def demo_uenv_def)
  moreover have "dci_harqProcess demo_two_streams = 0" by (simp add: demo_two_streams_def Dci_data_def)
  ultimately show ?thesis using d by (auto simp del: drop_late_or_duplicated.simps)
qed

end
