(* ===== verification/UeTimeline.thy ===== *)
theory UeTimeline
  imports UeGrants
begin

text \<open>
  The chain of events of a slot: every allocation is started at its first symbol, in order, and the next slot starts when
  this one is over. \<open>slot_rest\<close> plays the part of the simulator, from the end of an allocation on.
\<close>

fun slot_rest :: "'x uphy_env \<Rightarrow> nat \<Rightarrow> int \<Rightarrow> ('x, 'p) nr_ue_phy \<Rightarrow> ((int \<times> dci) list \<times> int \<times> sfnsf \<times> ('x, 'p) nr_ue_phy) res option" where
  "slot_rest e 0 now s = None"
| "slot_rest e (Suc n) now s =
     (case ue_EndVarTti e now s of
        Inl er \<Rightarrow> Some (Inl er)
      | Inr (s, out) \<Rightarrow>
          (case last out of
             UeScheduleStartSlot delay next \<Rightarrow> Some (Inr ([], now + delay, next, s))
           | UeScheduleStartVarTti delay d \<Rightarrow>
               (case ue_StartVarTti e s d of
                  Inl er \<Rightarrow> Some (Inl er)
                | Inr (s, out) \<Rightarrow>
                    (case last out of
                       UeScheduleEndVarTti duration _ \<Rightarrow>
                         map_option (\<lambda>r. bindE r (\<lambda>(started, end). Inr ((now + delay, d) # started, end)))
                           (slot_rest e n (now + delay + duration) s)
                     | _ \<Rightarrow> None))
           | _ \<Rightarrow> None))"

subsection \<open>What an allocation needs to start\<close>

definition startable :: "'x uphy_env \<Rightarrow> u16 \<Rightarrow> dci \<Rightarrow> bool" where
  "startable e rnti d \<longleftrightarrow>
     (case dci_type d of
        CTRL \<Rightarrow> dci_format d = UL_DCI \<and> 0 < u_streams e
      | SRS \<Rightarrow> dci_format d = UL_DCI
      | DATA \<Rightarrow> (case dci_format d of
            UL_DCI \<Rightarrow> dci_tbSize d \<noteq> []
          | DL_DCI \<Rightarrow> dci_rnti d = rnti \<and> (\<forall>i < length (dci_tbSize d). dci_tbSize d ! i > 0 \<longrightarrow>
              i < u_streams e \<and> i < length (dci_ndi d) \<and> i < length (dci_mcs d) \<and> i < length (dci_rv d))))"

definition slot_frame :: "('x, 'p) nr_ue_phy \<Rightarrow> ('x, 'p) nr_ue_phy \<Rightarrow> bool" where
  "slot_frame s s' \<longleftrightarrow> up_rnti s' = up_rnti s \<and> up_dlHarqInfo s' = up_dlHarqInfo s \<and> up_currentSlot s' = up_currentSlot s \<and>
     up_lastSlotStart s' = up_lastSlotStart s \<and> up_currSlotAllocInfo s' = up_currSlotAllocInfo s \<and>
     up_tryToPerformLbt s' = up_tryToPerformLbt s \<and> phy_numerology (up_phy s') = phy_numerology (up_phy s)"

lemma frame_trans: "slot_frame s t \<Longrightarrow> slot_frame t u \<Longrightarrow> slot_frame s u"
  by (simp add: slot_frame_def)

lemma dl_expect_frame:
  assumes "\<forall>i \<in> set is. dci_tbSize d ! i > 0 \<longrightarrow>
      i < u_streams e \<and> i < length (dci_ndi d) \<and> i < length (dci_mcs d) \<and> i < length (dci_rv d)"
  shows "\<exists>s' out'. foldE (dl_expect e d) (s, out) is = Inr (s', out') \<and> slot_frame s s'"
  using assms
proof (induction "is" arbitrary: s out)
  case Nil
  then show ?case by (simp add: slot_frame_def)
next
  case (Cons i r)
  obtain t out1 where t: "dl_expect e d (s, out) i = Inr (t, out1)" "slot_frame s t"
    using Cons.prems by (cases "dci_tbSize d ! i > 0") (auto simp: dl_expect_def Let_def slot_frame_def)
  show ?case using Cons.IH[of t out1] Cons.prems t frame_trans by fastforce
qed

lemma DlData_starts:
  assumes "startable e (up_rnti s) d" and "dci_type d = DATA" and "dci_format d = DL_DCI" and "up_dlHarqInfo s = []"
  shows "\<exists>s' out. ue_DlData e s d = Inr (s', out) \<and> slot_frame s s'"
proof -
  let ?s = "s\<lparr>up_receptionEnabled := True, up_activeDlDataStreams := 0, up_activeDlDataStreamsPerHarqId := []\<rparr>"
  have "slot_frame s ?s" by (simp add: slot_frame_def)
  moreover obtain s' out where "foldE (dl_expect e d) (?s, []) [0..<length (dci_tbSize d)] = Inr (s', out)" "slot_frame ?s s'"
    using dl_expect_frame[of "[0..<length (dci_tbSize d)]" d e ?s "[]"] assms(1-3) by (auto simp: startable_def)
  ultimately show ?thesis using assms frame_trans by (auto simp: ue_DlData_def startable_def)
qed

lemma UlData_starts:
  assumes "dci_tbSize d \<noteq> []" and "own_slot (up_phy s) (up_currentSlot s)"
  shows "\<exists>s' out. ue_UlData e s d = Inr (s', out) \<and> slot_frame s s'"
proof -
  obtain key where key: "GetEncForStreamWithSymStart (up_currentSlot s) 0 (dci_symStart d) = Inr key"
    by (simp add: GetEncForStreamWithSymStart_def)
  show ?thesis
  proof (cases "map_of (phy_packetBurstMap (up_phy s)) key")
    case None
    then show ?thesis using assms key by (simp add: ue_UlData_def GetPacketBurst_def slot_frame_def)
  next
    case (Some b)
    then show ?thesis using assms key
      by (cases "length b = 0") (simp_all add: ue_UlData_def GetPacketBurst_def slot_frame_def vec_at_def)
  qed
qed

lemma kind_starts:
  assumes "startable e (up_rnti s) d" and "up_dlHarqInfo s = []" and "own_slot (up_phy s) (up_currentSlot s)"
  shows "\<exists>s' out. started_kind e s d = Inr (s', out) \<and> slot_frame s s'"
proof (cases "dci_type d")
  case SRS
  then show ?thesis using assms(1)
    by (simp add: startable_def started_kind_def ue_UlSrs_def ChannelAccessDenied_def slot_frame_def)
next
  case DATA
  show ?thesis
  proof (cases "dci_format d")
    case DL_DCI
    then show ?thesis using DlData_starts[OF assms(1) DATA _ assms(2)] DATA by (simp add: started_kind_def)
  next
    case UL_DCI
    then show ?thesis using UlData_starts[of d s e] assms DATA by (simp add: started_kind_def startable_def)
  qed
next
  case CTRL
  then show ?thesis using assms(1)
    by (simp add: startable_def started_kind_def ue_UlCtrl_def ChannelAccessDenied_def slot_frame_def)
qed

definition duration :: "'x uphy_env \<Rightarrow> dci \<Rightarrow> int" where
  "duration e d = u_symbolPeriod e * int (unat (dci_numSym d))"

lemma alloc_starts:
  assumes "startable e (up_rnti s) d" and "up_dlHarqInfo s = []" and "own_slot (up_phy s) (up_currentSlot s)"
  shows "\<exists>s' out. ue_StartVarTti e s d = Inr (s', out) \<and> slot_frame s s' \<and> last out = UeScheduleEndVarTti (duration e d) d"
proof -
  let ?s = "s\<lparr>up_currTbs := (if dci_tbSize d = [] then up_currTbs s else last (dci_tbSize d)), up_receptionEnabled := False\<rparr>"
  have f: "slot_frame s ?s" by (simp add: slot_frame_def)
  obtain s' out where k: "started_kind e ?s d = Inr (s', out)" "slot_frame ?s s'"
    using kind_starts[of e ?s d] assms by auto
  have "\<not> (dci_type d = SRS \<and> dci_format d = DL_DCI)" using assms(1) by (auto simp: startable_def)
  then show ?thesis using k frame_trans[OF f k(2)] by (auto simp: start_tti_eq duration_def)
qed

subsection \<open>The end of an allocation\<close>

lemma lbt_data_cases:
  "lbt_data e limit (s, out) x = (s, out) \<or> lbt_data e limit (s, out) x = (s\<lparr>up_channelStatus := UeGRANTED\<rparr>, out @ [CancelLbt])"
  unfolding lbt_data_def Let_def prod.case by meson

lemma lbt_frame:
  assumes "up_channelStatus s \<noteq> UeGRANTED \<and> snd (ul_ctrl (slot_varTtiAllocInfo (up_currSlotAllocInfo s))) \<noteq> 0 \<longrightarrow>
      now + 25000 \<le> up_lastSlotStart s + u_symbolPeriod e * int (unat (fst (ul_ctrl (slot_varTtiAllocInfo (up_currSlotAllocInfo s)))))"
  shows "\<exists>s' out. TryToPerformLbt e now s = Inr (s', out) \<and> slot_frame s s'"
proof -
  let ?xs = "slot_varTtiAllocInfo (up_currSlotAllocInfo s)"
  obtain c n where c: "ul_ctrl ?xs = (c, n)" by fastforce
  have fold: "slot_frame s (fst (foldl (lbt_data e limit) (s, out) xs)) \<and>
      (up_channelStatus s = UeGRANTED \<longrightarrow> up_channelStatus (fst (foldl (lbt_data e limit) (s, out) xs)) = UeGRANTED)" for limit out xs
  proof (induction xs arbitrary: s out)
    case (Cons x r)
    obtain t o1 where t: "lbt_data e limit (s, out) x = (t, o1)" by fastforce
    have "slot_frame s t \<and> (up_channelStatus s = UeGRANTED \<longrightarrow> up_channelStatus t = UeGRANTED)"
      using lbt_data_cases[of e limit s out x] t by (auto simp: slot_frame_def)
    then show ?case using Cons.IH[of t o1] frame_trans[of s t] by (auto simp: t)
  qed (simp add: slot_frame_def)
  show ?thesis
  proof (cases "n = 0")
    case True
    then show ?thesis by (simp add: TryToPerformLbt_def c slot_frame_def)
  next
    case False
    let ?limit = "up_lastSlotStart s + u_slotPeriod e - int (unat (u_symPerSlot e - ucast c)) * u_symbolPeriod e - u_lbtThreshold e"
    obtain t out where t: "foldl (lbt_data e ?limit) (s, []) ?xs = (t, out)" by fastforce
    have f: "slot_frame s t" "up_channelStatus s = UeGRANTED \<longrightarrow> up_channelStatus t = UeGRANTED"
      using fold[of ?limit "[]" ?xs] unfolding t fst_conv by blast+
    show ?thesis
    proof (cases "up_channelStatus t = UeGRANTED")
      case True
      then show ?thesis using f t False by (simp add: TryToPerformLbt_def c Let_def)
    next
      case nt: False
      then have "up_channelStatus s \<noteq> UeGRANTED" using f(2) by blast
      then have "0 \<le> up_lastSlotStart t - now + u_symbolPeriod e * int (unat c) - 25000"
        using assms c False f(1) by (simp add: slot_frame_def)
      then show ?thesis using f(1) t False nt by (simp add: TryToPerformLbt_def c Let_def schedule_def)
    qed
  qed
qed


subsection \<open>The chain\<close>

definition start_time :: "'x uphy_env \<Rightarrow> ('x, 'p) nr_ue_phy \<Rightarrow> dci \<Rightarrow> int" where
  "start_time e s d = up_lastSlotStart s + u_symbolPeriod e * int (unat (dci_symStart d))"

text \<open>Each allocation starts when the one before has ended, and the last one ends in the slot.\<close>

fun timeline_order :: "nat \<Rightarrow> nat \<Rightarrow> dci list \<Rightarrow> bool" where
  "timeline_order symbols end [] = (end \<le> symbols)"
| "timeline_order symbols end (d # r) = (end \<le> unat (dci_symStart d) \<and> timeline_order symbols (unat (dci_symStart d) + unat (dci_numSym d)) r)"

definition allocs_of :: "('x, 'p) nr_ue_phy \<Rightarrow> dci list" where
  "allocs_of s = map tti_dci (slot_varTtiAllocInfo (up_currSlotAllocInfo s))"

lemma timeline_order_end: "timeline_order n k ds \<Longrightarrow> k \<le> n"
  by (induction ds arbitrary: k) fastforce+

text \<open>The end of an allocation that leads to another, and of the last one; no listening is due.\<close>

lemma end_next:
  assumes "\<not> up_tryToPerformLbt s" and "allocs_of s = d # r" and "now \<le> start_time e s d"
  shows "\<exists>s'. ue_EndVarTti e now s = Inr (s', [UeScheduleStartVarTti (start_time e s d - now) d]) \<and> allocs_of s' = r \<and>
    up_rnti s' = up_rnti s \<and> up_dlHarqInfo s' = up_dlHarqInfo s \<and> up_currentSlot s' = up_currentSlot s \<and>
    up_lastSlotStart s' = up_lastSlotStart s \<and> \<not> up_tryToPerformLbt s' \<and> phy_numerology (up_phy s') = phy_numerology (up_phy s)"
proof -
  obtain x xs where x: "slot_varTtiAllocInfo (up_currSlotAllocInfo s) = x # xs" "tti_dci x = d" "map tti_dci xs = r"
    using assms(2) by (auto simp: allocs_of_def)
  have "0 \<le> u_symbolPeriod e * int (unat (dci_symStart d)) + up_lastSlotStart s - now"
    using assms(3) by (simp add: start_time_def)
  then show ?thesis
    using assms(1) x
    by (simp add: ue_EndVarTti_def next_alloc_def schedule_def allocs_of_def start_time_def algebra_simps)
qed

lemma end_last:
  assumes "\<not> up_tryToPerformLbt s" and "allocs_of s = []" and "now \<le> up_lastSlotStart s + u_slotPeriod e"
    and "Add (up_currentSlot s) 1 = Inr nxt"
  shows "\<exists>s'. ue_EndVarTti e now s = Inr (s', [UeScheduleStartSlot (up_lastSlotStart s + u_slotPeriod e - now) nxt]) \<and> up_currentSlot s' = nxt"
  using assms by (simp add: ue_EndVarTti_def schedule_def allocs_of_def)

lemma chain_from:
  assumes "\<not> up_tryToPerformLbt s" and "up_dlHarqInfo s = []" and "own_slot (up_phy s) (up_currentSlot s)"
    and "Add (up_currentSlot s) 1 = Inr nxt" and "\<forall>d \<in> set (allocs_of s). startable e (up_rnti s) d"
    and "timeline_order (unat (u_symPerSlot e)) k (allocs_of s)" and "now = up_lastSlotStart s + u_symbolPeriod e * int k"
    and "0 < u_symbolPeriod e" and "u_symbolPeriod e * int (unat (u_symPerSlot e)) \<le> u_slotPeriod e"
    and "length (allocs_of s) < n"
  shows "\<exists>s'. slot_rest e n now s =
    Some (Inr (map (\<lambda>d. (start_time e s d, d)) (allocs_of s), up_lastSlotStart s + u_slotPeriod e, nxt, s')) \<and> up_currentSlot s' = nxt"
  using assms
proof (induction "allocs_of s" arbitrary: s k now n)
  case Nil
  then obtain m where n: "n = Suc m" by (metis gr0_conv_Suc list.size(3))
  have "k \<le> unat (u_symPerSlot e)" using Nil by simp
  then have "int k \<le> int (unat (u_symPerSlot e))" by (simp only: of_nat_le_iff)
  then have "u_symbolPeriod e * int k \<le> u_slotPeriod e"
    using Nil.prems(8,9) mult_left_mono[of "int k" "int (unat (u_symPerSlot e))" "u_symbolPeriod e"] by linarith
  then have "now \<le> up_lastSlotStart s + u_slotPeriod e" using Nil.prems(7) by simp
  then show ?case using end_last[OF Nil.prems(1) _ _ Nil.prems(4)] Nil n by fastforce
next
  case (Cons d r)
  obtain m where n: "n = Suc m" using Cons.prems(10) by (cases n) simp_all
  have al: "allocs_of s = d # r" by (rule Cons.hyps(2)[symmetric])
  have k0: "k \<le> unat (dci_symStart d)" "timeline_order (unat (u_symPerSlot e)) (unat (dci_symStart d) + unat (dci_numSym d)) r"
    using Cons.prems(6) by (simp_all add: al)
  then have k: "int k \<le> int (unat (dci_symStart d))" "timeline_order (unat (u_symPerSlot e)) (unat (dci_symStart d) + unat (dci_numSym d)) r"
    by (simp_all only: of_nat_le_iff)
  have "now \<le> start_time e s d"
    using Cons.prems(7,8) mult_left_mono[OF k(1), of "u_symbolPeriod e"] by (simp add: start_time_def)
  from end_next[OF Cons.prems(1) al this] obtain s1 where s1:
    "ue_EndVarTti e now s = Inr (s1, [UeScheduleStartVarTti (start_time e s d - now) d])" "allocs_of s1 = r" "up_rnti s1 = up_rnti s"
    "up_dlHarqInfo s1 = up_dlHarqInfo s" "up_currentSlot s1 = up_currentSlot s" "up_lastSlotStart s1 = up_lastSlotStart s"
    "\<not> up_tryToPerformLbt s1" "phy_numerology (up_phy s1) = phy_numerology (up_phy s)" by blast
  have own1: "own_slot (up_phy s1) (up_currentSlot s1)" using Cons.prems(3) s1(5,8) by (simp add: own_slot_def)
  have st: "startable e (up_rnti s1) d" using Cons.prems(5) s1(3) by (simp add: al)
  obtain s2 out where s2: "ue_StartVarTti e s1 d = Inr (s2, out)" "slot_frame s1 s2" "last out = UeScheduleEndVarTti (duration e d) d"
    using alloc_starts[OF st _ own1] Cons.prems(2) s1(4) by auto
  let ?k = "unat (dci_symStart d) + unat (dci_numSym d)" and ?now = "start_time e s d + duration e d"
  have f: "allocs_of s2 = r" "\<not> up_tryToPerformLbt s2" "up_dlHarqInfo s2 = []" "own_slot (up_phy s2) (up_currentSlot s2)"
    "up_currentSlot s2 = up_currentSlot s" "up_rnti s2 = up_rnti s" "up_lastSlotStart s2 = up_lastSlotStart s"
    using s2(2) s1 own1 Cons.prems(2) by (simp_all add: slot_frame_def allocs_of_def own_slot_def)
  have "\<exists>s'. slot_rest e m ?now s2 =
      Some (Inr (map (\<lambda>d. (start_time e s2 d, d)) (allocs_of s2), up_lastSlotStart s2 + u_slotPeriod e, nxt, s')) \<and> up_currentSlot s' = nxt"
    by (rule Cons.hyps(1)[of s2 ?k ?now m])
      (use f k(2) Cons.prems(4,5,8,9,10) n in \<open>simp_all add: al start_time_def duration_def algebra_simps\<close>)
  then show ?case using n al s1(1) s2(1,3) f(1,7) by (auto simp: start_time_def)
qed


text \<open>After the downlink control symbols the UE may have to plan for listening to the channel.\<close>

lemma end_lbt:
  assumes "up_tryToPerformLbt s" and "TryToPerformLbt e now s = Inr (t, lbt)"
  shows "slot_rest e (Suc n) now s = slot_rest e (Suc n) now (t\<lparr>up_tryToPerformLbt := False\<rparr>)"
proof -
  let ?t = "t\<lparr>up_tryToPerformLbt := False\<rparr>"
  have eq: "ue_EndVarTti e now s = bindE (ue_EndVarTti e now ?t) (\<lambda>(s, out). Inr (s, lbt @ out))"
    using assms by (simp add: ue_EndVarTti_def bindE_assoc split_def)
  have "out \<noteq> []" if "ue_EndVarTti e now ?t = Inr (s', out)" for s' out
    using that by (auto simp: ue_EndVarTti_def res_simps schedule_def Let_def split: if_splits)
  then show ?thesis unfolding slot_rest.simps eq by (cases "ue_EndVarTti e now ?t") auto
qed

text \<open>
  The UE keeps to the timetable of its slot (\<open>EndVarTti\<close>, \<open>StartVarTti\<close> and all they call). At the end of an
  allocation, let the remaining ones of the slot, for data of both directions, sounding or uplink control, be in the order of
  their symbols without overlap, inside the slot, each well-formed, and the uplink control far enough away to listen before
  it, unless the channel is granted. Then the chain of events goes through without a failure: every remaining allocation is
  started exactly once, at its first symbol, and the next slot starts when the slot is over.
\<close>

lemma ue_slot_timeline:
  assumes "up_dlHarqInfo s = []" and "own_slot (up_phy s) (up_currentSlot s)" and "valid_sfn (up_currentSlot s)"
    and "\<forall>d \<in> set (allocs_of s). startable e (up_rnti s) d"
    and "timeline_order (unat (u_symPerSlot e)) k (allocs_of s)" and "now = up_lastSlotStart s + u_symbolPeriod e * int k"
    and "0 < u_symbolPeriod e" and "u_symbolPeriod e * int (unat (u_symPerSlot e)) \<le> u_slotPeriod e"
    and "up_channelStatus s \<noteq> UeGRANTED \<and> snd (ul_ctrl (slot_varTtiAllocInfo (up_currSlotAllocInfo s))) \<noteq> 0 \<longrightarrow>
      now + 25000 \<le> up_lastSlotStart s + u_symbolPeriod e * int (unat (fst (ul_ctrl (slot_varTtiAllocInfo (up_currSlotAllocInfo s)))))"
  shows "\<exists>nxt s'. Add (up_currentSlot s) 1 = Inr nxt \<and> up_currentSlot s' = nxt \<and>
    slot_rest e (Suc (length (allocs_of s))) now s =
      Some (Inr (map (\<lambda>d. (up_lastSlotStart s + u_symbolPeriod e * int (unat (dci_symStart d)), d)) (allocs_of s),
        up_lastSlotStart s + u_slotPeriod e, nxt, s'))"
proof -
  obtain nxt where nxt: "Add (up_currentSlot s) 1 = Inr nxt" using Add_valid[OF assms(3), of 1] by auto
  obtain t where t: "slot_frame s t \<or> slot_frame (s\<lparr>up_tryToPerformLbt := False\<rparr>) t" "\<not> up_tryToPerformLbt t"
    "slot_rest e (Suc (length (allocs_of s))) now s = slot_rest e (Suc (length (allocs_of s))) now t"
  proof (cases "up_tryToPerformLbt s")
    case True
    obtain u lbt where u: "TryToPerformLbt e now s = Inr (u, lbt)" "slot_frame s u" using lbt_frame[OF assms(9)] by blast
    show ?thesis
      by (rule that[of "u\<lparr>up_tryToPerformLbt := False\<rparr>"]) (use u end_lbt[OF True u(1)] in \<open>simp_all add: slot_frame_def\<close>)
  next
    case False
    show ?thesis by (rule that[of s]) (simp_all add: False slot_frame_def)
  qed
  have f: "allocs_of t = allocs_of s" "up_dlHarqInfo t = []" "up_rnti t = up_rnti s" "up_currentSlot t = up_currentSlot s"
    "up_lastSlotStart t = up_lastSlotStart s" "own_slot (up_phy t) (up_currentSlot t)"
    using t(1) assms(1,2) by (auto simp: slot_frame_def allocs_of_def own_slot_def)
  have "\<exists>s'. slot_rest e (Suc (length (allocs_of t))) now t =
      Some (Inr (map (\<lambda>d. (start_time e t d, d)) (allocs_of t), up_lastSlotStart t + u_slotPeriod e, nxt, s')) \<and> up_currentSlot s' = nxt"
    by (rule chain_from[where k = k]) (use t(2) f assms(4-8) nxt in simp_all)
  then show ?thesis using nxt t(3) f(1,5) by (auto simp: start_time_def)
qed

text \<open>After the downlink control symbol of a slot: downlink data, uplink data and the uplink control symbol.\<close>

definition demo_ue_slot :: "(nat, nat) nr_ue_phy" where
  "demo_ue_slot = demo_uphy\<lparr>up_tryToPerformLbt := True, up_channelStatus := UeNONE,
     up_currSlotAllocInfo := \<lparr>slot_sfnSf = up_currentSlot demo_uphy, slot_numSymAlloc = 0, slot_varTtiAllocInfo =
       [VarTtiAllocInfo (Dci_data 7 DL_DCI 1 5 [10, 9] [500, 400] [1, 1] [0, 0] DATA 0 1),
        VarTtiAllocInfo (Dci_data 7 UL_DCI 6 7 [10] [500] [1] [0] DATA 0 1), VarTtiAllocInfo (Dci_ctrl 13 1 UL_DCI CTRL [1])],
       slot_type = NONE\<rparr>\<rparr>"

lemma ue_slot_timeline_witness:
  "\<exists>nxt s'. slot_rest demo_uenv 4 535714 demo_ue_slot =
     Some (Inr ([(535714, Dci_data 7 DL_DCI 1 5 [10, 9] [500, 400] [1, 1] [0, 0] DATA 0 1),
       (714284, Dci_data 7 UL_DCI 6 7 [10] [500] [1] [0] DATA 0 1), (964282, Dci_ctrl 13 1 UL_DCI CTRL [1])], 1000000, nxt, s'))"
proof -
  let ?f = "\<lambda>d. (up_lastSlotStart demo_ue_slot + u_symbolPeriod demo_uenv * int (unat (dci_symStart d)), d)"
  have st: "\<forall>d \<in> set (allocs_of demo_ue_slot). startable demo_uenv (up_rnti demo_ue_slot) d"
    by (simp add: allocs_of_def demo_ue_slot_def demo_uphy_def demo_uenv_def startable_def VarTtiAllocInfo_def Dci_data_def Dci_ctrl_def less_Suc_eq)
  have "\<exists>nxt s'. Add (up_currentSlot demo_ue_slot) 1 = Inr nxt \<and> up_currentSlot s' = nxt \<and>
      slot_rest demo_uenv (Suc (length (allocs_of demo_ue_slot))) 535714 demo_ue_slot =
        Some (Inr (map ?f (allocs_of demo_ue_slot), up_lastSlotStart demo_ue_slot + u_slotPeriod demo_uenv, nxt, s'))"
    by (rule ue_slot_timeline[OF _ _ _ st, where k = 1])
      (simp_all add: allocs_of_def demo_ue_slot_def demo_uphy_def demo_uenv_def VarTtiAllocInfo_def Dci_data_def Dci_ctrl_def
        own_slot_def valid_sfn_def slots_per_sf_def)
  moreover have "length (allocs_of demo_ue_slot) = 3" "up_lastSlotStart demo_ue_slot + u_slotPeriod demo_uenv = 1000000"
    by (simp_all add: allocs_of_def demo_ue_slot_def demo_uphy_def demo_uenv_def)
  moreover have "map ?f (allocs_of demo_ue_slot) = [(535714, Dci_data 7 DL_DCI 1 5 [10, 9] [500, 400] [1, 1] [0, 0] DATA 0 1),
       (714284, Dci_data 7 UL_DCI 6 7 [10] [500] [1] [0] DATA 0 1), (964282, Dci_ctrl 13 1 UL_DCI CTRL [1])]"
    by (simp add: allocs_of_def demo_ue_slot_def demo_uphy_def demo_uenv_def VarTtiAllocInfo_def Dci_data_def Dci_ctrl_def)
  ultimately show ?thesis by (auto simp: numeral_eq_Suc simp del: slot_rest.simps)
qed

end
