(* ===== verification/SpectrumRx.thy ===== *)
theory SpectrumRx
  imports UePhy
begin

text \<open>
  Reception: class \<open>NrSpectrumPhy\<close> of \<open>contrib/nr/model/nr-spectrum-phy.cc\<close>, which is a state machine over transmissions and
  receptions, and \<open>NrHarqPhy\<close> of \<open>contrib/nr/model/nr-harq-phy.cc\<close>, which remembers the failed attempts of every HARQ process.
  The power of the signals is not modelled: the SINR that was perceived, the energy on the channel and the random numbers are
  arguments. \<open>'o\<close> is the output of the error model, \<open>'m\<close> are control messages, \<open>'p\<close> packets.
\<close>

subsection \<open>The history of the HARQ processes\<close>

type_synonym 'o proc_history = "(u8 \<times> 'o list) list"
type_synonym 'o history_map = "(u16 \<times> 'o proc_history) list"

record 'o harq_phy =
  hq_dlHistory :: "'o history_map"
  hq_ulHistory :: "'o history_map"

text \<open>The iterators: the map with the entry, and what it holds.\<close>

definition GetHistoryMapOf :: "'o history_map \<Rightarrow> u16 \<Rightarrow> 'o history_map \<times> 'o proc_history" where
  "GetHistoryMapOf m rnti = (case map_of m rnti of Some h \<Rightarrow> (m, h) | None \<Rightarrow> (map_emplace rnti [] m, []))"

definition GetProcIdHistoryMapOf :: "'o proc_history \<Rightarrow> u16 \<Rightarrow> 'o proc_history \<times> 'o list" where
  "GetProcIdHistoryMapOf m procId =
     (case map_of m (ucast procId) of Some h \<Rightarrow> (m, h) | None \<Rightarrow> (map_emplace (ucast procId) [] m, []))"

definition ResetHarqProcessStatus :: "'o history_map \<Rightarrow> u16 \<Rightarrow> u8 \<Rightarrow> 'o history_map" where
  "ResetHarqProcessStatus m rnti harqProcId =
     (let (m, procs) = GetHistoryMapOf m rnti; (procs, h) = GetProcIdHistoryMapOf procs (ucast harqProcId) in
      AList.update rnti (AList.update harqProcId [] procs) m)"

definition UpdateHarqProcessStatus :: "'o history_map \<Rightarrow> u16 \<Rightarrow> u8 \<Rightarrow> 'o \<Rightarrow> 'o history_map" where
  "UpdateHarqProcessStatus m rnti harqProcId output =
     (let (m, procs) = GetHistoryMapOf m rnti; (procs, h) = GetProcIdHistoryMapOf procs (ucast harqProcId) in
      AList.update rnti (AList.update harqProcId (h @ [output]) procs) m)"

definition GetHarqProcessInfo :: "'o history_map \<Rightarrow> u16 \<Rightarrow> u8 \<Rightarrow> 'o list \<times> 'o history_map" where
  "GetHarqProcessInfo m rnti harqProcId =
     (let (m, procs) = GetHistoryMapOf m rnti; (procs, h) = GetProcIdHistoryMapOf procs (ucast harqProcId) in
      (h, AList.update rnti procs m))"

definition GetHarqProcessInfoDl :: "'o harq_phy \<Rightarrow> u16 \<Rightarrow> u8 \<Rightarrow> 'o list \<times> 'o harq_phy" where
  "GetHarqProcessInfoDl s rnti harqProcId =
     (let (h, m) = GetHarqProcessInfo (hq_dlHistory s) rnti harqProcId in (h, s\<lparr>hq_dlHistory := m\<rparr>))"

definition GetHarqProcessInfoUl :: "'o harq_phy \<Rightarrow> u16 \<Rightarrow> u8 \<Rightarrow> 'o list \<times> 'o harq_phy" where
  "GetHarqProcessInfoUl s rnti harqProcId =
     (let (h, m) = GetHarqProcessInfo (hq_ulHistory s) rnti harqProcId in (h, s\<lparr>hq_ulHistory := m\<rparr>))"

definition UpdateDlHarqProcessStatus :: "'o harq_phy \<Rightarrow> u16 \<Rightarrow> u8 \<Rightarrow> 'o \<Rightarrow> 'o harq_phy" where
  "UpdateDlHarqProcessStatus s rnti harqProcId output =
     s\<lparr>hq_dlHistory := UpdateHarqProcessStatus (hq_dlHistory s) rnti harqProcId output\<rparr>"

definition UpdateUlHarqProcessStatus :: "'o harq_phy \<Rightarrow> u16 \<Rightarrow> u8 \<Rightarrow> 'o \<Rightarrow> 'o harq_phy" where
  "UpdateUlHarqProcessStatus s rnti harqProcId output =
     s\<lparr>hq_ulHistory := UpdateHarqProcessStatus (hq_ulHistory s) rnti harqProcId output\<rparr>"

definition ResetDlHarqProcessStatus :: "'o harq_phy \<Rightarrow> u16 \<Rightarrow> u8 \<Rightarrow> 'o harq_phy" where
  "ResetDlHarqProcessStatus s rnti harqId = s\<lparr>hq_dlHistory := ResetHarqProcessStatus (hq_dlHistory s) rnti harqId\<rparr>"

definition ResetUlHarqProcessStatus :: "'o harq_phy \<Rightarrow> u16 \<Rightarrow> u8 \<Rightarrow> 'o harq_phy" where
  "ResetUlHarqProcessStatus s rnti harqId = s\<lparr>hq_ulHistory := ResetHarqProcessStatus (hq_ulHistory s) rnti harqId\<rparr>"

subsection \<open>State\<close>

datatype SpectrumState = SpIDLE | SpTX | SpRX_DATA | SpRX_DL_CTRL | SpRX_UL_CTRL | SpRX_UL_SRS | SpCCA_BUSY

record ExpectedTb =
  et_ndi :: u8
  et_tbSize :: u32
  et_mcs :: u8
  et_rbBitmap :: "nat list"
  et_harqProcessId :: u8
  et_rv :: u8
  et_isDownlink :: bool
  et_symStart :: u8
  et_numSym :: u8
  et_sfn :: sfnsf

text \<open>The averages of the SINR of a transport block are only traced.\<close>

record 'o TransportBlockInfo =
  tb_expected :: ExpectedTb
  tb_isCorrupted :: bool
  tb_harqFeedbackSent :: bool
  tb_outputOfEM :: "'o option"

text \<open>\<open>sp_checkIfIsIdle\<close>: whether the event that looks at the channel again is running.\<close>

record ('m, 'p, 'o) spectrum_phy =
  sp_state :: SpectrumState
  sp_transportBlocks :: "(u16 \<times> 'o TransportBlockInfo) list"
  sp_rxPacketBurstList :: "'p list list"
  sp_rxControlMessageList :: "'m list"
  sp_firstRxStart :: int
  sp_firstRxDuration :: int
  sp_currentSrsRnti :: u16
  sp_checkIfIsIdle :: bool
  sp_busyTimeEnds :: int
  sp_harqPhyModule :: "'o harq_phy"

datatype ('m, 'p) rx_signal =
    DataFrame int "'p list option" "'m list"
  | DlCtrlFrame int "'m list"
  | UlCtrlFrame int "'m list"

datatype ('m, 'p) sp_out =
    ChannelOccupied int
  | StartTx "('m, 'p) rx_signal"
  | ScheduleEndTx int
  | ScheduleEndRxData int
  | ScheduleEndRxCtrl int
  | ScheduleEndRxSrs int
  | ScheduleCheckIfStillBusy int
  | CancelCheck
  | PhyRxPss u16
  | PhyRxDataEndOk 'p
  | PhyRxCtrlEndOk "'m list"
  | PhyUlHarqFeedback UlHarqInfo
  | NotifyDlHarq u8 HarqStatus u8 u8

text \<open>
  \<open>x_tbStats\<close> is the error model on the SINR that was perceived, \<open>x_tbler\<close> the error rate of its output. A packet without a
  radio bearer tag has no RNTI.
\<close>

record ('m, 'p, 'o) sp_env =
  x_isEnb :: bool
  x_cellId :: u16
  x_streamId :: u8
  x_unlicensedMode :: bool
  x_dataErrorModelEnabled :: bool
  x_tbStats :: "nat list \<Rightarrow> u32 \<Rightarrow> u8 \<Rightarrow> 'o list \<Rightarrow> 'o res"
  x_tbler :: "'o \<Rightarrow> fp"
  x_isSrs :: "'m \<Rightarrow> bool"
  x_size :: "'p \<Rightarrow> u32"
  x_rnti :: "'p \<Rightarrow> u16 option"

type_synonym ('m, 'p, 'o) sp_step = "(('m, 'p, 'o) spectrum_phy \<times> ('m, 'p) sp_out list) res"

definition ChangeState :: "SpectrumState \<Rightarrow> int \<Rightarrow> ('m, 'p, 'o) spectrum_phy \<Rightarrow> ('m, 'p, 'o) spectrum_phy \<times> ('m, 'p) sp_out list" where
  "ChangeState newState duration s =
     (s\<lparr>sp_state := newState\<rparr>,
      if newState \<in> {SpRX_DATA, SpRX_DL_CTRL, SpRX_UL_CTRL, SpTX, SpCCA_BUSY} then [ChannelOccupied duration] else [])"

subsection \<open>Clear channel assessment\<close>

text \<open>\<open>delayUntilCcaEnd\<close> is how long the energy on the channel stays above the threshold.\<close>

definition MaybeCcaBusy :: "int \<Rightarrow> int \<Rightarrow> ('m, 'p, 'o) spectrum_phy \<Rightarrow> ('m, 'p, 'o) sp_step" where
  "MaybeCcaBusy now delayUntilCcaEnd s =
     (if delayUntilCcaEnd \<noteq> 0 then
        let (s, out) = ChangeState SpCCA_BUSY delayUntilCcaEnd s in
        if sp_busyTimeEnds s < now + delayUntilCcaEnd then
          Inr (s\<lparr>sp_busyTimeEnds := now + delayUntilCcaEnd, sp_checkIfIsIdle := True\<rparr>,
               out @ (if sp_checkIfIsIdle s then [CancelCheck] else []) @ [ScheduleCheckIfStillBusy delayUntilCcaEnd])
        else Inr (s, out)
      else ns_abort_if (sp_checkIfIsIdle s) (Inr (ChangeState SpIDLE 0 s)))"

text \<open>The event that runs is no longer running.\<close>

definition CheckIfStillBusy :: "int \<Rightarrow> int \<Rightarrow> ('m, 'p, 'o) spectrum_phy \<Rightarrow> ('m, 'p, 'o) sp_step" where
  "CheckIfStillBusy now delayUntilCcaEnd s =
     (let s = s\<lparr>sp_checkIfIsIdle := False\<rparr> in
      ns_abort_if (sp_state s = SpIDLE)
      (if sp_state s = SpCCA_BUSY then MaybeCcaBusy now delayUntilCcaEnd s else Inr (s, [])))"

definition back_to_idle :: "('m, 'p, 'o) sp_env \<Rightarrow> int \<Rightarrow> int \<Rightarrow> ('m, 'p, 'o) spectrum_phy \<Rightarrow> ('m, 'p, 'o) sp_step" where
  "back_to_idle x now delayUntilCcaEnd s =
     (if x_unlicensedMode x then MaybeCcaBusy now delayUntilCcaEnd s else Inr (ChangeState SpIDLE 0 s))"

subsection \<open>Transmission\<close>

definition start_tx :: "('m, 'p) rx_signal \<Rightarrow> int \<Rightarrow> ('m, 'p, 'o) spectrum_phy \<Rightarrow> ('m, 'p, 'o) sp_step" where
  "start_tx signal duration s =
     (if sp_state s \<in> {SpIDLE, SpCCA_BUSY}
      then let (s, out) = ChangeState SpTX duration s in Inr (s, out @ [StartTx signal, ScheduleEndTx duration])
      else Inl FatalError)"

definition StartTxDataFrames :: "'p list option \<Rightarrow> 'm list \<Rightarrow> int \<Rightarrow> ('m, 'p, 'o) spectrum_phy \<Rightarrow> ('m, 'p, 'o) sp_step" where
  "StartTxDataFrames pb ctrlMsgList duration = start_tx (DataFrame duration pb ctrlMsgList) duration"

definition StartTxDlControlFrames :: "'m list \<Rightarrow> int \<Rightarrow> ('m, 'p, 'o) spectrum_phy \<Rightarrow> ('m, 'p, 'o) sp_step" where
  "StartTxDlControlFrames ctrlMsgList duration = start_tx (DlCtrlFrame duration ctrlMsgList) duration"

definition StartTxUlControlFrames :: "'m list \<Rightarrow> int \<Rightarrow> ('m, 'p, 'o) spectrum_phy \<Rightarrow> ('m, 'p, 'o) sp_step" where
  "StartTxUlControlFrames ctrlMsgList duration = start_tx (UlCtrlFrame duration ctrlMsgList) duration"

definition EndTx :: "('m, 'p, 'o) sp_env \<Rightarrow> int \<Rightarrow> int \<Rightarrow> ('m, 'p, 'o) spectrum_phy \<Rightarrow> ('m, 'p, 'o) sp_step" where
  "EndTx x now delayUntilCcaEnd s = ns_assert (sp_state s = SpTX) (back_to_idle x now delayUntilCcaEnd s)"


subsection \<open>The start of a reception\<close>

definition sp_AddExpectedTb :: "u16 \<Rightarrow> ExpectedTb \<Rightarrow> ('m, 'p, 'o) spectrum_phy \<Rightarrow> ('m, 'p, 'o) spectrum_phy" where
  "sp_AddExpectedTb rnti expected s =
     s\<lparr>sp_transportBlocks := map_emplace rnti
         \<lparr>tb_expected = expected, tb_isCorrupted = False, tb_harqFeedbackSent = False, tb_outputOfEM = None\<rparr>
         (AList.delete rnti (sp_transportBlocks s))\<rparr>"

definition sp_AddExpectedSrsRnti :: "u16 \<Rightarrow> ('m, 'p, 'o) spectrum_phy \<Rightarrow> ('m, 'p, 'o) spectrum_phy" where
  "sp_AddExpectedSrsRnti rnti s = s\<lparr>sp_currentSrsRnti := rnti\<rparr>"

text \<open>\<open>overlap\<close>: the signal is on resource blocks on which the device itself transmits.\<close>

definition StartRxData :: "('m, 'p, 'o) sp_env \<Rightarrow> bool \<Rightarrow> int \<Rightarrow> int \<Rightarrow> 'p list option \<Rightarrow> 'm list \<Rightarrow> ('m, 'p, 'o) spectrum_phy \<Rightarrow>
    ('m, 'p, 'o) sp_step" where
  "StartRxData x overlap now duration packetBurst ctrlMsgList s =
     (if sp_state s = SpTX then
        (if x_isEnb x then Inl FatalError else ns_assert (\<not> overlap) (Inr (s, [])))
      else if sp_state s \<in> {SpRX_DL_CTRL, SpRX_UL_CTRL, SpRX_UL_SRS} then Inl FatalError
      else
        bindE (if sp_rxPacketBurstList s = [] then
                 ns_assert (sp_state s \<in> {SpIDLE, SpCCA_BUSY})
                 (Inr (s\<lparr>sp_firstRxStart := now, sp_firstRxDuration := duration\<rparr>, [ScheduleEndRxData duration]))
               else
                 ns_assert (sp_state s = SpRX_DATA)
                 (ns_assert (sp_firstRxStart s = now \<and> sp_firstRxDuration s = duration) (Inr (s, [])))) (\<lambda>(s, out).
        let (s, occupied) = ChangeState SpRX_DATA duration s in
        Inr (s\<lparr>sp_rxPacketBurstList := sp_rxPacketBurstList s @
                 (case packetBurst of Some b \<Rightarrow> if b \<noteq> [] then [b] else [] | None \<Rightarrow> []),
               sp_rxControlMessageList := sp_rxControlMessageList s @ ctrlMsgList\<rparr>, out @ occupied)))"

definition StartRxDlCtrl :: "('m, 'p, 'o) sp_env \<Rightarrow> int \<Rightarrow> 'm list \<Rightarrow> ('m, 'p, 'o) spectrum_phy \<Rightarrow> ('m, 'p, 'o) sp_step" where
  "StartRxDlCtrl x duration ctrlMsgList s =
     ns_assert (\<not> x_isEnb x)
     (if sp_state s \<in> {SpIDLE, SpCCA_BUSY} then
        ns_assert (sp_rxControlMessageList s = [])
        (let (s, occupied) = ChangeState SpRX_DL_CTRL duration (s\<lparr>sp_rxControlMessageList := ctrlMsgList\<rparr>) in
         Inr (s, ScheduleEndRxCtrl duration # occupied))
      else Inl FatalError)"

definition StartRxUlCtrl :: "('m, 'p, 'o) sp_env \<Rightarrow> int \<Rightarrow> int \<Rightarrow> 'm list \<Rightarrow> ('m, 'p, 'o) spectrum_phy \<Rightarrow> ('m, 'p, 'o) sp_step" where
  "StartRxUlCtrl x now duration ctrlMsgList s =
     ns_assert (x_isEnb x)
     (if sp_state s \<in> {SpIDLE, SpCCA_BUSY} then
        ns_assert (sp_rxControlMessageList s = [])
        (let (s, occupied) = ChangeState SpRX_UL_CTRL duration
               (s\<lparr>sp_firstRxStart := now, sp_firstRxDuration := duration, sp_rxControlMessageList := ctrlMsgList\<rparr>) in
         Inr (s, ScheduleEndRxCtrl duration # occupied))
      else if sp_state s = SpRX_UL_CTRL then
        ns_assert (sp_firstRxStart s = now \<and> sp_firstRxDuration s = duration)
        (Inr (s\<lparr>sp_rxControlMessageList := sp_rxControlMessageList s @ ctrlMsgList\<rparr>, []))
      else Inl FatalError)"

definition StartRxSrs :: "('m, 'p, 'o) sp_env \<Rightarrow> int \<Rightarrow> int \<Rightarrow> 'm list \<Rightarrow> ('m, 'p, 'o) spectrum_phy \<Rightarrow> ('m, 'p, 'o) sp_step" where
  "StartRxSrs x now duration ctrlMsgList s =
     ns_assert (x_isEnb x \<and> sp_state s \<noteq> SpRX_UL_SRS \<and> (\<exists>m. ctrlMsgList = [m] \<and> x_isSrs x m))
     (if sp_state s \<in> {SpIDLE, SpCCA_BUSY} then
        ns_assert (sp_rxControlMessageList s = [])
        (let (s, occupied) = ChangeState SpRX_UL_SRS duration
               (s\<lparr>sp_firstRxStart := now, sp_firstRxDuration := duration, sp_rxControlMessageList := ctrlMsgList\<rparr>) in
         Inr (s, ScheduleEndRxSrs duration # occupied))
      else Inl FatalError)"

definition IsOnlySrs :: "('m, 'p, 'o) sp_env \<Rightarrow> 'm list \<Rightarrow> bool res" where
  "IsOnlySrs x ctrlMsgList = ns_assert (ctrlMsgList \<noteq> []) (Inr (length ctrlMsgList = 1 \<and> x_isSrs x (hd ctrlMsgList)))"

text \<open>A signal and the cell and stream of its transmitter; \<open>None\<close> is a signal that is not of this technology.\<close>

definition rx_dispatch :: "('m, 'p, 'o) sp_env \<Rightarrow> bool \<Rightarrow> int \<Rightarrow> u16 \<Rightarrow> u8 \<Rightarrow> ('m, 'p) rx_signal option \<Rightarrow> ('m, 'p, 'o) spectrum_phy \<Rightarrow>
    ('m, 'p, 'o) sp_step" where
  "rx_dispatch x overlap now cellId streamId signal s =
     (let mine = (cellId = x_cellId x \<and> streamId = x_streamId x) in
      case signal of
        None \<Rightarrow> Inr (s, [])
      | Some (DataFrame duration pb msgs) \<Rightarrow> if mine then StartRxData x overlap now duration pb msgs s else Inr (s, [])
      | Some (DlCtrlFrame duration msgs) \<Rightarrow>
          if \<not> x_isEnb x then
            (if mine then bindE (StartRxDlCtrl x duration msgs s) (\<lambda>(s, out). Inr (s, PhyRxPss cellId # out))
             else Inr (s, [PhyRxPss cellId]))
          else Inr (s, [])
      | Some (UlCtrlFrame duration msgs) \<Rightarrow>
          if x_isEnb x \<and> mine then
            bindE (IsOnlySrs x msgs) (\<lambda>only. if only then StartRxSrs x now duration msgs s else StartRxUlCtrl x now duration msgs s)
          else Inr (s, []))"

definition other_stream :: "('m, 'p, 'o) sp_env \<Rightarrow> u16 \<Rightarrow> u8 \<Rightarrow> ('m, 'p) rx_signal option \<Rightarrow> bool" where
  "other_stream x cellId streamId signal \<longleftrightarrow>
     cellId = x_cellId x \<and> streamId \<noteq> x_streamId x \<and> (case signal of Some (UlCtrlFrame _ _) \<Rightarrow> False | None \<Rightarrow> False | _ \<Rightarrow> True)"

definition StartRx :: "('m, 'p, 'o) sp_env \<Rightarrow> bool \<Rightarrow> int \<Rightarrow> int \<Rightarrow> u16 \<Rightarrow> u8 \<Rightarrow> ('m, 'p) rx_signal option \<Rightarrow> ('m, 'p, 'o) spectrum_phy \<Rightarrow>
    ('m, 'p, 'o) sp_step" where
  "StartRx x overlap now delayUntilCcaEnd cellId streamId signal s =
     (if other_stream x cellId streamId signal then Inr (s, [])
      else
        bindE (rx_dispatch x overlap now cellId streamId signal s) (\<lambda>(s, out).
        if x_unlicensedMode x \<and> sp_state s = SpIDLE
        then bindE (MaybeCcaBusy now delayUntilCcaEnd s) (\<lambda>(s, out1). Inr (s, out @ out1))
        else Inr (s, out)))"

subsection \<open>The end of a reception\<close>

text \<open>
  The first loop of \<open>EndRxData\<close>: is the transport block corrupted? \<open>draw\<close> is the random number that is drawn for it. Without
  the error model, or when nothing was received, the block stays as it is.
\<close>

definition evaluate_tb :: "('m, 'p, 'o) sp_env \<Rightarrow> (u16 \<Rightarrow> fp) \<Rightarrow> bool \<Rightarrow> u16 \<times> 'o TransportBlockInfo \<Rightarrow> 'o harq_phy \<Rightarrow>
    ((u16 \<times> 'o TransportBlockInfo) \<times> 'o harq_phy) res" where
  "evaluate_tb x draw received = (\<lambda>(rnti, tb) hq.
     if \<not> x_dataErrorModelEnabled x \<or> \<not> received then Inr ((rnti, tb), hq)
     else
       let ex = tb_expected tb;
           (harqInfoList, hq) = (if et_isDownlink ex then GetHarqProcessInfoDl else GetHarqProcessInfoUl) hq rnti (et_harqProcessId ex) in
       bindE (x_tbStats x (et_rbBitmap ex) (et_tbSize ex) (et_mcs ex) harqInfoList) (\<lambda>output.
       Inr ((rnti, tb\<lparr>tb_outputOfEM := Some output, tb_isCorrupted := \<not> fp_less (x_tbler x output) (draw rnti)\<rparr>), hq)))"

fun evaluate_tbs :: "('m, 'p, 'o) sp_env \<Rightarrow> (u16 \<Rightarrow> fp) \<Rightarrow> bool \<Rightarrow> (u16 \<times> 'o TransportBlockInfo) list \<Rightarrow> 'o harq_phy \<Rightarrow>
    ((u16 \<times> 'o TransportBlockInfo) list \<times> 'o harq_phy) res" where
  "evaluate_tbs x draw received [] hq = Inr ([], hq)"
| "evaluate_tbs x draw received (tb # r) hq =
     bindE (evaluate_tb x draw received tb hq) (\<lambda>(tb, hq).
     bindE (evaluate_tbs x draw received r hq) (\<lambda>(r, hq). Inr (tb # r, hq)))"

text \<open>The history of a process is forgotten when its block was received or was the last one allowed.\<close>

definition arrange_history :: "u16 \<Rightarrow> 'o TransportBlockInfo \<Rightarrow> 'o harq_phy \<Rightarrow> 'o harq_phy res" where
  "arrange_history rnti tb hq =
     (let ex = tb_expected tb in
      if \<not> tb_isCorrupted tb \<or> et_rv ex = 3
      then Inr ((if et_isDownlink ex then ResetDlHarqProcessStatus else ResetUlHarqProcessStatus) hq rnti (et_harqProcessId ex))
      else (case tb_outputOfEM tb of
              None \<Rightarrow> Inl Undefined
            | Some output \<Rightarrow> Inr ((if et_isDownlink ex then UpdateDlHarqProcessStatus else UpdateUlHarqProcessStatus) hq rnti
                 (et_harqProcessId ex) output)))"

definition harq_feedback :: "('m, 'p, 'o) sp_env \<Rightarrow> u16 \<Rightarrow> 'o TransportBlockInfo \<Rightarrow> ('m, 'p) sp_out" where
  "harq_feedback x rnti tb =
     (let ex = tb_expected tb in
      if \<not> et_isDownlink ex
      then PhyUlHarqFeedback \<lparr>ulh_rnti = rnti, ulh_harqProcessId = et_harqProcessId ex, ulh_bwpIndex = 255, ulh_ulReception = [],
             ulh_receptionStatus = (if tb_isCorrupted tb then NotOk else Ok), ulh_tpc = 0, ulh_numRetx = et_rv ex\<rparr>
      else NotifyDlHarq (x_streamId x) (if tb_isCorrupted tb then NACK else ACK) (et_harqProcessId ex) (et_rv ex))"

definition receive_packet :: "('m, 'p, 'o) sp_env \<Rightarrow> ('m, 'p, 'o) spectrum_phy \<times> ('m, 'p) sp_out list \<Rightarrow> 'p \<Rightarrow> ('m, 'p, 'o) sp_step" where
  "receive_packet x = (\<lambda>(s, out) packet.
     if x_size x packet = 0 then Inr (s, out)
     else case x_rnti x packet of
       None \<Rightarrow> Inl FatalError
     | Some rnti \<Rightarrow>
         (case map_of (sp_transportBlocks s) rnti of
            None \<Rightarrow> Inr (s, out)
          | Some tb \<Rightarrow>
              let out = out @ (if \<not> tb_isCorrupted tb then [PhyRxDataEndOk packet] else []) in
              if tb_harqFeedbackSent tb then Inr (s, out)
              else bindE (arrange_history rnti tb (sp_harqPhyModule s)) (\<lambda>hq.
                Inr (s\<lparr>sp_transportBlocks := AList.update rnti (tb\<lparr>tb_harqFeedbackSent := True\<rparr>) (sp_transportBlocks s),
                       sp_harqPhyModule := hq\<rparr>, out @ [harq_feedback x rnti tb]))))"

definition EndRxData :: "('m, 'p, 'o) sp_env \<Rightarrow> (u16 \<Rightarrow> fp) \<Rightarrow> int \<Rightarrow> int \<Rightarrow> ('m, 'p, 'o) spectrum_phy \<Rightarrow> ('m, 'p, 'o) sp_step" where
  "EndRxData x draw now delayUntilCcaEnd s =
     ns_assert (sp_state s = SpRX_DATA)
     (bindE (evaluate_tbs x draw (sp_rxPacketBurstList s \<noteq> []) (sp_transportBlocks s) (sp_harqPhyModule s)) (\<lambda>(tbs, hq).
      bindE (foldE (receive_packet x) (s\<lparr>sp_transportBlocks := tbs, sp_harqPhyModule := hq\<rparr>, []) (concat (sp_rxPacketBurstList s))) (\<lambda>(s, out).
      let out = out @ (if sp_rxControlMessageList s \<noteq> [] then [PhyRxCtrlEndOk (sp_rxControlMessageList s)] else []) in
      bindE (back_to_idle x now delayUntilCcaEnd s) (\<lambda>(s, out1).
      Inr (s\<lparr>sp_rxPacketBurstList := [], sp_transportBlocks := [], sp_rxControlMessageList := []\<rparr>, out @ out1)))))"

definition EndRxCtrl :: "('m, 'p, 'o) sp_env \<Rightarrow> int \<Rightarrow> int \<Rightarrow> ('m, 'p, 'o) spectrum_phy \<Rightarrow> ('m, 'p, 'o) sp_step" where
  "EndRxCtrl x now delayUntilCcaEnd s =
     ns_assert (sp_state s \<in> {SpRX_DL_CTRL, SpRX_UL_CTRL})
     (let out = (if sp_rxControlMessageList s \<noteq> [] then [PhyRxCtrlEndOk (sp_rxControlMessageList s)] else []) in
      bindE (back_to_idle x now delayUntilCcaEnd s) (\<lambda>(s, out1). Inr (s\<lparr>sp_rxControlMessageList := []\<rparr>, out @ out1)))"

definition EndRxSrs :: "('m, 'p, 'o) sp_env \<Rightarrow> int \<Rightarrow> int \<Rightarrow> ('m, 'p, 'o) spectrum_phy \<Rightarrow> ('m, 'p, 'o) sp_step" where
  "EndRxSrs x now delayUntilCcaEnd s =
     ns_assert (sp_state s = SpRX_UL_SRS \<and> length (sp_rxControlMessageList s) = 1)
     (let out = [PhyRxCtrlEndOk (sp_rxControlMessageList s)] in
      bindE (back_to_idle x now delayUntilCcaEnd s) (\<lambda>(s, out1). Inr (s\<lparr>sp_rxControlMessageList := []\<rparr>, out @ out1)))"

end
