(* ===== verification/Reception.thy ===== *)
theory Reception
  imports SpectrumRx
begin

text \<open>
  What the end of a reception promises to the MAC and to the HARQ: what is delivered, what is reported, what is remembered.
\<close>

subsection \<open>The history is a function of UE and process\<close>

definition history :: "'o history_map \<Rightarrow> u16 \<times> u8 \<Rightarrow> 'o list" where
  "history m = (\<lambda>(rnti, i). case map_of m rnti of None \<Rightarrow> []
     | Some procs \<Rightarrow> (case map_of procs i of None \<Rightarrow> [] | Some h \<Rightarrow> h))"

lemma history_entry:
  assumes "GetHistoryMapOf m rnti = (m1, procs)" and "GetProcIdHistoryMapOf procs (ucast i) = (procs1, h)"
  shows "h = history m (rnti, i)" "history (AList.update rnti procs1 m1) = history m"
    "history (AList.update rnti (AList.update i h' procs1) m1) = (history m)((rnti, i) := h')"
  using assms
  by (auto simp: GetHistoryMapOf_def GetProcIdHistoryMapOf_def history_def ucast_u8_u16_u8 map_of_emplace map_of_update fun_eq_iff
      split: option.splits if_splits)

lemma history_Get: "GetHarqProcessInfo m rnti i = (h, m') \<Longrightarrow> h = history m (rnti, i) \<and> history m' = history m"
  by (auto simp: GetHarqProcessInfo_def Let_def split: prod.splits dest: history_entry)

lemma history_Reset: "history (ResetHarqProcessStatus m rnti i) = (history m)((rnti, i) := [])"
  by (auto simp: ResetHarqProcessStatus_def Let_def split: prod.splits dest: history_entry)

lemma history_Update: "history (UpdateHarqProcessStatus m rnti i output) = (history m)((rnti, i) := history m (rnti, i) @ [output])"
  by (auto simp: UpdateHarqProcessStatus_def Let_def split: prod.splits dest: history_entry)

definition histories :: "'o harq_phy \<Rightarrow> bool \<Rightarrow> u16 \<times> u8 \<Rightarrow> 'o list" where
  "histories hq dl = history (if dl then hq_dlHistory hq else hq_ulHistory hq)"

lemma histories_Get:
  "(if dl then GetHarqProcessInfoDl else GetHarqProcessInfoUl) hq rnti i = (h, hq') \<Longrightarrow>
     h = histories hq dl (rnti, i) \<and> histories hq' = histories hq"
  by (auto simp: GetHarqProcessInfoDl_def GetHarqProcessInfoUl_def histories_def fun_eq_iff split: prod.splits if_splits
      dest: history_Get)

subsection \<open>The first loop: which blocks are corrupted\<close>

definition block_key :: "u16 \<Rightarrow> 'o TransportBlockInfo \<Rightarrow> bool \<times> u16 \<times> u8" where
  "block_key rnti tb = (et_isDownlink (tb_expected tb), rnti, et_harqProcessId (tb_expected tb))"

definition past :: "'o harq_phy \<Rightarrow> bool \<times> u16 \<times> u8 \<Rightarrow> 'o list" where
  "past hq = (\<lambda>(dl, k). histories hq dl k)"

definition stats :: "('m, 'p, 'o) sp_env \<Rightarrow> 'o harq_phy \<Rightarrow> u16 \<Rightarrow> 'o TransportBlockInfo \<Rightarrow> 'o res" where
  "stats x hq rnti tb = (let ex = tb_expected tb in
     x_tbStats x (et_rbBitmap ex) (et_tbSize ex) (et_mcs ex) (past hq (block_key rnti tb)))"

definition output_of :: "('m, 'p, 'o) sp_env \<Rightarrow> 'o harq_phy \<Rightarrow> u16 \<Rightarrow> 'o TransportBlockInfo \<Rightarrow> 'o" where
  "output_of x hq rnti tb = projr (stats x hq rnti tb)"

definition judged :: "('m, 'p, 'o) sp_env \<Rightarrow> (u16 \<Rightarrow> fp) \<Rightarrow> 'o harq_phy \<Rightarrow> u16 \<Rightarrow> 'o TransportBlockInfo \<Rightarrow> 'o TransportBlockInfo" where
  "judged x draw hq rnti tb =
     (if x_dataErrorModelEnabled x
      then tb\<lparr>tb_outputOfEM := Some (output_of x hq rnti tb), tb_isCorrupted := \<not> fp_less (x_tbler x (output_of x hq rnti tb)) (draw rnti)\<rparr>
      else tb)"

lemma stats_cong: "histories hq' = histories hq \<Longrightarrow> stats x hq' rnti tb = stats x hq rnti tb"
  unfolding stats_def past_def by (simp only:)

lemma judged_cong:
  assumes "histories hq' = histories hq"
  shows "judged x draw hq' rnti tb = judged x draw hq rnti tb"
  by (simp only: judged_def output_of_def stats_cong[OF assms])

lemma evaluate_tbs_spec:
  assumes "x_dataErrorModelEnabled x \<Longrightarrow> \<forall>(r, tb) \<in> set tbs. \<exists>v. stats x hq r tb = Inr v"
  shows "\<exists>hq'. evaluate_tbs x draw True tbs hq = Inr (map (\<lambda>(r, tb). (r, judged x draw hq r tb)) tbs, hq') \<and> histories hq' = histories hq"
  using assms
proof (induction tbs arbitrary: hq)
  case Nil
  then show ?case by simp
next
  case (Cons b r)
  obtain rnti tb where b: "b = (rnti, tb)" by (cases b) auto
  show ?case
  proof (cases "x_dataErrorModelEnabled x")
    case False
    then show ?thesis using Cons.IH[of hq] by (auto simp: b evaluate_tb_def judged_def)
  next
    case True
    let ?ex = "tb_expected tb"
    obtain h hq1 where g: "(if et_isDownlink ?ex then GetHarqProcessInfoDl else GetHarqProcessInfoUl) hq rnti (et_harqProcessId ?ex) = (h, hq1)"
      by fastforce
    have h: "h = past hq (block_key rnti tb)" "histories hq1 = histories hq"
      using histories_Get[OF g] by (simp_all add: past_def block_key_def)
    obtain v where o: "stats x hq rnti tb = Inr v" using Cons.prems True b by auto
    then have "x_tbStats x (et_rbBitmap ?ex) (et_tbSize ?ex) (et_mcs ?ex) h = Inr v" by (simp add: stats_def Let_def h(1))
    then have 1: "evaluate_tb x draw True b hq = Inr ((rnti, judged x draw hq rnti tb), hq1)"
      using True g o by (simp add: evaluate_tb_def b judged_def output_of_def Let_def)
    have "\<forall>(r, tb) \<in> set r. \<exists>v. stats x hq1 r tb = Inr v" unfolding stats_cong[OF h(2)] using Cons.prems True by auto
    then obtain hq' where "evaluate_tbs x draw True r hq1 = Inr (map (\<lambda>(r, tb). (r, judged x draw hq1 r tb)) r, hq')"
      "histories hq' = histories hq1"
      using Cons.IH[of hq1] by blast
    then show ?thesis using 1 h(2) by (auto simp: b judged_cong[OF h(2)])
  qed
qed


subsection \<open>The second loop: the packets\<close>

text \<open>The history of a process after the feedback for its block.\<close>

definition remembered :: "'o TransportBlockInfo \<Rightarrow> 'o list \<Rightarrow> 'o list" where
  "remembered tb h = (if \<not> tb_isCorrupted tb \<or> et_rv (tb_expected tb) = 3 then [] else h @ [the (tb_outputOfEM tb)])"

lemma arrange_history_spec:
  assumes "tb_isCorrupted tb \<longrightarrow> tb_outputOfEM tb \<noteq> None"
  shows "\<exists>hq'. arrange_history rnti tb hq = Inr hq' \<and>
    past hq' = (past hq)(block_key rnti tb := remembered tb (past hq (block_key rnti tb)))"
proof (cases "\<not> tb_isCorrupted tb \<or> et_rv (tb_expected tb) = 3")
  case True
  then show ?thesis
    by (auto simp: arrange_history_def remembered_def past_def block_key_def histories_def ResetDlHarqProcessStatus_def
        ResetUlHarqProcessStatus_def history_Reset fun_eq_iff Let_def)
next
  case False
  then obtain v where "tb_outputOfEM tb = Some v" using assms by auto
  then show ?thesis using False
    by (auto simp: arrange_history_def remembered_def past_def block_key_def histories_def UpdateDlHarqProcessStatus_def
        UpdateUlHarqProcessStatus_def history_Update fun_eq_iff Let_def)
qed

text \<open>The packets that belong to an expected block, and the UEs they are from.\<close>

definition belongs :: "('m, 'p, 'o) sp_env \<Rightarrow> (u16 \<Rightarrow> 'o TransportBlockInfo option) \<Rightarrow> u16 \<Rightarrow> 'p \<Rightarrow> bool" where
  "belongs x T rnti p \<longleftrightarrow> x_size x p \<noteq> 0 \<and> x_rnti x p = Some rnti \<and> T rnti \<noteq> None"

definition intact :: "('m, 'p, 'o) sp_env \<Rightarrow> (u16 \<Rightarrow> 'o TransportBlockInfo option) \<Rightarrow> 'p \<Rightarrow> bool" where
  "intact x T p \<longleftrightarrow> x_size x p \<noteq> 0 \<and> (\<exists>rnti tb. x_rnti x p = Some rnti \<and> T rnti = Some tb \<and> \<not> tb_isCorrupted tb)"

fun is_feedback :: "('m, 'p) sp_out \<Rightarrow> bool" where
  "is_feedback (PhyUlHarqFeedback h) = True"
| "is_feedback (NotifyDlHarq streamId fb i rv) = True"
| "is_feedback out = False"

fun delivered :: "('m, 'p) sp_out list \<Rightarrow> 'p list" where
  "delivered [] = []"
| "delivered (PhyRxDataEndOk p # r) = p # delivered r"
| "delivered (out # r) = delivered r"

lemma delivered_append [simp]: "delivered (a @ b) = delivered a @ delivered b"
  by (induction a rule: delivered.induct) simp_all

lemma delivered_feedback [simp]: "delivered [harq_feedback x r tb] = []" "is_feedback (harq_feedback x r tb)"
  by (simp_all add: harq_feedback_def Let_def)

text \<open>What holds after some of the packets: \<open>rs\<close> are the UEs whose block has been answered.\<close>

definition progress :: "('m, 'p, 'o) sp_env \<Rightarrow> (u16 \<Rightarrow> 'o TransportBlockInfo option) \<Rightarrow> 'o harq_phy \<Rightarrow> 'p list \<Rightarrow> u16 list \<Rightarrow>
    ('m, 'p, 'o) spectrum_phy \<Rightarrow> ('m, 'p) sp_out list \<Rightarrow> bool" where
  "progress x T hq ps rs s out \<longleftrightarrow> distinct rs \<and> set rs = {r. \<exists>p \<in> set ps. belongs x T r p} \<and>
     (\<forall>r. map_of (sp_transportBlocks s) r = map_option (\<lambda>tb. tb\<lparr>tb_harqFeedbackSent := r \<in> set rs\<rparr>) (T r)) \<and>
     delivered out = filter (intact x T) ps \<and> filter is_feedback out = map (\<lambda>r. harq_feedback x r (the (T r))) rs \<and>
     (\<forall>r tb. T r = Some tb \<longrightarrow> past (sp_harqPhyModule s) (block_key r tb) =
        (if r \<in> set rs then remembered tb (past hq (block_key r tb)) else past hq (block_key r tb))) \<and>
     (\<forall>k. (\<forall>r tb. T r = Some tb \<longrightarrow> k \<noteq> block_key r tb) \<longrightarrow> past (sp_harqPhyModule s) k = past hq k)"

definition rest_frame :: "('m, 'p, 'o) spectrum_phy \<Rightarrow> ('m, 'p, 'o) spectrum_phy \<Rightarrow> bool" where
  "rest_frame s s' \<longleftrightarrow> sp_state s' = sp_state s \<and> sp_rxControlMessageList s' = sp_rxControlMessageList s \<and>
     sp_checkIfIsIdle s' = sp_checkIfIsIdle s \<and> sp_busyTimeEnds s' = sp_busyTimeEnds s"

lemma packet_step:
  assumes I: "progress x T hq ps rs s out" and tag: "x_size x p \<noteq> 0 \<longrightarrow> x_rnti x p \<noteq> None"
    and T: "\<forall>r tb. T r = Some tb \<longrightarrow> \<not> tb_harqFeedbackSent tb \<and> (tb_isCorrupted tb \<longrightarrow> tb_outputOfEM tb \<noteq> None)"
  shows "\<exists>s' out' rs'. receive_packet x (s, out) p = Inr (s', out') \<and> progress x T hq (ps @ [p]) rs' s' out' \<and> rest_frame s s'"
proof (cases "\<exists>r. belongs x T r p")
  case False
  then have none: "map_of (sp_transportBlocks s) r = None" if "x_size x p \<noteq> 0" "x_rnti x p = Some r" for r
    using I that by (simp add: progress_def belongs_def)
  then have "receive_packet x (s, out) p = Inr (s, out)" using tag by (auto simp: receive_packet_def)
  moreover have "progress x T hq (ps @ [p]) rs s out" using I False by (auto simp: progress_def intact_def belongs_def)
  ultimately show ?thesis by (auto simp: rest_frame_def)
next
  case True
  then obtain r tb where r: "x_size x p \<noteq> 0" "x_rnti x p = Some r" "T r = Some tb" by (auto simp: belongs_def)
  let ?tb = "tb\<lparr>tb_harqFeedbackSent := r \<in> set rs\<rparr>"
  let ?out = "out @ (if \<not> tb_isCorrupted tb then [PhyRxDataEndOk p] else [])"
  have m: "map_of (sp_transportBlocks s) r = Some ?tb" using I r(3) by (simp add: progress_def)
  have bel: "belongs x T r' p \<longleftrightarrow> r' = r" for r' using r by (auto simp: belongs_def)
  have it: "intact x T p \<longleftrightarrow> \<not> tb_isCorrupted tb" using r by (auto simp: intact_def)
  have key: "block_key r ?tb = block_key r tb" "remembered ?tb = remembered tb" "harq_feedback x r ?tb = harq_feedback x r tb"
    by (simp_all add: block_key_def remembered_def fun_eq_iff harq_feedback_def)
  have del: "delivered ?out = filter (intact x T) (ps @ [p])" using I it by (simp add: progress_def)
  have fb: "filter is_feedback ?out = map (\<lambda>r. harq_feedback x r (the (T r))) rs" using I by (simp add: progress_def)
  show ?thesis
  proof (cases "r \<in> set rs")
    case old: True
    have "receive_packet x (s, out) p = Inr (s, ?out)" using r m old by (simp add: receive_packet_def)
    moreover have "progress x T hq (ps @ [p]) rs s ?out"
      using I del fb bel old unfolding progress_def by (auto simp del: delivered_append)
    ultimately show ?thesis by (auto simp: rest_frame_def)
  next
    case new: False
    obtain hq' where h: "arrange_history r ?tb (sp_harqPhyModule s) = Inr hq'"
      "past hq' = (past (sp_harqPhyModule s))(block_key r tb := remembered tb (past (sp_harqPhyModule s) (block_key r tb)))"
      using arrange_history_spec[of ?tb r "sp_harqPhyModule s"] T r(3) key by auto
    let ?s = "s\<lparr>sp_transportBlocks := AList.update r (?tb\<lparr>tb_harqFeedbackSent := True\<rparr>) (sp_transportBlocks s), sp_harqPhyModule := hq'\<rparr>"
    have "receive_packet x (s, out) p = Inr (?s, ?out @ [harq_feedback x r tb])"
      using r m new h(1) key by (simp add: receive_packet_def)
    moreover have "progress x T hq (ps @ [p]) (rs @ [r]) ?s (?out @ [harq_feedback x r tb])"
      unfolding progress_def
    proof (intro conjI allI impI)
      show "distinct (rs @ [r])" using I new by (simp add: progress_def)
      show "set (rs @ [r]) = {r. \<exists>p \<in> set (ps @ [p]). belongs x T r p}" using I bel by (auto simp: progress_def)
      show "map_of (sp_transportBlocks ?s) r' = map_option (\<lambda>tb. tb\<lparr>tb_harqFeedbackSent := r' \<in> set (rs @ [r])\<rparr>) (T r')" for r'
        using I r(3) by (auto simp: progress_def map_of_update)
      show "delivered (?out @ [harq_feedback x r tb]) = filter (intact x T) (ps @ [p])" using del by (simp del: filter_append)
      show "filter is_feedback (?out @ [harq_feedback x r tb]) = map (\<lambda>r. harq_feedback x r (the (T r))) (rs @ [r])"
        using fb r(3) by simp
      show "past (sp_harqPhyModule ?s) (block_key r' tb') =
          (if r' \<in> set (rs @ [r]) then remembered tb' (past hq (block_key r' tb')) else past hq (block_key r' tb'))"
        if "T r' = Some tb'" for r' tb'
        using I that r(3) new h(2) by (cases "r' = r") (auto simp: progress_def block_key_def)
      show "past (sp_harqPhyModule ?s) k = past hq k" if "\<forall>r tb. T r = Some tb \<longrightarrow> k \<noteq> block_key r tb" for k
      proof -
        have "past (sp_harqPhyModule s) k = past hq k" using I that unfolding progress_def by blast
        moreover have "k \<noteq> block_key r tb" using that r(3) by blast
        ultimately show ?thesis using h(2) by simp
      qed
    qed
    ultimately show ?thesis by (intro exI[of _ ?s] exI[of _ "?out @ [harq_feedback x r tb]"] exI[of _ "rs @ [r]"]) (simp add: rest_frame_def)
  qed
qed

lemma packets_loop:
  assumes "progress x T hq ps rs s out" and "\<forall>p \<in> set qs. x_size x p \<noteq> 0 \<longrightarrow> x_rnti x p \<noteq> None"
    and "\<forall>r tb. T r = Some tb \<longrightarrow> \<not> tb_harqFeedbackSent tb \<and> (tb_isCorrupted tb \<longrightarrow> tb_outputOfEM tb \<noteq> None)"
  shows "\<exists>s' out' rs'. foldE (receive_packet x) (s, out) qs = Inr (s', out') \<and> progress x T hq (ps @ qs) rs' s' out' \<and> rest_frame s s'"
  using assms(1,2)
proof (induction qs arbitrary: ps rs s out)
  case Nil
  then show ?case by (auto simp: rest_frame_def)
next
  case (Cons p qs)
  obtain t o1 rs1 where t: "receive_packet x (s, out) p = Inr (t, o1)" "progress x T hq (ps @ [p]) rs1 t o1" "rest_frame s t"
    using packet_step[OF Cons.prems(1) _ assms(3), of p] Cons.prems(2) by auto
  obtain s' out' rs' where "foldE (receive_packet x) (t, o1) qs = Inr (s', out')" "progress x T hq ((ps @ [p]) @ qs) rs' s' out'" "rest_frame t s'"
    using Cons.IH[OF t(2)] Cons.prems(2) by auto
  then show ?case using t(1,3) by (auto simp: rest_frame_def)
qed


subsection \<open>The reception as a whole\<close>

text \<open>What the reception starts from: every block is expected once, and nothing has been reported for it.\<close>

definition receiving :: "('m, 'p, 'o) sp_env \<Rightarrow> ('m, 'p, 'o) spectrum_phy \<Rightarrow> bool" where
  "receiving x s \<longleftrightarrow> sp_state s = SpRX_DATA \<and> distinct (map fst (sp_transportBlocks s)) \<and> sp_rxPacketBurstList s \<noteq> [] \<and>
     (\<forall>(r, tb) \<in> set (sp_transportBlocks s). \<not> tb_harqFeedbackSent tb \<and> \<not> tb_isCorrupted tb \<and>
        (x_dataErrorModelEnabled x \<longrightarrow> (\<exists>v. stats x (sp_harqPhyModule s) r tb = Inr v))) \<and>
     (\<forall>p \<in> set (concat (sp_rxPacketBurstList s)). x_size x p \<noteq> 0 \<longrightarrow> x_rnti x p \<noteq> None)"

definition outcome_of :: "('m, 'p, 'o) sp_env \<Rightarrow> (u16 \<Rightarrow> fp) \<Rightarrow> ('m, 'p, 'o) spectrum_phy \<Rightarrow> u16 \<Rightarrow> 'o TransportBlockInfo option" where
  "outcome_of x draw s r = map_option (judged x draw (sp_harqPhyModule s) r) (map_of (sp_transportBlocks s) r)"

text \<open>
  What the end of a reception does (\<open>EndRxData\<close> of the spectrum PHY, with all of \<open>NrHarqPhy\<close>). With expected blocks that
  have not been answered and packets that carry the tag of their bearer, it does not fail. The MAC gets, in the order they came,
  exactly the packets of those blocks that the error model has not declared corrupted. Every block of which a packet came is
  answered exactly once, for its own HARQ process, with an ACK if and only if it is intact, and no other block is. The history of
  its process is emptied after an ACK or the last retransmission, grows by the output of the error model otherwise, and that of
  every other process stays. The channel is idle again, and no block or packet is left.
\<close>

lemma reception_outcome:
  assumes "receiving x s" and "\<not> x_unlicensedMode x"
  shows "\<exists>s' out rs. EndRxData x draw now delay s = Inr (s', out) \<and>
    delivered out = filter (intact x (outcome_of x draw s)) (concat (sp_rxPacketBurstList s)) \<and>
    distinct rs \<and> set rs = {r. \<exists>p \<in> set (concat (sp_rxPacketBurstList s)). belongs x (outcome_of x draw s) r p} \<and>
    filter is_feedback out = map (\<lambda>r. harq_feedback x r (the (outcome_of x draw s r))) rs \<and>
    (\<forall>r tb. outcome_of x draw s r = Some tb \<longrightarrow> past (sp_harqPhyModule s') (block_key r tb) =
       (if r \<in> set rs then remembered tb (past (sp_harqPhyModule s) (block_key r tb)) else past (sp_harqPhyModule s) (block_key r tb))) \<and>
    (\<forall>k. (\<forall>r tb. outcome_of x draw s r = Some tb \<longrightarrow> k \<noteq> block_key r tb) \<longrightarrow>
       past (sp_harqPhyModule s') k = past (sp_harqPhyModule s) k) \<and>
    sp_state s' = SpIDLE \<and> sp_transportBlocks s' = [] \<and> sp_rxPacketBurstList s' = [] \<and> sp_rxControlMessageList s' = []"
proof -
  let ?T = "outcome_of x draw s" and ?hq = "sp_harqPhyModule s" and ?ps = "concat (sp_rxPacketBurstList s)"
  let ?tbs = "map (\<lambda>(r, tb). (r, judged x draw ?hq r tb)) (sp_transportBlocks s)"
  have st: "x_dataErrorModelEnabled x \<Longrightarrow> \<forall>(r, tb) \<in> set (sp_transportBlocks s). \<exists>v. stats x ?hq r tb = Inr v"
    using assms(1) by (auto simp: receiving_def)
  obtain hq where hq: "evaluate_tbs x draw True (sp_transportBlocks s) ?hq = Inr (?tbs, hq)" "histories hq = histories ?hq"
    using evaluate_tbs_spec[OF st] by blast
  have past: "past hq = past ?hq" using hq(2) by (simp add: past_def fun_eq_iff)
  have "map_of (map (\<lambda>(r, tb). (r, f r tb)) xs) r = map_option (f r) (map_of xs r)"
    for f :: "u16 \<Rightarrow> 'c TransportBlockInfo \<Rightarrow> 'c TransportBlockInfo" and xs r by (induction xs) auto
  then have mT: "map_of ?tbs r = ?T r" for r by (simp add: outcome_of_def)
  have T: "\<not> tb_harqFeedbackSent tb \<and> (tb_isCorrupted tb \<longrightarrow> tb_outputOfEM tb \<noteq> None)" if "?T r = Some tb" for r tb
    using that assms(1) by (auto simp: outcome_of_def receiving_def judged_def dest!: map_of_SomeD split: if_splits)
  let ?s = "s\<lparr>sp_transportBlocks := ?tbs, sp_harqPhyModule := hq\<rparr>"
  have "map_option (\<lambda>tb. tb\<lparr>tb_harqFeedbackSent := False\<rparr>) (?T r) = ?T r" for r
    using T[of r] by (cases "?T r") (auto intro: TransportBlockInfo.equality)
  then have "progress x ?T ?hq [] [] ?s []" using past by (simp add: progress_def mT)
  then obtain s1 out rs where s1: "foldE (receive_packet x) (?s, []) ?ps = Inr (s1, out)" "progress x ?T ?hq ?ps rs s1 out" "rest_frame ?s s1"
    using packets_loop[of x ?T ?hq "[]" "[]" ?s "[]" ?ps] T assms(1) by (auto simp: receiving_def)
  let ?ctrl = "if sp_rxControlMessageList s1 \<noteq> [] then [PhyRxCtrlEndOk (sp_rxControlMessageList s1)] else []"
  let ?s' = "s1\<lparr>sp_state := SpIDLE, sp_rxPacketBurstList := [], sp_transportBlocks := [], sp_rxControlMessageList := []\<rparr>"
  have "EndRxData x draw now delay s = Inr (?s', out @ ?ctrl)"
    using assms hq(1) s1(1) by (simp add: EndRxData_def receiving_def back_to_idle_def ChangeState_def Let_def)
  moreover have "delivered (out @ ?ctrl) = delivered out" "filter is_feedback (out @ ?ctrl) = filter is_feedback out" by simp_all
  ultimately show ?thesis using s1(2) unfolding progress_def by (intro exI[of _ ?s'] exI[of _ "out @ ?ctrl"] exI[of _ rs]) auto
qed


text \<open>Two UEs send to a gNB; the block of the second one is corrupted.\<close>

definition demo_tb :: "u8 \<Rightarrow> fp TransportBlockInfo" where
  "demo_tb mcs = \<lparr>tb_expected = \<lparr>et_ndi = 1, et_tbSize = 500, et_mcs = mcs, et_rbBitmap = [0, 1], et_harqProcessId = 3, et_rv = 0,
       et_isDownlink = False, et_symStart = 1, et_numSym = 4, et_sfn = \<lparr>frameNum = 0, subframeNum = 0, slotNum = 1, numerology = 1\<rparr>\<rparr>,
     tb_isCorrupted = False, tb_harqFeedbackSent = False, tb_outputOfEM = None\<rparr>"

definition demo_reception :: "(nat, nat, fp) spectrum_phy" where
  "demo_reception = \<lparr>sp_state = SpRX_DATA, sp_transportBlocks = [(7, demo_tb 4), (8, demo_tb 28)], sp_rxPacketBurstList = [[70, 71], [80]],
     sp_rxControlMessageList = [], sp_firstRxStart = 0, sp_firstRxDuration = 100, sp_currentSrsRnti = 0, sp_checkIfIsIdle = False,
     sp_busyTimeEnds = 0, sp_harqPhyModule = \<lparr>hq_dlHistory = [], hq_ulHistory = []\<rparr>\<rparr>"

definition demo_spectrum :: "(nat, nat, fp) sp_env" where
  "demo_spectrum = \<lparr>x_isEnb = True, x_cellId = 1, x_streamId = 0, x_unlicensedMode = False, x_dataErrorModelEnabled = True,
     x_tbStats = (\<lambda>rbs size mcs h. Inr (if mcs < 10 then Num 0 else Num 1)), x_tbler = id, x_isSrs = (\<lambda>_. False), x_size = (\<lambda>_. 100),
     x_rnti = (\<lambda>p. Some (if p < 80 then 7 else 8))\<rparr>"

lemma reception_outcome_witness:
  "\<exists>s' out. EndRxData demo_spectrum (\<lambda>_. Num (1 / 2)) 100 0 demo_reception = Inr (s', out) \<and> delivered out = [70, 71] \<and>
     sp_state s' = SpIDLE \<and> sp_transportBlocks s' = []"
proof -
  have r: "receiving demo_spectrum demo_reception"
    by (simp add: receiving_def demo_reception_def demo_tb_def demo_spectrum_def stats_def Let_def)
  have u: "\<not> x_unlicensedMode demo_spectrum" by (simp add: demo_spectrum_def)
  have "filter (intact demo_spectrum (outcome_of demo_spectrum (\<lambda>_. Num (1 / 2)) demo_reception)) (concat (sp_rxPacketBurstList demo_reception))
      = [70, 71]"
    by (simp add: demo_reception_def intact_def demo_spectrum_def outcome_of_def judged_def output_of_def stats_def demo_tb_def Let_def)
  then show ?thesis
    using reception_outcome[OF r u, of "\<lambda>_. Num (1 / 2)" 100 0] by auto
qed

end
