(* ===== verification/HalfDuplex.thy ===== *)
theory HalfDuplex
  imports SpectrumRx
begin

text \<open>
  The states of the spectrum PHY against the events of the simulator: whenever the end of a transmission or reception is due,
  the PHY is in the state that its handler asserts.
\<close>

datatype end_event = AtEndTx | AtEndRxData | AtEndRxCtrl | AtEndRxSrs

fun ends_of :: "('m, 'p) sp_out list \<Rightarrow> end_event list" where
  "ends_of [] = []"
| "ends_of (ScheduleEndTx d # r) = AtEndTx # ends_of r"
| "ends_of (ScheduleEndRxData d # r) = AtEndRxData # ends_of r"
| "ends_of (ScheduleEndRxCtrl d # r) = AtEndRxCtrl # ends_of r"
| "ends_of (ScheduleEndRxSrs d # r) = AtEndRxSrs # ends_of r"
| "ends_of (out # r) = ends_of r"

lemma ends_of_append [simp]: "ends_of (a @ b) = ends_of a @ ends_of b"
  by (induction a rule: ends_of.induct) simp_all

fun at_end :: "('m, 'p, 'o) sp_env \<Rightarrow> (u16 \<Rightarrow> fp) \<Rightarrow> int \<Rightarrow> int \<Rightarrow> end_event \<Rightarrow> ('m, 'p, 'o) spectrum_phy \<Rightarrow> ('m, 'p, 'o) sp_step" where
  "at_end x draw now delay AtEndTx s = EndTx x now delay s"
| "at_end x draw now delay AtEndRxData s = EndRxData x draw now delay s"
| "at_end x draw now delay AtEndRxCtrl s = EndRxCtrl x now delay s"
| "at_end x draw now delay AtEndRxSrs s = EndRxSrs x now delay s"

text \<open>
  Everything that can happen to the PHY, with the end events that are due. The SINR chunk processors only set the SINR, which
  is an argument here.
\<close>

inductive sp_reaches :: "('m, 'p, 'o) sp_env \<Rightarrow> ('m, 'p, 'o) spectrum_phy \<Rightarrow> end_event list \<Rightarrow> bool" for x where
  initially: "sp_state s = SpIDLE \<Longrightarrow> sp_rxPacketBurstList s = [] \<Longrightarrow> sp_rxControlMessageList s = [] \<Longrightarrow> sp_reaches x s []"
| expect: "sp_reaches x s due \<Longrightarrow> sp_reaches x (sp_AddExpectedTb rnti tb s) due"
| expect_srs: "sp_reaches x s due \<Longrightarrow> sp_reaches x (sp_AddExpectedSrsRnti rnti s) due"
| send_data: "sp_reaches x s due \<Longrightarrow> StartTxDataFrames pb msgs d s = Inr (s', out) \<Longrightarrow> sp_reaches x s' (due @ ends_of out)"
| send_dl_ctrl: "sp_reaches x s due \<Longrightarrow> StartTxDlControlFrames msgs d s = Inr (s', out) \<Longrightarrow> sp_reaches x s' (due @ ends_of out)"
| send_ul_ctrl: "sp_reaches x s due \<Longrightarrow> StartTxUlControlFrames msgs d s = Inr (s', out) \<Longrightarrow> sp_reaches x s' (due @ ends_of out)"
| receive: "sp_reaches x s due \<Longrightarrow> StartRx x overlap now delay cell stream signal s = Inr (s', out) \<Longrightarrow> sp_reaches x s' (due @ ends_of out)"
| check: "sp_reaches x s due \<Longrightarrow> CheckIfStillBusy now delay s = Inr (s', out) \<Longrightarrow> sp_reaches x s' (due @ ends_of out)"
| finish: "sp_reaches x s due \<Longrightarrow> ev \<in> set due \<Longrightarrow> at_end x draw now delay ev s = Inr (s', out) \<Longrightarrow>
    sp_reaches x s' (remove1 ev due @ ends_of out)"

fun end_of_state :: "SpectrumState \<Rightarrow> end_event list" where
  "end_of_state SpIDLE = []"
| "end_of_state SpCCA_BUSY = []"
| "end_of_state SpTX = [AtEndTx]"
| "end_of_state SpRX_DATA = [AtEndRxData]"
| "end_of_state SpRX_DL_CTRL = [AtEndRxCtrl]"
| "end_of_state SpRX_UL_CTRL = [AtEndRxCtrl]"
| "end_of_state SpRX_UL_SRS = [AtEndRxSrs]"

definition sp_inv :: "('m, 'p, 'o) spectrum_phy \<Rightarrow> end_event list \<Rightarrow> bool" where
  "sp_inv s due \<longleftrightarrow> due = end_of_state (sp_state s) \<and> (sp_rxPacketBurstList s \<noteq> [] \<longrightarrow> sp_state s = SpRX_DATA) \<and>
     (sp_rxControlMessageList s \<noteq> [] \<longrightarrow> sp_state s \<in> {SpRX_DATA, SpRX_DL_CTRL, SpRX_UL_CTRL, SpRX_UL_SRS}) \<and>
     (sp_state s = SpRX_UL_SRS \<longrightarrow> length (sp_rxControlMessageList s) = 1)"

lemma idle_state:
  "MaybeCcaBusy now delay s = Inr (s', out) \<Longrightarrow> sp_state s' \<in> {SpIDLE, SpCCA_BUSY} \<and> ends_of out = [] \<and>
     sp_rxPacketBurstList s' = sp_rxPacketBurstList s \<and> sp_rxControlMessageList s' = sp_rxControlMessageList s"
  by (auto simp: MaybeCcaBusy_def ChangeState_def Let_def ns_abort_if_Inr_iff split: if_splits)

lemma back_idle:
  "back_to_idle x now delay s = Inr (s', out) \<Longrightarrow> sp_state s' \<in> {SpIDLE, SpCCA_BUSY} \<and> ends_of out = [] \<and>
     sp_rxPacketBurstList s' = sp_rxPacketBurstList s \<and> sp_rxControlMessageList s' = sp_rxControlMessageList s"
  by (auto simp: back_to_idle_def ChangeState_def split: if_splits dest: idle_state)

lemma inv_start_tx: "sp_inv s due \<Longrightarrow> start_tx sig d s = Inr (s', out) \<Longrightarrow> sp_inv s' (due @ ends_of out)"
  by (auto simp: sp_inv_def start_tx_def ChangeState_def split: if_splits)

lemma inv_rx_data: "sp_inv s due \<Longrightarrow> StartRxData x overlap now d pb msgs s = Inr (s', out) \<Longrightarrow> sp_inv s' (due @ ends_of out)"
  by (auto simp: sp_inv_def StartRxData_def ChangeState_def res_simps split: if_splits)

lemma inv_rx_dl_ctrl: "sp_inv s due \<Longrightarrow> StartRxDlCtrl x d msgs s = Inr (s', out) \<Longrightarrow> sp_inv s' (due @ ends_of out)"
  by (auto simp: sp_inv_def StartRxDlCtrl_def ChangeState_def res_simps split: if_splits)

lemma inv_rx_ul_ctrl: "sp_inv s due \<Longrightarrow> StartRxUlCtrl x now d msgs s = Inr (s', out) \<Longrightarrow> sp_inv s' (due @ ends_of out)"
  by (auto simp: sp_inv_def StartRxUlCtrl_def ChangeState_def res_simps split: if_splits)

lemma inv_rx_srs: "sp_inv s due \<Longrightarrow> StartRxSrs x now d msgs s = Inr (s', out) \<Longrightarrow> sp_inv s' (due @ ends_of out)"
  by (auto simp: sp_inv_def StartRxSrs_def ChangeState_def res_simps split: if_splits)


lemma ends_of_Pss: "ends_of (PhyRxPss c # out) = ends_of out"
  by simp

lemma inv_dispatch:
  assumes "sp_inv s due" and "rx_dispatch x overlap now cell stream signal s = Inr (s', out)"
  shows "sp_inv s' (due @ ends_of out)"
proof (cases signal)
  case None
  then show ?thesis using assms by (auto simp: rx_dispatch_def)
next
  case (Some sig)
  then show ?thesis
    using assms inv_rx_data[OF assms(1)] inv_rx_dl_ctrl[OF assms(1)] inv_rx_ul_ctrl[OF assms(1)] inv_rx_srs[OF assms(1)]
    by (cases sig) (auto simp: rx_dispatch_def Let_def bindE_Inr_iff split: if_splits)
qed

lemma inv_maybe_busy:
  assumes "sp_inv s due" and "sp_state s \<in> {SpIDLE, SpCCA_BUSY}" and "MaybeCcaBusy now delay s = Inr (s', out)"
  shows "sp_inv s' (due @ ends_of out)"
  using assms(1,2) idle_state[OF assms(3)] by (auto simp: sp_inv_def)

lemma inv_start_rx:
  assumes "sp_inv s due" and "StartRx x overlap now delay cell stream signal s = Inr (s', out)"
  shows "sp_inv s' (due @ ends_of out)"
proof (cases "other_stream x cell stream signal")
  case True
  then show ?thesis using assms by (simp add: StartRx_def)
next
  case False
  obtain t o1 where t: "rx_dispatch x overlap now cell stream signal s = Inr (t, o1)"
    using assms(2) False by (auto simp: StartRx_def res_simps)
  note inv = inv_dispatch[OF assms(1) t]
  show ?thesis
  proof (cases "x_unlicensedMode x \<and> sp_state t = SpIDLE")
    case True
    then obtain o2 where "MaybeCcaBusy now delay t = Inr (s', o2)" "out = o1 @ o2"
      using assms(2) False t by (auto simp: StartRx_def res_simps)
    then show ?thesis using inv_maybe_busy[OF inv] True by simp
  next
    case nb: False
    then show ?thesis using assms(2) False t inv by (auto simp: StartRx_def)
  qed
qed

lemma inv_check: "sp_inv s due \<Longrightarrow> CheckIfStillBusy now delay s = Inr (s', out) \<Longrightarrow> sp_inv s' (due @ ends_of out)"
  by (auto simp: sp_inv_def CheckIfStillBusy_def Let_def ns_abort_if_Inr_iff dest!: idle_state split: if_splits)

lemma packets_no_ends:
  "foldE (receive_packet x) (s, out) ps = Inr (s', out') \<Longrightarrow> ends_of out' = ends_of out \<and> sp_state s' = sp_state s"
proof (induction ps arbitrary: s out)
  case (Cons p r)
  obtain t o1 where t: "receive_packet x (s, out) p = Inr (t, o1)" "foldE (receive_packet x) (t, o1) r = Inr (s', out')"
    using Cons.prems by (auto simp: res_simps)
  have "ends_of [harq_feedback x rnti tb] = []" for rnti tb by (simp add: harq_feedback_def Let_def)
  then have "ends_of o1 = ends_of out \<and> sp_state t = sp_state s"
    using t(1) by (auto simp: receive_packet_def Let_def res_simps split: if_splits option.splits)
  then show ?case using Cons.IH[OF t(2)] by simp
qed simp

lemma EndRxData_idle:
  assumes "EndRxData x draw now delay s = Inr (s', out)"
  shows "sp_state s' \<in> {SpIDLE, SpCCA_BUSY} \<and> ends_of out = [] \<and> sp_rxPacketBurstList s' = [] \<and> sp_rxControlMessageList s' = []"
proof -
  obtain tbs hq where hq: "evaluate_tbs x draw (sp_rxPacketBurstList s \<noteq> []) (sp_transportBlocks s) (sp_harqPhyModule s) = Inr (tbs, hq)"
    using assms by (auto simp: EndRxData_def ns_assert_Inr_iff bindE_Inr_iff)
  obtain t o1 where t: "foldE (receive_packet x) (s\<lparr>sp_transportBlocks := tbs, sp_harqPhyModule := hq\<rparr>, []) (concat (sp_rxPacketBurstList s)) = Inr (t, o1)"
    using assms hq by (auto simp: EndRxData_def ns_assert_Inr_iff bindE_Inr_iff)
  obtain u o2 where u: "back_to_idle x now delay t = Inr (u, o2)"
    "s' = u\<lparr>sp_rxPacketBurstList := [], sp_transportBlocks := [], sp_rxControlMessageList := []\<rparr>"
    "out = (o1 @ (if sp_rxControlMessageList t \<noteq> [] then [PhyRxCtrlEndOk (sp_rxControlMessageList t)] else [])) @ o2"
    using assms hq t by (auto simp: EndRxData_def ns_assert_Inr_iff bindE_Inr_iff Let_def)
  show ?thesis using packets_no_ends[OF t] back_idle[OF u(1)] u(2,3) by simp
qed

lemma inv_finish:
  assumes "sp_inv s due" and "ev \<in> set due" and "at_end x draw now delay ev s = Inr (s', out)"
  shows "sp_inv s' (remove1 ev due @ ends_of out)"
proof -
  have due: "due = end_of_state (sp_state s)" using assms(1) by (simp add: sp_inv_def)
  then have "remove1 ev due = []" using assms(2) by (cases "sp_state s") auto
  moreover have "sp_state s' \<in> {SpIDLE, SpCCA_BUSY} \<and> ends_of out = [] \<and> sp_rxPacketBurstList s' = [] \<and> sp_rxControlMessageList s' = []"
  proof (cases ev)
    case AtEndRxData
    then show ?thesis using assms(3) EndRxData_idle by simp
  next
    case AtEndTx
    then show ?thesis using assms back_idle[of x now delay s] by (fastforce simp: EndTx_def ns_assert_Inr_iff sp_inv_def)
  next
    case AtEndRxCtrl
    then show ?thesis using assms(3,1) by (auto simp: EndRxCtrl_def ns_assert_Inr_iff bindE_Inr_iff Let_def sp_inv_def dest!: back_idle)
  next
    case AtEndRxSrs
    then show ?thesis using assms(3,1) by (auto simp: EndRxSrs_def ns_assert_Inr_iff bindE_Inr_iff Let_def sp_inv_def dest!: back_idle)
  qed
  ultimately show ?thesis by (auto simp: sp_inv_def)
qed

lemma reaches_inv: "sp_reaches x s due \<Longrightarrow> sp_inv s due"
proof (induction rule: sp_reaches.induct)
  case (initially s)
  then show ?case by (simp add: sp_inv_def)
next
  case (expect s due rnti tb)
  then show ?case by (simp add: sp_inv_def sp_AddExpectedTb_def)
next
  case (expect_srs s due rnti)
  then show ?case by (simp add: sp_inv_def sp_AddExpectedSrsRnti_def)
qed (auto simp: StartTxDataFrames_def StartTxDlControlFrames_def StartTxUlControlFrames_def
    intro: inv_start_tx inv_start_rx inv_check inv_finish)

text \<open>What the handler of an end event asserts.\<close>

fun asserted :: "end_event \<Rightarrow> ('m, 'p, 'o) spectrum_phy \<Rightarrow> bool" where
  "asserted AtEndTx s = (sp_state s = SpTX)"
| "asserted AtEndRxData s = (sp_state s = SpRX_DATA)"
| "asserted AtEndRxCtrl s = (sp_state s \<in> {SpRX_DL_CTRL, SpRX_UL_CTRL})"
| "asserted AtEndRxSrs s = (sp_state s = SpRX_UL_SRS \<and> length (sp_rxControlMessageList s) = 1)"

text \<open>
  A device does one thing at a time (the states of \<open>NrSpectrumPhy\<close>, all transmissions and receptions with their ends). Whatever
  signals arrive and whatever is sent, in any order, at most one end of a transmission or reception is due, one is due exactly
  when the PHY is neither idle nor busy with the channel, and then the PHY is in the state its handler asserts. In a licensed
  band the end of a transmission, of control or of sounding then never fails and leaves the PHY idle.
\<close>

lemma end_events_in_state:
  assumes "sp_reaches x s due"
  shows "length due \<le> 1 \<and> (due = [] \<longleftrightarrow> sp_state s \<in> {SpIDLE, SpCCA_BUSY}) \<and> (\<forall>ev \<in> set due. asserted ev s) \<and>
    (\<not> x_unlicensedMode x \<longrightarrow> (\<forall>ev \<in> set due. ev \<noteq> AtEndRxData \<longrightarrow>
       (\<exists>s' out. at_end x draw now delay ev s = Inr (s', out) \<and> sp_state s' = SpIDLE)))"
proof -
  have due: "due = end_of_state (sp_state s)" and srs: "sp_state s = SpRX_UL_SRS \<longrightarrow> length (sp_rxControlMessageList s) = 1"
    using reaches_inv[OF assms] by (simp_all add: sp_inv_def)
  show ?thesis
    using srs unfolding due
    by (cases "sp_state s") (auto simp: EndTx_def EndRxCtrl_def EndRxSrs_def back_to_idle_def ChangeState_def Let_def)
qed

text \<open>A gNB that receives control information of a UE.\<close>

lemma end_events_in_state_witness:
  "\<exists>s' out. at_end \<lparr>x_isEnb = True, x_cellId = 1, x_streamId = 0, x_unlicensedMode = False, x_dataErrorModelEnabled = True,
       x_tbStats = (\<lambda>_ _ _ _. Inr (Num 0)), x_tbler = id, x_isSrs = (\<lambda>_. False), x_size = (\<lambda>_. 1), x_rnti = (\<lambda>_. None)\<rparr>
     (\<lambda>_. Num 0) 100 0 AtEndRxCtrl
     \<lparr>sp_state = SpRX_UL_CTRL, sp_transportBlocks = [], sp_rxPacketBurstList = [] :: nat list list, sp_rxControlMessageList = [5 :: nat],
      sp_firstRxStart = 0, sp_firstRxDuration = 100, sp_currentSrsRnti = 0, sp_checkIfIsIdle = False, sp_busyTimeEnds = 0,
      sp_harqPhyModule = \<lparr>hq_dlHistory = [], hq_ulHistory = []\<rparr>\<rparr> = Inr (s', out) \<and> sp_state s' = SpIDLE"
proof -
  let ?x = "\<lparr>x_isEnb = True, x_cellId = 1, x_streamId = 0, x_unlicensedMode = False, x_dataErrorModelEnabled = True,
       x_tbStats = (\<lambda>_ _ _ _. Inr (Num 0)), x_tbler = id, x_isSrs = (\<lambda>_. False), x_size = (\<lambda>_. 1), x_rnti = (\<lambda>_. None)\<rparr> :: (nat, nat, fp) sp_env"
  let ?s = "\<lambda>st msgs. \<lparr>sp_state = st, sp_transportBlocks = [], sp_rxPacketBurstList = [] :: nat list list, sp_rxControlMessageList = msgs :: nat list,
      sp_firstRxStart = 0, sp_firstRxDuration = (if msgs = [] then 0 else 100), sp_currentSrsRnti = 0, sp_checkIfIsIdle = False, sp_busyTimeEnds = 0,
      sp_harqPhyModule = \<lparr>hq_dlHistory = [], hq_ulHistory = []\<rparr>\<rparr> :: (nat, nat, fp) spectrum_phy"
  have "sp_reaches ?x (?s SpIDLE []) []" by (rule sp_reaches.initially) simp_all
  moreover have "StartRx ?x False 0 0 1 0 (Some (UlCtrlFrame 100 [5])) (?s SpIDLE []) =
      Inr (?s SpRX_UL_CTRL [5], [ScheduleEndRxCtrl 100, ChannelOccupied 100])"
    by (simp add: StartRx_def other_stream_def rx_dispatch_def IsOnlySrs_def StartRxUlCtrl_def ChangeState_def)
  ultimately have "sp_reaches ?x (?s SpRX_UL_CTRL [5]) [AtEndRxCtrl]"
    using sp_reaches.receive[of ?x "?s SpIDLE []" "[]"] by fastforce
  from end_events_in_state[OF this, of "\<lambda>_. Num 0" 100 0] show ?thesis by simp
qed

end
